(* ===== verification/Dnf_Prelude.thy ===== *)
theory Dnf_Prelude
  imports Main "HOL-Library.Word" "HOL-Library.Char_ord" "HOL-Library.List_Lexorder"
    "HOL-Library.Product_Lexorder" "HOL-Library.Option_ord" "HOL-Library.Multiset"
    "HOL-Library.Code_Target_Numeral"
begin

text \<open>
  What every component of the development shares: the machine integers and byte strings of the
  source, \<^verbatim>\<open>Result\<close> as a sum type with its early return, the loops of the source that may
  leave early, adjacent-pair checks over sorted vectors, \<^verbatim>\<open>BTreeMap\<close> as an ordered association
  list, ASCII and UTF-8 classification, decimal formatting and binary search.

  A Rust \<^verbatim>\<open>String\<close> is the \<^typ>\<open>string\<close> of its UTF-8 bytes: \<^verbatim>\<open>len\<close> counts bytes and \<^verbatim>\<open>Ord\<close>
  compares bytes, as the lexicographic order on \<^typ>\<open>string\<close> does; where the source looks at
  Unicode scalar values, \<open>chars_of\<close> decodes them.
\<close>

section \<open>Machine integers\<close>

type_synonym u8 = "8 word"
type_synonym u32 = "32 word"
type_synonym u64 = "64 word"
type_synonym i32 = "32 word"

type_synonym bytes = "string"

definition checked_add :: "'l::len word \<Rightarrow> 'l word \<Rightarrow> 'l word option" where
  "checked_add a b = (if unat a + unat b < 2 ^ LENGTH('l) then Some (a + b) else None)"

section \<open>Results and loops that return early\<close>

type_synonym ('e, 'a) result = "'e + 'a"

named_theorems result_simps \<open>characterisations of a successful computation\<close>

definition bindR :: "('e, 'a) result \<Rightarrow> ('a \<Rightarrow> ('e, 'b) result) \<Rightarrow> ('e, 'b) result" where
  "bindR m f = (case m of Inl e \<Rightarrow> Inl e | Inr x \<Rightarrow> f x)"

definition map_err :: "('e \<Rightarrow> 'd) \<Rightarrow> ('e, 'a) result \<Rightarrow> ('d, 'a) result" where
  "map_err f m = (case m of Inl e \<Rightarrow> Inl (f e) | Inr x \<Rightarrow> Inr x)"

definition ok_or :: "'e \<Rightarrow> 'a option \<Rightarrow> ('e, 'a) result" where
  "ok_or e v = (case v of None \<Rightarrow> Inl e | Some x \<Rightarrow> Inr x)"

text \<open>\<^verbatim>\<open>for x in xs { f(x)?; }\<close>\<close>

fun forR :: "('a \<Rightarrow> ('e, unit) result) \<Rightarrow> 'a list \<Rightarrow> ('e, unit) result" where
  "forR f [] = Inr ()"
| "forR f (x # xs) = bindR (f x) (\<lambda>_. forR f xs)"

text \<open>\<^verbatim>\<open>xs.iter().map(f).collect::<Result<Vec<_>, _>>()\<close>\<close>

fun mapR :: "('a \<Rightarrow> ('e, 'b) result) \<Rightarrow> 'a list \<Rightarrow> ('e, 'b list) result" where
  "mapR f [] = Inr []"
| "mapR f (x # xs) = bindR (f x) (\<lambda>y. bindR (mapR f xs) (\<lambda>ys. Inr (y # ys)))"

text \<open>\<^verbatim>\<open>for x in xs { if !seen.insert(key(x)) { return Err(err(x)) } }\<close>\<close>

fun insert_unique :: "('a \<Rightarrow> 'k) \<Rightarrow> ('a \<Rightarrow> 'e) \<Rightarrow> 'k set \<Rightarrow> 'a list \<Rightarrow> ('e, unit) result" where
  "insert_unique key err seen [] = Inr ()"
| "insert_unique key err seen (x # xs) =
     (if key x \<in> seen then Inl (err x)
      else insert_unique key err (insert (key x) seen) xs)"

lemma checked_add_Some:
  "checked_add a b = Some c \<longleftrightarrow> unat a + unat b < 2 ^ LENGTH('l) \<and> c = a + b" for a b :: "'l::len word"
  by (auto simp: checked_add_def)

lemma unat_add_fits: "unat a + unat b < 2 ^ LENGTH('l) \<Longrightarrow> unat (a + b) = unat a + unat b" for a b :: "'l::len word"
  by (simp add: unat_word_ariths)

lemma bindR_Inl [simp]: "bindR (Inl e) f = Inl e"
  by (simp add: bindR_def)

lemma bindR_Inr [simp]: "bindR (Inr x) f = f x"
  by (simp add: bindR_def)

lemma bindR_eq_Inr [result_simps]:
  "bindR m f = Inr y \<longleftrightarrow> (\<exists>x. m = Inr x \<and> f x = Inr y)"
  by (cases m) simp_all

lemma bindR_eq_Inl: "bindR m f = Inl e \<longleftrightarrow> m = Inl e \<or> (\<exists>x. m = Inr x \<and> f x = Inl e)"
  by (cases m) auto

lemma bindR_assoc: "bindR (bindR m f) g = bindR m (\<lambda>x. bindR (f x) g)"
  by (cases m) simp_all

lemma map_err_simps [simp]: "map_err f (Inl e) = Inl (f e)" "map_err f (Inr x) = Inr x"
  by (simp_all add: map_err_def)

lemma map_err_eq_Inr [result_simps]: "map_err f m = Inr y \<longleftrightarrow> m = Inr y"
  by (cases m) simp_all

lemma ok_or_simps [simp]: "ok_or e None = Inl e" "ok_or e (Some x) = Inr x"
  by (simp_all add: ok_or_def)

lemma ok_or_eq_Inr [result_simps]: "ok_or e v = Inr x \<longleftrightarrow> v = Some x"
  by (cases v) simp_all

lemma if_Inl_eq_Inr [result_simps]: "(if b then Inl e else m) = Inr y \<longleftrightarrow> \<not> b \<and> m = Inr y"
  by simp

lemma unit_result_cases: "m = Inr () \<or> (\<exists>e. m = Inl e)"
  by (cases m) auto

lemma forR_eq_Inr [result_simps]: "forR f xs = Inr u \<longleftrightarrow> (\<forall>x\<in>set xs. f x = Inr ())"
  by (induction xs) (auto simp: bindR_eq_Inr)

lemma forR_eq_Inl_imp: "forR f xs = Inl e \<Longrightarrow> \<exists>x\<in>set xs. f x = Inl e"
  by (induction xs) (auto simp: bindR_eq_Inl)

lemma mapR_eq_Inr:
  "mapR f xs = Inr ys \<longleftrightarrow> length ys = length xs \<and> (\<forall>i < length xs. f (xs ! i) = Inr (ys ! i))"
proof (induction xs arbitrary: ys)
  case Nil
  then show ?case by auto
next
  case (Cons x xs)
  show ?case
    by (cases ys) (auto simp: bindR_eq_Inr Cons.IH nth_Cons split: nat.splits)
qed

lemma mapR_all_Inr: "(\<And>x. x \<in> set xs \<Longrightarrow> f x = Inr (g x)) \<Longrightarrow> mapR f xs = Inr (map g xs)"
  by (induction xs) auto

lemma mapR_Inr_map: "mapR f xs = Inr ys \<Longrightarrow> map f xs = map Inr ys"
  by (auto simp: mapR_eq_Inr list_eq_iff_nth_eq)

lemma insert_unique_eq_Inr [result_simps]:
  "insert_unique key err seen xs = Inr u \<longleftrightarrow> distinct (map key xs) \<and> set (map key xs) \<inter> seen = {}"
  by (induction xs arbitrary: seen) auto

section \<open>Orderings\<close>

datatype ordering = Less | Equal | Greater

definition cmp :: "'a::linorder \<Rightarrow> 'a \<Rightarrow> ordering" where
  "cmp a b = (if a < b then Less else if a = b then Equal else Greater)"

definition is_gt :: "ordering \<Rightarrow> bool" where
  "is_gt r \<longleftrightarrow> r = Greater"

fun reverse :: "ordering \<Rightarrow> ordering" where
  "reverse Less = Greater"
| "reverse Equal = Equal"
| "reverse Greater = Less"

lemma cmp_simps [simp]:
  "cmp a b = Less \<longleftrightarrow> a < b" "cmp a b = Equal \<longleftrightarrow> a = b" "cmp a b = Greater \<longleftrightarrow> b < a"
  "Less = cmp a b \<longleftrightarrow> a < b" "Equal = cmp a b \<longleftrightarrow> a = b" "Greater = cmp a b \<longleftrightarrow> b < a"
  by (auto simp: cmp_def)

lemma cmp_reverse: "reverse (cmp a b) = cmp b a"
  by (auto simp: cmp_def)

lemma cmp_eq_iff_compare: "cmp a b = cmp c d \<longleftrightarrow> (a < b \<longleftrightarrow> c < d) \<and> (a = b \<longleftrightarrow> c = d)"
  by (auto simp: cmp_def)

section \<open>Vectors\<close>

text \<open>\<^verbatim>\<open>xs.windows(2).any(|pair| p(pair[0], pair[1]))\<close>\<close>

fun any_window :: "('a \<Rightarrow> 'a \<Rightarrow> bool) \<Rightarrow> 'a list \<Rightarrow> bool" where
  "any_window p (x # y # zs) = (p x y \<or> any_window p (y # zs))"
| "any_window p _ = False"

text \<open>\<^verbatim>\<open>xs.sort(); xs.dedup();\<close>\<close>

definition sort_dedup :: "'a::linorder list \<Rightarrow> 'a list" where
  "sort_dedup xs = remdups_adj (sort xs)"

lemma any_window_ge_iff [simp]:
  "any_window (\<lambda>a b. key a \<ge> key b) xs \<longleftrightarrow> \<not> sorted_wrt (<) (map key xs)"
  for key :: "'a \<Rightarrow> 'k::linorder"
proof (induction xs rule: induct_list012)
  case (3 x y zs)
  have "sorted_wrt (<) (key x # key y # map key zs) \<longleftrightarrow>
      key x < key y \<and> sorted_wrt (<) (key y # map key zs)"
    by (subst sorted_wrt2) (simp_all add: transp_on_less)
  with "3.IH"(2) show ?case by auto
qed simp_all

lemma any_window_ge_id [simp]:
  "any_window (\<ge>) xs \<longleftrightarrow> \<not> sorted_wrt (<) xs" for xs :: "'k::linorder list"
  using any_window_ge_iff [of "\<lambda>x. x" xs] by simp

lemma any_window_eq_sorted:
  "sorted xs \<Longrightarrow> any_window (=) xs \<longleftrightarrow> \<not> distinct xs" for xs :: "'k::linorder list"
proof (induction xs rule: induct_list012)
  case (3 x y zs)
  then show ?case by (auto simp: antisym)
qed simp_all

lemma set_sort_dedup [simp]: "set (sort_dedup xs) = set xs"
  by (simp add: sort_dedup_def)

lemma distinct_remdups_adj_sorted: "sorted xs \<Longrightarrow> distinct (remdups_adj xs)"
  for xs :: "'k::linorder list"
  by (induction xs rule: remdups_adj.induct) (auto simp: antisym)

lemma sorted_wrt_sort_dedup [simp]: "sorted_wrt (<) (sort_dedup xs)"
  by (simp add: sort_dedup_def strict_sorted_iff distinct_remdups_adj_sorted sorted_remdups_adj)

lemma sort_dedup_unique: "sorted_wrt (<) xs \<Longrightarrow> set xs = A \<Longrightarrow> sort_dedup ys = xs \<longleftrightarrow> set ys = A"
  by (metis set_sort_dedup sorted_wrt_sort_dedup strict_sorted_equal)

lemma sort_dedup_id [simp]: "sorted_wrt (<) xs \<Longrightarrow> sort_dedup xs = xs"
  by (simp add: sort_dedup_unique)

lemma length_sort_dedup: "length (sort_dedup xs) = card (set xs)"
  by (metis distinct_card set_sort_dedup sorted_wrt_sort_dedup strict_sorted_iff)

lemma sort_key_strict: "distinct (map key xs) \<Longrightarrow> sorted_wrt (<) (map key (sort_key key xs))"
  for key :: "'a \<Rightarrow> 'k::linorder"
  by (simp add: strict_sorted_iff distinct_map inj_on_def)

lemma map_sort_key: "map key (sort_key key xs) = sort (map key xs)"
  for key :: "'a \<Rightarrow> 'k::linorder"
  by (rule properties_for_sort [symmetric]) simp_all

lemma sort_key_mset_cong:
  fixes key :: "'a \<Rightarrow> 'k::linorder"
  assumes "mset xs = mset ys" "inj_on key (set xs)"
  shows "sort_key key xs = sort_key key ys"
proof (rule map_inj_on)
  have "sort (map key xs) = sort (map key ys)"
    using assms(1) by (intro properties_for_sort) simp_all
  then show "map key (sort_key key xs) = map key (sort_key key ys)"
    by (simp add: map_sort_key)
  show "inj_on key (set (sort_key key xs) \<union> set (sort_key key ys))"
    using assms mset_eq_setD by fastforce
qed

section \<open>Binary search\<close>

text \<open>
  \<^verbatim>\<open>slice.binary_search(x).is_ok()\<close>: halve the range \<open>[lo, hi)\<close> until the element is met or the
  range is empty.
\<close>

function bsearch :: "'a::linorder list \<Rightarrow> 'a \<Rightarrow> nat \<Rightarrow> nat \<Rightarrow> bool" where
  "bsearch xs x lo hi =
     (if lo < hi then
        (let mid = (lo + hi) div 2
         in if xs ! mid = x then True
            else if xs ! mid < x then bsearch xs x (Suc mid) hi
            else bsearch xs x lo mid)
      else False)"
  by pat_completeness auto
termination
  by (relation "measure (\<lambda>(xs, x, lo, hi). hi - lo)") auto

declare bsearch.simps [simp del]

definition binary_search_is_ok :: "'a::linorder list \<Rightarrow> 'a \<Rightarrow> bool" where
  "binary_search_is_ok xs x = bsearch xs x 0 (length xs)"

lemma bsearch_iff:
  assumes "sorted_wrt (<) xs" "hi \<le> length xs"
  shows "bsearch xs x lo hi \<longleftrightarrow> (\<exists>i. lo \<le> i \<and> i < hi \<and> xs ! i = x)"
  using assms
proof (induction xs x lo hi rule: bsearch.induct)
  case (1 xs x lo hi)
  let ?m = "(lo + hi) div 2"
  show ?case
  proof (cases "lo < hi")
    case True
    then have m: "lo \<le> ?m" "?m < hi" by auto
    have lt: "xs ! i < xs ! j" if "i < j" "j < hi" for i j
      using "1.prems" that by (simp add: sorted_wrt_nth_less)
    consider "xs ! ?m = x" | "xs ! ?m < x" | "x < xs ! ?m" by fastforce
    then show ?thesis
    proof cases
      case 1
      then show ?thesis using m True by (auto simp: bsearch.simps [of xs x lo hi] Let_def)
    next
      case 2
      have "\<not> i \<le> ?m" if "i < hi" "xs ! i = x" for i
        using lt [of i ?m] m 2 that by (metis le_neq_implies_less less_asym)
      then have "(Suc ?m \<le> i \<and> i < hi \<and> xs ! i = x) \<longleftrightarrow> (lo \<le> i \<and> i < hi \<and> xs ! i = x)" for i
        using m(1) by fastforce
      moreover have "bsearch xs x (Suc ?m) hi \<longleftrightarrow> (\<exists>i. Suc ?m \<le> i \<and> i < hi \<and> xs ! i = x)"
        using "1.IH"(1) [OF True refl] 2 "1.prems" by auto
      ultimately show ?thesis
        using True less_imp_neq [OF 2] 2 by (simp only: bsearch.simps [of xs x lo hi] Let_def if_True if_False)
    next
      case 3
      have "\<not> ?m \<le> i" if "i < hi" "xs ! i = x" for i
        using lt [of ?m i] m 3 that by (metis le_neq_implies_less less_asym)
      then have "(lo \<le> i \<and> i < ?m \<and> xs ! i = x) \<longleftrightarrow> (lo \<le> i \<and> i < hi \<and> xs ! i = x)" for i
        using m(2) by fastforce
      moreover have "bsearch xs x lo ?m \<longleftrightarrow> (\<exists>i. lo \<le> i \<and> i < ?m \<and> xs ! i = x)"
        using "1.IH"(2) [OF True refl] 3 "1.prems" m by auto
      ultimately show ?thesis
        using True less_imp_neq [OF 3, symmetric] less_not_sym [OF 3]
        by (simp only: bsearch.simps [of xs x lo hi] Let_def if_True if_False)
    qed
  qed (auto simp: bsearch.simps [of xs x lo hi])
qed

lemma binary_search_is_ok_iff [simp]:
  "sorted_wrt (<) xs \<Longrightarrow> binary_search_is_ok xs x \<longleftrightarrow> x \<in> set xs"
  by (auto simp: binary_search_is_ok_def bsearch_iff in_set_conv_nth)

section \<open>BTreeMap as an ordered association list\<close>

text \<open>
  The iteration order of a \<^verbatim>\<open>BTreeMap\<close> is the order of its keys: the model is the list of its
  bindings in that order.
\<close>

type_synonym ('k, 'v) btree_map = "('k \<times> 'v) list"

fun bt_insert :: "'k::linorder \<Rightarrow> 'v \<Rightarrow> ('k, 'v) btree_map \<Rightarrow> ('k, 'v) btree_map" where
  "bt_insert k v [] = [(k, v)]"
| "bt_insert k v ((a, b) # m) =
     (if k < a then (k, v) # (a, b) # m
      else if k = a then (k, v) # m
      else (a, b) # bt_insert k v m)"

definition bt_remove :: "'k \<Rightarrow> ('k, 'v) btree_map \<Rightarrow> ('k, 'v) btree_map" where
  "bt_remove k m = filter (\<lambda>(a, b). a \<noteq> k) m"

definition bt_keys :: "('k, 'v) btree_map \<Rightarrow> 'k list" where
  "bt_keys m = map fst m"

definition bt_values :: "('k, 'v) btree_map \<Rightarrow> 'v list" where
  "bt_values m = map snd m"

text \<open>\<^verbatim>\<open>iter.collect::<BTreeMap<_, _>>()\<close>: a later binding of a key replaces an earlier one.\<close>

definition bt_collect :: "('k::linorder \<times> 'v) list \<Rightarrow> ('k, 'v) btree_map" where
  "bt_collect xs = fold (\<lambda>(k, v) m. bt_insert k v m) xs []"

definition bt_ok :: "('k::linorder, 'v) btree_map \<Rightarrow> bool" where
  "bt_ok m \<longleftrightarrow> sorted_wrt (<) (bt_keys m)"

locale ordered_map =
  fixes empty :: "'m"
    and lookup :: "'m \<Rightarrow> 'k::linorder \<Rightarrow> 'v option"
    and update :: "'k \<Rightarrow> 'v \<Rightarrow> 'm \<Rightarrow> 'm"
    and delete :: "'k \<Rightarrow> 'm \<Rightarrow> 'm"
    and keys :: "'m \<Rightarrow> 'k list"
    and invar :: "'m \<Rightarrow> bool"
  assumes invar_empty: "invar empty"
    and invar_update: "invar m \<Longrightarrow> invar (update k v m)"
    and invar_delete: "invar m \<Longrightarrow> invar (delete k m)"
    and lookup_empty: "lookup empty k = None"
    and lookup_update: "invar m \<Longrightarrow> lookup (update k v m) k' = (if k' = k then Some v else lookup m k')"
    and lookup_delete: "invar m \<Longrightarrow> lookup (delete k m) k' = (if k' = k then None else lookup m k')"
    and keys_sorted: "invar m \<Longrightarrow> sorted_wrt (<) (keys m)"
    and keys_dom: "invar m \<Longrightarrow> set (keys m) = dom (lookup m)"
begin

definition collect :: "('k \<times> 'v) list \<Rightarrow> 'm" where
  "collect xs = fold (\<lambda>(k, v) m. update k v m) xs empty"

lemma fold_update:
  "invar m \<Longrightarrow> invar (fold (\<lambda>(k, v) m. update k v m) xs m) \<and>
     (\<forall>k. lookup (fold (\<lambda>(k, v) m. update k v m) xs m) k =
        (case map_of (rev xs) k of None \<Rightarrow> lookup m k | Some v \<Rightarrow> Some v))"
  by (induction xs arbitrary: m) (auto simp: invar_update lookup_update map_add_def split: option.splits)

lemma invar_collect: "invar (collect xs)"
  using fold_update [OF invar_empty, of xs] by (simp add: collect_def)

lemma lookup_collect: "lookup (collect xs) k = map_of (rev xs) k"
  using fold_update [OF invar_empty, of xs] by (simp add: collect_def lookup_empty split: option.splits)

lemma keys_collect: "set (keys (collect xs)) = fst ` set xs"
proof -
  have "lookup (collect xs) = map_of (rev xs)"
    by (rule ext) (rule lookup_collect)
  then show ?thesis
    using keys_dom [OF invar_collect, of xs] by (simp add: dom_map_of_conv_image_fst)
qed

lemma keys_update_set: "invar m \<Longrightarrow> set (keys (update k v m)) = insert k (set (keys m))"
  by (auto simp: keys_dom invar_update lookup_update dom_def)

lemma keys_delete_set: "invar m \<Longrightarrow> set (keys (delete k m)) = set (keys m) - {k}"
  by (auto simp: keys_dom invar_delete lookup_delete dom_def split: if_splits)

end

lemma bt_insert_set: "fst ` set (bt_insert k v m) = insert k (fst ` set m)"
  by (induction k v m rule: bt_insert.induct) auto

lemma bt_ok_Nil [simp]: "bt_ok []"
  by (simp add: bt_ok_def bt_keys_def)

lemma bt_ok_Cons: "bt_ok ((a, b) # m) \<longleftrightarrow> (\<forall>k\<in>fst ` set m. a < k) \<and> bt_ok m"
  by (auto simp: bt_ok_def bt_keys_def)

lemma bt_ok_insert: "bt_ok m \<Longrightarrow> bt_ok (bt_insert k v m)"
proof (induction k v m rule: bt_insert.induct)
  case (2 k v a b m)
  then show ?case
    by (auto simp: bt_ok_Cons bt_insert_set ball_Un dest: less_trans)
qed (simp add: bt_ok_Cons)

lemma bt_insert_map_of: "bt_ok m \<Longrightarrow> map_of (bt_insert k v m) k' = (if k' = k then Some v else map_of m k')"
  by (induction k v m rule: bt_insert.induct) (auto simp: bt_ok_Cons)

lemma bt_ok_remove: "bt_ok m \<Longrightarrow> bt_ok (bt_remove k m)"
  by (induction m) (auto simp: bt_ok_Cons bt_remove_def)

lemma bt_remove_map_of: "map_of (bt_remove k m) k' = (if k' = k then None else map_of m k')"
  by (induction m) (auto simp: bt_remove_def)

lemma bt_ok_distinct: "bt_ok m \<Longrightarrow> distinct (map fst m)"
  by (simp add: bt_ok_def bt_keys_def strict_sorted_iff)

lemma bt_keys_sorted: "bt_ok m \<Longrightarrow> sorted_wrt (<) (map fst m)"
  by (simp add: bt_ok_def bt_keys_def)

interpretation btree: ordered_map "[]" map_of bt_insert bt_remove bt_keys bt_ok
  by unfold_locales
    (auto simp: bt_ok_insert bt_ok_remove bt_insert_map_of bt_remove_map_of bt_keys_sorted
      bt_keys_def dom_map_of_conv_image_fst)

lemma bt_set: "bt_ok m \<Longrightarrow> (k, v) \<in> set m \<longleftrightarrow> map_of m k = Some v"
  using bt_ok_distinct [of m] by (auto dest: map_of_SomeD intro: map_of_is_SomeI)

lemma bt_ext:
  assumes m: "bt_ok m" "bt_ok m'" and same: "\<And>k. map_of m k = map_of m' k"
  shows "m = m'"
proof -
  have "x \<in> set m \<longleftrightarrow> x \<in> set m'" for x
    using bt_set [OF m(1), of "fst x" "snd x"] bt_set [OF m(2), of "fst x" "snd x"] same by simp
  then have sets: "set m = set m'" by blast
  have inj: "inj_on fst (set m)"
    using bt_ok_distinct [OF m(1)] by (simp add: distinct_map)
  show ?thesis
    using m sets bt_keys_sorted inj by (metis Un_absorb map_sorted_distinct_set_unique strict_sorted_iff)
qed

lemma map_of_filter_key: "map_of (filter (\<lambda>(n, _). P n) m) k = (if P k then map_of m k else None)"
  by (induction m) auto

lemma bt_ok_filter: "bt_ok m \<Longrightarrow> bt_ok (filter Q m)"
  by (induction m) (auto simp: bt_ok_Cons)

lemma filter_bt_insert:
  assumes "bt_ok m"
  shows "\<not> P k \<Longrightarrow> filter (\<lambda>(n, _). P n) (bt_insert k v m) = filter (\<lambda>(n, _). P n) m"
    "P k \<Longrightarrow> filter (\<lambda>(n, _). P n) (bt_insert k v m) = bt_insert k v (filter (\<lambda>(n, _). P n) m)"
  using assms by (auto intro!: bt_ext simp: bt_ok_filter bt_ok_insert map_of_filter_key bt_insert_map_of)

lemma bt_collect_eq: "bt_collect = btree.collect"
  by (simp add: bt_collect_def [abs_def] btree.collect_def [abs_def])

lemma bt_ok_collect [simp]: "bt_ok (bt_collect xs)"
  by (simp add: bt_collect_eq btree.invar_collect)

lemma map_of_bt_collect [simp]: "map_of (bt_collect xs) k = map_of (rev xs) k"
  by (simp add: bt_collect_eq btree.lookup_collect)

section \<open>Bytes and characters\<close>

definition byte_of :: "char \<Rightarrow> nat" where
  "byte_of c = of_char c"

definition is_ascii_digit :: "char \<Rightarrow> bool" where
  "is_ascii_digit c \<longleftrightarrow> 48 \<le> byte_of c \<and> byte_of c \<le> 57"

definition is_ascii_uppercase :: "char \<Rightarrow> bool" where
  "is_ascii_uppercase c \<longleftrightarrow> 65 \<le> byte_of c \<and> byte_of c \<le> 90"

definition is_ascii_lowercase :: "char \<Rightarrow> bool" where
  "is_ascii_lowercase c \<longleftrightarrow> 97 \<le> byte_of c \<and> byte_of c \<le> 122"

definition is_ascii_alphanumeric :: "char \<Rightarrow> bool" where
  "is_ascii_alphanumeric c \<longleftrightarrow> is_ascii_digit c \<or> is_ascii_uppercase c \<or> is_ascii_lowercase c"

definition is_ascii_hexdigit :: "char \<Rightarrow> bool" where
  "is_ascii_hexdigit c \<longleftrightarrow> is_ascii_digit c \<or> (65 \<le> byte_of c \<and> byte_of c \<le> 70)
     \<or> (97 \<le> byte_of c \<and> byte_of c \<le> 102)"

definition to_ascii_lowercase :: "char \<Rightarrow> char" where
  "to_ascii_lowercase c = (if is_ascii_uppercase c then char_of (byte_of c + 32) else c)"

definition to_ascii_uppercase :: "char \<Rightarrow> char" where
  "to_ascii_uppercase c = (if is_ascii_lowercase c then char_of (byte_of c - 32) else c)"

lemmas ascii_defs = byte_of_def is_ascii_digit_def is_ascii_uppercase_def is_ascii_lowercase_def
  is_ascii_alphanumeric_def is_ascii_hexdigit_def

definition is_lower_hex :: "char \<Rightarrow> bool" where
  "is_lower_hex c \<longleftrightarrow> is_ascii_hexdigit c \<and> \<not> is_ascii_uppercase c"

lemma byte_of_lowercase:
  "byte_of (to_ascii_lowercase c) = (if is_ascii_uppercase c then byte_of c + 32 else byte_of c)"
  by (auto simp: to_ascii_lowercase_def ascii_defs)

lemma byte_of_uppercase:
  "byte_of (to_ascii_uppercase c) = (if is_ascii_lowercase c then byte_of c - 32 else byte_of c)"
  by (auto simp: to_ascii_uppercase_def ascii_defs)

lemma lowercase_is_lower_hex: "is_ascii_hexdigit c \<Longrightarrow> is_lower_hex (to_ascii_lowercase c)"
  unfolding is_lower_hex_def is_ascii_hexdigit_def is_ascii_digit_def is_ascii_uppercase_def
    byte_of_lowercase
  by auto

lemma is_lower_hex_lowercase_id: "is_lower_hex c \<Longrightarrow> to_ascii_lowercase c = c"
  by (simp add: is_lower_hex_def to_ascii_lowercase_def)

lemma uppercase_hexdigit: "is_ascii_hexdigit (to_ascii_uppercase c) \<longleftrightarrow> is_ascii_hexdigit c"
  unfolding is_ascii_hexdigit_def is_ascii_digit_def is_ascii_lowercase_def byte_of_uppercase
  by auto

text \<open>
  The Unicode scalar values of a UTF-8 string, as \<^verbatim>\<open>str::chars\<close> yields them. The lead byte
  gives the length of the sequence; every string the program holds is valid UTF-8.
\<close>

fun chars_of :: "bytes \<Rightarrow> nat list" where
  "chars_of [] = []"
| "chars_of (a # s) =
     (if byte_of a < 128 then byte_of a # chars_of s
      else case s of
        [] \<Rightarrow> [byte_of a]
      | b # s2 \<Rightarrow>
          if byte_of a < 224 then ((byte_of a mod 32) * 64 + byte_of b mod 64) # chars_of s2
          else case s2 of
            [] \<Rightarrow> [byte_of a]
          | c # s3 \<Rightarrow>
              if byte_of a < 240
              then ((byte_of a mod 16) * 4096 + (byte_of b mod 64) * 64 + byte_of c mod 64) # chars_of s3
              else case s3 of
                [] \<Rightarrow> [byte_of a]
              | d # s4 \<Rightarrow>
                  ((byte_of a mod 8) * 262144 + (byte_of b mod 64) * 4096
                    + (byte_of c mod 64) * 64 + byte_of d mod 64) # chars_of s4)"

text \<open>\<^verbatim>\<open>char::is_whitespace\<close> (the White\_Space property) and \<^verbatim>\<open>char::is_control\<close> (category Cc).\<close>

definition is_whitespace :: "nat \<Rightarrow> bool" where
  "is_whitespace c \<longleftrightarrow> (9 \<le> c \<and> c \<le> 13) \<or> c = 32 \<or> c = 133 \<or> c = 160 \<or> c = 5760
     \<or> (8192 \<le> c \<and> c \<le> 8202) \<or> c = 8232 \<or> c = 8233 \<or> c = 8239 \<or> c = 8287 \<or> c = 12288"

definition is_control :: "nat \<Rightarrow> bool" where
  "is_control c \<longleftrightarrow> c < 32 \<or> (127 \<le> c \<and> c < 160)"

section \<open>Formatting\<close>

definition digit_char :: "nat \<Rightarrow> char" where
  "digit_char d = char_of (48 + d)"

fun show_nat :: "nat \<Rightarrow> string" where
  "show_nat n = (if n < 10 then [digit_char n] else show_nat (n div 10) @ [digit_char (n mod 10)])"

declare show_nat.simps [simp del]

text \<open>\<^verbatim>\<open>{:020}\<close>\<close>

definition pad020 :: "string \<Rightarrow> string" where
  "pad020 s = replicate (20 - length s) (CHR ''0'') @ s"

definition ends_with :: "string \<Rightarrow> string \<Rightarrow> bool" where
  "ends_with s suffix \<longleftrightarrow> length suffix \<le> length s \<and> drop (length s - length suffix) s = suffix"

lemma ends_with_append [simp]: "ends_with (s @ suffix) suffix"
  by (simp add: ends_with_def)

text \<open>Reading a decimal number back, to see that distinct numbers have distinct names.\<close>

definition read_nat :: "string \<Rightarrow> nat" where
  "read_nat s = foldl (\<lambda>n c. 10 * n + (byte_of c - 48)) 0 s"

lemma byte_of_digit_char: "d < 10 \<Longrightarrow> byte_of (digit_char d) = 48 + d"
  by (simp add: byte_of_def digit_char_def)

lemma read_show_nat: "read_nat (show_nat n) = n"
proof (induction n rule: show_nat.induct)
  case (1 n)
  show ?case
  proof (cases "n < 10")
    case True
    then show ?thesis by (subst show_nat.simps) (simp add: read_nat_def byte_of_digit_char)
  next
    case False
    then have "read_nat (show_nat (n div 10)) = n div 10" by (rule "1.IH")
    moreover have "show_nat n = show_nat (n div 10) @ [digit_char (n mod 10)]"
      using False by (subst show_nat.simps) simp
    ultimately show ?thesis by (simp add: read_nat_def byte_of_digit_char)
  qed
qed

lemma read_pad020: "read_nat (pad020 s) = read_nat s"
proof -
  have "foldl (\<lambda>n c. 10 * n + (byte_of c - 48)) 0 (replicate k (CHR ''0'') @ s) =
      foldl (\<lambda>n c. 10 * n + (byte_of c - 48)) 0 s" for k
    by (induction k) (simp_all add: byte_of_def)
  then show ?thesis by (simp add: read_nat_def pad020_def)
qed

lemma pad020_show_nat_inj: "pad020 (show_nat m) = pad020 (show_nat n) \<longleftrightarrow> m = n"
  by (metis read_pad020 read_show_nat)

lemma show_nat_last: "show_nat n \<noteq> [] \<and> last (show_nat n) = digit_char (n mod 10)"
  using show_nat.simps [of n] by simp

lemma digit_char_not_letter: "d < 10 \<Longrightarrow> digit_char d \<noteq> CHR ''n''"
  using byte_of_digit_char [of d] by (auto simp: byte_of_def)

end
