(* ===== verification/Core_Value.thy ===== *)
theory Core_Value
  imports Dnf_Prelude
begin

text \<open>
  \<^verbatim>\<open>crates/dnfast-core/src/value.rs\<close>: the domain errors, SHA-256 digests, architectures and
  EVRA values, with RPM's version comparison. The comparison loop is shown to be the
  lexicographic order of the token sequences of its arguments, hence a total preorder; that
  contract (\<open>version_order\<close>) is what the EVRA order relies on.
\<close>

section \<open>Errors\<close>

datatype domain_error =
    Empty string
  | InvalidDigest string
  | SchemaVersion u32 u32 \<comment> \<open>expected, actual\<close>
  | ArchitectureError
  | UnsafeAction string
  | Duplicate string
  | InvalidPlan string
  | Json string
  | NonCanonical
  | DocumentTooLarge
  | DepthExceeded
  | StringTooLarge

text \<open>The \<^verbatim>\<open>Display\<close> texts, from the \<^verbatim>\<open>#[error]\<close> attributes.\<close>

fun domain_error_display :: "domain_error \<Rightarrow> string" where
  "domain_error_display (Empty field) = field @ '' cannot be empty''"
| "domain_error_display (InvalidDigest field) =
     field @ '' is not a 64-character hexadecimal SHA-256 digest''"
| "domain_error_display (SchemaVersion expected actual) =
     ''unsupported schema version '' @ show_nat (unat actual) @ ''; expected ''
       @ show_nat (unat expected)"
| "domain_error_display ArchitectureError = ''unsupported architecture''"
| "domain_error_display (UnsafeAction m) = ''unsafe solver action: '' @ m"
| "domain_error_display (Duplicate m) = ''duplicate canonical identity: '' @ m"
| "domain_error_display (InvalidPlan m) = ''invalid plan: '' @ m"
| "domain_error_display (Json m) = ''JSON boundary rejected input: '' @ m"
| "domain_error_display NonCanonical = ''JSON is not canonical JCS form''"
| "domain_error_display DocumentTooLarge = ''document exceeds 16 MiB''"
| "domain_error_display DepthExceeded = ''JSON nesting exceeds depth 32''"
| "domain_error_display StringTooLarge = ''JSON string exceeds 1 MiB''"

section \<open>SHA-256 digests\<close>

datatype sha256_digest = Sha256Digest (as_str: string)

definition digest_parse :: "string \<Rightarrow> string \<Rightarrow> (domain_error, sha256_digest) result" where
  "digest_parse value field =
     (if length value \<noteq> 64 \<or> \<not> list_all is_ascii_hexdigit value then Inl (InvalidDigest field)
      else Inr (Sha256Digest (map to_ascii_lowercase value)))"

text \<open>Deserialization goes through \<^verbatim>\<open>parse\<close>; a serde error carries the \<^verbatim>\<open>Display\<close> text.\<close>

definition digest_deserialize :: "string \<Rightarrow> (string, sha256_digest) result" where
  "digest_deserialize value = map_err domain_error_display (digest_parse value ''sha256'')"

definition digest_wf :: "sha256_digest \<Rightarrow> bool" where
  "digest_wf d \<longleftrightarrow> length (as_str d) = 64 \<and> list_all is_lower_hex (as_str d)"

section \<open>Architectures\<close>

datatype architecture = Aarch64 | X86_64 | Noarch

fun as_rpm_arch :: "architecture \<Rightarrow> string" where
  "as_rpm_arch Aarch64 = ''aarch64''"
| "as_rpm_arch X86_64 = ''x86_64''"
| "as_rpm_arch Noarch = ''noarch''"

fun arch_rank :: "architecture \<Rightarrow> nat" where
  "arch_rank Aarch64 = 0"
| "arch_rank X86_64 = 1"
| "arch_rank Noarch = 2"

lemma arch_rank_inj: "arch_rank a = arch_rank b \<Longrightarrow> a = b"
  by (cases a; cases b) auto

instantiation architecture :: linorder
begin

definition less_eq_architecture :: "architecture \<Rightarrow> architecture \<Rightarrow> bool" where
  "a \<le> b \<longleftrightarrow> arch_rank a \<le> arch_rank b"

definition less_architecture :: "architecture \<Rightarrow> architecture \<Rightarrow> bool" where
  "a < b \<longleftrightarrow> arch_rank a < arch_rank b"

instance
  by intro_classes (auto simp: less_eq_architecture_def less_architecture_def dest: arch_rank_inj)

end

section \<open>RPM version comparison\<close>

text \<open>
  \<^verbatim>\<open>rpm_part_cmp\<close> walks two indices over the two byte slices; the model passes the remaining
  suffixes, so \<open>l\<close> stands for \<^verbatim>\<open>left[li..]\<close> and \<open>length l\<close> for \<^verbatim>\<open>left.len() - li\<close>. The
  arms of its two \<^verbatim>\<open>match\<close> expressions are the branches of the two inner conditionals, in order.
\<close>

definition is_separator :: "char \<Rightarrow> bool" where
  "is_separator c \<longleftrightarrow> \<not> is_ascii_alphanumeric c \<and> c \<noteq> CHR ''~'' \<and> c \<noteq> CHR 0x5E"

definition first_is :: "char \<Rightarrow> bytes \<Rightarrow> bool" where
  "first_is c s = (case s of [] \<Rightarrow> False | x # _ \<Rightarrow> x = c)"

definition in_segment :: "bool \<Rightarrow> char \<Rightarrow> bool" where
  "in_segment numeric c \<longleftrightarrow> is_ascii_digit c = numeric \<and> is_ascii_alphanumeric c"

function rpm_part_cmp :: "bytes \<Rightarrow> bytes \<Rightarrow> ordering" where
  "rpm_part_cmp left right =
     (let l = dropWhile is_separator left; r = dropWhile is_separator right in
      if first_is (CHR ''~'') l \<or> first_is (CHR ''~'') r then
        (if first_is (CHR ''~'') l \<and> first_is (CHR ''~'') r then rpm_part_cmp (tl l) (tl r)
         else if first_is (CHR ''~'') l then Less
         else if first_is (CHR ''~'') r then Greater
         else Equal)
      else if first_is (CHR 0x5E) l \<or> first_is (CHR 0x5E) r then
        (if first_is (CHR 0x5E) l \<and> first_is (CHR 0x5E) r then rpm_part_cmp (tl l) (tl r)
         else if first_is (CHR 0x5E) l \<and> r = [] then Greater
         else if first_is (CHR 0x5E) r \<and> l = [] then Less
         else if first_is (CHR 0x5E) l then Less
         else if first_is (CHR 0x5E) r then Greater
         else Equal)
      else if l = [] \<or> r = [] then cmp (length l) (length r)
      else
        (let numeric = is_ascii_digit (hd l) in
         if numeric \<noteq> is_ascii_digit (hd r) then (if numeric then Greater else Less)
         else
           (let la0 = takeWhile (in_segment numeric) l; ra0 = takeWhile (in_segment numeric) r;
                l' = dropWhile (in_segment numeric) l; r' = dropWhile (in_segment numeric) r;
                la = (if numeric then dropWhile (\<lambda>c. c = CHR ''0'') la0 else la0);
                ra = (if numeric then dropWhile (\<lambda>c. c = CHR ''0'') ra0 else ra0) in
            if numeric \<and> cmp (length la) (length ra) \<noteq> Equal then cmp (length la) (length ra)
            else if cmp la ra \<noteq> Equal then cmp la ra
            else rpm_part_cmp l' r')))"
  by pat_completeness auto

lemma tl_progress:
  "first_is c (dropWhile is_separator s) \<Longrightarrow> length (tl (dropWhile is_separator s)) < length s"
  using length_dropWhile_le [of is_separator s]
  by (cases "dropWhile is_separator s") (auto simp: first_is_def)

lemma hd_after_separators:
  assumes "\<not> first_is (CHR ''~'') (dropWhile is_separator s)"
    and "\<not> first_is (CHR 0x5E) (dropWhile is_separator s)"
    and "dropWhile is_separator s \<noteq> []"
  shows "is_ascii_alphanumeric (hd (dropWhile is_separator s))"
  using assms hd_dropWhile [of is_separator s]
  by (cases "dropWhile is_separator s") (auto simp: is_separator_def first_is_def)

lemma segment_progress:
  assumes "\<not> first_is (CHR ''~'') (dropWhile is_separator s)"
    and "\<not> first_is (CHR 0x5E) (dropWhile is_separator s)"
    and "dropWhile is_separator s \<noteq> []"
    and "numeric = is_ascii_digit (hd (dropWhile is_separator s))"
  shows "length (dropWhile (in_segment numeric) (dropWhile is_separator s)) < length s"
proof -
  have "in_segment numeric (hd (dropWhile is_separator s))"
    using hd_after_separators [OF assms(1-3)] assms(4) by (simp add: in_segment_def)
  then have "length (dropWhile (in_segment numeric) (dropWhile is_separator s))
      < length (dropWhile is_separator s)"
    using assms(3) by (cases "dropWhile is_separator s") (auto simp: length_dropWhile_le le_imp_less_Suc)
  then show ?thesis
    using length_dropWhile_le [of is_separator s] by linarith
qed

lemma segment_le:
  "length (dropWhile (in_segment numeric) (dropWhile is_separator s)) \<le> length s"
  by (meson length_dropWhile_le le_trans)

termination rpm_part_cmp
  by (relation "measure (\<lambda>(l, r). length l + length r)")
    (auto intro!: add_less_mono add_less_le_mono 
      intro: tl_progress less_imp_le [OF tl_progress] segment_progress segment_le simp del: length_tl)

declare rpm_part_cmp.simps [simp del]

subsection \<open>The order that the loop computes\<close>

text \<open>
  The reference: cut a version into tokens (a tilde, a caret, a maximal run of digits without
  its leading zeros, a maximal run of letters) and compare the token sequences
  lexicographically, with the end of the sequence between tilde and caret, letters below
  digits, and numbers first by length.
\<close>

datatype token = TildeT | CaretT | AlphaT string | NumT string

function tokens :: "bytes \<Rightarrow> token list" where
  "tokens s =
     (let l = dropWhile is_separator s in
      if l = [] then []
      else if first_is (CHR ''~'') l then TildeT # tokens (tl l)
      else if first_is (CHR 0x5E) l then CaretT # tokens (tl l)
      else
        (let numeric = is_ascii_digit (hd l); a = takeWhile (in_segment numeric) l in
         (if numeric then NumT (dropWhile (\<lambda>c. c = CHR ''0'') a) else AlphaT a)
           # tokens (dropWhile (in_segment numeric) l)))"
  by pat_completeness auto

termination tokens
  by (relation "measure length") (auto intro: tl_progress segment_progress simp del: length_tl)

declare tokens.simps [simp del]

fun token_key :: "token \<Rightarrow> nat \<times> nat \<times> string" where
  "token_key TildeT = (0, 0, [])"
| "token_key CaretT = (2, 0, [])"
| "token_key (AlphaT s) = (3, 0, s)"
| "token_key (NumT s) = (4, length s, s)"

definition end_key :: "nat \<times> nat \<times> string" where
  "end_key = (1, 0, [])"

definition version_key :: "bytes \<Rightarrow> (nat \<times> nat \<times> string) list" where
  "version_key s = map token_key (tokens s) @ [end_key]"

lemma cmp_Cons: "cmp (a # as) (b # bs) = (if a = b then cmp as bs else cmp a b)"
  by (auto simp: cmp_def)

lemma first_is_nonempty: "first_is c l \<Longrightarrow> l \<noteq> []"
  by (auto simp: first_is_def)

lemma first_is_unique: "first_is c l \<Longrightarrow> first_is d l \<longleftrightarrow> c = d"
  by (auto simp: first_is_def split: list.splits)

lemma cmp_Pair: "cmp (a, b) (c, d) = (if a = c then cmp b d else cmp a c)"
  by (auto simp: cmp_def)

lemma version_key_cases:
  fixes s :: bytes
  defines "l \<equiv> dropWhile is_separator s"
  shows "l = [] \<Longrightarrow> version_key s = [end_key]"
    and "first_is (CHR ''~'') l \<Longrightarrow> version_key s = (0, 0, []) # version_key (tl l)"
    and "first_is (CHR 0x5E) l \<Longrightarrow> version_key s = (2, 0, []) # version_key (tl l)"
    and "\<not> first_is (CHR ''~'') l \<Longrightarrow> \<not> first_is (CHR 0x5E) l \<Longrightarrow> l \<noteq> [] \<Longrightarrow> is_ascii_digit (hd l) \<Longrightarrow>
      version_key s =
        (let a = dropWhile (\<lambda>c. c = CHR ''0'') (takeWhile (in_segment True) l) in
         (4, length a, a) # version_key (dropWhile (in_segment True) l))"
    and "\<not> first_is (CHR ''~'') l \<Longrightarrow> \<not> first_is (CHR 0x5E) l \<Longrightarrow> l \<noteq> [] \<Longrightarrow> \<not> is_ascii_digit (hd l) \<Longrightarrow>
      version_key s = (3, 0, takeWhile (in_segment False) l) # version_key (dropWhile (in_segment False) l)"
  by (simp_all add: version_key_def tokens.simps [of s, folded l_def] Let_def first_is_unique
      first_is_nonempty)

lemma version_key_rank:
  fixes s :: bytes
  defines "l \<equiv> dropWhile is_separator s"
  shows "\<not> first_is (CHR ''~'') l \<Longrightarrow> \<exists>n k ks. version_key s = (n, k) # ks \<and> 1 \<le> n"
    and "\<not> first_is (CHR ''~'') l \<Longrightarrow> \<not> first_is (CHR 0x5E) l \<Longrightarrow> l \<noteq> [] \<Longrightarrow>
      \<exists>n k ks. version_key s = (n, k) # ks \<and> 3 \<le> n"
proof -
  note kc = version_key_cases [of s, folded l_def]
  show "\<exists>n k ks. version_key s = (n, k) # ks \<and> 3 \<le> n"
    if "\<not> first_is (CHR ''~'') l" "\<not> first_is (CHR 0x5E) l" "l \<noteq> []"
    using kc(4,5) that by (cases "is_ascii_digit (hd l)") (simp_all add: Let_def)
  then show "\<exists>n k ks. version_key s = (n, k) # ks \<and> 1 \<le> n" if "\<not> first_is (CHR ''~'') l"
    using kc(1,3) that by (cases "l = []"; cases "first_is (CHR 0x5E) l") (fastforce simp: end_key_def)+
qed

lemma rpm_part_cmp_key: "rpm_part_cmp left right = cmp (version_key left) (version_key right)"
proof (induction left right rule: rpm_part_cmp.induct)
  case (1 left right)
  define l where "l = dropWhile is_separator left"
  define r where "r = dropWhile is_separator right"
  note step = rpm_part_cmp.simps [of left right, folded l_def r_def, unfolded Let_def]
  note IH = "1.IH" [OF l_def r_def]
  note kl = version_key_cases [of left, folded l_def] and kr = version_key_cases [of right, folded r_def]
  note rl = version_key_rank [of left, folded l_def] and rr = version_key_rank [of right, folded r_def]
  note cs = cmp_Cons cmp_Pair
  show ?case
  proof (cases "first_is (CHR ''~'') l \<or> first_is (CHR ''~'') r")
    case tilde: True
    show ?thesis
    proof (cases "first_is (CHR ''~'') l \<and> first_is (CHR ''~'') r")
      case True
      with IH(1) [OF tilde True] show ?thesis
        by (simp add: step kl(2) kr(2) cs)
    next
      case False
      with tilde rl(1) rr(1) show ?thesis
        by (auto simp: step kl(2) kr(2) cs)
    qed
  next
    case tilde: False
    show ?thesis
    proof (cases "first_is (CHR 0x5E) l \<or> first_is (CHR 0x5E) r")
      case caret: True
      show ?thesis
      proof (cases "first_is (CHR 0x5E) l \<and> first_is (CHR 0x5E) r")
        case True
        with tilde IH(2) [OF tilde caret True] show ?thesis
          by (simp add: step kl(3) kr(3) cs)
      next
        case False
        with tilde caret rl(2) rr(2) show ?thesis
          by (cases "l = []"; cases "r = []")
            (auto simp: step kl(1,3) kr(1,3) cs end_key_def dest: first_is_nonempty)
      qed
    next
      case caret: False
      show ?thesis
      proof (cases "l = [] \<or> r = []")
        case True
        with tilde caret rl(2) rr(2) show ?thesis
          by (cases "l = []"; cases "r = []") (auto simp: step kl(1) kr(1) cs end_key_def cmp_eq_iff_compare)
      next
        case False
        with tilde caret IH(3) [OF tilde caret False refl] show ?thesis
          by (cases "is_ascii_digit (hd l)"; cases "is_ascii_digit (hd r)")
            (simp_all add: step kl(4,5) kr(4,5) cs Let_def)
      qed
    qed
  qed
qed

section \<open>EVRA\<close>

record evra =
  ev_epoch :: u32
  ev_version :: string
  ev_release :: string
  ev_arch :: architecture

definition evra_new :: "u32 \<Rightarrow> string \<Rightarrow> string \<Rightarrow> architecture \<Rightarrow> evra" where
  "evra_new epoch version release arch =
     \<lparr>ev_epoch = epoch, ev_version = version, ev_release = release, ev_arch = arch\<rparr>"

definition evra_validate :: "evra \<Rightarrow> (domain_error, unit) result" where
  "evra_validate e =
     (if ev_version e = [] then Inl (Empty ''version'')
      else if ev_release e = [] then Inl (Empty ''release'')
      else Inr ())"

text \<open>The raw struct that serde fills has the same fields; it is accepted when it validates.\<close>

definition evra_deserialize :: "evra \<Rightarrow> (string, evra) result" where
  "evra_deserialize raw = bindR (map_err domain_error_display (evra_validate raw)) (\<lambda>_. Inr raw)"

definition is_strictly_newer_than :: "evra \<Rightarrow> evra \<Rightarrow> bool" where
  "is_strictly_newer_than self installed =
     (if ev_epoch self \<noteq> ev_epoch installed then ev_epoch self > ev_epoch installed
      else case rpm_part_cmp (ev_version self) (ev_version installed) of
        Equal \<Rightarrow> is_gt (rpm_part_cmp (ev_release self) (ev_release installed))
      | other \<Rightarrow> is_gt other)"

text \<open>The derived \<^verbatim>\<open>Ord\<close> of the struct: field by field.\<close>

definition evra_key :: "evra \<Rightarrow> u32 \<times> string \<times> string \<times> architecture" where
  "evra_key e = (ev_epoch e, ev_version e, ev_release e, ev_arch e)"

lemma evra_key_inj [simp]: "evra_key a = evra_key b \<longleftrightarrow> a = b"
  by (auto simp: evra_key_def)

lemma evra_validate_ok [result_simps]: "evra_validate e = Inr u \<longleftrightarrow> ev_version e \<noteq> [] \<and> ev_release e \<noteq> []"
  by (simp add: evra_validate_def)

section \<open>The contract of a version comparison\<close>

text \<open>
  What \<^verbatim>\<open>is_strictly_newer_than\<close> relies on: swapping the arguments reverses the answer, and
  "not greater" is transitive.
\<close>

locale version_order =
  fixes compare :: "'a \<Rightarrow> 'a \<Rightarrow> ordering"
  assumes swap: "compare b a = reverse (compare a b)"
    and not_greater_trans:
      "compare a b \<noteq> Greater \<Longrightarrow> compare b c \<noteq> Greater \<Longrightarrow> compare a c \<noteq> Greater"
begin

definition newer :: "'o::linorder \<times> 'a \<times> 'a \<Rightarrow> 'o \<times> 'a \<times> 'a \<Rightarrow> bool" where
  "newer x y = (case (x, y) of ((e, v, r), (e', v', r')) \<Rightarrow>
     if e \<noteq> e' then e > e'
     else case compare v v' of Equal \<Rightarrow> is_gt (compare r r') | other \<Rightarrow> is_gt other)"

lemma greater_iff: "compare a b = Greater \<longleftrightarrow> compare b a = Less"
  using swap [of b a] by (cases "compare a b") simp_all

lemma equal_sym: "compare a b = Equal \<longleftrightarrow> compare b a = Equal"
  using swap [of b a] by (cases "compare a b") simp_all

lemma equal_trans: "compare a b = Equal \<Longrightarrow> compare b c = Equal \<Longrightarrow> compare a c = Equal"
  using not_greater_trans [of a b c] not_greater_trans [of c b a] greater_iff [of a c]
    greater_iff [of c a] equal_sym [of a b] equal_sym [of b c] by (cases "compare a c") auto

lemma equal_left: "compare a b = Equal \<Longrightarrow> compare a c = compare b c"
proof (cases "compare b c")
  case Equal
  then show "compare a b = Equal \<Longrightarrow> ?thesis" by (simp add: equal_trans)
next
  case Less
  assume ab: "compare a b = Equal"
  then have "compare a c \<noteq> Greater" using Less not_greater_trans [of a b c] by simp
  moreover have "compare a c \<noteq> Equal" using ab Less equal_trans [of b a c] equal_sym [of a b] by auto
  ultimately show ?thesis using Less by (cases "compare a c") auto
next
  case Greater
  assume ab: "compare a b = Equal"
  then have "compare c a \<noteq> Greater"
    using Greater greater_iff [of b c] not_greater_trans [of c b a] equal_sym [of a b] by simp
  moreover have "compare a c \<noteq> Equal" using ab Greater equal_trans [of b a c] equal_sym [of a b] by auto
  ultimately show ?thesis using Greater greater_iff [of c a] by (cases "compare a c") auto
qed

lemma greater_trans: "compare a b = Greater \<Longrightarrow> compare b c = Greater \<Longrightarrow> compare a c = Greater"
proof -
  assume ab: "compare a b = Greater" and bc: "compare b c = Greater"
  then have "compare c a \<noteq> Greater"
    using not_greater_trans [of c b a] greater_iff [of a b] greater_iff [of b c] by simp
  moreover have "compare a c \<noteq> Equal"
    using ab bc equal_left [of a c b] greater_iff [of b c] by auto
  ultimately show ?thesis using greater_iff [of c a] by (cases "compare a c") auto
qed

lemma equal_right: "compare a b = Equal \<Longrightarrow> compare c a = compare c b"
  using equal_left [of a b c] swap [of c a] swap [of c b] by simp

lemma newer_iff:
  "newer (e, v, r) (e', v', r') \<longleftrightarrow>
     e > e' \<or> e = e' \<and> (compare v v' = Greater \<or> compare v v' = Equal \<and> compare r r' = Greater)"
  by (auto simp: newer_def is_gt_def split: ordering.splits)

lemma not_newer_iff:
  "\<not> newer (e, v, r) (e', v', r') \<longleftrightarrow>
     e < e' \<or> e = e' \<and> (compare v v' = Less \<or> compare v v' = Equal \<and> compare r r' \<noteq> Greater)"
  by (cases "compare v v'") (auto simp: newer_iff)

lemma newer_asym: "newer x y \<Longrightarrow> \<not> newer y x"
  by (cases x; cases y; simp only: newer_iff) (metis equal_sym greater_iff less_asym ordering.distinct)

lemma newer_trans: "newer x y \<Longrightarrow> newer y z \<Longrightarrow> newer x z"
  by (cases x; cases y; cases z; simp only: newer_iff)
    (metis equal_left equal_right greater_trans less_trans)

lemma not_newer_trans: "\<not> newer x y \<Longrightarrow> \<not> newer y z \<Longrightarrow> \<not> newer x z"
  by (cases x; cases y; cases z; simp only: not_newer_iff)
    (metis equal_left equal_right greater_iff greater_trans less_trans not_greater_trans)

end

interpretation rpm: version_order rpm_part_cmp
proof
  show "rpm_part_cmp b a = reverse (rpm_part_cmp a b)" for a b
    by (simp add: rpm_part_cmp_key cmp_reverse)
  show "rpm_part_cmp a c \<noteq> Greater"
    if "rpm_part_cmp a b \<noteq> Greater" "rpm_part_cmp b c \<noteq> Greater" for a b c
    using that by (simp add: rpm_part_cmp_key not_less)
qed

lemma newer_than_iff:
  "is_strictly_newer_than a b =
     rpm.newer (ev_epoch a, ev_version a, ev_release a) (ev_epoch b, ev_version b, ev_release b)"
  by (simp add: is_strictly_newer_than_def rpm.newer_def)

lemma is_strictly_newer_than_irrefl [simp]: "\<not> is_strictly_newer_than e e"
  using rpm.newer_asym newer_than_iff by blast

lemma is_strictly_newer_than_asym: "is_strictly_newer_than a b \<Longrightarrow> \<not> is_strictly_newer_than b a"
  unfolding newer_than_iff by (rule rpm.newer_asym)

section \<open>Properties\<close>

text \<open>
  Property C11. The index loop of \<^verbatim>\<open>rpm_part_cmp\<close> computes the lexicographic comparison of the
  token sequences of its arguments (\<open>version_key\<close>), for all byte strings: separators never
  matter except where they end a token, a tilde sorts below the end of the string, a caret
  above it, letters below digits, and numbers by value.
\<close>

theorem rpm_part_cmp_is_token_order:
  "rpm_part_cmp left right = cmp (version_key left) (version_key right)"
  by (rule rpm_part_cmp_key)

text \<open>
  \<^verbatim>\<open>Evra::is_strictly_newer_than\<close> is a strict weak order: no EVRA is newer than
  itself, the relation is transitive, and being not newer is transitive too. In particular an
  upgrade and a downgrade of the same pair exclude each other.
\<close>

theorem is_strictly_newer_than_strict_weak_order:
  "\<not> is_strictly_newer_than a a
   \<and> (is_strictly_newer_than a b \<longrightarrow> is_strictly_newer_than b c \<longrightarrow> is_strictly_newer_than a c)
   \<and> (\<not> is_strictly_newer_than a b \<longrightarrow> \<not> is_strictly_newer_than b c \<longrightarrow> \<not> is_strictly_newer_than a c)"
  unfolding newer_than_iff by (meson rpm.newer_asym rpm.newer_trans rpm.not_newer_trans)

theorem is_strictly_newer_than_strict_weak_order_witness:
  "is_strictly_newer_than (evra_new 0 ''1.0'' ''1'' X86_64) (evra_new 0 ''1.0~rc1'' ''1'' X86_64)
   \<and> is_strictly_newer_than (evra_new 0 ''1.10'' ''1'' X86_64) (evra_new 0 ''1.0'' ''1'' X86_64)
   \<and> is_strictly_newer_than (evra_new 0 ''1.10'' ''1'' X86_64) (evra_new 0 ''1.0~rc1'' ''1'' X86_64)"
proof -
  have a: "is_strictly_newer_than (evra_new 0 ''1.0'' ''1'' X86_64) (evra_new 0 ''1.0~rc1'' ''1'' X86_64)"
    by code_simp
  have b: "is_strictly_newer_than (evra_new 0 ''1.10'' ''1'' X86_64) (evra_new 0 ''1.0'' ''1'' X86_64)"
    by code_simp
  show ?thesis using a b is_strictly_newer_than_strict_weak_order by blast
qed

text \<open>
  \<^verbatim>\<open>Sha256Digest::parse\<close> accepts exactly the 64-digit hexadecimal strings of
  either case and stores them in lower case, so that parsing a stored digest again gives the
  same digest.
\<close>

theorem digest_parse_normalises:
  "(digest_parse value field = Inl (InvalidDigest field)
     \<longleftrightarrow> length value \<noteq> 64 \<or> \<not> list_all is_ascii_hexdigit value)
   \<and> (\<forall>d. digest_parse value field = Inr d \<longrightarrow>
        digest_wf d \<and> as_str d = map to_ascii_lowercase value \<and> digest_parse (as_str d) field' = Inr d)"
  by (auto simp: digest_parse_def digest_wf_def list_all_iff lowercase_is_lower_hex
      is_lower_hex_lowercase_id is_lower_hex_def [symmetric] intro: map_idI
      dest: lowercase_is_lower_hex [unfolded is_lower_hex_def])

theorem digest_parse_normalises_witness:
  "\<exists>d. digest_parse (replicate 64 (CHR ''A'')) ''plan'' = Inr d \<and> digest_wf d
     \<and> digest_parse (as_str d) ''inventory'' = Inr d"
proof -
  have "digest_parse (replicate 64 (CHR ''A'')) ''plan'' = Inr (Sha256Digest (replicate 64 (CHR ''a'')))"
    by code_simp
  then show ?thesis
    using digest_parse_normalises [of "replicate 64 (CHR ''A'')" "''plan''" "''inventory''"] by blast
qed

end
