(* ===== verification/Core_Canonical.thy ===== *)
theory Core_Canonical
  imports Core_Value
begin

text \<open>
  \<^verbatim>\<open>crates/dnfast-core/src/canonical.rs\<close>: the byte scanner that bounds a JSON document before it
  is decoded, the canonical parse (decode, encode again, compare) and the trait
  \<^verbatim>\<open>CanonicalDocument\<close>. serde\_json and sha2 are not part of the repository: they are the
  argument \<open>serde\<close> and the argument \<open>sha\<close> of the definitions that call them.
\<close>

definition MAX_DOCUMENT_BYTES :: nat where
  "MAX_DOCUMENT_BYTES = 16 * 1024 * 1024"

definition MAX_STRING_BYTES :: nat where
  "MAX_STRING_BYTES = 1024 * 1024"

definition MAX_DEPTH :: nat where
  "MAX_DEPTH = 32"

lemmas limits = MAX_DOCUMENT_BYTES_def MAX_STRING_BYTES_def MAX_DEPTH_def

section \<open>The scanner\<close>

record scan =
  sc_depth :: nat
  sc_string_bytes :: nat
  sc_in_string :: bool
  sc_escaped :: bool

definition scan_init :: scan where
  "scan_init = \<lparr>sc_depth = 0, sc_string_bytes = 0, sc_in_string = False, sc_escaped = False\<rparr>"

text \<open>One iteration of the loop of \<^verbatim>\<open>inspect\<close>.\<close>

definition inspect_byte :: "scan \<Rightarrow> char \<Rightarrow> (domain_error, scan) result" where
  "inspect_byte s byte =
     (if sc_in_string s then
        (if sc_escaped s then Inr (s\<lparr>sc_escaped := False, sc_string_bytes := sc_string_bytes s + 1\<rparr>)
         else if byte = CHR 0x5C then Inr (s\<lparr>sc_escaped := True\<rparr>)
         else if byte = CHR 0x22 then Inr (s\<lparr>sc_in_string := False, sc_string_bytes := 0\<rparr>)
         else if sc_string_bytes s + 1 > MAX_STRING_BYTES then Inl StringTooLarge
         else Inr (s\<lparr>sc_string_bytes := sc_string_bytes s + 1\<rparr>))
      else if byte = CHR 0x22 then Inr (s\<lparr>sc_in_string := True\<rparr>)
      else if byte = CHR ''{'' \<or> byte = CHR ''['' then
        (if sc_depth s + 1 > MAX_DEPTH then Inl DepthExceeded
         else Inr (s\<lparr>sc_depth := sc_depth s + 1\<rparr>))
      else if byte = CHR ''}'' \<or> byte = CHR '']'' then Inr (s\<lparr>sc_depth := sc_depth s - 1\<rparr>)
      else Inr s)"

fun inspect_bytes :: "scan \<Rightarrow> bytes \<Rightarrow> (domain_error, scan) result" where
  "inspect_bytes s [] = Inr s"
| "inspect_bytes s (b # bs) = bindR (inspect_byte s b) (\<lambda>s'. inspect_bytes s' bs)"

definition inspect :: "bytes \<Rightarrow> (domain_error, unit) result" where
  "inspect bs =
     (if length bs > MAX_DOCUMENT_BYTES then Inl DocumentTooLarge
      else bindR (inspect_bytes scan_init bs) (\<lambda>_. Inr ()))"

section \<open>Canonical encoding\<close>

record ('a, 'j) serde =
  from_slice :: "bytes \<Rightarrow> (string, 'a) result"
  to_value :: "'a \<Rightarrow> (string, 'j) result"
  to_vec :: "'j \<Rightarrow> (string, bytes) result"

definition canonical_serialize :: "('a, 'j) serde \<Rightarrow> 'a \<Rightarrow> (domain_error, bytes) result" where
  "canonical_serialize S v =
     bindR (map_err Json (to_value S v)) (\<lambda>tree. map_err Json (to_vec S tree))"

definition canonical_parse :: "('a, 'j) serde \<Rightarrow> bytes \<Rightarrow> (domain_error, 'a) result" where
  "canonical_parse S bs =
     bindR (inspect bs) (\<lambda>_.
     bindR (map_err Json (from_slice S bs)) (\<lambda>v.
     bindR (canonical_serialize S v) (\<lambda>again.
     if again \<noteq> bs then Inl NonCanonical else Inr v)))"

section \<open>The trait CanonicalDocument\<close>

text \<open>
  Every document type decodes, then validates; and validates, then encodes. \<open>validate\<close> is the
  type's own check.
\<close>

definition from_canonical_json ::
  "('a, 'j) serde \<Rightarrow> ('a \<Rightarrow> (domain_error, unit) result) \<Rightarrow> bytes \<Rightarrow> (domain_error, 'a) result" where
  "from_canonical_json S validate bs =
     bindR (canonical_parse S bs) (\<lambda>v. bindR (validate v) (\<lambda>_. Inr v))"

definition to_canonical_json ::
  "('a, 'j) serde \<Rightarrow> ('a \<Rightarrow> (domain_error, unit) result) \<Rightarrow> 'a \<Rightarrow> (domain_error, bytes) result" where
  "to_canonical_json S validate v = bindR (validate v) (\<lambda>_. canonical_serialize S v)"

definition canonical_sha256 ::
  "(bytes \<Rightarrow> string) \<Rightarrow> ('a, 'j) serde \<Rightarrow> ('a \<Rightarrow> (domain_error, unit) result) \<Rightarrow> 'a
     \<Rightarrow> (domain_error, sha256_digest) result" where
  "canonical_sha256 sha S validate v =
     bindR (to_canonical_json S validate v) (\<lambda>bs. digest_parse (sha bs) ''canonical_sha256'')"

text \<open>What a document type promises: its check accepts exactly its well-formed values.\<close>

locale canonical_document =
  fixes validate :: "'a \<Rightarrow> (domain_error, unit) result"
    and wf :: "'a \<Rightarrow> bool"
  assumes validate_iff: "validate v = Inr () \<longleftrightarrow> wf v"
begin

lemma from_json_sound:
  "from_canonical_json S validate bs = Inr v \<Longrightarrow>
     wf v \<and> inspect bs = Inr () \<and> from_slice S bs = Inr v \<and> to_canonical_json S validate v = Inr bs"
  by (auto simp: from_canonical_json_def canonical_parse_def to_canonical_json_def result_simps
      validate_iff [symmetric])

lemma from_json_inj:
  "from_canonical_json S validate bs = Inr v \<Longrightarrow> from_canonical_json S validate bs' = Inr v \<Longrightarrow> bs = bs'"
  by (metis Inr_inject from_json_sound)

lemma from_json_complete:
  assumes "to_canonical_json S validate v = Inr bs" "from_slice S bs = Inr v" "inspect bs = Inr ()"
  shows "from_canonical_json S validate bs = Inr v"
  using assms
  by (auto simp: from_canonical_json_def canonical_parse_def to_canonical_json_def result_simps)

lemma to_json_wf: "to_canonical_json S validate v = Inr bs \<Longrightarrow> wf v"
  by (auto simp: to_canonical_json_def result_simps validate_iff [symmetric])

lemma sha256_wf:
  "canonical_sha256 sha S validate v = Inr d \<Longrightarrow> wf v \<and> digest_wf d"
  by (auto simp: canonical_sha256_def result_simps digest_parse_def digest_wf_def list_all_iff
      lowercase_is_lower_hex dest: to_json_wf)

end

section \<open>Properties\<close>

lemma inspect_bytes_append:
  "inspect_bytes s (xs @ ys) = bindR (inspect_bytes s xs) (\<lambda>s'. inspect_bytes s' ys)"
  by (induction xs arbitrary: s) (simp_all add: bindR_assoc)

lemma inspect_byte_depth:
  "inspect_byte s b = Inr s' \<Longrightarrow> sc_depth s \<le> MAX_DEPTH \<Longrightarrow> sc_depth s' \<le> MAX_DEPTH"
  by (auto simp: inspect_byte_def split: if_splits)

lemma inspect_bytes_depth:
  "inspect_bytes s bs = Inr s' \<Longrightarrow> sc_depth s \<le> MAX_DEPTH \<Longrightarrow> sc_depth s' \<le> MAX_DEPTH"
  by (induction bs arbitrary: s) (auto simp: bindR_eq_Inr dest: inspect_byte_depth)

text \<open>
  A document that \<^verbatim>\<open>inspect\<close> accepts has at most 16 MiB, and at every point of the
  scan the nesting depth is defined and at most 32.
\<close>

theorem inspect_bounds:
  assumes "inspect bs = Inr ()"
  shows "length bs \<le> MAX_DOCUMENT_BYTES
    \<and> (\<exists>s. inspect_bytes scan_init (take n bs) = Inr s \<and> sc_depth s \<le> MAX_DEPTH)"
proof -
  from assms obtain s where s: "inspect_bytes scan_init bs = Inr s"
    by (auto simp: inspect_def result_simps)
  then obtain s' where s': "inspect_bytes scan_init (take n bs) = Inr s'"
    using inspect_bytes_append [of scan_init "take n bs" "drop n bs"]
    by (cases "inspect_bytes scan_init (take n bs)") auto
  then have "sc_depth s' \<le> MAX_DEPTH"
    by (rule inspect_bytes_depth) (simp add: scan_init_def)
  with s' assms show ?thesis by (simp add: inspect_def result_simps)
qed

theorem inspect_bounds_witness:
  "inspect ''{[1]}'' = Inr () \<and> length ''{[1]}'' \<le> MAX_DOCUMENT_BYTES
   \<and> (\<exists>s. inspect_bytes scan_init (take 2 ''{[1]}'') = Inr s \<and> sc_depth s \<le> MAX_DEPTH)"
proof -
  have h: "inspect ''{[1]}'' = Inr ()"
    by (simp add: inspect_def inspect_byte_def scan_init_def limits)
  show ?thesis using h inspect_bounds [OF h, of 2] by simp
qed

lemma inspect_bytes_escapes:
  "inspect_bytes \<lparr>sc_depth = d, sc_string_bytes = k, sc_in_string = True, sc_escaped = False\<rparr>
     (concat (replicate n [CHR 0x5C, c]) @ bs) =
   inspect_bytes \<lparr>sc_depth = d, sc_string_bytes = k + n, sc_in_string = True, sc_escaped = False\<rparr> bs"
  by (induction n arbitrary: k) (simp_all add: inspect_byte_def)

text \<open>
  A string of \<open>n\<close> escape pairs is counted but never checked against the limit of
  1 MiB: the branch for an escaped byte increments the counter and continues. Every document
  that is one such string passes \<^verbatim>\<open>inspect\<close> up to the document limit, so a string content of
  up to 8 Mi characters is accepted.
\<close>

theorem inspect_escaped_string_unbounded:
  assumes "n < 8 * 1024 * 1024"
  shows "inspect (CHR 0x22 # concat (replicate n [CHR 0x5C, CHR ''n'']) @ [CHR 0x22]) = Inr ()"
proof -
  have "length (concat (replicate n [CHR 0x5C, CHR ''n''])) = 2 * n"
    by (induction n) simp_all
  with assms show ?thesis
    by (simp add: inspect_def MAX_DOCUMENT_BYTES_def scan_init_def inspect_byte_def
        inspect_bytes_escapes)
qed

theorem inspect_escaped_string_unbounded_witness:
  "MAX_STRING_BYTES < 8000000
   \<and> inspect (CHR 0x22 # concat (replicate 8000000 [CHR 0x5C, CHR ''n'']) @ [CHR 0x22]) = Inr ()"
proof -
  have h: "(8000000::nat) < 8 * 1024 * 1024" by simp
  have m: "MAX_STRING_BYTES < 8000000" by (simp add: MAX_STRING_BYTES_def)
  from m inspect_escaped_string_unbounded [OF h] show ?thesis by (rule conjI)
qed

text \<open>
  Canonical parsing is exact: a successful parse means that the bytes are the
  encoding of the parsed value, so two accepted documents with the same value are equal byte for
  byte, whatever serde\_json does.
\<close>

theorem canonical_parse_exact:
  "(canonical_parse S bs = Inr v \<longrightarrow> inspect bs = Inr () \<and> canonical_serialize S v = Inr bs)
   \<and> (canonical_parse S bs = Inr v \<longrightarrow> canonical_parse S bs' = Inr v \<longrightarrow> bs = bs')"
  by (auto simp: canonical_parse_def result_simps)

text \<open>A codec on one-field documents: \<open>n\<close> bytes encode the number \<open>n\<close>.\<close>

definition unary_serde :: "(nat, nat) serde" where
  "unary_serde = \<lparr>from_slice = (\<lambda>bs. Inr (length bs)), to_value = Inr,
     to_vec = (\<lambda>n. Inr (replicate n (CHR ''1'')))\<rparr>"

theorem canonical_parse_exact_witness:
  "canonical_parse unary_serde ''111'' = Inr 3 \<and> canonical_serialize unary_serde 3 = Inr ''111''
   \<and> canonical_parse unary_serde ''12'' = Inl NonCanonical"
proof -
  have h: "canonical_parse unary_serde ''111'' = Inr 3"
    by (simp add: canonical_parse_def canonical_serialize_def unary_serde_def inspect_def
        inspect_byte_def scan_init_def limits numeral_2_eq_2 numeral_3_eq_3)
  have n: "canonical_parse unary_serde ''12'' = Inl NonCanonical"
    by (simp add: canonical_parse_def canonical_serialize_def unary_serde_def inspect_def
        inspect_byte_def scan_init_def limits numeral_2_eq_2 numeral_3_eq_3)
  show ?thesis using h n canonical_parse_exact [of unary_serde "''111''" 3] by blast
qed

end
