(* ===== verification/Core_Trust.thy ===== *)
theory Core_Trust
  imports Core_Canonical
begin

text \<open>
  \<^verbatim>\<open>crates/dnfast-core/src/trust.rs\<close>: the trust policy of one repository. Its constructor
  normalises the primary fingerprints to upper case and sorts them; its check demands a
  non-empty, strictly ascending list of 40-digit fingerprints and mandatory package signatures.
\<close>

datatype signing_subkey_rule = PrimaryOnly | AuthorizedSubkeys

record repo_trust_policy =
  tp_schema_version :: u32
  tp_repo_id :: string
  tp_key_bundle_sha256 :: sha256_digest
  tp_allowed_primary_fingerprints :: "string list"
  tp_signing_subkey_rule :: signing_subkey_rule
  tp_valid_at_unix :: u64
  tp_require_package_signature :: bool

definition fingerprint_ok :: "string \<Rightarrow> bool" where
  "fingerprint_ok f \<longleftrightarrow> length f = 40 \<and> list_all is_ascii_hexdigit f"

definition trust_validate :: "repo_trust_policy \<Rightarrow> (domain_error, unit) result" where
  "trust_validate p =
     (if tp_schema_version p \<noteq> 1 then Inl (SchemaVersion 1 (tp_schema_version p))
      else if tp_repo_id p = [] then Inl (Empty ''repo_id'')
      else if tp_allowed_primary_fingerprints p = [] then Inl (Empty ''allowed_primary_fingerprints'')
      else if any_window (\<ge>) (tp_allowed_primary_fingerprints p)
      then Inl (Duplicate ''primary fingerprint'')
      else if \<not> list_all fingerprint_ok (tp_allowed_primary_fingerprints p)
      then Inl (InvalidDigest ''allowed_primary_fingerprints'')
      else if \<not> tp_require_package_signature p
      then Inl (UnsafeAction ''package signatures are mandatory'')
      else Inr ())"

definition trust_new ::
  "string \<Rightarrow> string \<Rightarrow> string list \<Rightarrow> signing_subkey_rule \<Rightarrow> u64
     \<Rightarrow> (domain_error, repo_trust_policy) result" where
  "trust_new repo_id key_bundle fingerprints rule valid_at =
     (if repo_id = [] then Inl (Empty ''repo_id'')
      else
        (let allowed = sort (map (map to_ascii_uppercase) fingerprints) in
         bindR (digest_parse key_bundle ''key_bundle_sha256'') (\<lambda>bundle.
         let value = \<lparr>tp_schema_version = 1, tp_repo_id = repo_id, tp_key_bundle_sha256 = bundle,
               tp_allowed_primary_fingerprints = allowed, tp_signing_subkey_rule = rule,
               tp_valid_at_unix = valid_at, tp_require_package_signature = True\<rparr>
         in bindR (trust_validate value) (\<lambda>_. Inr value))))"

definition trust_deserialize :: "repo_trust_policy \<Rightarrow> (string, repo_trust_policy) result" where
  "trust_deserialize raw =
     bindR (map_err domain_error_display (trust_validate raw)) (\<lambda>_. Inr raw)"

definition trust_from_json ::
  "(repo_trust_policy, 'j) serde \<Rightarrow> bytes \<Rightarrow> (domain_error, repo_trust_policy) result" where
  "trust_from_json S bs = from_canonical_json S trust_validate bs"

definition trust_wf :: "repo_trust_policy \<Rightarrow> bool" where
  "trust_wf p \<longleftrightarrow> tp_schema_version p = 1 \<and> tp_repo_id p \<noteq> []
     \<and> tp_allowed_primary_fingerprints p \<noteq> []
     \<and> sorted_wrt (<) (tp_allowed_primary_fingerprints p)
     \<and> (\<forall>f\<in>set (tp_allowed_primary_fingerprints p). fingerprint_ok f)
     \<and> tp_require_package_signature p"

lemma trust_validate_iff: "trust_validate p = Inr () \<longleftrightarrow> trust_wf p"
  by (auto simp: trust_validate_def trust_wf_def list_all_iff)

interpretation trust_doc: canonical_document trust_validate trust_wf
  by unfold_locales (rule trust_validate_iff)

lemma fingerprint_ok_uppercase: "fingerprint_ok (map to_ascii_uppercase f) \<longleftrightarrow> fingerprint_ok f"
  by (simp add: fingerprint_ok_def list_all_iff uppercase_hexdigit)

section \<open>Properties\<close>

text \<open>
  \<^verbatim>\<open>RepoTrustPolicy::new\<close> succeeds exactly for a named repository, a valid key
  bundle digest and a non-empty list of 40-digit fingerprints no two of which are equal up to
  letter case; the policy it returns holds the upper-case fingerprints in ascending order and
  always requires package signatures.
\<close>

theorem trust_new_exact:
  "trust_new repo_id bundle fps rule at = Inr p \<longleftrightarrow>
     repo_id \<noteq> [] \<and> fps \<noteq> [] \<and> (\<forall>f\<in>set fps. fingerprint_ok f)
     \<and> distinct (map (map to_ascii_uppercase) fps)
     \<and> (\<exists>d. digest_parse bundle ''key_bundle_sha256'' = Inr d
          \<and> p = \<lparr>tp_schema_version = 1, tp_repo_id = repo_id, tp_key_bundle_sha256 = d,
                 tp_allowed_primary_fingerprints = sort (map (map to_ascii_uppercase) fps),
                 tp_signing_subkey_rule = rule, tp_valid_at_unix = at,
                 tp_require_package_signature = True\<rparr>)"
proof -
  let ?fs = "sort (map (map to_ascii_uppercase) fps)"
  have e: "?fs = [] \<longleftrightarrow> fps = []"
    by (metis length_0_conv length_map length_sort)
  have "trust_wf \<lparr>tp_schema_version = 1, tp_repo_id = repo_id, tp_key_bundle_sha256 = d,
      tp_allowed_primary_fingerprints = ?fs, tp_signing_subkey_rule = rule,
      tp_valid_at_unix = at, tp_require_package_signature = True\<rparr> \<longleftrightarrow>
    repo_id \<noteq> [] \<and> fps \<noteq> [] \<and> (\<forall>f\<in>set fps. fingerprint_ok f)
      \<and> distinct (map (map to_ascii_uppercase) fps)" for d
    by (auto simp: trust_wf_def e strict_sorted_iff fingerprint_ok_uppercase)
  then show ?thesis
    by (auto simp: trust_new_def Let_def bindR_eq_Inr trust_validate_iff)
qed

theorem trust_new_exact_witness:
  "\<exists>p. trust_new ''fedora'' (replicate 64 (CHR ''a'')) [replicate 40 (CHR ''b''), replicate 40 (CHR ''c'')]
       PrimaryOnly 7 = Inr p \<and> tp_require_package_signature p"
proof -
  let ?fps = "[replicate 40 (CHR ''b''), replicate 40 (CHR ''c'')]"
  have "(\<forall>f\<in>set ?fps. fingerprint_ok f) \<and> distinct (map (map to_ascii_uppercase) ?fps)" by code_simp
  moreover have "digest_parse (replicate 64 (CHR ''a'')) ''key_bundle_sha256''
      = Inr (Sha256Digest (replicate 64 (CHR ''a'')))" by code_simp
  ultimately have "trust_new ''fedora'' (replicate 64 (CHR ''a'')) ?fps PrimaryOnly 7 =
      Inr \<lparr>tp_schema_version = 1, tp_repo_id = ''fedora'',
        tp_key_bundle_sha256 = Sha256Digest (replicate 64 (CHR ''a'')),
        tp_allowed_primary_fingerprints = sort (map (map to_ascii_uppercase) ?fps),
        tp_signing_subkey_rule = PrimaryOnly, tp_valid_at_unix = 7,
        tp_require_package_signature = True\<rparr>"
    by (subst trust_new_exact) blast
  then show ?thesis by simp
qed

end
