(* ===== verification/Core_Inventory.thy ===== *)
theory Core_Inventory
  imports Core_Canonical
begin

text \<open>
  \<^verbatim>\<open>crates/dnfast-core/src/inventory.rs\<close>: the installed packages as one canonical document. An
  inventory is strictly sorted and names every RPMDB instance once, so a lookup of an erase
  target is never ambiguous; the digest it caches is the digest of its contents.
\<close>

datatype erase_lookup_error = NotFound | HeaderMismatch | Ambiguous

record installed_package =
  ip_name :: string
  ip_evra :: evra
  ip_vendor :: string
  ip_db_instance :: u64
  ip_install_time :: u64
  ip_header :: sha256_digest

definition installed_key ::
  "installed_package \<Rightarrow> string \<times> (u32 \<times> string \<times> string \<times> architecture) \<times> string \<times> u64 \<times> u64 \<times> string" where
  "installed_key p = (ip_name p, evra_key (ip_evra p), ip_vendor p, ip_db_instance p,
     ip_install_time p, as_str (ip_header p))"

definition installed_new ::
  "string \<Rightarrow> evra \<Rightarrow> string \<Rightarrow> u64 \<Rightarrow> u64 \<Rightarrow> string \<Rightarrow> (domain_error, installed_package) result" where
  "installed_new name evra vendor db_instance install_time digest =
     (if name = [] then Inl (Empty ''package_name'')
      else bindR (evra_validate evra) (\<lambda>_.
        bindR (digest_parse digest ''immutable_header_sha256'') (\<lambda>d.
        Inr \<lparr>ip_name = name, ip_evra = evra, ip_vendor = vendor, ip_db_instance = db_instance,
             ip_install_time = install_time, ip_header = d\<rparr>)))"

definition installed_deserialize :: "installed_package \<Rightarrow> (string, installed_package) result" where
  "installed_deserialize raw = (if ip_name raw = [] then Inl ''empty package name'' else Inr raw)"

record installed_inventory =
  ii_schema_version :: u32
  ii_install_root :: string
  ii_rpmdb_backend :: string
  ii_rpm_version :: string
  ii_packages :: "installed_package list"
  ii_canonical_sha256 :: "sha256_digest option" \<comment> \<open>the \<^verbatim>\<open>OnceLock\<close> cache\<close>

text \<open>\<^verbatim>\<open>PartialEq\<close> ignores the cache.\<close>

definition inventory_eq :: "installed_inventory \<Rightarrow> installed_inventory \<Rightarrow> bool" where
  "inventory_eq a b \<longleftrightarrow> ii_schema_version a = ii_schema_version b
     \<and> ii_install_root a = ii_install_root b \<and> ii_rpmdb_backend a = ii_rpmdb_backend b
     \<and> ii_rpm_version a = ii_rpm_version b \<and> ii_packages a = ii_packages b"

definition instance_error :: "installed_package \<Rightarrow> domain_error" where
  "instance_error p = Duplicate (''rpmdb instance '' @ show_nat (unat (ip_db_instance p)))"

definition inventory_validate :: "installed_inventory \<Rightarrow> (domain_error, unit) result" where
  "inventory_validate i =
     (if ii_schema_version i \<noteq> 1 then Inl (SchemaVersion 1 (ii_schema_version i))
      else if ii_install_root i \<noteq> ''/'' then Inl (InvalidPlan ''inventory root must be /'')
      else if ii_rpmdb_backend i = [] then Inl (Empty ''rpmdb_backend'')
      else if ii_rpm_version i = [] then Inl (Empty ''rpm_version'')
      else if any_window (\<lambda>a b. installed_key a \<ge> installed_key b) (ii_packages i) then Inl NonCanonical
      else insert_unique ip_db_instance instance_error {} (ii_packages i))"

definition inventory_new ::
  "string \<Rightarrow> string \<Rightarrow> installed_package list \<Rightarrow> (domain_error, installed_inventory) result" where
  "inventory_new backend rpm_version packages =
     (let sorted_packages = sort_key installed_key packages in
      bindR (insert_unique ip_db_instance instance_error {} sorted_packages) (\<lambda>_.
        let value = \<lparr>ii_schema_version = 1, ii_install_root = ''/'', ii_rpmdb_backend = backend,
              ii_rpm_version = rpm_version, ii_packages = sorted_packages,
              ii_canonical_sha256 = None\<rparr>
        in bindR (inventory_validate value) (\<lambda>_. Inr value)))"

definition inventory_deserialize :: "installed_inventory \<Rightarrow> (string, installed_inventory) result" where
  "inventory_deserialize raw =
     (let value = raw\<lparr>ii_canonical_sha256 := None\<rparr>
      in bindR (map_err domain_error_display (inventory_validate value)) (\<lambda>_. Inr value))"

definition erase_target ::
  "installed_inventory \<Rightarrow> u64 \<Rightarrow> string \<Rightarrow> (erase_lookup_error, installed_package) result" where
  "erase_target i db_instance header_sha256 =
     (case filter (\<lambda>p. ip_db_instance p = db_instance) (ii_packages i) of
        [] \<Rightarrow> Inl NotFound
      | [p] \<Rightarrow> if as_str (ip_header p) = header_sha256 then Inr p else Inl HeaderMismatch
      | _ \<Rightarrow> Inl Ambiguous)"

text \<open>
  The inventory's own \<^verbatim>\<open>canonical_sha256\<close> fills the cache through a shared reference: the model
  returns the inventory with the cache as it is afterwards.
\<close>

definition inventory_sha256 ::
  "(bytes \<Rightarrow> string) \<Rightarrow> (installed_inventory, 'j) serde \<Rightarrow> installed_inventory
     \<Rightarrow> (domain_error, sha256_digest) result \<times> installed_inventory" where
  "inventory_sha256 sha S i =
     (case ii_canonical_sha256 i of
        Some digest \<Rightarrow> (Inr digest, i)
      | None \<Rightarrow>
          (case bindR (to_canonical_json S inventory_validate i)
                  (\<lambda>bs. digest_parse (sha bs) ''canonical_sha256'') of
             Inl e \<Rightarrow> (Inl e, i)
           | Inr digest \<Rightarrow> (Inr digest, i\<lparr>ii_canonical_sha256 := Some digest\<rparr>)))"

definition inventory_wf :: "installed_inventory \<Rightarrow> bool" where
  "inventory_wf i \<longleftrightarrow> ii_schema_version i = 1 \<and> ii_install_root i = ''/''
     \<and> ii_rpmdb_backend i \<noteq> [] \<and> ii_rpm_version i \<noteq> []
     \<and> sorted_wrt (<) (map installed_key (ii_packages i))
     \<and> distinct (map ip_db_instance (ii_packages i))"

text \<open>The cache holds nothing but the digest of the document; \<^verbatim>\<open>serde(skip)\<close> hides it from it.\<close>

definition memo_ok :: "(bytes \<Rightarrow> string) \<Rightarrow> (installed_inventory, 'j) serde \<Rightarrow> installed_inventory \<Rightarrow> bool" where
  "memo_ok sha S i \<longleftrightarrow>
     (case ii_canonical_sha256 i of None \<Rightarrow> True
      | Some d \<Rightarrow> canonical_sha256 sha S inventory_validate i = Inr d)"

definition serde_skips_memo :: "(installed_inventory, 'j) serde \<Rightarrow> bool" where
  "serde_skips_memo S \<longleftrightarrow> (\<forall>i m. to_value S (i\<lparr>ii_canonical_sha256 := m\<rparr>) = to_value S i)"

section \<open>Lemmas\<close>

lemma installed_key_inj [simp]: "installed_key a = installed_key b \<longleftrightarrow> a = b"
  by (auto simp: installed_key_def sha256_digest.expand)

lemma inventory_validate_iff: "inventory_validate i = Inr () \<longleftrightarrow> inventory_wf i"
  by (auto simp: inventory_validate_def inventory_wf_def insert_unique_eq_Inr)

interpretation inventory_doc: canonical_document inventory_validate inventory_wf
  by unfold_locales (rule inventory_validate_iff)

lemma inventory_wf_memo [simp]: "inventory_wf (i\<lparr>ii_canonical_sha256 := m\<rparr>) = inventory_wf i"
  by (simp add: inventory_wf_def)

lemma distinct_filter_key:
  "distinct (map key xs) \<Longrightarrow> x \<in> set xs \<Longrightarrow> filter (\<lambda>y. key y = key x) xs = [x]"
  by (induction xs) (auto simp: filter_empty_conv, metis image_eqI)

lemma inventory_validate_memo [simp]:
  "inventory_validate (i\<lparr>ii_canonical_sha256 := m\<rparr>) = inventory_validate i"
  by (simp add: inventory_validate_def)

lemma canonical_sha256_memo:
  "serde_skips_memo S \<Longrightarrow> canonical_sha256 sha S inventory_validate (i\<lparr>ii_canonical_sha256 := m\<rparr>)
     = canonical_sha256 sha S inventory_validate i"
  by (simp add: canonical_sha256_def to_canonical_json_def canonical_serialize_def serde_skips_memo_def)

lemma erase_target_present:
  assumes "inventory_wf i" "q \<in> set (ii_packages i)" "ip_db_instance q = n"
  shows "erase_target i n h = (if as_str (ip_header q) = h then Inr q else Inl HeaderMismatch)"
proof -
  have "distinct (map ip_db_instance (ii_packages i))"
    using assms(1) by (simp add: inventory_wf_def)
  then have "filter (\<lambda>p. ip_db_instance p = n) (ii_packages i) = [q]"
    using distinct_filter_key [of ip_db_instance "ii_packages i" q] assms(2,3) by simp
  then show ?thesis by (simp add: erase_target_def)
qed

lemma erase_target_absent:
  "(\<And>q. q \<in> set (ii_packages i) \<Longrightarrow> ip_db_instance q \<noteq> n) \<Longrightarrow> erase_target i n h = Inl NotFound"
  by (simp add: erase_target_def filter_False)

lemma sort_installed_strict:
  "distinct (map ip_db_instance ps) \<Longrightarrow> sorted_wrt (<) (map installed_key (sort_key installed_key ps))"
  by (rule sort_key_strict) (auto simp: distinct_map inj_on_def)

text \<open>A small inventory for the concrete instances.\<close>

definition example_package :: "string \<Rightarrow> u64 \<Rightarrow> char \<Rightarrow> installed_package" where
  "example_package name n c = \<lparr>ip_name = name, ip_evra = evra_new 0 ''1'' ''1'' X86_64,
     ip_vendor = ''Fedora'', ip_db_instance = n, ip_install_time = 5,
     ip_header = Sha256Digest (replicate 64 c)\<rparr>"

definition example_inventory :: installed_inventory where
  "example_inventory = \<lparr>ii_schema_version = 1, ii_install_root = ''/'', ii_rpmdb_backend = ''sqlite'',
     ii_rpm_version = ''6.0'',
     ii_packages = [example_package ''bash'' 2 (CHR ''a''), example_package ''vim'' 1 (CHR ''b'')],
     ii_canonical_sha256 = None\<rparr>"

section \<open>Properties\<close>

text \<open>
  \<^verbatim>\<open>InstalledInventory::new\<close> succeeds exactly when no RPMDB instance occurs twice and
  the backend and RPM version are named; its packages are the given ones in canonical order and
  it validates.
\<close>

theorem inventory_new_exact:
  "inventory_new backend version ps = Inr i \<longleftrightarrow>
     distinct (map ip_db_instance ps) \<and> backend \<noteq> [] \<and> version \<noteq> []
     \<and> inventory_validate i = Inr () \<and> ii_rpmdb_backend i = backend \<and> ii_rpm_version i = version
     \<and> ii_packages i = sort_key installed_key ps \<and> ii_canonical_sha256 i = None"
proof -
  have d: "distinct (map ip_db_instance (sort_key installed_key ps)) \<longleftrightarrow> distinct (map ip_db_instance ps)"
    by (simp add: distinct_map)
  then show ?thesis
    using sort_installed_strict [of ps]
    by (auto simp: inventory_new_def Let_def bindR_eq_Inr insert_unique_eq_Inr inventory_validate_iff
        inventory_wf_def)
qed

text \<open>
  On an inventory that validates, \<^verbatim>\<open>erase_target\<close> is never ambiguous and returns a
  package exactly when an installed package has that RPMDB instance and that header digest: the
  header of another package or a changed header is never accepted.
\<close>

theorem erase_target_exact:
  assumes "inventory_validate i = Inr ()"
  shows "erase_target i n h \<noteq> Inl Ambiguous
    \<and> (erase_target i n h = Inr p \<longleftrightarrow>
         p \<in> set (ii_packages i) \<and> ip_db_instance p = n \<and> as_str (ip_header p) = h)"
proof (cases "\<exists>q\<in>set (ii_packages i). ip_db_instance q = n")
  case True
  then obtain q where q: "q \<in> set (ii_packages i)" "ip_db_instance q = n" by blast
  have wf: "inventory_wf i" using assms by (simp add: inventory_validate_iff)
  then have "p = q" if "p \<in> set (ii_packages i)" "ip_db_instance p = n"
    using q that by (auto simp: inventory_wf_def distinct_map inj_on_def)
  then show ?thesis
    using q by (auto simp: erase_target_present [OF wf q])
next
  case False
  then have "erase_target i n h = Inl NotFound" by (intro erase_target_absent) auto
  with False show ?thesis by auto
qed

theorem erase_target_exact_witness:
  "inventory_validate example_inventory = Inr ()
   \<and> erase_target example_inventory 1 (replicate 64 (CHR ''b'')) = Inr (example_package ''vim'' 1 (CHR ''b''))
   \<and> erase_target example_inventory 1 (replicate 64 (CHR ''a'')) \<noteq> Inl Ambiguous"
proof -
  have h: "inventory_validate example_inventory = Inr ()" by code_simp
  have "example_package ''vim'' 1 (CHR ''b'') \<in> set (ii_packages example_inventory)
      \<and> ip_db_instance (example_package ''vim'' 1 (CHR ''b'')) = 1
      \<and> as_str (ip_header (example_package ''vim'' 1 (CHR ''b''))) = replicate 64 (CHR ''b'')"
    by (simp add: example_inventory_def example_package_def)
  then show ?thesis using h erase_target_exact [OF h] by blast
qed

text \<open>
  The cached digest is transparent: with a serializer that skips the cache, as the
  attribute demands, \<^verbatim>\<open>canonical_sha256\<close> returns what the uncached computation returns, keeps the
  inventory equal to what it was, and leaves a correct cache.
\<close>

theorem inventory_sha256_memo_transparent:
  assumes "serde_skips_memo S" "memo_ok sha S i" "inventory_sha256 sha S i = (r, i')"
  shows "r = canonical_sha256 sha S inventory_validate i \<and> inventory_eq i' i \<and> memo_ok sha S i'"
proof -
  have u: "bindR (to_canonical_json S inventory_validate i) (\<lambda>bs. digest_parse (sha bs) ''canonical_sha256'')
      = canonical_sha256 sha S inventory_validate i"
    by (simp add: canonical_sha256_def)
  show ?thesis
    using assms canonical_sha256_memo [OF assms(1), of sha _ i]
    by (auto simp: inventory_sha256_def u memo_ok_def inventory_eq_def split: option.splits sum.splits)
qed

text \<open>A serializer that writes the package names, and a constant digest.\<close>

definition name_serde :: "(installed_inventory, bytes) serde" where
  "name_serde = \<lparr>from_slice = (\<lambda>_. Inl ''unused''),
     to_value = (\<lambda>i. Inr (concat (map ip_name (ii_packages i)))), to_vec = Inr\<rparr>"

theorem inventory_sha256_memo_transparent_witness:
  "\<exists>i'. inventory_sha256 (\<lambda>_. replicate 64 (CHR ''f'')) name_serde example_inventory
      = (Inr (Sha256Digest (replicate 64 (CHR ''f''))), i')
     \<and> memo_ok (\<lambda>_. replicate 64 (CHR ''f'')) name_serde i'"
proof -
  let ?sha = "\<lambda>_. replicate 64 (CHR ''f'')"
  have s: "serde_skips_memo name_serde" by (simp add: serde_skips_memo_def name_serde_def)
  have m: "memo_ok ?sha name_serde example_inventory" by (simp add: memo_ok_def example_inventory_def)
  let ?i = "example_inventory\<lparr>ii_canonical_sha256 := Some (Sha256Digest (replicate 64 (CHR ''f'')))\<rparr>"
  have "inventory_validate example_inventory = Inr ()" by code_simp
  moreover have "digest_parse (replicate 64 (CHR ''f'')) ''canonical_sha256''
      = Inr (Sha256Digest (replicate 64 (CHR ''f'')))" by code_simp
  ultimately have r: "inventory_sha256 ?sha name_serde example_inventory
      = (Inr (Sha256Digest (replicate 64 (CHR ''f''))), ?i)"
    by (simp add: inventory_sha256_def to_canonical_json_def canonical_serialize_def name_serde_def
        example_inventory_def)
  from inventory_sha256_memo_transparent [OF s m r] r show ?thesis by blast
qed

end
