(* ===== verification/Core_Intent.thy ===== *)
theory Core_Intent
  imports Core_Canonical
begin

text \<open>
  \<^verbatim>\<open>crates/dnfast-core/src/intent.rs\<close>: package specifications and transaction intents. An intent
  is well formed when its specifications are parseable and strictly ascending and when an
  action that needs a selector has one; the constructor sorts, so the order in which a user
  names packages does not matter.
\<close>

section \<open>Actions and errors\<close>

datatype action = Install | Upgrade | Remove | Downgrade | Reinstall | DistroSync | Autoremove

fun action_as_str :: "action \<Rightarrow> string" where
  "action_as_str Install = ''install''"
| "action_as_str Upgrade = ''upgrade''"
| "action_as_str Remove = ''remove''"
| "action_as_str Downgrade = ''downgrade''"
| "action_as_str Reinstall = ''reinstall''"
| "action_as_str DistroSync = ''distro-sync''"
| "action_as_str Autoremove = ''autoremove''"

fun action_debug :: "action \<Rightarrow> string" where
  "action_debug Install = ''Install''"
| "action_debug Upgrade = ''Upgrade''"
| "action_debug Remove = ''Remove''"
| "action_debug Downgrade = ''Downgrade''"
| "action_debug Reinstall = ''Reinstall''"
| "action_debug DistroSync = ''DistroSync''"
| "action_debug Autoremove = ''Autoremove''"

datatype intent_error =
    MissingPackages action
  | EmptyPackage
  | OptionLikePackage string
  | ControlCharacter string
  | DuplicatePackage string
  | IntentSchemaVersion u32
  | IntentJson string
  | NonCanonicalPackages

text \<open>The \<^verbatim>\<open>Display\<close> texts, from the \<^verbatim>\<open>#[error]\<close> attributes.\<close>

fun intent_error_display :: "intent_error \<Rightarrow> string" where
  "intent_error_display (MissingPackages a) = action_debug a @ '' requires at least one package''"
| "intent_error_display EmptyPackage = ''package specification cannot be empty''"
| "intent_error_display (OptionLikePackage s) =
     ''package specification cannot start with '' @ [CHR 0x27, CHR ''-'', CHR 0x27] @ '': '' @ s"
| "intent_error_display (ControlCharacter s) =
     ''package specification contains a control character: '' @ s"
| "intent_error_display (DuplicatePackage s) = ''duplicate package specification: '' @ s"
| "intent_error_display (IntentSchemaVersion v) =
     ''unsupported transaction intent schema version: '' @ show_nat (unat v)"
| "intent_error_display (IntentJson s) = ''transaction intent JSON rejected: '' @ s"
| "intent_error_display NonCanonicalPackages =
     ''package specifications are not in unique canonical order''"

section \<open>Package specifications\<close>

datatype package_spec = PackageSpec (spec_str: string)

text \<open>\<^verbatim>\<open>str::escape_default\<close>, used for the text of one error.\<close>

definition hex_char :: "nat \<Rightarrow> char" where
  "hex_char d = (if d < 10 then char_of (48 + d) else char_of (87 + d))"

fun show_hex :: "nat \<Rightarrow> string" where
  "show_hex n = (if n < 16 then [hex_char n] else show_hex (n div 16) @ [hex_char (n mod 16)])"

declare show_hex.simps [simp del]

definition escape_char :: "nat \<Rightarrow> string" where
  "escape_char c =
     (if c = 9 then [CHR 0x5C, CHR ''t'']
      else if c = 13 then [CHR 0x5C, CHR ''r'']
      else if c = 10 then [CHR 0x5C, CHR ''n'']
      else if c = 39 \<or> c = 34 \<or> c = 92 then [CHR 0x5C, char_of c]
      else if 32 \<le> c \<and> c \<le> 126 then [char_of c]
      else [CHR 0x5C, CHR ''u'', CHR ''{''] @ show_hex c @ [CHR ''}''])"

definition escape_default :: "string \<Rightarrow> string" where
  "escape_default s = concat (map escape_char (chars_of s))"

definition spec_parse :: "string \<Rightarrow> (intent_error, package_spec) result" where
  "spec_parse value =
     (if list_all is_whitespace (chars_of value) then Inl EmptyPackage
      else if (case dropWhile is_whitespace (chars_of value) of [] \<Rightarrow> False | c # _ \<Rightarrow> c = 45)
      then Inl (OptionLikePackage value)
      else if list_ex is_control (chars_of value) then Inl (ControlCharacter (escape_default value))
      else Inr (PackageSpec value))"

definition spec_ok :: "string \<Rightarrow> bool" where
  "spec_ok value \<longleftrightarrow> spec_parse value = Inr (PackageSpec value)"

section \<open>Transaction intents\<close>

record transaction_intent =
  ti_schema_version :: u32
  ti_action :: action
  ti_packages :: "package_spec list"

fun check_packages :: "string set \<Rightarrow> package_spec list \<Rightarrow> (intent_error, unit) result" where
  "check_packages seen [] = Inr ()"
| "check_packages seen (p # ps) =
     bindR (spec_parse (spec_str p)) (\<lambda>_.
       if spec_str p \<in> seen then Inl (DuplicatePackage (spec_str p))
       else check_packages (insert (spec_str p) seen) ps)"

definition requires_packages :: "action \<Rightarrow> bool" where
  "requires_packages a \<longleftrightarrow> a \<in> {Install, Remove, Downgrade, Reinstall}"

definition intent_validate :: "transaction_intent \<Rightarrow> (intent_error, unit) result" where
  "intent_validate i =
     (if ti_schema_version i \<noteq> 1 then Inl (IntentSchemaVersion (ti_schema_version i))
      else if requires_packages (ti_action i) \<and> ti_packages i = []
      then Inl (MissingPackages (ti_action i))
      else if any_window (\<lambda>a b. spec_str a \<ge> spec_str b) (ti_packages i)
      then Inl NonCanonicalPackages
      else check_packages {} (ti_packages i))"

definition intent_new :: "action \<Rightarrow> package_spec list \<Rightarrow> (intent_error, transaction_intent) result" where
  "intent_new action packages =
     (let value = \<lparr>ti_schema_version = 1, ti_action = action,
        ti_packages = sort_key spec_str packages\<rparr>
      in bindR (intent_validate value) (\<lambda>_. Inr value))"

definition intent_from_package_names ::
  "action \<Rightarrow> string list \<Rightarrow> (intent_error, transaction_intent) result" where
  "intent_from_package_names action names =
     bindR (mapR spec_parse names) (\<lambda>packages. intent_new action packages)"

definition intent_deserialize :: "transaction_intent \<Rightarrow> (string, transaction_intent) result" where
  "intent_deserialize raw = bindR (map_err intent_error_display (intent_validate raw)) (\<lambda>_. Inr raw)"

text \<open>The two directions of \<^verbatim>\<open>CanonicalDocument\<close> report validation errors as \<^verbatim>\<open>Json\<close>.\<close>

definition intent_document_validate :: "transaction_intent \<Rightarrow> (domain_error, unit) result" where
  "intent_document_validate i = map_err (\<lambda>e. Json (intent_error_display e)) (intent_validate i)"

definition intent_from_json ::
  "(transaction_intent, 'j) serde \<Rightarrow> bytes \<Rightarrow> (intent_error, transaction_intent) result" where
  "intent_from_json S bs =
     map_err (\<lambda>e. IntentJson (domain_error_display e)) (from_canonical_json S intent_document_validate bs)"

definition intent_to_json ::
  "(transaction_intent, 'j) serde \<Rightarrow> transaction_intent \<Rightarrow> (intent_error, bytes) result" where
  "intent_to_json S i =
     map_err (\<lambda>e. IntentJson (domain_error_display e)) (to_canonical_json S intent_document_validate i)"

definition intent_wf :: "transaction_intent \<Rightarrow> bool" where
  "intent_wf i \<longleftrightarrow> ti_schema_version i = 1
     \<and> (requires_packages (ti_action i) \<longrightarrow> ti_packages i \<noteq> [])
     \<and> sorted_wrt (<) (map spec_str (ti_packages i))
     \<and> (\<forall>p\<in>set (ti_packages i). spec_ok (spec_str p))"

section \<open>Lemmas\<close>

lemma spec_parse_Inr: "spec_parse s = Inr p \<longleftrightarrow> spec_ok s \<and> p = PackageSpec s"
  by (auto simp: spec_ok_def spec_parse_def split: if_splits)

lemma check_packages_ok:
  "check_packages seen ps = Inr u \<longleftrightarrow>
     (\<forall>p\<in>set ps. spec_ok (spec_str p)) \<and> distinct (map spec_str ps) \<and> spec_str ` set ps \<inter> seen = {}"
  by (induction ps arbitrary: seen) (auto simp: bindR_eq_Inr spec_parse_Inr)

lemma check_packages_no_duplicate:
  "distinct (map spec_str ps) \<Longrightarrow> spec_str ` set ps \<inter> seen = {} \<Longrightarrow>
     check_packages seen ps \<noteq> Inl (DuplicatePackage s)"
proof (induction ps arbitrary: seen)
  case (Cons p ps)
  then have "spec_str ` set ps \<inter> insert (spec_str p) seen = {}" by auto
  with Cons show ?case
    by (auto simp: bindR_eq_Inl spec_parse_def split: if_splits)
qed simp

lemma intent_validate_iff: "intent_validate i = Inr () \<longleftrightarrow> intent_wf i"
  by (auto simp: intent_validate_def intent_wf_def check_packages_ok strict_sorted_iff)

interpretation intent_doc: canonical_document intent_document_validate intent_wf
  by unfold_locales (simp add: intent_document_validate_def map_err_eq_Inr intent_validate_iff)

lemma spec_str_inj: "inj_on spec_str A"
  by (auto simp: inj_on_def package_spec.expand)

lemma sort_spec_mset: "mset ps = mset qs \<Longrightarrow> sort_key spec_str ps = sort_key spec_str qs"
  by (rule sort_key_mset_cong) (simp_all add: spec_str_inj)

section \<open>Properties\<close>

text \<open>
  \<^verbatim>\<open>TransactionIntent::new\<close> succeeds exactly when every specification parses, no
  specification is repeated and an action that needs a selector has one; the result is well
  formed and holds the given specifications in ascending order.
\<close>

theorem intent_new_exact:
  "intent_new a ps = Inr i \<longleftrightarrow>
     (\<forall>p\<in>set ps. spec_ok (spec_str p)) \<and> distinct ps \<and> (requires_packages a \<longrightarrow> ps \<noteq> [])
     \<and> i = \<lparr>ti_schema_version = 1, ti_action = a, ti_packages = sort_key spec_str ps\<rparr>
     \<and> intent_wf i"
proof -
  let ?i = "\<lparr>ti_schema_version = 1, ti_action = a, ti_packages = sort_key spec_str ps\<rparr>"
  have "sorted_wrt (<) (map spec_str (sort_key spec_str ps)) \<longleftrightarrow> distinct ps"
    by (simp add: strict_sorted_iff distinct_map spec_str_inj)
  moreover have "sort_key spec_str ps = [] \<longleftrightarrow> ps = []"
    by (metis length_0_conv length_sort)
  ultimately have "intent_wf ?i \<longleftrightarrow>
      (\<forall>p\<in>set ps. spec_ok (spec_str p)) \<and> distinct ps \<and> (requires_packages a \<longrightarrow> ps \<noteq> [])"
    by (auto simp: intent_wf_def)
  then show ?thesis
    by (auto simp: intent_new_def Let_def bindR_eq_Inr intent_validate_iff)
qed

theorem intent_new_exact_witness:
  "\<exists>i. intent_new Install [PackageSpec ''vim'', PackageSpec ''bash''] = Inr i
     \<and> ti_packages i = [PackageSpec ''bash'', PackageSpec ''vim''] \<and> intent_wf i"
proof -
  have ok: "spec_ok ''vim'' \<and> spec_ok ''bash''" by code_simp
  let ?ps = "[PackageSpec ''vim'', PackageSpec ''bash'']"
  have s: "sort_key spec_str ?ps = [PackageSpec ''bash'', PackageSpec ''vim'']" by code_simp
  let ?i = "\<lparr>ti_schema_version = 1, ti_action = Install, ti_packages = sort_key spec_str ?ps\<rparr>"
  have "intent_wf ?i" using ok by (auto simp: intent_wf_def s)
  then have "intent_new Install ?ps = Inr ?i" using ok by (subst intent_new_exact) simp
  then show ?thesis using \<open>intent_wf ?i\<close> s by auto
qed

text \<open>
  The order in which the specifications are given does not change the intent, and
  a repeated specification is reported as a non-canonical order, never as
  \<^verbatim>\<open>DuplicatePackage\<close>: the adjacent-pair check of \<^verbatim>\<open>validate\<close> finds it first.
\<close>

theorem intent_new_order_and_duplicates:
  "(mset ps = mset qs \<longrightarrow> intent_new a ps = intent_new a qs)
   \<and> (\<not> distinct ps \<longrightarrow> intent_new a ps = Inl NonCanonicalPackages)
   \<and> intent_validate i \<noteq> Inl (DuplicatePackage s)"
proof (intro conjI impI)
  show "intent_new a ps = intent_new a qs" if "mset ps = mset qs"
    using sort_spec_mset [OF that] by (simp add: intent_new_def)
  show "intent_new a ps = Inl NonCanonicalPackages" if "\<not> distinct ps"
  proof -
    have "\<not> sorted_wrt (<) (map spec_str (sort_key spec_str ps))"
      using that by (simp add: strict_sorted_iff distinct_map spec_str_inj)
    moreover have "sort_key spec_str ps \<noteq> []"
      using that by (metis distinct.simps(1) length_0_conv length_sort)
    ultimately show ?thesis
      by (simp add: intent_new_def Let_def intent_validate_def)
  qed
  show "intent_validate i \<noteq> Inl (DuplicatePackage s)"
    by (auto simp: intent_validate_def check_packages_no_duplicate strict_sorted_iff)
qed

theorem intent_new_order_and_duplicates_witness:
  "intent_new Install [PackageSpec ''vim'', PackageSpec ''vim''] = Inl NonCanonicalPackages
   \<and> intent_new Upgrade [PackageSpec ''b'', PackageSpec ''a'']
      = intent_new Upgrade [PackageSpec ''a'', PackageSpec ''b'']"
proof -
  have d: "\<not> distinct [PackageSpec ''vim'', PackageSpec ''vim'']" by simp
  have m: "mset [PackageSpec ''b'', PackageSpec ''a''] = mset [PackageSpec ''a'', PackageSpec ''b'']"
    by simp
  show ?thesis using intent_new_order_and_duplicates d m by blast
qed

end
