(* ===== verification/Core_Policy.thy ===== *)
theory Core_Policy
  imports Core_Canonical
begin

text \<open>
  \<^verbatim>\<open>crates/dnfast-core/src/policy.rs\<close>: package reasons, replacement candidates, repository
  preferences and the solver policy with its checks on removals and replacements.
\<close>

section \<open>Reasons\<close>

datatype package_reason = User | Dependency | WeakDependency | External | Unknown

fun reason_rank :: "package_reason \<Rightarrow> nat" where
  "reason_rank User = 0"
| "reason_rank Dependency = 1"
| "reason_rank WeakDependency = 2"
| "reason_rank External = 3"
| "reason_rank Unknown = 4"

lemma reason_rank_inj: "reason_rank a = reason_rank b \<Longrightarrow> a = b"
  by (cases a; cases b) auto

instantiation package_reason :: linorder
begin

definition less_eq_package_reason :: "package_reason \<Rightarrow> package_reason \<Rightarrow> bool" where
  "a \<le> b \<longleftrightarrow> reason_rank a \<le> reason_rank b"

definition less_package_reason :: "package_reason \<Rightarrow> package_reason \<Rightarrow> bool" where
  "a < b \<longleftrightarrow> reason_rank a < reason_rank b"

instance
  by intro_classes (auto simp: less_eq_package_reason_def less_package_reason_def dest: reason_rank_inj)

end

definition is_autoremove_candidate :: "package_reason \<Rightarrow> bool" where
  "is_autoremove_candidate r \<longleftrightarrow> r = Dependency \<or> r = WeakDependency"

section \<open>Replacement candidates\<close>

datatype replacement_operation = UpgradeOp | DowngradeOp | ReinstallOp

datatype candidate_action =
    Replace replacement_operation (installed: evra) (candidate: evra) string string
  | Deferred string

definition candidate_upgrade :: "evra \<Rightarrow> evra \<Rightarrow> string \<Rightarrow> string \<Rightarrow> candidate_action" where
  "candidate_upgrade i c iv cv = Replace UpgradeOp i c iv cv"

definition candidate_downgrade :: "evra \<Rightarrow> evra \<Rightarrow> string \<Rightarrow> string \<Rightarrow> candidate_action" where
  "candidate_downgrade i c iv cv = Replace DowngradeOp i c iv cv"

definition candidate_reinstall :: "evra \<Rightarrow> evra \<Rightarrow> string \<Rightarrow> string \<Rightarrow> candidate_action" where
  "candidate_reinstall i c iv cv = Replace ReinstallOp i c iv cv"

definition distro_sync :: candidate_action where "distro_sync = Deferred ''distro-sync''"
definition vendor_switch :: candidate_action where "vendor_switch = Deferred ''vendor switch''"
definition arch_switch :: candidate_action where "arch_switch = Deferred ''architecture switch''"

section \<open>Repository preferences\<close>

record repo_preference =
  rp_priority :: u32
  rp_cost :: u32
  rp_repo_id :: string

definition preference_key :: "repo_preference \<Rightarrow> u32 \<times> u32 \<times> string" where
  "preference_key p = (rp_priority p, rp_cost p, rp_repo_id p)"

definition preference_new :: "string \<Rightarrow> u32 \<Rightarrow> u32 \<Rightarrow> (domain_error, repo_preference) result" where
  "preference_new repo_id priority cost =
     (if repo_id = [] then Inl (Empty ''repo_id'')
      else Inr \<lparr>rp_priority = priority, rp_cost = cost, rp_repo_id = repo_id\<rparr>)"

definition preference_deserialize :: "repo_preference \<Rightarrow> (string, repo_preference) result" where
  "preference_deserialize raw =
     map_err domain_error_display (preference_new (rp_repo_id raw) (rp_priority raw) (rp_cost raw))"

section \<open>The solver policy\<close>

record solver_policy =
  sp_schema_version :: u32
  sp_install_weak_deps :: bool
  sp_best :: bool
  sp_base_arch :: architecture
  sp_allowed_arches :: "architecture set"
  sp_allow_multilib :: bool
  sp_allow_vendor_change :: bool
  sp_upgrade_only :: bool
  sp_repo_preferences :: "repo_preference list"
  sp_protected_packages :: "string set"
  sp_installonly_packages :: "string set"
  sp_running_kernel_name :: "string option"
  sp_excludes :: "string set"

text \<open>What serde reads: the sets as lists, in which an entry may be repeated.\<close>

record raw_solver_policy =
  rsp_schema_version :: u32
  rsp_install_weak_deps :: bool
  rsp_best :: bool
  rsp_base_arch :: architecture
  rsp_allowed_arches :: "architecture list"
  rsp_allow_multilib :: bool
  rsp_allow_vendor_change :: bool
  rsp_upgrade_only :: bool
  rsp_repo_preferences :: "repo_preference list"
  rsp_protected_packages :: "string list"
  rsp_installonly_packages :: "string list"
  rsp_running_kernel_name :: "string option"
  rsp_excludes :: "string list"

fun expected_arches :: "architecture \<Rightarrow> (domain_error, architecture set) result" where
  "expected_arches Aarch64 = Inr {Aarch64, Noarch}"
| "expected_arches X86_64 = Inr {X86_64, Noarch}"
| "expected_arches Noarch = Inl ArchitectureError"

definition policy_validate :: "solver_policy \<Rightarrow> (domain_error, unit) result" where
  "policy_validate p =
     (if sp_schema_version p \<noteq> 1 then Inl (SchemaVersion 1 (sp_schema_version p))
      else bindR (expected_arches (sp_base_arch p)) (\<lambda>expected.
        if sp_allowed_arches p \<noteq> expected then Inl ArchitectureError
        else if \<not> sp_install_weak_deps p \<or> sp_best p \<or> sp_allow_multilib p
          \<or> sp_allow_vendor_change p \<or> \<not> sp_upgrade_only p
        then Inl (UnsafeAction ''unsafe solver policy'')
        else if any_window (\<lambda>a b. preference_key a \<ge> preference_key b) (sp_repo_preferences p)
        then Inl NonCanonical
        else if list_ex (\<lambda>r. rp_repo_id r = []) (sp_repo_preferences p) then Inl (Empty ''repo_id'')
        else if [] \<in> sp_protected_packages p \<union> sp_installonly_packages p \<union> sp_excludes p
          \<or> sp_running_kernel_name p = Some []
        then Inl (Empty ''solver package name'')
        else Inr ()))"

definition policy_deserialize :: "raw_solver_policy \<Rightarrow> (string, solver_policy) result" where
  "policy_deserialize raw =
     (if card (set (rsp_allowed_arches raw)) \<noteq> length (rsp_allowed_arches raw)
        \<or> card (set (rsp_protected_packages raw)) \<noteq> length (rsp_protected_packages raw)
        \<or> card (set (rsp_installonly_packages raw)) \<noteq> length (rsp_installonly_packages raw)
        \<or> card (set (rsp_excludes raw)) \<noteq> length (rsp_excludes raw)
      then Inl ''duplicate solver policy entry''
      else
        (let value = \<lparr>sp_schema_version = rsp_schema_version raw,
               sp_install_weak_deps = rsp_install_weak_deps raw, sp_best = rsp_best raw,
               sp_base_arch = rsp_base_arch raw, sp_allowed_arches = set (rsp_allowed_arches raw),
               sp_allow_multilib = rsp_allow_multilib raw,
               sp_allow_vendor_change = rsp_allow_vendor_change raw,
               sp_upgrade_only = rsp_upgrade_only raw,
               sp_repo_preferences = rsp_repo_preferences raw,
               sp_protected_packages = set (rsp_protected_packages raw),
               sp_installonly_packages = set (rsp_installonly_packages raw),
               sp_running_kernel_name = rsp_running_kernel_name raw,
               sp_excludes = set (rsp_excludes raw)\<rparr>
         in bindR (map_err domain_error_display (policy_validate value)) (\<lambda>_. Inr value)))"

definition fedora44 :: "architecture \<Rightarrow> string list \<Rightarrow> string list \<Rightarrow> solver_policy" where
  "fedora44 base_arch protected installonly =
     \<lparr>sp_schema_version = 1, sp_install_weak_deps = True, sp_best = False,
      sp_base_arch = base_arch, sp_allowed_arches = {base_arch, Noarch},
      sp_allow_multilib = False, sp_allow_vendor_change = False, sp_upgrade_only = True,
      sp_repo_preferences = [], sp_protected_packages = set protected,
      sp_installonly_packages = set installonly, sp_running_kernel_name = None,
      sp_excludes = {}\<rparr>"

definition fedora44_aarch64 :: "string list \<Rightarrow> string list \<Rightarrow> solver_policy" where
  "fedora44_aarch64 protected installonly = fedora44 Aarch64 protected installonly"

definition fedora44_x86_64 :: "string list \<Rightarrow> string list \<Rightarrow> solver_policy" where
  "fedora44_x86_64 protected installonly = fedora44 X86_64 protected installonly"

definition with_repositories :: "solver_policy \<Rightarrow> repo_preference list \<Rightarrow> solver_policy" where
  "with_repositories p repositories = p\<lparr>sp_repo_preferences := sort_key preference_key repositories\<rparr>"

definition with_excludes :: "solver_policy \<Rightarrow> string list \<Rightarrow> solver_policy" where
  "with_excludes p excludes = p\<lparr>sp_excludes := set excludes\<rparr>"

definition with_running_kernel_name :: "solver_policy \<Rightarrow> string \<Rightarrow> solver_policy" where
  "with_running_kernel_name p name = p\<lparr>sp_running_kernel_name := Some name\<rparr>"

definition validate_action :: "solver_policy \<Rightarrow> candidate_action \<Rightarrow> (domain_error, unit) result" where
  "validate_action p action =
     (case action of Replace _ _ _ _ _ \<Rightarrow> Inr () | Deferred name \<Rightarrow> Inl (UnsafeAction name))"

definition ensure_supported :: "solver_policy \<Rightarrow> (domain_error, unit) result" where
  "ensure_supported p = policy_validate p"

definition is_excluded :: "solver_policy \<Rightarrow> string \<Rightarrow> bool" where
  "is_excluded p name \<longleftrightarrow> name \<in> sp_excludes p"

definition is_protected :: "solver_policy \<Rightarrow> string \<Rightarrow> bool" where
  "is_protected p name \<longleftrightarrow> name \<in> sp_protected_packages p"

definition is_installonly :: "solver_policy \<Rightarrow> string \<Rightarrow> bool" where
  "is_installonly p name \<longleftrightarrow> name \<in> sp_installonly_packages p"

definition is_running_kernel :: "solver_policy \<Rightarrow> string \<Rightarrow> bool" where
  "is_running_kernel p name \<longleftrightarrow> sp_running_kernel_name p = Some name"

definition validate_replacement_identity ::
  "solver_policy \<Rightarrow> evra \<Rightarrow> evra \<Rightarrow> string \<Rightarrow> string \<Rightarrow> (domain_error, unit) result" where
  "validate_replacement_identity p i c iv cv =
     bindR (evra_validate i) (\<lambda>_. bindR (evra_validate c) (\<lambda>_.
       if ev_arch i \<noteq> ev_arch c then Inl (UnsafeAction ''architecture switch'')
       else if iv \<noteq> cv then Inl (UnsafeAction ''vendor switch'')
       else Inr ()))"

definition validate_upgrade :: "solver_policy \<Rightarrow> candidate_action \<Rightarrow> (domain_error, unit) result" where
  "validate_upgrade p action =
     (case action of
        Replace UpgradeOp i c iv cv \<Rightarrow>
          bindR (evra_validate i) (\<lambda>_. bindR (evra_validate c) (\<lambda>_.
            if ev_arch i \<noteq> ev_arch c then Inl (UnsafeAction ''architecture switch'')
            else if iv \<noteq> cv then Inl (UnsafeAction ''vendor switch'')
            else if \<not> is_strictly_newer_than c i then Inl (UnsafeAction ''candidate is not newer'')
            else Inr ()))
      | _ \<Rightarrow> validate_action p action)"

definition validate_downgrade :: "solver_policy \<Rightarrow> candidate_action \<Rightarrow> (domain_error, unit) result" where
  "validate_downgrade p action =
     (case action of
        Replace DowngradeOp i c iv cv \<Rightarrow>
          bindR (validate_replacement_identity p i c iv cv) (\<lambda>_.
            if \<not> is_strictly_newer_than i c then Inl (UnsafeAction ''candidate is not older'')
            else Inr ())
      | _ \<Rightarrow> validate_action p action)"

definition validate_reinstall :: "solver_policy \<Rightarrow> candidate_action \<Rightarrow> (domain_error, unit) result" where
  "validate_reinstall p action =
     (case action of
        Replace ReinstallOp i c iv cv \<Rightarrow>
          bindR (validate_replacement_identity p i c iv cv) (\<lambda>_.
            if i \<noteq> c then Inl (UnsafeAction ''reinstall candidate differs'')
            else Inr ())
      | _ \<Rightarrow> validate_action p action)"

definition validate_removal ::
  "solver_policy \<Rightarrow> string \<Rightarrow> package_reason \<Rightarrow> (domain_error, unit) result" where
  "validate_removal p name reason =
     (if name \<in> sp_protected_packages p then Inl (UnsafeAction ''protected package removal'')
      else if name \<in> sp_installonly_packages p then Inl (UnsafeAction ''installonly package removal'')
      else if sp_running_kernel_name p = Some name then Inl (UnsafeAction ''running kernel removal'')
      else case reason of
        User \<Rightarrow> Inr () | Dependency \<Rightarrow> Inr () | WeakDependency \<Rightarrow> Inr ()
      | External \<Rightarrow> Inl (UnsafeAction ''package reason requires keep'')
      | Unknown \<Rightarrow> Inl (UnsafeAction ''package reason requires keep''))"

definition validate_planned_removal ::
  "solver_policy \<Rightarrow> string \<Rightarrow> package_reason \<Rightarrow> (domain_error, unit) result" where
  "validate_planned_removal p name reason = validate_removal p name reason"

definition validate_planned_upgrade ::
  "solver_policy \<Rightarrow> evra \<Rightarrow> evra \<Rightarrow> string \<Rightarrow> string \<Rightarrow> (domain_error, unit) result" where
  "validate_planned_upgrade p i c iv cv = validate_upgrade p (candidate_upgrade i c iv cv)"

definition policy_wf :: "solver_policy \<Rightarrow> bool" where
  "policy_wf p \<longleftrightarrow> sp_schema_version p = 1 \<and> sp_base_arch p \<noteq> Noarch
     \<and> sp_allowed_arches p = {sp_base_arch p, Noarch}
     \<and> sp_install_weak_deps p \<and> \<not> sp_best p \<and> \<not> sp_allow_multilib p
     \<and> \<not> sp_allow_vendor_change p \<and> sp_upgrade_only p
     \<and> sorted_wrt (<) (map preference_key (sp_repo_preferences p))
     \<and> (\<forall>r\<in>set (sp_repo_preferences p). rp_repo_id r \<noteq> [])
     \<and> [] \<notin> sp_protected_packages p \<and> [] \<notin> sp_installonly_packages p
     \<and> [] \<notin> sp_excludes p \<and> sp_running_kernel_name p \<noteq> Some []"

section \<open>Lemmas\<close>

lemma preference_key_inj [simp]: "preference_key a = preference_key b \<longleftrightarrow> a = b"
  by (auto simp: preference_key_def)

lemma expected_arches_Inr: "expected_arches a = Inr s \<longleftrightarrow> a \<noteq> Noarch \<and> s = {a, Noarch}"
  by (cases a) auto

lemma policy_validate_iff: "policy_validate p = Inr () \<longleftrightarrow> policy_wf p"
  by (auto simp: policy_validate_def policy_wf_def bindR_eq_Inr expected_arches_Inr list_ex_iff)

interpretation policy_doc: canonical_document policy_validate policy_wf
  by unfold_locales (rule policy_validate_iff)

lemma validate_removal_ok [result_simps]:
  "validate_removal p name reason = Inr u \<longleftrightarrow>
     \<not> is_protected p name \<and> \<not> is_installonly p name \<and> \<not> is_running_kernel p name
     \<and> reason \<in> {User, Dependency, WeakDependency}"
  by (cases reason)
    (auto simp: validate_removal_def is_protected_def is_installonly_def is_running_kernel_def)

lemma validate_replacement_identity_ok:
  "validate_replacement_identity p i c iv cv = Inr u \<longleftrightarrow>
     evra_validate i = Inr () \<and> evra_validate c = Inr () \<and> ev_arch i = ev_arch c \<and> iv = cv"
  by (auto simp: validate_replacement_identity_def bindR_eq_Inr)

lemma validate_upgrade_ok:
  "validate_upgrade p (candidate_upgrade i c iv cv) = Inr u \<longleftrightarrow>
     evra_validate i = Inr () \<and> evra_validate c = Inr () \<and> ev_arch i = ev_arch c \<and> iv = cv
     \<and> is_strictly_newer_than c i"
  by (auto simp: validate_upgrade_def candidate_upgrade_def bindR_eq_Inr)

lemma validate_downgrade_ok:
  "validate_downgrade p (candidate_downgrade i c iv cv) = Inr u \<longleftrightarrow>
     evra_validate i = Inr () \<and> evra_validate c = Inr () \<and> ev_arch i = ev_arch c \<and> iv = cv
     \<and> is_strictly_newer_than i c"
  by (auto simp: validate_downgrade_def candidate_downgrade_def bindR_eq_Inr
      validate_replacement_identity_ok)

lemma validate_reinstall_ok:
  "validate_reinstall p (candidate_reinstall i c iv cv) = Inr u \<longleftrightarrow>
     evra_validate i = Inr () \<and> i = c \<and> iv = cv"
  by (auto simp: validate_reinstall_def candidate_reinstall_def bindR_eq_Inr
      validate_replacement_identity_ok)

lemmas replacement_ok = validate_upgrade_ok validate_downgrade_ok validate_reinstall_ok

section \<open>Properties\<close>

text \<open>
  A replacement that any of the three direction checks accepts keeps the
  architecture and the vendor, and for one pair of EVRAs at most one of upgrade, downgrade and
  reinstall is accepted.
\<close>

theorem replacement_directions_exclusive:
  "(validate_upgrade p (candidate_upgrade i c iv cv) = Inr () \<longrightarrow>
      ev_arch i = ev_arch c \<and> iv = cv
      \<and> validate_downgrade p (candidate_downgrade i c iv cv) \<noteq> Inr ()
      \<and> validate_reinstall p (candidate_reinstall i c iv cv) \<noteq> Inr ())
   \<and> (validate_downgrade p (candidate_downgrade i c iv cv) = Inr () \<longrightarrow>
      ev_arch i = ev_arch c \<and> iv = cv
      \<and> validate_reinstall p (candidate_reinstall i c iv cv) \<noteq> Inr ())
   \<and> (validate_reinstall p (candidate_reinstall i c iv cv) = Inr () \<longrightarrow> i = c \<and> iv = cv)"
  by (auto simp: replacement_ok dest: is_strictly_newer_than_asym)

theorem replacement_directions_exclusive_witness:
  "validate_upgrade (fedora44_x86_64 [] []) (candidate_upgrade (evra_new 0 ''1'' ''1'' X86_64)
       (evra_new 0 ''2'' ''1'' X86_64) ''Fedora'' ''Fedora'') = Inr ()
   \<and> validate_downgrade (fedora44_x86_64 [] []) (candidate_downgrade (evra_new 0 ''1'' ''1'' X86_64)
       (evra_new 0 ''2'' ''1'' X86_64) ''Fedora'' ''Fedora'') \<noteq> Inr ()"
proof -
  have h: "validate_upgrade (fedora44_x86_64 [] []) (candidate_upgrade (evra_new 0 ''1'' ''1'' X86_64)
       (evra_new 0 ''2'' ''1'' X86_64) ''Fedora'' ''Fedora'') = Inr ()" by code_simp
  show ?thesis using h replacement_directions_exclusive by blast
qed

text \<open>
  Each direction check looks only at candidates of its own direction: any other
  replacement falls through to \<^verbatim>\<open>validate_action\<close>, which accepts it. A downgrade to an older
  version of another architecture and vendor passes \<^verbatim>\<open>validate_upgrade\<close>; the callers always pair
  the check with the constructor of the same direction.
\<close>

theorem direction_check_ignores_other_directions:
  "validate_upgrade p (candidate_downgrade i c iv cv) = Inr ()
   \<and> validate_upgrade p (candidate_reinstall i c iv cv) = Inr ()
   \<and> validate_downgrade p (candidate_upgrade i c iv cv) = Inr ()
   \<and> validate_reinstall p (candidate_upgrade i c iv cv) = Inr ()
   \<and> validate_upgrade p (Deferred name) = Inl (UnsafeAction name)"
  by (simp add: validate_upgrade_def validate_downgrade_def validate_reinstall_def validate_action_def
      candidate_upgrade_def candidate_downgrade_def candidate_reinstall_def)

text \<open>
  The Fedora 44 policy for a binary architecture, with any set of distinct named
  repositories and with excludes and a running kernel added, is supported exactly when no
  package name in it is empty.
\<close>

theorem fedora44_supported:
  assumes "distinct repos" "\<forall>r\<in>set repos. rp_repo_id r \<noteq> []"
  shows "ensure_supported (with_running_kernel_name (with_excludes
      (with_repositories (fedora44 arch protected installonly) repos) excludes) kname) = Inr ()
    \<longleftrightarrow> arch \<noteq> Noarch \<and> [] \<notin> set protected \<and> [] \<notin> set installonly \<and> [] \<notin> set excludes \<and> kname \<noteq> []"
proof -
  have "distinct (map preference_key repos)"
    using assms(1) by (simp add: distinct_map inj_on_def)
  then have "sorted_wrt (<) (map preference_key (sort_key preference_key repos))"
    by (rule sort_key_strict)
  with assms(2) show ?thesis
    unfolding ensure_supported_def policy_validate_iff
    by (auto simp: policy_wf_def with_running_kernel_name_def with_excludes_def
        with_repositories_def fedora44_def)
qed

theorem fedora44_supported_witness:
  "ensure_supported (with_running_kernel_name (with_excludes (with_repositories
     (fedora44 X86_64 [''dnfast''] [''kernel'']) [\<lparr>rp_priority = 99, rp_cost = 1000, rp_repo_id = ''updates''\<rparr>,
       \<lparr>rp_priority = 99, rp_cost = 1000, rp_repo_id = ''fedora''\<rparr>]) [''foo'']) ''kernel-core'') = Inr ()"
proof -
  let ?r = "[\<lparr>rp_priority = 99, rp_cost = 1000, rp_repo_id = ''updates''\<rparr>,
       \<lparr>rp_priority = 99, rp_cost = 1000, rp_repo_id = ''fedora''\<rparr>]"
  have "distinct ?r" "\<forall>r\<in>set ?r. rp_repo_id r \<noteq> []" by simp_all
  from fedora44_supported [OF this] show ?thesis by simp
qed

end
