(* ===== verification/Core_Integrity.thy ===== *)
theory Core_Integrity
  imports Core_Canonical
begin

text \<open>
  \<^verbatim>\<open>crates/dnfast-core/src/integrity.rs\<close>: repository bindings and the digests a plan is bound to.
\<close>

record repository_binding =
  rb_id :: string
  rb_generation_sha256 :: sha256_digest
  rb_origin_sha256 :: sha256_digest
  rb_trust_sha256 :: sha256_digest

definition binding_key :: "repository_binding \<Rightarrow> string \<times> string \<times> string \<times> string" where
  "binding_key b = (rb_id b, as_str (rb_generation_sha256 b), as_str (rb_origin_sha256 b),
     as_str (rb_trust_sha256 b))"

definition binding_new ::
  "string \<Rightarrow> sha256_digest \<Rightarrow> sha256_digest \<Rightarrow> sha256_digest \<Rightarrow> (domain_error, repository_binding) result" where
  "binding_new ident generation origin trust =
     (if ident = [] \<or> list_ex (\<lambda>b. \<not> (is_ascii_alphanumeric b \<or> b \<in> set ''_.-'')) ident
      then Inl (InvalidPlan ''invalid repository binding identifier'')
      else Inr \<lparr>rb_id = ident, rb_generation_sha256 = generation, rb_origin_sha256 = origin,
                rb_trust_sha256 = trust\<rparr>)"

definition binding_deserialize :: "repository_binding \<Rightarrow> (string, repository_binding) result" where
  "binding_deserialize raw = map_err domain_error_display
     (binding_new (rb_id raw) (rb_generation_sha256 raw) (rb_origin_sha256 raw) (rb_trust_sha256 raw))"

record plan_integrity =
  pi_policy_sha256 :: sha256_digest
  pi_trust_sha256 :: sha256_digest
  pi_inventory_sha256 :: sha256_digest
  pi_metadata_sha256 :: sha256_digest
  pi_planning_snapshot_sha256 :: sha256_digest
  pi_selected_repositories :: "repository_binding list"

definition integrity_validate :: "plan_integrity \<Rightarrow> (domain_error, unit) result" where
  "integrity_validate i =
     (if pi_selected_repositories i = []
        \<or> any_window (\<lambda>a b. binding_key a \<ge> binding_key b) (pi_selected_repositories i)
      then Inl NonCanonical else Inr ())"

definition integrity_new ::
  "string \<Rightarrow> string \<Rightarrow> string \<Rightarrow> string \<Rightarrow> string \<Rightarrow> repository_binding list
     \<Rightarrow> (domain_error, plan_integrity) result" where
  "integrity_new d0 d1 d2 d3 d4 repositories =
     bindR (digest_parse d0 ''policy_sha256'') (\<lambda>policy.
     bindR (digest_parse d1 ''trust_sha256'') (\<lambda>trust.
     bindR (digest_parse d2 ''inventory_sha256'') (\<lambda>inventory.
     bindR (digest_parse d3 ''metadata_sha256'') (\<lambda>metadata.
     bindR (digest_parse d4 ''planning_snapshot_sha256'') (\<lambda>snapshot.
     let value = \<lparr>pi_policy_sha256 = policy, pi_trust_sha256 = trust,
           pi_inventory_sha256 = inventory, pi_metadata_sha256 = metadata,
           pi_planning_snapshot_sha256 = snapshot, pi_selected_repositories = repositories\<rparr>
     in bindR (integrity_validate value) (\<lambda>_. Inr value))))))"

definition integrity_wf :: "plan_integrity \<Rightarrow> bool" where
  "integrity_wf i \<longleftrightarrow> pi_selected_repositories i \<noteq> []
     \<and> sorted_wrt (<) (map binding_key (pi_selected_repositories i))"

lemma binding_key_inj [simp]: "binding_key a = binding_key b \<longleftrightarrow> a = b"
  by (auto simp: binding_key_def sha256_digest.expand)

lemma integrity_validate_ok [result_simps]: "integrity_validate i = Inr u \<longleftrightarrow> integrity_wf i"
  by (auto simp: integrity_validate_def integrity_wf_def)

end
