(* ===== verification/Core_Plan.thy ===== *)
theory Core_Plan
  imports Core_Intent Core_Policy Core_Integrity
begin

text \<open>
  \<^verbatim>\<open>crates/dnfast-core/src/plan.rs\<close>: package actions and the plan envelope. \<open>action_validate\<close>
  checks one action, \<open>canonical_actions\<close> sorts and checks the list a builder supplies,
  \<open>plan_validate_now\<close> is the structural check of a plan and \<open>plan_validate_executable\<close> decides
  whether a plan may run under a policy.
\<close>

section \<open>Package actions\<close>

definition MAX_PLAN_ACTIONS :: nat where
  "MAX_PLAN_ACTIONS = 100000"

datatype package_operation = OpInstall | OpUpgrade | OpDowngrade | OpReinstall | OpRemove

fun operation_rank :: "package_operation \<Rightarrow> nat" where
  "operation_rank OpInstall = 0"
| "operation_rank OpUpgrade = 1"
| "operation_rank OpDowngrade = 2"
| "operation_rank OpReinstall = 3"
| "operation_rank OpRemove = 4"

lemma operation_rank_inj: "operation_rank a = operation_rank b \<Longrightarrow> a = b"
  by (cases a; cases b) auto

instantiation package_operation :: linorder
begin

definition less_eq_package_operation :: "package_operation \<Rightarrow> package_operation \<Rightarrow> bool" where
  "a \<le> b \<longleftrightarrow> operation_rank a \<le> operation_rank b"

definition less_package_operation :: "package_operation \<Rightarrow> package_operation \<Rightarrow> bool" where
  "a < b \<longleftrightarrow> operation_rank a < operation_rank b"

instance
  by intro_classes
    (auto simp: less_eq_package_operation_def less_package_operation_def dest: operation_rank_inj)

end

datatype action_provenance = ObsoletedBy (parent_action_identity: string)

record package_action =
  pa_operation :: package_operation
  pa_name :: string
  pa_target_evra :: evra
  pa_installed_evra :: "evra option"
  pa_installed_instance :: "u64 option"
  pa_installed_header :: "sha256_digest option"
  pa_installed_vendor :: "string option"
  pa_candidate_vendor :: "string option"
  pa_repo_id :: "string option"
  pa_reason :: package_reason
  pa_provenance :: "action_provenance option"

text \<open>The derived \<^verbatim>\<open>Ord\<close>: all fields in order.\<close>

definition action_key ::
  "package_action \<Rightarrow> package_operation \<times> string \<times> (u32 \<times> string \<times> string \<times> architecture)
     \<times> (u32 \<times> string \<times> string \<times> architecture) option \<times> u64 option \<times> string option
     \<times> string option \<times> string option \<times> string option \<times> package_reason \<times> string option" where
  "action_key a = (pa_operation a, pa_name a, evra_key (pa_target_evra a),
     map_option evra_key (pa_installed_evra a), pa_installed_instance a,
     map_option as_str (pa_installed_header a), pa_installed_vendor a, pa_candidate_vendor a,
     pa_repo_id a, pa_reason a, map_option parent_action_identity (pa_provenance a))"

definition mk_action ::
  "package_operation \<Rightarrow> string \<Rightarrow> evra \<Rightarrow> evra option \<Rightarrow> (u64 \<times> sha256_digest) option
     \<Rightarrow> string option \<Rightarrow> string option \<Rightarrow> string option \<Rightarrow> package_reason \<Rightarrow> action_provenance option
     \<Rightarrow> package_action" where
  "mk_action oper name target inst ident iv cv repo reason prov =
     \<lparr>pa_operation = oper, pa_name = name, pa_target_evra = target, pa_installed_evra = inst,
      pa_installed_instance = map_option fst ident, pa_installed_header = map_option snd ident,
      pa_installed_vendor = iv, pa_candidate_vendor = cv, pa_repo_id = repo, pa_reason = reason,
      pa_provenance = prov\<rparr>"

definition action_install :: "string \<Rightarrow> evra \<Rightarrow> string \<Rightarrow> package_reason \<Rightarrow> package_action" where
  "action_install name evra repo reason =
     mk_action OpInstall name evra None None None (Some ''unknown'') (Some repo) reason None"

definition action_install_with_vendor ::
  "string \<Rightarrow> evra \<Rightarrow> string \<Rightarrow> string \<Rightarrow> package_reason \<Rightarrow> package_action" where
  "action_install_with_vendor name evra repo vendor reason =
     mk_action OpInstall name evra None None None (Some vendor) (Some repo) reason None"

definition action_remove :: "string \<Rightarrow> evra \<Rightarrow> package_reason \<Rightarrow> package_action" where
  "action_remove name evra reason =
     mk_action OpRemove name evra (Some evra) None (Some ''unknown'') None None reason None"

definition action_remove_with_vendor ::
  "string \<Rightarrow> evra \<Rightarrow> string \<Rightarrow> package_reason \<Rightarrow> package_action" where
  "action_remove_with_vendor name evra vendor reason =
     mk_action OpRemove name evra (Some evra) None (Some vendor) None None reason None"

definition action_upgrade ::
  "string \<Rightarrow> evra \<Rightarrow> evra \<Rightarrow> string \<Rightarrow> string \<Rightarrow> string \<Rightarrow> package_reason \<Rightarrow> package_action" where
  "action_upgrade name inst target repo iv cv reason =
     mk_action OpUpgrade name target (Some inst) None (Some iv) (Some cv) (Some repo) reason None"

definition action_downgrade ::
  "string \<Rightarrow> evra \<Rightarrow> evra \<Rightarrow> string \<Rightarrow> string \<Rightarrow> string \<Rightarrow> package_reason \<Rightarrow> package_action" where
  "action_downgrade name inst target repo iv cv reason =
     mk_action OpDowngrade name target (Some inst) None (Some iv) (Some cv) (Some repo) reason None"

definition action_reinstall ::
  "string \<Rightarrow> evra \<Rightarrow> evra \<Rightarrow> string \<Rightarrow> string \<Rightarrow> string \<Rightarrow> package_reason \<Rightarrow> package_action" where
  "action_reinstall name inst target repo iv cv reason =
     mk_action OpReinstall name target (Some inst) None (Some iv) (Some cv) (Some repo) reason None"

definition action_remove_obsoleted ::
  "string \<Rightarrow> evra \<Rightarrow> string \<Rightarrow> package_reason \<Rightarrow> string \<Rightarrow> package_action" where
  "action_remove_obsoleted name evra vendor reason parent =
     mk_action OpRemove name evra (Some evra) None (Some vendor) None None reason
       (Some (ObsoletedBy parent))"

definition action_remove_with_identity ::
  "string \<Rightarrow> evra \<Rightarrow> string \<Rightarrow> package_reason \<Rightarrow> u64 \<Rightarrow> string \<Rightarrow> (domain_error, package_action) result" where
  "action_remove_with_identity name evra vendor reason inst_id header =
     bindR (digest_parse header ''installed_header_sha256'') (\<lambda>d.
       Inr (mk_action OpRemove name evra (Some evra) (Some (inst_id, d)) (Some vendor) None None
              reason None))"

definition action_remove_obsoleted_with_identity ::
  "string \<Rightarrow> evra \<Rightarrow> string \<Rightarrow> package_reason \<Rightarrow> u64 \<Rightarrow> string \<Rightarrow> string
     \<Rightarrow> (domain_error, package_action) result" where
  "action_remove_obsoleted_with_identity name evra vendor reason inst_id header parent =
     bindR (digest_parse header ''installed_header_sha256'') (\<lambda>d.
       Inr (mk_action OpRemove name evra (Some evra) (Some (inst_id, d)) (Some vendor) None None
              reason (Some (ObsoletedBy parent))))"

definition action_upgrade_with_identity ::
  "string \<Rightarrow> evra \<Rightarrow> evra \<Rightarrow> string \<Rightarrow> string \<Rightarrow> string \<Rightarrow> package_reason \<Rightarrow> u64 \<Rightarrow> string
     \<Rightarrow> (domain_error, package_action) result" where
  "action_upgrade_with_identity name inst target repo iv cv reason inst_id header =
     bindR (digest_parse header ''installed_header_sha256'') (\<lambda>d.
       Inr (mk_action OpUpgrade name target (Some inst) (Some (inst_id, d)) (Some iv) (Some cv)
              (Some repo) reason None))"

definition action_downgrade_with_identity ::
  "string \<Rightarrow> evra \<Rightarrow> evra \<Rightarrow> string \<Rightarrow> string \<Rightarrow> string \<Rightarrow> package_reason \<Rightarrow> u64 \<Rightarrow> string
     \<Rightarrow> (domain_error, package_action) result" where
  "action_downgrade_with_identity name inst target repo iv cv reason inst_id header =
     bindR (digest_parse header ''installed_header_sha256'') (\<lambda>d.
       Inr (mk_action OpDowngrade name target (Some inst) (Some (inst_id, d)) (Some iv) (Some cv)
              (Some repo) reason None))"

definition action_reinstall_with_identity ::
  "string \<Rightarrow> evra \<Rightarrow> evra \<Rightarrow> string \<Rightarrow> string \<Rightarrow> string \<Rightarrow> package_reason \<Rightarrow> u64 \<Rightarrow> string
     \<Rightarrow> (domain_error, package_action) result" where
  "action_reinstall_with_identity name inst target repo iv cv reason inst_id header =
     bindR (digest_parse header ''installed_header_sha256'') (\<lambda>d.
       Inr (mk_action OpReinstall name target (Some inst) (Some (inst_id, d)) (Some iv) (Some cv)
              (Some repo) reason None))"

text \<open>\<^verbatim>\<open>{repo}:{name}-{epoch}:{version}-{release}.{arch}\<close>\<close>

definition action_identity :: "package_action \<Rightarrow> string option" where
  "action_identity a = map_option (\<lambda>repo.
     repo @ '':'' @ pa_name a @ ''-'' @ show_nat (unat (ev_epoch (pa_target_evra a))) @ '':''
       @ ev_version (pa_target_evra a) @ ''-'' @ ev_release (pa_target_evra a) @ ''.''
       @ as_rpm_arch (ev_arch (pa_target_evra a))) (pa_repo_id a)"

text \<open>\<^verbatim>\<open>opt.as_deref().is_none_or(str::is_empty)\<close>\<close>

definition none_or_empty :: "string option \<Rightarrow> bool" where
  "none_or_empty v \<longleftrightarrow> v = None \<or> v = Some []"

text \<open>The guarded arms of the \<^verbatim>\<open>match\<close> in \<^verbatim>\<open>validate\<close>, in order.\<close>

definition action_validate :: "package_action \<Rightarrow> (domain_error, unit) result" where
  "action_validate a =
     (if pa_name a = [] then Inl (Empty ''action_name'')
      else bindR (evra_validate (pa_target_evra a)) (\<lambda>_.
        if pa_operation a \<noteq> OpRemove \<and> none_or_empty (pa_repo_id a)
        then Inl (InvalidPlan ''install/replacement action requires repo'')
        else if pa_operation a = OpRemove \<and> pa_repo_id a \<noteq> None
        then Inl (InvalidPlan ''remove action cannot have repo'')
        else if pa_operation a = OpRemove \<and> (pa_reason a = Unknown \<or> pa_reason a = External)
        then Inl (UnsafeAction ''package reason requires keep'')
        else if pa_operation a = OpInstall
          \<and> (pa_installed_evra a \<noteq> None \<or> pa_installed_instance a \<noteq> None
             \<or> pa_installed_header a \<noteq> None \<or> pa_installed_vendor a \<noteq> None)
        then Inl (InvalidPlan ''install cannot carry installed package'')
        else if pa_operation a = OpInstall \<and> none_or_empty (pa_candidate_vendor a)
        then Inl (InvalidPlan ''install requires candidate vendor'')
        else if pa_operation a \<in> {OpUpgrade, OpDowngrade, OpReinstall}
          \<and> (pa_installed_evra a = None \<or> pa_installed_vendor a = None
             \<or> none_or_empty (pa_candidate_vendor a) \<or> pa_installed_instance a = None
             \<or> pa_installed_header a = None)
        then Inl (InvalidPlan ''replacement requires installed and candidate identity'')
        else if pa_operation a = OpRemove
          \<and> (pa_installed_evra a \<noteq> Some (pa_target_evra a) \<or> pa_installed_vendor a = None
             \<or> pa_installed_instance a = None \<or> pa_installed_header a = None)
        then Inl (InvalidPlan ''remove requires exact installed identity'')
        else if pa_operation a = OpRemove \<and> pa_candidate_vendor a \<noteq> None
        then Inl (InvalidPlan ''remove cannot carry candidate vendor'')
        else if pa_operation a \<noteq> OpRemove \<and> pa_provenance a \<noteq> None
        then Inl (InvalidPlan ''install/replacement cannot carry side-effect provenance'')
        else Inr ()))"

definition action_deserialize :: "package_action \<Rightarrow> (string, package_action) result" where
  "action_deserialize raw = bindR (map_err domain_error_display (action_validate raw)) (\<lambda>_. Inr raw)"

definition identity_of ::
  "package_action \<Rightarrow> package_operation \<times> string \<times> evra" where
  "identity_of a = (pa_operation a, pa_name a, pa_target_evra a)"

fun check_actions ::
  "(package_operation \<times> string \<times> evra) set \<Rightarrow> package_action list \<Rightarrow> (domain_error, unit) result" where
  "check_actions seen [] = Inr ()"
| "check_actions seen (a # as) =
     bindR (action_validate a) (\<lambda>_.
       if identity_of a \<in> seen then Inl (Duplicate (pa_name a))
       else check_actions (insert (identity_of a) seen) as)"

definition canonical_actions ::
  "package_action list \<Rightarrow> (domain_error, package_action list) result" where
  "canonical_actions actions =
     (if length actions > MAX_PLAN_ACTIONS then Inl (InvalidPlan ''action limit exceeded'')
      else (let sorted_actions = sort_key action_key actions in
            bindR (check_actions {} sorted_actions) (\<lambda>_. Inr sorted_actions)))"

section \<open>Plans\<close>

record plan_envelope =
  pe_schema_version :: u32
  pe_install_root :: string
  pe_intent :: transaction_intent
  pe_policy_sha256 :: sha256_digest
  pe_trust_sha256 :: sha256_digest
  pe_inventory_sha256 :: sha256_digest
  pe_metadata_sha256 :: sha256_digest
  pe_planning_snapshot_sha256 :: sha256_digest
  pe_selected_repositories :: "repository_binding list"
  pe_expires_at_unix :: u64
  pe_actions :: "package_action list"

definition plan_integrity_of :: "plan_envelope \<Rightarrow> plan_integrity" where
  "plan_integrity_of p =
     \<lparr>pi_policy_sha256 = pe_policy_sha256 p, pi_trust_sha256 = pe_trust_sha256 p,
      pi_inventory_sha256 = pe_inventory_sha256 p, pi_metadata_sha256 = pe_metadata_sha256 p,
      pi_planning_snapshot_sha256 = pe_planning_snapshot_sha256 p,
      pi_selected_repositories = pe_selected_repositories p\<rparr>"

definition plan_new ::
  "transaction_intent \<Rightarrow> plan_integrity \<Rightarrow> u64 \<Rightarrow> package_action list
     \<Rightarrow> (domain_error, plan_envelope) result" where
  "plan_new intent integrity expires actions =
     bindR (integrity_validate integrity) (\<lambda>_.
     bindR (canonical_actions actions) (\<lambda>canonical.
       Inr \<lparr>pe_schema_version = 2, pe_install_root = ''/'', pe_intent = intent,
            pe_policy_sha256 = pi_policy_sha256 integrity,
            pe_trust_sha256 = pi_trust_sha256 integrity,
            pe_inventory_sha256 = pi_inventory_sha256 integrity,
            pe_metadata_sha256 = pi_metadata_sha256 integrity,
            pe_planning_snapshot_sha256 = pi_planning_snapshot_sha256 integrity,
            pe_selected_repositories = pi_selected_repositories integrity,
            pe_expires_at_unix = expires, pe_actions = canonical\<rparr>))"

definition repository_selected :: "plan_envelope \<Rightarrow> package_action \<Rightarrow> bool" where
  "repository_selected p a =
     (case pa_repo_id a of None \<Rightarrow> True
      | Some repository \<Rightarrow> list_ex (\<lambda>b. rb_id b = repository) (pe_selected_repositories p))"

definition plan_validate_now :: "plan_envelope \<Rightarrow> u64 \<Rightarrow> (domain_error, unit) result" where
  "plan_validate_now p now =
     (if pe_schema_version p \<noteq> 2 then Inl (SchemaVersion 2 (pe_schema_version p))
      else if pe_install_root p \<noteq> ''/'' then Inl (InvalidPlan ''install root must be /'')
      else bindR (integrity_validate (plan_integrity_of p)) (\<lambda>_.
        if now > pe_expires_at_unix p then Inl (InvalidPlan ''plan expired'')
        else if length (pe_actions p) > MAX_PLAN_ACTIONS
          \<or> any_window (\<lambda>a b. action_key a \<ge> action_key b) (pe_actions p)
        then Inl NonCanonical
        else forR (\<lambda>a. bindR (action_validate a) (\<lambda>_.
               if repository_selected p a then Inr ()
               else Inl (InvalidPlan ''action repository is not selected'')))
             (pe_actions p)))"

definition plan_deserialize :: "plan_envelope \<Rightarrow> (string, plan_envelope) result" where
  "plan_deserialize raw = bindR (map_err domain_error_display (plan_validate_now raw 0)) (\<lambda>_. Inr raw)"

definition plan_from_canonical_json_at ::
  "(plan_envelope, 'j) serde \<Rightarrow> bytes \<Rightarrow> u64 \<Rightarrow> (domain_error, plan_envelope) result" where
  "plan_from_canonical_json_at S bs now = from_canonical_json S (\<lambda>p. plan_validate_now p now) bs"

subsection \<open>Executable plans\<close>

definition dependency_install :: "action \<Rightarrow> package_action \<Rightarrow> bool" where
  "dependency_install intent a \<longleftrightarrow> (intent = Upgrade \<or> intent = DistroSync)
     \<and> pa_operation a = OpInstall \<and> (pa_reason a = Dependency \<or> pa_reason a = WeakDependency)"

definition ordinary :: "action \<Rightarrow> package_action \<Rightarrow> bool" where
  "ordinary intent a \<longleftrightarrow>
     (intent, pa_operation a) \<in> {(Install, OpInstall), (Install, OpUpgrade), (Upgrade, OpUpgrade),
        (Remove, OpRemove), (Downgrade, OpDowngrade), (Reinstall, OpReinstall),
        (DistroSync, OpUpgrade), (DistroSync, OpDowngrade), (DistroSync, OpReinstall),
        (Autoremove, OpRemove)}
     \<or> dependency_install intent a"

definition side_effect :: "action \<Rightarrow> string list \<Rightarrow> package_action \<Rightarrow> bool" where
  "side_effect intent parents a =
     (case pa_provenance a of
        Some (ObsoletedBy parent) \<Rightarrow> pa_operation a = OpRemove \<and> intent \<noteq> Remove
          \<and> parent \<in> set parents \<and> (pa_reason a = Dependency \<or> pa_reason a = WeakDependency)
      | None \<Rightarrow> False)"

definition replacement_of ::
  "(evra \<Rightarrow> evra \<Rightarrow> string \<Rightarrow> string \<Rightarrow> candidate_action) \<Rightarrow> package_action
     \<Rightarrow> (domain_error, candidate_action) result" where
  "replacement_of mk a =
     bindR (ok_or (InvalidPlan ''missing installed EVRA'') (pa_installed_evra a)) (\<lambda>inst.
     bindR (ok_or (InvalidPlan ''missing installed vendor'') (pa_installed_vendor a)) (\<lambda>iv.
     bindR (ok_or (InvalidPlan ''missing candidate vendor'') (pa_candidate_vendor a)) (\<lambda>cv.
       Inr (mk inst (pa_target_evra a) iv cv))))"

definition operation_check :: "solver_policy \<Rightarrow> package_action \<Rightarrow> (domain_error, unit) result" where
  "operation_check policy a =
     (case pa_operation a of
        OpRemove \<Rightarrow> validate_removal policy (pa_name a) (pa_reason a)
      | OpUpgrade \<Rightarrow> bindR (replacement_of candidate_upgrade a) (validate_upgrade policy)
      | OpDowngrade \<Rightarrow> bindR (replacement_of candidate_downgrade a) (validate_downgrade policy)
      | OpReinstall \<Rightarrow> bindR (replacement_of candidate_reinstall a) (validate_reinstall policy)
      | OpInstall \<Rightarrow> Inr ())"

definition executable_action ::
  "solver_policy \<Rightarrow> action \<Rightarrow> string list \<Rightarrow> package_action \<Rightarrow> (domain_error, unit) result" where
  "executable_action policy intent parents a =
     (if \<not> ordinary intent a \<and> \<not> side_effect intent parents a
      then Inl (InvalidPlan ''intent and package operation differ'')
      else if ordinary intent a \<and> pa_provenance a \<noteq> None
      then Inl (InvalidPlan ''unexpected action provenance'')
      else if intent = Autoremove \<and> \<not> is_autoremove_candidate (pa_reason a)
      then Inl (UnsafeAction ''autoremove requires dependency reason'')
      else operation_check policy a)"

definition plan_validate_executable ::
  "plan_envelope \<Rightarrow> solver_policy \<Rightarrow> u64 \<Rightarrow> (domain_error, unit) result" where
  "plan_validate_executable p policy now =
     bindR (plan_validate_now p now) (\<lambda>_.
     bindR (policy_validate policy) (\<lambda>_.
       let parents = List.map_filter action_identity (pe_actions p) in
       forR (executable_action policy (ti_action (pe_intent p)) parents) (pe_actions p)))"

section \<open>Well-formed actions and plans\<close>

fun operation_wf :: "package_operation \<Rightarrow> package_action \<Rightarrow> bool" where
  "operation_wf OpInstall a \<longleftrightarrow>
     pa_installed_evra a = None \<and> pa_installed_instance a = None \<and> pa_installed_header a = None
     \<and> pa_installed_vendor a = None \<and> \<not> none_or_empty (pa_candidate_vendor a)
     \<and> \<not> none_or_empty (pa_repo_id a) \<and> pa_provenance a = None"
| "operation_wf OpRemove a \<longleftrightarrow>
     pa_installed_evra a = Some (pa_target_evra a) \<and> pa_installed_vendor a \<noteq> None
     \<and> pa_installed_instance a \<noteq> None \<and> pa_installed_header a \<noteq> None
     \<and> pa_candidate_vendor a = None \<and> pa_repo_id a = None
     \<and> pa_reason a \<in> {User, Dependency, WeakDependency}"
| "operation_wf _ a \<longleftrightarrow>
     pa_installed_evra a \<noteq> None \<and> pa_installed_vendor a \<noteq> None
     \<and> pa_installed_instance a \<noteq> None \<and> pa_installed_header a \<noteq> None
     \<and> \<not> none_or_empty (pa_candidate_vendor a) \<and> \<not> none_or_empty (pa_repo_id a)
     \<and> pa_provenance a = None"

definition action_wf :: "package_action \<Rightarrow> bool" where
  "action_wf a \<longleftrightarrow> pa_name a \<noteq> [] \<and> evra_validate (pa_target_evra a) = Inr ()
     \<and> operation_wf (pa_operation a) a"

definition plan_wf :: "plan_envelope \<Rightarrow> bool" where
  "plan_wf p \<longleftrightarrow> pe_schema_version p = 2 \<and> pe_install_root p = ''/''
     \<and> integrity_wf (plan_integrity_of p)
     \<and> length (pe_actions p) \<le> MAX_PLAN_ACTIONS
     \<and> sorted_wrt (<) (map action_key (pe_actions p))
     \<and> (\<forall>a\<in>set (pe_actions p). action_wf a \<and> repository_selected p a)"

lemma action_validate_ok [result_simps]: "action_validate a = Inr u \<longleftrightarrow> action_wf a"
  by (cases "pa_operation a"; cases "pa_reason a")
    (auto simp: action_validate_def action_wf_def bindR_eq_Inr)

lemma map_option_inj_iff:
  "(\<And>x y. f x = f y \<Longrightarrow> x = y) \<Longrightarrow> map_option f a = map_option f b \<longleftrightarrow> a = b"
  by (cases a; cases b) auto

lemma action_key_inj [simp]: "action_key a = action_key b \<longleftrightarrow> a = b"
proof -
  have "map_option evra_key x = map_option evra_key y \<longleftrightarrow> x = y" for x y
    by (rule map_option_inj_iff) simp
  moreover have "map_option as_str x = map_option as_str y \<longleftrightarrow> x = y" for x y
    by (rule map_option_inj_iff) (simp add: sha256_digest.expand)
  moreover have "map_option parent_action_identity x = map_option parent_action_identity y \<longleftrightarrow> x = y" for x y
    by (rule map_option_inj_iff) (simp add: action_provenance.expand)
  ultimately show ?thesis by (auto simp: action_key_def)
qed

lemma plan_validate_now_ok [result_simps]:
  "plan_validate_now p now = Inr u \<longleftrightarrow> plan_wf p \<and> now \<le> pe_expires_at_unix p"
  by (auto simp: plan_validate_now_def plan_wf_def bindR_eq_Inr integrity_validate_ok forR_eq_Inr
      action_validate_ok split: if_splits)

interpretation plan_doc: canonical_document "\<lambda>p. plan_validate_now p 0" plan_wf
  by unfold_locales (simp add: plan_validate_now_ok)

lemma check_actions_ok:
  "check_actions seen as = Inr u \<longleftrightarrow>
     (\<forall>a\<in>set as. action_wf a) \<and> distinct (map identity_of as) \<and> identity_of ` set as \<inter> seen = {}"
  by (induction as arbitrary: seen) (auto simp: bindR_eq_Inr action_validate_ok)

lemma canonical_actions_ok:
  "canonical_actions as = Inr cs \<longleftrightarrow>
     length as \<le> MAX_PLAN_ACTIONS \<and> (\<forall>a\<in>set as. action_wf a) \<and> distinct (map identity_of as)
     \<and> cs = sort_key action_key as"
  by (auto simp: canonical_actions_def Let_def bindR_eq_Inr check_actions_ok distinct_map)

lemma sort_actions_strict:
  "distinct (map identity_of as) \<Longrightarrow> sorted_wrt (<) (map action_key (sort_key action_key as))"
  by (rule sort_key_strict) (auto simp: distinct_map inj_on_def)

lemma plan_executable_ok:
  "plan_validate_executable p policy now = Inr u \<longleftrightarrow>
     plan_wf p \<and> now \<le> pe_expires_at_unix p \<and> policy_wf policy
     \<and> (\<forall>a\<in>set (pe_actions p). executable_action policy (ti_action (pe_intent p))
          (List.map_filter action_identity (pe_actions p)) a = Inr ())"
  by (auto simp: plan_validate_executable_def Let_def bindR_eq_Inr plan_validate_now_ok forR_eq_Inr
      policy_validate_iff)

lemma executable_action_ok:
  "executable_action policy intent parents a = Inr u \<longleftrightarrow>
     ((ordinary intent a \<and> pa_provenance a = None) \<or> (\<not> ordinary intent a \<and> side_effect intent parents a))
     \<and> (intent = Autoremove \<longrightarrow> is_autoremove_candidate (pa_reason a))
     \<and> operation_check policy a = Inr ()"
  by (auto simp: executable_action_def)

lemma replacement_of_ok:
  "replacement_of mk a = Inr c \<longleftrightarrow>
     (\<exists>i iv cv. pa_installed_evra a = Some i \<and> pa_installed_vendor a = Some iv
        \<and> pa_candidate_vendor a = Some cv \<and> c = mk i (pa_target_evra a) iv cv)"
  by (auto simp: replacement_of_def bindR_eq_Inr ok_or_eq_Inr)

lemma operation_check_ok:
  "operation_check policy a = Inr u \<longleftrightarrow>
     (case pa_operation a of
        OpInstall \<Rightarrow> True
      | OpRemove \<Rightarrow> validate_removal policy (pa_name a) (pa_reason a) = Inr ()
      | oper \<Rightarrow> \<exists>i v. pa_installed_evra a = Some i \<and> pa_installed_vendor a = Some v
          \<and> pa_candidate_vendor a = Some v \<and> ev_arch i = ev_arch (pa_target_evra a)
          \<and> evra_validate i = Inr () \<and> evra_validate (pa_target_evra a) = Inr ()
          \<and> (oper = OpUpgrade \<longrightarrow> is_strictly_newer_than (pa_target_evra a) i)
          \<and> (oper = OpDowngrade \<longrightarrow> is_strictly_newer_than i (pa_target_evra a))
          \<and> (oper = OpReinstall \<longrightarrow> i = pa_target_evra a))"
  by (cases "pa_operation a")
    (auto simp: operation_check_def bindR_eq_Inr replacement_of_ok replacement_ok)

lemma set_map_filter: "set (List.map_filter f xs) = {y. \<exists>x\<in>set xs. f x = Some y}"
  by (induction xs) (auto simp: map_filter_simps split: option.splits)

section \<open>A worked plan\<close>

definition example_digest :: "char \<Rightarrow> sha256_digest" where
  "example_digest c = Sha256Digest (replicate 64 c)"

definition example_evra :: "string \<Rightarrow> evra" where
  "example_evra v = \<lparr>ev_epoch = 0, ev_version = v, ev_release = ''1.fc44'', ev_arch = X86_64\<rparr>"

text \<open>An upgrade whose target obsoletes one dependency.\<close>

definition example_upgrade :: package_action where
  "example_upgrade = mk_action OpUpgrade ''vim'' (example_evra ''9.2'') (Some (example_evra ''9.1''))
     (Some (7, example_digest (CHR ''a''))) (Some ''Fedora'') (Some ''Fedora'') (Some ''updates'') User None"

definition example_obsoleted :: package_action where
  "example_obsoleted = mk_action OpRemove ''vim-old'' (example_evra ''9.1'') (Some (example_evra ''9.1''))
     (Some (8, example_digest (CHR ''b''))) (Some ''Fedora'') None None Dependency
     (Some (ObsoletedBy ''updates:vim-0:9.2-1.fc44.x86_64''))"

definition example_integrity :: plan_integrity where
  "example_integrity =
     \<lparr>pi_policy_sha256 = example_digest (CHR ''1''), pi_trust_sha256 = example_digest (CHR ''2''),
      pi_inventory_sha256 = example_digest (CHR ''3''), pi_metadata_sha256 = example_digest (CHR ''4''),
      pi_planning_snapshot_sha256 = example_digest (CHR ''5''),
      pi_selected_repositories = [\<lparr>rb_id = ''updates'', rb_generation_sha256 = example_digest (CHR ''6''),
        rb_origin_sha256 = example_digest (CHR ''7''), rb_trust_sha256 = example_digest (CHR ''8'')\<rparr>]\<rparr>"

definition example_plan :: "action \<Rightarrow> package_action list \<Rightarrow> plan_envelope" where
  "example_plan intent actions =
     \<lparr>pe_schema_version = 2, pe_install_root = ''/'',
      pe_intent = \<lparr>ti_schema_version = 1, ti_action = intent, ti_packages = []\<rparr>,
      pe_policy_sha256 = pi_policy_sha256 example_integrity,
      pe_trust_sha256 = pi_trust_sha256 example_integrity,
      pe_inventory_sha256 = pi_inventory_sha256 example_integrity,
      pe_metadata_sha256 = pi_metadata_sha256 example_integrity,
      pe_planning_snapshot_sha256 = pi_planning_snapshot_sha256 example_integrity,
      pe_selected_repositories = pi_selected_repositories example_integrity,
      pe_expires_at_unix = 100, pe_actions = actions\<rparr>"

definition example_policy :: solver_policy where
  "example_policy = fedora44_x86_64 [''dnfast''] [''kernel'']"

lemma example_actions_wf: "action_wf example_upgrade" "action_wf example_obsoleted"
  by code_simp+

lemma example_policy_wf: "policy_wf example_policy"
  by (simp add: policy_wf_def example_policy_def fedora44_x86_64_def fedora44_def)

lemma example_upgrade_newer: "is_strictly_newer_than (example_evra ''9.2'') (example_evra ''9.1'')"
  by code_simp

lemma example_integrity_wf: "integrity_wf example_integrity"
  by (simp add: integrity_wf_def example_integrity_def)

lemma example_plan_wf:
  assumes "actions = [example_upgrade] \<or> actions = [example_upgrade, example_obsoleted]"
  shows "plan_wf (example_plan intent actions)"
proof -
  have "action_key example_upgrade < action_key example_obsoleted" by code_simp
  moreover have "integrity_wf (plan_integrity_of (example_plan intent actions))"
    using example_integrity_wf by (simp add: plan_integrity_of_def example_plan_def integrity_wf_def)
  moreover have "repository_selected (example_plan intent actions) a"
    if "a = example_upgrade \<or> a = example_obsoleted" for a
    using that by (auto simp: repository_selected_def example_plan_def example_integrity_def
        example_upgrade_def example_obsoleted_def mk_action_def)
  ultimately show ?thesis
    using assms by (auto simp: plan_wf_def example_plan_def example_actions_wf MAX_PLAN_ACTIONS_def)
qed

lemma example_plan_actions: "pe_actions (example_plan intent actions) = actions"
  by (simp add: example_plan_def)

lemma example_plan_executable:
  "plan_validate_executable (example_plan Upgrade [example_upgrade, example_obsoleted]) example_policy 50
     = Inr ()"
proof -
  let ?p = "example_plan Upgrade [example_upgrade, example_obsoleted]"
  have parents: "List.map_filter action_identity (pe_actions ?p) = [''updates:vim-0:9.2-1.fc44.x86_64'']"
    by code_simp
  have "executable_action example_policy Upgrade [''updates:vim-0:9.2-1.fc44.x86_64''] example_upgrade = Inr ()"
    by code_simp
  moreover have
    "executable_action example_policy Upgrade [''updates:vim-0:9.2-1.fc44.x86_64''] example_obsoleted = Inr ()"
    by code_simp
  ultimately show ?thesis
    using parents by (simp add: plan_executable_ok example_plan_wf example_policy_wf)
      (simp add: example_plan_def)
qed

section \<open>Properties\<close>

text \<open>
  Property C1. A plan that passes \<^verbatim>\<open>validate_executable\<close> is fresh, and each of its actions is safe
  under the policy: nothing protected, install-only or running is removed, and a removal names the
  exact installed package with a known reason; an upgrade is strictly newer, a downgrade strictly
  older and a reinstall identical, each with the same architecture and the same vendor; every
  repository an action fetches from is one the plan is bound to.
\<close>

theorem executable_plan_is_safe:
  assumes "plan_validate_executable p policy now = Inr ()" and "a \<in> set (pe_actions p)"
  shows "now \<le> pe_expires_at_unix p
    \<and> (\<forall>repo. pa_repo_id a = Some repo \<longrightarrow> repo \<in> rb_id ` set (pe_selected_repositories p))
    \<and> (case pa_operation a of
         OpInstall \<Rightarrow> pa_installed_evra a = None \<and> pa_repo_id a \<noteq> None
       | OpRemove \<Rightarrow> pa_installed_evra a = Some (pa_target_evra a) \<and> pa_installed_header a \<noteq> None
           \<and> \<not> is_protected policy (pa_name a) \<and> \<not> is_installonly policy (pa_name a)
           \<and> \<not> is_running_kernel policy (pa_name a)
           \<and> pa_reason a \<in> {User, Dependency, WeakDependency}
       | oper \<Rightarrow> (\<exists>old. pa_installed_evra a = Some old \<and> pa_installed_header a \<noteq> None
           \<and> pa_installed_vendor a = pa_candidate_vendor a
           \<and> ev_arch old = ev_arch (pa_target_evra a)
           \<and> (oper = OpUpgrade \<longrightarrow> is_strictly_newer_than (pa_target_evra a) old)
           \<and> (oper = OpDowngrade \<longrightarrow> is_strictly_newer_than old (pa_target_evra a))
           \<and> (oper = OpReinstall \<longrightarrow> pa_target_evra a = old)))"
proof -
  have wf: "plan_wf p" "now \<le> pe_expires_at_unix p" and oper: "operation_check policy a = Inr ()"
    using assms by (auto simp: plan_executable_ok executable_action_ok)
  then have a: "action_wf a" "repository_selected p a" using assms(2) by (auto simp: plan_wf_def)
  have repos: "\<forall>repo. pa_repo_id a = Some repo \<longrightarrow> repo \<in> rb_id ` set (pe_selected_repositories p)"
    using a(2) by (auto simp: repository_selected_def list_ex_iff)
  show ?thesis
    using wf(2) repos oper a(1)
    by (cases "pa_operation a")
      (auto simp: action_wf_def operation_check_ok validate_removal_ok none_or_empty_def)
qed

theorem executable_plan_is_safe_witness:
  "\<exists>p. plan_validate_executable p example_policy 50 = Inr () \<and> example_upgrade \<in> set (pe_actions p)
     \<and> is_strictly_newer_than (pa_target_evra example_upgrade) (example_evra ''9.1'')"
proof -
  let ?p = "example_plan Upgrade [example_upgrade, example_obsoleted]"
  have "example_upgrade \<in> set (pe_actions ?p)" by (simp add: example_plan_def)
  moreover from executable_plan_is_safe [OF example_plan_executable this]
  have "is_strictly_newer_than (pa_target_evra example_upgrade) (example_evra ''9.1'')"
    by (simp add: example_upgrade_def mk_action_def)
  ultimately show ?thesis using example_plan_executable by blast
qed



text \<open>
  \<^verbatim>\<open>PlanEnvelope::new\<close> keeps exactly the given actions, in canonical order, and what it
  builds passes \<^verbatim>\<open>validate_now\<close> at a time exactly when the plan has not expired and every action's
  repository is one of the bound ones: the constructor itself does not check the repositories.
\<close>

theorem plan_new_validates:
  assumes "plan_new intent integrity expires actions = Inr p"
  shows "mset (pe_actions p) = mset actions
    \<and> sorted_wrt (<) (map action_key (pe_actions p))
    \<and> plan_integrity_of p = integrity
    \<and> (plan_validate_now p now = Inr () \<longleftrightarrow> now \<le> expires
        \<and> (\<forall>a\<in>set actions. \<forall>repo. pa_repo_id a = Some repo
             \<longrightarrow> repo \<in> rb_id ` set (pi_selected_repositories integrity)))"
proof -
  have i: "integrity_wf integrity" and c: "canonical_actions actions = Inr (pe_actions p)"
    and p: "pe_schema_version p = 2" "pe_install_root p = ''/''" "plan_integrity_of p = integrity"
      "pe_expires_at_unix p = expires" "pe_selected_repositories p = pi_selected_repositories integrity"
    using assms by (auto simp: plan_new_def bindR_eq_Inr integrity_validate_ok plan_integrity_of_def)
  have s: "sorted_wrt (<) (map action_key (pe_actions p))" "mset (pe_actions p) = mset actions"
    "set (pe_actions p) = set actions" "length (pe_actions p) = length actions"
    "length actions \<le> MAX_PLAN_ACTIONS" "\<forall>a\<in>set actions. action_wf a"
    using c by (auto simp: canonical_actions_ok intro: sort_actions_strict)
  have "repository_selected p a \<longleftrightarrow> (\<forall>repo. pa_repo_id a = Some repo
      \<longrightarrow> repo \<in> rb_id ` set (pi_selected_repositories integrity))" for a
    by (auto simp: repository_selected_def p list_ex_iff split: option.splits)
  then show ?thesis
    using i p s by (auto simp: plan_validate_now_ok plan_wf_def)
qed

theorem plan_new_validates_witness:
  "\<exists>p. plan_new \<lparr>ti_schema_version = 1, ti_action = Upgrade, ti_packages = []\<rparr> example_integrity 100
         [example_obsoleted, example_upgrade] = Inr p
     \<and> plan_validate_now p 50 = Inr () \<and> plan_validate_now p 101 \<noteq> Inr ()"
proof -
  let ?i = "\<lparr>ti_schema_version = 1, ti_action = Upgrade, ti_packages = []\<rparr>"
  have "distinct (map identity_of [example_obsoleted, example_upgrade])" by code_simp
  then have "\<exists>cs. canonical_actions [example_obsoleted, example_upgrade] = Inr cs"
    by (simp add: canonical_actions_ok example_actions_wf MAX_PLAN_ACTIONS_def)
  moreover have "integrity_validate example_integrity = Inr ()"
    by (simp add: integrity_validate_ok example_integrity_wf)
  ultimately obtain p where p: "plan_new ?i example_integrity 100 [example_obsoleted, example_upgrade] = Inr p"
    by (auto simp: plan_new_def)
  have "pa_repo_id example_obsoleted = None" "pa_repo_id example_upgrade = Some ''updates''"
    "''updates'' \<in> rb_id ` set (pi_selected_repositories example_integrity)"
    by (simp_all add: example_obsoleted_def example_upgrade_def mk_action_def example_integrity_def)
  then show ?thesis
    using p plan_new_validates [OF p, of 50] plan_new_validates [OF p, of 101] by auto
qed

text \<open>
  The builder and the parser disagree on duplicates: \<^verbatim>\<open>canonical_actions\<close> rejects a list
  with two actions of the same operation, name and version, whatever else they differ in, while
  \<^verbatim>\<open>validate_now\<close> compares whole actions only and accepts such a plan.
\<close>

theorem plan_duplicate_identity_divergence:
  "(\<forall>as x y. x \<in> set as \<and> y \<in> set as \<and> x \<noteq> y \<and> identity_of x = identity_of y
      \<longrightarrow> (\<exists>e. canonical_actions as = Inl e))
   \<and> (\<exists>p x y. plan_validate_now p 0 = Inr () \<and> x \<in> set (pe_actions p) \<and> y \<in> set (pe_actions p)
        \<and> x \<noteq> y \<and> identity_of x = identity_of y)"
proof
  show "\<forall>as x y. x \<in> set as \<and> y \<in> set as \<and> x \<noteq> y \<and> identity_of x = identity_of y
      \<longrightarrow> (\<exists>e. canonical_actions as = Inl e)"
  proof (intro allI impI)
    fix as x y
    assume "x \<in> set as \<and> y \<in> set as \<and> x \<noteq> y \<and> identity_of x = identity_of y"
    then have "canonical_actions as \<noteq> Inr cs" for cs
      by (auto simp: canonical_actions_ok distinct_map inj_on_def)
    then show "\<exists>e. canonical_actions as = Inl e" by (cases "canonical_actions as") auto
  qed
  let ?y = "example_upgrade\<lparr>pa_installed_instance := Some 9\<rparr>"
  let ?p = "example_plan Upgrade [example_upgrade, ?y]"
  have y: "action_wf ?y" "action_key example_upgrade < action_key ?y" "identity_of example_upgrade = identity_of ?y"
    "example_upgrade \<noteq> ?y"
    by code_simp+
  moreover have "repository_selected ?p ?y" "repository_selected ?p example_upgrade"
    by (simp_all add: repository_selected_def example_upgrade_def mk_action_def example_plan_def
        example_integrity_def)
  moreover have "integrity_wf (plan_integrity_of ?p)"
    using example_integrity_wf by (simp add: plan_integrity_of_def example_plan_def integrity_wf_def)
  ultimately have "plan_validate_now ?p 0 = Inr ()"
    by (auto simp: plan_validate_now_ok plan_wf_def example_plan_def example_actions_wf MAX_PLAN_ACTIONS_def)
  moreover have "example_upgrade \<in> set (pe_actions ?p)" "?y \<in> set (pe_actions ?p)"
    by (simp_all add: example_plan_def)
  ultimately show "\<exists>p x y. plan_validate_now p 0 = Inr () \<and> x \<in> set (pe_actions p)
      \<and> y \<in> set (pe_actions p) \<and> x \<noteq> y \<and> identity_of x = identity_of y"
    using y by blast
qed

theorem plan_duplicate_identity_divergence_witness:
  "\<exists>e. canonical_actions [example_upgrade, example_upgrade\<lparr>pa_installed_instance := Some 9\<rparr>] = Inl e"
proof -
  let ?y = "example_upgrade\<lparr>pa_installed_instance := Some 9\<rparr>"
  have "example_upgrade \<in> set [example_upgrade, ?y] \<and> ?y \<in> set [example_upgrade, ?y]
      \<and> example_upgrade \<noteq> ?y \<and> identity_of example_upgrade = identity_of ?y"
    by code_simp
  then show ?thesis using plan_duplicate_identity_divergence by blast
qed

end
