(* ===== verification/Core_Journal.thy ===== *)
theory Core_Journal
  imports Core_Policy
begin

text \<open>
  \<^verbatim>\<open>crates/dnfast-core/src/journal.rs\<close>: the phases of a transaction, and the journal and history
  documents of the core crate.
\<close>

section \<open>Journal records\<close>

datatype journal_state = Prepared | Started | RpmResult | Reconciled

record journal_record =
  jr_schema_version :: u32
  jr_plan_sha256 :: sha256_digest
  jr_sequence :: u64
  jr_state :: journal_state

definition journal_new :: "string \<Rightarrow> u64 \<Rightarrow> journal_state \<Rightarrow> (domain_error, journal_record) result" where
  "journal_new plan sequence state =
     bindR (digest_parse plan ''plan_sha256'') (\<lambda>d.
       Inr \<lparr>jr_schema_version = 1, jr_plan_sha256 = d, jr_sequence = sequence, jr_state = state\<rparr>)"

definition journal_deserialize :: "journal_record \<Rightarrow> (string, journal_record) result" where
  "journal_deserialize raw =
     (if jr_schema_version raw \<noteq> 1 then Inl ''unsupported journal schema'' else Inr raw)"

definition journal_check :: "journal_record \<Rightarrow> (domain_error, unit) result" where
  "journal_check r =
     (if jr_schema_version r \<noteq> 1 then Inl (SchemaVersion 1 (jr_schema_version r)) else Inr ())"

definition journal_from_json ::
  "(journal_record, 'j) serde \<Rightarrow> bytes \<Rightarrow> (domain_error, journal_record) result" where
  "journal_from_json S bs = from_canonical_json S journal_check bs"

definition journal_to_json ::
  "(journal_record, 'j) serde \<Rightarrow> journal_record \<Rightarrow> (domain_error, bytes) result" where
  "journal_to_json S r = canonical_serialize S r"

section \<open>History records\<close>

record history_record =
  hr_schema_version :: u32
  hr_package_name :: string
  hr_reason :: package_reason
  hr_state :: journal_state

type_synonym reason_record = history_record

definition history_new ::
  "string \<Rightarrow> package_reason \<Rightarrow> journal_state \<Rightarrow> (domain_error, history_record) result" where
  "history_new name reason state =
     (if name = [] then Inl (Empty ''package_name'')
      else Inr \<lparr>hr_schema_version = 1, hr_package_name = name, hr_reason = reason, hr_state = state\<rparr>)"

definition history_deserialize :: "history_record \<Rightarrow> (string, history_record) result" where
  "history_deserialize raw =
     (if hr_schema_version raw \<noteq> 1 \<or> hr_package_name raw = [] then Inl ''invalid history record''
      else Inr raw)"

definition history_check :: "history_record \<Rightarrow> (domain_error, unit) result" where
  "history_check r =
     (if hr_schema_version r \<noteq> 1 then Inl (SchemaVersion 1 (hr_schema_version r))
      else if hr_package_name r = [] then Inl (Empty ''package_name'')
      else Inr ())"

definition history_from_json ::
  "(history_record, 'j) serde \<Rightarrow> bytes \<Rightarrow> (domain_error, history_record) result" where
  "history_from_json S bs = from_canonical_json S history_check bs"

definition history_to_json ::
  "(history_record, 'j) serde \<Rightarrow> history_record \<Rightarrow> (domain_error, bytes) result" where
  "history_to_json S r = canonical_serialize S r"

definition may_autoremove :: "history_record \<Rightarrow> bool" where
  "may_autoremove r = False"

interpretation journal_doc: canonical_document journal_check "\<lambda>r. jr_schema_version r = 1"
  by unfold_locales (simp add: journal_check_def)

interpretation history_doc: canonical_document history_check
  "\<lambda>r. hr_schema_version r = 1 \<and> hr_package_name r \<noteq> []"
  by unfold_locales (simp add: history_check_def)

lemma history_deserialize_iff:
  "history_deserialize r = Inr r' \<longleftrightarrow> r' = r \<and> history_check r = Inr ()"
  by (auto simp: history_deserialize_def history_check_def)

lemma journal_deserialize_iff:
  "journal_deserialize r = Inr r' \<longleftrightarrow> r' = r \<and> journal_check r = Inr ()"
  by (auto simp: journal_deserialize_def journal_check_def)

end
