(* ===== verification/State_Kernel.thy ===== *)
theory State_Kernel
  imports Core_Canonical
begin

text \<open>
  The file system as the crate \<^verbatim>\<open>dnfast-state\<close> sees it, and \<^verbatim>\<open>crates/dnfast-state/src/{error,fault}.rs\<close>.
  A computation of the crate is a function on \<open>world\<close>: the directories, the advisory locks, the
  armed fault of \<^verbatim>\<open>FaultPlan\<close> and \<open>wd_sys\<close>, the outcomes the environment has chosen for the system
  calls to come. Any call may fail with any error number, and the process may stop at any call
  (\<open>Crashed\<close>), in the middle of a write too; a theorem that quantifies over the world therefore
  quantifies over every placement of failures and of one crash. A crash runs no destructor.

  A directory handle is the path of the directory, since no other process moves directories. The
  text of an error number, the process id, the effective user and the file mode mask come from
  outside the program: they are the fields of \<open>env\<close>.
\<close>

unbundle bit_operations_syntax

section \<open>Errors and injected faults\<close>

datatype state_error = Io string | UnsafePath string | Corrupt string | Transition string
  | Limit string | Busy

datatype fault_point = NoFault | FaultCreate | FaultWrite | FaultFileSync | FaultPublish
  | FaultDirectorySync

fun fault_debug :: "fault_point \<Rightarrow> string" where
  "fault_debug NoFault = ''None''"
| "fault_debug FaultCreate = ''Create''"
| "fault_debug FaultWrite = ''Write''"
| "fault_debug FaultFileSync = ''FileSync''"
| "fault_debug FaultPublish = ''Publish''"
| "fault_debug FaultDirectorySync = ''DirectorySync''"

section \<open>The world\<close>

datatype errno = NOENT | EXIST | WOULDBLOCK | NOTDIR | ISDIR | LOOP | NOTEMPTY | OtherErrno nat

datatype sys_outcome = SysOk | SysFail errno nat | SysCrash nat

type_synonym path = "string list"

record stat =
  st_uid :: u32
  st_mode :: u32
  st_nlink :: nat

record disk_file =
  fl_stat :: stat
  fl_data :: bytes
  fl_synced :: bool

text \<open>
  A node that is neither a directory nor a symbolic link is a \<open>FileE\<close> with its type bits in
  \<open>st_mode\<close>. The content of a directory is stored under its own path.
\<close>

datatype dir_entry = FileE disk_file | DirectoryE | SymlinkE

record directory =
  di_stat :: stat
  di_entries :: "(string, dir_entry) btree_map"

record world =
  wd_dirs :: "path \<Rightarrow> directory option"
  wd_locks :: "path set"
  wd_fault :: fault_point
  wd_sys :: "sys_outcome list"

record env =
  en_strerror :: "errno \<Rightarrow> string"
  en_pid :: nat
  en_euid :: u32
  en_umask :: u32

datatype fd = FdFile path string | FdDir path

section \<open>Computations\<close>

datatype 'a outcome = Done 'a | Failed state_error | Crashed

type_synonym 'a io = "world \<Rightarrow> 'a outcome \<times> world"

definition returnI :: "'a \<Rightarrow> 'a io" where
  "returnI x w = (Done x, w)"

definition failI :: "state_error \<Rightarrow> 'a io" where
  "failI e w = (Failed e, w)"

definition bindI :: "'a io \<Rightarrow> ('a \<Rightarrow> 'b io) \<Rightarrow> 'b io" where
  "bindI m f w = (case m w of (Done x, w') \<Rightarrow> f x w' | (Failed e, w') \<Rightarrow> (Failed e, w')
     | (Crashed, w') \<Rightarrow> (Crashed, w'))"

definition liftR :: "(state_error, 'a) result \<Rightarrow> 'a io" where
  "liftR r = (case r of Inl e \<Rightarrow> failI e | Inr x \<Rightarrow> returnI x)"

fun forI :: "('a \<Rightarrow> unit io) \<Rightarrow> 'a list \<Rightarrow> unit io" where
  "forI f [] = returnI ()"
| "forI f (x # xs) = bindI (f x) (\<lambda>_. forI f xs)"

text \<open>A destructor that runs on every return, and one that runs on an early return only.\<close>

definition finallyI :: "'a io \<Rightarrow> 'b io \<Rightarrow> 'a io" where
  "finallyI m cleanup w = (case m w of (Crashed, w') \<Rightarrow> (Crashed, w')
     | (r, w') \<Rightarrow> (case cleanup w' of (Crashed, w'') \<Rightarrow> (Crashed, w'') | (_, w'') \<Rightarrow> (r, w'')))"

definition on_failure :: "'a io \<Rightarrow> 'b io \<Rightarrow> 'a io" where
  "on_failure m cleanup w = (case m w of
       (Failed e, w') \<Rightarrow> (case cleanup w' of (Crashed, w'') \<Rightarrow> (Crashed, w'') | (_, w'') \<Rightarrow> (Failed e, w''))
     | (r, w') \<Rightarrow> (r, w'))"

text \<open>\<^verbatim>\<open>FaultPlan\<close>: a fault fires once.\<close>

definition fault_none :: fault_point where
  "fault_none = NoFault"

definition fault_once :: "fault_point \<Rightarrow> fault_point" where
  "fault_once p = p"

definition fault_arm :: "fault_point \<Rightarrow> unit io" where
  "fault_arm p w = (Done (), w\<lparr>wd_fault := p\<rparr>)"

definition fault_check :: "fault_point \<Rightarrow> unit io" where
  "fault_check p w =
     (if wd_fault w = p
      then (Failed (Io (''injected '' @ fault_debug p @ '' failure'')), w\<lparr>wd_fault := NoFault\<rparr>)
      else (Done (), w))"

section \<open>System calls\<close>

text \<open>One call: the environment decides whether it takes effect, fails or never returns.\<close>

definition sys :: "(world \<Rightarrow> (errno, 'a) result \<times> world) \<Rightarrow> (errno, 'a) result io" where
  "sys act w = (case wd_sys w of
       [] \<Rightarrow> (case act w of (r, w') \<Rightarrow> (Done r, w'))
     | SysOk # os \<Rightarrow> (case act (w\<lparr>wd_sys := os\<rparr>) of (r, w') \<Rightarrow> (Done r, w'))
     | SysFail e k # os \<Rightarrow> (Done (Inl e), w\<lparr>wd_sys := os\<rparr>)
     | SysCrash k # os \<Rightarrow> (Crashed, w\<lparr>wd_sys := os\<rparr>))"

text \<open>\<^verbatim>\<open>call.map_err(errno)?\<close>\<close>

definition errnoI :: "env \<Rightarrow> (errno, 'a) result io \<Rightarrow> 'a io" where
  "errnoI env m = bindI m (\<lambda>r. case r of Inl e \<Rightarrow> failI (Io (en_strerror env e)) | Inr x \<Rightarrow> returnI x)"

definition entry_at :: "world \<Rightarrow> path \<Rightarrow> string \<Rightarrow> dir_entry option" where
  "entry_at w p n = (case wd_dirs w p of None \<Rightarrow> None | Some d \<Rightarrow> map_of (di_entries d) n)"

definition upd_dir :: "path \<Rightarrow> (directory \<Rightarrow> directory) \<Rightarrow> world \<Rightarrow> world" where
  "upd_dir p f w = w\<lparr>wd_dirs := (wd_dirs w)(p := map_option f (wd_dirs w p))\<rparr>"

definition put_entry :: "path \<Rightarrow> string \<Rightarrow> dir_entry \<Rightarrow> world \<Rightarrow> world" where
  "put_entry p n e = upd_dir p (\<lambda>d. d\<lparr>di_entries := bt_insert n e (di_entries d)\<rparr>)"

definition del_entry :: "path \<Rightarrow> string \<Rightarrow> world \<Rightarrow> world" where
  "del_entry p n = upd_dir p (\<lambda>d. d\<lparr>di_entries := bt_remove n (di_entries d)\<rparr>)"

definition S_IFMT :: u32 where "S_IFMT = 0xF000"
definition S_IFDIR :: u32 where "S_IFDIR = 0x4000"
definition S_IFREG :: u32 where "S_IFREG = 0x8000"
definition MODE_DIR :: u32 where "MODE_DIR = 0x1C0"
definition MODE_FILE :: u32 where "MODE_FILE = 0x180"

lemmas mode_defs = S_IFMT_def S_IFDIR_def S_IFREG_def MODE_DIR_def MODE_FILE_def

definition new_file :: "env \<Rightarrow> u32 \<Rightarrow> disk_file" where
  "new_file env mode =
     \<lparr>fl_stat = \<lparr>st_uid = en_euid env, st_mode = S_IFREG OR (mode AND NOT (en_umask env)), st_nlink = 1\<rparr>,
      fl_data = [], fl_synced = False\<rparr>"

text \<open>\<^verbatim>\<open>openat\<close> with \<^verbatim>\<open>RDONLY | DIRECTORY | NOFOLLOW\<close>\<close>

definition sys_open_dir :: "path \<Rightarrow> string \<Rightarrow> (errno, path) result io" where
  "sys_open_dir p n = sys (\<lambda>w. (case entry_at w p n of
       None \<Rightarrow> Inl NOENT | Some DirectoryE \<Rightarrow> Inr (p @ [n]) | Some _ \<Rightarrow> Inl NOTDIR, w))"

text \<open>\<^verbatim>\<open>openat\<close> with \<^verbatim>\<open>RDONLY | NOFOLLOW\<close>\<close>

definition sys_open_read :: "path \<Rightarrow> string \<Rightarrow> (errno, fd) result io" where
  "sys_open_read p n = sys (\<lambda>w. (case entry_at w p n of
       None \<Rightarrow> Inl NOENT | Some SymlinkE \<Rightarrow> Inl LOOP
     | Some DirectoryE \<Rightarrow> Inr (FdDir (p @ [n])) | Some (FileE _) \<Rightarrow> Inr (FdFile p n), w))"

text \<open>\<^verbatim>\<open>openat\<close> with \<^verbatim>\<open>CREATE | EXCL | WRONLY | NOFOLLOW\<close>\<close>

definition sys_create_excl :: "env \<Rightarrow> path \<Rightarrow> string \<Rightarrow> u32 \<Rightarrow> (errno, fd) result io" where
  "sys_create_excl env p n mode = sys (\<lambda>w.
     if wd_dirs w p = None then (Inl NOENT, w)
     else if entry_at w p n \<noteq> None then (Inl EXIST, w)
     else (Inr (FdFile p n), put_entry p n (FileE (new_file env mode)) w))"

text \<open>\<^verbatim>\<open>openat\<close> with \<^verbatim>\<open>CREATE | RDWR | NOFOLLOW\<close>\<close>

definition sys_open_create :: "env \<Rightarrow> path \<Rightarrow> string \<Rightarrow> u32 \<Rightarrow> (errno, fd) result io" where
  "sys_open_create env p n mode = sys (\<lambda>w.
     if wd_dirs w p = None then (Inl NOENT, w)
     else case entry_at w p n of
       None \<Rightarrow> (Inr (FdFile p n), put_entry p n (FileE (new_file env mode)) w)
     | Some (FileE _) \<Rightarrow> (Inr (FdFile p n), w)
     | Some DirectoryE \<Rightarrow> (Inl ISDIR, w)
     | Some SymlinkE \<Rightarrow> (Inl LOOP, w))"

text \<open>\<^verbatim>\<open>fstat\<close>: the status and the size of the open node.\<close>

definition sys_fstat :: "fd \<Rightarrow> (errno, stat \<times> nat) result io" where
  "sys_fstat fd = sys (\<lambda>w. (case fd of
       FdDir p \<Rightarrow> (case wd_dirs w p of None \<Rightarrow> Inl NOENT | Some d \<Rightarrow> Inr (di_stat d, 0))
     | FdFile p n \<Rightarrow> (case entry_at w p n of
           Some (FileE f) \<Rightarrow> Inr (fl_stat f, length (fl_data f)) | _ \<Rightarrow> Inl NOENT), w))"

definition upd_file :: "path \<Rightarrow> string \<Rightarrow> (disk_file \<Rightarrow> disk_file) \<Rightarrow> world \<Rightarrow> world" where
  "upd_file p n f w = (case entry_at w p n of
       Some (FileE x) \<Rightarrow> put_entry p n (FileE (f x)) w | _ \<Rightarrow> w)"

definition upd_fd :: "fd \<Rightarrow> (disk_file \<Rightarrow> disk_file) \<Rightarrow> world \<Rightarrow> world" where
  "upd_fd fd f w = (case fd of FdFile p n \<Rightarrow> upd_file p n f w | FdDir p \<Rightarrow> w)"

definition sys_fchmod :: "fd \<Rightarrow> u32 \<Rightarrow> (errno, unit) result io" where
  "sys_fchmod fd mode = sys (\<lambda>w. (Inr (), upd_fd fd (\<lambda>x. x\<lparr>fl_stat := (fl_stat x)
     \<lparr>st_mode := (st_mode (fl_stat x) AND S_IFMT) OR mode\<rparr>\<rparr>) w))"

text \<open>
  \<^verbatim>\<open>write_all\<close> at an offset: bytes beyond the end fill the gap with zeros. A failure or a crash may
  leave any prefix of the bytes written.
\<close>

definition overwrite :: "nat \<Rightarrow> bytes \<Rightarrow> bytes \<Rightarrow> bytes" where
  "overwrite off new old =
     take off old @ replicate (off - length old) (CHR 0x00) @ new @ drop (off + length new) old"

definition write_bytes :: "nat \<Rightarrow> bytes \<Rightarrow> disk_file \<Rightarrow> disk_file" where
  "write_bytes off bs x = x\<lparr>fl_data := overwrite off bs (fl_data x), fl_synced := False\<rparr>"

definition sys_write_all :: "fd \<Rightarrow> nat \<Rightarrow> bytes \<Rightarrow> (errno, unit) result io" where
  "sys_write_all fd off bs w = (case wd_sys w of
       [] \<Rightarrow> (Done (Inr ()), upd_fd fd (write_bytes off bs) w)
     | SysOk # os \<Rightarrow> (Done (Inr ()), upd_fd fd (write_bytes off bs) (w\<lparr>wd_sys := os\<rparr>))
     | SysFail e k # os \<Rightarrow> (Done (Inl e), upd_fd fd (write_bytes off (take k bs)) (w\<lparr>wd_sys := os\<rparr>))
     | SysCrash k # os \<Rightarrow> (Crashed, upd_fd fd (write_bytes off (take k bs)) (w\<lparr>wd_sys := os\<rparr>)))"

definition sys_sync_all :: "fd \<Rightarrow> (errno, unit) result io" where
  "sys_sync_all fd = sys (\<lambda>w. (Inr (), upd_fd fd (\<lambda>x. x\<lparr>fl_synced := True\<rparr>) w))"

definition sys_set_len :: "fd \<Rightarrow> nat \<Rightarrow> (errno, unit) result io" where
  "sys_set_len fd n = sys (\<lambda>w. (Inr (), upd_fd fd (\<lambda>x. x\<lparr>fl_data := take n (fl_data x)
     @ replicate (n - length (fl_data x)) (CHR 0x00), fl_synced := False\<rparr>) w))"

definition sys_seek :: "fd \<Rightarrow> nat \<Rightarrow> (errno, nat) result io" where
  "sys_seek fd n = sys (\<lambda>w. (Inr n, w))"

text \<open>\<^verbatim>\<open>take(max).read_to_end\<close> and \<^verbatim>\<open>read_exact\<close> from an offset\<close>

definition sys_read :: "fd \<Rightarrow> nat \<Rightarrow> nat \<Rightarrow> (errno, bytes) result io" where
  "sys_read fd off maximum = sys (\<lambda>w. (case fd of
       FdFile p n \<Rightarrow> (case entry_at w p n of
           Some (FileE f) \<Rightarrow> Inr (take maximum (drop off (fl_data f))) | _ \<Rightarrow> Inl NOENT)
     | FdDir p \<Rightarrow> Inl ISDIR, w))"

definition sys_rename :: "path \<Rightarrow> string \<Rightarrow> string \<Rightarrow> (errno, unit) result io" where
  "sys_rename p a b = sys (\<lambda>w. case entry_at w p a of
       None \<Rightarrow> (Inl NOENT, w)
     | Some e \<Rightarrow> (if entry_at w p b = Some DirectoryE then (Inl ISDIR, w)
         else (Inr (), put_entry p b e (del_entry p a w))))"

definition sys_unlink :: "path \<Rightarrow> string \<Rightarrow> (errno, unit) result io" where
  "sys_unlink p n = sys (\<lambda>w. case entry_at w p n of
       None \<Rightarrow> (Inl NOENT, w)
     | Some DirectoryE \<Rightarrow> (Inl ISDIR, w)
     | Some _ \<Rightarrow> (Inr (), del_entry p n w))"

definition sys_mkdir :: "env \<Rightarrow> path \<Rightarrow> string \<Rightarrow> u32 \<Rightarrow> (errno, unit) result io" where
  "sys_mkdir env p n mode = sys (\<lambda>w.
     if wd_dirs w p = None then (Inl NOENT, w)
     else if entry_at w p n \<noteq> None then (Inl EXIST, w)
     else (Inr (), (put_entry p n DirectoryE w)\<lparr>wd_dirs := (wd_dirs (put_entry p n DirectoryE w))
       (p @ [n] \<mapsto> \<lparr>di_stat = \<lparr>st_uid = en_euid env, st_mode = S_IFDIR OR (mode AND NOT (en_umask env)),
                         st_nlink = 2\<rparr>, di_entries = []\<rparr>)\<rparr>))"

definition sys_rmdir :: "path \<Rightarrow> string \<Rightarrow> (errno, unit) result io" where
  "sys_rmdir p n = sys (\<lambda>w. case entry_at w p n of
       None \<Rightarrow> (Inl NOENT, w)
     | Some DirectoryE \<Rightarrow> (case wd_dirs w (p @ [n]) of
           None \<Rightarrow> (Inl NOENT, w)
         | Some d \<Rightarrow> (if di_entries d \<noteq> [] then (Inl NOTEMPTY, w)
             else (Inr (), (del_entry p n w)\<lparr>wd_dirs := (wd_dirs (del_entry p n w))(p @ [n] := None)\<rparr>)))
     | Some _ \<Rightarrow> (Inl NOTDIR, w))"

definition sys_fsync_dir :: "path \<Rightarrow> (errno, unit) result io" where
  "sys_fsync_dir p = sys (\<lambda>w. (Inr (), w))"

definition sys_read_dir :: "path \<Rightarrow> (errno, string list) result io" where
  "sys_read_dir p = sys (\<lambda>w. (case wd_dirs w p of None \<Rightarrow> Inl NOENT
     | Some d \<Rightarrow> Inr (''.'' # ''..'' # bt_keys (di_entries d)), w))"

text \<open>\<^verbatim>\<open>flock\<close>: a lock that is held elsewhere makes the non-blocking call fail.\<close>

definition sys_flock_nonblocking :: "path \<Rightarrow> (errno, unit) result io" where
  "sys_flock_nonblocking p = sys (\<lambda>w. if p \<in> wd_locks w then (Inl WOULDBLOCK, w)
     else (Inr (), w\<lparr>wd_locks := insert p (wd_locks w)\<rparr>))"

text \<open>The blocking call waits until the holder has released the lock.\<close>

definition sys_flock :: "path \<Rightarrow> (errno, unit) result io" where
  "sys_flock p = sys (\<lambda>w. (Inr (), w\<lparr>wd_locks := insert p (wd_locks w)\<rparr>))"

definition sys_unlock :: "path \<Rightarrow> (errno, unit) result io" where
  "sys_unlock p = sys (\<lambda>w. (Inr (), w\<lparr>wd_locks := wd_locks w - {p}\<rparr>))"

section \<open>Reasoning about one directory\<close>

text \<open>
  \<open>dwp c p m R d\<close>: whenever directory \<open>p\<close> holds \<open>d\<close>, the computation \<open>m\<close> ends with an outcome and a
  directory related by \<open>R\<close> and changes no other directory. With \<open>c\<close> the environment is calm: no call
  fails, nothing crashes and no fault is armed, before and after.
\<close>

named_theorems dwp_rules \<open>introduction rules for \<open>dwp\<close>, by the head of the computation\<close>

definition calm :: "world \<Rightarrow> bool" where
  "calm w \<longleftrightarrow> wd_sys w = [] \<and> wd_fault w = NoFault"

definition dwp :: "bool \<Rightarrow> path \<Rightarrow> 'a io \<Rightarrow> ('a outcome \<Rightarrow> directory \<Rightarrow> bool) \<Rightarrow> directory \<Rightarrow> bool" where
  "dwp c p m R d \<longleftrightarrow> (\<forall>w. wd_dirs w p = Some d \<and> (c \<longrightarrow> calm w) \<longrightarrow>
     (case m w of (r, w') \<Rightarrow>
        \<exists>d'. wd_dirs w' = (wd_dirs w)(p \<mapsto> d') \<and> (c \<longrightarrow> calm w') \<and> R r d'))"

definition ins_entry :: "string \<Rightarrow> dir_entry \<Rightarrow> directory \<Rightarrow> directory" where
  "ins_entry n e d = d\<lparr>di_entries := bt_insert n e (di_entries d)\<rparr>"

definition rem_entry :: "string \<Rightarrow> directory \<Rightarrow> directory" where
  "rem_entry n d = d\<lparr>di_entries := bt_remove n (di_entries d)\<rparr>"

abbreviation find_entry :: "directory \<Rightarrow> string \<Rightarrow> dir_entry option" where
  "find_entry d n \<equiv> map_of (di_entries d) n"

lemma dwpD:
  assumes "dwp c p m R d" "wd_dirs w p = Some d" "c \<longrightarrow> calm w"
  obtains r w' d' where "m w = (r, w')" "wd_dirs w' = (wd_dirs w)(p \<mapsto> d')" "R r d'" "c \<longrightarrow> calm w'"
proof -
  have "case m w of (r, w') \<Rightarrow> \<exists>d'. wd_dirs w' = (wd_dirs w)(p \<mapsto> d') \<and> (c \<longrightarrow> calm w') \<and> R r d'"
    using assms(1) [unfolded dwp_def, rule_format, of w] assms(2,3) by simp
  then show thesis using that by (cases "m w") auto
qed

lemma dirs_unchanged:
  "wd_dirs w p = Some d \<Longrightarrow> P d \<Longrightarrow> \<exists>d'. wd_dirs w = (wd_dirs w)(p \<mapsto> d') \<and> P d'"
  by (rule exI [of _ d]) (simp add: fun_upd_idem)

lemma dwp_mono: "dwp c p m R d \<Longrightarrow> (\<And>r d'. R r d' \<Longrightarrow> R' r d') \<Longrightarrow> dwp c p m R' d"
  unfolding dwp_def by (fastforce split: prod.splits)

lemma dwp_return [dwp_rules]: "R (Done x) d \<Longrightarrow> dwp c p (returnI x) R d"
  by (auto simp: dwp_def returnI_def intro: dirs_unchanged)

lemma dwp_fail [dwp_rules]: "R (Failed e) d \<Longrightarrow> dwp c p (failI e) R d"
  by (auto simp: dwp_def failI_def intro: dirs_unchanged)

lemma dwp_bind [dwp_rules]:
  assumes "dwp c p m (\<lambda>r d'. case r of Done x \<Rightarrow> dwp c p (f x) R d'
     | Failed e \<Rightarrow> R (Failed e) d' | Crashed \<Rightarrow> R Crashed d') d"
  shows "dwp c p (bindI m f) R d"
  unfolding dwp_def
proof (intro allI impI, goal_cases)
  case (1 w)
  then have w: "wd_dirs w p = Some d" "c \<longrightarrow> calm w" by auto
  obtain r w1 d1 where m: "m w = (r, w1)" "wd_dirs w1 = (wd_dirs w)(p \<mapsto> d1)" "c \<longrightarrow> calm w1"
    and r: "case r of Done x \<Rightarrow> dwp c p (f x) R d1 | Failed e \<Rightarrow> R (Failed e) d1 | Crashed \<Rightarrow> R Crashed d1"
    by (rule dwpD [OF assms w])
  show ?case
  proof (cases r)
    case (Done x)
    then have "dwp c p (f x) R d1" "wd_dirs w1 p = Some d1" using r m(2) by simp_all
    from dwpD [OF this m(3)] obtain r2 w2 d2 where "f x w1 = (r2, w2)"
      "wd_dirs w2 = (wd_dirs w1)(p \<mapsto> d2)" "R r2 d2" "c \<longrightarrow> calm w2" .
    then show ?thesis using m(1,2) Done by (auto simp: bindI_def)
  qed (use m r in \<open>auto simp: bindI_def\<close>)
qed

lemma dwp_liftR [dwp_rules]:
  "(\<And>e. r = Inl e \<Longrightarrow> R (Failed e) d) \<Longrightarrow> (\<And>x. r = Inr x \<Longrightarrow> R (Done x) d) \<Longrightarrow> dwp c p (liftR r) R d"
  by (cases r) (auto simp: liftR_def intro: dwp_rules)

lemma dwp_errnoI [dwp_rules]:
  assumes "dwp c p m (\<lambda>r d'. case r of
      Done (Inl e) \<Rightarrow> R (Failed (Io (en_strerror env e))) d' | Done (Inr x) \<Rightarrow> R (Done x) d'
    | Failed e \<Rightarrow> R (Failed e) d' | Crashed \<Rightarrow> R Crashed d') d"
  shows "dwp c p (errnoI env m) R d"
  unfolding errnoI_def
  by (rule dwp_bind, rule dwp_mono [OF assms])
    (auto split: outcome.splits sum.splits intro: dwp_rules)

lemma dwp_on_failure [dwp_rules]:
  assumes "dwp c p m (\<lambda>r d'. case r of
      Failed e \<Rightarrow> dwp c p cleanup (\<lambda>r'. R (if r' = Crashed then Crashed else Failed e)) d'
    | _ \<Rightarrow> R r d') d"
  shows "dwp c p (on_failure m cleanup) R d"
  unfolding dwp_def
proof (intro allI impI, goal_cases)
  case (1 w)
  then have w: "wd_dirs w p = Some d" "c \<longrightarrow> calm w" by auto
  obtain r w1 d1 where m: "m w = (r, w1)" "wd_dirs w1 = (wd_dirs w)(p \<mapsto> d1)" "c \<longrightarrow> calm w1"
    and r: "case r of Failed e \<Rightarrow> dwp c p cleanup (\<lambda>r'. R (if r' = Crashed then Crashed else Failed e)) d1
      | _ \<Rightarrow> R r d1"
    by (rule dwpD [OF assms w])
  show ?case
  proof (cases r)
    case (Failed e)
    then have "dwp c p cleanup (\<lambda>r'. R (if r' = Crashed then Crashed else Failed e)) d1" "wd_dirs w1 p = Some d1"
      using r m(2) by simp_all
    from dwpD [OF this m(3)] obtain r2 w2 d2 where "cleanup w1 = (r2, w2)"
      "wd_dirs w2 = (wd_dirs w1)(p \<mapsto> d2)" "R (if r2 = Crashed then Crashed else Failed e) d2" "c \<longrightarrow> calm w2" .
    then show ?thesis using m(1,2) Failed by (cases r2) (auto simp: on_failure_def)
  qed (use m r in \<open>auto simp: on_failure_def\<close>)
qed

lemma dwp_fault_check [dwp_rules]:
  "(\<not> c \<Longrightarrow> q \<noteq> NoFault \<Longrightarrow> R (Failed (Io (''injected '' @ fault_debug q @ '' failure''))) d)
     \<Longrightarrow> R (Done ()) d \<Longrightarrow> q \<noteq> NoFault \<Longrightarrow> dwp c p (fault_check q) R d"
  by (auto simp: dwp_def fault_check_def calm_def intro: dirs_unchanged)

text \<open>One system call, from its effect on the directory.\<close>

lemma dwp_sys:
  assumes "\<not> c \<Longrightarrow> \<forall>e. R (Done (Inl e)) d" "\<not> c \<Longrightarrow> R Crashed d"
    and act: "\<And>w. wd_dirs w p = Some d \<Longrightarrow> \<exists>r w' d'. act w = (r, w') \<and> wd_dirs w' = (wd_dirs w)(p \<mapsto> d')
      \<and> wd_sys w' = wd_sys w \<and> wd_fault w' = wd_fault w \<and> R (Done r) d'"
  shows "dwp c p (sys act) R d"
  unfolding dwp_def
proof (intro allI impI, goal_cases)
  case (1 w)
  then have w: "wd_dirs w p = Some d" "c \<longrightarrow> calm w" by auto
  have run: "case (case act (w\<lparr>wd_sys := os\<rparr>) of (r, w') \<Rightarrow> (Done r, w')) of
      (r, w') \<Rightarrow> \<exists>d'. wd_dirs w' = (wd_dirs w)(p \<mapsto> d') \<and> (c \<longrightarrow> calm w') \<and> R r d'"
    if "c \<longrightarrow> os = []" for os
    using act [of "w\<lparr>wd_sys := os\<rparr>"] w that by (auto simp: calm_def)
  consider "wd_sys w = []" | os where "wd_sys w = SysOk # os" | e k os where "wd_sys w = SysFail e k # os"
    | k os where "wd_sys w = SysCrash k # os"
    by (cases "wd_sys w"; cases "hd (wd_sys w)") auto
  then show ?case
  proof cases
    case 1
    then have same: "w\<lparr>wd_sys := []\<rparr> = w" by simp
    show ?thesis using run [of "[]", unfolded same] 1 by (simp add: sys_def)
  next
    case (2 os)
    then show ?thesis using run [of os] w by (simp add: sys_def calm_def)
  qed (use w assms(1,2) in \<open>auto simp: sys_def calm_def intro: dirs_unchanged\<close>)
qed

lemma find_entry_at: "wd_dirs w p = Some d \<Longrightarrow> entry_at w p n = find_entry d n"
  by (simp add: entry_at_def)

lemma put_entry_dirs:
  "wd_dirs w p = Some d \<Longrightarrow> wd_dirs (put_entry p n e w) = (wd_dirs w)(p \<mapsto> ins_entry n e d)"
  "wd_sys (put_entry p n e w) = wd_sys w" "wd_fault (put_entry p n e w) = wd_fault w"
  by (simp_all add: put_entry_def upd_dir_def ins_entry_def)

lemma del_entry_dirs:
  "wd_dirs w p = Some d \<Longrightarrow> wd_dirs (del_entry p n w) = (wd_dirs w)(p \<mapsto> rem_entry n d)"
  "wd_sys (del_entry p n w) = wd_sys w" "wd_fault (del_entry p n w) = wd_fault w"
  by (simp_all add: del_entry_def upd_dir_def rem_entry_def)

definition map_file :: "string \<Rightarrow> (disk_file \<Rightarrow> disk_file) \<Rightarrow> directory \<Rightarrow> directory" where
  "map_file n f d = (case find_entry d n of Some (FileE x) \<Rightarrow> ins_entry n (FileE (f x)) d | _ \<Rightarrow> d)"

lemma upd_fd_dirs:
  "wd_dirs w p = Some d \<Longrightarrow> wd_dirs (upd_fd (FdFile p n) f w) = (wd_dirs w)(p \<mapsto> map_file n f d)"
  "wd_sys (upd_fd fd f w) = wd_sys w" "wd_fault (upd_fd fd f w) = wd_fault w"
  by (auto simp: upd_fd_def upd_file_def map_file_def entry_at_def put_entry_dirs fun_upd_idem
      split: option.splits dir_entry.splits fd.splits)

lemmas dir_effects = find_entry_at put_entry_dirs del_entry_dirs upd_fd_dirs fun_upd_idem

subsection \<open>Rules for the system calls\<close>

lemma dwp_open_read [dwp_rules]:
  assumes "\<not> c \<Longrightarrow> \<forall>e. R (Done (Inl e)) d" "\<not> c \<Longrightarrow> R Crashed d"
    and "R (Done (case find_entry d n of None \<Rightarrow> Inl NOENT | Some SymlinkE \<Rightarrow> Inl LOOP
       | Some DirectoryE \<Rightarrow> Inr (FdDir (p @ [n])) | Some (FileE _) \<Rightarrow> Inr (FdFile p n))) d"
  shows "dwp c p (sys_open_read p n) R d"
  unfolding sys_open_read_def
  by (rule dwp_sys) (use assms in \<open>auto simp: dir_effects intro!: exI [of _ d]\<close>)

lemma dwp_create_excl [dwp_rules]:
  assumes "\<not> c \<Longrightarrow> \<forall>e. R (Done (Inl e)) d" "\<not> c \<Longrightarrow> R Crashed d"
    and "find_entry d n \<noteq> None \<Longrightarrow> R (Done (Inl EXIST)) d"
    and "find_entry d n = None \<Longrightarrow> R (Done (Inr (FdFile p n))) (ins_entry n (FileE (new_file env mode)) d)"
  shows "dwp c p (sys_create_excl env p n mode) R d"
  unfolding sys_create_excl_def
  by (rule dwp_sys) (use assms in \<open>auto simp: dir_effects intro: dirs_unchanged\<close>)

lemma dwp_open_create [dwp_rules]:
  assumes "\<not> c \<Longrightarrow> \<forall>e. R (Done (Inl e)) d" "\<not> c \<Longrightarrow> R Crashed d"
    and "find_entry d n = None \<Longrightarrow> R (Done (Inr (FdFile p n))) (ins_entry n (FileE (new_file env mode)) d)"
    and "\<And>f. find_entry d n = Some (FileE f) \<Longrightarrow> R (Done (Inr (FdFile p n))) d"
    and "find_entry d n = Some DirectoryE \<Longrightarrow> R (Done (Inl ISDIR)) d"
    and "find_entry d n = Some SymlinkE \<Longrightarrow> R (Done (Inl LOOP)) d"
  shows "dwp c p (sys_open_create env p n mode) R d"
  unfolding sys_open_create_def
  by (rule dwp_sys)
    (use assms in \<open>auto simp: dir_effects intro: dirs_unchanged split: option.splits dir_entry.splits\<close>)

lemma dwp_fstat [dwp_rules]:
  assumes "\<not> c \<Longrightarrow> \<forall>e. R (Done (Inl e)) d" "\<not> c \<Longrightarrow> R Crashed d"
    and "R (Done (case find_entry d n of Some (FileE f) \<Rightarrow> Inr (fl_stat f, length (fl_data f))
       | _ \<Rightarrow> Inl NOENT)) d"
  shows "dwp c p (sys_fstat (FdFile p n)) R d"
  unfolding sys_fstat_def
  by (rule dwp_sys) (use assms in \<open>auto simp: dir_effects intro!: exI [of _ d]\<close>)

lemma dwp_fstat_dir [dwp_rules]:
  assumes "\<not> c \<Longrightarrow> \<forall>e. R (Done (Inl e)) d" "\<not> c \<Longrightarrow> R Crashed d" "\<forall>r. R (Done r) d"
  shows "dwp c p (sys_fstat (FdDir q)) R d"
  unfolding sys_fstat_def
  by (rule dwp_sys) (use assms in \<open>auto simp: dir_effects intro!: exI [of _ d]\<close>)

lemma dwp_fchmod [dwp_rules]:
  assumes "\<not> c \<Longrightarrow> \<forall>e. R (Done (Inl e)) d" "\<not> c \<Longrightarrow> R Crashed d"
    and "R (Done (Inr ())) (map_file n (\<lambda>x. x\<lparr>fl_stat := (fl_stat x)
           \<lparr>st_mode := (st_mode (fl_stat x) AND S_IFMT) OR mode\<rparr>\<rparr>) d)"
  shows "dwp c p (sys_fchmod (FdFile p n) mode) R d"
  unfolding sys_fchmod_def
  by (rule dwp_sys) (use assms in \<open>auto simp: dir_effects\<close>)

lemma dwp_sync_all [dwp_rules]:
  assumes "\<not> c \<Longrightarrow> \<forall>e. R (Done (Inl e)) d" "\<not> c \<Longrightarrow> R Crashed d"
    and "R (Done (Inr ())) (map_file n (\<lambda>x. x\<lparr>fl_synced := True\<rparr>) d)"
  shows "dwp c p (sys_sync_all (FdFile p n)) R d"
  unfolding sys_sync_all_def
  by (rule dwp_sys) (use assms in \<open>auto simp: dir_effects\<close>)

lemma dwp_set_len [dwp_rules]:
  assumes "\<not> c \<Longrightarrow> \<forall>e. R (Done (Inl e)) d" "\<not> c \<Longrightarrow> R Crashed d"
    and "R (Done (Inr ())) (map_file n (\<lambda>x. x\<lparr>fl_data := take k (fl_data x)
           @ replicate (k - length (fl_data x)) (CHR 0x00), fl_synced := False\<rparr>) d)"
  shows "dwp c p (sys_set_len (FdFile p n) k) R d"
  unfolding sys_set_len_def
  by (rule dwp_sys) (use assms in \<open>auto simp: dir_effects\<close>)

lemma dwp_write_all [dwp_rules]:
  assumes "\<not> c \<Longrightarrow> \<forall>e k. R (Done (Inl e)) (map_file n (write_bytes off (take k bs)) d)"
    and "\<not> c \<Longrightarrow> \<forall>k. R Crashed (map_file n (write_bytes off (take k bs)) d)"
    and "R (Done (Inr ())) (map_file n (write_bytes off bs) d)"
  shows "dwp c p (sys_write_all (FdFile p n) off bs) R d"
  unfolding dwp_def sys_write_all_def calm_def
  using assms by (auto simp: dir_effects split: list.splits sys_outcome.splits)

lemma dwp_read_file [dwp_rules]:
  assumes "\<not> c \<Longrightarrow> \<forall>e. R (Done (Inl e)) d" "\<not> c \<Longrightarrow> R Crashed d"
    and "R (Done (case find_entry d n of Some (FileE f) \<Rightarrow> Inr (take k (drop off (fl_data f)))
       | _ \<Rightarrow> Inl NOENT)) d"
  shows "dwp c p (sys_read (FdFile p n) off k) R d"
  unfolding sys_read_def
  by (rule dwp_sys) (use assms in \<open>auto simp: dir_effects intro!: exI [of _ d]\<close>)

lemma dwp_read_subdir [dwp_rules]:
  assumes "\<not> c \<Longrightarrow> \<forall>e. R (Done (Inl e)) d" "\<not> c \<Longrightarrow> R Crashed d" "R (Done (Inl ISDIR)) d"
  shows "dwp c p (sys_read (FdDir q) off k) R d"
  unfolding sys_read_def
  by (rule dwp_sys) (use assms in \<open>auto simp: dir_effects intro!: exI [of _ d]\<close>)

lemma dwp_seek [dwp_rules]:
  assumes "\<not> c \<Longrightarrow> \<forall>e. R (Done (Inl e)) d" "\<not> c \<Longrightarrow> R Crashed d" "R (Done (Inr k)) d"
  shows "dwp c p (sys_seek fd k) R d"
  unfolding sys_seek_def
  by (rule dwp_sys) (use assms in \<open>auto simp: dir_effects intro!: exI [of _ d]\<close>)

lemma dwp_fsync_dir [dwp_rules]:
  assumes "\<not> c \<Longrightarrow> \<forall>e. R (Done (Inl e)) d" "\<not> c \<Longrightarrow> R Crashed d" "R (Done (Inr ())) d"
  shows "dwp c p (sys_fsync_dir q) R d"
  unfolding sys_fsync_dir_def
  by (rule dwp_sys) (use assms in \<open>auto simp: dir_effects intro!: exI [of _ d]\<close>)

lemma dwp_read_dir [dwp_rules]:
  assumes "\<not> c \<Longrightarrow> \<forall>e. R (Done (Inl e)) d" "\<not> c \<Longrightarrow> R Crashed d"
    and "R (Done (Inr (''.'' # ''..'' # bt_keys (di_entries d)))) d"
  shows "dwp c p (sys_read_dir p) R d"
  unfolding sys_read_dir_def
  by (rule dwp_sys) (use assms in \<open>auto simp: dir_effects intro!: exI [of _ d]\<close>)

lemma dwp_rename [dwp_rules]:
  assumes "\<not> c \<Longrightarrow> \<forall>e. R (Done (Inl e)) d" "\<not> c \<Longrightarrow> R Crashed d"
    and "find_entry d a = None \<Longrightarrow> R (Done (Inl NOENT)) d"
    and "find_entry d b = Some DirectoryE \<Longrightarrow> find_entry d a \<noteq> None \<Longrightarrow> R (Done (Inl ISDIR)) d"
    and "\<And>e. find_entry d a = Some e \<Longrightarrow> find_entry d b \<noteq> Some DirectoryE
       \<Longrightarrow> R (Done (Inr ())) (ins_entry b e (rem_entry a d))"
  shows "dwp c p (sys_rename p a b) R d"
  unfolding sys_rename_def
  by (rule dwp_sys)
    (use assms in \<open>auto simp: dir_effects intro: dirs_unchanged split: option.splits\<close>)

lemma dwp_unlink [dwp_rules]:
  assumes "\<not> c \<Longrightarrow> \<forall>e. R (Done (Inl e)) d" "\<not> c \<Longrightarrow> R Crashed d"
    and "find_entry d n = None \<Longrightarrow> R (Done (Inl NOENT)) d"
    and "find_entry d n = Some DirectoryE \<Longrightarrow> R (Done (Inl ISDIR)) d"
    and "find_entry d n \<noteq> None \<Longrightarrow> find_entry d n \<noteq> Some DirectoryE \<Longrightarrow> R (Done (Inr ())) (rem_entry n d)"
  shows "dwp c p (sys_unlink p n) R d"
  unfolding sys_unlink_def
  by (rule dwp_sys)
    (use assms in \<open>auto simp: dir_effects intro: dirs_unchanged split: option.splits dir_entry.splits\<close>)

end
