(* ===== verification/Dnf_Text.thy ===== *)
theory Dnf_Text
  imports Dnf_Prelude
begin

text \<open>
  The string searches of the source (\<^verbatim>\<open>split_once\<close>, \<^verbatim>\<open>rsplit_once\<close>, \<^verbatim>\<open>contains\<close>,
  \<^verbatim>\<open>starts_with\<close>) on UTF-8 bytes, and \<^verbatim>\<open>BTreeSet\<close> where its order is observed, as a strictly
  sorted list.
\<close>

section \<open>Loops that carry a state\<close>

text \<open>\<^verbatim>\<open>for x in xs { state = f(x, state)?; }\<close>\<close>

fun foldR :: "('a \<Rightarrow> 's \<Rightarrow> ('e, 's) result) \<Rightarrow> 'a list \<Rightarrow> 's \<Rightarrow> ('e, 's) result" where
  "foldR f [] s = Inr s"
| "foldR f (x # xs) s = bindR (f x s) (foldR f xs)"

lemma foldR_append: "foldR f (xs @ ys) s = bindR (foldR f xs s) (foldR f ys)"
proof (induction xs arbitrary: s)
  case (Cons x xs)
  then have "foldR f (xs @ ys) = (\<lambda>s. bindR (foldR f xs s) (foldR f ys))" by (intro ext)
  then show ?case by (simp add: bindR_assoc)
qed simp

lemma foldR_upt_invariant:
  assumes "foldR f [0..<n] s = Inr s'" "P 0 s"
    "\<And>k u u'. k < n \<Longrightarrow> P k u \<Longrightarrow> f k u = Inr u' \<Longrightarrow> P (Suc k) u'"
  shows "P n s'"
  using assms
proof (induction n arbitrary: s')
  case (Suc n)
  from Suc.prems(1) obtain u where "foldR f [0..<n] s = Inr u" "f n u = Inr s'"
    by (auto simp: foldR_append bindR_eq_Inr)
  then show ?case using Suc.IH [of u] Suc.prems(2,3) by simp
qed simp

lemma foldR_invariant:
  assumes "foldR f xs s = Inr s'" "P s" "\<And>x u u'. x \<in> set xs \<Longrightarrow> P u \<Longrightarrow> f x u = Inr u' \<Longrightarrow> P u'"
  shows "P s'"
  using assms
proof (induction xs arbitrary: s)
  case (Cons x xs)
  then obtain u where u: "f x s = Inr u" "foldR f xs u = Inr s'" by (auto simp: bindR_eq_Inr)
  show ?case
    by (rule Cons.IH [OF u(2)]) (use Cons.prems u(1) in auto)
qed simp

section \<open>Searching strings\<close>

definition starts_with :: "string \<Rightarrow> string \<Rightarrow> bool" where
  "starts_with s pat \<longleftrightarrow> take (length pat) s = pat"

fun split_once :: "string \<Rightarrow> string \<Rightarrow> (string \<times> string) option" where
  "split_once pat s =
     (if starts_with s pat then Some ([], drop (length pat) s)
      else case s of
        [] \<Rightarrow> None
      | c # cs \<Rightarrow> (case split_once pat cs of None \<Rightarrow> None | Some (a, b) \<Rightarrow> Some (c # a, b)))"

declare split_once.simps [simp del]

definition rsplit_once :: "char \<Rightarrow> string \<Rightarrow> (string \<times> string) option" where
  "rsplit_once c s =
     (case split_once [c] (rev s) of None \<Rightarrow> None | Some (a, b) \<Rightarrow> Some (rev b, rev a))"

definition contains_str :: "string \<Rightarrow> string \<Rightarrow> bool" where
  "contains_str s pat \<longleftrightarrow> split_once pat s \<noteq> None"

lemma starts_with_iff: "starts_with s pat \<longleftrightarrow> (\<exists>r. s = pat @ r)"
  unfolding starts_with_def by (metis append_eq_conv_conj append_take_drop_id)

lemma split_once_Nil: "split_once pat [] = (if pat = [] then Some ([], []) else None)"
  by (simp add: split_once.simps starts_with_def)

lemma split_once_Cons:
  "split_once pat (c # cs) =
     (if starts_with (c # cs) pat then Some ([], drop (length pat) (c # cs))
      else case split_once pat cs of None \<Rightarrow> None | Some (a, b) \<Rightarrow> Some (c # a, b))"
  by (subst split_once.simps) simp

lemma split_once_SomeD: "split_once pat s = Some (a, b) \<Longrightarrow> s = a @ pat @ b"
proof (induction s arbitrary: a)
  case (Cons c cs)
  show ?case
  proof (cases "starts_with (c # cs) pat")
    case True
    then have "c # cs = pat @ drop (length pat) (c # cs)"
      by (metis append_take_drop_id starts_with_def)
    then show ?thesis using Cons.prems True by (auto simp: split_once_Cons)
  next
    case False
    then show ?thesis using Cons by (auto simp: split_once_Cons split: option.splits)
  qed
qed (auto simp: split_once_Nil split: if_splits)

lemma split_once_NoneD: "split_once pat s = None \<Longrightarrow> s \<noteq> a @ pat @ b"
proof (induction s arbitrary: a)
  case (Cons c cs)
  then have "\<not> starts_with (c # cs) pat" "split_once pat cs = None"
    by (auto simp: split_once_Cons split: if_splits option.splits)
  then show ?case using Cons.IH by (cases a) (auto simp: starts_with_iff)
qed (auto simp: split_once_Nil split: if_splits)

lemma contains_str_iff: "contains_str s pat \<longleftrightarrow> (\<exists>a b. s = a @ pat @ b)"
  unfolding contains_str_def using split_once_SomeD split_once_NoneD
  by (metis option.exhaust surj_pair)

lemma split_once_char_SomeD: "split_once [c] s = Some (a, b) \<Longrightarrow> s = a @ c # b \<and> c \<notin> set a"
  by (induction s arbitrary: a)
    (auto simp: split_once_Nil split_once_Cons starts_with_def split: if_splits option.splits)

lemma split_once_char_first [simp]: "c \<notin> set a \<Longrightarrow> split_once [c] (a @ c # b) = Some (a, b)"
  by (induction a) (auto simp: split_once.simps starts_with_def)

lemma split_once_char_None: "split_once [c] s = None \<longleftrightarrow> c \<notin> set s"
  using split_once_NoneD [of "[c]" s] split_once_char_SomeD [of c s]
  by (cases "split_once [c] s") (auto simp: in_set_conv_decomp)

lemma rsplit_once_SomeD: "rsplit_once c s = Some (a, b) \<Longrightarrow> s = a @ c # b \<and> c \<notin> set b"
  using split_once_char_SomeD [of c "rev s"]
  by (auto simp: rsplit_once_def rev_swap split: option.splits)

lemma rsplit_once_last [simp]: "c \<notin> set b \<Longrightarrow> rsplit_once c (a @ c # b) = Some (a, b)"
  by (simp add: rsplit_once_def)

lemma rsplit_once_None [simp]: "rsplit_once c s = None \<longleftrightarrow> c \<notin> set s"
  using split_once_char_None [of c "rev s"] by (auto simp: rsplit_once_def split: option.splits)

section \<open>BTreeSet as a strictly sorted list\<close>

type_synonym 'a btree_set = "'a list"

text \<open>\<^verbatim>\<open>BTreeSet::insert\<close> and \<^verbatim>\<open>remove\<close>; \<^verbatim>\<open>first\<close> and \<^verbatim>\<open>pop_first\<close> read the head.\<close>

definition bs_insert :: "'a::linorder \<Rightarrow> 'a btree_set \<Rightarrow> 'a btree_set" where
  "bs_insert x s = insort_insert x s"

definition bs_remove :: "'a \<Rightarrow> 'a btree_set \<Rightarrow> 'a btree_set" where
  "bs_remove x s = filter (\<lambda>y. y \<noteq> x) s"

definition bs_ok :: "'a::linorder btree_set \<Rightarrow> bool" where
  "bs_ok s \<longleftrightarrow> sorted_wrt (<) s"

lemma bs_ok_Nil [simp]: "bs_ok []"
  by (simp add: bs_ok_def)

lemma bs_ok_distinct: "bs_ok s \<Longrightarrow> distinct s"
  by (simp add: bs_ok_def strict_sorted_iff)

lemma set_bs_insert [simp]: "set (bs_insert x s) = insert x (set s)"
  by (simp add: bs_insert_def set_insort_insert)

lemma set_bs_remove [simp]: "set (bs_remove x s) = set s - {x}"
  by (auto simp: bs_remove_def)

lemma bs_ok_insert [simp]: "bs_ok s \<Longrightarrow> bs_ok (bs_insert x s)"
  by (simp add: bs_ok_def bs_insert_def strict_sorted_iff sorted_insort_insert distinct_insort_insert)

lemma bs_ok_remove [simp]: "bs_ok s \<Longrightarrow> bs_ok (bs_remove x s)"
  by (simp add: bs_ok_def bs_remove_def sorted_wrt_filter)

lemma bs_ok_tl: "bs_ok (x # s) \<Longrightarrow> bs_ok s \<and> x \<notin> set s \<and> (\<forall>y\<in>set s. x < y)"
  by (auto simp: bs_ok_def)

lemma length_bs_remove: "x \<in> set s \<Longrightarrow> length (bs_remove x s) < length s"
  unfolding bs_remove_def by (induction s) (auto simp: le_imp_less_Suc)

section \<open>Paths\<close>

datatype component = RootDir | CurDir | ParentDir | Normal string

fun split_slash :: "string \<Rightarrow> string list" where
  "split_slash [] = [[]]"
| "split_slash (c # cs) =
     (if c = CHR ''/'' then [] # split_slash cs
      else case split_slash cs of [] \<Rightarrow> [[c]] | part # parts \<Rightarrow> (c # part) # parts)"

text \<open>\<^verbatim>\<open>Path::components\<close>: empty and \<open>.\<close> components are skipped, except a leading \<open>.\<close>\<close>

definition components :: "string \<Rightarrow> component list" where
  "components s =
     (if take 1 s = ''/'' then [RootDir]
      else if take 1 (split_slash s) = [''.''] then [CurDir] else [])
     @ map (\<lambda>n. if n = ''..'' then ParentDir else Normal n)
         (filter (\<lambda>n. n \<noteq> [] \<and> n \<noteq> ''.'') (split_slash s))"

section \<open>UTF-8\<close>

text \<open>\<^verbatim>\<open>CStr::to_str\<close>: UTF-8 validity\<close>

definition cont :: "char \<Rightarrow> bool" where
  "cont c \<longleftrightarrow> of_char c \<in> {0x80..<(0xC0::nat)}"

definition between :: "nat \<Rightarrow> nat \<Rightarrow> char \<Rightarrow> bool" where
  "between lo hi c \<longleftrightarrow> lo \<le> of_char c \<and> of_char c \<le> hi"

fun utf8_ok :: "string \<Rightarrow> bool" where
  "utf8_ok [] = True"
| "utf8_ok (a # cs) =
     (if between 0 0x7F a then utf8_ok cs
      else case cs of
        b # r1 \<Rightarrow>
          if between 0xC2 0xDF a \<and> cont b then utf8_ok r1
          else (case r1 of
            c # r2 \<Rightarrow>
              if (between 0xE0 0xE0 a \<and> between 0xA0 0xBF b \<or> between 0xE1 0xEC a \<and> cont b
                  \<or> between 0xED 0xED a \<and> between 0x80 0x9F b \<or> between 0xEE 0xEF a \<and> cont b) \<and> cont c
              then utf8_ok r2
              else (case r2 of
                d # r3 \<Rightarrow>
                  (between 0xF0 0xF0 a \<and> between 0x90 0xBF b \<or> between 0xF1 0xF3 a \<and> cont b
                   \<or> between 0xF4 0xF4 a \<and> between 0x80 0x8F b) \<and> cont c \<and> cont d \<and> utf8_ok r3
              | [] \<Rightarrow> False)
          | [] \<Rightarrow> False)
      | [] \<Rightarrow> False)"

lemma ascii_utf8: "list_all (between 0 0x7F) s \<Longrightarrow> utf8_ok s"
  by (induction s) auto

text \<open>A character of more than one byte has no ASCII byte, so the ASCII bytes of a text are characters of it.\<close>

lemma utf8_ok_lead:
  assumes "utf8_ok (a # s)" "128 \<le> byte_of a"
  shows "(\<exists>b r. s = b # r \<and> byte_of a < 224 \<and> 128 \<le> byte_of b \<and> utf8_ok r)
    \<or> (\<exists>b c r. s = b # c # r \<and> 224 \<le> byte_of a \<and> byte_of a < 240 \<and> 128 \<le> byte_of b \<and> 128 \<le> byte_of c \<and> utf8_ok r)
    \<or> (\<exists>b c d r. s = b # c # d # r \<and> 240 \<le> byte_of a \<and> 128 \<le> byte_of b \<and> 128 \<le> byte_of c \<and> 128 \<le> byte_of d \<and> utf8_ok r)"
proof -
  have bounds: "cont x \<Longrightarrow> 128 \<le> byte_of x" "between lo hi x \<Longrightarrow> lo \<le> byte_of x \<and> byte_of x \<le> hi" for x lo hi
    by (simp_all add: cont_def between_def byte_of_def)
  have a: "\<not> between 0 0x7F a" using assms(2) by (simp add: between_def byte_of_def)
  note step = utf8_ok.simps(2) [of a, unfolded if_not_P [OF a]]
  show ?thesis
  proof (cases s)
    case Nil
    then show ?thesis using assms(1) unfolding step by simp
  next
    case b: (Cons b r1)
    show ?thesis
    proof (cases "between 0xC2 0xDF a \<and> cont b")
      case True
      then have "utf8_ok r1" "byte_of a < 224" "128 \<le> byte_of b"
        using assms(1) bounds(1) [of b] bounds(2) [of "0xC2" "0xDF" a] unfolding step b
        by (simp_all del: utf8_ok.simps)
      then show ?thesis using b by blast
    next
      case two: False
      show ?thesis
      proof (cases r1)
        case Nil
        then show ?thesis using assms(1) two unfolding step b by (simp split: if_splits)
      next
        case c: (Cons c r2)
        show ?thesis
        proof (cases "(between 0xE0 0xE0 a \<and> between 0xA0 0xBF b \<or> between 0xE1 0xEC a \<and> cont b
                  \<or> between 0xED 0xED a \<and> between 0x80 0x9F b \<or> between 0xEE 0xEF a \<and> cont b) \<and> cont c")
          case True
          then have "utf8_ok r2" using assms(1) two unfolding step b c by (simp del: utf8_ok.simps split: if_splits)
          moreover have "224 \<le> byte_of a \<and> byte_of a < 240 \<and> 128 \<le> byte_of b \<and> 128 \<le> byte_of c"
            using True by (auto dest!: bounds)
          ultimately show ?thesis using b c by blast
        next
          case three: False
          show ?thesis
          proof (cases r2)
            case Nil
            then show ?thesis using assms(1) two three unfolding step b c by (simp split: if_splits)
          next
            case d: (Cons d r3)
            then have *: "(between 0xF0 0xF0 a \<and> between 0x90 0xBF b \<or> between 0xF1 0xF3 a \<and> cont b
                   \<or> between 0xF4 0xF4 a \<and> between 0x80 0x8F b) \<and> cont c \<and> cont d \<and> utf8_ok r3"
              using assms(1) two three unfolding step b c by (simp only: list.case if_False)
            then have "240 \<le> byte_of a \<and> 128 \<le> byte_of b \<and> 128 \<le> byte_of c \<and> 128 \<le> byte_of d"
              by (auto dest!: bounds)
            with * show ?thesis using b c d by blast
          qed
        qed
      qed
    qed
  qed
qed

lemma chars_of_ascii: "utf8_ok s \<Longrightarrow> c \<in> set s \<Longrightarrow> byte_of c < 128 \<Longrightarrow> byte_of c \<in> set (chars_of s)"
proof (induction s rule: length_induct)
  case (1 s)
  then obtain a s' where s: "s = a # s'" by (cases s) auto
  show ?case
  proof (cases "byte_of a < 128")
    case True
    then have "between 0 0x7F a" by (simp add: between_def byte_of_def)
    with 1 True show ?thesis by (auto simp: s)
  next
    case False
    have IH: "c \<in> set r \<Longrightarrow> utf8_ok r \<Longrightarrow> length r < length s \<Longrightarrow> byte_of c \<in> set (chars_of r)" for r
      using 1(1,4) by blast
    show ?thesis using utf8_ok_lead [OF 1(2) [unfolded s]] False 1(3,4) IH
      by (auto simp: s simp del: utf8_ok.simps)
  qed
qed

end
