(* ===== verification/State_Fs.thy ===== *)
theory State_Fs
  imports State_Kernel Dnf_Text
begin

text \<open>
  \<^verbatim>\<open>crates/dnfast-state/src/fs.rs\<close>: roots and transaction directories, bounded reads, the
  publication of one journal record and the replacement of a state file, with what every
  interruption of these can leave behind.
\<close>

section \<open>Paths\<close>

definition normal_component :: "string \<Rightarrow> component \<Rightarrow> (state_error, string) result" where
  "normal_component message c = (case c of Normal n \<Rightarrow> Inr n | _ \<Rightarrow> Inl (UnsafePath message))"

definition sys_open_root :: "(errno, path) result io" where
  "sys_open_root = sys (\<lambda>w. (Inr [], w))"

section \<open>Checks on open nodes\<close>

definition verify :: "env \<Rightarrow> fd \<Rightarrow> bool \<Rightarrow> bool \<Rightarrow> unit io" where
  "verify env fd directory one_link =
     bindI (errnoI env (sys_fstat fd)) (\<lambda>(st, size).
       if st_uid st \<noteq> en_euid env
         \<or> st_mode st AND S_IFMT \<noteq> (if directory then S_IFDIR else S_IFREG)
         \<or> st_mode st AND 0x1FF \<noteq> (if directory then MODE_DIR else MODE_FILE)
         \<or> (one_link \<and> st_nlink st \<noteq> 1)
       then failI (UnsafePath ''ownership, mode, type, or link count'')
       else returnI ())"

definition stat_ok :: "env \<Rightarrow> bool \<Rightarrow> stat \<Rightarrow> bool" where
  "stat_ok env directory st \<longleftrightarrow> st_uid st = en_euid env
     \<and> st_mode st AND S_IFMT = (if directory then S_IFDIR else S_IFREG)
     \<and> st_mode st AND 0x1FF = (if directory then MODE_DIR else MODE_FILE)"

section \<open>Directories\<close>

definition make_last :: "env \<Rightarrow> path \<Rightarrow> string \<Rightarrow> unit io" where
  "make_last env current name =
     bindI (sys_mkdir env current name MODE_DIR) (\<lambda>r. case r of
       Inr _ \<Rightarrow> errnoI env (sys_fsync_dir current)
     | Inl EXIST \<Rightarrow> returnI ()
     | Inl e \<Rightarrow> failI (Io (en_strerror env e)))"

fun open_components :: "env \<Rightarrow> bool \<Rightarrow> path \<Rightarrow> string list \<Rightarrow> path io" where
  "open_components env create current [] = returnI current"
| "open_components env create current (name # names) =
     bindI (if create \<and> names = [] then make_last env current name else returnI ()) (\<lambda>_.
     bindI (errnoI env (sys_open_dir current name)) (\<lambda>next. open_components env create next names))"

definition open_or_create_root :: "env \<Rightarrow> string \<Rightarrow> path io" where
  "open_or_create_root env path =
     (case components path of
        RootDir # names \<Rightarrow>
          bindI (liftR (mapR (normal_component ''invalid journal root component'') names)) (\<lambda>names.
          if names = [] then failI (UnsafePath ''journal root cannot be filesystem root'')
          else bindI (errnoI env sys_open_root) (\<lambda>root.
            bindI (open_components env True root names) (\<lambda>current.
            bindI (verify env (FdDir current) True False) (\<lambda>_. returnI current))))
      | _ \<Rightarrow> failI (UnsafePath ''journal root must be absolute''))"

fun open_existing :: "env \<Rightarrow> path \<Rightarrow> component list \<Rightarrow> path io" where
  "open_existing env current [] = returnI current"
| "open_existing env current (c # cs) =
     bindI (liftR (normal_component ''invalid root component'' c)) (\<lambda>name.
     bindI (errnoI env (sys_open_dir current name)) (\<lambda>next. open_existing env next cs))"

definition open_existing_root :: "env \<Rightarrow> string \<Rightarrow> path io" where
  "open_existing_root env path =
     bindI (errnoI env sys_open_root) (\<lambda>root.
       case components path of
         RootDir # cs \<Rightarrow> bindI (open_existing env root cs) (\<lambda>current.
           bindI (verify env (FdDir current) True False) (\<lambda>_. returnI current))
       | _ \<Rightarrow> failI (UnsafePath ''root must be absolute''))"

definition open_transaction :: "env \<Rightarrow> path \<Rightarrow> string \<Rightarrow> path io" where
  "open_transaction env root name =
     bindI (errnoI env (sys_open_dir root name)) (\<lambda>fd.
     bindI (verify env (FdDir fd) True False) (\<lambda>_. returnI fd))"

definition create_transaction :: "env \<Rightarrow> path \<Rightarrow> string \<Rightarrow> path io" where
  "create_transaction env root name =
     bindI (fault_check FaultCreate) (\<lambda>_.
     bindI (errnoI env (sys_mkdir env root name MODE_DIR)) (\<lambda>_.
     bindI (errnoI env (sys_fsync_dir root)) (\<lambda>_. open_transaction env root name)))"

section \<open>Files\<close>

definition record_name :: "u64 \<Rightarrow> string" where
  "record_name sequence = pad020 (show_nat (unat sequence)) @ ''.json''"

definition record_temporary :: "env \<Rightarrow> u64 \<Rightarrow> string" where
  "record_temporary env sequence =
     ''.'' @ pad020 (show_nat (unat sequence)) @ ''.tmp-'' @ show_nat (en_pid env)"

text \<open>
  The part of \<^verbatim>\<open>write_record\<close> during which \<^verbatim>\<open>TempCleanup\<close> is armed: from the creation of the
  temporary file to the synchronisation of the directory.
\<close>

definition publish_temporary :: "env \<Rightarrow> path \<Rightarrow> fd \<Rightarrow> string \<Rightarrow> string \<Rightarrow> bytes \<Rightarrow> unit io" where
  "publish_temporary env directory fd temporary final_name bs =
     on_failure
       (bindI (errnoI env (sys_fchmod fd MODE_FILE)) (\<lambda>_.
        bindI (fault_check FaultWrite) (\<lambda>_.
        bindI (errnoI env (sys_write_all fd 0 bs)) (\<lambda>_.
        bindI (fault_check FaultFileSync) (\<lambda>_.
        bindI (errnoI env (sys_sync_all fd)) (\<lambda>_.
        bindI (fault_check FaultPublish) (\<lambda>_.
        bindI (errnoI env (sys_rename directory temporary final_name)) (\<lambda>_.
          errnoI env (sys_fsync_dir directory)))))))))
       (sys_unlink directory temporary)"

definition write_record :: "env \<Rightarrow> path \<Rightarrow> u64 \<Rightarrow> bytes \<Rightarrow> unit io" where
  "write_record env directory sequence bs =
     (let final_name = record_name sequence; temporary = record_temporary env sequence in
      bindI (sys_open_read directory final_name) (\<lambda>existing.
      if (case existing of Inr _ \<Rightarrow> True | Inl _ \<Rightarrow> False)
      then failI (Corrupt ''duplicate sequence'')
      else
        bindI (errnoI env (sys_create_excl env directory temporary MODE_FILE)) (\<lambda>fd.
        bindI (publish_temporary env directory fd temporary final_name bs) (\<lambda>_.
          fault_check FaultDirectorySync))))"

definition read_open :: "env \<Rightarrow> fd \<Rightarrow> nat \<Rightarrow> bytes io" where
  "read_open env fd maximum =
     bindI (verify env fd False True) (\<lambda>_.
     bindI (errnoI env (sys_fstat fd)) (\<lambda>(st, size).
     if size > maximum then failI (Limit ''record'')
     else bindI (errnoI env (sys_read fd 0 (maximum + 1))) (\<lambda>bs.
       if length bs > maximum then failI (Limit ''record'') else returnI bs)))"

definition read_bounded :: "env \<Rightarrow> path \<Rightarrow> string \<Rightarrow> nat \<Rightarrow> bytes io" where
  "read_bounded env directory name maximum =
     bindI (errnoI env (sys_open_read directory name)) (\<lambda>fd. read_open env fd maximum)"

definition read_optional_bounded :: "env \<Rightarrow> path \<Rightarrow> string \<Rightarrow> nat \<Rightarrow> bytes option io" where
  "read_optional_bounded env directory name maximum =
     bindI (sys_open_read directory name) (\<lambda>r. case r of
       Inr fd \<Rightarrow> bindI (read_open env fd maximum) (\<lambda>bs. returnI (Some bs))
     | Inl NOENT \<Rightarrow> returnI None
     | Inl e \<Rightarrow> failI (Io (en_strerror env e)))"

definition replace_temporary :: "env \<Rightarrow> string \<Rightarrow> string" where
  "replace_temporary env name = ''.'' @ name @ ''.tmp-'' @ show_nat (en_pid env)"

definition publish_replacement :: "env \<Rightarrow> path \<Rightarrow> fd \<Rightarrow> string \<Rightarrow> string \<Rightarrow> bytes \<Rightarrow> unit io" where
  "publish_replacement env directory fd temporary name bs =
     on_failure
       (bindI (errnoI env (sys_fchmod fd MODE_FILE)) (\<lambda>_.
        bindI (errnoI env (sys_write_all fd 0 bs)) (\<lambda>_.
        bindI (errnoI env (sys_sync_all fd)) (\<lambda>_.
        bindI (errnoI env (sys_rename directory temporary name)) (\<lambda>_.
          errnoI env (sys_fsync_dir directory))))))
       (sys_unlink directory temporary)"

definition write_atomic_replacing :: "env \<Rightarrow> path \<Rightarrow> string \<Rightarrow> bytes \<Rightarrow> unit io" where
  "write_atomic_replacing env directory name bs =
     (let temporary = replace_temporary env name in
      bindI (sys_unlink directory temporary) (\<lambda>_.
      bindI (errnoI env (sys_create_excl env directory temporary MODE_FILE)) (\<lambda>fd.
        publish_replacement env directory fd temporary name bs)))"

definition child_names :: "env \<Rightarrow> path \<Rightarrow> string list io" where
  "child_names env directory =
     bindI (errnoI env (sys_read_dir directory)) (\<lambda>entries.
     bindI (liftR (mapR (\<lambda>n. if utf8_ok n then Inr n else Inl (Corrupt ''non-UTF8 journal name'')) entries))
       (\<lambda>names. returnI (sort (filter (\<lambda>n. n \<notin> {''.'', ''..''}) names))))"

section \<open>Removing a directory\<close>

definition remove_failed_transaction :: "env \<Rightarrow> path \<Rightarrow> string \<Rightarrow> unit io" where
  "remove_failed_transaction env root child =
     bindI (open_transaction env root child) (\<lambda>directory.
     bindI (child_names env directory) (\<lambda>names.
     bindI (forI (\<lambda>name. errnoI env (sys_unlink directory name)) names) (\<lambda>_.
     bindI (errnoI env (sys_fsync_dir directory)) (\<lambda>_.
     bindI (errnoI env (sys_rmdir root child)) (\<lambda>_. errnoI env (sys_fsync_dir root))))))"

definition cleanup_private_child :: "env \<Rightarrow> string \<Rightarrow> string \<Rightarrow> unit io" where
  "cleanup_private_child env root_path child =
     bindI (open_existing_root env root_path) (\<lambda>root.
     bindI (open_transaction env root child) (\<lambda>directory.
     bindI (child_names env directory) (\<lambda>names.
     bindI (forI (\<lambda>name.
        bindI (errnoI env (sys_open_read directory name)) (\<lambda>fd.
        bindI (verify env fd False True) (\<lambda>_. errnoI env (sys_unlink directory name)))) names) (\<lambda>_.
     bindI (errnoI env (sys_fsync_dir directory)) (\<lambda>_.
     bindI (errnoI env (sys_rmdir root child)) (\<lambda>_. errnoI env (sys_fsync_dir root)))))))"

section \<open>Directories as values\<close>

definition dir_ok :: "directory \<Rightarrow> bool" where
  "dir_ok d \<longleftrightarrow> bt_ok (di_entries d)
     \<and> (\<forall>n\<in>fst ` set (di_entries d). utf8_ok n)"

lemma dir_ok_ins [simp]: "dir_ok d \<Longrightarrow> utf8_ok n \<Longrightarrow> dir_ok (ins_entry n e d)"
  by (simp add: dir_ok_def ins_entry_def bt_ok_insert bt_insert_set)

lemma entries_eqI:
  assumes "bt_ok (di_entries d)" "bt_ok (di_entries d')" "di_stat d = di_stat d'"
    "\<And>n. find_entry d n = find_entry d' n"
  shows "d = (d' :: directory)"
  using bt_ext [OF assms(1,2,4)] assms(3) by simp

lemma entry_ops_stat [simp]: "di_stat (ins_entry n e d) = di_stat d" "di_stat (rem_entry n d) = di_stat d"
  by (simp_all add: ins_entry_def rem_entry_def)

lemma entry_ops_ok [simp]:
  "bt_ok (di_entries d) \<Longrightarrow> bt_ok (di_entries (ins_entry n e d))"
  "bt_ok (di_entries d) \<Longrightarrow> bt_ok (di_entries (rem_entry n d))"
  by (simp_all add: ins_entry_def rem_entry_def bt_ok_insert bt_ok_remove)

lemma find_ops [simp]:
  "bt_ok (di_entries d) \<Longrightarrow> find_entry (ins_entry n e d) n' = (if n' = n then Some e else find_entry d n')"
  "find_entry (rem_entry n d) n' = (if n' = n then None else find_entry d n')"
  by (simp_all add: ins_entry_def rem_entry_def bt_insert_map_of bt_remove_map_of)

lemma entry_ops_algebra:
  assumes "bt_ok (di_entries d)"
  shows "ins_entry n e (ins_entry n e' d) = ins_entry n e d"
    "find_entry d n = None \<Longrightarrow> rem_entry n (ins_entry n e d) = d"
    "find_entry d n = None \<Longrightarrow> rem_entry n d = d"
    "rem_entry n (ins_entry n e d) = rem_entry n d"
    "rem_entry n (rem_entry n d) = rem_entry n d"
    "n \<noteq> n' \<Longrightarrow> rem_entry n (ins_entry n' e d) = ins_entry n' e (rem_entry n d)"
    "n = n' \<Longrightarrow> ins_entry n' e (rem_entry n d) = ins_entry n' e d"
  using assms by (auto intro!: entries_eqI)

lemma map_file_ins [simp]:
  "bt_ok (di_entries d) \<Longrightarrow> map_file n f (ins_entry n (FileE x) d) = ins_entry n (FileE (f x)) d"
  by (simp add: map_file_def entry_ops_algebra)

section \<open>Publication\<close>

text \<open>The file that \<^verbatim>\<open>write_record\<close> and \<^verbatim>\<open>write_atomic_replacing\<close> publish.\<close>

definition record_file :: "env \<Rightarrow> bytes \<Rightarrow> disk_file" where
  "record_file env bs =
     \<lparr>fl_stat = \<lparr>st_uid = en_euid env, st_mode = S_IFREG OR MODE_FILE, st_nlink = 1\<rparr>,
      fl_data = bs, fl_synced = True\<rparr>"

lemma fchmod_new_file:
  "(S_IFREG OR (MODE_FILE AND NOT u)) AND S_IFMT OR MODE_FILE = S_IFREG OR MODE_FILE"
proof -
  have "(S_IFREG OR (MODE_FILE AND NOT u)) AND S_IFMT
      = (S_IFREG AND S_IFMT) OR ((MODE_FILE AND S_IFMT) AND NOT u)"
    by (simp only: bit.conj_disj_distrib bit.conj_disj_distrib2 ac_simps)
  then show ?thesis by (simp add: mode_defs)
qed

lemma record_file_ok [simp]: "stat_ok env False (fl_stat (record_file env bs))"
  "st_nlink (fl_stat (record_file env bs)) = 1" "fl_data (record_file env bs) = bs"
  "fl_synced (record_file env bs)"
  by (simp_all add: stat_ok_def record_file_def mode_defs)

lemma overwrite_empty [simp]: "overwrite 0 bs [] = bs"
  by (simp add: overwrite_def)

lemma not_json_if_last: "last s \<noteq> CHR ''n'' \<Longrightarrow> \<not> ends_with s ''.json''"
  by (metis append_take_drop_id ends_with_def last_append last_ConsL last_ConsR list.distinct(1))

lemma record_names [simp]: "record_temporary env n \<noteq> record_name m" "record_name m \<noteq> record_temporary env n"
  "\<not> ends_with (record_temporary env n) ''.json''" "ends_with (record_name m) ''.json''"
proof -
  show r: "ends_with (record_name m) ''.json''"
    by (simp add: record_name_def)
  show t: "\<not> ends_with (record_temporary env n) ''.json''"
    by (rule not_json_if_last) (simp_all add: record_temporary_def show_nat_last digit_char_not_letter)
  from r t show "record_temporary env n \<noteq> record_name m" "record_name m \<noteq> record_temporary env n" by metis+
qed

text \<open>
  What \<^verbatim>\<open>write_record\<close> can leave behind: the directory as it was, the directory with one more
  temporary file, or the directory with the complete, synchronised record.
\<close>

definition write_result :: "env \<Rightarrow> string \<Rightarrow> string \<Rightarrow> bytes \<Rightarrow> directory \<Rightarrow> unit outcome \<Rightarrow> directory \<Rightarrow> bool" where
  "write_result env final_name temporary bs d r d' \<longleftrightarrow>
     (r = Done () \<and> d' = ins_entry final_name (FileE (record_file env bs)) d)
     \<or> (r \<noteq> Done () \<and> (d' = d \<or> (\<exists>f. d' = ins_entry temporary (FileE f) d)
          \<or> d' = ins_entry final_name (FileE (record_file env bs)) d))"

lemma write_result_intros:
  "write_result env n t bs d (Done ()) (ins_entry n (FileE (record_file env bs)) d)"
  "r \<noteq> Done () \<Longrightarrow> write_result env n t bs d r d"
  "r \<noteq> Done () \<Longrightarrow> write_result env n t bs d r (ins_entry t (FileE f) d)"
  "r \<noteq> Done () \<Longrightarrow> write_result env n t bs d r (ins_entry n (FileE (record_file env bs)) d)"
  by (auto simp: write_result_def)

lemma new_file_published:
  "(new_file env MODE_FILE)\<lparr>fl_stat := (fl_stat (new_file env MODE_FILE))\<lparr>st_mode :=
     (st_mode (fl_stat (new_file env MODE_FILE)) AND S_IFMT) OR MODE_FILE\<rparr>\<rparr>
   = (record_file env [])\<lparr>fl_synced := False\<rparr>"
  by (simp add: new_file_def record_file_def fchmod_new_file)

lemma record_file_written:
  "(write_bytes 0 bs ((record_file env [])\<lparr>fl_synced := b\<rparr>))\<lparr>fl_synced := True\<rparr> = record_file env bs"
  by (simp add: write_bytes_def record_file_def)

text \<open>The destructor finds the temporary file, or finds that the rename has taken it away.\<close>

lemma cleanup_dwp:
  assumes "bt_ok (di_entries d)" "find_entry d t = None" "t \<noteq> n"
  shows "dwp False p (sys_unlink p t)
      (\<lambda>r'. write_result env n t bs d (if r' = Crashed then Crashed else Failed e)) (ins_entry t (FileE f) d)"
    "dwp False p (sys_unlink p t)
      (\<lambda>r'. write_result env n t bs d (if r' = Crashed then Crashed else Failed e))
      (ins_entry n (FileE (record_file env bs)) d)"
  by (rule dwp_unlink; simp add: assms entry_ops_algebra write_result_intros)+

lemma publish_temporary_dwp:
  assumes "bt_ok (di_entries d)" "find_entry d t = None" "find_entry d n \<noteq> Some DirectoryE" "t \<noteq> n" "n \<noteq> t"
  shows "dwp c p (publish_temporary env p (FdFile p t) t n bs)
    (\<lambda>r d'. write_result env n t bs d r d' \<and> (c \<longrightarrow> r = Done ()))
    (ins_entry t (FileE (new_file env MODE_FILE)) d)"
  unfolding publish_temporary_def
  by ((rule dwp_rules)+; (simp add: assms new_file_published record_file_written entry_ops_algebra
      write_result_intros cleanup_dwp)?)+

lemma publish_replacement_dwp:
  assumes "bt_ok (di_entries d)" "find_entry d t = None" "find_entry d n \<noteq> Some DirectoryE" "t \<noteq> n" "n \<noteq> t"
  shows "dwp c p (publish_replacement env p (FdFile p t) t n bs)
    (\<lambda>r d'. write_result env n t bs d r d' \<and> (c \<longrightarrow> r = Done ()))
    (ins_entry t (FileE (new_file env MODE_FILE)) d)"
  unfolding publish_replacement_def
  by ((rule dwp_rules)+; (simp add: assms new_file_published record_file_written entry_ops_algebra
      write_result_intros cleanup_dwp)?)+
lemma write_record_dwp:
  assumes d: "bt_ok (di_entries d)" "find_entry d (record_name sequence) = None"
  shows "dwp c p (write_record env p sequence bs)
    (\<lambda>r d'. write_result env (record_name sequence) (record_temporary env sequence) bs d r d'
       \<and> (c \<and> find_entry d (record_temporary env sequence) = None \<longrightarrow> r = Done ())
       \<and> (c \<longrightarrow> r \<noteq> Crashed)) d" (is "dwp c p _ ?R d")
proof -
  let ?t = "record_temporary env sequence" and ?n = "record_name sequence"
  have publish: "dwp c p (bindI (publish_temporary env p (FdFile p ?t) ?t ?n bs) (\<lambda>_.
          fault_check FaultDirectorySync)) ?R (ins_entry ?t (FileE (new_file env MODE_FILE)) d)"
    if "find_entry d ?t = None"
    by (rule dwp_bind, rule dwp_mono [OF publish_temporary_dwp])
      (use d that in \<open>auto split: outcome.splits simp: write_result_def intro!: dwp_fault_check\<close>)
  have "dwp c p (bindI (errnoI env (sys_create_excl env p ?t MODE_FILE)) (\<lambda>fd.
        bindI (publish_temporary env p fd ?t ?n bs) (\<lambda>_. fault_check FaultDirectorySync))) ?R d"
    by (rule dwp_bind, rule dwp_errnoI, rule dwp_create_excl)
      (use publish in \<open>auto simp: write_result_intros\<close>)
  then show ?thesis
    unfolding write_record_def Let_def
    by (intro dwp_bind dwp_open_read) (use d(2) in \<open>auto simp: write_result_intros\<close>)
qed

lemma write_atomic_replacing_dwp:
  fixes name env
  defines "t \<equiv> replace_temporary env name"
  assumes d: "bt_ok (di_entries d)" "find_entry d name \<noteq> Some DirectoryE" "find_entry d t \<noteq> Some DirectoryE"
    and t: "name \<noteq> t"
  shows "dwp c p (write_atomic_replacing env p name bs)
    (\<lambda>r d'. (write_result env name t bs (rem_entry t d) r d' \<or> r \<noteq> Done () \<and> d' = d)
       \<and> (c \<longrightarrow> r = Done ())) d" (is "dwp c p _ ?R d")
proof -
  have create: "dwp c p (bindI (errnoI env (sys_create_excl env p t MODE_FILE)) (\<lambda>fd.
        publish_replacement env p fd t name bs)) ?R d1"
    if "d1 = rem_entry t d \<or> \<not> c \<and> d1 = d" for d1
  proof (rule dwp_bind, rule dwp_errnoI, rule dwp_create_excl, goal_cases)
    case 4
    then have "d1 = rem_entry t d" using that entry_ops_algebra(3) [OF d(1), of t] by auto
    then show ?case
      using dwp_mono [OF publish_replacement_dwp [of d1 t name c p env bs]] d t by simp
  qed (use that in \<open>auto simp: write_result_intros\<close>)
  show ?thesis
    unfolding write_atomic_replacing_def Let_def t_def [symmetric]
    by (rule dwp_bind, rule dwp_unlink) (use create d entry_ops_algebra(3) [OF d(1), of t] in auto)
qed

section \<open>Reading\<close>

definition readable :: "env \<Rightarrow> nat \<Rightarrow> disk_file \<Rightarrow> bool" where
  "readable env maximum f \<longleftrightarrow> stat_ok env False (fl_stat f) \<and> st_nlink (fl_stat f) = 1
     \<and> length (fl_data f) \<le> maximum"

lemma dwp_verify_file:
  assumes "\<not> c \<Longrightarrow> \<forall>e. R (Failed e) d" "\<not> c \<Longrightarrow> R Crashed d"
    and "find_entry d n = Some (FileE f)"
    and "stat_ok env False (fl_stat f) \<Longrightarrow> st_nlink (fl_stat f) = 1 \<Longrightarrow> R (Done ()) d"
    and "\<not> (stat_ok env False (fl_stat f) \<and> st_nlink (fl_stat f) = 1)
      \<Longrightarrow> R (Failed (UnsafePath ''ownership, mode, type, or link count'')) d"
  shows "dwp c p (verify env (FdFile p n) False True) R d"
  unfolding verify_def
  by (rule dwp_bind, rule dwp_errnoI, rule dwp_fstat)
    (use assms in \<open>auto simp: stat_ok_def intro!: dwp_rules\<close>)

lemma read_open_dwp:
  assumes "find_entry d n = Some (FileE f)"
  shows "dwp c p (read_open env (FdFile p n) maximum)
    (\<lambda>r d'. d' = d \<and> (\<forall>bs. r = Done bs \<longrightarrow> readable env maximum f \<and> bs = fl_data f)
       \<and> (c \<and> readable env maximum f \<longrightarrow> r = Done (fl_data f))
       \<and> (c \<longrightarrow> r \<noteq> Crashed)) d"
  unfolding read_open_def
  by (rule dwp_bind, rule dwp_verify_file [OF _ _ assms], (rule dwp_rules)?, (rule dwp_rules)?)
    (use assms in \<open>auto simp: readable_def intro!: dwp_rules\<close>)

lemma read_bounded_dwp:
  "dwp c p (read_bounded env p n maximum)
    (\<lambda>r d'. d' = d \<and> (\<forall>bs. r = Done bs \<longrightarrow>
         (\<exists>f. find_entry d n = Some (FileE f) \<and> readable env maximum f \<and> bs = fl_data f))
       \<and> (\<forall>f. c \<and> find_entry d n = Some (FileE f) \<and> readable env maximum f \<longrightarrow> r = Done (fl_data f))
       \<and> (c \<longrightarrow> r \<noteq> Crashed)) d" (is "dwp c p _ ?R d")
proof -
  have regular: "dwp c p (read_open env (FdFile p n) maximum) ?R d" if "find_entry d n = Some (FileE f)" for f
    by (rule dwp_mono [OF read_open_dwp [OF that]]) (use that in auto)
  have dir: "dwp c p (read_open env (FdDir q) maximum) ?R d" if "find_entry d n = Some DirectoryE" for q
    unfolding read_open_def verify_def
    by (intro dwp_rules) (use that in \<open>auto intro!: dwp_rules split: sum.splits\<close>)
  show ?thesis
    unfolding read_bounded_def
    by (rule dwp_bind, rule dwp_errnoI, rule dwp_open_read)
      (use regular dir in \<open>auto split: option.splits dir_entry.splits\<close>)
qed

lemma read_optional_bounded_dwp:
  "dwp c p (read_optional_bounded env p n maximum)
    (\<lambda>r d'. d' = d \<and> (\<forall>bs. r = Done (Some bs) \<longrightarrow>
         (\<exists>f. find_entry d n = Some (FileE f) \<and> readable env maximum f \<and> bs = fl_data f))
       \<and> (\<forall>f. c \<and> find_entry d n = Some (FileE f) \<and> readable env maximum f \<longrightarrow> r = Done (Some (fl_data f)))
       \<and> (c \<and> find_entry d n = None \<longrightarrow> r = Done None)
       \<and> (c \<and> r = Done None \<longrightarrow> find_entry d n = None)
       \<and> (c \<longrightarrow> r \<noteq> Crashed)) d" (is "dwp c p _ ?R d")
proof -
  have regular: "dwp c p (bindI (read_open env (FdFile p n) maximum) (\<lambda>bs. returnI (Some bs))) ?R d"
    if "find_entry d n = Some (FileE f)" for f
    by (rule dwp_bind, rule dwp_mono [OF read_open_dwp [OF that]])
      (use that in \<open>auto split: outcome.splits intro!: dwp_rules\<close>)
  have dir: "dwp c p (bindI (read_open env (FdDir q) maximum) (\<lambda>bs. returnI (Some bs))) ?R d"
    if "find_entry d n = Some DirectoryE" for q
    unfolding read_open_def verify_def
    by (intro dwp_rules) (use that in \<open>auto intro!: dwp_rules split: sum.splits\<close>)
  show ?thesis
    unfolding read_optional_bounded_def
    by (rule dwp_bind, rule dwp_open_read)
      (use regular dir in \<open>auto split: option.splits dir_entry.splits errno.splits intro!: dwp_rules\<close>)
qed

lemma child_names_dwp:
  assumes "bt_ok (di_entries d)"
  shows "dwp c p (child_names env p)
    (\<lambda>r d'. d' = d \<and> (\<forall>ns. r = Done ns \<longrightarrow>
          ns = filter (\<lambda>n. n \<notin> {''.'', ''..''}) (bt_keys (di_entries d)) \<and> (\<forall>n\<in>fst ` set (di_entries d). utf8_ok n))
       \<and> (c \<and> dir_ok d \<longrightarrow>
            r = Done (filter (\<lambda>n. n \<notin> {''.'', ''..''}) (bt_keys (di_entries d))))
       \<and> (c \<longrightarrow> r \<noteq> Crashed)) d"
proof -
  let ?u = "\<lambda>n. if utf8_ok n then Inr n else Inl (Corrupt ''non-UTF8 journal name'')"
  have checked: "mapR ?u xs = Inr ys \<longleftrightarrow> ys = xs \<and> (\<forall>n\<in>set xs. utf8_ok n)" for xs ys
    by (induction xs arbitrary: ys) (auto simp: bindR_eq_Inr)
  have sorted: "sort (filter P (bt_keys (di_entries d))) = filter P (bt_keys (di_entries d))" for P
    using assms by (simp add: bt_ok_def strict_sorted_iff sorted_wrt_filter sorted_sort_id)
  have dots: "utf8_ok ''.''" "utf8_ok ''..''" by code_simp+
  let ?r = "mapR ?u (''.'' # ''..'' # bt_keys (di_entries d))"
  have ok: "?r = Inr ys \<longleftrightarrow> ys = ''.'' # ''..'' # bt_keys (di_entries d)
      \<and> (\<forall>n\<in>fst ` set (di_entries d). utf8_ok n)" for ys
    unfolding checked using dots by (simp add: bt_keys_def del: utf8_ok.simps)
  have bad: "\<not> dir_ok d" if "?r = Inl e" for e
    using ok [of "''.'' # ''..'' # bt_keys (di_entries d)"] that by (auto simp: dir_ok_def)
  show ?thesis
    unfolding child_names_def
    by (rule dwp_bind, rule dwp_errnoI, rule dwp_read_dir, simp, simp, simp del: mapR.simps,
        rule dwp_bind, rule dwp_liftR)
      (use bad in \<open>auto simp: ok sorted simp del: mapR.simps utf8_ok.simps intro!: dwp_rules\<close>)
qed

lemma ascii_digit: "d < 10 \<Longrightarrow> between 0 0x7F (digit_char d)"
  by (simp add: between_def digit_char_def)

lemma ascii_show_nat: "list_all (between 0 0x7F) (show_nat n)"
proof (induction n rule: show_nat.induct)
  case (1 n)
  then show ?case by (subst show_nat.simps) (simp add: ascii_digit)
qed

lemma ascii_pad020: "list_all (between 0 0x7F) s \<Longrightarrow> list_all (between 0 0x7F) (pad020 s)"
  by (auto simp: pad020_def list_all_iff between_def)

lemma record_names_utf8 [simp]: "utf8_ok (record_name m)" "utf8_ok (record_temporary env m)"
  unfolding record_name_def record_temporary_def
  by (rule ascii_utf8; simp add: ascii_pad020 ascii_show_nat; simp add: between_def)+

section \<open>Properties\<close>

text \<open>The entries of a directory that a journal reads.\<close>

definition json_files :: "directory \<Rightarrow> (string, dir_entry) btree_map" where
  "json_files d = filter (\<lambda>(n, _). ends_with n ''.json'') (di_entries d)"

lemma json_files_ins:
  "\<not> ends_with n ''.json'' \<Longrightarrow> bt_ok (di_entries d) \<Longrightarrow> json_files (ins_entry n e d) = json_files d"
  "ends_with n ''.json'' \<Longrightarrow> bt_ok (di_entries d) \<Longrightarrow> json_files (ins_entry n e d) = bt_insert n e (json_files d)"
  by (simp_all add: json_files_def ins_entry_def filter_bt_insert)

lemma write_result_json:
  assumes "write_result env (record_name sequence) (record_temporary env sequence) bs d r d'" "bt_ok (di_entries d)"
  shows "json_files d' = json_files d
    \<or> json_files d' = bt_insert (record_name sequence) (FileE (record_file env bs)) (json_files d)"
  using assms by (auto simp: write_result_def json_files_ins)

definition example_env :: env where
  "example_env = \<lparr>en_strerror = (\<lambda>e. ''error''), en_pid = 7, en_euid = 0, en_umask = 0x12\<rparr>"

definition example_directory :: directory where
  "example_directory = \<lparr>di_stat = \<lparr>st_uid = 0, st_mode = S_IFDIR OR MODE_DIR, st_nlink = 2\<rparr>, di_entries = []\<rparr>"

definition example_world :: "fault_point \<Rightarrow> sys_outcome list \<Rightarrow> directory \<Rightarrow> world" where
  "example_world fault os d = \<lparr>wd_dirs = [[''journal''] \<mapsto> d], wd_locks = {}, wd_fault = fault, wd_sys = os\<rparr>"



text \<open>
  A temporary file left by a crash blocks its sequence number: a later writer with the
  same process id fails with \<^verbatim>\<open>EEXIST\<close> and changes nothing, and no operation of the journal ever
  removes the file. (\<^verbatim>\<open>write_atomic_replacing\<close> unlinks a stale temporary first.)
\<close>

theorem write_record_stale_temporary:
  assumes "wd_dirs w p = Some d" "find_entry d (record_name sequence) = None"
    and "find_entry d (record_temporary env sequence) \<noteq> None" "wd_sys w = []"
  shows "write_record env p sequence bs w = (Failed (Io (en_strerror env EXIST)), w)"
  using assms
  by (auto simp: write_record_def Let_def bindI_def sys_open_read_def sys_def entry_at_def errnoI_def
      sys_create_excl_def failI_def)

theorem write_record_stale_temporary_witness:
  "\<exists>w. write_record example_env [''journal''] 1 ''{}'' w = (Failed (Io ''error''), w)"
proof -
  let ?t = "record_temporary example_env 1"
  let ?d = "ins_entry ?t (FileE (new_file example_env MODE_FILE)) example_directory"
  let ?w = "example_world NoFault [] ?d"
  have "wd_dirs ?w [''journal''] = Some ?d" "find_entry ?d (record_name 1) = None" "find_entry ?d ?t \<noteq> None"
    "wd_sys ?w = []"
    by (simp_all add: example_world_def example_directory_def)
  from write_record_stale_temporary [OF this, of "''{}''"] show ?thesis
    by (auto simp: example_env_def)
qed

text \<open>
  \<^verbatim>\<open>write_atomic_replacing\<close> leaves the state file as it was or complete and synchronised
  with the new content, whatever fails and wherever the process stops; no other file but its own
  temporary changes. Success means the new content, and without failures it succeeds even after an
  earlier crash has left the temporary file behind.
\<close>

theorem write_atomic_replacing_atomic:
  assumes "wd_dirs w p = Some d" "bt_ok (di_entries d)" "find_entry d name \<noteq> Some DirectoryE"
    and "find_entry d (replace_temporary env name) \<noteq> Some DirectoryE"
    and "write_atomic_replacing env p name bs w = (r, w')"
  shows "\<exists>d'. wd_dirs w' = (wd_dirs w)(p \<mapsto> d')
    \<and> (find_entry d' name = find_entry d name \<or> find_entry d' name = Some (FileE (record_file env bs)))
    \<and> (r = Done () \<longrightarrow> find_entry d' name = Some (FileE (record_file env bs)))
    \<and> (\<forall>n. n \<noteq> name \<and> n \<noteq> replace_temporary env name \<longrightarrow> find_entry d' n = find_entry d n)
    \<and> (calm w \<longrightarrow> r = Done ())"
proof -
  have "name \<noteq> replace_temporary env name"
    by (metis append_Cons append_self_conv2 length_append length_Cons less_add_Suc1 less_irrefl
        replace_temporary_def add.commute add_Suc_right)
  from write_atomic_replacing_dwp [OF assms(2-4) this, of "calm w" p bs]
  obtain d' where d': "wd_dirs w' = (wd_dirs w)(p \<mapsto> d')" "calm w \<longrightarrow> r = Done ()"
    "write_result env name (replace_temporary env name) bs (rem_entry (replace_temporary env name) d) r d'
      \<or> r \<noteq> Done () \<and> d' = d"
    by (rule dwpD [OF _ assms(1)]) (use assms(5) in auto)
  then show ?thesis
    using assms(2) \<open>name \<noteq> _\<close> by (auto simp: write_result_def)
qed

theorem write_atomic_replacing_atomic_witness:
  "\<exists>w' d'. write_atomic_replacing example_env [''journal''] ''state.json'' ''{}''
       (example_world NoFault [] example_directory) = (Done (), w')
     \<and> wd_dirs w' [''journal''] = Some d'
     \<and> find_entry d' ''state.json'' = Some (FileE (record_file example_env ''{}''))"
proof -
  let ?w = "example_world NoFault [] example_directory"
  have d: "wd_dirs ?w [''journal''] = Some example_directory" by (simp add: example_world_def)
  have e: "bt_ok (di_entries example_directory)" "find_entry example_directory n \<noteq> Some DirectoryE" for n
    by (simp_all add: example_directory_def)
  obtain r w' where r: "write_atomic_replacing example_env [''journal''] ''state.json'' ''{}'' ?w = (r, w')"
    by (metis surj_pair)
  have "calm ?w" by (simp add: calm_def example_world_def)
  then show ?thesis
    using write_atomic_replacing_atomic [OF d e(1) e(2) e(2) r] r by auto
qed

end
