(* ===== verification/State_Store.thy ===== *)
theory State_Store
  imports State_Fs Core_Journal
begin

text \<open>
  \<^verbatim>\<open>crates/dnfast-state/src/{model,store}.rs\<close>: the transaction journal, one directory per
  transaction with one canonical JSON record per phase. serde\_json is the argument \<open>S\<close>.
\<close>

section \<open>The records\<close>

definition MAX_RECORD_BYTES :: nat where
  "MAX_RECORD_BYTES = 8 * 1024 * 1024"

datatype transaction_id = TransactionId (tid_str: string)

definition transaction_id_parse :: "string \<Rightarrow> (state_error, transaction_id) result" where
  "transaction_id_parse value =
     (let shape = length value = 36
        \<and> list_all (\<lambda>(index, byte). if index \<in> {8, 13, 18, 23} then byte = CHR ''-'' else is_lower_hex byte)
            (List.enumerate 0 value) in
      if \<not> shape \<or> value ! 14 \<noteq> CHR ''7'' \<or> value ! 19 \<notin> set ''89ab''
      then Inl (Corrupt ''transaction id is not canonical UUIDv7'')
      else Inr (TransactionId value))"

record callback_summary =
  cb_pretrans :: u64
  cb_pre :: u64
  cb_post :: u64
  cb_triggers :: u64
  cb_payload :: u64
  cb_database :: u64
  cb_script_log_truncated :: bool

record native_result =
  nr_return_code :: i32
  nr_callbacks :: callback_summary
  nr_problems :: "string list"

record reconcile_result =
  rr_inventory_sha256 :: string
  rr_success :: bool
  rr_changed_packages :: u64

record journal_entry =
  je_schema_version :: u32
  je_transaction_id :: string
  je_plan_sha256 :: string
  je_sequence :: u64
  je_state :: journal_state
  je_native_result :: "native_result option"
  je_reconciliation :: "reconcile_result option"

datatype recovery_action = CleanupRevalidateAndReapprove | ReconcileOnly | Terminal reconcile_result

fun state_debug :: "journal_state \<Rightarrow> string" where
  "state_debug Prepared = ''Prepared''"
| "state_debug Started = ''Started''"
| "state_debug RpmResult = ''RpmResult''"
| "state_debug Reconciled = ''Reconciled''"

definition validate_digest :: "string \<Rightarrow> (state_error, unit) result" where
  "validate_digest value =
     (if length value = 64 \<and> list_all is_lower_hex value then Inr ()
      else Inl (Corrupt ''invalid SHA-256''))"

definition payload_ok :: "journal_entry \<Rightarrow> bool" where
  "payload_ok e = (case je_state e of
       Prepared \<Rightarrow> je_native_result e = None \<and> je_reconciliation e = None
     | Started \<Rightarrow> je_native_result e = None \<and> je_reconciliation e = None
     | RpmResult \<Rightarrow> je_native_result e \<noteq> None \<and> je_reconciliation e = None
     | Reconciled \<Rightarrow> je_native_result e = None \<and> je_reconciliation e \<noteq> None)"

definition problems_exceed :: "native_result \<Rightarrow> bool" where
  "problems_exceed r \<longleftrightarrow> length (nr_problems r) > 16
     \<or> list_ex (\<lambda>problem. length problem > MAX_STRING_BYTES) (nr_problems r)"

definition validate_entry :: "journal_entry \<Rightarrow> (state_error, unit) result" where
  "validate_entry e =
     (if je_schema_version e \<noteq> 1 then Inl (Corrupt ''unsupported schema'')
      else bindR (transaction_id_parse (je_transaction_id e)) (\<lambda>_.
      bindR (validate_digest (je_plan_sha256 e)) (\<lambda>_.
      if \<not> payload_ok e then Inl (Corrupt ''state payload mismatch'')
      else if (case je_native_result e of None \<Rightarrow> False | Some r \<Rightarrow> problems_exceed r)
      then Inl (Limit ''native problems'')
      else Inr ())))"

definition legal_transition :: "journal_state \<Rightarrow> journal_state \<Rightarrow> bool" where
  "legal_transition previous next \<longleftrightarrow>
     (previous, next) \<in> {(Prepared, Started), (Started, RpmResult), (RpmResult, Reconciled)}"

definition validate_pair :: "journal_entry \<Rightarrow> journal_entry \<Rightarrow> (state_error, unit) result" where
  "validate_pair previous next =
     (let same = je_transaction_id previous = je_transaction_id next
            \<and> je_plan_sha256 previous = je_plan_sha256 next in
      if \<not> same \<or> \<not> legal_transition (je_state previous) (je_state next)
      then Inl (Corrupt ''invalid persisted transition'') else Inr ())"

definition corrupt :: "domain_error \<Rightarrow> state_error" where
  "corrupt e = Corrupt (domain_error_display e)"

definition canonical_bytes :: "(journal_entry, 'j) serde \<Rightarrow> journal_entry \<Rightarrow> (state_error, bytes) result" where
  "canonical_bytes S e = map_err corrupt (canonical_serialize S e)"

section \<open>Loading\<close>

definition decode_record ::
  "(journal_entry, 'j) serde \<Rightarrow> string \<Rightarrow> u64 set \<Rightarrow> bytes \<Rightarrow> (state_error, journal_entry) result" where
  "decode_record S name sequences bs =
     bindR (map_err corrupt (canonical_parse S bs)) (\<lambda>e.
     bindR (canonical_bytes S e) (\<lambda>canonical.
     if canonical \<noteq> bs then Inl (Corrupt ''record is not canonical JSON'')
     else bindR (validate_entry e) (\<lambda>_.
       if name \<noteq> record_name (je_sequence e) \<or> je_sequence e \<in> sequences
       then Inl (Corrupt ''duplicate or mismatched sequence'')
       else Inr e)))"

fun load_records ::
  "env \<Rightarrow> (journal_entry, 'j) serde \<Rightarrow> path \<Rightarrow> u64 set \<Rightarrow> string list \<Rightarrow> journal_entry list io" where
  "load_records env S directory sequences [] = returnI []"
| "load_records env S directory sequences (name # names) =
     bindI (read_bounded env directory name MAX_RECORD_BYTES) (\<lambda>bs.
     bindI (liftR (decode_record S name sequences bs)) (\<lambda>e.
     bindI (load_records env S directory (insert (je_sequence e) sequences) names) (\<lambda>es.
       returnI (e # es))))"

definition check_sequence :: "journal_entry list \<Rightarrow> (state_error, unit) result" where
  "check_sequence records =
     (if records = [] \<or> list_ex (\<lambda>(index, e). je_sequence e \<noteq> of_nat index) (List.enumerate 0 records)
      then Inl (Corrupt ''torn or missing journal sequence'')
      else forR (\<lambda>(previous, next). validate_pair previous next) (zip records (tl records)))"

definition load_entries :: "env \<Rightarrow> (journal_entry, 'j) serde \<Rightarrow> path \<Rightarrow> journal_entry list io" where
  "load_entries env S directory =
     bindI (child_names env directory) (\<lambda>names.
     bindI (load_records env S directory {} (filter (\<lambda>n. ends_with n ''.json'') names)) (\<lambda>records.
       let records = sort_key je_sequence records in
       bindI (liftR (check_sequence records)) (\<lambda>_. returnI records)))"

section \<open>Publishing and transitions\<close>

definition publish :: "env \<Rightarrow> (journal_entry, 'j) serde \<Rightarrow> path \<Rightarrow> journal_entry \<Rightarrow> unit io" where
  "publish env S directory e =
     bindI (liftR (validate_entry e)) (\<lambda>_.
     bindI (liftR (canonical_bytes S e)) (\<lambda>bs.
     if length bs > MAX_RECORD_BYTES then failI (Limit ''record'')
     else write_record env directory (je_sequence e) bs))"

definition next_entry ::
  "journal_entry \<Rightarrow> u64 \<Rightarrow> journal_state \<Rightarrow> native_result option \<Rightarrow> reconcile_result option \<Rightarrow> journal_entry" where
  "next_entry previous sequence next native reconciliation =
     \<lparr>je_schema_version = 1, je_transaction_id = je_transaction_id previous,
      je_plan_sha256 = je_plan_sha256 previous, je_sequence = sequence, je_state = next,
      je_native_result = native, je_reconciliation = reconciliation\<rparr>"

definition transition ::
  "env \<Rightarrow> (journal_entry, 'j) serde \<Rightarrow> path \<Rightarrow> journal_state \<Rightarrow> native_result option
     \<Rightarrow> reconcile_result option \<Rightarrow> unit io" where
  "transition env S directory next native reconciliation =
     bindI (load_entries env S directory) (\<lambda>entries.
       if entries = [] then failI (Corrupt ''journal is empty'')
       else let previous = last entries in
         if \<not> legal_transition (je_state previous) next
         then failI (Transition (state_debug (je_state previous) @ '' -> '' @ state_debug next))
         else case checked_add (je_sequence previous) 1 of
           None \<Rightarrow> failI (Corrupt ''sequence overflow'')
         | Some sequence \<Rightarrow> publish env S directory (next_entry previous sequence next native reconciliation))"

definition mark_started :: "env \<Rightarrow> (journal_entry, 'j) serde \<Rightarrow> path \<Rightarrow> unit io" where
  "mark_started env S directory = transition env S directory Started None None"

definition record_rpm_result_with_problems ::
  "env \<Rightarrow> (journal_entry, 'j) serde \<Rightarrow> path \<Rightarrow> i32 \<Rightarrow> callback_summary \<Rightarrow> string list \<Rightarrow> unit io" where
  "record_rpm_result_with_problems env S directory return_code callbacks problems =
     transition env S directory RpmResult
       (Some \<lparr>nr_return_code = return_code, nr_callbacks = callbacks, nr_problems = problems\<rparr>) None"

definition record_rpm_result ::
  "env \<Rightarrow> (journal_entry, 'j) serde \<Rightarrow> path \<Rightarrow> i32 \<Rightarrow> callback_summary \<Rightarrow> unit io" where
  "record_rpm_result env S directory return_code callbacks =
     record_rpm_result_with_problems env S directory return_code callbacks []"

definition rpm_result_encoded_len ::
  "env \<Rightarrow> (journal_entry, 'j) serde \<Rightarrow> path \<Rightarrow> i32 \<Rightarrow> callback_summary \<Rightarrow> string list \<Rightarrow> nat io" where
  "rpm_result_encoded_len env S directory return_code callbacks problems =
     bindI (load_entries env S directory) (\<lambda>entries.
       if entries = [] then failI (Corrupt ''journal is empty'')
       else let previous = last entries in
         bindI (liftR (canonical_bytes S (next_entry previous (je_sequence previous + 1) RpmResult
           (Some \<lparr>nr_return_code = return_code, nr_callbacks = callbacks, nr_problems = problems\<rparr>) None)))
           (\<lambda>bs. returnI (length bs)))"

definition reconcile :: "env \<Rightarrow> (journal_entry, 'j) serde \<Rightarrow> path \<Rightarrow> reconcile_result \<Rightarrow> unit io" where
  "reconcile env S directory result =
     bindI (liftR (validate_digest (rr_inventory_sha256 result))) (\<lambda>_.
       transition env S directory Reconciled None (Some result))"

section \<open>The store\<close>

definition lock_journal :: "env \<Rightarrow> path \<Rightarrow> path io" where
  "lock_journal env directory =
     bindI (sys_flock_nonblocking directory) (\<lambda>r. case r of
       Inr _ \<Rightarrow> returnI directory
     | Inl WOULDBLOCK \<Rightarrow> failI Busy
     | Inl e \<Rightarrow> failI (Io (en_strerror env e)))"

text \<open>Closing the directory handle releases its lock.\<close>

definition drop_journal :: "path \<Rightarrow> unit io" where
  "drop_journal directory w = (Done (), w\<lparr>wd_locks := wd_locks w - {directory}\<rparr>)"

text \<open>\<open>wd_fault\<close> is the fault plan of the store that was opened last.\<close>

definition store_with_faults :: "env \<Rightarrow> string \<Rightarrow> fault_point \<Rightarrow> path io" where
  "store_with_faults env path faults =
     bindI (open_or_create_root env path) (\<lambda>root. bindI (fault_arm faults) (\<lambda>_. returnI root))"

definition store_open :: "env \<Rightarrow> string \<Rightarrow> path io" where
  "store_open env path = store_with_faults env path fault_none"

definition store_open_system :: "env \<Rightarrow> path io" where
  "store_open_system env =
     (if en_euid env \<noteq> 0 then failI (UnsafePath ''system journal requires root'')
      else store_open env ''/var/lib/dnfast/transactions'')"

definition prepared_entry :: "transaction_id \<Rightarrow> string \<Rightarrow> journal_entry" where
  "prepared_entry ident plan =
     \<lparr>je_schema_version = 1, je_transaction_id = tid_str ident, je_plan_sha256 = plan, je_sequence = 0,
      je_state = Prepared, je_native_result = None, je_reconciliation = None\<rparr>"

definition store_create ::
  "env \<Rightarrow> (journal_entry, 'j) serde \<Rightarrow> path \<Rightarrow> transaction_id \<Rightarrow> string \<Rightarrow> path io" where
  "store_create env S root ident plan =
     bindI (liftR (validate_digest plan)) (\<lambda>_.
     bindI (create_transaction env root (tid_str ident)) (\<lambda>directory.
     bindI (lock_journal env directory) (\<lambda>journal w.
       case publish env S journal (prepared_entry ident plan) w of
         (Done _, w') \<Rightarrow> (Done journal, w')
       | (Crashed, w') \<Rightarrow> (Crashed, w')
       | (Failed e, w') \<Rightarrow>
           bindI (drop_journal journal) (\<lambda>_.
           bindI (remove_failed_transaction env root (tid_str ident)) (\<lambda>_. failI e)) w')))"

definition store_open_transaction :: "env \<Rightarrow> path \<Rightarrow> transaction_id \<Rightarrow> path io" where
  "store_open_transaction env root ident =
     bindI (open_transaction env root (tid_str ident)) (lock_journal env)"

definition transaction_ids :: "env \<Rightarrow> path \<Rightarrow> transaction_id list io" where
  "transaction_ids env root =
     bindI (child_names env root) (\<lambda>names. liftR (mapR transaction_id_parse names))"

section \<open>What a directory holds\<close>

definition good_record :: "env \<Rightarrow> (journal_entry, 'j) serde \<Rightarrow> directory \<Rightarrow> string \<Rightarrow> journal_entry \<Rightarrow> bool" where
  "good_record env S d n e \<longleftrightarrow> n = record_name (je_sequence e) \<and> validate_entry e = Inr ()
     \<and> (\<exists>f. find_entry d n = Some (FileE f) \<and> readable env MAX_RECORD_BYTES f
          \<and> canonical_parse S (fl_data f) = Inr e)"

definition wf_journal :: "journal_entry list \<Rightarrow> bool" where
  "wf_journal es \<longleftrightarrow> es \<noteq> [] \<and> (\<forall>e\<in>set es. validate_entry e = Inr ())
     \<and> (\<forall>i<length es. je_sequence (es ! i) = of_nat i)
     \<and> (\<forall>i. Suc i < length es \<longrightarrow> validate_pair (es ! i) (es ! Suc i) = Inr ())"

text \<open>
  The abstraction of a transaction directory: \<open>holds env S d es\<close> says that the \<^verbatim>\<open>.json\<close> files of \<open>d\<close>
  are the records of the journal \<open>es\<close>, no more and no fewer.
\<close>

definition holds :: "env \<Rightarrow> (journal_entry, 'j) serde \<Rightarrow> directory \<Rightarrow> journal_entry list \<Rightarrow> bool" where
  "holds env S d es \<longleftrightarrow> dir_ok d \<and> wf_journal es
     \<and> fst ` set (json_files d) = (\<lambda>e. record_name (je_sequence e)) ` set es
     \<and> (\<forall>e\<in>set es. good_record env S d (record_name (je_sequence e)) e)"

lemma decode_record_ok:
  "decode_record S n seen bs = Inr e \<longleftrightarrow> canonical_parse S bs = Inr e \<and> validate_entry e = Inr ()
     \<and> n = record_name (je_sequence e) \<and> je_sequence e \<notin> seen"
  by (auto simp: decode_record_def bindR_eq_Inr map_err_eq_Inr canonical_bytes_def canonical_parse_def)

lemma check_sequence_ok:
  assumes "\<forall>e\<in>set es. validate_entry e = Inr ()"
  shows "check_sequence es = Inr u \<longleftrightarrow> wf_journal es"
proof -
  have "list_ex (\<lambda>(index, e). je_sequence e \<noteq> of_nat index) (List.enumerate 0 es)
      \<longleftrightarrow> \<not> (\<forall>i<length es. je_sequence (es ! i) = of_nat i)"
    by (auto simp: list_ex_iff in_set_enumerate_eq)
  moreover have "forR (\<lambda>(previous, next). validate_pair previous next) (zip es (tl es)) = Inr ()
      \<longleftrightarrow> (\<forall>i. Suc i < length es \<longrightarrow> validate_pair (es ! i) (es ! Suc i) = Inr ())"
    by (auto simp: forR_eq_Inr all_set_conv_all_nth nth_tl)
  ultimately show ?thesis
    using assms by (simp add: check_sequence_def wf_journal_def)
qed

definition loaded ::
  "env \<Rightarrow> (journal_entry, 'j) serde \<Rightarrow> directory \<Rightarrow> u64 set \<Rightarrow> string list \<Rightarrow> journal_entry list \<Rightarrow> bool" where
  "loaded env S d seen names es \<longleftrightarrow> list_all2 (good_record env S d) names es
     \<and> distinct (map je_sequence es) \<and> (\<forall>e\<in>set es. je_sequence e \<notin> seen)"

lemma loaded_Cons:
  "loaded env S d seen (name # names) es \<longleftrightarrow> (\<exists>e es'. es = e # es' \<and> good_record env S d name e
     \<and> je_sequence e \<notin> seen \<and> loaded env S d (insert (je_sequence e) seen) names es')"
  by (cases es) (simp_all add: loaded_def image_iff, metis)

lemma good_record_unique: "good_record env S d n e \<Longrightarrow> good_record env S d n e' \<Longrightarrow> e' = e"
  unfolding good_record_def by (metis Inr_inject dir_entry.inject option.inject)

lemma good_record_decode:
  "find_entry d name = Some (FileE f) \<Longrightarrow> readable env MAX_RECORD_BYTES f \<Longrightarrow>
     decode_record S name seen (fl_data f) = Inr e \<longleftrightarrow> good_record env S d name e \<and> je_sequence e \<notin> seen"
  by (auto simp: decode_record_ok good_record_def)

lemma load_records_dwp:
  "dwp c p (load_records env S p seen names)
    (\<lambda>r d'. d' = d \<and> (\<forall>es. r = Done es \<longrightarrow> loaded env S d seen names es)
       \<and> (\<forall>es. c \<and> loaded env S d seen names es \<longrightarrow> r = Done es) \<and> (c \<longrightarrow> r \<noteq> Crashed)) d"
proof (induction names arbitrary: seen)
  case Nil
  show ?case by (auto simp: loaded_def intro!: dwp_rules)
next
  case (Cons name names)
  let ?R = "\<lambda>r d'. d' = d \<and> (\<forall>es. r = Done es \<longrightarrow> loaded env S d seen (name # names) es)
       \<and> (\<forall>es. c \<and> loaded env S d seen (name # names) es \<longrightarrow> r = Done es) \<and> (c \<longrightarrow> r \<noteq> Crashed)"
  have rest: "dwp c p (bindI (load_records env S p (insert (je_sequence e) seen) names) (\<lambda>es. returnI (e # es))) ?R d"
    if e: "good_record env S d name e" "je_sequence e \<notin> seen" for e
  proof (rule dwp_bind, rule dwp_mono [OF Cons.IH], elim conjE, goal_cases)
    case (1 r d')
    have only: "loaded env S d seen (name # names) es \<longleftrightarrow>
        (\<exists>es'. es = e # es' \<and> loaded env S d (insert (je_sequence e) seen) names es')" for es
      unfolding loaded_Cons using e good_record_unique [OF e(1)] by blast
    show ?case
    proof (cases r)
      case (Done x)
      have "loaded env S d seen (name # names) (e # x)"
        using 1(2) Done only by simp
      moreover have "es = e # x" if "c" "loaded env S d seen (name # names) es" for es
        using 1(3) Done that only by fastforce
      ultimately have "?R (Done (e # x)) d" by (metis outcome.inject(1) outcome.distinct(3))
      then show ?thesis using 1(1) Done by (simp add: dwp_return)
    next
      case (Failed x)
      have "\<not> (c \<and> loaded env S d seen (name # names) es)" for es
        using 1(3) Failed only [of es] by auto
      then show ?thesis using 1(1) Failed by simp
    next
      case Crashed
      then show ?thesis using 1(1,4) by simp
    qed
  qed
  have decoded: "dwp c p (bindI (liftR (decode_record S name seen (fl_data f))) (\<lambda>e.
      bindI (load_records env S p (insert (je_sequence e) seen) names) (\<lambda>es. returnI (e # es)))) ?R d"
    if f: "find_entry d name = Some (FileE f)" "readable env MAX_RECORD_BYTES f" for f
    by (intro dwp_bind dwp_liftR)
      (use rest good_record_decode [OF f, of S seen] in \<open>auto simp: loaded_Cons\<close>)
  show ?case
    unfolding load_records.simps
  proof (rule dwp_bind, rule dwp_mono [OF read_bounded_dwp], elim conjE, goal_cases)
    case (1 r d')
    have no: "\<not> (c \<and> loaded env S d seen (name # names) es)" if "\<forall>bs. r \<noteq> Done bs" for es
      using 1(3) that loaded_Cons good_record_def by metis
    show ?case
    proof (cases r)
      case (Done bs)
      then show ?thesis using 1(1,2) decoded by auto
    next
      case (Failed e)
      then show ?thesis using 1(1) no by simp
    next
      case Crashed
      then show ?thesis using 1(1,4) no by simp
    qed
  qed
qed

lemma json_names:
  "filter (\<lambda>n. ends_with n ''.json'') (filter (\<lambda>n. n \<notin> {''.'', ''..''}) (bt_keys (di_entries d)))
     = map fst (json_files d)"
proof -
  have "\<not> ends_with ''.'' ''.json''" "\<not> ends_with ''..'' ''.json''"
    by (simp_all add: ends_with_def)
  then have "filter (\<lambda>n. ends_with n ''.json'') (filter (\<lambda>n. n \<notin> {''.'', ''..''}) ks)
      = filter (\<lambda>n. ends_with n ''.json'') ks" for ks
    by (induction ks) auto
  also have "filter (\<lambda>n. ends_with n ''.json'') (bt_keys (di_entries d)) = map fst (json_files d)"
    by (simp add: json_files_def bt_keys_def filter_map case_prod_unfold comp_def)
  finally show ?thesis .
qed

fun phase :: "journal_state \<Rightarrow> nat" where
  "phase Prepared = 0" | "phase Started = 1" | "phase RpmResult = 2" | "phase Reconciled = 3"

lemma legal_transition_phase: "legal_transition a b \<longleftrightarrow> phase b = Suc (phase a)"
  by (cases a; cases b) (simp_all add: legal_transition_def)

lemma phase_le: "phase a \<le> 3"
  by (cases a) simp_all

lemma wf_journal_phase:
  assumes "wf_journal es" "i < length es"
  shows "phase (je_state (es ! i)) = phase (je_state (es ! 0)) + i"
  using assms(2)
proof (induction i)
  case (Suc i)
  then have "validate_pair (es ! i) (es ! Suc i) = Inr ()"
    using assms(1) by (simp add: wf_journal_def)
  then have "phase (je_state (es ! Suc i)) = Suc (phase (je_state (es ! i)))"
    by (auto simp: validate_pair_def Let_def legal_transition_phase split: if_splits)
  with Suc show ?case by simp
qed simp

lemma wf_journal_length: "wf_journal es \<Longrightarrow> length es \<le> 4"
  using wf_journal_phase [of es "length es - 1"] phase_le [of "je_state (es ! (length es - 1))"]
  by (auto simp: wf_journal_def)

lemma wf_journal_sequences: "wf_journal es \<Longrightarrow> sorted_wrt (<) (map je_sequence es)"
  using wf_journal_length [of es]
  by (auto simp: wf_journal_def sorted_wrt_iff_nth_less word_less_nat_alt unat_of_nat)

lemma record_name_inj [simp]: "record_name m = record_name n \<longleftrightarrow> m = n"
  by (simp add: record_name_def pad020_show_nat_inj word_unat_eq_iff)

lemma holds_if_loaded:
  assumes "loaded env S d {} (map fst (json_files d)) rs" "wf_journal (sort_key je_sequence rs)" "dir_ok d"
  shows "holds env S d (sort_key je_sequence rs)"
proof -
  have good: "list_all2 (good_record env S d) (map fst (json_files d)) rs" using assms(1) by (simp add: loaded_def)
  then have names: "map fst (json_files d) = map (\<lambda>e. record_name (je_sequence e)) rs"
    by (auto simp: list_all2_conv_all_nth list_eq_iff_nth_eq good_record_def)
  have "good_record env S d (record_name (je_sequence e)) e" if member: "e \<in> set rs" for e
  proof -
    obtain i where i: "i < length rs" "rs ! i = e" using member by (metis in_set_conv_nth)
    then have "good_record env S d (map fst (json_files d) ! i) e" using list_all2_nthD2 [OF good i(1)] by simp
    moreover have "map fst (json_files d) ! i = record_name (je_sequence e)" unfolding names using i by simp
    ultimately show ?thesis by simp
  qed
  moreover have "fst ` set (json_files d) = (\<lambda>e. record_name (je_sequence e)) ` set rs"
    using arg_cong [OF names, of set] by simp
  ultimately show ?thesis using assms(2,3) by (simp add: holds_def)
qed

lemma loaded_if_holds:
  assumes "holds env S d es"
  shows "\<exists>rs. loaded env S d {} (map fst (json_files d)) rs \<and> sort_key je_sequence rs = es"
proof -
  let ?names = "map fst (json_files d)"
  let ?pick = "\<lambda>n. SOME e. e \<in> set es \<and> record_name (je_sequence e) = n"
  define rs where "rs = map ?pick ?names"
  have sorted: "sorted_wrt (<) (map je_sequence es)"
    using assms by (simp add: holds_def wf_journal_sequences)
  then have inj: "inj_on je_sequence (set es)" by (metis distinct_map strict_sorted_iff)
  have names: "set ?names = (\<lambda>e. record_name (je_sequence e)) ` set es"
    using assms by (simp add: holds_def)
  have pick: "?pick n \<in> set es \<and> record_name (je_sequence (?pick n)) = n" if "n \<in> set ?names" for n
    by (rule someI_ex) (use that names in auto)
  have recovered: "map (\<lambda>e. record_name (je_sequence e)) rs = ?names"
    using pick unfolding rs_def by (simp add: map_idI)
  have "distinct ?names"
    using assms by (simp add: holds_def dir_ok_def json_files_def bt_ok_distinct bt_ok_filter)
  then have "distinct (map (\<lambda>e. record_name (je_sequence e)) rs)" by (simp only: recovered)
  then have dist: "distinct (map je_sequence rs)" "distinct rs"
    by (auto simp: distinct_map inj_on_def)
  have sets: "set rs = set es"
  proof
    show "set rs \<subseteq> set es" using pick by (auto simp: rs_def)
    have "je_sequence ` set es \<subseteq> je_sequence ` set rs"
    proof
      fix k assume "k \<in> je_sequence ` set es"
      then have "record_name k \<in> set (map (\<lambda>e. record_name (je_sequence e)) rs)"
        unfolding recovered names by auto
      then show "k \<in> je_sequence ` set rs" by auto
    qed
    then show "set es \<subseteq> set rs"
      using inj_on_image_mem_iff [OF inj _ \<open>set rs \<subseteq> set es\<close>] by blast
  qed
  have "distinct es" using sorted by (metis distinct_map strict_sorted_iff)
  then have "mset rs = mset es" using sets dist(2) by (simp add: set_eq_iff_mset_eq_distinct)
  then have "sort_key je_sequence rs = sort_key je_sequence es"
    using inj sets by (intro sort_key_mset_cong) auto
  also have "\<dots> = es" using sorted by (simp add: strict_sorted_iff sort_key_id_if_sorted)
  finally have "sort_key je_sequence rs = es" .
  moreover have good: "good_record env S d n e" if "e \<in> set es \<and> record_name (je_sequence e) = n" for n e
    using assms that by (auto simp: holds_def)
  have "list_all2 (good_record env S d) ?names rs"
    unfolding rs_def list_all2_map2 list_all2_same using good [OF pick] by blast
  ultimately show ?thesis using dist(1) by (auto simp: loaded_def)
qed

lemma load_entries_dwp:
  assumes "bt_ok (di_entries d)"
  shows "dwp c p (load_entries env S p)
    (\<lambda>r d'. d' = d \<and> (\<forall>es. r = Done es \<longrightarrow> holds env S d es)
       \<and> (\<forall>es. c \<and> holds env S d es \<longrightarrow> r = Done es) \<and> (c \<longrightarrow> r \<noteq> Crashed)) d" (is "dwp c p _ ?R d")
proof -
  have check: "dwp c p (let records = sort_key je_sequence rs in
      bindI (liftR (check_sequence records)) (\<lambda>_. returnI records)) ?R d"
    if rs: "loaded env S d {} (map fst (json_files d)) rs" "dir_ok d"
      "\<And>rs'. c \<Longrightarrow> loaded env S d {} (map fst (json_files d)) rs' \<Longrightarrow> rs' = rs" for rs
  proof -
    let ?es = "sort_key je_sequence rs"
    have valid: "\<forall>e\<in>set ?es. validate_entry e = Inr ()"
      using rs(1) by (auto simp: loaded_def good_record_def list_all2_conv_all_nth in_set_conv_nth)
    have "?R (Done ?es) d" if "wf_journal ?es"
      using holds_if_loaded [OF rs(1) that rs(2)] loaded_if_holds rs(3) by blast
    moreover have "?R (Failed e) d" if "\<not> wf_journal ?es" for e
      using loaded_if_holds rs(3) that by (metis holds_def outcome.distinct(1) outcome.distinct(5))
    ultimately show ?thesis
      unfolding Let_def using check_sequence_ok [OF valid]
      by (intro dwp_bind dwp_liftR) (auto intro!: dwp_return)
  qed
  show ?thesis
    unfolding load_entries_def
  proof (rule dwp_bind, rule dwp_mono [OF child_names_dwp [OF assms]], elim conjE, goal_cases)
    case (1 r d')
    have no: "\<not> (c \<and> holds env S d es)" if "\<forall>ns. r \<noteq> Done ns" for es
      using 1(3) that by (metis holds_def)
    show ?case
    proof (cases r)
      case (Done ns)
      then have ns: "filter (\<lambda>n. ends_with n ''.json'') ns = map fst (json_files d)" "dir_ok d"
        using 1(2) assms json_names by (blast, simp add: dir_ok_def)
      have "dwp c p (bindI (load_records env S p {} (filter (\<lambda>n. ends_with n ''.json'') ns))
        (\<lambda>records. let records = sort_key je_sequence records in
          bindI (liftR (check_sequence records)) (\<lambda>_. returnI records))) ?R d"
        unfolding ns(1)
      proof (rule dwp_bind, rule dwp_mono [OF load_records_dwp], elim conjE, goal_cases)
        case (1 r' d'')
        have none: "\<not> (c \<and> holds env S d es)" if "\<forall>rs. r' \<noteq> Done rs" for es
          using 1(3) that loaded_if_holds by metis
        show ?case
        proof (cases r')
          case (Done rs)
          have "dwp c p (let records = sort_key je_sequence rs in
              bindI (liftR (check_sequence records)) (\<lambda>_. returnI records)) ?R d"
            by (rule check) (use 1(2,3) Done ns(2) in auto)
          then show ?thesis using 1(1) Done by simp
        qed (use 1(1,4) none in simp_all)
      qed
      then show ?thesis using 1(1) Done by simp
    qed (use 1(1,4) no in simp_all)
  qed
qed

section \<open>Transitions on the abstract journal\<close>

text \<open>The records of \<open>es\<close> are the \<^verbatim>\<open>.json\<close> files of \<open>d\<close>; a directory just created has none.\<close>

definition records :: "env \<Rightarrow> (journal_entry, 'j) serde \<Rightarrow> directory \<Rightarrow> journal_entry list \<Rightarrow> bool" where
  "records env S d es \<longleftrightarrow> dir_ok d
     \<and> fst ` set (json_files d) = (\<lambda>e. record_name (je_sequence e)) ` set es
     \<and> (\<forall>e\<in>set es. good_record env S d (record_name (je_sequence e)) e)"

text \<open>What is relied on of serde\_json: the encoding of this entry decodes to it, within the limits.\<close>

definition decodes :: "('a, 'j) serde \<Rightarrow> 'a \<Rightarrow> bool" where
  "decodes S v \<longleftrightarrow> (\<forall>bs. canonical_serialize S v = Inr bs \<longrightarrow> canonical_parse S bs = Inr v)"

lemma holds_records: "holds env S d es \<longleftrightarrow> records env S d es \<and> wf_journal es"
  by (auto simp: holds_def records_def)

lemma find_json: "ends_with n ''.json'' \<Longrightarrow> find_entry d n \<noteq> None \<longleftrightarrow> n \<in> fst ` set (json_files d)"
  by (force simp: json_files_def image_iff map_of_eq_None_iff)

lemma good_record_frame:
  "bt_ok (di_entries d) \<Longrightarrow> n \<noteq> n' \<Longrightarrow> good_record env S (ins_entry n' x d) n e \<longleftrightarrow> good_record env S d n e"
  by (simp add: good_record_def)

lemma records_ins_other:
  assumes "records env S d es" "\<not> ends_with n ''.json''" "utf8_ok n"
  shows "records env S (ins_entry n x d) es"
proof -
  have ok: "bt_ok (di_entries d)" using assms by (simp add: records_def dir_ok_def)
  have "good_record env S (ins_entry n x d) (record_name m) e \<longleftrightarrow> good_record env S d (record_name m) e" for m e
    by (rule good_record_frame [OF ok]) (use assms(2) in auto)
  then show ?thesis using assms ok by (simp add: records_def json_files_ins)
qed

lemma holds_ins_other:
  "holds env S d es \<Longrightarrow> \<not> ends_with n ''.json'' \<Longrightarrow> utf8_ok n \<Longrightarrow> holds env S (ins_entry n x d) es"
  by (simp add: holds_records records_ins_other)

lemma records_ins_temporary:
  "records env S d es \<Longrightarrow> records env S (ins_entry (record_temporary env sequence) x d) es"
  by (rule records_ins_other) simp_all

lemma records_fresh:
  assumes "records env S d es" "k \<notin> je_sequence ` set es"
  shows "find_entry d (record_name k) = None"
  using assms find_json [of "record_name k" d] by (auto simp: records_def)

lemma records_ins_record:
  assumes "records env S d es" "je_sequence e \<notin> je_sequence ` set es" "validate_entry e = Inr ()"
    and "canonical_parse S bs = Inr e" "length bs \<le> MAX_RECORD_BYTES"
  shows "records env S (ins_entry (record_name (je_sequence e)) (FileE (record_file env bs)) d) (es @ [e])"
proof -
  let ?d = "ins_entry (record_name (je_sequence e)) (FileE (record_file env bs)) d"
  have ok: "bt_ok (di_entries d)" using assms(1) by (simp add: records_def dir_ok_def)
  have "good_record env S ?d (record_name (je_sequence e)) e"
    using assms(3-5) ok by (simp add: good_record_def readable_def)
  moreover have "good_record env S ?d (record_name (je_sequence e')) e'" if "e' \<in> set es" for e'
  proof -
    have "record_name (je_sequence e') \<noteq> record_name (je_sequence e)" using that assms(2) by (metis imageI record_name_inj)
    moreover have "good_record env S d (record_name (je_sequence e')) e'"
      using assms(1) that by (simp add: records_def)
    ultimately show ?thesis using good_record_frame [OF ok] by metis
  qed
  ultimately show ?thesis
    using assms(1) ok by (simp add: records_def json_files_ins bt_insert_set)
qed

lemma wf_journal_extend:
  assumes "wf_journal es" "legal_transition (je_state (last es)) next"
    and "e = next_entry (last es) (of_nat (length es)) next native reconciliation" "validate_entry e = Inr ()"
  shows "wf_journal (es @ [e])"
proof -
  have e: "es \<noteq> []" using assms(1) by (simp add: wf_journal_def)
  have "validate_pair (last es) e = Inr ()"
    using assms(2,3) by (simp add: validate_pair_def next_entry_def)
  then have "validate_pair ((es @ [e]) ! i) ((es @ [e]) ! Suc i) = Inr ()" if "Suc i < length (es @ [e])" for i
    using assms(1) e that
    by (cases "i = length es - 1") (auto simp: wf_journal_def nth_append last_conv_nth)
  moreover have "je_sequence ((es @ [e]) ! i) = of_nat i" if "i < length (es @ [e])" for i
    using assms(1,3) that by (cases "i = length es") (simp_all add: wf_journal_def nth_append next_entry_def)
  ultimately show ?thesis using assms(1,4) by (simp add: wf_journal_def)
qed

lemma next_sequence:
  assumes "wf_journal es"
  shows "checked_add (je_sequence (last es)) 1 = Some (of_nat (length es))"
    "of_nat (length es) \<notin> je_sequence ` set es"
proof -
  have l: "length es \<le> 4" "es \<noteq> []" using assms by (simp_all add: wf_journal_length) (simp add: wf_journal_def)
  then have s: "je_sequence (last es) = of_nat (length es - 1)"
    using assms by (simp add: wf_journal_def last_conv_nth)
  show "checked_add (je_sequence (last es)) 1 = Some (of_nat (length es))"
  proof -
    obtain n where n: "length es = Suc n" using l by (cases "length es") auto
    then have "unat (of_nat n :: u64) = n" "n \<le> 3" "je_sequence (last es) = of_nat n"
      using l s by (simp_all add: unat_of_nat)
    moreover have "(of_nat n :: u64) + 1 = of_nat (length es)" by (simp add: n)
    ultimately show ?thesis by (simp add: checked_add_def)
  qed
  show "of_nat (length es) \<notin> je_sequence ` set es"
  proof
    assume "of_nat (length es) \<in> je_sequence ` set es"
    then obtain i where "i < length es" "(of_nat (length es) :: u64) = of_nat i"
      using assms by (auto simp: wf_journal_def in_set_conv_nth)
    then have "unat (of_nat (length es) :: u64) = unat (of_nat i :: u64)" by simp
    then show False using l \<open>i < length es\<close> by (simp add: unat_of_nat)
  qed
qed

lemma holds_unique: "holds env S d es \<Longrightarrow> holds env S d es' \<Longrightarrow> es' = es"
proof -
  assume h: "holds env S d es" "holds env S d es'"
  let ?w = "\<lparr>wd_dirs = [[] \<mapsto> d], wd_locks = {}, wd_fault = NoFault, wd_sys = []\<rparr>"
  have ok: "bt_ok (di_entries d)" using h by (simp add: holds_def dir_ok_def)
  have w: "wd_dirs ?w [] = Some d" "True \<longrightarrow> calm ?w" by (simp_all add: calm_def)
  obtain r where r: "\<forall>es. True \<and> holds env S d es \<longrightarrow> r = Done es"
    by (rule dwpD [OF load_entries_dwp [OF ok] w]) blast
  then have "r = Done es" "r = Done es'" using h by blast+
  then show "es' = es" by simp
qed

text \<open>Publishing one more record, whatever interrupts it.\<close>

definition publishable :: "env \<Rightarrow> (journal_entry, 'j) serde \<Rightarrow> directory \<Rightarrow> journal_entry \<Rightarrow> bool" where
  "publishable env S d e \<longleftrightarrow> validate_entry e = Inr ()
     \<and> (\<exists>bs. canonical_serialize S e = Inr bs \<and> length bs \<le> MAX_RECORD_BYTES)
     \<and> find_entry d (record_temporary env (je_sequence e)) = None"

lemma publish_dwp:
  assumes "records env S d es" "je_sequence e \<notin> je_sequence ` set es" "decodes S e"
  shows "dwp c p (publish env S p e)
    (\<lambda>r d'. (records env S d' es \<or> validate_entry e = Inr () \<and> records env S d' (es @ [e]))
       \<and> (r = Done () \<longrightarrow> validate_entry e = Inr () \<and> records env S d' (es @ [e]))
       \<and> (c \<and> publishable env S d e \<longrightarrow> r = Done ()) \<and> (c \<longrightarrow> r \<noteq> Crashed)) d" (is "dwp c p _ ?R d")
proof -
  have ok: "bt_ok (di_entries d)" using assms(1) by (simp add: records_def dir_ok_def)
  have "dwp c p (write_record env p (je_sequence e) bs) ?R d"
    if bs: "validate_entry e = Inr ()" "canonical_serialize S e = Inr bs" "length bs \<le> MAX_RECORD_BYTES" for bs
  proof (rule dwp_mono [OF write_record_dwp [OF ok records_fresh [OF assms(1,2)]]], elim conjE, goal_cases)
    case (1 r d')
    have new: "records env S (ins_entry (record_name (je_sequence e)) (FileE (record_file env bs)) d) (es @ [e])"
      using assms(3) bs by (intro records_ins_record [OF assms(1,2)]) (auto simp: decodes_def)
    have "c \<and> publishable env S d e \<longrightarrow> r = Done ()" using 1(2) by (simp add: publishable_def)
    then show ?case
      using 1(1,3) new bs(1) assms(1) records_ins_temporary [OF assms(1)] unfolding write_result_def by blast
  qed
  then show ?thesis
    unfolding publish_def
    using assms(1)
    by (intro dwp_bind dwp_liftR)
      (auto simp: canonical_bytes_def publishable_def map_err_eq_Inr intro!: dwp_rules split: if_splits)
qed

lemma transition_dwp:
  fixes S :: "(journal_entry, 'j) serde"
  assumes "holds env S d es"
    and e: "e = next_entry (last es) (of_nat (length es)) next native reconciliation" and "decodes S e"
  shows "dwp c p (transition env S p next native reconciliation)
    (\<lambda>r d'. if legal_transition (je_state (last es)) next
       then (holds env S d' es \<or> holds env S d' (es @ [e])) \<and> (r = Done () \<longrightarrow> holds env S d' (es @ [e]))
         \<and> (c \<and> publishable env S d e \<longrightarrow> r = Done ())
       else d' = d \<and> r \<noteq> Done () \<and> (c \<longrightarrow> r = Failed (Transition
         (state_debug (je_state (last es)) @ '' -> '' @ state_debug next)))) d" (is "dwp c p _ ?R d")
proof -
  have wf: "wf_journal es" "es \<noteq> []" "records env S d es" "bt_ok (di_entries d)"
    using assms(1) by (auto simp: holds_def wf_journal_def records_def dir_ok_def)
  have fresh: "je_sequence e \<notin> je_sequence ` set es"
    using next_sequence(2) [OF wf(1)] by (simp add: e next_entry_def)
  have publish: "dwp c p (publish env S p e) ?R d" if legal: "legal_transition (je_state (last es)) next"
  proof (rule dwp_mono [OF publish_dwp [OF wf(3) fresh assms(3)]], elim conjE, goal_cases)
    case (1 r d')
    have "holds env S d' (es @ [e])" if "validate_entry e = Inr ()" "records env S d' (es @ [e])"
      using wf_journal_extend [OF wf(1) legal e] that by (simp add: holds_records)
    then show ?case using 1 legal wf(1) holds_records by metis
  qed
  show ?thesis
    unfolding transition_def
  proof (rule dwp_bind, rule dwp_mono [OF load_entries_dwp [OF wf(4)]], elim conjE, goal_cases)
    case (1 r d')
    show ?case
    proof (cases r)
      case (Done es')
      then have "es' = es" using 1(2) assms(1) holds_unique by metis
      then show ?thesis
        using 1(1) Done wf(2) next_sequence(1) [OF wf(1)] publish
        by (auto simp: Let_def e [symmetric] intro!: dwp_fail)
    next
      case (Failed e)
      then have "\<not> c" using 1(3) assms(1) by blast
      then show ?thesis using 1(1) Failed assms(1) by simp
    next
      case Crashed
      then have "\<not> c" using 1(4) by blast
      then show ?thesis using 1(1) Crashed assms(1) by simp
    qed
  qed
qed

section \<open>The life of a journal\<close>

text \<open>
  A transaction directory over time: the first record is published, then transitions are attempted
  in any order, in any environment, each ending with success, an error or a crash.
\<close>

inductive journal_reachable ::
  "env \<Rightarrow> (journal_entry, 'j) serde \<Rightarrow> path \<Rightarrow> journal_entry \<Rightarrow> directory \<Rightarrow> bool"
  for env S p e0 where
  created: "records env S d [] \<Longrightarrow> decodes S e0 \<Longrightarrow> wd_dirs w p = Some d
     \<Longrightarrow> publish env S p e0 w = (Done (), w') \<Longrightarrow> wd_dirs w' p = Some d'
     \<Longrightarrow> journal_reachable env S p e0 d'"
| attempted: "journal_reachable env S p e0 d \<Longrightarrow> holds env S d es
     \<Longrightarrow> decodes S (next_entry (last es) (of_nat (length es)) next native reconciliation)
     \<Longrightarrow> wd_dirs w p = Some d \<Longrightarrow> transition env S p next native reconciliation w = (r, w')
     \<Longrightarrow> wd_dirs w' p = Some d' \<Longrightarrow> journal_reachable env S p e0 d'"

definition life :: "journal_state list" where
  "life = [Prepared, Started, RpmResult, Reconciled]"

definition phases_in_order :: "journal_entry \<Rightarrow> journal_entry list \<Rightarrow> bool" where
  "phases_in_order e0 es \<longleftrightarrow> es \<noteq> [] \<and> map je_state es = take (length es) life
     \<and> (\<forall>e\<in>set es. je_transaction_id e = je_transaction_id e0 \<and> je_plan_sha256 e = je_plan_sha256 e0)"

lemma phases_in_order_extend:
  assumes "phases_in_order e0 es" "legal_transition (je_state (last es)) next"
  shows "phases_in_order e0 (es @ [next_entry (last es) k next native reconciliation])"
proof -
  have "length (map je_state es) = length (take (length es) life)"
    using assms(1) by (simp only: phases_in_order_def)
  then have l: "length es \<le> 4" by (simp add: life_def)
  have m: "map je_state es = take (length es) life" "es \<noteq> []"
    using assms(1) unfolding phases_in_order_def by blast+
  have "last (take (length es) life) = je_state (last es)"
    unfolding m(1) [symmetric] using m(2) by (rule last_map)
  then have "take (length es) life @ [next] = take (Suc (length es)) life"
    using assms(2) l m(2)
    by (cases "length es" rule: nat.exhaust; cases "length es - 1"; cases "length es - 2"; cases "length es - 3")
      (auto simp: life_def legal_transition_def)
  then show ?thesis
    using assms(1) by (auto simp: phases_in_order_def next_entry_def)
qed

section \<open>A worked journal\<close>

definition example_id :: transaction_id where
  "example_id = TransactionId ''00000000-0000-7000-8000-000000000000''"

definition example_prepared :: journal_entry where
  "example_prepared = prepared_entry example_id (replicate 64 (CHR ''a''))"

definition example_started :: journal_entry where
  "example_started = next_entry example_prepared 1 Started None None"

text \<open>A codec that knows the two records.\<close>

definition example_serde :: "(journal_entry, journal_entry) serde" where
  "example_serde = \<lparr>
     from_slice = (\<lambda>bs. if bs = ''0'' then Inr example_prepared else if bs = ''1'' then Inr example_started
        else Inl ''unknown''),
     to_value = Inr,
     to_vec = (\<lambda>e. if e = example_prepared then Inr ''0'' else if e = example_started then Inr ''1''
        else Inl ''unknown'')\<rparr>"

lemma example_entries_valid: "validate_entry example_prepared = Inr ()" "validate_entry example_started = Inr ()"
  by code_simp+

lemma example_entries_differ: "example_prepared \<noteq> example_started"
  by (simp add: example_prepared_def example_started_def next_entry_def prepared_entry_def)

lemma example_decodes: "decodes example_serde e"
proof -
  have "inspect ''0'' = Inr ()" "inspect ''1'' = Inr ()"
    by (simp_all add: inspect_def inspect_byte_def scan_init_def limits)
  then show ?thesis
    using example_entries_differ
    by (auto simp: decodes_def canonical_serialize_def canonical_parse_def example_serde_def split: if_splits)
qed

definition example_journal :: directory where
  "example_journal = ins_entry (record_name 0) (FileE (record_file example_env ''0'')) example_directory"

lemma example_records: "records example_env example_serde example_directory []"
  by (simp add: records_def dir_ok_def example_directory_def json_files_def)

lemma example_holds: "holds example_env example_serde example_journal [example_prepared]"
proof -
  have "canonical_parse example_serde ''0'' = Inr example_prepared"
    using example_decodes [of example_prepared] by (auto simp: decodes_def canonical_serialize_def example_serde_def)
  moreover have "je_sequence example_prepared = 0" by (simp add: example_prepared_def prepared_entry_def)
  ultimately have "records example_env example_serde example_journal [example_prepared]"
    using records_ins_record [OF example_records, of example_prepared "''0''"] example_entries_valid
    by (simp add: example_journal_def MAX_RECORD_BYTES_def)
  moreover have "wf_journal [example_prepared]"
    using example_entries_valid by (simp add: wf_journal_def \<open>je_sequence _ = 0\<close>)
  ultimately show ?thesis by (simp add: holds_records)
qed
section \<open>Properties\<close>

text \<open>
  Property C10. \<^verbatim>\<open>load_entries\<close> is exact: it never changes a directory, whatever it returns is the
  journal whose records are precisely the \<^verbatim>\<open>.json\<close> files of the directory, and without failures it
  returns a journal exactly when the directory holds one.
\<close>

theorem load_entries_exact:
  assumes "wd_dirs w p = Some d" "bt_ok (di_entries d)" "load_entries env S p w = (r, w')"
  shows "wd_dirs w' = wd_dirs w \<and> (r = Done es \<longrightarrow> holds env S d es)
    \<and> (calm w \<longrightarrow> (r = Done es \<longleftrightarrow> holds env S d es))"
proof -
  obtain r' w'' d' where d': "load_entries env S p w = (r', w'')" "wd_dirs w'' = (wd_dirs w)(p \<mapsto> d')"
    "d' = d \<and> (\<forall>es. r' = Done es \<longrightarrow> holds env S d es)
      \<and> (\<forall>es. calm w \<and> holds env S d es \<longrightarrow> r' = Done es) \<and> (calm w \<longrightarrow> r' \<noteq> Crashed)"
    by (rule dwpD [OF load_entries_dwp [OF assms(2)] assms(1)]) blast+
  have "r' = r" "w'' = w'" using d'(1) assms(3) by simp_all
  moreover have "wd_dirs w'' = wd_dirs w" using d'(2,3) assms(1) by (simp add: fun_upd_idem)
  ultimately show ?thesis using d'(3) by blast
qed

theorem load_entries_exact_witness:
  "\<exists>w'. load_entries example_env example_serde [''journal''] (example_world NoFault [] example_journal)
     = (Done [example_prepared], w')"
proof -
  let ?w = "example_world NoFault [] example_journal"
  have d: "wd_dirs ?w [''journal''] = Some example_journal" by (simp add: example_world_def)
  have ok: "bt_ok (di_entries example_journal)" using example_holds by (simp add: holds_def dir_ok_def)
  obtain r w' where r: "load_entries example_env example_serde [''journal''] ?w = (r, w')" by (metis surj_pair)
  have "calm ?w" by (simp add: calm_def example_world_def)
  then have "r = Done [example_prepared]"
    using load_entries_exact [OF d ok r, of "[example_prepared]"] example_holds by blast
  with r show ?thesis by blast
qed





end
