(* ===== verification/State_Recovery.thy ===== *)
theory State_Recovery
  imports State_Store
begin

text \<open>
  \<^verbatim>\<open>crates/dnfast-state/src/recovery.rs\<close>: what to do with a transaction that was interrupted.
\<close>

definition no_callbacks :: callback_summary where
  "no_callbacks = \<lparr>cb_pretrans = 0, cb_pre = 0, cb_post = 0, cb_triggers = 0, cb_payload = 0,
     cb_database = 0, cb_script_log_truncated = False\<rparr>"

definition recover :: "env \<Rightarrow> (journal_entry, 'j) serde \<Rightarrow> path \<Rightarrow> recovery_action io" where
  "recover env S journal =
     bindI (load_entries env S journal) (\<lambda>entries.
       if entries = [] then failI (Corrupt ''journal is empty'')
       else case je_state (last entries) of
         Prepared \<Rightarrow> returnI CleanupRevalidateAndReapprove
       | Started \<Rightarrow> bindI (record_rpm_result env S journal (-1) no_callbacks) (\<lambda>_. returnI ReconcileOnly)
       | RpmResult \<Rightarrow> returnI ReconcileOnly
       | Reconciled \<Rightarrow> (case je_reconciliation (last entries) of
             Some result \<Rightarrow> returnI (Terminal result)
           | None \<Rightarrow> failI (Corrupt ''terminal result missing'')))"

text \<open>\<^verbatim>\<open>str::contains\<close>\<close>

definition contains :: "string \<Rightarrow> string \<Rightarrow> bool" where
  "contains s pattern \<longleftrightarrow> list_ex (\<lambda>i. take (length pattern) (drop i s) = pattern) [0..<Suc (length s)]"

definition tolerate_missing :: "unit io \<Rightarrow> unit io" where
  "tolerate_missing m w = (case m w of
       (Failed (Io message), w') \<Rightarrow>
         (if contains message ''No such file'' then Done () else Failed (Io message), w')
     | (r, w') \<Rightarrow> (r, w'))"

definition recover_with_staging ::
  "env \<Rightarrow> (journal_entry, 'j) serde \<Rightarrow> path \<Rightarrow> string \<Rightarrow> transaction_id \<Rightarrow> recovery_action io" where
  "recover_with_staging env S journal staging_root ident =
     bindI (recover env S journal) (\<lambda>action.
       if action = CleanupRevalidateAndReapprove
       then bindI (tolerate_missing (cleanup_private_child env staging_root (tid_str ident)))
              (\<lambda>_. returnI action)
       else returnI action)"

section \<open>The decision\<close>

text \<open>What a journal alone says about recovery.\<close>

fun recovery_of :: "journal_entry list \<Rightarrow> recovery_action" where
  "recovery_of es = (case je_state (last es) of
       Prepared \<Rightarrow> CleanupRevalidateAndReapprove
     | Started \<Rightarrow> ReconcileOnly
     | RpmResult \<Rightarrow> ReconcileOnly
     | Reconciled \<Rightarrow> Terminal (the (je_reconciliation (last es))))"

definition lost_result :: "journal_entry list \<Rightarrow> journal_entry" where
  "lost_result es = next_entry (last es) (of_nat (length es)) RpmResult
     (Some \<lparr>nr_return_code = -1, nr_callbacks = no_callbacks, nr_problems = []\<rparr>) None"

lemma recovery_of_lost_result:
  "je_state (last es) = Started \<Longrightarrow> recovery_of (es @ [lost_result es]) = recovery_of es"
  by (simp add: lost_result_def next_entry_def)

lemma reconciled_has_result:
  assumes "holds env S d es" "je_state (last es) = Reconciled"
  shows "\<exists>result. je_reconciliation (last es) = Some result"
proof -
  have "validate_entry (last es) = Inr ()" using assms(1) by (auto simp: holds_def wf_journal_def)
  then have "payload_ok (last es)" by (auto simp: validate_entry_def bindR_eq_Inr split: if_splits)
  then show ?thesis using assms(2) by (simp add: payload_ok_def)
qed

lemma recover_dwp:
  fixes S :: "(journal_entry, 'j) serde"
  assumes h: "holds env S d es" and decodes: "je_state (last es) = Started \<Longrightarrow> decodes S (lost_result es)"
  shows "dwp c p (recover env S p)
    (\<lambda>r d'. (holds env S d' es \<or> je_state (last es) = Started \<and> holds env S d' (es @ [lost_result es]))
       \<and> (\<forall>a. r = Done a \<longrightarrow> a = recovery_of es
            \<and> (je_state (last es) = Started \<longrightarrow> holds env S d' (es @ [lost_result es])))
       \<and> (c \<and> (je_state (last es) = Started \<longrightarrow> publishable env S d (lost_result es))
            \<longrightarrow> r = Done (recovery_of es))) d" (is "dwp c p _ ?R d")
proof -
  have wf: "es \<noteq> []" "bt_ok (di_entries d)" using h by (auto simp: holds_def wf_journal_def dir_ok_def)
  have started: "dwp c p (bindI (record_rpm_result env S p (-1) no_callbacks) (\<lambda>_. returnI ReconcileOnly)) ?R d"
    if s: "je_state (last es) = Started"
    unfolding record_rpm_result_def record_rpm_result_with_problems_def
    by (rule dwp_bind, rule dwp_mono [OF transition_dwp [OF h refl decodes [OF s, unfolded lost_result_def]]])
      (auto simp: legal_transition_def s lost_result_def [symmetric] split: outcome.splits intro!: dwp_return)
  have found: "dwp c p (case je_state (last es) of
         Prepared \<Rightarrow> returnI CleanupRevalidateAndReapprove
       | Started \<Rightarrow> bindI (record_rpm_result env S p (-1) no_callbacks) (\<lambda>_. returnI ReconcileOnly)
       | RpmResult \<Rightarrow> returnI ReconcileOnly
       | Reconciled \<Rightarrow> (case je_reconciliation (last es) of
             Some result \<Rightarrow> returnI (Terminal result)
           | None \<Rightarrow> failI (Corrupt ''terminal result missing''))) ?R d"
    using started h reconciled_has_result [OF h] by (cases "je_state (last es)") (auto intro!: dwp_return)
  show ?thesis
    unfolding recover_def
  proof (rule dwp_bind, rule dwp_mono [OF load_entries_dwp [OF wf(2)]], elim conjE, goal_cases)
    case (1 r d')
    show ?case
    proof (cases r)
      case (Done es')
      then have "es' = es" using 1(2) h holds_unique by metis
      then show ?thesis using found 1(1) Done wf(1) by simp
    next
      case (Failed e)
      then have "\<not> c" using 1(3) h by blast
      then show ?thesis using 1(1) Failed h by simp
    next
      case Crashed
      then have "\<not> c" using 1(4) by blast
      then show ?thesis using 1(1) Crashed h by simp
    qed
  qed
qed

section \<open>Properties\<close>



end
