(* ===== verification/State_Log.thy ===== *)
theory State_Log
  imports State_Store
begin

text \<open>
  \<^verbatim>\<open>crates/dnfast-state/src/log.rs\<close>: the bounded event log of a transaction, a file beside its
  journal records.
\<close>

definition MAX_LOG_BYTES :: nat where
  "MAX_LOG_BYTES = 64 * 1024 * 1024"

definition MARKER :: bytes where
  "MARKER = [CHR 0x0A] @ ''[dnfast: log truncated at 67108864 bytes]'' @ [CHR 0x0A]"

definition PAYLOAD_END :: nat where
  "PAYLOAD_END = MAX_LOG_BYTES - length MARKER"

datatype log_append_result = Written | Truncated

text \<open>\<^verbatim>\<open>current == MAX_LOG_BYTES\<close> and the file ends with the marker\<close>

definition already_truncated :: "env \<Rightarrow> fd \<Rightarrow> nat \<Rightarrow> bool io" where
  "already_truncated env fd current =
     (if current = MAX_LOG_BYTES
      then bindI (errnoI env (sys_seek fd (MAX_LOG_BYTES - length MARKER))) (\<lambda>position.
           bindI (errnoI env (sys_read fd position (length MARKER))) (\<lambda>tail. returnI (tail = MARKER)))
      else returnI False)"

definition append_whole :: "env \<Rightarrow> path \<Rightarrow> fd \<Rightarrow> nat \<Rightarrow> bytes \<Rightarrow> log_append_result io" where
  "append_whole env directory fd position bs =
     bindI (errnoI env (sys_write_all fd position bs)) (\<lambda>_.
     bindI (errnoI env (sys_sync_all fd)) (\<lambda>_.
     bindI (errnoI env (sys_fsync_dir directory)) (\<lambda>_. returnI Written)))"

definition append_truncated :: "env \<Rightarrow> path \<Rightarrow> fd \<Rightarrow> nat \<Rightarrow> bytes \<Rightarrow> log_append_result io" where
  "append_truncated env directory fd current bs =
     (let payload_end = MAX_LOG_BYTES - length MARKER in
      bindI (if current > payload_end then errnoI env (sys_set_len fd payload_end) else returnI ()) (\<lambda>_.
      bindI (errnoI env (sys_seek fd (min current payload_end))) (\<lambda>position.
      bindI (errnoI env (sys_write_all fd position
               (take (min (payload_end - min current payload_end) (length bs)) bs))) (\<lambda>_.
      bindI (errnoI env (sys_seek fd payload_end)) (\<lambda>position.
      bindI (errnoI env (sys_write_all fd position MARKER)) (\<lambda>_.
      bindI (errnoI env (sys_sync_all fd)) (\<lambda>_.
      bindI (errnoI env (sys_fsync_dir directory)) (\<lambda>_. returnI Truncated))))))))"

definition append_payload :: "env \<Rightarrow> path \<Rightarrow> fd \<Rightarrow> nat \<Rightarrow> bytes \<Rightarrow> log_append_result io" where
  "append_payload env directory fd current bs =
     bindI (errnoI env (sys_seek fd current)) (\<lambda>position.
       if length bs \<le> MAX_LOG_BYTES - current then append_whole env directory fd position bs
       else append_truncated env directory fd current bs)"

definition append_open :: "env \<Rightarrow> path \<Rightarrow> fd \<Rightarrow> bytes \<Rightarrow> log_append_result io" where
  "append_open env directory fd bs =
     bindI (verify env fd False True) (\<lambda>_.
     bindI (errnoI env (sys_fstat fd)) (\<lambda>(st, current).
     if current > MAX_LOG_BYTES then failI (Corrupt ''event log exceeds limit'')
     else bindI (already_truncated env fd current) (\<lambda>truncated.
       if truncated then returnI Truncated else append_payload env directory fd current bs)))"

definition log_append :: "env \<Rightarrow> path \<Rightarrow> bytes \<Rightarrow> log_append_result io" where
  "log_append env directory bs =
     bindI (errnoI env (sys_open_create env directory ''events.log'' MODE_FILE)) (\<lambda>fd.
       append_open env directory fd bs)"

definition append_event :: "env \<Rightarrow> path \<Rightarrow> bytes \<Rightarrow> log_append_result io" where
  "append_event env directory bs = log_append env directory bs"

section \<open>The log as a value\<close>

lemma length_MARKER: "length MARKER = 43"
  by (simp add: MARKER_def)

lemma payload_end: "PAYLOAD_END + 43 = MAX_LOG_BYTES" "PAYLOAD_END < MAX_LOG_BYTES"
  by (simp_all add: PAYLOAD_END_def MAX_LOG_BYTES_def length_MARKER)

text \<open>What one append does to the content.\<close>

definition logged :: "bytes \<Rightarrow> bytes \<Rightarrow> bytes" where
  "logged old bs =
     (if length old = MAX_LOG_BYTES \<and> drop PAYLOAD_END old = MARKER then old
      else if length old + length bs \<le> MAX_LOG_BYTES then old @ bs
      else take PAYLOAD_END (old @ bs) @ MARKER)"

text \<open>
  The state of the log during an append: at most the limit, and what was there before is still
  there, up to the place of the marker.
\<close>

definition log_between :: "bytes \<Rightarrow> bytes \<Rightarrow> bool" where
  "log_between old new \<longleftrightarrow> length new \<le> MAX_LOG_BYTES
     \<and> take (min (length old) PAYLOAD_END) new = take PAYLOAD_END old"

lemma log_between_refl: "length old \<le> MAX_LOG_BYTES \<Longrightarrow> log_between old old"
  by (simp add: log_between_def min_def)

lemma overwrite_at_end: "off = length old \<Longrightarrow> overwrite off new old = old @ new"
  by (simp add: overwrite_def)

lemma log_between_append:
  "length old + length bs \<le> MAX_LOG_BYTES \<Longrightarrow> log_between old (old @ take k bs)"
  by (auto simp: log_between_def min_def)

lemma take_min_length: "take (min (length xs) n) xs = take n xs"
  by (simp add: min_def)

lemma log_between_payload:
  "length old \<le> MAX_LOG_BYTES \<Longrightarrow> length (take PAYLOAD_END old) + length bs \<le> MAX_LOG_BYTES
     \<Longrightarrow> log_between old (take PAYLOAD_END old @ bs)"
  by (auto simp: log_between_def take_min_length)

lemma write_bytes_data [simp]: "fl_data (write_bytes off bs f) = overwrite off bs (fl_data f)"
  "fl_stat (write_bytes off bs f) = fl_stat f"
  by (simp_all add: write_bytes_def)

text \<open>The result of an append to the log \<open>old\<close> of directory \<open>d\<close>.\<close>

definition log_result :: "directory \<Rightarrow> bytes \<Rightarrow> bytes \<Rightarrow> log_append_result outcome \<Rightarrow> directory \<Rightarrow> bool" where
  "log_result d old bs r d' \<longleftrightarrow> (\<exists>f. d' = ins_entry ''events.log'' (FileE f) d \<and> log_between old (fl_data f)
     \<and> (\<forall>a. r = Done a \<longrightarrow> fl_data f = logged old bs
          \<and> (a = Truncated \<longleftrightarrow> length old = MAX_LOG_BYTES \<and> drop PAYLOAD_END old = MARKER
               \<or> MAX_LOG_BYTES < length old + length bs)))"

lemma log_resultI:
  "log_between old (fl_data f) \<Longrightarrow> (\<forall>a. r \<noteq> Done a) \<Longrightarrow> log_result d old bs r (ins_entry ''events.log'' (FileE f) d)"
  by (auto simp: log_result_def)

lemma log_result_done:
  "log_between old (fl_data f) \<Longrightarrow> fl_data f = logged old bs
     \<Longrightarrow> (a = Truncated \<longleftrightarrow> length old = MAX_LOG_BYTES \<and> drop PAYLOAD_END old = MARKER
          \<or> MAX_LOG_BYTES < length old + length bs)
     \<Longrightarrow> log_result d old bs (Done a) (ins_entry ''events.log'' (FileE f) d)"
  unfolding log_result_def by (intro exI [of _ f]) simp

lemma append_whole_dwp:
  assumes "bt_ok (di_entries d)" "fl_data f = old" "length old + length bs \<le> MAX_LOG_BYTES"
    and "\<not> (length old = MAX_LOG_BYTES \<and> drop PAYLOAD_END old = MARKER)"
  shows "dwp c p (append_whole env p (FdFile p ''events.log'') (length old) bs)
    (\<lambda>r d'. log_result d old bs r d' \<and> (c \<longrightarrow> (\<exists>a. r = Done a))) (ins_entry ''events.log'' (FileE f) d)"
proof -
  have l: "logged old bs = old @ bs" using assms(3,4) by (auto simp: logged_def)
  have all: "log_between old (old @ bs)" using log_between_append [OF assms(3), of "length bs"] by simp
  have some: "log_between old (old @ take k bs)" for k by (rule log_between_append [OF assms(3)])
  have ended: "log_result d old bs (Done Written) (ins_entry ''events.log''
      (FileE ((write_bytes (length old) bs f)\<lparr>fl_synced := True\<rparr>)) d)"
    by (rule log_result_done) (use assms all l in \<open>auto simp: overwrite_at_end\<close>)
  show ?thesis
    unfolding append_whole_def
    by ((rule dwp_rules)+; (simp add: assms(1,2) overwrite_at_end some all log_resultI ended)?)+
qed

lemma append_truncated_dwp:
  assumes "bt_ok (di_entries d)" "fl_data f = old" "MAX_LOG_BYTES < length old + length bs"
    and "\<not> (length old = MAX_LOG_BYTES \<and> drop PAYLOAD_END old = MARKER)" "length old \<le> MAX_LOG_BYTES"
  shows "dwp c p (append_truncated env p (FdFile p ''events.log'') (length old) bs)
    (\<lambda>r d'. log_result d old bs r d' \<and> (c \<longrightarrow> (\<exists>a. r = Done a))) (ins_entry ''events.log'' (FileE f) d)"
    (is "dwp c p _ ?R _")
proof -
  let ?L = "''events.log''"
  define base where "base = take PAYLOAD_END old"
  define off where "off = min (length old) PAYLOAD_END"
  define bs1 where "bs1 = take (min (PAYLOAD_END - off) (length bs)) bs"
  have pe: "MAX_LOG_BYTES - length MARKER = PAYLOAD_END" by (simp add: PAYLOAD_END_def)
  have len: "length base = off" "length (base @ bs1) = PAYLOAD_END"
    using assms(3) payload_end by (auto simp: base_def off_def bs1_def min_def)
  have full: "base @ bs1 = take PAYLOAD_END (old @ bs)"
    using assms(3) payload_end by (auto simp: base_def off_def bs1_def min_def)
  have l: "logged old bs = (base @ bs1) @ MARKER"
    using assms(3,4) by (auto simp: logged_def full)
  have between: "log_between old (base @ xs)" if "length base + length xs \<le> MAX_LOG_BYTES" for xs
    using that log_between_payload [OF assms(5)] by (simp add: base_def)
  have some: "log_between old (base @ take k bs1)" for k
    by (rule between) (use len payload_end in auto)
  have more: "log_between old ((base @ bs1) @ take k MARKER)" for k
    unfolding append_assoc by (rule between) (use len payload_end in \<open>auto simp: length_MARKER\<close>)
  have all: "log_between old base" "log_between old (base @ bs1)" "log_between old ((base @ bs1) @ MARKER)"
    using some [of 0] more [of 0] more [of 43] by (simp_all add: length_MARKER)
  have rest: "dwp c p (bindI (errnoI env (sys_seek (FdFile p ?L) off)) (\<lambda>position.
      bindI (errnoI env (sys_write_all (FdFile p ?L) position bs1)) (\<lambda>_.
      bindI (errnoI env (sys_seek (FdFile p ?L) PAYLOAD_END)) (\<lambda>position.
      bindI (errnoI env (sys_write_all (FdFile p ?L) position MARKER)) (\<lambda>_.
      bindI (errnoI env (sys_sync_all (FdFile p ?L))) (\<lambda>_.
      bindI (errnoI env (sys_fsync_dir p)) (\<lambda>_. returnI Truncated))))))) ?R (ins_entry ?L (FileE g) d)"
    if g: "fl_data g = base" for g
  proof -
    have w1: "overwrite off xs base = base @ xs" for xs by (rule overwrite_at_end) (simp add: len)
    have w2: "overwrite PAYLOAD_END xs (base @ bs1) = (base @ bs1) @ xs" for xs
      by (rule overwrite_at_end) (simp only: len)
    have ended: "log_result d old bs (Done Truncated) (ins_entry ?L
        (FileE ((write_bytes PAYLOAD_END MARKER (write_bytes off bs1 g))\<lparr>fl_synced := True\<rparr>)) d)"
      by (rule log_result_done) (use all l g assms(3) in \<open>simp_all add: w1 w2\<close>)
    show ?thesis
      by ((rule dwp_rules)+; (simp add: assms(1) g w1 w2 some [unfolded append_assoc]
          more [unfolded append_assoc] all [unfolded append_assoc] log_resultI ended)?)+
  qed
  show ?thesis
  proof (cases "PAYLOAD_END < length old")
    case True
    have "fl_data (f\<lparr>fl_data := take PAYLOAD_END (fl_data f) @ replicate (PAYLOAD_END - length (fl_data f)) (CHR 0x00),
        fl_synced := False\<rparr>) = base"
      using True assms(2) by (simp add: base_def)
    note cut = rest [OF this]
    show ?thesis
      unfolding append_truncated_def Let_def pe off_def [symmetric] bs1_def [symmetric]
      by (rule dwp_bind, simp only: True if_True, rule dwp_errnoI, rule dwp_set_len)
        (use cut log_between_refl [OF assms(5)] in \<open>simp_all add: assms(1,2) log_resultI\<close>)
  next
    case False
    then have "fl_data f = base" using assms(2) by (simp add: base_def)
    from rest [OF this] show ?thesis
      unfolding append_truncated_def Let_def pe off_def [symmetric] bs1_def [symmetric]
      by (intro dwp_bind [of c p "if PAYLOAD_END < length old then _ else _"])
        (use False in \<open>simp_all add: dwp_return\<close>)
  qed
qed

text \<open>The content of the log of a directory; a missing log is empty.\<close>

definition log_content :: "directory \<Rightarrow> bytes" where
  "log_content d = (case find_entry d ''events.log'' of Some (FileE f) \<Rightarrow> fl_data f | _ \<Rightarrow> [])"

lemma ins_found: "bt_ok (di_entries d) \<Longrightarrow> find_entry d n = Some e \<Longrightarrow> ins_entry n e d = d"
  by (rule entries_eqI) auto

lemma append_payload_dwp:
  assumes "bt_ok (di_entries d)" "fl_data f = old" "length old \<le> MAX_LOG_BYTES"
    and "\<not> (length old = MAX_LOG_BYTES \<and> drop PAYLOAD_END old = MARKER)"
  shows "dwp c p (append_payload env p (FdFile p ''events.log'') (length old) bs)
    (\<lambda>r d'. log_result d old bs r d' \<and> (c \<longrightarrow> (\<exists>a. r = Done a))) (ins_entry ''events.log'' (FileE f) d)"
proof -
  have "log_between old (fl_data f)" using assms(2,3) log_between_refl by simp
  then show ?thesis
    unfolding append_payload_def
    by (intro dwp_bind dwp_errnoI dwp_seek)
      (use assms append_whole_dwp [OF assms(1,2)] append_truncated_dwp [OF assms(1,2)] in
        \<open>auto simp: log_resultI\<close>)
qed

lemma already_truncated_dwp:
  assumes "find_entry d n = Some (FileE f)" "fl_data f = old"
  shows "dwp c p (already_truncated env (FdFile p n) (length old))
    (\<lambda>r d'. d' = d \<and> (\<forall>b. r = Done b \<longrightarrow> b = (length old = MAX_LOG_BYTES \<and> drop PAYLOAD_END old = MARKER))
       \<and> (c \<longrightarrow> (\<exists>b. r = Done b))) d"
proof (cases "length old = MAX_LOG_BYTES")
  case True
  then have "take (length MARKER) (drop (MAX_LOG_BYTES - length MARKER) old) = drop PAYLOAD_END old"
    using payload_end(1) by (simp add: PAYLOAD_END_def length_MARKER)
  then show ?thesis
    unfolding already_truncated_def
    by (simp only: True if_True simp_thms, intro dwp_bind dwp_errnoI dwp_seek)
      (auto simp: assms intro!: dwp_rules)
next
  case False
  then show ?thesis by (auto simp: already_truncated_def intro!: dwp_return)
qed

lemma append_open_dwp:
  assumes ok: "bt_ok (di_entries d)" and f: "fl_data f = old" and old: "length old \<le> MAX_LOG_BYTES"
  shows "dwp c p (append_open env p (FdFile p ''events.log'') bs)
    (\<lambda>r d'. log_result d old bs r d'
       \<and> (c \<and> stat_ok env False (fl_stat f) \<and> st_nlink (fl_stat f) = 1 \<longrightarrow> (\<exists>a. r = Done a)))
    (ins_entry ''events.log'' (FileE f) d)" (is "dwp c p _ ?R ?d")
proof -
  let ?full = "length old = MAX_LOG_BYTES \<and> drop PAYLOAD_END old = MARKER"
  have found: "find_entry ?d ''events.log'' = Some (FileE f)" using ok by simp
  have quit: "log_result d old bs r ?d" if "\<forall>a. r \<noteq> Done a" for r
    using log_resultI log_between_refl [OF old] f that by simp
  have same: "log_result d old bs (Done Truncated) ?d" if "?full"
    by (rule log_result_done) (use that f old in \<open>auto simp: logged_def log_between_refl\<close>)
  have tail: "dwp c p (bindI (already_truncated env (FdFile p ''events.log'') (length old)) (\<lambda>truncated.
       if truncated then returnI Truncated
       else append_payload env p (FdFile p ''events.log'') (length old) bs)) ?R ?d"
  proof (rule dwp_bind, rule dwp_mono [OF already_truncated_dwp [OF found f]], elim conjE, goal_cases)
    case (1 r d')
    then show ?case
      using same quit dwp_mono [OF append_payload_dwp [OF ok f old]]
      by (cases r) (auto intro!: dwp_return dwp_mono [OF append_payload_dwp [OF ok f old]])
  qed
  show ?thesis
    unfolding append_open_def
    by (rule dwp_bind, rule dwp_verify_file [OF _ _ found])
      (use tail quit found f old in \<open>auto intro!: dwp_bind dwp_errnoI dwp_fstat\<close>)
qed

lemma log_append_dwp:
  assumes ok: "bt_ok (di_entries d)" and old: "length (log_content d) \<le> MAX_LOG_BYTES"
  shows "dwp c p (log_append env p bs)
    (\<lambda>r d'. log_result d (log_content d) bs r d' \<or> d' = d \<and> (\<forall>a. r \<noteq> Done a)) d" (is "dwp c p _ ?R d")
proof -
  have new: "dwp c p (append_open env p (FdFile p ''events.log'') bs) ?R (ins_entry ''events.log'' (FileE f) d)"
    if "fl_data f = log_content d" for f
    using dwp_mono [OF append_open_dwp [OF ok that old]] by auto
  have existing: "dwp c p (append_open env p (FdFile p ''events.log'') bs) ?R d"
    if "find_entry d ''events.log'' = Some (FileE f)" for f
    using new [of f] ins_found [OF ok that] that by (simp add: log_content_def)
  show ?thesis
    unfolding log_append_def
    by (rule dwp_bind, rule dwp_errnoI, rule dwp_open_create)
      (use new existing in \<open>auto simp: log_content_def new_file_def\<close>)
qed

section \<open>Properties\<close>

lemma logged_full:
  "length old = MAX_LOG_BYTES \<Longrightarrow> drop PAYLOAD_END old = MARKER \<Longrightarrow> logged old bs = old"
  by (simp add: logged_def)

lemma logged_truncated:
  assumes "length old = MAX_LOG_BYTES \<and> drop PAYLOAD_END old = MARKER \<or> MAX_LOG_BYTES < length old + length bs"
  shows "length (logged old bs) = MAX_LOG_BYTES \<and> drop PAYLOAD_END (logged old bs) = MARKER"
proof (cases "length old = MAX_LOG_BYTES \<and> drop PAYLOAD_END old = MARKER")
  case False
  then have "MAX_LOG_BYTES < length old + length bs" using assms by blast
  then have "logged old bs = take PAYLOAD_END (old @ bs) @ MARKER" using False by (auto simp: logged_def)
  moreover have "length (take PAYLOAD_END (old @ bs)) = PAYLOAD_END"
    using \<open>MAX_LOG_BYTES < _\<close> payload_end by simp
  ultimately show ?thesis using payload_end by (simp add: length_MARKER)
qed (simp add: logged_def)

text \<open>
  Property C29. The event log never exceeds 64 MiB and never loses what was logged before the last 43
  bytes, whatever fails during an append; the journal records beside it are untouched. A completed
  append adds all the bytes if they fit; otherwise it fills the log up to the truncation marker,
  after which every later append leaves it as it is.
\<close>

theorem log_append_bounded:
  assumes "wd_dirs w p = Some d" "bt_ok (di_entries d)" "length (log_content d) \<le> MAX_LOG_BYTES"
    and "append_event env p bs w = (r, w')"
  shows "\<exists>d'. wd_dirs w' = (wd_dirs w)(p \<mapsto> d')
    \<and> length (log_content d') \<le> MAX_LOG_BYTES
    \<and> take (min (length (log_content d)) PAYLOAD_END) (log_content d') = take PAYLOAD_END (log_content d)
    \<and> (holds env' S d es \<longrightarrow> holds env' S d' es)
    \<and> (r = Done Written \<longrightarrow> log_content d' = log_content d @ bs)
    \<and> (r = Done Truncated \<longrightarrow> length (log_content d') = MAX_LOG_BYTES
         \<and> drop PAYLOAD_END (log_content d') = MARKER)
    \<and> (length (log_content d) = MAX_LOG_BYTES \<and> drop PAYLOAD_END (log_content d) = MARKER
         \<and> (\<exists>a. r = Done a) \<longrightarrow> log_content d' = log_content d)"
proof -
  obtain d' where d': "wd_dirs w' = (wd_dirs w)(p \<mapsto> d')"
    "log_result d (log_content d) bs r d' \<or> d' = d \<and> (\<forall>a. r \<noteq> Done a)"
    by (rule dwpD [OF log_append_dwp [OF assms(2,3), of False p env bs] assms(1)])
      (use assms(4) in \<open>auto simp: append_event_def\<close>)
  show ?thesis
  proof (cases "log_result d (log_content d) bs r d'")
    case True
    then obtain f where f: "d' = ins_entry ''events.log'' (FileE f) d" "log_between (log_content d) (fl_data f)"
      "\<forall>a. r = Done a \<longrightarrow> fl_data f = logged (log_content d) bs
          \<and> (a = Truncated \<longleftrightarrow> length (log_content d) = MAX_LOG_BYTES \<and> drop PAYLOAD_END (log_content d) = MARKER
               \<or> MAX_LOG_BYTES < length (log_content d) + length bs)"
      by (auto simp: log_result_def)
    have c: "log_content d' = fl_data f" using f(1) assms(2) by (simp add: log_content_def)
    have "\<not> ends_with ''events.log'' ''.json''" "utf8_ok ''events.log''" by code_simp+
    then have h: "holds env' S d es \<longrightarrow> holds env' S d' es"
      unfolding f(1) using holds_ins_other by blast
    have "r = Done Written \<longrightarrow> log_content d' = log_content d @ bs"
      using f(3) c by (auto simp: logged_def)
    moreover have "r = Done Truncated \<longrightarrow> length (log_content d') = MAX_LOG_BYTES
         \<and> drop PAYLOAD_END (log_content d') = MARKER"
      using f(3) c logged_truncated by metis
    moreover have "length (log_content d) = MAX_LOG_BYTES \<and> drop PAYLOAD_END (log_content d) = MARKER
         \<and> (\<exists>a. r = Done a) \<longrightarrow> log_content d' = log_content d"
      using f(3) c logged_full by metis
    moreover have "length (log_content d') \<le> MAX_LOG_BYTES
      \<and> take (min (length (log_content d)) PAYLOAD_END) (log_content d') = take PAYLOAD_END (log_content d)"
      using f(2) c by (simp only: log_between_def)
    ultimately show ?thesis using d'(1) h by blast
  next
    case False
    then have "d' = d" "\<forall>a. r \<noteq> Done a" using d'(2) by auto
    then show ?thesis using d'(1) assms(3) by (auto simp: take_min_length)
  qed
qed

theorem log_append_bounded_witness:
  "\<exists>r w' d'. append_event example_env [''journal''] ''hello''
       (example_world NoFault [SysOk, SysOk, SysOk, SysOk, SysCrash 2] example_journal) = (r, w')
     \<and> wd_dirs w' [''journal''] = Some d' \<and> length (log_content d') \<le> MAX_LOG_BYTES
     \<and> holds example_env example_serde d' [example_prepared]"
proof -
  let ?w = "example_world NoFault [SysOk, SysOk, SysOk, SysOk, SysCrash 2] example_journal"
  have d: "wd_dirs ?w [''journal''] = Some example_journal" by (simp add: example_world_def)
  have ok: "bt_ok (di_entries example_journal)" using example_holds by (simp add: holds_def dir_ok_def)
  have "find_entry example_journal ''events.log'' = None" by code_simp
  then have l: "length (log_content example_journal) \<le> MAX_LOG_BYTES" by (simp add: log_content_def)
  obtain r w' where r: "append_event example_env [''journal''] ''hello'' ?w = (r, w')" by (metis surj_pair)
  from log_append_bounded [OF d ok l r, of example_env example_serde "[example_prepared]"] example_holds
  show ?thesis using r by auto
qed

end
