(* ===== verification/State_Document.thy ===== *)
theory State_Document
  imports State_Store
begin

text \<open>
  What \<^verbatim>\<open>group.rs\<close> and \<^verbatim>\<open>reason.rs\<close> of \<^verbatim>\<open>crates/dnfast-state/src\<close> have in common: a state kept as one
  canonical JSON file in a root directory, read and replaced under the directory's lock. The
  contract between the file and its two users is the locale \<open>state_file\<close>.
\<close>

definition STATE_FILE :: string where
  "STATE_FILE = ''state.json''"

text \<open>\<^verbatim>\<open>let _lock = Lock::acquire(&root)?;\<close> with the destructor that unlocks\<close>

definition with_lock :: "env \<Rightarrow> path \<Rightarrow> 'a io \<Rightarrow> 'a io" where
  "with_lock env root m = bindI (errnoI env (sys_flock root)) (\<lambda>_. finallyI m (sys_unlock root))"

definition document_read :: "nat \<Rightarrow> 's \<Rightarrow> (bytes \<Rightarrow> (state_error, 's) result) \<Rightarrow> env \<Rightarrow> path \<Rightarrow> 's io" where
  "document_read maximum initial decode env root =
     bindI (read_optional_bounded env root STATE_FILE maximum) (\<lambda>content. case content of
       None \<Rightarrow> returnI initial
     | Some bs \<Rightarrow> liftR (decode bs))"

definition document_write ::
  "nat \<Rightarrow> string \<Rightarrow> ('s \<Rightarrow> (state_error, unit) result) \<Rightarrow> ('s \<Rightarrow> (state_error, bytes) result)
     \<Rightarrow> env \<Rightarrow> path \<Rightarrow> 's \<Rightarrow> unit io" where
  "document_write maximum what validate encode env root state =
     bindI (liftR (validate state)) (\<lambda>_.
     bindI (liftR (encode state)) (\<lambda>bs.
     if length bs > maximum then failI (Limit what)
     else write_atomic_replacing env root STATE_FILE bs))"

section \<open>Computations that leave a directory alone\<close>

definition keeps :: "path \<Rightarrow> 'a io \<Rightarrow> bool" where
  "keeps p m \<longleftrightarrow> (\<forall>w. wd_dirs (snd (m w)) p = wd_dirs w p)"

named_theorems keeps_rules \<open>introduction rules for \<open>keeps\<close>\<close>

lemma keepsD: "keeps p m \<Longrightarrow> m w = (r, w') \<Longrightarrow> wd_dirs w' p = wd_dirs w p"
  by (metis keeps_def snd_conv)

lemma keeps_pure [keeps_rules]: "keeps p (returnI x)" "keeps p (failI e)" "keeps p (liftR r)"
  by (cases r; simp add: keeps_def returnI_def failI_def liftR_def)+

lemma keeps_bind [keeps_rules]:
  assumes "keeps p m" "\<And>x. keeps p (f x)" shows "keeps p (bindI m f)"
  unfolding keeps_def
proof
  fix w
  obtain r w1 where m: "m w = (r, w1)" by fastforce
  then have "wd_dirs w1 p = wd_dirs w p" using assms(1) keepsD by metis
  moreover have "wd_dirs (snd (f x w1)) p = wd_dirs w1 p" for x
    using assms(2) [of x] by (simp add: keeps_def)
  ultimately show "wd_dirs (snd (bindI m f w)) p = wd_dirs w p"
    using m by (cases r) (simp_all add: bindI_def)
qed

lemma keeps_errnoI [keeps_rules]: "keeps p m \<Longrightarrow> keeps p (errnoI env m)"
  unfolding errnoI_def by (rule keeps_bind) (auto intro: keeps_rules split: sum.split)

lemma keeps_finally [keeps_rules]:
  assumes "keeps p m" "keeps p cleanup" shows "keeps p (finallyI m cleanup)"
  unfolding keeps_def
proof
  fix w
  obtain r w1 where m: "m w = (r, w1)" by fastforce
  obtain r2 w2 where c: "cleanup w1 = (r2, w2)" by fastforce
  have "wd_dirs w1 p = wd_dirs w p" "wd_dirs w2 p = wd_dirs w1 p"
    using m c assms keepsD by metis+
  then show "wd_dirs (snd (finallyI m cleanup w)) p = wd_dirs w p"
    using m c by (cases r; cases r2) (simp_all add: finallyI_def)
qed

lemma keeps_sys:
  assumes "\<And>w. wd_dirs (snd (act w)) p = wd_dirs w p" shows "keeps p (sys act)"
  unfolding keeps_def
proof
  fix w
  have run: "wd_dirs (snd (case act (w\<lparr>wd_sys := os\<rparr>) of (r, w') \<Rightarrow> (Done r, w'))) p = wd_dirs w p" for os
    using assms [of "w\<lparr>wd_sys := os\<rparr>"] by (simp add: case_prod_beta)
  have "wd_dirs (snd (case act w of (r, w') \<Rightarrow> (Done r, w'))) p = wd_dirs w p"
    using assms [of w] by (simp add: case_prod_beta)
  with run show "wd_dirs (snd (sys act w)) p = wd_dirs w p"
    unfolding sys_def by (cases "wd_sys w"; cases "hd (wd_sys w)") simp_all
qed

lemma keeps_calls [keeps_rules]:
  "keeps p sys_open_root" "keeps p (sys_open_dir q n)" "keeps p (sys_open_read q n)" "keeps p (sys_fstat fd)"
  "keeps p (sys_read fd k l)" "keeps p (sys_fsync_dir q)" "keeps p (sys_read_dir q)" "keeps p (sys_flock q)"
  "keeps p (sys_flock_nonblocking q)" "keeps p (sys_unlock q)" "keeps p (fault_arm x)"
  "p \<notin> {q, q @ [n]} \<Longrightarrow> keeps p (sys_mkdir env q n mode)"
  unfolding sys_open_root_def sys_open_dir_def sys_open_read_def sys_fstat_def sys_read_def sys_fsync_dir_def
    sys_read_dir_def sys_flock_def sys_flock_nonblocking_def sys_unlock_def sys_mkdir_def
  by (auto simp: put_entry_def upd_dir_def intro!: keeps_sys) (simp add: keeps_def fault_arm_def)


lemma keeps_case [keeps_rules]:
  "(\<And>x. keeps p (f x)) \<Longrightarrow> (\<And>y. keeps p (g y)) \<Longrightarrow> keeps p (case r of Inl x \<Rightarrow> f x | Inr y \<Rightarrow> g y)"
  "keeps p a \<Longrightarrow> keeps p b \<Longrightarrow> keeps p (if q then a else b)"
  "(\<And>x y. keeps p (h x y)) \<Longrightarrow> keeps p (case z of (x, y) \<Rightarrow> h x y)"
  by (simp_all split: sum.split prod.split)

lemma keeps_verify [keeps_rules]: "keeps p (verify env fd a b)"
  unfolding verify_def by (intro keeps_rules)

lemma keeps_read_open [keeps_rules]: "keeps p (read_open env fd maximum)"
  unfolding read_open_def by (intro keeps_rules)

lemma keeps_read_bounded [keeps_rules]: "keeps p (read_bounded env q n maximum)"
  unfolding read_bounded_def by (intro keeps_rules)

lemma keeps_child_names [keeps_rules]: "keeps p (child_names env q)"
  unfolding child_names_def by (intro keeps_rules)

lemma keeps_make_last: "p \<notin> {q, q @ [n]} \<Longrightarrow> keeps p (make_last env q n)"
  unfolding make_last_def by (intro keeps_rules) (auto split: errno.split intro: keeps_rules)

lemma open_dir_path: "errnoI env (sys_open_dir q n) w = (Done q', w') \<Longrightarrow> q' = q @ [n]"
  by (auto simp: errnoI_def sys_open_dir_def sys_def bindI_def failI_def returnI_def
      split: list.splits sys_outcome.splits option.splits dir_entry.splits)

lemma keeps_open_components:
  "p \<noteq> current @ butlast names \<Longrightarrow> p \<noteq> current @ names \<Longrightarrow> keeps p (open_components env True current names)"
proof (induction names arbitrary: current)
  case (Cons name names)
  have rest: "keeps p (open_components env True (current @ [name]) names)" if "names \<noteq> []"
    using Cons.prems that by (intro Cons.IH) auto
  have step: "keeps p (bindI (errnoI env (sys_open_dir current name)) (\<lambda>next. open_components env True next names))"
    unfolding keeps_def
  proof
    fix w
    obtain r w1 where o: "errnoI env (sys_open_dir current name) w = (r, w1)" by fastforce
    have d: "wd_dirs w1 p = wd_dirs w p"
      using keepsD [of p "errnoI env (sys_open_dir current name)"] o by (blast intro: keeps_rules)
    have r: "next = current @ [name]" if "r = Done next" for "next"
      using o that open_dir_path by blast
    have "wd_dirs (snd (open_components env True (current @ [name]) names w1)) p = wd_dirs w1 p"
      using rest by (cases "names = []") (simp_all add: keeps_def returnI_def)
    then show "wd_dirs (snd (bindI (errnoI env (sys_open_dir current name))
        (\<lambda>next. open_components env True next names) w)) p = wd_dirs w p"
      using o d r by (cases r) (simp_all add: bindI_def)
  qed
  have "keeps p (if names = [] then make_last env current name else returnI ())"
    using Cons.prems by (cases "names = []") (simp_all add: keeps_make_last keeps_pure)
  with step show ?case by (auto intro: keeps_rules)
qed (simp add: keeps_pure)

text \<open>The directory \<open>p\<close> is neither the one that \<open>path\<close> names nor its parent.\<close>

definition apart :: "path \<Rightarrow> string \<Rightarrow> bool" where
  "apart p path = (case mapR (normal_component ''invalid journal root component'') (tl (components path)) of
     Inl _ \<Rightarrow> True | Inr names \<Rightarrow> p \<noteq> names \<and> p \<noteq> butlast names)"

lemma open_components_root:
  "bindI (errnoI env sys_open_root) (\<lambda>root. f root) = bindI (errnoI env sys_open_root) (\<lambda>_. f [])"
  by (rule ext) (simp add: bindI_def errnoI_def sys_open_root_def sys_def returnI_def failI_def
      split: list.split sys_outcome.split)

lemma keeps_open_root:
  assumes "apart p path" shows "keeps p (open_or_create_root env path)"
proof (cases "mapR (normal_component ''invalid journal root component'') (tl (components path))")
  case (Inl e)
  show ?thesis
    unfolding open_or_create_root_def
    by (auto split: list.split component.split intro!: keeps_pure) (use Inl in \<open>simp add: keeps_def bindI_def liftR_def failI_def\<close>)
next
  case (Inr names)
  have "keeps p (open_components env True [] names)"
    using assms Inr by (intro keeps_open_components) (auto simp: apart_def)
  then have "keeps p (bindI (errnoI env sys_open_root) (\<lambda>root. bindI (open_components env True root names)
      (\<lambda>current. bindI (verify env (FdDir current) True False) (\<lambda>_. returnI current))))"
    by (subst open_components_root) (intro keeps_rules)
  then have "keeps p (if names = [] then failI (UnsafePath ''journal root cannot be filesystem root'')
      else bindI (errnoI env sys_open_root) (\<lambda>root. bindI (open_components env True root names)
      (\<lambda>current. bindI (verify env (FdDir current) True False) (\<lambda>_. returnI current))))"
    by (auto intro: keeps_pure)
  then show ?thesis
    unfolding open_or_create_root_def
    by (auto split: list.split component.split intro!: keeps_pure)
      (use Inr in \<open>simp add: keeps_def bindI_def liftR_def returnI_def\<close>)
qed

lemma keeps_store_open [keeps_rules]: "apart p path \<Longrightarrow> keeps p (store_open env path)"
  unfolding store_open_def store_with_faults_def by (intro keeps_rules keeps_open_root)

lemma keeps_lock_journal [keeps_rules]: "keeps p (lock_journal env q)"
  unfolding lock_journal_def by (intro keeps_rules) (auto split: errno.split intro: keeps_rules)

lemma keeps_open_transaction [keeps_rules]:
  "keeps p (open_transaction env q n)" "keeps p (store_open_transaction env q ident)" "keeps p (drop_journal q)"
  unfolding open_transaction_def store_open_transaction_def
  by (intro keeps_rules)+ (simp add: keeps_def drop_journal_def)

lemma keeps_transaction_ids [keeps_rules]: "keeps p (transaction_ids env q)"
  unfolding transaction_ids_def by (intro keeps_rules)

lemma keeps_load_records [keeps_rules]: "keeps p (load_records env S q seen names)"
  by (induction names arbitrary: seen) (auto intro!: keeps_rules)

lemma keeps_load_entries [keeps_rules]: "keeps p (load_entries env S q)"
  unfolding load_entries_def Let_def by (intro keeps_rules)

section \<open>The contract of a state file\<close>

text \<open>
  No call fails with \<^verbatim>\<open>ENOENT\<close> although the file exists: the store reads a missing file as the initial
  state, so such a failure would be taken for an empty store.
\<close>

definition honest :: "world \<Rightarrow> bool" where
  "honest w \<longleftrightarrow> (\<forall>k. SysFail NOENT k \<notin> set (wd_sys w))"

text \<open>What the operations assume of the root directory, besides the state file's content.\<close>

definition root_ok :: "env \<Rightarrow> directory \<Rightarrow> bool" where
  "root_ok env d \<longleftrightarrow> bt_ok (di_entries d) \<and> find_entry d STATE_FILE \<noteq> Some DirectoryE
     \<and> find_entry d (replace_temporary env STATE_FILE) \<noteq> Some DirectoryE"

text \<open>The state that a root directory stores.\<close>

definition document_stored ::
  "'s \<Rightarrow> ('s \<Rightarrow> (state_error, bytes) result) \<Rightarrow> ('s \<Rightarrow> (state_error, 's) result) \<Rightarrow> directory \<Rightarrow> 's \<Rightarrow> bool" where
  "document_stored initial encode upgrade d s \<longleftrightarrow> (case find_entry d STATE_FILE of
       None \<Rightarrow> s = initial
     | Some (FileE f) \<Rightarrow> (\<exists>s0. encode s0 = Inr (fl_data f) \<and> upgrade s0 = Inr s)
     | Some _ \<Rightarrow> False)"

lemma state_file_not_temporary [simp]: "STATE_FILE \<noteq> replace_temporary env STATE_FILE"
  by (simp add: STATE_FILE_def replace_temporary_def)

lemma optional_read_missing:
  assumes "read_optional_bounded env p n maximum w = (Done None, w')" "honest w" "wd_dirs w p = Some d"
  shows "find_entry d n = None"
  using assms
  by (auto simp: read_optional_bounded_def bindI_def sys_open_read_def sys_def honest_def entry_at_def
      returnI_def failI_def split: list.splits sys_outcome.splits option.splits dir_entry.splits outcome.splits
      prod.splits errno.splits)

lemma with_lockD:
  assumes "with_lock env p m w = (r, w')"
  obtains (refused) "\<forall>x. r \<noteq> Done x" "wd_dirs w' = wd_dirs w"
  | (taken) w0 r1 w1 where "m w0 = (r1, w1)" "wd_dirs w0 = wd_dirs w" "wd_dirs w' = wd_dirs w1"
      "r = r1 \<or> r = Crashed" "honest w \<longrightarrow> honest w0" "calm w \<longrightarrow> calm w0" "calm w1 \<longrightarrow> r = r1"
proof -
  obtain a w0 where f: "errnoI env (sys_flock p) w = (a, w0)" by fastforce
  have w0: "wd_dirs w0 = wd_dirs w" "honest w \<longrightarrow> honest w0" "calm w \<longrightarrow> calm w0"
    using f by (auto simp: errnoI_def bindI_def sys_flock_def sys_def honest_def calm_def returnI_def failI_def
        split: list.splits sys_outcome.splits)
  obtain r1 w1 where m: "m w0 = (r1, w1)" by fastforce
  obtain b w2 where u: "sys_unlock p w1 = (b, w2)" by fastforce
  have w2: "wd_dirs w2 = wd_dirs w1" "calm w1 \<longrightarrow> b \<noteq> Crashed"
    using u by (auto simp: sys_unlock_def sys_def calm_def split: list.splits sys_outcome.splits)
  show thesis
  proof (cases a)
    case (Done x)
    then have "finallyI m (sys_unlock p) w0 = (r, w')"
      using assms f by (simp add: with_lock_def bindI_def)
    then have "wd_dirs w' = wd_dirs w1 \<and> (r = r1 \<or> r = Crashed) \<and> (calm w1 \<longrightarrow> r = r1)"
      using m u w2 by (cases r1; cases b) (auto simp: finallyI_def)
    then show thesis using taken [OF m w0(1)] w0 by blast
  qed (use assms f w0 refused in \<open>auto simp: with_lock_def bindI_def\<close>)
qed

lemma canonical_parse_serialize: "canonical_parse S bs = Inr v \<Longrightarrow> canonical_serialize S v = Inr bs"
  by (auto simp: canonical_parse_def bindR_eq_Inr split: if_splits)

lemma stored_cong: "find_entry d' STATE_FILE = find_entry d STATE_FILE \<Longrightarrow>
    document_stored i e u d' s = document_stored i e u d s"
  by (simp add: document_stored_def)

lemma bindI_assoc: "bindI (bindI m f) g = bindI m (\<lambda>x. bindI (f x) g)"
  by (rule ext) (simp add: bindI_def split: prod.split outcome.split)

lemma bindI_Done: "bindI m f w = (Done y, w') \<longleftrightarrow> (\<exists>x w1. m w = (Done x, w1) \<and> f x w1 = (Done y, w'))"
  by (auto simp: bindI_def split: prod.splits outcome.splits)

lemma bindI_cases:
  assumes "bindI m f w = (r, w')"
  obtains (stopped) a where "m w = (a, w')" "\<forall>x. a \<noteq> Done x" "\<forall>y. r \<noteq> Done y"
  | (continued) x w1 where "m w = (Done x, w1)" "f x w1 = (r, w')"
  using assms by (cases "m w"; cases "fst (m w)") (auto simp: bindI_def)

lemma optional_read_found:
  assumes d: "wd_dirs w p = Some d" and o: "read_optional_bounded env p n maximum w = (Done (Some bs), w')"
  shows "\<exists>f. find_entry d n = Some (FileE f) \<and> readable env maximum f \<and> bs = fl_data f"
proof -
  have c: "False \<longrightarrow> calm w" by simp
  obtain r2 w2 where "read_optional_bounded env p n maximum w = (r2, w2)" "\<forall>bs. r2 = Done (Some bs)
      \<longrightarrow> (\<exists>f. find_entry d n = Some (FileE f) \<and> readable env maximum f \<and> bs = fl_data f)"
    by (rule dwpD [OF read_optional_bounded_dwp [of False p env n maximum d] d c]) blast
  with o show ?thesis by simp
qed

lemma optional_read_keeps:
  assumes d: "wd_dirs w p = Some d" and o: "read_optional_bounded env p n maximum w = (r, w')"
  shows "wd_dirs w' = wd_dirs w"
proof -
  have c: "False \<longrightarrow> calm w" by simp
  obtain r2 w2 d2 where "read_optional_bounded env p n maximum w = (r2, w2)"
    "wd_dirs w2 = (wd_dirs w)(p \<mapsto> d2)" "d2 = d"
    by (rule dwpD [OF read_optional_bounded_dwp [of False p env n maximum d] d c]) blast
  with o d show ?thesis by (simp add: fun_upd_idem)
qed

lemma optional_read_calm:
  assumes d: "wd_dirs w p = Some d" and c: "calm w"
    and f: "find_entry d n = Some (FileE f)" "readable env maximum f"
  shows "\<exists>w'. read_optional_bounded env p n maximum w = (Done (Some (fl_data f)), w') \<and> wd_dirs w' = wd_dirs w \<and> calm w'"
proof -
  have c': "True \<longrightarrow> calm w" using c by simp
  obtain r2 w2 d2 where r: "read_optional_bounded env p n maximum w = (r2, w2)"
    "wd_dirs w2 = (wd_dirs w)(p \<mapsto> d2)" "True \<longrightarrow> calm w2" "d2 = d" "r2 = Done (Some (fl_data f))"
    by (rule dwpD [OF read_optional_bounded_dwp [of True p env n maximum d] d c']) (use f in blast)
  with d show ?thesis by (simp add: fun_upd_idem)
qed

locale state_file =
  fixes initial :: 's
    and decode :: "bytes \<Rightarrow> (state_error, 's) result"
    and encode :: "'s \<Rightarrow> (state_error, bytes) result"
    and validate :: "'s \<Rightarrow> (state_error, unit) result"
    and upgrade :: "'s \<Rightarrow> (state_error, 's) result"
    and maximum :: nat
    and what :: string
  assumes initial_valid: "validate initial = Inr ()"
    and decode_valid: "decode bs = Inr s \<Longrightarrow> validate s = Inr ()"
    and decode_exact: "decode bs = Inr s \<Longrightarrow> \<exists>s0. encode s0 = Inr bs \<and> upgrade s0 = Inr s"
    and upgrade_valid: "validate s = Inr () \<Longrightarrow> upgrade s = Inr s"
begin

abbreviation stored :: "directory \<Rightarrow> 's \<Rightarrow> bool" where
  "stored \<equiv> document_stored initial encode upgrade"

lemma read_stored:
  assumes r: "document_read maximum initial decode env p w = (Done s, w')" and h: "honest w"
    and d: "wd_dirs w p = Some d"
  shows "stored d s \<and> validate s = Inr () \<and> wd_dirs w' = wd_dirs w"
proof -
  obtain a w1 where a: "read_optional_bounded env p STATE_FILE maximum w = (a, w1)" by fastforce
  then obtain content where o: "read_optional_bounded env p STATE_FILE maximum w = (Done content, w1)"
    using r by (cases a) (simp_all add: document_read_def bindI_def)
  note w1 = optional_read_keeps [OF d o]
  show ?thesis
  proof (cases content)
    case None
    then have "find_entry d STATE_FILE = None" using optional_read_missing o h d by blast
    moreover have "s = initial" "w' = w1"
      using r o None by (simp_all add: document_read_def bindI_def returnI_def)
    ultimately show ?thesis using w1 initial_valid by (simp add: document_stored_def)
  next
    case (Some bs)
    then have dec: "decode bs = Inr s" and w': "w' = w1"
      using r o by (auto simp: document_read_def bindI_def liftR_def returnI_def failI_def split: sum.splits)
    obtain f where f: "find_entry d STATE_FILE = Some (FileE f)" "bs = fl_data f" using optional_read_found [OF d] o Some by blast
    then have "stored d s" using decode_exact [OF dec] by (simp add: document_stored_def)
    then show ?thesis using decode_valid [OF dec] w1 w' by simp
  qed
qed

lemma read_calm:
  assumes "wd_dirs w p = Some d" "calm w" "find_entry d STATE_FILE = Some (FileE f)" "readable env maximum f"
  shows "\<exists>w'. document_read maximum initial decode env p w = liftR (decode (fl_data f)) w'
    \<and> wd_dirs w' = wd_dirs w \<and> calm w'"
  using optional_read_calm [OF assms] by (auto simp: document_read_def bindI_def)

lemma stored_written: "find_entry d STATE_FILE = Some (FileE (record_file env bs)) \<Longrightarrow> encode s = Inr bs
    \<Longrightarrow> validate s = Inr () \<Longrightarrow> stored d s"
  by (auto simp: document_stored_def upgrade_valid)

lemma write_dwp:
  assumes d: "root_ok env d"
  shows "dwp c p (document_write maximum what validate encode env p s)
    (\<lambda>r d'. root_ok env d' \<and> (find_entry d' STATE_FILE = find_entry d STATE_FILE \<or> stored d' s)
       \<and> (r = Done () \<longrightarrow> stored d' s \<and> validate s = Inr ())
       \<and> (\<forall>bs. c \<and> validate s = Inr () \<and> encode s = Inr bs \<and> length bs \<le> maximum \<longrightarrow> r = Done ()
            \<and> find_entry d' STATE_FILE = Some (FileE (record_file env bs)))) d" (is "dwp c p _ ?R d")
proof (cases "validate s")
  case (Inl e)
  then show ?thesis by (auto simp: document_write_def bindI_def liftR_def failI_def dwp_def d intro: dirs_unchanged)
next
  case (Inr u)
  show ?thesis
  proof (cases "encode s")
    case (Inl e)
    then show ?thesis using Inr
      by (auto simp: document_write_def bindI_def liftR_def failI_def returnI_def dwp_def d intro: dirs_unchanged)
  next
    case e: (Inr bs)
    let ?t = "replace_temporary env STATE_FILE"
    have ok: "bt_ok (di_entries d)" "find_entry d STATE_FILE \<noteq> Some DirectoryE" "find_entry d ?t \<noteq> Some DirectoryE"
      using d by (auto simp: root_ok_def)
    have W: "dwp c p (write_atomic_replacing env p STATE_FILE bs) ?R d"
    proof (rule dwp_mono [OF write_atomic_replacing_dwp [OF ok]], simp, elim conjE, goal_cases)
      case (1 r d')
      consider "d' = d" "r \<noteq> Done ()" | "d' = rem_entry ?t d" "r \<noteq> Done ()"
        | f where "d' = ins_entry ?t (FileE f) (rem_entry ?t d)" "r \<noteq> Done ()"
        | "d' = ins_entry STATE_FILE (FileE (record_file env bs)) (rem_entry ?t d)"
        using 1(1) by (auto simp: write_result_def)
      then show ?case
      proof cases
        case 4
        then have "find_entry d' STATE_FILE = Some (FileE (record_file env bs))" "root_ok env d'"
          using ok by (simp_all add: root_ok_def)
        then show ?thesis using 1(2) stored_written [OF _ e] e Inr by auto
      qed (use 1(2) ok d e in \<open>auto simp: root_ok_def\<close>)
    qed
    have "document_write maximum what validate encode env p s =
        (if length bs > maximum then failI (Limit what) else write_atomic_replacing env p STATE_FILE bs)"
      using Inr e by (auto simp: document_write_def bindI_def liftR_def returnI_def intro!: ext)
    then show ?thesis using W d e by (auto intro!: dwp_fail)
  qed
qed

end

end
