(* ===== verification/State_Group.thy ===== *)
theory State_Group
  imports State_Document
begin

text \<open>
  \<^verbatim>\<open>crates/dnfast-state/src/group.rs\<close>: which package groups are installed, which packages each of
  them owns and which of these the group introduced, with the mutations that wait for the outcome
  of their transaction. \<open>S\<close> is the serializer of the state, \<open>J\<close> that of journal entries.
\<close>

section \<open>The state\<close>

definition SYSTEM_GROUP_ROOT :: string where "SYSTEM_GROUP_ROOT = ''/var/lib/dnfast/groups''"
definition SYSTEM_JOURNAL_ROOT :: string where "SYSTEM_JOURNAL_ROOT = ''/var/lib/dnfast/transactions''"
definition GROUP_MAX_STATE_BYTES :: nat where "GROUP_MAX_STATE_BYTES = 8 * 1024 * 1024"
definition MAX_GROUPS :: nat where "MAX_GROUPS = 4096"
definition MAX_PACKAGES :: nat where "MAX_PACKAGES = 65536"
definition MAX_PENDING :: nat where "MAX_PENDING = 128"

type_synonym owned = "(string, string list) btree_map"

record group_record =
  gr_id :: string
  gr_owned_packages :: "string list"

datatype mutation_kind = MutationInstall | MutationRemove

record pending_mutation =
  pm_plan_sha256 :: string
  pm_kind :: mutation_kind
  pm_groups :: owned
  pm_introduced_packages :: "string list"
  pm_seen_transaction_ids :: "string list"

record group_state =
  gs_schema_version :: u32
  gs_groups :: owned
  gs_introduced_packages :: "string list"
  gs_pending :: "pending_mutation list"

definition group_default :: group_state where
  "group_default = \<lparr>gs_schema_version = 2, gs_groups = [], gs_introduced_packages = [], gs_pending = []\<rparr>"

section \<open>Validation\<close>

definition validate_id :: "string \<Rightarrow> (state_error, unit) result" where
  "validate_id value =
     (if value = [] \<or> length value > 4096
        \<or> list_ex (\<lambda>byte. \<not> (is_ascii_alphanumeric byte \<or> byte \<in> set ''+._-'')) value
      then Inl (Corrupt ''invalid group or package identifier'') else Inr ())"

definition validate_sorted_ids :: "string list \<Rightarrow> (state_error, unit) result" where
  "validate_sorted_ids values =
     (if any_window (\<ge>) values then Inl (Corrupt ''identifiers are not canonical'')
      else forR validate_id values)"

definition validate_ids :: "string list \<Rightarrow> (state_error, unit) result" where
  "validate_ids values = validate_sorted_ids values"

definition group_validate_digest :: "string \<Rightarrow> (state_error, unit) result" where
  "group_validate_digest value =
     (if length value = 64 \<and> list_all is_lower_hex value then Inr ()
      else Inl (Corrupt ''invalid SHA-256''))"

definition validate_owned :: "owned \<Rightarrow> (state_error, unit) result" where
  "validate_owned groups =
     forR (\<lambda>(ident, packages). bindR (validate_id ident) (\<lambda>_. validate_sorted_ids packages)) groups"

definition validate_mutation :: "pending_mutation \<Rightarrow> (state_error, unit) result" where
  "validate_mutation m =
     bindR (group_validate_digest (pm_plan_sha256 m)) (\<lambda>_.
     if pm_groups m = [] then Inl (Corrupt ''empty pending group mutation'')
     else bindR (validate_owned (pm_groups m)) (\<lambda>_.
     bindR (validate_sorted_ids (pm_introduced_packages m)) (\<lambda>_.
     if (pm_kind m = MutationRemove \<and> pm_introduced_packages m \<noteq> [])
       \<or> list_ex (\<lambda>package. package \<notin> set (concat (bt_values (pm_groups m)))) (pm_introduced_packages m)
     then Inl (Corrupt ''invalid introduced packages in pending group mutation'')
     else if any_window (\<ge>) (pm_seen_transaction_ids m)
     then Inl (Corrupt ''noncanonical pending transaction ids'')
     else Inr ())))"

definition package_count :: "group_state \<Rightarrow> nat" where
  "package_count s = sum_list (map length (bt_values (gs_groups s))) + length (gs_introduced_packages s)
     + sum_list (map length (concat (map (\<lambda>m. bt_values (pm_groups m)) (gs_pending s))))
     + sum_list (map (\<lambda>m. length (pm_introduced_packages m)) (gs_pending s))"

definition group_validate_state :: "group_state \<Rightarrow> (state_error, unit) result" where
  "group_validate_state s =
     (if gs_schema_version s \<noteq> 2 \<or> length (gs_groups s) > MAX_GROUPS \<or> length (gs_pending s) > MAX_PENDING
      then Inl (Corrupt ''invalid group state bounds'')
      else if package_count s > MAX_PACKAGES then Inl (Limit ''group packages'')
      else bindR (validate_owned (gs_groups s)) (\<lambda>_.
      bindR (validate_sorted_ids (gs_introduced_packages s)) (\<lambda>_.
      if list_ex (\<lambda>package. package \<notin> set (concat (bt_values (gs_groups s)))) (gs_introduced_packages s)
      then Inl (Corrupt ''introduced package has no installed group owner'')
      else forR validate_mutation (gs_pending s))))"

section \<open>Changes of the state\<close>

fun canonical_record :: "group_record \<Rightarrow> owned \<Rightarrow> (state_error, owned) result" where
  "canonical_record record result =
     bindR (validate_id (gr_id record)) (\<lambda>_.
     let packages = sort_dedup (gr_owned_packages record) in
     if list_ex (\<lambda>package. validate_id package \<noteq> Inr ()) packages \<or> map_of result (gr_id record) \<noteq> None
     then Inl (Corrupt ''invalid group record'')
     else Inr (bt_insert (gr_id record) packages result))"

fun collect_records :: "group_record list \<Rightarrow> owned \<Rightarrow> (state_error, owned) result" where
  "collect_records [] result = Inr result"
| "collect_records (r # rs) result = bindR (canonical_record r result) (collect_records rs)"

definition canonical_records :: "group_record list \<Rightarrow> (state_error, owned) result" where
  "canonical_records given = collect_records given []"

definition extend_group :: "string \<times> string list \<Rightarrow> owned \<Rightarrow> owned" where
  "extend_group = (\<lambda>(ident, packages) groups.
     bt_insert ident (sort_dedup ((case map_of groups ident of None \<Rightarrow> [] | Some owned \<Rightarrow> owned) @ packages)) groups)"

definition apply_install :: "group_state \<Rightarrow> owned \<Rightarrow> string list \<Rightarrow> group_state" where
  "apply_install s groups introduced =
     s\<lparr>gs_groups := fold extend_group groups (gs_groups s),
       gs_introduced_packages := sort_dedup (gs_introduced_packages s @ introduced)\<rparr>"

definition retained_packages :: "owned \<Rightarrow> string list \<Rightarrow> string set" where
  "retained_packages groups removing = set (concat (map snd (filter (\<lambda>(ident, _). ident \<notin> set removing) groups)))"

definition released_packages :: "owned \<Rightarrow> string list \<Rightarrow> string list" where
  "released_packages groups removing =
     filter (\<lambda>package. package \<notin> retained_packages groups removing)
       (concat (map snd (filter (\<lambda>(ident, _). ident \<in> set removing) groups)))"

definition apply_remove :: "group_state \<Rightarrow> string list \<Rightarrow> group_state" where
  "apply_remove s ids =
     s\<lparr>gs_introduced_packages :=
         filter (\<lambda>package. package \<notin> set (released_packages (gs_groups s) ids)) (gs_introduced_packages s),
       gs_groups := fold bt_remove ids (gs_groups s)\<rparr>"

definition removable_packages :: "group_state \<Rightarrow> string list \<Rightarrow> string list" where
  "removable_packages s ids =
     sort_dedup (filter (\<lambda>package. binary_search_is_ok (gs_introduced_packages s) package)
       (released_packages (gs_groups s) ids))"

definition migrate_mutation :: "pending_mutation \<Rightarrow> pending_mutation" where
  "migrate_mutation m =
     (if pm_kind m = MutationInstall
      then m\<lparr>pm_introduced_packages := sort_dedup (concat (bt_values (pm_groups m)))\<rparr> else m)"

definition migrate :: "group_state \<Rightarrow> (state_error, group_state) result" where
  "migrate s =
     (if gs_schema_version s = 1
      then Inr (s\<lparr>gs_introduced_packages := sort_dedup (concat (bt_values (gs_groups s))),
                 gs_pending := map migrate_mutation (gs_pending s), gs_schema_version := 2\<rparr>)
      else if gs_schema_version s = 2 then Inr s
      else Inl (Corrupt ''unsupported group state schema''))"

section \<open>The store\<close>

definition group_encode :: "(group_state, 'g) serde \<Rightarrow> group_state \<Rightarrow> (state_error, bytes) result" where
  "group_encode S s = map_err corrupt (canonical_serialize S s)"

definition group_decode :: "(group_state, 'g) serde \<Rightarrow> bytes \<Rightarrow> (state_error, group_state) result" where
  "group_decode S bs =
     bindR (map_err corrupt (canonical_parse S bs)) (\<lambda>state.
     bindR (group_encode S state) (\<lambda>again.
     if again \<noteq> bs then Inl (Corrupt ''group state is not canonical JSON'')
     else bindR (migrate state) (\<lambda>state.
     bindR (group_validate_state state) (\<lambda>_. Inr state))))"

definition group_read :: "env \<Rightarrow> (group_state, 'g) serde \<Rightarrow> path \<Rightarrow> group_state io" where
  "group_read env S root = document_read GROUP_MAX_STATE_BYTES group_default (group_decode S) env root"

definition group_write :: "env \<Rightarrow> (group_state, 'g) serde \<Rightarrow> path \<Rightarrow> group_state \<Rightarrow> unit io" where
  "group_write env S root s =
     document_write GROUP_MAX_STATE_BYTES ''group state'' group_validate_state (group_encode S) env root s"

definition transaction_entries :: "env \<Rightarrow> (journal_entry, 'j) serde \<Rightarrow> path \<Rightarrow> transaction_id \<Rightarrow> journal_entry list io" where
  "transaction_entries env J journal ident =
     bindI (store_open_transaction env journal ident) (\<lambda>directory.
       finallyI (load_entries env J directory) (drop_journal directory))"

text \<open>Whether the journal of a transaction settles a mutation, and with which outcome.\<close>

definition terminal_of :: "pending_mutation \<Rightarrow> journal_entry list \<Rightarrow> bool option" where
  "terminal_of m entries =
     (if entries = [] \<or> je_plan_sha256 (hd entries) \<noteq> pm_plan_sha256 m then None
      else if je_state (last entries) \<noteq> Reconciled then None
      else Some (list_ex (\<lambda>e. je_state e = RpmResult
               \<and> (case je_native_result e of None \<Rightarrow> False | Some r \<Rightarrow> nr_return_code r = 0)) entries
             \<and> (case je_reconciliation (last entries) of None \<Rightarrow> False | Some r \<Rightarrow> rr_success r)))"

fun find_terminal ::
  "env \<Rightarrow> (journal_entry, 'j) serde \<Rightarrow> path \<Rightarrow> pending_mutation \<Rightarrow> transaction_id list \<Rightarrow> bool option io" where
  "find_terminal env J journal m [] = returnI None"
| "find_terminal env J journal m (ident # ids) =
     (if tid_str ident \<in> set (pm_seen_transaction_ids m) then find_terminal env J journal m ids
      else bindI (transaction_entries env J journal ident) (\<lambda>entries.
        case terminal_of m entries of
          None \<Rightarrow> find_terminal env J journal m ids
        | Some succeeded \<Rightarrow> returnI (Some succeeded)))"

text \<open>The state without its pending list, the mutations kept and whether anything was settled.\<close>

type_synonym settling = "group_state \<times> pending_mutation list \<times> bool"

definition settle :: "bool option \<Rightarrow> pending_mutation \<Rightarrow> settling \<Rightarrow> settling" where
  "settle outcome m = (\<lambda>(s, retained, changed). case outcome of
       Some True \<Rightarrow> (case pm_kind m of
           MutationInstall \<Rightarrow> (apply_install s (pm_groups m) (pm_introduced_packages m), retained, True)
         | MutationRemove \<Rightarrow> (apply_remove s (bt_keys (pm_groups m)), retained, True))
     | Some False \<Rightarrow> (s, retained, True)
     | None \<Rightarrow> (s, retained @ [m], changed))"

fun settle_all ::
  "env \<Rightarrow> (journal_entry, 'j) serde \<Rightarrow> path \<Rightarrow> transaction_id list \<Rightarrow> pending_mutation list \<Rightarrow> settling \<Rightarrow> settling io" where
  "settle_all env J journal ids [] acc = returnI acc"
| "settle_all env J journal ids (m # ms) acc =
     bindI (find_terminal env J journal m ids) (\<lambda>outcome. settle_all env J journal ids ms (settle outcome m acc))"

definition consult_journal ::
  "env \<Rightarrow> (journal_entry, 'j) serde \<Rightarrow> string \<Rightarrow> group_state \<Rightarrow> settling io" where
  "consult_journal env J journal_root s =
     bindI (store_open env journal_root) (\<lambda>journal.
     bindI (transaction_ids env journal) (\<lambda>ids.
     settle_all env J journal ids (gs_pending s) (s\<lparr>gs_pending := []\<rparr>, [], False)))"

definition finish_reconcile :: "env \<Rightarrow> (group_state, 'g) serde \<Rightarrow> path \<Rightarrow> settling \<Rightarrow> group_state io" where
  "finish_reconcile env S root = (\<lambda>(s, retained, changed).
     let s' = s\<lparr>gs_pending := retained\<rparr> in
     bindI (liftR (group_validate_state s')) (\<lambda>_.
     bindI (if changed then group_write env S root s' else returnI ()) (\<lambda>_. returnI s')))"

definition reconcile_locked ::
  "env \<Rightarrow> (group_state, 'g) serde \<Rightarrow> (journal_entry, 'j) serde \<Rightarrow> path \<Rightarrow> string \<Rightarrow> group_state io" where
  "reconcile_locked env S J root journal_root =
     bindI (group_read env S root) (\<lambda>s.
     if gs_pending s = [] then returnI s
     else bindI (consult_journal env J journal_root s) (finish_reconcile env S root))"

definition group_open_with_journal :: "env \<Rightarrow> string \<Rightarrow> string \<Rightarrow> (path \<times> string) io" where
  "group_open_with_journal env root journal_root =
     bindI (open_or_create_root env root) (\<lambda>fd. returnI (fd, journal_root))"

definition group_open_system :: "env \<Rightarrow> (path \<times> string) io" where
  "group_open_system env =
     (if en_euid env \<noteq> 0 then failI (UnsafePath ''system group state requires root'')
      else group_open_with_journal env SYSTEM_GROUP_ROOT SYSTEM_JOURNAL_ROOT)"

definition installed_group_ids ::
  "env \<Rightarrow> (group_state, 'g) serde \<Rightarrow> (journal_entry, 'j) serde \<Rightarrow> path \<Rightarrow> string \<Rightarrow> string list io" where
  "installed_group_ids env S J root journal_root =
     with_lock env root (bindI (reconcile_locked env S J root journal_root) (\<lambda>s.
       returnI (bt_keys (gs_groups s))))"

definition packages_to_remove ::
  "env \<Rightarrow> (group_state, 'g) serde \<Rightarrow> (journal_entry, 'j) serde \<Rightarrow> path \<Rightarrow> string \<Rightarrow> string list \<Rightarrow> string list io" where
  "packages_to_remove env S J root journal_root ids =
     bindI (liftR (validate_ids ids)) (\<lambda>_.
     with_lock env root (bindI (reconcile_locked env S J root journal_root) (\<lambda>s.
       returnI (removable_packages s ids))))"

definition apply_install_now ::
  "env \<Rightarrow> (group_state, 'g) serde \<Rightarrow> (journal_entry, 'j) serde \<Rightarrow> path \<Rightarrow> string \<Rightarrow> group_record list \<Rightarrow> string list \<Rightarrow> unit io" where
  "apply_install_now env S J root journal_root given introduced =
     bindI (liftR (validate_sorted_ids introduced)) (\<lambda>_.
     with_lock env root (bindI (reconcile_locked env S J root journal_root) (\<lambda>s.
       bindI (liftR (canonical_records given)) (\<lambda>groups.
       group_write env S root (apply_install s groups introduced)))))"

definition apply_remove_now ::
  "env \<Rightarrow> (group_state, 'g) serde \<Rightarrow> (journal_entry, 'j) serde \<Rightarrow> path \<Rightarrow> string \<Rightarrow> string list \<Rightarrow> unit io" where
  "apply_remove_now env S J root journal_root ids =
     bindI (liftR (validate_ids ids)) (\<lambda>_.
     with_lock env root (bindI (reconcile_locked env S J root journal_root) (\<lambda>s.
       group_write env S root (apply_remove s ids))))"

definition push_pending :: "group_state \<Rightarrow> pending_mutation \<Rightarrow> group_state" where
  "push_pending s m = s\<lparr>gs_pending := gs_pending s @ [m]\<rparr>"

definition record_pending ::
  "env \<Rightarrow> (group_state, 'g) serde \<Rightarrow> (journal_entry, 'j) serde \<Rightarrow> path \<Rightarrow> string \<Rightarrow> string \<Rightarrow> mutation_kind
     \<Rightarrow> owned \<Rightarrow> string list \<Rightarrow> unit io" where
  "record_pending env S J root journal_root plan kind groups introduced =
     bindI (liftR (group_validate_digest plan)) (\<lambda>_.
     with_lock env root (bindI (reconcile_locked env S J root journal_root) (\<lambda>s.
       if length (gs_pending s) \<ge> MAX_PENDING then failI (Limit ''pending group mutations'')
       else bindI (store_open env journal_root) (\<lambda>journal.
         bindI (transaction_ids env journal) (\<lambda>ids.
         let s' = push_pending s \<lparr>pm_plan_sha256 = plan, pm_kind = kind, pm_groups = groups,
                    pm_introduced_packages = introduced, pm_seen_transaction_ids = map tid_str ids\<rparr> in
         bindI (liftR (group_validate_state s')) (\<lambda>_. group_write env S root s'))))))"

definition record_pending_install ::
  "env \<Rightarrow> (group_state, 'g) serde \<Rightarrow> (journal_entry, 'j) serde \<Rightarrow> path \<Rightarrow> string \<Rightarrow> string \<Rightarrow> group_record list
     \<Rightarrow> string list \<Rightarrow> unit io" where
  "record_pending_install env S J root journal_root plan given introduced =
     bindI (liftR (validate_sorted_ids introduced)) (\<lambda>_.
     bindI (liftR (canonical_records given)) (\<lambda>groups.
     record_pending env S J root journal_root plan MutationInstall groups introduced))"

definition record_pending_remove ::
  "env \<Rightarrow> (group_state, 'g) serde \<Rightarrow> (journal_entry, 'j) serde \<Rightarrow> path \<Rightarrow> string \<Rightarrow> string \<Rightarrow> string list \<Rightarrow> unit io" where
  "record_pending_remove env S J root journal_root plan ids =
     bindI (liftR (validate_ids ids)) (\<lambda>_.
     record_pending env S J root journal_root plan MutationRemove (bt_collect (map (\<lambda>ident. (ident, [])) ids)) [])"

section \<open>Valid states\<close>

definition ids_ok :: "string list \<Rightarrow> bool" where
  "ids_ok values \<longleftrightarrow> sorted_wrt (<) values \<and> (\<forall>v\<in>set values. validate_id v = Inr ())"

definition owned_ok :: "owned \<Rightarrow> bool" where
  "owned_ok groups \<longleftrightarrow> (\<forall>(ident, packages)\<in>set groups. validate_id ident = Inr () \<and> ids_ok packages)"

definition all_packages :: "owned \<Rightarrow> string set" where
  "all_packages groups = (\<Union>(ident, packages)\<in>set groups. set packages)"

lemma set_concat_values: "set (concat (bt_values groups)) = all_packages groups"
  by (auto simp: bt_values_def all_packages_def)

lemma validate_sorted_ids_ok: "validate_sorted_ids values = Inr u \<longleftrightarrow> ids_ok values"
  by (simp add: validate_sorted_ids_def ids_ok_def forR_eq_Inr)

lemma validate_owned_ok: "validate_owned groups = Inr u \<longleftrightarrow> owned_ok groups"
  by (auto simp: validate_owned_def owned_ok_def forR_eq_Inr bindR_eq_Inr validate_sorted_ids_ok)

lemma group_valid_iff:
  "group_validate_state s = Inr u \<longleftrightarrow> gs_schema_version s = 2 \<and> length (gs_groups s) \<le> MAX_GROUPS
     \<and> length (gs_pending s) \<le> MAX_PENDING \<and> package_count s \<le> MAX_PACKAGES
     \<and> owned_ok (gs_groups s) \<and> ids_ok (gs_introduced_packages s)
     \<and> set (gs_introduced_packages s) \<subseteq> all_packages (gs_groups s)
     \<and> (\<forall>m\<in>set (gs_pending s). validate_mutation m = Inr ())"
  unfolding group_validate_state_def set_concat_values list_ex_iff
  by (auto simp: bindR_eq_Inr forR_eq_Inr validate_sorted_ids_ok validate_owned_ok)

lemma retained_eq: "retained_packages groups ids = all_packages (filter (\<lambda>(ident, _). ident \<notin> set ids) groups)"
  by (auto simp: retained_packages_def all_packages_def)

lemma released_eq:
  "set (released_packages groups ids) = all_packages groups - retained_packages groups ids"
  by (auto simp: released_packages_def retained_packages_def all_packages_def) blast

lemma fold_bt_remove: "fold bt_remove ids groups = filter (\<lambda>(ident, _). ident \<notin> set ids) groups"
proof (induction ids arbitrary: groups)
  case (Cons ident ids)
  have "filter (\<lambda>(ident, _). ident \<notin> set ids) (bt_remove ident groups) = filter (\<lambda>(i, _). i \<notin> set (ident # ids)) groups"
    by (induction groups) (auto simp: bt_remove_def)
  then show ?case using Cons.IH [of "bt_remove ident groups"] by simp
qed (simp add: split_def)

lemma removable_eq:
  assumes "sorted_wrt (<) (gs_introduced_packages s)"
  shows "set (removable_packages s ids) = set (gs_introduced_packages s) \<inter> set (released_packages (gs_groups s) ids)"
  using assms by (auto simp: removable_packages_def)

lemma filter_values_le:
  "sum_list (map length (bt_values (filter P groups))) \<le> sum_list (map length (bt_values groups))"
  by (induction groups) (auto simp: bt_values_def)

lemma apply_remove_valid:
  assumes "group_validate_state s = Inr ()"
  shows "group_validate_state (apply_remove s ids) = Inr ()"
proof -
  note v = assms [unfolded group_valid_iff]
  let ?s = "apply_remove s ids"
  have "package_count ?s \<le> package_count s"
    using filter_values_le [of "\<lambda>(ident, _). ident \<notin> set ids" "gs_groups s"]
    by (auto simp: package_count_def apply_remove_def fold_bt_remove intro!: add_mono length_filter_le)
  moreover have "length (gs_groups ?s) \<le> length (gs_groups s)"
    by (simp add: apply_remove_def fold_bt_remove)
  moreover have "set (gs_introduced_packages ?s) \<subseteq> all_packages (gs_groups ?s)"
    using v by (auto simp: apply_remove_def fold_bt_remove released_eq retained_eq)
  moreover have "owned_ok (gs_groups ?s)" "ids_ok (gs_introduced_packages ?s)"
    using v by (auto simp: apply_remove_def fold_bt_remove owned_ok_def ids_ok_def sorted_wrt_filter)
  ultimately show ?thesis using v by (auto simp: group_valid_iff apply_remove_def)
qed

subsection \<open>Installing new groups and removing them again\<close>

lemma extend_group_ok: "bt_ok groups \<Longrightarrow> bt_ok (extend_group g groups)"
  by (cases g) (simp add: extend_group_def bt_ok_insert)

lemma fold_extend_ok: "bt_ok groups \<Longrightarrow> bt_ok (fold extend_group new groups)"
  by (induction new arbitrary: groups) (simp_all add: extend_group_ok)

lemma fold_extend_lookup:
  assumes "bt_ok groups" "distinct (map fst new)"
  shows "map_of (fold extend_group new groups) ident = (case map_of new ident of
      None \<Rightarrow> map_of groups ident
    | Some packages \<Rightarrow> Some (sort_dedup ((case map_of groups ident of None \<Rightarrow> [] | Some owned \<Rightarrow> owned) @ packages)))"
  using assms
proof (induction new arbitrary: groups)
  case (Cons g new)
  obtain i ps where g: "g = (i, ps)" by fastforce
  have "map_of new i = None" using Cons.prems g by (simp add: map_of_eq_None_iff)
  then show ?case
    using Cons.IH [of "extend_group g groups"] Cons.prems g
    by (auto simp: extend_group_ok) (auto simp: extend_group_def bt_insert_map_of split: option.splits)
qed simp

lemma fold_extend_fresh:
  assumes "bt_ok groups" "bt_ok new" "owned_ok new" "fst ` set new \<inter> fst ` set groups = {}"
  shows "set (fold extend_group new groups) = set groups \<union> set new"
proof -
  have ok: "bt_ok (fold extend_group new groups)" using assms(1) by (rule fold_extend_ok)
  have lookup: "map_of (fold extend_group new groups) i = (case map_of new i of None \<Rightarrow> map_of groups i | Some ps \<Rightarrow> Some ps)" for i
  proof (cases "map_of new i")
    case (Some ps)
    then have m: "(i, ps) \<in> set new" by (rule map_of_SomeD)
    then have "sorted_wrt (<) ps" using assms(3) by (auto simp: owned_ok_def ids_ok_def)
    moreover have "i \<in> fst ` set new" using m by force
    then have "map_of groups i = None" using assms(4) by (auto simp: map_of_eq_None_iff)
    ultimately have "sorted_wrt (<) ps" "map_of groups i = None" by auto
    then show ?thesis using Some fold_extend_lookup [OF assms(1) bt_ok_distinct [OF assms(2)], of i] by simp
  qed (simp add: fold_extend_lookup [OF assms(1) bt_ok_distinct [OF assms(2)]])
  have "(i, ps) \<in> set (fold extend_group new groups) \<longleftrightarrow> (i, ps) \<in> set groups \<union> set new" for i ps
  proof -
    have "map_of new i = None \<or> map_of groups i = None"
      using assms(4) by (auto simp: map_of_eq_None_iff)
    then show ?thesis
      by (auto simp: bt_set [OF ok] bt_set [OF assms(1)] bt_set [OF assms(2)] lookup split: option.splits)
  qed
  then show ?thesis by auto
qed

lemma install_remove_inverse:
  assumes s: "group_validate_state s = Inr ()" "bt_ok (gs_groups s)"
    and new: "bt_ok new" "owned_ok new" "fst ` set new \<inter> fst ` set (gs_groups s) = {}"
    and intro: "ids_ok introduced" "set introduced \<subseteq> all_packages new"
      "set introduced \<inter> all_packages (gs_groups s) = {}"
  shows "apply_remove (apply_install s new introduced) (bt_keys new) = s
    \<and> removable_packages (apply_install s new introduced) (bt_keys new) = introduced"
proof -
  let ?s = "apply_install s new introduced" and ?g = "fold extend_group new (gs_groups s)"
  have keys: "set (bt_keys new) = fst ` set new" by (simp add: bt_keys_def)
  have g: "set ?g = set (gs_groups s) \<union> set new" using s(2) new by (rule fold_extend_fresh)
  have filtered: "filter (\<lambda>(ident, _). ident \<notin> set (bt_keys new)) ?g = gs_groups s"
  proof (rule bt_ext)
    have ok: "bt_ok (filter (\<lambda>(ident, _). ident \<notin> set (bt_keys new)) ?g)"
      using s(2) by (intro bt_ok_filter fold_extend_ok)
    show "bt_ok (filter (\<lambda>(ident, _). ident \<notin> set (bt_keys new)) ?g)" by (rule ok)
    show "bt_ok (gs_groups s)" by (rule s(2))
    have "(i, ps) \<in> set (filter (\<lambda>(ident, _). ident \<notin> set (bt_keys new)) ?g) \<longleftrightarrow> (i, ps) \<in> set (gs_groups s)" for i ps
      using new(3) by (force simp: g keys)
    then show "map_of (filter (\<lambda>(ident, _). ident \<notin> set (bt_keys new)) ?g) i = map_of (gs_groups s) i" for i
      by (metis (no_types, lifting) bt_set [OF ok] bt_set [OF s(2)] not_None_eq)
  qed
  have all: "all_packages ?g = all_packages (gs_groups s) \<union> all_packages new"
    by (auto simp: all_packages_def g)
  have released: "set (released_packages ?g (bt_keys new)) = all_packages new - all_packages (gs_groups s)"
    by (auto simp: released_eq retained_eq filtered all)
  have valid: "ids_ok (gs_introduced_packages s)" "set (gs_introduced_packages s) \<subseteq> all_packages (gs_groups s)"
    using s(1) by (simp_all add: group_valid_iff)
  have "filter (\<lambda>package. package \<notin> set (released_packages ?g (bt_keys new)))
      (sort_dedup (gs_introduced_packages s @ introduced)) = gs_introduced_packages s"
    by (rule strict_sorted_equal) (use valid intro in \<open>auto simp: released ids_ok_def sorted_wrt_filter\<close>)
  then have "apply_remove ?s (bt_keys new) = s"
    using filtered by (simp add: apply_remove_def apply_install_def fold_bt_remove)
  moreover have "removable_packages ?s (bt_keys new) = introduced"
  proof (rule strict_sorted_equal)
    have "sorted_wrt (<) (gs_introduced_packages ?s)" by (simp add: apply_install_def)
    then show "set (removable_packages ?s (bt_keys new)) = set introduced"
      using valid intro by (subst removable_eq) (auto simp: apply_install_def released)
  qed (use intro in \<open>auto simp: removable_packages_def ids_ok_def\<close>)
  ultimately show ?thesis by blast
qed

section \<open>The state file\<close>

lemma migrate_valid: "group_validate_state s = Inr () \<Longrightarrow> migrate s = Inr s"
  by (simp add: group_valid_iff migrate_def)

lemma group_decode_ok:
  "group_decode S bs = Inr s \<longleftrightarrow> (\<exists>s0. canonical_parse S bs = Inr s0 \<and> migrate s0 = Inr s
     \<and> group_validate_state s = Inr ())"
  by (auto simp: group_decode_def group_encode_def bindR_eq_Inr map_err_eq_Inr canonical_parse_def)

interpretation group_file: state_file group_default "group_decode S" "group_encode S" group_validate_state
  migrate GROUP_MAX_STATE_BYTES "''group state''" for S :: "(group_state, 'g) serde"
proof
  show "group_validate_state group_default = Inr ()"
    by (simp add: group_valid_iff group_default_def package_count_def bt_values_def owned_ok_def ids_ok_def)
  fix bs s assume d: "group_decode S bs = Inr s"
  then show "group_validate_state s = Inr ()" by (auto simp: group_decode_ok)
  from d show "\<exists>s0. group_encode S s0 = Inr bs \<and> migrate s0 = Inr s"
    by (auto simp: group_decode_ok group_encode_def map_err_eq_Inr dest: canonical_parse_serialize)
qed (rule migrate_valid)

abbreviation group_stored :: "(group_state, 'g) serde \<Rightarrow> directory \<Rightarrow> group_state \<Rightarrow> bool" where
  "group_stored S \<equiv> document_stored group_default (group_encode S) migrate"

lemma keeps_transaction_entries [keeps_rules]: "keeps p (transaction_entries env J journal ident)"
  unfolding transaction_entries_def by (intro keeps_rules)

lemma keeps_find_terminal [keeps_rules]: "keeps p (find_terminal env J journal m ids)"
  by (induction ids) (auto intro!: keeps_rules split: option.split)

lemma keeps_settle_all [keeps_rules]: "keeps p (settle_all env J journal ids ms acc)"
proof (induction ms arbitrary: acc)
  case (Cons m ms)
  show ?case unfolding settle_all.simps by (intro keeps_rules Cons.IH)
qed (simp add: keeps_rules)

text \<open>A reconciliation that settles nothing leaves the state as it was read.\<close>

lemma settle_unchanged:
  "settle outcome m (s, retained, changed) = (s', retained', False) \<Longrightarrow>
     s' = s \<and> retained' = retained @ [m] \<and> \<not> changed"
  by (auto simp: settle_def split: option.splits bool.splits mutation_kind.splits)

lemma settle_all_unchanged:
  "settle_all env J journal ids ms (s, retained, changed) w = (Done (s', retained', False), w') \<Longrightarrow>
     s' = s \<and> retained' = retained @ ms \<and> \<not> changed"
proof (induction ms arbitrary: s retained changed w)
  case Nil
  then show ?case by (simp add: returnI_def)
next
  case (Cons m ms)
  from Cons.prems obtain outcome w1
    where r: "settle_all env J journal ids ms (settle outcome m (s, retained, changed)) w1 = (Done (s', retained', False), w')"
    by (auto simp: bindI_Done)
  obtain t ret ch where st: "settle outcome m (s, retained, changed) = (t, ret, ch)" by (metis prod_cases3)
  have "s' = t \<and> retained' = ret @ ms \<and> \<not> ch" using Cons.IH r st by metis
  then show ?case using settle_unchanged [of outcome m s retained changed t ret] st by auto
qed

text \<open>What an operation may do to the root directory: keep the state file or store a valid state.\<close>

definition group_kept :: "env \<Rightarrow> (group_state, 'g) serde \<Rightarrow> directory \<Rightarrow> directory \<Rightarrow> bool" where
  "group_kept env S d d' \<longleftrightarrow> root_ok env d' \<and> (find_entry d' STATE_FILE = find_entry d STATE_FILE
     \<or> (\<exists>s. group_stored S d' s \<and> group_validate_state s = Inr ()))"

lemma group_kept_refl: "root_ok env d \<Longrightarrow> group_kept env S d d"
  by (simp add: group_kept_def)

lemma group_kept_trans: "group_kept env S d d' \<Longrightarrow> group_kept env S d' d'' \<Longrightarrow> group_kept env S d d''"
  unfolding group_kept_def using stored_cong [of d'' d' group_default "group_encode S" migrate] by auto

lemma group_write_kept:
  assumes d: "wd_dirs w p = Some d" "root_ok env d" and "group_write env S p s w = (r, w')"
  obtains d' where "wd_dirs w' p = Some d'" "group_kept env S d d'"
    "r = Done () \<longrightarrow> group_stored S d' s \<and> group_validate_state s = Inr ()"
proof -
  have c: "False \<longrightarrow> calm w" by simp
  note W = group_file.write_dwp [OF d(2), where c = False and p = p and s = s and S = S, folded group_write_def]
  obtain r2 w2 d2 where r2: "group_write env S p s w = (r2, w2)" "wd_dirs w2 = (wd_dirs w)(p \<mapsto> d2)"
    and R: "root_ok env d2" "find_entry d2 STATE_FILE = find_entry d STATE_FILE \<or> group_stored S d2 s"
      "r2 = Done () \<longrightarrow> group_stored S d2 s \<and> group_validate_state s = Inr ()"
    by (rule dwpD [OF W d(1) c]) blast
  show thesis
  proof (cases "group_validate_state s = Inr ()")
    case True
    show thesis by (rule that) (use r2 R True assms(3) in \<open>auto simp: group_kept_def\<close>)
  next
    case False
    then have "group_write env S p s w = (r2, w) \<and> (\<forall>x. r2 \<noteq> Done x)"
      using r2(1) by (cases "group_validate_state s")
        (auto simp: group_write_def document_write_def bindI_def liftR_def failI_def)
    then show thesis using that [of d] d assms(3) by (auto simp: group_kept_refl)
  qed
qed

lemma consult_journal_keeps:
  assumes "apart p journal_root" "consult_journal env J journal_root s w = (r, w')"
  shows "wd_dirs w' p = wd_dirs w p"
proof -
  have "keeps p (consult_journal env J journal_root s)"
    unfolding consult_journal_def by (intro keeps_rules assms)
  then show ?thesis using assms(2) by (rule keepsD)
qed

lemma consult_journal_unchanged:
  assumes "consult_journal env J journal_root s w = (Done (s', retained, False), w')"
  shows "s'\<lparr>gs_pending := retained\<rparr> = s"
proof -
  obtain journal ids w1 where "settle_all env J journal ids (gs_pending s) (s\<lparr>gs_pending := []\<rparr>, [], False) w1
      = (Done (s', retained, False), w')"
    using assms by (auto simp: consult_journal_def bindI_Done)
  from settle_all_unchanged [OF this] show ?thesis by simp
qed

lemma finish_reconcile_kept:
  assumes run: "finish_reconcile env S p (s, retained, changed) w = (r, w')"
    and w: "wd_dirs w p = Some d" "root_ok env d"
    and same: "\<not> changed \<Longrightarrow> group_stored S d (s\<lparr>gs_pending := retained\<rparr>)"
  shows "\<exists>d'. wd_dirs w' p = Some d' \<and> group_kept env S d d'
    \<and> (\<forall>s. r = Done s \<longrightarrow> group_stored S d' s \<and> group_validate_state s = Inr ())"
proof -
  let ?s = "s\<lparr>gs_pending := retained\<rparr>"
  show ?thesis
  proof (cases "group_validate_state ?s")
    case (Inl e)
    then have "r = Failed e" "w' = w"
      using run by (auto simp: finish_reconcile_def Let_def bindI_def liftR_def failI_def)
    then show ?thesis using w group_kept_refl by blast
  next
    case (Inr u)
    then have run': "bindI (if changed then group_write env S p ?s else returnI ()) (\<lambda>_. returnI ?s) w = (r, w')"
      using run by (simp add: finish_reconcile_def Let_def bindI_def liftR_def returnI_def)
    show ?thesis
    proof (cases changed)
      case False
      then show ?thesis using run' same w group_kept_refl Inr by (auto simp: bindI_def returnI_def)
    next
      case True
      obtain a w1 where a: "group_write env S p ?s w = (a, w1)" by fastforce
      then obtain d' where d': "wd_dirs w1 p = Some d'" "group_kept env S d d'"
        "a = Done () \<longrightarrow> group_stored S d' ?s \<and> group_validate_state ?s = Inr ()"
        by (rule group_write_kept [OF w])
      have "w' = w1 \<and> (\<forall>s. r = Done s \<longrightarrow> a = Done () \<and> s = ?s)"
        using run' a True by (cases a) (auto simp: bindI_def returnI_def)
      then show ?thesis using d' by blast
    qed
  qed
qed

lemma group_read_keeps: "wd_dirs w p = Some d \<Longrightarrow> group_read env S p w = (r, w') \<Longrightarrow> wd_dirs w' = wd_dirs w"
  unfolding group_read_def document_read_def
  by (erule bindI_cases) (auto simp: liftR_def returnI_def failI_def dest: optional_read_keeps split: option.splits sum.splits)

lemma reconcile_kept:
  assumes run: "reconcile_locked env S J p journal_root w = (r, w')"
    and w: "wd_dirs w p = Some d" "root_ok env d" "honest w" "apart p journal_root"
  shows "\<exists>d'. wd_dirs w' p = Some d' \<and> group_kept env S d d'
    \<and> (\<forall>s. r = Done s \<longrightarrow> group_stored S d' s \<and> group_validate_state s = Inr ())"
  using run [unfolded reconcile_locked_def]
proof (cases rule: bindI_cases)
  case (stopped a)
  then have "wd_dirs w' p = Some d" using group_read_keeps w(1) by metis
  then show ?thesis using group_kept_refl [OF w(2)] stopped(3) by blast
next
  case (continued s w1)
  have s: "group_stored S d s" "group_validate_state s = Inr ()" "wd_dirs w1 = wd_dirs w"
    using group_file.read_stored [OF continued(1) [unfolded group_read_def] w(3,1)] by auto
  show ?thesis
  proof (cases "gs_pending s = []")
    case True
    then have "r = Done s" "w' = w1" using continued(2) by (simp_all add: returnI_def)
    then show ?thesis using s w group_kept_refl [OF w(2)] by auto
  next
    case False
    then have "bindI (consult_journal env J journal_root s) (finish_reconcile env S p) w1 = (r, w')"
      using continued(2) by simp
    then show ?thesis
    proof (cases rule: bindI_cases)
      case (stopped a)
      then have "wd_dirs w' p = Some d" using consult_journal_keeps [OF w(4)] w(1) s(3) by metis
      then show ?thesis using group_kept_refl [OF w(2)] stopped(3) by blast
    next
      case (continued acc w2)
      obtain s' retained changed where acc: "acc = (s', retained, changed)" by (metis prod_cases3)
      have d: "wd_dirs w2 p = Some d" using consult_journal_keeps [OF w(4) continued(1)] w(1) s(3) by simp
      have "group_stored S d (s'\<lparr>gs_pending := retained\<rparr>)" if "\<not> changed"
        using consult_journal_unchanged continued(1) acc that s(1) by (metis (full_types))
      from finish_reconcile_kept [OF continued(2) [unfolded acc] d w(2) this] show ?thesis .
    qed
  qed
qed


lemma locked_operation:
  assumes run: "with_lock env p (bindI (reconcile_locked env S J p journal_root) K) w = (r, w')"
    and w: "wd_dirs w p = Some d" "root_ok env d" "honest w" "apart p journal_root"
    and K: "\<And>s w r w' d. K s w = (r, w') \<Longrightarrow> wd_dirs w p = Some d \<Longrightarrow> root_ok env d \<Longrightarrow> group_stored S d s
      \<Longrightarrow> group_validate_state s = Inr ()
      \<Longrightarrow> \<exists>d'. wd_dirs w' p = Some d' \<and> group_kept env S d d' \<and> (\<forall>x. r = Done x \<longrightarrow> Q s x d')"
  shows "\<exists>d'. wd_dirs w' p = Some d' \<and> group_kept env S d d'
    \<and> (\<forall>x. r = Done x \<longrightarrow> (\<exists>s. group_validate_state s = Inr () \<and> Q s x d'))"
  using run
proof (cases rule: with_lockD)
  case refused
  then show ?thesis using w group_kept_refl [OF w(2)] by auto
next
  case (taken w0 r1 w1)
  have w0: "wd_dirs w0 p = Some d" "honest w0" using taken w by simp_all
  have "\<exists>d'. wd_dirs w1 p = Some d' \<and> group_kept env S d d'
    \<and> (\<forall>x. r1 = Done x \<longrightarrow> (\<exists>s. group_validate_state s = Inr () \<and> Q s x d'))"
    using taken(1)
  proof (cases rule: bindI_cases)
    case (stopped a)
    then show ?thesis using reconcile_kept [OF stopped(1) w0(1) w(2) w0(2) w(4)] by blast
  next
    case (continued s w2)
    obtain d2 where d2: "wd_dirs w2 p = Some d2" "group_kept env S d d2" "group_stored S d2 s" "group_validate_state s = Inr ()"
      using reconcile_kept [OF continued(1) w0(1) w(2) w0(2) w(4)] by blast
    obtain d3 where "wd_dirs w1 p = Some d3" "group_kept env S d2 d3" "\<forall>x. r1 = Done x \<longrightarrow> Q s x d3"
      using K [OF continued(2) d2(1) _ d2(3,4)] d2(2) by (auto simp: group_kept_def)
    then show ?thesis using d2 group_kept_trans by blast
  qed
  then show ?thesis using taken(3,4) by auto
qed

lemma returning_operation:
  assumes run: "with_lock env p (bindI (reconcile_locked env S J p journal_root) (\<lambda>s. returnI (f s))) w = (r, w')"
    and w: "wd_dirs w p = Some d" "root_ok env d" "honest w" "apart p journal_root"
  shows "\<exists>d'. wd_dirs w' p = Some d' \<and> group_kept env S d d'
    \<and> (\<forall>x. r = Done x \<longrightarrow> (\<exists>s. group_validate_state s = Inr () \<and> group_stored S d' s \<and> x = f s))"
  by (rule locked_operation [OF run w]) (auto simp: returnI_def group_kept_refl)

lemma writing_operation:
  assumes run: "with_lock env p (bindI (reconcile_locked env S J p journal_root) (\<lambda>s. group_write env S p (f s))) w = (r, w')"
    and w: "wd_dirs w p = Some d" "root_ok env d" "honest w" "apart p journal_root"
  shows "\<exists>d'. wd_dirs w' p = Some d' \<and> group_kept env S d d'
    \<and> (\<forall>x. r = Done x \<longrightarrow> (\<exists>s. group_validate_state s = Inr () \<and> group_stored S d' (f s)))"
proof (rule locked_operation [OF run w])
  fix s w r w' d
  assume a: "group_write env S p (f s) w = (r, w')" "wd_dirs w p = Some d" "root_ok env d"
  show "\<exists>d'. wd_dirs w' p = Some d' \<and> group_kept env S d d' \<and> (\<forall>x. r = Done x \<longrightarrow> group_stored S d' (f s))"
    by (rule group_write_kept [OF a(2,3,1)]) auto
qed

lemma guarded:
  assumes "bindI (liftR c) m w = (r, w')"
  obtains (refused) e where "c = Inl e" "r = Failed e" "w' = w" | (passed) x where "c = Inr x" "m x w = (r, w')"
  using assms by (cases c) (auto simp: bindI_def liftR_def failI_def returnI_def)

section \<open>Sequences of operations\<close>

datatype group_op = ListGroups | QueryRemoval "string list" | InstallNow "group_record list" "string list"
  | RemoveNow "string list" | PendingInstall string "group_record list" "string list" | PendingRemove string "string list"

fun run_group_op ::
  "env \<Rightarrow> (group_state, 'g) serde \<Rightarrow> (journal_entry, 'j) serde \<Rightarrow> path \<Rightarrow> string \<Rightarrow> group_op \<Rightarrow> world \<Rightarrow> world" where
  "run_group_op env S J p jr ListGroups w = snd (installed_group_ids env S J p jr w)"
| "run_group_op env S J p jr (QueryRemoval ids) w = snd (packages_to_remove env S J p jr ids w)"
| "run_group_op env S J p jr (InstallNow given introduced) w = snd (apply_install_now env S J p jr given introduced w)"
| "run_group_op env S J p jr (RemoveNow ids) w = snd (apply_remove_now env S J p jr ids w)"
| "run_group_op env S J p jr (PendingInstall plan given introduced) w =
     snd (record_pending_install env S J p jr plan given introduced w)"
| "run_group_op env S J p jr (PendingRemove plan ids) w = snd (record_pending_remove env S J p jr plan ids w)"

text \<open>
  The directories that sequences of operations can produce from one without a state file, each
  operation in a world of its own, with any failures and crashes.
\<close>

inductive group_reachable ::
  "env \<Rightarrow> (group_state, 'g) serde \<Rightarrow> (journal_entry, 'j) serde \<Rightarrow> path \<Rightarrow> string \<Rightarrow> directory \<Rightarrow> bool"
  for env S J p jr where
  empty: "root_ok env d \<Longrightarrow> find_entry d STATE_FILE = None \<Longrightarrow> group_reachable env S J p jr d"
| step: "group_reachable env S J p jr d \<Longrightarrow> wd_dirs w p = Some d \<Longrightarrow> honest w
    \<Longrightarrow> wd_dirs (run_group_op env S J p jr op w) p = Some d' \<Longrightarrow> group_reachable env S J p jr d'"

lemma pending_write_kept:
  assumes run: "(if full then failI e else bindI (store_open env jr) (\<lambda>journal.
        bindI (transaction_ids env journal) (\<lambda>ids. bindI (liftR (c ids)) (\<lambda>_. group_write env S p (f ids))))) w = (r, w')"
    and w: "wd_dirs w p = Some d" "root_ok env d" and j: "apart p jr"
  shows "\<exists>d'. wd_dirs w' p = Some d' \<and> group_kept env S d d'"
proof (cases full)
  case True
  then show ?thesis using run w group_kept_refl [OF w(2)] by (auto simp: failI_def)
next
  case False
  have open_keeps: "keeps p (bindI (store_open env jr) (transaction_ids env))" by (intro keeps_rules j)
  from run False have "bindI (bindI (store_open env jr) (transaction_ids env))
      (\<lambda>ids. bindI (liftR (c ids)) (\<lambda>_. group_write env S p (f ids))) w = (r, w')"
    by (simp add: bindI_assoc)
  then show ?thesis
  proof (cases rule: bindI_cases)
    case (stopped a)
    then have "wd_dirs w' p = Some d" using keepsD [OF open_keeps] w(1) by metis
    then show ?thesis using group_kept_refl [OF w(2)] by blast
  next
    case (continued ids w1)
    then have d: "wd_dirs w1 p = Some d" using keepsD [OF open_keeps] w(1) by metis
    from continued(2) show ?thesis
    proof (cases rule: guarded)
      case (passed x)
      show ?thesis by (rule group_write_kept [OF d w(2) passed(2)]) blast
    qed (use d group_kept_refl [OF w(2)] in blast)
  qed
qed

lemma record_pending_kept:
  assumes run: "record_pending env S J p jr plan kind groups introduced w = (r, w')"
    and w: "wd_dirs w p = Some d" "root_ok env d" "honest w" "apart p jr"
  shows "\<exists>d'. wd_dirs w' p = Some d' \<and> group_kept env S d d'"
  using run [unfolded record_pending_def Let_def]
proof (cases rule: guarded)
  case (passed x)
  have "\<exists>d'. wd_dirs w' p = Some d' \<and> group_kept env S d d'
    \<and> (\<forall>x. r = Done x \<longrightarrow> (\<exists>s. group_validate_state s = Inr () \<and> True))"
  proof (rule locked_operation [OF passed(2) w], goal_cases)
    case (1 s w r w' d)
    show ?case using pending_write_kept [OF 1(1) 1(2,3) w(4)] by blast
  qed
  then show ?thesis by blast
qed (use w group_kept_refl [OF w(2)] in blast)

lemma apply_install_now_kept:
  assumes run: "apply_install_now env S J p jr given introduced w = (r, w')"
    and w: "wd_dirs w p = Some d" "root_ok env d" "honest w" "apart p jr"
  shows "\<exists>d'. wd_dirs w' p = Some d' \<and> group_kept env S d d'"
  using run [unfolded apply_install_now_def]
proof (cases rule: guarded)
  case (passed x)
  have "\<exists>d'. wd_dirs w' p = Some d' \<and> group_kept env S d d'
    \<and> (\<forall>x. r = Done x \<longrightarrow> (\<exists>s. group_validate_state s = Inr () \<and> True))"
  proof (rule locked_operation [OF passed(2) w])
    fix s w r w' d
    assume a: "bindI (liftR (canonical_records given)) (\<lambda>groups. group_write env S p (apply_install s groups introduced)) w = (r, w')"
      "wd_dirs w p = Some d" "root_ok env d"
    from a(1) show "\<exists>d'. wd_dirs w' p = Some d' \<and> group_kept env S d d' \<and> (\<forall>x. r = Done x \<longrightarrow> True)"
    proof (cases rule: guarded)
      case (passed x)
      show ?thesis by (rule group_write_kept [OF a(2,3) passed(2)]) blast
    qed (use a group_kept_refl [OF a(3)] in blast)
  qed
  then show ?thesis by blast
qed (use w group_kept_refl [OF w(2)] in blast)

lemma group_op_kept:
  assumes w: "wd_dirs w p = Some d" "root_ok env d" "honest w" "apart p jr"
  shows "\<exists>d'. wd_dirs (run_group_op env S J p jr op w) p = Some d' \<and> group_kept env S d d'"
proof -
  note refl = group_kept_refl [OF w(2)]
  show ?thesis
  proof (cases op)
    case ListGroups
    obtain r w' where run: "installed_group_ids env S J p jr w = (r, w')" by fastforce
    show ?thesis using returning_operation [OF run [unfolded installed_group_ids_def] w] ListGroups run by auto
  next
    case (QueryRemoval ids)
    obtain r w' where run: "packages_to_remove env S J p jr ids w = (r, w')" by fastforce
    from run [unfolded packages_to_remove_def] have "\<exists>d'. wd_dirs w' p = Some d' \<and> group_kept env S d d'"
    proof (cases rule: guarded)
      case (passed x)
      then show ?thesis using returning_operation [OF passed(2) w] by blast
    qed (use w refl in blast)
    then show ?thesis using QueryRemoval run by simp
  next
    case (InstallNow given introduced)
    obtain r w' where run: "apply_install_now env S J p jr given introduced w = (r, w')" by fastforce
    show ?thesis using apply_install_now_kept [OF run w] InstallNow run by simp
  next
    case (RemoveNow ids)
    obtain r w' where run: "apply_remove_now env S J p jr ids w = (r, w')" by fastforce
    from run [unfolded apply_remove_now_def] have "\<exists>d'. wd_dirs w' p = Some d' \<and> group_kept env S d d'"
    proof (cases rule: guarded)
      case (passed x)
      then show ?thesis using writing_operation [OF passed(2) w] by blast
    qed (use w refl in blast)
    then show ?thesis using RemoveNow run by simp
  next
    case (PendingInstall plan given introduced)
    obtain r w' where run: "record_pending_install env S J p jr plan given introduced w = (r, w')" by fastforce
    from run [unfolded record_pending_install_def] have "\<exists>d'. wd_dirs w' p = Some d' \<and> group_kept env S d d'"
    proof (cases rule: guarded)
      case (passed x)
      from passed(2) show ?thesis
      proof (cases rule: guarded)
        case (passed groups)
        then show ?thesis using record_pending_kept [OF passed(2) w] by blast
      qed (use w refl in blast)
    qed (use w refl in blast)
    then show ?thesis using PendingInstall run by simp
  next
    case (PendingRemove plan ids)
    obtain r w' where run: "record_pending_remove env S J p jr plan ids w = (r, w')" by fastforce
    from run [unfolded record_pending_remove_def] have "\<exists>d'. wd_dirs w' p = Some d' \<and> group_kept env S d d'"
    proof (cases rule: guarded)
      case (passed x)
      then show ?thesis using record_pending_kept [OF passed(2) w] by blast
    qed (use w refl in blast)
    then show ?thesis using PendingRemove run by simp
  qed
qed

section \<open>Examples\<close>

definition example_group_state :: group_state where
  "example_group_state = \<lparr>gs_schema_version = 2,
     gs_groups = [(''base'', [''bash'', ''vim'']), (''dev'', [''gcc'', ''vim''])],
     gs_introduced_packages = [''bash'', ''gcc'', ''vim''], gs_pending = []\<rparr>"

definition example_group_serde :: "(group_state, group_state) serde" where
  "example_group_serde =
     \<lparr>from_slice = (\<lambda>bs. if bs = ''g'' then Inr example_group_state else Inl ''syntax''), to_value = Inr,
      to_vec = (\<lambda>s. if s = example_group_state then Inr ''g'' else Inl ''unsupported'')\<rparr>"

definition example_root :: directory where
  "example_root = example_directory\<lparr>di_entries := [(STATE_FILE, FileE (record_file example_env ''g''))]\<rparr>"

lemma example_root_ok: "root_ok example_env example_root"
  by code_simp

lemma example_group_valid: "group_validate_state example_group_state = Inr ()"
  by code_simp

lemma example_apart: "apart [''journal''] ''/var/transactions''"
  by code_simp

section \<open>Properties\<close>

text \<open>
  Property C25. A successful \<^verbatim>\<open>packages_to_remove\<close> reports, sorted and without repetition, exactly the
  packages that a group introduced, that one of the given groups owns and that no other group owns,
  of the state that is stored when it returns; they are the ones that removing the groups gives
  up. The state file is never left in another form than a complete valid state.
\<close>

theorem packages_to_remove_exact:
  assumes "packages_to_remove env S J p jr ids w = (r, w')"
    and "wd_dirs w p = Some d" "root_ok env d" "honest w" "apart p jr"
  shows "\<exists>d'. wd_dirs w' p = Some d' \<and> group_kept env S d d' \<and> (\<forall>ps. r = Done ps \<longrightarrow>
    (\<exists>s. group_stored S d' s \<and> group_validate_state s = Inr () \<and> sorted_wrt (<) ps
       \<and> set ps = {x \<in> set (gs_introduced_packages s).
            (\<exists>(ident, packages)\<in>set (gs_groups s). ident \<in> set ids \<and> x \<in> set packages)
            \<and> (\<forall>(ident, packages)\<in>set (gs_groups s). ident \<notin> set ids \<longrightarrow> x \<notin> set packages)}
       \<and> set (gs_introduced_packages (apply_remove s ids)) = set (gs_introduced_packages s) - set ps))"
proof (cases rule: guarded [OF assms(1) [unfolded packages_to_remove_def]])
  case (1 e)
  then show ?thesis using assms(2) group_kept_refl [OF assms(3)] by auto
next
  case (2 x)
  obtain d' where d': "wd_dirs w' p = Some d'" "group_kept env S d d'"
    and s: "\<forall>ps. r = Done ps \<longrightarrow> (\<exists>s. group_validate_state s = Inr () \<and> group_stored S d' s \<and> ps = removable_packages s ids)"
    using returning_operation [OF 2(2) assms(2-5)] by blast
  have exact: "sorted_wrt (<) (removable_packages s ids)
      \<and> set (removable_packages s ids) = {x \<in> set (gs_introduced_packages s).
            (\<exists>(ident, packages)\<in>set (gs_groups s). ident \<in> set ids \<and> x \<in> set packages)
            \<and> (\<forall>(ident, packages)\<in>set (gs_groups s). ident \<notin> set ids \<longrightarrow> x \<notin> set packages)}
      \<and> set (gs_introduced_packages (apply_remove s ids)) = set (gs_introduced_packages s) - set (removable_packages s ids)"
    if "group_validate_state s = Inr ()" for s
  proof -
    have sorted: "sorted_wrt (<) (gs_introduced_packages s)"
      using that by (simp add: group_valid_iff ids_ok_def)
    show ?thesis
      unfolding removable_eq [OF sorted]
      by (auto simp: removable_packages_def apply_remove_def released_packages_def retained_packages_def)
  qed
  show ?thesis
  proof (intro exI [of _ d'] conjI d' allI impI)
    fix ps assume "r = Done ps"
    then obtain t where t: "group_validate_state t = Inr ()" "group_stored S d' t" "ps = removable_packages t ids"
      using s by blast
    show "\<exists>s. group_stored S d' s \<and> group_validate_state s = Inr () \<and> sorted_wrt (<) ps
       \<and> set ps = {x \<in> set (gs_introduced_packages s).
            (\<exists>(ident, packages)\<in>set (gs_groups s). ident \<in> set ids \<and> x \<in> set packages)
            \<and> (\<forall>(ident, packages)\<in>set (gs_groups s). ident \<notin> set ids \<longrightarrow> x \<notin> set packages)}
       \<and> set (gs_introduced_packages (apply_remove s ids)) = set (gs_introduced_packages s) - set ps"
      unfolding t(3) by (rule exI [of _ t], intro conjI t exact [OF t(1), THEN conjunct1]
          exact [OF t(1), THEN conjunct2, THEN conjunct1] exact [OF t(1), THEN conjunct2, THEN conjunct2])
  qed
qed

theorem packages_to_remove_exact_witness:
  "\<exists>w' d'. packages_to_remove example_env example_group_serde example_serde [''journal''] ''/var/transactions'' [''dev'']
       (example_world NoFault [] example_root) = (Done [''gcc''], w')
     \<and> wd_dirs w' [''journal''] = Some d' \<and> group_kept example_env example_group_serde example_root d'"
proof -
  let ?w = "example_world NoFault [] example_root"
  obtain r w' where run: "packages_to_remove example_env example_group_serde example_serde [''journal'']
      ''/var/transactions'' [''dev''] ?w = (r, w')" by fastforce
  have "fst (packages_to_remove example_env example_group_serde example_serde [''journal'']
      ''/var/transactions'' [''dev''] ?w) = Done [''gcc'']" by code_simp
  then have r: "r = Done [''gcc'']" using run by simp
  have "wd_dirs ?w [''journal''] = Some example_root" "honest ?w" by (simp_all add: example_world_def honest_def)
  from packages_to_remove_exact [OF run this(1) example_root_ok this(2) example_apart] r run
  show ?thesis by blast
qed

text \<open>
  Property C27. Whatever operations run on a group store and however they fail or crash, its root
  directory never holds anything but no state file or the complete encoding of a valid state:
  within the limits, every introduced package owned by an installed group, every list sorted.
\<close>

theorem group_state_always_valid:
  assumes "group_reachable env S J p jr d" "apart p jr"
  shows "root_ok env d \<and> (\<exists>s. group_stored S d s \<and> group_validate_state s = Inr ())"
  using assms(1)
proof (induction rule: group_reachable.induct)
  case (empty d)
  then show ?case
    using group_file.initial_valid by (auto simp: document_stored_def intro!: exI [of _ group_default])
next
  case (step d w op d')
  obtain d1 where "wd_dirs (run_group_op env S J p jr op w) p = Some d1" "group_kept env S d d1"
    using group_op_kept [OF step.hyps(2) _ step.hyps(3) assms(2)] step.IH by blast
  then show ?case
    using step.hyps(4) step.IH stored_cong [of d' d group_default "group_encode S" migrate]
    by (auto simp: group_kept_def)
qed

theorem group_state_always_valid_witness:
  "\<exists>d. group_reachable example_env example_group_serde example_serde [''journal''] ''/var/transactions'' d
     \<and> root_ok example_env d \<and> (\<exists>s. group_stored example_group_serde d s \<and> group_validate_state s = Inr ())"
proof -
  have r: "group_reachable example_env example_group_serde example_serde [''journal''] ''/var/transactions'' example_directory"
    by (rule group_reachable.empty) (simp_all add: root_ok_def example_directory_def)
  from group_state_always_valid [OF r example_apart] r show ?thesis by blast
qed

lemma canonical_record_ok:
  assumes "canonical_record r groups = Inr new" "bt_ok groups" "owned_ok groups"
  shows "bt_ok new \<and> owned_ok new"
proof -
  have new: "new = bt_insert (gr_id r) (sort_dedup (gr_owned_packages r)) groups"
    and v: "validate_id (gr_id r) = Inr ()" "\<forall>x\<in>set (gr_owned_packages r). validate_id x = Inr ()"
    using assms(1) by (auto simp: bindR_eq_Inr Let_def list_ex_iff split: if_splits)
  have ok: "bt_ok new" using assms(2) new by (simp add: bt_ok_insert)
  have "validate_id i = Inr () \<and> ids_ok ps" if "(i, ps) \<in> set new" for i ps
  proof (cases "i = gr_id r")
    case True
    have "map_of new i = Some ps" using that bt_set [OF ok] by blast
    then have "ps = sort_dedup (gr_owned_packages r)" using True assms(2) by (simp add: new bt_insert_map_of)
    then show ?thesis using v True by (simp add: ids_ok_def)
  next
    case False
    have "map_of new i = Some ps" using that bt_set [OF ok] by blast
    then have "(i, ps) \<in> set groups" using False assms(2) by (simp add: bt_set new bt_insert_map_of)
    then show ?thesis using assms(3) by (auto simp: owned_ok_def)
  qed
  then show ?thesis using ok by (auto simp: owned_ok_def)
qed

lemma collect_records_ok:
  "collect_records given groups = Inr new \<Longrightarrow> bt_ok groups \<Longrightarrow> owned_ok groups \<Longrightarrow> bt_ok new \<and> owned_ok new"
proof (induction given arbitrary: groups)
  case (Cons r given)
  then obtain g where g: "canonical_record r groups = Inr g" "collect_records given g = Inr new"
    by (auto simp: bindR_eq_Inr simp del: canonical_record.simps)
  then show ?case using Cons.IH canonical_record_ok [OF g(1)] Cons.prems by blast
qed simp

lemma canonical_records_ok: "canonical_records given = Inr new \<Longrightarrow> bt_ok new \<and> owned_ok new"
  using collect_records_ok [of given "[]" new] by (simp add: owned_ok_def canonical_records_def)

text \<open>
  Installing new groups and removing them again restores the state exactly, and the
  packages reported for that removal are the ones the installation introduced, provided no group
  installed before owns one of them.
\<close>

theorem group_install_remove_roundtrip:
  assumes "group_validate_state s = Inr ()" "bt_ok (gs_groups s)"
    and "canonical_records given = Inr new" "fst ` set new \<inter> fst ` set (gs_groups s) = {}"
    and "validate_sorted_ids introduced = Inr ()" "set introduced \<subseteq> all_packages new"
    and "set introduced \<inter> all_packages (gs_groups s) = {}"
  shows "apply_remove (apply_install s new introduced) (bt_keys new) = s
    \<and> removable_packages (apply_install s new introduced) (bt_keys new) = introduced"
  using install_remove_inverse [OF assms(1,2) _ _ assms(4) _ assms(6,7)] canonical_records_ok [OF assms(3)]
    assms(5) by (simp add: validate_sorted_ids_ok)

theorem group_install_remove_roundtrip_witness:
  "apply_remove (apply_install example_group_state [(''web'', [''bash'', ''nginx''])] [''nginx'']) [''web''] = example_group_state
   \<and> removable_packages (apply_install example_group_state [(''web'', [''bash'', ''nginx''])] [''nginx'']) [''web''] = [''nginx'']"
proof -
  have c: "canonical_records [\<lparr>gr_id = ''web'', gr_owned_packages = [''nginx'', ''bash'', ''nginx'']\<rparr>]
      = Inr [(''web'', [''bash'', ''nginx''])]" by code_simp
  have i: "validate_sorted_ids [''nginx''] = Inr ()" by code_simp
  have b: "bt_ok (gs_groups example_group_state)" by code_simp
  have f: "fst ` set [(''web'', [''bash'', ''nginx''])] \<inter> fst ` set (gs_groups example_group_state) = {}"
    "set [''nginx''] \<subseteq> all_packages [(''web'', [''bash'', ''nginx''])]"
    "set [''nginx''] \<inter> all_packages (gs_groups example_group_state) = {}"
    by (simp_all add: example_group_state_def all_packages_def)
  show ?thesis
    using group_install_remove_roundtrip [OF example_group_valid b c f(1) i f(2,3)] by (simp add: bt_keys_def)
qed

lemma load_entries_missing: "wd_dirs w q = None \<Longrightarrow> load_entries env J q w \<noteq> (Done es, w')"
  by (auto simp: load_entries_def bindI_Done child_names_def errnoI_def sys_read_dir_def sys_def failI_def
      split: list.splits sys_outcome.splits)

lemma load_entries_holds:
  assumes "load_entries env J q w = (Done es, w')" "\<forall>q d. wd_dirs w q = Some d \<longrightarrow> bt_ok (di_entries d)"
  shows "\<exists>d. wd_dirs w q = Some d \<and> holds env J d es"
proof (cases "wd_dirs w q")
  case None
  then show ?thesis using load_entries_missing assms(1) by metis
next
  case (Some d)
  then have ok: "bt_ok (di_entries d)" and c: "False \<longrightarrow> calm w" using assms(2) by auto
  obtain r w2 where "load_entries env J q w = (r, w2)" "\<forall>es. r = Done es \<longrightarrow> holds env J d es"
    by (rule dwpD [OF load_entries_dwp [OF ok, of False q env J] Some c]) blast
  then show ?thesis using assms(1) Some by simp
qed

lemma lock_journal_path: "lock_journal env q w = (Done q', w') \<Longrightarrow> q' = q"
  unfolding lock_journal_def
  by (erule bindI_cases) (auto simp: returnI_def failI_def split: sum.splits errno.splits)

lemma transaction_entries_holds:
  assumes run: "transaction_entries env J journal ident w = (Done es, w')"
    and ok: "\<forall>q d. wd_dirs w q = Some d \<longrightarrow> bt_ok (di_entries d)"
  shows "\<exists>d. wd_dirs w (journal @ [tid_str ident]) = Some d \<and> holds env J d es"
proof -
  obtain q w1 where o: "store_open_transaction env journal ident w = (Done q, w1)"
    and l: "finallyI (load_entries env J q) (drop_journal q) w1 = (Done es, w')"
    using run by (auto simp: transaction_entries_def bindI_Done)
  have q: "q = journal @ [tid_str ident]"
    using o by (auto simp: store_open_transaction_def bindI_Done open_transaction_def returnI_def
        dest!: open_dir_path lock_journal_path)
  have same: "wd_dirs w1 = wd_dirs w"
  proof
    fix x
    show "wd_dirs w1 x = wd_dirs w x" using keepsD [OF keeps_open_transaction(2) o] .
  qed
  obtain w2 where "load_entries env J q w1 = (Done es, w2)"
    using l by (cases "load_entries env J q w1"; cases "fst (load_entries env J q w1)")
      (auto simp: finallyI_def drop_journal_def)
  then show ?thesis using load_entries_holds ok same q by metis
qed

lemma terminal_of_iff:
  "terminal_of m es = Some succeeded \<longleftrightarrow> es \<noteq> [] \<and> je_plan_sha256 (hd es) = pm_plan_sha256 m \<and> je_state (last es) = Reconciled
     \<and> (succeeded \<longleftrightarrow> (\<exists>e\<in>set es. je_state e = RpmResult \<and> map_option nr_return_code (je_native_result e) = Some 0)
          \<and> map_option rr_success (je_reconciliation (last es)) = Some True)"
  by (auto simp: terminal_of_def list_ex_iff split: option.splits)

lemma settled_by:
  assumes "find_terminal env J journal m ids w = (Done (Some succeeded), w')"
    and "\<forall>q d. wd_dirs w q = Some d \<longrightarrow> bt_ok (di_entries d)"
  shows "\<exists>ident\<in>set ids. tid_str ident \<notin> set (pm_seen_transaction_ids m)
    \<and> (\<exists>d es. wd_dirs w (journal @ [tid_str ident]) = Some d \<and> holds env J d es \<and> terminal_of m es = Some succeeded)"
  using assms
proof (induction ids arbitrary: w)
  case Nil
  then show ?case by (simp add: returnI_def)
next
  case (Cons ident ids)
  show ?case
  proof (cases "tid_str ident \<in> set (pm_seen_transaction_ids m)")
    case True
    then show ?thesis using Cons.IH [of w] Cons.prems by auto
  next
    case False
    then obtain es w1 where es: "transaction_entries env J journal ident w = (Done es, w1)"
      and rest: "(case terminal_of m es of None \<Rightarrow> find_terminal env J journal m ids
        | Some succeeded \<Rightarrow> returnI (Some succeeded)) w1 = (Done (Some succeeded), w')"
      using Cons.prems(1) by (auto simp: bindI_Done)
    have same: "wd_dirs w1 = wd_dirs w"
    proof
      fix x
      show "wd_dirs w1 x = wd_dirs w x" using keepsD [OF keeps_transaction_entries es] .
    qed
    show ?thesis
    proof (cases "terminal_of m es")
      case None
      then show ?thesis using Cons.IH [of w1] rest Cons.prems(2) same by auto
    next
      case (Some b)
      then have "b = succeeded" using rest by (simp add: returnI_def)
      then show ?thesis using transaction_entries_holds [OF es Cons.prems(2)] False Some by auto
    qed
  qed
qed

text \<open>
  Property C28. A pending mutation is settled by its journal only: an outcome comes from a
  transaction that was not there when the mutation was recorded, whose directory holds a journal of
  the same plan that has reached \<^verbatim>\<open>Reconciled\<close>, and it is a success exactly if RPM returned 0 and the
  reconciliation succeeded.
\<close>

theorem mutation_settled_by_journal:
  assumes "find_terminal env J journal m ids w = (Done (Some succeeded), w')"
    and "\<forall>q d. wd_dirs w q = Some d \<longrightarrow> bt_ok (di_entries d)"
  shows "\<exists>ident\<in>set ids. tid_str ident \<notin> set (pm_seen_transaction_ids m)
    \<and> (\<exists>d es. wd_dirs w (journal @ [tid_str ident]) = Some d \<and> holds env J d es
         \<and> je_plan_sha256 (hd es) = pm_plan_sha256 m \<and> je_state (last es) = Reconciled
         \<and> (succeeded \<longleftrightarrow> (\<exists>e\<in>set es. je_state e = RpmResult \<and> map_option nr_return_code (je_native_result e) = Some 0)
              \<and> map_option rr_success (je_reconciliation (last es)) = Some True))"
  using settled_by [OF assms] unfolding terminal_of_iff by blast

definition example_rpm_result :: journal_entry where
  "example_rpm_result = next_entry example_started 2 RpmResult (Some \<lparr>nr_return_code = 0,
     nr_callbacks = \<lparr>cb_pretrans = 0, cb_pre = 1, cb_post = 1, cb_triggers = 0, cb_payload = 1, cb_database = 1,
       cb_script_log_truncated = False\<rparr>, nr_problems = []\<rparr>) None"

definition example_reconciled :: journal_entry where
  "example_reconciled = next_entry example_rpm_result 3 Reconciled None
     (Some \<lparr>rr_inventory_sha256 = replicate 64 (CHR ''b''), rr_success = True, rr_changed_packages = 1\<rparr>)"

definition example_life :: "journal_entry list" where
  "example_life = [example_prepared, example_started, example_rpm_result, example_reconciled]"

definition example_life_serde :: "(journal_entry, journal_entry) serde" where
  "example_life_serde =
     \<lparr>from_slice = (\<lambda>bs. case find (\<lambda>e. show_nat (unat (je_sequence e)) = bs) example_life of
          Some e \<Rightarrow> Inr e | None \<Rightarrow> Inl ''unknown''),
      to_value = Inr,
      to_vec = (\<lambda>e. if e \<in> set example_life then Inr (show_nat (unat (je_sequence e))) else Inl ''unknown'')\<rparr>"

definition example_transactions :: world where
  "example_transactions = \<lparr>wd_dirs =
       [[''j''] \<mapsto> example_directory\<lparr>di_entries := [(tid_str example_id, DirectoryE)]\<rparr>,
        [''j'', tid_str example_id] \<mapsto> example_directory\<lparr>di_entries :=
          map (\<lambda>e. (record_name (je_sequence e), FileE (record_file example_env (show_nat (unat (je_sequence e))))))
            example_life\<rparr>],
     wd_locks = {}, wd_fault = NoFault, wd_sys = []\<rparr>"

definition example_mutation :: pending_mutation where
  "example_mutation = \<lparr>pm_plan_sha256 = replicate 64 (CHR ''a''), pm_kind = MutationInstall, pm_groups = [(''b'', [])],
     pm_introduced_packages = [], pm_seen_transaction_ids = []\<rparr>"

lemma example_settled:
  "fst (find_terminal example_env example_life_serde [''j''] example_mutation [example_id] example_transactions) = Done (Some True)"
  by code_simp

lemma example_transactions_ok: "wd_dirs example_transactions q = Some d \<Longrightarrow> bt_ok (di_entries d)"
proof -
  have "bt_ok (map (\<lambda>e. (record_name (je_sequence e), FileE (record_file example_env (show_nat (unat (je_sequence e))))))
            example_life)"
    by code_simp
  then show "wd_dirs example_transactions q = Some d \<Longrightarrow> bt_ok (di_entries d)"
    by (auto simp: example_transactions_def bt_ok_Cons split: if_splits)
qed

theorem mutation_settled_by_journal_witness:
  "\<exists>w'. find_terminal example_env example_life_serde [''j''] example_mutation [example_id] example_transactions
       = (Done (Some True), w')
     \<and> (\<exists>d es. wd_dirs example_transactions ([''j''] @ [tid_str example_id]) = Some d
          \<and> holds example_env example_life_serde d es \<and> je_state (last es) = Reconciled)"
proof -
  obtain w' where run: "find_terminal example_env example_life_serde [''j''] example_mutation [example_id]
      example_transactions = (Done (Some True), w')"
    using example_settled by (metis prod.collapse)
  have ok: "\<forall>q d. wd_dirs example_transactions q = Some d \<longrightarrow> bt_ok (di_entries d)"
    using example_transactions_ok by blast
  show ?thesis using mutation_settled_by_journal [OF run ok] run by auto
qed

lemma bt_length: "bt_ok m \<Longrightarrow> length m = card (fst ` set m)"
  by (metis bt_ok_distinct distinct_card length_map list.set_map)

lemma fold_extend_keys: "fst ` set (fold extend_group new groups) = fst ` set groups \<union> fst ` set new"
proof (induction new arbitrary: groups)
  case (Cons g new)
  then show ?case by (cases g) (auto simp: extend_group_def bt_insert_set)
qed simp

text \<open>
  A pending installation can block the store for ever. With 4096 groups installed, a
  mutation that adds another one is accepted as pending, since only its own shape is checked; once
  its transaction has succeeded, every reconciliation fails the bounds check before anything is
  written, and every operation of the store begins with a reconciliation.
\<close>

theorem pending_install_beyond_limit:
  assumes "group_validate_state (push_pending s m) = Inr ()" "gs_pending s = []" "bt_ok (gs_groups s)"
    and "length (gs_groups s) = MAX_GROUPS" "pm_kind m = MutationInstall"
    and "ident \<in> fst ` set (pm_groups m)" "ident \<notin> fst ` set (gs_groups s)"
  shows "finish_reconcile env S p (settle (Some True) m (s, [], False)) w
    = (Failed (Corrupt ''invalid group state bounds''), w)"
proof -
  let ?g = "fold extend_group (pm_groups m) (gs_groups s)"
  have "card (fst ` set (gs_groups s)) < card (fst ` set ?g)"
    unfolding fold_extend_keys using assms(6,7) by (intro psubset_card_mono) auto
  then have "length ?g > MAX_GROUPS"
    using bt_length [OF assms(3)] bt_length [OF fold_extend_ok [OF assms(3)]] assms(4) by simp
  then show ?thesis
    using assms(5) by (simp add: finish_reconcile_def settle_def apply_install_def group_validate_state_def
        bindI_def liftR_def failI_def Let_def)
qed

text \<open>A store with 4096 groups, named by the runs of one letter.\<close>

definition example_full :: group_state where
  "example_full = \<lparr>gs_schema_version = 2, gs_groups = map (\<lambda>i. (replicate (Suc i) (CHR ''a''), [])) [0..<4096],
     gs_introduced_packages = [], gs_pending = []\<rparr>"

lemma replicate_less: "i < j \<Longrightarrow> replicate i (c :: char) < replicate j c"
proof -
  assume "i < j"
  then have "replicate j c = replicate i c @ replicate (j - i) c" "\<exists>b z. replicate (j - i) c = b # z"
    by (simp_all add: replicate_add [symmetric]) (metis Suc_diff_Suc replicate_Suc)
  then show ?thesis by (metis lexord_append_rightI list_less_def)
qed

lemma example_full_ok: "bt_ok (gs_groups example_full)"
  by (auto simp: example_full_def bt_ok_def bt_keys_def o_def sorted_wrt_map sorted_wrt_upt intro!: sorted_wrt_mono_rel [OF _ sorted_wrt_upt] replicate_less simp del: replicate_Suc)

lemma example_full_valid: "group_validate_state (push_pending example_full example_mutation) = Inr ()"
proof -
  have id: "validate_id (replicate (Suc i) (CHR ''a'')) = Inr ()" if "i < 4096" for i
    using that by (auto simp: validate_id_def list_ex_iff ascii_defs)
  have m: "validate_mutation example_mutation = Inr ()" by code_simp
  have "package_count (push_pending example_full example_mutation) = 0"
    by (simp add: package_count_def push_pending_def example_full_def example_mutation_def bt_values_def o_def sum_list_triv)
  moreover have "owned_ok (gs_groups example_full)"
    using id by (auto simp: owned_ok_def example_full_def ids_ok_def simp del: replicate_Suc)
  ultimately show ?thesis
    using m by (simp add: group_valid_iff) (simp add: push_pending_def example_full_def MAX_GROUPS_def MAX_PENDING_def ids_ok_def)
qed

theorem pending_install_beyond_limit_witness:
  "finish_reconcile example_env example_group_serde [''journal''] (settle (Some True) example_mutation (example_full, [], False))
     (example_world NoFault [] example_root)
   = (Failed (Corrupt ''invalid group state bounds''), example_world NoFault [] example_root)"
proof -
  have "''b'' \<notin> fst ` set (gs_groups example_full)"
    by (auto simp: example_full_def)
  moreover have "''b'' \<in> fst ` set (pm_groups example_mutation)" "gs_pending example_full = []"
    "length (gs_groups example_full) = MAX_GROUPS" "pm_kind example_mutation = MutationInstall"
    by (simp_all add: example_mutation_def example_full_def MAX_GROUPS_def)
  ultimately show ?thesis
    using pending_install_beyond_limit [OF example_full_valid _ example_full_ok] by blast
qed

end
