(* ===== verification/State_Reason.thy ===== *)
theory State_Reason
  imports State_Document Core_Plan Core_Inventory
begin

text \<open>
  \<^verbatim>\<open>crates/dnfast-state/src/reason.rs\<close>: why each installed package is there. After a successful
  transaction the reasons of the new inventory are recomputed from the plan and the old records;
  \<^verbatim>\<open>autoremove\<close> starts from the packages whose recorded reason is a dependency. \<open>S\<close> is the
  serializer of the state.
\<close>

section \<open>Identities and decisions\<close>

definition SYSTEM_REASON_ROOT :: string where "SYSTEM_REASON_ROOT = ''/var/lib/dnfast/reasons''"
definition REASON_MAX_STATE_BYTES :: nat where "REASON_MAX_STATE_BYTES = 64 * 1024 * 1024"
definition MAX_RECORDS :: nat where "MAX_RECORDS = 200000"

datatype reason_decision = RecordReason package_reason | KeepReason package_reason

record installed_identity =
  id_db_instance :: u64
  id_header_sha256 :: string

record planned_identity =
  pl_package_name :: string
  pl_target_evra :: evra

record reconciled_reason =
  rc_identity :: installed_identity
  rc_package_name :: string
  rc_decision :: reason_decision

text \<open>A \<^verbatim>\<open>BTreeMap\<close> over \<^verbatim>\<open>PlannedIdentity\<close> is keyed by its fields in order.\<close>

type_synonym planned_fields = "string \<times> u32 \<times> string \<times> string \<times> architecture"

definition planned_key :: "planned_identity \<Rightarrow> planned_fields" where
  "planned_key i = (pl_package_name i, evra_key (pl_target_evra i))"

abbreviation package_key :: "installed_package \<Rightarrow> planned_fields" where
  "package_key p \<equiv> planned_key \<lparr>pl_package_name = ip_name p, pl_target_evra = ip_evra p\<rparr>"

abbreviation target_key :: "package_action \<Rightarrow> planned_fields" where
  "target_key a \<equiv> planned_key \<lparr>pl_package_name = pa_name a, pl_target_evra = pa_target_evra a\<rparr>"

abbreviation package_identity :: "installed_package \<Rightarrow> u64 \<times> string" where
  "package_identity p \<equiv> (ip_db_instance p, as_str (ip_header p))"

definition proposals_from_plan :: "plan_envelope \<Rightarrow> (planned_fields, package_reason) btree_map" where
  "proposals_from_plan plan =
     bt_collect (map (\<lambda>a. (target_key a, pa_reason a)) (filter (\<lambda>a. pa_operation a \<noteq> OpRemove) (pe_actions plan)))"

definition reason_decision_of :: "package_reason \<Rightarrow> reason_decision" where
  "reason_decision_of reason = (if reason \<in> {External, Unknown} then KeepReason reason else RecordReason reason)"

fun reconcile_packages ::
  "(u64 \<times> string) set \<Rightarrow> string set \<Rightarrow> string set \<Rightarrow> (planned_fields, package_reason) btree_map
     \<Rightarrow> installed_package list \<Rightarrow> reconciled_reason list" where
  "reconcile_packages before protected installonly remaining [] = []"
| "reconcile_packages before protected installonly remaining (p # ps) =
     (let is_new = package_identity p \<notin> before;
          (decision, remaining') =
            (if ip_name p \<in> protected \<or> ip_name p \<in> installonly then (KeepReason User, remaining)
             else case (if is_new then map_of remaining (package_key p) else None) of
               Some reason \<Rightarrow> (reason_decision_of reason, bt_remove (package_key p) remaining)
             | None \<Rightarrow> (KeepReason External, remaining)) in
      \<lparr>rc_identity = \<lparr>id_db_instance = ip_db_instance p, id_header_sha256 = as_str (ip_header p)\<rparr>,
       rc_package_name = ip_name p, rc_decision = decision\<rparr>
      # reconcile_packages before protected installonly remaining' ps)"

definition reconcile_reasons ::
  "installed_inventory \<Rightarrow> installed_inventory \<Rightarrow> (planned_fields, package_reason) btree_map \<Rightarrow> string set \<Rightarrow> string set
     \<Rightarrow> reconciled_reason list" where
  "reconcile_reasons before after proposed protected installonly =
     reconcile_packages (package_identity ` set (ii_packages before)) protected installonly proposed (ii_packages after)"

section \<open>The state\<close>

record reason_entry =
  re_db_instance :: u64
  re_header_sha256 :: string
  re_package_name :: string
  re_reason :: package_reason

definition entry_key :: "reason_entry \<Rightarrow> u64 \<times> string \<times> string \<times> package_reason" where
  "entry_key e = (re_db_instance e, re_header_sha256 e, re_package_name e, re_reason e)"

abbreviation entry_identity :: "reason_entry \<Rightarrow> u64 \<times> string" where
  "entry_identity e \<equiv> (re_db_instance e, re_header_sha256 e)"

record reason_state =
  rs_schema_version :: u32
  rs_records :: "reason_entry list"

definition reason_default :: reason_state where
  "reason_default = \<lparr>rs_schema_version = 1, rs_records = []\<rparr>"

definition entry_bad :: "reason_entry \<Rightarrow> bool" where
  "entry_bad e \<longleftrightarrow> re_db_instance e = 0 \<or> length (re_header_sha256 e) \<noteq> 64
     \<or> \<not> list_all is_lower_hex (re_header_sha256 e) \<or> re_package_name e = [] \<or> length (re_package_name e) > 4096
     \<or> list_ex (\<lambda>byte. \<not> (is_ascii_alphanumeric byte \<or> byte \<in> set ''+._-'')) (re_package_name e)"

fun check_entries :: "(u64 \<times> string) set \<Rightarrow> reason_entry list \<Rightarrow> (state_error, unit) result" where
  "check_entries identities [] = Inr ()"
| "check_entries identities (e # es) =
     (if entry_bad e \<or> entry_identity e \<in> identities then Inl (Corrupt ''invalid package reason record'')
      else check_entries (insert (entry_identity e) identities) es)"

definition reason_validate_state :: "reason_state \<Rightarrow> (state_error, unit) result" where
  "reason_validate_state s =
     (if rs_schema_version s \<noteq> 1 \<or> length (rs_records s) > MAX_RECORDS
      then Inl (Corrupt ''invalid package reason state bounds'')
      else if any_window (\<lambda>a b. entry_key a \<ge> entry_key b) (rs_records s)
      then Inl (Corrupt ''package reason records are not canonical'')
      else check_entries {} (rs_records s))"

section \<open>The store\<close>

definition reason_encode :: "(reason_state, 'r) serde \<Rightarrow> reason_state \<Rightarrow> (state_error, bytes) result" where
  "reason_encode S s = map_err corrupt (canonical_serialize S s)"

definition reason_decode :: "(reason_state, 'r) serde \<Rightarrow> bytes \<Rightarrow> (state_error, reason_state) result" where
  "reason_decode S bs =
     bindR (map_err corrupt (canonical_parse S bs)) (\<lambda>state.
     bindR (reason_encode S state) (\<lambda>again.
     if again \<noteq> bs then Inl (Corrupt ''package reason state is not canonical JSON'')
     else bindR (reason_validate_state state) (\<lambda>_. Inr state)))"

definition reason_read :: "env \<Rightarrow> (reason_state, 'r) serde \<Rightarrow> path \<Rightarrow> reason_state io" where
  "reason_read env S root = document_read REASON_MAX_STATE_BYTES reason_default (reason_decode S) env root"

definition reason_write :: "env \<Rightarrow> (reason_state, 'r) serde \<Rightarrow> path \<Rightarrow> reason_state \<Rightarrow> unit io" where
  "reason_write env S root s =
     document_write REASON_MAX_STATE_BYTES ''package reason state'' reason_validate_state (reason_encode S) env root s"

definition reason_open :: "env \<Rightarrow> string \<Rightarrow> path io" where
  "reason_open env root = open_or_create_root env root"

definition reason_open_system :: "env \<Rightarrow> path io" where
  "reason_open_system env =
     (if en_euid env \<noteq> 0 then failI (UnsafePath ''system package reason state requires root'')
      else reason_open env SYSTEM_REASON_ROOT)"

definition is_kept :: "solver_policy \<Rightarrow> string \<Rightarrow> bool" where
  "is_kept policy name \<longleftrightarrow> is_protected policy name \<or> is_installonly policy name \<or> is_running_kernel policy name"

text \<open>\<^verbatim>\<open>replacement_reasons\<close>: the recorded reason of the package that an action replaces or removes.\<close>

definition replacement_reasons ::
  "(u64 \<times> string, reason_entry) btree_map \<Rightarrow> plan_envelope \<Rightarrow> (planned_fields, package_reason) btree_map" where
  "replacement_reasons existing plan =
     bt_collect (List.map_filter (\<lambda>a.
         case (pa_installed_instance a, pa_installed_header a) of
           (Some inst, Some header) \<Rightarrow>
             map_option (\<lambda>previous. (target_key a, re_reason previous)) (map_of existing (inst, as_str header))
         | _ \<Rightarrow> None)
       (filter (\<lambda>a. pa_operation a \<noteq> OpInstall) (pe_actions plan)))"

definition reason_of_item ::
  "solver_policy \<Rightarrow> (planned_fields, package_reason) btree_map \<Rightarrow> (u64 \<times> string, reason_entry) btree_map
     \<Rightarrow> installed_package \<Rightarrow> reconciled_reason \<Rightarrow> package_reason" where
  "reason_of_item policy replaced existing package item =
     (if is_kept policy (rc_package_name item) then User
      else case map_of replaced (planned_key \<lparr>pl_package_name = rc_package_name item, pl_target_evra = ip_evra package\<rparr>) of
        Some reason \<Rightarrow> reason
      | None \<Rightarrow> (case map_of existing (id_db_instance (rc_identity item), id_header_sha256 (rc_identity item)) of
          Some record \<Rightarrow> re_reason record
        | None \<Rightarrow> (case rc_decision item of RecordReason reason \<Rightarrow> reason | KeepReason reason \<Rightarrow> reason)))"

definition success_records ::
  "reason_state \<Rightarrow> installed_inventory \<Rightarrow> installed_inventory \<Rightarrow> plan_envelope \<Rightarrow> solver_policy
     \<Rightarrow> (state_error, reason_entry list) result" where
  "success_records state before after plan policy =
     (let existing = bt_collect (map (\<lambda>e. (entry_identity e, e)) (rs_records state));
          protected = ip_name ` set (filter (\<lambda>p. is_protected policy (ip_name p)) (ii_packages after));
          installonly = ip_name ` set (filter (\<lambda>p. is_installonly policy (ip_name p)
            \<or> is_running_kernel policy (ip_name p)) (ii_packages after));
          reconciled = reconcile_reasons before after (proposals_from_plan plan) protected installonly;
          replaced = replacement_reasons existing plan;
          after_by_identity = bt_collect (map (\<lambda>p. (package_identity p, p)) (ii_packages after)) in
      bindR (mapR (\<lambda>item.
        bindR (ok_or (Corrupt ''reconciled package disappeared'')
          (map_of after_by_identity (id_db_instance (rc_identity item), id_header_sha256 (rc_identity item))))
        (\<lambda>package. Inr \<lparr>re_db_instance = id_db_instance (rc_identity item),
           re_header_sha256 = id_header_sha256 (rc_identity item), re_package_name = rc_package_name item,
           re_reason = reason_of_item policy replaced existing package item\<rparr>)) reconciled)
      (\<lambda>entries. Inr (sort_key entry_key entries)))"

definition record_success ::
  "env \<Rightarrow> (reason_state, 'r) serde \<Rightarrow> path \<Rightarrow> installed_inventory \<Rightarrow> installed_inventory \<Rightarrow> plan_envelope
     \<Rightarrow> solver_policy \<Rightarrow> unit io" where
  "record_success env S root before after plan policy =
     with_lock env root (bindI (reason_read env S root) (\<lambda>state.
       bindI (liftR (success_records state before after plan policy)) (\<lambda>entries.
       reason_write env S root \<lparr>rs_schema_version = 1, rs_records = entries\<rparr>)))"

definition candidate_names ::
  "reason_state \<Rightarrow> installed_inventory \<Rightarrow> solver_policy \<Rightarrow> string list" where
  "candidate_names state inventory policy =
     (let installed = bt_collect (map (\<lambda>p. (package_identity p, p)) (ii_packages inventory)) in
      map re_package_name (filter (\<lambda>e. case map_of installed (entry_identity e) of
          None \<Rightarrow> False
        | Some package \<Rightarrow> \<not> (ip_name package \<noteq> re_package_name e \<or> \<not> is_autoremove_candidate (re_reason e)
             \<or> is_protected policy (ip_name package) \<or> is_installonly policy (ip_name package)
             \<or> is_running_kernel policy (ip_name package))) (rs_records state)))"

definition autoremove_candidates ::
  "env \<Rightarrow> (reason_state, 'r) serde \<Rightarrow> path \<Rightarrow> installed_inventory \<Rightarrow> solver_policy \<Rightarrow> string list io" where
  "autoremove_candidates env S root inventory policy =
     with_lock env root (bindI (reason_read env S root) (\<lambda>state.
       let names = sort (candidate_names state inventory policy) in
       if any_window (=) names
       then failI (Corrupt ''autoremove package name has multiple installed identities'')
       else returnI names))"

section \<open>The state file\<close>

lemma check_entries_ok:
  "check_entries seen es = Inr u \<longleftrightarrow> (\<forall>e\<in>set es. \<not> entry_bad e) \<and> distinct (map entry_identity es)
     \<and> entry_identity ` set es \<inter> seen = {}"
  by (induction es arbitrary: seen) auto

lemma entry_key_inj [simp]: "entry_key a = entry_key b \<longleftrightarrow> a = b"
  by (auto simp: entry_key_def)

lemma reason_valid_iff:
  "reason_validate_state s = Inr u \<longleftrightarrow> rs_schema_version s = 1 \<and> length (rs_records s) \<le> MAX_RECORDS
     \<and> sorted_wrt (<) (map entry_key (rs_records s)) \<and> (\<forall>e\<in>set (rs_records s). \<not> entry_bad e)
     \<and> distinct (map entry_identity (rs_records s))"
  by (auto simp: reason_validate_state_def check_entries_ok)

lemma reason_decode_ok:
  "reason_decode S bs = Inr s \<longleftrightarrow> canonical_parse S bs = Inr s \<and> reason_validate_state s = Inr ()"
  by (auto simp: reason_decode_def reason_encode_def bindR_eq_Inr map_err_eq_Inr dest: canonical_parse_serialize)

interpretation reason_file: state_file reason_default "reason_decode S" "reason_encode S" reason_validate_state
  Inr REASON_MAX_STATE_BYTES "''package reason state''" for S :: "(reason_state, 'r) serde"
proof
  show "reason_validate_state reason_default = Inr ()"
    by (simp add: reason_valid_iff reason_default_def)
  fix bs s assume d: "reason_decode S bs = Inr s"
  then show "reason_validate_state s = Inr ()" by (simp add: reason_decode_ok)
  from d show "\<exists>s0. reason_encode S s0 = Inr bs \<and> Inr s0 = Inr s"
    by (auto simp: reason_decode_ok reason_encode_def map_err_eq_Inr dest: canonical_parse_serialize)
qed simp

abbreviation reason_stored :: "(reason_state, 'r) serde \<Rightarrow> directory \<Rightarrow> reason_state \<Rightarrow> bool" where
  "reason_stored S \<equiv> document_stored reason_default (reason_encode S) Inr"

section \<open>Reconciliation against a reference\<close>

text \<open>The decision for a package, without the threading of the remaining proposals.\<close>

definition decision_for ::
  "(u64 \<times> string) set \<Rightarrow> string set \<Rightarrow> string set \<Rightarrow> (planned_fields, package_reason) btree_map \<Rightarrow> installed_package
     \<Rightarrow> reason_decision" where
  "decision_for before protected installonly proposed p =
     (if ip_name p \<in> protected \<or> ip_name p \<in> installonly then KeepReason User
      else if package_identity p \<in> before then KeepReason External
      else case map_of proposed (package_key p) of Some r \<Rightarrow> reason_decision_of r | None \<Rightarrow> KeepReason External)"

lemma decision_for_remove:
  "package_key q \<noteq> k \<Longrightarrow> decision_for b pr io (bt_remove k m) q = decision_for b pr io m q"
  by (simp add: decision_for_def bt_remove_map_of)

lemma reconcile_packages_map:
  assumes "distinct (map package_key ps)"
  shows "reconcile_packages before protected installonly proposed ps = map (\<lambda>p.
      \<lparr>rc_identity = \<lparr>id_db_instance = ip_db_instance p, id_header_sha256 = as_str (ip_header p)\<rparr>,
       rc_package_name = ip_name p, rc_decision = decision_for before protected installonly proposed p\<rparr>) ps"
  using assms
proof (induction ps arbitrary: proposed)
  case (Cons p ps)
  let ?m = "bt_remove (package_key p) proposed"
  have same: "decision_for before protected installonly ?m q = decision_for before protected installonly proposed q"
    if "q \<in> set ps" for q
  proof (rule decision_for_remove)
    have "package_key p \<notin> package_key ` set ps" using Cons.prems by simp
    then show "package_key q \<noteq> package_key p" using imageI [OF that, of "\<lambda>p. package_key p"] by auto
  qed
  have "distinct (map package_key ps)" using Cons.prems by simp
  note IH = Cons.IH [OF this]
  have rest: "reconcile_packages before protected installonly ?m ps
      = reconcile_packages before protected installonly proposed ps"
    unfolding IH using same by simp
  show ?case
    by (cases "ip_name p \<in> protected \<or> ip_name p \<in> installonly"; cases "package_identity p \<in> before";
        cases "map_of proposed (package_key p)")
      (simp_all add: rest IH same decision_for_def [where p = p])
qed simp

text \<open>The reason that is recorded for a package of the new inventory.\<close>

definition expected_reason ::
  "reason_state \<Rightarrow> installed_inventory \<Rightarrow> plan_envelope \<Rightarrow> solver_policy \<Rightarrow> installed_package \<Rightarrow> package_reason" where
  "expected_reason state before plan policy p =
     (let existing = bt_collect (map (\<lambda>e. (entry_identity e, e)) (rs_records state)) in
      if is_kept policy (ip_name p) then User
      else case map_of (replacement_reasons existing plan) (package_key p) of
        Some reason \<Rightarrow> reason
      | None \<Rightarrow> (case map_of existing (package_identity p) of
          Some e \<Rightarrow> re_reason e
        | None \<Rightarrow>
            if package_identity p \<in> package_identity ` set (ii_packages before) then External
            else (case map_of (proposals_from_plan plan) (package_key p) of None \<Rightarrow> External | Some reason \<Rightarrow> reason)))"

definition expected_entry ::
  "reason_state \<Rightarrow> installed_inventory \<Rightarrow> plan_envelope \<Rightarrow> solver_policy \<Rightarrow> installed_package \<Rightarrow> reason_entry" where
  "expected_entry state before plan policy p =
     \<lparr>re_db_instance = ip_db_instance p, re_header_sha256 = as_str (ip_header p), re_package_name = ip_name p,
      re_reason = expected_reason state before plan policy p\<rparr>"

lemma map_of_identity:
  assumes "distinct (map f xs)" "p \<in> set xs"
  shows "map_of (rev (map (\<lambda>x. (f x, x)) xs)) (f p) = Some p"
proof -
  have "distinct (map fst (rev (map (\<lambda>x. (f x, x)) xs)))"
    using assms(1) by (simp add: rev_map [symmetric] o_def)
  then show ?thesis using assms(2) by (intro map_of_is_SomeI) auto
qed

lemma mapR_map: "mapR f (map g xs) = mapR (\<lambda>x. f (g x)) xs"
  by (induction xs) simp_all

lemma decision_value [simp]:
  "(case reason_decision_of r of RecordReason reason \<Rightarrow> reason | KeepReason reason \<Rightarrow> reason) = r"
  by (simp add: reason_decision_of_def)

lemma reason_of_item_eq:
  fixes state after policy
  defines "existing \<equiv> bt_collect (map (\<lambda>e. (entry_identity e, e)) (rs_records state))"
    and "protected \<equiv> ip_name ` set (filter (\<lambda>p. is_protected policy (ip_name p)) (ii_packages after))"
    and "installonly \<equiv> ip_name ` set (filter (\<lambda>p. is_installonly policy (ip_name p)
            \<or> is_running_kernel policy (ip_name p)) (ii_packages after))"
  shows "reason_of_item policy (replacement_reasons existing plan) existing p
      \<lparr>rc_identity = \<lparr>id_db_instance = ip_db_instance p, id_header_sha256 = as_str (ip_header p)\<rparr>,
       rc_package_name = ip_name p, rc_decision = decision_for (package_identity ` set (ii_packages before))
         protected installonly (proposals_from_plan plan) p\<rparr>
    = expected_reason state before plan policy p"
proof (cases "is_kept policy (ip_name p)")
  case False
  then have "ip_name p \<notin> protected" "ip_name p \<notin> installonly"
    by (auto simp: protected_def installonly_def is_kept_def)
  then show ?thesis
    using False unfolding reason_of_item_def expected_reason_def existing_def Let_def
    by (simp add: decision_for_def split: option.split)
qed (simp add: reason_of_item_def expected_reason_def)

lemma success_records_eq:
  assumes "inventory_validate after = Inr ()" "distinct (map package_key (ii_packages after))"
  shows "success_records state before after plan policy =
    Inr (sort_key entry_key (map (expected_entry state before plan policy) (ii_packages after)))"
proof -
  have d: "distinct (map package_identity (ii_packages after))"
    using assms(1) by (auto simp: inventory_validate_iff inventory_wf_def distinct_map inj_on_def)
  have found: "map_of (rev (map (\<lambda>p. (package_identity p, p)) (ii_packages after))) (package_identity p) = Some p"
    if "p \<in> set (ii_packages after)" for p
    using map_of_identity [OF d that] .
  show ?thesis
    unfolding success_records_def Let_def reconcile_reasons_def reconcile_packages_map [OF assms(2)] mapR_map
    by (subst mapR_all_Inr [where g = "expected_entry state before plan policy"])
      (simp_all add: found reason_of_item_eq expected_entry_def del: set_filter)
qed

section \<open>Operations on the store\<close>

lemma reason_read_stored:
  assumes "reason_read env S p w = (Done s, w')" "honest w" "wd_dirs w p = Some d"
  shows "reason_stored S d s \<and> reason_validate_state s = Inr () \<and> wd_dirs w' = wd_dirs w"
  using reason_file.read_stored [OF assms(1) [unfolded reason_read_def] assms(2,3)] .

lemma reason_read_keeps: "wd_dirs w p = Some d \<Longrightarrow> reason_read env S p w = (r, w') \<Longrightarrow> wd_dirs w' = wd_dirs w"
  unfolding reason_read_def document_read_def
  by (erule bindI_cases) (auto simp: liftR_def returnI_def failI_def dest: optional_read_keeps split: option.splits sum.splits)

lemma reason_write_outcome:
  assumes d: "wd_dirs w p = Some d" "root_ok env d" and run: "reason_write env S p s w = (r, w')"
  shows "\<exists>d'. wd_dirs w' = (wd_dirs w)(p \<mapsto> d') \<and> root_ok env d'
    \<and> (find_entry d' STATE_FILE = find_entry d STATE_FILE \<or> reason_stored S d' s)
    \<and> (r = Done () \<longrightarrow> reason_stored S d' s \<and> reason_validate_state s = Inr ())"
proof -
  have c: "False \<longrightarrow> calm w" by simp
  note W = reason_file.write_dwp [OF d(2), where c = False and p = p and s = s and S = S, folded reason_write_def]
  obtain r2 w2 d2 where r2: "reason_write env S p s w = (r2, w2)" "wd_dirs w2 = (wd_dirs w)(p \<mapsto> d2)"
    and R: "root_ok env d2" "find_entry d2 STATE_FILE = find_entry d STATE_FILE \<or> reason_stored S d2 s"
      "r2 = Done () \<longrightarrow> reason_stored S d2 s \<and> reason_validate_state s = Inr ()"
    by (rule dwpD [OF W d(1) c]) blast
  then show ?thesis using run by auto
qed

section \<open>Properties\<close>


definition example_reason_state :: reason_state where
  "example_reason_state = \<lparr>rs_schema_version = 1, rs_records =
     [\<lparr>re_db_instance = 1, re_header_sha256 = replicate 64 (CHR ''a''), re_package_name = ''foo'', re_reason = User\<rparr>,
      \<lparr>re_db_instance = 2, re_header_sha256 = replicate 64 (CHR ''b''), re_package_name = ''foo'', re_reason = Dependency\<rparr>]\<rparr>"

definition example_reason_serde :: "(reason_state, reason_state) serde" where
  "example_reason_serde =
     \<lparr>from_slice = (\<lambda>bs. if bs = ''g'' then Inr example_reason_state else Inl ''syntax''), to_value = Inr,
      to_vec = (\<lambda>s. if s = example_reason_state then Inr ''g'' else Inl ''unsupported'')\<rparr>"

definition example_reason_root :: directory where
  "example_reason_root = example_directory\<lparr>di_entries := [(STATE_FILE, FileE (record_file example_env ''g''))]\<rparr>"

text \<open>Two versions of one package, one asked for by the user and one pulled in.\<close>

definition example_versions :: installed_inventory where
  "example_versions = example_inventory\<lparr>ii_packages :=
     [example_package ''foo'' 1 (CHR ''a''),
      (example_package ''foo'' 2 (CHR ''b''))\<lparr>ip_evra := evra_new 0 ''2'' ''1'' X86_64\<rparr>]\<rparr>"

lemma example_versions_valid: "inventory_validate example_versions = Inr ()"
  by code_simp

lemma example_candidates:
  "fst (autoremove_candidates example_env example_reason_serde [''journal''] example_versions example_policy
     (example_world NoFault [] example_reason_root)) = Done [''foo'']"
  by code_simp


text \<open>
  \<^verbatim>\<open>autoremove_candidates\<close> changes nothing, and the names it returns are, sorted and without
  repetition, exactly those of the installed packages whose stored record has their identity and
  name and gives a dependency as the reason, except what the policy protects, installs in parallel
  or runs as its kernel.
\<close>

theorem autoremove_candidates_exact:
  assumes "autoremove_candidates env S p inventory policy w = (r, w')"
    and "wd_dirs w p = Some d" "honest w" "inventory_validate inventory = Inr ()"
  shows "wd_dirs w' = wd_dirs w \<and> (\<forall>names. r = Done names \<longrightarrow>
    (\<exists>s. reason_stored S d s \<and> reason_validate_state s = Inr () \<and> sorted_wrt (<) names
       \<and> set names = {name. \<not> is_kept policy name \<and> (\<exists>e\<in>set (rs_records s). \<exists>package\<in>set (ii_packages inventory).
            entry_identity e = package_identity package \<and> re_package_name e = name \<and> ip_name package = name
            \<and> re_reason e \<in> {Dependency, WeakDependency})}))"
proof -
  have d: "distinct (map package_identity (ii_packages inventory))"
    using assms(4) by (auto simp: inventory_validate_iff inventory_wf_def distinct_map inj_on_def)
  have found: "map_of (rev (map (\<lambda>p. (package_identity p, p)) (ii_packages inventory))) k = Some q
      \<longleftrightarrow> q \<in> set (ii_packages inventory) \<and> package_identity q = k" for k q
    using map_of_identity [OF d] by (auto dest: map_of_SomeD)
  have cands: "set (candidate_names s inventory policy) = {name. \<not> is_kept policy name
      \<and> (\<exists>e\<in>set (rs_records s). \<exists>package\<in>set (ii_packages inventory).
            entry_identity e = package_identity package \<and> re_package_name e = name \<and> ip_name package = name
            \<and> re_reason e \<in> {Dependency, WeakDependency})}" for s
  proof -
    have case_ex: "(case v of None \<Rightarrow> False | Some q \<Rightarrow> Q q) \<longleftrightarrow> (\<exists>q. v = Some q \<and> Q q)" for v and Q :: "installed_package \<Rightarrow> bool"
      by (cases v) simp_all
    show ?thesis
      unfolding candidate_names_def Let_def map_of_bt_collect case_ex found is_kept_def is_autoremove_candidate_def
      by (simp add: set_eq_iff image_iff, intro allI, rule iffI; metis)
  qed
  show ?thesis
    using assms(1) [unfolded autoremove_candidates_def]
  proof (cases rule: with_lockD)
    case refused
    then show ?thesis by simp
  next
    case (taken w0 r1 w1)
    have w0: "wd_dirs w0 p = Some d" "honest w0" using taken assms by simp_all
    from taken(1) show ?thesis
    proof (cases rule: bindI_cases)
      case (stopped a)
      then have "wd_dirs w1 = wd_dirs w0" using reason_read_keeps [OF w0(1)] by metis
      then show ?thesis using taken stopped by auto
    next
      case (continued s w2)
      have s: "reason_stored S d s" "reason_validate_state s = Inr ()" "wd_dirs w2 = wd_dirs w0"
        using reason_read_stored [OF continued(1) w0(2,1)] by auto
      let ?names = "sort (candidate_names s inventory policy)"
      have w1: "w1 = w2" and r1: "r1 = Done names \<Longrightarrow> names = ?names \<and> distinct ?names" for names
        using continued(2) by (auto simp: Let_def returnI_def failI_def any_window_eq_sorted split: if_splits)
      have "sorted_wrt (<) ?names" if "distinct ?names" using that by (simp add: strict_sorted_iff)
      then show ?thesis using s taken(2,3,4) w1 r1 cands [of s] by auto
    qed
  qed
qed

theorem autoremove_candidates_exact_witness:
  "\<exists>w'. autoremove_candidates example_env example_reason_serde [''journal''] example_versions example_policy
       (example_world NoFault [] example_reason_root) = (Done [''foo''], w')
     \<and> wd_dirs w' = wd_dirs (example_world NoFault [] example_reason_root)"
proof -
  let ?w = "example_world NoFault [] example_reason_root"
  obtain w' where run: "autoremove_candidates example_env example_reason_serde [''journal''] example_versions
      example_policy ?w = (Done [''foo''], w')"
    using example_candidates by (metis prod.collapse)
  have w: "wd_dirs ?w [''journal''] = Some example_reason_root" "honest ?w"
    by (simp_all add: example_world_def honest_def)
  show ?thesis using autoremove_candidates_exact [OF run w example_versions_valid] run by blast
qed

text \<open>
  The result consists of names, and the check for several identities looks only at
  candidates: with two versions of a package installed, one of them recorded as asked for by the
  user, the name is returned all the same.
\<close>

theorem autoremove_name_covers_user_package:
  "\<exists>s inventory policy w w' w''. reason_validate_state s = Inr () \<and> inventory_validate inventory = Inr ()
     \<and> reason_read example_env example_reason_serde [''journal''] w = (Done s, w')
     \<and> autoremove_candidates example_env example_reason_serde [''journal''] inventory policy w = (Done [''foo''], w'')
     \<and> (\<exists>package\<in>set (ii_packages inventory). \<exists>e\<in>set (rs_records s). ip_name package = ''foo''
          \<and> entry_identity e = package_identity package \<and> re_reason e = User)"
proof -
  let ?w = "example_world NoFault [] example_reason_root"
  have "fst (reason_read example_env example_reason_serde [''journal''] ?w) = Done example_reason_state" by code_simp
  then obtain w' where "reason_read example_env example_reason_serde [''journal''] ?w = (Done example_reason_state, w')"
    by (metis prod.collapse)
  moreover obtain w'' where "autoremove_candidates example_env example_reason_serde [''journal''] example_versions
      example_policy ?w = (Done [''foo''], w'')"
    using example_candidates by (metis prod.collapse)
  moreover have "reason_validate_state example_reason_state = Inr ()" by code_simp
  moreover have "\<exists>package\<in>set (ii_packages example_versions). \<exists>e\<in>set (rs_records example_reason_state).
      ip_name package = ''foo'' \<and> entry_identity e = package_identity package \<and> re_reason e = User"
    by (simp add: example_versions_def example_reason_state_def example_package_def)
  ultimately show ?thesis using example_versions_valid by blast
qed

text \<open>
  Property C31. The store accepts and writes a state of up to 64 MiB, but its reader refuses every
  document over 16 MiB: such a state is written successfully and can never be read again.
\<close>

theorem reason_state_written_but_unreadable:
  assumes "reason_validate_state s = Inr ()" "reason_encode S s = Inr bs"
    and "MAX_DOCUMENT_BYTES < length bs" "length bs \<le> REASON_MAX_STATE_BYTES"
    and "wd_dirs w p = Some d" "root_ok env d" "calm w"
  shows "\<exists>w' w''. reason_write env S p s w = (Done (), w')
    \<and> reason_read env S p w' = (Failed (Corrupt (domain_error_display DocumentTooLarge)), w'')"
proof -
  have c: "True \<longrightarrow> calm w" using assms(7) by simp
  note W = reason_file.write_dwp [OF assms(6), where c = True and p = p and s = s and S = S, folded reason_write_def]
  obtain r w' d' where r: "reason_write env S p s w = (r, w')" "wd_dirs w' = (wd_dirs w)(p \<mapsto> d')" "True \<longrightarrow> calm w'"
    and "r = Done ()" and f: "find_entry d' STATE_FILE = Some (FileE (record_file env bs))"
    by (rule dwpD [OF W assms(5) c]) (use assms(1,2,4) in blast)
  have d': "wd_dirs w' p = Some d'" and cw: "calm w'" using r by simp_all
  have ready: "readable env REASON_MAX_STATE_BYTES (record_file env bs)"
    using assms(4) by (simp add: readable_def)
  have "inspect bs = Inl DocumentTooLarge" using assms(3) by (simp add: inspect_def)
  then have "reason_decode S bs = Inl (Corrupt (domain_error_display DocumentTooLarge))"
    by (simp add: reason_decode_def canonical_parse_def corrupt_def)
  moreover obtain w2 where "reason_read env S p w' = liftR (reason_decode S (fl_data (record_file env bs))) w2"
    using reason_file.read_calm [OF d' cw f ready, where S = S] unfolding reason_read_def by blast
  ultimately have "reason_read env S p w' = (Failed (Corrupt (domain_error_display DocumentTooLarge)), w2)"
    by (simp add: liftR_def failI_def)
  then show ?thesis using r \<open>r = Done ()\<close> by blast
qed

definition example_large_serde :: "(reason_state, reason_state) serde" where
  "example_large_serde = \<lparr>from_slice = (\<lambda>bs. Inr reason_default), to_value = Inr,
     to_vec = (\<lambda>s. Inr (replicate (Suc MAX_DOCUMENT_BYTES) (CHR ''x'')))\<rparr>"

theorem reason_state_written_but_unreadable_witness:
  "\<exists>w' w''. reason_write example_env example_large_serde [''journal''] reason_default (example_world NoFault [] example_directory)
       = (Done (), w')
     \<and> reason_read example_env example_large_serde [''journal''] w'
       = (Failed (Corrupt (domain_error_display DocumentTooLarge)), w'')"
proof (rule reason_state_written_but_unreadable)
  show "reason_encode example_large_serde reason_default = Inr (replicate (Suc MAX_DOCUMENT_BYTES) (CHR ''x''))"
    by (simp add: reason_encode_def canonical_serialize_def example_large_serde_def del: replicate_Suc)
  show "wd_dirs (example_world NoFault [] example_directory) [''journal''] = Some example_directory"
    "calm (example_world NoFault [] example_directory)"
    by (simp_all add: example_world_def calm_def)
  show "root_ok example_env example_directory"
    by (simp add: root_ok_def example_directory_def)
  show "length (replicate (Suc MAX_DOCUMENT_BYTES) (CHR ''x'')) \<le> REASON_MAX_STATE_BYTES"
    by (simp add: MAX_DOCUMENT_BYTES_def REASON_MAX_STATE_BYTES_def del: replicate_Suc)
qed (simp_all add: reason_file.initial_valid)

end
