(* ===== verification/Metadata_Model.thy ===== *)
theory Metadata_Model
  imports Dnf_Text
begin

text \<open>
  \<^verbatim>\<open>crates/dnfast-metadata/src/relations.rs\<close>, \<^verbatim>\<open>primary.rs\<close>: the relations and packages of rpm-md
  metadata that the solver's evidence is checked against.
\<close>

datatype relation_flags = EqualF | LessF | LessEqualF | GreaterF | GreaterEqualF

record relation =
  rel_name :: string
  rel_flags :: "relation_flags option"
  rel_epoch :: "string option"
  rel_version :: "string option"
  rel_release :: "string option"
  rel_pre :: bool

record complete_package =
  mp_name :: string
  mp_arch :: string
  mp_epoch :: string
  mp_version :: string
  mp_release :: string
  mp_summary :: string
  mp_checksum :: string
  mp_location :: string
  mp_description :: string
  mp_vendor :: string
  mp_build_host :: string
  mp_source_rpm :: string
  mp_package_size :: u64
  mp_installed_size :: u64
  mp_archive_size :: u64
  mp_build_time :: u64
  mp_provides :: "relation list"
  mp_requires :: "relation list"
  mp_recommends :: "relation list"
  mp_suggests :: "relation list"
  mp_supplements :: "relation list"
  mp_enhances :: "relation list"
  mp_conflicts :: "relation list"
  mp_obsoletes :: "relation list"
  mp_files :: "string list"

definition nevra_text :: "string \<Rightarrow> string \<Rightarrow> string \<Rightarrow> string \<Rightarrow> string \<Rightarrow> string" where
  "nevra_text name epoch version release arch =
     name @ ''-'' @ epoch @ '':'' @ version @ ''-'' @ release @ ''.'' @ arch"

definition complete_nevra :: "complete_package \<Rightarrow> string" where
  "complete_nevra p = nevra_text (mp_name p) (mp_epoch p) (mp_version p) (mp_release p) (mp_arch p)"

end
