(* ===== verification/Solver_Model.thy ===== *)
theory Solver_Model
  imports Core_Plan Core_Inventory Metadata_Model
begin

text \<open>
  \<^verbatim>\<open>crates/dnfast-solver/src/model.rs\<close> and \<^verbatim>\<open>validation.rs\<close>: the data of the solver: candidate
  packages, the actions a solver run resolved, the explained actions of a plan and the errors of
  planning.
\<close>

definition MAX_PLAN_ARTIFACT_BYTES :: u64 where
  "MAX_PLAN_ARTIFACT_BYTES = 16 * 1024 * 1024 * 1024 * 1024"

datatype plan_error =
    NoChanges
  | IntentCoverage
  | UnrelatedAction string
  | ConflictingAction string
  | DuplicateAction string
  | Unresolved string
  | DuplicateCandidate string
  | AmbiguousCandidate string
  | DependencyCycle
  | MissingParent string
  | DisconnectedGraph
  | Invalid string
  | Excluded string
  | Modular string
  | NonPreferred string
  | RepositoryNotSelected string
  | InstalledMissing string
  | AmbiguousInstalled string
  | UnpairedNativeOld string
  | Unsafe string
  | CanonicalError string
  | ReSolveMismatch

record candidate_package =
  cp_name :: string
  cp_evra :: evra
  cp_vendor :: string
  cp_repo_id :: string
  cp_priority :: u32
  cp_cost :: u32
  cp_package_size :: u64
  cp_installed_size :: u64
  cp_checksum_sha256 :: string
  cp_location :: string
  cp_excluded :: bool
  cp_modular :: bool

section \<open>Relations as text\<close>

record native_package_evidence =
  ne_name :: string
  ne_arch :: string
  ne_epoch :: string
  ne_version :: string
  ne_release :: string
  ne_requires :: "string list"
  ne_recommends :: "string list"
  ne_supplements :: "string list"
  ne_enhances :: "string list"

fun operator_text :: "relation_flags \<Rightarrow> string" where
  "operator_text EqualF = ''=''"
| "operator_text LessF = ''<''"
| "operator_text LessEqualF = ''<=''"
| "operator_text GreaterF = ''>''"
| "operator_text GreaterEqualF = ''>=''"

definition compact_relation :: "relation \<Rightarrow> string" where
  "compact_relation item =
     (case rel_flags item of
        None \<Rightarrow> rel_name item
      | Some flags \<Rightarrow>
          (let epoch = (case rel_epoch item of
                 None \<Rightarrow> [] | Some value \<Rightarrow> if value \<noteq> ''0'' then value @ '':'' else []);
               release = (case rel_release item of None \<Rightarrow> [] | Some value \<Rightarrow> ''-'' @ value);
               version = (case rel_version item of None \<Rightarrow> [] | Some value \<Rightarrow> value)
           in rel_name item @ '' '' @ operator_text flags @ '' '' @ epoch @ version @ release))"

definition evidence_from_complete :: "complete_package \<Rightarrow> native_package_evidence" where
  "evidence_from_complete p =
     \<lparr>ne_name = mp_name p, ne_arch = mp_arch p, ne_epoch = mp_epoch p, ne_version = mp_version p,
      ne_release = mp_release p, ne_requires = map compact_relation (mp_requires p),
      ne_recommends = map compact_relation (mp_recommends p),
      ne_supplements = map compact_relation (mp_supplements p),
      ne_enhances = map compact_relation (mp_enhances p)\<rparr>"

text \<open>\<^verbatim>\<open>NativePackageEvidenceParts\<close> has the same fields; they are moved one by one.\<close>

definition evidence_from_native :: "native_package_evidence \<Rightarrow> native_package_evidence" where
  "evidence_from_native parts =
     \<lparr>ne_name = ne_name parts, ne_arch = ne_arch parts, ne_epoch = ne_epoch parts,
      ne_version = ne_version parts, ne_release = ne_release parts, ne_requires = ne_requires parts,
      ne_recommends = ne_recommends parts, ne_supplements = ne_supplements parts,
      ne_enhances = ne_enhances parts\<rparr>"

section \<open>Resolved and explained actions\<close>

datatype resolved_operation = RInstall | RUpgrade | RDowngrade | RReinstall | RRemove

datatype dependency_kind = Strong | Weak

record dependency_edge =
  de_parent :: string
  de_kind :: dependency_kind

datatype resolved_provenance = ObsoletedByAction (parent_identity: string)

record resolved_action =
  ra_operation :: resolved_operation
  ra_name :: string
  ra_requested :: bool
  ra_requested_spec :: "package_spec option"
  ra_requested_relation :: bool
  ra_candidate :: "candidate_package option"
  ra_installed_instance :: "u64 option"
  ra_installed_header_sha256 :: "string option"
  ra_installed_vendor :: "string option"
  ra_dependency_edges :: "dependency_edge list"
  ra_provenance :: "resolved_provenance option"
  ra_required_by_remaining :: "string list"
  ra_unresolved_dependencies :: "string list"
  ra_introduced_by_requested :: bool
  ra_solver_rule :: string

record artifact_record =
  ar_checksum_sha256 :: string
  ar_location :: string
  ar_package_size :: u64

datatype requested_relation = Requested | DependencyRelation | WeakDependencyRelation

fun relation_reason :: "requested_relation \<Rightarrow> package_reason" where
  "relation_reason Requested = User"
| "relation_reason DependencyRelation = Dependency"
| "relation_reason WeakDependencyRelation = WeakDependency"

record plan_protection =
  pp_installonly :: bool
  pp_protected :: bool
  pp_running_kernel :: bool

record explained_action =
  ea_operation :: string
  ea_name :: string
  ea_target_evra :: evra
  ea_installed_evra :: "evra option"
  ea_installed_instance :: "u64 option"
  ea_installed_header_sha256 :: "string option"
  ea_installed_vendor :: "string option"
  ea_vendor :: "string option"
  ea_repo_id :: "string option"
  ea_reason :: package_reason
  ea_relation :: requested_relation
  ea_requested_by :: "string option"
  ea_dependency_edges :: "dependency_edge list"
  ea_provenance :: "resolved_provenance option"
  ea_package_size :: u64
  ea_installed_size :: u64
  ea_artifact :: "artifact_record option"
  ea_protection :: plan_protection
  ea_explanation :: string

record plan_builder =
  pb_intent :: transaction_intent
  pb_snapshots :: plan_integrity
  pb_inventory :: installed_inventory
  pb_policy :: solver_policy
  pb_candidates :: "candidate_package list"
  pb_expires_at_unix :: u64

end
