(* ===== verification/Solver_Preflight.thy ===== *)
theory Solver_Preflight
  imports Solver_Model
begin

text \<open>
  \<^verbatim>\<open>crates/dnfast-solver/src/preflight.rs\<close>: the checks of the resolved actions before a plan is
  built (\<open>validate_inputs\<close>), among them that every action is reachable from a requested one
  (\<open>validate_reachable\<close>). The order of the actions, from the same file, is in
  \<open>Solver_Order\<close>.
\<close>

section \<open>Checks of the inputs\<close>

definition resolved_identity :: "resolved_action \<Rightarrow> string option" where
  "resolved_identity a = map_option (\<lambda>c.
     cp_repo_id c @ '':'' @ nevra_text (cp_name c) (show_nat (unat (ev_epoch (cp_evra c))))
       (ev_version (cp_evra c)) (ev_release (cp_evra c)) (as_rpm_arch (ev_arch (cp_evra c))))
     (ra_candidate a)"

definition validate_repository_selection :: "plan_builder \<Rightarrow> (plan_error, unit) result" where
  "validate_repository_selection b =
     forR (\<lambda>c. if \<not> list_ex (\<lambda>r. rb_id r = cp_repo_id c) (pi_selected_repositories (pb_snapshots b))
              then Inl (RepositoryNotSelected (cp_repo_id c)) else Inr ())
       (pb_candidates b)"

type_synonym exact_key = "string \<times> evra \<times> string \<times> u32 \<times> u32 \<times> string \<times> string \<times> string"
type_synonym policy_key = "string \<times> evra \<times> string \<times> u32 \<times> u32"
type_synonym artifact_identity = "string \<times> string \<times> string \<times> u64 \<times> u64"

definition exact_key_of :: "candidate_package \<Rightarrow> exact_key" where
  "exact_key_of c = (cp_name c, cp_evra c, cp_repo_id c, cp_priority c, cp_cost c, cp_vendor c,
     cp_checksum_sha256 c, cp_location c)"

definition policy_key_of :: "candidate_package \<Rightarrow> policy_key" where
  "policy_key_of c = (cp_name c, cp_evra c, cp_repo_id c, cp_priority c, cp_cost c)"

definition artifact_identity_of :: "candidate_package \<Rightarrow> artifact_identity" where
  "artifact_identity_of c = (cp_vendor c, cp_checksum_sha256 c, cp_location c, cp_package_size c,
     cp_installed_size c)"

fun validate_candidates_from ::
  "exact_key set \<Rightarrow> (policy_key \<rightharpoonup> artifact_identity) \<Rightarrow> candidate_package list \<Rightarrow> (plan_error, unit) result"
  where
  "validate_candidates_from exact policy [] = Inr ()"
| "validate_candidates_from exact policy (c # cs) =
     (if exact_key_of c \<in> exact then Inl (DuplicateCandidate (cp_name c))
      else (case policy (policy_key_of c) of
          Some previous \<Rightarrow>
            if previous \<noteq> artifact_identity_of c then Inl (AmbiguousCandidate (cp_name c))
            else validate_candidates_from (insert (exact_key_of c) exact)
                   (policy(policy_key_of c \<mapsto> artifact_identity_of c)) cs
        | None \<Rightarrow> validate_candidates_from (insert (exact_key_of c) exact)
                   (policy(policy_key_of c \<mapsto> artifact_identity_of c)) cs))"

definition validate_candidates :: "candidate_package list \<Rightarrow> (plan_error, unit) result" where
  "validate_candidates cs = validate_candidates_from {} Map.empty cs"

text \<open>The kinds of operation an intent allows.\<close>

definition validate_kind :: "action \<Rightarrow> resolved_action \<Rightarrow> (plan_error, unit) result" where
  "validate_kind intent a =
     (let obsoletion_side_effect = ra_provenance a \<noteq> None \<and> ra_operation a = RRemove \<and> intent \<noteq> Remove;
          dependency_install = (intent = Upgrade \<or> intent = DistroSync) \<and> ra_operation a = RInstall
            \<and> \<not> ra_requested a \<and> ra_requested_spec a = None \<and> ra_dependency_edges a \<noteq> [];
          valid = obsoletion_side_effect \<or> dependency_install
            \<or> (case intent of
                 Install \<Rightarrow> ra_operation a = RInstall \<or> ra_operation a = RUpgrade
               | Remove \<Rightarrow> ra_operation a = RRemove \<and> ra_provenance a = None
               | Upgrade \<Rightarrow> ra_operation a = RUpgrade
               | Downgrade \<Rightarrow> ra_operation a = RDowngrade
               | Reinstall \<Rightarrow> ra_operation a = RReinstall
               | DistroSync \<Rightarrow> ra_operation a \<in> {RUpgrade, RDowngrade, RReinstall}
               | Autoremove \<Rightarrow> ra_operation a = RRemove \<and> ra_provenance a = None)
      in if valid then Inr () else Inl (ConflictingAction (ra_name a)))"

subsection \<open>Reachability\<close>

definition obsolete_parent :: "resolved_action list \<Rightarrow> string set \<Rightarrow> resolved_action \<Rightarrow> bool" where
  "obsolete_parent actions reachable item =
     (case ra_provenance item of None \<Rightarrow> False
      | Some (ObsoletedByAction parent) \<Rightarrow>
          list_ex (\<lambda>p. ra_name p \<in> reachable \<and> resolved_identity p = Some parent) actions)"

definition reach_step :: "resolved_action list \<Rightarrow> resolved_action \<Rightarrow> string set \<Rightarrow> string set" where
  "reach_step actions item reachable =
     (if obsolete_parent actions reachable item
        \<or> list_ex (\<lambda>e. de_parent e \<in> reachable) (ra_dependency_edges item)
      then insert (ra_name item) reachable else reachable)"

definition reach_pass :: "resolved_action list \<Rightarrow> string set \<Rightarrow> string set" where
  "reach_pass actions reachable = fold (reach_step actions) actions reachable"

lemma reach_step_bounds:
  "reachable \<subseteq> reach_step actions item reachable"
  "reach_step actions item reachable \<subseteq> insert (ra_name item) reachable"
  by (auto simp: reach_step_def)

lemma fold_reach_bounds:
  "reachable \<subseteq> fold (reach_step actions) items reachable
   \<and> fold (reach_step actions) items reachable \<subseteq> ra_name ` set items \<union> reachable"
proof (induction items arbitrary: reachable)
  case (Cons item items)
  show ?case
    using Cons.IH [of "reach_step actions item reachable"] reach_step_bounds [where reachable = reachable and actions = actions and item = item]
    by auto
qed simp

lemma reach_pass_bounds:
  "reachable \<subseteq> reach_pass actions reachable"
  "reach_pass actions reachable \<subseteq> ra_name ` set actions \<union> reachable"
  using fold_reach_bounds [of reachable actions actions] by (simp_all add: reach_pass_def)

function reach_loop :: "resolved_action list \<Rightarrow> string set \<Rightarrow> string set" where
  "reach_loop actions reachable =
     (let reachable' = reach_pass actions reachable
      in if card reachable' = card reachable then reachable' else reach_loop actions reachable')"
  by pat_completeness auto
termination reach_loop
proof (relation "measure (\<lambda>(actions, reachable). card (ra_name ` set actions - reachable))")
  fix actions :: "resolved_action list" and reachable reachable' :: "string set"
  assume r': "reachable' = reach_pass actions reachable" and ne: "card reachable' \<noteq> card reachable"
  have sub: "reachable \<subseteq> reachable'" "reachable' \<subseteq> ra_name ` set actions \<union> reachable"
    using reach_pass_bounds r' by auto
  from ne sub(1) have "reachable \<noteq> reachable'" by auto
  with sub have "ra_name ` set actions - reachable' \<subset> ra_name ` set actions - reachable" by blast
  then show "((actions, reachable'), (actions, reachable))
      \<in> measure (\<lambda>(actions, reachable). card (ra_name ` set actions - reachable))"
    by (auto intro!: psubset_card_mono)
qed simp

declare reach_loop.simps [simp del]

definition requested_names :: "resolved_action list \<Rightarrow> string set" where
  "requested_names actions = set (map ra_name (filter ra_requested actions))"

definition validate_reachable :: "resolved_action list \<Rightarrow> (plan_error, unit) result" where
  "validate_reachable actions =
     (if card (reach_loop actions (requested_names actions)) = length actions then Inr ()
      else Inl DisconnectedGraph)"

subsection \<open>The check of all inputs\<close>

fun total_size :: "u64 \<Rightarrow> candidate_package list \<Rightarrow> (plan_error, u64) result" where
  "total_size bytes [] = Inr bytes"
| "total_size bytes (c # cs) =
     (case checked_add bytes (cp_package_size c) of
        None \<Rightarrow> Inl (Invalid ''artifact size overflow'')
      | Some bytes' \<Rightarrow> total_size bytes' cs)"

text \<open>\<^verbatim>\<open>*covered.entry(spec).or_default() += 1\<close>\<close>

definition cover :: "string \<Rightarrow> (string, nat) btree_map \<Rightarrow> (string, nat) btree_map" where
  "cover spec m = bt_insert spec (Suc (case map_of m spec of None \<Rightarrow> 0 | Some n \<Rightarrow> n)) m"

fun cover_satisfied ::
  "string list \<Rightarrow> (string, nat) btree_map \<Rightarrow> package_spec list \<Rightarrow> (plan_error, (string, nat) btree_map) result"
  where
  "cover_satisfied requested covered [] = Inr covered"
| "cover_satisfied requested covered (spec # specs) =
     (if spec_str spec \<notin> set requested
      then Inl (Invalid ''satisfied selector is not in requested intent'')
      else cover_satisfied requested (cover (spec_str spec) covered) specs)"

type_synonym resolved_key =
  "resolved_operation \<times> string \<times> u64 option \<times> (evra \<times> string) option"

definition resolved_key_of :: "resolved_action \<Rightarrow> resolved_key" where
  "resolved_key_of a = (ra_operation a, ra_name a, ra_installed_instance a,
     map_option (\<lambda>c. (cp_evra c, cp_repo_id c)) (ra_candidate a))"

definition all_replacement :: "action \<Rightarrow> string list \<Rightarrow> bool" where
  "all_replacement intent requested \<longleftrightarrow> (intent = Upgrade \<or> intent = DistroSync) \<and> requested = []"

definition check_edge :: "string set \<Rightarrow> resolved_action \<Rightarrow> dependency_edge \<Rightarrow> (plan_error, unit) result" where
  "check_edge names a e =
     (if de_parent e = ra_name a then Inl DependencyCycle
      else if de_parent e \<notin> names then Inl (MissingParent (de_parent e)) else Inr ())"

definition check_provenance ::
  "resolved_action list \<Rightarrow> resolved_action \<Rightarrow> (plan_error, unit) result" where
  "check_provenance actions a =
     (case ra_provenance a of None \<Rightarrow> Inr ()
      | Some (ObsoletedByAction parent) \<Rightarrow>
          if ra_operation a \<noteq> RRemove
            \<or> \<not> list_ex (\<lambda>p. resolved_identity p = Some parent) actions
          then Inl (MissingParent parent) else Inr ())"

definition cover_requested ::
  "action \<Rightarrow> string list \<Rightarrow> (string, nat) btree_map \<Rightarrow> resolved_action
     \<Rightarrow> (plan_error, (string, nat) btree_map) result" where
  "cover_requested intent requested covered a =
     (if ra_requested a then
        (case ra_requested_spec a of
           Some spec \<Rightarrow> if spec_str spec \<notin> set requested then Inl (UnrelatedAction (ra_name a))
                       else Inr (cover (spec_str spec) covered)
         | None \<Rightarrow> if all_replacement intent requested then Inr covered
                  else Inl (Invalid ''requested action lacks selector provenance''))
      else Inr covered)"

definition check_action ::
  "action \<Rightarrow> resolved_action list \<Rightarrow> string list \<Rightarrow> resolved_key set \<Rightarrow> (string, nat) btree_map
     \<Rightarrow> resolved_action \<Rightarrow> (plan_error, (string, nat) btree_map) result" where
  "check_action intent actions requested identities covered a =
     (if ra_name a = [] \<or> ra_unresolved_dependencies a \<noteq> [] then Inl (Unresolved (ra_name a))
      else if resolved_key_of a \<in> identities then Inl (DuplicateAction (ra_name a))
      else
        let all_replacement_root = ra_requested a \<and> ra_requested_spec a = None
              \<and> all_replacement intent requested
              \<and> ra_operation a \<in> {RUpgrade, RDowngrade, RReinstall}
        in if ra_requested a \<noteq> (ra_requested_spec a \<noteq> None) \<and> \<not> all_replacement_root
           then Inl (Invalid ''requested action provenance differs'')
           else if ra_requested_relation a \<and> \<not> ra_requested a
           then Inl (Invalid ''relation selector is not requested'')
           else bindR (cover_requested intent requested covered a) (\<lambda>covered'.
                bindR (forR (check_edge (set (map ra_name actions)) a) (ra_dependency_edges a)) (\<lambda>_.
                bindR (check_provenance actions a) (\<lambda>_.
                bindR (validate_kind intent a) (\<lambda>_. Inr covered')))))"

fun check_each ::
  "action \<Rightarrow> resolved_action list \<Rightarrow> string list \<Rightarrow> resolved_key set \<Rightarrow> (string, nat) btree_map
     \<Rightarrow> resolved_action list \<Rightarrow> (plan_error, (string, nat) btree_map) result" where
  "check_each intent actions requested identities covered [] = Inr covered"
| "check_each intent actions requested identities covered (a # as) =
     bindR (check_action intent actions requested identities covered a) (\<lambda>covered'.
       check_each intent actions requested (insert (resolved_key_of a) identities) covered' as)"

definition validate_inputs ::
  "plan_builder \<Rightarrow> resolved_action list \<Rightarrow> package_spec list \<Rightarrow> (plan_error, unit) result" where
  "validate_inputs b actions satisfied =
     (if actions = [] then Inl NoChanges
      else if length actions > MAX_PLAN_ACTIONS then Inl (Invalid ''action limit exceeded'')
      else bindR (validate_repository_selection b) (\<lambda>_.
           bindR (validate_candidates (pb_candidates b)) (\<lambda>_.
           bindR (total_size 0 (List.map_filter ra_candidate actions)) (\<lambda>bytes.
           if bytes > MAX_PLAN_ARTIFACT_BYTES then Inl (Invalid ''artifact size limit exceeded'')
           else
             let requested = map spec_str (ti_packages (pb_intent b)) in
             if card (set (map ra_name actions)) \<noteq> length actions then Inl (DuplicateAction ''name'')
             else bindR (cover_satisfied requested [] satisfied) (\<lambda>covered.
                  bindR (check_each (ti_action (pb_intent b)) actions requested {} covered actions) (\<lambda>covered'.
                  if list_ex (\<lambda>name. map_of covered' name \<noteq> Some 1) requested
                    \<or> list_ex (\<lambda>count. count \<noteq> 1) (bt_values covered')
                  then Inl IntentCoverage
                  else validate_reachable actions))))))"

section \<open>Reachability is the closure it computes\<close>

text \<open>An action is justified when a chain of dependency edges or obsoletions leads to it from a requested one.\<close>

inductive justified :: "resolved_action list \<Rightarrow> string \<Rightarrow> bool" for actions where
  root: "a \<in> set actions \<Longrightarrow> ra_requested a \<Longrightarrow> justified actions (ra_name a)"
| dependency: "a \<in> set actions \<Longrightarrow> e \<in> set (ra_dependency_edges a) \<Longrightarrow> justified actions (de_parent e)
    \<Longrightarrow> justified actions (ra_name a)"
| obsoleted: "a \<in> set actions \<Longrightarrow> ra_provenance a = Some (ObsoletedByAction identity)
    \<Longrightarrow> p \<in> set actions \<Longrightarrow> resolved_identity p = Some identity \<Longrightarrow> justified actions (ra_name p)
    \<Longrightarrow> justified actions (ra_name a)"

lemma obsolete_parentE:
  assumes "obsolete_parent actions reachable item"
  obtains p identity where "ra_provenance item = Some (ObsoletedByAction identity)"
    "p \<in> set actions" "ra_name p \<in> reachable" "resolved_identity p = Some identity"
  using assms
  by (auto simp: obsolete_parent_def list_ex_iff split: option.splits resolved_provenance.splits)

lemma reach_step_sound:
  assumes "item \<in> set actions" "reachable \<subseteq> Collect (justified actions)"
  shows "reach_step actions item reachable \<subseteq> Collect (justified actions)"
proof (cases "obsolete_parent actions reachable item")
  case True
  then have "justified actions (ra_name item)"
    using assms by (elim obsolete_parentE) (blast intro: justified.obsoleted)
  then show ?thesis using assms(2) by (auto simp: reach_step_def)
next
  case False
  then show ?thesis
    using assms by (auto simp: reach_step_def list_ex_iff intro: justified.dependency)
qed

lemma reach_pass_sound:
  assumes "reachable \<subseteq> Collect (justified actions)"
  shows "reach_pass actions reachable \<subseteq> Collect (justified actions)"
proof -
  have "fold (reach_step actions) items reachable \<subseteq> Collect (justified actions)"
    if "set items \<subseteq> set actions" for items
    using that assms by (induction items arbitrary: reachable) (auto simp: reach_step_sound)
  then show ?thesis by (simp add: reach_pass_def)
qed

lemma reach_loop_sound:
  "reachable \<subseteq> Collect (justified actions) \<Longrightarrow> reach_loop actions reachable \<subseteq> Collect (justified actions)"
proof (induction actions reachable rule: reach_loop.induct)
  case (1 actions reachable)
  show ?case
    using reach_pass_sound [OF "1.prems"] "1.IH" [OF refl]
    by (subst reach_loop.simps) (auto simp: Let_def)
qed

lemma fold_reach_fixed:
  "fold (reach_step actions) items reachable = reachable \<Longrightarrow> item \<in> set items
     \<Longrightarrow> reach_step actions item reachable = reachable"
proof (induction items)
  case (Cons x items)
  have "reach_step actions x reachable \<subseteq> reachable"
    using fold_reach_bounds [of "reach_step actions x reachable" actions items] Cons.prems(1) by simp
  then have "reach_step actions x reachable = reachable"
    using reach_step_bounds(1) by blast
  then show ?case using Cons by auto
qed simp

lemma reach_loop_fixed:
  assumes "finite reachable"
  shows "finite (reach_loop actions reachable) \<and> reachable \<subseteq> reach_loop actions reachable
    \<and> reach_pass actions (reach_loop actions reachable) = reach_loop actions reachable"
  using assms
proof (induction actions reachable rule: reach_loop.induct)
  case (1 actions reachable)
  let ?r = "reach_pass actions reachable"
  have fin: "finite ?r"
    using "1.prems" reach_pass_bounds(2) [of actions reachable] by (auto intro: finite_subset)
  show ?case
  proof (cases "card ?r = card reachable")
    case True
    then have "?r = reachable"
      using fin reach_pass_bounds(1) [of reachable actions] by (metis card_subset_eq)
    then show ?thesis using "1.prems" by (subst (1 2 3 4) reach_loop.simps) (simp add: Let_def)
  next
    case False
    then have "reach_loop actions reachable = reach_loop actions ?r"
      by (subst reach_loop.simps) (simp add: Let_def)
    then show ?thesis using "1.IH" [OF refl False fin] reach_pass_bounds(1) [of reachable actions] by auto
  qed
qed

lemma reach_pass_closed:
  assumes fixed: "reach_pass actions reachable = reachable" and roots: "requested_names actions \<subseteq> reachable"
  shows "justified actions n \<Longrightarrow> n \<in> reachable"
proof (induction rule: justified.induct)
  case (root a)
  then show ?case using roots by (auto simp: requested_names_def)
next
  case (dependency a e)
  then have "reach_step actions a reachable = insert (ra_name a) reachable"
    by (auto simp: reach_step_def list_ex_iff)
  then show ?case using fold_reach_fixed [OF fixed [unfolded reach_pass_def] dependency.hyps(1)] by blast
next
  case (obsoleted a identity p)
  then have "reach_step actions a reachable = insert (ra_name a) reachable"
    by (auto simp: reach_step_def obsolete_parent_def list_ex_iff)
  then show ?case using fold_reach_fixed [OF fixed [unfolded reach_pass_def] obsoleted.hyps(1)] by blast
qed

lemma requested_names_justified: "requested_names actions \<subseteq> Collect (justified actions)"
  by (auto simp: requested_names_def intro: justified.root)

lemma reach_loop_exact: "reach_loop actions (requested_names actions) = Collect (justified actions)"
proof -
  have "finite (requested_names actions)" by (simp add: requested_names_def)
  from reach_loop_fixed [OF this, of actions]
  have "Collect (justified actions) \<subseteq> reach_loop actions (requested_names actions)"
    using reach_pass_closed by blast
  then show ?thesis using reach_loop_sound [OF requested_names_justified, of actions] by blast
qed

lemma justified_names: "Collect (justified actions) \<subseteq> ra_name ` set actions"
  by (auto elim: justified.cases)

lemma validate_reachable_ok:
  "validate_reachable actions = Inr () \<longleftrightarrow>
     distinct (map ra_name actions) \<and> ra_name ` set actions \<subseteq> Collect (justified actions)"
proof -
  let ?J = "Collect (justified actions)" and ?N = "ra_name ` set actions"
  have J: "?J \<subseteq> ?N" by (rule justified_names)
  have N: "card ?N \<le> length actions" "card ?N = length actions \<longleftrightarrow> distinct (map ra_name actions)"
    using card_length [of "map ra_name actions"] card_distinct [of "map ra_name actions"]
      distinct_card [of "map ra_name actions"] by auto
  have "card ?J = length actions \<longleftrightarrow> distinct (map ra_name actions) \<and> ?N \<subseteq> ?J"
  proof
    assume c: "card ?J = length actions"
    have "card ?J \<le> card ?N" using J by (simp add: card_mono)
    then have "card ?N = length actions" using c N(1) by simp
    moreover from this have "?J = ?N" using c J by (simp add: card_subset_eq)
    ultimately show "distinct (map ra_name actions) \<and> ?N \<subseteq> ?J" using N(2) by simp
  next
    assume "distinct (map ra_name actions) \<and> ?N \<subseteq> ?J"
    then show "card ?J = length actions" using J N(2) by (metis subset_antisym)
  qed
  then show ?thesis by (simp add: validate_reachable_def reach_loop_exact)
qed

section \<open>What the check of the inputs accepts\<close>

text \<open>The number of times each selector was covered.\<close>

definition counts :: "(string, nat) btree_map \<Rightarrow> string list \<Rightarrow> bool" where
  "counts m xs \<longleftrightarrow> bt_ok m \<and> (\<forall>s. map_of m s = (if s \<in> set xs then Some (count_list xs s) else None))"

lemma counts_Nil [simp]: "counts [] []"
  by (simp add: counts_def)

lemma counts_cover: "counts m xs \<Longrightarrow> counts (cover s m) (xs @ [s])"
  by (auto simp: counts_def cover_def bt_ok_insert bt_insert_map_of count_list_0_iff)

lemma distinct_count_list: "distinct xs \<longleftrightarrow> (\<forall>s\<in>set xs. count_list xs s = 1)"
proof (induction xs)
  case (Cons x xs)
  have "x \<notin> set xs" if "\<forall>s\<in>set (x # xs). count_list (x # xs) s = 1"
    using that by (simp add: count_list_0_iff)
  then show ?case using Cons.IH by (auto simp: count_list_0_iff)
qed simp

lemma counts_exactly_once:
  assumes "counts m xs"
  shows "\<not> (list_ex (\<lambda>s. map_of m s \<noteq> Some 1) req \<or> list_ex (\<lambda>n. n \<noteq> 1) (bt_values m)) \<longleftrightarrow>
    distinct xs \<and> set req \<subseteq> set xs"
proof -
  have ok: "bt_ok m" and look: "\<And>s. map_of m s = (if s \<in> set xs then Some (count_list xs s) else None)"
    using assms by (simp_all add: counts_def)
  have "list_ex (\<lambda>n. n \<noteq> 1) (bt_values m) \<longleftrightarrow> (\<exists>s n. map_of m s = Some n \<and> n \<noteq> 1)"
    using bt_set [OF ok] by (force simp: list_ex_iff bt_values_def)
  also have "\<dots> \<longleftrightarrow> (\<exists>s\<in>set xs. count_list xs s \<noteq> 1)" by (auto simp: look)
  also have "\<dots> \<longleftrightarrow> \<not> distinct xs"
    by (auto simp: distinct_count_list)
  finally show ?thesis by (auto simp: list_ex_iff look distinct_count_list)
qed

lemma cover_satisfied_ok:
  "counts covered xs \<Longrightarrow>
     (\<exists>c. cover_satisfied req covered specs = Inr c) = (set (map spec_str specs) \<subseteq> set req)
     \<and> (\<forall>c. cover_satisfied req covered specs = Inr c \<longrightarrow> counts c (xs @ map spec_str specs))"
proof (induction specs arbitrary: covered xs)
  case (Cons spec specs)
  then show ?case using Cons.IH [OF counts_cover [OF Cons.prems, of "spec_str spec"]] by auto
qed simp

definition requested_selector :: "resolved_action \<Rightarrow> string option" where
  "requested_selector a = (if ra_requested a then map_option spec_str (ra_requested_spec a) else None)"

text \<open>What is asked of each action.\<close>

definition input_action_ok :: "action \<Rightarrow> resolved_action list \<Rightarrow> string list \<Rightarrow> resolved_action \<Rightarrow> bool" where
  "input_action_ok intent actions req a \<longleftrightarrow>
     ra_name a \<noteq> [] \<and> ra_unresolved_dependencies a = []
     \<and> (if ra_requested_spec a = None
        then ra_requested a \<longrightarrow> all_replacement intent req \<and> ra_operation a \<in> {RUpgrade, RDowngrade, RReinstall}
        else ra_requested a \<and> spec_str (the (ra_requested_spec a)) \<in> set req)
     \<and> (ra_requested_relation a \<longrightarrow> ra_requested a)
     \<and> (\<forall>e\<in>set (ra_dependency_edges a). de_parent e \<noteq> ra_name a \<and> de_parent e \<in> ra_name ` set actions)
     \<and> (\<forall>i. ra_provenance a = Some (ObsoletedByAction i) \<longrightarrow>
          ra_operation a = RRemove \<and> (\<exists>p\<in>set actions. resolved_identity p = Some i))
     \<and> validate_kind intent a = Inr ()"

lemma check_edges_ok [result_simps]:
  "forR (check_edge names a) es = Inr u \<longleftrightarrow> (\<forall>e\<in>set es. de_parent e \<noteq> ra_name a \<and> de_parent e \<in> names)"
  by (auto simp: forR_eq_Inr check_edge_def)

lemma check_provenance_ok [result_simps]:
  "check_provenance actions a = Inr u \<longleftrightarrow>
     (\<forall>i. ra_provenance a = Some (ObsoletedByAction i) \<longrightarrow>
        ra_operation a = RRemove \<and> (\<exists>p\<in>set actions. resolved_identity p = Some i))"
  by (cases "ra_provenance a")
    (auto simp: check_provenance_def list_ex_iff split: resolved_provenance.splits)

lemma check_action_ok:
  "check_action intent actions req ids cov a = Inr cov' \<longleftrightarrow>
     resolved_key_of a \<notin> ids \<and> input_action_ok intent actions req a
     \<and> cov' = (case requested_selector a of None \<Rightarrow> cov | Some s \<Rightarrow> cover s cov)"
proof -
  have "(\<exists>u. validate_kind intent a = Inr u) \<longleftrightarrow> validate_kind intent a = Inr ()" by auto
  then show ?thesis
    by (cases "ra_requested_spec a"; cases "ra_requested a")
      (auto simp: check_action_def input_action_ok_def requested_selector_def cover_requested_def Let_def
        bindR_eq_Inr check_edges_ok check_provenance_ok)
qed

lemma check_each_ok:
  assumes "distinct (map ra_name as)" "\<forall>k\<in>ids. fst (snd k) \<notin> ra_name ` set as" "counts cov xs"
  shows "(\<exists>c. check_each intent actions req ids cov as = Inr c) = (\<forall>a\<in>set as. input_action_ok intent actions req a)
    \<and> (\<forall>c. check_each intent actions req ids cov as = Inr c
          \<longrightarrow> counts c (xs @ List.map_filter requested_selector as))"
  using assms
proof (induction as arbitrary: ids cov xs)
  case (Cons a as)
  let ?cov = "case requested_selector a of None \<Rightarrow> cov | Some s \<Rightarrow> cover s cov"
  let ?xs = "xs @ (case requested_selector a of None \<Rightarrow> [] | Some s \<Rightarrow> [s])"
  have fresh: "resolved_key_of a \<notin> ids" using Cons.prems(2) by (force simp: resolved_key_of_def)
  have IH: "(\<exists>c. check_each intent actions req (insert (resolved_key_of a) ids) ?cov as = Inr c)
        = (\<forall>a\<in>set as. input_action_ok intent actions req a)
    \<and> (\<forall>c. check_each intent actions req (insert (resolved_key_of a) ids) ?cov as = Inr c
          \<longrightarrow> counts c (?xs @ List.map_filter requested_selector as))"
    by (rule Cons.IH) (use Cons.prems in \<open>auto simp: resolved_key_of_def counts_cover split: option.splits\<close>)
  have "?xs @ List.map_filter requested_selector as = xs @ List.map_filter requested_selector (a # as)"
    by (simp add: List.map_filter_simps split: option.splits)
  then show ?case
    using IH fresh by (auto simp: bindR_eq_Inr check_action_ok)
qed simp_all

lemma validate_candidates_from_ok:
  assumes "\<forall>k i. policy k = Some i \<longrightarrow> (\<exists>p\<in>P. policy_key_of p = k \<and> artifact_identity_of p = i)"
    "\<forall>p\<in>P. policy (policy_key_of p) \<noteq> None" "exact = exact_key_of ` P"
  shows "validate_candidates_from exact policy cs = Inr () \<longleftrightarrow>
    distinct (map policy_key_of cs) \<and> policy_key_of ` set cs \<inter> policy_key_of ` P = {}"
  using assms
proof (induction cs arbitrary: exact policy P)
  case (Cons c cs)
  have key: "policy_key_of p = policy_key_of c" if "exact_key_of p = exact_key_of c" for p
    using that by (simp add: exact_key_of_def policy_key_of_def)
  have exact: "exact_key_of p = exact_key_of c"
    if "policy_key_of p = policy_key_of c" "artifact_identity_of p = artifact_identity_of c" for p
    using that by (simp add: exact_key_of_def policy_key_of_def artifact_identity_of_def)
  show ?case
  proof (cases "policy_key_of c \<in> policy_key_of ` P")
    case True
    then obtain i where i: "policy (policy_key_of c) = Some i"
      using Cons.prems(2) by fastforce
    then obtain p where p: "p \<in> P" "policy_key_of p = policy_key_of c" "artifact_identity_of p = i"
      using Cons.prems(1) by blast
    have "exact_key_of c \<in> exact \<or> i \<noteq> artifact_identity_of c"
      using exact [OF p(2)] p Cons.prems(3) by (metis image_eqI)
    then show ?thesis using True i by auto
  next
    case False
    have "policy (policy_key_of c) = None"
      using False Cons.prems(1) by (metis image_eqI option.exhaust)
    moreover have "exact_key_of c \<notin> exact"
      using False key unfolding Cons.prems(3) by (metis image_iff)
    moreover have "validate_candidates_from (insert (exact_key_of c) exact)
        (policy(policy_key_of c \<mapsto> artifact_identity_of c)) cs = Inr () \<longleftrightarrow>
      distinct (map policy_key_of cs) \<and> policy_key_of ` set cs \<inter> policy_key_of ` insert c P = {}"
    proof (rule Cons.IH)
      show "\<forall>k i. (policy(policy_key_of c \<mapsto> artifact_identity_of c)) k = Some i \<longrightarrow>
          (\<exists>p\<in>insert c P. policy_key_of p = k \<and> artifact_identity_of p = i)"
        using Cons.prems(1) unfolding fun_upd_apply by (metis insert_iff option.inject)
      show "\<forall>p\<in>insert c P. (policy(policy_key_of c \<mapsto> artifact_identity_of c)) (policy_key_of p) \<noteq> None"
        using Cons.prems(2) unfolding fun_upd_apply by (metis insert_iff option.discI)
      show "insert (exact_key_of c) exact = exact_key_of ` insert c P" by (simp add: Cons.prems(3))
    qed
    ultimately show ?thesis using False by auto
  qed
qed simp

lemma validate_candidates_ok [result_simps]:
  "validate_candidates cs = Inr u \<longleftrightarrow> distinct (map policy_key_of cs)"
  using validate_candidates_from_ok [of Map.empty "{}" "{}" cs] by (simp add: validate_candidates_def)

lemma total_size_ok:
  "total_size n cs = Inr t \<longleftrightarrow>
     unat n + (\<Sum>c\<leftarrow>cs. unat (cp_package_size c)) < 2 ^ 64
     \<and> unat t = unat n + (\<Sum>c\<leftarrow>cs. unat (cp_package_size c))"
proof (induction cs arbitrary: n)
  case Nil
  then show ?case using unsigned_less [of n] by (auto simp: word_unat_eq_iff)
next
  case (Cons c cs)
  let ?s = "cp_package_size c"
  show ?case
  proof (cases "unat n + unat ?s < 2 ^ 64")
    case True
    then have "unat (n + ?s) = unat n + unat ?s" by (simp add: unat_word_ariths)
    then show ?thesis using True Cons.IH [of "n + ?s"] by (simp add: checked_add_def add.assoc)
  next
    case False
    then show ?thesis by (auto simp: checked_add_def)
  qed
qed

definition repository_chosen :: "plan_builder \<Rightarrow> candidate_package \<Rightarrow> bool" where
  "repository_chosen b c \<longleftrightarrow> (\<exists>r\<in>set (pi_selected_repositories (pb_snapshots b)). rb_id r = cp_repo_id c)"

lemma validate_repository_selection_ok [result_simps]:
  "validate_repository_selection b = Inr u \<longleftrightarrow> (\<forall>c\<in>set (pb_candidates b). repository_chosen b c)"
  by (simp add: validate_repository_selection_def forR_eq_Inr repository_chosen_def list_ex_iff)

text \<open>The selectors the actions and the satisfied selectors account for, in order.\<close>

definition covered_selectors :: "resolved_action list \<Rightarrow> package_spec list \<Rightarrow> string list" where
  "covered_selectors actions satisfied =
     map spec_str satisfied @ List.map_filter requested_selector actions"

definition requested_specs :: "plan_builder \<Rightarrow> string list" where
  "requested_specs b = map spec_str (ti_packages (pb_intent b))"

definition artifact_total :: "resolved_action list \<Rightarrow> nat" where
  "artifact_total actions = (\<Sum>c\<leftarrow>List.map_filter ra_candidate actions. unat (cp_package_size c))"

lemma total_size_bounded:
  "(\<exists>t. total_size 0 (List.map_filter ra_candidate actions) = Inr t \<and> \<not> t > MAX_PLAN_ARTIFACT_BYTES)
     \<longleftrightarrow> artifact_total actions \<le> unat MAX_PLAN_ARTIFACT_BYTES" (is "?l \<longleftrightarrow> ?r")
proof
  have big: "unat MAX_PLAN_ARTIFACT_BYTES < 2 ^ 64" using unsigned_less [of MAX_PLAN_ARTIFACT_BYTES] by simp
  assume le: ?r
  then have "unat (word_of_nat (artifact_total actions) :: u64) = artifact_total actions"
    using big by (simp add: unat_of_nat)
  then show ?l
    using big le by (intro exI [of _ "word_of_nat (artifact_total actions)"])
      (simp add: total_size_ok artifact_total_def word_less_nat_alt)
qed (auto simp: total_size_ok artifact_total_def word_less_nat_alt)

lemma requested_selector_in:
  "input_action_ok intent actions req a \<Longrightarrow> requested_selector a = Some s \<Longrightarrow> s \<in> set req"
  by (auto simp: input_action_ok_def requested_selector_def split: if_splits)

lemma coverage_ok:
  assumes d: "distinct (map ra_name actions)"
  shows "(\<exists>c c'. cover_satisfied req [] satisfied = Inr c \<and> check_each intent actions req {} c actions = Inr c'
      \<and> \<not> (list_ex (\<lambda>s. map_of c' s \<noteq> Some 1) req \<or> list_ex (\<lambda>n. n \<noteq> 1) (bt_values c')))
    \<longleftrightarrow> (\<forall>a\<in>set actions. input_action_ok intent actions req a)
       \<and> distinct (covered_selectors actions satisfied) \<and> set (covered_selectors actions satisfied) = set req"
    (is "?l \<longleftrightarrow> ?ok \<and> ?d \<and> ?s")
proof -
  let ?cs = "covered_selectors actions satisfied"
  have sat: "(\<exists>c. cover_satisfied req [] satisfied = Inr c) \<longleftrightarrow> set (map spec_str satisfied) \<subseteq> set req"
    and sat_c: "\<And>c. cover_satisfied req [] satisfied = Inr c \<Longrightarrow> counts c (map spec_str satisfied)"
    using cover_satisfied_ok [OF counts_Nil, of req satisfied] by auto
  have each: "(\<exists>c'. check_each intent actions req {} c actions = Inr c') \<longleftrightarrow> ?ok"
    and each_c: "\<And>c'. check_each intent actions req {} c actions = Inr c' \<Longrightarrow> counts c' ?cs"
    if "counts c (map spec_str satisfied)" for c
    using check_each_ok [OF d _ that, of "{}" intent actions req] by (auto simp: covered_selectors_def)
  have sub: "set ?cs \<subseteq> set req \<longleftrightarrow> set (map spec_str satisfied) \<subseteq> set req" if ?ok
    using that requested_selector_in [of intent actions req]
    by (auto simp: covered_selectors_def List.map_filter_def)
  show ?thesis
  proof
    assume ?l
    then obtain c c' where "cover_satisfied req [] satisfied = Inr c"
      "check_each intent actions req {} c actions = Inr c'"
      and once: "\<not> (list_ex (\<lambda>s. map_of c' s \<noteq> Some 1) req \<or> list_ex (\<lambda>n. n \<noteq> 1) (bt_values c'))"
      by blast
    then have "counts c' ?cs" "?ok" "set ?cs \<subseteq> set req" using sat sat_c each each_c sub by blast+
    then show "?ok \<and> ?d \<and> ?s" using once counts_exactly_once [of c' ?cs req] by auto
  next
    assume r: "?ok \<and> ?d \<and> ?s"
    then obtain c c' where c: "cover_satisfied req [] satisfied = Inr c"
      "check_each intent actions req {} c actions = Inr c'" "counts c' ?cs"
      using sat sat_c each each_c sub by (metis subset_refl)
    then show ?l using r counts_exactly_once [OF c(3), of req] by auto
  qed
qed

lemma validate_inputs_ok:
  "validate_inputs b actions satisfied = Inr () \<longleftrightarrow>
    actions \<noteq> [] \<and> length actions \<le> MAX_PLAN_ACTIONS
    \<and> (\<forall>c\<in>set (pb_candidates b). repository_chosen b c)
    \<and> distinct (map policy_key_of (pb_candidates b))
    \<and> artifact_total actions \<le> unat MAX_PLAN_ARTIFACT_BYTES
    \<and> distinct (map ra_name actions)
    \<and> (\<forall>a\<in>set actions. input_action_ok (ti_action (pb_intent b)) actions (requested_specs b) a)
    \<and> distinct (covered_selectors actions satisfied)
    \<and> set (covered_selectors actions satisfied) = set (requested_specs b)
    \<and> ra_name ` set actions \<subseteq> Collect (justified actions)"
proof -
  have names: "card (set (map ra_name actions)) = length actions \<longleftrightarrow> distinct (map ra_name actions)"
    using card_distinct [of "map ra_name actions"] distinct_card [of "map ra_name actions"] by auto
  show ?thesis
    unfolding validate_inputs_def Let_def bindR_eq_Inr if_Inl_eq_Inr validate_repository_selection_ok
      validate_candidates_ok total_size_bounded [symmetric] validate_reachable_ok requested_specs_def [symmetric]
    using names coverage_ok [of actions "requested_specs b" satisfied "ti_action (pb_intent b)"] by auto
qed

text \<open>A small builder and its resolved actions for the concrete instances.\<close>

definition example_candidate :: "string \<Rightarrow> candidate_package" where
  "example_candidate name = \<lparr>cp_name = name, cp_evra = example_evra ''9.2'', cp_vendor = ''Fedora'',
     cp_repo_id = ''updates'', cp_priority = 99, cp_cost = 1000, cp_package_size = 10,
     cp_installed_size = 20, cp_checksum_sha256 = replicate 64 (CHR ''c''),
     cp_location = ''Packages/'' @ name @ ''.rpm'', cp_excluded = False, cp_modular = False\<rparr>"

definition example_resolved :: "string \<Rightarrow> string option \<Rightarrow> string list \<Rightarrow> resolved_action" where
  "example_resolved name spec parents = \<lparr>ra_operation = RInstall, ra_name = name,
     ra_requested = (spec \<noteq> None), ra_requested_spec = map_option PackageSpec spec,
     ra_requested_relation = False, ra_candidate = Some (example_candidate name),
     ra_installed_instance = None, ra_installed_header_sha256 = None, ra_installed_vendor = None,
     ra_dependency_edges = map (\<lambda>p. \<lparr>de_parent = p, de_kind = Strong\<rparr>) parents,
     ra_provenance = None, ra_required_by_remaining = [], ra_unresolved_dependencies = [],
     ra_introduced_by_requested = False, ra_solver_rule = ''rule''\<rparr>"

definition example_builder :: plan_builder where
  "example_builder = \<lparr>pb_intent = \<lparr>ti_schema_version = 1, ti_action = Install,
       ti_packages = [PackageSpec ''vim'']\<rparr>,
     pb_snapshots = example_integrity, pb_inventory = example_inventory, pb_policy = example_policy,
     pb_candidates = [example_candidate ''vim-common'', example_candidate ''vim''],
     pb_expires_at_unix = 100\<rparr>"

definition example_actions :: "resolved_action list" where
  "example_actions = [example_resolved ''vim-common'' None [''vim''], example_resolved ''vim'' (Some ''vim'') []]"

lemma example_inputs: "validate_inputs example_builder example_actions [] = Inr ()"
  by code_simp

section \<open>Properties\<close>

text \<open>
  Property C5. \<^verbatim>\<open>validate_inputs\<close> accepts exactly: a non-empty, bounded list of actions with
  pairwise different names and at most 16 TiB of artifacts, whose candidates all come from
  selected repositories under pairwise different policy keys; every action passes its own checks;
  the satisfied selectors and the selectors of requested actions name every requested selector
  exactly once and nothing else; and every action is justified by a requested one.
\<close>

theorem validate_inputs_exact:
  "validate_inputs b actions satisfied = Inr () \<longleftrightarrow>
    actions \<noteq> [] \<and> length actions \<le> MAX_PLAN_ACTIONS
    \<and> (\<forall>c\<in>set (pb_candidates b). repository_chosen b c)
    \<and> distinct (map policy_key_of (pb_candidates b))
    \<and> artifact_total actions \<le> unat MAX_PLAN_ARTIFACT_BYTES
    \<and> distinct (map ra_name actions)
    \<and> (\<forall>a\<in>set actions. input_action_ok (ti_action (pb_intent b)) actions (requested_specs b) a)
    \<and> distinct (covered_selectors actions satisfied)
    \<and> set (covered_selectors actions satisfied) = set (requested_specs b)
    \<and> ra_name ` set actions \<subseteq> Collect (justified actions)"
  by (rule validate_inputs_ok)

theorem validate_inputs_exact_witness:
  "distinct (covered_selectors example_actions [])
     \<and> set (covered_selectors example_actions []) = set (requested_specs example_builder)
     \<and> ra_name ` set example_actions \<subseteq> Collect (justified example_actions)"
  using iffD1 [OF validate_inputs_exact [of example_builder example_actions "[]"] example_inputs] by blast

end
