(* ===== verification/Solver_Order.thy ===== *)
theory Solver_Order
  imports Solver_Preflight
begin

text \<open>
  \<^verbatim>\<open>crates/dnfast-solver/src/preflight.rs\<close>, \<^verbatim>\<open>execution_order\<close> and \<^verbatim>\<open>cycle_member\<close>: the stable
  order in which the actions of a plan are listed, a topological sort over names that breaks a
  cycle where one is met.
\<close>

section \<open>The execution order\<close>

definition item_edges ::
  "resolved_action list \<Rightarrow> (string, explained_action) btree_map \<Rightarrow> bool \<Rightarrow> resolved_action
     \<Rightarrow> (plan_error, (string \<times> string) list) result" where
  "item_edges resolved remaining removing item =
     bindR (mapR (\<lambda>d. if map_of remaining (de_parent d) = None then Inl (MissingParent (de_parent d))
                     else Inr (if removing then (de_parent d, ra_name item)
                               else (ra_name item, de_parent d)))
             (ra_dependency_edges item)) (\<lambda>edges.
       case ra_provenance item of None \<Rightarrow> Inr edges
       | Some (ObsoletedByAction identity) \<Rightarrow>
           (case find (\<lambda>c. resolved_identity c = Some identity) resolved of
              None \<Rightarrow> Inl (MissingParent identity)
            | Some parent \<Rightarrow> Inr (edges @ [(ra_name parent, ra_name item)])))"

text \<open>The \<^verbatim>\<open>BTreeSet\<close> of edges: sorted, without duplicates.\<close>

definition order_edges ::
  "resolved_action list \<Rightarrow> (string, explained_action) btree_map \<Rightarrow> (plan_error, (string \<times> string) list) result"
  where
  "order_edges resolved remaining =
     (let removing = (case resolved of [] \<Rightarrow> False | item # _ \<Rightarrow> ra_operation item = RRemove) in
      bindR (mapR (item_edges resolved remaining removing) resolved) (\<lambda>edges.
        Inr (sort_dedup (concat edges))))"

type_synonym adjacency = "(string, string btree_set) btree_map"

definition neighbours :: "adjacency \<Rightarrow> string \<Rightarrow> string btree_set" where
  "neighbours m k = (case map_of m k of None \<Rightarrow> [] | Some s \<Rightarrow> s)"

text \<open>\<^verbatim>\<open>m.entry(k).or_default().insert(v)\<close>\<close>

definition entry_insert :: "string \<Rightarrow> string \<Rightarrow> adjacency \<Rightarrow> adjacency" where
  "entry_insert k v m = bt_insert k (bs_insert v (neighbours m k)) m"

record order_graph =
  og_outgoing :: adjacency
  og_incoming :: adjacency
  og_indegree :: "(string, nat) btree_map"

definition link_edge :: "string \<times> string \<Rightarrow> order_graph \<Rightarrow> (plan_error, order_graph) result" where
  "link_edge e g =
     (case e of (from_name, to_name) \<Rightarrow>
       if to_name \<in> set (neighbours (og_outgoing g) from_name) then Inr g
       else (case map_of (og_indegree g) to_name of
          None \<Rightarrow> Inl (MissingParent to_name)
        | Some n \<Rightarrow> Inr \<lparr>og_outgoing = entry_insert from_name to_name (og_outgoing g),
            og_incoming = entry_insert to_name from_name (og_incoming g),
            og_indegree = bt_insert to_name (Suc n) (og_indegree g)\<rparr>))"

fun link_edges :: "(string \<times> string) list \<Rightarrow> order_graph \<Rightarrow> (plan_error, order_graph) result" where
  "link_edges [] g = Inr g"
| "link_edges (e # es) g = bindR (link_edge e g) (link_edges es)"

definition active_parent :: "string btree_set \<Rightarrow> adjacency \<Rightarrow> string \<Rightarrow> string option" where
  "active_parent active incoming current =
     find (\<lambda>parent. parent \<in> set active) (neighbours incoming current)"

lemma active_parent_SomeD:
  "active_parent active incoming current = Some p \<Longrightarrow> p \<in> set active \<and> p \<in> set (neighbours incoming current)"
  by (auto simp: active_parent_def find_Some_iff)

lemma active_parent_NoneD:
  "active_parent active incoming current = None \<Longrightarrow> set (neighbours incoming current) \<inter> set active = {}"
  by (auto simp: active_parent_def find_None_iff)

function cycle_walk :: "string btree_set \<Rightarrow> adjacency \<Rightarrow> string \<Rightarrow> string set \<Rightarrow> string option" where
  "cycle_walk active incoming current seen =
     (if current \<in> seen then Some current
      else case active_parent active incoming current of
          None \<Rightarrow> None
        | Some parent \<Rightarrow> cycle_walk active incoming parent (insert current seen))"
  by pat_completeness auto
termination cycle_walk
proof (relation "measure (\<lambda>(active, incoming, current, seen).
    card (set active - seen) + (if current \<in> set active then 0 else 1))")
  fix active :: "string btree_set" and incoming :: adjacency and current p :: string and seen :: "string set"
  assume fresh: "current \<notin> seen" and p: "active_parent active incoming current = Some p"
  have "p \<in> set active" using active_parent_SomeD [OF p] by simp
  moreover have "card (set active - insert current seen) <
      card (set active - seen) + (if current \<in> set active then 0 else 1)"
  proof (cases "current \<in> set active")
    case True
    then have "set active - insert current seen \<subset> set active - seen" using fresh by blast
    then show ?thesis using True by (simp add: psubset_card_mono)
  next
    case False
    then have "set active - insert current seen = set active - seen" by blast
    then show ?thesis using False by simp
  qed
  ultimately show "((active, incoming, p, insert current seen), (active, incoming, current, seen))
      \<in> measure (\<lambda>(active, incoming, current, seen).
          card (set active - seen) + (if current \<in> set active then 0 else 1))"
    by simp
qed simp

declare cycle_walk.simps [simp del]

definition cycle_member :: "string btree_set \<Rightarrow> adjacency \<Rightarrow> string option" where
  "cycle_member active incoming =
     (case active of [] \<Rightarrow> None | first # _ \<Rightarrow> cycle_walk active incoming first {})"

definition next_action ::
  "string btree_set \<Rightarrow> adjacency \<Rightarrow> string btree_set \<Rightarrow> (string \<times> string btree_set) option" where
  "next_action active incoming ready =
     (case ready of
        name # rest \<Rightarrow> Some (name, rest)
      | [] \<Rightarrow> map_option (\<lambda>name. (name, [])) (cycle_member active incoming))"

fun release_targets ::
  "string btree_set \<Rightarrow> string list \<Rightarrow> (string, nat) btree_map \<Rightarrow> string btree_set
     \<Rightarrow> (plan_error, (string, nat) btree_map \<times> string btree_set) result" where
  "release_targets active [] indegree ready = Inr (indegree, ready)"
| "release_targets active (t # ts) indegree ready =
     (if t \<notin> set active then release_targets active ts indegree ready
      else case map_of indegree t of
          None \<Rightarrow> Inl (MissingParent t)
        | Some 0 \<Rightarrow> Inl DependencyCycle
        | Some (Suc n) \<Rightarrow> release_targets active ts (bt_insert t n indegree)
            (if n = 0 then bs_insert t ready else ready))"

text \<open>The \<^verbatim>\<open>while !active.is_empty()\<close> loop; \<open>ordered\<close> is what was pushed so far.\<close>

function order_loop ::
  "adjacency \<Rightarrow> adjacency \<Rightarrow> string btree_set \<Rightarrow> string btree_set \<Rightarrow> (string, nat) btree_map
     \<Rightarrow> (string, explained_action) btree_map \<Rightarrow> explained_action list
     \<Rightarrow> (plan_error, explained_action list) result" where
  "order_loop outgoing incoming active ready indegree remaining ordered =
     (if active = [] then Inr ordered
      else case next_action active incoming ready of
          None \<Rightarrow> Inl DependencyCycle
        | Some (name, ready') \<Rightarrow>
            if name \<notin> set active then Inl DependencyCycle
            else (case map_of remaining name of
                None \<Rightarrow> Inl DependencyCycle
              | Some item \<Rightarrow>
                  (case release_targets (bs_remove name active) (neighbours outgoing name) indegree ready' of
                     Inl e \<Rightarrow> Inl e
                   | Inr (indegree', ready'') \<Rightarrow>
                       order_loop outgoing incoming (bs_remove name active) ready'' indegree'
                         (bt_remove name remaining) (ordered @ [item]))))"
  by pat_completeness auto
termination order_loop
  by (relation "measure (\<lambda>(outgoing, incoming, active, ready, indegree, remaining, ordered). length active)")
    (auto simp: length_bs_remove)

declare order_loop.simps [simp del]

definition execution_order ::
  "resolved_action list \<Rightarrow> explained_action list \<Rightarrow> (plan_error, explained_action list) result" where
  "execution_order resolved actions =
     (let remaining = bt_collect (map (\<lambda>item. (ea_name item, item)) actions) in
      if length remaining \<noteq> length resolved then Inl (DuplicateAction ''name'')
      else bindR (order_edges resolved remaining) (\<lambda>edges.
           bindR (link_edges edges \<lparr>og_outgoing = [], og_incoming = [],
                    og_indegree = map (\<lambda>name. (name, 0)) (bt_keys remaining)\<rparr>) (\<lambda>g.
           order_loop (og_outgoing g) (og_incoming g) (bt_keys remaining)
             (map fst (filter (\<lambda>(name, count). count = 0) (og_indegree g)))
             (og_indegree g) remaining [])))"

section \<open>The execution order respects the edges\<close>

text \<open>The adjacency maps and indegrees of a set of edges over the names \<open>K\<close>.\<close>

definition parents_in :: "(string \<times> string) set \<Rightarrow> string set \<Rightarrow> string \<Rightarrow> string set" where
  "parents_in E A t = {f \<in> A. (f, t) \<in> E}"

definition adjacency_ok :: "adjacency \<Rightarrow> (string \<times> string) set \<Rightarrow> bool" where
  "adjacency_ok m E \<longleftrightarrow> bt_ok m \<and> (\<forall>k. bs_ok (neighbours m k) \<and> set (neighbours m k) = {t. (k, t) \<in> E})"

definition indegree_ok :: "(string, nat) btree_map \<Rightarrow> (string \<times> string) set \<Rightarrow> string set \<Rightarrow> bool" where
  "indegree_ok m E K \<longleftrightarrow> bt_ok m
     \<and> (\<forall>t. map_of m t = (if t \<in> K then Some (card {f. (f, t) \<in> E}) else None))"

definition graph_ok :: "order_graph \<Rightarrow> (string \<times> string) set \<Rightarrow> string set \<Rightarrow> bool" where
  "graph_ok g E K \<longleftrightarrow> finite E \<and> adjacency_ok (og_outgoing g) E
     \<and> adjacency_ok (og_incoming g) (E\<inverse>) \<and> indegree_ok (og_indegree g) E K"

lemma neighbours_entry_insert:
  "bt_ok m \<Longrightarrow> neighbours (entry_insert k v m) k' =
     (if k' = k then bs_insert v (neighbours m k) else neighbours m k')"
  by (simp add: neighbours_def entry_insert_def bt_insert_map_of)

lemma adjacency_ok_insert:
  "adjacency_ok m E \<Longrightarrow> adjacency_ok (entry_insert k v m) (insert (k, v) E)"
  unfolding adjacency_ok_def
  by (auto simp: neighbours_entry_insert) (auto simp: entry_insert_def bt_ok_insert)

lemma indegree_ok_insert:
  assumes "indegree_ok m E K" "finite E" "(k, t) \<notin> E" "map_of m t = Some n"
  shows "indegree_ok (bt_insert t (Suc n) m) (insert (k, t) E) K"
proof -
  have fin: "finite {f. (f, t) \<in> E}"
    by (rule finite_subset [OF _ finite_imageI [OF assms(2), of fst]]) force
  have "{f. (f, t) \<in> insert (k, t) E} = insert k {f. (f, t) \<in> E}" by auto
  then have "card {f. (f, t) \<in> insert (k, t) E} = Suc (card {f. (f, t) \<in> E})"
    using fin assms(3) by simp
  moreover have "n = card {f. (f, t) \<in> E} \<and> t \<in> K"
    using assms(1,4) by (auto simp: indegree_ok_def split: if_splits)
  ultimately show ?thesis
    using assms(1) by (auto simp: indegree_ok_def bt_ok_insert bt_insert_map_of)
qed

lemma link_edge_ok:
  assumes g: "graph_ok g E K" and t: "t \<in> K"
  shows "\<exists>g'. link_edge (f, t) g = Inr g' \<and> graph_ok g' (insert (f, t) E) K"
proof (cases "(f, t) \<in> E")
  case True
  then have "link_edge (f, t) g = Inr g"
    using g by (simp add: link_edge_def graph_ok_def adjacency_ok_def)
  then show ?thesis using True g by (simp add: insert_absorb)
next
  case False
  obtain n where n: "map_of (og_indegree g) t = Some n"
    using g t by (auto simp: graph_ok_def indegree_ok_def)
  have "(insert (f, t) E)\<inverse> = insert (t, f) (E\<inverse>)" by auto
  then have "adjacency_ok (entry_insert t f (og_incoming g)) ((insert (f, t) E)\<inverse>)"
    using adjacency_ok_insert [of "og_incoming g" "E\<inverse>" t f] g by (simp add: graph_ok_def)
  then show ?thesis
    using False g n adjacency_ok_insert [of "og_outgoing g" E f t] indegree_ok_insert [of _ E K f t n]
    by (auto simp: link_edge_def graph_ok_def adjacency_ok_def)
qed

lemma link_edges_ok:
  "graph_ok g E K \<Longrightarrow> snd ` set es \<subseteq> K \<Longrightarrow>
     \<exists>g'. link_edges es g = Inr g' \<and> graph_ok g' (set es \<union> E) K"
proof (induction es arbitrary: g E)
  case (Cons e es)
  obtain g' where g': "link_edge e g = Inr g'" "graph_ok g' (insert e E) K"
    using link_edge_ok [OF Cons.prems(1), of "snd e" "fst e"] Cons.prems(2) by auto
  from Cons.IH [OF g'(2)] g'(1) Cons.prems(2) show ?case by auto
qed simp

lemma map_of_const: "map_of (map (\<lambda>k. (k, v)) ks) k = (if k \<in> set ks then Some v else None)"
  by (induction ks) auto

lemma graph_ok_empty:
  "sorted_wrt (<) ks \<Longrightarrow>
     graph_ok \<lparr>og_outgoing = [], og_incoming = [], og_indegree = map (\<lambda>k. (k, 0)) ks\<rparr> {} (set ks)"
  by (auto simp: graph_ok_def adjacency_ok_def indegree_ok_def neighbours_def map_of_const bt_ok_def
      bt_keys_def comp_def)

subsection \<open>A cycle is found when nothing is ready\<close>

lemma cycle_walk_finds:
  assumes stuck: "\<And>t. t \<in> set active \<Longrightarrow> parents_in E (set active) t \<noteq> {}"
    and inc: "adjacency_ok incoming (E\<inverse>)"
  shows "current \<in> set active \<Longrightarrow> seen \<subseteq> set active \<Longrightarrow> (\<And>s. s \<in> seen \<Longrightarrow> (current, s) \<in> E\<^sup>+) \<Longrightarrow>
     \<exists>c. cycle_walk active incoming current seen = Some c \<and> c \<in> set active \<and> (c, c) \<in> E\<^sup>+"
  using stuck inc
proof (induction active incoming current seen rule: cycle_walk.induct)
  case (1 active incoming current seen)
  have ne: "set (neighbours incoming current) = {p. (p, current) \<in> E}"
    using "1.prems"(5) by (auto simp: adjacency_ok_def)
  show ?case
  proof (cases "current \<in> seen")
    case True
    then show ?thesis using "1.prems"(1,3) by (subst cycle_walk.simps) auto
  next
    case False
    obtain p where p: "active_parent active incoming current = Some p"
      using active_parent_NoneD [of active incoming current] "1.prems"(1,4) ne
      by (cases "active_parent active incoming current") (auto simp: parents_in_def)
    then have pE: "p \<in> set active" "(p, current) \<in> E"
      using active_parent_SomeD [OF p] ne by auto
    have "\<exists>c. cycle_walk active incoming p (insert current seen) = Some c \<and> c \<in> set active \<and> (c, c) \<in> E\<^sup>+"
      by (rule "1.IH" [OF False p pE(1)])
        (use "1.prems" pE in \<open>auto intro: trancl_into_trancl2\<close>)
    then show ?thesis using False p by (subst cycle_walk.simps) simp
  qed
qed

lemma cycle_member_finds:
  assumes "active \<noteq> []" "\<And>t. t \<in> set active \<Longrightarrow> parents_in E (set active) t \<noteq> {}"
    "adjacency_ok incoming (E\<inverse>)"
  shows "\<exists>c. cycle_member active incoming = Some c \<and> c \<in> set active \<and> (c, c) \<in> E\<^sup>+"
  using assms(1) cycle_walk_finds [OF assms(2,3), of "hd active" "{}"]
  by (cases active) (auto simp: cycle_member_def)

subsection \<open>One action is emitted\<close>

definition released ::
  "string set \<Rightarrow> (string, nat) btree_map \<Rightarrow> string btree_set \<Rightarrow> (string, nat) btree_map \<Rightarrow> string btree_set \<Rightarrow> bool"
  where
  "released T indegree ready indegree' ready' \<longleftrightarrow> bt_ok indegree' \<and> bs_ok ready'
     \<and> (\<forall>t. map_of indegree' t =
          (if t \<in> T then map_option (\<lambda>n. n - 1) (map_of indegree t) else map_of indegree t))
     \<and> set ready' = set ready \<union> {t \<in> T. map_of indegree t = Some 1}"

lemma released_insert:
  assumes "released T (bt_insert t n indegree) (if n = 0 then bs_insert t ready else ready) indegree' ready'"
    "bt_ok indegree" "map_of indegree t = Some (Suc n)" "t \<notin> T"
  shows "released (insert t T) indegree ready indegree' ready'"
proof -
  have lookup: "map_of (bt_insert t n indegree) k = (if k = t then Some n else map_of indegree k)" for k
    using assms(2) by (simp add: bt_insert_map_of)
  show ?thesis
    using assms(1,3,4) unfolding released_def lookup by auto
qed

lemma release_targets_ok:
  assumes "bt_ok indegree" "bs_ok ready" "distinct ts"
    "\<forall>t\<in>set ts \<inter> set active. \<exists>n. map_of indegree t = Some (Suc n)"
  shows "\<exists>indegree' ready'. release_targets active ts indegree ready = Inr (indegree', ready')
    \<and> released (set ts \<inter> set active) indegree ready indegree' ready'"
  using assms
proof (induction ts arbitrary: indegree ready)
  case Nil
  then show ?case by (simp add: released_def)
next
  case (Cons t ts)
  show ?case
  proof (cases "t \<in> set active")
    case False
    have "\<forall>t\<in>set ts \<inter> set active. \<exists>n. map_of indegree t = Some (Suc n)" using Cons.prems(4) by simp
    from Cons.IH [OF Cons.prems(1,2) _ this] show ?thesis using False Cons.prems(3) by simp
  next
    case True
    then obtain n where n: "map_of indegree t = Some (Suc n)" using Cons.prems(4) by auto
    have nt: "t \<notin> set ts \<inter> set active" "distinct ts" using Cons.prems(3) by auto
    have pre: "\<forall>k\<in>set ts \<inter> set active. \<exists>m. map_of (bt_insert t n indegree) k = Some (Suc m)"
      using Cons.prems(1,4) nt(1) by (simp add: bt_insert_map_of) blast
    have rdy: "bs_ok (if n = 0 then bs_insert t ready else ready)" using Cons.prems(2) by simp
    obtain ind' r' where
      "release_targets active ts (bt_insert t n indegree) (if n = 0 then bs_insert t ready else ready)
         = Inr (ind', r')"
      "released (set ts \<inter> set active) (bt_insert t n indegree)
         (if n = 0 then bs_insert t ready else ready) ind' r'"
      using Cons.IH [OF bt_ok_insert [OF Cons.prems(1)] rdy nt(2) pre] by blast
    with released_insert [OF _ Cons.prems(1) n nt(1)] show ?thesis
      using True n by auto
  qed
qed

definition order_invariant ::
  "(string \<times> string) set \<Rightarrow> string btree_set \<Rightarrow> string btree_set \<Rightarrow> (string, nat) btree_map \<Rightarrow> bool" where
  "order_invariant E active ready indegree \<longleftrightarrow>
     bs_ok active \<and> bs_ok ready \<and> bt_ok indegree
     \<and> (\<forall>t\<in>set active. map_of indegree t = Some (card (parents_in E (set active) t)))
     \<and> set ready = {t \<in> set active. parents_in E (set active) t = {}}"

lemma parents_in_remove:
  "parents_in E (A - {n}) t = parents_in E A t - (if (n, t) \<in> E then {n} else {})"
  by (auto simp: parents_in_def)

lemma emit_step:
  assumes inv: "order_invariant E active ready indegree" and name: "name \<in> set active"
    and ready': "bs_ok ready'" "set ready' = set ready - {name}"
    and out: "adjacency_ok outgoing E"
  shows "\<exists>indegree' ready''. release_targets (bs_remove name active) (neighbours outgoing name) indegree ready'
       = Inr (indegree', ready'') \<and> order_invariant E (bs_remove name active) ready'' indegree'"
proof -
  let ?A = "set active" and ?A' = "set active - {name}" and ?ts = "neighbours outgoing name"
  have ts: "distinct ?ts" "set ?ts = {t. (name, t) \<in> E}"
    using out by (auto simp: adjacency_ok_def dest: bs_ok_distinct)
  have count: "map_of indegree t = Some (card (parents_in E ?A t))" if "t \<in> ?A" for t
    using inv that by (simp add: order_invariant_def)
  have fin: "finite (parents_in E ?A t)" for t by (simp add: parents_in_def)
  have mem: "name \<in> parents_in E ?A t" if "(name, t) \<in> E" for t
    using name that by (simp add: parents_in_def)
  have dec: "card (parents_in E ?A t) = Suc (card (parents_in E ?A' t))" if "(name, t) \<in> E" for t
  proof -
    have "parents_in E ?A' t = parents_in E ?A t - {name}" using that by (simp add: parents_in_remove)
    then show ?thesis using card.remove [OF fin mem [OF that]] by simp
  qed
  have same: "parents_in E ?A' t = parents_in E ?A t" if "(name, t) \<notin> E" for t
    using that by (simp add: parents_in_remove)
  have pos: "\<forall>t\<in>set ?ts \<inter> set (bs_remove name active). \<exists>n. map_of indegree t = Some (Suc n)"
  proof
    fix t assume "t \<in> set ?ts \<inter> set (bs_remove name active)"
    then have "t \<in> ?A" "(name, t) \<in> E" using ts(2) by auto
    then show "\<exists>n. map_of indegree t = Some (Suc n)" using count [of t] dec [of t] by simp
  qed
  obtain ind' r'' where
    res: "release_targets (bs_remove name active) ?ts indegree ready' = Inr (ind', r'')"
    and rel: "released (set ?ts \<inter> ?A') indegree ready' ind' r''"
    using release_targets_ok [OF _ ready'(1) ts(1) pos] inv by (auto simp: order_invariant_def)
  note ok = rel [unfolded released_def, THEN conjunct1]
    rel [unfolded released_def, THEN conjunct2, THEN conjunct1]
  have ind': "map_of ind' t = (if t \<in> set ?ts \<inter> ?A'
             then map_option (\<lambda>n. n - 1) (map_of indegree t) else map_of indegree t)" for t
    using rel by (simp add: released_def)
  have r'': "set r'' = set ready' \<union> {t \<in> set ?ts \<inter> ?A'. map_of indegree t = Some 1}"
    using rel by (simp add: released_def)
  have "map_of ind' t = Some (card (parents_in E ?A' t))" if "t \<in> ?A'" for t
    using that ind' [of t] count [of t] dec [of t] same [of t] ts(2) by (cases "(name, t) \<in> E") auto
  moreover have "t \<in> set r'' \<longleftrightarrow> parents_in E ?A' t = {}" if t: "t \<in> ?A'" for t
  proof (cases "(name, t) \<in> E")
    case True
    then have "t \<notin> set ready'" using mem inv ready'(2) by (auto simp: order_invariant_def)
    moreover have "card (parents_in E ?A' t) = 0 \<longleftrightarrow> parents_in E ?A' t = {}"
      by (simp add: parents_in_def)
    ultimately show ?thesis using True t r'' ts(2) count [of t] dec [OF True] by auto
  next
    case False
    then show ?thesis using t r'' ts(2) same inv ready'(2) by (auto simp: order_invariant_def)
  qed
  moreover have "set r'' \<subseteq> ?A'" using r'' inv ready'(2) by (auto simp: order_invariant_def)
  ultimately have "order_invariant E (bs_remove name active) r'' ind'"
    using ok inv by (auto simp: order_invariant_def)
  then show ?thesis using res by blast
qed

lemma next_action_ok:
  assumes inv: "order_invariant E active ready indegree" and ne: "active \<noteq> []"
    and inc: "adjacency_ok incoming (E\<inverse>)"
  shows "\<exists>name ready'. next_action active incoming ready = Some (name, ready') \<and> name \<in> set active
    \<and> bs_ok ready' \<and> set ready' = set ready - {name}
    \<and> (parents_in E (set active) name = {} \<or> (name, name) \<in> E\<^sup>+)"
proof (cases ready)
  case Nil
  then have "parents_in E (set active) t \<noteq> {}" if "t \<in> set active" for t
    using inv that by (auto simp: order_invariant_def)
  from cycle_member_finds [OF ne this inc] show ?thesis
    using Nil by (auto simp: next_action_def)
next
  case (Cons name rest)
  then have "bs_ok rest \<and> name \<notin> set rest"
    using inv bs_ok_tl [of name rest] by (simp add: order_invariant_def)
  moreover have "name \<in> set ready" using Cons by simp
  then have "name \<in> set active \<and> parents_in E (set active) name = {}"
    using inv by (auto simp: order_invariant_def)
  ultimately show ?thesis using Cons by (auto simp: next_action_def)
qed

lemma order_loop_ok:
  assumes out: "adjacency_ok outgoing E" and inc: "adjacency_ok incoming (E\<inverse>)"
  shows "order_invariant E active ready indegree \<Longrightarrow> set active \<subseteq> dom (map_of remaining) \<Longrightarrow>
    \<exists>names. distinct names \<and> set names = set active
      \<and> order_loop outgoing incoming active ready indegree remaining ordered
          = Inr (ordered @ map (\<lambda>n. the (map_of remaining n)) names)
      \<and> sorted_wrt (\<lambda>x y. (y, x) \<in> E \<longrightarrow> (x, x) \<in> E\<^sup>+) names"
proof (induction "length active" arbitrary: active ready indegree remaining ordered rule: less_induct)
  case less
  show ?case
  proof (cases "active = []")
    case True
    then show ?thesis by (simp add: order_loop.simps)
  next
    case False
    obtain name ready' where nx: "next_action active incoming ready = Some (name, ready')"
      and name: "name \<in> set active" and r': "bs_ok ready'" "set ready' = set ready - {name}"
      and cyc: "parents_in E (set active) name = {} \<or> (name, name) \<in> E\<^sup>+"
      using next_action_ok [OF less.prems(1) False inc] by blast
    obtain ind' r'' where
      rel: "release_targets (bs_remove name active) (neighbours outgoing name) indegree ready' = Inr (ind', r'')"
      and inv': "order_invariant E (bs_remove name active) r'' ind'"
      using emit_step [OF less.prems(1) name r' out] by blast
    obtain item where item: "map_of remaining name = Some item" using less.prems(2) name by auto
    let ?rem = "bt_remove name remaining"
    have dom': "set (bs_remove name active) \<subseteq> dom (map_of ?rem)"
      using less.prems(2) by (auto simp: bt_remove_map_of dom_def)
    obtain names where names: "distinct names" "set names = set active - {name}"
      "order_loop outgoing incoming (bs_remove name active) r'' ind' ?rem (ordered @ [item])
         = Inr ((ordered @ [item]) @ map (\<lambda>n. the (map_of ?rem n)) names)"
      "sorted_wrt (\<lambda>x y. (y, x) \<in> E \<longrightarrow> (x, x) \<in> E\<^sup>+) names"
      using less.hyps [OF length_bs_remove [OF name] inv' dom', of "ordered @ [item]"] by auto
    have vals: "map (\<lambda>n. the (map_of ?rem n)) names = map (\<lambda>n. the (map_of remaining n)) names"
      using names(2) by (simp add: bt_remove_map_of)
    have "order_loop outgoing incoming active ready indegree remaining ordered
        = Inr (ordered @ map (\<lambda>n. the (map_of remaining n)) (name # names))"
      using names(3) False nx name item rel by (subst order_loop.simps) (simp add: vals)
    moreover have "sorted_wrt (\<lambda>x y. (y, x) \<in> E \<longrightarrow> (x, x) \<in> E\<^sup>+) (name # names)"
      using names(2,4) cyc by (auto simp: parents_in_def)
    moreover have "distinct (name # names)" "set (name # names) = set active" using names(1,2) name by auto
    ultimately show ?thesis by blast
  qed
qed

subsection \<open>From the resolved actions to the order\<close>

text \<open>
  The constraints: a dependency before the action that needs it (after it when the first action
  is a removal), and the obsoleting action before the removal it causes.
\<close>

definition removing :: "resolved_action list \<Rightarrow> bool" where
  "removing resolved = (case resolved of [] \<Rightarrow> False | item # _ \<Rightarrow> ra_operation item = RRemove)"

definition item_constraints :: "resolved_action list \<Rightarrow> resolved_action \<Rightarrow> (string \<times> string) set" where
  "item_constraints resolved a =
     (\<lambda>e. if removing resolved then (de_parent e, ra_name a) else (ra_name a, de_parent e))
        ` set (ra_dependency_edges a)
     \<union> {(ra_name p, ra_name a) | p i. ra_provenance a = Some (ObsoletedByAction i)
          \<and> find (\<lambda>c. resolved_identity c = Some i) resolved = Some p}"

definition ordering_edges :: "resolved_action list \<Rightarrow> (string \<times> string) set" where
  "ordering_edges resolved = (\<Union>a\<in>set resolved. item_constraints resolved a)"

definition linked :: "resolved_action list \<Rightarrow> bool" where
  "linked resolved \<longleftrightarrow> distinct (map ra_name resolved)
     \<and> (\<forall>a\<in>set resolved. de_parent ` set (ra_dependency_edges a) \<subseteq> ra_name ` set resolved
          \<and> (\<forall>i. ra_provenance a = Some (ObsoletedByAction i) \<longrightarrow>
                (\<exists>p\<in>set resolved. resolved_identity p = Some i)))"

lemma mapR_total: "(\<And>x. x \<in> set xs \<Longrightarrow> \<exists>y. f x = Inr y) \<Longrightarrow> \<exists>ys. mapR f xs = Inr ys"
  by (induction xs) (auto simp: bindR_eq_Inr)

lemma mapR_set: "mapR f xs = Inr ys \<Longrightarrow> set ys = {y. \<exists>x\<in>set xs. f x = Inr y}"
  by (induction xs arbitrary: ys) (auto simp: bindR_eq_Inr)

lemma item_edges_ok:
  assumes "a \<in> set resolved" "linked resolved" "dom (map_of remaining) = ra_name ` set resolved"
  shows "\<exists>es. item_edges resolved remaining (removing resolved) a = Inr es
    \<and> set es = item_constraints resolved a"
proof -
  let ?g = "\<lambda>e. if removing resolved then (de_parent e, ra_name a) else (ra_name a, de_parent e)"
  have "de_parent ` set (ra_dependency_edges a) \<subseteq> dom (map_of remaining)"
    using assms by (simp add: linked_def)
  then have m: "mapR (\<lambda>d. if map_of remaining (de_parent d) = None then Inl (MissingParent (de_parent d))
      else Inr (?g d)) (ra_dependency_edges a) = Inr (map ?g (ra_dependency_edges a))"
    by (intro mapR_all_Inr) auto
  show ?thesis
  proof (cases "ra_provenance a")
    case None
    then show ?thesis using m by (simp add: item_edges_def item_constraints_def)
  next
    case (Some v)
    then obtain i where i: "ra_provenance a = Some (ObsoletedByAction i)" by (cases v) simp
    then have "find (\<lambda>c. resolved_identity c = Some i) resolved \<noteq> None"
      using assms(1,2) unfolding linked_def find_None_iff by blast
    then obtain p where "find (\<lambda>c. resolved_identity c = Some i) resolved = Some p" by blast
    then show ?thesis using m i by (simp add: item_edges_def item_constraints_def)
  qed
qed

lemma order_edges_ok:
  assumes "linked resolved" "dom (map_of remaining) = ra_name ` set resolved"
  shows "\<exists>es. order_edges resolved remaining = Inr es \<and> set es = ordering_edges resolved"
proof -
  let ?f = "item_edges resolved remaining (removing resolved)"
  have item: "\<exists>es. ?f a = Inr es" if "a \<in> set resolved" for a
    using item_edges_ok [OF that assms] by blast
  obtain ess where ess: "mapR ?f resolved = Inr ess" using mapR_total [of resolved ?f] item by blast
  have "\<Union> (set ` set ess) = ordering_edges resolved"
  proof (intro equalityI subsetI)
    fix e assume "e \<in> \<Union> (set ` set ess)"
    then obtain a es where "a \<in> set resolved" "?f a = Inr es" "e \<in> set es"
      using mapR_set [OF ess] by auto
    then show "e \<in> ordering_edges resolved"
      using item_edges_ok [OF _ assms, of a] by (auto simp: ordering_edges_def)
  next
    fix e assume "e \<in> ordering_edges resolved"
    then obtain a where a: "a \<in> set resolved" "e \<in> item_constraints resolved a"
      by (auto simp: ordering_edges_def)
    then obtain es where "?f a = Inr es" "e \<in> set es" using item_edges_ok [OF _ assms, of a] by blast
    then show "e \<in> \<Union> (set ` set ess)" using mapR_set [OF ess] a(1) by blast
  qed
  then show ?thesis using ess by (simp add: order_edges_def removing_def Let_def)
qed


lemma bt_collect_ok: "bt_ok (bt_collect xs)" "map_of (bt_collect xs) k = map_of (rev xs) k"
  using btree.invar_collect [of xs] btree.lookup_collect [of xs k]
  by (simp_all add: bt_collect_def btree.collect_def)

lemma map_of_key:
  "distinct (map f xs) \<Longrightarrow> x \<in> set xs \<Longrightarrow> map_of (map (\<lambda>x. (f x, x)) xs) (f x) = Some x"
  by (induction xs) (auto simp: rev_image_eqI)

lemma bt_collect_key:
  assumes "distinct (map f xs)"
  shows "x \<in> set xs \<Longrightarrow> map_of (bt_collect (map (\<lambda>x. (f x, x)) xs)) (f x) = Some x"
    and "set (bt_keys (bt_collect (map (\<lambda>x. (f x, x)) xs))) = f ` set xs"
    and "length (bt_collect (map (\<lambda>x. (f x, x)) xs)) = length xs"
proof -
  let ?m = "bt_collect (map (\<lambda>x. (f x, x)) xs)"
  show "map_of ?m (f x) = Some x" if "x \<in> set xs"
    using map_of_key [of f "rev xs" x] assms that
    by (simp add: bt_collect_ok(2) rev_map distinct_map)
  show keys: "set (bt_keys ?m) = f ` set xs"
    using btree.keys_collect [of "map (\<lambda>x. (f x, x)) xs"]
    by (simp add: bt_collect_def btree.collect_def image_image)
  have "distinct (bt_keys ?m)" using bt_ok_distinct [OF bt_collect_ok(1)] by (simp add: bt_keys_def)
  then have "length ?m = card (f ` set xs)" using keys by (metis bt_keys_def distinct_card length_map)
  then show "length ?m = length xs" using assms by (metis distinct_card length_map set_map)
qed

lemma ordering_edges_names:
  assumes "linked resolved"
  shows "ordering_edges resolved \<subseteq> ra_name ` set resolved \<times> ra_name ` set resolved"
proof -
  have "item_constraints resolved a \<subseteq> ra_name ` set resolved \<times> ra_name ` set resolved"
    if a: "a \<in> set resolved" for a
  proof -
    have "de_parent ` set (ra_dependency_edges a) \<subseteq> ra_name ` set resolved"
      using assms a by (simp add: linked_def)
    moreover have "p \<in> set resolved" if "find (\<lambda>c. resolved_identity c = Some i) resolved = Some p" for i p
      using that by (auto simp: find_Some_iff)
    ultimately show ?thesis using a unfolding item_constraints_def by (auto split: if_splits)
  qed
  then show ?thesis unfolding ordering_edges_def by blast
qed

lemma initial_order_invariant:
  assumes g: "graph_ok g E K" and E: "E \<subseteq> K \<times> K" and keys: "bs_ok active" "set active = K"
  shows "order_invariant E active (map fst (filter (\<lambda>(name, count). count = 0) (og_indegree g))) (og_indegree g)"
proof -
  let ?d = "og_indegree g"
  have d: "bt_ok ?d" "\<And>t. map_of ?d t = (if t \<in> K then Some (card {f. (f, t) \<in> E}) else None)"
    using g by (auto simp: graph_ok_def indegree_ok_def)
  have parents: "parents_in E K t = {f. (f, t) \<in> E}" for t using E by (auto simp: parents_in_def)
  have fin: "finite (parents_in E K t)" for t using keys(2) by (auto simp: parents_in_def)
  have "bs_ok (map fst (filter (\<lambda>(name, count). count = 0) ?d))"
    using d(1) by (auto simp: bs_ok_def bt_ok_def bt_keys_def sorted_wrt_map intro: sorted_wrt_filter)
  moreover have "t \<in> set (map fst (filter (\<lambda>(name, count). count = 0) ?d)) \<longleftrightarrow>
      t \<in> K \<and> parents_in E K t = {}" for t
  proof -
    have "t \<in> set (map fst (filter (\<lambda>(name, count). count = 0) ?d)) \<longleftrightarrow> map_of ?d t = Some 0"
      using bt_set [OF d(1), of t 0] by force
    then show ?thesis using d(2) [of t] parents [of t] fin [of t] by auto
  qed
  ultimately show ?thesis
    using d keys parents by (auto simp: order_invariant_def)
qed

lemma collected_permutation:
  assumes d: "distinct (map f xs)" and ns: "distinct ns" "set ns = f ` set xs"
  defines "ys \<equiv> map (\<lambda>n. the (map_of (bt_collect (map (\<lambda>x. (f x, x)) xs)) n)) ns"
  shows "map f ys = ns" and "mset ys = mset xs"
proof -
  let ?R = "bt_collect (map (\<lambda>x. (f x, x)) xs)"
  have lookup: "the (map_of ?R n) \<in> set xs \<and> f (the (map_of ?R n)) = n" if "n \<in> f ` set xs" for n
    using bt_collect_key(1) [OF d] that by force
  show named: "map f ys = ns"
    unfolding ys_def map_map by (rule map_idI) (use lookup ns(2) in \<open>auto simp: comp_def\<close>)
  have "distinct (map f ys)" by (simp only: named ns(1))
  then have "distinct ys" by (simp only: distinct_map)
  moreover have "set ys = set xs"
  proof (intro equalityI subsetI)
    fix x assume "x \<in> set xs"
    then have "map_of ?R (f x) = Some x" "f x \<in> set ns"
      using bt_collect_key(1) [OF d] ns(2) by auto
    then show "x \<in> set ys" unfolding ys_def by force
  qed (use lookup ns(2) in \<open>auto simp: ys_def\<close>)
  moreover have "distinct xs" using d by (simp add: distinct_map)
  ultimately show "mset ys = mset xs" using set_eq_iff_mset_eq_distinct by blast
qed

lemma execution_order_ok:
  assumes l: "linked resolved" and names: "map ea_name actions = map ra_name resolved"
  shows "\<exists>xs. execution_order resolved actions = Inr xs \<and> mset xs = mset actions
    \<and> sorted_wrt (\<lambda>x y. (ea_name y, ea_name x) \<in> ordering_edges resolved
          \<longrightarrow> (ea_name x, ea_name x) \<in> (ordering_edges resolved)\<^sup>+) xs"
proof -
  let ?R = "bt_collect (map (\<lambda>x. (ea_name x, x)) actions)" and ?E = "ordering_edges resolved"
  let ?K = "ra_name ` set resolved"
  have d: "distinct (map ea_name actions)" using l names by (simp add: linked_def)
  have K: "ea_name ` set actions = ?K" using names by (metis set_map)
  have keys: "set (bt_keys ?R) = ?K" using bt_collect_key(2) [OF d] K by simp
  have sorted: "bs_ok (bt_keys ?R)" using bt_collect_ok(1) by (simp add: bs_ok_def bt_ok_def)
  have len: "length ?R = length resolved" using bt_collect_key(3) [OF d] names by (metis length_map)
  have dom: "dom (map_of ?R) = ?K" using keys by (simp add: dom_map_of_conv_image_fst bt_keys_def)
  obtain es where es: "order_edges resolved ?R = Inr es" "set es = ?E"
    using order_edges_ok [OF l dom] by blast
  have E: "?E \<subseteq> ?K \<times> ?K" by (rule ordering_edges_names [OF l])
  have tgt: "snd ` ?E \<subseteq> ?K" using E by auto
  obtain g where g: "link_edges es \<lparr>og_outgoing = [], og_incoming = [],
      og_indegree = map (\<lambda>name. (name, 0)) (bt_keys ?R)\<rparr> = Inr g" "graph_ok g ?E ?K"
    using link_edges_ok [OF graph_ok_empty, of "bt_keys ?R" es] sorted es(2) tgt keys
    by (auto simp: bs_ok_def)
  let ?ready = "map fst (filter (\<lambda>(name, count). count = 0) (og_indegree g))"
  have inv: "order_invariant ?E (bt_keys ?R) ?ready (og_indegree g)"
    by (rule initial_order_invariant [OF g(2) E sorted keys])
  have adj: "adjacency_ok (og_outgoing g) ?E" "adjacency_ok (og_incoming g) (?E\<inverse>)"
    using g(2) by (auto simp: graph_ok_def)
  obtain ns where ns: "distinct ns" "set ns = ?K"
    "order_loop (og_outgoing g) (og_incoming g) (bt_keys ?R) ?ready (og_indegree g) ?R []
       = Inr (map (\<lambda>n. the (map_of ?R n)) ns)"
    "sorted_wrt (\<lambda>x y. (y, x) \<in> ?E \<longrightarrow> (x, x) \<in> ?E\<^sup>+) ns"
    using order_loop_ok [OF adj inv, of ?R "[]"] dom keys by auto
  let ?xs = "map (\<lambda>n. the (map_of ?R n)) ns"
  have named: "map ea_name ?xs = ns" and "mset ?xs = mset actions"
    using collected_permutation [OF d ns(1)] ns(2) K by simp_all
  moreover have "sorted_wrt (\<lambda>x y. (ea_name y, ea_name x) \<in> ?E \<longrightarrow> (ea_name x, ea_name x) \<in> ?E\<^sup>+) ?xs"
  proof -
    have "sorted_wrt (\<lambda>x y. (y, x) \<in> ?E \<longrightarrow> (x, x) \<in> ?E\<^sup>+) (map ea_name ?xs)"
      by (simp only: named ns(4))
    then show ?thesis by (simp only: sorted_wrt_map)
  qed
  moreover have "execution_order resolved actions = Inr ?xs"
    using len es(1) g(1) ns(3) by (simp add: execution_order_def Let_def)
  ultimately show ?thesis by blast
qed

lemma linked_of_inputs: "validate_inputs b resolved satisfied = Inr () \<Longrightarrow> linked resolved"
proof -
  assume "validate_inputs b resolved satisfied = Inr ()"
  then have d: "distinct (map ra_name resolved)"
    and ok: "\<forall>a\<in>set resolved. input_action_ok (ti_action (pb_intent b)) resolved (requested_specs b) a"
    unfolding validate_inputs_ok by blast+
  have "de_parent ` set (ra_dependency_edges a) \<subseteq> ra_name ` set resolved
      \<and> (\<forall>i. ra_provenance a = Some (ObsoletedByAction i) \<longrightarrow> (\<exists>p\<in>set resolved. resolved_identity p = Some i))"
    if "a \<in> set resolved" for a
    using ok that unfolding input_action_ok_def by blast
  then show ?thesis using d unfolding linked_def by blast
qed

definition example_explained :: "string \<Rightarrow> explained_action" where
  "example_explained name = \<lparr>ea_operation = ''install'', ea_name = name, ea_target_evra = example_evra ''9.2'',
     ea_installed_evra = None, ea_installed_instance = None, ea_installed_header_sha256 = None,
     ea_installed_vendor = None, ea_vendor = Some ''Fedora'', ea_repo_id = Some ''updates'',
     ea_reason = User, ea_relation = Requested, ea_requested_by = None, ea_dependency_edges = [],
     ea_provenance = None, ea_package_size = 10, ea_installed_size = 20, ea_artifact = None,
     ea_protection = \<lparr>pp_installonly = False, pp_protected = False, pp_running_kernel = False\<rparr>,
     ea_explanation = ''rule''\<rparr>"

section \<open>Properties\<close>

text \<open>
  Property C6. For inputs that passed \<^verbatim>\<open>validate_inputs\<close>, \<^verbatim>\<open>execution_order\<close> always returns: its loop
  ends, no action is lost or repeated, and an action precedes an action it must follow only when
  it lies on a cycle of the constraints itself; without cycles every constraint holds.
\<close>

theorem execution_order_returns_ordered:
  assumes "validate_inputs b resolved satisfied = Inr ()"
    and "map ea_name actions = map ra_name resolved"
  shows "\<exists>xs. execution_order resolved actions = Inr xs \<and> mset xs = mset actions
    \<and> sorted_wrt (\<lambda>x y. (ea_name y, ea_name x) \<in> ordering_edges resolved
          \<longrightarrow> (ea_name x, ea_name x) \<in> (ordering_edges resolved)\<^sup>+) xs"
  by (rule execution_order_ok [OF linked_of_inputs [OF assms(1)] assms(2)])

theorem execution_order_returns_ordered_witness:
  "\<exists>xs. execution_order example_actions [example_explained ''vim-common'', example_explained ''vim''] = Inr xs
     \<and> mset xs = mset [example_explained ''vim-common'', example_explained ''vim'']"
proof -
  have "map ea_name [example_explained ''vim-common'', example_explained ''vim''] = map ra_name example_actions"
    by (simp add: example_explained_def example_actions_def example_resolved_def)
  from execution_order_returns_ordered [OF example_inputs this] show ?thesis by blast
qed

end
