(* ===== verification/Solver_Plan.thy ===== *)
theory Solver_Plan
  imports Solver_Order
begin

text \<open>
  \<^verbatim>\<open>crates/dnfast-solver/src/plan.rs\<close>: from resolved actions to an explained, canonical plan
  (\<open>build_with_satisfied\<close>), the checks of a plan document, and the comparison of a re-solved plan.
  JSON encoding and SHA-256 are parameters, as in \<open>Core_Canonical\<close>.
\<close>

fun plan_error_display :: "plan_error \<Rightarrow> string" where
  "plan_error_display NoChanges = ''solver produced no changes''"
| "plan_error_display IntentCoverage = ''transaction intent is not covered exactly once''"
| "plan_error_display (UnrelatedAction s) = ''unrelated requested action: '' @ s"
| "plan_error_display (ConflictingAction s) = ''conflicting action kind: '' @ s"
| "plan_error_display (DuplicateAction s) = ''duplicate action identity: '' @ s"
| "plan_error_display (Unresolved s) = ''unresolved dependency set for: '' @ s"
| "plan_error_display (DuplicateCandidate s) = ''duplicate candidate: '' @ s"
| "plan_error_display (AmbiguousCandidate s) = ''ambiguous candidate identity: '' @ s"
| "plan_error_display DependencyCycle = ''dependency ordering cycle''"
| "plan_error_display (MissingParent s) = ''dependency parent does not exist: '' @ s"
| "plan_error_display DisconnectedGraph = ''dependency graph contains a disconnected component''"
| "plan_error_display (Invalid s) = ''invalid plan input: '' @ s"
| "plan_error_display (Excluded s) = ''excluded package: '' @ s"
| "plan_error_display (Modular s) = ''unsupported modular package: '' @ s"
| "plan_error_display (NonPreferred s) = ''solver selected a non-preferred candidate: '' @ s"
| "plan_error_display (RepositoryNotSelected s) =
     ''candidate repository is not selected in the planning snapshot: '' @ s"
| "plan_error_display (InstalledMissing s) = ''installed package was not found: '' @ s"
| "plan_error_display (AmbiguousInstalled s) = ''installed package identity is ambiguous: '' @ s"
| "plan_error_display (UnpairedNativeOld s) = ''unpaired native old action: '' @ s"
| "plan_error_display (Unsafe s) = ''unsafe action: '' @ s"
| "plan_error_display (CanonicalError s) = ''canonical document failed: '' @ s"
| "plan_error_display ReSolveMismatch = ''root re-solve action bytes differ''"

definition unsafe :: "domain_error \<Rightarrow> plan_error" where
  "unsafe e = Unsafe (domain_error_display e)"

definition canonical_error :: "domain_error \<Rightarrow> plan_error" where
  "canonical_error e = CanonicalError (domain_error_display e)"

section \<open>Candidates\<close>

fun then_cmp :: "ordering \<Rightarrow> ordering \<Rightarrow> ordering" where
  "then_cmp Equal r = r"
| "then_cmp l r = l"

definition candidate_tie :: "candidate_package \<Rightarrow> candidate_package \<Rightarrow> ordering" where
  "candidate_tie l r = then_cmp (cmp (cp_priority r) (cp_priority l))
     (then_cmp (cmp (cp_cost r) (cp_cost l))
     (then_cmp (cmp (cp_repo_id r) (cp_repo_id l)) (cmp (cp_location r) (cp_location l))))"

definition candidate_cmp :: "candidate_package \<Rightarrow> candidate_package \<Rightarrow> ordering" where
  "candidate_cmp l r =
     (if cp_evra l \<noteq> cp_evra r \<and> is_strictly_newer_than (cp_evra l) (cp_evra r) then Greater
      else if cp_evra l \<noteq> cp_evra r \<and> is_strictly_newer_than (cp_evra r) (cp_evra l) then Less
      else candidate_tie l r)"

text \<open>\<^verbatim>\<open>Iterator::max_by\<close>: of equal elements, the last.\<close>

fun max_by :: "('a \<Rightarrow> 'a \<Rightarrow> ordering) \<Rightarrow> 'a list \<Rightarrow> 'a option" where
  "max_by compare [] = None"
| "max_by compare (x # xs) =
     Some (fold (\<lambda>y best. if compare best y = Greater then best else y) xs x)"

definition hex_digest :: "string \<Rightarrow> (plan_error, string) result" where
  "hex_digest value =
     (if length value = 64 \<and> list_all is_ascii_hexdigit value then Inr (map to_ascii_lowercase value)
      else Inl (Invalid ''invalid SHA-256 digest''))"

definition unsafe_location :: "string \<Rightarrow> bool" where
  "unsafe_location l \<longleftrightarrow> starts_with l ''/'' \<or> contains_str l ''..'' \<or> contains_str l ''//''
     \<or> contains_str l [CHR 0x5C] \<or> list_ex is_control (chars_of l)"

definition eligible :: "plan_builder \<Rightarrow> string \<Rightarrow> installed_package option \<Rightarrow> string option \<Rightarrow> candidate_package list" where
  "eligible b name inst_pkg vendor =
     filter (\<lambda>c. case vendor of None \<Rightarrow> True | Some v \<Rightarrow> cp_vendor c = v)
       (filter (\<lambda>c. case inst_pkg of None \<Rightarrow> True | Some p \<Rightarrow> ev_arch (cp_evra c) = ev_arch (ip_evra p))
         (filter (\<lambda>c. cp_name c = name \<and> \<not> cp_excluded c) (pb_candidates b)))"

definition validate_candidate ::
  "plan_builder \<Rightarrow> candidate_package \<Rightarrow> installed_package option \<Rightarrow> string option \<Rightarrow> bool \<Rightarrow> bool
     \<Rightarrow> (plan_error, unit) result" where
  "validate_candidate b c inst_pkg vendor enforce_preferred exact_requested_relation =
     (if cp_excluded c \<or> is_excluded (pb_policy b) (cp_name c) then Inl (Excluded (cp_name c))
      else if unsafe_location (cp_location c) then Inl (Invalid ''unsafe artifact location'')
      else
        let preferred = max_by candidate_cmp (eligible b (cp_name c) inst_pkg vendor) in
        if enforce_preferred \<and> preferred \<noteq> Some c \<and> \<not> exact_requested_relation
        then Inl (NonPreferred (cp_name c)) else Inr ())"

section \<open>Explained actions\<close>

definition protection :: "plan_builder \<Rightarrow> string \<Rightarrow> plan_protection" where
  "protection b name = \<lparr>pp_installonly = is_installonly (pb_policy b) name,
     pp_protected = is_protected (pb_policy b) name,
     pp_running_kernel = is_running_kernel (pb_policy b) name\<rparr>"

definition requested_by :: "resolved_action \<Rightarrow> string option" where
  "requested_by r = (case ra_dependency_edges r of [] \<Rightarrow> None | e # _ \<Rightarrow> Some (de_parent e))"

definition explain_remove ::
  "plan_builder \<Rightarrow> resolved_action \<Rightarrow> installed_package option \<Rightarrow> requested_relation
     \<Rightarrow> (plan_error, explained_action) result" where
  "explain_remove b r inst_pkg relation =
     bindR (ok_or (InstalledMissing (ra_name r)) inst_pkg) (\<lambda>p.
       if ip_name p \<noteq> ra_name r then Inl (Invalid ''installed package name mismatch'')
       else if ra_required_by_remaining r \<noteq> []
         \<or> (relation \<noteq> Requested \<and> ti_action (pb_intent b) \<noteq> Autoremove
            \<and> \<not> ra_introduced_by_requested r \<and> ra_provenance r = None)
       then Inl (Unsafe (''reverse dependency requires '' @ ra_name r))
       else bindR (map_err unsafe (validate_planned_removal (pb_policy b) (ra_name r) (relation_reason relation)))
         (\<lambda>_. Inr \<lparr>ea_operation = ''remove'', ea_name = ra_name r, ea_target_evra = ip_evra p,
            ea_installed_evra = Some (ip_evra p), ea_installed_instance = Some (ip_db_instance p),
            ea_installed_header_sha256 = Some (as_str (ip_header p)),
            ea_installed_vendor = ra_installed_vendor r, ea_vendor = None, ea_repo_id = None,
            ea_reason = relation_reason relation, ea_relation = relation,
            ea_requested_by = requested_by r, ea_dependency_edges = ra_dependency_edges r,
            ea_provenance = ra_provenance r, ea_package_size = 0, ea_installed_size = 0,
            ea_artifact = None, ea_protection = protection b (ra_name r),
            ea_explanation = ra_solver_rule r\<rparr>))"

fun resolved_operation_text :: "resolved_operation \<Rightarrow> string" where
  "resolved_operation_text RInstall = ''install''"
| "resolved_operation_text RUpgrade = ''upgrade''"
| "resolved_operation_text RDowngrade = ''downgrade''"
| "resolved_operation_text RReinstall = ''reinstall''"
| "resolved_operation_text RRemove = ''remove''"

text \<open>The two matches on the operation of a replacement: build the candidate action, check it.\<close>

definition validate_replacement ::
  "solver_policy \<Rightarrow> resolved_operation \<Rightarrow> evra \<Rightarrow> evra \<Rightarrow> string \<Rightarrow> string \<Rightarrow> (domain_error, unit) result" where
  "validate_replacement policy operation previous target iv cv =
     (case operation of
        RUpgrade \<Rightarrow> validate_upgrade policy (candidate_upgrade previous target iv cv)
      | RDowngrade \<Rightarrow> validate_downgrade policy (candidate_downgrade previous target iv cv)
      | _ \<Rightarrow> validate_reinstall policy (candidate_reinstall previous target iv cv))"

definition check_replacement ::
  "plan_builder \<Rightarrow> resolved_action \<Rightarrow> installed_package option \<Rightarrow> candidate_package \<Rightarrow> (plan_error, unit) result"
  where
  "check_replacement b r inst_pkg c =
     (if ra_operation r \<in> {RUpgrade, RDowngrade, RReinstall} then
        bindR (ok_or (InstalledMissing (ra_name r)) inst_pkg) (\<lambda>previous.
        bindR (ok_or (Invalid ''missing installed vendor'') (ra_installed_vendor r)) (\<lambda>iv.
          map_err unsafe (validate_replacement (pb_policy b) (ra_operation r) (ip_evra previous)
            (cp_evra c) iv (cp_vendor c))))
      else if inst_pkg \<noteq> None then Inl (Invalid ''install action already installed'')
      else Inr ())"

definition explain_install_or_upgrade ::
  "plan_builder \<Rightarrow> resolved_action \<Rightarrow> installed_package option \<Rightarrow> requested_relation
     \<Rightarrow> (plan_error, explained_action) result" where
  "explain_install_or_upgrade b r inst_pkg relation =
     bindR (ok_or (Invalid ''missing candidate'') (ra_candidate r)) (\<lambda>c.
     bindR (validate_candidate b c inst_pkg (ra_installed_vendor r) (ra_requested r)
              (ra_requested r \<and> ra_requested_spec r \<noteq> None \<and> ra_requested_relation r)) (\<lambda>_.
     if cp_name c \<noteq> ra_name r then Inl (Invalid ''candidate name mismatch'')
     else bindR (check_replacement b r inst_pkg c) (\<lambda>_.
     bindR (hex_digest (cp_checksum_sha256 c)) (\<lambda>checksum.
       Inr \<lparr>ea_operation = resolved_operation_text (ra_operation r), ea_name = ra_name r,
            ea_target_evra = cp_evra c, ea_installed_evra = map_option ip_evra inst_pkg,
            ea_installed_instance = map_option ip_db_instance inst_pkg,
            ea_installed_header_sha256 = map_option (\<lambda>p. as_str (ip_header p)) inst_pkg,
            ea_installed_vendor = ra_installed_vendor r, ea_vendor = Some (cp_vendor c),
            ea_repo_id = Some (cp_repo_id c), ea_reason = relation_reason relation,
            ea_relation = relation, ea_requested_by = requested_by r,
            ea_dependency_edges = ra_dependency_edges r, ea_provenance = ra_provenance r,
            ea_package_size = cp_package_size c, ea_installed_size = cp_installed_size c,
            ea_artifact = Some \<lparr>ar_checksum_sha256 = checksum, ar_location = cp_location c,
              ar_package_size = cp_package_size c\<rparr>,
            ea_protection = protection b (ra_name r), ea_explanation = ra_solver_rule r\<rparr>))))"

definition relation_of :: "plan_builder \<Rightarrow> resolved_action \<Rightarrow> requested_relation" where
  "relation_of b r =
     (if ti_action (pb_intent b) = Autoremove then DependencyRelation
      else if ra_requested r then Requested
      else if ra_provenance r \<noteq> None then DependencyRelation
      else if list_all (\<lambda>e. de_kind e = Weak) (ra_dependency_edges r) then WeakDependencyRelation
      else DependencyRelation)"

definition find_installed :: "plan_builder \<Rightarrow> resolved_action \<Rightarrow> (plan_error, installed_package option) result" where
  "find_installed b r =
     (case ra_installed_instance r of None \<Rightarrow> Inr None
      | Some i \<Rightarrow> bindR (ok_or (InstalledMissing (ra_name r))
            (find (\<lambda>p. ip_db_instance p = i) (ii_packages (pb_inventory b)))) (\<lambda>p. Inr (Some p)))"

definition explain :: "plan_builder \<Rightarrow> resolved_action \<Rightarrow> (plan_error, explained_action) result" where
  "explain b r =
     (if ra_solver_rule r = [] then Inl (Invalid ''missing solver explanation'')
      else bindR (find_installed b r) (\<lambda>inst_pkg.
        if ra_operation r = RRemove then explain_remove b r inst_pkg (relation_of b r)
        else explain_install_or_upgrade b r inst_pkg (relation_of b r)))"

section \<open>From explained actions to package actions\<close>

type_synonym identity_constructor =
  "string \<Rightarrow> evra \<Rightarrow> evra \<Rightarrow> string \<Rightarrow> string \<Rightarrow> string \<Rightarrow> package_reason \<Rightarrow> u64 \<Rightarrow> string
     \<Rightarrow> (domain_error, package_action) result"

text \<open>The three replacement arms of \<^verbatim>\<open>core_action\<close> differ in the constructor they call only.\<close>

definition core_replacement ::
  "identity_constructor \<Rightarrow> explained_action \<Rightarrow> (plan_error, package_action) result" where
  "core_replacement construct a =
     bindR (ok_or (Invalid ''missing installed EVRA'') (ea_installed_evra a)) (\<lambda>inst.
     bindR (ok_or (Invalid ''missing repo'') (ea_repo_id a)) (\<lambda>repo.
     bindR (ok_or (Invalid ''missing installed vendor'') (ea_installed_vendor a)) (\<lambda>iv.
     bindR (ok_or (Invalid ''missing candidate vendor'') (ea_vendor a)) (\<lambda>cv.
     bindR (ok_or (Invalid ''missing installed instance'') (ea_installed_instance a)) (\<lambda>inst_id.
     bindR (ok_or (Invalid ''missing installed header'') (ea_installed_header_sha256 a)) (\<lambda>header.
       map_err canonical_error
         (construct (ea_name a) inst (ea_target_evra a) repo iv cv (ea_reason a) inst_id header)))))))"

definition core_removal :: "explained_action \<Rightarrow> (plan_error, package_action) result" where
  "core_removal a =
     bindR (ok_or (Invalid ''missing installed vendor'') (ea_installed_vendor a)) (\<lambda>iv.
     bindR (ok_or (Invalid ''missing installed instance'') (ea_installed_instance a)) (\<lambda>inst_id.
     bindR (ok_or (Invalid ''missing installed header'') (ea_installed_header_sha256 a)) (\<lambda>header.
       map_err canonical_error
         (case ea_provenance a of
            Some (ObsoletedByAction parent) \<Rightarrow> action_remove_obsoleted_with_identity (ea_name a)
              (ea_target_evra a) iv (ea_reason a) inst_id header parent
          | None \<Rightarrow> action_remove_with_identity (ea_name a) (ea_target_evra a) iv (ea_reason a)
              inst_id header))))"

definition core_action :: "explained_action \<Rightarrow> (plan_error, package_action) result" where
  "core_action a =
     (if ea_operation a = ''install'' then
        bindR (ok_or (Invalid ''missing repo'') (ea_repo_id a)) (\<lambda>repo.
        bindR (ok_or (Invalid ''missing vendor'') (ea_vendor a)) (\<lambda>vendor.
          Inr (action_install_with_vendor (ea_name a) (ea_target_evra a) repo vendor (ea_reason a))))
      else if ea_operation a = ''upgrade'' then core_replacement action_upgrade_with_identity a
      else if ea_operation a = ''downgrade'' then core_replacement action_downgrade_with_identity a
      else if ea_operation a = ''reinstall'' then core_replacement action_reinstall_with_identity a
      else if ea_operation a = ''remove'' then core_removal a
      else Inl (Invalid ''unknown operation''))"

section \<open>Plan documents\<close>

record canonical_solver_plan =
  csp_schema :: string
  csp_proposal :: plan_envelope
  csp_actions :: "explained_action list"

text \<open>
  The JSON encodings \<^verbatim>\<open>plan.rs\<close> uses: of a proposal, of a package action and of the whole plan, and
  the text of a JSON value.
\<close>

record 'j plan_encoding =
  pc_proposal :: "(plan_envelope, 'j) serde"
  pc_action :: "package_action \<Rightarrow> (string, 'j) result"
  pc_text :: "'j \<Rightarrow> string"
  pc_plan :: "(canonical_solver_plan, 'j) serde"

definition solver_plan_validate :: "'j plan_encoding \<Rightarrow> canonical_solver_plan \<Rightarrow> (plan_error, unit) result" where
  "solver_plan_validate C p =
     (if csp_schema p \<noteq> ''dnfast.explained-plan.v1'' then Inl (Invalid ''schema'')
      else bindR (map_err canonical_error
             (to_canonical_json (pc_proposal C) (\<lambda>q. plan_validate_now q 0) (csp_proposal p))) (\<lambda>_.
        if length (pe_actions (csp_proposal p)) \<noteq> length (csp_actions p)
        then Inl (Invalid ''proposal action mismatch'')
        else bindR (map_err CanonicalError (mapR (pc_action C) (pe_actions (csp_proposal p)))) (\<lambda>left.
             bindR (mapR (\<lambda>a. bindR (core_action a) (\<lambda>x. map_err CanonicalError (pc_action C x)))
                     (csp_actions p)) (\<lambda>right.
             if sort_key (pc_text C) left \<noteq> sort_key (pc_text C) right
             then Inl (Invalid ''proposal action mismatch'') else Inr ()))))"

definition solver_plan_deserialize ::
  "'j plan_encoding \<Rightarrow> canonical_solver_plan \<Rightarrow> (string, canonical_solver_plan) result" where
  "solver_plan_deserialize C raw =
     bindR (map_err plan_error_display (solver_plan_validate C raw)) (\<lambda>_. Inr raw)"

definition solver_plan_json :: "'j plan_encoding \<Rightarrow> canonical_solver_plan \<Rightarrow> (plan_error, bytes) result" where
  "solver_plan_json C p =
     bindR (solver_plan_validate C p) (\<lambda>_.
     bindR (map_err CanonicalError (to_value (pc_plan C) p)) (\<lambda>tree.
       map_err CanonicalError (to_vec (pc_plan C) tree)))"

definition solver_plan_digest ::
  "(bytes \<Rightarrow> string) \<Rightarrow> 'j plan_encoding \<Rightarrow> canonical_solver_plan \<Rightarrow> (plan_error, string) result" where
  "solver_plan_digest sha C p = bindR (solver_plan_json C p) (\<lambda>bs. Inr (sha bs))"

definition solver_plan_from_json ::
  "'j plan_encoding \<Rightarrow> bytes \<Rightarrow> u64 \<Rightarrow> (plan_error, canonical_solver_plan) result" where
  "solver_plan_from_json C bs now =
     (if length bs > 16 * 1024 * 1024 then Inl (Invalid ''plan exceeds 16 MiB'')
      else bindR (map_err CanonicalError
             (bindR (from_slice (pc_plan C) bs) (solver_plan_deserialize C))) (\<lambda>v.
           bindR (solver_plan_json C v) (\<lambda>again.
           if again \<noteq> bs then Inl (CanonicalError ''non-canonical JSON'')
           else bindR (map_err canonical_error (plan_validate_now (csp_proposal v) now)) (\<lambda>_. Inr v))))"

definition require_equal ::
  "'j plan_encoding \<Rightarrow> canonical_solver_plan \<Rightarrow> canonical_solver_plan \<Rightarrow> (plan_error, unit) result" where
  "require_equal C proposed root =
     bindR (solver_plan_json C proposed) (\<lambda>l. bindR (solver_plan_json C root) (\<lambda>r.
       if l = r then Inr () else Inl ReSolveMismatch))"

section \<open>Building a plan\<close>

definition build_with_satisfied ::
  "'j plan_encoding \<Rightarrow> plan_builder \<Rightarrow> resolved_action list \<Rightarrow> package_spec list
     \<Rightarrow> (plan_error, canonical_solver_plan) result" where
  "build_with_satisfied C b resolved satisfied =
     bindR (map_err unsafe (ensure_supported (pb_policy b))) (\<lambda>_.
     bindR (validate_inputs b resolved satisfied) (\<lambda>_.
     bindR (mapR (explain b) resolved) (\<lambda>explained.
     bindR (execution_order resolved explained) (\<lambda>actions.
     bindR (mapR core_action actions) (\<lambda>core_actions.
     bindR (map_err canonical_error
              (plan_new (pb_intent b) (pb_snapshots b) (pb_expires_at_unix b) core_actions)) (\<lambda>proposal.
     bindR (map_err unsafe (plan_validate_executable proposal (pb_policy b) 0)) (\<lambda>_.
     let plan = \<lparr>csp_schema = ''dnfast.explained-plan.v1'', csp_proposal = proposal, csp_actions = actions\<rparr>
     in bindR (solver_plan_validate C plan) (\<lambda>_. Inr plan))))))))"

definition build ::
  "'j plan_encoding \<Rightarrow> plan_builder \<Rightarrow> resolved_action list \<Rightarrow> (plan_error, canonical_solver_plan) result" where
  "build C b resolved = build_with_satisfied C b resolved []"

section \<open>The preferred candidate\<close>

context version_order
begin

lemma refl_equal: "compare x x = Equal"
  using swap [of x x] by (cases "compare x x") simp_all

lemma fold_max:
  defines "pick \<equiv> \<lambda>y best. if compare best y = Greater then best else y"
  shows "fold pick xs x \<in> insert x (set xs) \<and> (\<forall>y\<in>insert x (set xs). compare y (fold pick xs x) \<noteq> Greater)"
proof (induction xs arbitrary: x)
  case Nil
  then show ?case by (simp add: refl_equal)
next
  case (Cons z xs)
  let ?m = "fold pick xs (pick z x)"
  have m: "?m \<in> insert (pick z x) (set xs)" "\<forall>y\<in>insert (pick z x) (set xs). compare y ?m \<noteq> Greater"
    using Cons.IH [of "pick z x"] by blast+
  have "compare x (pick z x) \<noteq> Greater \<and> compare z (pick z x) \<noteq> Greater"
    using greater_iff [of z x] by (simp add: pick_def refl_equal)
  then have "compare x ?m \<noteq> Greater \<and> compare z ?m \<noteq> Greater"
    using m(2) not_greater_trans by blast
  moreover have "pick z x = x \<or> pick z x = z" by (simp add: pick_def)
  ultimately show ?case using m by auto
qed

lemma max_by_maximal:
  "max_by compare xs = Some m \<Longrightarrow> m \<in> set xs \<and> (\<forall>y\<in>set xs. compare y m \<noteq> Greater)"
  using fold_max [of "tl xs" "hd xs"] by (cases xs) auto

end

definition tie_key :: "candidate_package \<Rightarrow> u32 \<times> u32 \<times> string \<times> string" where
  "tie_key c = (cp_priority c, cp_cost c, cp_repo_id c, cp_location c)"

lemma candidate_tie_key: "candidate_tie l r = cmp (tie_key r) (tie_key l)"
  by (auto simp: candidate_tie_def tie_key_def cmp_def)

abbreviation newer_than :: "candidate_package \<Rightarrow> candidate_package \<Rightarrow> bool" where
  "newer_than a b \<equiv> is_strictly_newer_than (cp_evra a) (cp_evra b)"

lemma candidate_cmp_alt:
  "candidate_cmp l r =
     (if newer_than l r then Greater else if newer_than r l then Less else cmp (tie_key r) (tie_key l))"
  by (auto simp: candidate_cmp_def candidate_tie_key)

lemma newer_cotrans: "newer_than a c \<Longrightarrow> newer_than a b \<or> newer_than b c"
  unfolding newer_than_iff using rpm.not_newer_trans by blast

lemma candidate_not_greater:
  "candidate_cmp l r \<noteq> Greater \<longleftrightarrow> \<not> newer_than l r \<and> (newer_than r l \<or> tie_key r \<le> tie_key l)"
  by (auto simp: candidate_cmp_alt)

interpretation candidate: version_order candidate_cmp
proof
  show "candidate_cmp b a = reverse (candidate_cmp a b)" for a b
    using is_strictly_newer_than_asym [of "cp_evra a" "cp_evra b"]
    by (auto simp: candidate_cmp_alt cmp_reverse)
  fix a b c assume ab: "candidate_cmp a b \<noteq> Greater" and bc: "candidate_cmp b c \<noteq> Greater"
  then show "candidate_cmp a c \<noteq> Greater"
    unfolding candidate_not_greater
    using newer_cotrans [of a c b] newer_cotrans [of b a c] newer_cotrans [of c b a]
      order_trans [of "tie_key c" "tie_key b" "tie_key a"] by blast
qed

text \<open>
  Property C24. When \<^verbatim>\<open>validate_candidate\<close> enforces the preference and accepts, the candidate is one
  of those offered under its name that fit the installed architecture and vendor and are not
  excluded, its location is safe, and it is the best of them: none is strictly newer, and among
  those of the same version none has a smaller (priority, cost, repository, location).
\<close>

theorem preferred_candidate_is_best:
  assumes "validate_candidate b c inst vendor True False = Inr ()"
  shows "c \<in> set (eligible b (cp_name c) inst vendor) \<and> \<not> is_excluded (pb_policy b) (cp_name c)
    \<and> \<not> unsafe_location (cp_location c)
    \<and> (\<forall>d\<in>set (eligible b (cp_name c) inst vendor). \<not> newer_than d c
         \<and> (newer_than c d \<or> tie_key c \<le> tie_key d))"
proof -
  have "max_by candidate_cmp (eligible b (cp_name c) inst vendor) = Some c"
    using assms by (auto simp: validate_candidate_def Let_def split: if_splits)
  from candidate.max_by_maximal [OF this] show ?thesis
    using assms by (auto simp: validate_candidate_def candidate_not_greater split: if_splits)
qed

theorem preferred_candidate_is_best_witness:
  "example_candidate ''vim'' \<in> set (eligible example_builder ''vim'' None None)
     \<and> \<not> unsafe_location (cp_location (example_candidate ''vim''))"
proof -
  have "validate_candidate example_builder (example_candidate ''vim'') None None True False = Inr ()"
    by code_simp
  from preferred_candidate_is_best [OF this] show ?thesis by (simp add: example_candidate_def)
qed

section \<open>What a built plan promises\<close>

definition installed_matches :: "plan_builder \<Rightarrow> explained_action \<Rightarrow> bool" where
  "installed_matches b e \<longleftrightarrow>
     (case ea_installed_instance e of None \<Rightarrow> ea_operation e = ''install''
      | Some i \<Rightarrow> (\<exists>p\<in>set (ii_packages (pb_inventory b)). ip_db_instance p = i
          \<and> ea_installed_evra e = Some (ip_evra p)
          \<and> ea_installed_header_sha256 e = Some (as_str (ip_header p))))"

definition artifact_safe :: "plan_builder \<Rightarrow> explained_action \<Rightarrow> bool" where
  "artifact_safe b e \<longleftrightarrow>
     (case ea_artifact e of None \<Rightarrow> ea_operation e = ''remove''
      | Some a \<Rightarrow> length (ar_checksum_sha256 a) = 64 \<and> list_all is_lower_hex (ar_checksum_sha256 a)
          \<and> \<not> unsafe_location (ar_location a) \<and> \<not> is_excluded (pb_policy b) (ea_name e))"

definition removal_allowed :: "plan_builder \<Rightarrow> explained_action \<Rightarrow> bool" where
  "removal_allowed b e \<longleftrightarrow> ea_operation e = ''remove'' \<longrightarrow>
     \<not> is_protected (pb_policy b) (ea_name e) \<and> \<not> is_installonly (pb_policy b) (ea_name e)
     \<and> \<not> is_running_kernel (pb_policy b) (ea_name e)"

definition replacement_direction :: "explained_action \<Rightarrow> bool" where
  "replacement_direction e \<longleftrightarrow>
     (ea_operation e = ''upgrade'' \<longrightarrow> is_strictly_newer_than (ea_target_evra e) (the (ea_installed_evra e)))
     \<and> (ea_operation e = ''downgrade'' \<longrightarrow> is_strictly_newer_than (the (ea_installed_evra e)) (ea_target_evra e))
     \<and> (ea_operation e = ''reinstall'' \<longrightarrow> ea_installed_evra e = Some (ea_target_evra e))"

lemma hex_digest_ok: "hex_digest v = Inr d \<Longrightarrow> length d = 64 \<and> list_all is_lower_hex d"
  by (auto simp: hex_digest_def list_all_iff lowercase_is_lower_hex split: if_splits)

lemma find_installed_ok:
  "find_installed b r = Inr inst \<Longrightarrow> inst = Some p \<Longrightarrow> p \<in> set (ii_packages (pb_inventory b))"
  by (auto simp: find_installed_def bindR_eq_Inr ok_or_eq_Inr find_Some_iff split: option.splits)

lemma explain_name: "explain b r = Inr e \<Longrightarrow> ea_name e = ra_name r"
  by (auto simp: explain_def explain_remove_def explain_install_or_upgrade_def bindR_eq_Inr split: if_splits)

lemma explain_remove_safe:
  assumes "explain_remove b r inst rel = Inr e" "find_installed b r = Inr inst"
  shows "installed_matches b e \<and> artifact_safe b e \<and> removal_allowed b e \<and> replacement_direction e"
proof -
  from assms(1) obtain p where p: "inst = Some p"
    and ok: "validate_removal (pb_policy b) (ra_name r) (relation_reason rel) = Inr ()"
    and e: "ea_operation e = ''remove''" "ea_name e = ra_name r"
      "ea_installed_evra e = Some (ip_evra p)" "ea_installed_instance e = Some (ip_db_instance p)"
      "ea_installed_header_sha256 e = Some (as_str (ip_header p))" "ea_artifact e = None"
    by (auto simp: explain_remove_def bindR_eq_Inr ok_or_eq_Inr map_err_eq_Inr validate_planned_removal_def
        split: if_splits)
  have "p \<in> set (ii_packages (pb_inventory b))" using find_installed_ok [OF assms(2) p] .
  moreover have "removal_allowed b e"
    using ok e(2) by (auto simp: removal_allowed_def validate_removal_def is_protected_def is_installonly_def
        is_running_kernel_def split: if_splits)
  ultimately show ?thesis
    using e by (auto simp: installed_matches_def artifact_safe_def replacement_direction_def)
qed

lemma check_replacement_ok:
  assumes "check_replacement b r inst c = Inr u" "ra_operation r \<noteq> RRemove"
  shows "case inst of None \<Rightarrow> ra_operation r = RInstall
    | Some p \<Rightarrow> ra_operation r \<noteq> RInstall
       \<and> (ra_operation r = RUpgrade \<longrightarrow> is_strictly_newer_than (cp_evra c) (ip_evra p))
       \<and> (ra_operation r = RDowngrade \<longrightarrow> is_strictly_newer_than (ip_evra p) (cp_evra c))
       \<and> (ra_operation r = RReinstall \<longrightarrow> cp_evra c = ip_evra p)"
  using assms
  by (cases "ra_operation r"; cases inst)
    (auto simp: check_replacement_def bindR_eq_Inr ok_or_eq_Inr map_err_eq_Inr validate_replacement_def
      validate_upgrade_def validate_downgrade_def validate_reinstall_def candidate_upgrade_def
      candidate_downgrade_def candidate_reinstall_def split: if_splits)

lemma explain_install_safe:
  assumes "explain_install_or_upgrade b r inst rel = Inr e" "find_installed b r = Inr inst"
    "ra_operation r \<noteq> RRemove"
  shows "installed_matches b e \<and> artifact_safe b e \<and> removal_allowed b e \<and> replacement_direction e"
proof -
  from assms(1) obtain c checksum u v where c: "cp_name c = ra_name r"
    and vc: "validate_candidate b c inst (ra_installed_vendor r) (ra_requested r)
       (ra_requested r \<and> ra_requested_spec r \<noteq> None \<and> ra_requested_relation r) = Inr u"
    and cr: "check_replacement b r inst c = Inr v"
    and d: "hex_digest (cp_checksum_sha256 c) = Inr checksum"
    and e: "ea_operation e = resolved_operation_text (ra_operation r)" "ea_name e = ra_name r"
      "ea_target_evra e = cp_evra c" "ea_installed_evra e = map_option ip_evra inst"
      "ea_installed_instance e = map_option ip_db_instance inst"
      "ea_installed_header_sha256 e = map_option (\<lambda>p. as_str (ip_header p)) inst"
      "ea_artifact e = Some \<lparr>ar_checksum_sha256 = checksum, ar_location = cp_location c,
         ar_package_size = cp_package_size c\<rparr>"
    by (auto simp: explain_install_or_upgrade_def bindR_eq_Inr ok_or_eq_Inr split: if_splits)
  have art: "artifact_safe b e"
    using vc c hex_digest_ok [OF d] e by (auto simp: artifact_safe_def validate_candidate_def split: if_splits)
  have op: "ea_operation e \<noteq> ''remove''" using assms(3) e(1) by (cases "ra_operation r") auto
  note rep = check_replacement_ok [OF cr assms(3)]
  have "installed_matches b e \<and> replacement_direction e"
  proof (cases inst)
    case None
    then show ?thesis using rep e by (auto simp: installed_matches_def replacement_direction_def)
  next
    case (Some p)
    have "p \<in> set (ii_packages (pb_inventory b))" using find_installed_ok [OF assms(2) Some] .
    then show ?thesis using rep e Some
      by (cases "ra_operation r") (auto simp: installed_matches_def replacement_direction_def)
  qed
  then show ?thesis using art op by (auto simp: removal_allowed_def)
qed

lemma explain_safe:
  assumes "explain b r = Inr e"
  shows "installed_matches b e \<and> artifact_safe b e \<and> removal_allowed b e \<and> replacement_direction e"
  using assms explain_remove_safe explain_install_safe
  by (auto simp: explain_def bindR_eq_Inr split: if_splits)

lemma plan_new_ok:
  assumes "plan_new intent integrity expires actions = Inr q"
  shows "pe_intent q = intent \<and> plan_integrity_of q = integrity \<and> pe_expires_at_unix q = expires
    \<and> pe_actions q = sort_key action_key actions"
  using assms by (auto simp: plan_new_def bindR_eq_Inr canonical_actions_ok plan_integrity_of_def)

lemma build_stages:
  assumes "build_with_satisfied C b resolved satisfied = Inr p"
  obtains explained cores where "validate_inputs b resolved satisfied = Inr ()"
    "mapR (explain b) resolved = Inr explained" "execution_order resolved explained = Inr (csp_actions p)"
    "mapR core_action (csp_actions p) = Inr cores"
    "plan_new (pb_intent b) (pb_snapshots b) (pb_expires_at_unix b) cores = Inr (csp_proposal p)"
    "plan_validate_executable (csp_proposal p) (pb_policy b) 0 = Inr ()"
    "solver_plan_validate C p = Inr ()"
  using assms by (auto simp: build_with_satisfied_def bindR_eq_Inr map_err_eq_Inr Let_def)

lemma explained_names:
  assumes "mapR (explain b) resolved = Inr explained"
  shows "map ea_name explained = map ra_name resolved"
  using assms by (auto simp: mapR_eq_Inr list_eq_iff_nth_eq explain_name)

text \<open>JSON stand-ins for the concrete runs: a value is the list of actions it stands for.\<close>

definition example_encoding :: "package_action list plan_encoding" where
  "example_encoding =
     \<lparr>pc_proposal = \<lparr>from_slice = (\<lambda>_. Inl ''unused''), to_value = (\<lambda>q. Inr (pe_actions q)),
        to_vec = (\<lambda>v. Inr (concat (map pa_name v)))\<rparr>,
      pc_action = (\<lambda>a. Inr [a]), pc_text = (\<lambda>v. concat (map pa_name v)),
      pc_plan = \<lparr>from_slice = (\<lambda>_. Inl ''unused''), to_value = (\<lambda>p. Inr (pe_actions (csp_proposal p))),
        to_vec = (\<lambda>v. Inr (concat (map pa_name v)))\<rparr>\<rparr>"

lemma example_build_names:
  "map_sum id (\<lambda>p. map ea_name (csp_actions p)) (build example_encoding example_builder example_actions)
     = Inr [''vim-common'', ''vim'']"
  by code_simp

text \<open>Two pairs of packages that require each other; \<open>a\<close> also requires \<open>x\<close>, which does not require \<open>a\<close>.\<close>

definition cyclic_actions :: "resolved_action list" where
  "cyclic_actions = [example_resolved ''a'' (Some ''a'') [''b''], example_resolved ''b'' None [''a''],
     example_resolved ''x'' None [''y'', ''a''], example_resolved ''y'' None [''x'']]"

definition cyclic_builder :: plan_builder where
  "cyclic_builder = example_builder\<lparr>pb_intent := \<lparr>ti_schema_version = 1, ti_action = Install,
       ti_packages = [PackageSpec ''a'']\<rparr>,
     pb_candidates := map example_candidate [''a'', ''b'', ''x'', ''y'']\<rparr>"

lemma cyclic_build_names:
  "map_sum id (\<lambda>p. map ea_name (csp_actions p)) (build example_encoding cyclic_builder cyclic_actions)
     = Inr [''a'', ''b'', ''x'', ''y'']"
  by code_simp


lemma cyclic_edges:
  "ordering_edges cyclic_actions =
     {(''a'', ''b''), (''b'', ''a''), (''x'', ''y''), (''x'', ''a''), (''y'', ''x'')}"
  by (auto simp: ordering_edges_def item_constraints_def removing_def cyclic_actions_def example_resolved_def)

lemma trancl_stays: "(u, v) \<in> E\<^sup>+ \<Longrightarrow> u \<in> S \<Longrightarrow> E `` S \<subseteq> S \<Longrightarrow> v \<in> S"
  by (induction rule: trancl_induct) auto

lemma map_sum_InrD: "map_sum id f m = Inr y \<Longrightarrow> \<exists>x. m = Inr x \<and> f x = y"
  by (cases m) auto

text \<open>
  Property C4. What a built plan promises: its inputs passed the preflight checks; its explained
  actions are the explanations of the resolved actions, each exactly once; its proposal carries
  the intent and snapshots of the builder and exactly the package actions of the explained ones,
  and is executable under the policy; an installed package an action names is in the inventory
  with that header and version; artifacts have a lower-case SHA-256 and a safe relative location
  and are not excluded; upgrades go up, downgrades go down; and no protected, install-only or
  running-kernel package is removed.
\<close>

theorem built_plan_sound:
  assumes "build_with_satisfied C b resolved satisfied = Inr p"
  shows "validate_inputs b resolved satisfied = Inr ()
    \<and> mset (map Inr (csp_actions p)) = mset (map (explain b) resolved)
    \<and> mset (map Inr (pe_actions (csp_proposal p))) = mset (map core_action (csp_actions p))
    \<and> pe_intent (csp_proposal p) = pb_intent b \<and> plan_integrity_of (csp_proposal p) = pb_snapshots b
    \<and> plan_validate_executable (csp_proposal p) (pb_policy b) 0 = Inr ()
    \<and> (\<forall>e\<in>set (csp_actions p).
         installed_matches b e \<and> artifact_safe b e \<and> removal_allowed b e \<and> replacement_direction e)"
proof -
  from assms obtain explained cores where inputs: "validate_inputs b resolved satisfied = Inr ()"
    and ex: "mapR (explain b) resolved = Inr explained"
    and order: "execution_order resolved explained = Inr (csp_actions p)"
    and cores: "mapR core_action (csp_actions p) = Inr cores"
    and new: "plan_new (pb_intent b) (pb_snapshots b) (pb_expires_at_unix b) cores = Inr (csp_proposal p)"
    and exec: "plan_validate_executable (csp_proposal p) (pb_policy b) 0 = Inr ()"
    by (rule build_stages)
  have perm: "mset (csp_actions p) = mset explained"
    using execution_order_ok [OF linked_of_inputs [OF inputs] explained_names [OF ex]] order by auto
  have "mset (map Inr (csp_actions p)) = image_mset Inr (mset explained)" using perm by simp
  also have "\<dots> = mset (map (explain b) resolved)" using mapR_Inr_map [OF ex] by (metis mset_map)
  finally have 1: "mset (map Inr (csp_actions p)) = mset (map (explain b) resolved)" .
  have 2: "mset (map Inr (pe_actions (csp_proposal p))) = mset (map core_action (csp_actions p))"
    using plan_new_ok [OF new] mapR_Inr_map [OF cores] by (metis mset_map mset_sort)
  have "Inr e \<in> set (map (explain b) resolved)" if "e \<in> set (csp_actions p)" for e
    using that mset_eq_setD [OF 1] by auto
  then have "installed_matches b e \<and> artifact_safe b e \<and> removal_allowed b e \<and> replacement_direction e"
    if "e \<in> set (csp_actions p)" for e
    using that explain_safe by (metis (no_types, lifting) imageE list.set_map)
  then show ?thesis using inputs 1 2 plan_new_ok [OF new] exec by blast
qed

theorem built_plan_sound_witness:
  "\<exists>p. build example_encoding example_builder example_actions = Inr p
     \<and> (\<forall>e\<in>set (csp_actions p). artifact_safe example_builder e)"
proof -
  obtain p where p: "build example_encoding example_builder example_actions = Inr p"
    using map_sum_InrD [OF example_build_names] by blast
  then show ?thesis using built_plan_sound [OF p [unfolded build_def]] by blast
qed

text \<open>
  Property C30. Breaking a cycle does not preserve every acyclic constraint, as the comment in
  \<^verbatim>\<open>execution_order\<close> claims: with two cycles, the plan built for these actions lists \<^verbatim>\<open>a\<close> before its
  dependency \<^verbatim>\<open>x\<close>, although \<^verbatim>\<open>x\<close> must precede \<^verbatim>\<open>a\<close> and no chain of constraints leads from \<^verbatim>\<open>a\<close> back
  to \<^verbatim>\<open>x\<close>.
\<close>

theorem cycle_break_loses_acyclic_constraint:
  "\<exists>p. build example_encoding cyclic_builder cyclic_actions = Inr p
     \<and> map ea_name (csp_actions p) = [''a'', ''b'', ''x'', ''y'']
     \<and> (''x'', ''a'') \<in> ordering_edges cyclic_actions
     \<and> (''a'', ''x'') \<notin> (ordering_edges cyclic_actions)\<^sup>+"
proof -
  have "(''a'', ''x'') \<notin> (ordering_edges cyclic_actions)\<^sup>+"
    using trancl_stays [of "''a''" "''x''" "ordering_edges cyclic_actions" "{''a'', ''b''}"]
    by (auto simp: cyclic_edges)
  then show ?thesis
    using map_sum_InrD [OF cyclic_build_names] by (auto simp: cyclic_edges)
qed

end
