(* ===== verification/Solver_Native.thy ===== *)
theory Solver_Native
  imports Solver_Model
begin

text \<open>
  \<^verbatim>\<open>crates/dnfast-solver/src/native_adapter.rs\<close>: what the native solver returned, turned into
  resolved actions. \<open>pair_actions\<close> joins the old and the new side of each replacement,
  \<open>from_native_evidence\<close> checks every decision against the rpm-md evidence, and
  \<open>into_resolved_evidence\<close> binds the actions to candidates and installed packages.
\<close>

section \<open>Evidence\<close>

datatype package_evidence = CompletePackageE complete_package | CompactPackageE native_package_evidence

datatype relation_evidence = CompleteRelations "relation list" | CompactRelations "string list"

fun evidence_nevra :: "package_evidence \<Rightarrow> string" where
  "evidence_nevra (CompletePackageE p) = complete_nevra p"
| "evidence_nevra (CompactPackageE p) =
     nevra_text (ne_name p) (ne_epoch p) (ne_version p) (ne_release p) (ne_arch p)"

fun evidence_requires :: "package_evidence \<Rightarrow> relation_evidence" where
  "evidence_requires (CompletePackageE p) = CompleteRelations (mp_requires p)"
| "evidence_requires (CompactPackageE p) = CompactRelations (ne_requires p)"

fun evidence_recommends :: "package_evidence \<Rightarrow> relation_evidence" where
  "evidence_recommends (CompletePackageE p) = CompleteRelations (mp_recommends p)"
| "evidence_recommends (CompactPackageE p) = CompactRelations (ne_recommends p)"

fun evidence_supplements :: "package_evidence \<Rightarrow> relation_evidence" where
  "evidence_supplements (CompletePackageE p) = CompleteRelations (mp_supplements p)"
| "evidence_supplements (CompactPackageE p) = CompactRelations (ne_supplements p)"

fun evidence_enhances :: "package_evidence \<Rightarrow> relation_evidence" where
  "evidence_enhances (CompletePackageE p) = CompleteRelations (mp_enhances p)"
| "evidence_enhances (CompactPackageE p) = CompactRelations (ne_enhances p)"

type_synonym metadata_evidence = "(string \<times> package_evidence) list"

text \<open>The two-level \<^verbatim>\<open>HashMap\<close> index: of packages with one repository and NEVRA, the last.\<close>

definition evidence_lookup :: "metadata_evidence \<Rightarrow> string \<Rightarrow> string \<Rightarrow> package_evidence option" where
  "evidence_lookup metadata repository nevra =
     map_of (rev (map (\<lambda>(r, p). ((r, evidence_nevra p), p)) metadata)) (repository, nevra)"

section \<open>Relations\<close>

definition relation_text :: "relation \<Rightarrow> string" where
  "relation_text item =
     (case rel_flags item of
        None \<Rightarrow> rel_name item
      | Some flags \<Rightarrow>
          (let epoch = (case rel_epoch item of
                 None \<Rightarrow> [] | Some value \<Rightarrow> if value \<noteq> ''0'' then value @ '':'' else []);
               release = (case rel_release item of None \<Rightarrow> [] | Some value \<Rightarrow> ''-'' @ value);
               version = (case rel_version item of None \<Rightarrow> [] | Some value \<Rightarrow> value)
           in rel_name item @ '' '' @ operator_text flags @ '' '' @ epoch @ version @ release))"

definition compact_operators :: "(string \<times> relation_flags) list" where
  "compact_operators = [('' <= '', LessEqualF), ('' >= '', GreaterEqualF), ('' = '', EqualF),
     ('' < '', LessF), ('' > '', GreaterF)]"

fun split_operator ::
  "(string \<times> relation_flags) list \<Rightarrow> string \<Rightarrow> (string \<times> string \<times> relation_flags) option" where
  "split_operator [] value = None"
| "split_operator ((separator, flags) # ops) value =
     (case split_once separator value of
        Some (name, evr) \<Rightarrow> Some (name, evr, flags)
      | None \<Rightarrow> split_operator ops value)"

definition parse_compact_relation :: "string \<Rightarrow> (plan_error, relation) result" where
  "parse_compact_relation value =
     (case split_operator compact_operators value of
        None \<Rightarrow>
          if value = [] then Inl (Invalid ''empty compact rpm-md relation'')
          else Inr \<lparr>rel_name = value, rel_flags = None, rel_epoch = None, rel_version = None,
                    rel_release = None, rel_pre = False\<rparr>
      | Some (name, evr, flags) \<Rightarrow>
          if name = [] then Inl (Invalid ''empty compact rpm-md relation name'')
          else
            let (epoch, version_release) = (case split_once '':'' evr of
                  None \<Rightarrow> (None, evr) | Some (epoch, rest) \<Rightarrow> (Some epoch, rest));
                (version, release) = (case rsplit_once (CHR ''-'') version_release of
                  None \<Rightarrow> (version_release, None) | Some (version, release) \<Rightarrow> (version, Some release))
            in Inr \<lparr>rel_name = name, rel_flags = Some flags, rel_epoch = epoch,
                    rel_version = Some version, rel_release = release, rel_pre = False\<rparr>)"

text \<open>The loop of \<^verbatim>\<open>matching_relation\<close> over the items with the text: a second one is an error.\<close>

fun unique_match ::
  "('a \<Rightarrow> (plan_error, relation) result) \<Rightarrow> relation option \<Rightarrow> 'a list \<Rightarrow> (plan_error, relation option) result"
  where
  "unique_match read found [] = Inr found"
| "unique_match read found (x # xs) =
     bindR (read x) (\<lambda>r. if found \<noteq> None then Inl (Invalid ''native relation is ambiguous in rpm-md'')
       else unique_match read (Some r) xs)"

fun matching_relation :: "relation_evidence \<Rightarrow> string \<Rightarrow> (plan_error, relation option) result" where
  "matching_relation (CompleteRelations items) text =
     unique_match Inr None (filter (\<lambda>item. relation_text item = text) items)"
| "matching_relation (CompactRelations items) text =
     unique_match parse_compact_relation None (filter (\<lambda>item. item = text) items)"

definition decision_requirement ::
  "package_evidence \<Rightarrow> package_evidence option \<Rightarrow> bool \<Rightarrow> string \<Rightarrow> (plan_error, relation) result" where
  "decision_requirement requiring provider weak text =
     bindR (matching_relation (if weak then evidence_recommends requiring else evidence_requires requiring) text)
       (\<lambda>direct. case direct of Some found \<Rightarrow> Inr found
        | None \<Rightarrow>
            (case (weak, provider) of
               (True, Some p) \<Rightarrow>
                 bindR (matching_relation (evidence_supplements p) text) (\<lambda>supplement.
                 bindR (matching_relation (evidence_enhances p) text) (\<lambda>enhance.
                   case (supplement, enhance) of
                     (Some found, None) \<Rightarrow> Inr found
                   | (None, Some found) \<Rightarrow> Inr found
                   | (Some _, Some _) \<Rightarrow> Inl (Invalid ''native reverse relation is ambiguous in rpm-md'')
                   | (None, None) \<Rightarrow> Inl (Invalid ''native relation absent from rpm-md'')))
             | _ \<Rightarrow> Inl (Invalid ''native relation absent from rpm-md'')))"

section \<open>NEVRA texts\<close>

definition full_nevra :: "candidate_package \<Rightarrow> string" where
  "full_nevra c = nevra_text (cp_name c) (show_nat (unat (ev_epoch (cp_evra c)))) (ev_version (cp_evra c))
     (ev_release (cp_evra c)) (as_rpm_arch (ev_arch (cp_evra c)))"

definition installed_nevra :: "installed_package \<Rightarrow> string" where
  "installed_nevra p = nevra_text (ip_name p) (show_nat (unat (ev_epoch (ip_evra p)))) (ev_version (ip_evra p))
     (ev_release (ip_evra p)) (as_rpm_arch (ev_arch (ip_evra p)))"

definition nevra_name :: "string \<Rightarrow> (plan_error, string) result" where
  "nevra_name value = ok_or (Invalid ''invalid native full NEVRA'')
     (case rsplit_once (CHR ''-'') value of None \<Rightarrow> None
      | Some (left, _) \<Rightarrow> map_option fst (rsplit_once (CHR ''-'') left))"

definition unique_installed :: "string \<Rightarrow> installed_inventory \<Rightarrow> (plan_error, installed_package) result" where
  "unique_installed nevra inventory =
     (case filter (\<lambda>p. installed_nevra p = nevra) (ii_packages inventory) of
        [] \<Rightarrow> Inl (InstalledMissing nevra)
      | [p] \<Rightarrow> Inr p
      | _ \<Rightarrow> Inl (AmbiguousInstalled nevra))"

section \<open>Native actions\<close>

record native_action =
  na_kind :: string
  na_repository :: string
  na_nevra :: string
  na_old_nevra :: "string option"
  na_installed_instance :: "u64 option"
  na_installed_header_sha256 :: "string option"
  na_requested_spec :: "package_spec option"
  na_requested_relation :: bool
  na_provenance :: "resolved_provenance option"
  na_counterpart :: "string option"

record native_decision =
  nd_requiring_nevra :: string
  nd_requiring_repo :: string
  nd_requirement :: relation
  nd_kind :: dependency_kind
  nd_provider_nevra :: string
  nd_provider_repo :: string
  nd_provider_installed :: bool

record native_solve_output =
  no_source_transcript_sha256 :: string
  no_actions :: "native_action list"
  no_decisions :: "native_decision list"
  no_satisfied_specs :: "package_spec list"

text \<open>The result of the native solver, column by column (\<^verbatim>\<open>dnfast-native\<close>).\<close>

record solve_decision =
  sd_requiring :: string
  sd_provider :: string
  sd_relation :: string
  sd_weak :: bool
  sd_provider_installed :: bool

record solve_result =
  sr_actions :: "string list"
  sr_repositories :: "string list"
  sr_kinds :: "string list"
  sr_obsoletes :: "string option list"
  sr_requested_specs :: "string option list"
  sr_requested_relation_kinds :: "bool list"
  sr_satisfied_specs :: "string list"
  sr_problems :: "string list"
  sr_decisions :: "solve_decision list"

subsection \<open>Pairing the two sides of a replacement\<close>

definition bind_system ::
  "installed_inventory \<Rightarrow> native_action \<Rightarrow> (plan_error, native_action) result" where
  "bind_system inventory a =
     (if na_repository a = ''@System'' then
        bindR (unique_installed (na_nevra a) inventory) (\<lambda>p.
          Inr (a\<lparr>na_old_nevra := Some (na_nevra a), na_installed_instance := Some (ip_db_instance p),
                 na_installed_header_sha256 := Some (as_str (ip_header p))\<rparr>))
      else Inr a)"

definition old_kind_of :: "string \<Rightarrow> string option" where
  "old_kind_of kind = map_of [(''upgrade'', ''upgraded''), (''downgrade'', ''downgraded''),
     (''reinstall'', ''reinstalled''), (''change'', ''changed''), (''obsoletes'', ''obsoleted'')] kind"

definition replacement_kinds :: "string list" where
  "replacement_kinds = [''upgraded'', ''downgraded'', ''reinstalled'', ''changed'']"

definition parent_text :: "native_action \<Rightarrow> string" where
  "parent_text a = na_repository a @ '':'' @ na_nevra a"

definition old_sides :: "native_action list \<Rightarrow> native_action \<Rightarrow> string \<Rightarrow> string \<Rightarrow> nat list" where
  "old_sides raw new old_kind name =
     filter (\<lambda>i. let item = raw ! i in
        na_kind item = old_kind \<and> na_repository item = ''@System''
        \<and> (na_counterpart item = Some (na_nevra new) \<or> na_counterpart new = Some (na_nevra item))
        \<and> (old_kind = ''obsoleted'' \<or> nevra_name (na_nevra item) = Inr name))
       [0..<length raw]"

definition mark_obsoleted :: "string \<Rightarrow> native_action \<Rightarrow> native_action" where
  "mark_obsoleted parent a = a\<lparr>na_kind := ''erase'', na_provenance := Some (ObsoletedByAction parent)\<rparr>"

definition adopt_old :: "native_action \<Rightarrow> native_action \<Rightarrow> native_action" where
  "adopt_old old a = a\<lparr>na_old_nevra := Some (na_nevra old),
     na_installed_instance := na_installed_instance old,
     na_installed_header_sha256 := na_installed_header_sha256 old\<rparr>"

fun pair_old ::
  "nat \<Rightarrow> string \<Rightarrow> string \<Rightarrow> nat list \<Rightarrow> native_action list \<times> nat set
     \<Rightarrow> (plan_error, native_action list \<times> nat set) result" where
  "pair_old index old_kind parent [] (raw, paired) = Inr (raw, paired)"
| "pair_old index old_kind parent (i # is) (raw, paired) =
     (if i \<in> paired then Inl (AmbiguousInstalled (na_nevra (raw ! i)))
      else pair_old index old_kind parent is
        (if old_kind = ''obsoleted'' then raw[i := mark_obsoleted parent (raw ! i)]
         else raw[index := adopt_old (raw ! i) (raw ! index)], insert i paired))"

definition pair_index ::
  "nat \<Rightarrow> native_action list \<times> nat set \<Rightarrow> (plan_error, native_action list \<times> nat set) result" where
  "pair_index index st =
     (case st of (raw, paired) \<Rightarrow>
       let new = raw ! index in
       case old_kind_of (na_kind new) of None \<Rightarrow> Inr (raw, paired)
       | Some old_kind \<Rightarrow>
           bindR (nevra_name (na_nevra new)) (\<lambda>name.
             let matches = old_sides raw new old_kind name in
             if matches = [] then Inl (InstalledMissing name)
             else if old_kind \<in> set replacement_kinds \<and> length matches \<noteq> 1
             then Inl (AmbiguousInstalled name)
             else pair_old index old_kind (parent_text new) matches (raw, paired)))"

definition active_kinds :: "string list" where
  "active_kinds = [''install'', ''upgrade'', ''downgrade'', ''reinstall'', ''change'', ''obsoletes'']"

definition active_sides :: "native_action list \<Rightarrow> string \<Rightarrow> nat list" where
  "active_sides raw counterpart =
     filter (\<lambda>i. na_repository (raw ! i) \<noteq> ''@System'' \<and> na_nevra (raw ! i) = counterpart
        \<and> na_kind (raw ! i) \<in> set active_kinds) [0..<length raw]"

definition pair_leftover ::
  "nat \<Rightarrow> native_action list \<times> nat set \<Rightarrow> (plan_error, native_action list \<times> nat set) result" where
  "pair_leftover old st =
     (case st of (raw, paired) \<Rightarrow>
       if na_kind (raw ! old) \<noteq> ''obsoleted'' \<or> old \<in> paired then Inr (raw, paired)
       else bindR (ok_or (UnpairedNativeOld (na_nevra (raw ! old))) (na_counterpart (raw ! old))) (\<lambda>counterpart.
         let matches = active_sides raw counterpart
         in case matches of
              [active] \<Rightarrow> Inr (raw[old := mark_obsoleted (parent_text (raw ! active)) (raw ! old)], insert old paired)
            | _ \<Rightarrow> Inl (UnpairedNativeOld (''identity='' @ na_nevra (raw ! old) @ '' counterpart='' @ counterpart
                     @ '' active_matches='' @ show_nat (length matches)))))"

definition unpaired_error :: "native_action \<Rightarrow> plan_error" where
  "unpaired_error a = UnpairedNativeOld (''kind='' @ na_kind a @ '' identity='' @ na_nevra a @ '' counterpart=''
     @ (case na_counterpart a of None \<Rightarrow> ''none'' | Some c \<Rightarrow> c))"

definition pair_actions ::
  "native_action list \<Rightarrow> installed_inventory \<Rightarrow> (plan_error, native_action list) result" where
  "pair_actions raw0 inventory =
     bindR (mapR (bind_system inventory) raw0) (\<lambda>raw1.
     bindR (foldR pair_index [0..<length raw1] (raw1, {})) (\<lambda>st2.
     bindR (foldR pair_leftover [0..<length raw1] st2) (\<lambda>(raw, paired).
       case find (\<lambda>i. na_kind (raw ! i) \<in> set (''obsoleted'' # replacement_kinds) \<and> i \<notin> paired)
              [0..<length raw] of
         Some i \<Rightarrow> Inl (unpaired_error (raw ! i))
       | None \<Rightarrow> Inr (filter (\<lambda>a. na_kind a \<notin> set replacement_kinds) raw))))"

section \<open>From the native result\<close>

fun native_identities ::
  "(string, string) btree_map \<Rightarrow> (string \<times> string) list \<Rightarrow> (plan_error, (string, string) btree_map) result" where
  "native_identities m [] = Inr m"
| "native_identities m ((nevra, repo) # rest) =
     (if repo = ''@System'' then native_identities m rest
      else if map_of m nevra \<noteq> None then Inl (DuplicateAction nevra)
      else native_identities (bt_insert nevra repo m) rest)"

definition parse_selector :: "string \<Rightarrow> string \<Rightarrow> (plan_error, package_spec) result" where
  "parse_selector message value = map_err (\<lambda>_. Invalid message) (spec_parse value)"

definition native_raw ::
  "(((((string \<times> string) \<times> string) \<times> string option) \<times> string option) \<times> bool)
     \<Rightarrow> (plan_error, native_action) result" where
  "native_raw row =
     (case row of (((((nevra, repository), kind), counterpart), spec), requested_relation) \<Rightarrow>
       bindR (case spec of None \<Rightarrow> Inr None
              | Some s \<Rightarrow> bindR (parse_selector ''native requested selector is invalid'' s) (\<lambda>v. Inr (Some v)))
         (\<lambda>parsed. Inr \<lparr>na_kind = kind, na_repository = repository, na_nevra = nevra, na_old_nevra = None,
            na_installed_instance = None, na_installed_header_sha256 = None,
            na_requested_spec = parsed, na_requested_relation = requested_relation,
            na_provenance = None, na_counterpart = counterpart\<rparr>))"

definition native_decision_of ::
  "metadata_evidence \<Rightarrow> (string, string) btree_map \<Rightarrow> solve_decision \<Rightarrow> (plan_error, native_decision) result" where
  "native_decision_of metadata identities d =
     bindR (ok_or (MissingParent (sd_requiring d)) (map_of identities (sd_requiring d))) (\<lambda>requiring_repo.
     bindR (if sd_provider_installed d then Inr ''@System''
            else ok_or (Unresolved (sd_provider d)) (map_of identities (sd_provider d))) (\<lambda>provider_repo.
     bindR (ok_or (Invalid ''native requiring identity absent from rpm-md'')
              (evidence_lookup metadata requiring_repo (sd_requiring d))) (\<lambda>package.
     bindR (if sd_provider_installed d then Inr None
            else bindR (ok_or (Invalid ''native provider identity absent from rpm-md'')
                   (evidence_lookup metadata provider_repo (sd_provider d))) (\<lambda>p. Inr (Some p))) (\<lambda>provider.
     bindR (decision_requirement package provider (sd_weak d) (sd_relation d)) (\<lambda>requirement.
       Inr \<lparr>nd_requiring_nevra = sd_requiring d, nd_requiring_repo = requiring_repo,
            nd_requirement = requirement, nd_kind = (if sd_weak d then Weak else Strong),
            nd_provider_nevra = sd_provider d, nd_provider_repo = provider_repo,
            nd_provider_installed = sd_provider_installed d\<rparr>)))))"

definition columns_differ :: "solve_result \<Rightarrow> bool" where
  "columns_differ r \<longleftrightarrow> length (sr_actions r) \<noteq> length (sr_repositories r)
     \<or> length (sr_actions r) \<noteq> length (sr_kinds r) \<or> length (sr_actions r) \<noteq> length (sr_obsoletes r)
     \<or> length (sr_actions r) \<noteq> length (sr_requested_specs r)
     \<or> length (sr_actions r) \<noteq> length (sr_requested_relation_kinds r)"

definition from_native_evidence ::
  "solve_result \<Rightarrow> string \<Rightarrow> metadata_evidence \<Rightarrow> installed_inventory \<Rightarrow> (plan_error, native_solve_output) result"
  where
  "from_native_evidence r transcript metadata inventory =
     (if columns_differ r then Inl (Invalid ''native action columns differ'')
      else bindR (native_identities [] (zip (sr_actions r) (sr_repositories r))) (\<lambda>identities.
           bindR (mapR native_raw (zip (zip (zip (zip (zip (sr_actions r) (sr_repositories r)) (sr_kinds r))
                    (sr_obsoletes r)) (sr_requested_specs r)) (sr_requested_relation_kinds r))) (\<lambda>raw.
           bindR (pair_actions raw inventory) (\<lambda>actions.
           bindR (mapR (native_decision_of metadata identities) (sr_decisions r)) (\<lambda>decisions.
           bindR (mapR (parse_selector ''native satisfied selector is invalid'') (sr_satisfied_specs r))
             (\<lambda>satisfied. Inr \<lparr>no_source_transcript_sha256 = transcript, no_actions = actions,
                no_decisions = decisions, no_satisfied_specs = satisfied\<rparr>))))))"

definition from_native ::
  "solve_result \<Rightarrow> string \<Rightarrow> (string \<times> complete_package) list \<Rightarrow> installed_inventory
     \<Rightarrow> (plan_error, native_solve_output) result" where
  "from_native r transcript metadata inventory =
     from_native_evidence r transcript (map (\<lambda>(repo, p). (repo, CompletePackageE p)) metadata) inventory"

definition from_native_compact ::
  "solve_result \<Rightarrow> string \<Rightarrow> (string \<times> native_package_evidence) list \<Rightarrow> installed_inventory
     \<Rightarrow> (plan_error, native_solve_output) result" where
  "from_native_compact r transcript metadata inventory =
     from_native_evidence r transcript (map (\<lambda>(repo, p). (repo, CompactPackageE p)) metadata) inventory"

section \<open>To resolved actions\<close>

type_synonym identity_tuple =
  "resolved_operation \<times> string \<times> u64 option \<times> string option \<times> string option"

definition exact_installed ::
  "native_action \<Rightarrow> installed_inventory \<Rightarrow> (plan_error, installed_package) result" where
  "exact_installed a inventory =
     (let nevra = (case na_old_nevra a of Some n \<Rightarrow> n | None \<Rightarrow> na_nevra a) in
      bindR (ok_or (Invalid ''native old action missing instance'') (na_installed_instance a)) (\<lambda>inst_id.
      bindR (ok_or (Invalid ''native old action missing header'') (na_installed_header_sha256 a)) (\<lambda>header.
      bindR (map_err (\<lambda>_. InstalledMissing nevra) (erase_target inventory inst_id header)) (\<lambda>p.
        if installed_nevra p = nevra then Inr p else Inl (InstalledMissing nevra)))))"

definition old_identity ::
  "resolved_operation \<Rightarrow> string \<Rightarrow> installed_package \<Rightarrow> identity_tuple" where
  "old_identity operation name old =
     (operation, name, Some (ip_db_instance old), Some (as_str (ip_header old)), Some (ip_vendor old))"

definition replacement_identity ::
  "resolved_operation \<Rightarrow> string \<Rightarrow> native_action \<Rightarrow> candidate_package option \<Rightarrow> installed_inventory
     \<Rightarrow> (plan_error, identity_tuple) result" where
  "replacement_identity operation message a cand inventory =
     bindR (ok_or (Invalid message) cand) (\<lambda>c.
     bindR (exact_installed a inventory) (\<lambda>old. Inr (old_identity operation (cp_name c) old)))"

definition native_identity ::
  "native_action \<Rightarrow> candidate_package option \<Rightarrow> installed_inventory \<Rightarrow> (plan_error, identity_tuple) result" where
  "native_identity a cand inventory =
     (if na_kind a = ''install'' \<or> na_kind a = ''obsoletes'' then
        bindR (ok_or (Invalid ''native install missing exact candidate'') cand) (\<lambda>c.
          Inr (RInstall, cp_name c, None, None, None))
      else if na_kind a = ''upgrade'' then
        replacement_identity RUpgrade ''native upgrade missing exact candidate'' a cand inventory
      else if na_kind a = ''downgrade'' then
        replacement_identity RDowngrade ''native downgrade missing exact candidate'' a cand inventory
      else if na_kind a = ''reinstall'' \<or> na_kind a = ''change'' then
        replacement_identity RReinstall ''native reinstall missing exact candidate'' a cand inventory
      else if na_kind a = ''erase'' \<or> na_kind a = ''obsoleted'' then
        bindR (exact_installed a inventory) (\<lambda>old. Inr (old_identity RRemove (ip_name old) old))
      else Inl (ConflictingAction (na_nevra a)))"

fun assign_specs :: "string set \<Rightarrow> string set \<Rightarrow> native_action list \<Rightarrow> (plan_error, string set) result" where
  "assign_specs expected assigned [] = Inr assigned"
| "assign_specs expected assigned (a # as) =
     (if na_requested_relation a \<and> na_requested_spec a = None
      then Inl (Invalid ''native relation selector is missing'')
      else case na_requested_spec a of
          None \<Rightarrow> assign_specs expected assigned as
        | Some spec \<Rightarrow>
            if spec_str spec \<notin> expected then Inl (Invalid ''native selector is not in requested intent'')
            else if spec_str spec \<in> assigned then Inl (Invalid ''native selector provenance is duplicated'')
            else assign_specs expected (insert (spec_str spec) assigned) as)"

fun satisfy_specs ::
  "string set \<Rightarrow> string set \<Rightarrow> string set \<Rightarrow> package_spec list \<Rightarrow> (plan_error, string set) result" where
  "satisfy_specs expected assigned satisfied [] = Inr satisfied"
| "satisfy_specs expected assigned satisfied (spec # specs) =
     (if spec_str spec \<notin> expected then Inl (Invalid ''native satisfied selector is not in requested intent'')
      else if spec_str spec \<in> assigned \<or> spec_str spec \<in> satisfied
      then Inl (Invalid ''native selector provenance is duplicated'')
      else satisfy_specs expected assigned (insert (spec_str spec) satisfied) specs)"

definition validate_decision ::
  "(string \<times> string) set \<Rightarrow> metadata_evidence \<Rightarrow> installed_inventory \<Rightarrow> native_decision
     \<Rightarrow> (plan_error, unit) result" where
  "validate_decision actions metadata inventory d =
     (if (nd_requiring_nevra d, nd_requiring_repo d) \<notin> actions then Inl (MissingParent (nd_requiring_nevra d))
      else if \<not> nd_provider_installed d \<and> (nd_provider_nevra d, nd_provider_repo d) \<notin> actions
      then Inl (Unresolved (nd_requiring_nevra d))
      else bindR (if nd_provider_installed d then
                    if nd_provider_repo d \<noteq> ''@System'' then Inl (Invalid ''installed provider repository differs'')
                    else bindR (unique_installed (nd_provider_nevra d) inventory) (\<lambda>_. Inr ())
                  else if nd_provider_repo d = ''@System'' then Inl (Invalid ''action provider marked as system'')
                  else Inr ()) (\<lambda>_.
           bindR (ok_or (Invalid ''native requiring identity absent from rpm-md'')
                    (evidence_lookup metadata (nd_requiring_repo d) (nd_requiring_nevra d))) (\<lambda>requiring.
           bindR (if nd_provider_installed d then Inr None
                  else bindR (ok_or (Invalid ''native provider identity absent from rpm-md'')
                         (evidence_lookup metadata (nd_provider_repo d) (nd_provider_nevra d))) (\<lambda>p. Inr (Some p)))
             (\<lambda>provider.
           bindR (decision_requirement requiring provider (nd_kind d = Weak) (relation_text (nd_requirement d)))
             (\<lambda>requirement. if requirement \<noteq> nd_requirement d
                then Inl (Invalid ''native decision relation differs from rpm-md'') else Inr ())))))"

definition native_edges :: "native_decision list \<Rightarrow> native_action \<Rightarrow> (plan_error, dependency_edge list) result" where
  "native_edges decisions a =
     mapR (\<lambda>d. bindR (nevra_name (nd_requiring_nevra d)) (\<lambda>parent.
             Inr \<lparr>de_parent = parent, de_kind = nd_kind d\<rparr>))
       (filter (\<lambda>d. \<not> nd_provider_installed d \<and> nd_provider_nevra d = na_nevra a
          \<and> nd_provider_repo d = na_repository a
          \<and> (nd_requiring_nevra d \<noteq> nd_provider_nevra d \<or> nd_requiring_repo d \<noteq> nd_provider_repo d)) decisions)"

definition candidate_lookup :: "candidate_package list \<Rightarrow> native_action \<Rightarrow> candidate_package option" where
  "candidate_lookup candidates a =
     map_of (rev (map (\<lambda>c. ((cp_repo_id c, full_nevra c), c)) candidates)) (na_repository a, na_nevra a)"

definition resolve_native ::
  "string set \<Rightarrow> candidate_package list \<Rightarrow> native_decision list \<Rightarrow> installed_inventory \<Rightarrow> native_action
     \<Rightarrow> (plan_error, resolved_action) result" where
  "resolve_native expected candidates decisions inventory a =
     (let cand = candidate_lookup candidates a in
      bindR (native_identity a cand inventory) (\<lambda>(operation, name, inst_id, header, vendor).
      bindR (native_edges decisions a) (\<lambda>edges.
        Inr \<lparr>ra_operation = operation, ra_name = name,
             ra_requested = (na_requested_spec a \<noteq> None
               \<or> (expected = {} \<and> operation \<in> {RUpgrade, RDowngrade, RReinstall})),
             ra_requested_spec = na_requested_spec a, ra_requested_relation = na_requested_relation a,
             ra_candidate = cand, ra_installed_instance = inst_id, ra_installed_header_sha256 = header,
             ra_installed_vendor = vendor, ra_dependency_edges = edges, ra_provenance = na_provenance a,
             ra_required_by_remaining = [], ra_unresolved_dependencies = [],
             ra_introduced_by_requested = False, ra_solver_rule = ''libsolv typed causal decision''\<rparr>)))"

definition into_resolved_evidence ::
  "native_solve_output \<Rightarrow> string list \<Rightarrow> candidate_package list \<Rightarrow> metadata_evidence \<Rightarrow> installed_inventory
     \<Rightarrow> (plan_error, resolved_action list) result" where
  "into_resolved_evidence output requested candidates metadata inventory =
     (if length (no_source_transcript_sha256 output) \<noteq> 64
        \<or> \<not> list_all is_ascii_hexdigit (no_source_transcript_sha256 output)
      then Inl (Invalid ''invalid native transcript digest'')
      else bindR (mapR (parse_selector ''requested selector is invalid'') requested) (\<lambda>specs.
        let expected = set (map spec_str specs);
            action_ids = set (map (\<lambda>a. (na_nevra a, na_repository a)) (no_actions output)) in
        if card expected \<noteq> length requested then Inl (Invalid ''requested selector is duplicated'')
        else if card action_ids \<noteq> length (no_actions output) then Inl (DuplicateAction ''native identity'')
        else bindR (assign_specs expected {} (no_actions output)) (\<lambda>assigned.
             bindR (satisfy_specs expected assigned {} (no_satisfied_specs output)) (\<lambda>satisfied.
             if card assigned + card satisfied \<noteq> card expected
             then Inl (Invalid ''native selector provenance is missing'')
             else bindR (forR (validate_decision action_ids metadata inventory) (no_decisions output)) (\<lambda>_.
               mapR (resolve_native expected candidates (no_decisions output) inventory) (no_actions output))))))"

definition into_resolved ::
  "native_solve_output \<Rightarrow> string list \<Rightarrow> candidate_package list \<Rightarrow> (string \<times> complete_package) list
     \<Rightarrow> installed_inventory \<Rightarrow> (plan_error, resolved_action list) result" where
  "into_resolved output requested candidates metadata inventory =
     into_resolved_evidence output requested candidates
       (map (\<lambda>(repo, p). (repo, CompletePackageE p)) metadata) inventory"

definition into_resolved_compact ::
  "native_solve_output \<Rightarrow> string list \<Rightarrow> candidate_package list \<Rightarrow> (string \<times> native_package_evidence) list
     \<Rightarrow> installed_inventory \<Rightarrow> (plan_error, resolved_action list) result" where
  "into_resolved_compact output requested candidates metadata inventory =
     into_resolved_evidence output requested candidates
       (map (\<lambda>(repo, p). (repo, CompactPackageE p)) metadata) inventory"

section \<open>Relations and their text\<close>

lemma relation_text_compact: "compact_relation r = relation_text r"
  by (simp add: compact_relation_def relation_text_def)

lemma split_operator_SomeD:
  "split_operator ops txt_v = Some (name, evr, flags) \<Longrightarrow> \<exists>sep. (sep, flags) \<in> set ops \<and> txt_v = name @ sep @ evr"
  by (induction ops txt_v rule: split_operator.induct) (auto dest: split_once_SomeD split: option.splits)

lemma compact_operators_text:
  "(sep, flags) \<in> set compact_operators \<longleftrightarrow> sep = '' '' @ operator_text flags @ '' ''"
  by (cases flags) (auto simp: compact_operators_def)

lemma parse_compact_relation_text:
  assumes "parse_compact_relation txt_v = Inr r" "rel_epoch r \<noteq> Some ''0''"
  shows "relation_text r = txt_v"
proof (cases "split_operator compact_operators txt_v")
  case None
  then show ?thesis using assms(1) by (auto simp: parse_compact_relation_def relation_text_def split: if_splits)
next
  case (Some w)
  then obtain name evr flags where s: "split_operator compact_operators txt_v = Some (name, evr, flags)"
    by (cases w) auto
  then have txt_v: "txt_v = name @ '' '' @ operator_text flags @ '' '' @ evr"
    using split_operator_SomeD [OF s] by (auto simp: compact_operators_text)
  show ?thesis
    using assms s txt_v
    by (auto simp: parse_compact_relation_def relation_text_def Let_def
        dest!: split_once_char_SomeD rsplit_once_SomeD split: if_splits option.splits prod.splits)
qed

lemma unique_match_ok:
  "unique_match read found xs = Inr (Some r) \<Longrightarrow> found = Some r \<and> xs = [] \<or> found = None \<and> (\<exists>x. xs = [x] \<and> read x = Inr r)"
  by (induction read found xs rule: unique_match.induct)
    (auto simp: bindR_eq_Inr split: if_splits)

fun relation_exact :: "relation_evidence \<Rightarrow> relation \<Rightarrow> bool" where
  "relation_exact (CompleteRelations _) r = True"
| "relation_exact (CompactRelations _) r = (rel_epoch r \<noteq> Some ''0'')"

lemma matching_relation_text:
  assumes "matching_relation ev text = Inr (Some r)" "relation_exact ev r"
  shows "relation_text r = text"
proof (cases ev)
  case (CompleteRelations items)
  then obtain x where "filter (\<lambda>item. relation_text item = text) items = [x]" "r = x"
    using assms(1) unique_match_ok by fastforce
  then show ?thesis by (metis (mono_tags) filter_eq_ConsD)
next
  case (CompactRelations items)
  then obtain x where x: "filter (\<lambda>item. item = text) items = [x]" "parse_compact_relation x = Inr r"
    using assms(1) unique_match_ok by fastforce
  have "x = text" using x(1) by (metis (mono_tags) filter_eq_ConsD)
  then show ?thesis using parse_compact_relation_text x(2) assms(2) CompactRelations by simp
qed

lemma decision_requirement_text:
  assumes "decision_requirement requiring provider weak text = Inr r" "rel_epoch r \<noteq> Some ''0''"
  shows "relation_text r = text"
proof -
  have ex: "relation_exact ev r" for ev using assms(2) by (cases ev) auto
  from assms(1) obtain ev where "matching_relation ev text = Inr (Some r)"
    by (auto simp: decision_requirement_def bindR_eq_Inr split: option.splits bool.splits if_splits)
  then show ?thesis using matching_relation_text ex by blast
qed

section \<open>What pairing guarantees\<close>

text \<open>An action bound to an installed package.\<close>

definition bound_to :: "native_action \<Rightarrow> installed_package \<Rightarrow> bool" where
  "bound_to a p \<longleftrightarrow> na_old_nevra a = Some (installed_nevra p)
     \<and> na_installed_instance a = Some (ip_db_instance p)
     \<and> na_installed_header_sha256 a = Some (as_str (ip_header p))"

definition bound_in :: "installed_inventory \<Rightarrow> native_action \<Rightarrow> bool" where
  "bound_in inventory a \<longleftrightarrow> (\<exists>p\<in>set (ii_packages inventory). bound_to a p)"

lemma unique_installed_ok:
  "unique_installed nevra inventory = Inr p \<Longrightarrow> p \<in> set (ii_packages inventory) \<and> installed_nevra p = nevra"
  by (auto simp: unique_installed_def filter_eq_Cons_iff split: list.splits)

lemma exact_installed_bound:
  assumes wf: "inventory_wf inventory" and p: "p \<in> set (ii_packages inventory)" and b: "bound_to a p"
  shows "exact_installed a inventory = Inr p"
  using erase_target_present [OF wf p refl] b by (simp add: exact_installed_def bound_to_def)

definition slot_ok ::
  "installed_inventory \<Rightarrow> native_action list \<Rightarrow> native_action \<Rightarrow> native_action \<Rightarrow> bool \<Rightarrow> bool" where
  "slot_ok inventory raw1 a1 a is_paired \<longleftrightarrow>
     na_nevra a = na_nevra a1 \<and> na_repository a = na_repository a1
     \<and> (na_kind a = na_kind a1 \<and> na_provenance a = None \<and> (is_paired \<longrightarrow> na_kind a \<noteq> ''obsoleted'')
        \<or> na_kind a1 = ''obsoleted'' \<and> na_kind a = ''erase''
          \<and> (\<exists>b\<in>set raw1. na_kind b \<in> set active_kinds
                \<and> na_provenance a = Some (ObsoletedByAction (parent_text b))))
     \<and> (na_repository a = ''@System'' \<and> old_kind_of (na_kind a1) = None \<longrightarrow>
          (\<exists>p\<in>set (ii_packages inventory). bound_to a p \<and> installed_nevra p = na_nevra a))"

definition replaced_ok :: "installed_inventory \<Rightarrow> native_action \<Rightarrow> bool" where
  "replaced_ok inventory a \<longleftrightarrow>
     (\<forall>k\<in>set replacement_kinds. old_kind_of (na_kind a) = Some k \<longrightarrow>
        (\<exists>p\<in>set (ii_packages inventory). bound_to a p
           \<and> nevra_name (installed_nevra p) = nevra_name (na_nevra a)))"

definition pair_ok ::
  "installed_inventory \<Rightarrow> native_action list \<Rightarrow> native_action list \<times> nat set \<Rightarrow> bool" where
  "pair_ok inventory raw1 st \<longleftrightarrow> length (fst st) = length raw1
     \<and> (\<forall>i < length raw1. slot_ok inventory raw1 (raw1 ! i) (fst st ! i) (i \<in> snd st))"

lemma old_kind_simps [simp]:
  "old_kind_of ''obsoleted'' = None" "old_kind_of ''erase'' = None"
  "k \<in> set replacement_kinds \<Longrightarrow> old_kind_of k = None"
  "k \<in> set replacement_kinds \<Longrightarrow> k \<noteq> ''obsoleted'' \<and> k \<noteq> ''erase''"
  "old_kind_of k = Some ''obsoleted'' \<longleftrightarrow> k = ''obsoletes''"
  by (auto simp: old_kind_of_def replacement_kinds_def)

lemma slot_ok_kind:
  "slot_ok ivt raw1 a1 a u \<Longrightarrow> na_kind a \<noteq> ''erase'' \<Longrightarrow> na_kind a1 = na_kind a \<and> na_provenance a = None"
  by (auto simp: slot_ok_def)

lemma mark_obsoleted_simps [simp]:
  "na_kind (mark_obsoleted parent a) = ''erase''" "na_nevra (mark_obsoleted parent a) = na_nevra a"
  "na_repository (mark_obsoleted parent a) = na_repository a"
  "na_provenance (mark_obsoleted parent a) = Some (ObsoletedByAction parent)"
  "bound_to (mark_obsoleted parent a) p = bound_to a p"
  by (simp_all add: mark_obsoleted_def bound_to_def)

lemma slot_ok_mark:
  assumes s: "slot_ok ivt raw1 a1 a u" and k: "na_kind a = ''obsoleted''"
    and b: "b \<in> set raw1" "na_kind b \<in> set active_kinds"
  shows "slot_ok ivt raw1 a1 (mark_obsoleted (parent_text b) a) v"
proof -
  have "na_kind a1 = ''obsoleted''" using slot_ok_kind [OF s] k by simp
  then show ?thesis using s b unfolding slot_ok_def by auto
qed

lemma replaced_ok_mark [simp]: "replaced_ok ivt (mark_obsoleted parent a)"
  by (simp add: replaced_ok_def)

lemma pair_ok_mark:
  assumes p: "pair_ok ivt raw1 (raw, paired)" and i: "i < length raw" "na_kind (raw ! i) = ''obsoleted''"
    and b: "b \<in> set raw1" "na_kind b \<in> set active_kinds"
  shows "pair_ok ivt raw1 (raw[i := mark_obsoleted (parent_text b) (raw ! i)], insert i paired)"
proof -
  have "slot_ok ivt raw1 (raw1 ! j) (raw[i := mark_obsoleted (parent_text b) (raw ! i)] ! j) (j \<in> insert i paired)"
    if j: "j < length raw1" for j
  proof (cases "j = i")
    case True
    have "slot_ok ivt raw1 (raw1 ! i) (raw ! i) (i \<in> paired)" using p j True by (simp add: pair_ok_def)
    from slot_ok_mark [OF this i(2) b] show ?thesis using True i(1) by simp
  next
    case False
    then show ?thesis using p j by (simp add: pair_ok_def)
  qed
  then show ?thesis using p by (simp add: pair_ok_def)
qed

lemma pair_old_obsoleted:
  assumes "pair_old index ''obsoleted'' (parent_text b) is (raw, paired) = Inr (raw', paired')"
    "pair_ok ivt raw1 (raw, paired)" "distinct is"
    "\<forall>i\<in>set is. i < length raw \<and> na_kind (raw ! i) = ''obsoleted''"
    "b \<in> set raw1" "na_kind b \<in> set active_kinds"
  shows "pair_ok ivt raw1 (raw', paired')
    \<and> (\<forall>j < length raw1. raw' ! j = raw ! j \<or> replaced_ok ivt (raw' ! j))"
  using assms
proof (induction "is" arbitrary: raw paired)
  case (Cons i "is")
  let ?raw = "raw[i := mark_obsoleted (parent_text b) (raw ! i)]"
  have i: "i < length raw" "na_kind (raw ! i) = ''obsoleted''" using Cons.prems(4) by auto
  have "pair_ok ivt raw1 (raw', paired') \<and> (\<forall>j < length raw1. raw' ! j = ?raw ! j \<or> replaced_ok ivt (raw' ! j))"
  proof (rule Cons.IH)
    show "pair_old index ''obsoleted'' (parent_text b) is (?raw, insert i paired) = Inr (raw', paired')"
      using Cons.prems(1) by (simp split: if_splits)
    show "pair_ok ivt raw1 (?raw, insert i paired)"
      by (rule pair_ok_mark [OF Cons.prems(2) i Cons.prems(5,6)])
    show "\<forall>j\<in>set is. j < length ?raw \<and> na_kind (?raw ! j) = ''obsoleted''"
      using Cons.prems(3,4) by (auto simp: nth_list_update)
  qed (use Cons.prems in auto)
  moreover have "?raw ! j = raw ! j \<or> replaced_ok ivt (?raw ! j)" for j
    by (cases "j = i") (use i in auto)
  ultimately show ?case by metis
qed auto


lemma pair_ok_adopt:
  assumes p: "pair_ok ivt raw1 (raw, paired)" and k: "k < length raw1"
    and new: "old_kind_of (na_kind (raw ! k)) = Some old_kind" and rk: "old_kind \<in> set replacement_kinds"
    and i: "i < length raw" "na_kind (raw ! i) = old_kind" "na_repository (raw ! i) = ''@System''"
    and name: "nevra_name (na_nevra (raw ! i)) = nevra_name (na_nevra (raw ! k))"
  shows "pair_ok ivt raw1 (raw[k := adopt_old (raw ! i) (raw ! k)], insert i paired)"
    and "replaced_ok ivt (adopt_old (raw ! i) (raw ! k))"
proof -
  let ?raw = "raw[k := adopt_old (raw ! i) (raw ! k)]"
  have len: "length raw = length raw1" using p by (simp add: pair_ok_def)
  have slot: "slot_ok ivt raw1 (raw1 ! j) (raw ! j) (j \<in> paired)" if "j < length raw1" for j
    using p that by (simp add: pair_ok_def)
  have sk: "slot_ok ivt raw1 (raw1 ! k) (raw ! k) (k \<in> paired)"
    and si: "slot_ok ivt raw1 (raw1 ! i) (raw ! i) (i \<in> paired)"
    using slot k i(1) len by simp_all
  have kk: "na_kind (raw1 ! k) = na_kind (raw ! k) \<and> na_provenance (raw ! k) = None"
    by (rule slot_ok_kind [OF sk]) (use new in auto)
  have ki: "na_kind (raw1 ! i) = old_kind" using slot_ok_kind [OF si] i(2) rk by auto
  have ik: "i \<noteq> k" using i(2) new rk by auto
  obtain q where q: "q \<in> set (ii_packages ivt)" "bound_to (raw ! i) q" "installed_nevra q = na_nevra (raw ! i)"
    using si i(3) ki rk unfolding slot_ok_def by auto
  have "bound_to (adopt_old (raw ! i) (raw ! k)) q" using q by (simp add: bound_to_def adopt_old_def)
  then show "replaced_ok ivt (adopt_old (raw ! i) (raw ! k))"
    using q name unfolding replaced_ok_def by (auto simp: adopt_old_def)
  have "slot_ok ivt raw1 (raw1 ! j) (?raw ! j) (j \<in> insert i paired)" if j: "j < length raw1" for j
  proof -
    consider "j = k" | "j = i" | "j \<noteq> k" "j \<noteq> i" by blast
    then show ?thesis
    proof cases
      case 1
      then show ?thesis using sk kk new k len ik by (auto simp: slot_ok_def adopt_old_def)
    next
      case 2
      then show ?thesis using si ik i(2) rk by (auto simp: slot_ok_def)
    next
      case 3
      then show ?thesis using slot [OF j] by simp
    qed
  qed
  then show "pair_ok ivt raw1 (?raw, insert i paired)" using len by (simp add: pair_ok_def)
qed

lemma pair_index_step:
  assumes st: "pair_index k (raw, paired) = Inr (raw', paired')" and k: "k < length raw1"
    and p: "pair_ok ivt raw1 (raw, paired)" and r: "\<forall>i<k. replaced_ok ivt (raw ! i)"
  shows "pair_ok ivt raw1 (raw', paired') \<and> (\<forall>i<Suc k. replaced_ok ivt (raw' ! i))"
proof (cases "old_kind_of (na_kind (raw ! k))")
  case None
  then have "raw' = raw" "paired' = paired" using st by (auto simp: pair_index_def Let_def)
  then show ?thesis using p r None by (auto simp: less_Suc_eq replaced_ok_def)
next
  case (Some old_kind)
  let ?new = "raw ! k"
  have len: "length raw = length raw1" using p by (simp add: pair_ok_def)
  obtain name where name: "nevra_name (na_nevra ?new) = Inr name"
    and ne: "old_sides raw ?new old_kind name \<noteq> []"
    and one: "old_kind \<in> set replacement_kinds \<Longrightarrow> length (old_sides raw ?new old_kind name) = 1"
    and po: "pair_old k old_kind (parent_text ?new) (old_sides raw ?new old_kind name) (raw, paired) = Inr (raw', paired')"
    using st Some by (auto simp: pair_index_def Let_def bindR_eq_Inr split: if_splits)
  have new1: "slot_ok ivt raw1 (raw1 ! k) ?new (k \<in> paired)" using p k by (simp add: pair_ok_def)
  have notold: "na_kind ?new \<noteq> ''erase''" using Some by auto
  note kind1 = slot_ok_kind [OF new1 notold]
  have old_kind: "old_kind = ''obsoleted'' \<or> old_kind \<in> set replacement_kinds"
    using Some by (auto simp: old_kind_of_def replacement_kinds_def split: if_splits)
  show ?thesis
  proof (cases "old_kind = ''obsoleted''")
    case True
    have "na_kind (raw1 ! k) \<in> set active_kinds"
      using kind1 Some True by (simp add: active_kinds_def)
    moreover have "parent_text ?new = parent_text (raw1 ! k)"
      using new1 by (simp add: slot_ok_def parent_text_def)
    moreover have sides: "distinct (old_sides raw ?new old_kind name)"
      "\<forall>i\<in>set (old_sides raw ?new old_kind name). i < length raw \<and> na_kind (raw ! i) = ''obsoleted''"
      by (simp_all add: old_sides_def Let_def True)
    moreover have "raw1 ! k \<in> set raw1" using k by simp
    ultimately have res: "pair_ok ivt raw1 (raw', paired')"
      "\<forall>j<length raw1. raw' ! j = raw ! j \<or> replaced_ok ivt (raw' ! j)"
      using pair_old_obsoleted [OF _ p sides, of k "raw1 ! k" raw' paired'] po unfolding True by simp_all
    have "replaced_ok ivt ?new"
      using Some True by (auto simp: replaced_ok_def old_kind_of_def replacement_kinds_def)
    then show ?thesis using res r k by (metis less_Suc_eq order.strict_trans)
  next
    case False
    then have rk: "old_kind \<in> set replacement_kinds" using old_kind by simp
    then obtain i where i: "old_sides raw ?new old_kind name = [i]" using one by (auto simp: length_Suc_conv)
    then have "i \<in> set (old_sides raw ?new old_kind name)" by simp
    then have o: "i < length raw" "na_kind (raw ! i) = old_kind" "na_repository (raw ! i) = ''@System''"
      "nevra_name (na_nevra (raw ! i)) = Inr name"
      using False by (auto simp: old_sides_def Let_def)
    have raw': "raw' = raw[k := adopt_old (raw ! i) ?new]" "paired' = insert i paired"
      using po i False by (auto split: if_splits)
    have "pair_ok ivt raw1 (raw', paired')" and rep: "replaced_ok ivt (adopt_old (raw ! i) ?new)"
      using pair_ok_adopt [OF p k Some rk o(1-3)] o(4) name raw' by simp_all
    moreover have "replaced_ok ivt (raw' ! j)" if "j < Suc k" for j
      using that r rep raw' k len by (cases "j = k") (auto simp: less_Suc_eq)
    ultimately show ?thesis by blast
  qed
qed

lemma pair_leftover_step:
  assumes st: "pair_leftover k (raw, paired) = Inr (raw', paired')" and k: "k < length raw1"
    and p: "pair_ok ivt raw1 (raw, paired)" and r: "\<forall>i<length raw1. replaced_ok ivt (raw ! i)"
  shows "pair_ok ivt raw1 (raw', paired') \<and> (\<forall>i<length raw1. replaced_ok ivt (raw' ! i))"
proof (cases "na_kind (raw ! k) \<noteq> ''obsoleted'' \<or> k \<in> paired")
  case True
  then show ?thesis using st p r by (auto simp: pair_leftover_def)
next
  case False
  have len: "length raw = length raw1" using p by (simp add: pair_ok_def)
  from st False obtain c where "(case active_sides raw c of
      [j] \<Rightarrow> Inr (raw[k := mark_obsoleted (parent_text (raw ! j)) (raw ! k)], insert k paired)
    | _ \<Rightarrow> Inl (UnpairedNativeOld (''identity='' @ na_nevra (raw ! k) @ '' counterpart='' @ c
         @ '' active_matches='' @ show_nat (length (active_sides raw c))))) = Inr (raw', paired')"
    unfolding pair_leftover_def prod.case Let_def by (auto simp only: if_False bindR_eq_Inr simp_thms)
  then obtain j where j: "active_sides raw c = [j]"
    and raw': "raw' = raw[k := mark_obsoleted (parent_text (raw ! j)) (raw ! k)]" "paired' = insert k paired"
    by (auto split: list.splits)
  have "j \<in> set (active_sides raw c)" by (simp add: j)
  then have jj: "j < length raw1" "na_kind (raw ! j) \<in> set active_kinds" using len by (auto simp: active_sides_def)
  have sj: "slot_ok ivt raw1 (raw1 ! j) (raw ! j) (j \<in> paired)" using p jj by (simp add: pair_ok_def)
  have b: "na_kind (raw1 ! j) \<in> set active_kinds" "parent_text (raw ! j) = parent_text (raw1 ! j)"
    using slot_ok_kind [OF sj] sj jj(2) by (auto simp: slot_ok_def parent_text_def active_kinds_def)
  have "pair_ok ivt raw1 (raw', paired')"
    using pair_ok_mark [OF p, of k "raw1 ! j"] k len False b jj(1) raw' by simp
  moreover have "replaced_ok ivt (raw' ! i)" if "i < length raw1" for i
    using that r raw' len by (cases "i = k") auto
  ultimately show ?thesis by blast
qed


lemma bind_system_slot:
  assumes "bind_system ivt a0 = Inr a1" "na_provenance a0 = None"
  shows "slot_ok ivt raw1 a1 a1 False"
proof (cases "na_repository a0 = ''@System''")
  case True
  with assms(1) obtain p where p: "unique_installed (na_nevra a0) ivt = Inr p"
    and a1: "a1 = a0\<lparr>na_old_nevra := Some (na_nevra a0), na_installed_instance := Some (ip_db_instance p),
      na_installed_header_sha256 := Some (as_str (ip_header p))\<rparr>"
    by (auto simp: bind_system_def bindR_eq_Inr)
  have "bound_to a1 p \<and> installed_nevra p = na_nevra a1"
    using a1 unique_installed_ok [OF p] by (simp add: bound_to_def)
  then show ?thesis using a1 assms(2) unique_installed_ok [OF p] unfolding slot_ok_def by auto
next
  case False
  then show ?thesis using assms by (simp add: bind_system_def slot_ok_def)
qed

lemma pair_stages:
  assumes out: "pair_actions raw0 ivt = Inr out" and fresh: "\<forall>a\<in>set raw0. na_provenance a = None"
  obtains raw1 raw paired where "length raw1 = length raw0" "pair_ok ivt raw1 (raw, paired)"
    "\<forall>i<length raw1. replaced_ok ivt (raw ! i)"
    "\<forall>i<length raw. na_kind (raw ! i) \<in> set (''obsoleted'' # replacement_kinds) \<longrightarrow> i \<in> paired"
    "out = filter (\<lambda>a. na_kind a \<notin> set replacement_kinds) raw"
proof -
  from out obtain raw1 st2 st where m: "mapR (bind_system ivt) raw0 = Inr raw1"
    and s2: "foldR pair_index [0..<length raw1] (raw1, {}) = Inr st2"
    and s3: "foldR pair_leftover [0..<length raw1] st2 = Inr st"
    and fin: "(case st of (raw, paired) \<Rightarrow>
       case find (\<lambda>i. na_kind (raw ! i) \<in> set (''obsoleted'' # replacement_kinds) \<and> i \<notin> paired)
              [0..<length raw] of
         Some i \<Rightarrow> Inl (unpaired_error (raw ! i))
       | None \<Rightarrow> Inr (filter (\<lambda>a. na_kind a \<notin> set replacement_kinds) raw)) = Inr out"
    unfolding pair_actions_def by (auto simp only: bindR_eq_Inr)
  have "slot_ok ivt raw1 (raw1 ! i) (raw1 ! i) False" if "i < length raw1" for i
    using m fresh that bind_system_slot by (auto simp: mapR_eq_Inr)
  then have "pair_ok ivt raw1 (raw1, {})" by (simp add: pair_ok_def)
  then have p2: "pair_ok ivt raw1 st2 \<and> (\<forall>i<length raw1. replaced_ok ivt (fst st2 ! i))"
    using foldR_upt_invariant [OF s2, of "\<lambda>k u. pair_ok ivt raw1 u \<and> (\<forall>i<k. replaced_ok ivt (fst u ! i))"]
      pair_index_step by (metis less_nat_zero_code prod.collapse)
  have p3: "pair_ok ivt raw1 st \<and> (\<forall>i<length raw1. replaced_ok ivt (fst st ! i))"
    using foldR_upt_invariant [OF s3, of "\<lambda>k u. pair_ok ivt raw1 u \<and> (\<forall>i<length raw1. replaced_ok ivt (fst u ! i))"]
      p2 pair_leftover_step by (metis prod.collapse)
  obtain raw paired where st: "st = (raw, paired)" by (cases st)
  have none: "find (\<lambda>i. na_kind (raw ! i) \<in> set (''obsoleted'' # replacement_kinds) \<and> i \<notin> paired)
      [0..<length raw] = None"
    and o: "out = filter (\<lambda>a. na_kind a \<notin> set replacement_kinds) raw"
    using fin st by (auto split: option.splits)
  show thesis
  proof (rule that [OF _ _ _ _ o])
    show "length raw1 = length raw0" using m by (simp add: mapR_eq_Inr)
    show "pair_ok ivt raw1 (raw, paired)" "\<forall>i<length raw1. replaced_ok ivt (raw ! i)" using p3 st by simp_all
    show "\<forall>i<length raw. na_kind (raw ! i) \<in> set (''obsoleted'' # replacement_kinds) \<longrightarrow> i \<in> paired"
      using none by (auto simp: find_None_iff)
  qed
qed


text \<open>One upgrade of \<^verbatim>\<open>bash\<close> that also obsoletes \<^verbatim>\<open>vim\<close>, as the native solver reports it.\<close>

definition example_native :: "string \<Rightarrow> string \<Rightarrow> string \<Rightarrow> string option \<Rightarrow> native_action" where
  "example_native kind repo nevra counterpart = \<lparr>na_kind = kind, na_repository = repo, na_nevra = nevra,
     na_old_nevra = None, na_installed_instance = None, na_installed_header_sha256 = None,
     na_requested_spec = None, na_requested_relation = False, na_provenance = None,
     na_counterpart = counterpart\<rparr>"

definition example_raw :: "native_action list" where
  "example_raw =
     [example_native ''upgraded'' ''@System'' ''bash-0:1-1.x86_64'' (Some ''bash-0:2-1.x86_64''),
      example_native ''upgrade'' ''updates'' ''bash-0:2-1.x86_64'' (Some ''bash-0:1-1.x86_64''),
      example_native ''obsoleted'' ''@System'' ''vim-0:1-1.x86_64'' (Some ''bash-0:2-1.x86_64'')]"

definition example_paired :: "native_action list" where
  "example_paired =
     [(example_native ''upgrade'' ''updates'' ''bash-0:2-1.x86_64'' (Some ''bash-0:1-1.x86_64''))
        \<lparr>na_old_nevra := Some ''bash-0:1-1.x86_64'', na_installed_instance := Some 2,
         na_installed_header_sha256 := Some (replicate 64 (CHR ''a''))\<rparr>,
      (example_native ''erase'' ''@System'' ''vim-0:1-1.x86_64'' (Some ''bash-0:2-1.x86_64''))
        \<lparr>na_old_nevra := Some ''vim-0:1-1.x86_64'', na_installed_instance := Some 1,
         na_installed_header_sha256 := Some (replicate 64 (CHR ''b'')),
         na_provenance := Some (ObsoletedByAction ''updates:bash-0:2-1.x86_64'')\<rparr>]"

lemma example_pairing: "pair_actions example_raw example_inventory = Inr example_paired"
  by code_simp

section \<open>Properties\<close>

text \<open>
  Property C22. \<^verbatim>\<open>pair_actions\<close> leaves no old side behind: the actions it returns are new sides,
  plain installs and removals only; every removal it attributes to an obsoletion names an active
  action that is returned as well; and every replacement is bound to the one installed package of
  the same name in the inventory, the one \<^verbatim>\<open>exact_installed\<close> finds later.
\<close>

theorem paired_actions_complete:
  assumes "pair_actions raw inventory = Inr out" and "\<forall>a\<in>set raw. na_provenance a = None"
    and "inventory_wf inventory"
  shows "(\<forall>a\<in>set out. na_kind a \<notin> {''upgraded'', ''downgraded'', ''reinstalled'', ''changed'', ''obsoleted''})
    \<and> (\<forall>a\<in>set out. \<forall>i. na_provenance a = Some (ObsoletedByAction i) \<longrightarrow>
         na_kind a = ''erase'' \<and> (\<exists>b\<in>set out. na_kind b \<in> set active_kinds \<and> i = parent_text b))
    \<and> (\<forall>a\<in>set out. na_kind a \<in> {''upgrade'', ''downgrade'', ''reinstall'', ''change''} \<longrightarrow>
         (\<exists>p\<in>set (ii_packages inventory). exact_installed a inventory = Inr p
            \<and> nevra_name (installed_nevra p) = nevra_name (na_nevra a)))"
proof (intro conjI ballI allI impI)
  from assms(1,2) obtain raw1 cur paired where p: "pair_ok inventory raw1 (cur, paired)"
    and r: "\<forall>i<length raw1. replaced_ok inventory (cur ! i)"
    and left: "\<forall>i<length cur. na_kind (cur ! i) \<in> set (''obsoleted'' # replacement_kinds) \<longrightarrow> i \<in> paired"
    and o: "out = filter (\<lambda>a. na_kind a \<notin> set replacement_kinds) cur"
    by (rule pair_stages)
  have len: "length cur = length raw1" using p by (simp add: pair_ok_def)
  have slot: "\<exists>i<length raw1. a = cur ! i \<and> slot_ok inventory raw1 (raw1 ! i) a (i \<in> paired)"
    if "a \<in> set cur" for a
    using that p by (auto simp: in_set_conv_nth pair_ok_def)
  fix a assume a: "a \<in> set out"
  then have cur: "a \<in> set cur" "na_kind a \<notin> set replacement_kinds" using o by auto
  obtain i where i: "i < length raw1" "a = cur ! i" "slot_ok inventory raw1 (raw1 ! i) a (i \<in> paired)"
    using slot [OF cur(1)] by blast
  show "na_kind a \<notin> {''upgraded'', ''downgraded'', ''reinstalled'', ''changed'', ''obsoleted''}"
    using cur(2) i left len by (auto simp: slot_ok_def replacement_kinds_def)
  {
    fix k assume "na_provenance a = Some (ObsoletedByAction k)"
    then obtain b where b: "na_kind a = ''erase''" "b \<in> set raw1" "na_kind b \<in> set active_kinds" "k = parent_text b"
      using i(3) by (auto simp: slot_ok_def)
    then obtain j where j: "j < length raw1" "b = raw1 ! j" by (auto simp: in_set_conv_nth)
    have "slot_ok inventory raw1 b (cur ! j) (j \<in> paired)" using p j by (simp add: pair_ok_def)
    then have "na_kind (cur ! j) = na_kind b" "parent_text (cur ! j) = parent_text b"
      using b(3) by (auto simp: slot_ok_def active_kinds_def parent_text_def)
    moreover from this have "cur ! j \<in> set out"
      using b(3) o j len by (auto simp: active_kinds_def replacement_kinds_def)
    ultimately show "na_kind a = ''erase''" "\<exists>b\<in>set out. na_kind b \<in> set active_kinds \<and> k = parent_text b"
      using b by metis+
  }
  assume k: "na_kind a \<in> {''upgrade'', ''downgrade'', ''reinstall'', ''change''}"
  then have "\<exists>p\<in>set (ii_packages inventory). bound_to a p
      \<and> nevra_name (installed_nevra p) = nevra_name (na_nevra a)"
    using r i(1,2) by (auto simp: replaced_ok_def old_kind_of_def replacement_kinds_def)
  then show "\<exists>p\<in>set (ii_packages inventory). exact_installed a inventory = Inr p
      \<and> nevra_name (installed_nevra p) = nevra_name (na_nevra a)"
    using exact_installed_bound [OF assms(3)] by blast
qed

theorem paired_actions_complete_witness:
  "\<exists>b\<in>set example_paired. na_kind b \<in> set active_kinds \<and> parent_text b = ''updates:bash-0:2-1.x86_64''"
proof -
  have "\<forall>a\<in>set example_raw. na_provenance a = None" by (simp add: example_raw_def example_native_def)
  moreover have "inventory_wf example_inventory" by code_simp
  ultimately have "\<forall>a\<in>set example_paired. \<forall>i. na_provenance a = Some (ObsoletedByAction i) \<longrightarrow>
      (\<exists>b\<in>set example_paired. na_kind b \<in> set active_kinds \<and> i = parent_text b)"
    using paired_actions_complete [OF example_pairing] by blast
  moreover have "\<exists>a\<in>set example_paired.
      na_provenance a = Some (ObsoletedByAction ''updates:bash-0:2-1.x86_64'')"
    by (simp add: example_paired_def)
  ultimately show ?thesis by metis
qed

text \<open>
  A decision that \<^verbatim>\<open>from_native\<close> accepted passes the re-check of \<^verbatim>\<open>into_resolved\<close> against
  the same evidence: the text of the relation it recorded finds that relation again, whether the
  evidence is complete or compact, as long as both ends are actions (or the provider is the one
  installed package of that identity) and the text carries no explicit epoch 0, which the
  comparison text drops.
\<close>

theorem native_decision_rechecks:
  assumes "native_decision_of metadata identities d = Inr nd"
    and "rel_epoch (nd_requirement nd) \<noteq> Some ''0''"
    and "(nd_requiring_nevra nd, nd_requiring_repo nd) \<in> actions"
    and "if nd_provider_installed nd then unique_installed (nd_provider_nevra nd) inventory = Inr p
         else (nd_provider_nevra nd, nd_provider_repo nd) \<in> actions \<and> nd_provider_repo nd \<noteq> ''@System''"
  shows "validate_decision actions metadata inventory nd = Inr ()"
proof -
  from assms(1) obtain package provider where
    req: "evidence_lookup metadata (nd_requiring_repo nd) (nd_requiring_nevra nd) = Some package"
    and prov: "if nd_provider_installed nd then nd_provider_repo nd = ''@System'' \<and> provider = None
      else \<exists>q. evidence_lookup metadata (nd_provider_repo nd) (nd_provider_nevra nd) = Some q \<and> provider = Some q"
    and dr: "decision_requirement package provider (nd_kind nd = Weak) (sd_relation d) = Inr (nd_requirement nd)"
    by (auto simp: native_decision_of_def bindR_eq_Inr ok_or_eq_Inr split: if_splits)
  have "decision_requirement package provider (nd_kind nd = Weak) (relation_text (nd_requirement nd))
      = Inr (nd_requirement nd)"
    using dr decision_requirement_text [OF dr assms(2)] by simp
  then show ?thesis
    using req prov assms(3,4) by (auto simp: validate_decision_def split: if_splits)
qed

definition example_evidence :: metadata_evidence where
  "example_evidence = [(''updates'', CompactPackageE \<lparr>ne_name = ''bash'', ne_arch = ''x86_64'', ne_epoch = ''0'',
     ne_version = ''2'', ne_release = ''1'', ne_requires = [''vim >= 1:9.0-2''], ne_recommends = [],
     ne_supplements = [], ne_enhances = []\<rparr>)]"

definition example_decision :: native_decision where
  "example_decision = \<lparr>nd_requiring_nevra = ''bash-0:2-1.x86_64'', nd_requiring_repo = ''updates'',
     nd_requirement = \<lparr>rel_name = ''vim'', rel_flags = Some GreaterEqualF, rel_epoch = Some ''1'',
       rel_version = Some ''9.0'', rel_release = Some ''2'', rel_pre = False\<rparr>,
     nd_kind = Strong, nd_provider_nevra = ''vim-0:1-1.x86_64'', nd_provider_repo = ''@System'',
     nd_provider_installed = True\<rparr>"

theorem native_decision_rechecks_witness:
  "validate_decision {(''bash-0:2-1.x86_64'', ''updates'')} example_evidence example_inventory example_decision
     = Inr ()"
proof (rule native_decision_rechecks [where p = "example_package ''vim'' 1 (CHR ''b'')"])
  show "native_decision_of example_evidence [(''bash-0:2-1.x86_64'', ''updates'')]
      \<lparr>sd_requiring = ''bash-0:2-1.x86_64'', sd_provider = ''vim-0:1-1.x86_64'', sd_relation = ''vim >= 1:9.0-2'',
       sd_weak = False, sd_provider_installed = True\<rparr> = Inr example_decision"
    by code_simp
  show "if nd_provider_installed example_decision
      then unique_installed (nd_provider_nevra example_decision) example_inventory
        = Inr (example_package ''vim'' 1 (CHR ''b''))
      else (nd_provider_nevra example_decision, nd_provider_repo example_decision)
          \<in> {(''bash-0:2-1.x86_64'', ''updates'')}
        \<and> nd_provider_repo example_decision \<noteq> ''@System''"
    by code_simp
qed (simp_all add: example_decision_def)

end
