(* ===== verification/Dnf_Lines.thy ===== *)
theory Dnf_Lines
  imports Dnf_Text
begin

text \<open>
  What the readers of configuration and metadata use of \<^verbatim>\<open>str\<close>: lines, trimming and words by
  Unicode white space, prefixes, unsigned decimal numbers, and the questions asked of paths.
\<close>

section \<open>Characters, trimming and words\<close>

text \<open>
  A string as the byte groups of its characters, in order; the lead byte gives the length of a
  group.
\<close>

definition char_len :: "char \<Rightarrow> nat" where
  "char_len a = (if byte_of a < 128 then 1 else if byte_of a < 224 then 2
     else if byte_of a < 240 then 3 else 4)"

function char_chunks :: "string \<Rightarrow> string list" where
  "char_chunks [] = []"
| "char_chunks (a # s) = (a # take (char_len a - 1) s) # char_chunks (drop (char_len a - 1) s)"
  by pat_completeness auto
termination char_chunks
  by (relation "measure length") auto

definition chunk_ws :: "string \<Rightarrow> bool" where
  "chunk_ws c = (case chars_of c of [u] \<Rightarrow> is_whitespace u | _ \<Rightarrow> False)"

text \<open>\<^verbatim>\<open>str::trim\<close>\<close>

definition trim :: "string \<Rightarrow> string" where
  "trim s = concat (rev (dropWhile chunk_ws (rev (dropWhile chunk_ws (char_chunks s)))))"

text \<open>\<^verbatim>\<open>str::split_whitespace\<close>\<close>

fun split_ws :: "string \<Rightarrow> string list \<Rightarrow> string list" where
  "split_ws acc [] = (if acc = [] then [] else [acc])"
| "split_ws acc (c # cs) =
     (if chunk_ws c then (if acc = [] then split_ws [] cs else acc # split_ws [] cs)
      else split_ws (acc @ c) cs)"

definition split_whitespace :: "string \<Rightarrow> string list" where
  "split_whitespace s = split_ws [] (char_chunks s)"

section \<open>Lines\<close>

text \<open>
  \<^verbatim>\<open>str::lines\<close>: the pieces between line feeds, without a carriage return before the line feed;
  a last piece without a line feed is kept as it is, an empty one is not yielded.
\<close>

definition strip_cr :: "string \<Rightarrow> string" where
  "strip_cr s = (if s \<noteq> [] \<and> last s = CHR 0x0D then butlast s else s)"

function lines :: "string \<Rightarrow> string list" where
  "lines s =
     (if s = [] then []
      else case split_once [CHR 0x0A] s of
        None \<Rightarrow> [s]
      | Some (a, b) \<Rightarrow> strip_cr a # lines b)"
  by pat_completeness auto
termination lines
  by (relation "measure length") (auto dest!: split_once_char_SomeD)

declare lines.simps [simp del]

section \<open>Prefixes and numbers\<close>

definition strip_prefix :: "string \<Rightarrow> string \<Rightarrow> string option" where
  "strip_prefix pat s = (if starts_with s pat then Some (drop (length pat) s) else None)"

text \<open>\<^verbatim>\<open>str::parse\<close> at an unsigned integer: one optional plus sign, then at least one digit\<close>

definition parse_unsigned :: "string \<Rightarrow> 'l::len word option" where
  "parse_unsigned s =
     (let digits = (case s of c # d # ds \<Rightarrow> if c = CHR ''+'' then d # ds else s | _ \<Rightarrow> s)
      in if digits \<noteq> [] \<and> list_all is_ascii_digit digits \<and> read_nat digits < 2 ^ LENGTH('l)
         then Some (of_nat (read_nat digits)) else None)"

section \<open>Paths\<close>

text \<open>
  Paths are compared by their components. \<^verbatim>\<open>Path::join\<close>, \<^verbatim>\<open>is_absolute\<close>, \<^verbatim>\<open>starts_with\<close>,
  \<^verbatim>\<open>parent\<close>, \<^verbatim>\<open>file_name\<close> and \<^verbatim>\<open>extension\<close>:
\<close>

definition path_join :: "string \<Rightarrow> string \<Rightarrow> string" where
  "path_join base p =
     (if starts_with p ''/'' then p
      else if base \<noteq> [] \<and> last base \<noteq> CHR ''/'' then base @ ''/'' @ p
      else base @ p)"

definition is_absolute :: "string \<Rightarrow> bool" where
  "is_absolute p \<longleftrightarrow> starts_with p ''/''"

definition path_starts_with :: "string \<Rightarrow> string \<Rightarrow> bool" where
  "path_starts_with p root \<longleftrightarrow> take (length (components root)) (components p) = components root"

definition path_parent :: "string \<Rightarrow> component list option" where
  "path_parent p =
     (case rev (components p) of [] \<Rightarrow> None | RootDir # _ \<Rightarrow> None | _ # rest \<Rightarrow> Some (rev rest))"

definition file_name :: "string \<Rightarrow> string option" where
  "file_name p = (case rev (components p) of Normal n # _ \<Rightarrow> Some n | _ \<Rightarrow> None)"

definition extension_is :: "string \<Rightarrow> string \<Rightarrow> bool" where
  "extension_is ext p =
     (case file_name p of
        None \<Rightarrow> False
      | Some n \<Rightarrow> (case rsplit_once (CHR ''.'') n of
          None \<Rightarrow> False
        | Some (before, after) \<Rightarrow> before \<noteq> [] \<and> after = ext))"

section \<open>Laws\<close>

lemma concat_char_chunks [simp]: "concat (char_chunks s) = s"
  by (induction s rule: char_chunks.induct) auto

lemma char_chunks_nonempty: "c \<in> set (char_chunks s) \<Longrightarrow> c \<noteq> []"
  by (induction s rule: char_chunks.induct) auto

lemma char_chunks_ascii: "\<forall>c\<in>set s. byte_of c < 128 \<Longrightarrow> char_chunks s = map (\<lambda>c. [c]) s"
  by (induction s) (auto simp: char_len_def)

lemma chunk_ws_ascii: "byte_of c < 128 \<Longrightarrow> chunk_ws [c] \<longleftrightarrow> is_whitespace (byte_of c)"
  by (simp add: chunk_ws_def)

lemma chunk_ws_nonempty: "\<not> chunk_ws []"
  by (simp add: chunk_ws_def)

lemma split_ws_nonempty: "w \<in> set (split_ws acc cs) \<Longrightarrow> w \<noteq> []"
  by (induction acc cs rule: split_ws.induct) (auto split: if_splits)

lemma split_whitespace_nonempty: "w \<in> set (split_whitespace s) \<Longrightarrow> w \<noteq> []"
  by (simp add: split_whitespace_def split_ws_nonempty)

lemma lines_no_newline: "l \<in> set (lines s) \<Longrightarrow> CHR 0x0A \<notin> set l"
proof (induction s rule: lines.induct)
  case (1 s)
  show ?case
  proof (cases "split_once [CHR 0x0A] s")
    case None
    moreover from this have "CHR 0x0A \<notin> set s" by (simp only: split_once_char_None not_False_eq_True)
    ultimately show ?thesis using "1.prems" by (auto simp: lines.simps [of s] split: if_splits)
  next
    case (Some ab)
    obtain a b where ab: "ab = (a, b)" by force
    have "s \<noteq> []" using Some by (auto simp: split_once_Nil)
    moreover have "CHR 0x0A \<notin> set a" using Some ab split_once_char_SomeD by blast
    ultimately show ?thesis
      using "1.prems" "1.IH" Some ab
      by (auto simp: lines.simps [of s] strip_cr_def dest: in_set_butlastD split: if_splits)
  qed
qed

lemma show_nat_digits: "list_all is_ascii_digit (show_nat n)"
proof (induction n rule: show_nat.induct)
  case (1 n)
  have "is_ascii_digit (digit_char d)" if "d < 10" for d
    using that by (simp add: is_ascii_digit_def byte_of_digit_char)
  then show ?case using 1 by (subst show_nat.simps) (auto simp: list_all_iff)
qed

lemma parse_unsigned_digits:
  "s \<noteq> [] \<Longrightarrow> list_all is_ascii_digit s \<Longrightarrow>
     parse_unsigned s = (if read_nat s < 2 ^ LENGTH('l) then Some (of_nat (read_nat s) :: 'l::len word) else None)"
  by (auto simp: parse_unsigned_def Let_def ascii_defs split: list.splits)

lemma parse_unsigned_show:
  "n < 2 ^ LENGTH('l) \<Longrightarrow> parse_unsigned (show_nat n) = Some (of_nat n :: 'l::len word)"
  using show_nat_last [of n] by (simp add: parse_unsigned_digits show_nat_digits read_show_nat)

lemma split_slash_nonempty [simp]: "split_slash s \<noteq> []"
  by (induction s rule: split_slash.induct) (auto split: list.splits)

lemma split_slash_no_slash: "n \<in> set (split_slash s) \<Longrightarrow> CHR ''/'' \<notin> set n"
proof (induction s arbitrary: n)
  case (Cons c cs)
  then show ?case
    by (cases "split_slash cs") (auto split: if_splits)
qed simp

lemma components_Normal: "Normal n \<in> set (components p) \<Longrightarrow> n \<noteq> [] \<and> n \<noteq> ''.'' \<and> n \<noteq> ''..'' \<and> CHR ''/'' \<notin> set n"
  by (auto simp: components_def split_slash_no_slash split: if_splits)

end
