(* ===== verification/Repo_Variables.thy ===== *)
theory Repo_Variables
  imports Dnf_Lines
begin

text \<open>
  \<^verbatim>\<open>crates/dnfast-repo/src/error.rs\<close>, \<^verbatim>\<open>variables.rs\<close>: the errors of repository configuration and
  the expansion of \<open>$name\<close> and \<open>${name}\<close>. All characters the expansion looks for are ASCII, so the
  model reads the bytes of the string.
\<close>

section \<open>Errors\<close>

datatype repo_error =
    ParseError string nat string
  | UnresolvedVariable string
  | MalformedVariable string
  | RepoIo string string
  | InvalidUtf8 string

fun repo_error_display :: "repo_error \<Rightarrow> string" where
  "repo_error_display (ParseError path line message) = path @ '':'' @ show_nat line @ '': '' @ message"
| "repo_error_display (UnresolvedVariable variable) = ''unresolved repository variable: '' @ variable"
| "repo_error_display (MalformedVariable text) = ''malformed repository variable in: '' @ text"
| "repo_error_display (RepoIo path source) = path @ '': '' @ source"
| "repo_error_display (InvalidUtf8 path) = path @ '': repository file is not valid UTF-8''"

definition parse_error :: "string \<Rightarrow> nat \<Rightarrow> string \<Rightarrow> repo_error" where
  "parse_error path line message = ParseError path line message"

section \<open>Variables\<close>

type_synonym repo_variables = "(string, string) btree_map"

definition from_pairs :: "(string \<times> string) list \<Rightarrow> repo_variables" where
  "from_pairs pairs = bt_collect pairs"

definition with_system_release_and_arch ::
  "repo_variables \<Rightarrow> string \<Rightarrow> string \<Rightarrow> repo_variables" where
  "with_system_release_and_arch vars releasever basearch =
     bt_insert ''arch'' basearch
       (bt_insert ''basearch'' basearch (bt_insert ''releasever'' releasever vars))"

definition is_ascii_alphabetic :: "char \<Rightarrow> bool" where
  "is_ascii_alphabetic c \<longleftrightarrow> is_ascii_uppercase c \<or> is_ascii_lowercase c"

definition name_char :: "char \<Rightarrow> bool" where
  "name_char c \<longleftrightarrow> c = CHR ''_'' \<or> is_ascii_alphanumeric c"

text \<open>
  The name after a dollar sign whose next character opens one, and what follows the variable;
  \<open>input\<close> is the whole text, which a malformed variable reports.
\<close>

definition variable_name :: "string \<Rightarrow> string \<Rightarrow> (repo_error, string \<times> string) result" where
  "variable_name input cs =
     bindR
       (if take 1 cs = [CHR 0x7B]
        then ok_or (MalformedVariable input) (split_once [CHR 0x7D] (tl cs))
        else Inr (takeWhile name_char cs, dropWhile name_char cs))
       (\<lambda>(name, after). if name = [] then Inl (MalformedVariable input) else Inr (name, after))"

lemma variable_name_shorter: "variable_name input cs = Inr (name, after) \<Longrightarrow> length after < Suc (length cs)"
  by (auto simp: variable_name_def bindR_eq_Inr ok_or_eq_Inr length_dropWhile_le less_Suc_eq_le
      dest!: split_once_char_SomeD split: if_splits) (metis diff_le_self le_trans length_append
      length_tl le_add2 length_Cons le_SucI add_Suc_right)

text \<open>The loop of \<^verbatim>\<open>expand\<close> over what the iterator has not yielded yet.\<close>

function expand_loop :: "repo_variables \<Rightarrow> string \<Rightarrow> string \<Rightarrow> (repo_error, string) result" where
  "expand_loop vars input [] = Inr []"
| "expand_loop vars input (c # cs) =
     (if c \<noteq> CHR ''$'' then bindR (expand_loop vars input cs) (\<lambda>out. Inr (c # out))
      else case cs of
        [] \<Rightarrow> Inr ''$''
      | next # rest \<Rightarrow>
          if next = CHR ''$'' then bindR (expand_loop vars input rest) (\<lambda>out. Inr (CHR ''$'' # out))
          else if next = CHR 0x7B \<or> next = CHR ''_'' \<or> is_ascii_alphabetic next then
            (case variable_name input cs of
               Inl e \<Rightarrow> Inl e
             | Inr (name, after) \<Rightarrow>
                 (case map_of vars name of
                    None \<Rightarrow> Inl (UnresolvedVariable name)
                  | Some text \<Rightarrow> bindR (expand_loop vars input after) (\<lambda>out. Inr (text @ out))))
          else bindR (expand_loop vars input cs) (\<lambda>out. Inr (CHR ''$'' # out)))"
  by pat_completeness auto
termination expand_loop
  by (relation "measure (\<lambda>(vars, input, s). length s)") (auto dest: variable_name_shorter)

declare expand_loop.simps(2) [simp del]

definition expand :: "repo_variables \<Rightarrow> string \<Rightarrow> (repo_error, string) result" where
  "expand vars input = expand_loop vars input input"

section \<open>Templates\<close>

text \<open>A text as the list of what its writer meant, and how each piece is written.\<close>

datatype piece = Literal char | Escaped | Variable string

fun render :: "piece \<Rightarrow> string" where
  "render (Literal c) = [c]"
| "render Escaped = ''$$''"
| "render (Variable n) = CHR ''$'' # CHR 0x7B # n @ [CHR 0x7D]"

fun piece_wf :: "piece \<Rightarrow> bool" where
  "piece_wf (Literal c) \<longleftrightarrow> c \<noteq> CHR ''$''"
| "piece_wf Escaped \<longleftrightarrow> True"
| "piece_wf (Variable n) \<longleftrightarrow> n \<noteq> [] \<and> CHR 0x7D \<notin> set n"

fun piece_value :: "repo_variables \<Rightarrow> piece \<Rightarrow> (repo_error, string) result" where
  "piece_value vars (Literal c) = Inr [c]"
| "piece_value vars Escaped = Inr ''$''"
| "piece_value vars (Variable n) = ok_or (UnresolvedVariable n) (map_of vars n)"

lemma expand_loop_piece:
  "piece_wf p \<Longrightarrow> expand_loop vars input (render p @ rest) =
     bindR (piece_value vars p) (\<lambda>v. bindR (expand_loop vars input rest) (\<lambda>out. Inr (v @ out)))"
  by (cases p) (auto simp: expand_loop.simps(2) variable_name_def split: option.splits)

lemma expand_loop_pieces:
  "list_all piece_wf ps \<Longrightarrow> expand_loop vars input (concat (map render ps)) =
     bindR (mapR (piece_value vars) ps) (\<lambda>vs. Inr (concat vs))"
  by (induction ps) (auto simp: expand_loop_piece bindR_assoc)

lemma expand_plain: "CHR ''$'' \<notin> set s \<Longrightarrow> expand vars s = Inr s"
proof -
  have "CHR ''$'' \<notin> set t \<Longrightarrow> expand_loop vars s t = Inr t" for t
    by (induction t) (auto simp: expand_loop.simps(2))
  then show "CHR ''$'' \<notin> set s \<Longrightarrow> expand vars s = Inr s" by (simp add: expand_def)
qed

text \<open>The names a text mentions are resolved by the variables alone.\<close>

lemma variables_ok: "bt_ok (from_pairs pairs)" "bt_ok vars \<Longrightarrow> bt_ok (with_system_release_and_arch vars r a)"
  by (simp_all add: from_pairs_def with_system_release_and_arch_def bt_ok_insert)

lemma system_variables_win:
  assumes "bt_ok vars"
  shows "map_of (with_system_release_and_arch vars r a) ''releasever'' = Some r"
    "map_of (with_system_release_and_arch vars r a) ''basearch'' = Some a"
    "map_of (with_system_release_and_arch vars r a) ''arch'' = Some a"
    "n \<notin> {''releasever'', ''basearch'', ''arch''} \<Longrightarrow>
       map_of (with_system_release_and_arch vars r a) n = map_of vars n"
  using assms by (simp_all add: with_system_release_and_arch_def bt_ok_insert bt_insert_map_of)

text \<open>
  Expansion reads a text as its writer wrote it, in one pass: plain characters and
  escaped dollars stay, each variable is replaced by its value without expanding the value
  again, and the first variable without a value is the error.
\<close>

theorem expand_render:
  assumes "list_all piece_wf ps"
  shows "expand vars (concat (map render ps)) =
    bindR (mapR (piece_value vars) ps) (\<lambda>vs. Inr (concat vs))"
  using expand_loop_pieces [OF assms] by (simp add: expand_def)

theorem expand_render_witness:
  "expand [(''basearch'', ''$arch'')]
     (concat (map render [Literal (CHR ''a''), Variable ''basearch'', Escaped])) = Inr ''a$arch$''"
  by (subst expand_render) simp_all

end
