(* ===== verification/Repo_Config.thy ===== *)
theory Repo_Config
  imports Repo_Variables
begin

text \<open>
  \<^verbatim>\<open>crates/dnfast-repo/src/main_config.rs\<close>: the main configuration file. Paths are their bytes.
\<close>

section \<open>Data\<close>

definition MAX_FILE_BYTES :: nat where "MAX_FILE_BYTES = 1048576"
definition MAX_LINES :: nat where "MAX_LINES = 4096"
definition MAX_LINE_BYTES :: nat where "MAX_LINE_BYTES = 65536"

record main_config =
  mc_reposdir :: "string list"
  mc_varsdir :: "string list"
  mc_install_weak_deps :: bool
  mc_best :: bool
  mc_excludepkgs :: "string list"
  mc_includepkgs :: "string list"
  mc_protected_packages :: "string list"
  mc_installonlypkgs :: "string list"
  mc_installonly_limit :: u32

definition words :: "string \<Rightarrow> string list" where
  "words text = split_whitespace text"

definition default_main :: main_config where
  "default_main =
     \<lparr>mc_reposdir = [''/etc/yum.repos.d'', ''/etc/dnf/repos.d''],
      mc_varsdir = [''/etc/dnf/vars'', ''/etc/yum/vars''],
      mc_install_weak_deps = True, mc_best = False,
      mc_excludepkgs = [], mc_includepkgs = [],
      mc_protected_packages = words ''dnfast dnf dnf5 rpm glibc systemd'',
      mc_installonlypkgs = words ''kernel kernel-core kernel-modules kernel-modules-core kernel-modules-extra'',
      mc_installonly_limit = 3\<rparr>"

record mutation_error =
  me_path :: string
  me_line :: nat
  me_message :: string

definition mutation_error_new :: "string \<Rightarrow> nat \<Rightarrow> string \<Rightarrow> mutation_error" where
  "mutation_error_new path line message = \<lparr>me_path = path, me_line = line, me_message = message\<rparr>"

definition mutation_error_display :: "mutation_error \<Rightarrow> string" where
  "mutation_error_display e = me_path e @ '':'' @ show_nat (me_line e) @ '': '' @ me_message e"

section \<open>Lines and values\<close>

definition check_limits :: "string \<Rightarrow> string \<Rightarrow> (mutation_error, unit) result" where
  "check_limits path input =
     (if length input > MAX_FILE_BYTES
      then Inl (mutation_error_new path 0 ''configuration file exceeds 1 MiB'')
      else if length (lines input) > MAX_LINES
      then Inl (mutation_error_new path (MAX_LINES + 1) ''configuration file exceeds 4096 lines'')
      else case find (\<lambda>(index, line). length line > MAX_LINE_BYTES) (enumerate 0 (lines input)) of
        Some (index, _) \<Rightarrow> Inl (mutation_error_new path (index + 1) ''configuration line exceeds 64 KiB'')
      | None \<Rightarrow> Inr ())"

definition key_byte :: "char \<Rightarrow> bool" where
  "key_byte c \<longleftrightarrow> is_ascii_alphanumeric c \<or> c \<in> set ''_.-''"

definition control_byte :: "char \<Rightarrow> bool" where
  "control_byte c \<longleftrightarrow> byte_of c = 0 \<or> (byte_of c < 32 \<and> byte_of c \<noteq> 9)"

definition pair :: "string \<Rightarrow> nat \<Rightarrow> string \<Rightarrow> (mutation_error, string \<times> string) result" where
  "pair path line input =
     bindR (ok_or (mutation_error_new path line ''expected key=value'') (split_once ''='' input))
       (\<lambda>(raw_key, raw_value).
          let key = trim raw_key in
          if key = [] \<or> \<not> list_all key_byte key then Inl (mutation_error_new path line ''invalid mutation key'')
          else if list_ex control_byte raw_value
          then Inl (mutation_error_new path line ''invalid control byte in value'')
          else Inr (key, trim raw_value))"

definition boolean :: "string \<Rightarrow> nat \<Rightarrow> string \<Rightarrow> (mutation_error, bool) result" where
  "boolean path line text =
     (let lower = map to_ascii_lowercase text in
      if lower \<in> {''1'', ''true'', ''yes'', ''on''} then Inr True
      else if lower \<in> {''0'', ''false'', ''no'', ''off''} then Inr False
      else Inl (mutation_error_new path line ''invalid boolean''))"

definition reset_or_append :: "string list \<Rightarrow> string \<Rightarrow> string list" where
  "reset_or_append target text = (if text = [] then [] else target @ split_whitespace text)"

definition list_key :: "string \<Rightarrow> bool" where
  "list_key key \<longleftrightarrow> key \<in> {''reposdir'', ''varsdir'', ''excludepkgs'', ''includepkgs'',
     ''protected_packages'', ''installonlypkgs''}"

section \<open>The main section\<close>

definition apply_main_value ::
  "string \<Rightarrow> nat \<Rightarrow> main_config \<Rightarrow> string \<Rightarrow> string \<Rightarrow> (mutation_error, main_config) result" where
  "apply_main_value path line result key text =
     (if key = ''reposdir'' then Inr (result\<lparr>mc_reposdir := reset_or_append (mc_reposdir result) text\<rparr>)
      else if key = ''varsdir'' then Inr (result\<lparr>mc_varsdir := reset_or_append (mc_varsdir result) text\<rparr>)
      else if key = ''install_weak_deps''
      then bindR (boolean path line text) (\<lambda>b. Inr (result\<lparr>mc_install_weak_deps := b\<rparr>))
      else if key = ''best'' then bindR (boolean path line text) (\<lambda>b. Inr (result\<lparr>mc_best := b\<rparr>))
      else if key = ''excludepkgs''
      then Inr (result\<lparr>mc_excludepkgs := reset_or_append (mc_excludepkgs result) text\<rparr>)
      else if key = ''includepkgs''
      then Inr (result\<lparr>mc_includepkgs := reset_or_append (mc_includepkgs result) text\<rparr>)
      else if key = ''protected_packages''
      then Inr (result\<lparr>mc_protected_packages := reset_or_append (mc_protected_packages result) text\<rparr>)
      else if key = ''installonlypkgs''
      then Inr (result\<lparr>mc_installonlypkgs := reset_or_append (mc_installonlypkgs result) text\<rparr>)
      else if key = ''installonly_limit'' then
        bindR (ok_or (mutation_error_new path line ''invalid installonly_limit'') (parse_unsigned text)) (\<lambda>parsed.
          if parsed = 1 then Inl (mutation_error_new path line ''installonly_limit must be 0 or at least 2'')
          else Inr (result\<lparr>mc_installonly_limit := parsed\<rparr>))
      else Inl (mutation_error_new path line (''unsupported mutation key: '' @ key)))"

definition skipped_line :: "string \<Rightarrow> bool" where
  "skipped_line line \<longleftrightarrow> line = [] \<or> starts_with line ''#'' \<or> starts_with line '';''"

text \<open>One line of the loop; the state is the configuration, whether the section was met, and the keys seen.\<close>

definition main_line ::
  "string \<Rightarrow> nat \<times> string \<Rightarrow> main_config \<times> bool \<times> string set
     \<Rightarrow> (mutation_error, main_config \<times> bool \<times> string set) result" where
  "main_line path numbered state =
     (case (numbered, state) of ((number, raw), (result, in_main, seen)) \<Rightarrow>
        let line = trim raw in
        if skipped_line line then Inr state
        else if starts_with line ''['' then
          (if line \<noteq> ''[main]'' then Inl (mutation_error_new path number ''unsupported main configuration section'')
           else if in_main then Inl (mutation_error_new path number ''duplicate main section'')
           else Inr (result, True, seen))
        else if \<not> in_main then Inl (mutation_error_new path number ''key outside main section'')
        else
          bindR (pair path number line) (\<lambda>(key, text).
            if key \<in> seen \<and> \<not> list_key key
            then Inl (mutation_error_new path number (''duplicate mutation key: '' @ key))
            else bindR (apply_main_value path number result key text) (\<lambda>result'.
              Inr (result', in_main, insert key seen))))"

definition parse_main_config :: "string \<Rightarrow> string \<Rightarrow> (mutation_error, main_config) result" where
  "parse_main_config path input =
     bindR (check_limits path input) (\<lambda>_.
     bindR (foldR (main_line path) (enumerate 1 (lines input)) (default_main, False, {})) (\<lambda>state.
       Inr (fst state)))"

section \<open>What an accepted file means\<close>

text \<open>\<^verbatim>\<open>Result::ok\<close>\<close>

definition result_ok :: "('e, 'a) result \<Rightarrow> 'a option" where
  "result_ok r = (case r of Inl _ \<Rightarrow> None | Inr x \<Rightarrow> Some x)"

lemma result_ok_simps [simp]: "result_ok (Inl e) = None" "result_ok (Inr x) = Some x"
  by (simp_all add: result_ok_def)

lemma result_ok_Some: "result_ok r = Some x \<longleftrightarrow> r = Inr x"
  by (cases r) simp_all

text \<open>The lines of a file that count, the setting of a line, and settings applied in order.\<close>

definition content_lines :: "string \<Rightarrow> string list" where
  "content_lines input = filter (\<lambda>line. \<not> skipped_line line) (map trim (lines input))"

definition setting :: "string \<Rightarrow> (string \<times> string) option" where
  "setting line = result_ok (pair [] 0 line)"

fun apply_settings :: "(string \<times> string) list \<Rightarrow> main_config \<Rightarrow> main_config option" where
  "apply_settings [] c = Some c"
| "apply_settings ((key, text) # rest) c =
     (case result_ok (apply_main_value [] 0 c key text) of None \<Rightarrow> None | Some c' \<Rightarrow> apply_settings rest c')"

definition single_keys :: "(string \<times> string) list \<Rightarrow> string list" where
  "single_keys kvs = filter (\<lambda>k. \<not> list_key k) (map fst kvs)"

definition limits_ok :: "string \<Rightarrow> bool" where
  "limits_ok input \<longleftrightarrow> length input \<le> MAX_FILE_BYTES \<and> length (lines input) \<le> MAX_LINES
     \<and> (\<forall>line\<in>set (lines input). length line \<le> MAX_LINE_BYTES)"

lemma check_limits_iff: "check_limits path input = Inr () \<longleftrightarrow> limits_ok input"
proof -
  have lines_enumerate: "set (lines input) = snd ` set (enumerate 0 (lines input))"
    by (metis list.set_map map_snd_enumerate)
  have "find (\<lambda>(i, l). length l > MAX_LINE_BYTES) (enumerate 0 (lines input)) = None
      \<longleftrightarrow> (\<forall>line\<in>set (lines input). length line \<le> MAX_LINE_BYTES)"
    by (subst lines_enumerate) (auto simp: find_None_iff not_less)
  then show ?thesis
    by (auto simp: check_limits_def limits_ok_def split: option.splits)
qed

lemma setting_iff: "pair path n line = Inr kv \<longleftrightarrow> setting line = Some kv"
  by (cases "split_once ''='' line") (auto simp: setting_def pair_def Let_def split: if_splits)

lemma boolean_ok: "boolean path line text = Inr b \<longleftrightarrow> boolean [] 0 text = Inr b"
  by (simp add: boolean_def Let_def)

lemma apply_main_value_ok:
  "apply_main_value path line c key text = Inr c' \<longleftrightarrow> result_ok (apply_main_value [] 0 c key text) = Some c'"
  unfolding result_ok_Some apply_main_value_def
  by (auto simp: bindR_eq_Inr ok_or_eq_Inr boolean_ok [of path line])

lemma main_line_iff:
  "main_line path (n, raw) (c, m, seen) = Inr (c', m', seen') \<longleftrightarrow>
     (if skipped_line (trim raw) then (c', m', seen') = (c, m, seen)
      else if starts_with (trim raw) ''['' then trim raw = ''[main]'' \<and> \<not> m \<and> (c', m', seen') = (c, True, seen)
      else m \<and> m' \<and> (\<exists>key text. setting (trim raw) = Some (key, text) \<and> (key \<in> seen \<longrightarrow> list_key key)
        \<and> result_ok (apply_main_value [] 0 c key text) = Some c' \<and> seen' = insert key seen))"
  by (auto simp: main_line_def Let_def bindR_eq_Inr setting_iff apply_main_value_ok if_Inl_eq_Inr split: prod.splits)

definition counted :: "(nat \<times> string) list \<Rightarrow> string list" where
  "counted xs = filter (\<lambda>line. \<not> skipped_line line) (map (\<lambda>x. trim (snd x)) xs)"

lemma content_lines_counted: "counted (enumerate n (lines input)) = content_lines input"
  by (simp add: counted_def content_lines_def map_snd_enumerate map_map [symmetric] del: map_map flip: comp_def [of trim snd])

lemma counted_Cons: "counted ((n, raw) # xs) = (if skipped_line (trim raw) then counted xs else trim raw # counted xs)"
  by (simp add: counted_def)

definition main_section :: "string list \<Rightarrow> (string \<times> string) list \<Rightarrow> bool" where
  "main_section ls kvs \<longleftrightarrow> map setting ls = map Some kvs \<and> (\<forall>l\<in>set ls. \<not> starts_with l ''['')"

lemma main_section_simps:
  "main_section [] kvs \<longleftrightarrow> kvs = []"
  "main_section (l # ls) kvs \<longleftrightarrow> \<not> starts_with l ''[''
     \<and> (\<exists>kv kvs'. kvs = kv # kvs' \<and> setting l = Some kv \<and> main_section ls kvs')"
  by (cases kvs; auto simp: main_section_def)+

lemma main_lines_in:
  "foldR (main_line path) xs (c, True, seen) = Inr (c', m', seen') \<longleftrightarrow>
     m' \<and> (\<exists>kvs. main_section (counted xs) kvs \<and> distinct (single_keys kvs)
       \<and> set (single_keys kvs) \<inter> seen = {} \<and> apply_settings kvs c = Some c' \<and> seen' = seen \<union> fst ` set kvs)"
proof (induction xs arbitrary: c seen)
  case Nil
  then show ?case by (auto simp: counted_def main_section_simps single_keys_def)
next
  case (Cons x xs)
  obtain n raw where x: "x = (n, raw)" by force
  show ?case
  proof (cases "skipped_line (trim raw) \<or> starts_with (trim raw) ''[''")
    case True
    show ?thesis
    proof (cases "skipped_line (trim raw)")
      case True
      then have "main_line path (n, raw) (c, True, seen) = Inr (c, True, seen)" by (simp add: main_line_iff)
      then show ?thesis using True by (simp add: x counted_Cons Cons.IH)
    next
      case False
      then have sect: "starts_with (trim raw) ''[''" using True by simp
      have "main_line path (n, raw) (c, True, seen) \<noteq> Inr st" for st
        using False sect by (cases st) (simp add: main_line_iff)
      then have "foldR (main_line path) (x # xs) (c, True, seen) \<noteq> Inr (c', m', seen')"
        unfolding x foldR.simps bindR_eq_Inr by blast
      then show ?thesis using False sect by (simp add: x counted_Cons main_section_simps)
    qed
  next
    case False
    then have count: "counted (x # xs) = trim raw # counted xs" by (simp add: x counted_Cons)
    have step: "main_line path (n, raw) (c, True, seen) = Inr st \<longleftrightarrow>
        (\<exists>key tx c1. setting (trim raw) = Some (key, tx) \<and> (key \<in> seen \<longrightarrow> list_key key)
          \<and> result_ok (apply_main_value [] 0 c key tx) = Some c1 \<and> st = (c1, True, insert key seen))" for st
      using False by (cases st) (auto simp: main_line_iff)
    have "foldR (main_line path) (x # xs) (c, True, seen) = Inr (c', m', seen') \<longleftrightarrow>
        (\<exists>key tx c1. setting (trim raw) = Some (key, tx) \<and> (key \<in> seen \<longrightarrow> list_key key)
          \<and> result_ok (apply_main_value [] 0 c key tx) = Some c1
          \<and> foldR (main_line path) xs (c1, True, insert key seen) = Inr (c', m', seen'))"
      unfolding x foldR.simps bindR_eq_Inr step by blast
    also have "\<dots> \<longleftrightarrow> m' \<and> (\<exists>kvs. main_section (counted (x # xs)) kvs \<and> distinct (single_keys kvs)
       \<and> set (single_keys kvs) \<inter> seen = {} \<and> apply_settings kvs c = Some c' \<and> seen' = seen \<union> fst ` set kvs)"
      (is "?L \<longleftrightarrow> ?R")
    proof
      assume ?L
      then obtain key tx c1 kvs where
        s: "setting (trim raw) = Some (key, tx)" "key \<in> seen \<longrightarrow> list_key key"
          "result_ok (apply_main_value [] 0 c key tx) = Some c1"
        and k: "m'" "main_section (counted xs) kvs" "distinct (single_keys kvs)"
          "set (single_keys kvs) \<inter> insert key seen = {}" "apply_settings kvs c1 = Some c'"
          "seen' = insert key seen \<union> fst ` set kvs"
        unfolding Cons.IH by blast
      have "main_section (counted (x # xs)) ((key, tx) # kvs)"
        using s(1) k(2) False by (simp add: count main_section_simps)
      moreover have "distinct (single_keys ((key, tx) # kvs))"
        "set (single_keys ((key, tx) # kvs)) \<inter> seen = {}"
        using s(2) k(3,4) by (auto simp: single_keys_def)
      ultimately show ?R using s(3) k(1,5,6) by (intro conjI exI [of _ "(key, tx) # kvs"]) auto
    next
      assume ?R
      then obtain kvs where k: "m'" "main_section (counted (x # xs)) kvs" "distinct (single_keys kvs)"
        "set (single_keys kvs) \<inter> seen = {}" "apply_settings kvs c = Some c'" "seen' = seen \<union> fst ` set kvs"
        by blast
      from k(2) obtain key tx kvs' where kv: "kvs = (key, tx) # kvs'"
        "setting (trim raw) = Some (key, tx)" "main_section (counted xs) kvs'"
        by (auto simp: count main_section_simps)
      from k(5) kv(1) obtain c1 where c1: "result_ok (apply_main_value [] 0 c key tx) = Some c1"
        "apply_settings kvs' c1 = Some c'"
        by (auto split: option.splits)
      have "key \<in> seen \<longrightarrow> list_key key" "distinct (single_keys kvs')"
        "set (single_keys kvs') \<inter> insert key seen = {}"
        using k(3,4) kv(1) by (auto simp: single_keys_def split: if_splits)
      then show ?L
        unfolding Cons.IH using kv k(1,6) c1 by auto
    qed
    finally show ?thesis .
  qed
qed

lemma main_lines_out:
  "foldR (main_line path) xs (c, False, {}) = Inr (c', m', seen') \<longleftrightarrow>
     counted xs = [] \<and> (c', m', seen') = (c, False, {})
     \<or> m' \<and> (\<exists>rest kvs. counted xs = ''[main]'' # rest \<and> main_section rest kvs \<and> distinct (single_keys kvs)
          \<and> apply_settings kvs c = Some c' \<and> seen' = fst ` set kvs)"
proof (induction xs)
  case Nil
  then show ?case by (auto simp: counted_def)
next
  case (Cons x xs)
  obtain n raw where x: "x = (n, raw)" by force
  consider "skipped_line (trim raw)" | "\<not> skipped_line (trim raw)" "trim raw = ''[main]''"
    | "\<not> skipped_line (trim raw)" "trim raw \<noteq> ''[main]''" by blast
  then show ?case
  proof cases
    case 1
    then have "main_line path (n, raw) (c, False, {}) = Inr (c, False, {})" by (simp add: main_line_iff)
    then show ?thesis using 1 Cons.IH by (simp add: x counted_Cons)
  next
    case 2
    then have "main_line path (n, raw) (c, False, {}) = Inr (c, True, {})"
      by (simp add: main_line_iff starts_with_def)
    then show ?thesis using 2 by (simp add: x counted_Cons main_lines_in)
  next
    case 3
    then have "main_line path (n, raw) (c, False, {}) \<noteq> Inr st" for st
      by (cases st) (simp add: main_line_iff)
    then have "foldR (main_line path) (x # xs) (c, False, {}) \<noteq> Inr (c', m', seen')"
      unfolding x foldR.simps bindR_eq_Inr by blast
    then show ?thesis using 3 by (simp add: x counted_Cons)
  qed
qed

lemma parse_main_config_iff:
  "parse_main_config path input = Inr c \<longleftrightarrow> limits_ok input
     \<and> (content_lines input = [] \<and> c = default_main
        \<or> (\<exists>rest kvs. content_lines input = ''[main]'' # rest \<and> main_section rest kvs
             \<and> distinct (single_keys kvs) \<and> apply_settings kvs default_main = Some c))"
proof -
  have "parse_main_config path input = Inr c \<longleftrightarrow> limits_ok input
      \<and> (\<exists>m seen. foldR (main_line path) (enumerate 1 (lines input)) (default_main, False, {}) = Inr (c, m, seen))"
    unfolding parse_main_config_def bindR_eq_Inr using check_limits_iff [of path input] by force
  then show ?thesis unfolding main_lines_out content_lines_counted by blast
qed

text \<open>Every setting keeps the limit on parallel installations away from one.\<close>

lemma apply_main_value_limit:
  "apply_main_value path line c key tx = Inr c' \<Longrightarrow> mc_installonly_limit c \<noteq> 1 \<Longrightarrow> mc_installonly_limit c' \<noteq> 1"
  by (auto simp: apply_main_value_def bindR_eq_Inr split: if_splits)

lemma apply_settings_limit:
  "apply_settings kvs c = Some c' \<Longrightarrow> mc_installonly_limit c \<noteq> 1 \<Longrightarrow> mc_installonly_limit c' \<noteq> 1"
  by (induction kvs c rule: apply_settings.induct)
    (auto simp: result_ok_Some dest: apply_main_value_limit split: option.splits)

lemma parse_main_config_limit: "parse_main_config path input = Inr c \<Longrightarrow> mc_installonly_limit c \<noteq> 1"
  by (auto simp: parse_main_config_iff default_main_def dest!: apply_settings_limit)

text \<open>
  \<^verbatim>\<open>parse_main_config\<close> accepts exactly the files within the limits whose lines, apart
  from blank ones and comments, are nothing or one \<open>[main]\<close> header followed by valid settings in
  which only list keys repeat; the configuration is the default with the settings applied in
  order, and never limits parallel installations to one.
\<close>

theorem parse_main_config_exact:
  "(parse_main_config path input = Inr c \<longleftrightarrow> limits_ok input
     \<and> (content_lines input = [] \<and> c = default_main
        \<or> (\<exists>rest kvs. content_lines input = ''[main]'' # rest \<and> main_section rest kvs
             \<and> distinct (single_keys kvs) \<and> apply_settings kvs default_main = Some c)))
   \<and> (parse_main_config path input = Inr c \<longrightarrow> mc_installonly_limit c \<noteq> 1)"
  using parse_main_config_iff parse_main_config_limit by blast

definition example_main :: string where
  "example_main = ''[main]'' @ [CHR 0x0A] @ ''installonly_limit = 5'' @ [CHR 0x0A]"

lemma example_main_parses:
  "map_sum id mc_installonly_limit (parse_main_config ''dnf.conf'' example_main) = Inr 5"
  by code_simp

lemma map_sum_Inr_obtain: "map_sum id f r = Inr y \<Longrightarrow> \<exists>x. r = Inr x \<and> f x = y"
  by (cases r) auto

theorem parse_main_config_exact_witness:
  "\<exists>c. parse_main_config ''dnf.conf'' example_main = Inr c \<and> mc_installonly_limit c = 5
     \<and> mc_installonly_limit c \<noteq> 1 \<and> limits_ok example_main"
proof -
  obtain c where c: "parse_main_config ''dnf.conf'' example_main = Inr c" "mc_installonly_limit c = 5"
    using map_sum_Inr_obtain [OF example_main_parses] by blast
  then show ?thesis using parse_main_config_exact [of "''dnf.conf''" example_main c] by blast
qed

end
