(* ===== verification/Repo_Loader.thy ===== *)
theory Repo_Loader
  imports Repo_Config
begin

text \<open>
  \<^verbatim>\<open>crates/dnfast-repo/src/model.rs\<close>, \<^verbatim>\<open>parser.rs\<close>, \<^verbatim>\<open>refresh_policy.rs\<close>, \<^verbatim>\<open>loader.rs\<close>: repository files as
  the read-only commands see them. The file system is a parameter of the loader.
\<close>

section \<open>Repositories\<close>

datatype source_kind = BaseUrl | Metalink | Mirrorlist

fun source_kind_str :: "source_kind \<Rightarrow> string" where
  "source_kind_str BaseUrl = ''baseurl''"
| "source_kind_str Metalink = ''metalink''"
| "source_kind_str Mirrorlist = ''mirrorlist''"

record repository =
  rp_id :: string
  rp_enabled :: bool
  rp_baseurls :: "string list"
  rp_metalink :: "string option"
  rp_mirrorlist :: "string option"
  rp_origin :: string

definition sources :: "repository \<Rightarrow> (source_kind \<times> string) list" where
  "sources r = map (Pair BaseUrl) (rp_baseurls r)
     @ (case rp_metalink r of None \<Rightarrow> [] | Some s \<Rightarrow> [(Metalink, s)])
     @ (case rp_mirrorlist r of None \<Rightarrow> [] | Some s \<Rightarrow> [(Mirrorlist, s)])"

definition selected_source :: "repository \<Rightarrow> (source_kind \<times> string) option" where
  "selected_source r = (case sources r of [] \<Rightarrow> None | s # _ \<Rightarrow> Some s)"

section \<open>Parsing a file\<close>

record repository_builder =
  rb_repository :: repository
  rb_section_line :: nat

definition finish_repository ::
  "string \<Rightarrow> repository_builder option \<Rightarrow> repository list \<Rightarrow> (repo_error, repository list) result" where
  "finish_repository path current repositories =
     (case current of
        None \<Rightarrow> Inr repositories
      | Some b \<Rightarrow>
          if rp_enabled (rb_repository b) \<and> selected_source (rb_repository b) = None
          then Inl (parse_error path (rb_section_line b) ''enabled repository has no source'')
          else if rp_id (rb_repository b) \<in> set (map rp_id repositories)
          then Inl (parse_error path (rb_section_line b) (''duplicate repository id: '' @ rp_id (rb_repository b)))
          else Inr (repositories @ [rb_repository b]))"

definition assign_repository ::
  "string \<Rightarrow> nat \<Rightarrow> string \<Rightarrow> string \<Rightarrow> repository \<Rightarrow> (repo_error, repository) result" where
  "assign_repository path number key text r =
     (if key = ''enabled'' then
        (let lower = map to_ascii_lowercase text in
         if lower \<in> {''1'', ''true'', ''yes'', ''on''} then Inr (r\<lparr>rp_enabled := True\<rparr>)
         else if lower \<in> {''0'', ''false'', ''no'', ''off''} then Inr (r\<lparr>rp_enabled := False\<rparr>)
         else Inl (parse_error path number (''invalid boolean for enabled: '' @ text)))
      else if key = ''baseurl'' then Inr (r\<lparr>rp_baseurls := rp_baseurls r @ split_whitespace text\<rparr>)
      else if key = ''metalink'' then Inr (r\<lparr>rp_metalink := (if text \<noteq> [] then Some text else None)\<rparr>)
      else if key = ''mirrorlist'' then Inr (r\<lparr>rp_mirrorlist := (if text \<noteq> [] then Some text else None)\<rparr>)
      else Inr r)"

definition repository_line ::
  "string \<Rightarrow> nat \<times> string \<Rightarrow> repository list \<times> repository_builder option
     \<Rightarrow> (repo_error, repository list \<times> repository_builder option) result" where
  "repository_line path numbered state =
     (case (numbered, state) of ((number, raw), (repositories, current)) \<Rightarrow>
        let line = trim raw in
        if skipped_line line then Inr state
        else if starts_with line ''['' then
          (if \<not> ends_with line '']'' then Inl (parse_error path number ''malformed repository section'')
           else
             let repo_id = trim (butlast (tl line)) in
             if repo_id = [] then Inl (parse_error path number ''repository id cannot be empty'')
             else bindR (finish_repository path current repositories) (\<lambda>repositories'.
               Inr (repositories',
                 Some \<lparr>rb_repository = \<lparr>rp_id = repo_id, rp_enabled = True, rp_baseurls = [], rp_metalink = None,
                         rp_mirrorlist = None, rp_origin = path\<rparr>, rb_section_line = number\<rparr>)))
        else
          (case current of
             None \<Rightarrow> Inl (parse_error path number ''key outside repository section'')
           | Some b \<Rightarrow>
               bindR (ok_or (parse_error path number ''expected key=value'') (split_once ''='' line)) (\<lambda>(key, text).
               bindR (assign_repository path number (map to_ascii_lowercase (trim key)) (trim text) (rb_repository b))
                 (\<lambda>r. Inr (repositories, Some (b\<lparr>rb_repository := r\<rparr>))))))"

definition parse_repository_file :: "string \<Rightarrow> string \<Rightarrow> (repo_error, repository list) result" where
  "parse_repository_file path input =
     bindR (foldR (repository_line path) (enumerate 1 (lines input)) ([], None)) (\<lambda>(repositories, current).
       finish_repository path current repositories)"

section \<open>The refresh policy of a repository\<close>

record refresh_policy =
  fp_skip_if_unavailable :: bool

definition refresh_boolean :: "string \<Rightarrow> nat \<Rightarrow> string \<Rightarrow> (repo_error, bool) result" where
  "refresh_boolean path line text =
     (let lower = map to_ascii_lowercase text in
      if lower \<in> {''1'', ''true'', ''yes'', ''on''} then Inr True
      else if lower \<in> {''0'', ''false'', ''no'', ''off''} then Inr False
      else Inl (parse_error path line ''invalid refresh policy boolean''))"

definition refresh_line ::
  "string \<Rightarrow> string \<Rightarrow> nat \<times> string \<Rightarrow> bool \<times> bool \<Rightarrow> (repo_error, bool \<times> bool) result" where
  "refresh_line path repo_id numbered state =
     (case (numbered, state) of ((number, raw), (selected, skip)) \<Rightarrow>
        let line = trim raw in
        if starts_with line ''['' \<and> ends_with line '']''
        then Inr (trim (butlast (tl line)) = repo_id, skip)
        else if \<not> selected \<or> skipped_line line then Inr state
        else case split_once ''='' line of
          None \<Rightarrow> Inr state
        | Some (raw_key, raw_text) \<Rightarrow>
            let key = map to_ascii_lowercase (trim raw_key); text = trim raw_text in
            if key = ''skip_if_unavailable''
            then bindR (refresh_boolean path number text) (\<lambda>b. Inr (selected, b))
            else if key = ''sslverify'' then
              bindR (refresh_boolean path number text) (\<lambda>b.
                if \<not> b then Inl (parse_error path number ''sslverify=false is forbidden'') else Inr state)
            else if key = ''proxy'' \<and> text \<notin> {[], ''_none_''}
            then Inl (parse_error path number ''proxy is unsupported for secure refresh'')
            else Inr state)"

definition refresh_parse :: "string \<Rightarrow> string \<Rightarrow> string \<Rightarrow> (repo_error, refresh_policy) result" where
  "refresh_parse path input repo_id =
     bindR (foldR (refresh_line path repo_id) (enumerate 1 (lines input)) (False, False)) (\<lambda>(selected, skip).
       Inr \<lparr>fp_skip_if_unavailable = skip\<rparr>)"

text \<open>\<open>read\<close> stands for \<^verbatim>\<open>read_to_string\<close>: an error text or the content.\<close>

definition load_refresh_policy ::
  "(string \<Rightarrow> (string, string) result) \<Rightarrow> repository \<Rightarrow> (repo_error, refresh_policy) result" where
  "load_refresh_policy read r =
     bindR (map_err (\<lambda>e. parse_error (rp_origin r) 0 e) (read (rp_origin r))) (\<lambda>input.
       refresh_parse (rp_origin r) input (rp_id r))"

section \<open>Loading directories\<close>

datatype io_error = NotFound | OtherIo string

fun io_text :: "io_error \<Rightarrow> string" where
  "io_text NotFound = ''No such file or directory''"
| "io_text (OtherIo s) = s"

record link_metadata =
  lm_symlink :: bool
  lm_dir :: bool
  lm_file :: bool
  lm_dev :: nat
  lm_ino :: nat

record opened_file =
  of_dev :: "(io_error, nat \<times> nat) result"
  of_content :: "(io_error, bytes) result"

text \<open>\<^verbatim>\<open>symlink_metadata\<close>, \<^verbatim>\<open>read_dir\<close> with the type of each entry, and \<^verbatim>\<open>File::open\<close> with its metadata and content\<close>

record loader_os =
  lo_lstat :: "string \<Rightarrow> (io_error, link_metadata) result"
  lo_read_dir :: "string \<Rightarrow> (io_error, (io_error, string \<times> (io_error, bool) result) result list) result"
  lo_open :: "string \<Rightarrow> (io_error, opened_file) result"

definition repo_io_error :: "string \<Rightarrow> io_error \<Rightarrow> repo_error" where
  "repo_io_error path e = RepoIo path (io_text e)"

text \<open>\<^verbatim>\<open>Path::ancestors\<close>: the path, then its parents, the root or the empty path last\<close>

fun component_text :: "component \<Rightarrow> string" where
  "component_text RootDir = []"
| "component_text CurDir = ''.''"
| "component_text ParentDir = ''..''"
| "component_text (Normal n) = n"

fun path_text :: "component list \<Rightarrow> string" where
  "path_text [] = []"
| "path_text [c] = (if c = RootDir then ''/'' else component_text c)"
| "path_text (c # cs) = component_text c @ ''/'' @ path_text cs"

fun parents_of :: "component list \<Rightarrow> string list" where
  "parents_of [] = []"
| "parents_of (c # rest) = (if c = RootDir then [] else path_text (rev rest) # parents_of rest)"

definition ancestors :: "string \<Rightarrow> string list" where
  "ancestors p = p # parents_of (rev (components p))"

text \<open>The loop over ancestors.\<close>

fun symlink_among :: "loader_os \<Rightarrow> string list \<Rightarrow> (repo_error, bool) result" where
  "symlink_among os [] = Inr False"
| "symlink_among os (a # rest) =
     (case lo_lstat os a of
        Inr m \<Rightarrow> if lm_symlink m then Inr True else symlink_among os rest
      | Inl NotFound \<Rightarrow> symlink_among os rest
      | Inl e \<Rightarrow> Inl (repo_io_error a e))"

definition has_symlink_ancestor :: "loader_os \<Rightarrow> string \<Rightarrow> (repo_error, bool) result" where
  "has_symlink_ancestor os path = symlink_among os (ancestors path)"

definition entry_path ::
  "string \<Rightarrow> (io_error, string \<times> (io_error, bool) result) result \<Rightarrow> (repo_error, string list) result" where
  "entry_path directory entry =
     bindR (map_err (repo_io_error directory) entry) (\<lambda>(name, file_type).
     let path = path_join directory name in
     bindR (map_err (repo_io_error path) file_type) (\<lambda>is_file.
       Inr (if is_file \<and> extension_is ''repo'' path then [path] else [])))"

definition directory_paths ::
  "loader_os \<Rightarrow> string \<Rightarrow> (repo_error, string list) result" where
  "directory_paths os directory =
     bindR (has_symlink_ancestor os directory) (\<lambda>linked.
       if linked then Inr []
       else case lo_lstat os directory of
         Inl NotFound \<Rightarrow> Inr []
       | Inl e \<Rightarrow> Inl (repo_io_error directory e)
       | Inr m \<Rightarrow>
           if lm_symlink m \<or> \<not> lm_dir m then Inr []
           else case lo_read_dir os directory of
             Inl NotFound \<Rightarrow> Inr []
           | Inl e \<Rightarrow> Inl (repo_io_error directory e)
           | Inr entries \<Rightarrow> bindR (mapR (entry_path directory) entries) (\<lambda>ps. Inr (concat ps)))"

definition read_stable_regular_file :: "loader_os \<Rightarrow> string \<Rightarrow> (repo_error, bytes) result" where
  "read_stable_regular_file os path =
     bindR (map_err (repo_io_error path) (lo_lstat os path)) (\<lambda>before.
       if lm_symlink before \<or> \<not> lm_file before
       then Inl (parse_error path 1 ''repository path is not a regular file'')
       else
         bindR (map_err (repo_io_error path) (lo_open os path)) (\<lambda>opened.
         bindR (map_err (repo_io_error path) (of_dev opened)) (\<lambda>(dev, ino).
           if lm_dev before \<noteq> dev \<or> lm_ino before \<noteq> ino
           then Inl (parse_error path 1 ''repository file changed while opening'')
           else map_err (repo_io_error path) (of_content opened))))"

text \<open>\<^verbatim>\<open>Component\<close> orders its variants as declared, and names by their bytes.\<close>

fun component_rank :: "component \<Rightarrow> nat \<times> string" where
  "component_rank RootDir = (0, [])"
| "component_rank CurDir = (1, [])"
| "component_rank ParentDir = (2, [])"
| "component_rank (Normal n) = (3, n)"

lemma component_rank_inj: "component_rank a = component_rank b \<Longrightarrow> a = b"
  by (cases a; cases b) auto

instantiation component :: linorder
begin

definition less_eq_component :: "component \<Rightarrow> component \<Rightarrow> bool" where
  "a \<le> b \<longleftrightarrow> component_rank a \<le> component_rank b"

definition less_component :: "component \<Rightarrow> component \<Rightarrow> bool" where
  "a < b \<longleftrightarrow> component_rank a < component_rank b"

instance
  by intro_classes
    (auto simp only: less_eq_component_def less_component_def less_le_not_le linear dest: component_rank_inj antisym order_trans)

end

definition add_repository ::
  "string \<Rightarrow> repository \<Rightarrow> (string, string) btree_map \<times> repository list
     \<Rightarrow> (repo_error, (string, string) btree_map \<times> repository list) result" where
  "add_repository path r state =
     (case state of (seen, repositories) \<Rightarrow>
        case map_of seen (rp_id r) of
          Some previous \<Rightarrow> Inl (parse_error path 1 (''duplicate repository id '' @ rp_id r
            @ '' (already defined in '' @ previous @ '')''))
        | None \<Rightarrow> Inr (bt_insert (rp_id r) path seen, repositories @ [r]))"

definition load_file ::
  "loader_os \<Rightarrow> string \<Rightarrow> (string, string) btree_map \<times> repository list
     \<Rightarrow> (repo_error, (string, string) btree_map \<times> repository list) result" where
  "load_file os path state =
     bindR (read_stable_regular_file os path) (\<lambda>bs.
       if \<not> utf8_ok bs then Inl (InvalidUtf8 path)
       else bindR (parse_repository_file path bs) (\<lambda>rs. foldR (add_repository path) rs state))"

definition load_repository_dirs ::
  "loader_os \<Rightarrow> string list \<Rightarrow> (repo_error, repository list) result" where
  "load_repository_dirs os directories =
     bindR (mapR (directory_paths os) directories) (\<lambda>found.
     bindR (foldR (load_file os) (sort_key components (concat found)) ([], [])) (\<lambda>(seen, repositories).
       Inr (sort_key (\<lambda>r. (components (rp_origin r), rp_id r)) repositories)))"

section \<open>What a loaded set of repositories is\<close>

definition repository_ok :: "string \<Rightarrow> repository \<Rightarrow> bool" where
  "repository_ok path r \<longleftrightarrow> rp_id r \<noteq> [] \<and> rp_origin r = path \<and> (rp_enabled r \<longrightarrow> selected_source r \<noteq> None)"

definition builder_ok :: "string \<Rightarrow> repository_builder option \<Rightarrow> bool" where
  "builder_ok path current \<longleftrightarrow> pred_option (\<lambda>b. rp_id (rb_repository b) \<noteq> [] \<and> rp_origin (rb_repository b) = path) current"

definition file_inv :: "string \<Rightarrow> repository list \<times> repository_builder option \<Rightarrow> bool" where
  "file_inv path st \<longleftrightarrow> list_all (repository_ok path) (fst st) \<and> distinct (map rp_id (fst st)) \<and> builder_ok path (snd st)"

lemma selected_source_iff:
  "selected_source r = None \<longleftrightarrow> rp_baseurls r = [] \<and> rp_metalink r = None \<and> rp_mirrorlist r = None"
  by (auto simp: selected_source_def sources_def split: list.splits option.splits)

lemma finish_repository_inv:
  "finish_repository path current rs = Inr rs' \<Longrightarrow> file_inv path (rs, current) \<Longrightarrow> file_inv path (rs', None)"
  by (auto simp: finish_repository_def file_inv_def builder_ok_def repository_ok_def split: option.splits if_splits)

lemma assign_repository_frame:
  "assign_repository path n key tx r = Inr r' \<Longrightarrow> rp_id r' = rp_id r \<and> rp_origin r' = rp_origin r"
  by (auto simp: assign_repository_def Let_def split: if_splits)

lemma repository_line_inv:
  assumes "repository_line path (n, raw) (rs, current) = Inr st" "file_inv path (rs, current)"
  shows "file_inv path st"
proof -
  consider "skipped_line (trim raw)" | "\<not> skipped_line (trim raw)" "starts_with (trim raw) ''[''"
    | "\<not> skipped_line (trim raw)" "\<not> starts_with (trim raw) ''[''" by blast
  then show ?thesis
  proof cases
    case 1
    then show ?thesis using assms by (auto simp: repository_line_def)
  next
    case 2
    then obtain rs' where rs': "finish_repository path current rs = Inr rs'" "trim (butlast (tl (trim raw))) \<noteq> []"
      "st = (rs', Some \<lparr>rb_repository = \<lparr>rp_id = trim (butlast (tl (trim raw))), rp_enabled = True, rp_baseurls = [],
         rp_metalink = None, rp_mirrorlist = None, rp_origin = path\<rparr>, rb_section_line = n\<rparr>)"
      using assms(1) by (auto simp: repository_line_def Let_def bindR_eq_Inr split: if_splits)
    then show ?thesis using finish_repository_inv [OF rs'(1) assms(2)] by (simp add: file_inv_def builder_ok_def)
  next
    case 3
    then obtain b where b: "current = Some b"
      using assms(1) by (cases current) (auto simp: repository_line_def)
    then obtain key tx r where r: "assign_repository path n key tx (rb_repository b) = Inr r"
      "st = (rs, Some (b\<lparr>rb_repository := r\<rparr>))"
      using assms(1) 3 by (auto simp: repository_line_def Let_def bindR_eq_Inr)
    then show ?thesis using assms(2) assign_repository_frame [OF r(1)] b by (simp add: file_inv_def builder_ok_def)
  qed
qed

lemma parse_repository_file_ok:
  assumes "parse_repository_file path input = Inr rs"
  shows "list_all (repository_ok path) rs \<and> distinct (map rp_id rs)"
proof -
  from assms obtain st where st: "foldR (repository_line path) (enumerate 1 (lines input)) ([], None) = Inr st"
    "finish_repository path (snd st) (fst st) = Inr rs"
    unfolding parse_repository_file_def bindR_eq_Inr by (auto simp: case_prod_beta)
  have "file_inv path ([], None)" by (simp add: file_inv_def builder_ok_def)
  with st(1) have "file_inv path st"
    by (rule foldR_invariant) (metis prod.collapse repository_line_inv)
  then show ?thesis using finish_repository_inv [OF st(2)] by (simp add: file_inv_def)
qed

definition seen_inv :: "(string, string) btree_map \<times> repository list \<Rightarrow> bool" where
  "seen_inv st \<longleftrightarrow> bt_ok (fst st) \<and> dom (map_of (fst st)) = rp_id ` set (snd st)"

lemma add_repository_iff:
  assumes "seen_inv (seen, acc)"
  shows "add_repository path r (seen, acc) = Inr st \<longleftrightarrow>
    rp_id r \<notin> rp_id ` set acc \<and> st = (bt_insert (rp_id r) path seen, acc @ [r])"
proof -
  have "map_of seen (rp_id r) = None \<longleftrightarrow> rp_id r \<notin> rp_id ` set acc"
    using assms unfolding seen_inv_def by (metis domIff fst_conv snd_conv)
  then show ?thesis by (auto simp: add_repository_def split: option.splits)
qed

lemma add_repository_inv:
  assumes "seen_inv (seen, acc)"
  shows "seen_inv (bt_insert (rp_id r) path seen, acc @ [r])"
proof -
  have ok: "bt_ok seen" and dm: "dom (map_of seen) = rp_id ` set acc" using assms by (simp_all add: seen_inv_def)
  have "dom (map_of (bt_insert (rp_id r) path seen)) = insert (rp_id r) (dom (map_of seen))"
    using ok by (auto simp: bt_insert_map_of dom_def)
  then show ?thesis using ok dm by (simp add: seen_inv_def bt_ok_insert)
qed

lemma add_repositories_iff:
  "seen_inv st \<Longrightarrow> foldR (add_repository path) rs st = Inr st' \<Longrightarrow>
     seen_inv st' \<and> snd st' = snd st @ rs \<and> distinct (map rp_id rs) \<and> rp_id ` set rs \<inter> rp_id ` set (snd st) = {}"
proof (induction rs arbitrary: st)
  case (Cons r rs)
  obtain seen acc where st: "st = (seen, acc)" by force
  from Cons.prems(2) obtain st1 where st1: "add_repository path r (seen, acc) = Inr st1"
    "foldR (add_repository path) rs st1 = Inr st'"
    by (auto simp: st bindR_eq_Inr)
  then have "rp_id r \<notin> rp_id ` set acc" "st1 = (bt_insert (rp_id r) path seen, acc @ [r])"
    using add_repository_iff Cons.prems(1) st by blast+
  moreover have "seen_inv st1" using calculation(2) add_repository_inv Cons.prems(1) st by blast
  ultimately show ?case using Cons.IH [OF _ st1(2)] st by auto
qed simp

lemma add_repositories_total:
  "seen_inv st \<Longrightarrow> distinct (map rp_id rs) \<Longrightarrow> rp_id ` set rs \<inter> rp_id ` set (snd st) = {} \<Longrightarrow>
     \<exists>st'. foldR (add_repository path) rs st = Inr st'"
proof (induction rs arbitrary: st)
  case (Cons r rs)
  obtain seen acc where st: "st = (seen, acc)" by force
  let ?st1 = "(bt_insert (rp_id r) path seen, acc @ [r])"
  have "add_repository path r st = Inr ?st1"
    using add_repository_iff [of seen acc path r ?st1] Cons.prems st by auto
  moreover have "\<exists>st'. foldR (add_repository path) rs ?st1 = Inr st'"
  proof (rule Cons.IH)
    show "seen_inv ?st1" using add_repository_inv Cons.prems(1) st by blast
    show "rp_id ` set rs \<inter> rp_id ` set (snd ?st1) = {}" using Cons.prems(2,3) st by auto
  qed (use Cons.prems in simp)
  ultimately show ?case by simp
qed simp

definition read_repositories :: "loader_os \<Rightarrow> string \<Rightarrow> (repo_error, repository list) result" where
  "read_repositories os path =
     bindR (read_stable_regular_file os path) (\<lambda>bs.
       if \<not> utf8_ok bs then Inl (InvalidUtf8 path) else parse_repository_file path bs)"

lemma load_file_eq:
  "load_file os path st = bindR (read_repositories os path) (\<lambda>rs. foldR (add_repository path) rs st)"
  by (cases "read_stable_regular_file os path") (simp_all add: load_file_def read_repositories_def)

definition apart_ids :: "string set \<Rightarrow> repository list \<Rightarrow> bool" where
  "apart_ids S rs \<longleftrightarrow> distinct (map rp_id rs) \<and> rp_id ` set rs \<inter> S = {}"

lemma apart_ids_append: "apart_ids S (rs @ cs) \<longleftrightarrow> apart_ids S rs \<and> apart_ids (S \<union> rp_id ` set rs) cs"
  by (simp add: apart_ids_def image_Un) blast

lemma load_files_iff:
  "seen_inv st \<Longrightarrow> (\<exists>seen. foldR (load_file os) paths st = Inr (seen, out)) \<longleftrightarrow>
     (\<exists>rss. mapR (read_repositories os) paths = Inr rss \<and> out = snd st @ concat rss
        \<and> distinct (map rp_id (concat rss)) \<and> rp_id ` set (concat rss) \<inter> rp_id ` set (snd st) = {})"
proof (induction paths arbitrary: st)
  case Nil
  then show ?case by (cases st) auto
next
  case (Cons path paths)
  have "(\<exists>seen. foldR (load_file os) (path # paths) st = Inr (seen, out)) \<longleftrightarrow>
      (\<exists>rs st1. read_repositories os path = Inr rs \<and> foldR (add_repository path) rs st = Inr st1
        \<and> (\<exists>seen. foldR (load_file os) paths st1 = Inr (seen, out)))"
    by (auto simp: load_file_eq bindR_eq_Inr)
  also have "\<dots> \<longleftrightarrow> (\<exists>rs rss. read_repositories os path = Inr rs \<and> mapR (read_repositories os) paths = Inr rss
      \<and> out = snd st @ rs @ concat rss \<and> apart_ids (rp_id ` set (snd st)) (rs @ concat rss))" (is "?L \<longleftrightarrow> ?R")
  proof
    assume ?L
    then obtain rs st1 where rs: "read_repositories os path = Inr rs"
      and f: "foldR (add_repository path) rs st = Inr st1"
      and e: "\<exists>seen. foldR (load_file os) paths st1 = Inr (seen, out)" by metis
    note a = add_repositories_iff [OF Cons.prems f]
    obtain rss where "mapR (read_repositories os) paths = Inr rss" "out = snd st1 @ concat rss"
      "apart_ids (rp_id ` set (snd st1)) (concat rss)"
      using Cons.IH [of st1] a e unfolding apart_ids_def by metis
    then show ?R using rs a by (intro exI [of _ rs] exI [of _ rss]) (simp add: apart_ids_append apart_ids_def [of _ rs] image_Un)
  next
    assume ?R
    then obtain rs rss where rs: "read_repositories os path = Inr rs" "mapR (read_repositories os) paths = Inr rss"
      "out = snd st @ rs @ concat rss" "apart_ids (rp_id ` set (snd st)) rs"
      "apart_ids (rp_id ` set (snd st) \<union> rp_id ` set rs) (concat rss)"
      unfolding apart_ids_append by (elim exE conjE)
    obtain st1 where f: "foldR (add_repository path) rs st = Inr st1"
      using add_repositories_total [OF Cons.prems] rs(4) unfolding apart_ids_def by metis
    note a = add_repositories_iff [OF Cons.prems f]
    have "\<exists>seen. foldR (load_file os) paths st1 = Inr (seen, out)"
      using Cons.IH [of st1] a rs(2,3,5) by (simp add: apart_ids_def image_Un)
    then show ?L using rs(1) f by (intro exI [of _ rs] exI [of _ st1] conjI)
  qed
  also have "\<dots> \<longleftrightarrow> (\<exists>rss. mapR (read_repositories os) (path # paths) = Inr rss \<and> out = snd st @ concat rss
        \<and> apart_ids (rp_id ` set (snd st)) (concat rss))"
    by (auto simp: bindR_eq_Inr)
  finally show ?case unfolding apart_ids_def .
qed

text \<open>
  \<^verbatim>\<open>load_repository_dirs\<close> returns exactly the repositories of all \<^verbatim>\<open>.repo\<close> files found in
  the directories that are not symbolic links, in order of file and id, provided that every
  such file is a stable regular UTF-8 file that parses and no id occurs twice; each repository
  has an id, names its file and, when enabled, has a source.
\<close>

theorem load_repository_dirs_exact:
  "(load_repository_dirs os directories = Inr rs \<longleftrightarrow>
     (\<exists>found rss. mapR (directory_paths os) directories = Inr found
        \<and> mapR (read_repositories os) (sort_key components (concat found)) = Inr rss
        \<and> distinct (map rp_id (concat rss))
        \<and> rs = sort_key (\<lambda>r. (components (rp_origin r), rp_id r)) (concat rss)))
   \<and> (load_repository_dirs os directories = Inr rs \<longrightarrow>
       (\<forall>r\<in>set rs. repository_ok (rp_origin r) r) \<and> distinct (map rp_id rs))"
proof -
  let ?sort = "sort_key (\<lambda>r. (components (rp_origin r), rp_id r))"
  have iff: "load_repository_dirs os directories = Inr rs \<longleftrightarrow>
     (\<exists>found rss. mapR (directory_paths os) directories = Inr found
        \<and> mapR (read_repositories os) (sort_key components (concat found)) = Inr rss
        \<and> distinct (map rp_id (concat rss)) \<and> rs = ?sort (concat rss))"
  proof -
    have "load_repository_dirs os directories = Inr rs \<longleftrightarrow>
        (\<exists>found out. mapR (directory_paths os) directories = Inr found
          \<and> (\<exists>seen. foldR (load_file os) (sort_key components (concat found)) ([], []) = Inr (seen, out))
          \<and> rs = ?sort out)"
      by (auto simp: load_repository_dirs_def bindR_eq_Inr)
    moreover have "seen_inv ([], [])" by (simp add: seen_inv_def)
    ultimately show ?thesis by (simp add: load_files_iff) blast
  qed
  moreover have "(\<forall>r\<in>set rs. repository_ok (rp_origin r) r) \<and> distinct (map rp_id rs)"
    if "load_repository_dirs os directories = Inr rs"
  proof -
    from that iff obtain paths rss where rss: "mapR (read_repositories os) paths = Inr rss"
      "distinct (map rp_id (concat rss))" "rs = ?sort (concat rss)" by blast
    have "repository_ok (rp_origin r) r" if r: "r \<in> set (concat rss)" for r
    proof -
      from r obtain xs where "xs \<in> set rss" "r \<in> set xs" by auto
      then obtain i where i: "i < length rss" "r \<in> set (rss ! i)" by (metis in_set_conv_nth)
      then have "read_repositories os (paths ! i) = Inr (rss ! i)" using rss(1) by (simp add: mapR_eq_Inr)
      then have "list_all (repository_ok (paths ! i)) (rss ! i)"
        using parse_repository_file_ok by (auto simp: read_repositories_def bindR_eq_Inr split: if_splits)
      then show ?thesis using i(2) by (auto simp: list_all_iff repository_ok_def)
    qed
    moreover have "distinct (map rp_id rs)"
      using rss(2,3) by (simp add: distinct_map del: map_concat)
    ultimately show ?thesis using rss(3) by simp
  qed
  ultimately show ?thesis by blast
qed

definition example_loader :: loader_os where
  "example_loader =
     \<lparr>lo_lstat = (\<lambda>p. if p = ''/d/a.repo''
        then Inr \<lparr>lm_symlink = False, lm_dir = False, lm_file = True, lm_dev = 1, lm_ino = 2\<rparr>
        else Inr \<lparr>lm_symlink = False, lm_dir = True, lm_file = False, lm_dev = 1, lm_ino = 1\<rparr>),
      lo_read_dir = (\<lambda>_. Inr [Inr (''notes'', Inr True), Inr (''a.repo'', Inr True)]),
      lo_open = (\<lambda>_. Inr \<lparr>of_dev = Inr (1, 2),
        of_content = Inr (''[b]'' @ [CHR 0x0A] @ ''baseurl=u'' @ [CHR 0x0A] @ ''[a]'' @ [CHR 0x0A] @ ''Enabled=No'')\<rparr>)\<rparr>"

lemma example_loader_run:
  "map_sum id (map (\<lambda>r. (rp_id r, rp_enabled r, rp_baseurls r))) (load_repository_dirs example_loader [''/d'']) =
     Inr [(''a'', False, []), (''b'', True, [''u''])]"
  by code_simp

theorem load_repository_dirs_exact_witness:
  "\<exists>rs. load_repository_dirs example_loader [''/d''] = Inr rs \<and> distinct (map rp_id rs)
     \<and> map (\<lambda>r. (rp_id r, rp_enabled r, rp_baseurls r)) rs = [(''a'', False, []), (''b'', True, [''u''])]"
proof -
  obtain rs where rs: "load_repository_dirs example_loader [''/d''] = Inr rs"
    "map (\<lambda>r. (rp_id r, rp_enabled r, rp_baseurls r)) rs = [(''a'', False, []), (''b'', True, [''u''])]"
    using map_sum_Inr_obtain [OF example_loader_run] by metis
  then have "distinct (map rp_id rs)"
    using load_repository_dirs_exact [of example_loader "[''/d'']" rs] by (elim conjE) simp
  then show ?thesis using rs by (intro exI [of _ rs] conjI)
qed

section \<open>The refresh policy forbids weaker transport\<close>

lemma refresh_boolean_false: "refresh_boolean path n tx = Inr False \<longleftrightarrow> map to_ascii_lowercase tx \<in> {''0'', ''false'', ''no'', ''off''}"
  by (auto simp: refresh_boolean_def Let_def)

lemma refresh_line_secure:
  assumes "refresh_line path repo_id (n, raw) (True, skip) = Inr st" "\<not> skipped_line (trim raw)"
    "\<not> (starts_with (trim raw) ''['' \<and> ends_with (trim raw) '']'')"
    "split_once ''='' (trim raw) = Some (k, v)"
  shows "map to_ascii_lowercase (trim k) = ''sslverify'' \<Longrightarrow> refresh_boolean path n (trim v) = Inr True"
    and "map to_ascii_lowercase (trim k) = ''proxy'' \<Longrightarrow> trim v \<in> {[], ''_none_''}"
  using assms by (auto simp: refresh_line_def Let_def bindR_eq_Inr split: if_splits)

end
