(* ===== verification/Repo_Fs.thy ===== *)
theory Repo_Fs
  imports Repo_Config
begin

text \<open>
  \<^verbatim>\<open>crates/dnfast-repo/src/anchored_fs.rs\<close>: reading trusted files by walking the path from the root
  directory, one component at a time and without following symbolic links. The operating system
  is a parameter: what a directory entry is, as \<^verbatim>\<open>openat\<close>, \<^verbatim>\<open>fstat\<close> and \<^verbatim>\<open>read\<close> report it.
\<close>

unbundle bit_operations_syntax

section \<open>The operating system\<close>

datatype file_type = RegularFile | DirectoryFile | SymlinkFile | OtherFile

text \<open>A node; its content is absent when reading it fails.\<close>

record node =
  nd_type :: file_type
  nd_uid :: u32
  nd_perm :: u32
  nd_nlink :: nat
  nd_content :: "bytes option"
  nd_target :: "string option"

text \<open>
  \<open>os_node\<close> is the entry at a sequence of names from the root, symbolic links not followed;
  \<open>os_exists\<close>, \<open>os_lstat\<close> and \<open>os_read_dir\<close> are \<^verbatim>\<open>Path::exists\<close>, \<^verbatim>\<open>symlink_metadata\<close> and \<^verbatim>\<open>read_dir\<close>
  on whole paths.
\<close>

record os =
  os_node :: "string list \<Rightarrow> node option"
  os_exists :: "string \<Rightarrow> bool"
  os_lstat :: "string \<Rightarrow> node option"
  os_read_dir :: "string \<Rightarrow> string option list option"

text \<open>\<^verbatim>\<open>openat\<close> with \<^verbatim>\<open>O_NOFOLLOW\<close>, and with \<^verbatim>\<open>O_DIRECTORY\<close> when \<open>directory\<close> holds\<close>

definition open_node :: "os \<Rightarrow> bool \<Rightarrow> string list \<Rightarrow> node option" where
  "open_node os directory names =
     (case os_node os names of
        None \<Rightarrow> None
      | Some n \<Rightarrow> if nd_type n = SymlinkFile \<or> (directory \<and> nd_type n \<noteq> DirectoryFile) then None else Some n)"

definition read_node :: "node \<Rightarrow> bytes option" where
  "read_node n = (if nd_type n = DirectoryFile then None else nd_content n)"

section \<open>Checks\<close>

definition validate_node :: "node \<Rightarrow> bool \<Rightarrow> string \<Rightarrow> u32 \<Rightarrow> (mutation_error, unit) result" where
  "validate_node n is_file path owner =
     (let expected = (if is_file then RegularFile else DirectoryFile);
          owner_valid = (nd_uid n = owner \<or> (owner \<noteq> 0 \<and> nd_uid n = 0))
      in if \<not> owner_valid \<or> nd_perm n AND 0x12 \<noteq> 0 \<or> (is_file \<and> nd_nlink n \<noteq> 1) \<or> nd_type n \<noteq> expected
         then Inl (mutation_error_new path 0 ''untrusted root ownership, mode, or file type'')
         else Inr ())"

definition validate_link_metadata :: "node \<Rightarrow> string \<Rightarrow> u32 \<Rightarrow> (mutation_error, unit) result" where
  "validate_link_metadata n path owner =
     (if nd_uid n = owner \<and> nd_nlink n = 1 then Inr ()
      else Inl (mutation_error_new path 0 ''untrusted system key alias ownership or mode''))"

definition valid_member_name :: "string \<Rightarrow> bool" where
  "valid_member_name name \<longleftrightarrow> name \<noteq> [] \<and> CHR ''/'' \<notin> set name \<and> name \<noteq> ''.'' \<and> name \<noteq> ''..''"

section \<open>Walks from the root\<close>

fun walk_file ::
  "os \<Rightarrow> string \<Rightarrow> u32 \<Rightarrow> string list \<Rightarrow> node \<Rightarrow> component list \<Rightarrow> (mutation_error, node) result" where
  "walk_file os path owner at current [] = Inr current"
| "walk_file os path owner at current (c # rest) =
     (case c of
        Normal name \<Rightarrow>
          (let final_component = (rest = []) in
           bindR (ok_or (mutation_error_new path 0 ''cannot open trusted path component'')
             (open_node os (\<not> final_component) (at @ [name]))) (\<lambda>opened.
           bindR (validate_node opened final_component path owner) (\<lambda>_.
             walk_file os path owner (at @ [name]) opened rest)))
      | _ \<Rightarrow> Inl (mutation_error_new path 0 ''trusted path contains invalid component''))"

definition open_root_regular_file :: "os \<Rightarrow> string \<Rightarrow> u32 \<Rightarrow> (mutation_error, node) result" where
  "open_root_regular_file os path owner =
     (if \<not> is_absolute path then Inl (mutation_error_new path 0 ''trusted path is not absolute'')
      else bindR (ok_or (mutation_error_new path 0 ''cannot anchor root directory'') (open_node os True []))
        (\<lambda>root. case components path of
           RootDir # rest \<Rightarrow> walk_file os path owner [] root rest
         | _ \<Rightarrow> Inl (mutation_error_new path 0 ''trusted path is not rooted'')))"

fun walk_directory ::
  "os \<Rightarrow> string \<Rightarrow> u32 \<Rightarrow> string list \<Rightarrow> component list \<Rightarrow> (mutation_error, string list) result" where
  "walk_directory os path owner at [] = Inr at"
| "walk_directory os path owner at (c # rest) =
     (case c of
        Normal name \<Rightarrow>
          bindR (ok_or (mutation_error_new path 0 ''cannot open trusted directory component'')
            (open_node os True (at @ [name]))) (\<lambda>opened.
          bindR (validate_node opened False path owner) (\<lambda>_. walk_directory os path owner (at @ [name]) rest))
      | _ \<Rightarrow> Inl (mutation_error_new path 0 ''trusted directory contains invalid component''))"

definition open_root_directory :: "os \<Rightarrow> string \<Rightarrow> u32 \<Rightarrow> (mutation_error, string list) result" where
  "open_root_directory os path owner =
     (if \<not> is_absolute path then Inl (mutation_error_new path 0 ''trusted directory is not absolute'')
      else bindR (ok_or (mutation_error_new path 0 ''cannot anchor root directory'') (open_node os True []))
        (\<lambda>_. case components path of
           RootDir # rest \<Rightarrow> walk_directory os path owner [] rest
         | _ \<Rightarrow> Inl (mutation_error_new path 0 ''trusted directory is not rooted'')))"

section \<open>Reading\<close>

definition read_root_file :: "os \<Rightarrow> string \<Rightarrow> nat \<Rightarrow> u32 \<Rightarrow> (mutation_error, bytes) result" where
  "read_root_file os path limit owner =
     bindR (open_root_regular_file os path owner) (\<lambda>opened.
     bindR (ok_or (mutation_error_new path 0 ''cannot read trusted file'') (read_node opened)) (\<lambda>content.
       let bytes = take (limit + 1) content in
       if length bytes > limit then Inl (mutation_error_new path 0 ''trusted file exceeds size limit'')
       else Inr bytes))"

definition validate_root_executable :: "os \<Rightarrow> string \<Rightarrow> u32 \<Rightarrow> (mutation_error, unit) result" where
  "validate_root_executable os path owner =
     bindR (open_root_regular_file os path owner) (\<lambda>executable.
       if nd_perm executable AND 0x49 = 0
       then Inl (mutation_error_new path 0 ''trusted executable is not executable'')
       else Inr ())"

definition system_key_name :: "string \<Rightarrow> string \<Rightarrow> (mutation_error, string) result" where
  "system_key_name path directory =
     (if path_parent path \<noteq> Some (components directory)
      then Inl (mutation_error_new path 0 ''system gpgkey is outside trusted directory'')
      else bindR (ok_or (mutation_error_new path 0 ''system gpgkey has no filename'') (file_name path)) (\<lambda>name.
        if \<not> valid_member_name name
        then Inl (mutation_error_new path 0 ''system gpgkey has unsafe filename'')
        else Inr name))"

text \<open>The loop over aliases, with the number of rounds left.\<close>

fun key_member ::
  "nat \<Rightarrow> os \<Rightarrow> string list \<Rightarrow> string \<Rightarrow> string \<Rightarrow> u32 \<Rightarrow> (mutation_error, node) result" where
  "key_member 0 os directory name path owner =
     Inl (mutation_error_new path 0 ''trusted system key alias chain exceeds limit'')"
| "key_member (Suc rounds) os directory name path owner =
     bindR (ok_or (mutation_error_new path 0 ''cannot inspect trusted system key'') (os_node os (directory @ [name])))
       (\<lambda>metadata. case nd_type metadata of
          RegularFile \<Rightarrow>
            bindR (ok_or (mutation_error_new path 0 ''cannot open trusted system key'')
              (open_node os False (directory @ [name]))) (\<lambda>opened.
            bindR (validate_node opened True path owner) (\<lambda>_. Inr opened))
        | SymlinkFile \<Rightarrow>
            bindR (validate_link_metadata metadata path owner) (\<lambda>_.
            bindR (ok_or (mutation_error_new path 0 ''cannot read trusted system key alias'') (nd_target metadata))
              (\<lambda>target.
                if \<not> valid_member_name target
                then Inl (mutation_error_new path 0 ''trusted system key alias escapes directory'')
                else key_member rounds os directory target path owner))
        | _ \<Rightarrow> Inl (mutation_error_new path 0 ''trusted system key has invalid file type''))"

definition open_system_key_member ::
  "os \<Rightarrow> string list \<Rightarrow> string \<Rightarrow> string \<Rightarrow> u32 \<Rightarrow> (mutation_error, node) result" where
  "open_system_key_member os directory initial_name path owner =
     key_member 8 os directory initial_name path owner"

definition read_system_gpg_key ::
  "os \<Rightarrow> string \<Rightarrow> string \<Rightarrow> nat \<Rightarrow> u32 \<Rightarrow> (mutation_error, bytes) result" where
  "read_system_gpg_key os path directory limit owner =
     bindR (system_key_name path directory) (\<lambda>name.
     bindR (open_root_directory os directory owner) (\<lambda>directory_fd.
     bindR (open_system_key_member os directory_fd name path owner) (\<lambda>opened.
     bindR (ok_or (mutation_error_new path 0 ''cannot read trusted system key'') (read_node opened)) (\<lambda>content.
       let bytes = take (limit + 1) content in
       if length bytes > limit then Inl (mutation_error_new path 0 ''trusted system key exceeds size limit'')
       else Inr bytes))))"

section \<open>What a walk guarantees\<close>

definition trusted_node :: "u32 \<Rightarrow> file_type \<Rightarrow> node \<Rightarrow> bool" where
  "trusted_node owner t n \<longleftrightarrow> nd_type n = t \<and> (nd_uid n = owner \<or> owner \<noteq> 0 \<and> nd_uid n = 0)
     \<and> nd_perm n AND 0x12 = 0 \<and> (t = RegularFile \<longrightarrow> nd_nlink n = 1)"

text \<open>All directories above a sequence of names, below the root, are trusted.\<close>

definition trusted_above :: "os \<Rightarrow> u32 \<Rightarrow> string list \<Rightarrow> bool" where
  "trusted_above os owner names \<longleftrightarrow>
     (\<forall>i. 0 < i \<and> i < length names \<longrightarrow> (\<exists>n. os_node os (take i names) = Some n \<and> trusted_node owner DirectoryFile n))"

lemma validate_node_iff:
  "validate_node n is_file path owner = Inr () \<longleftrightarrow>
     trusted_node owner (if is_file then RegularFile else DirectoryFile) n"
  by (auto simp: validate_node_def trusted_node_def Let_def)

lemma open_validated_iff:
  "(\<exists>n. open_node os (\<not> is_file) names = Some n \<and> validate_node n is_file path owner = Inr () \<and> P n) \<longleftrightarrow>
     (\<exists>n. os_node os names = Some n \<and> trusted_node owner (if is_file then RegularFile else DirectoryFile) n \<and> P n)"
  by (auto simp: open_node_def validate_node_iff trusted_node_def split: option.splits if_splits)

fun trusted_walk :: "os \<Rightarrow> u32 \<Rightarrow> string list \<Rightarrow> string list \<Rightarrow> bool" where
  "trusted_walk os owner at [] = True"
| "trusted_walk os owner at [name] = True"
| "trusted_walk os owner at (name # names) =
     ((\<exists>n. os_node os (at @ [name]) = Some n \<and> trusted_node owner DirectoryFile n)
      \<and> trusted_walk os owner (at @ [name]) names)"

lemma walk_file_iff:
  "walk_file os path owner at current cs = Inr n \<longleftrightarrow>
     cs = [] \<and> n = current
     \<or> (\<exists>names. names \<noteq> [] \<and> cs = map Normal names \<and> trusted_walk os owner at names
          \<and> os_node os (at @ names) = Some n \<and> trusted_node owner RegularFile n)"
proof (induction cs arbitrary: at current)
  case (Cons c cs)
  show ?case
  proof (cases c)
    case (Normal name)
    show ?thesis
    proof (cases "cs = []")
      case True
      have "walk_file os path owner at current (c # cs) = Inr n \<longleftrightarrow>
          (\<exists>m. open_node os (\<not> True) (at @ [name]) = Some m \<and> validate_node m True path owner = Inr () \<and> m = n)"
        by (simp add: Normal True bindR_eq_Inr ok_or_eq_Inr)
      then show ?thesis unfolding open_validated_iff by (auto simp: Normal True map_eq_Cons_conv)
    next
      case False
      have "walk_file os path owner at current (c # cs) = Inr n \<longleftrightarrow>
          (\<exists>m. open_node os (\<not> False) (at @ [name]) = Some m \<and> validate_node m False path owner = Inr ()
            \<and> walk_file os path owner (at @ [name]) m cs = Inr n)"
        by (simp add: Normal False bindR_eq_Inr ok_or_eq_Inr)
      also have "\<dots> \<longleftrightarrow> (\<exists>m. os_node os (at @ [name]) = Some m \<and> trusted_node owner DirectoryFile m)
            \<and> (\<exists>names. names \<noteq> [] \<and> cs = map Normal names \<and> trusted_walk os owner (at @ [name]) names
              \<and> os_node os (at @ name # names) = Some n \<and> trusted_node owner RegularFile n)"
        unfolding open_validated_iff Cons.IH using False by auto
      also have "\<dots> \<longleftrightarrow> (\<exists>names. names \<noteq> [] \<and> c # cs = map Normal names \<and> trusted_walk os owner at names
              \<and> os_node os (at @ names) = Some n \<and> trusted_node owner RegularFile n)" (is "?L \<longleftrightarrow> ?R")
      proof
        assume ?L
        then obtain names where names: "names \<noteq> []" "cs = map Normal names"
          "trusted_walk os owner (at @ [name]) names" "os_node os (at @ name # names) = Some n"
          "trusted_node owner RegularFile n"
          "\<exists>m. os_node os (at @ [name]) = Some m \<and> trusted_node owner DirectoryFile m" by blast
        then have "trusted_walk os owner at (name # names)" by (cases names) auto
        then show ?R using names Normal by (intro exI [of _ "name # names"]) simp
      next
        assume ?R
        then obtain names where names: "c # cs = map Normal names" "trusted_walk os owner at names"
          "os_node os (at @ names) = Some n" "trusted_node owner RegularFile n" by (elim exE conjE)
        then obtain name' names' where n': "names = name' # names'" "cs = map Normal names'" "name' = name"
          using Normal by (auto simp: Cons_eq_map_conv)
        with False names(2) have "names' \<noteq> []" by auto
        then obtain b bs where "names' = b # bs" by (cases names') auto
        then show ?L using names n' by auto
      qed
      finally show ?thesis by simp
    qed
  qed (auto simp: Cons_eq_map_conv)
qed auto

lemma trusted_walk_above:
  "trusted_walk os owner at names \<longleftrightarrow>
     (\<forall>i. 0 < i \<and> i < length names \<longrightarrow> (\<exists>n. os_node os (at @ take i names) = Some n \<and> trusted_node owner DirectoryFile n))"
proof (induction os owner at names rule: trusted_walk.induct)
  case (3 os owner at name b names)
  let ?Q = "\<lambda>p. \<exists>n. os_node os p = Some n \<and> trusted_node owner DirectoryFile n"
  have "(\<forall>i. 0 < i \<and> i < length (name # b # names) \<longrightarrow> ?Q (at @ take i (name # b # names)))
      \<longleftrightarrow> ?Q (at @ [name]) \<and> (\<forall>i. 0 < i \<and> i < length (b # names) \<longrightarrow> ?Q ((at @ [name]) @ take i (b # names)))"
    (is "?L \<longleftrightarrow> ?R")
  proof
    assume L: ?L
    have "?Q (at @ take 1 (name # b # names))" using L by (metis length_Cons zero_less_one Suc_less_eq One_nat_def zero_less_Suc)
    moreover have "?Q ((at @ [name]) @ take i (b # names))" if "0 < i" "i < length (b # names)" for i
      using L [rule_format, of "Suc i"] that by simp
    ultimately show ?R by simp
  next
    assume R: ?R
    show ?L
    proof (intro allI impI)
      fix i assume i: "0 < i \<and> i < length (name # b # names)"
      show "?Q (at @ take i (name # b # names))"
      proof (cases "i = 1")
        case False
        then obtain j where "i = Suc j" "0 < j" using i by (cases i) auto
        then show ?thesis using R i by simp
      qed (use R in simp)
    qed
  qed
  then show ?case using "3.IH" by simp
qed simp_all

lemma all_prefix_Cons:
  "(\<forall>i. 0 < i \<and> i \<le> length (name # names) \<longrightarrow> Q (at @ take i (name # names))) \<longleftrightarrow>
     Q (at @ [name]) \<and> (\<forall>i. 0 < i \<and> i \<le> length names \<longrightarrow> Q ((at @ [name]) @ take i names))"
  (is "?L \<longleftrightarrow> ?R")
proof
  assume L: ?L
  have "Q (at @ take i (name # names))" if "0 < i" "i \<le> length (name # names)" for i
    using L that by blast
  from this [of 1] this [of "Suc i" for i] show ?R by auto
next
  assume R: ?R
  show ?L
  proof (intro allI impI)
    fix i assume i: "0 < i \<and> i \<le> length (name # names)"
    show "Q (at @ take i (name # names))"
    proof (cases "i = 1")
      case False
      then obtain j where "i = Suc j" "0 < j" using i by (cases i) auto
      then show ?thesis using R i by simp
    qed (use R in simp)
  qed
qed

lemma components_root: "(\<exists>rest. components path = RootDir # rest) \<longleftrightarrow> is_absolute path"
  by (auto simp: components_def is_absolute_def starts_with_def Cons_eq_append_conv Cons_eq_map_conv split: if_splits)

lemma take_limit:
  "(let bytes = take (limit + 1) content in if length bytes > limit then Inl e else Inr bytes) = Inr bs
     \<longleftrightarrow> content = bs \<and> length bs \<le> limit"
  by (auto simp: Let_def)

lemma open_root_regular_file_iff:
  "open_root_regular_file os path owner = Inr n \<longleftrightarrow>
     (\<exists>root names. open_node os True [] = Some root \<and> components path = RootDir # map Normal names
        \<and> (names = [] \<and> n = root
           \<or> names \<noteq> [] \<and> trusted_above os owner names \<and> os_node os names = Some n \<and> trusted_node owner RegularFile n))"
proof (cases "is_absolute path")
  case True
  then obtain rest where rest: "components path = RootDir # rest" using components_root by blast
  have "open_root_regular_file os path owner = Inr n \<longleftrightarrow>
      (\<exists>root. open_node os True [] = Some root \<and> walk_file os path owner [] root rest = Inr n)"
    using True by (simp add: open_root_regular_file_def rest bindR_eq_Inr ok_or_eq_Inr)
  then show ?thesis
    unfolding walk_file_iff trusted_walk_above trusted_above_def append_Nil rest by auto
next
  case False
  then have "\<And>rest. components path \<noteq> RootDir # rest" using components_root by blast
  then show ?thesis using False by (simp add: open_root_regular_file_def)
qed

lemma read_root_file_iff:
  "read_root_file os path limit owner = Inr bs \<longleftrightarrow>
     (\<exists>root names n. open_node os True [] = Some root \<and> components path = RootDir # map Normal names
        \<and> names \<noteq> [] \<and> trusted_above os owner names \<and> os_node os names = Some n
        \<and> trusted_node owner RegularFile n \<and> nd_content n = Some bs \<and> length bs \<le> limit)"
proof -
  have root: "open_node os True [] = Some root \<Longrightarrow> read_node root = None" for root
    by (auto simp: open_node_def read_node_def split: option.splits if_splits)
  have regular: "trusted_node owner RegularFile n \<Longrightarrow> read_node n = nd_content n" for n
    by (simp add: trusted_node_def read_node_def)
  have "read_root_file os path limit owner = Inr bs \<longleftrightarrow>
      (\<exists>n. open_root_regular_file os path owner = Inr n \<and> read_node n = Some bs \<and> length bs \<le> limit)"
    unfolding read_root_file_def bindR_eq_Inr ok_or_eq_Inr take_limit by blast
  then show ?thesis unfolding open_root_regular_file_iff using root regular by (metis option.distinct(1))
qed

lemma walk_directory_iff:
  "walk_directory os path owner at cs = Inr d \<longleftrightarrow>
     (\<exists>names. cs = map Normal names \<and> d = at @ names
        \<and> (\<forall>i. 0 < i \<and> i \<le> length names \<longrightarrow>
             (\<exists>n. os_node os (at @ take i names) = Some n \<and> trusted_node owner DirectoryFile n)))"
proof (induction cs arbitrary: at)
  case (Cons c cs)
  show ?case
  proof (cases c)
    case (Normal name)
    let ?Q = "\<lambda>p. \<exists>n. os_node os p = Some n \<and> trusted_node owner DirectoryFile n"
    have "walk_directory os path owner at (c # cs) = Inr d \<longleftrightarrow>
        (\<exists>m. open_node os (\<not> False) (at @ [name]) = Some m \<and> validate_node m False path owner = Inr ()
          \<and> walk_directory os path owner (at @ [name]) cs = Inr d)"
      by (simp add: Normal bindR_eq_Inr ok_or_eq_Inr)
    also have "\<dots> \<longleftrightarrow> ?Q (at @ [name]) \<and> (\<exists>names. cs = map Normal names \<and> d = (at @ [name]) @ names
        \<and> (\<forall>i. 0 < i \<and> i \<le> length names \<longrightarrow> ?Q ((at @ [name]) @ take i names)))"
      unfolding open_validated_iff Cons.IH by auto
    also have "\<dots> \<longleftrightarrow> (\<exists>names. cs = map Normal names \<and> d = at @ name # names
        \<and> (\<forall>i. 0 < i \<and> i \<le> length (name # names) \<longrightarrow> ?Q (at @ take i (name # names))))"
      unfolding all_prefix_Cons [where Q = ?Q and at = at] by auto
    finally show ?thesis using Normal by (auto simp: Cons_eq_map_conv)
  qed (auto simp: Cons_eq_map_conv)
qed auto

lemma open_root_directory_iff:
  "open_root_directory os path owner = Inr d \<longleftrightarrow>
     (\<exists>root. open_node os True [] = Some root) \<and> components path = RootDir # map Normal d
     \<and> trusted_above os owner (d @ [[]])"
proof (cases "is_absolute path")
  case True
  then obtain rest where rest: "components path = RootDir # rest" using components_root by blast
  have "open_root_directory os path owner = Inr d \<longleftrightarrow>
      (\<exists>root. open_node os True [] = Some root) \<and> walk_directory os path owner [] rest = Inr d"
    using True by (simp add: open_root_directory_def rest bindR_eq_Inr ok_or_eq_Inr)
  then show ?thesis
    unfolding walk_directory_iff trusted_above_def append_Nil rest by (auto simp: less_Suc_eq_le)
next
  case False
  then have "\<And>rest. components path \<noteq> RootDir # rest" using components_root by blast
  then show ?thesis using False by (simp add: open_root_directory_def)
qed

text \<open>Where an alias chain ends: within the directory, after fewer links than rounds.\<close>

inductive alias_chain :: "os \<Rightarrow> u32 \<Rightarrow> string list \<Rightarrow> nat \<Rightarrow> string \<Rightarrow> string \<Rightarrow> bool"
  for os :: os and owner :: u32 and directory :: "string list" where
  alias_end: "alias_chain os owner directory 0 name name"
| alias_link: "os_node os (directory @ [name]) = Some link \<Longrightarrow> nd_type link = SymlinkFile \<Longrightarrow>
    nd_uid link = owner \<Longrightarrow> nd_nlink link = 1 \<Longrightarrow> nd_target link = Some target \<Longrightarrow>
    valid_member_name target \<Longrightarrow> alias_chain os owner directory k target end_name \<Longrightarrow>
    alias_chain os owner directory (Suc k) name end_name"

lemma key_member_sound:
  "key_member rounds os directory name path owner = Inr n \<Longrightarrow> valid_member_name name \<Longrightarrow>
     \<exists>k end_name. k < rounds \<and> alias_chain os owner directory k name end_name \<and> valid_member_name end_name
       \<and> os_node os (directory @ [end_name]) = Some n \<and> trusted_node owner RegularFile n"
proof (induction rounds os directory name path owner rule: key_member.induct)
  case (2 rounds os directory name path owner)
  from "2.prems"(1) obtain m where m: "os_node os (directory @ [name]) = Some m"
    by (auto simp: bindR_eq_Inr ok_or_eq_Inr)
  show ?case
  proof (cases "nd_type m")
    case RegularFile
    then have "n = m" "trusted_node owner RegularFile m"
      using "2.prems"(1) m by (auto simp: bindR_eq_Inr ok_or_eq_Inr open_node_def validate_node_iff)
    then show ?thesis using "2.prems"(2) m by (blast intro: alias_end)
  next
    case SymlinkFile
    then obtain target where t: "nd_target m = Some target" "valid_member_name target"
      "nd_uid m = owner" "nd_nlink m = 1" "key_member rounds os directory target path owner = Inr n"
      using "2.prems"(1) m
      by (auto simp: bindR_eq_Inr ok_or_eq_Inr validate_link_metadata_def split: if_splits)
    have "validate_link_metadata m path owner = Inr ()" using t by (simp add: validate_link_metadata_def)
    with t SymlinkFile m obtain k end_name where "k < rounds" "alias_chain os owner directory k target end_name"
      "valid_member_name end_name" "os_node os (directory @ [end_name]) = Some n" "trusted_node owner RegularFile n"
      using "2.IH" [OF SymlinkFile] by (metis (no_types, lifting))
    then show ?thesis using alias_link [OF m SymlinkFile t(3,4,1,2)] Suc_mono by blast
  qed (use "2.prems"(1) m in auto)
qed simp

lemma path_parent_file_name:
  "path_parent path = Some cs \<Longrightarrow> file_name path = Some name \<Longrightarrow> components path = cs @ [Normal name]"
  by (auto simp: path_parent_def file_name_def rev_swap split: list.splits component.splits)

lemma read_system_gpg_key_sound:
  assumes "read_system_gpg_key os path directory limit owner = Inr bs"
  shows "\<exists>d name k end_name n. components directory = RootDir # map Normal d \<and> trusted_above os owner (d @ [[]])
    \<and> components path = RootDir # map Normal (d @ [name])
    \<and> k < 8 \<and> alias_chain os owner d k name end_name
    \<and> valid_member_name end_name \<and> os_node os (d @ [end_name]) = Some n \<and> trusted_node owner RegularFile n
    \<and> nd_content n = Some bs \<and> length bs \<le> limit"
proof -
  from assms obtain name d n where
    name: "system_key_name path directory = Inr name" and
    d: "open_root_directory os directory owner = Inr d" and
    n: "open_system_key_member os d name path owner = Inr n" "read_node n = Some bs" "length bs \<le> limit"
    unfolding read_system_gpg_key_def bindR_eq_Inr ok_or_eq_Inr take_limit by blast
  have v: "valid_member_name name" "path_parent path = Some (components directory)" "file_name path = Some name"
    using name by (auto simp: system_key_name_def bindR_eq_Inr ok_or_eq_Inr split: if_splits)
  obtain k end_name where "k < 8" "alias_chain os owner d k name end_name" "valid_member_name end_name"
    "os_node os (d @ [end_name]) = Some n" "trusted_node owner RegularFile n"
    using key_member_sound [OF n(1) [unfolded open_system_key_member_def] v(1)] by blast
  moreover have "read_node n = nd_content n"
    using \<open>trusted_node owner RegularFile n\<close> by (simp add: trusted_node_def read_node_def)
  moreover have "components path = RootDir # map Normal (d @ [name])"
    using path_parent_file_name [OF v(2,3)] d by (simp add: open_root_directory_iff)
  ultimately show ?thesis using d n unfolding open_root_directory_iff by metis
qed

section \<open>Properties\<close>


text \<open>
  A system key that is read lies directly in the trusted key directory, whose whole
  path is trusted: the name asked for leads to it through fewer than eight links, each owned by
  the trusted owner and naming another entry of the same directory.
\<close>

theorem system_key_stays_in_directory:
  assumes "read_system_gpg_key os path directory limit owner = Inr bs"
  shows "\<exists>d name k end_name n. components directory = RootDir # map Normal d \<and> trusted_above os owner (d @ [[]])
    \<and> components path = RootDir # map Normal (d @ [name])
    \<and> k < 8 \<and> alias_chain os owner d k name end_name
    \<and> valid_member_name end_name \<and> os_node os (d @ [end_name]) = Some n \<and> trusted_node owner RegularFile n
    \<and> nd_content n = Some bs \<and> length bs \<le> limit"
  using assms by (rule read_system_gpg_key_sound)

definition dir_node :: node where
  "dir_node = \<lparr>nd_type = DirectoryFile, nd_uid = 0, nd_perm = 0x1ED, nd_nlink = 2, nd_content = None, nd_target = None\<rparr>"

definition file_node :: "bytes \<Rightarrow> node" where
  "file_node bs = \<lparr>nd_type = RegularFile, nd_uid = 0, nd_perm = 0x1A4, nd_nlink = 1, nd_content = Some bs, nd_target = None\<rparr>"

definition link_node :: "string \<Rightarrow> node" where
  "link_node t = \<lparr>nd_type = SymlinkFile, nd_uid = 0, nd_perm = 0x1FF, nd_nlink = 1, nd_content = None, nd_target = Some t\<rparr>"

definition example_tree :: "(string list \<times> node) list" where
  "example_tree = [([], dir_node), ([''k''], dir_node), ([''k'', ''fedora''], link_node ''primary''),
     ([''k'', ''primary''], file_node ''cert'')]"

definition example_os :: os where
  "example_os = \<lparr>os_node = map_of example_tree, os_exists = (\<lambda>_. True), os_lstat = (\<lambda>_. None), os_read_dir = (\<lambda>_. None)\<rparr>"

lemma example_system_key: "read_system_gpg_key example_os ''/k/fedora'' ''/k'' 100 0 = Inr ''cert''"
  by code_simp

theorem system_key_stays_in_directory_witness:
  "\<exists>k end_name n. k < 8 \<and> alias_chain example_os 0 [''k''] k ''fedora'' end_name
     \<and> os_node example_os [''k'', end_name] = Some n \<and> nd_content n = Some ''cert''"
proof -
  have c: "components ''/k'' = [RootDir, Normal ''k'']" "components ''/k/fedora'' = [RootDir, Normal ''k'', Normal ''fedora'']"
    by code_simp+
  obtain d name k end_name n where w: "components ''/k'' = RootDir # map Normal d"
    "components ''/k/fedora'' = RootDir # map Normal (d @ [name])" "k < 8"
    "alias_chain example_os 0 d k name end_name" "os_node example_os (d @ [end_name]) = Some n"
    "nd_content n = Some ''cert''"
    using system_key_stays_in_directory [OF example_system_key] by blast
  then have "d = [''k'']" "name = ''fedora''" using c by auto
  then show ?thesis using w by auto
qed

end
