(* ===== verification/Repo_Trust.thy ===== *)
theory Repo_Trust
  imports Repo_Fs
begin

text \<open>
  \<^verbatim>\<open>crates/dnfast-repo/src/trust.rs\<close>: where package keys may lie, how they are read, and the digest
  over a repository's key bundle. SHA-256 and the OpenPGP certificate parser are parameters.
\<close>

definition KEY_DOMAIN :: bytes where "KEY_DOMAIN = ''dnfast-key-bundle-v1''"
definition MAX_KEY_FILES :: nat where "MAX_KEY_FILES = 256"
definition MAX_KEY_BYTES :: nat where "MAX_KEY_BYTES = 1048576"
definition SYSTEM_KEY_DIRECTORY :: string where "SYSTEM_KEY_DIRECTORY = ''/etc/pki/rpm-gpg''"

definition gpgkey_error :: "string \<Rightarrow> mutation_error" where
  "gpgkey_error message = mutation_error_new ''<gpgkey>'' 0 message"

section \<open>Certificates\<close>

text \<open>
  \<open>certs\<close> stands for \<^verbatim>\<open>CertParser::from_bytes\<close>: it fails, or yields certificates, each an error or
  the hexadecimal text of its primary fingerprint.
\<close>

type_synonym cert_parser = "bytes \<Rightarrow> string option list option"

definition add_fingerprint ::
  "string option \<Rightarrow> string btree_set \<Rightarrow> (mutation_error, string btree_set) result" where
  "add_fingerprint certificate fingerprints =
     bindR (ok_or (gpgkey_error ''gpgkey contains an invalid OpenPGP certificate'') certificate) (\<lambda>fingerprint.
       if length fingerprint \<noteq> 40 then Inl (gpgkey_error ''OpenPGP primary fingerprint is unsupported'')
       else let added = bs_insert fingerprint fingerprints in
         if length added > MAX_KEY_FILES then Inl (gpgkey_error ''OpenPGP certificate limit exceeds 256'')
         else Inr added)"

definition add_certificates ::
  "cert_parser \<Rightarrow> bytes \<Rightarrow> string btree_set \<Rightarrow> (mutation_error, string btree_set) result" where
  "add_certificates certs bs fingerprints =
     bindR (ok_or (gpgkey_error ''gpgkey is not an OpenPGP certificate'') (certs bs)) (\<lambda>parser.
       foldR add_fingerprint parser fingerprints)"

definition primary_certificate_fingerprints ::
  "cert_parser \<Rightarrow> bytes list \<Rightarrow> (mutation_error, string list) result" where
  "primary_certificate_fingerprints certs certificates =
     bindR (foldR (add_certificates certs) certificates []) (\<lambda>fingerprints.
       if fingerprints = [] then Inl (gpgkey_error ''OpenPGP certificate bundle is empty'')
       else Inr fingerprints)"

section \<open>Locations\<close>

definition valid_id :: "string \<Rightarrow> bool" where
  "valid_id name \<longleftrightarrow> name \<noteq> [] \<and> length name \<le> 255
     \<and> list_all (\<lambda>c. is_ascii_alphanumeric c \<or> c \<in> set ''_.:-'') name"

definition dotted :: "component \<Rightarrow> bool" where
  "dotted part \<longleftrightarrow> part = ParentDir \<or> part = CurDir"

definition normalize_gpgkey_location :: "string \<Rightarrow> (mutation_error, string) result" where
  "normalize_gpgkey_location location =
     bindR
       (case strip_prefix ''file:///'' location of
          Some suffix \<Rightarrow>
            if suffix = [] \<or> starts_with suffix ''/'' then Inl (gpgkey_error ''gpgkey file URI is invalid'')
            else Inr (path_join ''/'' suffix)
        | None \<Rightarrow>
            if starts_with location ''file:'' \<or> contains_str location ''://''
            then Inl (gpgkey_error ''gpgkey is not a local file URI'')
            else Inr location)
       (\<lambda>path. if \<not> is_absolute path \<or> list_ex dotted (components path)
          then Inl (gpgkey_error ''gpgkey is not an absolute local path'')
          else Inr path)"

datatype key_location = RepositoryKey | SystemKey string

definition validate_lexical_path ::
  "string \<Rightarrow> string \<Rightarrow> string \<Rightarrow> string option \<Rightarrow> (mutation_error, key_location) result" where
  "validate_lexical_path label path root system_directory =
     (if \<not> utf8_ok path then Inl (mutation_error_new label 0 ''gpgkey path is not UTF-8'')
      else if \<not> is_absolute path \<or> list_ex dotted (components path)
      then Inl (mutation_error_new label 0 ''gpgkey path is not absolute and canonical'')
      else if path_starts_with path root \<and> components path \<noteq> components root then Inr RepositoryKey
      else case system_directory of
        Some directory \<Rightarrow>
          if path_parent path = Some (components directory) \<and> file_name path \<noteq> None then Inr (SystemKey directory)
          else Inl (mutation_error_new label 0 ''gpgkey path is outside trusted key directories'')
      | None \<Rightarrow> Inl (mutation_error_new label 0 ''gpgkey path is outside trusted key directories''))"

definition validate_gpgkey_bundle_path :: "string \<Rightarrow> string \<Rightarrow> (mutation_error, unit) result" where
  "validate_gpgkey_bundle_path repository path =
     (if \<not> valid_id repository then Inl (gpgkey_error ''invalid repository id'')
      else bindR (validate_lexical_path ''<gpgkey>'' path (path_join ''/etc/dnfast/keys'' repository)
        (Some SYSTEM_KEY_DIRECTORY)) (\<lambda>_. Inr ()))"

section \<open>Bundles\<close>

record key_bundle =
  kb_paths :: "string list"
  kb_digest :: bytes
  kb_certificates :: "bytes list"

text \<open>\<^verbatim>\<open>u64::to_be_bytes\<close>\<close>

definition be64 :: "nat \<Rightarrow> bytes" where
  "be64 n = map (\<lambda>i. char_of (n div 256 ^ i)) [7, 6, 5, 4, 3, 2, 1, 0]"

definition read_key ::
  "os \<Rightarrow> string \<Rightarrow> string \<Rightarrow> u32 \<Rightarrow> string option \<Rightarrow> (mutation_error, bytes) result" where
  "read_key os path root owner system_directory =
     bindR (validate_lexical_path ''<gpgkey>'' path root system_directory) (\<lambda>location.
       map_err (\<lambda>_. mutation_error_new path 0 ''untrusted or oversized gpgkey'')
         (case location of
            RepositoryKey \<Rightarrow> read_root_file os path MAX_KEY_BYTES owner
          | SystemKey directory \<Rightarrow> read_system_gpg_key os path directory MAX_KEY_BYTES owner))"

text \<open>One key file: the state is the paths seen, what the digest has been fed, and the certificates.\<close>

definition bundle_file ::
  "os \<Rightarrow> string \<Rightarrow> u32 \<Rightarrow> string option \<Rightarrow> string \<Rightarrow> component list set \<times> bytes \<times> bytes list
     \<Rightarrow> (mutation_error, component list set \<times> bytes \<times> bytes list) result" where
  "bundle_file os root owner system_directory path state =
     (case state of (seen, fed, certificates) \<Rightarrow>
        if components path \<in> seen then Inl (gpgkey_error ''duplicate gpgkey path'')
        else
          bindR (read_key os path root owner system_directory) (\<lambda>bs.
            if \<not> utf8_ok path then Inl (gpgkey_error ''gpgkey path is not UTF-8'')
            else if length path \<ge> 2 ^ 64 then Inl (gpgkey_error ''gpgkey path too long'')
            else if length bs \<ge> 2 ^ 64 then Inl (gpgkey_error ''gpgkey file too large'')
            else Inr (insert (components path) seen,
              fed @ be64 (length path) @ path @ be64 (length bs) @ bs, certificates @ [bs])))"

definition key_bundle_digest_owned ::
  "(bytes \<Rightarrow> bytes) \<Rightarrow> os \<Rightarrow> string \<Rightarrow> string list \<Rightarrow> string \<Rightarrow> u32 \<Rightarrow> string option
     \<Rightarrow> (mutation_error, key_bundle) result" where
  "key_bundle_digest_owned sha256 os repo_id paths parent owner system_directory =
     (if \<not> valid_id repo_id then Inl (gpgkey_error ''invalid repository id'')
      else if length paths > MAX_KEY_FILES then Inl (gpgkey_error ''gpgkey file limit exceeds 256'')
      else
        bindR (foldR (bundle_file os (path_join parent repo_id) owner system_directory) paths ({}, KEY_DOMAIN, []))
          (\<lambda>(seen, fed, certificates).
             Inr \<lparr>kb_paths = paths, kb_digest = sha256 fed, kb_certificates = certificates\<rparr>))"

definition key_bundle_digest ::
  "(bytes \<Rightarrow> bytes) \<Rightarrow> os \<Rightarrow> string \<Rightarrow> string list \<Rightarrow> (mutation_error, key_bundle) result" where
  "key_bundle_digest sha256 os repo_id paths =
     key_bundle_digest_owned sha256 os repo_id paths ''/etc/dnfast/keys'' 0 (Some SYSTEM_KEY_DIRECTORY)"

section \<open>What the digest binds\<close>

definition key_frame :: "string \<times> bytes \<Rightarrow> bytes" where
  "key_frame f = be64 (length (fst f)) @ fst f @ be64 (length (snd f)) @ snd f"

definition bundle_preimage :: "key_bundle \<Rightarrow> bytes" where
  "bundle_preimage b = KEY_DOMAIN @ concat (map key_frame (zip (kb_paths b) (kb_certificates b)))"

lemma length_be64 [simp]: "length (be64 n) = 8"
  by (simp add: be64_def)

lemma be64_nonempty [simp]: "be64 n \<noteq> []"
  by (simp add: be64_def)

lemma be64_inj: "m < 2 ^ 64 \<Longrightarrow> n < 2 ^ 64 \<Longrightarrow> be64 m = be64 n \<longleftrightarrow> m = n"
proof
  assume mn: "m < 2 ^ 64" "n < 2 ^ 64" and eq: "be64 m = be64 n"
  have digits: "m div 256 ^ i mod 256 = n div 256 ^ i mod 256" if "i < 8" for i
  proof -
    have "i \<in> set [7, 6, 5, 4, 3, 2, 1, 0]" using that by (auto simp: less_Suc_eq numeral_nat)
    then have "char_of (m div 256 ^ i) = (char_of (n div 256 ^ i) :: char)"
      using eq unfolding be64_def map_eq_conv by blast
    then have "of_char (char_of (m div 256 ^ i) :: char) = (of_char (char_of (n div 256 ^ i) :: char) :: nat)"
      by (rule arg_cong)
    then show ?thesis by simp
  qed
  have partial: "(\<Sum>i<j. (k div 256 ^ i mod 256) * 256 ^ i) = k mod 256 ^ j" for k j :: nat
  proof (induction j)
    case (Suc j)
    have "k mod 256 ^ Suc j = 256 ^ j * (k div 256 ^ j mod 256) + k mod 256 ^ j"
      by (metis mod_mult2_eq power_Suc2)
    then show ?case using Suc by (simp add: mult.commute)
  qed simp
  have "m = m mod 256 ^ 8" "n = n mod 256 ^ 8" using mn by simp_all
  then show "m = n" using digits unfolding partial [symmetric] by (metis (no_types, lifting) lessThan_iff sum.cong)
qed simp

lemma key_frame_inj:
  assumes "key_frame f @ xs = key_frame g @ ys"
    "length (fst f) < 2 ^ 64" "length (snd f) < 2 ^ 64" "length (fst g) < 2 ^ 64" "length (snd g) < 2 ^ 64"
  shows "f = g \<and> xs = ys"
proof -
  have 1: "be64 (length (fst f)) = be64 (length (fst g))"
    and r: "fst f @ be64 (length (snd f)) @ snd f @ xs = fst g @ be64 (length (snd g)) @ snd g @ ys"
    using assms(1) by (simp_all add: key_frame_def append_eq_append_conv)
  have "length (fst f) = length (fst g)" using 1 assms be64_inj by blast
  then have 2: "fst f = fst g" "be64 (length (snd f)) = be64 (length (snd g))"
    and r2: "snd f @ xs = snd g @ ys"
    using r by (simp_all add: append_eq_append_conv)
  then have "length (snd f) = length (snd g)" using assms be64_inj by blast
  then show ?thesis using r2 2 by (simp add: append_eq_append_conv prod_eq_iff)
qed

lemma frames_inj:
  "concat (map key_frame fs) = concat (map key_frame gs) \<Longrightarrow>
     \<forall>f\<in>set fs \<union> set gs. length (fst f) < 2 ^ 64 \<and> length (snd f) < 2 ^ 64 \<Longrightarrow> fs = gs"
proof (induction fs arbitrary: gs)
  case Nil
  have "key_frame g \<noteq> []" for g by (simp add: key_frame_def)
  then show ?case using Nil by (cases gs) auto
next
  case (Cons f fs)
  have "key_frame f \<noteq> []" by (simp add: key_frame_def)
  then obtain g gs' where gs: "gs = g # gs'" using Cons.prems by (cases gs) auto
  have "f = g \<and> concat (map key_frame fs) = concat (map key_frame gs')"
    using Cons.prems unfolding gs by (intro key_frame_inj) auto
  then show ?case using Cons.IH [of gs'] Cons.prems gs by auto
qed

definition bundle_sizes_ok :: "key_bundle \<Rightarrow> bool" where
  "bundle_sizes_ok b \<longleftrightarrow> length (kb_certificates b) = length (kb_paths b)
     \<and> (\<forall>p\<in>set (kb_paths b). length p < 2 ^ 64) \<and> (\<forall>c\<in>set (kb_certificates b). length c \<le> MAX_KEY_BYTES)"

lemma bundle_preimage_inj:
  assumes "bundle_preimage a = bundle_preimage b" "bundle_sizes_ok a" "bundle_sizes_ok b"
  shows "kb_paths a = kb_paths b \<and> kb_certificates a = kb_certificates b"
proof -
  let ?z = "\<lambda>b. zip (kb_paths b) (kb_certificates b)"
  have "\<forall>f\<in>set (?z a) \<union> set (?z b). length (fst f) < 2 ^ 64 \<and> length (snd f) < 2 ^ 64"
    using assms(2,3) by (fastforce simp: bundle_sizes_ok_def MAX_KEY_BYTES_def dest: set_zip_leftD set_zip_rightD)
  then have "?z a = ?z b" using frames_inj [of "?z a" "?z b"] assms(1) by (simp add: bundle_preimage_def)
  then show ?thesis using assms(2,3) unfolding bundle_sizes_ok_def by (metis map_fst_zip map_snd_zip)
qed

lemma ex_list_Cons: "(\<exists>ys. length ys = Suc n \<and> P ys) \<longleftrightarrow> (\<exists>y ys. length ys = n \<and> P (y # ys))"
  by (metis length_Suc_conv)

lemma read_key_bounded:
  assumes "read_key os path root owner system = Inr bs"
  shows "length bs \<le> MAX_KEY_BYTES"
proof -
  from assms obtain location where
    "(case location of RepositoryKey \<Rightarrow> read_root_file os path MAX_KEY_BYTES owner
      | SystemKey directory \<Rightarrow> read_system_gpg_key os path directory MAX_KEY_BYTES owner) = Inr bs"
    unfolding read_key_def bindR_eq_Inr map_err_eq_Inr by blast
  then show ?thesis
    by (cases location) (auto simp: read_root_file_iff dest: read_system_gpg_key_sound)
qed

text \<open>The loop over key files, from any state.\<close>

lemma bundle_files_iff:
  "foldR (bundle_file os root owner system) paths (seen, fed, certs) = Inr (seen', fed', certs') \<longleftrightarrow>
     (\<exists>bss. length bss = length paths
        \<and> (\<forall>i<length paths. read_key os (paths ! i) root owner system = Inr (bss ! i)
             \<and> utf8_ok (paths ! i) \<and> length (paths ! i) < 2 ^ 64)
        \<and> distinct (map components paths) \<and> components ` set paths \<inter> seen = {}
        \<and> seen' = seen \<union> components ` set paths
        \<and> fed' = fed @ concat (map key_frame (zip paths bss)) \<and> certs' = certs @ bss)"
proof (induction paths arbitrary: seen fed certs)
  case (Cons p paths)
  have step: "bundle_file os root owner system p (seen, fed, certs) = Inr st \<longleftrightarrow>
      components p \<notin> seen \<and> (\<exists>bs. read_key os p root owner system = Inr bs \<and> utf8_ok p \<and> length p < 2 ^ 64
        \<and> st = (insert (components p) seen, fed @ key_frame (p, bs), certs @ [bs]))" for st
  proof (cases "read_key os p root owner system")
    case (Inr bs)
    then have "\<not> 2 ^ 64 \<le> length bs" using read_key_bounded [OF Inr] by (simp add: MAX_KEY_BYTES_def)
    then show ?thesis
      unfolding bundle_file_def prod.case Inr bindR_Inr key_frame_def fst_conv snd_conv
      by (auto simp: not_le)
  qed (simp add: bundle_file_def)
  have "foldR (bundle_file os root owner system) (p # paths) (seen, fed, certs) = Inr (seen', fed', certs') \<longleftrightarrow>
      components p \<notin> seen \<and> (\<exists>bs. read_key os p root owner system = Inr bs \<and> utf8_ok p \<and> length p < 2 ^ 64
        \<and> foldR (bundle_file os root owner system) paths
            (insert (components p) seen, fed @ key_frame (p, bs), certs @ [bs]) = Inr (seen', fed', certs'))"
    unfolding foldR.simps bindR_eq_Inr step by blast
  also have "\<dots> \<longleftrightarrow> (\<exists>bs bss. length bss = length paths \<and> read_key os p root owner system = Inr bs
        \<and> utf8_ok p \<and> length p < 2 ^ 64
        \<and> (\<forall>i<length paths. read_key os (paths ! i) root owner system = Inr (bss ! i)
             \<and> utf8_ok (paths ! i) \<and> length (paths ! i) < 2 ^ 64)
        \<and> distinct (map components (p # paths)) \<and> components ` set (p # paths) \<inter> seen = {}
        \<and> seen' = seen \<union> components ` set (p # paths)
        \<and> fed' = fed @ concat (map key_frame (zip (p # paths) (bs # bss))) \<and> certs' = certs @ bs # bss)"
    unfolding Cons.IH by auto
  also have "\<dots> \<longleftrightarrow> (\<exists>bss. length bss = length (p # paths)
        \<and> (\<forall>i<length (p # paths). read_key os ((p # paths) ! i) root owner system = Inr (bss ! i)
             \<and> utf8_ok ((p # paths) ! i) \<and> length ((p # paths) ! i) < 2 ^ 64)
        \<and> distinct (map components (p # paths)) \<and> components ` set (p # paths) \<inter> seen = {}
        \<and> seen' = seen \<union> components ` set (p # paths)
        \<and> fed' = fed @ concat (map key_frame (zip (p # paths) bss)) \<and> certs' = certs @ bss)"
    unfolding length_Cons ex_list_Cons All_less_Suc2 nth_Cons_0 nth_Cons_Suc by auto
  finally show ?case .
qed auto

lemma key_bundle_digest_owned_iff:
  "key_bundle_digest_owned sha256 os repo_id paths parent owner system = Inr b \<longleftrightarrow>
     valid_id repo_id \<and> length paths \<le> MAX_KEY_FILES \<and> distinct (map components paths)
     \<and> kb_paths b = paths \<and> kb_digest b = sha256 (bundle_preimage b)
     \<and> length (kb_certificates b) = length paths
     \<and> (\<forall>i<length paths. read_key os (paths ! i) (path_join parent repo_id) owner system = Inr (kb_certificates b ! i)
          \<and> utf8_ok (paths ! i) \<and> length (paths ! i) < 2 ^ 64)" (is "?L \<longleftrightarrow> ?R")
proof -
  let ?run = "foldR (bundle_file os (path_join parent repo_id) owner system) paths ({}, KEY_DOMAIN, [])"
  have "?L \<longleftrightarrow> valid_id repo_id \<and> length paths \<le> MAX_KEY_FILES
      \<and> (\<exists>seen fed certs. ?run = Inr (seen, fed, certs)
          \<and> b = \<lparr>kb_paths = paths, kb_digest = sha256 fed, kb_certificates = certs\<rparr>)"
    by (auto simp: key_bundle_digest_owned_def bindR_eq_Inr)
  also have "\<dots> \<longleftrightarrow> ?R"
    unfolding bundle_files_iff bundle_preimage_def by (cases b) auto
  finally show ?thesis .
qed

lemma bundle_sizes:
  assumes "key_bundle_digest_owned sha256 os repo_id paths parent owner system = Inr b"
  shows "bundle_sizes_ok b"
  using assms read_key_bounded unfolding key_bundle_digest_owned_iff bundle_sizes_ok_def
  by (metis in_set_conv_nth)

text \<open>
  Property C38. A key bundle has at most 256 files at distinct paths, each read from a trusted
  location, and its digest is SHA-256 of a framing that determines the bundle: two bundles feed
  the digest the same bytes exactly if they hold the same paths and the same certificates in the
  same order.
\<close>

theorem key_bundle_digest_binds:
  assumes "key_bundle_digest_owned sha256 os repo_id paths parent owner system = Inr a"
    and "key_bundle_digest_owned sha256 os' repo_id' paths' parent' owner' system' = Inr b"
  shows "length paths \<le> 256 \<and> distinct (map components paths) \<and> kb_paths a = paths
    \<and> (\<forall>i<length paths. read_key os (paths ! i) (path_join parent repo_id) owner system = Inr (kb_certificates a ! i))
    \<and> kb_digest a = sha256 (bundle_preimage a) \<and> kb_digest b = sha256 (bundle_preimage b)
    \<and> (bundle_preimage a = bundle_preimage b \<longleftrightarrow>
         kb_paths a = kb_paths b \<and> kb_certificates a = kb_certificates b)"
proof -
  have "bundle_preimage a = bundle_preimage b \<longleftrightarrow>
      kb_paths a = kb_paths b \<and> kb_certificates a = kb_certificates b"
    using bundle_preimage_inj [OF _ bundle_sizes [OF assms(1)] bundle_sizes [OF assms(2)]]
    by (auto simp: bundle_preimage_def)
  then show ?thesis using assms unfolding key_bundle_digest_owned_iff MAX_KEY_FILES_def by simp
qed

lemma example_bundle:
  "key_bundle_digest_owned rev example_os ''fedora'' [''/k/fedora''] ''/etc/dnfast/keys'' 0 (Some ''/k'') =
     Inr \<lparr>kb_paths = [''/k/fedora''],
       kb_digest = rev (bundle_preimage \<lparr>kb_paths = [''/k/fedora''], kb_digest = [], kb_certificates = [''cert'']\<rparr>),
       kb_certificates = [''cert'']\<rparr>"
  by code_simp

theorem key_bundle_digest_binds_witness:
  "read_key example_os ''/k/fedora'' (path_join ''/etc/dnfast/keys'' ''fedora'') 0 (Some ''/k'') = Inr ''cert''"
  using key_bundle_digest_binds [OF example_bundle example_bundle] by simp

lemma validate_lexical_path_iff:
  "validate_lexical_path label path root system = Inr location \<longleftrightarrow>
     utf8_ok path \<and> is_absolute path \<and> ParentDir \<notin> set (components path) \<and> CurDir \<notin> set (components path)
     \<and> (if path_starts_with path root \<and> components path \<noteq> components root then location = RepositoryKey
        else \<exists>directory. system = Some directory \<and> path_parent path = Some (components directory)
          \<and> file_name path \<noteq> None \<and> location = SystemKey directory)"
  by (auto simp: validate_lexical_path_def list_ex_iff dotted_def split: option.splits)

lemma normalize_gpgkey_location_canonical:
  "normalize_gpgkey_location location = Inr path \<Longrightarrow>
     is_absolute path \<and> ParentDir \<notin> set (components path) \<and> CurDir \<notin> set (components path)"
  by (auto simp: normalize_gpgkey_location_def bindR_eq_Inr list_ex_iff dotted_def split: if_splits)

end
