(* ===== verification/Repo_Profile.thy ===== *)
theory Repo_Profile
  imports Repo_Trust
begin

text \<open>
  \<^verbatim>\<open>crates/dnfast-repo/src/profile.rs\<close>: repository sections, durations, variable expansion over a
  profile and the options of the command line.
\<close>

section \<open>Data\<close>

datatype metadata_expire = AfterSeconds u64 | Never

record repo_config =
  rc_id :: string
  rc_name :: "string option"
  rc_enabled :: bool
  rc_baseurl :: "string list"
  rc_metalink :: "string option"
  rc_mirrorlist :: "string option"
  rc_priority :: "16 word"
  rc_cost :: u32
  rc_skip_if_unavailable :: bool
  rc_metadata_expire :: metadata_expire
  rc_proxy :: "string option"
  rc_sslverify :: bool
  rc_gpgcheck :: bool
  rc_pkg_gpgcheck :: bool
  rc_repo_gpgcheck :: bool
  rc_excludepkgs :: "string list"
  rc_includepkgs :: "string list"
  rc_gpgkey :: "string list"
  rc_allowed_fingerprints :: "string list"
  rc_key_bundle_digest :: "bytes option"

record mutation_profile =
  pf_main :: main_config
  pf_repositories :: "repo_config list"
  pf_variables :: repo_variables

definition repo_config_new :: "string \<Rightarrow> main_config \<Rightarrow> repo_config" where
  "repo_config_new repo_id main =
     \<lparr>rc_id = repo_id, rc_name = None, rc_enabled = True, rc_baseurl = [], rc_metalink = None,
      rc_mirrorlist = None, rc_priority = 99, rc_cost = 1000, rc_skip_if_unavailable = False,
      rc_metadata_expire = AfterSeconds 172800, rc_proxy = None, rc_sslverify = True,
      rc_gpgcheck = True, rc_pkg_gpgcheck = True, rc_repo_gpgcheck = False,
      rc_excludepkgs = mc_excludepkgs main, rc_includepkgs = mc_includepkgs main,
      rc_gpgkey = [], rc_allowed_fingerprints = [], rc_key_bundle_digest = None\<rparr>"

section \<open>Durations\<close>

definition checked_mul :: "'l::len word \<Rightarrow> 'l word \<Rightarrow> 'l word option" where
  "checked_mul a b = (if unat a * unat b < 2 ^ LENGTH('l) then Some (a * b) else None)"

definition duration_parts :: "string \<Rightarrow> (string \<times> u64) option" where
  "duration_parts text =
     (let (number, multiplier) =
        (if text = [] then (text, 1)
         else if last text \<in> set ''sS'' then (butlast text, 1)
         else if last text \<in> set ''mM'' then (butlast text, 60)
         else if last text \<in> set ''hH'' then (butlast text, 3600)
         else if last text \<in> set ''dD'' then (butlast text, 86400)
         else (text, 1))
      in if number \<noteq> [] then Some (number, multiplier) else None)"

definition digit_of :: "char \<Rightarrow> u64" where
  "digit_of c = of_nat (byte_of c - 48)"

fun decimal_fold :: "u64 \<Rightarrow> string \<Rightarrow> u64 option" where
  "decimal_fold acc [] = Some acc"
| "decimal_fold acc (c # cs) =
     (case checked_mul acc 10 of None \<Rightarrow> None
      | Some tens \<Rightarrow> (case checked_add tens (digit_of c) of None \<Rightarrow> None | Some next \<Rightarrow> decimal_fold next cs))"

definition decimal_seconds :: "string \<Rightarrow> u64 \<Rightarrow> u64 option" where
  "decimal_seconds text multiplier =
     (case decimal_fold 0 text of None \<Rightarrow> None | Some acc \<Rightarrow> checked_mul acc multiplier)"

datatype hexadecimal_seconds_error = HexInvalid | HexOverflow

definition hexadecimal_digit :: "char \<Rightarrow> u64 option" where
  "hexadecimal_digit c =
     (if is_ascii_digit c then Some (of_nat (byte_of c - 48))
      else if 97 \<le> byte_of c \<and> byte_of c \<le> 102 then Some (of_nat (byte_of c - 97) + 10)
      else if 65 \<le> byte_of c \<and> byte_of c \<le> 70 then Some (of_nat (byte_of c - 65) + 10)
      else None)"

fun hexadecimal_fold :: "u64 \<Rightarrow> string \<Rightarrow> (hexadecimal_seconds_error, u64) result" where
  "hexadecimal_fold acc [] = Inr acc"
| "hexadecimal_fold acc (c # cs) =
     bindR (ok_or HexInvalid (hexadecimal_digit c)) (\<lambda>digit.
     bindR (ok_or HexOverflow (Option.bind (checked_mul acc 16) (\<lambda>tens. checked_add tens digit))) (\<lambda>next.
       hexadecimal_fold next cs))"

definition hexadecimal_seconds :: "string \<Rightarrow> u64 \<Rightarrow> (hexadecimal_seconds_error, u64) result" where
  "hexadecimal_seconds text multiplier =
     (if text = [] then Inl HexInvalid
      else bindR (hexadecimal_fold 0 text) (\<lambda>seconds. ok_or HexOverflow (checked_mul seconds multiplier)))"

definition fractional_seconds :: "string \<Rightarrow> u64 \<Rightarrow> u64" where
  "fractional_seconds text multiplier =
     fold (\<lambda>c carry. (digit_of c * multiplier + carry) div 10) (rev text) 0"

definition parse_metadata_expire :: "string \<Rightarrow> nat \<Rightarrow> string \<Rightarrow> (mutation_error, metadata_expire) result" where
  "parse_metadata_expire path line text =
     (let invalid = mutation_error_new path line ''invalid metadata_expire'';
          exceeds = mutation_error_new path line ''metadata_expire exceeds u64 seconds''
      in if text \<in> {''-1'', ''never''} then Inr Never
      else
        let unsigned = (case strip_prefix ''+'' text of None \<Rightarrow> text | Some rest \<Rightarrow> rest) in
        bindR (ok_or invalid (duration_parts unsigned)) (\<lambda>(number, multiplier).
          case (case strip_prefix ''0x'' number of Some h \<Rightarrow> Some h | None \<Rightarrow> strip_prefix ''0X'' number) of
            Some hexadecimal \<Rightarrow>
              (case hexadecimal_seconds hexadecimal multiplier of
                 Inr seconds \<Rightarrow> Inr (AfterSeconds seconds)
               | Inl HexInvalid \<Rightarrow> Inl invalid
               | Inl HexOverflow \<Rightarrow> Inl exceeds)
          | None \<Rightarrow>
              (case (case split_once ''.'' number of None \<Rightarrow> (number, []) | Some parts \<Rightarrow> parts) of (whole, fraction) \<Rightarrow>
                 if count_list number (CHR ''.'') > 1 \<or> (whole = [] \<and> fraction = [])
                   \<or> \<not> list_all is_ascii_digit whole \<or> \<not> list_all is_ascii_digit fraction
                 then Inl invalid
                 else
                   bindR (ok_or exceeds (decimal_seconds whole multiplier)) (\<lambda>whole_seconds.
                   bindR (ok_or exceeds (checked_add whole_seconds (fractional_seconds fraction multiplier)))
                     (\<lambda>seconds. Inr (AfterSeconds seconds))))))"

section \<open>Settings of a repository\<close>

definition rejected :: "string \<Rightarrow> nat \<Rightarrow> string \<Rightarrow> (mutation_error, 'a) result" where
  "rejected path line key = Inl (mutation_error_new path line (''rejected mutation setting: '' @ key))"

definition nonempty :: "string \<Rightarrow> string option" where
  "nonempty text = (if text \<noteq> [] then Some text else None)"

definition reset_or_append_checked :: "string list \<Rightarrow> string list \<Rightarrow> string list" where
  "reset_or_append_checked target values = (if values = [] then [] else target @ values)"

definition rpm_md_repository_type :: "string \<Rightarrow> bool" where
  "rpm_md_repository_type text \<longleftrightarrow>
     text \<in> {''rpm'', ''rpm-md'', ''repomd'', ''rpmmd'', ''yum'', ''YUM''}"

definition validate_countme :: "string \<Rightarrow> nat \<Rightarrow> string \<Rightarrow> (mutation_error, unit) result" where
  "validate_countme path line text =
     (if text \<in> {''0'', ''1''} then Inr () else Inl (mutation_error_new path line ''invalid countme''))"

definition authenticated_proxy :: "string \<Rightarrow> bool" where
  "authenticated_proxy text \<longleftrightarrow>
     (let authority = (case split_once ''://'' text of None \<Rightarrow> text | Some (_, rest) \<Rightarrow> rest)
      in CHR ''@'' \<in> set (takeWhile (\<lambda>c. c \<noteq> CHR ''/'') authority))"

definition unique_words :: "string \<Rightarrow> nat \<Rightarrow> string \<Rightarrow> (mutation_error, string list) result" where
  "unique_words path line text =
     (let values = words text in
      if length (sort_dedup values) \<noteq> length values
      then Inl (mutation_error_new path line ''duplicate gpgkey path'')
      else Inr values)"

definition fingerprints :: "string \<Rightarrow> nat \<Rightarrow> string \<Rightarrow> (mutation_error, string list) result" where
  "fingerprints path line text =
     (let values = words text in
      if list_ex (\<lambda>item. length item \<noteq> 40 \<or> \<not> list_all is_ascii_hexdigit item) values
      then Inl (mutation_error_new path line ''invalid primary certificate fingerprint'')
      else Inr values)"

definition assign_repo ::
  "string \<Rightarrow> nat \<Rightarrow> repo_config \<Rightarrow> string \<Rightarrow> string \<Rightarrow> (mutation_error, repo_config) result" where
  "assign_repo path line repo key text =
     (if key = ''name'' then Inr (repo\<lparr>rc_name := Some text\<rparr>)
      else if key = ''type'' then
        (if rpm_md_repository_type text then Inr repo
         else Inl (mutation_error_new path line ''unsupported repository type''))
      else if key = ''enabled'' then bindR (boolean path line text) (\<lambda>b. Inr (repo\<lparr>rc_enabled := b\<rparr>))
      else if key = ''baseurl'' then Inr (repo\<lparr>rc_baseurl := reset_or_append (rc_baseurl repo) text\<rparr>)
      else if key = ''metalink'' then Inr (repo\<lparr>rc_metalink := nonempty text\<rparr>)
      else if key = ''mirrorlist'' then Inr (repo\<lparr>rc_mirrorlist := nonempty text\<rparr>)
      else if key = ''priority'' then
        bindR (ok_or (mutation_error_new path line ''invalid priority'') (parse_unsigned text))
          (\<lambda>n. Inr (repo\<lparr>rc_priority := n\<rparr>))
      else if key = ''cost'' then
        bindR (ok_or (mutation_error_new path line ''invalid cost'') (parse_unsigned text))
          (\<lambda>n. Inr (repo\<lparr>rc_cost := n\<rparr>))
      else if key = ''skip_if_unavailable''
      then bindR (boolean path line text) (\<lambda>b. Inr (repo\<lparr>rc_skip_if_unavailable := b\<rparr>))
      else if key = ''metadata_expire''
      then bindR (parse_metadata_expire path line text) (\<lambda>e. Inr (repo\<lparr>rc_metadata_expire := e\<rparr>))
      else if key = ''countme'' then bindR (validate_countme path line text) (\<lambda>_. Inr repo)
      else if key = ''enabled_metadata'' then bindR (boolean path line text) (\<lambda>_. Inr repo)
      else if key = ''sslverify'' then
        bindR (boolean path line text) (\<lambda>b. if \<not> b then rejected path line key else Inr (repo\<lparr>rc_sslverify := True\<rparr>))
      else if key = ''gpgcheck'' then
        bindR (boolean path line text) (\<lambda>b. if \<not> b then rejected path line key else Inr (repo\<lparr>rc_gpgcheck := True\<rparr>))
      else if key = ''pkg_gpgcheck'' then
        bindR (boolean path line text) (\<lambda>b. if \<not> b then rejected path line key else Inr (repo\<lparr>rc_pkg_gpgcheck := True\<rparr>))
      else if key = ''repo_gpgcheck''
      then bindR (boolean path line text) (\<lambda>b. Inr (repo\<lparr>rc_repo_gpgcheck := b\<rparr>))
      else if key = ''proxy'' then
        (if authenticated_proxy text then rejected path line key
         else Inr (repo\<lparr>rc_proxy := (if text \<in> {[], ''_none_''} then None else Some text)\<rparr>))
      else if key = ''excludepkgs'' then Inr (repo\<lparr>rc_excludepkgs := reset_or_append (rc_excludepkgs repo) text\<rparr>)
      else if key = ''includepkgs'' then Inr (repo\<lparr>rc_includepkgs := reset_or_append (rc_includepkgs repo) text\<rparr>)
      else if key = ''gpgkey'' then
        bindR (unique_words path line text) (\<lambda>ws.
          Inr (repo\<lparr>rc_gpgkey := reset_or_append_checked (rc_gpgkey repo) ws\<rparr>))
      else if key = ''dnfast_allowed_fingerprints'' then
        bindR (fingerprints path line text) (\<lambda>fs.
          Inr (repo\<lparr>rc_allowed_fingerprints := reset_or_append_checked (rc_allowed_fingerprints repo) fs\<rparr>))
      else Inl (mutation_error_new path line (''unsupported mutation key: '' @ key)))"

section \<open>Repository files\<close>

definition finish ::
  "string \<Rightarrow> nat \<Rightarrow> repo_config \<Rightarrow> repo_config list \<Rightarrow> (mutation_error, repo_config list) result" where
  "finish path line repo output =
     (if rc_enabled repo \<and> rc_baseurl repo = [] \<and> rc_metalink repo = None \<and> rc_mirrorlist repo = None
      then Inl (mutation_error_new path line ''enabled repository has no source'')
      else Inr (output @ [repo]))"

record profile_state =
  ps_repositories :: "repo_config list"
  ps_current :: "repo_config option"
  ps_seen_ids :: "string btree_set"
  ps_seen_keys :: "string set"

definition finish_current :: "string \<Rightarrow> nat \<Rightarrow> profile_state \<Rightarrow> (mutation_error, profile_state) result" where
  "finish_current path line st =
     (case ps_current st of
        None \<Rightarrow> Inr st
      | Some repo \<Rightarrow> bindR (finish path line repo (ps_repositories st)) (\<lambda>output.
          Inr (st\<lparr>ps_repositories := output, ps_current := None\<rparr>)))"

definition section_id :: "string \<Rightarrow> string" where
  "section_id line = trim (butlast (tl line))"

definition profile_section ::
  "string \<Rightarrow> main_config \<Rightarrow> nat \<Rightarrow> string \<Rightarrow> profile_state \<Rightarrow> (mutation_error, profile_state) result" where
  "profile_section path main number line st0 =
     (if \<not> ends_with line '']'' then Inl (mutation_error_new path number ''malformed repository section'')
      else
        bindR (finish_current path number st0) (\<lambda>st.
        let repo_id = section_id line in
        if \<not> valid_id repo_id then Inl (mutation_error_new path number ''invalid repository id'')
        else if repo_id \<in> set (ps_seen_ids st) then Inl (mutation_error_new path number ''duplicate repository id'')
        else
          let ids = bs_insert repo_id (ps_seen_ids st) in
          if length ids > 1024 then Inl (mutation_error_new path number ''repository limit exceeds 1024'')
          else Inr (st\<lparr>ps_seen_ids := ids, ps_seen_keys := {}, ps_current := Some (repo_config_new repo_id main)\<rparr>)))"

definition profile_line ::
  "string \<Rightarrow> main_config \<Rightarrow> nat \<times> string \<Rightarrow> profile_state \<Rightarrow> (mutation_error, profile_state) result" where
  "profile_line path main numbered st =
     (case numbered of (number, raw) \<Rightarrow>
        let line = trim raw in
        if skipped_line line then Inr st
        else if starts_with line ''['' then profile_section path main number line st
        else
          bindR (ok_or (mutation_error_new path number ''key outside repository section'') (ps_current st)) (\<lambda>repo.
          bindR (pair path number line) (\<lambda>(key, text).
            if key \<in> ps_seen_keys st
            then Inl (mutation_error_new path number (''duplicate mutation key: '' @ key))
            else
              bindR (assign_repo path number repo key text) (\<lambda>repo'.
                Inr (st\<lparr>ps_current := Some repo', ps_seen_keys := insert key (ps_seen_keys st)\<rparr>)))))"

definition parse_repo_profile ::
  "string \<Rightarrow> string \<Rightarrow> main_config \<Rightarrow> (mutation_error, mutation_profile) result" where
  "parse_repo_profile path input main =
     bindR (check_limits path input) (\<lambda>_.
     bindR (foldR (profile_line path main) (enumerate 1 (lines input))
       \<lparr>ps_repositories = [], ps_current = None, ps_seen_ids = [], ps_seen_keys = {}\<rparr>) (\<lambda>st.
     bindR (finish_current path (length (lines input)) st) (\<lambda>final.
       Inr \<lparr>pf_main = main, pf_repositories = ps_repositories final, pf_variables = []\<rparr>)))"

definition parse_before_network ::
  "string \<Rightarrow> string \<Rightarrow> main_config \<Rightarrow> (mutation_profile \<Rightarrow> 't) \<Rightarrow> (mutation_error, 't) result" where
  "parse_before_network path input main network =
     bindR (parse_repo_profile path input main) (\<lambda>profile. Inr (network profile))"

section \<open>Variables over a profile\<close>

definition variable_error :: "repo_error \<Rightarrow> mutation_error" where
  "variable_error e = mutation_error_new ''<variables>'' 0 (repo_error_display e)"

definition expand_text :: "repo_variables \<Rightarrow> string \<Rightarrow> (mutation_error, string) result" where
  "expand_text vars text = map_err variable_error (expand vars text)"

definition expand_option ::
  "repo_variables \<Rightarrow> string option \<Rightarrow> (mutation_error, string option) result" where
  "expand_option vars field =
     (case field of None \<Rightarrow> Inr None | Some text \<Rightarrow> bindR (expand_text vars text) (\<lambda>t. Inr (Some t)))"

definition expand_list :: "repo_variables \<Rightarrow> string list \<Rightarrow> (mutation_error, string list) result" where
  "expand_list vars values = mapR (expand_text vars) values"

text \<open>The normalised path of a \<^verbatim>\<open>String\<close> is UTF-8, so \<^verbatim>\<open>into_string\<close> does not fail.\<close>

definition normalize_gpgkey_locations :: "string list \<Rightarrow> (mutation_error, string list) result" where
  "normalize_gpgkey_locations values = mapR normalize_gpgkey_location values"

definition expand_repo :: "repo_variables \<Rightarrow> repo_config \<Rightarrow> (mutation_error, repo_config) result" where
  "expand_repo vars repo =
     bindR (expand_option vars (rc_name repo)) (\<lambda>name.
     bindR (expand_list vars (rc_baseurl repo)) (\<lambda>baseurl.
     bindR (expand_option vars (rc_metalink repo)) (\<lambda>metalink.
     bindR (expand_option vars (rc_mirrorlist repo)) (\<lambda>mirrorlist.
     bindR (expand_option vars (rc_proxy repo)) (\<lambda>proxy.
     bindR (expand_list vars (rc_excludepkgs repo)) (\<lambda>excludepkgs.
     bindR (expand_list vars (rc_includepkgs repo)) (\<lambda>includepkgs.
     bindR (expand_list vars (rc_gpgkey repo)) (\<lambda>expanded.
     bindR (if rc_enabled repo then normalize_gpgkey_locations expanded else Inr expanded) (\<lambda>gpgkey.
       Inr (repo\<lparr>rc_name := name, rc_baseurl := baseurl, rc_metalink := metalink,
         rc_mirrorlist := mirrorlist, rc_proxy := proxy, rc_excludepkgs := excludepkgs,
         rc_includepkgs := includepkgs, rc_gpgkey := gpgkey\<rparr>))))))))))"

definition expand_variables ::
  "mutation_profile \<Rightarrow> repo_variables \<Rightarrow> (mutation_error, mutation_profile) result" where
  "expand_variables profile vars =
     bindR (mapR (expand_repo vars) (pf_repositories profile)) (\<lambda>repositories.
       Inr (profile\<lparr>pf_repositories := repositories, pf_variables := vars\<rparr>))"

section \<open>Options of the command line\<close>

text \<open>\<^verbatim>\<open>iter_mut().find(p)\<close> followed by an update of what was found\<close>

fun update_first ::
  "('a \<Rightarrow> bool) \<Rightarrow> 'e \<Rightarrow> ('a \<Rightarrow> ('e, 'a) result) \<Rightarrow> 'a list \<Rightarrow> ('e, 'a list) result" where
  "update_first p missing f [] = Inl missing"
| "update_first p missing f (x # xs) =
     (if p x then bindR (f x) (\<lambda>y. Inr (y # xs))
      else bindR (update_first p missing f xs) (\<lambda>ys. Inr (x # ys)))"

definition setopt_repo ::
  "nat \<Rightarrow> string \<Rightarrow> string \<Rightarrow> repo_config \<Rightarrow> (mutation_error, repo_config) result" where
  "setopt_repo number key text repo =
     (if key = ''excludepkgs'' then Inr (repo\<lparr>rc_excludepkgs := reset_or_append (rc_excludepkgs repo) text\<rparr>)
      else if key = ''includepkgs'' then Inr (repo\<lparr>rc_includepkgs := reset_or_append (rc_includepkgs repo) text\<rparr>)
      else assign_repo ''<command-line>'' number repo key text)"

definition setopt ::
  "nat \<times> string \<Rightarrow> mutation_profile \<times> string set \<Rightarrow> (mutation_error, mutation_profile \<times> string set) result" where
  "setopt numbered state =
     (case (numbered, state) of ((number, option), (profile, trust_changed)) \<Rightarrow>
        let cli = ''<command-line>'' in
        bindR (pair cli number option) (\<lambda>(target, text).
          case strip_prefix ''main.'' target of
            Some key \<Rightarrow>
              bindR (apply_main_value cli number (pf_main profile) key text) (\<lambda>main.
                Inr (profile\<lparr>pf_main := main\<rparr>, trust_changed))
          | None \<Rightarrow>
              bindR (ok_or (mutation_error_new cli number ''malformed setopt target'') (strip_prefix ''repo.'' target))
                (\<lambda>rest.
              bindR (ok_or (mutation_error_new cli number ''malformed repo setopt target'') (rsplit_once (CHR ''.'') rest))
                (\<lambda>(repo_id, key).
              bindR (update_first (\<lambda>repo. rc_id repo = repo_id)
                  (mutation_error_new cli number ''unknown repository setopt target'')
                  (setopt_repo number key text) (pf_repositories profile)) (\<lambda>repositories.
                Inr (profile\<lparr>pf_repositories := repositories\<rparr>,
                  if key \<in> {''gpgkey'', ''enabled''} then insert repo_id trust_changed else trust_changed))))))"

definition rebind_trust ::
  "(bytes \<Rightarrow> bytes) \<Rightarrow> os \<Rightarrow> string set \<Rightarrow> repo_config \<Rightarrow> (mutation_error, repo_config) result" where
  "rebind_trust sha256 os trust_changed repo =
     (if rc_id repo \<notin> trust_changed then Inr repo
      else if rc_enabled repo then
        bindR (normalize_gpgkey_locations (rc_gpgkey repo)) (\<lambda>gpgkey.
        bindR (key_bundle_digest sha256 os (rc_id repo) gpgkey) (\<lambda>bundle.
          Inr (repo\<lparr>rc_gpgkey := gpgkey, rc_key_bundle_digest := Some (kb_digest bundle)\<rparr>)))
      else Inr (repo\<lparr>rc_key_bundle_digest := None\<rparr>))"

definition apply_setopts ::
  "(bytes \<Rightarrow> bytes) \<Rightarrow> os \<Rightarrow> mutation_profile \<Rightarrow> string list \<Rightarrow> (mutation_error, mutation_profile) result" where
  "apply_setopts sha256 os profile options =
     bindR (foldR setopt (enumerate 1 options) (profile, {})) (\<lambda>(changed, trust_changed).
     bindR (mapR (rebind_trust sha256 os trust_changed) (pf_repositories changed)) (\<lambda>repositories.
       Inr (changed\<lparr>pf_repositories := repositories\<rparr>)))"

section \<open>Steps of the readers\<close>

lemma profile_line_cases:
  assumes "profile_line path main (n, raw) st = Inr st'"
  obtains (skip) "skipped_line (trim raw)" "st' = st"
  | (header) "\<not> skipped_line (trim raw)" "starts_with (trim raw) ''[''" "profile_section path main n (trim raw) st = Inr st'"
  | (assign) repo key tx repo' where "\<not> skipped_line (trim raw)" "\<not> starts_with (trim raw) ''[''"
      "ps_current st = Some repo" "setting (trim raw) = Some (key, tx)" "key \<notin> ps_seen_keys st"
      "assign_repo path n repo key tx = Inr repo'"
      "st' = st\<lparr>ps_current := Some repo', ps_seen_keys := insert key (ps_seen_keys st)\<rparr>"
proof (cases "skipped_line (trim raw) \<or> starts_with (trim raw) ''[''")
  case True
  then show ?thesis using assms skip header by (auto simp: profile_line_def Let_def split: if_splits)
next
  case False
  define step where "step repo key tx =
    (if key \<in> ps_seen_keys st then Inl (mutation_error_new path n (''duplicate mutation key: '' @ key))
     else bindR (assign_repo path n repo key tx) (\<lambda>repo'.
       Inr (st\<lparr>ps_current := Some repo', ps_seen_keys := insert key (ps_seen_keys st)\<rparr>)))" for repo key tx
  have "bindR (ok_or (mutation_error_new path n ''key outside repository section'') (ps_current st)) (\<lambda>repo.
      bindR (pair path n (trim raw)) (\<lambda>(key, tx). step repo key tx)) = Inr st'"
    using assms False unfolding profile_line_def step_def Let_def by simp
  then obtain repo key tx where r: "ps_current st = Some repo" "pair path n (trim raw) = Inr (key, tx)"
    "step repo key tx = Inr st'"
    unfolding bindR_eq_Inr ok_or_eq_Inr by (metis (no_types, lifting) case_prod_beta prod.collapse)
  then obtain repo' where "key \<notin> ps_seen_keys st" "assign_repo path n repo key tx = Inr repo'"
    "st' = st\<lparr>ps_current := Some repo', ps_seen_keys := insert key (ps_seen_keys st)\<rparr>"
    unfolding step_def if_Inl_eq_Inr bindR_eq_Inr by (metis Inr_inject)
  then show ?thesis using assign False r by (simp add: setting_iff)
qed

lemma profile_section_iff:
  "profile_section path main n line st = Inr st' \<longleftrightarrow>
     ends_with line '']'' \<and> (\<exists>st1. finish_current path n st = Inr st1 \<and> valid_id (section_id line)
       \<and> section_id line \<notin> set (ps_seen_ids st1) \<and> length (bs_insert (section_id line) (ps_seen_ids st1)) \<le> 1024
       \<and> st' = st1\<lparr>ps_seen_ids := bs_insert (section_id line) (ps_seen_ids st1), ps_seen_keys := {},
             ps_current := Some (repo_config_new (section_id line) main)\<rparr>)"
  unfolding profile_section_def if_Inl_eq_Inr bindR_eq_Inr Let_def not_not not_le [symmetric] sum.inject by metis

lemma finish_current_iff:
  "finish_current path line st = Inr st' \<longleftrightarrow>
     (case ps_current st of None \<Rightarrow> st' = st
      | Some r \<Rightarrow> (rc_enabled r \<longrightarrow> rc_baseurl r \<noteq> [] \<or> rc_metalink r \<noteq> None \<or> rc_mirrorlist r \<noteq> None)
          \<and> st' = st\<lparr>ps_repositories := ps_repositories st @ [r], ps_current := None\<rparr>)"
  by (cases "ps_current st") (auto simp: finish_current_def finish_def)

lemma parse_repo_profile_iff:
  "parse_repo_profile path input main = Inr p \<longleftrightarrow> limits_ok input \<and> (\<exists>st st'.
     foldR (profile_line path main) (enumerate 1 (lines input))
       \<lparr>ps_repositories = [], ps_current = None, ps_seen_ids = [], ps_seen_keys = {}\<rparr> = Inr st
     \<and> finish_current path (length (lines input)) st = Inr st'
     \<and> p = \<lparr>pf_main = main, pf_repositories = ps_repositories st', pf_variables = []\<rparr>)"
  unfolding parse_repo_profile_def bindR_eq_Inr using check_limits_iff [of path input] by auto

lemma setopt_cases:
  assumes "setopt (n, opt) (p, t) = Inr (p', t')"
  obtains (main) key tx main where "apply_main_value ''<command-line>'' n (pf_main p) key tx = Inr main"
      "p' = p\<lparr>pf_main := main\<rparr>" "t' = t"
  | (repo) repo_id key tx repos where
      "update_first (\<lambda>repo. rc_id repo = repo_id) (mutation_error_new ''<command-line>'' n ''unknown repository setopt target'')
         (setopt_repo n key tx) (pf_repositories p) = Inr repos"
      "p' = p\<lparr>pf_repositories := repos\<rparr>"
      "t' = (if key \<in> {''gpgkey'', ''enabled''} then insert repo_id t else t)"
proof -
  from assms obtain target tx where tt: "pair ''<command-line>'' n opt = Inr (target, tx)"
    by (auto simp: setopt_def Let_def bindR_eq_Inr)
  show ?thesis
  proof (cases "strip_prefix ''main.'' target")
    case None
    then obtain rest where rest: "strip_prefix ''repo.'' target = Some rest"
      using assms tt by (auto simp: setopt_def Let_def bindR_eq_Inr ok_or_eq_Inr)
    then obtain repo_id key where "rsplit_once (CHR ''.'') rest = Some (repo_id, key)"
      using assms tt None by (auto simp: setopt_def Let_def bindR_eq_Inr ok_or_eq_Inr)
    then show ?thesis using assms tt None rest repo by (simp add: setopt_def Let_def bindR_eq_Inr) blast
  next
    case (Some key)
    then show ?thesis using assms tt main by (simp add: setopt_def Let_def bindR_eq_Inr) blast
  qed
qed

lemma apply_setopts_iff:
  "apply_setopts sha256 os p options = Inr p' \<longleftrightarrow> (\<exists>q t repos.
     foldR setopt (enumerate 1 options) (p, {}) = Inr (q, t)
     \<and> mapR (rebind_trust sha256 os t) (pf_repositories q) = Inr repos \<and> p' = q\<lparr>pf_repositories := repos\<rparr>)"
  unfolding apply_setopts_def bindR_eq_Inr case_prod_beta by (metis (no_types, lifting) Inr_inject fst_conv snd_conv prod.collapse)

section \<open>What every operation on repositories keeps\<close>

text \<open>
  A property of single repositories that a new section has and that settings, variable expansion
  and the renewal of the key digest keep, holds of all repositories of every profile.
\<close>

locale repo_invariant =
  fixes P :: "repo_config \<Rightarrow> bool"
  assumes keep_new: "valid_id repo_id \<Longrightarrow> P (repo_config_new repo_id main)"
    and keep_assign: "assign_repo path line r key tx = Inr r' \<Longrightarrow> P r \<Longrightarrow> P r'"
    and keep_expand: "expand_repo vars r = Inr r' \<Longrightarrow> P r \<Longrightarrow> P r'"
    and keep_rebind: "rebind_trust sha256 os changed r = Inr r' \<Longrightarrow> P r \<Longrightarrow> P r'"
    and keep_filters: "P r \<Longrightarrow> P (r\<lparr>rc_excludepkgs := ex\<rparr>)" "P r \<Longrightarrow> P (r\<lparr>rc_includepkgs := inc\<rparr>)"
begin

definition state_ok :: "profile_state \<Rightarrow> bool" where
  "state_ok st \<longleftrightarrow> list_all P (ps_repositories st) \<and> pred_option P (ps_current st)"

lemma finish_current_ok:
  "finish_current path line st = Inr st' \<Longrightarrow> state_ok st \<Longrightarrow> state_ok st' \<and> ps_current st' = None"
  by (auto simp: finish_current_def finish_def state_ok_def bindR_eq_Inr split: option.splits if_splits)

lemma profile_line_ok:
  assumes "profile_line path main numbered st = Inr st'" "state_ok st"
  shows "state_ok st'"
proof -
  obtain n raw where n: "numbered = (n, raw)" by force
  from assms(1) [unfolded n] show ?thesis
  proof (cases rule: profile_line_cases)
    case header
    then show ?thesis unfolding profile_section_iff using finish_current_ok assms(2) keep_new
      by (auto simp: state_ok_def)
  next
    case assign
    then show ?thesis using assms(2) keep_assign by (auto simp: state_ok_def)
  qed (use assms(2) in simp)
qed

lemma parse_keeps:
  assumes "parse_repo_profile path input main = Inr p"
  shows "list_all P (pf_repositories p)"
proof -
  let ?init = "\<lparr>ps_repositories = [], ps_current = None, ps_seen_ids = [], ps_seen_keys = {}\<rparr>"
  from assms obtain st st' where
    st: "foldR (profile_line path main) (enumerate 1 (lines input)) ?init = Inr st"
      "finish_current path (length (lines input)) st = Inr st'" "pf_repositories p = ps_repositories st'"
    unfolding parse_repo_profile_iff by auto
  have "state_ok ?init" by (simp add: state_ok_def)
  with st(1) have "state_ok st" by (rule foldR_invariant) (rule profile_line_ok)
  then show ?thesis using finish_current_ok [OF st(2)] st(3) by (simp add: state_ok_def)
qed

lemma mapR_keeps:
  "mapR f xs = Inr ys \<Longrightarrow> list_all P xs \<Longrightarrow> (\<And>x y. f x = Inr y \<Longrightarrow> P x \<Longrightarrow> P y) \<Longrightarrow> list_all P ys"
  by (auto simp: mapR_eq_Inr list_all_length)

lemma expand_keeps:
  "expand_variables p vars = Inr p' \<Longrightarrow> list_all P (pf_repositories p) \<Longrightarrow> list_all P (pf_repositories p')"
  by (auto simp: expand_variables_def bindR_eq_Inr elim!: mapR_keeps intro: keep_expand)

lemma update_first_keeps:
  "update_first q e f xs = Inr ys \<Longrightarrow> list_all P xs \<Longrightarrow> (\<And>x y. f x = Inr y \<Longrightarrow> P x \<Longrightarrow> P y) \<Longrightarrow> list_all P ys"
  by (induction xs arbitrary: ys) (auto simp: bindR_eq_Inr split: if_splits)

lemma setopt_repo_keeps: "setopt_repo n key tx r = Inr r' \<Longrightarrow> P r \<Longrightarrow> P r'"
  by (auto simp: setopt_repo_def keep_filters split: if_splits dest: keep_assign)

lemma setopt_keeps:
  assumes "setopt numbered (p, t) = Inr (p', t')" "list_all P (pf_repositories p)"
  shows "list_all P (pf_repositories p')"
proof -
  obtain n opt where n: "numbered = (n, opt)" by force
  from assms(1) [unfolded n] show ?thesis
    by (cases rule: setopt_cases) (use assms(2) in \<open>auto elim: update_first_keeps intro: setopt_repo_keeps\<close>)
qed

lemma setopts_keep:
  assumes "apply_setopts sha256 os p options = Inr p'" "list_all P (pf_repositories p)"
  shows "list_all P (pf_repositories p')"
proof -
  obtain q t repos where
    q: "foldR setopt (enumerate 1 options) (p, {}) = Inr (q, t)"
      "mapR (rebind_trust sha256 os t) (pf_repositories q) = Inr repos" "p' = q\<lparr>pf_repositories := repos\<rparr>"
    using assms(1) unfolding apply_setopts_iff by blast
  from q(1) have "list_all P (pf_repositories (fst (q, t)))"
    by (rule foldR_invariant) (use assms(2) setopt_keeps in auto)
  then show ?thesis using q(2,3) mapR_keeps [OF q(2)] keep_rebind by simp
qed

end

section \<open>Safe settings\<close>

definition repo_secure :: "repo_config \<Rightarrow> bool" where
  "repo_secure r \<longleftrightarrow> valid_id (rc_id r) \<and> rc_sslverify r \<and> rc_gpgcheck r \<and> rc_pkg_gpgcheck r
     \<and> (\<forall>f\<in>set (rc_allowed_fingerprints r). length f = 40 \<and> list_all is_ascii_hexdigit f)"

definition has_source :: "repo_config \<Rightarrow> bool" where
  "has_source r \<longleftrightarrow> rc_baseurl r \<noteq> [] \<or> rc_metalink r \<noteq> None \<or> rc_mirrorlist r \<noteq> None"

lemma fingerprints_iff:
  "fingerprints path line tx = Inr fs \<longleftrightarrow> fs = words tx \<and> (\<forall>f\<in>set fs. length f = 40 \<and> list_all is_ascii_hexdigit f)"
  by (auto simp: fingerprints_def Let_def list_ex_iff)

lemma assign_repo_secure: "assign_repo path line r key tx = Inr r' \<Longrightarrow> repo_secure r \<Longrightarrow> repo_secure r'"
  unfolding assign_repo_def repo_secure_def
  by (auto simp: bindR_eq_Inr rejected_def fingerprints_iff reset_or_append_checked_def split: if_splits)

lemma assign_repo_id: "assign_repo path line r key tx = Inr r' \<Longrightarrow> rc_id r' = rc_id r"
  unfolding assign_repo_def by (auto simp: bindR_eq_Inr rejected_def split: if_splits)

lemma expand_repo_frame:
  assumes "expand_repo vars r = Inr r'"
  shows "rc_id r' = rc_id r" "rc_enabled r' = rc_enabled r" "rc_sslverify r' = rc_sslverify r"
    "rc_gpgcheck r' = rc_gpgcheck r" "rc_pkg_gpgcheck r' = rc_pkg_gpgcheck r"
    "rc_repo_gpgcheck r' = rc_repo_gpgcheck r" "rc_allowed_fingerprints r' = rc_allowed_fingerprints r"
proof -
  from assms obtain nm bu me mi pr ex inc gk where
    "r' = r\<lparr>rc_name := nm, rc_baseurl := bu, rc_metalink := me, rc_mirrorlist := mi, rc_proxy := pr,
       rc_excludepkgs := ex, rc_includepkgs := inc, rc_gpgkey := gk\<rparr>"
    unfolding expand_repo_def bindR_eq_Inr by (elim exE conjE) (simp only: sum.inject, blast)
  then show "rc_id r' = rc_id r" "rc_enabled r' = rc_enabled r" "rc_sslverify r' = rc_sslverify r"
    "rc_gpgcheck r' = rc_gpgcheck r" "rc_pkg_gpgcheck r' = rc_pkg_gpgcheck r"
    "rc_repo_gpgcheck r' = rc_repo_gpgcheck r" "rc_allowed_fingerprints r' = rc_allowed_fingerprints r"
    by simp_all
qed

lemma rebind_trust_cases:
  assumes "rebind_trust sha256 os t r = Inr r'"
  obtains "rc_id r \<notin> t" "r' = r"
  | gpgkey kb where "rc_id r \<in> t" "rc_enabled r" "normalize_gpgkey_locations (rc_gpgkey r) = Inr gpgkey"
      "key_bundle_digest sha256 os (rc_id r) gpgkey = Inr kb"
      "r' = r\<lparr>rc_gpgkey := gpgkey, rc_key_bundle_digest := Some (kb_digest kb)\<rparr>"
  | "rc_id r \<in> t" "\<not> rc_enabled r" "r' = r\<lparr>rc_key_bundle_digest := None\<rparr>"
proof (cases "rc_id r \<notin> t \<or> \<not> rc_enabled r")
  case True
  then show ?thesis using assms that by (auto simp: rebind_trust_def split: if_splits)
next
  case False
  then have "bindR (normalize_gpgkey_locations (rc_gpgkey r)) (\<lambda>gpgkey.
      bindR (key_bundle_digest sha256 os (rc_id r) gpgkey) (\<lambda>b.
        Inr (r\<lparr>rc_gpgkey := gpgkey, rc_key_bundle_digest := Some (kb_digest b)\<rparr>))) = Inr r'"
    using assms by (simp add: rebind_trust_def)
  then obtain gpgkey kb where "normalize_gpgkey_locations (rc_gpgkey r) = Inr gpgkey"
    "key_bundle_digest sha256 os (rc_id r) gpgkey = Inr kb"
    "r' = r\<lparr>rc_gpgkey := gpgkey, rc_key_bundle_digest := Some (kb_digest kb)\<rparr>"
    unfolding bindR_eq_Inr by (metis Inr_inject)
  then show ?thesis using that(2) False by blast
qed

interpretation secure: repo_invariant repo_secure
proof
  show "valid_id repo_id \<Longrightarrow> repo_secure (repo_config_new repo_id main)" for repo_id main
    by (simp add: repo_secure_def repo_config_new_def)
  show "assign_repo path line r key tx = Inr r' \<Longrightarrow> repo_secure r \<Longrightarrow> repo_secure r'" for path line r key tx r'
    by (rule assign_repo_secure)
  show "expand_repo vars r = Inr r' \<Longrightarrow> repo_secure r \<Longrightarrow> repo_secure r'" for vars r r'
    by (simp add: repo_secure_def expand_repo_frame)
  show "rebind_trust sha256 os t r = Inr r' \<Longrightarrow> repo_secure r \<Longrightarrow> repo_secure r'" for sha256 os t r r'
    by (erule rebind_trust_cases) (auto simp: repo_secure_def)
qed (simp_all add: repo_secure_def)

text \<open>The state of the reader: the ids seen are those of the finished and the open sections.\<close>

definition open_ids :: "profile_state \<Rightarrow> string list" where
  "open_ids st = map rc_id (ps_repositories st) @ map rc_id (case ps_current st of None \<Rightarrow> [] | Some r \<Rightarrow> [r])"

definition profile_inv :: "profile_state \<Rightarrow> bool" where
  "profile_inv st \<longleftrightarrow> bs_ok (ps_seen_ids st) \<and> length (ps_seen_ids st) \<le> 1024 \<and> distinct (open_ids st)
     \<and> set (open_ids st) \<subseteq> set (ps_seen_ids st)
     \<and> (\<forall>r\<in>set (ps_repositories st). rc_enabled r \<longrightarrow> has_source r)"

lemma finish_current_inv:
  "finish_current path line st = Inr st' \<Longrightarrow> profile_inv st \<Longrightarrow>
     profile_inv st' \<and> ps_current st' = None \<and> ps_seen_ids st' = ps_seen_ids st"
  unfolding finish_current_iff profile_inv_def open_ids_def has_source_def
  by (cases "ps_current st") auto

lemma profile_line_inv:
  assumes "profile_line path main (n, raw) st = Inr st'" "profile_inv st"
  shows "profile_inv st'"
  using assms(1)
proof (cases rule: profile_line_cases)
  case header
  then obtain st1 where st1: "finish_current path n st = Inr st1" "section_id (trim raw) \<notin> set (ps_seen_ids st1)"
    "length (bs_insert (section_id (trim raw)) (ps_seen_ids st1)) \<le> 1024"
    "st' = st1\<lparr>ps_seen_ids := bs_insert (section_id (trim raw)) (ps_seen_ids st1), ps_seen_keys := {},
       ps_current := Some (repo_config_new (section_id (trim raw)) main)\<rparr>"
    unfolding profile_section_iff by blast
  then show ?thesis using finish_current_inv [OF st1(1) assms(2)]
    by (auto simp: profile_inv_def open_ids_def repo_config_new_def)
next
  case assign
  then show ?thesis using assms(2) assign_repo_id by (auto simp: profile_inv_def open_ids_def)
qed (use assms(2) in simp)

lemma parse_repo_profile_inv:
  assumes "parse_repo_profile path input main = Inr p"
  shows "distinct (map rc_id (pf_repositories p)) \<and> length (pf_repositories p) \<le> 1024
    \<and> (\<forall>r\<in>set (pf_repositories p). rc_enabled r \<longrightarrow> has_source r)"
proof -
  let ?init = "\<lparr>ps_repositories = [], ps_current = None, ps_seen_ids = [], ps_seen_keys = {}\<rparr>"
  from assms obtain st st' where
    st: "foldR (profile_line path main) (enumerate 1 (lines input)) ?init = Inr st"
      "finish_current path (length (lines input)) st = Inr st'" "pf_repositories p = ps_repositories st'"
    unfolding parse_repo_profile_iff by auto
  have "profile_inv ?init" by (simp add: profile_inv_def open_ids_def)
  with st(1) have "profile_inv st"
    by (rule foldR_invariant) (metis prod.collapse profile_line_inv)
  then have inv: "profile_inv st'" "ps_current st' = None" using finish_current_inv [OF st(2)] by auto
  then have d: "distinct (map rc_id (ps_repositories st'))"
    and sub: "set (map rc_id (ps_repositories st')) \<subseteq> set (ps_seen_ids st')"
    and src: "\<forall>r\<in>set (ps_repositories st'). rc_enabled r \<longrightarrow> has_source r"
    and le: "length (ps_seen_ids st') \<le> 1024"
    by (auto simp: profile_inv_def open_ids_def)
  have "length (map rc_id (ps_repositories st')) \<le> length (ps_seen_ids st')"
    using d sub by (metis card_length card_mono distinct_card finite_set le_trans)
  then show ?thesis using d src le st(3) by simp
qed

lemma setopt_ids:
  assumes "setopt (n, opt) (p, t) = Inr (p', t')"
  shows "map rc_id (pf_repositories p') = map rc_id (pf_repositories p)"
proof -
  have r: "setopt_repo n key tx r = Inr r' \<Longrightarrow> rc_id r' = rc_id r" for key tx r r'
    by (auto simp: setopt_repo_def dest: assign_repo_id split: if_splits)
  have u: "update_first q e (setopt_repo n key tx) xs = Inr ys \<Longrightarrow> map rc_id ys = map rc_id xs" for q e key tx xs ys
    by (induction xs arbitrary: ys) (auto simp: bindR_eq_Inr r split: if_splits)
  from assms show ?thesis by (cases rule: setopt_cases) (auto simp: u)
qed

lemma mapR_ids:
  "mapR f xs = Inr ys \<Longrightarrow> (\<And>x y. f x = Inr y \<Longrightarrow> rc_id y = rc_id x) \<Longrightarrow> map rc_id ys = map rc_id xs"
  by (auto simp: mapR_eq_Inr list_eq_iff_nth_eq)

lemma apply_setopts_ids:
  assumes "apply_setopts sha256 os p options = Inr p'"
  shows "map rc_id (pf_repositories p') = map rc_id (pf_repositories p)"
proof -
  obtain q t repos where
    q: "foldR setopt (enumerate 1 options) (p, {}) = Inr (q, t)"
      "mapR (rebind_trust sha256 os t) (pf_repositories q) = Inr repos" "p' = q\<lparr>pf_repositories := repos\<rparr>"
    using assms unfolding apply_setopts_iff by blast
  have "map rc_id (pf_repositories (fst (q, t))) = map rc_id (pf_repositories p)"
    using q(1) by (rule foldR_invariant) (simp, metis prod.collapse setopt_ids)
  moreover have "map rc_id repos = map rc_id (pf_repositories q)"
    using q(2) by (rule mapR_ids) (erule rebind_trust_cases, auto)
  ultimately show ?thesis using q(3) by simp
qed

section \<open>Durations are exact\<close>

lemma read_nat_fold: "foldl (\<lambda>n c. 10 * n + (byte_of c - 48)) a s = a * 10 ^ length s + read_nat s"
proof (induction s arbitrary: a)
  case (Cons c s)
  have "foldl (\<lambda>n c. 10 * n + (byte_of c - 48)) a (c # s) = (10 * a + (byte_of c - 48)) * 10 ^ length s + read_nat s"
    using Cons.IH by simp
  moreover have "read_nat (c # s) = (byte_of c - 48) * 10 ^ length s + read_nat s"
    using Cons.IH [of "byte_of c - 48"] by (simp add: read_nat_def)
  ultimately show ?case by (simp add: algebra_simps)
qed (simp add: read_nat_def)

lemma read_nat_Cons: "read_nat (c # s) = (byte_of c - 48) * 10 ^ length s + read_nat s"
  using read_nat_fold [of "byte_of c - 48" s] by (simp add: read_nat_def)

lemma read_nat_append: "read_nat (s @ t) = read_nat s * 10 ^ length t + read_nat t"
  using read_nat_fold [of "read_nat s" t] by (simp add: read_nat_def)

lemma read_nat_Nil [simp]: "read_nat [] = 0"
  by (simp add: read_nat_def)

lemma unat_digit_of: "is_ascii_digit c \<Longrightarrow> unat (digit_of c) = byte_of c - 48 \<and> byte_of c - 48 < 10"
  unfolding digit_of_def is_ascii_digit_def by (auto simp: unat_of_nat simp del: of_nat_diff)

lemma read_nat_less: "list_all is_ascii_digit s \<Longrightarrow> read_nat s < 10 ^ length s"
proof (induction s)
  case (Cons c s)
  then have "byte_of c - 48 \<le> 9" "read_nat s < 10 ^ length s" using unat_digit_of [of c] by auto
  then have "(byte_of c - 48) * 10 ^ length s + read_nat s < 9 * 10 ^ length s + 10 ^ length s"
    by (meson add_le_less_mono mult_le_mono1)
  then show ?case by (simp add: read_nat_Cons)
qed simp

lemma checked_mul_iff: "checked_mul a b = Some c \<longleftrightarrow> unat a * unat b < 2 ^ LENGTH('l) \<and> c = a * b"
  for a :: "'l::len word"
  by (auto simp: checked_mul_def)

lemma decimal_fold_eq:
  "list_all is_ascii_digit s \<Longrightarrow> decimal_fold acc s =
     (let n = unat acc * 10 ^ length s + read_nat s in if n < 2 ^ 64 then Some (of_nat n) else None)"
proof (induction s arbitrary: acc)
  case Nil
  have "unat acc < 2 ^ 64" using unsigned_less [of acc] by simp
  then show ?case by (simp add: Let_def)
next
  case (Cons c s)
  let ?d = "byte_of c - 48"
  have d: "unat (digit_of c) = ?d" using Cons.prems unat_digit_of by auto
  let ?m = "unat acc * 10 + ?d"
  have total: "unat acc * 10 ^ length (c # s) + read_nat (c # s) = ?m * 10 ^ length s + read_nat s"
    by (simp add: read_nat_Cons algebra_simps)
  show ?case
  proof (cases "?m < 2 ^ 64")
    case True
    then have mul: "checked_mul acc 10 = Some (acc * 10)" "unat (acc * 10) = unat acc * 10"
      by (auto simp: checked_mul_def unat_mult_lem [THEN iffD1])
    have add: "checked_add (acc * 10) (digit_of c) = Some (acc * 10 + digit_of c)"
      "unat (acc * 10 + digit_of c) = ?m"
      using True by (auto simp: checked_add_def mul d unat_add_lem [THEN iffD1])
    show ?thesis unfolding total
      using Cons.IH [of "acc * 10 + digit_of c"] Cons.prems by (simp add: mul(1) add)
  next
    case False
    have "decimal_fold acc (c # s) = None"
    proof (cases "unat acc * 10 < 2 ^ 64")
      case True
      then have mul: "checked_mul acc 10 = Some (acc * 10)" "unat (acc * 10) = unat acc * 10"
        by (auto simp: checked_mul_def unat_mult_lem [THEN iffD1])
      then have "checked_add (acc * 10) (digit_of c) = None" using False by (simp add: checked_add_def d)
      then show ?thesis using mul by simp
    qed (simp add: checked_mul_def)
    moreover have "?m \<le> ?m * 10 ^ length s" by simp
    then have "\<not> ?m * 10 ^ length s + read_nat s < 2 ^ 64" using False by (meson le_trans not_less trans_le_add1)
    ultimately show ?thesis unfolding total by (simp del: decimal_fold.simps)
  qed
qed

lemma fractional_seconds_eq:
  assumes "list_all is_ascii_digit s" "unat m \<le> 86400"
  shows "unat (fractional_seconds s m) = read_nat s * unat m div 10 ^ length s"
  using assms(1)
proof (induction s)
  case Nil
  then show ?case by (simp add: fractional_seconds_def)
next
  case (Cons c s)
  let ?d = "byte_of c - 48" and ?k = "10 ^ length s :: nat" and ?M = "unat m"
  have d: "unat (digit_of c) = ?d" "?d < 10" using Cons.prems unat_digit_of by auto
  have IH: "unat (fractional_seconds s m) = read_nat s * ?M div ?k" using Cons by simp
  have "read_nat s * ?M div ?k \<le> ?M"
    using read_nat_less [of s] Cons.prems by (metis div_le_mono less_imp_le list.pred_inject(2) mult.commute
        mult_le_mono2 nonzero_mult_div_cancel_right power_not_zero zero_neq_numeral)
  then have small: "?d * ?M + read_nat s * ?M div ?k < 2 ^ 64"
  proof -
    have "?d * ?M \<le> 9 * 86400" using d(2) assms(2) by (intro mult_le_mono) auto
    then show ?thesis using \<open>read_nat s * ?M div ?k \<le> ?M\<close> assms(2) by simp
  qed
  have u1: "unat (digit_of c * m) = ?d * ?M"
    using unat_mult_lem [of "digit_of c" m] small d(1) by simp
  have u2: "unat (digit_of c * m + fractional_seconds s m) = ?d * ?M + read_nat s * ?M div ?k"
    using unat_add_lem [of "digit_of c * m" "fractional_seconds s m"] small u1 IH by simp
  have "fractional_seconds (c # s) m = (digit_of c * m + fractional_seconds s m) div 10"
    by (simp add: fractional_seconds_def)
  then have "unat (fractional_seconds (c # s) m) = (?d * ?M + read_nat s * ?M div ?k) div 10"
    by (simp add: unat_div u2)
  also have "\<dots> = (?d * ?M * ?k + read_nat s * ?M) div ?k div 10"
    by simp
  also have "\<dots> = read_nat (c # s) * ?M div 10 ^ length (c # s)"
    by (simp add: read_nat_Cons div_mult2_eq [symmetric] algebra_simps)
  finally show ?case .
qed

text \<open>The units a duration may be written in.\<close>

definition duration_unit :: "string \<Rightarrow> nat option" where
  "duration_unit s = map_of [([], 1), (''s'', 1), (''S'', 1), (''m'', 60), (''M'', 60), (''h'', 3600), (''H'', 3600),
     (''d'', 86400), (''D'', 86400)] s"

definition decimal_text :: "string \<Rightarrow> string \<Rightarrow> bool \<Rightarrow> string" where
  "decimal_text whole fraction dot = whole @ (if dot then CHR ''.'' # fraction else [])"

lemma duration_parts_unit:
  assumes "duration_unit u = Some m" "number \<noteq> []" "last number \<in> {c. is_ascii_digit c} \<union> {CHR ''.''}"
  shows "duration_parts (number @ u) = Some (number, of_nat m)"
proof -
  have l: "last number \<notin> set ''sSmMhHdD''" using assms(3) by (auto simp: ascii_defs)
  have "u \<in> {[], ''s'', ''S'', ''m'', ''M'', ''h'', ''H'', ''d'', ''D''}"
    using assms(1) by (auto simp: duration_unit_def split: if_splits)
  then show ?thesis using assms(1,2) l
    by (auto simp: duration_unit_def duration_parts_def Let_def split: if_splits)
qed

lemma decimal_seconds_eq:
  assumes "list_all is_ascii_digit s" "m \<le> 86400"
  shows "decimal_seconds s (of_nat m) = (if read_nat s * m < 2 ^ 64 \<and> read_nat s < 2 ^ 64
    then Some (of_nat (read_nat s * m)) else None)"
proof -
  have "unat (of_nat m :: u64) = m" using assms(2) by (simp add: unat_of_nat)
  moreover have "unat (of_nat (read_nat s) :: u64) = read_nat s" if "read_nat s < 2 ^ 64"
    using that by (simp add: unat_of_nat)
  ultimately show ?thesis
    using decimal_fold_eq [OF assms(1), of 0] by (auto simp: decimal_seconds_def Let_def checked_mul_def)
qed

lemma decimal_chars: "list_all is_ascii_digit whole \<Longrightarrow> list_all is_ascii_digit fraction \<Longrightarrow>
    c \<in> set (decimal_text whole fraction dot) \<Longrightarrow> is_ascii_digit c \<or> c = CHR ''.''"
  by (auto simp: decimal_text_def list_all_iff split: if_splits)

lemma decimal_total:
  assumes "list_all is_ascii_digit fraction" "m \<le> 86400" "list_all is_ascii_digit whole" "0 < m"
  shows "bindR (ok_or e (decimal_seconds whole (of_nat m))) (\<lambda>w.
      bindR (ok_or e (checked_add w (fractional_seconds fraction (of_nat m)))) (\<lambda>s. Inr (AfterSeconds s))) =
    (let s = read_nat (whole @ fraction) * m div 10 ^ length fraction
     in if s < 2 ^ 64 then Inr (AfterSeconds (of_nat s)) else Inl e)"
proof -
  let ?w = "read_nat whole" and ?f = "read_nat fraction * m div 10 ^ length fraction"
  have m: "unat (of_nat m :: u64) = m" using assms(2) by (simp add: unat_of_nat)
  have f: "unat (fractional_seconds fraction (of_nat m)) = ?f"
    using fractional_seconds_eq [OF assms(1), of "of_nat m"] assms(2) m by simp
  have total: "read_nat (whole @ fraction) * m div 10 ^ length fraction = ?w * m + ?f"
  proof -
    have "read_nat (whole @ fraction) * m = read_nat fraction * m + (?w * m) * 10 ^ length fraction"
      by (simp add: read_nat_append algebra_simps)
    then show ?thesis by (simp only: div_mult_self1 power_not_zero zero_neq_numeral [symmetric] not_False_eq_True)
  qed
  show ?thesis
  proof (cases "?w * m < 2 ^ 64")
    case True
    then have "?w < 2 ^ 64" using assms(4) by (metis le_less_trans mult_le_mono2 nat_mult_1_right Suc_leI One_nat_def)
    then have w: "decimal_seconds whole (of_nat m) = Some (of_nat (?w * m))"
      using True decimal_seconds_eq [OF assms(3) assms(2)] by simp
    have u: "unat (of_nat (?w * m) :: u64) = ?w * m" using True by (simp add: unat_of_nat del: of_nat_mult)
    have "of_nat (?w * m) + fractional_seconds fraction (of_nat m) = of_nat (?w * m + ?f)"
      using word_arith_nat_add [of "of_nat (?w * m)" "fractional_seconds fraction (of_nat m)"] u f by (simp only:)
    then have "checked_add (of_nat (?w * m)) (fractional_seconds fraction (of_nat m)) =
        (if ?w * m + ?f < 2 ^ 64 then Some (of_nat (?w * m + ?f)) else None)"
      using f u by (simp add: checked_add_def del: of_nat_mult of_nat_add)
    then show ?thesis unfolding w total by (simp del: of_nat_mult of_nat_add)
  next
    case False
    then show ?thesis using decimal_seconds_eq [OF assms(3) assms(2)] unfolding total by simp
  qed
qed

lemma metadata_expire_decimal:
  assumes digits: "list_all is_ascii_digit whole" "list_all is_ascii_digit fraction"
    and some: "whole @ fraction \<noteq> []" "dot \<or> fraction = []" and unit: "duration_unit u = Some m"
  shows "parse_metadata_expire path line (decimal_text whole fraction dot @ u) =
    (let s = read_nat (whole @ fraction) * m div 10 ^ length fraction
     in if s < 2 ^ 64 then Inr (AfterSeconds (of_nat s))
        else Inl (mutation_error_new path line ''metadata_expire exceeds u64 seconds''))"
proof -
  let ?n = "decimal_text whole fraction dot"
  have ne: "?n \<noteq> []" using some by (auto simp: decimal_text_def)
  have chars: "is_ascii_digit c \<or> c = CHR ''.''" if "c \<in> set ?n" for c
    using decimal_chars [OF digits that] .
  have no: "c \<notin> set ?n" if "c \<in> set ''+-nxX''" for c
  proof
    assume "c \<in> set ?n"
    then show False using chars [of c] that by (auto simp: ascii_defs)
  qed
  obtain c cs where n: "?n = c # cs" using ne by (cases ?n) auto
  have c: "c \<noteq> CHR ''+''" "c \<noteq> CHR ''-''" "c \<noteq> CHR ''n''" using no n by auto
  have first: "?n @ u \<notin> {''-1'', ''never''}" "strip_prefix ''+'' (?n @ u) = None"
    using c unfolding n by (auto simp: strip_prefix_def starts_with_def)
  have parts: "duration_parts (?n @ u) = Some (?n, of_nat m)"
    using duration_parts_unit [OF unit ne] chars [OF last_in_set [OF ne]] by blast
  have hex: "strip_prefix ''0x'' ?n = None" "strip_prefix ''0X'' ?n = None"
    using no [of "CHR ''x''"] no [of "CHR ''X''"] unfolding n
    by (cases cs; auto simp: strip_prefix_def starts_with_def)+
  have nodot: "CHR ''.'' \<notin> set whole" "CHR ''.'' \<notin> set fraction" using digits by (auto simp: list_all_iff ascii_defs)
  have split: "(case split_once ''.'' ?n of None \<Rightarrow> (?n, []) | Some parts \<Rightarrow> parts) = (whole, fraction)"
  proof (cases dot)
    case False
    then have "split_once ''.'' ?n = None" using nodot some(2) by (simp add: decimal_text_def split_once_char_None)
    then show ?thesis using False some(2) by (simp add: decimal_text_def)
  qed (use nodot in \<open>simp add: decimal_text_def\<close>)
  have count: "\<not> count_list ?n (CHR ''.'') > 1"
    using nodot by (auto simp: decimal_text_def)
  have m: "m \<le> 86400" "0 < m" using unit by (auto simp: duration_unit_def split: if_splits)
  show ?thesis
    using decimal_total [OF digits(2) m(1) digits(1) m(2),
        of "mutation_error_new path line ''metadata_expire exceeds u64 seconds''"] first digits some count
    unfolding parse_metadata_expire_def Let_def first(2) option.case parts ok_or_simps bindR_Inr prod.case hex split
    by (simp only: if_False simp_thms append_is_Nil_conv)
qed

section \<open>Properties\<close>

text \<open>
  A duration written as a fixed-point decimal with a unit is read as the exact
  product, rounded down to seconds, or refused when it does not fit 64 bits: the truncating
  carries of the digits after the point lose nothing.
\<close>

theorem metadata_expire_exact:
  assumes "list_all is_ascii_digit whole" "list_all is_ascii_digit fraction"
    and "whole @ fraction \<noteq> []" "dot \<or> fraction = []" "duration_unit u = Some m"
  shows "parse_metadata_expire path line (decimal_text whole fraction dot @ u) =
    (let s = read_nat (whole @ fraction) * m div 10 ^ length fraction
     in if s < 2 ^ 64 then Inr (AfterSeconds (of_nat s))
        else Inl (mutation_error_new path line ''metadata_expire exceeds u64 seconds''))"
  using assms by (rule metadata_expire_decimal)

theorem metadata_expire_exact_witness:
  "parse_metadata_expire ''x'' 1 (decimal_text ''1'' ''5'' True @ ''h'') = Inr (AfterSeconds 5400)"
  using metadata_expire_exact [of "''1''" "''5''" True "''h''" 3600 "''x''" 1]
  by (simp add: duration_unit_def read_nat_def ascii_defs)

text \<open>
  Property C39. Whatever files and options say, TLS verification and package signature checks stay
  on in every repository of a profile and pinned fingerprints have 40 hexadecimal digits; the
  repositories have valid, distinct ids, at most 1024 of them, which expansion and options do
  not change, and each enabled one had a source when its file was read.
\<close>

theorem profile_always_secure:
  assumes "parse_repo_profile path input main = Inr p" "expand_variables p vars = Inr q"
    and "apply_setopts sha256 os q options = Inr r"
  shows "list_all repo_secure (pf_repositories r)
    \<and> distinct (map rc_id (pf_repositories r)) \<and> length (pf_repositories r) \<le> 1024
    \<and> map rc_id (pf_repositories r) = map rc_id (pf_repositories p)
    \<and> (\<forall>repo\<in>set (pf_repositories p). rc_enabled repo \<longrightarrow> has_source repo)"
proof -
  have "map rc_id (pf_repositories q) = map rc_id (pf_repositories p)"
    using assms(2) unfolding expand_variables_def bindR_eq_Inr
    by (auto elim!: mapR_ids dest: expand_repo_frame)
  then have ids: "map rc_id (pf_repositories r) = map rc_id (pf_repositories p)"
    using apply_setopts_ids [OF assms(3)] by simp
  moreover have "list_all repo_secure (pf_repositories r)"
    using secure.parse_keeps [OF assms(1)] secure.expand_keeps [OF assms(2)] secure.setopts_keep [OF assms(3)] by blast
  ultimately show ?thesis
    using parse_repo_profile_inv [OF assms(1)] map_eq_imp_length_eq [OF ids] by simp
qed

definition example_repo_file :: string where
  "example_repo_file = ''[fedora]'' @ [CHR 0x0A] @ ''baseurl=https://h/$arch'' @ [CHR 0x0A] @ ''proxy=$via'' @ [CHR 0x0A]"

definition example_pipeline :: "string list \<Rightarrow> (mutation_error, mutation_profile) result" where
  "example_pipeline options =
     bindR (parse_repo_profile ''f.repo'' example_repo_file default_main) (\<lambda>p.
     bindR (expand_variables p [(''arch'', ''a''), (''via'', ''http://u:s@h'')]) (\<lambda>q.
       apply_setopts rev example_os q options))"

lemma example_pipeline_run:
  "map_sum id (\<lambda>r. map rc_id (pf_repositories r)) (example_pipeline [''repo.fedora.cost=5'']) = Inr [''fedora'']"
  by code_simp

lemma example_pipeline_proxy:
  "map_sum id (\<lambda>r. map rc_proxy (pf_repositories r)) (example_pipeline []) = Inr [Some ''http://u:s@h'']"
  by code_simp

lemma example_pipeline_no_source:
  "map_sum id (\<lambda>r. map (\<lambda>c. (rc_enabled c, has_source c)) (pf_repositories r))
     (example_pipeline [''repo.fedora.baseurl='']) = Inr [(True, False)]"
  by code_simp

theorem profile_always_secure_witness:
  "\<exists>r. example_pipeline [''repo.fedora.cost=5''] = Inr r \<and> list_all repo_secure (pf_repositories r)
     \<and> map rc_id (pf_repositories r) = [''fedora'']"
proof -
  obtain r where r: "example_pipeline [''repo.fedora.cost=5''] = Inr r" "map rc_id (pf_repositories r) = [''fedora'']"
    using map_sum_Inr_obtain [OF example_pipeline_run] by metis
  moreover obtain p q where pq: "parse_repo_profile ''f.repo'' example_repo_file default_main = Inr p"
    "expand_variables p [(''arch'', ''a''), (''via'', ''http://u:s@h'')] = Inr q"
    "apply_setopts rev example_os q [''repo.fedora.cost=5''] = Inr r"
    using r(1) unfolding example_pipeline_def bindR_eq_Inr by (elim exE conjE)
  moreover have "list_all repo_secure (pf_repositories r)"
    using profile_always_secure [OF pq] by (elim conjE)
  ultimately show ?thesis by (intro exI [of _ r] conjI)
qed

text \<open>
  Two checks of a repository section are not repeated for what the section becomes.
  A proxy with credentials is refused when it is written out, but accepted when it comes out of
  a variable; and an option of the command line can leave an enabled repository without any
  source, which a file cannot.
\<close>

theorem profile_checks_not_repeated:
  "map_sum id (\<lambda>q. map rc_proxy (pf_repositories q)) (example_pipeline []) = Inr [Some ''http://u:s@h'']
   \<and> assign_repo path line c ''proxy'' ''http://u:s@h'' =
       Inl (mutation_error_new path line ''rejected mutation setting: proxy'')
   \<and> map_sum id (\<lambda>q. map (\<lambda>c. (rc_enabled c, has_source c)) (pf_repositories q))
       (example_pipeline [''repo.fedora.baseurl='']) = Inr [(True, False)]"
proof -
  have "authenticated_proxy ''http://u:s@h''" by code_simp
  then have "assign_repo path line c ''proxy'' ''http://u:s@h'' =
      Inl (mutation_error_new path line ''rejected mutation setting: proxy'')"
    by (simp add: assign_repo_def rejected_def)
  then show ?thesis using example_pipeline_proxy example_pipeline_no_source by (intro conjI)
qed

text \<open>An id may contain a colon, but no option can name it: keys of options may not.\<close>

lemma setopt_colon_id:
  "valid_id ''third:party''"
  "setopt (1, ''repo.third:party.enabled=1'') (p, t) =
     Inl (mutation_error_new ''<command-line>'' 1 ''invalid mutation key'')"
proof -
  show "valid_id ''third:party''" by code_simp
  have "pair ''<command-line>'' 1 ''repo.third:party.enabled=1'' =
      Inl (mutation_error_new ''<command-line>'' 1 ''invalid mutation key'')" by code_simp
  then show "setopt (1, ''repo.third:party.enabled=1'') (p, t) =
      Inl (mutation_error_new ''<command-line>'' 1 ''invalid mutation key'')"
    by (simp add: setopt_def)
qed

end
