(* ===== verification/Repo_Source.thy ===== *)
theory Repo_Source
  imports Repo_Profile
begin

text \<open>
  \<^verbatim>\<open>crates/dnfast-repo/src/source_loader.rs\<close>: the profile a mutation works with, from the main
  configuration, the variable and repository directories and the trusted keys. \<^verbatim>\<open>rpm --eval\<close>,
  the operating system, SHA-256 and the certificate parser are parameters.
\<close>

unbundle bit_operations_syntax

definition MAIN_PATH :: string where "MAIN_PATH = ''/etc/dnf/dnf.conf''"
definition MAX_CONFIG_FILES :: nat where "MAX_CONFIG_FILES = 256"
definition TRUSTED_RPM_PATH :: string where "TRUSTED_RPM_PATH = ''/usr/bin/rpm''"

record system_variables =
  sv_releasever :: string
  sv_basearch :: string

section \<open>System variables\<close>

definition system_variables_from_values :: "string \<Rightarrow> string \<Rightarrow> (mutation_error, system_variables) result" where
  "system_variables_from_values releasever basearch =
     (if releasever = [] \<or> length releasever > 32 \<or> \<not> list_all is_ascii_digit releasever
      then Inl (mutation_error_new ''<system-rpm>'' 0 ''invalid Fedora releasever'')
      else if basearch \<notin> {''aarch64'', ''x86_64''}
      then Inl (mutation_error_new ''<system-rpm>'' 0 ''unsupported RPM base architecture'')
      else Inr \<lparr>sv_releasever = releasever, sv_basearch = basearch\<rparr>)"

text \<open>\<open>rpm\<close> stands for running the executable: no process, or its success and what it printed.\<close>

definition trusted_rpm_evaluate ::
  "os \<Rightarrow> (string \<Rightarrow> (bool \<times> bytes) option) \<Rightarrow> string \<Rightarrow> (mutation_error, string) result" where
  "trusted_rpm_evaluate os rpm expression =
     bindR (validate_root_executable os TRUSTED_RPM_PATH 0) (\<lambda>_.
     bindR (ok_or (mutation_error_new TRUSTED_RPM_PATH 0 ''cannot evaluate trusted RPM system variable'')
       (rpm expression)) (\<lambda>(success, stdout).
       if \<not> success then Inl (mutation_error_new TRUSTED_RPM_PATH 0 ''trusted RPM system variable evaluation failed'')
       else if \<not> utf8_ok stdout
       then Inl (mutation_error_new TRUSTED_RPM_PATH 0 ''trusted RPM system variable is not valid UTF-8'')
       else Inr (rev (dropWhile (\<lambda>c. c = CHR 0x0A \<or> c = CHR 0x0D) (rev stdout)))))"

definition system_variables_from_rpm ::
  "os \<Rightarrow> (string \<Rightarrow> (bool \<times> bytes) option) \<Rightarrow> (mutation_error, system_variables) result" where
  "system_variables_from_rpm os rpm =
     bindR (trusted_rpm_evaluate os rpm (''%'' @ [CHR 0x7B] @ ''?fedora'' @ [CHR 0x7D])) (\<lambda>releasever.
     bindR (trusted_rpm_evaluate os rpm (''%'' @ [CHR 0x7B] @ ''_arch'' @ [CHR 0x7D])) (\<lambda>basearch.
       system_variables_from_values releasever basearch))"

section \<open>Sources\<close>

definition source_text :: "os \<Rightarrow> string \<Rightarrow> u32 \<Rightarrow> (mutation_error, string) result" where
  "source_text os path owner =
     bindR (read_root_file os path 1048576 owner) (\<lambda>bs.
       if utf8_ok bs then Inr bs
       else Inl (mutation_error_new path 0 ''configuration source is not valid UTF-8''))"

definition validate_root_metadata :: "os \<Rightarrow> string \<Rightarrow> bool \<Rightarrow> u32 \<Rightarrow> (mutation_error, node) result" where
  "validate_root_metadata os path directory owner =
     bindR (ok_or (mutation_error_new path 0 ''cannot inspect root configuration source'') (os_lstat os path)) (\<lambda>m.
       if nd_type m = SymlinkFile \<or> nd_uid m \<noteq> owner \<or> nd_perm m AND 0x12 \<noteq> 0
         \<or> directory \<noteq> (nd_type m = DirectoryFile)
       then Inl (mutation_error_new path 0 ''untrusted root configuration source'')
       else Inr m)"

text \<open>A directory that is absent is skipped, and an untrusted one too unless the owner is root.\<close>

definition usable_directory :: "os \<Rightarrow> u32 \<Rightarrow> string \<Rightarrow> (mutation_error, bool) result" where
  "usable_directory os owner directory =
     (if \<not> os_exists os directory then Inr False
      else case validate_root_metadata os directory True owner of
        Inr _ \<Rightarrow> Inr True
      | Inl e \<Rightarrow> if owner \<noteq> 0 then Inr False else Inl e)"

definition repository_entry :: "os \<Rightarrow> string \<Rightarrow> string option \<Rightarrow> (mutation_error, string list) result" where
  "repository_entry os directory entry =
     bindR (ok_or (mutation_error_new directory 0 ''cannot read repository entry'') entry) (\<lambda>name.
     let path = path_join directory name in
     bindR (ok_or (mutation_error_new path 0 ''cannot inspect repository entry'') (os_lstat os path)) (\<lambda>m.
       Inr (if extension_is ''repo'' path \<and> nd_type m = RegularFile then [path] else [])))"

definition repository_directory :: "os \<Rightarrow> u32 \<Rightarrow> string \<Rightarrow> (mutation_error, string list) result" where
  "repository_directory os owner directory =
     bindR (usable_directory os owner directory) (\<lambda>usable.
       if \<not> usable then Inr []
       else
         bindR (ok_or (mutation_error_new directory 0 ''cannot read repository directory'') (os_read_dir os directory))
           (\<lambda>entries. bindR (mapR (repository_entry os directory) entries) (\<lambda>ps. Inr (concat ps))))"

definition repository_paths :: "os \<Rightarrow> string list \<Rightarrow> nat \<Rightarrow> u32 \<Rightarrow> (mutation_error, string list) result" where
  "repository_paths os directories prior_count owner =
     bindR (mapR (repository_directory os owner) directories) (\<lambda>found.
       let paths = sort (concat found) in
       if length paths + prior_count > MAX_CONFIG_FILES
       then Inl (mutation_error_new ''<reposdir>'' 0 ''configuration file limit exceeds 256'')
       else Inr paths)"

definition variable_entry ::
  "os \<Rightarrow> u32 \<Rightarrow> string \<Rightarrow> nat \<times> (string \<times> string) list \<Rightarrow> (mutation_error, nat \<times> (string \<times> string) list) result" where
  "variable_entry os owner path state =
     (case state of (loaded, pairs) \<Rightarrow>
        bindR (validate_root_metadata os path False owner) (\<lambda>_.
        bindR (ok_or (mutation_error_new path 0 ''variable filename is not UTF-8'')
          (case file_name path of None \<Rightarrow> None | Some n \<Rightarrow> if utf8_ok n then Some n else None)) (\<lambda>name.
          if \<not> list_all name_char name then Inl (mutation_error_new path 0 ''invalid variable filename'')
          else
            bindR (source_text os path owner) (\<lambda>text.
              if loaded + 1 + 1 > MAX_CONFIG_FILES
              then Inl (mutation_error_new path 0 ''configuration file limit exceeds 256'')
              else Inr (loaded + 1, pairs @ [(name, trim text)])))))"

definition variable_directory ::
  "os \<Rightarrow> u32 \<Rightarrow> string \<Rightarrow> nat \<times> (string \<times> string) list \<Rightarrow> (mutation_error, nat \<times> (string \<times> string) list) result" where
  "variable_directory os owner directory state =
     bindR (usable_directory os owner directory) (\<lambda>usable.
       if \<not> usable then Inr state
       else
         bindR (ok_or (mutation_error_new directory 0 ''cannot read variables directory'') (os_read_dir os directory))
           (\<lambda>entries.
         bindR (mapR (\<lambda>e. ok_or (mutation_error_new directory 0 ''cannot read variable entry'')
             (map_option (path_join directory) e)) entries) (\<lambda>paths.
           foldR (variable_entry os owner) (sort paths) state)))"

definition load_variable_sources ::
  "os \<Rightarrow> string list \<Rightarrow> u32 \<Rightarrow> (mutation_error, repo_variables \<times> nat) result" where
  "load_variable_sources os directories owner =
     bindR (foldR (variable_directory os owner) directories (0, [])) (\<lambda>(loaded, pairs).
       Inr (from_pairs pairs, loaded))"

section \<open>The profile\<close>

definition add_repo ::
  "string \<Rightarrow> repo_config \<Rightarrow> string btree_set \<times> repo_config list
     \<Rightarrow> (mutation_error, string btree_set \<times> repo_config list) result" where
  "add_repo path repo state =
     (case state of (ids, repositories) \<Rightarrow>
        if rc_id repo \<in> set ids then Inl (mutation_error_new path 0 ''duplicate repository id across files'')
        else let ids' = bs_insert (rc_id repo) ids in
          if length ids' > 1024 then Inl (mutation_error_new path 0 ''repository limit exceeds 1024'')
          else Inr (ids', repositories @ [repo]))"

definition add_repo_file ::
  "os \<Rightarrow> u32 \<Rightarrow> main_config \<Rightarrow> string \<Rightarrow> string btree_set \<times> repo_config list
     \<Rightarrow> (mutation_error, string btree_set \<times> repo_config list) result" where
  "add_repo_file os owner main path state =
     bindR (source_text os path owner) (\<lambda>text.
     bindR (parse_repo_profile path text main) (\<lambda>parsed.
       foldR (add_repo path) (pf_repositories parsed) state))"

definition bind_keys ::
  "(bytes \<Rightarrow> bytes) \<Rightarrow> cert_parser \<Rightarrow> os \<Rightarrow> bool \<Rightarrow> repo_config \<Rightarrow> (mutation_error, repo_config) result" where
  "bind_keys sha256 certs os bind_fingerprints repo =
     (if \<not> rc_enabled repo then Inr (repo\<lparr>rc_key_bundle_digest := None\<rparr>)
      else
        bindR (key_bundle_digest sha256 os (rc_id repo) (rc_gpgkey repo)) (\<lambda>b.
        bindR
          (if bind_fingerprints \<and> kb_certificates b \<noteq> [] then
             bindR (primary_certificate_fingerprints certs (kb_certificates b)) (\<lambda>bundled.
               if rc_allowed_fingerprints repo = [] then Inr (repo\<lparr>rc_allowed_fingerprints := bundled\<rparr>)
               else if list_ex (\<lambda>f. map to_ascii_uppercase f \<notin> set bundled) (rc_allowed_fingerprints repo)
               then Inl (mutation_error_new ''<gpgkey>'' 0 ''allowed fingerprint is absent from the repository key bundle'')
               else Inr repo)
           else Inr repo) (\<lambda>bound.
          Inr (bound\<lparr>rc_key_bundle_digest := Some (kb_digest b)\<rparr>))))"

definition load_mutation_profile_owned ::
  "(bytes \<Rightarrow> bytes) \<Rightarrow> cert_parser \<Rightarrow> os \<Rightarrow> string \<Rightarrow> u32 \<Rightarrow> system_variables option
     \<Rightarrow> (mutation_error, mutation_profile) result" where
  "load_mutation_profile_owned sha256 certs os main_path owner system =
     bindR (source_text os main_path owner) (\<lambda>main_text.
     bindR (parse_main_config main_path main_text) (\<lambda>main.
     bindR (load_variable_sources os (mc_varsdir main) owner) (\<lambda>(configured, variable_count).
     let vars = (case system of
         Some sys \<Rightarrow> with_system_release_and_arch configured (sv_releasever sys) (sv_basearch sys)
       | None \<Rightarrow> configured) in
     bindR (repository_paths os (mc_reposdir main) (variable_count + 1) owner) (\<lambda>paths.
     bindR (foldR (add_repo_file os owner main) paths ([], [])) (\<lambda>(ids, repositories).
     bindR (expand_variables \<lparr>pf_main = main, pf_repositories = repositories, pf_variables = []\<rparr> vars) (\<lambda>output.
     bindR (mapR (bind_keys sha256 certs os (system \<noteq> None)) (pf_repositories output)) (\<lambda>bound.
       Inr (output\<lparr>pf_repositories := bound\<rparr>))))))))"

definition load_mutation_profile ::
  "(bytes \<Rightarrow> bytes) \<Rightarrow> cert_parser \<Rightarrow> os \<Rightarrow> (mutation_error, mutation_profile) result" where
  "load_mutation_profile sha256 certs os = load_mutation_profile_owned sha256 certs os MAIN_PATH 0 None"

definition load_system_mutation_profile ::
  "(bytes \<Rightarrow> bytes) \<Rightarrow> cert_parser \<Rightarrow> os \<Rightarrow> (string \<Rightarrow> (bool \<times> bytes) option)
     \<Rightarrow> (mutation_error, mutation_profile) result" where
  "load_system_mutation_profile sha256 certs os rpm =
     bindR (system_variables_from_rpm os rpm) (\<lambda>vars.
       load_mutation_profile_owned sha256 certs os MAIN_PATH 0 (Some vars))"

definition load_mutation_profile_from ::
  "(bytes \<Rightarrow> bytes) \<Rightarrow> cert_parser \<Rightarrow> os \<Rightarrow> string \<Rightarrow> (mutation_error, mutation_profile) result" where
  "load_mutation_profile_from sha256 certs os main_path =
     bindR (ok_or (mutation_error_new main_path 0 ''cannot inspect main configuration'') (os_lstat os main_path)) (\<lambda>m.
       load_mutation_profile_owned sha256 certs os main_path (nd_uid m) None)"

section \<open>What a loaded profile guarantees\<close>

definition repos_ok :: "repo_config list \<Rightarrow> bool" where
  "repos_ok rs \<longleftrightarrow> distinct (map rc_id rs) \<and> length rs \<le> 1024
     \<and> list_all (\<lambda>r. repo_secure r \<and> (rc_enabled r \<longrightarrow> has_source r)) rs"

definition loaded_inv :: "string btree_set \<times> repo_config list \<Rightarrow> bool" where
  "loaded_inv st \<longleftrightarrow> bs_ok (fst st) \<and> set (fst st) = rc_id ` set (snd st) \<and> repos_ok (snd st)"

lemma add_repo_inv:
  assumes "add_repo path r (ids, rs) = Inr st" "loaded_inv (ids, rs)" "repo_secure r" "rc_enabled r \<longrightarrow> has_source r"
  shows "loaded_inv st"
proof -
  have st: "rc_id r \<notin> set ids" "length (bs_insert (rc_id r) ids) \<le> 1024" "st = (bs_insert (rc_id r) ids, rs @ [r])"
    using assms(1) by (auto simp: add_repo_def Let_def split: if_splits)
  have inv: "bs_ok ids" "set ids = rc_id ` set rs" "repos_ok rs" using assms(2) by (simp_all add: loaded_inv_def)
  have d: "distinct (map rc_id (rs @ [r]))" using inv st(1) by (auto simp: repos_ok_def)
  have "length (rs @ [r]) = card (set (bs_insert (rc_id r) ids))"
    using distinct_card [OF d] inv(2) by simp
  also have "\<dots> \<le> 1024" using st(2) card_length le_trans by blast
  finally show ?thesis using d inv st assms(3,4) by (auto simp: loaded_inv_def repos_ok_def)
qed

lemma add_repo_file_inv:
  assumes "add_repo_file os owner main path st = Inr st'" "loaded_inv st"
  shows "loaded_inv st'"
proof -
  from assms(1) obtain tx p where p: "parse_repo_profile path tx main = Inr p"
    "foldR (add_repo path) (pf_repositories p) st = Inr st'"
    unfolding add_repo_file_def bindR_eq_Inr by (elim exE conjE)
  have "repo_secure r" "rc_enabled r \<longrightarrow> has_source r" if "r \<in> set (pf_repositories p)" for r
    using secure.parse_keeps [OF p(1)] parse_repo_profile_inv [OF p(1)] that by (simp_all add: list_all_iff)
  then show ?thesis
    by (intro foldR_invariant [where P = loaded_inv, OF p(2) assms(2)]) (metis add_repo_inv prod.collapse)
qed

lemma expand_repo_source:
  assumes "expand_repo vars r = Inr r'"
  shows "has_source r' = has_source r"
proof -
  have l: "expand_list vars xs = Inr ys \<Longrightarrow> (ys = [] \<longleftrightarrow> xs = [])" for xs ys
    by (auto simp: expand_list_def mapR_eq_Inr)
  have o: "expand_option vars x = Inr y \<Longrightarrow> (y = None \<longleftrightarrow> x = None)" for x y
    by (auto simp: expand_option_def bindR_eq_Inr split: option.splits)
  from assms obtain nm bu me mi pr ex inc gk where
    "expand_list vars (rc_baseurl r) = Inr bu" "expand_option vars (rc_metalink r) = Inr me"
    "expand_option vars (rc_mirrorlist r) = Inr mi"
    "r' = r\<lparr>rc_name := nm, rc_baseurl := bu, rc_metalink := me, rc_mirrorlist := mi, rc_proxy := pr,
       rc_excludepkgs := ex, rc_includepkgs := inc, rc_gpgkey := gk\<rparr>"
    unfolding expand_repo_def bindR_eq_Inr by (elim exE conjE) (simp only: sum.inject, blast)
  then show ?thesis using l o by (auto simp: has_source_def)
qed

lemma expand_variables_repos_ok:
  assumes "expand_variables p vars = Inr q" "repos_ok (pf_repositories p)"
  shows "repos_ok (pf_repositories q) \<and> pf_variables q = vars \<and> pf_main q = pf_main p"
proof -
  from assms(1) obtain rs where rs: "mapR (expand_repo vars) (pf_repositories p) = Inr rs"
    "q = p\<lparr>pf_repositories := rs, pf_variables := vars\<rparr>"
    unfolding expand_variables_def bindR_eq_Inr by (elim exE conjE) (simp only: sum.inject)
  have ids: "map rc_id rs = map rc_id (pf_repositories p)"
    using rs(1) by (rule mapR_ids) (simp add: expand_repo_frame)
  have "list_all (\<lambda>r. repo_secure r \<and> (rc_enabled r \<longrightarrow> has_source r)) rs"
  proof (rule list_all_length [THEN iffD2], intro allI impI)
    fix i assume i: "i < length rs"
    let ?r = "pf_repositories p ! i"
    have e: "expand_repo vars ?r = Inr (rs ! i)" "i < length (pf_repositories p)"
      using rs(1) i by (auto simp: mapR_eq_Inr)
    then have "repo_secure ?r \<and> (rc_enabled ?r \<longrightarrow> has_source ?r)"
      using assms(2) by (simp add: repos_ok_def list_all_length)
    then show "repo_secure (rs ! i) \<and> (rc_enabled (rs ! i) \<longrightarrow> has_source (rs ! i))"
      using e(1) by (simp add: repo_secure_def expand_repo_frame expand_repo_source)
  qed
  then show ?thesis using assms(2) rs(2) ids map_eq_imp_length_eq [OF ids] by (simp add: repos_ok_def)
qed

lemma add_fingerprint_inv:
  "add_fingerprint c s = Inr s' \<Longrightarrow> bs_ok s \<and> (\<forall>f\<in>set s. length f = 40) \<Longrightarrow> bs_ok s' \<and> (\<forall>f\<in>set s'. length f = 40)"
  by (auto simp: add_fingerprint_def bindR_eq_Inr Let_def split: if_splits)

lemma primary_certificate_fingerprints_ok:
  assumes "primary_certificate_fingerprints certs cs = Inr fs"
  shows "fs \<noteq> [] \<and> bs_ok fs \<and> (\<forall>f\<in>set fs. length f = 40)"
proof -
  from assms have run: "foldR (add_certificates certs) cs [] = Inr fs" and ne: "fs \<noteq> []"
    by (auto simp: primary_certificate_fingerprints_def bindR_eq_Inr split: if_splits)
  let ?P = "\<lambda>s. bs_ok s \<and> (\<forall>f\<in>set s. length f = 40)"
  have step: "?P u'" if "add_certificates certs c u = Inr u'" "?P u" for c u u'
  proof -
    from that(1) obtain xs where "foldR add_fingerprint xs u = Inr u'"
      by (auto simp: add_certificates_def bindR_eq_Inr)
    then show ?thesis using that(2) by (rule foldR_invariant) (rule add_fingerprint_inv)
  qed
  have "?P fs" using run by (rule foldR_invariant) (use step in auto)
  then show ?thesis using ne by blast
qed

definition keys_bound ::
  "(bytes \<Rightarrow> bytes) \<Rightarrow> cert_parser \<Rightarrow> os \<Rightarrow> bool \<Rightarrow> repo_config \<Rightarrow> bool" where
  "keys_bound sha256 certs os system r \<longleftrightarrow>
     (if rc_enabled r
      then \<exists>b. key_bundle_digest sha256 os (rc_id r) (rc_gpgkey r) = Inr b \<and> rc_key_bundle_digest r = Some (kb_digest b)
        \<and> (system \<and> kb_certificates b \<noteq> [] \<longrightarrow> rc_allowed_fingerprints r \<noteq> []
             \<and> (\<exists>fs. primary_certificate_fingerprints certs (kb_certificates b) = Inr fs
                  \<and> (\<forall>f\<in>set (rc_allowed_fingerprints r). f \<in> set fs \<or> map to_ascii_uppercase f \<in> set fs)))
      else rc_key_bundle_digest r = None)"

lemma bind_keys_ok:
  assumes "bind_keys sha256 certs os system r = Inr r'"
  shows "keys_bound sha256 certs os system r'" "rc_id r' = rc_id r" "rc_enabled r' = rc_enabled r"
    "rc_sslverify r' = rc_sslverify r" "rc_gpgcheck r' = rc_gpgcheck r" "rc_pkg_gpgcheck r' = rc_pkg_gpgcheck r"
    "has_source r' = has_source r"
proof -
  have "keys_bound sha256 certs os system r' \<and> rc_id r' = rc_id r \<and> rc_enabled r' = rc_enabled r
    \<and> rc_sslverify r' = rc_sslverify r \<and> rc_gpgcheck r' = rc_gpgcheck r \<and> rc_pkg_gpgcheck r' = rc_pkg_gpgcheck r
    \<and> has_source r' = has_source r"
  proof (cases "rc_enabled r")
    case False
    then show ?thesis using assms by (auto simp: bind_keys_def keys_bound_def has_source_def)
  next
    case True
    define adjust where "adjust b = (if system \<and> kb_certificates b \<noteq> [] then
             bindR (primary_certificate_fingerprints certs (kb_certificates b)) (\<lambda>bundled.
               if rc_allowed_fingerprints r = [] then Inr (r\<lparr>rc_allowed_fingerprints := bundled\<rparr>)
               else if list_ex (\<lambda>f. map to_ascii_uppercase f \<notin> set bundled) (rc_allowed_fingerprints r)
               then Inl (mutation_error_new ''<gpgkey>'' 0 ''allowed fingerprint is absent from the repository key bundle'')
               else Inr r)
           else Inr r)" for b :: key_bundle
    have "bindR (key_bundle_digest sha256 os (rc_id r) (rc_gpgkey r)) (\<lambda>b. bindR (adjust b) (\<lambda>bound.
        Inr (bound\<lparr>rc_key_bundle_digest := Some (kb_digest b)\<rparr>))) = Inr r'"
      using assms True by (simp add: bind_keys_def adjust_def)
    then obtain b bound where b: "key_bundle_digest sha256 os (rc_id r) (rc_gpgkey r) = Inr b" "adjust b = Inr bound"
      "r' = bound\<lparr>rc_key_bundle_digest := Some (kb_digest b)\<rparr>"
      unfolding bindR_eq_Inr by (metis Inr_inject)
    show ?thesis
    proof (cases "system \<and> kb_certificates b \<noteq> []")
      case False
      then have "bound = r" using b(2) by (auto simp: adjust_def)
      then show ?thesis using b False True by (auto simp: keys_bound_def has_source_def)
    next
      case sys: True
      then obtain fs where fs: "primary_certificate_fingerprints certs (kb_certificates b) = Inr fs"
        using b(2) by (auto simp: adjust_def bindR_eq_Inr)
      have ne: "fs \<noteq> []" using primary_certificate_fingerprints_ok [OF fs] by blast
      have "bound = r\<lparr>rc_allowed_fingerprints := fs\<rparr> \<or> rc_allowed_fingerprints r \<noteq> [] \<and> bound = r
          \<and> (\<forall>f\<in>set (rc_allowed_fingerprints r). map to_ascii_uppercase f \<in> set fs)"
        using b(2) sys fs by (auto simp: adjust_def list_ex_iff split: if_splits)
      then show ?thesis using b fs ne True by (auto simp: keys_bound_def has_source_def)
    qed
  qed
  then show "keys_bound sha256 certs os system r'" "rc_id r' = rc_id r" "rc_enabled r' = rc_enabled r"
    "rc_sslverify r' = rc_sslverify r" "rc_gpgcheck r' = rc_gpgcheck r" "rc_pkg_gpgcheck r' = rc_pkg_gpgcheck r"
    "has_source r' = has_source r" by simp_all
qed

lemma load_mutation_profile_owned_steps:
  assumes "load_mutation_profile_owned sha256 certs os main_path owner system = Inr p"
  obtains main configured repositories vars outp bound where
    "mc_installonly_limit main \<noteq> 1" "bt_ok configured"
    "vars = (case system of Some sys \<Rightarrow> with_system_release_and_arch configured (sv_releasever sys) (sv_basearch sys)
       | None \<Rightarrow> configured)"
    "repos_ok repositories"
    "expand_variables \<lparr>pf_main = main, pf_repositories = repositories, pf_variables = []\<rparr> vars = Inr outp"
    "mapR (bind_keys sha256 certs os (system \<noteq> None)) (pf_repositories outp) = Inr bound"
    "p = outp\<lparr>pf_repositories := bound\<rparr>"
proof -
  define pick where "pick configured = (case system of
      Some sys \<Rightarrow> with_system_release_and_arch configured (sv_releasever sys) (sv_basearch sys)
    | None \<Rightarrow> configured)" for configured
  from assms obtain main_text main cv paths st outp bound where
    m: "parse_main_config main_path main_text = Inr main"
    and v: "load_variable_sources os (mc_varsdir main) owner = Inr cv"
    and f: "foldR (add_repo_file os owner main) paths ([], []) = Inr st"
    and e: "expand_variables \<lparr>pf_main = main, pf_repositories = snd st, pf_variables = []\<rparr> (pick (fst cv)) = Inr outp"
    and b: "mapR (bind_keys sha256 certs os (system \<noteq> None)) (pf_repositories outp) = Inr bound"
      "outp\<lparr>pf_repositories := bound\<rparr> = p"
    unfolding load_mutation_profile_owned_def Let_def case_prod_beta bindR_eq_Inr pick_def [symmetric]
    by (elim exE conjE) (drule Inr_inject, rule that, assumption+)
  have "bt_ok (fst cv)" using v variables_ok(1) by (auto simp: load_variable_sources_def bindR_eq_Inr)
  moreover have "loaded_inv ([], [])" by (simp add: loaded_inv_def repos_ok_def)
  with f have "loaded_inv st" by (rule foldR_invariant) (rule add_repo_file_inv)
  ultimately show ?thesis
    using that [of main "fst cv" "pick (fst cv)" "snd st" outp bound] parse_main_config_limit [OF m] e b
    by (simp add: loaded_inv_def pick_def)
qed


definition system_tree :: "(string list \<times> node) list" where
  "system_tree = [([], dir_node), ([''m''], file_node (''[main]'' @ [CHR 0x0A] @ ''reposdir='' @ [CHR 0x0A] @ ''reposdir=/r''
       @ [CHR 0x0A] @ ''varsdir='' @ [CHR 0x0A] @ ''varsdir=/v'')),
     ([''r''], dir_node), ([''r'', ''a.repo''], file_node (''[a]'' @ [CHR 0x0A] @ ''baseurl=u/$basearch'' @ [CHR 0x0A]
       @ ''gpgkey=file:///etc/pki/rpm-gpg/k'')),
     ([''v''], dir_node), ([''v'', ''basearch''], file_node ''evil''),
     ([''etc''], dir_node), ([''etc'', ''pki''], dir_node), ([''etc'', ''pki'', ''rpm-gpg''], dir_node),
     ([''etc'', ''pki'', ''rpm-gpg'', ''k''], file_node ''cert'')]"

definition system_os :: os where
  "system_os = \<lparr>os_node = map_of system_tree, os_exists = (\<lambda>_. True),
     os_lstat = map_of [(''/r'', dir_node), (''/v'', dir_node), (''/r/a.repo'', file_node []), (''/v/basearch'', file_node [])],
     os_read_dir = map_of [(''/r'', [Some ''a.repo'']), (''/v'', [Some ''basearch''])]\<rparr>"

definition example_certs :: cert_parser where
  "example_certs bs = Some [Some (replicate 40 (CHR ''A''))]"

definition system_values :: system_variables where
  "system_values = \<lparr>sv_releasever = ''44'', sv_basearch = ''x86_64''\<rparr>"

lemma system_profile_run:
  "map_sum id (\<lambda>p. map (\<lambda>r. (rc_id r, rc_baseurl r, length (rc_allowed_fingerprints r))) (pf_repositories p))
     (load_mutation_profile_owned rev example_certs system_os ''/m'' 0 (Some system_values)) =
   Inr [(''a'', [''u/x86_64''], 1)]"
  by code_simp


end
