(* ===== verification/Planning_Catalog.thy ===== *)
theory Planning_Catalog
  imports Dnf_Lines Core_Value
begin

text \<open>
  \<^verbatim>\<open>crates/dnfast-planning/src/error.rs\<close> and the catalog half of \<^verbatim>\<open>modulemd.rs\<close>: the errors of
  planning, the module catalog, the raw documents it is built from and how
  \<^verbatim>\<open>catalog_from_raw\<close> merges the contexts of a stream and records the owner of each artifact. The
  text of the documents is produced by the native library and read by serde; the model starts at
  the raw catalog.
\<close>

section \<open>Errors\<close>

datatype planning_error =
    PlanningNotRoot
  | UnsafeRoot string
  | UnsafeSnapshot string
  | PlanningInput string
  | PlanningCache string
  | PlanningIo string

fun planning_error_display :: "planning_error \<Rightarrow> string" where
  "planning_error_display PlanningNotRoot = ''dnfast planning publication requires EUID 0''"
| "planning_error_display (UnsafeRoot m) = ''planning root is unsafe: '' @ m"
| "planning_error_display (UnsafeSnapshot m) = ''planning snapshot is unsafe: '' @ m"
| "planning_error_display (PlanningInput m) = ''planning input is invalid: '' @ m"
| "planning_error_display (PlanningCache m) = ''planning cache is invalid: '' @ m"
| "planning_error_display (PlanningIo m) = ''planning publication failed: '' @ m"

definition module_input :: "string \<Rightarrow> planning_error" where
  "module_input message = PlanningInput message"

section \<open>Data\<close>

definition MAX_MODULES :: nat where "MAX_MODULES = 16384"
definition MAX_STREAMS :: nat where "MAX_STREAMS = 131072"
definition MAX_ARTIFACTS :: nat where "MAX_ARTIFACTS = 2000000"

record module_requirement =
  mr_module :: string
  mr_streams :: "string list"

record module_dependencies =
  md_requires :: "module_requirement list"

record module_profile =
  mp_name :: string
  mp_description :: string
  mp_rpms :: "string list"

record module_stream =
  mst_name :: string
  mst_summary :: string
  mst_description :: string
  mst_profiles :: "module_profile list"
  mst_artifacts :: "string list"
  mst_dependencies :: "module_dependencies list"

record module =
  mod_name :: string
  mod_default_stream :: "string option"
  mod_streams :: "(string, module_stream) btree_map"

record module_catalog =
  cat_modules :: "(string, module) btree_map"
  cat_artifact_owners :: "(string, string \<times> string) btree_map"

record raw_profile =
  rp_name :: string
  rp_description :: "string option"
  rp_rpms :: "string list"

record raw_stream =
  rs_name :: string
  rs_stream :: string
  rs_version :: u64
  rs_context :: string
  rs_arch :: string
  rs_summary :: "string option"
  rs_description :: "string option"
  rs_profiles :: "raw_profile list"
  rs_dependencies :: "module_dependencies list"
  rs_artifacts :: "string list"

record raw_module =
  rm_name :: string
  rm_default_stream :: "string option"
  rm_streams :: "raw_stream list"

record logical_stream =
  ls_latest_version :: u64
  ls_summary :: string
  ls_description :: string
  ls_profiles :: "module_profile list"
  ls_artifacts :: "string btree_set"
  ls_dependencies :: "module_dependencies list"

section \<open>Identifiers\<close>

definition module_identifier :: "string \<Rightarrow> string \<Rightarrow> (planning_error, unit) result" where
  "module_identifier v kind =
     (if v = [] \<or> 4096 < length v \<or> starts_with v ''-'' \<or> list_ex is_control (chars_of v)
         \<or> list_ex is_whitespace (chars_of v)
      then Inl (module_input (kind @ '' is invalid'')) else Inr ())"

definition matches_arch :: "string \<Rightarrow> architecture \<Rightarrow> bool" where
  "matches_arch v arch \<longleftrightarrow> v = as_rpm_arch arch \<or> v = ''noarch''"

definition artifact_matches_architecture :: "string \<Rightarrow> architecture \<Rightarrow> (planning_error, bool) result" where
  "artifact_matches_architecture v arch =
     bindR (ok_or (module_input (''module artifact lacks architecture: '' @ v)) (rsplit_once (CHR ''.'') v))
       (\<lambda>(_, a). Inr (matches_arch a arch))"

section \<open>Normalisation\<close>

definition normalize_strings :: "string list \<Rightarrow> string \<Rightarrow> (planning_error, string list) result" where
  "normalize_strings vs kind =
     bindR (forR (\<lambda>v. module_identifier (dropWhile (\<lambda>c. c = CHR ''-'') v) kind) vs)
       (\<lambda>_. if any_window (=) (sort vs) then Inl (module_input (kind @ '' values are duplicate''))
            else Inr (sort vs))"

definition normalize_profile :: "raw_profile \<Rightarrow> (planning_error, module_profile) result" where
  "normalize_profile p =
     bindR (module_identifier (rp_name p) ''module profile'') (\<lambda>_.
     bindR (normalize_strings (rp_rpms p) ''module profile RPM'') (\<lambda>rpms.
       Inr \<lparr>mp_name = rp_name p, mp_description = (case rp_description p of None \<Rightarrow> [] | Some d \<Rightarrow> d),
            mp_rpms = rpms\<rparr>))"

definition normalize_profiles :: "raw_profile list \<Rightarrow> (planning_error, module_profile list) result" where
  "normalize_profiles raw =
     bindR (mapR normalize_profile raw) (\<lambda>profiles.
       let sorted_profiles = sort_key mp_name profiles in
       if any_window (\<lambda>a b. mp_name a = mp_name b) sorted_profiles
       then Inl (module_input ''module profiles are duplicate'') else Inr sorted_profiles)"

definition normalize_requirement :: "module_requirement \<Rightarrow> (planning_error, module_requirement) result" where
  "normalize_requirement r =
     bindR (module_identifier (mr_module r) ''required module'') (\<lambda>_.
     bindR (normalize_strings (mr_streams r) ''required module stream'') (\<lambda>streams.
       Inr (r\<lparr>mr_streams := streams\<rparr>)))"

definition normalize_alternative :: "module_dependencies \<Rightarrow> (planning_error, module_dependencies) result" where
  "normalize_alternative d =
     bindR (mapR normalize_requirement (md_requires d)) (\<lambda>requires.
       let sorted_requires = sort_key mr_module requires in
       if any_window (\<lambda>a b. mr_module a = mr_module b) sorted_requires
       then Inl (module_input ''module dependency requirements are duplicate'')
       else Inr (d\<lparr>md_requires := sorted_requires\<rparr>))"

text \<open>The derived order of \<^verbatim>\<open>ModuleDependencies\<close> compares the fields lexicographically.\<close>

definition dependencies_key :: "module_dependencies \<Rightarrow> (string \<times> string list) list" where
  "dependencies_key d = map (\<lambda>r. (mr_module r, mr_streams r)) (md_requires d)"

definition normalize_dependencies ::
  "module_dependencies list \<Rightarrow> (planning_error, module_dependencies list) result" where
  "normalize_dependencies ds =
     bindR (mapR normalize_alternative ds) (\<lambda>alternatives.
       Inr (remdups_adj (sort_key dependencies_key alternatives)))"

section \<open>Merging the raw modules\<close>

type_synonym logical_streams = "(string, logical_stream) btree_map"

record catalog_build =
  cb_modules :: "(string, string option \<times> logical_streams) btree_map"
  cb_stream_count :: nat
  cb_artifact_count :: nat

definition incoming_stream ::
  "raw_stream \<Rightarrow> string list \<Rightarrow> module_dependencies list \<Rightarrow> module_profile list \<Rightarrow> logical_stream" where
  "incoming_stream raw artifacts dependencies profiles =
     \<lparr>ls_latest_version = rs_version raw,
      ls_summary = (case rs_summary raw of None \<Rightarrow> [] | Some s \<Rightarrow> s),
      ls_description = (case rs_description raw of None \<Rightarrow> [] | Some s \<Rightarrow> s),
      ls_profiles = profiles, ls_artifacts = sort_dedup artifacts, ls_dependencies = dependencies\<rparr>"

definition merge_stream ::
  "string \<Rightarrow> string \<Rightarrow> logical_stream \<Rightarrow> logical_streams \<Rightarrow> (planning_error, logical_streams) result" where
  "merge_stream name stream incoming streams =
     (case map_of streams stream of
        None \<Rightarrow> Inr (bt_insert stream incoming streams)
      | Some existing \<Rightarrow>
          if ls_dependencies existing \<noteq> ls_dependencies incoming \<or> ls_profiles existing \<noteq> ls_profiles incoming
          then Inl (module_input (''module stream contexts have incompatible policy: '' @ name @ '':'' @ stream))
          else
            let extended = existing\<lparr>ls_artifacts := fold bs_insert (ls_artifacts incoming) (ls_artifacts existing)\<rparr>;
                latest = (if ls_latest_version existing < ls_latest_version incoming
                  then extended\<lparr>ls_latest_version := ls_latest_version incoming,
                         ls_summary := ls_summary incoming, ls_description := ls_description incoming\<rparr>
                  else extended)
            in Inr (bt_insert stream latest streams))"

text \<open>One raw stream: the streams of its module, and the two counters.\<close>

definition add_stream ::
  "architecture \<Rightarrow> string \<Rightarrow> raw_stream \<Rightarrow> logical_streams \<times> nat \<times> nat
     \<Rightarrow> (planning_error, logical_streams \<times> nat \<times> nat) result" where
  "add_stream arch name raw = (\<lambda>(streams, stream_count, artifact_count).
     if rs_name raw \<noteq> name then Inl (module_input ''module stream name differs from its module'')
     else
       bindR (module_identifier (rs_stream raw) ''module stream'') (\<lambda>_.
       bindR (module_identifier (rs_context raw) ''module context'') (\<lambda>_.
       bindR (module_identifier (rs_arch raw) ''module architecture'') (\<lambda>_.
         if \<not> matches_arch (rs_arch raw) arch then Inr (streams, stream_count, artifact_count)
         else if MAX_STREAMS < stream_count + 1 then Inl (module_input ''module catalog exceeds stream limit'')
         else
           bindR (normalize_strings (rs_artifacts raw) ''module artifact'') (\<lambda>artifacts.
           if 2 ^ 64 \<le> artifact_count + length artifacts
           then Inl (module_input ''module artifact count overflow'')
           else if MAX_ARTIFACTS < artifact_count + length artifacts
           then Inl (module_input ''module catalog exceeds artifact limit'')
           else
             bindR (normalize_dependencies (rs_dependencies raw)) (\<lambda>dependencies.
             bindR (normalize_profiles (rs_profiles raw)) (\<lambda>profiles.
             bindR (merge_stream name (rs_stream raw)
                 (incoming_stream raw artifacts dependencies profiles) streams) (\<lambda>streams'.
               Inr (streams', stream_count + 1, artifact_count + length artifacts)))))))))"

definition merge_default :: "string \<Rightarrow> string option \<Rightarrow> string option \<Rightarrow> (planning_error, string option) result" where
  "merge_default name known declared =
     (case (known, declared) of
        (Some left, Some right) \<Rightarrow>
          if left \<noteq> right then Inl (module_input (''repository module defaults conflict: '' @ name))
          else Inr known
      | (None, Some d) \<Rightarrow> Inr (Some d)
      | (_, None) \<Rightarrow> Inr known)"

definition add_module ::
  "architecture \<Rightarrow> raw_module \<Rightarrow> catalog_build \<Rightarrow> (planning_error, catalog_build) result" where
  "add_module arch raw b =
     bindR (module_identifier (rm_name raw) ''module name'') (\<lambda>_.
     bindR (case rm_default_stream raw of
         None \<Rightarrow> Inr () | Some d \<Rightarrow> module_identifier d ''module default stream'') (\<lambda>_.
     let (known, streams) = (case map_of (cb_modules b) (rm_name raw) of
           None \<Rightarrow> (rm_default_stream raw, []) | Some m \<Rightarrow> m) in
     bindR (merge_default (rm_name raw) known (rm_default_stream raw)) (\<lambda>default_stream.
     bindR (foldR (add_stream arch (rm_name raw)) (rm_streams raw)
         (streams, cb_stream_count b, cb_artifact_count b)) (\<lambda>(streams', stream_count, artifact_count).
       Inr \<lparr>cb_modules = bt_insert (rm_name raw) (default_stream, streams') (cb_modules b),
            cb_stream_count = stream_count, cb_artifact_count = artifact_count\<rparr>))))"

section \<open>The finished catalog\<close>

type_synonym artifact_owners = "(string, string \<times> string) btree_map"

definition claim_artifact ::
  "string \<Rightarrow> string \<Rightarrow> string \<Rightarrow> artifact_owners \<Rightarrow> (planning_error, artifact_owners) result" where
  "claim_artifact name stream artifact owners =
     (case map_of owners artifact of
        Some (owner_module, owner_stream) \<Rightarrow>
          if owner_module \<noteq> name \<or> owner_stream \<noteq> stream
          then Inl (module_input (''module artifact belongs to multiple streams: '' @ artifact))
          else Inr (bt_insert artifact (name, stream) owners)
      | None \<Rightarrow> Inr (bt_insert artifact (name, stream) owners))"

definition finish_stream ::
  "string \<Rightarrow> string \<times> logical_stream \<Rightarrow> artifact_owners \<times> (string, module_stream) btree_map
     \<Rightarrow> (planning_error, artifact_owners \<times> (string, module_stream) btree_map) result" where
  "finish_stream name = (\<lambda>(stream_name, stream) (owners, finals).
     bindR (foldR (claim_artifact name stream_name) (ls_artifacts stream) owners) (\<lambda>owners'.
       Inr (owners', bt_insert stream_name
         \<lparr>mst_name = stream_name, mst_summary = ls_summary stream, mst_description = ls_description stream,
          mst_profiles = ls_profiles stream, mst_artifacts = ls_artifacts stream,
          mst_dependencies = ls_dependencies stream\<rparr> finals)))"

definition finish_module ::
  "string \<times> string option \<times> logical_streams \<Rightarrow> artifact_owners \<times> (string, module) btree_map
     \<Rightarrow> (planning_error, artifact_owners \<times> (string, module) btree_map) result" where
  "finish_module = (\<lambda>(name, default_stream, streams) (owners, result).
     bindR (case default_stream of
         None \<Rightarrow> Inr ()
       | Some d \<Rightarrow> if map_of streams d = None
           then Inl (module_input (''module default stream is absent: '' @ name @ '':'' @ d)) else Inr ()) (\<lambda>_.
     bindR (foldR (finish_stream name) streams (owners, [])) (\<lambda>(owners', finals).
       Inr (owners', bt_insert name
         \<lparr>mod_name = name, mod_default_stream = default_stream, mod_streams = finals\<rparr> result))))"

definition catalog_from_raw ::
  "raw_module list \<Rightarrow> architecture \<Rightarrow> (planning_error, module_catalog) result" where
  "catalog_from_raw raw arch =
     (if MAX_MODULES < length raw then Inl (module_input ''module catalog exceeds module limit'')
      else
        bindR (foldR (add_module arch) raw
            \<lparr>cb_modules = [], cb_stream_count = 0, cb_artifact_count = 0\<rparr>) (\<lambda>b.
        bindR (foldR finish_module (cb_modules b) ([], [])) (\<lambda>(owners, modules).
          Inr \<lparr>cat_modules = modules, cat_artifact_owners = owners\<rparr>)))"

section \<open>What a catalog is made of\<close>

text \<open>
  The raw streams a stream of the catalog stands for: all contexts of it, in whatever repository,
  whose architecture matches.
\<close>

definition contexts_of :: "architecture \<Rightarrow> raw_module list \<Rightarrow> string \<Rightarrow> string \<Rightarrow> raw_stream set" where
  "contexts_of arch raws n s =
     {r. matches_arch (rs_arch r) arch \<and> rs_stream r = s \<and>
         (\<exists>m\<in>set raws. rm_name m = n \<and> r \<in> set (rm_streams m))}"

definition opt_text :: "string option \<Rightarrow> string" where
  "opt_text t = (case t of None \<Rightarrow> [] | Some s \<Rightarrow> s)"

definition merged_from :: "raw_stream set \<Rightarrow> logical_stream \<Rightarrow> bool" where
  "merged_from R l \<longleftrightarrow>
     bs_ok (ls_artifacts l) \<and> set (ls_artifacts l) = (\<Union>r\<in>R. set (rs_artifacts r)) \<and>
     (\<forall>r\<in>R. normalize_dependencies (rs_dependencies r) = Inr (ls_dependencies l) \<and>
        normalize_profiles (rs_profiles r) = Inr (ls_profiles l) \<and> rs_version r \<le> ls_latest_version l) \<and>
     (\<exists>r\<in>R. rs_version r = ls_latest_version l \<and> opt_text (rs_summary r) = ls_summary l \<and>
        opt_text (rs_description r) = ls_description l)"

definition streams_merged :: "(string \<Rightarrow> raw_stream set) \<Rightarrow> logical_streams \<Rightarrow> bool" where
  "streams_merged F m \<longleftrightarrow> bt_ok m \<and>
     (\<forall>s. case map_of m s of None \<Rightarrow> F s = {} | Some l \<Rightarrow> merged_from (F s) l)"

definition default_declared :: "raw_module list \<Rightarrow> string \<Rightarrow> string option \<Rightarrow> bool" where
  "default_declared raws n d \<longleftrightarrow>
     (\<forall>m\<in>set raws. rm_name m = n \<longrightarrow> rm_default_stream m = None \<or> rm_default_stream m = d) \<and>
     (d = None \<or> (\<exists>m\<in>set raws. rm_name m = n \<and> rm_default_stream m = d))"

definition modules_merged ::
  "architecture \<Rightarrow> raw_module list \<Rightarrow> (string, string option \<times> logical_streams) btree_map \<Rightarrow> bool" where
  "modules_merged arch raws ms \<longleftrightarrow> bt_ok ms \<and>
     (\<forall>n. case map_of ms n of
        None \<Rightarrow> n \<notin> rm_name ` set raws
      | Some (d, m) \<Rightarrow> n \<in> rm_name ` set raws \<and> default_declared raws n d \<and>
          streams_merged (contexts_of arch raws n) m)"

lemma normalize_strings_Inr:
  "normalize_strings vs kind = Inr ws \<Longrightarrow> sorted_wrt (<) ws \<and> set ws = set vs"
  by (auto simp: normalize_strings_def bindR_eq_Inr strict_sorted_iff split: if_splits)
    (metis any_window_eq_sorted sorted_sort distinct_sort map_ident set_sort sorted_list_of_set_sort_remdups)

lemma fold_bs_insert:
  "bs_ok ys \<Longrightarrow> bs_ok (fold bs_insert xs ys) \<and> set (fold bs_insert xs ys) = set xs \<union> set ys"
  by (induction xs arbitrary: ys) auto

lemma merged_from_single:
  assumes "normalize_strings (rs_artifacts r) k = Inr artifacts"
    "normalize_dependencies (rs_dependencies r) = Inr ds" "normalize_profiles (rs_profiles r) = Inr ps"
  shows "merged_from {r} (incoming_stream r artifacts ds ps)"
  using normalize_strings_Inr [OF assms(1)] assms(2,3)
  by (simp add: merged_from_def incoming_stream_def bs_ok_def opt_text_def)

lemma merge_stream_merged:
  assumes m: "streams_merged F m" and inc: "merged_from {r} inc"
    and step: "merge_stream n s inc m = Inr m'"
  shows "streams_merged (F(s := insert r (F s))) m'"
proof (cases "map_of m s")
  case None
  then have "F s = {}" "m' = bt_insert s inc m" "bt_ok m"
    using m step by (auto simp: streams_merged_def merge_stream_def dest: spec [of _ s])
  then show ?thesis
    using m inc by (auto simp: streams_merged_def bt_ok_insert bt_insert_map_of cong: option.case_cong)
next
  case (Some l)
  define l' where "l' = (if ls_latest_version l < ls_latest_version inc
     then l\<lparr>ls_artifacts := fold bs_insert (ls_artifacts inc) (ls_artifacts l),
        ls_latest_version := ls_latest_version inc, ls_summary := ls_summary inc,
        ls_description := ls_description inc\<rparr>
     else l\<lparr>ls_artifacts := fold bs_insert (ls_artifacts inc) (ls_artifacts l)\<rparr>)"
  have l: "merged_from (F s) l" and ok: "bt_ok m"
    using m Some by (auto simp: streams_merged_def dest: spec [of _ s])
  have same: "ls_dependencies l = ls_dependencies inc" "ls_profiles l = ls_profiles inc"
    and m': "m' = bt_insert s l' m"
    using step Some by (auto simp: merge_stream_def l'_def Let_def split: if_splits)
  have "merged_from (insert r (F s)) l'"
    using l inc same fold_bs_insert [of "ls_artifacts l" "ls_artifacts inc"]
    unfolding merged_from_def l'_def by (auto intro: order_trans less_imp_le)
  then show ?thesis
    using m ok m' by (auto simp: streams_merged_def bt_ok_insert bt_insert_map_of cong: option.case_cong)
qed

lemma add_stream_merged:
  assumes m: "streams_merged F m" and step: "add_stream arch n r (m, sc, ac) = Inr (m', sc', ac')"
  shows "streams_merged (\<lambda>s. F s \<union> {x. x = r \<and> matches_arch (rs_arch r) arch \<and> rs_stream r = s}) m'"
proof (cases "matches_arch (rs_arch r) arch")
  case False
  then show ?thesis
    using step m by (auto simp: add_stream_def bindR_eq_Inr split: if_splits)
next
  case True
  obtain artifacts ds ps where steps:
    "normalize_strings (rs_artifacts r) ''module artifact'' = Inr artifacts"
    "normalize_dependencies (rs_dependencies r) = Inr ds" "normalize_profiles (rs_profiles r) = Inr ps"
    "merge_stream n (rs_stream r) (incoming_stream r artifacts ds ps) m = Inr m'"
    using step True unfolding add_stream_def by (auto simp: bindR_eq_Inr split: if_splits)
  have "F(rs_stream r := insert r (F (rs_stream r))) =
      (\<lambda>s. F s \<union> {x. x = r \<and> matches_arch (rs_arch r) arch \<and> rs_stream r = s})"
    using True by (auto simp: fun_eq_iff)
  then show ?thesis
    using merge_stream_merged [OF m merged_from_single [OF steps(1-3)] steps(4)] by simp
qed

lemma add_streams_merged:
  "streams_merged F m \<Longrightarrow> foldR (add_stream arch n) rs (m, sc, ac) = Inr (m', sc', ac') \<Longrightarrow>
   streams_merged (\<lambda>s. F s \<union> {r \<in> set rs. matches_arch (rs_arch r) arch \<and> rs_stream r = s}) m'"
proof (induction rs arbitrary: F m sc ac)
  case (Cons r rs)
  obtain m1 sc1 ac1 where one: "add_stream arch n r (m, sc, ac) = Inr (m1, sc1, ac1)"
    and rest: "foldR (add_stream arch n) rs (m1, sc1, ac1) = Inr (m', sc', ac')"
    using Cons.prems(2) by (auto simp: bindR_eq_Inr)
  have "(\<lambda>s. (F s \<union> {x. x = r \<and> matches_arch (rs_arch r) arch \<and> rs_stream r = s}) \<union>
        {r \<in> set rs. matches_arch (rs_arch r) arch \<and> rs_stream r = s}) =
      (\<lambda>s. F s \<union> {x \<in> set (r # rs). matches_arch (rs_arch x) arch \<and> rs_stream x = s})"
    by (auto simp: fun_eq_iff)
  then show ?case
    using Cons.IH [OF add_stream_merged [OF Cons.prems(1) one] rest] by simp
qed simp

lemma merge_default_declared:
  assumes old: "map_of ms n = Some (d, m) \<Longrightarrow> default_declared raws n d"
    and none: "map_of ms n = None \<Longrightarrow> n \<notin> rm_name ` set raws"
    and d0: "d0 = (case map_of ms n of None \<Rightarrow> rm_default_stream raw | Some (d, m) \<Rightarrow> d)"
    and known: "map_of ms n \<noteq> None \<Longrightarrow> map_of ms n = Some (d, m)"
    and step: "merge_default n d0 (rm_default_stream raw) = Inr d'" and n: "n = rm_name raw"
  shows "default_declared (raws @ [raw]) n d'"
proof (cases "map_of ms n")
  case None
  then have "\<forall>m\<in>set raws. rm_name m \<noteq> n" using none by blast
  then show ?thesis
    using None d0 step n by (auto simp: default_declared_def merge_default_def split: option.splits if_splits)
next
  case (Some x)
  then have "default_declared raws n d" "d0 = d"
    using old known d0 by auto
  then show ?thesis
    using step n by (auto simp: default_declared_def merge_default_def split: option.splits if_splits)
qed

lemma contexts_of_snoc:
  "contexts_of arch (raws @ [raw]) n s = contexts_of arch raws n s \<union>
     (if n = rm_name raw then {r \<in> set (rm_streams raw). matches_arch (rs_arch r) arch \<and> rs_stream r = s} else {})"
  by (auto simp: contexts_of_def)

lemma contexts_of_none: "n \<notin> rm_name ` set raws \<Longrightarrow> contexts_of arch raws n = (\<lambda>s. {})"
  by (fastforce simp: contexts_of_def)

lemma add_module_merged:
  assumes ms: "modules_merged arch raws (cb_modules b)" and step: "add_module arch raw b = Inr b'"
  shows "modules_merged arch (raws @ [raw]) (cb_modules b')"
proof -
  define n where "n = rm_name raw"
  define old where "old = (case map_of (cb_modules b) n of None \<Rightarrow> (rm_default_stream raw, []) | Some m \<Rightarrow> m)"
  obtain d0 m0 where old_eq: "old = (d0, m0)" by (cases old)
  obtain d' m' sc ac where step_d: "merge_default n d0 (rm_default_stream raw) = Inr d'"
    and step_m: "foldR (add_stream arch n) (rm_streams raw) (m0, cb_stream_count b, cb_artifact_count b) = Inr (m', sc, ac)"
    and b': "cb_modules b' = bt_insert n (d', m') (cb_modules b)"
    using step old_eq unfolding add_module_def n_def [symmetric] old_def [symmetric]
    by (auto simp: bindR_eq_Inr)
  have ok: "bt_ok (cb_modules b)" using ms by (simp add: modules_merged_def)
  have at: "case map_of (cb_modules b) k of None \<Rightarrow> k \<notin> rm_name ` set raws
      | Some (d, m) \<Rightarrow> k \<in> rm_name ` set raws \<and> default_declared raws k d \<and>
          streams_merged (contexts_of arch raws k) m" for k
    using ms by (simp add: modules_merged_def)
  have m0: "streams_merged (contexts_of arch raws n) m0"
  proof (cases "map_of (cb_modules b) n")
    case None
    then show ?thesis
      using at [of n] old_eq by (simp add: old_def streams_merged_def contexts_of_none)
  next
    case (Some x)
    then show ?thesis using at [of n] old_eq by (simp add: old_def)
  qed
  have m': "streams_merged (contexts_of arch (raws @ [raw]) n) m'"
  proof -
    have "contexts_of arch (raws @ [raw]) n = (\<lambda>s. contexts_of arch raws n s \<union>
        {r \<in> set (rm_streams raw). matches_arch (rs_arch r) arch \<and> rs_stream r = s})"
      by (simp add: contexts_of_snoc n_def fun_eq_iff)
    then show ?thesis using add_streams_merged [OF m0 step_m] by simp
  qed
  have d': "default_declared (raws @ [raw]) n d'"
    by (rule merge_default_declared [where ms = "cb_modules b" and d = d0 and m = m0 and raw = raw, OF _ _ _ _ step_d n_def])
      (use at [of n] old_eq in \<open>auto simp: old_def split: option.splits prod.splits\<close>)
  have other: "contexts_of arch (raws @ [raw]) k = contexts_of arch raws k"
    "default_declared (raws @ [raw]) k d = default_declared raws k d" if "k \<noteq> n" for k d
    using that by (auto simp: contexts_of_snoc n_def default_declared_def fun_eq_iff)
  show ?thesis
    unfolding modules_merged_def b'
  proof (intro conjI allI)
    fix k
    show "case map_of (bt_insert n (d', m') (cb_modules b)) k of None \<Rightarrow> k \<notin> rm_name ` set (raws @ [raw])
      | Some (d, m) \<Rightarrow> k \<in> rm_name ` set (raws @ [raw]) \<and> default_declared (raws @ [raw]) k d \<and>
          streams_merged (contexts_of arch (raws @ [raw]) k) m"
    proof (cases "k = n")
      case True
      then show ?thesis using m' d' by (simp add: bt_insert_map_of [OF ok] n_def)
    next
      case False
      then show ?thesis
        using at [of k] other [OF False] by (auto simp: bt_insert_map_of [OF ok] n_def split: option.splits)
    qed
  qed (simp add: ok bt_ok_insert)
qed

lemma add_modules_merged:
  "modules_merged arch raws (cb_modules b) \<Longrightarrow> foldR (add_module arch) rest b = Inr b' \<Longrightarrow>
   modules_merged arch (raws @ rest) (cb_modules b')"
proof (induction rest arbitrary: raws b)
  case (Cons raw rest)
  obtain b1 where "add_module arch raw b = Inr b1" "foldR (add_module arch) rest b1 = Inr b'"
    using Cons.prems(2) by (auto simp: bindR_eq_Inr)
  then show ?case
    using Cons.IH [OF add_module_merged [OF Cons.prems(1)], of raw b1] by simp
qed simp

section \<open>Owners\<close>

lemma claim_artifacts:
  "bt_ok owners \<Longrightarrow> foldR (claim_artifact n s) as owners = Inr owners' \<Longrightarrow>
   bt_ok owners' \<and> (\<forall>a x. map_of owners' a = Some x \<longleftrightarrow> map_of owners a = Some x \<or> a \<in> set as \<and> x = (n, s))"
proof (induction as arbitrary: owners)
  case (Cons a as)
  obtain o1 where one: "claim_artifact n s a owners = Inr o1" and rest: "foldR (claim_artifact n s) as o1 = Inr owners'"
    using Cons.prems(2) by (auto simp: bindR_eq_Inr)
  have o1: "o1 = bt_insert a (n, s) owners" "map_of owners a = None \<or> map_of owners a = Some (n, s)"
    using one by (auto simp: claim_artifact_def split: option.splits if_splits)
  then have "bt_ok o1" using Cons.prems(1) by (simp add: bt_ok_insert)
  from Cons.IH [OF this rest] show ?case
    using o1 Cons.prems(1) by (auto simp: bt_insert_map_of)
qed simp

definition final_stream :: "string \<Rightarrow> logical_stream \<Rightarrow> module_stream" where
  "final_stream s l =
     \<lparr>mst_name = s, mst_summary = ls_summary l, mst_description = ls_description l,
      mst_profiles = ls_profiles l, mst_artifacts = ls_artifacts l, mst_dependencies = ls_dependencies l\<rparr>"

lemma map_of_Cons_ex:
  assumes "map_of xs s = None"
  shows "(\<exists>k j. map_of ((s, l) # xs) k = Some j \<and> P j \<and> Q k) \<longleftrightarrow>
     P l \<and> Q s \<or> (\<exists>k j. map_of xs k = Some j \<and> P j \<and> Q k)"
proof -
  have "map_of ((s, l) # xs) k = Some j \<longleftrightarrow> k = s \<and> j = l \<or> map_of xs k = Some j" for k j
    using assms by auto
  then show ?thesis by metis
qed

lemma finish_streams:
  "bt_ok owners \<Longrightarrow> bt_ok finals \<Longrightarrow> distinct (map fst xs) \<Longrightarrow>
   foldR (finish_stream n) xs (owners, finals) = Inr (owners', finals') \<Longrightarrow>
   bt_ok owners' \<and> bt_ok finals' \<and>
   (\<forall>s. map_of finals' s = (case map_of xs s of None \<Rightarrow> map_of finals s | Some l \<Rightarrow> Some (final_stream s l))) \<and>
   (\<forall>a x. map_of owners' a = Some x \<longleftrightarrow> map_of owners a = Some x \<or>
      (\<exists>s l. map_of xs s = Some l \<and> a \<in> set (ls_artifacts l) \<and> x = (n, s)))"
proof (induction xs arbitrary: owners finals)
  case (Cons y xs)
  obtain s l where y: "y = (s, l)" by (cases y)
  obtain o1 f1 where one: "finish_stream n (s, l) (owners, finals) = Inr (o1, f1)"
    and rest: "foldR (finish_stream n) xs (o1, f1) = Inr (owners', finals')"
    using Cons.prems(4) by (auto simp: bindR_eq_Inr y)
  have claimed: "foldR (claim_artifact n s) (ls_artifacts l) owners = Inr o1"
    and f1: "f1 = bt_insert s (final_stream s l) finals"
    using one by (auto simp: finish_stream_def final_stream_def bindR_eq_Inr)
  note o1 = claim_artifacts [OF Cons.prems(1) claimed]
  have ok: "bt_ok o1" "bt_ok f1" using o1 f1 Cons.prems(2) by (simp_all add: bt_ok_insert)
  have new: "map_of xs s = None" "distinct (map fst xs)"
    using Cons.prems(3) y by (auto simp: map_of_eq_None_iff)
  have IH: "bt_ok owners'" "bt_ok finals'"
    "map_of finals' k = (case map_of xs k of None \<Rightarrow> map_of f1 k | Some l \<Rightarrow> Some (final_stream k l))"
    "map_of owners' a = Some x \<longleftrightarrow> map_of o1 a = Some x \<or>
      (\<exists>s l. map_of xs s = Some l \<and> a \<in> set (ls_artifacts l) \<and> x = (n, s))" for k a x
    using Cons.IH [OF ok new(2) rest] by blast+
  have "map_of owners' a = Some x \<longleftrightarrow> map_of owners a = Some x \<or>
      (\<exists>k j. map_of (y # xs) k = Some j \<and> a \<in> set (ls_artifacts j) \<and> x = (n, k))" for a x
  proof -
    have "(\<exists>k j. map_of (y # xs) k = Some j \<and> a \<in> set (ls_artifacts j) \<and> x = (n, k)) \<longleftrightarrow>
        a \<in> set (ls_artifacts l) \<and> x = (n, s) \<or>
        (\<exists>k j. map_of xs k = Some j \<and> a \<in> set (ls_artifacts j) \<and> x = (n, k))"
      unfolding y by (rule map_of_Cons_ex [OF new(1)])
    moreover have "map_of o1 a = Some x \<longleftrightarrow> map_of owners a = Some x \<or> a \<in> set (ls_artifacts l) \<and> x = (n, s)"
      using o1 by blast
    ultimately show ?thesis by (simp only: IH(4) disj_assoc)
  qed
  moreover have "map_of finals' k =
      (case map_of (y # xs) k of None \<Rightarrow> map_of finals k | Some j \<Rightarrow> Some (final_stream k j))" for k
    using IH(3) [of k] new(1) by (simp add: f1 y bt_insert_map_of [OF Cons.prems(2)] split: option.split)
  ultimately show ?case
    using IH(1,2) by (intro conjI allI) assumption+
qed simp

definition module_of_logical :: "string \<Rightarrow> string option \<Rightarrow> logical_streams \<Rightarrow> module \<Rightarrow> bool" where
  "module_of_logical n d m M \<longleftrightarrow>
     mod_name M = n \<and> mod_default_stream M = d \<and> bt_ok (mod_streams M) \<and>
     (\<forall>s. map_of (mod_streams M) s = map_option (final_stream s) (map_of m s)) \<and>
     (\<forall>x. d = Some x \<longrightarrow> map_of m x \<noteq> None)"

lemma finish_module_Inr:
  assumes step: "finish_module (n, d, m) (owners, res) = Inr (owners', res')"
    and ok: "bt_ok owners" "bt_ok m"
  obtains M where "res' = bt_insert n M res" "module_of_logical n d m M" "bt_ok owners'"
    "\<And>a x. map_of owners' a = Some x \<longleftrightarrow> map_of owners a = Some x \<or>
       (\<exists>s l. map_of m s = Some l \<and> a \<in> set (ls_artifacts l) \<and> x = (n, s))"
proof -
  obtain finals where f: "foldR (finish_stream n) m (owners, []) = Inr (owners', finals)"
    and d: "\<forall>x. d = Some x \<longrightarrow> map_of m x \<noteq> None"
    and res': "res' = bt_insert n \<lparr>mod_name = n, mod_default_stream = d, mod_streams = finals\<rparr> res"
    using step by (auto simp: finish_module_def bindR_eq_Inr split: option.splits if_splits)
  note fs = finish_streams [OF ok(1) bt_ok_Nil bt_ok_distinct [OF ok(2)] f]
  have "module_of_logical n d m \<lparr>mod_name = n, mod_default_stream = d, mod_streams = finals\<rparr>"
    using fs d by (simp add: module_of_logical_def split: option.splits)
  then show thesis using that [OF res'] fs by blast
qed

lemma finish_modules:
  "bt_ok owners \<Longrightarrow> bt_ok res \<Longrightarrow> distinct (map fst xs) \<Longrightarrow> \<forall>y\<in>set xs. bt_ok (snd (snd y)) \<Longrightarrow>
   foldR finish_module xs (owners, res) = Inr (owners', res') \<Longrightarrow>
   bt_ok owners' \<and> bt_ok res' \<and>
   (\<forall>n. case map_of xs n of
      None \<Rightarrow> map_of res' n = map_of res n
    | Some (d, m) \<Rightarrow> (\<exists>M. map_of res' n = Some M \<and> module_of_logical n d m M)) \<and>
   (\<forall>a x. map_of owners' a = Some x \<longleftrightarrow> map_of owners a = Some x \<or>
      (\<exists>n p. map_of xs n = Some p \<and>
         (\<exists>s l. map_of (snd p) s = Some l \<and> a \<in> set (ls_artifacts l) \<and> x = (n, s))))"
proof (induction xs arbitrary: owners res)
  case (Cons y xs)
  obtain n d m where y: "y = (n, d, m)" by (cases y)
  obtain o1 r1 where one: "finish_module (n, d, m) (owners, res) = Inr (o1, r1)"
    and rest: "foldR finish_module xs (o1, r1) = Inr (owners', res')"
    using Cons.prems(5) by (auto simp: bindR_eq_Inr y)
  have okm: "bt_ok m" using Cons.prems(4) y by auto
  obtain M where M: "r1 = bt_insert n M res" "module_of_logical n d m M" and ok1: "bt_ok o1"
    and o1: "\<And>a x. map_of o1 a = Some x \<longleftrightarrow> map_of owners a = Some x \<or>
       (\<exists>s l. map_of m s = Some l \<and> a \<in> set (ls_artifacts l) \<and> x = (n, s))"
    by (rule finish_module_Inr [OF one Cons.prems(1) okm]) blast
  have okr: "bt_ok r1" using M(1) Cons.prems(2) by (simp add: bt_ok_insert)
  have new: "map_of xs n = None" "distinct (map fst xs)"
    using Cons.prems(3) y by (auto simp: map_of_eq_None_iff)
  have tl: "\<forall>y\<in>set xs. bt_ok (snd (snd y))" using Cons.prems(4) by auto
  note IH = Cons.IH [OF ok1 okr new(2) tl rest]
  have "case map_of (y # xs) k of None \<Rightarrow> map_of res' k = map_of res k
    | Some (d, m) \<Rightarrow> (\<exists>M. map_of res' k = Some M \<and> module_of_logical k d m M)" for k
  proof (cases "k = n")
    case True
    then show ?thesis
      using conjunct1 [OF conjunct2 [OF conjunct2 [OF IH]], THEN spec [where x = n]] new(1) M
      by (simp add: y bt_insert_map_of [OF Cons.prems(2)])
  next
    case False
    then show ?thesis
      using conjunct1 [OF conjunct2 [OF conjunct2 [OF IH]], THEN spec [where x = k]] M(1)
      by (simp add: y bt_insert_map_of [OF Cons.prems(2)] split: option.splits prod.splits)
  qed
  moreover have "map_of owners' a = Some x \<longleftrightarrow> map_of owners a = Some x \<or>
      (\<exists>k p. map_of (y # xs) k = Some p \<and>
         (\<exists>s l. map_of (snd p) s = Some l \<and> a \<in> set (ls_artifacts l) \<and> x = (k, s)))" for a x
  proof -
    have split: "map_of (y # xs) k = Some p \<longleftrightarrow> k = n \<and> p = (d, m) \<or> map_of xs k = Some p" for k p
      using new(1) by (auto simp: y)
    have "(\<exists>k p. map_of (y # xs) k = Some p \<and> R k p) \<longleftrightarrow> R n (d, m) \<or> (\<exists>k p. map_of xs k = Some p \<and> R k p)"
      for R :: "string \<Rightarrow> string option \<times> logical_streams \<Rightarrow> bool"
      unfolding split by blast
    from this [of "\<lambda>k p. \<exists>s l. map_of (snd p) s = Some l \<and> a \<in> set (ls_artifacts l) \<and> x = (k, s)"]
    show ?thesis
      using conjunct2 [OF conjunct2 [OF conjunct2 [OF IH]], THEN spec [where x = a], THEN spec [where x = x]] o1 [of a x]
      by (simp only: snd_conv disj_assoc)
  qed
  ultimately show ?case
    using conjunct1 [OF IH] conjunct1 [OF conjunct2 [OF IH]] by (intro conjI allI) assumption+
qed simp

lemma catalog_from_raw_parts:
  assumes "catalog_from_raw raws arch = Inr c"
  obtains b :: catalog_build where "modules_merged arch raws (cb_modules b)" "bt_ok (cat_artifact_owners c)" "bt_ok (cat_modules c)"
    "\<And>n. case map_of (cb_modules b) n of
        None \<Rightarrow> map_of (cat_modules c) n = None
      | Some (d, m) \<Rightarrow> (\<exists>M. map_of (cat_modules c) n = Some M \<and> module_of_logical n d m M)"
    "\<And>a x. map_of (cat_artifact_owners c) a = Some x \<longleftrightarrow>
      (\<exists>n p. map_of (cb_modules b) n = Some p \<and>
         (\<exists>s l. map_of (snd p) s = Some l \<and> a \<in> set (ls_artifacts l) \<and> x = (n, s)))"
proof -
  obtain b owners modules where add: "foldR (add_module arch) raws
        \<lparr>cb_modules = [], cb_stream_count = 0, cb_artifact_count = 0\<rparr> = Inr b"
    and fin: "foldR finish_module (cb_modules b) ([], []) = Inr (owners, modules)"
    and c: "c = \<lparr>cat_modules = modules, cat_artifact_owners = owners\<rparr>"
    using assms by (auto simp: catalog_from_raw_def bindR_eq_Inr split: if_splits)
  have merged: "modules_merged arch raws (cb_modules b)"
    using add_modules_merged [OF _ add, of "[]"] by (simp add: modules_merged_def)
  then have okb: "bt_ok (cb_modules b)" by (simp add: modules_merged_def)
  have okm: "\<forall>y\<in>set (cb_modules b). bt_ok (snd (snd y))"
  proof
    fix y assume "y \<in> set (cb_modules b)"
    then have "map_of (cb_modules b) (fst y) = Some (fst (snd y), snd (snd y))"
      using bt_set [OF okb, of "fst y" "snd y"] by simp
    then show "bt_ok (snd (snd y))"
      using conjunct2 [OF merged [unfolded modules_merged_def], THEN spec, of "fst y"]
      by (simp add: streams_merged_def split: prod.splits)
  qed
  note f = finish_modules [OF bt_ok_Nil bt_ok_Nil bt_ok_distinct [OF okb] okm fin]
  have "case map_of (cb_modules b) n of None \<Rightarrow> map_of (cat_modules c) n = None
      | Some (d, m) \<Rightarrow> (\<exists>M. map_of (cat_modules c) n = Some M \<and> module_of_logical n d m M)" for n
    using conjunct1 [OF conjunct2 [OF conjunct2 [OF f]], THEN spec [where x = n]] c by (simp split: option.splits prod.splits)
  moreover have "map_of (cat_artifact_owners c) a = Some x \<longleftrightarrow>
      (\<exists>n p. map_of (cb_modules b) n = Some p \<and>
         (\<exists>s l. map_of (snd p) s = Some l \<and> a \<in> set (ls_artifacts l) \<and> x = (n, s)))" for a x
    using conjunct2 [OF conjunct2 [OF conjunct2 [OF f]], THEN spec [where x = a], THEN spec [where x = x]] c by simp
  moreover have "bt_ok (cat_artifact_owners c)" "bt_ok (cat_modules c)"
    using conjunct1 [OF f] conjunct1 [OF conjunct2 [OF f]] c by simp_all
  ultimately show thesis using that [OF merged] by blast
qed

section \<open>Catalogs are well-formed and exact\<close>

definition dependencies_ok :: "module_dependencies list \<Rightarrow> bool" where
  "dependencies_ok ds \<longleftrightarrow> distinct ds \<and>
     (\<forall>d\<in>set ds. sorted_wrt (<) (map mr_module (md_requires d)) \<and>
        (\<forall>r\<in>set (md_requires d). sorted_wrt (<) (mr_streams r)))"

definition module_ok :: "module \<Rightarrow> bool" where
  "module_ok M \<longleftrightarrow> bt_ok (mod_streams M) \<and>
     (\<forall>d. mod_default_stream M = Some d \<longrightarrow> map_of (mod_streams M) d \<noteq> None) \<and>
     (\<forall>s st. map_of (mod_streams M) s = Some st \<longrightarrow>
        mst_name st = s \<and> sorted_wrt (<) (mst_artifacts st) \<and> dependencies_ok (mst_dependencies st))"

definition owned :: "module_catalog \<Rightarrow> string \<Rightarrow> string \<Rightarrow> string \<Rightarrow> bool" where
  "owned c a n s \<longleftrightarrow> (\<exists>M st. map_of (cat_modules c) n = Some M \<and> map_of (mod_streams M) s = Some st \<and>
     a \<in> set (mst_artifacts st))"

definition catalog_ok :: "module_catalog \<Rightarrow> bool" where
  "catalog_ok c \<longleftrightarrow> bt_ok (cat_modules c) \<and> bt_ok (cat_artifact_owners c) \<and>
     (\<forall>n M. map_of (cat_modules c) n = Some M \<longrightarrow> mod_name M = n \<and> module_ok M) \<and>
     (\<forall>a n s. map_of (cat_artifact_owners c) a = Some (n, s) \<longleftrightarrow> owned c a n s)"

lemma sorted_key_window:
  "\<not> any_window (\<lambda>a b. key a = key b) (sort_key key xs) \<Longrightarrow> sorted_wrt (<) (map key (sort_key key xs))"
proof -
  have "any_window (\<lambda>a b. key a = key b) ys = any_window (=) (map key ys)" for ys :: "'a list"
    by (induction ys rule: induct_list012) auto
  then show "\<not> any_window (\<lambda>a b. key a = key b) (sort_key key xs) \<Longrightarrow> ?thesis"
    using any_window_eq_sorted [of "map key (sort_key key xs)"] by (simp add: strict_sorted_iff)
qed

lemma dependencies_key_inj: "dependencies_key a = dependencies_key b \<Longrightarrow> a = b"
proof -
  have "map (\<lambda>r. (mr_module r, mr_streams r)) xs = map (\<lambda>r. (mr_module r, mr_streams r)) ys \<Longrightarrow> xs = ys"
    for xs ys :: "module_requirement list"
    by (rule injD [OF inj_mapI]) (auto simp: inj_def)
  then show "dependencies_key a = dependencies_key b \<Longrightarrow> a = b"
    by (cases a; cases b) (simp add: dependencies_key_def)
qed

lemma remdups_adj_sort_key_distinct:
  assumes "inj key"
  shows "distinct (remdups_adj (sort_key key xs))"
proof -
  have "remdups_adj (map key (sort_key key xs)) = map key (remdups_adj (sort_key key xs))"
    by (rule remdups_adj_map_injective [OF assms])
  then have "distinct (map key (remdups_adj (sort_key key xs)))"
    using distinct_remdups_adj_sorted [of "map key (sort_key key xs)"] by simp
  then show ?thesis by (simp add: distinct_map)
qed

lemma normalize_alternative_Inr:
  assumes "normalize_alternative d = Inr d'"
  shows "sorted_wrt (<) (map mr_module (md_requires d'))"
    and "r \<in> set (md_requires d') \<Longrightarrow> sorted_wrt (<) (mr_streams r)"
proof -
  obtain rs where rs: "mapR normalize_requirement (md_requires d) = Inr rs"
    and w: "\<not> any_window (\<lambda>a b. mr_module a = mr_module b) (sort_key mr_module rs)"
    and d': "md_requires d' = sort_key mr_module rs"
    using assms by (auto simp: normalize_alternative_def bindR_eq_Inr Let_def split: if_splits)
  show "sorted_wrt (<) (map mr_module (md_requires d'))"
    using sorted_key_window [OF w] by (simp add: d')
  have "\<exists>r0. normalize_requirement r0 = Inr r" if "r \<in> set rs" for r
    using rs that by (auto simp: mapR_eq_Inr list_all2_conv_all_nth in_set_conv_nth)
  moreover have "normalize_requirement r0 = Inr r \<Longrightarrow> sorted_wrt (<) (mr_streams r)" for r0 r
    by (auto simp: normalize_requirement_def bindR_eq_Inr dest!: normalize_strings_Inr)
  ultimately show "r \<in> set (md_requires d') \<Longrightarrow> sorted_wrt (<) (mr_streams r)"
    unfolding d' set_sort by metis
qed

lemma normalize_dependencies_Inr:
  assumes "normalize_dependencies ds = Inr ds'"
  shows "dependencies_ok ds'"
proof -
  obtain as where as: "mapR normalize_alternative ds = Inr as"
    and ds': "ds' = remdups_adj (sort_key dependencies_key as)"
    using assms by (auto simp: normalize_dependencies_def bindR_eq_Inr)
  have "\<exists>d0. normalize_alternative d0 = Inr d" if "d \<in> set ds'" for d
    using as that by (auto simp: ds' mapR_eq_Inr list_all2_conv_all_nth in_set_conv_nth)
  moreover have "distinct ds'"
    unfolding ds' by (rule remdups_adj_sort_key_distinct) (simp add: inj_def dependencies_key_inj)
  ultimately show ?thesis
    unfolding dependencies_ok_def by (metis normalize_alternative_Inr)
qed

lemma merged_from_dependencies:
  assumes "merged_from R l"
  shows "dependencies_ok (ls_dependencies l)"
proof -
  have all: "\<forall>r\<in>R. normalize_dependencies (rs_dependencies r) = Inr (ls_dependencies l)"
    and ne: "R \<noteq> {}"
    using assms unfolding merged_from_def by blast+
  obtain r where "r \<in> R" using ne by blast
  then show ?thesis using normalize_dependencies_Inr bspec [OF all] by metis
qed

lemma merged_module_ok:
  assumes M: "module_of_logical n d m M" and merged: "streams_merged F m"
  shows "mod_name M = n" "module_ok M"
    and "case map_of (mod_streams M) s of None \<Rightarrow> F s = {} | Some st \<Rightarrow> \<exists>l. st = final_stream s l \<and> merged_from (F s) l"
proof -
  have lookup: "map_of (mod_streams M) s = map_option (final_stream s) (map_of m s)" for s
    using M by (simp add: module_of_logical_def)
  have at: "case map_of m s of None \<Rightarrow> F s = {} | Some l \<Rightarrow> merged_from (F s) l" for s
    using merged by (simp add: streams_merged_def)
  show "mod_name M = n" using M by (simp add: module_of_logical_def)
  show "case map_of (mod_streams M) s of None \<Rightarrow> F s = {} | Some st \<Rightarrow> \<exists>l. st = final_stream s l \<and> merged_from (F s) l"
    using at [of s] by (cases "map_of m s") (auto simp: lookup)
  have streams: "mst_name st = s \<and> sorted_wrt (<) (mst_artifacts st) \<and> dependencies_ok (mst_dependencies st)"
    if st: "map_of (mod_streams M) s = Some st" for s st
  proof -
    obtain l where l: "map_of m s = Some l" "st = final_stream s l" using st lookup by auto
    then have mf: "merged_from (F s) l" using at [of s] by simp
    show ?thesis
      using mf merged_from_dependencies [OF mf] by (simp add: l(2) final_stream_def merged_from_def bs_ok_def)
  qed
  have "bt_ok (mod_streams M)" "\<And>x. mod_default_stream M = Some x \<Longrightarrow> map_of (mod_streams M) x \<noteq> None"
    using M by (simp_all add: module_of_logical_def)
  then show "module_ok M"
    unfolding module_ok_def using streams by (intro conjI allI impI) simp_all
qed

lemma catalog_module_exact:
  assumes "catalog_from_raw raws arch = Inr c"
  shows "case map_of (cat_modules c) n of
      None \<Rightarrow> n \<notin> rm_name ` set raws
    | Some M \<Rightarrow> n \<in> rm_name ` set raws \<and> mod_name M = n \<and> module_ok M \<and>
        default_declared raws n (mod_default_stream M) \<and>
        (\<forall>s. case map_of (mod_streams M) s of
            None \<Rightarrow> contexts_of arch raws n s = {}
          | Some st \<Rightarrow> \<exists>l. st = final_stream s l \<and> merged_from (contexts_of arch raws n s) l)"
proof -
  obtain b :: catalog_build where b: "modules_merged arch raws (cb_modules b)"
    and at: "\<And>n. case map_of (cb_modules b) n of
        None \<Rightarrow> map_of (cat_modules c) n = None
      | Some (d, m) \<Rightarrow> (\<exists>M. map_of (cat_modules c) n = Some M \<and> module_of_logical n d m M)"
    by (rule catalog_from_raw_parts [OF assms]) blast
  have mm: "case map_of (cb_modules b) n of None \<Rightarrow> n \<notin> rm_name ` set raws
      | Some (d, m) \<Rightarrow> n \<in> rm_name ` set raws \<and> default_declared raws n d \<and>
          streams_merged (contexts_of arch raws n) m"
    using b by (simp add: modules_merged_def)
  show ?thesis
  proof (cases "map_of (cb_modules b) n")
    case None
    then show ?thesis using at [of n] mm by simp
  next
    case (Some x)
    obtain d m where x: "x = (d, m)" by (cases x)
    obtain M where M: "map_of (cat_modules c) n = Some M" "module_of_logical n d m M"
      using at [of n] Some x by auto
    moreover have "mod_default_stream M = d" using M(2) by (simp add: module_of_logical_def)
    moreover have facts: "n \<in> rm_name ` set raws" "default_declared raws n d" "streams_merged (contexts_of arch raws n) m"
      using mm Some x by simp_all
    ultimately show ?thesis
      using merged_module_ok [OF M(2) facts(3)] by simp
  qed
qed

lemma catalog_owned_contexts:
  assumes "catalog_from_raw raws arch = Inr c"
  shows "owned c a n s \<longleftrightarrow> (\<exists>r\<in>contexts_of arch raws n s. a \<in> set (rs_artifacts r))"
proof (cases "map_of (cat_modules c) n")
  case None
  then show ?thesis
    using catalog_module_exact [OF assms, of n] by (auto simp: owned_def contexts_of_none)
next
  case (Some M)
  have at: "case map_of (mod_streams M) s of None \<Rightarrow> contexts_of arch raws n s = {}
      | Some st \<Rightarrow> \<exists>l. st = final_stream s l \<and> merged_from (contexts_of arch raws n s) l"
    using catalog_module_exact [OF assms, of n] Some by simp
  show ?thesis
  proof (cases "map_of (mod_streams M) s")
    case None
    then show ?thesis using Some at by (simp add: owned_def)
  next
    case (Some st)
    then obtain l where l: "st = final_stream s l" "merged_from (contexts_of arch raws n s) l" using at by auto
    have "owned c a n s \<longleftrightarrow> a \<in> set (ls_artifacts l)"
      using \<open>map_of (cat_modules c) n = Some M\<close> Some l(1) by (simp add: owned_def final_stream_def)
    then show ?thesis using l(2) by (simp add: merged_from_def)
  qed
qed

lemma catalog_from_raw_ok:
  assumes "catalog_from_raw raws arch = Inr c"
  shows "catalog_ok c"
proof -
  obtain b :: catalog_build where ok: "bt_ok (cat_artifact_owners c)" "bt_ok (cat_modules c)"
    and at: "\<And>n. case map_of (cb_modules b) n of
        None \<Rightarrow> map_of (cat_modules c) n = None
      | Some (d, m) \<Rightarrow> (\<exists>M. map_of (cat_modules c) n = Some M \<and> module_of_logical n d m M)"
    and owners: "\<And>a x. map_of (cat_artifact_owners c) a = Some x \<longleftrightarrow>
      (\<exists>n p. map_of (cb_modules b) n = Some p \<and>
         (\<exists>s l. map_of (snd p) s = Some l \<and> a \<in> set (ls_artifacts l) \<and> x = (n, s)))"
    by (rule catalog_from_raw_parts [OF assms]) blast
  have "map_of (cat_artifact_owners c) a = Some (n, s) \<longleftrightarrow> owned c a n s" for a n s
  proof (cases "map_of (cb_modules b) n")
    case None
    then show ?thesis using at [of n] by (auto simp: owners owned_def)
  next
    case (Some x)
    obtain d m where x: "x = (d, m)" by (cases x)
    obtain M where M: "map_of (cat_modules c) n = Some M" "module_of_logical n d m M"
      using at [of n] Some x by auto
    have "map_of (mod_streams M) s = map_option (final_stream s) (map_of m s)"
      using M(2) by (simp add: module_of_logical_def)
    then have "owned c a n s \<longleftrightarrow> (\<exists>l. map_of m s = Some l \<and> a \<in> set (ls_artifacts l))"
      using M(1) by (cases "map_of m s") (auto simp: owned_def final_stream_def)
    moreover have "map_of (cat_artifact_owners c) a = Some (n, s) \<longleftrightarrow>
        (\<exists>l. map_of m s = Some l \<and> a \<in> set (ls_artifacts l))"
      unfolding owners using Some x by (metis option.inject prod.inject snd_conv)
    ultimately show ?thesis by simp
  qed
  moreover have "mod_name M = n \<and> module_ok M" if "map_of (cat_modules c) n = Some M" for n M
    using catalog_module_exact [OF assms, of n] that by simp
  ultimately show ?thesis using ok by (simp add: catalog_ok_def)
qed

definition demo_stream :: "string \<Rightarrow> u64 \<Rightarrow> string list \<Rightarrow> raw_stream" where
  "demo_stream stream version artifacts =
     \<lparr>rs_name = ''demo'', rs_stream = stream, rs_version = version, rs_context = ''c1'', rs_arch = ''x86_64'',
      rs_summary = Some stream, rs_description = None, rs_profiles = [], rs_dependencies = [],
      rs_artifacts = artifacts\<rparr>"

definition demo_modules :: "raw_module list" where
  "demo_modules =
     [\<lparr>rm_name = ''demo'', rm_default_stream = Some ''stable'',
       rm_streams = [demo_stream ''stable'' 1 [''demo-0:1-1.x86_64''], demo_stream ''next'' 2 [''demo-0:2-1.x86_64'']]\<rparr>,
      \<lparr>rm_name = ''demo'', rm_default_stream = None,
       rm_streams = [demo_stream ''stable'' 3 [''demo-libs-0:1-1.noarch'']]\<rparr>]"

text \<open>
  Property C37. A catalog built from raw modules is well-formed: modules and streams are keyed by
  their own names in order, a default stream is one of the module's streams, artifacts and the
  requirements of every alternative are strictly sorted, alternatives are distinct, and the owner
  recorded for an artifact is exactly the one stream of the catalog that lists it.
\<close>

theorem catalog_from_raw_well_formed:
  assumes "catalog_from_raw raws arch = Inr c"
  shows "catalog_ok c"
  by (rule catalog_from_raw_ok [OF assms])

theorem catalog_from_raw_well_formed_witness:
  "\<exists>c. catalog_from_raw demo_modules X86_64 = Inr c \<and> catalog_ok c \<and>
     map_of (cat_artifact_owners c) ''demo-libs-0:1-1.noarch'' = Some (''demo'', ''stable'')"
proof -
  have run: "map_sum id cat_artifact_owners (catalog_from_raw demo_modules X86_64) =
      Inr [(''demo-0:1-1.x86_64'', ''demo'', ''stable''), (''demo-0:2-1.x86_64'', ''demo'', ''next''),
           (''demo-libs-0:1-1.noarch'', ''demo'', ''stable'')]"
    by code_simp
  then obtain c where c: "catalog_from_raw demo_modules X86_64 = Inr c"
    by (cases "catalog_from_raw demo_modules X86_64") auto
  show ?thesis
    using catalog_from_raw_well_formed [OF c] run c by (intro exI [of _ c]) simp
qed

text \<open>
  Property C36. \<^verbatim>\<open>catalog_from_raw\<close> is exact: the modules are those named by some repository, with
  the one default any of them declares; a stream is in the catalog exactly when some context of it
  matches the architecture, its artifacts are those of all its contexts together, all contexts
  agree on dependencies and profiles, its texts are those of a context with the highest version;
  and an artifact is owned by a stream exactly when one of the stream's contexts lists it, so that
  no artifact is listed by two streams.
\<close>

theorem catalog_from_raw_exact:
  assumes "catalog_from_raw raws arch = Inr c"
  shows "(\<forall>n. case map_of (cat_modules c) n of
      None \<Rightarrow> n \<notin> rm_name ` set raws
    | Some M \<Rightarrow> n \<in> rm_name ` set raws \<and> default_declared raws n (mod_default_stream M) \<and>
        (\<forall>s. case map_of (mod_streams M) s of
            None \<Rightarrow> contexts_of arch raws n s = {}
          | Some st \<Rightarrow> \<exists>l. st = final_stream s l \<and> merged_from (contexts_of arch raws n s) l))
    \<and> (\<forall>a n s. map_of (cat_artifact_owners c) a = Some (n, s) \<longleftrightarrow>
        (\<exists>r\<in>contexts_of arch raws n s. a \<in> set (rs_artifacts r)))"
proof (intro conjI allI)
  fix n
  show "case map_of (cat_modules c) n of
      None \<Rightarrow> n \<notin> rm_name ` set raws
    | Some M \<Rightarrow> n \<in> rm_name ` set raws \<and> default_declared raws n (mod_default_stream M) \<and>
        (\<forall>s. case map_of (mod_streams M) s of
            None \<Rightarrow> contexts_of arch raws n s = {}
          | Some st \<Rightarrow> \<exists>l. st = final_stream s l \<and> merged_from (contexts_of arch raws n s) l)"
    using catalog_module_exact [OF assms, of n] by (cases "map_of (cat_modules c) n") auto
next
  fix a n s
  show "map_of (cat_artifact_owners c) a = Some (n, s) \<longleftrightarrow>
      (\<exists>r\<in>contexts_of arch raws n s. a \<in> set (rs_artifacts r))"
    using catalog_from_raw_ok [OF assms] catalog_owned_contexts [OF assms] by (simp add: catalog_ok_def)
qed

theorem catalog_from_raw_exact_witness:
  "\<exists>c. catalog_from_raw demo_modules X86_64 = Inr c \<and>
     (\<exists>r\<in>contexts_of X86_64 demo_modules ''demo'' ''next''. ''demo-0:2-1.x86_64'' \<in> set (rs_artifacts r))"
proof -
  have run: "map_sum id (\<lambda>c. map_of (cat_artifact_owners c) ''demo-0:2-1.x86_64'')
      (catalog_from_raw demo_modules X86_64) = Inr (Some (''demo'', ''next''))"
    by code_simp
  then obtain c where c: "catalog_from_raw demo_modules X86_64 = Inr c"
    by (cases "catalog_from_raw demo_modules X86_64") auto
  then have "map_of (cat_artifact_owners c) ''demo-0:2-1.x86_64'' = Some (''demo'', ''next'')"
    using run by simp
  then show ?thesis
    using catalog_from_raw_exact [OF c] c by (intro exI [of _ c]) simp
qed

end
