(* ===== verification/Planning_Module.thy ===== *)
theory Planning_Module
  imports Planning_Catalog
begin

text \<open>
  The state half of \<^verbatim>\<open>crates/dnfast-planning/src/modulemd.rs\<close>: the module state of a root, the
  mutations enable, reset and disable with the completion of dependencies, the check of a state
  against a catalog and the exclusion of artifacts of streams that are not active.
\<close>

section \<open>State\<close>

record module_state_entry =
  me_name :: string
  me_stream :: "string option"
  me_disabled :: bool

record module_state =
  ms_entries :: "module_state_entry list"

datatype module_mutation = ModuleEnable | ModuleReset | ModuleDisable

type_synonym module_entries = "(string, module_state_entry) btree_map"

definition module_entry_check :: "module_state_entry \<Rightarrow> (planning_error, unit) result" where
  "module_entry_check entry =
     bindR (module_identifier (me_name entry) ''module state name'') (\<lambda>_.
     bindR (case me_stream entry of
         None \<Rightarrow> Inr () | Some stream \<Rightarrow> module_identifier stream ''module state stream'') (\<lambda>_.
     if me_disabled entry = (me_stream entry \<noteq> None)
     then Inl (module_input ''module state entry has an invalid mode'') else Inr ()))"

definition module_state_validate :: "module_state \<Rightarrow> (planning_error, unit) result" where
  "module_state_validate state =
     (if any_window (\<lambda>a b. me_name b \<le> me_name a) (ms_entries state)
      then Inl (module_input ''module state is not canonical'')
      else forR module_entry_check (ms_entries state))"

definition module_state_map :: "module_state \<Rightarrow> module_entries" where
  "module_state_map state = bt_collect (map (\<lambda>entry. (me_name entry, entry)) (ms_entries state))"

section \<open>Active streams and the check of a state\<close>

definition active_stream :: "module_catalog \<Rightarrow> module_state \<Rightarrow> string \<Rightarrow> string option" where
  "active_stream c state name =
     (case List.find (\<lambda>entry. me_name entry = name) (ms_entries state) of
        Some entry \<Rightarrow> if me_disabled entry then None else me_stream entry
      | None \<Rightarrow> Option.bind (map_of (cat_modules c) name) mod_default_stream)"

definition requirement_satisfied :: "module_catalog \<Rightarrow> module_state \<Rightarrow> module_requirement \<Rightarrow> bool" where
  "requirement_satisfied c state requirement =
     (case active_stream c state (mr_module requirement) of
        None \<Rightarrow> False
      | Some active \<Rightarrow> \<not> list_ex (\<lambda>stream. starts_with stream ''-'') (mr_streams requirement)
          \<and> list_ex (\<lambda>allowed. allowed = active) (mr_streams requirement))"

definition dependencies_satisfied ::
  "module_catalog \<Rightarrow> module_state \<Rightarrow> module_dependencies list \<Rightarrow> (planning_error, bool) result" where
  "dependencies_satisfied c state alternatives =
     (if alternatives = [] then Inr True
      else Inr (list_ex (\<lambda>a. list_all (requirement_satisfied c state) (md_requires a)) alternatives))"

definition check_known_entry :: "module_catalog \<Rightarrow> module_state_entry \<Rightarrow> (planning_error, unit) result" where
  "check_known_entry c entry =
     bindR (ok_or (module_input (''enabled module disappeared: '' @ me_name entry))
         (map_of (cat_modules c) (me_name entry))) (\<lambda>module.
       case me_stream entry of
         None \<Rightarrow> Inr ()
       | Some stream \<Rightarrow>
           if map_of (mod_streams module) stream = None
           then Inl (module_input (''enabled module stream disappeared: '' @ me_name entry @ '':'' @ stream))
           else Inr ())"

definition check_active_module :: "module_catalog \<Rightarrow> module_state \<Rightarrow> module \<Rightarrow> (planning_error, unit) result" where
  "check_active_module c state module =
     (case active_stream c state (mod_name module) of
        None \<Rightarrow> Inr ()
      | Some stream_name \<Rightarrow>
          bindR (ok_or (module_input ''active module stream is absent'')
              (map_of (mod_streams module) stream_name)) (\<lambda>stream.
          bindR (dependencies_satisfied c state (mst_dependencies stream)) (\<lambda>satisfied.
            if \<not> satisfied
            then Inl (module_input (''module dependencies are not satisfied: '' @ mod_name module @ '':'' @ stream_name))
            else Inr ())))"

definition validate_module_state :: "module_catalog \<Rightarrow> module_state \<Rightarrow> (planning_error, unit) result" where
  "validate_module_state c state =
     bindR (module_state_validate state) (\<lambda>_.
     bindR (forR (check_known_entry c) (ms_entries state)) (\<lambda>_.
     forR (check_active_module c state) (bt_values (cat_modules c))))"

section \<open>Artifacts\<close>

definition stream_policies ::
  "architecture \<Rightarrow> string option \<Rightarrow> string \<times> module_stream \<Rightarrow> (string, bool) btree_map
     \<Rightarrow> (planning_error, (string, bool) btree_map) result" where
  "stream_policies arch active = (\<lambda>(stream_name, stream).
     foldR (\<lambda>artifact policies.
       bindR (artifact_matches_architecture artifact arch) (\<lambda>matches.
         Inr (if matches then bt_insert artifact (active \<noteq> Some stream_name) policies else policies)))
       (mst_artifacts stream))"

definition artifact_policies ::
  "module_catalog \<Rightarrow> module_state \<Rightarrow> architecture \<Rightarrow> (planning_error, (string, bool) btree_map) result" where
  "artifact_policies c state arch =
     bindR (validate_module_state c state) (\<lambda>_.
       foldR (\<lambda>module. foldR (stream_policies arch (active_stream c state (mod_name module))) (mod_streams module))
         (bt_values (cat_modules c)) [])"

definition excluded_artifacts ::
  "module_catalog \<Rightarrow> module_state \<Rightarrow> architecture \<Rightarrow> (planning_error, string list) result" where
  "excluded_artifacts c state arch =
     bindR (artifact_policies c state arch) (\<lambda>policies.
       Inr (map fst (filter snd policies)))"

definition artifact_owner :: "module_catalog \<Rightarrow> string \<Rightarrow> (string \<times> string) option" where
  "artifact_owner c nevra = map_of (cat_artifact_owners c) nevra"

section \<open>Completing dependencies\<close>

definition select_requirement ::
  "module_catalog \<Rightarrow> module_entries \<Rightarrow> module_requirement \<Rightarrow> (planning_error, string) result" where
  "select_requirement c entries requirement =
     bindR (ok_or (module_input (''required module not found: '' @ mr_module requirement))
         (map_of (cat_modules c) (mr_module requirement))) (\<lambda>module.
       let allowed = sort_dedup (filter (\<lambda>stream. \<not> starts_with stream ''-'' \<and>
               map_of (mod_streams module) stream \<noteq> None) (mr_streams requirement)) in
       if allowed = [] \<or> list_ex (\<lambda>stream. starts_with stream ''-'') (mr_streams requirement)
       then Inl (module_input ''negative or empty module dependency streams are unsupported'')
       else case map_of entries (mr_module requirement) of
         Some entry \<Rightarrow>
           ok_or (module_input ''explicit module state conflicts with a dependency'')
             (case me_stream entry of
                None \<Rightarrow> None
              | Some stream \<Rightarrow> if \<not> me_disabled entry \<and> stream \<in> set allowed then Some stream else None)
       | None \<Rightarrow>
           (case (case mod_default_stream module of
                None \<Rightarrow> None | Some d \<Rightarrow> if d \<in> set allowed then Some d else None) of
              Some d \<Rightarrow> Inr d
            | None \<Rightarrow>
                if length allowed = 1 then Inr (hd allowed)
                else Inl (module_input ''module dependency stream is ambiguous'')))"

definition alternative_can_resolve :: "module_catalog \<Rightarrow> module_entries \<Rightarrow> module_dependencies \<Rightarrow> bool" where
  "alternative_can_resolve c entries alternative =
     list_all (\<lambda>requirement. \<not> isl (select_requirement c entries requirement)) (md_requires alternative)"

definition add_requirement ::
  "module_catalog \<Rightarrow> module_requirement \<Rightarrow> string list \<times> module_entries
     \<Rightarrow> (planning_error, string list \<times> module_entries) result" where
  "add_requirement c requirement = (\<lambda>(queue, entries).
     bindR (select_requirement c entries requirement) (\<lambda>selected.
     bindR (case map_of entries (mr_module requirement) of
         Some existing \<Rightarrow>
           if me_disabled existing \<or> me_stream existing \<noteq> Some selected
           then Inl (module_input (''module dependency conflicts with explicit state: '' @ mr_module requirement))
           else Inr entries
       | None \<Rightarrow>
           Inr (bt_insert (mr_module requirement)
             \<lparr>me_name = mr_module requirement, me_stream = Some selected, me_disabled = False\<rparr> entries))
       (\<lambda>entries'. Inr (queue @ [mr_module requirement], entries'))))"

text \<open>The body of the loop for a name that has not been visited: what it adds to the queue.\<close>

definition complete_visit ::
  "module_catalog \<Rightarrow> string \<Rightarrow> string list \<times> module_entries
     \<Rightarrow> (planning_error, string list \<times> module_entries) result" where
  "complete_visit c name = (\<lambda>(queue, entries).
     bindR (ok_or (module_input ''module disappeared'') (map_of (cat_modules c) name)) (\<lambda>module.
     bindR (bindR
         (case map_of entries name of
            Some entry \<Rightarrow>
              if me_disabled entry then Inl (module_input (''enabled module is disabled: '' @ name))
              else Inr (me_stream entry)
          | None \<Rightarrow> Inr (mod_default_stream module))
         (ok_or (module_input (''module has no active stream: '' @ name)))) (\<lambda>stream_name.
     bindR (ok_or (module_input ''module stream disappeared'') (map_of (mod_streams module) stream_name)) (\<lambda>stream.
     if mst_dependencies stream = [] then Inr (queue, entries)
     else
       bindR (ok_or (module_input (''module dependency conflict: '' @ name @ '':'' @ stream_name))
           (List.find (alternative_can_resolve c entries) (mst_dependencies stream))) (\<lambda>alternative.
       foldR (add_requirement c) (md_requires alternative) (queue, entries))))))"

lemma complete_visit_known: "complete_visit c name qe = Inr qe' \<Longrightarrow> map_of (cat_modules c) name \<noteq> None"
  by (auto simp: complete_visit_def bindR_eq_Inr ok_or_eq_Inr split: prod.splits)

function complete_loop ::
  "module_catalog \<Rightarrow> string list \<Rightarrow> string btree_set \<Rightarrow> module_entries \<Rightarrow> (planning_error, module_entries) result" where
  "complete_loop c [] visited entries = Inr entries"
| "complete_loop c (name # queue) visited entries =
     (if name \<in> set visited then complete_loop c queue visited entries
      else case complete_visit c name (queue, entries) of
        Inl e \<Rightarrow> Inl e
      | Inr (queue', entries') \<Rightarrow> complete_loop c queue' (bs_insert name visited) entries')"
  by pat_completeness auto
termination complete_loop
proof (relation "(\<lambda>(c, queue, visited, entries). card (fst ` set (cat_modules c) - set visited)) <*mlex*>
    measure (\<lambda>(c, queue, visited, entries). length queue)")
  fix c name queue visited entries x queue' entries'
  assume new: "name \<notin> set visited" and step: "complete_visit c name (queue, entries) = Inr x"
  have "name \<in> fst ` set (cat_modules c)"
    using complete_visit_known [OF step] by (simp add: map_of_eq_None_iff)
  then have "card (fst ` set (cat_modules c) - set (bs_insert name visited)) < card (fst ` set (cat_modules c) - set visited)"
    using new by (intro psubset_card_mono) auto
  then show "((c, queue', bs_insert name visited, entries'), (c, name # queue, visited, entries))
      \<in> (\<lambda>(c, queue, visited, entries). card (fst ` set (cat_modules c) - set visited)) <*mlex*>
        measure (\<lambda>(c, queue, visited, entries). length queue)"
    by (simp add: mlex_less)
qed (auto simp: mlex_prod_def wf_mlex)

definition complete_dependencies ::
  "module_catalog \<Rightarrow> module_entries \<Rightarrow> string btree_set \<Rightarrow> (planning_error, module_entries) result" where
  "complete_dependencies c entries roots = complete_loop c roots [] entries"

section \<open>Mutations\<close>

text \<open>\<^verbatim>\<open>str::split\<close> at a character\<close>

fun split_on :: "char \<Rightarrow> string \<Rightarrow> string list" where
  "split_on sep [] = [[]]"
| "split_on sep (c # cs) =
     (if c = sep then [] # split_on sep cs
      else case split_on sep cs of [] \<Rightarrow> [[c]] | part # parts \<Rightarrow> (c # part) # parts)"

definition parse_module_spec :: "string \<Rightarrow> (planning_error, string \<times> string option) result" where
  "parse_module_spec spec =
     (let parts = split_on (CHR '':'') spec;
          name = (case parts of [] \<Rightarrow> [] | p # _ \<Rightarrow> p);
          stream = (case parts of _ # s # _ \<Rightarrow> Some s | _ \<Rightarrow> None) in
      if 2 < length parts then Inl (module_input ''module spec must be NAME or NAME:STREAM'')
      else bindR (module_identifier name ''module spec name'') (\<lambda>_.
           bindR (case stream of None \<Rightarrow> Inr () | Some s \<Rightarrow> module_identifier s ''module spec stream'') (\<lambda>_.
             Inr (name, stream))))"

definition apply_module_spec ::
  "module_catalog \<Rightarrow> module_mutation \<Rightarrow> string \<Rightarrow> module_entries \<times> string btree_set
     \<Rightarrow> (planning_error, module_entries \<times> string btree_set) result" where
  "apply_module_spec c operation spec = (\<lambda>(entries, requested).
     bindR (parse_module_spec spec) (\<lambda>(name, requested_stream).
     if name \<in> set requested then Inl (module_input ''module mutation specifications are duplicate'')
     else
       bindR (ok_or (module_input (''module not found: '' @ name)) (map_of (cat_modules c) name)) (\<lambda>module.
       bindR (case requested_stream of
           None \<Rightarrow> Inr ()
         | Some stream \<Rightarrow>
             if map_of (mod_streams module) stream = None
             then Inl (module_input (''module stream not found: '' @ name @ '':'' @ stream)) else Inr ()) (\<lambda>_.
       bindR (case operation of
           ModuleEnable \<Rightarrow>
             bindR (ok_or (module_input (''module stream must be specified: '' @ name @ '':STREAM''))
                 (case requested_stream of Some stream \<Rightarrow> Some stream | None \<Rightarrow> mod_default_stream module)) (\<lambda>stream.
               Inr (bt_insert name \<lparr>me_name = name, me_stream = Some stream, me_disabled = False\<rparr> entries))
         | ModuleReset \<Rightarrow> Inr (bt_remove name entries)
         | ModuleDisable \<Rightarrow> Inr (bt_insert name \<lparr>me_name = name, me_stream = None, me_disabled = True\<rparr> entries))
         (\<lambda>entries'. Inr (entries', bs_insert name requested))))))"

definition module_mutate ::
  "module_catalog \<Rightarrow> module_state \<Rightarrow> module_mutation \<Rightarrow> string list \<Rightarrow> (planning_error, module_state) result" where
  "module_mutate c current operation specs =
     bindR (module_state_validate current) (\<lambda>_.
     if specs = [] then Inl (module_input ''module mutation requires at least one specification'')
     else
       bindR (foldR (apply_module_spec c operation) specs (module_state_map current, [])) (\<lambda>(entries, requested).
       bindR (if operation = ModuleEnable then complete_dependencies c entries requested else Inr entries) (\<lambda>entries'.
       let state = \<lparr>ms_entries = bt_values entries'\<rparr> in
       bindR (validate_module_state c state) (\<lambda>_. Inr state))))"

section \<open>Completion ends\<close>

text \<open>The loop with a bound on its iterations; no value when the bound is reached.\<close>

fun complete_fuel ::
  "nat \<Rightarrow> module_catalog \<Rightarrow> string list \<Rightarrow> string btree_set \<Rightarrow> module_entries
     \<Rightarrow> (planning_error, module_entries) result option" where
  "complete_fuel n c [] visited entries = Some (Inr entries)"
| "complete_fuel 0 c (name # queue) visited entries = None"
| "complete_fuel (Suc n) c (name # queue) visited entries =
     (if name \<in> set visited then complete_fuel n c queue visited entries
      else case complete_visit c name (queue, entries) of
        Inl e \<Rightarrow> Some (Inl e)
      | Inr (queue', entries') \<Rightarrow> complete_fuel n c queue' (bs_insert name visited) entries')"

text \<open>How often the modules not yet visited can extend the queue.\<close>

definition module_requirements :: "module \<Rightarrow> nat" where
  "module_requirements M =
     sum_list (map (\<lambda>(s, st). sum_list (map (\<lambda>a. length (md_requires a)) (mst_dependencies st))) (mod_streams M))"

definition pending_requirements :: "module_catalog \<Rightarrow> string btree_set \<Rightarrow> nat" where
  "pending_requirements c visited =
     sum_list (map (\<lambda>(n, M). if n \<in> set visited then 0 else module_requirements M) (cat_modules c))"

lemma add_requirements_queue:
  "foldR (add_requirement c) rs (queue, entries) = Inr (queue', entries') \<Longrightarrow> queue' = queue @ map mr_module rs"
proof (induction rs arbitrary: queue entries)
  case (Cons r rs)
  obtain q1 e1 where one: "add_requirement c r (queue, entries) = Inr (q1, e1)"
    and rest: "foldR (add_requirement c) rs (q1, e1) = Inr (queue', entries')"
    using Cons.prems by (auto simp: bindR_eq_Inr)
  have "q1 = queue @ [mr_module r]"
    using one by (auto simp: add_requirement_def bindR_eq_Inr split: option.splits if_splits)
  then show ?case using Cons.IH [OF rest] by simp
qed simp

lemma complete_visit_Inr:
  assumes "complete_visit c name (queue, entries) = Inr (queue', entries')"
  obtains M s st where "map_of (cat_modules c) name = Some M"
    "(case map_of entries name of Some e \<Rightarrow> \<not> me_disabled e \<and> me_stream e = Some s | None \<Rightarrow> mod_default_stream M = Some s)"
    "map_of (mod_streams M) s = Some st"
    "mst_dependencies st = [] \<and> queue' = queue \<and> entries' = entries \<or>
     (\<exists>a\<in>set (mst_dependencies st). foldR (add_requirement c) (md_requires a) (queue, entries) = Inr (queue', entries'))"
proof -
  obtain M where M: "map_of (cat_modules c) name = Some M"
    using complete_visit_known [OF assms] by auto
  obtain s where s: "case map_of entries name of Some e \<Rightarrow> \<not> me_disabled e \<and> me_stream e = Some s
      | None \<Rightarrow> mod_default_stream M = Some s"
    and chosen: "bindR (case map_of entries name of
            Some entry \<Rightarrow>
              if me_disabled entry then Inl (module_input (''enabled module is disabled: '' @ name))
              else Inr (me_stream entry)
          | None \<Rightarrow> Inr (mod_default_stream M))
         (ok_or (module_input (''module has no active stream: '' @ name))) = Inr s"
    using assms M by (auto simp: complete_visit_def bindR_eq_Inr ok_or_eq_Inr split: option.splits if_splits)
  obtain st where st: "map_of (mod_streams M) s = Some st"
    using assms M chosen by (auto simp: complete_visit_def bindR_eq_Inr ok_or_eq_Inr)
  have "mst_dependencies st = [] \<and> queue' = queue \<and> entries' = entries \<or>
     (\<exists>a\<in>set (mst_dependencies st). foldR (add_requirement c) (md_requires a) (queue, entries) = Inr (queue', entries'))"
    using assms M chosen st
    by (auto simp: complete_visit_def bindR_eq_Inr ok_or_eq_Inr find_Some_iff split: if_splits)
  then show thesis using that [OF M s st] by blast
qed

lemma sum_list_member_le: "x \<in> set xs \<Longrightarrow> f x \<le> sum_list (map f xs)" for f :: "'a \<Rightarrow> nat"
  by (simp add: member_le_sum_list)

lemma weight_removed:
  fixes w :: "'b \<Rightarrow> nat"
  assumes "(n, M) \<in> set xs" "n \<notin> V"
  shows "w M + sum_list (map (\<lambda>(k, M). if k = n \<or> k \<in> V then 0 else w M) xs)
    \<le> sum_list (map (\<lambda>(k, M). if k \<in> V then 0 else w M) xs)"
proof -
  have mono: "sum_list (map (\<lambda>(k, M). if k = n \<or> k \<in> V then 0 else w M) ys)
    \<le> sum_list (map (\<lambda>(k, M). if k \<in> V then 0 else w M) ys)" for ys
    by (rule sum_list_mono) auto
  obtain ys zs where "xs = ys @ (n, M) # zs" using assms(1) by (meson split_list)
  then show ?thesis using assms(2) mono [of ys] mono [of zs] by simp
qed

lemma complete_visit_queue:
  assumes step: "complete_visit c name (queue, entries) = Inr (queue', entries')" and new: "name \<notin> set visited"
  shows "length queue' + pending_requirements c (bs_insert name visited) \<le> length queue + pending_requirements c visited"
proof -
  obtain M s st where M: "map_of (cat_modules c) name = Some M" "map_of (mod_streams M) s = Some st"
    and or: "mst_dependencies st = [] \<and> queue' = queue \<and> entries' = entries \<or>
     (\<exists>a\<in>set (mst_dependencies st). foldR (add_requirement c) (md_requires a) (queue, entries) = Inr (queue', entries'))"
    by (rule complete_visit_Inr [OF step])
  have "length queue' \<le> length queue + module_requirements M"
    using or
  proof
    assume "\<exists>a\<in>set (mst_dependencies st). foldR (add_requirement c) (md_requires a) (queue, entries) = Inr (queue', entries')"
    then obtain a where a: "a \<in> set (mst_dependencies st)" and q: "queue' = queue @ map mr_module (md_requires a)"
      using add_requirements_queue by blast
    have "length (md_requires a) \<le> sum_list (map (\<lambda>a. length (md_requires a)) (mst_dependencies st))"
      by (rule sum_list_member_le [OF a])
    also have "\<dots> \<le> module_requirements M"
      unfolding module_requirements_def
      using sum_list_member_le [OF map_of_SomeD [OF M(2)],
          of "\<lambda>(s, st). sum_list (map (\<lambda>a. length (md_requires a)) (mst_dependencies st))"] by simp
    finally show ?thesis by (simp add: q)
  qed simp
  moreover have "module_requirements M + pending_requirements c (bs_insert name visited) \<le> pending_requirements c visited"
    using weight_removed [OF map_of_SomeD [OF M(1)] new, of module_requirements]
    by (simp add: pending_requirements_def)
  ultimately show ?thesis by simp
qed

lemma complete_fuel_enough:
  "length queue + pending_requirements c visited \<le> n \<Longrightarrow>
   complete_fuel n c queue visited entries = Some (complete_loop c queue visited entries)"
proof (induction n c queue visited entries rule: complete_fuel.induct)
  case (3 n c name queue visited entries)
  show ?case
  proof (cases "name \<in> set visited")
    case True
    then show ?thesis using 3 by simp
  next
    case False
    show ?thesis
    proof (cases "complete_visit c name (queue, entries)")
      case (Inl e)
      then show ?thesis using False by simp
    next
      case (Inr x)
      obtain q e where x: "x = (q, e)" by (cases x)
      then show ?thesis
        using False Inr 3 complete_visit_queue [of c name queue entries q e visited] by simp
    qed
  qed
qed simp_all

text \<open>
  Property C35. Completing dependencies always ends, whatever cycles the requirements of the
  modules have: the loop runs at most once per requested module and once per requirement in the
  catalog.
\<close>

theorem complete_dependencies_terminates:
  "complete_fuel (length roots + pending_requirements c []) c roots [] entries =
     Some (complete_dependencies c entries roots)"
  by (simp add: complete_dependencies_def complete_fuel_enough)

section \<open>Artifact policies\<close>

lemma stream_policies_Inr:
  "bt_ok p \<Longrightarrow> stream_policies arch active (s, st) p = Inr p' \<Longrightarrow>
   bt_ok p' \<and> (\<forall>a. map_of p' a =
     (if a \<in> set (mst_artifacts st) \<and> artifact_matches_architecture a arch = Inr True
      then Some (active \<noteq> Some s) else map_of p a)) \<and>
   (\<forall>a\<in>set (mst_artifacts st). \<exists>b. artifact_matches_architecture a arch = Inr b)"
proof -
  have "bt_ok p \<Longrightarrow> foldR (\<lambda>artifact policies.
       bindR (artifact_matches_architecture artifact arch) (\<lambda>matches.
         Inr (if matches then bt_insert artifact (active \<noteq> Some s) policies else policies))) as p = Inr p' \<Longrightarrow>
     bt_ok p' \<and> (\<forall>a. map_of p' a =
       (if a \<in> set as \<and> artifact_matches_architecture a arch = Inr True
        then Some (active \<noteq> Some s) else map_of p a)) \<and>
     (\<forall>a\<in>set as. \<exists>b. artifact_matches_architecture a arch = Inr b)" for as
  proof (induction as arbitrary: p)
    case (Cons x as)
    obtain m where m: "artifact_matches_architecture x arch = Inr m"
      and rest: "foldR (\<lambda>artifact policies.
       bindR (artifact_matches_architecture artifact arch) (\<lambda>matches.
         Inr (if matches then bt_insert artifact (active \<noteq> Some s) policies else policies))) as
        (if m then bt_insert x (active \<noteq> Some s) p else p) = Inr p'"
      using Cons.prems(2) by (auto simp: bindR_eq_Inr)
    have "bt_ok (if m then bt_insert x (active \<noteq> Some s) p else p)"
      using Cons.prems(1) by (simp add: bt_ok_insert)
    from Cons.IH [OF this rest] show ?case
      using m Cons.prems(1) by (auto simp: bt_insert_map_of)
  qed simp
  then show "bt_ok p \<Longrightarrow> stream_policies arch active (s, st) p = Inr p' \<Longrightarrow> ?thesis"
    by (simp add: stream_policies_def)
qed

lemma foldR_nested:
  "foldR (\<lambda>m. foldR (g m) (h m)) xs = foldR (\<lambda>(m, y). g m y) (concat (map (\<lambda>m. map (Pair m) (h m)) xs))"
proof (induction xs)
  case (Cons m xs)
  have "foldR (\<lambda>(m, y). g m y) (map (Pair m) ys) = foldR (g m) ys" for ys
    by (induction ys) (rule ext, simp)+
  then show ?case by (simp add: fun_eq_iff foldR_append Cons.IH)
qed (simp add: fun_eq_iff)

text \<open>What a list of streams, each with the active stream of its module, says of an artifact.\<close>

definition policy_source ::
  "architecture \<Rightarrow> (module \<Rightarrow> string option) \<Rightarrow> (module \<times> string \<times> module_stream) list \<Rightarrow> string \<Rightarrow> bool \<Rightarrow> bool" where
  "policy_source arch act ys a b \<longleftrightarrow> (\<exists>y\<in>set ys. a \<in> set (mst_artifacts (snd (snd y))) \<and>
     artifact_matches_architecture a arch = Inr True \<and> b = (act (fst y) \<noteq> Some (fst (snd y))))"

lemma policy_source_Cons:
  "policy_source arch act ((M, s, st) # ys) a b \<longleftrightarrow>
     a \<in> set (mst_artifacts st) \<and> artifact_matches_architecture a arch = Inr True \<and> b = (act M \<noteq> Some s) \<or>
     policy_source arch act ys a b"
  by (simp add: policy_source_def)

lemma policies_fold:
  "bt_ok p \<Longrightarrow> foldR (\<lambda>(M, y). stream_policies arch (act M) y) ys p = Inr p' \<Longrightarrow>
   bt_ok p' \<and> (\<forall>a b. map_of p' a = Some b \<longrightarrow> map_of p a = Some b \<or> policy_source arch act ys a b) \<and>
   (\<forall>a. map_of p a \<noteq> None \<or> (\<exists>b. policy_source arch act ys a b) \<longrightarrow> map_of p' a \<noteq> None)"
proof (induction ys arbitrary: p)
  case (Cons y ys)
  obtain M s st where y: "y = (M, s, st)" by (cases y)
  obtain p1 where one: "stream_policies arch (act M) (s, st) p = Inr p1"
    and rest: "foldR (\<lambda>(M, y). stream_policies arch (act M) y) ys p1 = Inr p'"
    using Cons.prems(2) by (auto simp: y bindR_eq_Inr)
  note p1 = stream_policies_Inr [OF Cons.prems(1) one]
  have at: "map_of p1 a = (if a \<in> set (mst_artifacts st) \<and> artifact_matches_architecture a arch = Inr True
      then Some (act M \<noteq> Some s) else map_of p a)" for a
    using p1 by simp
  have ok: "bt_ok p1" using p1 by simp
  note IH = Cons.IH [OF ok rest]
  have "map_of p a = Some b \<or> policy_source arch act (y # ys) a b" if "map_of p' a = Some b" for a b
  proof -
    have "map_of p1 a = Some b \<or> policy_source arch act ys a b" using IH that by simp
    then show ?thesis unfolding y policy_source_Cons at by (auto split: if_splits)
  qed
  moreover have "map_of p' a \<noteq> None" if "map_of p a \<noteq> None \<or> (\<exists>b. policy_source arch act (y # ys) a b)" for a
  proof -
    have "map_of p1 a \<noteq> None \<or> (\<exists>b. policy_source arch act ys a b)"
      using that unfolding y policy_source_Cons at by auto
    then show ?thesis using IH by metis
  qed
  ultimately show ?case using IH by blast
qed (auto simp: policy_source_def)

lemma catalog_values:
  assumes c: "catalog_ok c"
  shows "M \<in> set (bt_values (cat_modules c)) \<longleftrightarrow> map_of (cat_modules c) (mod_name M) = Some M"
proof
  assume "M \<in> set (bt_values (cat_modules c))"
  then obtain n where "(n, M) \<in> set (cat_modules c)" by (auto simp: bt_values_def)
  then have "map_of (cat_modules c) n = Some M" using c bt_set [of "cat_modules c" n M] by (simp add: catalog_ok_def)
  then show "map_of (cat_modules c) (mod_name M) = Some M" using c by (simp add: catalog_ok_def)
next
  assume "map_of (cat_modules c) (mod_name M) = Some M"
  then show "M \<in> set (bt_values (cat_modules c))"
    using map_of_SomeD [of "cat_modules c" "mod_name M" M] by (force simp: bt_values_def)
qed

lemma catalog_policy_source:
  assumes c: "catalog_ok c"
  shows "policy_source arch (\<lambda>M. active_stream c state (mod_name M))
      (concat (map (\<lambda>M. map (Pair M) (mod_streams M)) (bt_values (cat_modules c)))) a b \<longleftrightarrow>
    (\<exists>n s. artifact_owner c a = Some (n, s) \<and> artifact_matches_architecture a arch = Inr True \<and>
       b = (active_stream c state n \<noteq> Some s))"
proof -
  note mods = catalog_values [OF c]
  have "policy_source arch (\<lambda>M. active_stream c state (mod_name M))
      (concat (map (\<lambda>M. map (Pair M) (mod_streams M)) (bt_values (cat_modules c)))) a b \<longleftrightarrow>
    (\<exists>M s st. map_of (cat_modules c) (mod_name M) = Some M \<and> (s, st) \<in> set (mod_streams M) \<and>
       a \<in> set (mst_artifacts st) \<and> artifact_matches_architecture a arch = Inr True \<and>
       b = (active_stream c state (mod_name M) \<noteq> Some s))"
    by (auto simp: policy_source_def mods [symmetric]) force+
  also have "\<dots> \<longleftrightarrow> (\<exists>n s. owned c a n s \<and> artifact_matches_architecture a arch = Inr True \<and>
       b = (active_stream c state n \<noteq> Some s))" (is "?l \<longleftrightarrow> ?r")
  proof
    assume ?l
    then obtain M s st where M: "map_of (cat_modules c) (mod_name M) = Some M" "(s, st) \<in> set (mod_streams M)"
      "a \<in> set (mst_artifacts st)" "artifact_matches_architecture a arch = Inr True"
      "b = (active_stream c state (mod_name M) \<noteq> Some s)"
      by (elim exE conjE)
    have "bt_ok (mod_streams M)" using c M(1) by (simp add: catalog_ok_def module_ok_def)
    then have "map_of (mod_streams M) s = Some st" using M(2) bt_set [of "mod_streams M" s st] by simp
    then have "owned c a (mod_name M) s"
      unfolding owned_def using M(1,3) by (intro exI [of _ M] exI [of _ st] conjI)
    then show ?r using M(4,5) by (intro exI [of _ "mod_name M"] exI [of _ s] conjI)
  next
    assume ?r
    then obtain n s where ns: "owned c a n s" "artifact_matches_architecture a arch = Inr True"
      "b = (active_stream c state n \<noteq> Some s)"
      by (elim exE conjE)
    then obtain M st where M: "map_of (cat_modules c) n = Some M" "map_of (mod_streams M) s = Some st"
      "a \<in> set (mst_artifacts st)"
      unfolding owned_def by (elim exE conjE)
    have "mod_name M = n" using c M(1) by (simp add: catalog_ok_def)
    then show ?l
      using M ns(2,3) map_of_SomeD [OF M(2)] by (intro exI [of _ M] exI [of _ s] exI [of _ st] conjI) simp_all
  qed
  finally show ?thesis using c by (simp add: catalog_ok_def artifact_owner_def)
qed

lemma artifact_policies_Inr:
  assumes c: "catalog_ok c" and run: "artifact_policies c state arch = Inr p"
  shows "bt_ok p" "map_of p a = Some b \<longleftrightarrow>
    (\<exists>n s. artifact_owner c a = Some (n, s) \<and> artifact_matches_architecture a arch = Inr True \<and>
       b = (active_stream c state n \<noteq> Some s))"
proof -
  define act :: "module \<Rightarrow> string option" where "act = (\<lambda>M. active_stream c state (mod_name M))"
  define ys where "ys = concat (map (\<lambda>M. map (Pair M) (mod_streams M)) (bt_values (cat_modules c)))"
  have fold: "foldR (\<lambda>(M, y). stream_policies arch (act M) y) ys [] = Inr p"
    using run by (auto simp: artifact_policies_def bindR_eq_Inr ys_def act_def foldR_nested [symmetric])
  note f = policies_fold [OF bt_ok_Nil fold]
  show "bt_ok p" using f by blast
  have src: "policy_source arch act ys a b \<longleftrightarrow>
    (\<exists>n s. artifact_owner c a = Some (n, s) \<and> artifact_matches_architecture a arch = Inr True \<and>
       b = (active_stream c state n \<noteq> Some s))" for b
    using catalog_policy_source [OF c] unfolding act_def ys_def by blast
  have only: "map_of p a = Some x \<Longrightarrow> policy_source arch act ys a x"
    and all: "policy_source arch act ys a x \<Longrightarrow> map_of p a \<noteq> None" for x
    using f by auto
  have unique: "policy_source arch act ys a x \<Longrightarrow> policy_source arch act ys a y \<Longrightarrow> x = y" for x y
    unfolding src by auto
  have "map_of p a = Some b \<longleftrightarrow> policy_source arch act ys a b"
  proof
    assume b: "policy_source arch act ys a b"
    then obtain x where x: "map_of p a = Some x" using all [OF b] by auto
    then show "map_of p a = Some b" using unique [OF b only [OF x]] by simp
  qed (rule only)
  then show "map_of p a = Some b \<longleftrightarrow>
    (\<exists>n s. artifact_owner c a = Some (n, s) \<and> artifact_matches_architecture a arch = Inr True \<and>
       b = (active_stream c state n \<noteq> Some s))"
    by (simp only: src)
qed

text \<open>
  Property C34. \<^verbatim>\<open>excluded_artifacts\<close> lists, in order and once each, exactly the artifacts of the
  architecture whose owning stream is not the active stream of its module under the given state,
  which has passed \<^verbatim>\<open>validate_state\<close>: no package of an active stream is hidden and every package of
  an inactive one is.
\<close>

theorem excluded_artifacts_exact:
  assumes c: "catalog_from_raw raws arch0 = Inr c" and run: "excluded_artifacts c state arch = Inr es"
  shows "validate_module_state c state = Inr () \<and> sorted_wrt (<) es \<and>
    (\<forall>a. a \<in> set es \<longleftrightarrow> artifact_matches_architecture a arch = Inr True \<and>
       (\<exists>n s. artifact_owner c a = Some (n, s) \<and> active_stream c state n \<noteq> Some s))"
proof -
  obtain p where p: "artifact_policies c state arch = Inr p" and es: "es = map fst (filter snd p)"
    using run by (auto simp: excluded_artifacts_def bindR_eq_Inr)
  note pol = artifact_policies_Inr [OF catalog_from_raw_ok [OF c] p]
  have "validate_module_state c state = Inr ()"
    using p by (auto simp: artifact_policies_def bindR_eq_Inr)
  moreover have "sorted_wrt (<) es"
    using bt_ok_filter [OF pol(1)] by (simp add: es bt_ok_def bt_keys_def)
  moreover have "a \<in> set es \<longleftrightarrow> map_of p a = Some True" for a
    using bt_set [OF pol(1), of a True] by (force simp: es)
  ultimately show ?thesis by (auto simp: pol(2))
qed

theorem excluded_artifacts_exact_witness:
  "\<exists>c. catalog_from_raw demo_modules X86_64 = Inr c \<and>
     validate_module_state c \<lparr>ms_entries = []\<rparr> = Inr () \<and>
     excluded_artifacts c \<lparr>ms_entries = []\<rparr> X86_64 = Inr [''demo-0:2-1.x86_64'']"
proof -
  have run: "bindR (catalog_from_raw demo_modules X86_64) (\<lambda>c. excluded_artifacts c \<lparr>ms_entries = []\<rparr> X86_64) =
      Inr [''demo-0:2-1.x86_64'']"
    by code_simp
  then obtain c where c: "catalog_from_raw demo_modules X86_64 = Inr c"
    "excluded_artifacts c \<lparr>ms_entries = []\<rparr> X86_64 = Inr [''demo-0:2-1.x86_64'']"
    by (auto simp: bindR_eq_Inr)
  show ?thesis
    using excluded_artifacts_exact [OF c] c by (intro exI [of _ c] conjI) simp_all
qed

section \<open>What a mutation does\<close>

definition state_lookup :: "module_state \<Rightarrow> string \<Rightarrow> module_state_entry option" where
  "state_lookup state n = List.find (\<lambda>e. me_name e = n) (ms_entries state)"

definition keyed :: "module_entries \<Rightarrow> bool" where
  "keyed entries \<longleftrightarrow> bt_ok entries \<and> (\<forall>n e. map_of entries n = Some e \<longrightarrow> me_name e = n)"

abbreviation enabled_entry :: "string \<Rightarrow> string \<Rightarrow> module_state_entry" where
  "enabled_entry n s \<equiv> \<lparr>me_name = n, me_stream = Some s, me_disabled = False\<rparr>"

abbreviation disabled_entry :: "string \<Rightarrow> module_state_entry" where
  "disabled_entry n \<equiv> \<lparr>me_name = n, me_stream = None, me_disabled = True\<rparr>"

text \<open>What the specification \<open>(n, rs)\<close> asks for.\<close>

fun spec_entry :: "module_catalog \<Rightarrow> module_mutation \<Rightarrow> string \<Rightarrow> string option \<Rightarrow> module_state_entry option" where
  "spec_entry c ModuleReset n rs = None"
| "spec_entry c ModuleDisable n rs = Some (disabled_entry n)"
| "spec_entry c ModuleEnable n rs = map_option (enabled_entry n)
     (case rs of Some s \<Rightarrow> Some s | None \<Rightarrow> Option.bind (map_of (cat_modules c) n) mod_default_stream)"

lemma find_map_of: "List.find (\<lambda>e. key e = n) es = map_of (map (\<lambda>e. (key e, e)) es) n"
  by (induction es) auto

lemma map_of_rev_distinct: "distinct (map fst xs) \<Longrightarrow> map_of (rev xs) k = map_of xs k"
proof -
  assume d: "distinct (map fst xs)"
  then have "distinct (map fst (rev xs))" by (simp add: rev_map [symmetric])
  then have "map_of (rev xs) k = Some v \<longleftrightarrow> map_of xs k = Some v" for v
    using d by (simp add: map_of_eq_Some_iff)
  then show ?thesis by (metis not_Some_eq)
qed

lemma module_state_map_lookup:
  assumes "module_state_validate state = Inr ()"
  shows "keyed (module_state_map state)" "map_of (module_state_map state) n = state_lookup state n"
proof -
  have "sorted_wrt (<) (map me_name (ms_entries state))"
    using assms by (simp add: module_state_validate_def split: if_splits)
  then have d: "distinct (map me_name (ms_entries state))" by (simp add: strict_sorted_iff)
  show at: "map_of (module_state_map state) n = state_lookup state n" for n
    using d by (simp add: module_state_map_def map_of_rev_distinct comp_def state_lookup_def find_map_of)
  show "keyed (module_state_map state)"
    unfolding keyed_def at by (auto simp: module_state_map_def state_lookup_def find_Some_iff)
qed

lemma state_lookup_values:
  assumes "keyed entries"
  shows "state_lookup \<lparr>ms_entries = bt_values entries\<rparr> n = map_of entries n"
proof -
  have "\<forall>x\<in>set entries. me_name (snd x) = fst x"
    using assms bt_set [of entries] by (auto simp: keyed_def)
  then have "map (\<lambda>e. (me_name e, e)) (bt_values entries) = entries"
    by (simp add: bt_values_def map_idI)
  then show ?thesis by (simp add: state_lookup_def find_map_of)
qed

lemma keyed_insert: "keyed entries \<Longrightarrow> me_name e = n \<Longrightarrow> keyed (bt_insert n e entries)"
  by (auto simp: keyed_def bt_ok_insert bt_insert_map_of split: if_splits)

lemma keyed_remove: "keyed entries \<Longrightarrow> keyed (bt_remove n entries)"
  by (auto simp: keyed_def bt_ok_remove bt_remove_map_of split: if_splits)

lemma apply_module_spec_Inr:
  assumes "apply_module_spec c op spec (entries, requested) = Inr (entries', requested')" "keyed entries"
  obtains n rs where "parse_module_spec spec = Inr (n, rs)" "n \<notin> set requested"
    "requested' = bs_insert n requested" "keyed entries'" "map_of (cat_modules c) n \<noteq> None"
    "\<And>k. map_of entries' k = (if k = n then spec_entry c op n rs else map_of entries k)"
    "op = ModuleEnable \<longrightarrow> spec_entry c op n rs \<noteq> None"
proof -
  obtain n rs where p: "parse_module_spec spec = Inr (n, rs)"
    using assms(1) by (auto simp: apply_module_spec_def bindR_eq_Inr)
  have ok: "bt_ok entries" using assms(2) by (simp add: keyed_def)
  have new: "n \<notin> set requested" and req: "requested' = bs_insert n requested"
    using assms(1) p by (auto simp: apply_module_spec_def bindR_eq_Inr split: if_splits)
  obtain M where M: "map_of (cat_modules c) n = Some M"
    using assms(1) p new by (auto simp: apply_module_spec_def bindR_eq_Inr ok_or_eq_Inr)
  have "op = ModuleEnable \<and> (\<exists>s. (case rs of Some s \<Rightarrow> Some s | None \<Rightarrow> mod_default_stream M) = Some s \<and>
        entries' = bt_insert n (enabled_entry n s) entries) \<or>
      op = ModuleReset \<and> entries' = bt_remove n entries \<or>
      op = ModuleDisable \<and> entries' = bt_insert n (disabled_entry n) entries"
    using assms(1) p new M
    by (cases op) (auto simp: apply_module_spec_def bindR_eq_Inr ok_or_eq_Inr split: if_splits)
  then have "keyed entries' \<and> (\<forall>k. map_of entries' k = (if k = n then spec_entry c op n rs else map_of entries k)) \<and>
      (op = ModuleEnable \<longrightarrow> spec_entry c op n rs \<noteq> None)"
    using assms(2) M
    by (auto simp: keyed_insert keyed_remove bt_insert_map_of [OF ok] bt_remove_map_of split: option.splits)
  then show thesis using that [OF p new req] M by simp
qed

lemma apply_module_specs:
  "foldR (apply_module_spec c op) specs (entries, requested) = Inr (entries', requested') \<Longrightarrow> keyed entries \<Longrightarrow>
   \<exists>reqs. mapR parse_module_spec specs = Inr reqs \<and> distinct (map fst reqs) \<and>
     fst ` set reqs \<inter> set requested = {} \<and> set requested' = fst ` set reqs \<union> set requested \<and>
     fst ` set reqs \<subseteq> dom (map_of (cat_modules c)) \<and> keyed entries' \<and>
     (\<forall>k. map_of entries' k =
        (case map_of reqs k of None \<Rightarrow> map_of entries k | Some rs \<Rightarrow> spec_entry c op k rs)) \<and>
     (op = ModuleEnable \<longrightarrow> (\<forall>r\<in>set reqs. spec_entry c op (fst r) (snd r) \<noteq> None))"
proof (induction specs arbitrary: entries requested)
  case (Cons spec specs)
  obtain e1 q1 where one: "apply_module_spec c op spec (entries, requested) = Inr (e1, q1)"
    and rest: "foldR (apply_module_spec c op) specs (e1, q1) = Inr (entries', requested')"
    using Cons.prems(1) by (auto simp: bindR_eq_Inr)
  obtain n rs where p: "parse_module_spec spec = Inr (n, rs)" "n \<notin> set requested" "q1 = bs_insert n requested"
    "keyed e1" "map_of (cat_modules c) n \<noteq> None"
    and at: "\<And>k. map_of e1 k = (if k = n then spec_entry c op n rs else map_of entries k)"
    and some: "op = ModuleEnable \<longrightarrow> spec_entry c op n rs \<noteq> None"
    by (rule apply_module_spec_Inr [OF one Cons.prems(2)]) blast
  obtain reqs where r: "mapR parse_module_spec specs = Inr reqs" "distinct (map fst reqs)"
    "fst ` set reqs \<inter> set q1 = {}" "set requested' = fst ` set reqs \<union> set q1"
    "fst ` set reqs \<subseteq> dom (map_of (cat_modules c))" "keyed entries'"
    and k: "\<forall>k. map_of entries' k = (case map_of reqs k of None \<Rightarrow> map_of e1 k | Some rs \<Rightarrow> spec_entry c op k rs)"
    and somes: "op = ModuleEnable \<longrightarrow> (\<forall>r\<in>set reqs. spec_entry c op (fst r) (snd r) \<noteq> None)"
    using Cons.IH [OF rest p(4)] by (elim exE conjE)
  have new: "map_of reqs n = None" using r(3) p(3) by (auto simp: map_of_eq_None_iff)
  have "map_of entries' j = (case map_of ((n, rs) # reqs) j of None \<Rightarrow> map_of entries j | Some rs \<Rightarrow> spec_entry c op j rs)" for j
    using k at new by (auto split: option.splits)
  moreover have "n \<notin> fst ` set reqs" using r(3) p(3) by auto
  ultimately show ?case
    using p r some somes by (intro exI [of _ "(n, rs) # reqs"]) (auto simp del: spec_entry.simps)
qed simp

text \<open>
  A module is pulled in when it was requested, or when a stream enabled in \<open>f\<close> of a module that is
  itself pulled in requires it, in one of its alternatives, with the stream enabled for it.
\<close>

inductive pulled :: "module_catalog \<Rightarrow> (string \<Rightarrow> module_state_entry option) \<Rightarrow> string set \<Rightarrow> string \<Rightarrow> bool"
  for c f roots where
  requested: "n \<in> roots \<Longrightarrow> pulled c f roots n"
| required: "pulled c f roots m \<Longrightarrow> map_of (cat_modules c) m = Some M \<Longrightarrow> f m = Some (enabled_entry m s) \<Longrightarrow>
    map_of (mod_streams M) s = Some st \<Longrightarrow> a \<in> set (mst_dependencies st) \<Longrightarrow> r \<in> set (md_requires a) \<Longrightarrow>
    f (mr_module r) = Some (enabled_entry (mr_module r) t) \<Longrightarrow> t \<in> set (mr_streams r) \<Longrightarrow>
    pulled c f roots (mr_module r)"

lemma pulled_mono:
  assumes "pulled c f roots n" "f \<subseteq>\<^sub>m g"
  shows "pulled c g roots n"
  using assms(1)
proof (induction rule: pulled.induct)
  case (required m M s st a r t)
  have "g m = Some (enabled_entry m s)" "g (mr_module r) = Some (enabled_entry (mr_module r) t)"
    using required.hyps(3,7) assms(2) by (auto simp: map_le_def dom_def)
  then show ?case
    using pulled.required [OF required.IH required.hyps(2) _ required.hyps(4-6)] required.hyps(8) by blast
qed (rule pulled.requested)

lemma select_requirement_Inr:
  assumes "select_requirement c entries r = Inr s"
  shows "s \<in> set (mr_streams r)"
    and "map_of entries (mr_module r) = Some e \<Longrightarrow> me_stream e = Some s \<and> \<not> me_disabled e"
    and "map_of (cat_modules c) (mr_module r) \<noteq> None"
proof -
  obtain M where M: "map_of (cat_modules c) (mr_module r) = Some M"
    using assms by (auto simp: select_requirement_def bindR_eq_Inr ok_or_eq_Inr)
  define allowed where "allowed = sort_dedup (filter (\<lambda>stream. \<not> starts_with stream ''-'' \<and>
      map_of (mod_streams M) stream \<noteq> None) (mr_streams r))"
  have sub: "set allowed \<subseteq> set (mr_streams r)" by (auto simp: allowed_def)
  have ne: "allowed \<noteq> []"
    and sel: "case map_of entries (mr_module r) of
         Some e \<Rightarrow> me_stream e = Some s \<and> \<not> me_disabled e \<and> s \<in> set allowed
       | None \<Rightarrow> s \<in> set allowed"
    using assms unfolding select_requirement_def M ok_or_simps bindR_Inr Let_def allowed_def [symmetric]
    by (auto simp: ok_or_eq_Inr length_Suc_conv split: option.splits if_splits)
  show "s \<in> set (mr_streams r)" using sel sub by (auto split: option.splits)
  show "map_of entries (mr_module r) = Some e \<Longrightarrow> me_stream e = Some s \<and> \<not> me_disabled e"
    using sel by simp
  show "map_of (cat_modules c) (mr_module r) \<noteq> None" by (simp add: M)
qed

lemma add_requirement_Inr:
  assumes step: "add_requirement c r (queue, entries) = Inr (queue', entries')" and k: "keyed entries"
  shows "keyed entries'" "map_of entries \<subseteq>\<^sub>m map_of entries'" "queue' = queue @ [mr_module r]"
    "dom (map_of entries') = insert (mr_module r) (dom (map_of entries))"
    "\<exists>t. map_of entries' (mr_module r) = Some (enabled_entry (mr_module r) t) \<and> t \<in> set (mr_streams r)"
proof -
  obtain s where s: "select_requirement c entries r = Inr s"
    and q: "queue' = queue @ [mr_module r]"
    and e: "map_of entries (mr_module r) \<noteq> None \<and> entries' = entries \<or>
      map_of entries (mr_module r) = None \<and> entries' = bt_insert (mr_module r) (enabled_entry (mr_module r) s) entries"
    using step
    by (cases "map_of entries (mr_module r)") (auto simp: add_requirement_def bindR_eq_Inr split: if_splits)
  note sel = select_requirement_Inr [OF s]
  have ok: "bt_ok entries" and name: "map_of entries n = Some x \<Longrightarrow> me_name x = n" for n x
    using k by (auto simp: keyed_def)
  have x: "x = enabled_entry (mr_module r) s" if "map_of entries (mr_module r) = Some x" for x
    using sel(2) [OF that] name [OF that] by (cases x) simp
  show "queue' = queue @ [mr_module r]" by (rule q)
  show "keyed entries'" using e k by (auto simp: keyed_insert)
  show "map_of entries \<subseteq>\<^sub>m map_of entries'"
    using e by (auto simp: map_le_def bt_insert_map_of [OF ok])
  show "dom (map_of entries') = insert (mr_module r) (dom (map_of entries))"
    using e by (auto simp: bt_insert_map_of [OF ok] dom_def)
  show "\<exists>t. map_of entries' (mr_module r) = Some (enabled_entry (mr_module r) t) \<and> t \<in> set (mr_streams r)"
    using e x sel(1) by (auto simp: bt_insert_map_of [OF ok])
qed

lemma add_requirements_Inr:
  "foldR (add_requirement c) rs (queue, entries) = Inr (queue', entries') \<Longrightarrow> keyed entries \<Longrightarrow>
   keyed entries' \<and> map_of entries \<subseteq>\<^sub>m map_of entries' \<and>
   dom (map_of entries') = mr_module ` set rs \<union> dom (map_of entries) \<and>
   (\<forall>r\<in>set rs. \<exists>t. map_of entries' (mr_module r) = Some (enabled_entry (mr_module r) t) \<and> t \<in> set (mr_streams r))"
proof (induction rs arbitrary: queue entries)
  case (Cons r rs)
  obtain q1 e1 where one: "add_requirement c r (queue, entries) = Inr (q1, e1)"
    and rest: "foldR (add_requirement c) rs (q1, e1) = Inr (queue', entries')"
    using Cons.prems by (auto simp: bindR_eq_Inr)
  note s = add_requirement_Inr [OF one Cons.prems(2)]
  note IH = Cons.IH [OF rest s(1)]
  obtain t where "map_of e1 (mr_module r) = Some (enabled_entry (mr_module r) t)" "t \<in> set (mr_streams r)"
    using s(5) by blast
  moreover from this have "map_of entries' (mr_module r) = Some (enabled_entry (mr_module r) t)"
    using IH by (auto simp: map_le_def dom_def)
  moreover have "map_of entries \<subseteq>\<^sub>m map_of entries'" using s(2) IH map_le_trans by blast
  ultimately show ?case using IH s(4) by auto
qed simp

text \<open>The invariant of the loop, for the entries \<open>e0\<close> it starts with.\<close>

definition complete_inv ::
  "module_catalog \<Rightarrow> module_entries \<Rightarrow> string set \<Rightarrow> string list \<Rightarrow> module_entries \<Rightarrow> bool" where
  "complete_inv c e0 roots queue entries \<longleftrightarrow> keyed entries \<and> map_of e0 \<subseteq>\<^sub>m map_of entries \<and>
     (\<forall>n\<in>set queue. pulled c (map_of entries) roots n \<and> map_of entries n \<noteq> None) \<and>
     (\<forall>n e. map_of entries n = Some e \<longrightarrow> map_of e0 n = Some e \<or>
        (\<exists>s. e = enabled_entry n s) \<and> pulled c (map_of entries) roots n)"

lemma complete_visit_inv:
  assumes inv: "complete_inv c e0 roots (name # queue) entries"
    and step: "complete_visit c name (queue, entries) = Inr (queue', entries')"
  shows "complete_inv c e0 roots queue' entries'"
proof -
  obtain M s st where M: "map_of (cat_modules c) name = Some M"
    and e: "case map_of entries name of Some e \<Rightarrow> \<not> me_disabled e \<and> me_stream e = Some s | None \<Rightarrow> mod_default_stream M = Some s"
    and st: "map_of (mod_streams M) s = Some st"
    and or: "mst_dependencies st = [] \<and> queue' = queue \<and> entries' = entries \<or>
     (\<exists>a\<in>set (mst_dependencies st). foldR (add_requirement c) (md_requires a) (queue, entries) = Inr (queue', entries'))"
    by (rule complete_visit_Inr [OF step])
  from or show ?thesis
  proof
    assume "mst_dependencies st = [] \<and> queue' = queue \<and> entries' = entries"
    then show ?thesis using inv by (simp add: complete_inv_def)
  next
    assume "\<exists>a\<in>set (mst_dependencies st). foldR (add_requirement c) (md_requires a) (queue, entries) = Inr (queue', entries')"
    then obtain a where a: "a \<in> set (mst_dependencies st)"
      and fold: "foldR (add_requirement c) (md_requires a) (queue, entries) = Inr (queue', entries')"
      by blast
    have k: "keyed entries" and le0: "map_of e0 \<subseteq>\<^sub>m map_of entries" and p: "pulled c (map_of entries) roots name"
      and some: "map_of entries name \<noteq> None"
      using inv by (simp_all add: complete_inv_def)
    note f = add_requirements_Inr [OF fold k] and q = add_requirements_queue [OF fold]
    have le: "map_of entries \<subseteq>\<^sub>m map_of entries'" and k': "keyed entries'" using f by simp_all
    obtain x where x: "map_of entries name = Some x" using some by auto
    then have "me_name x = name" "me_stream x = Some s" "\<not> me_disabled x"
      using e k by (simp_all add: keyed_def)
    then have "x = enabled_entry name s" by (cases x) simp
    then have now: "map_of entries' name = Some (enabled_entry name s)"
      using le x by (auto simp: map_le_def dom_def)
    have p': "pulled c (map_of entries') roots n" if "pulled c (map_of entries) roots n" for n
      by (rule pulled_mono [OF that le])
    have req: "\<exists>t. map_of entries' (mr_module r) = Some (enabled_entry (mr_module r) t) \<and>
        pulled c (map_of entries') roots (mr_module r)" if r: "r \<in> set (md_requires a)" for r
    proof -
      obtain t where "map_of entries' (mr_module r) = Some (enabled_entry (mr_module r) t)" "t \<in> set (mr_streams r)"
        using f r by blast
      then show ?thesis using pulled.required [OF p' [OF p] M now st a r] by blast
    qed
    have "map_of e0 n = Some y \<or> (\<exists>s. y = enabled_entry n s) \<and> pulled c (map_of entries') roots n"
      if y: "map_of entries' n = Some y" for n y
    proof (cases "map_of entries n")
      case None
      then have "n \<in> mr_module ` set (md_requires a)" using f y by blast
      then obtain r where r: "r \<in> set (md_requires a)" "n = mr_module r" by blast
      obtain t where "map_of entries' n = Some (enabled_entry n t)" "pulled c (map_of entries') roots n"
        using req [OF r(1)] unfolding r(2) [symmetric] by (elim exE conjE)
      then show ?thesis using y by simp
    next
      case (Some z)
      then have "z = y" using le y by (auto simp: map_le_def dom_def)
      then show ?thesis using inv Some p' by (auto simp: complete_inv_def)
    qed
    moreover have "pulled c (map_of entries') roots n \<and> map_of entries' n \<noteq> None" if m: "n \<in> set queue'" for n
    proof (cases "n \<in> set queue")
      case True
      then have "pulled c (map_of entries) roots n" "map_of entries n \<noteq> None"
        using inv by (auto simp: complete_inv_def)
      then show ?thesis using p' le by (auto simp: map_le_def dom_def)
    next
      case False
      then obtain r where "r \<in> set (md_requires a)" "n = mr_module r" using m q by auto
      then show ?thesis using req by auto
    qed
    ultimately show ?thesis
      using k' map_le_trans [OF le0 le] by (simp add: complete_inv_def)
  qed
qed

lemma complete_loop_inv:
  "complete_loop c queue visited entries = Inr entries' \<Longrightarrow> complete_inv c e0 roots queue entries \<Longrightarrow>
   complete_inv c e0 roots [] entries'"
proof (induction c queue visited entries rule: complete_loop.induct)
  case (2 c name queue visited entries)
  show ?case
  proof (cases "name \<in> set visited")
    case True
    then show ?thesis using 2 by (auto simp: complete_inv_def)
  next
    case False
    obtain q e where s: "complete_visit c name (queue, entries) = Inr (q, e)"
      and rest: "complete_loop c q (bs_insert name visited) e = Inr entries'"
      using 2(3) False by (auto split: sum.splits)
    show ?thesis
      using 2(2) [OF False s refl rest complete_visit_inv [OF 2(4) s]] .
  qed
qed simp

lemma complete_dependencies_Inr:
  assumes run: "complete_dependencies c entries roots = Inr entries'" and k: "keyed entries"
    and roots: "set roots \<subseteq> dom (map_of entries)"
  shows "keyed entries'" "map_of entries \<subseteq>\<^sub>m map_of entries'"
    and "map_of entries n = None \<Longrightarrow> map_of entries' n = Some e \<Longrightarrow>
      (\<exists>s. e = enabled_entry n s) \<and> pulled c (map_of entries') (set roots) n"
proof -
  have "complete_inv c entries (set roots) roots entries"
    using k roots by (auto simp: complete_inv_def intro: pulled.requested)
  then have inv: "complete_inv c entries (set roots) [] entries'"
    using complete_loop_inv run by (metis complete_dependencies_def)
  then show "keyed entries'" "map_of entries \<subseteq>\<^sub>m map_of entries'"
    by (simp_all add: complete_inv_def)
  show "map_of entries n = None \<Longrightarrow> map_of entries' n = Some e \<Longrightarrow>
      (\<exists>s. e = enabled_entry n s) \<and> pulled c (map_of entries') (set roots) n"
    using inv unfolding complete_inv_def by (metis option.distinct(1))
qed

text \<open>The relation between the entries of a state before and after a mutation.\<close>

definition mutation_effect ::
  "module_catalog \<Rightarrow> module_mutation \<Rightarrow> (string \<times> string option) list
     \<Rightarrow> (string \<Rightarrow> module_state_entry option) \<Rightarrow> (string \<Rightarrow> module_state_entry option) \<Rightarrow> string \<Rightarrow> bool" where
  "mutation_effect c op reqs before after n \<longleftrightarrow>
     (case map_of reqs n of
        Some rs \<Rightarrow> after n = spec_entry c op n rs
      | None \<Rightarrow> after n = before n \<or>
          op = ModuleEnable \<and> before n = None \<and>
          (\<exists>s. after n = Some (enabled_entry n s)) \<and> pulled c after (fst ` set reqs) n)"

lemma module_mutate_effect:
  assumes run: "module_mutate c current op specs = Inr st"
  obtains reqs where "mapR parse_module_spec specs = Inr reqs" "distinct (map fst reqs)" "reqs \<noteq> []"
    "fst ` set reqs \<subseteq> dom (map_of (cat_modules c))"
    "\<And>n. mutation_effect c op reqs (state_lookup current) (state_lookup st) n"
proof -
  define complete where "complete = (\<lambda>entries requested.
    if op = ModuleEnable then complete_dependencies c entries requested else Inr entries)"
  have fold_complete: "(if op = ModuleEnable then complete_dependencies c es rs else Inr es) = complete es rs" for es rs
    by (simp add: complete_def)
  obtain entries requested entries' where valid: "module_state_validate current = Inr ()" and ne: "specs \<noteq> []"
    and specs: "foldR (apply_module_spec c op) specs (module_state_map current, []) = Inr (entries, requested)"
    and complete: "complete entries requested = Inr entries'"
    and st: "st = \<lparr>ms_entries = bt_values entries'\<rparr>"
    using run unfolding module_mutate_def Let_def fold_complete by (auto simp: bindR_eq_Inr split: if_splits)
  have comp: "(if op = ModuleEnable then complete_dependencies c entries requested else Inr entries) = Inr entries'"
    using complete by (simp add: complete_def)
  note m = module_state_map_lookup [OF valid]
  obtain reqs where reqs: "mapR parse_module_spec specs = Inr reqs" "distinct (map fst reqs)"
    "set requested = fst ` set reqs" "fst ` set reqs \<subseteq> dom (map_of (cat_modules c))" and k: "keyed entries"
    and at: "\<forall>n. map_of entries n = (case map_of reqs n of None \<Rightarrow> state_lookup current n | Some rs \<Rightarrow> spec_entry c op n rs)"
    and some: "op = ModuleEnable \<longrightarrow> (\<forall>r\<in>set reqs. spec_entry c op (fst r) (snd r) \<noteq> None)"
    using apply_module_specs [OF specs m(1)] unfolding m(2) by auto
  have "length reqs = length specs" using reqs(1) by (simp add: mapR_eq_Inr)
  then have rne: "reqs \<noteq> []" using ne by auto
  have "keyed entries' \<and> mutation_effect c op reqs (state_lookup current) (map_of entries') n" for n
  proof (cases "op = ModuleEnable")
    case False
    then show ?thesis using comp k at by (auto simp: mutation_effect_def split: option.splits)
  next
    case True
    have comp': "complete_dependencies c entries requested = Inr entries'" using comp True by simp
    have dom: "set requested \<subseteq> dom (map_of entries)"
    proof
      fix x assume "x \<in> set requested"
      then obtain rs where x: "(x, rs) \<in> set reqs" using reqs(3) by auto
      then have "map_of reqs x = Some rs" "spec_entry c op x rs \<noteq> None"
        using reqs(2) bspec [OF mp [OF some True] x]
        by (simp_all add: map_of_eq_Some_iff del: spec_entry.simps)
      then show "x \<in> dom (map_of entries)" using at by (auto simp: dom_def)
    qed
    note d = complete_dependencies_Inr [OF comp' k dom]
    have keep: "map_of entries' n = Some e" if "map_of entries n = Some e" for e
      using d(2) that by (auto simp: map_le_def dom_def)
    have "mutation_effect c op reqs (state_lookup current) (map_of entries') n"
    proof (cases "map_of entries n")
      case (Some e)
      then show ?thesis
        using keep [OF Some] at by (auto simp: mutation_effect_def split: option.splits)
    next
      case None
      then have old: "map_of reqs n = None"
        using dom reqs(3) by (metis domIff map_of_eq_None_iff subsetD)
      then have before: "state_lookup current n = None" using None at by simp
      show ?thesis
      proof (cases "map_of entries' n")
        case None
        then show ?thesis using old before by (simp add: mutation_effect_def)
      next
        case (Some e)
        then show ?thesis
          using d(3) [OF \<open>map_of entries n = None\<close> Some] old before True reqs(3) by (auto simp: mutation_effect_def)
      qed
    qed
    then show ?thesis using d(1) by simp
  qed
  then show thesis
    using that [OF reqs(1,2) rne reqs(4)] st state_lookup_values by (metis ext)
qed

lemma check_known_entry_iff:
  "check_known_entry c e = Inr () \<longleftrightarrow> (\<exists>M. map_of (cat_modules c) (me_name e) = Some M \<and>
     (\<forall>s. me_stream e = Some s \<longrightarrow> map_of (mod_streams M) s \<noteq> None))"
  by (cases "me_stream e") (auto simp: check_known_entry_def bindR_eq_Inr ok_or_eq_Inr)

lemma check_active_module_iff:
  "check_active_module c state M = Inr () \<longleftrightarrow> (\<forall>s. active_stream c state (mod_name M) = Some s \<longrightarrow>
     (\<exists>st. map_of (mod_streams M) s = Some st \<and> dependencies_satisfied c state (mst_dependencies st) = Inr True))"
  by (cases "active_stream c state (mod_name M)")
    (auto simp: check_active_module_def bindR_eq_Inr ok_or_eq_Inr split: if_splits)

text \<open>What \<^verbatim>\<open>validate_state\<close> promises of a state, for a well-formed catalog.\<close>

definition state_supported :: "module_catalog \<Rightarrow> module_state \<Rightarrow> bool" where
  "state_supported c state \<longleftrightarrow> module_state_validate state = Inr () \<and>
    (\<forall>n e. state_lookup state n = Some e \<longrightarrow>
       (\<exists>M. map_of (cat_modules c) n = Some M \<and> (\<forall>s. me_stream e = Some s \<longrightarrow> map_of (mod_streams M) s \<noteq> None))) \<and>
    (\<forall>n M s. map_of (cat_modules c) n = Some M \<longrightarrow> active_stream c state n = Some s \<longrightarrow>
       (\<exists>st. map_of (mod_streams M) s = Some st \<and>
          (mst_dependencies st = [] \<or> (\<exists>a\<in>set (mst_dependencies st). \<forall>r\<in>set (md_requires a).
             \<exists>t. active_stream c state (mr_module r) = Some t \<and> t \<in> set (mr_streams r)))))"

lemma dependencies_satisfied_True:
  "dependencies_satisfied c state ds = Inr True \<Longrightarrow>
   ds = [] \<or> (\<exists>a\<in>set ds. \<forall>r\<in>set (md_requires a). \<exists>t. active_stream c state (mr_module r) = Some t \<and> t \<in> set (mr_streams r))"
proof -
  have "requirement_satisfied c state r \<Longrightarrow> \<exists>t. active_stream c state (mr_module r) = Some t \<and> t \<in> set (mr_streams r)" for r
    by (auto simp: requirement_satisfied_def list_ex_iff split: option.splits)
  then show "dependencies_satisfied c state ds = Inr True \<Longrightarrow> ?thesis"
    by (auto simp: dependencies_satisfied_def list_ex_iff list_all_iff split: if_splits)
qed

lemma validate_module_state_supported:
  assumes c: "catalog_ok c" and v: "validate_module_state c state = Inr ()"
  shows "state_supported c state"
proof -
  have valid: "module_state_validate state = Inr ()"
    and known: "\<forall>e\<in>set (ms_entries state). check_known_entry c e = Inr ()"
    and active: "\<forall>M\<in>set (bt_values (cat_modules c)). check_active_module c state M = Inr ()"
    using v by (auto simp: validate_module_state_def bindR_eq_Inr forR_eq_Inr)
  have "\<exists>M. map_of (cat_modules c) n = Some M \<and> (\<forall>s. me_stream e = Some s \<longrightarrow> map_of (mod_streams M) s \<noteq> None)"
    if "state_lookup state n = Some e" for n e
  proof -
    have e: "e \<in> set (ms_entries state)" "me_name e = n"
      using that by (auto simp: state_lookup_def find_Some_iff)
    show ?thesis using bspec [OF known e(1)] unfolding check_known_entry_iff e(2) .
  qed
  moreover have "\<exists>st. map_of (mod_streams M) s = Some st \<and>
      (mst_dependencies st = [] \<or> (\<exists>a\<in>set (mst_dependencies st). \<forall>r\<in>set (md_requires a).
         \<exists>t. active_stream c state (mr_module r) = Some t \<and> t \<in> set (mr_streams r)))"
    if M: "map_of (cat_modules c) n = Some M" and s: "active_stream c state n = Some s" for n M s
  proof -
    have name: "mod_name M = n" using c M by (simp add: catalog_ok_def)
    then have "M \<in> set (bt_values (cat_modules c))" using catalog_values [OF c] M by simp
    then have "\<exists>st. map_of (mod_streams M) s = Some st \<and> dependencies_satisfied c state (mst_dependencies st) = Inr True"
      using active s name by (simp add: check_active_module_iff)
    then obtain st where "map_of (mod_streams M) s = Some st" "dependencies_satisfied c state (mst_dependencies st) = Inr True"
      by (elim exE conjE)
    then show ?thesis using dependencies_satisfied_True by (intro exI [of _ st] conjI)
  qed
  ultimately show ?thesis using valid unfolding state_supported_def by (intro conjI allI impI)
qed

text \<open>
  Property C33. A successful module mutation changes exactly what was asked for: every specification
  names a different known module, which ends up enabled with the requested or default stream,
  disabled, or without an entry; every other module keeps its entry, except that enabling may add
  an enabled entry for a module without one that an enabled stream requires, directly or through
  other modules it pulled in. The resulting state is canonical, names only modules and streams of
  the catalog, and every active stream has an alternative whose requirements are all met by active
  streams.
\<close>

theorem module_mutation_exact:
  assumes c: "catalog_from_raw raws arch = Inr c" and run: "module_mutate c current op specs = Inr st"
  shows "state_supported c st \<and>
    (\<exists>reqs. mapR parse_module_spec specs = Inr reqs \<and> reqs \<noteq> [] \<and> distinct (map fst reqs) \<and>
       fst ` set reqs \<subseteq> dom (map_of (cat_modules c)) \<and>
       (\<forall>n. mutation_effect c op reqs (state_lookup current) (state_lookup st) n))"
proof
  have "validate_module_state c st = Inr ()"
    using run unfolding module_mutate_def Let_def by (auto simp: bindR_eq_Inr split: if_splits)
  then show "state_supported c st"
    by (rule validate_module_state_supported [OF catalog_from_raw_ok [OF c]])
  obtain reqs where "mapR parse_module_spec specs = Inr reqs" "distinct (map fst reqs)" "reqs \<noteq> []"
    "fst ` set reqs \<subseteq> dom (map_of (cat_modules c))"
    "\<And>n. mutation_effect c op reqs (state_lookup current) (state_lookup st) n"
    by (rule module_mutate_effect [OF run]) blast
  then show "\<exists>reqs. mapR parse_module_spec specs = Inr reqs \<and> reqs \<noteq> [] \<and> distinct (map fst reqs) \<and>
       fst ` set reqs \<subseteq> dom (map_of (cat_modules c)) \<and>
       (\<forall>n. mutation_effect c op reqs (state_lookup current) (state_lookup st) n)"
    by (intro exI [of _ reqs] conjI allI)
qed

theorem module_mutation_exact_witness:
  "\<exists>c st. catalog_from_raw demo_modules X86_64 = Inr c \<and>
     module_mutate c \<lparr>ms_entries = []\<rparr> ModuleEnable [''demo:next''] = Inr st \<and> state_supported c st \<and>
     st = \<lparr>ms_entries = [enabled_entry ''demo'' ''next'']\<rparr>"
proof -
  have run: "bindR (catalog_from_raw demo_modules X86_64)
      (\<lambda>c. map_sum id ms_entries (module_mutate c \<lparr>ms_entries = []\<rparr> ModuleEnable [''demo:next''])) =
      Inr [enabled_entry ''demo'' ''next'']"
    by code_simp
  obtain c where c: "catalog_from_raw demo_modules X86_64 = Inr c"
    and m: "map_sum id ms_entries (module_mutate c \<lparr>ms_entries = []\<rparr> ModuleEnable [''demo:next'']) =
      Inr [enabled_entry ''demo'' ''next'']"
    using run by (auto simp: bindR_eq_Inr)
  obtain st where st: "module_mutate c \<lparr>ms_entries = []\<rparr> ModuleEnable [''demo:next''] = Inr st"
    "ms_entries st = [enabled_entry ''demo'' ''next'']"
    using m by (cases "module_mutate c \<lparr>ms_entries = []\<rparr> ModuleEnable [''demo:next'']") auto
  show ?thesis
    using module_mutation_exact [OF c st(1)] c st by (intro exI [of _ c] exI [of _ st] conjI) simp_all
qed

end
