(* ===== verification/Planning_Fs.thy ===== *)
theory Planning_Fs
  imports Planning_Module Repo_Fs
begin

text \<open>
  The reading half of \<^verbatim>\<open>crates/dnfast-planning/src/fs.rs\<close>: directories that are held open and
  rechecked, and regular files read from them within a limit. The tree of nodes is the one of
  \<open>Repo_Fs\<close> and does not change during a call, so that a retained descriptor keeps naming the node
  it was opened at and comparing device and inode again finds no difference.
\<close>

datatype open_errno = NoEntry | SymlinkLoop | NotADirectory

fun open_errno_display :: "open_errno \<Rightarrow> string" where
  "open_errno_display NoEntry = ''No such file or directory (os error 2)''"
| "open_errno_display SymlinkLoop = ''Too many levels of symbolic links (os error 40)''"
| "open_errno_display NotADirectory = ''Not a directory (os error 20)''"

text \<open>\<^verbatim>\<open>openat2\<close> beneath a directory, following no links\<close>

definition openat2 :: "os \<Rightarrow> bool \<Rightarrow> string list \<Rightarrow> (open_errno, node) result" where
  "openat2 os directory names =
     (case os_node os names of
        None \<Rightarrow> Inl NoEntry
      | Some n \<Rightarrow>
          if nd_type n = SymlinkFile then Inl SymlinkLoop
          else if directory \<and> nd_type n \<noteq> DirectoryFile then Inl NotADirectory
          else Inr n)"

definition planning_io :: "open_errno \<Rightarrow> planning_error" where
  "planning_io e = PlanningIo (open_errno_display e)"

section \<open>Checks\<close>

definition owner_valid :: "u32 \<Rightarrow> u32 \<Rightarrow> bool" where
  "owner_valid actual expected \<longleftrightarrow> actual = expected \<or> (expected \<noteq> 0 \<and> actual = 0)"

definition validate_name :: "string \<Rightarrow> (planning_error, unit) result" where
  "validate_name name =
     (if name = [] \<or> name = ''.'' \<or> name = ''..'' \<or> CHR ''/'' \<in> set name \<or> CHR 0x5C \<in> set name
      then Inl (UnsafeSnapshot ''unsafe path component'') else Inr ())"

definition validate_directory :: "node \<Rightarrow> u32 \<Rightarrow> (planning_error, unit) result" where
  "validate_directory n owner =
     (if nd_type n \<noteq> DirectoryFile \<or> \<not> owner_valid (nd_uid n) owner \<or> nd_perm n AND 0x12 \<noteq> 0
      then Inl (UnsafeRoot ''directory ownership, mode, or type'') else Inr ())"

definition validate_regular :: "node \<Rightarrow> u32 \<Rightarrow> (planning_error, unit) result" where
  "validate_regular n owner =
     (if nd_type n \<noteq> RegularFile \<or> \<not> owner_valid (nd_uid n) owner \<or> nd_nlink n \<noteq> 1 \<or> nd_perm n AND 0x12 \<noteq> 0
      then Inl (UnsafeSnapshot ''file ownership, link count, mode, or type'') else Inr ())"

section \<open>Directories\<close>

text \<open>The node a descriptor names, the path it was opened at and the expected owner.\<close>

record trusted_directory =
  td_node :: node
  td_names :: "string list"
  td_owner :: u32

definition recheck :: "trusted_directory \<Rightarrow> (planning_error, unit) result" where
  "recheck d = validate_directory (td_node d) (td_owner d)"

definition from_fd :: "node \<Rightarrow> string list \<Rightarrow> u32 \<Rightarrow> (planning_error, trusted_directory) result" where
  "from_fd n names owner =
     bindR (validate_directory n owner) (\<lambda>_. Inr \<lparr>td_node = n, td_names = names, td_owner = owner\<rparr>)"

text \<open>\<^verbatim>\<open>open_child\<close> without creation\<close>

definition open_child :: "os \<Rightarrow> string list \<Rightarrow> string \<Rightarrow> u32 \<Rightarrow> (planning_error, node) result" where
  "open_child os parent name owner =
     (if \<not> utf8_ok name then Inl (UnsafeRoot ''non-UTF-8 root path'')
      else
        bindR (validate_name name) (\<lambda>_.
        bindR (map_err planning_io (openat2 os True (parent @ [name]))) (\<lambda>n.
        bindR (validate_directory n owner) (\<lambda>_. Inr n))))"

fun open_walk ::
  "os \<Rightarrow> u32 \<Rightarrow> node \<Rightarrow> string list \<Rightarrow> component list \<Rightarrow> (planning_error, node \<times> string list) result" where
  "open_walk os owner current names [] = Inr (current, names)"
| "open_walk os owner current names (c # rest) =
     (case c of
        Normal name \<Rightarrow> bindR (open_child os names name owner) (\<lambda>n. open_walk os owner n (names @ [name]) rest)
      | _ \<Rightarrow> Inl (UnsafeRoot ''root path has an unsafe component''))"

definition directory_open :: "os \<Rightarrow> string \<Rightarrow> u32 \<Rightarrow> (planning_error, trusted_directory) result" where
  "directory_open os path owner =
     (if \<not> is_absolute path then Inl (UnsafeRoot ''root path is not absolute'')
      else
        bindR (map_err planning_io (openat2 os True [])) (\<lambda>root.
        bindR (validate_directory root owner) (\<lambda>_.
        bindR (open_walk os owner root [] (tl (components path))) (\<lambda>(n, names). from_fd n names owner))))"

definition directory_child :: "os \<Rightarrow> trusted_directory \<Rightarrow> string \<Rightarrow> (planning_error, trusted_directory) result" where
  "directory_child os d name =
     bindR (recheck d) (\<lambda>_.
     bindR (open_child os (td_names d) name (td_owner d)) (\<lambda>n.
     bindR (recheck d) (\<lambda>_. from_fd n (td_names d @ [name]) (td_owner d))))"

definition child_if_present ::
  "os \<Rightarrow> trusted_directory \<Rightarrow> string \<Rightarrow> (planning_error, trusted_directory option) result" where
  "child_if_present os d name =
     bindR (recheck d) (\<lambda>_.
     bindR (validate_name name) (\<lambda>_.
       case openat2 os True (td_names d @ [name]) of
         Inr n \<Rightarrow> bindR (from_fd n (td_names d @ [name]) (td_owner d)) (\<lambda>c. Inr (Some c))
       | Inl NoEntry \<Rightarrow> Inr None
       | Inl e \<Rightarrow> Inl (planning_io e)))"

section \<open>Files\<close>

text \<open>The limit is a \<^verbatim>\<open>usize\<close>; one more than it is computed as a \<^verbatim>\<open>u64\<close>, which wraps.\<close>

definition read_validated :: "trusted_directory \<Rightarrow> node \<Rightarrow> nat \<Rightarrow> (planning_error, bytes) result" where
  "read_validated d n maximum =
     bindR (validate_regular n (td_owner d)) (\<lambda>_.
     bindR (ok_or (PlanningIo ''Input/output error (os error 5)'') (read_node n)) (\<lambda>content.
     let bytes = take ((maximum + 1) mod 2 ^ 64) content in
     if length bytes > maximum then Inl (UnsafeSnapshot ''snapshot file exceeds maximum size'')
     else bindR (recheck d) (\<lambda>_. Inr bytes)))"

definition directory_read :: "os \<Rightarrow> trusted_directory \<Rightarrow> string \<Rightarrow> nat \<Rightarrow> (planning_error, bytes) result" where
  "directory_read os d name maximum =
     bindR (recheck d) (\<lambda>_.
     bindR (validate_name name) (\<lambda>_.
     bindR (map_err planning_io (openat2 os False (td_names d @ [name]))) (\<lambda>n. read_validated d n maximum)))"

definition read_if_present ::
  "os \<Rightarrow> trusted_directory \<Rightarrow> string \<Rightarrow> nat \<Rightarrow> (planning_error, bytes option) result" where
  "read_if_present os d name maximum =
     bindR (recheck d) (\<lambda>_.
     bindR (validate_name name) (\<lambda>_.
       case openat2 os False (td_names d @ [name]) of
         Inr n \<Rightarrow> bindR (read_validated d n maximum) (\<lambda>bs. Inr (Some bs))
       | Inl NoEntry \<Rightarrow> Inr None
       | Inl e \<Rightarrow> Inl (planning_io e)))"

definition planning_root_executable :: "os \<Rightarrow> string \<Rightarrow> (planning_error, unit) result" where
  "planning_root_executable os path =
     bindR (ok_or (UnsafeRoot ''executable has no parent directory'') (path_parent path)) (\<lambda>parent.
     bindR (ok_or (UnsafeRoot ''executable name is not UTF-8'')
         (Option.bind (file_name path) (\<lambda>n. if utf8_ok n then Some n else None))) (\<lambda>name.
     bindR (case parent of
         RootDir # rest \<Rightarrow>
           bindR (map_err planning_io (openat2 os True [])) (\<lambda>root.
           bindR (validate_directory root 0) (\<lambda>_.
           bindR (open_walk os 0 root [] rest) (\<lambda>(n, names). from_fd n names 0)))
       | _ \<Rightarrow> Inl (UnsafeRoot ''root path is not absolute'')) (\<lambda>directory.
     bindR (validate_name name) (\<lambda>_.
     bindR (map_err planning_io (openat2 os False (td_names directory @ [name]))) (\<lambda>n.
       if nd_type n \<noteq> RegularFile \<or> nd_uid n \<noteq> 0 \<or> nd_nlink n \<noteq> 1 \<or> nd_perm n AND 0x12 \<noteq> 0 \<or> nd_perm n AND 0x49 = 0
       then Inl (UnsafeRoot ''executable ownership, link count, mode, or type'')
       else recheck directory)))))"

section \<open>What a read guarantees\<close>

lemma validate_directory_iff: "validate_directory n owner = Inr () \<longleftrightarrow> trusted_node owner DirectoryFile n"
  by (auto simp: validate_directory_def trusted_node_def owner_valid_def)

lemma validate_regular_iff: "validate_regular n owner = Inr () \<longleftrightarrow> trusted_node owner RegularFile n"
  by (auto simp: validate_regular_def trusted_node_def owner_valid_def)

lemma openat2_node: "openat2 os directory names = Inr n \<Longrightarrow> os_node os names = Some n"
  by (auto simp: openat2_def split: option.splits if_splits)

definition trusted_path :: "os \<Rightarrow> u32 \<Rightarrow> string list \<Rightarrow> bool" where
  "trusted_path os owner names \<longleftrightarrow>
     (\<forall>k \<le> length names. \<exists>n. os_node os (take k names) = Some n \<and> trusted_node owner DirectoryFile n)"

lemma trusted_path_snoc:
  "trusted_path os owner names \<Longrightarrow> os_node os (names @ [x]) = Some n \<Longrightarrow> trusted_node owner DirectoryFile n \<Longrightarrow>
   trusted_path os owner (names @ [x])"
  by (auto simp: trusted_path_def le_Suc_eq)

lemma open_child_Inr:
  "open_child os parent name owner = Inr n \<Longrightarrow>
   os_node os (parent @ [name]) = Some n \<and> trusted_node owner DirectoryFile n \<and> validate_name name = Inr ()"
  by (auto simp: open_child_def bindR_eq_Inr map_err_eq_Inr validate_directory_iff split: if_splits
      dest: openat2_node)

lemma open_walk_Inr:
  "open_walk os owner current names cs = Inr (n, names') \<Longrightarrow> trusted_path os owner names \<Longrightarrow>
   os_node os names = Some current \<Longrightarrow>
   trusted_path os owner names' \<and> os_node os names' = Some n \<and> (\<exists>ds. cs = map Normal ds \<and> names' = names @ ds)"
proof (induction cs arbitrary: current names)
  case (Cons c cs)
  obtain name m where c: "c = Normal name" and m: "open_child os names name owner = Inr m"
    and rest: "open_walk os owner m (names @ [name]) cs = Inr (n, names')"
    using Cons.prems(1) by (cases c) (auto simp: bindR_eq_Inr)
  note o = open_child_Inr [OF m]
  have "trusted_path os owner (names @ [name])"
    by (rule trusted_path_snoc [OF Cons.prems(2)]) (use o in auto)
  from Cons.IH [OF rest this] o obtain ds where
    "trusted_path os owner names' \<and> os_node os names' = Some n \<and> cs = map Normal ds \<and> names' = (names @ [name]) @ ds"
    by blast
  then show ?case using c by (intro conjI exI [of _ "name # ds"]) auto
qed simp

lemma directory_open_Inr:
  assumes "directory_open os path owner = Inr d"
  shows "trusted_path os owner (td_names d) \<and> td_owner d = owner \<and> components path = RootDir # map Normal (td_names d)"
proof -
  obtain root n names where abs: "is_absolute path"
    and root: "openat2 os True [] = Inr root" "validate_directory root owner = Inr ()"
    and walk: "open_walk os owner root [] (tl (components path)) = Inr (n, names)" and d: "from_fd n names owner = Inr d"
    using assms by (auto simp: directory_open_def bindR_eq_Inr map_err_eq_Inr split: if_splits)
  have "trusted_path os owner []"
    using root openat2_node by (auto simp: trusted_path_def validate_directory_iff)
  note w = open_walk_Inr [OF walk this openat2_node [OF root(1)]]
  have "td_names d = names" "td_owner d = owner" using d by (auto simp: from_fd_def bindR_eq_Inr)
  moreover have "components path = RootDir # tl (components path)"
    using abs by (cases path) (auto simp: is_absolute_def starts_with_def components_def)
  ultimately show ?thesis using w by auto
qed

lemma directory_child_Inr:
  "directory_child os d name = Inr c \<Longrightarrow> trusted_path os (td_owner d) (td_names d) \<Longrightarrow>
   trusted_path os (td_owner d) (td_names c) \<and> td_owner c = td_owner d \<and> td_names c = td_names d @ [name]"
  by (auto simp: directory_child_def bindR_eq_Inr from_fd_def trusted_path_snoc dest!: open_child_Inr)

lemma directory_read_Inr:
  assumes "directory_read os d name maximum = Inr bs" "maximum + 1 < 2 ^ 64"
  shows "\<exists>n. os_node os (td_names d @ [name]) = Some n \<and> trusted_node (td_owner d) RegularFile n \<and>
    nd_content n = Some bs \<and> length bs \<le> maximum"
  using assms
  by (auto simp: directory_read_def read_validated_def bindR_eq_Inr map_err_eq_Inr ok_or_eq_Inr Let_def read_node_def
      validate_regular_iff trusted_node_def split: if_splits dest!: openat2_node)

end
