(* ===== verification/Cache_Model.thy ===== *)
theory Cache_Model
  imports Dnf_Lines
begin

text \<open>
  \<^verbatim>\<open>crates/dnfast-cache/src/model.rs\<close> and the policy half of \<^verbatim>\<open>artifact.rs\<close>: the errors of the cache,
  the evidence for an authenticated \<^verbatim>\<open>repomd.xml\<close>, the selected origin of a repository, artifact
  specifications and the admission of a transaction's downloads. The url crate is a parameter.
\<close>

section \<open>URLs\<close>

text \<open>What the sources ask of a parsed URL; \<open>u_port\<close> is \<^verbatim>\<open>port_or_known_default\<close>, \<open>u_str\<close> is \<^verbatim>\<open>as_str\<close>.\<close>

record url =
  u_scheme :: string
  u_username :: string
  u_password :: "string option"
  u_host :: "string option"
  u_port :: "nat option"
  u_path :: string
  u_query :: "string option"
  u_fragment :: "string option"
  u_str :: string

record url_lib =
  url_parse :: "string \<Rightarrow> (string, url) result"
  url_join :: "url \<Rightarrow> string \<Rightarrow> (string, url) result"
  url_set_path :: "url \<Rightarrow> string \<Rightarrow> url"

definition strip_suffix :: "string \<Rightarrow> string \<Rightarrow> string option" where
  "strip_suffix s suffix = (if ends_with s suffix then Some (take (length s - length suffix) s) else None)"

lemma ends_with_iff: "ends_with s t \<longleftrightarrow> (\<exists>r. s = r @ t)"
  by (metis append_take_drop_id ends_with_append ends_with_def)

lemma strip_suffix_Some: "strip_suffix s t = Some r \<longleftrightarrow> s = r @ t"
  by (auto simp: strip_suffix_def ends_with_iff)

section \<open>Errors and digests\<close>

datatype cache_error = MissingSnapshot string | CacheUpgradeRequired | CacheCorrupt string | CacheIo string

definition valid_digest :: "string \<Rightarrow> bool" where
  "valid_digest v \<longleftrightarrow> length v = 64 \<and> list_all is_lower_hex v"

definition valid_fingerprint :: "string \<Rightarrow> bool" where
  "valid_fingerprint v \<longleftrightarrow> length v = 40 \<and> list_all (\<lambda>c. is_ascii_hexdigit c \<and> \<not> is_ascii_lowercase c) v"

section \<open>Authentication of repomd\<close>

datatype repomd_authentication =
    TransportOnly
  | OpenPgp (primary_fingerprint: string) (signing_fingerprint: string)
      (key_bundle_sha256: string) (signature_sha256: string)

definition authentication_validate :: "repomd_authentication \<Rightarrow> (cache_error, unit) result" where
  "authentication_validate a =
     (case a of
        TransportOnly \<Rightarrow> Inr ()
      | OpenPgp primary signing bundle signature \<Rightarrow>
          if \<not> valid_fingerprint primary \<or> \<not> valid_fingerprint signing \<or> \<not> valid_digest bundle
             \<or> \<not> valid_digest signature
          then Inl (CacheCorrupt ''invalid repomd authentication evidence'') else Inr ())"

definition authentication_openpgp ::
  "string \<Rightarrow> string \<Rightarrow> string \<Rightarrow> string \<Rightarrow> (cache_error, repomd_authentication) result" where
  "authentication_openpgp primary signing bundle signature =
     (let v = OpenPgp (map to_ascii_uppercase primary) (map to_ascii_uppercase signing)
          (map to_ascii_lowercase bundle) (map to_ascii_lowercase signature) in
      bindR (authentication_validate v) (\<lambda>_. Inr v))"

section \<open>Selected origins\<close>

datatype origin_error = OriginInvalid | InvalidArtifactPath

fun origin_error_display :: "origin_error \<Rightarrow> string" where
  "origin_error_display OriginInvalid = ''invalid selected repository origin''"
| "origin_error_display InvalidArtifactPath = ''invalid repository artifact path''"

datatype selected_origin = SelectedOrigin (repomd_url: string)

definition REPOMD_SUFFIX :: string where "REPOMD_SUFFIX = ''/repodata/repomd.xml''"

definition selected_origin_parse :: "url_lib \<Rightarrow> string \<Rightarrow> (origin_error, selected_origin) result" where
  "selected_origin_parse U v =
     bindR (map_err (\<lambda>_. OriginInvalid) (url_parse U v)) (\<lambda>parsed.
       if u_scheme parsed \<noteq> ''https'' \<or> u_host parsed = None \<or> u_username parsed \<noteq> []
          \<or> u_password parsed \<noteq> None \<or> u_query parsed \<noteq> None \<or> u_fragment parsed \<noteq> None
          \<or> CHR 0x5C \<in> set v \<or> u_str parsed \<noteq> v \<or> strip_suffix v REPOMD_SUFFIX = None
       then Inl OriginInvalid
       else
         bindR (ok_or OriginInvalid (strip_suffix v REPOMD_SUFFIX)) (\<lambda>base.
           if base = [] \<or> ends_with base ''/'' then Inl OriginInvalid
           else Inr (SelectedOrigin v)))"

definition artifact_base :: "selected_origin \<Rightarrow> string" where
  "artifact_base o' = (case strip_suffix (repomd_url o') REPOMD_SUFFIX of None \<Rightarrow> [] | Some b \<Rightarrow> b)"

definition artifact_url :: "selected_origin \<Rightarrow> string \<Rightarrow> (origin_error, string) result" where
  "artifact_url o' href =
     (if href = [] \<or> starts_with href ''/'' \<or> CHR 0x5C \<in> set href \<or> CHR ''?'' \<in> set href
         \<or> CHR 0x23 \<in> set href \<or> list_ex (\<lambda>part. part = [] \<or> part = ''.'' \<or> part = ''..'') (split_slash href)
      then Inl InvalidArtifactPath
      else Inr (artifact_base o' @ ''/'' @ href))"

section \<open>Artifacts\<close>

definition MAX_ARTIFACT_BYTES :: u64 where "MAX_ARTIFACT_BYTES = 8589934592"
definition MAX_TRANSACTION_BYTES :: u64 where "MAX_TRANSACTION_BYTES = 68719476736"
definition MAX_TRANSACTION_ARTIFACTS :: u64 where "MAX_TRANSACTION_ARTIFACTS = 100000"
definition MAX_CACHE_BYTES :: u64 where "MAX_CACHE_BYTES = 137438953472"

datatype artifact_error =
    ArtifactPolicy string
  | ArtifactCapacity string
  | ArtifactTransport string
  | ArtifactIntegrity string
  | ArtifactIo string
  | ArtifactBusy string

fun artifact_error_display :: "artifact_error \<Rightarrow> string" where
  "artifact_error_display (ArtifactPolicy m) = ''artifact policy rejected input: '' @ m"
| "artifact_error_display (ArtifactCapacity m) = ''artifact capacity rejected transaction: '' @ m"
| "artifact_error_display (ArtifactTransport m) = ''artifact transport failed: '' @ m"
| "artifact_error_display (ArtifactIntegrity m) = ''artifact integrity failed: '' @ m"
| "artifact_error_display (ArtifactIo m) = ''artifact filesystem operation failed: '' @ m"
| "artifact_error_display (ArtifactBusy m) = ''artifact cache is busy: '' @ m"

datatype artifact_digest = Sha256 string

record artifact_spec =
  as_url :: string
  as_digest :: string
  as_size :: u64

definition parse_base :: "url_lib \<Rightarrow> string \<Rightarrow> (artifact_error, url) result" where
  "parse_base U v =
     bindR (map_err ArtifactPolicy (url_parse U v)) (\<lambda>u.
       if u_scheme u \<noteq> ''https'' \<or> u_username u \<noteq> [] \<or> u_password u \<noteq> None \<or> u_host u = None
          \<or> u_query u \<noteq> None \<or> u_fragment u \<noteq> None
       then Inl (ArtifactPolicy ''unsafe HTTPS base URL'') else Inr u)"

definition url_origin :: "url \<Rightarrow> string \<times> nat option \<times> string" where
  "url_origin u = (u_scheme u, u_port u, case u_host u of None \<Rightarrow> [] | Some h \<Rightarrow> h)"

definition artifact_location_unsafe :: "string \<Rightarrow> bool" where
  "artifact_location_unsafe location \<longleftrightarrow> location = [] \<or> starts_with location ''/'' \<or> CHR 0x5C \<in> set location
     \<or> CHR ''?'' \<in> set location \<or> CHR 0x23 \<in> set location \<or> CHR ''%'' \<in> set location
     \<or> contains_str location ''://''
     \<or> list_ex (\<lambda>part. part = [] \<or> part = ''.'' \<or> part = ''..'') (split_slash location)"

definition from_selected_base ::
  "url_lib \<Rightarrow> url \<Rightarrow> string \<Rightarrow> artifact_digest \<Rightarrow> u64 \<Rightarrow> (artifact_error, artifact_spec) result" where
  "from_selected_base U selected location digest sz =
     (if MAX_ARTIFACT_BYTES < sz then Inl (ArtifactPolicy ''artifact exceeds 8 GiB'')
      else if artifact_location_unsafe location then Inl (ArtifactPolicy ''unsafe metadata package location'')
      else case digest of Sha256 v \<Rightarrow>
        if length v \<noteq> 64 \<or> \<not> list_all is_ascii_hexdigit v
        then Inl (ArtifactPolicy ''unsupported SHA-256 digest'')
        else
          let directory = (if ends_with (u_path selected) ''/'' then selected
                else url_set_path U selected (u_path selected @ ''/'')) in
          bindR (map_err ArtifactPolicy (url_join U directory location)) (\<lambda>u.
            if url_origin u \<noteq> url_origin selected
            then Inl (ArtifactPolicy ''package URL escaped selected origin'')
            else Inr \<lparr>as_url = u_str u, as_digest = map to_ascii_lowercase v, as_size = sz\<rparr>))"

definition artifact_spec_new ::
  "url_lib \<Rightarrow> string \<Rightarrow> string \<Rightarrow> string \<Rightarrow> artifact_digest \<Rightarrow> u64 \<Rightarrow> (artifact_error, artifact_spec) result" where
  "artifact_spec_new U repository_base selected_base location digest sz =
     (if MAX_ARTIFACT_BYTES < sz then Inl (ArtifactPolicy ''artifact exceeds 8 GiB'')
      else
        bindR (parse_base U repository_base) (\<lambda>repository.
        bindR (parse_base U selected_base) (\<lambda>selected.
          if url_origin repository \<noteq> url_origin selected
          then Inl (ArtifactPolicy ''selected URL is not same-origin'')
          else from_selected_base U selected location digest sz)))"

definition from_selected_mirror ::
  "url_lib \<Rightarrow> string \<Rightarrow> string \<Rightarrow> artifact_digest \<Rightarrow> u64 \<Rightarrow> (artifact_error, artifact_spec) result" where
  "from_selected_mirror U selected_mirror location digest sz =
     bindR (parse_base U selected_mirror) (\<lambda>selected. from_selected_base U selected location digest sz)"

section \<open>Admission of a transaction\<close>

record capacity =
  cap_cached_bytes :: u64
  cap_available_bytes :: u64

record transaction_request =
  tr_predicted_bytes :: u64
  tr_artifacts :: u64
  tr_identities :: "(string \<times> u64) list"

definition request_validate :: "transaction_request \<Rightarrow> capacity \<Rightarrow> (artifact_error, unit) result" where
  "request_validate r cap =
     (if MAX_TRANSACTION_BYTES < tr_predicted_bytes r \<or> MAX_TRANSACTION_ARTIFACTS < tr_artifacts r
      then Inl (ArtifactCapacity ''transaction artifact limit exceeded'')
      else
        bindR (ok_or (ArtifactCapacity ''cache size overflow'')
            (checked_add (cap_cached_bytes cap) (tr_predicted_bytes r))) (\<lambda>cache_after.
        if MAX_CACHE_BYTES < cache_after then Inl (ArtifactCapacity ''artifact cache cap exceeded'')
        else
          bindR (ok_or (ArtifactCapacity ''reserve overflow'') (checked_add (tr_predicted_bytes r) 19)) (\<lambda>rounded.
          bindR (ok_or (ArtifactCapacity ''reserve overflow'')
              (checked_add (tr_predicted_bytes r) (rounded div 20))) (\<lambda>reserve.
          if cap_available_bytes cap < reserve
          then Inl (ArtifactCapacity ''filesystem reserve is insufficient'') else Inr ()))))"

definition request_from_totals :: "u64 \<Rightarrow> u64 \<Rightarrow> (artifact_error, transaction_request) result" where
  "request_from_totals predicted artifacts =
     (let request = \<lparr>tr_predicted_bytes = predicted, tr_artifacts = artifacts, tr_identities = []\<rparr> in
      bindR (request_validate request \<lparr>cap_cached_bytes = 0, cap_available_bytes = - 1\<rparr>) (\<lambda>_. Inr request))"

fun add_sizes :: "u64 \<Rightarrow> artifact_spec list \<Rightarrow> u64 option" where
  "add_sizes acc [] = Some acc"
| "add_sizes acc (s # specs) =
     (case checked_add acc (as_size s) of None \<Rightarrow> None | Some t \<Rightarrow> add_sizes t specs)"

definition request_for_specs :: "artifact_spec list \<Rightarrow> (artifact_error, transaction_request) result" where
  "request_for_specs specs =
     bindR (ok_or (ArtifactCapacity ''transaction byte count overflow'') (add_sizes 0 specs)) (\<lambda>predicted.
     if 2 ^ 64 \<le> length specs then Inl (ArtifactCapacity ''out of range integral type conversion attempted'')
     else let identities = sort (map (\<lambda>s. (as_digest s, as_size s)) specs) in
     if any_window (=) identities then Inl (ArtifactCapacity ''duplicate artifact in transaction'')
     else
       bindR (request_from_totals predicted (of_nat (length specs))) (\<lambda>request.
         Inr (request\<lparr>tr_identities := identities\<rparr>)))"

section \<open>Admission is exact\<close>

lemma request_validate_iff:
  "request_validate r cap = Inr () \<longleftrightarrow>
     unat (tr_predicted_bytes r) \<le> 2 ^ 36 \<and> unat (tr_artifacts r) \<le> 100000
     \<and> unat (cap_cached_bytes cap) + unat (tr_predicted_bytes r) \<le> 2 ^ 37
     \<and> unat (tr_predicted_bytes r) + (unat (tr_predicted_bytes r) + 19) div 20 \<le> unat (cap_available_bytes cap)"
proof -
  define p where "p = unat (tr_predicted_bytes r)"
  have limits: "MAX_TRANSACTION_BYTES < tr_predicted_bytes r \<longleftrightarrow> 2 ^ 36 < p"
    "MAX_TRANSACTION_ARTIFACTS < tr_artifacts r \<longleftrightarrow> 100000 < unat (tr_artifacts r)"
    by (simp_all add: word_less_nat_alt MAX_TRANSACTION_BYTES_def MAX_TRANSACTION_ARTIFACTS_def p_def)
  show ?thesis
  proof (cases "2 ^ 36 < p \<or> 100000 < unat (tr_artifacts r)")
    case True
    then show ?thesis by (auto simp: request_validate_def limits p_def [symmetric])
  next
    case False
    then have small: "p \<le> 2 ^ 36" by simp
    have r19: "checked_add (tr_predicted_bytes r) 19 = Some (tr_predicted_bytes r + 19)"
      "unat (tr_predicted_bytes r + 19) = p + 19"
      using small by (simp_all add: checked_add_Some unat_add_fits p_def)
    have d: "unat ((tr_predicted_bytes r + 19) div 20) = (p + 19) div 20"
      using r19(2) by (simp add: unat_div)
    have "p + (p + 19) div 20 < 2 ^ 64" using small by simp
    then have res: "checked_add (tr_predicted_bytes r) ((tr_predicted_bytes r + 19) div 20) =
        Some (tr_predicted_bytes r + (tr_predicted_bytes r + 19) div 20)"
      "unat (tr_predicted_bytes r + (tr_predicted_bytes r + 19) div 20) = p + (p + 19) div 20"
      using d by (simp_all add: checked_add_Some unat_add_fits p_def)
    show ?thesis
    proof (cases "unat (cap_cached_bytes cap) + p < 2 ^ 64")
      case fits: True
      then have "checked_add (cap_cached_bytes cap) (tr_predicted_bytes r) = Some (cap_cached_bytes cap + tr_predicted_bytes r)"
        "unat (cap_cached_bytes cap + tr_predicted_bytes r) = unat (cap_cached_bytes cap) + p"
        by (simp_all add: checked_add_Some unat_add_fits p_def)
      then show ?thesis
        using False small
        by (auto simp: request_validate_def limits r19 res word_less_nat_alt MAX_CACHE_BYTES_def
          MAX_TRANSACTION_BYTES_def MAX_TRANSACTION_ARTIFACTS_def p_def [symmetric])
    next
      case False
      then have "checked_add (cap_cached_bytes cap) (tr_predicted_bytes r) = None"
        by (simp add: checked_add_def p_def)
      then show ?thesis
        using False by (auto simp: request_validate_def p_def [symmetric])
    qed
  qed
qed

lemma add_sizes_Some:
  "add_sizes t specs = Some s \<longleftrightarrow>
     unat t + sum_list (map (\<lambda>x. unat (as_size x)) specs) < 2 ^ 64 \<and>
     unat s = unat t + sum_list (map (\<lambda>x. unat (as_size x)) specs)"
proof (induction specs arbitrary: t)
  case Nil
  show ?case using unsigned_less [of t] by (auto simp: word_unat_eq_iff)
next
  case (Cons x specs)
  show ?case
  proof (cases "unat t + unat (as_size x) < 2 ^ 64")
    case True
    then show ?thesis using Cons.IH by (simp add: checked_add_def unat_add_fits add.assoc)
  qed (simp add: checked_add_def)
qed

lemma request_from_totals_iff:
  "request_from_totals p n = Inr r \<longleftrightarrow>
     unat p \<le> 2 ^ 36 \<and> unat n \<le> 100000 \<and> r = \<lparr>tr_predicted_bytes = p, tr_artifacts = n, tr_identities = []\<rparr>"
proof -
  have "unat p \<le> 2 ^ 36 \<Longrightarrow> unat p + (unat p + 19) div 20 \<le> unat (- 1 :: u64)"
    by (simp add: unsigned_minus_1_eq_mask mask_eq_exp_minus_1)
  then show ?thesis
    by (auto simp: request_from_totals_def Let_def bindR_eq_Inr request_validate_iff)
qed

lemma request_for_specs_iff:
  "request_for_specs specs = Inr r \<longleftrightarrow>
     length specs \<le> 100000 \<and> distinct (map (\<lambda>s. (as_digest s, as_size s)) specs) \<and>
     sum_list (map (\<lambda>s. unat (as_size s)) specs) \<le> 2 ^ 36 \<and>
     r = \<lparr>tr_predicted_bytes = of_nat (sum_list (map (\<lambda>s. unat (as_size s)) specs)),
       tr_artifacts = of_nat (length specs), tr_identities = sort (map (\<lambda>s. (as_digest s, as_size s)) specs)\<rparr>"
proof -
  define t where "t = sum_list (map (\<lambda>s. unat (as_size s)) specs)"
  define ids where "ids = map (\<lambda>s. (as_digest s, as_size s)) specs"
  have w: "any_window (=) (sort ids) \<longleftrightarrow> \<not> distinct ids"
    by (simp add: any_window_eq_sorted)
  have n: "unat (of_nat (length specs) :: u64) = length specs" if "length specs < 2 ^ 64"
    using that by (simp add: unat_of_nat)
  show ?thesis
  proof (cases "t < 2 ^ 64")
    case False
    then have "add_sizes 0 specs = None"
      using add_sizes_Some [of 0 specs] by (cases "add_sizes 0 specs") (auto simp: t_def)
    then show ?thesis using False by (auto simp: request_for_specs_def t_def)
  next
    case True
    have add: "add_sizes 0 specs = Some (of_nat t)" and ut: "unat (of_nat t :: u64) = t"
      using True by (simp_all add: add_sizes_Some t_def [symmetric] unat_of_nat)
    show ?thesis
      using w n ut
      by (auto simp: request_for_specs_def add Let_def bindR_eq_Inr request_from_totals_iff t_def [symmetric]
          ids_def [symmetric])
  qed
qed

text \<open>
  Property C21. The downloads of a transaction are admitted exactly when no artifact occurs twice,
  there are at most 100000 of them, they take at most 64 GiB and the cache with them at most
  128 GiB, and the free space exceeds them by the twentieth part, rounded up: the 64-bit sums
  never wrap into an acceptance.
\<close>

theorem transaction_admission_exact:
  "(\<exists>r. request_for_specs specs = Inr r \<and> request_validate r cap = Inr ()) \<longleftrightarrow>
     (let bytes = sum_list (map (\<lambda>s. unat (as_size s)) specs) in
      distinct (map (\<lambda>s. (as_digest s, as_size s)) specs) \<and> length specs \<le> 100000 \<and> bytes \<le> 2 ^ 36 \<and>
      unat (cap_cached_bytes cap) + bytes \<le> 2 ^ 37 \<and>
      bytes + (bytes + 19) div 20 \<le> unat (cap_available_bytes cap))"
proof -
  have "unat (of_nat t :: u64) = t" if "t \<le> 2 ^ 36" for t
    using that by (simp add: unat_of_nat)
  moreover have "unat (of_nat t :: u64) = t" if "t \<le> 100000" for t
    using that by (simp add: unat_of_nat)
  ultimately show ?thesis
    by (auto simp: request_for_specs_iff request_validate_iff Let_def)
qed

end
