(* ===== verification/Planning_Snapshot.thy ===== *)
theory Planning_Snapshot
  imports Planning_Fs Cache_Model Core_Integrity Core_Inventory Core_Policy Core_Trust Repo_Trust
begin

text \<open>
  \<^verbatim>\<open>crates/dnfast-planning/src/model.rs\<close> and the reading half of \<^verbatim>\<open>snapshot_store.rs\<close>: the planning snapshot a root publishes, its check, its canonical bytes,
  and the digests a plan made from it is bound to.
\<close>

section \<open>Data\<close>

definition LEGACY_SNAPSHOT_SCHEMA_VERSION :: u32 where "LEGACY_SNAPSHOT_SCHEMA_VERSION = 3"
definition EXTERNAL_SNAPSHOT_SCHEMA_VERSION :: u32 where "EXTERNAL_SNAPSHOT_SCHEMA_VERSION = 4"
definition EXTENDED_SNAPSHOT_SCHEMA_VERSION :: u32 where "EXTENDED_SNAPSHOT_SCHEMA_VERSION = 5"
definition MODULE_STATE_SNAPSHOT_SCHEMA_VERSION :: u32 where "MODULE_STATE_SNAPSHOT_SCHEMA_VERSION = 6"
definition SNAPSHOT_SCHEMA_VERSION :: u32 where "SNAPSHOT_SCHEMA_VERSION = 7"
definition MAX_SNAPSHOT_BYTES :: nat where "MAX_SNAPSHOT_BYTES = 134217728"

record planning_bytes =
  pb_sha256 :: string
  pb_size :: u64
  pb_base64 :: string

record planning_key =
  pk_bundle_path :: string
  pk_certificate_base64 :: string

record planning_origin =
  po_repomd_url :: string
  po_sha256 :: string

record planning_repository =
  pr_id :: string
  pr_priority :: u32
  pr_cost :: u32
  pr_generation_sha256 :: string
  pr_origin :: planning_origin
  pr_repomd :: planning_bytes
  pr_primary :: planning_bytes
  pr_filelists :: planning_bytes
  pr_file_provides :: "planning_bytes option"
  pr_group :: "planning_bytes option"
  pr_modules :: "planning_bytes option"
  pr_updateinfo :: "planning_bytes option"
  pr_trust :: repo_trust_policy
  pr_keys :: "planning_key list"
  pr_repomd_authentication :: repomd_authentication

record planning_configuration =
  pc_id :: string
  pc_enabled :: bool
  pc_baseurl :: "string list"
  pc_metalink :: "string option"
  pc_mirrorlist :: "string option"
  pc_priority :: u32
  pc_cost :: u32
  pc_excludes :: "string list"
  pc_includes :: "string list"
  pc_gpgkey :: "string list"
  pc_allowed_fingerprints :: "string list"
  pc_repo_gpgcheck :: bool

record planning_policy =
  pp_solver :: solver_policy
  pp_included_packages :: "string list"
  pp_installonly_limit :: u32

record planning_payload =
  pl_policy :: planning_policy
  pl_inventory :: installed_inventory
  pl_allowed_repositories :: "planning_repository list"
  pl_configuration :: "planning_configuration list"
  pl_module_state :: module_state

record planning_snapshot =
  sn_schema_version :: u32
  sn_published_at_unix :: u64
  sn_refreshed_repository_ids :: "string list"
  sn_payload :: planning_payload
  sn_planning_root :: "string option"
  sn_storage_owner :: u32

text \<open>
  The libraries: SHA-256 in lower-case hexadecimal, the JSON codecs, the url crate and base64;
  and the files of the machine.
\<close>

record 'j planning_env =
  pe_sha :: "bytes \<Rightarrow> string"
  pe_snapshot :: "(planning_snapshot, 'j) serde"
  pe_policy :: "(solver_policy, 'j) serde"
  pe_inventory :: "(installed_inventory, 'j) serde"
  pe_trust :: "(repo_trust_policy, 'j) serde"
  pe_url :: url_lib
  pe_base64 :: "string \<Rightarrow> bytes option"
  pe_os :: os

definition planning_domain :: "domain_error \<Rightarrow> planning_error" where
  "planning_domain e = PlanningInput (domain_error_display e)"

definition module_state_is_empty :: "module_state \<Rightarrow> bool" where
  "module_state_is_empty state \<longleftrightarrow> ms_entries state = []"

section \<open>Payload descriptors\<close>

definition validate_shape :: "planning_bytes \<Rightarrow> u32 \<Rightarrow> (planning_error, unit) result" where
  "validate_shape b schema_version =
     (if pb_size b = 0 \<or> length (pb_sha256 b) \<noteq> 64 \<or> \<not> list_all is_lower_hex (pb_sha256 b)
         \<or> (schema_version = LEGACY_SNAPSHOT_SCHEMA_VERSION \<and> pb_base64 b = [])
      then Inl (PlanningInput ''snapshot payload descriptor is invalid'') else Inr ())"

definition decode_base64 :: "'j planning_env \<Rightarrow> planning_bytes \<Rightarrow> (planning_error, bytes) result" where
  "decode_base64 E b = ok_or (PlanningInput ''invalid base64 snapshot payload'') (pe_base64 E (pb_base64 b))"

definition read_blob :: "os \<Rightarrow> string \<Rightarrow> u32 \<Rightarrow> string \<Rightarrow> u64 \<Rightarrow> (planning_error, bytes) result" where
  "read_blob os planning_root owner digest sz =
     (if \<not> valid_digest digest then Inl (UnsafeSnapshot ''invalid planning blob digest'')
      else if 2 ^ 64 \<le> unat sz + 1 then Inl (UnsafeSnapshot ''planning blob size overflow'')
      else
        bindR (directory_open os planning_root owner) (\<lambda>planning.
        bindR (directory_child os planning ''blobs'') (\<lambda>blobs.
        bindR (directory_child os blobs ''sha256'') (\<lambda>sha256.
          directory_read os sha256 digest (unat sz + 1)))))"

definition decode_verified ::
  "'j planning_env \<Rightarrow> planning_bytes \<Rightarrow> (string \<times> u32) option \<Rightarrow> (planning_error, bytes) result" where
  "decode_verified E b storage =
     bindR (if pb_base64 b = []
            then bindR (ok_or (UnsafeSnapshot ''external snapshot payload has no trusted storage binding'') storage)
              (\<lambda>(planning_root, owner). read_blob (pe_os E) planning_root owner (pb_sha256 b) (pb_size b))
            else decode_base64 E b) (\<lambda>decoded.
       if length decoded \<noteq> unat (pb_size b) \<or> pe_sha E decoded \<noteq> pb_sha256 b
       then Inl (PlanningInput ''snapshot payload digest differs'') else Inr decoded)"

section \<open>The check of a repository\<close>

text \<open>\<^verbatim>\<open>frame\<close>: what it feeds to the digest\<close>

definition frame :: "bytes \<Rightarrow> bytes \<Rightarrow> bytes" where
  "frame name bs = be64 (length name) @ name @ be64 (length bs) @ bs"

fun key_frames :: "'j planning_env \<Rightarrow> string \<Rightarrow> planning_key list \<Rightarrow> (planning_error, bytes) result" where
  "key_frames E ident [] = Inr []"
| "key_frames E ident (k # ks) =
     bindR (map_err (\<lambda>_. PlanningInput ''key bundle path differs from repository'')
         (validate_gpgkey_bundle_path ident (pk_bundle_path k))) (\<lambda>_.
     bindR (ok_or (PlanningInput ''key certificate is not base64'') (pe_base64 E (pk_certificate_base64 k))) (\<lambda>certificate.
     bindR (key_frames E ident ks) (\<lambda>fed. Inr (frame (pk_bundle_path k) certificate @ fed))))"

definition check_shapes :: "planning_repository \<Rightarrow> u32 \<Rightarrow> (planning_error, unit) result" where
  "check_shapes r schema_version =
     bindR (forR (\<lambda>b. validate_shape b schema_version) [pr_repomd r, pr_primary r, pr_filelists r]) (\<lambda>_.
     bindR (forR (\<lambda>b. validate_shape b schema_version) (case pr_group r of None \<Rightarrow> [] | Some b \<Rightarrow> [b])) (\<lambda>_.
     bindR (forR (\<lambda>b. validate_shape b schema_version) (case pr_modules r of None \<Rightarrow> [] | Some b \<Rightarrow> [b])) (\<lambda>_.
     bindR (forR (\<lambda>b. validate_shape b schema_version) (case pr_updateinfo r of None \<Rightarrow> [] | Some b \<Rightarrow> [b])) (\<lambda>_.
     forR (\<lambda>b. validate_shape b schema_version) (case pr_file_provides r of None \<Rightarrow> [] | Some b \<Rightarrow> [b])))))"

definition validate_repository ::
  "'j planning_env \<Rightarrow> planning_repository \<Rightarrow> u32 \<Rightarrow> (planning_error, unit) result" where
  "validate_repository E r schema_version =
     (if pr_id r = [] \<or> pr_generation_sha256 r \<noteq> pb_sha256 (pr_repomd r) \<or> tp_repo_id (pr_trust r) \<noteq> pr_id r
         \<or> pr_keys r = [] \<or> any_window (\<lambda>a b. pk_bundle_path b \<le> pk_bundle_path a) (pr_keys r)
      then Inl (PlanningInput ''repository payload is not canonical'')
      else if schema_version < EXTENDED_SNAPSHOT_SCHEMA_VERSION
         \<and> (pr_file_provides r \<noteq> None \<or> pr_group r \<noteq> None \<or> pr_modules r \<noteq> None)
      then Inl (PlanningInput ''legacy snapshot contains unbound extended metadata'')
      else if schema_version < SNAPSHOT_SCHEMA_VERSION \<and> pr_updateinfo r \<noteq> None
      then Inl (PlanningInput ''legacy snapshot contains unbound updateinfo metadata'')
      else
        bindR (check_shapes r schema_version) (\<lambda>_.
        if pe_sha E (po_repomd_url (pr_origin r)) \<noteq> po_sha256 (pr_origin r)
        then Inl (PlanningInput ''selected origin digest differs'')
        else
          bindR (map_err (\<lambda>e. PlanningInput (origin_error_display e))
              (selected_origin_parse (pe_url E) (po_repomd_url (pr_origin r)))) (\<lambda>_.
          bindR (map_err planning_domain (canonical_sha256 (pe_sha E) (pe_trust E) trust_validate (pr_trust r))) (\<lambda>_.
          bindR (map_err (\<lambda>_. PlanningInput ''cache error: Corrupt(\"invalid repomd authentication evidence\")'')
              (authentication_validate (pr_repomd_authentication r))) (\<lambda>_.
          bindR (key_frames E (pr_id r) (pr_keys r)) (\<lambda>fed.
            if pe_sha E (KEY_DOMAIN @ fed) \<noteq> as_str (tp_key_bundle_sha256 (pr_trust r))
            then Inl (PlanningInput ''key bundle differs from trust policy'') else Inr ()))))))"

section \<open>The check of a snapshot\<close>

definition check_configuration ::
  "planning_configuration list \<Rightarrow> planning_repository \<Rightarrow> (planning_error, unit) result" where
  "check_configuration configurations r =
     bindR (ok_or (PlanningInput ''allowed repository is absent from configuration'')
         (List.find (\<lambda>c. pc_id c = pr_id r) configurations)) (\<lambda>c.
     if \<not> pc_enabled c \<or> pc_priority c \<noteq> pr_priority r \<or> pc_cost c \<noteq> pr_cost r
        \<or> pc_gpgkey c \<noteq> map pk_bundle_path (pr_keys r)
     then Inl (PlanningInput ''allowed repository differs from configuration'')
     else
       let fingerprints = sort (map (map to_ascii_uppercase) (pc_allowed_fingerprints c)) in
       if fingerprints \<noteq> tp_allowed_primary_fingerprints (pr_trust r)
       then Inl (PlanningInput ''repository trust differs from configuration'')
       else if pc_repo_gpgcheck c then
         (case pr_repomd_authentication r of
            OpenPgp primary signing bundle signature \<Rightarrow>
              if primary \<in> set fingerprints \<and> bundle = as_str (tp_key_bundle_sha256 (pr_trust r)) then Inr ()
              else Inl (PlanningInput ''repository requires authenticated repomd metadata'')
          | TransportOnly \<Rightarrow> Inl (PlanningInput ''repository requires authenticated repomd metadata''))
       else Inr ())"

definition schema_supported :: "u32 \<Rightarrow> bool" where
  "schema_supported v \<longleftrightarrow> v \<in> {LEGACY_SNAPSHOT_SCHEMA_VERSION, EXTERNAL_SNAPSHOT_SCHEMA_VERSION,
     EXTENDED_SNAPSHOT_SCHEMA_VERSION, MODULE_STATE_SNAPSHOT_SCHEMA_VERSION, SNAPSHOT_SCHEMA_VERSION}"

definition repositories_canonical :: "planning_snapshot \<Rightarrow> bool" where
  "repositories_canonical s \<longleftrightarrow>
     \<not> (pl_allowed_repositories (sn_payload s) = []
        \<or> any_window (\<lambda>a b. b \<le> a) (sn_refreshed_repository_ids s)
        \<or> list_ex (\<lambda>i. \<not> list_ex (\<lambda>r. pr_id r = i) (pl_allowed_repositories (sn_payload s))) (sn_refreshed_repository_ids s)
        \<or> any_window (\<lambda>a b. pr_id b \<le> pr_id a) (pl_allowed_repositories (sn_payload s))
        \<or> any_window (\<lambda>a b. pc_id b \<le> pc_id a) (pl_configuration (sn_payload s)))"

text \<open>The inventory computes its digest once and keeps it; the value it keeps is not part of the model here.\<close>

definition snapshot_validate :: "'j planning_env \<Rightarrow> planning_snapshot \<Rightarrow> (planning_error, unit) result" where
  "snapshot_validate E s =
     (if \<not> schema_supported (sn_schema_version s) then Inl (PlanningInput ''unsupported snapshot schema'')
      else if \<not> repositories_canonical s then Inl (PlanningInput ''repositories are not canonical'')
      else
        bindR (map_err planning_domain (ensure_supported (pp_solver (pl_policy (sn_payload s))))) (\<lambda>_.
        bindR (map_err planning_domain (fst (inventory_sha256 (pe_sha E) (pe_inventory E) (pl_inventory (sn_payload s))))) (\<lambda>_.
        bindR (module_state_validate (pl_module_state (sn_payload s))) (\<lambda>_.
        if sn_schema_version s < MODULE_STATE_SNAPSHOT_SCHEMA_VERSION
           \<and> \<not> module_state_is_empty (pl_module_state (sn_payload s))
        then Inl (PlanningInput ''legacy snapshot contains module state'')
        else
          forR (\<lambda>r. bindR (validate_repository E r (sn_schema_version s)) (\<lambda>_.
              check_configuration (pl_configuration (sn_payload s)) r))
            (pl_allowed_repositories (sn_payload s))))))"

definition snapshot_new_with_refreshed ::
  "'j planning_env \<Rightarrow> u64 \<Rightarrow> string list \<Rightarrow> planning_payload \<Rightarrow> (planning_error, planning_snapshot) result" where
  "snapshot_new_with_refreshed E published refreshed payload =
     (let v = \<lparr>sn_schema_version = SNAPSHOT_SCHEMA_VERSION, sn_published_at_unix = published,
          sn_refreshed_repository_ids = refreshed, sn_payload = payload, sn_planning_root = None,
          sn_storage_owner = 0\<rparr> in
      bindR (snapshot_validate E v) (\<lambda>_. Inr v))"

definition snapshot_new ::
  "'j planning_env \<Rightarrow> u64 \<Rightarrow> planning_payload \<Rightarrow> (planning_error, planning_snapshot) result" where
  "snapshot_new E published payload =
     snapshot_new_with_refreshed E published (map pr_id (pl_allowed_repositories payload)) payload"

definition has_current_schema :: "planning_snapshot \<Rightarrow> bool" where
  "has_current_schema s \<longleftrightarrow> sn_schema_version s = SNAPSHOT_SCHEMA_VERSION"

definition attach_storage :: "planning_snapshot \<Rightarrow> string \<Rightarrow> u32 \<Rightarrow> planning_snapshot" where
  "attach_storage s root owner = s\<lparr>sn_planning_root := Some root, sn_storage_owner := owner\<rparr>"

definition storage :: "planning_snapshot \<Rightarrow> (string \<times> u32) option" where
  "storage s = map_option (\<lambda>root. (root, sn_storage_owner s)) (sn_planning_root s)"

definition materialize_payload ::
  "'j planning_env \<Rightarrow> planning_snapshot \<Rightarrow> planning_bytes \<Rightarrow> (planning_error, bytes) result" where
  "materialize_payload E s b = decode_verified E b (storage s)"

section \<open>Canonical bytes\<close>

definition snapshot_bytes :: "'j planning_env \<Rightarrow> planning_snapshot \<Rightarrow> (planning_error, bytes) result" where
  "snapshot_bytes E s =
     bindR (snapshot_validate E s) (\<lambda>_.
     bindR (map_err PlanningInput (to_value (pe_snapshot E) s)) (\<lambda>v.
       map_err PlanningInput (to_vec (pe_snapshot E) v)))"

definition snapshot_digest :: "'j planning_env \<Rightarrow> planning_snapshot \<Rightarrow> (planning_error, string) result" where
  "snapshot_digest E s = bindR (snapshot_bytes E s) (\<lambda>bs. Inr (pe_sha E bs))"

definition snapshot_from_bytes :: "'j planning_env \<Rightarrow> bytes \<Rightarrow> (planning_error, planning_snapshot) result" where
  "snapshot_from_bytes E bs =
     (if MAX_SNAPSHOT_BYTES < length bs then Inl (UnsafeSnapshot ''snapshot exceeds maximum size'')
      else
        bindR (map_err PlanningInput (from_slice (pe_snapshot E) bs)) (\<lambda>v.
        bindR (snapshot_bytes E v) (\<lambda>again.
        if again \<noteq> bs then Inl (UnsafeSnapshot ''snapshot is not canonical JSON'')
        else bindR (snapshot_validate E v) (\<lambda>_. Inr v))))"

section \<open>Selection and digests\<close>

definition selected_repositories ::
  "planning_snapshot \<Rightarrow> string list \<Rightarrow> (planning_error, planning_repository list) result" where
  "selected_repositories s ids =
     (let requested = sort (if ids = [] then map pr_id (pl_allowed_repositories (sn_payload s)) else ids) in
      if any_window (=) requested
      then Inl (PlanningInput ''selected repository identifiers are duplicate'')
      else mapR (\<lambda>i. ok_or (PlanningInput ''selected repository is not root-published and enabled'')
             (List.find (\<lambda>r. pr_id r = i) (pl_allowed_repositories (sn_payload s)))) requested)"

definition be32 :: "u32 \<Rightarrow> bytes" where
  "be32 v = map (\<lambda>i. char_of (unat v div 256 ^ i)) [3, 2, 1, 0]"

definition bytes_frame :: "planning_bytes \<Rightarrow> bytes" where
  "bytes_frame b = frame (pb_sha256 b) (pb_sha256 b) @ be64 (unat (pb_size b))"

definition role_frame :: "string \<Rightarrow> planning_bytes option \<Rightarrow> bytes" where
  "role_frame role b = frame role role @ (case b of None \<Rightarrow> [] | Some x \<Rightarrow> bytes_frame x)"

definition metadata_frame ::
  "'j planning_env \<Rightarrow> u32 \<Rightarrow> planning_repository \<Rightarrow> (planning_error, bytes) result" where
  "metadata_frame E schema_version r =
     bindR (map_err planning_domain (canonical_sha256 (pe_sha E) (pe_trust E) trust_validate (pr_trust r))) (\<lambda>trust.
       Inr (frame (pr_id r) (pr_id r) @ be32 (pr_priority r) @ be32 (pr_cost r)
         @ frame (pr_generation_sha256 r) (pr_generation_sha256 r)
         @ frame (po_sha256 (pr_origin r)) (po_sha256 (pr_origin r))
         @ frame (as_str trust) (as_str trust)
         @ bytes_frame (pr_repomd r) @ bytes_frame (pr_primary r) @ bytes_frame (pr_filelists r)
         @ (if EXTENDED_SNAPSHOT_SCHEMA_VERSION \<le> schema_version
            then role_frame ''file-provides'' (pr_file_provides r) @ role_frame ''group'' (pr_group r)
              @ role_frame ''modules'' (pr_modules r)
            else [])
         @ (if SNAPSHOT_SCHEMA_VERSION \<le> schema_version then role_frame ''updateinfo'' (pr_updateinfo r) else [])))"

definition metadata_domain :: "u32 \<Rightarrow> bytes" where
  "metadata_domain schema_version =
     (if SNAPSHOT_SCHEMA_VERSION \<le> schema_version then ''dnfast-root-metadata-v5''
      else if EXTENDED_SNAPSHOT_SCHEMA_VERSION \<le> schema_version then ''dnfast-root-metadata-v4''
      else ''dnfast-root-metadata-v3'')"

definition metadata_digest ::
  "'j planning_env \<Rightarrow> planning_repository list \<Rightarrow> u32 \<Rightarrow> (planning_error, string) result" where
  "metadata_digest E rs schema_version =
     bindR (mapR (metadata_frame E schema_version) rs) (\<lambda>fs.
       Inr (pe_sha E (metadata_domain schema_version @ concat fs)))"

definition trust_frame :: "'j planning_env \<Rightarrow> planning_repository \<Rightarrow> (planning_error, bytes) result" where
  "trust_frame E r =
     bindR (map_err planning_domain (canonical_sha256 (pe_sha E) (pe_trust E) trust_validate (pr_trust r))) (\<lambda>trust.
       Inr (frame (pr_id r) (pr_id r) @ frame (as_str trust) (as_str trust)))"

definition trust_digest :: "'j planning_env \<Rightarrow> planning_repository list \<Rightarrow> (planning_error, string) result" where
  "trust_digest E rs =
     bindR (mapR (trust_frame E) rs) (\<lambda>fs. Inr (pe_sha E (''dnfast-root-trust-v3'' @ concat fs)))"

definition repository_binding_of ::
  "'j planning_env \<Rightarrow> planning_repository \<Rightarrow> (domain_error, repository_binding) result" where
  "repository_binding_of E r =
     bindR (canonical_sha256 (pe_sha E) (pe_trust E) trust_validate (pr_trust r)) (\<lambda>trust.
     bindR (digest_parse (pr_generation_sha256 r) ''generation_sha256'') (\<lambda>generation.
     bindR (digest_parse (po_sha256 (pr_origin r)) ''origin_sha256'') (\<lambda>origin.
       binding_new (pr_id r) generation origin trust)))"

definition integrity_for_repositories ::
  "'j planning_env \<Rightarrow> planning_snapshot \<Rightarrow> string list \<Rightarrow> (planning_error, plan_integrity) result" where
  "integrity_for_repositories E s ids =
     bindR (snapshot_validate E s) (\<lambda>_.
     bindR (selected_repositories s ids) (\<lambda>selected.
     bindR (map_err planning_domain
         (canonical_sha256 (pe_sha E) (pe_policy E) policy_validate (pp_solver (pl_policy (sn_payload s))))) (\<lambda>policy.
     bindR (map_err planning_domain
         (fst (inventory_sha256 (pe_sha E) (pe_inventory E) (pl_inventory (sn_payload s))))) (\<lambda>inventory.
     bindR (snapshot_digest E s) (\<lambda>snapshot.
     bindR (metadata_digest E selected (sn_schema_version s)) (\<lambda>metadata.
     bindR (trust_digest E selected) (\<lambda>trust.
     bindR (map_err planning_domain (mapR (repository_binding_of E) selected)) (\<lambda>bindings.
       map_err planning_domain
         (integrity_new (as_str policy) trust (as_str inventory) metadata snapshot bindings)))))))))"

section \<open>Reading the published snapshot\<close>

definition pointer_digest :: "bytes \<Rightarrow> (planning_error, string) result" where
  "pointer_digest pointer =
     (if length pointer \<noteq> 65 \<or> pointer ! 64 \<noteq> CHR 0x0A \<or> \<not> list_all is_lower_hex (take 64 pointer)
      then Inl (UnsafeSnapshot ''pointer is not a canonical digest'')
      else Inr (take 64 pointer))"

definition open_snapshot ::
  "'j planning_env \<Rightarrow> string \<Rightarrow> u32 \<Rightarrow> (planning_error, planning_snapshot) result" where
  "open_snapshot E planning_root owner =
     bindR (directory_open (pe_os E) planning_root owner) (\<lambda>planning.
     bindR (directory_read (pe_os E) planning ''current'' 65) (\<lambda>pointer.
     bindR (pointer_digest pointer) (\<lambda>digest.
     bindR (directory_child (pe_os E) planning ''snapshots'') (\<lambda>snapshots.
     bindR (directory_child (pe_os E) snapshots digest) (\<lambda>snapshot.
     bindR (directory_read (pe_os E) snapshot ''snapshot.json'' MAX_SNAPSHOT_BYTES) (\<lambda>bs.
     bindR (snapshot_from_bytes E bs) (\<lambda>result.
     bindR (snapshot_digest E result) (\<lambda>found.
       if found \<noteq> digest then Inl (UnsafeSnapshot ''pointer digest differs from payload'')
       else Inr (attach_storage result planning_root owner)))))))))"

definition current_digest :: "'j planning_env \<Rightarrow> string \<Rightarrow> u32 \<Rightarrow> (planning_error, string) result" where
  "current_digest E planning_root owner =
     bindR (directory_open (pe_os E) planning_root owner) (\<lambda>planning.
     bindR (directory_read (pe_os E) planning ''current'' 65) pointer_digest)"

end
