(* ===== verification/Planning_Digest.thy ===== *)
theory Planning_Digest
  imports Planning_Snapshot
begin

text \<open>
  What a published planning snapshot guarantees: the framed bytes behind the metadata digest determine what they describe, the
  snapshot that is opened is the trusted file its pointer names, and the payloads handed out match their descriptors.
\<close>

section \<open>What the digests bind\<close>

definition hex64 :: "string \<Rightarrow> bool" where
  "hex64 s \<longleftrightarrow> length s = 64 \<and> list_all is_lower_hex s"

text \<open>The pure part of \<open>metadata_frame\<close>, for the trust digest \<open>t\<close>.\<close>

definition metadata_tail :: "u32 \<Rightarrow> planning_repository \<Rightarrow> bytes" where
  "metadata_tail v r =
     (if EXTENDED_SNAPSHOT_SCHEMA_VERSION \<le> v
      then role_frame ''file-provides'' (pr_file_provides r) @ role_frame ''group'' (pr_group r)
        @ role_frame ''modules'' (pr_modules r)
      else [])
     @ (if SNAPSHOT_SCHEMA_VERSION \<le> v then role_frame ''updateinfo'' (pr_updateinfo r) else [])"

definition metadata_body :: "u32 \<Rightarrow> planning_repository \<times> string \<Rightarrow> bytes" where
  "metadata_body v = (\<lambda>(r, t).
     frame (pr_id r) (pr_id r) @ be32 (pr_priority r) @ be32 (pr_cost r)
       @ frame (pr_generation_sha256 r) (pr_generation_sha256 r)
       @ frame (po_sha256 (pr_origin r)) (po_sha256 (pr_origin r))
       @ frame t t @ bytes_frame (pr_repomd r) @ bytes_frame (pr_primary r) @ bytes_frame (pr_filelists r)
       @ metadata_tail v r)"

definition descriptor_view :: "planning_bytes \<Rightarrow> string \<times> u64" where
  "descriptor_view b = (pb_sha256 b, pb_size b)"

text \<open>What a repository contributes.\<close>

definition metadata_view where
  "metadata_view = (\<lambda>(r, t).
     (pr_id r, pr_priority r, pr_cost r, pr_generation_sha256 r, po_sha256 (pr_origin r), t :: string,
      map descriptor_view [pr_repomd r, pr_primary r, pr_filelists r],
      map (map_option descriptor_view) [pr_file_provides r, pr_group r, pr_modules r, pr_updateinfo r]))"

definition metadata_item_ok :: "u32 \<Rightarrow> planning_repository \<times> string \<Rightarrow> bool" where
  "metadata_item_ok v = (\<lambda>(r, t).
     length (pr_id r) < 2 ^ 64 \<and> hex64 (pr_generation_sha256 r) \<and> hex64 (po_sha256 (pr_origin r)) \<and> hex64 t \<and>
     hex64 (pb_sha256 (pr_repomd r)) \<and> hex64 (pb_sha256 (pr_primary r)) \<and> hex64 (pb_sha256 (pr_filelists r)) \<and>
     list_all (pred_option (\<lambda>b. hex64 (pb_sha256 b))) [pr_file_provides r, pr_group r, pr_modules r, pr_updateinfo r] \<and>
     (v < EXTENDED_SNAPSHOT_SCHEMA_VERSION \<longrightarrow> pr_file_provides r = None \<and> pr_group r = None \<and> pr_modules r = None) \<and>
     (v < SNAPSHOT_SCHEMA_VERSION \<longrightarrow> pr_updateinfo r = None))"

lemma hex64_nonzero: "hex64 s \<Longrightarrow> \<exists>c cs. s = c # cs \<and> c \<noteq> CHR 0x00"
  by (cases s) (auto simp: hex64_def is_lower_hex_def ascii_defs)

lemma unat_u32_less: "unat (v :: u32) < 2 ^ 64"
  by (rule less_trans [OF unsigned_less]) simp

lemma unat_u64_less: "unat (v :: u64) < 2 ^ 64"
  by (rule order.strict_trans2 [OF unsigned_less]) simp

lemma frame_split:
  assumes "frame a a @ xs = frame b b @ ys" "length a < 2 ^ 64" "length b < 2 ^ 64"
  shows "a = b \<and> xs = ys"
proof -
  have f: "frame c c = key_frame (c, c)" for c by (simp only: frame_def key_frame_def fst_conv snd_conv)
  have "(a, a) = (b, b) \<and> xs = ys"
    by (rule key_frame_inj) (use assms in \<open>simp_all only: f fst_conv snd_conv\<close>)
  then show ?thesis by simp
qed

lemma length_be32 [simp]: "length (be32 v) = 4"
  by (simp add: be32_def)

lemma be64_be32: "be64 (unat v) = replicate 4 (char_of (0 :: nat)) @ be32 v"
proof -
  have less: "unat v < 256 ^ 4" by (rule order.strict_trans2 [OF unsigned_less]) simp
  have z: "unat v div 256 ^ i = 0" if "4 \<le> i" for i
    using order.strict_trans2 [OF less power_increasing [OF that, of "256 :: nat"]] by simp
  have "replicate 4 (char_of (0 :: nat)) = [char_of (0 :: nat), char_of (0 :: nat), char_of (0 :: nat), char_of (0 :: nat)]"
    by (simp add: numeral_eq_Suc)
  moreover have "be64 (unat v) = map (\<lambda>i. char_of (unat v div 256 ^ i)) [7, 6, 5, 4] @ be32 v"
    by (simp only: be64_def be32_def map_append [symmetric] append.simps)
  moreover have "unat v div 256 ^ 7 = 0" "unat v div 256 ^ 6 = 0" "unat v div 256 ^ 5 = 0" "unat v div 256 ^ 4 = 0"
    by (rule z, simp)+
  ultimately show ?thesis by (simp only: list.map)
qed

lemma be32_split: "be32 p @ xs = be32 q @ ys \<Longrightarrow> p = q \<and> xs = ys"
proof -
  assume eq: "be32 p @ xs = be32 q @ ys"
  then have "be32 p = be32 q" and xs: "xs = ys" by (simp_all add: append_eq_append_conv)
  then have "be64 (unat p) = be64 (unat q)" by (simp only: be64_be32)
  then have "unat p = unat q" using be64_inj unat_u32_less by blast
  then show "p = q \<and> xs = ys" using xs by (simp add: word_unat_eq_iff)
qed

lemma bytes_frame_split:
  assumes eq: "bytes_frame a @ xs = bytes_frame b @ ys" and ok: "hex64 (pb_sha256 a)" "hex64 (pb_sha256 b)"
  shows "descriptor_view a = descriptor_view b \<and> xs = ys"
proof -
  have 1: "pb_sha256 a = pb_sha256 b \<and> be64 (unat (pb_size a)) @ xs = be64 (unat (pb_size b)) @ ys"
    by (rule frame_split) (use eq ok in \<open>simp_all add: bytes_frame_def hex64_def\<close>)
  then have "be64 (unat (pb_size a)) = be64 (unat (pb_size b))" "xs = ys" by (simp_all add: append_eq_append_conv)
  moreover from this(1) have "unat (pb_size a) = unat (pb_size b)" using be64_inj unat_u64_less by blast
  ultimately show ?thesis using 1 by (simp add: descriptor_view_def word_unat_eq_iff)
qed

text \<open>An optional descriptor is recognised by what follows it.\<close>

abbreviation opt_frame :: "planning_bytes option \<Rightarrow> bytes" where
  "opt_frame b \<equiv> (case b of None \<Rightarrow> [] | Some x \<Rightarrow> bytes_frame x)"

lemma opt_frame_split:
  assumes eq: "opt_frame a @ xs = opt_frame b @ ys"
    and ok: "pred_option (\<lambda>x. hex64 (pb_sha256 x)) a" "pred_option (\<lambda>x. hex64 (pb_sha256 x)) b"
    and clash: "\<And>x. hex64 (pb_sha256 x) \<Longrightarrow> bytes_frame x @ xs \<noteq> ys" "\<And>x. hex64 (pb_sha256 x) \<Longrightarrow> bytes_frame x @ ys \<noteq> xs"
  shows "map_option descriptor_view a = map_option descriptor_view b \<and> xs = ys"
proof (cases a)
  case a: None
  show ?thesis
  proof (cases b)
    case (Some y)
    then show ?thesis using eq ok(2) clash(2) [of y] a by simp
  qed (use eq a in simp)
next
  case a: (Some x)
  show ?thesis
  proof (cases b)
    case None
    then show ?thesis using eq ok(1) clash(1) [of x] a by simp
  next
    case (Some y)
    then show ?thesis using bytes_frame_split [of x xs y ys] eq ok a by simp
  qed
qed

lemma bytes_frame_role:
  assumes "hex64 (pb_sha256 x)" "length role < 2 ^ 64" "length role \<noteq> 64"
  shows "bytes_frame x @ xs \<noteq> frame role role @ ys"
proof
  assume "bytes_frame x @ xs = frame role role @ ys"
  then have "frame (pb_sha256 x) (pb_sha256 x) @ be64 (unat (pb_size x)) @ xs = frame role role @ ys"
    by (simp add: bytes_frame_def)
  moreover have "length (pb_sha256 x) < 2 ^ 64" using assms(1) by (simp add: hex64_def)
  ultimately have "pb_sha256 x = role" using frame_split assms(2) by blast
  then show False using assms by (simp add: hex64_def)
qed

lemma role_split:
  assumes eq: "role_frame role a @ frame m m @ xs = role_frame role b @ frame m m @ ys"
    and len: "length role < 2 ^ 64" "length m < 2 ^ 64" "length m \<noteq> 64"
    and ok: "pred_option (\<lambda>x. hex64 (pb_sha256 x)) a" "pred_option (\<lambda>x. hex64 (pb_sha256 x)) b"
  shows "map_option descriptor_view a = map_option descriptor_view b \<and> xs = ys"
proof -
  have "opt_frame a @ frame m m @ xs = opt_frame b @ frame m m @ ys"
    using eq by (simp add: role_frame_def)
  then have "map_option descriptor_view a = map_option descriptor_view b \<and> frame m m @ xs = frame m m @ ys"
    by (rule opt_frame_split [OF _ ok]) (rule bytes_frame_role [OF _ len(2,3)], assumption)+
  then show ?thesis by simp
qed

text \<open>A descriptor cannot be taken for the start of the next repository.\<close>

abbreviation metadata_stream :: "u32 \<Rightarrow> (planning_repository \<times> string) list \<Rightarrow> bytes" where
  "metadata_stream v xs \<equiv> concat (map (metadata_body v) xs)"

lemma metadata_body_split:
  obtains z :: bytes where "metadata_body v (r, t) = frame (pr_id r) (pr_id r) @ be32 (pr_priority r) @ be32 (pr_cost r)
       @ frame (pr_generation_sha256 r) (pr_generation_sha256 r)
       @ frame (po_sha256 (pr_origin r)) (po_sha256 (pr_origin r)) @ z"
  by (rule that, unfold metadata_body_def prod.case, rule refl)

lemma be64_small: "n < 256 \<Longrightarrow> be64 n = replicate 7 (char_of (0 :: nat)) @ [char_of n]"
proof -
  assume n: "n < 256"
  have z: "n div 256 ^ i = 0" if "1 \<le> i" for i
    using order.strict_trans2 [of n "256 ^ 1" "256 ^ i"] power_increasing [OF that, of "256 :: nat"] n by simp
  have "n div 256 ^ 7 = 0" "n div 256 ^ 6 = 0" "n div 256 ^ 5 = 0" "n div 256 ^ 4 = 0" "n div 256 ^ 3 = 0"
    "n div 256 ^ 2 = 0" "n div 256 ^ 1 = 0" "n div 256 ^ 0 = n"
    by (rule z, simp)+ simp
  moreover have "replicate 7 c @ [d] = [c, c, c, c, c, c, c, d]" for c d :: char by (simp add: numeral_eq_Suc)
  ultimately show ?thesis by (simp only: be64_def list.map)
qed

lemma frame_hex_start: "hex64 s \<Longrightarrow> \<exists>z. frame s s @ xs = be64 64 @ s @ z"
  by (auto simp: frame_def hex64_def)

lemma stream_clash_aux:
  assumes "hex64 g" "hex64 g'" "hex64 o'" "length i < 2 ^ 64"
  shows "frame i i @ be32 p @ be32 c @ frame g g @ z \<noteq> frame g' g' @ frame o' o' @ z'"
proof
  assume eq: "frame i i @ be32 p @ be32 c @ frame g g @ z = frame g' g' @ frame o' o' @ z'"
  have "length g' < 2 ^ 64" using assms(2) by (simp add: hex64_def)
  then have "be32 p @ be32 c @ frame g g @ z = frame o' o' @ z'" using frame_split eq assms(4) by blast
  then obtain y y' where "(be32 p @ be32 c) @ be64 64 @ y = be64 64 @ o' @ y'"
    using frame_hex_start [OF assms(1), of z] frame_hex_start [OF assms(3), of z'] by auto
  then have e: "be64 64 @ y = o' @ y'" by (subst (asm) append_eq_append_conv) simp_all
  obtain ch cs where ch: "o' = ch # cs" "ch \<noteq> CHR 0x00" using hex64_nonzero [OF assms(3)] by blast
  have "char_of (0 :: nat) = CHR 0x00" by code_simp
  moreover have "hd (be64 64 @ y) = char_of (0 :: nat)" by (simp add: be64_small numeral_eq_Suc)
  ultimately show False using e ch by simp
qed

lemma metadata_item_okD:
  "metadata_item_ok v (r, t) \<Longrightarrow> length (pr_id r) < 2 ^ 64 \<and> hex64 (pr_generation_sha256 r) \<and> hex64 (po_sha256 (pr_origin r))"
  by (simp add: metadata_item_ok_def)

lemma stream_clash:
  assumes x: "hex64 (pb_sha256 x)" and xs: "list_all (metadata_item_ok v) xs" and ys: "list_all (metadata_item_ok v) ys"
  shows "bytes_frame x @ metadata_stream v xs \<noteq> metadata_stream v ys"
proof
  assume eq: "bytes_frame x @ metadata_stream v xs = metadata_stream v ys"
  have "ys \<noteq> []" using eq by (auto simp: bytes_frame_def frame_def)
  then obtain r t ys' where ysd: "ys = (r, t) # ys'" by (cases ys) auto
  note ok = metadata_item_okD [of v r t]
  have okr: "metadata_item_ok v (r, t)" using ys ysd by simp
  obtain z where z: "metadata_body v (r, t) = frame (pr_id r) (pr_id r) @ be32 (pr_priority r) @ be32 (pr_cost r)
       @ frame (pr_generation_sha256 r) (pr_generation_sha256 r) @ frame (po_sha256 (pr_origin r)) (po_sha256 (pr_origin r)) @ z"
    by (rule metadata_body_split)
  have eq': "frame (pb_sha256 x) (pb_sha256 x) @ be64 (unat (pb_size x)) @ metadata_stream v xs =
      frame (pr_id r) (pr_id r) @ be32 (pr_priority r) @ be32 (pr_cost r)
       @ frame (pr_generation_sha256 r) (pr_generation_sha256 r) @ frame (po_sha256 (pr_origin r)) (po_sha256 (pr_origin r))
       @ z @ metadata_stream v ys'"
    using eq by (simp add: ysd z bytes_frame_def)
  have "length (pb_sha256 x) < 2 ^ 64" using x by (simp add: hex64_def)
  then have "be64 (unat (pb_size x)) @ metadata_stream v xs = (be32 (pr_priority r) @ be32 (pr_cost r))
       @ frame (pr_generation_sha256 r) (pr_generation_sha256 r) @ frame (po_sha256 (pr_origin r)) (po_sha256 (pr_origin r))
       @ z @ metadata_stream v ys'"
    using frame_split [OF eq'] ok [OF okr] by simp
  then have rest: "metadata_stream v xs = frame (pr_generation_sha256 r) (pr_generation_sha256 r)
       @ frame (po_sha256 (pr_origin r)) (po_sha256 (pr_origin r)) @ z @ metadata_stream v ys'"
    by (subst (asm) append_eq_append_conv) simp_all
  then have "xs \<noteq> []" by (auto simp: frame_def)
  then obtain q u xs' where xsd: "xs = (q, u) # xs'" by (cases xs) auto
  have okq: "metadata_item_ok v (q, u)" using xs xsd by simp
  obtain w where w: "metadata_body v (q, u) = frame (pr_id q) (pr_id q) @ be32 (pr_priority q) @ be32 (pr_cost q)
       @ frame (pr_generation_sha256 q) (pr_generation_sha256 q) @ frame (po_sha256 (pr_origin q)) (po_sha256 (pr_origin q)) @ w"
    by (rule metadata_body_split)
  show False
    using stream_clash_aux [of "pr_generation_sha256 q" "pr_generation_sha256 r" "po_sha256 (pr_origin r)" "pr_id q"]
      metadata_item_okD [OF okq] ok [OF okr] rest
    by (simp add: xsd w)
qed

abbreviation opt_hex :: "planning_bytes option \<Rightarrow> bool" where
  "opt_hex \<equiv> pred_option (\<lambda>x. hex64 (pb_sha256 x))"

lemma last_role_split:
  assumes eq: "role_frame role a @ metadata_stream v xs = role_frame role b @ metadata_stream v ys"
    and ok: "opt_hex a" "opt_hex b" and xs: "list_all (metadata_item_ok v) xs" and ys: "list_all (metadata_item_ok v) ys"
  shows "map_option descriptor_view a = map_option descriptor_view b \<and> metadata_stream v xs = metadata_stream v ys"
  by (rule opt_frame_split [OF _ ok stream_clash [OF _ xs ys] stream_clash [OF _ ys xs]])
    (use eq in \<open>simp_all add: role_frame_def\<close>)

lemma role_then_role_split:
  assumes eq: "role_frame role a @ role_frame m c @ xs = role_frame role b @ role_frame m d @ ys"
    and len: "length role < 2 ^ 64" "length m < 2 ^ 64" "length m \<noteq> 64" and ok: "opt_hex a" "opt_hex b"
  shows "map_option descriptor_view a = map_option descriptor_view b \<and> role_frame m c @ xs = role_frame m d @ ys"
proof -
  have "map_option descriptor_view a = map_option descriptor_view b \<and> opt_frame c @ xs = opt_frame d @ ys"
    by (rule role_split [OF _ len ok]) (use eq in \<open>simp only: role_frame_def append_assoc\<close>)
  then show ?thesis by (simp only: role_frame_def append_assoc simp_thms)
qed

lemma metadata_tail_split:
  assumes eq: "metadata_tail v r @ metadata_stream v xs = metadata_tail v r' @ metadata_stream v ys"
    and ok: "metadata_item_ok v (r, t)" "metadata_item_ok v (r', t')"
    and xs: "list_all (metadata_item_ok v) xs" and ys: "list_all (metadata_item_ok v) ys"
  shows "map (map_option descriptor_view) [pr_file_provides r, pr_group r, pr_modules r, pr_updateinfo r] =
      map (map_option descriptor_view) [pr_file_provides r', pr_group r', pr_modules r', pr_updateinfo r'] \<and>
    metadata_stream v xs = metadata_stream v ys"
proof -
  have hex: "opt_hex (pr_file_provides r)" "opt_hex (pr_group r)" "opt_hex (pr_modules r)" "opt_hex (pr_updateinfo r)"
    "opt_hex (pr_file_provides r')" "opt_hex (pr_group r')" "opt_hex (pr_modules r')" "opt_hex (pr_updateinfo r')"
    using ok by (simp_all add: metadata_item_ok_def)
  have l: "length ''file-provides'' < 2 ^ 64" "length ''group'' < 2 ^ 64" "length ''group'' \<noteq> 64"
    "length ''modules'' < 2 ^ 64" "length ''modules'' \<noteq> 64" "length ''updateinfo'' < 2 ^ 64" "length ''updateinfo'' \<noteq> 64"
    by simp_all
  consider (old) "v < EXTENDED_SNAPSHOT_SCHEMA_VERSION"
    | (extended) "EXTENDED_SNAPSHOT_SCHEMA_VERSION \<le> v" "v < SNAPSHOT_SCHEMA_VERSION"
    | (current) "EXTENDED_SNAPSHOT_SCHEMA_VERSION \<le> v" "SNAPSHOT_SCHEMA_VERSION \<le> v"
    by (meson not_le)
  then show ?thesis
  proof cases
    case old
    then have "v < SNAPSHOT_SCHEMA_VERSION"
      by (rule less_trans) (simp add: EXTENDED_SNAPSHOT_SCHEMA_VERSION_def SNAPSHOT_SCHEMA_VERSION_def)
    then show ?thesis using old ok eq by (simp add: metadata_item_ok_def metadata_tail_def)
  next
    case extended
    then have "\<not> SNAPSHOT_SCHEMA_VERSION \<le> v" by (simp only: not_le)
    with extended(1) have e: "role_frame ''file-provides'' (pr_file_provides r) @ role_frame ''group'' (pr_group r) @
        role_frame ''modules'' (pr_modules r) @ metadata_stream v xs =
      role_frame ''file-provides'' (pr_file_provides r') @ role_frame ''group'' (pr_group r') @
        role_frame ''modules'' (pr_modules r') @ metadata_stream v ys"
      using eq by (simp add: metadata_tail_def)
    note 1 = role_then_role_split [OF e l(1,2,3) hex(1,5)]
    note 2 = role_then_role_split [OF conjunct2 [OF 1] l(2,4,5) hex(2,6)]
    note 3 = last_role_split [OF conjunct2 [OF 2] hex(3,7) xs ys]
    have "pr_updateinfo r = None \<and> pr_updateinfo r' = None" using ok extended(2) by (simp add: metadata_item_ok_def)
    then show ?thesis using 1 2 3 by simp
  next
    case current
    then have e: "role_frame ''file-provides'' (pr_file_provides r) @ role_frame ''group'' (pr_group r) @
        role_frame ''modules'' (pr_modules r) @ role_frame ''updateinfo'' (pr_updateinfo r) @ metadata_stream v xs =
      role_frame ''file-provides'' (pr_file_provides r') @ role_frame ''group'' (pr_group r') @
        role_frame ''modules'' (pr_modules r') @ role_frame ''updateinfo'' (pr_updateinfo r') @ metadata_stream v ys"
      using eq by (simp add: metadata_tail_def)
    note 1 = role_then_role_split [OF e l(1,2,3) hex(1,5)]
    note 2 = role_then_role_split [OF conjunct2 [OF 1] l(2,4,5) hex(2,6)]
    note 3 = role_then_role_split [OF conjunct2 [OF 2] l(4,6,7) hex(3,7)]
    note 4 = last_role_split [OF conjunct2 [OF 3] hex(4,8) xs ys]
    show ?thesis using 1 2 3 4 by simp
  qed
qed

lemma metadata_body_eq:
  "metadata_body v (r, t) = frame (pr_id r) (pr_id r) @ be32 (pr_priority r) @ be32 (pr_cost r)
       @ frame (pr_generation_sha256 r) (pr_generation_sha256 r)
       @ frame (po_sha256 (pr_origin r)) (po_sha256 (pr_origin r))
       @ frame t t @ bytes_frame (pr_repomd r) @ bytes_frame (pr_primary r) @ bytes_frame (pr_filelists r)
       @ metadata_tail v r"
  by (simp only: metadata_body_def prod.case)

lemma metadata_item_split:
  assumes eq: "metadata_body v (r, t) @ metadata_stream v xs = metadata_body v (r', t') @ metadata_stream v ys"
    and ok: "metadata_item_ok v (r, t)" "metadata_item_ok v (r', t')"
    and xs: "list_all (metadata_item_ok v) xs" and ys: "list_all (metadata_item_ok v) ys"
  shows "metadata_view (r, t) = metadata_view (r', t') \<and> metadata_stream v xs = metadata_stream v ys"
proof -
  have len: "length s < 2 ^ 64" if "hex64 s" for s using that by (simp add: hex64_def)
  have hex: "hex64 (pr_generation_sha256 r)" "hex64 (po_sha256 (pr_origin r))" "hex64 t"
     "hex64 (pb_sha256 (pr_repomd r))" "hex64 (pb_sha256 (pr_primary r))" "hex64 (pb_sha256 (pr_filelists r))"
     and hex': "hex64 (pr_generation_sha256 r')" "hex64 (po_sha256 (pr_origin r'))" "hex64 t'"
     "hex64 (pb_sha256 (pr_repomd r'))" "hex64 (pb_sha256 (pr_primary r'))" "hex64 (pb_sha256 (pr_filelists r'))"
     and ids: "length (pr_id r) < 2 ^ 64" "length (pr_id r') < 2 ^ 64"
    using ok by (simp_all add: metadata_item_ok_def)
  note flat = eq [unfolded metadata_body_eq append_assoc]
  note 1 = frame_split [OF flat ids]
  note 2 = be32_split [OF conjunct2 [OF 1]]
  note 3 = be32_split [OF conjunct2 [OF 2]]
  note 4 = frame_split [OF conjunct2 [OF 3] len [OF hex(1)] len [OF hex'(1)]]
  note 5 = frame_split [OF conjunct2 [OF 4] len [OF hex(2)] len [OF hex'(2)]]
  note 6 = frame_split [OF conjunct2 [OF 5] len [OF hex(3)] len [OF hex'(3)]]
  note 7 = bytes_frame_split [OF conjunct2 [OF 6] hex(4) hex'(4)]
  note 8 = bytes_frame_split [OF conjunct2 [OF 7] hex(5) hex'(5)]
  note 9 = bytes_frame_split [OF conjunct2 [OF 8] hex(6) hex'(6)]
  note 10 = metadata_tail_split [OF conjunct2 [OF 9] ok xs ys]
  show ?thesis using 1 2 3 4 5 6 7 8 9 10 by (simp add: metadata_view_def)
qed

lemma metadata_body_nonempty: "metadata_body v x \<noteq> []"
  by (cases x) (simp add: metadata_body_def frame_def)

lemma metadata_stream_inj:
  "metadata_stream v xs = metadata_stream v ys \<Longrightarrow> list_all (metadata_item_ok v) xs \<Longrightarrow> list_all (metadata_item_ok v) ys \<Longrightarrow>
   map metadata_view xs = map metadata_view ys"
proof (induction xs arbitrary: ys)
  case Nil
  then show ?case by (cases ys) (simp_all add: metadata_body_nonempty)
next
  case (Cons x xs)
  have "ys \<noteq> []" using Cons.prems(1) by (auto simp: metadata_body_nonempty)
  then obtain y ys' where ys: "ys = y # ys'" by (cases ys) auto
  obtain r t r' t' where xy: "x = (r, t)" "y = (r', t')" by (cases x, cases y)
  have "metadata_view x = metadata_view y \<and> metadata_stream v xs = metadata_stream v ys'"
    unfolding xy by (rule metadata_item_split) (use Cons.prems xy ys in simp_all)
  then show ?case using Cons.IH [of ys'] Cons.prems ys by simp
qed

lemma metadata_body_view:
  assumes "metadata_view x = metadata_view y"
  shows "metadata_body v x = metadata_body v y"
proof -
  obtain r t r' t' where xy: "x = (r, t)" "y = (r', t')" by (cases x, cases y)
  have b: "bytes_frame p = bytes_frame q" if "descriptor_view p = descriptor_view q" for p q
    using that by (simp add: descriptor_view_def bytes_frame_def)
  have o: "role_frame m p = role_frame m q" if pq: "map_option descriptor_view p = map_option descriptor_view q" for m p q
  proof (cases p)
    case (Some x)
    then obtain y where "q = Some y" "descriptor_view x = descriptor_view y" using pq by (cases q) simp_all
    then show ?thesis using b [of x y] Some by (simp only: role_frame_def option.case)
  qed (use pq in \<open>cases q; simp add: role_frame_def\<close>)
  have v: "pr_id r = pr_id r'" "pr_priority r = pr_priority r'" "pr_cost r = pr_cost r'"
    "pr_generation_sha256 r = pr_generation_sha256 r'" "po_sha256 (pr_origin r) = po_sha256 (pr_origin r')" "t = t'"
    "descriptor_view (pr_repomd r) = descriptor_view (pr_repomd r')"
    "descriptor_view (pr_primary r) = descriptor_view (pr_primary r')"
    "descriptor_view (pr_filelists r) = descriptor_view (pr_filelists r')"
    "map_option descriptor_view (pr_file_provides r) = map_option descriptor_view (pr_file_provides r')"
    "map_option descriptor_view (pr_group r) = map_option descriptor_view (pr_group r')"
    "map_option descriptor_view (pr_modules r) = map_option descriptor_view (pr_modules r')"
    "map_option descriptor_view (pr_updateinfo r) = map_option descriptor_view (pr_updateinfo r')"
    using assms by (simp_all add: xy metadata_view_def)
  have "metadata_tail v r = metadata_tail v r'"
    unfolding metadata_tail_def o [OF v(10)] o [OF v(11)] o [OF v(12)] o [OF v(13)] by (rule refl)
  then show ?thesis
    unfolding xy metadata_body_eq v(1-6) b [OF v(7)] b [OF v(8)] b [OF v(9)] by (simp only:)
qed

text \<open>The bytes the metadata digest is taken of, and the trust digest a repository contributes.\<close>

definition metadata_preimage ::
  "'j planning_env \<Rightarrow> planning_repository list \<Rightarrow> u32 \<Rightarrow> (planning_error, bytes) result" where
  "metadata_preimage E rs v = bindR (mapR (metadata_frame E v) rs) (\<lambda>fs. Inr (metadata_domain v @ concat fs))"

definition trust_sha :: "'j planning_env \<Rightarrow> planning_repository \<Rightarrow> string" where
  "trust_sha E r =
     (case canonical_sha256 (pe_sha E) (pe_trust E) trust_validate (pr_trust r) of Inr d \<Rightarrow> as_str d | Inl _ \<Rightarrow> [])"

lemma metadata_digest_preimage:
  "metadata_digest E rs v = bindR (metadata_preimage E rs v) (\<lambda>p. Inr (pe_sha E p))"
  by (cases "mapR (metadata_frame E v) rs") (simp_all add: metadata_digest_def metadata_preimage_def)

lemma validate_shape_hex: "validate_shape b v = Inr () \<Longrightarrow> hex64 (pb_sha256 b)"
  by (simp add: validate_shape_def hex64_def split: if_splits)

lemma check_shapes_hex:
  assumes "check_shapes r v = Inr ()"
  shows "hex64 (pb_sha256 (pr_repomd r)) \<and> hex64 (pb_sha256 (pr_primary r)) \<and> hex64 (pb_sha256 (pr_filelists r)) \<and>
    list_all (pred_option (\<lambda>b. hex64 (pb_sha256 b))) [pr_file_provides r, pr_group r, pr_modules r, pr_updateinfo r]"
proof -
  have o: "pred_option (\<lambda>b. hex64 (pb_sha256 b)) x"
    if "\<forall>b\<in>set (case x of None \<Rightarrow> [] | Some b \<Rightarrow> [b]). validate_shape b v = Inr ()" for x
    using that by (cases x) (simp_all add: validate_shape_hex [of _ v])
  show ?thesis
    using assms o [of "pr_file_provides r"] o [of "pr_group r"] o [of "pr_modules r"] o [of "pr_updateinfo r"]
    by (simp add: check_shapes_def bindR_eq_Inr forR_eq_Inr validate_shape_hex [of _ v])
qed

lemma validate_repository_item:
  assumes ok: "validate_repository E r v = Inr ()" and sha: "\<forall>b. hex64 (pe_sha E b)" and len: "length (pr_id r) < 2 ^ 64"
  shows "metadata_item_ok v (r, trust_sha E r)" "metadata_frame E v r = Inr (metadata_body v (r, trust_sha E r))"
proof -
  obtain d where trust: "canonical_sha256 (pe_sha E) (pe_trust E) trust_validate (pr_trust r) = Inr d"
    and shapes: "check_shapes r v = Inr ()" and gen: "pr_generation_sha256 r = pb_sha256 (pr_repomd r)"
    and origin: "po_sha256 (pr_origin r) = pe_sha E (po_repomd_url (pr_origin r))"
    and old: "v < EXTENDED_SNAPSHOT_SCHEMA_VERSION \<longrightarrow> pr_file_provides r = None \<and> pr_group r = None \<and> pr_modules r = None"
      "v < SNAPSHOT_SCHEMA_VERSION \<longrightarrow> pr_updateinfo r = None"
    using ok by (auto simp: validate_repository_def bindR_eq_Inr map_err_eq_Inr split: if_splits)
  have "digest_wf d" using trust
    by (auto simp: canonical_sha256_def bindR_eq_Inr digest_parse_def digest_wf_def list_all_iff lowercase_is_lower_hex
        split: if_splits)
  then have t: "trust_sha E r = as_str d" "hex64 (as_str d)" by (simp_all add: trust_sha_def trust hex64_def digest_wf_def)
  note h = check_shapes_hex [OF shapes]
  have "hex64 (po_sha256 (pr_origin r))" using sha origin by simp
  then show "metadata_item_ok v (r, trust_sha E r)"
    using h gen old len t unfolding metadata_item_ok_def prod.case by (intro conjI) simp_all
  show "metadata_frame E v r = Inr (metadata_body v (r, trust_sha E r))"
    by (simp only: metadata_frame_def trust map_err_simps bindR_Inr metadata_body_eq t metadata_tail_def append_assoc)
qed

lemma snapshot_selected_valid:
  assumes "snapshot_validate E s = Inr ()" "selected_repositories s ids = Inr rs" "r \<in> set rs"
  shows "validate_repository E r (sn_schema_version s) = Inr ()"
proof -
  obtain i where "List.find (\<lambda>r. pr_id r = i) (pl_allowed_repositories (sn_payload s)) = Some r"
    using assms(2,3)
    by (auto simp: selected_repositories_def Let_def mapR_eq_Inr ok_or_eq_Inr in_set_conv_nth split: if_splits)
  then have "r \<in> set (pl_allowed_repositories (sn_payload s))" by (auto simp: find_Some_iff)
  then show ?thesis
    using assms(1) by (auto simp: snapshot_validate_def bindR_eq_Inr forR_eq_Inr split: if_splits)
qed

lemma metadata_preimage_stream:
  assumes "\<forall>r\<in>set rs. validate_repository E r v = Inr ()" "\<forall>b. hex64 (pe_sha E b)" "\<forall>r\<in>set rs. length (pr_id r) < 2 ^ 64"
  shows "metadata_preimage E rs v = Inr (metadata_domain v @ metadata_stream v (map (\<lambda>r. (r, trust_sha E r)) rs)) \<and>
    list_all (metadata_item_ok v) (map (\<lambda>r. (r, trust_sha E r)) rs)"
proof -
  have "mapR (metadata_frame E v) rs = Inr (map (\<lambda>r. metadata_body v (r, trust_sha E r)) rs)"
    by (rule mapR_all_Inr) (use assms validate_repository_item(2) in blast)
  moreover have "list_all (metadata_item_ok v) (map (\<lambda>r. (r, trust_sha E r)) rs)"
    unfolding list_all_iff set_map ball_simps using assms validate_repository_item(1) by blast
  ultimately show ?thesis by (simp add: metadata_preimage_def comp_def)
qed

lemma metadata_domain_levels:
  assumes d: "metadata_domain v = metadata_domain v'"
  shows "SNAPSHOT_SCHEMA_VERSION \<le> v \<longleftrightarrow> SNAPSHOT_SCHEMA_VERSION \<le> v'"
    "EXTENDED_SNAPSHOT_SCHEMA_VERSION \<le> v \<longleftrightarrow> EXTENDED_SNAPSHOT_SCHEMA_VERSION \<le> v'"
proof -
  have le: "SNAPSHOT_SCHEMA_VERSION \<le> w \<Longrightarrow> EXTENDED_SNAPSHOT_SCHEMA_VERSION \<le> w" for w
    by (rule order_trans [of _ SNAPSHOT_SCHEMA_VERSION])
      (simp_all add: EXTENDED_SNAPSHOT_SCHEMA_VERSION_def SNAPSHOT_SCHEMA_VERSION_def)
  show "SNAPSHOT_SCHEMA_VERSION \<le> v \<longleftrightarrow> SNAPSHOT_SCHEMA_VERSION \<le> v'"
    "EXTENDED_SNAPSHOT_SCHEMA_VERSION \<le> v \<longleftrightarrow> EXTENDED_SNAPSHOT_SCHEMA_VERSION \<le> v'"
    using d le [of v] le [of v'] by (auto simp: metadata_domain_def split: if_splits)
qed

lemma metadata_body_domain:
  assumes d: "metadata_domain v = metadata_domain v'"
  shows "metadata_body v = metadata_body v'"
proof -
  have "metadata_tail v = metadata_tail v'"
    unfolding metadata_tail_def by (intro ext) (simp only: metadata_domain_levels [OF d])
  then show ?thesis unfolding metadata_body_def by simp
qed

lemma metadata_item_ok_domain:
  assumes d: "metadata_domain v = metadata_domain v'"
  shows "metadata_item_ok v = metadata_item_ok v'"
proof -
  have "v < EXTENDED_SNAPSHOT_SCHEMA_VERSION \<longleftrightarrow> v' < EXTENDED_SNAPSHOT_SCHEMA_VERSION"
    "v < SNAPSHOT_SCHEMA_VERSION \<longleftrightarrow> v' < SNAPSHOT_SCHEMA_VERSION"
    using metadata_domain_levels [OF d] by (simp_all only: not_le [symmetric])
  then show ?thesis unfolding metadata_item_ok_def by (simp only:)
qed

lemma metadata_domain_length: "length (metadata_domain v) = 23"
  by (simp add: metadata_domain_def)

lemma map_eq_transfer:
  "map f xs = map f ys \<Longrightarrow> (\<And>x y. f x = f y \<Longrightarrow> g x = g y) \<Longrightarrow> map g xs = map g ys"
proof (induction xs arbitrary: ys)
  case (Cons x xs)
  obtain y ys' where ys: "ys = y # ys'" "f x = f y" "map f xs = map f ys'"
    using Cons.prems(1) by (cases ys) simp_all
  show ?case using Cons.prems(2) [OF ys(2)] Cons.IH [OF ys(3) Cons.prems(2)] ys(1) by simp
qed simp

lemma metadata_preimage_inj:
  assumes "\<forall>r\<in>set rs. validate_repository E r v = Inr ()" "\<forall>r\<in>set rs'. validate_repository E r v' = Inr ()"
    and sha: "\<forall>b. hex64 (pe_sha E b)"
    and len: "\<forall>r\<in>set rs. length (pr_id r) < 2 ^ 64" "\<forall>r\<in>set rs'. length (pr_id r) < 2 ^ 64"
  shows "metadata_preimage E rs v = metadata_preimage E rs' v' \<longleftrightarrow>
    metadata_domain v = metadata_domain v' \<and>
    map (\<lambda>r. metadata_view (r, trust_sha E r)) rs = map (\<lambda>r. metadata_view (r, trust_sha E r)) rs'"
proof -
  define xs ys where "xs = map (\<lambda>r. (r, trust_sha E r)) rs" and "ys = map (\<lambda>r. (r, trust_sha E r)) rs'"
  note p = metadata_preimage_stream [OF assms(1) sha len(1), folded xs_def]
  note q = metadata_preimage_stream [OF assms(2) sha len(2), folded ys_def]
  have views: "map (\<lambda>r. metadata_view (r, trust_sha E r)) rs = map metadata_view xs"
    "map (\<lambda>r. metadata_view (r, trust_sha E r)) rs' = map metadata_view ys"
    by (simp_all add: xs_def ys_def)
  have "metadata_stream v xs = metadata_stream v ys \<longleftrightarrow> map metadata_view xs = map metadata_view ys"
    if ok: "list_all (metadata_item_ok v) ys"
  proof
    assume "map metadata_view xs = map metadata_view ys"
    then have "map (metadata_body v) xs = map (metadata_body v) ys"
      by (rule map_eq_transfer) (rule metadata_body_view)
    then show "metadata_stream v xs = metadata_stream v ys" by (simp only:)
  qed (use metadata_stream_inj [of v xs ys] p ok in blast)
  moreover have "list_all (metadata_item_ok v) ys" if d: "metadata_domain v = metadata_domain v'"
    using q unfolding metadata_item_ok_domain [OF d] by blast
  moreover have "metadata_preimage E rs v = metadata_preimage E rs' v' \<longleftrightarrow>
      metadata_domain v = metadata_domain v' \<and> metadata_stream v xs = metadata_stream v' ys"
    using p q by (simp add: append_eq_append_conv metadata_domain_length)
  ultimately show ?thesis unfolding views using metadata_body_domain [of v v'] by auto
qed

text \<open>
  Property C12. The metadata digest of a plan binds what the plan was computed from: for the repositories selected
  from two valid snapshots, the bytes that are hashed are equal exactly when the digest domains agree and the
  repositories agree, in order, in identifier, priority, cost, generation, origin, trust policy digest and in the digest and size
  of every metadata payload, optional ones included. No optional payload can be taken for the start of the next repository.
\<close>

theorem metadata_digest_binds:
  assumes "snapshot_validate E s = Inr ()" "snapshot_validate E s' = Inr ()"
    and "selected_repositories s ids = Inr rs" "selected_repositories s' ids' = Inr rs'"
    and "\<forall>b. hex64 (pe_sha E b)" "\<forall>r\<in>set rs \<union> set rs'. length (pr_id r) < 2 ^ 64"
  shows "metadata_digest E rs (sn_schema_version s) = bindR (metadata_preimage E rs (sn_schema_version s)) (\<lambda>p. Inr (pe_sha E p)) \<and>
    (metadata_preimage E rs (sn_schema_version s) = metadata_preimage E rs' (sn_schema_version s') \<longleftrightarrow>
       metadata_domain (sn_schema_version s) = metadata_domain (sn_schema_version s') \<and>
       map (\<lambda>r. metadata_view (r, trust_sha E r)) rs = map (\<lambda>r. metadata_view (r, trust_sha E r)) rs')"
proof -
  have "\<forall>r\<in>set rs. validate_repository E r (sn_schema_version s) = Inr ()"
    "\<forall>r\<in>set rs'. validate_repository E r (sn_schema_version s') = Inr ()"
    using snapshot_selected_valid assms(1-4) by blast+
  then show ?thesis
    using metadata_digest_preimage [of E rs "sn_schema_version s"]
      metadata_preimage_inj [of rs E "sn_schema_version s" rs' "sn_schema_version s'"] assms(5,6) by blast
qed

section \<open>A snapshot for the witnesses\<close>

definition demo_hex :: string where "demo_hex = replicate 64 (CHR ''0'')"

definition demo_bytes :: planning_bytes where
  "demo_bytes = \<lparr>pb_sha256 = demo_hex, pb_size = 3, pb_base64 = []\<rparr>"

definition demo_trust :: repo_trust_policy where
  "demo_trust = \<lparr>tp_schema_version = 1, tp_repo_id = ''fedora'', tp_key_bundle_sha256 = Sha256Digest demo_hex,
     tp_allowed_primary_fingerprints = [replicate 40 (CHR ''A'')], tp_signing_subkey_rule = PrimaryOnly,
     tp_valid_at_unix = 1, tp_require_package_signature = True\<rparr>"

definition demo_repository :: planning_repository where
  "demo_repository = \<lparr>pr_id = ''fedora'', pr_priority = 99, pr_cost = 1000, pr_generation_sha256 = demo_hex,
     pr_origin = \<lparr>po_repomd_url = ''https://h/f/repodata/repomd.xml'', po_sha256 = demo_hex\<rparr>,
     pr_repomd = demo_bytes, pr_primary = demo_bytes, pr_filelists = demo_bytes, pr_file_provides = None,
     pr_group = Some demo_bytes, pr_modules = None, pr_updateinfo = Some demo_bytes, pr_trust = demo_trust,
     pr_keys = [\<lparr>pk_bundle_path = ''/etc/dnfast/keys/fedora/k.asc'', pk_certificate_base64 = ''QQ==''\<rparr>],
     pr_repomd_authentication = TransportOnly\<rparr>"

definition demo_configuration :: planning_configuration where
  "demo_configuration = \<lparr>pc_id = ''fedora'', pc_enabled = True, pc_baseurl = [], pc_metalink = None,
     pc_mirrorlist = None, pc_priority = 99, pc_cost = 1000, pc_excludes = [], pc_includes = [],
     pc_gpgkey = [''/etc/dnfast/keys/fedora/k.asc''], pc_allowed_fingerprints = [replicate 40 (CHR ''a'')],
     pc_repo_gpgcheck = False\<rparr>"

definition demo_snapshot :: planning_snapshot where
  "demo_snapshot = \<lparr>sn_schema_version = 7, sn_published_at_unix = 1, sn_refreshed_repository_ids = [''fedora''],
     sn_payload = \<lparr>pl_policy = \<lparr>pp_solver = fedora44_x86_64 [] [], pp_included_packages = [], pp_installonly_limit = 3\<rparr>,
       pl_inventory = \<lparr>ii_schema_version = 1, ii_install_root = ''/'', ii_rpmdb_backend = ''sqlite'',
         ii_rpm_version = ''4.20'', ii_packages = [], ii_canonical_sha256 = Some (Sha256Digest demo_hex)\<rparr>,
       pl_allowed_repositories = [demo_repository], pl_configuration = [demo_configuration],
       pl_module_state = \<lparr>ms_entries = []\<rparr>\<rparr>,
     sn_planning_root = None, sn_storage_owner = 0\<rparr>"

definition demo_dir :: node where
  "demo_dir = \<lparr>nd_type = DirectoryFile, nd_uid = 0, nd_perm = 0x1ED, nd_nlink = 2, nd_content = None, nd_target = None\<rparr>"

definition demo_file :: "bytes \<Rightarrow> node" where
  "demo_file bs = \<lparr>nd_type = RegularFile, nd_uid = 0, nd_perm = 0x1A4, nd_nlink = 1, nd_content = Some bs, nd_target = None\<rparr>"

definition demo_os :: os where
  "demo_os = \<lparr>os_node = (\<lambda>names.
       if names \<in> {[], [''p''], [''p'', ''snapshots''], [''p'', ''snapshots'', demo_hex], [''p'', ''blobs''], [''p'', ''blobs'', ''sha256'']}
       then Some demo_dir
       else if names = [''p'', ''current''] then Some (demo_file (demo_hex @ [CHR 0x0A]))
       else if names = [''p'', ''snapshots'', demo_hex, ''snapshot.json''] then Some (demo_file ''{}'')
       else if names = [''p'', ''blobs'', ''sha256'', demo_hex] then Some (demo_file ''xml'') else None),
     os_exists = (\<lambda>_. False), os_lstat = (\<lambda>_. None), os_read_dir = (\<lambda>_. None)\<rparr>"

definition demo_url :: "string \<Rightarrow> url" where
  "demo_url v = \<lparr>u_scheme = ''https'', u_username = [], u_password = None, u_host = Some ''h'', u_port = Some 443,
     u_path = ''/f/repodata/repomd.xml'', u_query = None, u_fragment = None, u_str = v\<rparr>"

definition demo_env :: "unit planning_env" where
  "demo_env = \<lparr>pe_sha = (\<lambda>_. demo_hex),
     pe_snapshot = \<lparr>from_slice = (\<lambda>_. Inr demo_snapshot), to_value = (\<lambda>_. Inr ()), to_vec = (\<lambda>_. Inr ''{}'')\<rparr>,
     pe_policy = \<lparr>from_slice = (\<lambda>_. Inl ''''), to_value = (\<lambda>_. Inr ()), to_vec = (\<lambda>_. Inr ''{}'')\<rparr>,
     pe_inventory = \<lparr>from_slice = (\<lambda>_. Inl ''''), to_value = (\<lambda>_. Inr ()), to_vec = (\<lambda>_. Inr ''{}'')\<rparr>,
     pe_trust = \<lparr>from_slice = (\<lambda>_. Inl ''''), to_value = (\<lambda>_. Inr ()), to_vec = (\<lambda>_. Inr ''{}'')\<rparr>,
     pe_url = \<lparr>url_parse = (\<lambda>v. Inr (demo_url v)), url_join = (\<lambda>u _. Inr u), url_set_path = (\<lambda>u _. u)\<rparr>,
     pe_base64 = (\<lambda>_. Some ''A''), pe_os = demo_os\<rparr>"

lemma demo_sha_hex: "\<forall>b. hex64 (pe_sha demo_env b)"
proof -
  have "hex64 demo_hex" by code_simp
  then show ?thesis by (simp add: demo_env_def)
qed

lemma demo_valid: "snapshot_validate demo_env demo_snapshot = Inr ()"
  by code_simp

lemma demo_selected: "selected_repositories demo_snapshot [''fedora''] = Inr [demo_repository]"
  by (simp add: selected_repositories_def demo_snapshot_def demo_repository_def)

theorem metadata_digest_binds_witness:
  "metadata_digest demo_env [demo_repository] 7 = bindR (metadata_preimage demo_env [demo_repository] 7) (\<lambda>p. Inr (pe_sha demo_env p))"
  using metadata_digest_binds [OF demo_valid demo_valid demo_selected demo_selected demo_sha_hex]
  by (simp add: demo_repository_def demo_snapshot_def)

section \<open>What is read from the published snapshot\<close>

lemma pointer_digest_Inr:
  "pointer_digest p = Inr d \<longleftrightarrow> p = d @ [CHR 0x0A] \<and> valid_digest d"
proof
  assume "pointer_digest p = Inr d"
  then have p: "length p = 65" "p ! 64 = CHR 0x0A" "list_all is_lower_hex (take 64 p)" "d = take 64 p"
    by (simp_all add: pointer_digest_def split: if_splits)
  moreover have "p = take 64 p @ [p ! 64]" using p(1) take_Suc_conv_app_nth [of 64 p] by simp
  ultimately show "p = d @ [CHR 0x0A] \<and> valid_digest d" by (simp add: valid_digest_def)
qed (auto simp: pointer_digest_def valid_digest_def nth_append)

text \<open>
  Property C13. The snapshot a caller is given is the one the root published: the pointer and the snapshot file are regular files
  with one link, owned by the expected owner or by root and writable by nobody else, below directories that are trusted in the same
  way from the root on; the file hashes to the digest the pointer names, is the canonical encoding of the value,
  and the value passed the snapshot check.
\<close>

theorem open_snapshot_trusted:
  assumes "open_snapshot E root owner = Inr s"
  shows "\<exists>names d pointer f bs v.
    components root = RootDir # map Normal names \<and> trusted_path (pe_os E) owner (names @ [''snapshots'', d]) \<and>
    os_node (pe_os E) (names @ [''current'']) = Some pointer \<and> trusted_node owner RegularFile pointer \<and>
    nd_content pointer = Some (d @ [CHR 0x0A]) \<and>
    os_node (pe_os E) (names @ [''snapshots'', d, ''snapshot.json'']) = Some f \<and> trusted_node owner RegularFile f \<and>
    nd_content f = Some bs \<and> pe_sha E bs = d \<and> snapshot_bytes E v = Inr bs \<and> snapshot_validate E v = Inr () \<and>
    s = attach_storage v root owner"
proof -
  obtain planning pointer d snapshots snapshot bs v where
    o: "directory_open (pe_os E) root owner = Inr planning" and
    p: "directory_read (pe_os E) planning ''current'' 65 = Inr pointer" and
    d: "pointer_digest pointer = Inr d" and
    c: "directory_child (pe_os E) planning ''snapshots'' = Inr snapshots" and
    c': "directory_child (pe_os E) snapshots d = Inr snapshot" and
    f: "directory_read (pe_os E) snapshot ''snapshot.json'' MAX_SNAPSHOT_BYTES = Inr bs" and
    v: "snapshot_from_bytes E bs = Inr v" "snapshot_digest E v = Inr d" "s = attach_storage v root owner"
    using assms by (auto simp: open_snapshot_def bindR_eq_Inr split: if_splits)
  note P = directory_open_Inr [OF o]
  have tp: "trusted_path (pe_os E) (td_owner planning) (td_names planning)" using P by blast
  note S = directory_child_Inr [OF c tp]
  have ts: "trusted_path (pe_os E) (td_owner snapshots) (td_names snapshots)" using S by auto
  note T = directory_child_Inr [OF c' ts]
  have m: "MAX_SNAPSHOT_BYTES + 1 < 2 ^ 64" by (simp add: MAX_SNAPSHOT_BYTES_def)
  obtain n where n: "os_node (pe_os E) (td_names planning @ [''current'']) = Some n" "trusted_node owner RegularFile n"
    "nd_content n = Some pointer"
    using directory_read_Inr [OF p] P by (auto simp del: One_nat_def)
  obtain q where q: "os_node (pe_os E) (td_names snapshot @ [''snapshot.json'']) = Some q" "trusted_node owner RegularFile q"
    "nd_content q = Some bs"
    using directory_read_Inr [OF f m] P S T by auto
  have "snapshot_bytes E v = Inr bs \<and> snapshot_validate E v = Inr () \<and> pe_sha E bs = d"
    using v by (auto simp: snapshot_from_bytes_def snapshot_digest_def bindR_eq_Inr split: if_splits)
  moreover have "pointer = d @ [CHR 0x0A]" using d by (simp add: pointer_digest_Inr)
  ultimately show ?thesis
    using P S T n q v(3)
    by (intro exI [of _ "td_names planning"] exI [of _ d] exI [of _ n] exI [of _ q] exI [of _ bs] exI [of _ v]) auto
qed

theorem open_snapshot_trusted_witness:
  "\<exists>s. open_snapshot demo_env ''/p'' 0 = Inr s \<and> (\<exists>names d pointer. components ''/p'' = RootDir # map Normal names \<and>
     os_node (pe_os demo_env) (names @ [''current'']) = Some pointer \<and> nd_content pointer = Some (d @ [CHR 0x0A]))"
proof -
  have "map_sum (\<lambda>_. ()) sn_storage_owner (open_snapshot demo_env ''/p'' 0) = Inr 0" by code_simp
  then obtain s where s: "open_snapshot demo_env ''/p'' 0 = Inr s" by (cases "open_snapshot demo_env ''/p'' 0") simp_all
  from open_snapshot_trusted [OF s] show ?thesis using s by blast
qed

lemma directory_read_take:
  "directory_read os d name maximum = Inr bs \<Longrightarrow>
   \<exists>n content. os_node os (td_names d @ [name]) = Some n \<and> trusted_node (td_owner d) RegularFile n \<and>
     nd_content n = Some content \<and> bs = take ((maximum + 1) mod 2 ^ 64) content \<and> length bs \<le> maximum"
  by (auto simp: directory_read_def read_validated_def bindR_eq_Inr map_err_eq_Inr ok_or_eq_Inr Let_def read_node_def
      validate_regular_iff trusted_node_def split: if_splits dest!: openat2_node)

text \<open>
  Property C14. A payload is handed out only if it has exactly the size and digest its descriptor states; one that is not carried in the
  snapshot itself comes from the trusted file of that name in the blob store of the root the snapshot was opened in.
\<close>

theorem materialize_payload_exact:
  assumes "materialize_payload E s b = Inr bs"
  shows "length bs = unat (pb_size b) \<and> pe_sha E bs = pb_sha256 b \<and>
    (pb_base64 b = [] \<longrightarrow> (\<exists>root names f. sn_planning_root s = Some root \<and> components root = RootDir # map Normal names \<and>
       trusted_path (pe_os E) (sn_storage_owner s) (names @ [''blobs'', ''sha256'']) \<and>
       os_node (pe_os E) (names @ [''blobs'', ''sha256'', pb_sha256 b]) = Some f \<and>
       trusted_node (sn_storage_owner s) RegularFile f \<and> nd_content f = Some bs))"
proof -
  have size: "length bs = unat (pb_size b) \<and> pe_sha E bs = pb_sha256 b"
    using assms by (auto simp: materialize_payload_def decode_verified_def bindR_eq_Inr split: if_splits)
  have "\<exists>root names f. sn_planning_root s = Some root \<and> components root = RootDir # map Normal names \<and>
       trusted_path (pe_os E) (sn_storage_owner s) (names @ [''blobs'', ''sha256'']) \<and>
       os_node (pe_os E) (names @ [''blobs'', ''sha256'', pb_sha256 b]) = Some f \<and>
       trusted_node (sn_storage_owner s) RegularFile f \<and> nd_content f = Some bs" if e: "pb_base64 b = []"
  proof -
    define owner where "owner = sn_storage_owner s"
    obtain root where root: "sn_planning_root s = Some root"
      and blob: "read_blob (pe_os E) root owner (pb_sha256 b) (pb_size b) = Inr bs"
      using assms e by (auto simp: materialize_payload_def decode_verified_def storage_def owner_def bindR_eq_Inr
          ok_or_eq_Inr split: if_splits)
    obtain planning blobs dir where o: "directory_open (pe_os E) root owner = Inr planning"
      and c: "directory_child (pe_os E) planning ''blobs'' = Inr blobs" and c': "directory_child (pe_os E) blobs ''sha256'' = Inr dir"
      and r: "directory_read (pe_os E) dir (pb_sha256 b) (unat (pb_size b) + 1) = Inr bs" and small: "\<not> 2 ^ 64 \<le> unat (pb_size b) + 1"
      using blob by (auto simp: read_blob_def bindR_eq_Inr split: if_splits)
    note P = directory_open_Inr [OF o]
    have tp: "trusted_path (pe_os E) (td_owner planning) (td_names planning)" using P by blast
    note S = directory_child_Inr [OF c tp]
    have ts: "trusted_path (pe_os E) (td_owner blobs) (td_names blobs)" using S by auto
    note T = directory_child_Inr [OF c' ts]
    obtain f content where f: "os_node (pe_os E) (td_names dir @ [pb_sha256 b]) = Some f" "trusted_node (td_owner dir) RegularFile f"
      "nd_content f = Some content" "bs = take ((unat (pb_size b) + 1 + 1) mod 2 ^ 64) content"
      using directory_read_take [OF r] by blast
    have "bs = content"
    proof (cases "unat (pb_size b) + 1 + 1 < 2 ^ 64")
      case True
      then show ?thesis using f(4) size by (simp add: min_def split: if_splits)
    next
      case False
      then have "unat (pb_size b) + 1 + 1 = 2 ^ 64" using small by linarith
      then show ?thesis using f(4) size by simp
    qed
    then show ?thesis
      using P S T f root
      by (intro exI [of _ root] exI [of _ "td_names planning"] exI [of _ f]) (auto simp: owner_def)
  qed
  then show ?thesis using size by blast
qed


theorem materialize_payload_exact_witness:
  "\<exists>s bs. materialize_payload demo_env s demo_bytes = Inr bs \<and> length bs = 3 \<and> pe_sha demo_env bs = demo_hex"
proof -
  have "materialize_payload demo_env (attach_storage demo_snapshot ''/p'' 0) demo_bytes = Inr ''xml''" by code_simp
  from materialize_payload_exact [OF this] this show ?thesis
    by (intro exI [of _ "attach_storage demo_snapshot ''/p'' 0"] exI [of _ "''xml''"]) (simp add: demo_bytes_def)
qed

end
