(* ===== verification/Metadata_Xml.thy ===== *)
theory Metadata_Xml
  imports Metadata_Model Dnf_Lines
begin

text \<open>
  What the readers of \<^verbatim>\<open>crates/dnfast-metadata/src\<close> share: \<^verbatim>\<open>error.rs\<close>, \<^verbatim>\<open>limits.rs\<close>, \<^verbatim>\<open>xml.rs\<close> and the relations of
  \<^verbatim>\<open>relations.rs\<close>. The quick-xml crate is a parameter: a document is the list of events its reader yields, the end of
  the list is its end of file, and the texts of an event carry the result of decoding them.
\<close>

section \<open>Errors\<close>

datatype metadata_error =
    MdXml string
  | MissingPrimary
  | MissingFilelists
  | DuplicateRecord string
  | InvalidNumber string
  | UnsafeLocation string
  | UnsupportedChecksum string
  | ChecksumMismatch
  | SizeMismatch u64 u64
  | UnsupportedCompression string
  | MdIo string
  | LimitExceeded string u64 u64

section \<open>Events\<close>

datatype xml_namespace = NsBound string | NsUnbound | NsUnknown string

text \<open>An attribute that cannot be parsed, or a key with its decoded and normalized value.\<close>

type_synonym xml_attribute = "(string, string \<times> (string, string) result) result"

record xml_tag =
  xt_name :: string
  xt_attributes :: "xml_attribute list"

datatype xml_event =
    XStart xml_namespace xml_tag
  | XEmpty xml_namespace xml_tag
  | XEnd string
  | XText "(string, string) result"
  | XCData "(string, string) result"
  | XRef "(string, string) result"
  | XDecl
  | XDocType "(string, string) result"
  | XComment
  | XPI
  | XFail string

text \<open>
  The reader, by whether it trims texts, \<^verbatim>\<open>quick_xml::escape::unescape\<close>, and the text of the error of
  \<^verbatim>\<open>std::str::from_utf8\<close>.
\<close>

record xml_lib =
  xl_read :: "bool \<Rightarrow> bytes \<Rightarrow> xml_event list"
  xl_unescape :: "string \<Rightarrow> (string, string) result"
  xl_utf8_error :: "bytes \<Rightarrow> string"

section \<open>Limits\<close>

definition MAX_FILELISTS_COMPRESSED_BYTES :: u64 where "MAX_FILELISTS_COMPRESSED_BYTES = 1073741824"
definition MAX_FILELISTS_OPEN_BYTES :: u64 where "MAX_FILELISTS_OPEN_BYTES = 8589934592"
definition MAX_TOTAL_OPEN_BYTES :: u64 where "MAX_TOTAL_OPEN_BYTES = 17179869184"
definition MAX_FILE_PATHS :: u64 where "MAX_FILE_PATHS = 50000000"
definition MAX_FILES_PER_PACKAGE :: u64 where "MAX_FILES_PER_PACKAGE = 1000000"
definition MAX_XML_TEXT_BYTES :: u64 where "MAX_XML_TEXT_BYTES = 1048576"
definition PRIMARY_MAX_PACKAGES :: u64 where "PRIMARY_MAX_PACKAGES = 2000000"
definition MAX_RELATIONS :: u64 where "MAX_RELATIONS = 20000000"
definition MAX_RELATIONS_PER_PACKAGE :: u64 where "MAX_RELATIONS_PER_PACKAGE = 16384"

fun try_sum :: "u64 \<Rightarrow> u64 list \<Rightarrow> u64 option" where
  "try_sum acc [] = Some acc"
| "try_sum acc (x # xs) = (case checked_add acc x of None \<Rightarrow> None | Some t \<Rightarrow> try_sum t xs)"

definition checked_total_open :: "u64 list \<Rightarrow> (metadata_error, u64) result" where
  "checked_total_open sizes =
     bindR (ok_or (LimitExceeded ''total opened metadata'' MAX_TOTAL_OPEN_BYTES (- 1)) (try_sum 0 sizes)) (\<lambda>opened.
     if MAX_TOTAL_OPEN_BYTES < opened then Inl (LimitExceeded ''total opened metadata'' MAX_TOTAL_OPEN_BYTES opened)
     else Inr opened)"

definition checked_increment :: "u64 \<Rightarrow> u64 \<Rightarrow> string \<Rightarrow> (metadata_error, u64) result" where
  "checked_increment current maximum kind =
     bindR (ok_or (LimitExceeded kind maximum (- 1)) (checked_add current 1)) (\<lambda>actual.
     if maximum < actual then Inl (LimitExceeded kind maximum actual) else Inr actual)"

definition checked_limit :: "u64 \<Rightarrow> u64 \<Rightarrow> string \<Rightarrow> (metadata_error, u64) result" where
  "checked_limit actual maximum kind =
     (if maximum < actual then Inl (LimitExceeded kind maximum actual) else Inr actual)"

text \<open>
  \<^verbatim>\<open>len() as u64\<close>: the length of a list in memory fits; a list that does not exist in memory counts as the largest.
\<close>

definition len_u64 :: "'a list \<Rightarrow> u64" where
  "len_u64 xs = of_nat (min (length xs) (2 ^ 64 - 1))"

section \<open>Attributes, texts and numbers\<close>

fun attribute_streaming :: "xml_attribute list \<Rightarrow> string \<Rightarrow> (metadata_error, string option) result" where
  "attribute_streaming [] key = Inr None"
| "attribute_streaming (Inl e # rest) key = Inl (MdXml e)"
| "attribute_streaming (Inr (k, v) # rest) key =
     (if k = key then map_err MdXml (case v of Inl e \<Rightarrow> Inl e | Inr s \<Rightarrow> Inr (Some s))
      else attribute_streaming rest key)"

definition decode_text :: "(string \<Rightarrow> (string, string) result) \<Rightarrow> (string, string) result \<Rightarrow> (metadata_error, string) result" where
  "decode_text unescape t = map_err MdXml (bindR t unescape)"

definition decode_reference :: "(string \<Rightarrow> (string, string) result) \<Rightarrow> (string, string) result \<Rightarrow> (metadata_error, string) result" where
  "decode_reference unescape t = map_err MdXml (bindR t (\<lambda>r. unescape (''&'' @ r @ '';'')))"

definition parse_number :: "string \<Rightarrow> (metadata_error, u64) result" where
  "parse_number v = ok_or (InvalidNumber v) (parse_unsigned v)"

definition has_control :: "string \<Rightarrow> bool" where
  "has_control s \<longleftrightarrow> list_ex is_control (chars_of s)"

definition has_whitespace :: "string \<Rightarrow> bool" where
  "has_whitespace s \<longleftrightarrow> list_ex is_whitespace (chars_of s)"

section \<open>Relations\<close>

definition parse_relation_flags :: "string option \<Rightarrow> (metadata_error, relation_flags option) result" where
  "parse_relation_flags v =
     (case v of
        None \<Rightarrow> Inr None
      | Some s \<Rightarrow>
          if s = ''EQ'' then Inr (Some EqualF)
          else if s = ''LT'' then Inr (Some LessF)
          else if s = ''LE'' then Inr (Some LessEqualF)
          else if s = ''GT'' then Inr (Some GreaterF)
          else if s = ''GE'' then Inr (Some GreaterEqualF)
          else Inl (MdXml (''unsupported relation flags: '' @ s)))"

definition parse_relation :: "xml_tag \<Rightarrow> (metadata_error, relation) result" where
  "parse_relation t =
     bindR (attribute_streaming (xt_attributes t) ''name'') (\<lambda>name.
     bindR (ok_or (MdXml ''relation missing name'') name) (\<lambda>name.
     bindR (attribute_streaming (xt_attributes t) ''flags'') (\<lambda>flags.
     bindR (parse_relation_flags flags) (\<lambda>flags.
     bindR (attribute_streaming (xt_attributes t) ''epoch'') (\<lambda>epoch.
     bindR (attribute_streaming (xt_attributes t) ''ver'') (\<lambda>version.
     bindR (attribute_streaming (xt_attributes t) ''rel'') (\<lambda>release.
     bindR (attribute_streaming (xt_attributes t) ''pre'') (\<lambda>pre.
       Inr \<lparr>rel_name = name, rel_flags = flags, rel_epoch = epoch, rel_version = version, rel_release = release,
         rel_pre = (pre = Some ''1'')\<rparr>))))))))"

section \<open>Lemmas\<close>

lemma try_sum_Some:
  "try_sum t xs = Some s \<longleftrightarrow> unat t + sum_list (map unat xs) < 2 ^ 64 \<and> unat s = unat t + sum_list (map unat xs)"
proof (induction xs arbitrary: t)
  case Nil
  show ?case using unsigned_less [of t] by (auto simp: word_unat_eq_iff)
next
  case (Cons x xs)
  show ?case
  proof (cases "unat t + unat x < 2 ^ 64")
    case True
    then show ?thesis using Cons.IH by (simp add: checked_add_def unat_add_fits add.assoc)
  qed (simp add: checked_add_def)
qed

lemma checked_total_open_iff:
  "checked_total_open sizes = Inr t \<longleftrightarrow> sum_list (map unat sizes) \<le> 2 ^ 34 \<and> t = of_nat (sum_list (map unat sizes))"
proof -
  have "try_sum 0 sizes = Some t \<Longrightarrow> unat t \<le> 2 ^ 34 \<longleftrightarrow> sum_list (map unat sizes) \<le> 2 ^ 34"
    by (simp add: try_sum_Some)
  moreover have "try_sum 0 sizes = Some t \<longleftrightarrow> t = of_nat (sum_list (map unat sizes))" if "sum_list (map unat sizes) \<le> 2 ^ 34"
    using that by (auto simp: try_sum_Some unat_of_nat word_unat_eq_iff)
  moreover have "unat t \<le> 2 ^ 34 \<longleftrightarrow> \<not> MAX_TOTAL_OPEN_BYTES < t"
    by (simp add: MAX_TOTAL_OPEN_BYTES_def word_less_nat_alt not_less)
  ultimately show ?thesis
    by (auto simp: checked_total_open_def bindR_eq_Inr ok_or_eq_Inr)
qed

lemma unat_len_u64: "unat (len_u64 xs) = min (length xs) (2 ^ 64 - 1)"
  by (simp add: len_u64_def unat_of_nat)

lemma len_u64_le: "unat m < 2 ^ 64 - 1 \<Longrightarrow> len_u64 xs \<le> m \<longleftrightarrow> length xs \<le> unat m"
  by (auto simp: word_le_nat_alt unat_len_u64)

lemma len_u64_small: "length xs < 2 ^ 64 \<Longrightarrow> unat (len_u64 xs) = length xs"
  by (simp add: unat_len_u64)

lemma checked_limit_iff: "checked_limit a m k = Inr b \<longleftrightarrow> a \<le> m \<and> b = a"
  by (auto simp: checked_limit_def not_less)

lemma checked_increment_iff:
  "checked_increment c m k = Inr b \<longleftrightarrow> unat c + 1 \<le> unat m \<and> b = c + 1"
proof (cases "unat c + 1 < 2 ^ 64")
  case True
  have "unat (c + 1) = unat c + 1" using True by (simp add: unat_add_fits)
  then show ?thesis
    using True by (auto simp: checked_increment_def checked_add_def bindR_eq_Inr ok_or_def word_less_nat_alt)
next
  case False
  moreover have "unat m < 2 ^ 64" by (rule order.strict_trans2 [OF unsigned_less]) simp
  ultimately show ?thesis by (auto simp: checked_increment_def checked_add_def bindR_eq_Inr ok_or_def)
qed

lemma double_slash_empty_part: "contains_str s ''//'' \<Longrightarrow> [] \<in> set (split_slash s)"
proof -
  have "[] \<in> set (tl (split_slash (a @ ''//'' @ b)))" for a b
  proof (induction a)
    case (Cons c a)
    then show ?case
      by (cases "split_slash (a @ ''//'' @ b)") auto
  qed simp
  moreover assume "contains_str s ''//''"
  ultimately have "[] \<in> set (tl (split_slash s))" by (auto simp: contains_str_iff)
  then show ?thesis by (cases "split_slash s") simp_all
qed

definition tag_of :: "string \<Rightarrow> (string \<times> string) list \<Rightarrow> xml_tag" where
  "tag_of name attributes = \<lparr>xt_name = name, xt_attributes = map (\<lambda>(k, v). Inr (k, Inr v)) attributes\<rparr>"

definition unescape_plain :: "(string \<Rightarrow> (string, string) result) \<Rightarrow> bool" where
  "unescape_plain unescape \<longleftrightarrow> (\<forall>s. CHR ''&'' \<notin> set s \<longrightarrow> unescape s = Inr s)"

lemma amp_not_hex: "\<not> is_ascii_hexdigit (CHR ''&'')" "\<not> is_ascii_digit (CHR ''&'')"
  by code_simp+

lemma unescape_show: "unescape_plain u \<Longrightarrow> u (show_nat n) = Inr (show_nat n)"
  using show_nat_digits [of n] amp_not_hex by (auto simp: unescape_plain_def list_all_iff)

lemma parse_number_show: "parse_number (show_nat (unat (v :: u64))) = Inr v"
proof -
  have "unat v < 2 ^ LENGTH(64)" by (rule unsigned_less)
  then show ?thesis using parse_unsigned_show [of "unat v", where 'l = 64] by (simp add: parse_number_def ok_or_def)
qed

lemma foldR_Nil_fun: "bindR m (foldR f []) = m"
  by (cases m) simp_all

lemma pred_option_case: "pred_option P x = (case x of None \<Rightarrow> True | Some a \<Rightarrow> P a)"
  by (cases x) simp_all

text \<open>A text as the reader yields it: pieces between references to the ampersand.\<close>

function text_events :: "string \<Rightarrow> xml_event list" where
  "text_events v =
     (case split_once ''&'' v of
        None \<Rightarrow> if v = [] then [] else [XText (Inr v)]
      | Some (a, b) \<Rightarrow> XText (Inr a) # XRef (Inr ''amp'') # text_events b)"
  by pat_completeness auto
termination text_events
  by (relation "measure length") (auto dest!: split_once_SomeD)

declare text_events.simps [simp del]

definition unescape_xml :: "(string \<Rightarrow> (string, string) result) \<Rightarrow> bool" where
  "unescape_xml u \<longleftrightarrow> unescape_plain u \<and> u ''&amp;'' = Inr ''&''"

end
