(* ===== verification/Metadata_Repomd.thy ===== *)
theory Metadata_Repomd
  imports Metadata_Xml
begin

text \<open>
  \<^verbatim>\<open>crates/dnfast-metadata/src/repomd.rs\<close>: the reader of the repository index, as a fold of a step over the events, and
  what it promises of the records it returns.
\<close>

section \<open>Data\<close>

definition MAX_PRIMARY_COMPRESSED_BYTES :: u64 where "MAX_PRIMARY_COMPRESSED_BYTES = 536870912"
definition MAX_PRIMARY_OPEN_BYTES :: u64 where "MAX_PRIMARY_OPEN_BYTES = 1073741824"

record metadata_record =
  mr_href :: string
  mr_checksum :: string
  mr_size :: u64
  mr_open_checksum :: string
  mr_open_size :: u64

record auxiliary_record =
  ar_href :: string
  ar_checksum :: string
  ar_size :: u64

record repomd_records =
  rr_primary :: metadata_record
  rr_filelists :: metadata_record
  rr_group :: "auxiliary_record option"
  rr_modules :: "auxiliary_record option"
  rr_updateinfo :: "auxiliary_record option"

record repomd_document =
  rd_primary :: "metadata_record option"
  rd_filelists :: "metadata_record option"
  rd_group :: "auxiliary_record option"
  rd_modules :: "auxiliary_record option"
  rd_updateinfo :: "auxiliary_record option"
  rd_root_seen :: bool
  rd_root_closed :: bool
  rd_declaration_seen :: bool

definition default_document :: repomd_document where
  "default_document = \<lparr>rd_primary = None, rd_filelists = None, rd_group = None, rd_modules = None, rd_updateinfo = None,
     rd_root_seen = False, rd_root_closed = False, rd_declaration_seen = False\<rparr>"

record repomd_builder =
  rb_kind :: "string option"
  rb_field :: "string option"
  rb_href :: "string option"
  rb_checksum :: "string option"
  rb_size :: "u64 option"
  rb_open_checksum :: "string option"
  rb_open_size :: "u64 option"

definition default_builder :: repomd_builder where
  "default_builder = \<lparr>rb_kind = None, rb_field = None, rb_href = None, rb_checksum = None, rb_size = None,
     rb_open_checksum = None, rb_open_size = None\<rparr>"

definition REPO_NS :: string where "REPO_NS = ''http://linux.duke.edu/metadata/repo''"

section \<open>Records\<close>

definition validate_location :: "string \<Rightarrow> (metadata_error, unit) result" where
  "validate_location href =
     (if href = [] \<or> \<not> starts_with href ''repodata/'' \<or> starts_with href ''/'' \<or> contains_str href ''//''
         \<or> CHR 0x5C \<in> set href \<or> CHR ''?'' \<in> set href \<or> CHR ''#'' \<in> set href \<or> CHR ''%'' \<in> set href
         \<or> has_control href
         \<or> list_ex (\<lambda>part. part = [] \<or> part = ''.'' \<or> part = ''..'') (split_slash href)
         \<or> contains_str (map to_ascii_lowercase href) ''://''
      then Inl (UnsafeLocation href) else Inr ())"

definition bounded :: "u64 \<Rightarrow> u64 \<Rightarrow> (metadata_error, u64) result" where
  "bounded v maximum = (if maximum < v then Inl (SizeMismatch maximum v) else Inr v)"

definition valid_checksum :: "string \<Rightarrow> (metadata_error, string) result" where
  "valid_checksum v =
     (if length v \<noteq> 64 \<or> \<not> list_all is_ascii_hexdigit v then Inl (UnsupportedChecksum v)
      else Inr (map to_ascii_lowercase v))"

definition build_auxiliary :: "repomd_builder \<Rightarrow> u64 \<Rightarrow> (metadata_error, auxiliary_record) result" where
  "build_auxiliary b compressed_limit =
     bindR (ok_or MissingPrimary (rb_href b)) (\<lambda>href.
     bindR (validate_location href) (\<lambda>_.
     bindR (ok_or MissingPrimary (rb_checksum b)) (\<lambda>checksum.
     bindR (valid_checksum checksum) (\<lambda>checksum.
     bindR (ok_or MissingPrimary (rb_size b)) (\<lambda>sz.
     bindR (bounded sz compressed_limit) (\<lambda>sz.
     if sz = 0 then Inl (SizeMismatch 1 0)
     else Inr \<lparr>ar_href = href, ar_checksum = checksum, ar_size = sz\<rparr>))))))"

definition build_record :: "repomd_builder \<Rightarrow> u64 \<Rightarrow> u64 \<Rightarrow> (metadata_error, metadata_record) result" where
  "build_record b compressed_limit open_limit =
     bindR (ok_or MissingPrimary (rb_href b)) (\<lambda>href.
     bindR (validate_location href) (\<lambda>_.
     bindR (ok_or MissingPrimary (rb_checksum b)) (\<lambda>checksum.
     bindR (valid_checksum checksum) (\<lambda>checksum.
     bindR (ok_or MissingPrimary (rb_open_checksum b)) (\<lambda>open_checksum.
     bindR (valid_checksum open_checksum) (\<lambda>open_checksum.
     bindR (ok_or MissingPrimary (rb_size b)) (\<lambda>sz.
     bindR (bounded sz compressed_limit) (\<lambda>sz.
     bindR (ok_or MissingPrimary (rb_open_size b)) (\<lambda>open_size.
     bindR (bounded open_size open_limit) (\<lambda>open_size.
       Inr \<lparr>mr_href = href, mr_checksum = checksum, mr_size = sz, mr_open_checksum = open_checksum,
         mr_open_size = open_size\<rparr>))))))))))"

definition AUXILIARY_LIMIT :: u64 where "AUXILIARY_LIMIT = 536870912"

definition finish_record ::
  "repomd_document \<Rightarrow> repomd_builder \<Rightarrow> bool \<Rightarrow> (metadata_error, repomd_document) result" where
  "finish_record d b collect_filelists =
     (case rb_kind b of
        None \<Rightarrow> Inr d
      | Some kind \<Rightarrow>
          if kind = ''filelists'' \<and> \<not> collect_filelists then Inr d
          else if kind \<in> {''group'', ''modules'', ''updateinfo''} then
            if \<not> collect_filelists then Inr d
            else
              bindR (build_auxiliary b AUXILIARY_LIMIT) (\<lambda>r.
              if kind = ''group'' then
                (if rd_group d \<noteq> None then Inl (DuplicateRecord kind) else Inr (d\<lparr>rd_group := Some r\<rparr>))
              else if kind = ''modules'' then
                (if rd_modules d \<noteq> None then Inl (DuplicateRecord kind) else Inr (d\<lparr>rd_modules := Some r\<rparr>))
              else
                (if rd_updateinfo d \<noteq> None then Inl (DuplicateRecord kind) else Inr (d\<lparr>rd_updateinfo := Some r\<rparr>)))
          else if kind = ''primary'' then
            bindR (build_record b MAX_PRIMARY_COMPRESSED_BYTES MAX_PRIMARY_OPEN_BYTES) (\<lambda>r.
            if rd_primary d \<noteq> None then Inl (DuplicateRecord kind) else Inr (d\<lparr>rd_primary := Some r\<rparr>))
          else if kind = ''filelists'' then
            bindR (build_record b MAX_FILELISTS_COMPRESSED_BYTES MAX_FILELISTS_OPEN_BYTES) (\<lambda>r.
            if rd_filelists d \<noteq> None then Inl (DuplicateRecord kind) else Inr (d\<lparr>rd_filelists := Some r\<rparr>))
          else Inr d)"

section \<open>Events\<close>

definition repomd_outside :: "repomd_document \<Rightarrow> bool" where
  "repomd_outside d \<longleftrightarrow> \<not> rd_root_seen d \<or> rd_root_closed d"

definition repomd_namespace :: "xml_tag \<Rightarrow> repomd_document \<Rightarrow> (metadata_error, unit) result" where
  "repomd_namespace t d =
     (if repomd_outside d then Inl (MdXml ''element outside repomd root'')
      else if CHR '':'' \<in> set (xt_name t) then Inl (MdXml ''unexpected repomd namespace prefix'')
      else
        bindR (attribute_streaming (xt_attributes t) ''xmlns'') (\<lambda>ns.
        case ns of
          Some v \<Rightarrow> if v \<noteq> REPO_NS then Inl (MdXml ''unexpected repomd namespace'') else Inr ()
        | None \<Rightarrow> Inr ()))"

definition repomd_start ::
  "xml_tag \<Rightarrow> repomd_document \<Rightarrow> repomd_builder \<Rightarrow> (metadata_error, repomd_builder) result" where
  "repomd_start t d b =
     bindR (repomd_namespace t d) (\<lambda>_.
     if xt_name t = ''data'' then
       bindR (attribute_streaming (xt_attributes t) ''type'') (\<lambda>kind. Inr (b\<lparr>rb_kind := kind\<rparr>))
     else if rb_kind b \<noteq> None then
       if xt_name t \<in> {''checksum'', ''open-checksum''} then
         bindR (attribute_streaming (xt_attributes t) ''type'') (\<lambda>kind.
         let kind = (case kind of None \<Rightarrow> [] | Some k \<Rightarrow> k) in
         if kind \<noteq> ''sha256'' then Inl (UnsupportedChecksum kind)
         else Inr (b\<lparr>rb_field := Some (xt_name t)\<rparr>))
       else if xt_name t \<in> {''size'', ''open-size''} then Inr (b\<lparr>rb_field := Some (xt_name t)\<rparr>)
       else Inr b
     else Inr b)"

definition repomd_empty ::
  "xml_tag \<Rightarrow> repomd_document \<Rightarrow> repomd_builder \<Rightarrow> (metadata_error, repomd_builder) result" where
  "repomd_empty t d b =
     bindR (repomd_namespace t d) (\<lambda>_.
     if rb_kind b \<noteq> None \<and> xt_name t = ''location'' then
       bindR (attribute_streaming (xt_attributes t) ''href'') (\<lambda>href. Inr (b\<lparr>rb_href := href\<rparr>))
     else Inr b)"

definition repomd_text ::
  "(string \<Rightarrow> (string, string) result) \<Rightarrow> (string, string) result \<Rightarrow> repomd_builder
     \<Rightarrow> (metadata_error, repomd_builder) result" where
  "repomd_text unescape t b =
     bindR (decode_text unescape t) (\<lambda>v.
     if rb_field b = Some ''checksum'' then Inr (b\<lparr>rb_checksum := Some v\<rparr>)
     else if rb_field b = Some ''open-checksum'' then Inr (b\<lparr>rb_open_checksum := Some v\<rparr>)
     else if rb_field b = Some ''size'' then bindR (parse_number v) (\<lambda>n. Inr (b\<lparr>rb_size := Some n\<rparr>))
     else if rb_field b = Some ''open-size'' then bindR (parse_number v) (\<lambda>n. Inr (b\<lparr>rb_open_size := Some n\<rparr>))
     else Inr b)"

definition repomd_other :: "repomd_document \<times> repomd_builder \<Rightarrow> (metadata_error, repomd_document \<times> repomd_builder) result" where
  "repomd_other s =
     (if repomd_outside (fst s) then Inl (MdXml ''content outside repomd root'') else Inr s)"

fun repomd_step ::
  "(string \<Rightarrow> (string, string) result) \<Rightarrow> bool \<Rightarrow> xml_event \<Rightarrow> repomd_document \<times> repomd_builder
     \<Rightarrow> (metadata_error, repomd_document \<times> repomd_builder) result" where
  "repomd_step unescape require_filelists (XStart ns t) (d, b) =
     (if \<not> rd_root_seen d then
        if xt_name t \<noteq> ''repomd'' then Inl (MdXml ''unexpected repomd root or namespace'')
        else
          bindR (attribute_streaming (xt_attributes t) ''xmlns'') (\<lambda>xmlns.
          if xmlns \<noteq> Some REPO_NS then Inl (MdXml ''unexpected repomd root or namespace'')
          else if ns \<noteq> NsBound REPO_NS then Inl (MdXml ''unexpected repomd resolved namespace'')
          else Inr (d\<lparr>rd_root_seen := True\<rparr>, b))
      else if rd_root_closed d then Inl (MdXml ''element outside repomd root'')
      else
        bindR (repomd_start t d b) (\<lambda>b'.
        if ns \<noteq> NsBound REPO_NS then Inl (MdXml ''unexpected repomd resolved namespace'') else Inr (d, b')))"
| "repomd_step unescape require_filelists (XEmpty ns t) (d, b) =
     (if repomd_outside d then Inl (MdXml ''element outside repomd root'')
      else
        bindR (repomd_empty t d b) (\<lambda>b'.
        if ns \<noteq> NsBound REPO_NS then Inl (MdXml ''unexpected repomd resolved namespace'') else Inr (d, b')))"
| "repomd_step unescape require_filelists (XText t) (d, b) =
     (if rb_kind b \<noteq> None then bindR (repomd_text unescape t b) (\<lambda>b'. Inr (d, b'))
      else
        bindR (decode_text unescape t) (\<lambda>v.
        if trim v \<noteq> [] \<and> repomd_outside d then Inl (MdXml ''text outside repomd root'')
        else repomd_other (d, b)))"
| "repomd_step unescape require_filelists (XEnd name) (d, b) =
     (if name = ''data'' then bindR (finish_record d b require_filelists) (\<lambda>d'. Inr (d', default_builder))
      else if name = ''repomd'' then Inr (d\<lparr>rd_root_closed := True\<rparr>, b)
      else if repomd_outside d then Inl (MdXml ''end element outside repomd root'')
      else Inr (d, b\<lparr>rb_field := None\<rparr>))"
| "repomd_step unescape require_filelists XDecl (d, b) =
     (if \<not> rd_root_seen d \<and> \<not> rd_declaration_seen d then Inr (d\<lparr>rd_declaration_seen := True\<rparr>, b)
      else Inl (MdXml ''misplaced XML declaration or doctype''))"
| "repomd_step unescape require_filelists (XDocType _) s = Inl (MdXml ''misplaced XML declaration or doctype'')"
| "repomd_step unescape require_filelists XComment s = Inr s"
| "repomd_step unescape require_filelists XPI s = Inr s"
| "repomd_step unescape require_filelists (XFail e) s = Inl (MdXml e)"
| "repomd_step unescape require_filelists (XCData _) s = repomd_other s"
| "repomd_step unescape require_filelists (XRef _) s = repomd_other s"

definition parse_document :: "xml_lib \<Rightarrow> bytes \<Rightarrow> bool \<Rightarrow> (metadata_error, repomd_document) result" where
  "parse_document L bs require_filelists =
     bindR (foldR (repomd_step (xl_unescape L) require_filelists) (xl_read L True bs) (default_document, default_builder))
       (\<lambda>(d, b).
       if \<not> rd_root_seen d \<or> \<not> rd_root_closed d then Inl (MdXml ''incomplete repomd root'')
       else if rd_primary d = None then Inl MissingPrimary
       else if require_filelists \<and> rd_filelists d = None then Inl MissingFilelists
       else Inr d)"

definition parse_repomd :: "xml_lib \<Rightarrow> bytes \<Rightarrow> (metadata_error, metadata_record) result" where
  "parse_repomd L bs = bindR (parse_document L bs False) (\<lambda>d. ok_or MissingPrimary (rd_primary d))"

definition parse_repomd_records :: "xml_lib \<Rightarrow> bytes \<Rightarrow> (metadata_error, repomd_records) result" where
  "parse_repomd_records L bs =
     bindR (parse_document L bs True) (\<lambda>d.
     bindR (ok_or MissingPrimary (rd_primary d)) (\<lambda>primary.
     bindR (ok_or MissingFilelists (rd_filelists d)) (\<lambda>filelists.
     bindR (checked_total_open [mr_open_size primary, mr_open_size filelists]) (\<lambda>_.
       Inr \<lparr>rr_primary = primary, rr_filelists = filelists, rr_group = rd_group d, rr_modules = rd_modules d,
         rr_updateinfo = rd_updateinfo d\<rparr>))))"

section \<open>What is accepted\<close>

definition safe_href :: "string \<Rightarrow> bool" where
  "safe_href href \<longleftrightarrow> starts_with href ''repodata/'' \<and> (\<forall>part\<in>set (split_slash href). part \<notin> {[], ''.'', ''..''}) \<and>
     (\<forall>c\<in>set href. c \<notin> {CHR 0x5C, CHR ''?'', CHR ''#'', CHR ''%''}) \<and> \<not> has_control href"

lemma lower_slash: "map to_ascii_lowercase h = a @ ''://'' @ b \<Longrightarrow> contains_str h ''//''"
proof -
  assume eq: "map to_ascii_lowercase h = a @ ''://'' @ b"
  have slash: "to_ascii_lowercase c = CHR ''/'' \<longleftrightarrow> c = CHR ''/''" for c
  proof (cases "is_ascii_uppercase c")
    case True
    then have "byte_of (to_ascii_lowercase c) = byte_of c + 32" "65 \<le> byte_of c"
      by (simp_all add: to_ascii_lowercase_def is_ascii_uppercase_def byte_of_def)
    then have "byte_of (to_ascii_lowercase c) \<noteq> 47" "byte_of c \<noteq> 47" by simp_all
    moreover have "byte_of (CHR ''/'') = 47" by code_simp
    ultimately show ?thesis by metis
  qed (simp add: to_ascii_lowercase_def)
  obtain u v where h: "h = u @ v" and v: "map to_ascii_lowercase v = CHR '':'' # CHR ''/'' # CHR ''/'' # b"
    using eq by (auto simp: map_eq_append_conv)
  obtain x y z w where "v = x # y # z # w" "to_ascii_lowercase y = CHR ''/''" "to_ascii_lowercase z = CHR ''/''"
    using v by (cases v; cases "tl v"; cases "tl (tl v)") simp_all
  with h have "h = (u @ [x]) @ ''//'' @ w" by (simp add: slash)
  then show ?thesis unfolding contains_str_iff by blast
qed

lemma validate_location_iff: "validate_location h = Inr () \<longleftrightarrow> safe_href h"
proof
  assume "safe_href h"
  then have p: "[] \<notin> set (split_slash h)" by (auto simp: safe_href_def)
  then have n: "\<not> contains_str h ''//''" using double_slash_empty_part by blast
  moreover have "\<not> contains_str (map to_ascii_lowercase h) ''://''"
    using n lower_slash by (auto simp: contains_str_iff [of "map to_ascii_lowercase h"])
  moreover have "h \<noteq> [] \<and> \<not> starts_with h ''/''"
    using \<open>safe_href h\<close> by (auto simp: safe_href_def starts_with_iff)
  ultimately show "validate_location h = Inr ()"
    using \<open>safe_href h\<close> by (auto simp: validate_location_def safe_href_def list_ex_iff)
qed (auto simp: validate_location_def safe_href_def list_ex_iff split: if_splits)

definition lower_sha256 :: "string \<Rightarrow> bool" where
  "lower_sha256 s \<longleftrightarrow> length s = 64 \<and> list_all is_lower_hex s"

definition metadata_record_ok :: "nat \<Rightarrow> nat \<Rightarrow> metadata_record \<Rightarrow> bool" where
  "metadata_record_ok compressed opened r \<longleftrightarrow> safe_href (mr_href r) \<and> lower_sha256 (mr_checksum r) \<and>
     lower_sha256 (mr_open_checksum r) \<and> unat (mr_size r) \<le> compressed \<and> unat (mr_open_size r) \<le> opened"

definition auxiliary_record_ok :: "auxiliary_record \<Rightarrow> bool" where
  "auxiliary_record_ok r \<longleftrightarrow> safe_href (ar_href r) \<and> lower_sha256 (ar_checksum r) \<and>
     0 < unat (ar_size r) \<and> unat (ar_size r) \<le> 2 ^ 29"

definition repomd_records_ok :: "repomd_records \<Rightarrow> bool" where
  "repomd_records_ok r \<longleftrightarrow> metadata_record_ok (2 ^ 29) (2 ^ 30) (rr_primary r) \<and>
     metadata_record_ok (2 ^ 30) (2 ^ 33) (rr_filelists r) \<and>
     unat (mr_open_size (rr_primary r)) + unat (mr_open_size (rr_filelists r)) \<le> 2 ^ 34 \<and>
     pred_option auxiliary_record_ok (rr_group r) \<and> pred_option auxiliary_record_ok (rr_modules r) \<and>
     pred_option auxiliary_record_ok (rr_updateinfo r)"

lemma valid_checksum_Inr: "valid_checksum v = Inr c \<Longrightarrow> lower_sha256 c"
  by (auto simp: valid_checksum_def lower_sha256_def list_all_iff lowercase_is_lower_hex split: if_splits)

lemma valid_checksum_id: "lower_sha256 c \<Longrightarrow> valid_checksum c = Inr c"
proof -
  assume c: "lower_sha256 c"
  then have "list_all is_ascii_hexdigit c" by (auto simp: lower_sha256_def list_all_iff is_lower_hex_def)
  moreover have "map to_ascii_lowercase c = c"
    using c by (intro map_idI) (auto simp: lower_sha256_def list_all_iff is_lower_hex_lowercase_id)
  ultimately show ?thesis using c by (simp add: valid_checksum_def lower_sha256_def)
qed

lemma bounded_iff: "bounded v m = Inr w \<longleftrightarrow> w = v \<and> unat v \<le> unat m"
  by (auto simp: bounded_def word_less_nat_alt)

lemma build_Inr:
  assumes "build_record b c o' = Inr r"
  shows "metadata_record_ok (unat c) (unat o') r"
  using assms by (auto simp: build_record_def bindR_eq_Inr ok_or_eq_Inr bounded_iff validate_location_iff metadata_record_ok_def
      dest: valid_checksum_Inr)

lemma build_auxiliary_Inr:
  assumes "build_auxiliary b AUXILIARY_LIMIT = Inr r"
  shows "auxiliary_record_ok r"
  using assms by (auto simp: build_auxiliary_def bindR_eq_Inr ok_or_eq_Inr bounded_iff validate_location_iff auxiliary_record_ok_def
      AUXILIARY_LIMIT_def unat_gt_0 dest: valid_checksum_Inr split: if_splits)

definition document_ok :: "repomd_document \<Rightarrow> bool" where
  "document_ok d \<longleftrightarrow> pred_option (metadata_record_ok (2 ^ 29) (2 ^ 30)) (rd_primary d) \<and>
     pred_option (metadata_record_ok (2 ^ 30) (2 ^ 33)) (rd_filelists d) \<and>
     pred_option auxiliary_record_ok (rd_group d) \<and> pred_option auxiliary_record_ok (rd_modules d) \<and>
     pred_option auxiliary_record_ok (rd_updateinfo d)"

lemma build_primary_ok: "build_record b MAX_PRIMARY_COMPRESSED_BYTES MAX_PRIMARY_OPEN_BYTES = Inr r \<Longrightarrow> metadata_record_ok (2 ^ 29) (2 ^ 30) r"
  using build_Inr [of b MAX_PRIMARY_COMPRESSED_BYTES MAX_PRIMARY_OPEN_BYTES r]
  by (simp add: MAX_PRIMARY_COMPRESSED_BYTES_def MAX_PRIMARY_OPEN_BYTES_def)

lemma build_filelists_ok:
  "build_record b MAX_FILELISTS_COMPRESSED_BYTES MAX_FILELISTS_OPEN_BYTES = Inr r \<Longrightarrow> metadata_record_ok (2 ^ 30) (2 ^ 33) r"
  using build_Inr [of b MAX_FILELISTS_COMPRESSED_BYTES MAX_FILELISTS_OPEN_BYTES r]
  by (simp add: MAX_FILELISTS_COMPRESSED_BYTES_def MAX_FILELISTS_OPEN_BYTES_def)

lemma document_ok_update:
  assumes "document_ok d"
  shows "metadata_record_ok (2 ^ 29) (2 ^ 30) m \<Longrightarrow> document_ok (d\<lparr>rd_primary := Some m\<rparr>)"
    "metadata_record_ok (2 ^ 30) (2 ^ 33) m \<Longrightarrow> document_ok (d\<lparr>rd_filelists := Some m\<rparr>)"
    "auxiliary_record_ok a \<Longrightarrow> document_ok (d\<lparr>rd_group := Some a\<rparr>)"
    "auxiliary_record_ok a \<Longrightarrow> document_ok (d\<lparr>rd_modules := Some a\<rparr>)"
    "auxiliary_record_ok a \<Longrightarrow> document_ok (d\<lparr>rd_updateinfo := Some a\<rparr>)"
  using assms by (simp_all add: document_ok_def)

lemma finish_record_ok:
  assumes f: "finish_record d b c = Inr d'" and ok: "document_ok d"
  shows "document_ok d'"
proof (cases "rb_kind b")
  case None
  then show ?thesis using f ok by (simp add: finish_record_def)
next
  case (Some kind)
  note upd = document_ok_update [OF ok]
  consider (same) "d' = d" | (aux) a where "build_auxiliary b AUXILIARY_LIMIT = Inr a"
      "d' \<in> {d\<lparr>rd_group := Some a\<rparr>, d\<lparr>rd_modules := Some a\<rparr>, d\<lparr>rd_updateinfo := Some a\<rparr>}"
    | (primary) m where "build_record b MAX_PRIMARY_COMPRESSED_BYTES MAX_PRIMARY_OPEN_BYTES = Inr m" "d' = d\<lparr>rd_primary := Some m\<rparr>"
    | (filelists) m where "build_record b MAX_FILELISTS_COMPRESSED_BYTES MAX_FILELISTS_OPEN_BYTES = Inr m" "d' = d\<lparr>rd_filelists := Some m\<rparr>"
    using f Some unfolding finish_record_def by (auto simp: bindR_eq_Inr split: if_splits)
  then show ?thesis
  proof cases
    case aux
    then show ?thesis using upd(3-5) [OF build_auxiliary_Inr [OF aux(1)]] by blast
  next
    case primary
    then show ?thesis using upd(1) build_primary_ok by blast
  next
    case filelists
    then show ?thesis using upd(2) build_filelists_ok by blast
  qed (use ok in simp)
qed

lemma repomd_step_ok: "repomd_step u c e s = Inr s' \<Longrightarrow> document_ok (fst s) \<Longrightarrow> document_ok (fst s')"
proof (cases s)
  case (Pair d b)
  assume step: "repomd_step u c e s = Inr s'" and ok: "document_ok (fst s)"
  have flags: "document_ok (d\<lparr>rd_root_seen := x\<rparr>) = document_ok d" "document_ok (d\<lparr>rd_root_closed := x\<rparr>) = document_ok d"
    "document_ok (d\<lparr>rd_declaration_seen := x\<rparr>) = document_ok d" for x
    by (simp_all add: document_ok_def)
  show "document_ok (fst s')"
  proof (cases e)
    case (XEnd name)
    then show ?thesis
      using step ok Pair flags by (auto simp: bindR_eq_Inr split: if_splits dest: finish_record_ok)
  qed (use step ok Pair flags in \<open>auto simp: bindR_eq_Inr repomd_other_def split: if_splits\<close>)
qed

lemma parse_document_ok: "parse_document L bs c = Inr d \<Longrightarrow> document_ok d"
proof -
  assume "parse_document L bs c = Inr d"
  then obtain b where f: "foldR (repomd_step (xl_unescape L) c) (xl_read L True bs) (default_document, default_builder) = Inr (d, b)"
    by (auto simp: parse_document_def bindR_eq_Inr split: if_splits)
  have "document_ok (fst (d, b))"
    by (rule foldR_invariant [where P = "\<lambda>s. document_ok (fst s)", OF f])
      (auto simp: document_ok_def default_document_def dest: repomd_step_ok [unfolded document_ok_def])
  then show ?thesis by simp
qed

lemma parse_repomd_records_ok:
  assumes "parse_repomd_records L bs = Inr r"
  shows "repomd_records_ok r"
proof -
  obtain d p f where d: "parse_document L bs True = Inr d" and pf: "rd_primary d = Some p" "rd_filelists d = Some f"
    and open': "unat (mr_open_size p) + unat (mr_open_size f) \<le> 2 ^ 34"
    and r: "r = \<lparr>rr_primary = p, rr_filelists = f, rr_group = rd_group d, rr_modules = rd_modules d, rr_updateinfo = rd_updateinfo d\<rparr>"
    using assms by (auto simp: parse_repomd_records_def bindR_eq_Inr ok_or_eq_Inr checked_total_open_iff)
  then show ?thesis using parse_document_ok [OF d] by (simp add: document_ok_def repomd_records_ok_def)
qed

section \<open>Reading back what is written\<close>

definition repo_element :: "string \<Rightarrow> (string \<times> string) list \<Rightarrow> string \<Rightarrow> xml_event list" where
  "repo_element name attributes v =
     [XStart (NsBound REPO_NS) (tag_of name attributes), XText (Inr v), XEnd name]"

definition section_events :: "string \<Rightarrow> string \<Rightarrow> string \<Rightarrow> u64 \<Rightarrow> xml_event list \<Rightarrow> xml_event list" where
  "section_events kind href checksum sz opened =
     [XStart (NsBound REPO_NS) (tag_of ''data'' [(''type'', kind)])]
     @ repo_element ''checksum'' [(''type'', ''sha256'')] checksum @ opened
     @ [XEmpty (NsBound REPO_NS) (tag_of ''location'' [(''href'', href)])]
     @ repo_element ''size'' [] (show_nat (unat sz)) @ [XEnd ''data'']"

definition record_events :: "string \<Rightarrow> metadata_record \<Rightarrow> xml_event list" where
  "record_events kind r = section_events kind (mr_href r) (mr_checksum r) (mr_size r)
     (repo_element ''open-checksum'' [(''type'', ''sha256'')] (mr_open_checksum r)
      @ repo_element ''open-size'' [] (show_nat (unat (mr_open_size r))))"

definition auxiliary_events :: "string \<Rightarrow> auxiliary_record option \<Rightarrow> xml_event list" where
  "auxiliary_events kind r =
     (case r of None \<Rightarrow> [] | Some a \<Rightarrow> section_events kind (ar_href a) (ar_checksum a) (ar_size a) [])"

definition repomd_events :: "repomd_records \<Rightarrow> xml_event list" where
  "repomd_events r =
     [XDecl, XStart (NsBound REPO_NS) (tag_of ''repomd'' [(''xmlns'', REPO_NS)])]
     @ record_events ''primary'' (rr_primary r) @ record_events ''filelists'' (rr_filelists r)
     @ auxiliary_events ''group'' (rr_group r) @ auxiliary_events ''modules'' (rr_modules r)
     @ auxiliary_events ''updateinfo'' (rr_updateinfo r) @ [XEnd ''repomd'']"

lemma unescape_hex: "unescape_plain u \<Longrightarrow> lower_sha256 s \<Longrightarrow> u s = Inr s"
  using amp_not_hex by (auto simp: unescape_plain_def lower_sha256_def list_all_iff is_lower_hex_def)

lemma section_fold:
  assumes d: "rd_root_seen d" "\<not> rd_root_closed d" and u: "unescape_plain u" and c: "lower_sha256 checksum" "CHR '':'' \<notin> set kind"
  shows "foldR (repomd_step u True) (section_events kind href checksum sz []) (d, default_builder) =
    bindR (finish_record d (default_builder\<lparr>rb_kind := Some kind, rb_checksum := Some checksum, rb_href := Some href,
      rb_field := None, rb_size := Some sz\<rparr>) True) (\<lambda>d'. Inr (d', default_builder))"
  using d by (simp add: section_events_def repo_element_def tag_of_def repomd_start_def repomd_empty_def repomd_namespace_def
      repomd_outside_def repomd_text_def decode_text_def unescape_hex [OF u c(1)] unescape_show [OF u] parse_number_show
      default_builder_def Let_def foldR_Nil_fun)

lemma record_fold:
  assumes d: "rd_root_seen d" "\<not> rd_root_closed d" and u: "unescape_plain u"
    and c: "lower_sha256 (mr_checksum r)" "lower_sha256 (mr_open_checksum r)"
  shows "foldR (repomd_step u True) (record_events kind r) (d, default_builder) =
    bindR (finish_record d (default_builder\<lparr>rb_kind := Some kind, rb_checksum := Some (mr_checksum r), rb_href := Some (mr_href r),
      rb_field := None, rb_size := Some (mr_size r), rb_open_checksum := Some (mr_open_checksum r),
      rb_open_size := Some (mr_open_size r)\<rparr>) True) (\<lambda>d'. Inr (d', default_builder))"
  using d by (simp add: record_events_def section_events_def repo_element_def tag_of_def repomd_start_def repomd_empty_def
      repomd_namespace_def repomd_outside_def repomd_text_def decode_text_def unescape_hex [OF u c(1)] unescape_hex [OF u c(2)]
      unescape_show [OF u] parse_number_show default_builder_def Let_def foldR_Nil_fun)

lemma build_ok:
  assumes "metadata_record_ok (unat c) (unat o') r"
  shows "build_record (default_builder\<lparr>rb_kind := k, rb_checksum := Some (mr_checksum r), rb_href := Some (mr_href r),
      rb_field := None, rb_size := Some (mr_size r), rb_open_checksum := Some (mr_open_checksum r),
      rb_open_size := Some (mr_open_size r)\<rparr>) c o' = Inr r"
proof -
  have "validate_location (mr_href r) = Inr ()" "valid_checksum (mr_checksum r) = Inr (mr_checksum r)"
    "valid_checksum (mr_open_checksum r) = Inr (mr_open_checksum r)" "bounded (mr_size r) c = Inr (mr_size r)"
    "bounded (mr_open_size r) o' = Inr (mr_open_size r)"
    using assms by (simp_all add: metadata_record_ok_def validate_location_iff valid_checksum_id bounded_iff)
  then show ?thesis by (simp add: build_record_def ok_or_def)
qed

lemma build_auxiliary_ok:
  assumes "auxiliary_record_ok a"
  shows "build_auxiliary (default_builder\<lparr>rb_kind := k, rb_checksum := Some (ar_checksum a), rb_href := Some (ar_href a),
      rb_field := None, rb_size := Some (ar_size a)\<rparr>) AUXILIARY_LIMIT = Inr a"
proof -
  have "validate_location (ar_href a) = Inr ()" "valid_checksum (ar_checksum a) = Inr (ar_checksum a)"
    "bounded (ar_size a) AUXILIARY_LIMIT = Inr (ar_size a)" "ar_size a \<noteq> 0"
    using assms
    by (auto simp: auxiliary_record_ok_def validate_location_iff valid_checksum_id bounded_iff AUXILIARY_LIMIT_def)
  then show ?thesis by (simp add: build_auxiliary_def ok_or_def)
qed

abbreviation repomd_open :: "repomd_document \<Rightarrow> bool" where
  "repomd_open d \<equiv> rd_root_seen d \<and> \<not> rd_root_closed d"

lemma primary_fold:
  assumes "repomd_open d" "unescape_plain u" "metadata_record_ok (2 ^ 29) (2 ^ 30) r" "rd_primary d = None"
  shows "foldR (repomd_step u True) (record_events ''primary'' r) (d, default_builder) =
    Inr (d\<lparr>rd_primary := Some r\<rparr>, default_builder)"
proof -
  have b: "build_record (default_builder\<lparr>rb_kind := Some ''primary'', rb_checksum := Some (mr_checksum r), rb_href := Some (mr_href r),
      rb_field := None, rb_size := Some (mr_size r), rb_open_checksum := Some (mr_open_checksum r),
      rb_open_size := Some (mr_open_size r)\<rparr>) MAX_PRIMARY_COMPRESSED_BYTES MAX_PRIMARY_OPEN_BYTES = Inr r"
    by (rule build_ok) (use assms(3) in \<open>simp add: MAX_PRIMARY_COMPRESSED_BYTES_def MAX_PRIMARY_OPEN_BYTES_def\<close>)
  have c: "lower_sha256 (mr_checksum r)" "lower_sha256 (mr_open_checksum r)" using assms(3) by (simp_all add: metadata_record_ok_def)
  show ?thesis
    by (subst record_fold [OF _ _ assms(2) c]) (use assms(1,4) b in \<open>simp_all add: finish_record_def\<close>)
qed

lemma filelists_fold:
  assumes "repomd_open d" "unescape_plain u" "metadata_record_ok (2 ^ 30) (2 ^ 33) r" "rd_filelists d = None"
  shows "foldR (repomd_step u True) (record_events ''filelists'' r) (d, default_builder) =
    Inr (d\<lparr>rd_filelists := Some r\<rparr>, default_builder)"
proof -
  have b: "build_record (default_builder\<lparr>rb_kind := Some ''filelists'', rb_checksum := Some (mr_checksum r), rb_href := Some (mr_href r),
      rb_field := None, rb_size := Some (mr_size r), rb_open_checksum := Some (mr_open_checksum r),
      rb_open_size := Some (mr_open_size r)\<rparr>) MAX_FILELISTS_COMPRESSED_BYTES MAX_FILELISTS_OPEN_BYTES = Inr r"
    by (rule build_ok) (use assms(3) in \<open>simp add: MAX_FILELISTS_COMPRESSED_BYTES_def MAX_FILELISTS_OPEN_BYTES_def\<close>)
  have c: "lower_sha256 (mr_checksum r)" "lower_sha256 (mr_open_checksum r)" using assms(3) by (simp_all add: metadata_record_ok_def)
  show ?thesis
    by (subst record_fold [OF _ _ assms(2) c]) (use assms(1,4) b in \<open>simp_all add: finish_record_def\<close>)
qed

lemma auxiliary_fold:
  assumes "repomd_open d" "unescape_plain u" "pred_option auxiliary_record_ok r"
  shows "rd_group d = None \<Longrightarrow> foldR (repomd_step u True) (auxiliary_events ''group'' r) (d, default_builder) =
      Inr (d\<lparr>rd_group := r\<rparr>, default_builder)"
    "rd_modules d = None \<Longrightarrow> foldR (repomd_step u True) (auxiliary_events ''modules'' r) (d, default_builder) =
      Inr (d\<lparr>rd_modules := r\<rparr>, default_builder)"
    "rd_updateinfo d = None \<Longrightarrow> foldR (repomd_step u True) (auxiliary_events ''updateinfo'' r) (d, default_builder) =
      Inr (d\<lparr>rd_updateinfo := r\<rparr>, default_builder)"
proof -
  have fold: "foldR (repomd_step u True) (auxiliary_events kind (Some a)) (d, default_builder) =
      bindR (finish_record d (default_builder\<lparr>rb_kind := Some kind, rb_checksum := Some (ar_checksum a), rb_href := Some (ar_href a),
        rb_field := None, rb_size := Some (ar_size a)\<rparr>) True) (\<lambda>d'. Inr (d', default_builder))"
    if "r = Some a" "CHR '':'' \<notin> set kind" for a kind
    using section_fold [of d u "ar_checksum a" kind "ar_href a" "ar_size a"] assms that
    by (simp add: auxiliary_events_def auxiliary_record_ok_def)
  show "rd_group d = None \<Longrightarrow> foldR (repomd_step u True) (auxiliary_events ''group'' r) (d, default_builder) =
      Inr (d\<lparr>rd_group := r\<rparr>, default_builder)"
    using fold build_auxiliary_ok assms(3) by (cases r) (simp_all add: auxiliary_events_def [of _ None] finish_record_def)
  show "rd_modules d = None \<Longrightarrow> foldR (repomd_step u True) (auxiliary_events ''modules'' r) (d, default_builder) =
      Inr (d\<lparr>rd_modules := r\<rparr>, default_builder)"
    using fold build_auxiliary_ok assms(3) by (cases r) (simp_all add: auxiliary_events_def [of _ None] finish_record_def)
  show "rd_updateinfo d = None \<Longrightarrow> foldR (repomd_step u True) (auxiliary_events ''updateinfo'' r) (d, default_builder) =
      Inr (d\<lparr>rd_updateinfo := r\<rparr>, default_builder)"
    using fold build_auxiliary_ok assms(3) by (cases r) (simp_all add: auxiliary_events_def [of _ None] finish_record_def)
qed

lemma parse_repomd_events:
  assumes u: "unescape_plain (xl_unescape L)" and ok: "repomd_records_ok r" and ev: "xl_read L True bs = repomd_events r"
  shows "parse_repomd_records L bs = Inr r"
proof -
  define d where "d = default_document\<lparr>rd_declaration_seen := True, rd_root_seen := True\<rparr>"
  define d' where "d' = d\<lparr>rd_primary := Some (rr_primary r), rd_filelists := Some (rr_filelists r), rd_group := rr_group r,
    rd_modules := rr_modules r, rd_updateinfo := rr_updateinfo r\<rparr>"
  note defs = d_def default_document_def
  have root: "foldR (repomd_step (xl_unescape L) True)
      [XDecl, XStart (NsBound REPO_NS) (tag_of ''repomd'' [(''xmlns'', REPO_NS)])] (default_document, default_builder) = Inr (d, default_builder)"
    by (simp add: defs tag_of_def)
  have "foldR (repomd_step (xl_unescape L) True) (repomd_events r) (default_document, default_builder) =
      Inr (d'\<lparr>rd_root_closed := True\<rparr>, default_builder)"
    unfolding repomd_events_def foldR_append root
    using primary_fold [OF _ u] filelists_fold [OF _ u] auxiliary_fold [OF _ u] ok
    by (simp add: defs d'_def repomd_records_ok_def)
  then have "parse_document L bs True = Inr (d'\<lparr>rd_root_closed := True\<rparr>)"
    by (simp add: parse_document_def ev d'_def defs)
  moreover have "checked_total_open [mr_open_size (rr_primary r), mr_open_size (rr_filelists r)] =
      Inr (of_nat (unat (mr_open_size (rr_primary r)) + unat (mr_open_size (rr_filelists r))))"
    using ok by (simp add: checked_total_open_iff repomd_records_ok_def)
  ultimately show ?thesis by (simp add: parse_repomd_records_def d'_def ok_or_def)
qed

text \<open>
  Property C16. The records read from a repository index are exactly the well-formed ones: every record that is returned has a location
  below \<^verbatim>\<open>repodata/\<close> without empty, dot or dot-dot segments and without characters a URL gives a meaning, lower-case SHA-256 digests,
  and sizes within the limits (16 GiB opened in all); and the index that lists given well-formed records is read back as these records.
\<close>

theorem repomd_records_exact:
  "(parse_repomd_records L bs = Inr r \<longrightarrow> repomd_records_ok r) \<and>
   (unescape_plain (xl_unescape L) \<longrightarrow> repomd_records_ok r \<longrightarrow> xl_read L True bs = repomd_events r \<longrightarrow>
      parse_repomd_records L bs = Inr r)"
  using parse_repomd_records_ok parse_repomd_events by blast

definition demo_records :: repomd_records where
  "demo_records =
     (let m = \<lparr>mr_href = ''repodata/primary.xml.zst'', mr_checksum = replicate 64 (CHR ''a''), mr_size = 10,
        mr_open_checksum = replicate 64 (CHR ''b''), mr_open_size = 20\<rparr> in
      \<lparr>rr_primary = m, rr_filelists = m\<lparr>mr_href := ''repodata/filelists.xml.zst''\<rparr>, rr_group = None,
        rr_modules = Some \<lparr>ar_href = ''repodata/modules.yaml'', ar_checksum = replicate 64 (CHR ''c''), ar_size = 5\<rparr>,
        rr_updateinfo = None\<rparr>)"

theorem repomd_records_exact_witness:
  "\<exists>L. parse_repomd_records L ''x'' = Inr demo_records \<and> repomd_records_ok demo_records"
proof -
  define L where "L = \<lparr>xl_read = (\<lambda>_ _. repomd_events demo_records), xl_unescape = Inr, xl_utf8_error = (\<lambda>_. [])\<rparr>"
  have "repomd_records_ok demo_records"
    unfolding repomd_records_ok_def pred_option_case by code_simp
  then show ?thesis
    using repomd_records_exact [of L "''x''" demo_records] by (intro exI [of _ L]) (simp add: L_def unescape_plain_def)
qed

text \<open>
  The value of an element is the last piece of its text: a comment or an entity reference inside it makes the reader drop what
  came before.
\<close>

lemma repomd_text_keeps_last_piece:
  assumes "unescape_plain u" "CHR ''&'' \<notin> set x" "CHR ''&'' \<notin> set y" "rb_kind b \<noteq> None" "rb_field b = Some ''checksum''"
  shows "foldR (repomd_step u c) [XText (Inr x), XComment, XText (Inr y)] (d, b) = Inr (d, b\<lparr>rb_checksum := Some y\<rparr>)"
  using assms by (simp add: repomd_text_def decode_text_def unescape_plain_def)

end
