(* ===== verification/Metadata_Primary.thy ===== *)
theory Metadata_Primary
  imports Metadata_Xml
begin

text \<open>
  \<^verbatim>\<open>crates/dnfast-metadata/src/primary.rs\<close> and \<^verbatim>\<open>search.rs\<close>: the reader of the primary metadata, as a fold of a step over the
  events, what it promises of the packages it returns, and the search over them. SHA-256 of a path is a parameter.
\<close>

section \<open>Data\<close>

record package =
  sp_name :: string
  sp_arch :: string
  sp_epoch :: string
  sp_version :: string
  sp_release :: string
  sp_summary :: string

definition package_nevra :: "package \<Rightarrow> string" where
  "package_nevra p = nevra_text (sp_name p) (sp_epoch p) (sp_version p) (sp_release p) (sp_arch p)"

record primary_identity =
  pi_checksum :: string
  pi_name :: string
  pi_arch :: string
  pi_epoch :: string
  pi_version :: string
  pi_release :: string

record primary_file =
  pf_path_sha256 :: bytes
  pf_package_ordinal :: u32

record validated_primary =
  vp_packages :: "package list"
  vp_identities :: "primary_identity list"
  vp_primary_files :: "primary_file list"

text \<open>A package under construction has the fields of a package and counts its relations.\<close>

record primary_builder = complete_package +
  pu_relation_count :: u64

definition default_primary_builder :: primary_builder where
  "default_primary_builder = \<lparr>mp_name = [], mp_arch = [], mp_epoch = [], mp_version = [], mp_release = [], mp_summary = [],
     mp_checksum = [], mp_location = [], mp_description = [], mp_vendor = [], mp_build_host = [], mp_source_rpm = [],
     mp_package_size = 0, mp_installed_size = 0, mp_archive_size = 0, mp_build_time = 0, mp_provides = [],
     mp_requires = [], mp_recommends = [], mp_suggests = [], mp_supplements = [], mp_enhances = [],
     mp_conflicts = [], mp_obsoletes = [], mp_files = [], pu_relation_count = 0\<rparr>"

record primary_state =
  ps_current :: "primary_builder option"
  ps_field :: "string option"
  ps_relation_group :: "string option"
  ps_packages :: "complete_package list"
  ps_search_packages :: "package list"
  ps_identities :: "primary_identity list"
  ps_primary_files :: "primary_file list"
  ps_retain_complete :: bool
  ps_parsed_packages :: u64
  ps_root_seen :: bool
  ps_root_closed :: bool
  ps_rpm_namespace :: bool
  ps_declared :: "u64 option"
  ps_declaration_seen :: bool
  ps_relations :: u64
  ps_paths :: u64

definition default_primary_state :: "bool \<Rightarrow> primary_state" where
  "default_primary_state retain_complete = \<lparr>ps_current = None, ps_field = None, ps_relation_group = None, ps_packages = [],
     ps_search_packages = [], ps_identities = [], ps_primary_files = [], ps_retain_complete = retain_complete,
     ps_parsed_packages = 0, ps_root_seen = False, ps_root_closed = False, ps_rpm_namespace = False, ps_declared = None,
     ps_declaration_seen = False, ps_relations = 0, ps_paths = 0\<rparr>"

definition COMMON_NS :: string where "COMMON_NS = ''http://linux.duke.edu/metadata/common''"
definition RPM_NS :: string where "RPM_NS = ''http://linux.duke.edu/metadata/rpm''"

section \<open>Names, attributes and paths\<close>

definition local_name :: "string \<Rightarrow> string" where
  "local_name name = (case rsplit_once (CHR '':'') name of None \<Rightarrow> name | Some (_, l) \<Rightarrow> l)"

definition validate_prefix :: "string \<Rightarrow> bool \<Rightarrow> (metadata_error, unit) result" where
  "validate_prefix name rpm_namespace =
     (case split_once '':'' name of
        Some (prefix, _) \<Rightarrow>
          if prefix \<noteq> ''rpm'' \<or> \<not> rpm_namespace then Inl (MdXml ''unexpected primary namespace prefix'') else Inr ()
      | None \<Rightarrow> Inr ())"

definition resolved_is_valid :: "xml_namespace \<Rightarrow> string \<Rightarrow> bool" where
  "resolved_is_valid ns name \<longleftrightarrow> ns = NsBound (if CHR '':'' \<in> set name then RPM_NS else COMMON_NS)"

definition required_attr :: "xml_tag \<Rightarrow> string \<Rightarrow> (metadata_error, string) result" where
  "required_attr t name =
     bindR (attribute_streaming (xt_attributes t) name) (\<lambda>v. ok_or (MdXml ''missing required attribute'') v)"

definition optional_number :: "xml_tag \<Rightarrow> string \<Rightarrow> (metadata_error, u64) result" where
  "optional_number t name =
     bindR (attribute_streaming (xt_attributes t) name) (\<lambda>v. case v of None \<Rightarrow> Inr 0 | Some s \<Rightarrow> parse_number s)"

definition fill_version :: "xml_tag \<Rightarrow> primary_builder \<Rightarrow> (metadata_error, primary_builder) result" where
  "fill_version t p =
     bindR (attribute_streaming (xt_attributes t) ''epoch'') (\<lambda>epoch.
     bindR (required_attr t ''ver'') (\<lambda>version.
     bindR (required_attr t ''rel'') (\<lambda>release.
       Inr (p\<lparr>mp_epoch := (case epoch of None \<Rightarrow> ''0'' | Some e \<Rightarrow> e), mp_version := version, mp_release := release\<rparr>))))"

definition validate_package_location :: "string \<Rightarrow> (metadata_error, unit) result" where
  "validate_package_location href =
     (if href = [] \<or> starts_with href ''/'' \<or> contains_str href ''//'' \<or> CHR 0x5C \<in> set href \<or> CHR ''?'' \<in> set href
         \<or> CHR ''#'' \<in> set href \<or> CHR ''%'' \<in> set href \<or> has_control href
         \<or> list_ex (\<lambda>part. part = [] \<or> part = ''.'' \<or> part = ''..'') (split_slash href)
         \<or> contains_str href ''://''
      then Inl (UnsafeLocation href) else Inr ())"

definition validate_file_path :: "string \<Rightarrow> (metadata_error, unit) result" where
  "validate_file_path path =
     (if \<not> starts_with path ''/'' \<or> contains_str path ''//'' \<or> has_control path
         \<or> list_ex (\<lambda>part. part = ''.'' \<or> part = ''..'') (split_slash path)
      then Inl (UnsafeLocation path) else Inr ())"

section \<open>Fields and relations\<close>

text \<open>The text a field names; the last file when it is a file.\<close>

definition field_text :: "string \<Rightarrow> primary_builder \<Rightarrow> string option" where
  "field_text f p =
     (if f = ''name'' then Some (mp_name p)
      else if f = ''arch'' then Some (mp_arch p)
      else if f = ''summary'' then Some (mp_summary p)
      else if f = ''description'' then Some (mp_description p)
      else if f = ''checksum'' then Some (mp_checksum p)
      else if f = ''vendor'' then Some (mp_vendor p)
      else if f = ''buildhost'' then Some (mp_build_host p)
      else if f = ''sourcerpm'' then Some (mp_source_rpm p)
      else if f = ''file'' then (if mp_files p = [] then None else Some (last (mp_files p)))
      else None)"

definition set_field_text :: "string \<Rightarrow> string \<Rightarrow> primary_builder \<Rightarrow> primary_builder" where
  "set_field_text f v p =
     (if f = ''name'' then p\<lparr>mp_name := v\<rparr>
      else if f = ''arch'' then p\<lparr>mp_arch := v\<rparr>
      else if f = ''summary'' then p\<lparr>mp_summary := v\<rparr>
      else if f = ''description'' then p\<lparr>mp_description := v\<rparr>
      else if f = ''checksum'' then p\<lparr>mp_checksum := v\<rparr>
      else if f = ''vendor'' then p\<lparr>mp_vendor := v\<rparr>
      else if f = ''buildhost'' then p\<lparr>mp_build_host := v\<rparr>
      else if f = ''sourcerpm'' then p\<lparr>mp_source_rpm := v\<rparr>
      else if f = ''file'' then p\<lparr>mp_files := butlast (mp_files p) @ [v]\<rparr>
      else p)"

definition append_field :: "string \<Rightarrow> primary_state \<Rightarrow> (metadata_error, primary_state) result" where
  "append_field v s =
     (case (ps_current s, ps_field s) of
        (Some p, Some f) \<Rightarrow>
          (case field_text f p of
             None \<Rightarrow> Inr s
           | Some t \<Rightarrow>
               bindR (checked_limit (len_u64 (t @ v)) MAX_XML_TEXT_BYTES ''XML text'') (\<lambda>_.
                 Inr (s\<lparr>ps_current := Some (set_field_text f (t @ v) p)\<rparr>)))
      | _ \<Rightarrow> Inr s)"

definition push_relation ::
  "primary_builder \<Rightarrow> string option \<Rightarrow> relation \<Rightarrow> (metadata_error, primary_builder) result" where
  "push_relation p grp r =
     (if grp = Some ''provides'' then Inr (p\<lparr>mp_provides := mp_provides p @ [r]\<rparr>)
      else if grp = Some ''requires'' then Inr (p\<lparr>mp_requires := mp_requires p @ [r]\<rparr>)
      else if grp = Some ''recommends'' then Inr (p\<lparr>mp_recommends := mp_recommends p @ [r]\<rparr>)
      else if grp = Some ''suggests'' then Inr (p\<lparr>mp_suggests := mp_suggests p @ [r]\<rparr>)
      else if grp = Some ''supplements'' then Inr (p\<lparr>mp_supplements := mp_supplements p @ [r]\<rparr>)
      else if grp = Some ''enhances'' then Inr (p\<lparr>mp_enhances := mp_enhances p @ [r]\<rparr>)
      else if grp = Some ''conflicts'' then Inr (p\<lparr>mp_conflicts := mp_conflicts p @ [r]\<rparr>)
      else if grp = Some ''obsoletes'' then Inr (p\<lparr>mp_obsoletes := mp_obsoletes p @ [r]\<rparr>)
      else Inl (MdXml ''relation outside group''))"

section \<open>Start and empty elements\<close>

definition check_namespace :: "xml_tag \<Rightarrow> (metadata_error, unit) result" where
  "check_namespace t =
     bindR (attribute_streaming (xt_attributes t) ''xmlns'') (\<lambda>ns.
     case ns of
       Some v \<Rightarrow> if v \<noteq> COMMON_NS \<and> v \<noteq> RPM_NS then Inl (MdXml ''unexpected primary namespace'') else Inr ()
     | None \<Rightarrow> Inr ())"

definition primary_root :: "xml_tag \<Rightarrow> primary_state \<Rightarrow> (metadata_error, primary_state) result" where
  "primary_root t s =
     (if xt_name t \<noteq> ''metadata'' then Inl (MdXml ''unexpected primary root or namespace'')
      else
        bindR (attribute_streaming (xt_attributes t) ''xmlns'') (\<lambda>ns.
        if ns \<noteq> Some COMMON_NS then Inl (MdXml ''unexpected primary root or namespace'')
        else
          bindR (attribute_streaming (xt_attributes t) ''packages'') (\<lambda>n.
          bindR (ok_or (MdXml ''missing primary package count'') n) (\<lambda>n.
          bindR (parse_number n) (\<lambda>n.
          bindR (checked_limit n PRIMARY_MAX_PACKAGES ''packages'') (\<lambda>_.
          bindR (attribute_streaming (xt_attributes t) ''xmlns:rpm'') (\<lambda>rpm.
          if (case rpm of None \<Rightarrow> False | Some v \<Rightarrow> v \<noteq> RPM_NS) then Inl (MdXml ''unexpected rpm namespace'')
          else Inr (s\<lparr>ps_rpm_namespace := (rpm \<noteq> None), ps_declared := Some n, ps_root_seen := True\<rparr>)))))))) "

definition start_package :: "xml_tag \<Rightarrow> primary_state \<Rightarrow> (metadata_error, primary_state) result" where
  "start_package t s =
     (if ps_current s \<noteq> None then Inl (MdXml ''nested primary package'')
      else
        bindR (attribute_streaming (xt_attributes t) ''type'') (\<lambda>kind.
        if kind \<noteq> Some ''rpm'' then Inl (MdXml ''primary package type is not rpm'')
        else Inr (s\<lparr>ps_current := Some default_primary_builder\<rparr>)))"

definition start_checksum :: "xml_tag \<Rightarrow> primary_state \<Rightarrow> (metadata_error, primary_state) result" where
  "start_checksum t s =
     bindR (attribute_streaming (xt_attributes t) ''type'') (\<lambda>kind.
     if kind \<noteq> Some ''sha256'' then Inl (UnsupportedChecksum ''primary package checksum declaration'')
     else
       bindR (attribute_streaming (xt_attributes t) ''pkgid'') (\<lambda>pkgid.
       if pkgid \<noteq> Some ''YES'' then Inl (UnsupportedChecksum ''primary package checksum declaration'')
       else Inr (s\<lparr>ps_field := Some ''checksum''\<rparr>)))"

definition start_file :: "primary_builder \<Rightarrow> primary_state \<Rightarrow> (metadata_error, primary_state) result" where
  "start_file p s =
     bindR (checked_increment (len_u64 (mp_files p)) MAX_FILES_PER_PACKAGE ''files per package'') (\<lambda>_.
     bindR (checked_increment (ps_paths s) MAX_FILE_PATHS ''file paths'') (\<lambda>paths.
       Inr (s\<lparr>ps_paths := paths, ps_current := Some (p\<lparr>mp_files := mp_files p @ [[]]\<rparr>), ps_field := Some ''file''\<rparr>)))"

definition text_fields :: "string list" where
  "text_fields = [''name'', ''arch'', ''summary'', ''description'', ''vendor'', ''buildhost'', ''sourcerpm'']"

definition relation_groups :: "string list" where
  "relation_groups = [''provides'', ''requires'', ''recommends'', ''suggests'', ''supplements'', ''enhances'', ''conflicts'',
     ''obsoletes'']"

definition primary_start :: "xml_tag \<Rightarrow> primary_state \<Rightarrow> (metadata_error, primary_state) result" where
  "primary_start t s =
     (if ps_root_closed s then Inl (MdXml ''content after primary root'')
      else if \<not> ps_root_seen s then primary_root t s
      else
        bindR (check_namespace t) (\<lambda>_.
        bindR (validate_prefix (xt_name t) (ps_rpm_namespace s)) (\<lambda>_.
        let l = local_name (xt_name t) in
        if l = ''package'' then start_package t s
        else
          case ps_current s of
            None \<Rightarrow> Inr s
          | Some p \<Rightarrow>
              if l = ''checksum'' then start_checksum t s
              else if l = ''file'' then start_file p s
              else if l \<in> set text_fields then Inr (s\<lparr>ps_field := Some l\<rparr>)
              else if l \<in> set relation_groups then Inr (s\<lparr>ps_relation_group := Some l\<rparr>)
              else Inr s)))"

definition add_entry :: "xml_tag \<Rightarrow> primary_builder \<Rightarrow> primary_state \<Rightarrow> (metadata_error, primary_state) result" where
  "add_entry t p s =
     bindR (parse_relation t) (\<lambda>r.
     bindR (checked_increment (ps_relations s) MAX_RELATIONS ''relations'') (\<lambda>relations.
     bindR (checked_increment (pu_relation_count p) MAX_RELATIONS_PER_PACKAGE ''relations per package'') (\<lambda>n.
     bindR (push_relation (p\<lparr>pu_relation_count := n\<rparr>) (ps_relation_group s) r) (\<lambda>p'.
       Inr (s\<lparr>ps_relations := relations, ps_current := Some p'\<rparr>)))))"

definition primary_empty :: "xml_tag \<Rightarrow> primary_state \<Rightarrow> (metadata_error, primary_state) result" where
  "primary_empty t s =
     (if \<not> ps_root_seen s \<or> ps_root_closed s then Inl (MdXml ''element outside primary root'')
      else
        bindR (check_namespace t) (\<lambda>_.
        bindR (validate_prefix (xt_name t) (ps_rpm_namespace s)) (\<lambda>_.
        case ps_current s of
          None \<Rightarrow> Inr s
        | Some p \<Rightarrow>
            let l = local_name (xt_name t); set_current = (\<lambda>p'. Inr (s\<lparr>ps_current := Some p'\<rparr>)) in
            if l = ''version'' then bindR (fill_version t p) set_current
            else if l = ''location'' then bindR (required_attr t ''href'') (\<lambda>v. set_current (p\<lparr>mp_location := v\<rparr>))
            else if l = ''time'' then bindR (optional_number t ''build'') (\<lambda>v. set_current (p\<lparr>mp_build_time := v\<rparr>))
            else if l = ''size'' then
              bindR (optional_number t ''package'') (\<lambda>a.
              bindR (optional_number t ''installed'') (\<lambda>b.
              bindR (optional_number t ''archive'') (\<lambda>c.
                set_current (p\<lparr>mp_package_size := a, mp_installed_size := b, mp_archive_size := c\<rparr>))))
            else if l = ''entry'' \<and> ps_relation_group s \<noteq> None then add_entry t p s
            else Inr s)))"

section \<open>End elements\<close>

definition checksum_malformed :: "string \<Rightarrow> bool" where
  "checksum_malformed c \<longleftrightarrow> c \<noteq> [] \<and> (length c \<noteq> 64 \<or> \<not> list_all is_ascii_hexdigit c)"

definition retain_complete :: "primary_builder \<Rightarrow> string \<Rightarrow> primary_state \<Rightarrow> primary_state" where
  "retain_complete p epoch s =
     s\<lparr>ps_packages := ps_packages s @ [complete_package.truncate (p\<lparr>mp_epoch := epoch\<rparr>)]\<rparr>"

definition retain_search ::
  "(bytes \<Rightarrow> bytes) \<Rightarrow> primary_builder \<Rightarrow> string \<Rightarrow> primary_state \<Rightarrow> (metadata_error, primary_state) result" where
  "retain_search sha p epoch s =
     (if 2 ^ 32 \<le> unat (ps_parsed_packages s)
      then Inl (InvalidNumber ''out of range integral type conversion attempted'')
      else
        Inr (s\<lparr>ps_primary_files := ps_primary_files s @
            map (\<lambda>path. \<lparr>pf_path_sha256 = sha path, pf_package_ordinal = of_nat (unat (ps_parsed_packages s))\<rparr>) (mp_files p),
          ps_identities := ps_identities s @ [\<lparr>pi_checksum = mp_checksum p, pi_name = mp_name p, pi_arch = mp_arch p,
            pi_epoch = epoch, pi_version = mp_version p, pi_release = mp_release p\<rparr>],
          ps_search_packages := ps_search_packages s @ [\<lparr>sp_name = mp_name p, sp_arch = mp_arch p, sp_epoch = epoch,
            sp_version = mp_version p, sp_release = mp_release p, sp_summary = mp_summary p\<rparr>]\<rparr>))"

definition push_package ::
  "(bytes \<Rightarrow> bytes) \<Rightarrow> primary_builder \<Rightarrow> primary_state \<Rightarrow> (metadata_error, primary_state) result" where
  "push_package sha p s =
     (if mp_name p = [] \<or> mp_arch p = [] \<or> mp_version p = [] \<or> mp_release p = []
      then Inl (MdXml ''package missing required fields'')
      else
        bindR (if mp_location p \<noteq> [] then validate_package_location (mp_location p) else Inr ()) (\<lambda>_.
        if checksum_malformed (mp_checksum p) then Inl (UnsupportedChecksum (mp_checksum p))
        else
          let epoch = (if mp_epoch p = [] then ''0'' else mp_epoch p) in
          bindR (if ps_retain_complete s then Inr (retain_complete p epoch s) else retain_search sha p epoch s) (\<lambda>s'.
          bindR (checked_increment (ps_parsed_packages s') PRIMARY_MAX_PACKAGES ''packages'') (\<lambda>n.
            if PRIMARY_MAX_PACKAGES < n then Inl (SizeMismatch PRIMARY_MAX_PACKAGES n)
            else Inr (s'\<lparr>ps_parsed_packages := n\<rparr>)))))"

definition end_element :: "(bytes \<Rightarrow> bytes) \<Rightarrow> string \<Rightarrow> primary_state \<Rightarrow> (metadata_error, primary_state) result" where
  "end_element sha name s =
     (if name = ''package'' then
        bindR (ok_or (MdXml ''package end without start'') (ps_current s)) (\<lambda>p. push_package sha p (s\<lparr>ps_current := None\<rparr>))
      else if name = ''metadata'' then
        if ps_current s \<noteq> None then Inl (MdXml ''unclosed primary package'') else Inr (s\<lparr>ps_root_closed := True\<rparr>)
      else Inr s)"

definition check_file_end :: "primary_state \<Rightarrow> (metadata_error, unit) result" where
  "check_file_end s =
     (case ps_current s of
        Some p \<Rightarrow>
          if mp_files p = [] then Inl (MdXml ''file end without start'') else validate_file_path (last (mp_files p))
      | None \<Rightarrow> Inl (MdXml ''file end without start''))"

definition primary_end :: "(bytes \<Rightarrow> bytes) \<Rightarrow> string \<Rightarrow> primary_state \<Rightarrow> (metadata_error, primary_state) result" where
  "primary_end sha name s =
     (if \<not> ps_root_seen s \<or> ps_root_closed s then Inl (MdXml ''end element outside primary root'')
      else
        bindR (end_element sha name s) (\<lambda>s'.
        let l = local_name name in
        bindR (if l = ''file'' then check_file_end s' else Inr ()) (\<lambda>_.
          let s2 = (if ps_relation_group s' = Some l then s'\<lparr>ps_relation_group := None\<rparr> else s') in
          Inr (if ps_field s2 = Some l then s2\<lparr>ps_field := None\<rparr> else s2))))"

section \<open>The reader\<close>

definition primary_outside :: "primary_state \<Rightarrow> bool" where
  "primary_outside s \<longleftrightarrow> \<not> ps_root_seen s \<or> ps_root_closed s"

fun primary_step ::
  "(bytes \<Rightarrow> bytes) \<Rightarrow> (string \<Rightarrow> (string, string) result) \<Rightarrow> xml_event \<Rightarrow> primary_state
     \<Rightarrow> (metadata_error, primary_state) result" where
  "primary_step sha unescape (XStart ns t) s =
     bindR (primary_start t s) (\<lambda>s'.
     if \<not> resolved_is_valid ns (xt_name t) then Inl (MdXml ''unexpected primary resolved namespace'') else Inr s')"
| "primary_step sha unescape (XEmpty ns t) s =
     bindR (primary_empty t s) (\<lambda>s'.
     if \<not> resolved_is_valid ns (xt_name t) then Inl (MdXml ''unexpected primary resolved namespace'') else Inr s')"
| "primary_step sha unescape (XText t) s =
     bindR (decode_text unescape t) (\<lambda>v.
     if primary_outside s then (if trim v \<noteq> [] then Inl (MdXml ''text outside primary root'') else Inr s)
     else append_field v s)"
| "primary_step sha unescape (XRef t) s =
     (if ps_field s \<noteq> None then bindR (decode_reference unescape t) (\<lambda>v. append_field v s)
      else if primary_outside s then Inl (MdXml ''content outside primary root'')
      else Inr s)"
| "primary_step sha unescape (XEnd name) s = primary_end sha name s"
| "primary_step sha unescape XDecl s =
     (if \<not> ps_root_seen s \<and> \<not> ps_declaration_seen s then Inr (s\<lparr>ps_declaration_seen := True\<rparr>)
      else Inl (MdXml ''misplaced XML declaration or doctype''))"
| "primary_step sha unescape (XDocType _) s = Inl (MdXml ''misplaced XML declaration or doctype'')"
| "primary_step sha unescape XComment s = Inr s"
| "primary_step sha unescape XPI s = Inr s"
| "primary_step sha unescape (XCData _) s =
     (if primary_outside s then Inl (MdXml ''content outside primary root'') else Inr s)"
| "primary_step sha unescape (XFail e) s = Inl (MdXml e)"

definition primary_finish :: "primary_state \<Rightarrow> (metadata_error, unit) result" where
  "primary_finish s =
     (if \<not> ps_root_seen s \<or> \<not> ps_root_closed s then Inl (MdXml ''incomplete primary root'')
      else
        bindR (ok_or (MdXml ''missing primary package count'') (ps_declared s)) (\<lambda>declared.
        if ps_parsed_packages s \<noteq> declared
        then Inl (MdXml (''primary package count mismatch: declared '' @ show_nat (unat declared) @ '', parsed ''
          @ show_nat (unat (ps_parsed_packages s))))
        else Inr ()))"

definition parse_with_mode :: "(bytes \<Rightarrow> bytes) \<Rightarrow> xml_lib \<Rightarrow> bytes \<Rightarrow> bool \<Rightarrow> (metadata_error, primary_state) result" where
  "parse_with_mode sha L bs retain =
     bindR (foldR (primary_step sha (xl_unescape L)) (xl_read L False bs) (default_primary_state retain)) (\<lambda>s.
     bindR (primary_finish s) (\<lambda>_. Inr s))"

definition parse_primary_records :: "(bytes \<Rightarrow> bytes) \<Rightarrow> xml_lib \<Rightarrow> bytes \<Rightarrow> (metadata_error, complete_package list) result" where
  "parse_primary_records sha L bs =
     bindR (parse_with_mode sha L bs True) (\<lambda>s.
     if list_ex (\<lambda>p. mp_location p = [] \<or> mp_checksum p = []) (ps_packages s)
     then Inl (MdXml ''package missing complete record fields'') else Inr (ps_packages s))"

definition parse_primary_validated :: "(bytes \<Rightarrow> bytes) \<Rightarrow> xml_lib \<Rightarrow> bytes \<Rightarrow> (metadata_error, validated_primary) result" where
  "parse_primary_validated sha L bs =
     bindR (parse_with_mode sha L bs False) (\<lambda>s.
       Inr \<lparr>vp_packages = ps_search_packages s, vp_identities = ps_identities s, vp_primary_files = ps_primary_files s\<rparr>)"

definition parse_primary :: "(bytes \<Rightarrow> bytes) \<Rightarrow> xml_lib \<Rightarrow> bytes \<Rightarrow> (metadata_error, package list) result" where
  "parse_primary sha L bs = bindR (parse_primary_validated sha L bs) (\<lambda>v. Inr (vp_packages v))"

section \<open>Search\<close>

definition search_rank :: "string \<Rightarrow> package \<Rightarrow> nat option" where
  "search_rank query p =
     (let name = map to_ascii_lowercase (sp_name p); summary = map to_ascii_lowercase (sp_summary p) in
      if name = query then Some 0
      else if starts_with name query then Some 1
      else if contains_str name query then Some 2
      else if contains_str summary query then Some 3
      else None)"

definition search_key :: "nat \<times> package \<Rightarrow> nat \<times> string \<times> string \<times> string \<times> string \<times> string \<times> string" where
  "search_key = (\<lambda>(rank, p). (rank, sp_name p, sp_epoch p, sp_version p, sp_release p, sp_arch p, sp_summary p))"

definition search :: "package list \<Rightarrow> string \<Rightarrow> package list" where
  "search packages query =
     (let query = map to_ascii_lowercase (trim query) in
      if query = [] then []
      else map snd (sort_key search_key
        (List.map_filter (\<lambda>p. map_option (\<lambda>rank. (rank, p)) (search_rank query p)) packages)))"

section \<open>What the reader promises\<close>

definition safe_package_location :: "string \<Rightarrow> bool" where
  "safe_package_location href \<longleftrightarrow> (\<forall>part\<in>set (split_slash href). part \<notin> {[], ''.'', ''..''}) \<and>
     (\<forall>c\<in>set href. c \<notin> {CHR 0x5C, CHR ''?'', CHR ''#'', CHR ''%''}) \<and> \<not> has_control href"

lemma validate_package_location_iff: "validate_package_location h = Inr () \<longleftrightarrow> safe_package_location h"
proof
  assume s: "safe_package_location h"
  then have p: "[] \<notin> set (split_slash h)" by (auto simp: safe_package_location_def)
  then have n: "\<not> contains_str h ''//''" using double_slash_empty_part by blast
  moreover have "\<not> contains_str h ''://''"
  proof
    assume "contains_str h ''://''"
    then obtain a b where "h = (a @ '':'') @ ''//'' @ b" by (auto simp: contains_str_iff)
    then show False using n unfolding contains_str_iff by blast
  qed
  moreover have "h \<noteq> [] \<and> \<not> starts_with h ''/''" using p by (auto simp: starts_with_iff)
  ultimately show "validate_package_location h = Inr ()"
    using s by (auto simp: validate_package_location_def safe_package_location_def list_ex_iff)
qed (auto simp: validate_package_location_def safe_package_location_def list_ex_iff split: if_splits)

definition package_relations :: "'a complete_package_scheme \<Rightarrow> nat" where
  "package_relations p = length (mp_provides p) + length (mp_requires p) + length (mp_recommends p) + length (mp_suggests p)
     + length (mp_supplements p) + length (mp_enhances p) + length (mp_conflicts p) + length (mp_obsoletes p)"

text \<open>The bounds a package has at every moment, and those of a finished one.\<close>

definition package_bounded :: "'a complete_package_scheme \<Rightarrow> bool" where
  "package_bounded p \<longleftrightarrow>
     (\<forall>t\<in>set ([mp_name p, mp_arch p, mp_summary p, mp_description p, mp_checksum p, mp_vendor p, mp_build_host p,
        mp_source_rpm p] @ mp_files p). length t \<le> 2 ^ 20)
     \<and> length (mp_files p) \<le> 1000000 \<and> package_relations p \<le> 16384"

definition package_ok :: "complete_package \<Rightarrow> bool" where
  "package_ok p \<longleftrightarrow> package_bounded p \<and> mp_name p \<noteq> [] \<and> mp_arch p \<noteq> [] \<and> mp_epoch p \<noteq> [] \<and> mp_version p \<noteq> []
     \<and> mp_release p \<noteq> [] \<and> (mp_location p \<noteq> [] \<longrightarrow> safe_package_location (mp_location p))
     \<and> (mp_checksum p \<noteq> [] \<longrightarrow> length (mp_checksum p) = 64 \<and> list_all is_ascii_hexdigit (mp_checksum p))"

definition relations_of :: "primary_state \<Rightarrow> nat" where
  "relations_of s = sum_list (map package_relations (ps_packages s))
     + (case ps_current s of None \<Rightarrow> 0 | Some p \<Rightarrow> package_relations p)"

definition files_of :: "primary_state \<Rightarrow> nat" where
  "files_of s = sum_list (map (\<lambda>p. length (mp_files p)) (ps_packages s))
     + (case ps_current s of None \<Rightarrow> 0 | Some p \<Rightarrow> length (mp_files p))"

definition primary_builder_ok :: "primary_builder \<Rightarrow> bool" where
  "primary_builder_ok p \<longleftrightarrow> package_bounded p \<and> package_relations p = unat (pu_relation_count p)"

definition primary_ok :: "primary_state \<Rightarrow> bool" where
  "primary_ok s \<longleftrightarrow> (\<forall>p\<in>set (ps_packages s). package_ok p) \<and> pred_option primary_builder_ok (ps_current s)
     \<and> length (ps_packages s) \<le> unat (ps_parsed_packages s) \<and> unat (ps_parsed_packages s) \<le> 2000000
     \<and> relations_of s \<le> unat (ps_relations s) \<and> unat (ps_relations s) \<le> 20000000
     \<and> files_of s \<le> unat (ps_paths s) \<and> unat (ps_paths s) \<le> 50000000"

text \<open>A step that only changes bookkeeping keeps the promise.\<close>

lemma primary_ok_cong:
  assumes "ps_packages s' = ps_packages s" "ps_current s' = ps_current s" "ps_parsed_packages s' = ps_parsed_packages s"
    "ps_relations s' = ps_relations s" "ps_paths s' = ps_paths s"
  shows "primary_ok s' = primary_ok s"
  using assms by (simp add: primary_ok_def relations_of_def files_of_def)

lemma primary_ok_current:
  assumes s: "primary_ok s" "ps_current s = Some p" and p: "primary_builder_ok p'"
    and eq: "package_relations p' = package_relations p" "length (mp_files p') = length (mp_files p)"
  shows "primary_ok (s\<lparr>ps_current := Some p'\<rparr>)"
  using assms by (simp add: primary_ok_def relations_of_def files_of_def)

lemma set_field_text_relations: "package_relations (set_field_text f v p) = package_relations p"
  by (simp add: set_field_text_def package_relations_def)

lemma field_text_files: "field_text f p = Some t \<Longrightarrow> length (mp_files (set_field_text f v p)) = length (mp_files p)"
  by (auto simp: set_field_text_def field_text_def split: if_splits)

lemma set_field_text_ok:
  assumes "primary_builder_ok p" "field_text f p = Some t" "length v \<le> 2 ^ 20"
  shows "primary_builder_ok (set_field_text f v p)"
proof -
  have "package_bounded (set_field_text f v p)"
    using assms by (auto simp: package_bounded_def primary_builder_ok_def set_field_text_def field_text_def package_relations_def
        dest: in_set_butlastD split: if_splits)
  then show ?thesis
    using assms(1) by (simp add: primary_builder_ok_def set_field_text_relations) (simp add: set_field_text_def)
qed

lemma append_field_ok: "append_field v s = Inr s' \<Longrightarrow> primary_ok s \<Longrightarrow> primary_ok s'"
proof -
  assume a: "append_field v s = Inr s'" and ok: "primary_ok s"
  consider (same) "s' = s" | (put) p f t where "ps_current s = Some p" "field_text f p = Some t"
      "len_u64 (t @ v) \<le> MAX_XML_TEXT_BYTES" "s' = s\<lparr>ps_current := Some (set_field_text f (t @ v) p)\<rparr>"
    using a by (auto simp: append_field_def bindR_eq_Inr checked_limit_iff split: option.splits)
  then show "primary_ok s'"
  proof cases
    case put
    have "length (t @ v) \<le> 2 ^ 20"
      using put(3) len_u64_le [of MAX_XML_TEXT_BYTES "t @ v"] by (simp add: MAX_XML_TEXT_BYTES_def)
    moreover have "primary_builder_ok p" using ok put(1) by (simp add: primary_ok_def)
    ultimately have "primary_builder_ok (set_field_text f (t @ v) p)" using set_field_text_ok put(2) by blast
    then show ?thesis
      unfolding put(4)
      by (rule primary_ok_current [OF ok put(1)]) (simp_all add: set_field_text_relations field_text_files [OF put(2)])
  qed (use ok in simp)
qed

lemma default_builder_ok: "primary_builder_ok default_primary_builder"
  by (simp add: primary_builder_ok_def package_bounded_def package_relations_def default_primary_builder_def)

lemma start_file_ok:
  assumes a: "start_file p s = Inr s'" and ok: "primary_ok s" and c: "ps_current s = Some p"
  shows "primary_ok s'"
proof -
  have b: "primary_builder_ok p" "length (mp_files p) \<le> 1000000" using ok c by (simp_all add: primary_ok_def primary_builder_ok_def package_bounded_def)
  then have len: "unat (len_u64 (mp_files p)) = length (mp_files p)" by (intro len_u64_small) simp
  have s': "unat (len_u64 (mp_files p)) + 1 \<le> 1000000" "unat (ps_paths s) + 1 \<le> 50000000"
    "s' = s\<lparr>ps_paths := ps_paths s + 1, ps_current := Some (p\<lparr>mp_files := mp_files p @ [[]]\<rparr>), ps_field := Some ''file''\<rparr>"
    using a by (auto simp: start_file_def bindR_eq_Inr checked_increment_iff MAX_FILES_PER_PACKAGE_def MAX_FILE_PATHS_def)
  have "unat (ps_paths s + 1) = unat (ps_paths s) + 1" using s'(2) by (intro trans [OF unat_add_fits]) simp_all
  moreover have "primary_builder_ok (p\<lparr>mp_files := mp_files p @ [[]]\<rparr>)"
    using b s'(1) len by (auto simp: primary_builder_ok_def package_bounded_def package_relations_def)
  ultimately show ?thesis
    using ok c s'(2) unfolding s'(3) by (simp add: primary_ok_def relations_of_def files_of_def package_relations_def)
qed

lemma primary_start_ok:
  assumes a: "primary_start t s = Inr s'" and ok: "primary_ok s"
  shows "primary_ok s'"
proof -
  have root: "primary_ok s'" if "primary_root t s = Inr s'"
    using that ok primary_ok_cong [of s' s]
    by (auto simp: primary_root_def bindR_eq_Inr split: if_splits)
  have package: "primary_ok s'" if "start_package t s = Inr s'"
    using that ok default_builder_ok
    by (auto simp: start_package_def bindR_eq_Inr primary_ok_def relations_of_def files_of_def default_primary_builder_def
        package_relations_def split: if_splits)
  have checksum: "primary_ok s'" if "start_checksum t s = Inr s'"
    using that ok primary_ok_cong [of s' s] by (auto simp: start_checksum_def bindR_eq_Inr split: if_splits)
  have field: "primary_ok (s\<lparr>ps_field := f\<rparr>)" "primary_ok (s\<lparr>ps_relation_group := f\<rparr>)" for f
    using ok primary_ok_cong [of "s\<lparr>ps_field := f\<rparr>" s] primary_ok_cong [of "s\<lparr>ps_relation_group := f\<rparr>" s] by simp_all
  show ?thesis
    using a root package checksum field ok start_file_ok [of _ s s']
    by (auto simp: primary_start_def bindR_eq_Inr Let_def split: if_splits option.splits)
qed

lemma push_relation_Inr:
  assumes "push_relation p g r = Inr p'"
  shows "package_relations p' = package_relations p + 1 \<and> mp_files p' = mp_files p \<and> pu_relation_count p' = pu_relation_count p
    \<and> [mp_name p', mp_arch p', mp_summary p', mp_description p', mp_checksum p', mp_vendor p', mp_build_host p', mp_source_rpm p'] =
      [mp_name p, mp_arch p, mp_summary p, mp_description p, mp_checksum p, mp_vendor p, mp_build_host p, mp_source_rpm p]"
  using assms by (auto simp: push_relation_def package_relations_def split: if_splits)

lemma add_entry_ok:
  assumes a: "add_entry t p s = Inr s'" and ok: "primary_ok s" and c: "ps_current s = Some p"
  shows "primary_ok s'"
proof -
  obtain r p' where bound: "unat (ps_relations s) + 1 \<le> 20000000" "unat (pu_relation_count p) + 1 \<le> 16384"
    and p': "push_relation (p\<lparr>pu_relation_count := pu_relation_count p + 1\<rparr>) (ps_relation_group s) r = Inr p'"
    and s': "s' = s\<lparr>ps_relations := ps_relations s + 1, ps_current := Some p'\<rparr>"
    using a by (auto simp: add_entry_def bindR_eq_Inr checked_increment_iff MAX_RELATIONS_def MAX_RELATIONS_PER_PACKAGE_def)
  have b: "primary_builder_ok p" using ok c by (simp add: primary_ok_def)
  have u: "unat (ps_relations s + 1) = unat (ps_relations s) + 1" "unat (pu_relation_count p + 1) = unat (pu_relation_count p) + 1"
    using bound by (intro trans [OF unat_add_fits]; simp)+
  note q = push_relation_Inr [OF p']
  have rel: "package_relations p' = package_relations p + 1" "mp_files p' = mp_files p"
    using q by (simp_all add: package_relations_def)
  have "primary_builder_ok p'"
    using b q bound u rel by (simp add: primary_builder_ok_def package_bounded_def)
  then show ?thesis
    using ok c bound u rel unfolding s' by (simp add: primary_ok_def relations_of_def files_of_def)
qed

lemma primary_empty_ok:
  assumes a: "primary_empty t s = Inr s'" and ok: "primary_ok s"
  shows "primary_ok s'"
proof (cases "ps_current s")
  case None
  then show ?thesis using a ok by (auto simp: primary_empty_def bindR_eq_Inr split: if_splits)
next
  case (Some p)
  have b: "primary_builder_ok p" using ok Some by (simp add: primary_ok_def)
  have keep: "primary_ok (s\<lparr>ps_current := Some p'\<rparr>)"
    if "package_relations p' = package_relations p" "mp_files p' = mp_files p" "pu_relation_count p' = pu_relation_count p"
      "[mp_name p', mp_arch p', mp_summary p', mp_description p', mp_checksum p', mp_vendor p', mp_build_host p', mp_source_rpm p'] =
      [mp_name p, mp_arch p, mp_summary p, mp_description p, mp_checksum p, mp_vendor p, mp_build_host p, mp_source_rpm p]" for p'
    by (rule primary_ok_current [OF ok Some]) (use b that in \<open>simp_all add: primary_builder_ok_def package_bounded_def\<close>)
  have outside: "\<not> (\<not> ps_root_seen s \<or> ps_root_closed s)" and ns: "check_namespace t = Inr ()"
    and prefix: "validate_prefix (xt_name t) (ps_rpm_namespace s) = Inr ()"
    using a by (auto simp: primary_empty_def bindR_eq_Inr split: if_splits)
  note step = a [unfolded primary_empty_def if_not_P [OF outside] ns prefix bindR_Inr Some option.case Let_def]
  define l where "l = local_name (xt_name t)"
  note step = step [folded l_def]
  consider (version) "l = ''version''" | (loc) "l = ''location''" | (time) "l = ''time''" | (sizes) "l = ''size''"
    | (entry) "l = ''entry''" "ps_relation_group s \<noteq> None" | (other) "s' = s"
    using step by (auto split: if_splits)
  then show ?thesis
  proof cases
    case version
    then obtain p' where p': "fill_version t p = Inr p'" "s' = s\<lparr>ps_current := Some p'\<rparr>"
      using step by (auto simp: bindR_eq_Inr)
    then show ?thesis by (auto simp: fill_version_def bindR_eq_Inr package_relations_def intro!: keep)
  next
    case loc
    then obtain h where "s' = s\<lparr>ps_current := Some (p\<lparr>mp_location := h\<rparr>)\<rparr>" using step by (auto simp: bindR_eq_Inr)
    then show ?thesis by (simp add: keep package_relations_def)
  next
    case time
    then obtain h where "s' = s\<lparr>ps_current := Some (p\<lparr>mp_build_time := h\<rparr>)\<rparr>" using step by (auto simp: bindR_eq_Inr)
    then show ?thesis by (simp add: keep package_relations_def)
  next
    case sizes
    then obtain x y z where "s' = s\<lparr>ps_current := Some (p\<lparr>mp_package_size := x, mp_installed_size := y, mp_archive_size := z\<rparr>)\<rparr>"
      using step by (auto simp: bindR_eq_Inr)
    then show ?thesis by (simp add: keep package_relations_def)
  next
    case entry
    then show ?thesis using step add_entry_ok [OF _ ok Some] by simp
  qed (use ok in simp)
qed

lemma truncate_sel [simp]:
  "mp_name (complete_package.truncate p) = mp_name p" "mp_arch (complete_package.truncate p) = mp_arch p"
  "mp_epoch (complete_package.truncate p) = mp_epoch p" "mp_version (complete_package.truncate p) = mp_version p"
  "mp_release (complete_package.truncate p) = mp_release p" "mp_summary (complete_package.truncate p) = mp_summary p"
  "mp_checksum (complete_package.truncate p) = mp_checksum p" "mp_location (complete_package.truncate p) = mp_location p"
  "mp_files (complete_package.truncate p) = mp_files p"
  "package_relations (complete_package.truncate p) = package_relations p"
  "package_bounded (complete_package.truncate p) = package_bounded p"
  by (simp_all add: complete_package.truncate_def package_relations_def package_bounded_def)

lemma epoch_bounded: "package_bounded (p\<lparr>mp_epoch := e\<rparr>) = package_bounded p"
  by (simp add: package_bounded_def package_relations_def)

lemma push_package_ok:
  assumes a: "push_package sha p (s\<lparr>ps_current := None\<rparr>) = Inr s'" and ok: "primary_ok s" and c: "ps_current s = Some p"
  shows "primary_ok s'"
proof -
  define epoch where "epoch = (if mp_epoch p = [] then ''0'' else mp_epoch p)"
  obtain s2 where req: "mp_name p \<noteq> []" "mp_arch p \<noteq> []" "mp_version p \<noteq> []" "mp_release p \<noteq> []"
    and loc: "mp_location p \<noteq> [] \<longrightarrow> validate_package_location (mp_location p) = Inr ()"
    and ck: "\<not> checksum_malformed (mp_checksum p)"
    and s2: "(if ps_retain_complete s then Inr (retain_complete p epoch (s\<lparr>ps_current := None\<rparr>))
        else retain_search sha p epoch (s\<lparr>ps_current := None\<rparr>)) = Inr s2"
    and n: "unat (ps_parsed_packages s2) + 1 \<le> 2000000" and s': "s' = s2\<lparr>ps_parsed_packages := ps_parsed_packages s2 + 1\<rparr>"
    using a by (auto simp: push_package_def bindR_eq_Inr checked_increment_iff PRIMARY_MAX_PACKAGES_def Let_def epoch_def split: if_splits)
  have b: "primary_builder_ok p" using ok c by (simp add: primary_ok_def)
  have u: "unat (ps_parsed_packages s2 + 1) = unat (ps_parsed_packages s2) + 1"
    using n by (intro trans [OF unat_add_fits]) simp_all
  have okp: "package_ok (complete_package.truncate (p\<lparr>mp_epoch := epoch\<rparr>))"
    using req loc ck b epoch_bounded [of epoch p]
    by (auto simp: package_ok_def primary_builder_ok_def validate_package_location_iff checksum_malformed_def epoch_def)
  have keep: "ps_current s2 = None \<and> ps_parsed_packages s2 = ps_parsed_packages s \<and> ps_relations s2 = ps_relations s
      \<and> ps_paths s2 = ps_paths s \<and>
      (ps_packages s2 = ps_packages s @ [complete_package.truncate (p\<lparr>mp_epoch := epoch\<rparr>)] \<or> ps_packages s2 = ps_packages s)"
    using s2 by (auto simp: retain_complete_def retain_search_def split: if_splits)
  have rel: "package_relations (p\<lparr>mp_epoch := epoch\<rparr>) = package_relations p" by (simp add: package_relations_def)
  show ?thesis
    using ok c keep n u okp rel unfolding s' by (auto simp: primary_ok_def relations_of_def files_of_def)
qed

lemma primary_end_ok:
  assumes a: "primary_end sha name s = Inr s'" and ok: "primary_ok s"
  shows "primary_ok s'"
proof -
  obtain s1 where e: "end_element sha name s = Inr s1" and s': "ps_packages s' = ps_packages s1" "ps_current s' = ps_current s1"
    "ps_parsed_packages s' = ps_parsed_packages s1" "ps_relations s' = ps_relations s1" "ps_paths s' = ps_paths s1"
    using a by (auto simp: primary_end_def bindR_eq_Inr Let_def split: if_splits)
  have "primary_ok s1"
  proof (cases "name = ''package''")
    case True
    then obtain p where "ps_current s = Some p" "push_package sha p (s\<lparr>ps_current := None\<rparr>) = Inr s1"
      using e by (auto simp: end_element_def bindR_eq_Inr ok_or_eq_Inr)
    then show ?thesis using push_package_ok ok by blast
  next
    case False
    then show ?thesis
      using e ok primary_ok_cong [of s1 s] by (auto simp: end_element_def split: if_splits)
  qed
  then show ?thesis using primary_ok_cong [OF s'] by simp
qed

lemma primary_step_ok: "primary_step sha u e s = Inr s' \<Longrightarrow> primary_ok s \<Longrightarrow> primary_ok s'"
proof (cases e)
  case (XStart ns t)
  assume "primary_step sha u e s = Inr s'" "primary_ok s"
  then show ?thesis using XStart primary_start_ok by (auto simp: bindR_eq_Inr split: if_splits)
next
  case (XEmpty ns t)
  assume "primary_step sha u e s = Inr s'" "primary_ok s"
  then show ?thesis using XEmpty primary_empty_ok by (auto simp: bindR_eq_Inr split: if_splits)
next
  case (XEnd n)
  assume "primary_step sha u e s = Inr s'" "primary_ok s"
  then show ?thesis using XEnd primary_end_ok by auto
next
  case XDecl
  assume "primary_step sha u e s = Inr s'" "primary_ok s"
  then show ?thesis using XDecl primary_ok_cong [of s' s] by (auto split: if_splits)
qed (auto simp: bindR_eq_Inr append_field_ok split: if_splits)

lemma parse_with_mode_ok:
  assumes "parse_with_mode sha L bs m = Inr s"
  shows "primary_ok s"
proof -
  have f: "foldR (primary_step sha (xl_unescape L)) (xl_read L False bs) (default_primary_state m) = Inr s"
    using assms by (auto simp: parse_with_mode_def bindR_eq_Inr)
  show ?thesis
  proof (rule foldR_invariant [where P = primary_ok, OF f])
    show "primary_ok (default_primary_state m)"
      by (simp add: primary_ok_def default_primary_state_def relations_of_def files_of_def)
  qed (rule primary_step_ok)
qed

definition complete_record_ok :: "complete_package \<Rightarrow> bool" where
  "complete_record_ok p \<longleftrightarrow> package_bounded p \<and> mp_name p \<noteq> [] \<and> mp_arch p \<noteq> [] \<and> mp_epoch p \<noteq> [] \<and> mp_version p \<noteq> []
     \<and> mp_release p \<noteq> [] \<and> safe_package_location (mp_location p)
     \<and> length (mp_checksum p) = 64 \<and> list_all is_ascii_hexdigit (mp_checksum p)"

definition complete_records_ok :: "complete_package list \<Rightarrow> bool" where
  "complete_records_ok ps \<longleftrightarrow> list_all complete_record_ok ps \<and> length ps \<le> 2000000 \<and>
     sum_list (map package_relations ps) \<le> 20000000 \<and> sum_list (map (\<lambda>p. length (mp_files p)) ps) \<le> 50000000"

lemma parse_primary_records_ok:
  assumes "parse_primary_records sha L bs = Inr ps"
  shows "complete_records_ok ps"
proof -
  obtain s where s: "parse_with_mode sha L bs True = Inr s" and ps: "ps = ps_packages s"
    and full: "\<forall>p\<in>set ps. mp_location p \<noteq> [] \<and> mp_checksum p \<noteq> []"
    using assms by (auto simp: parse_primary_records_def bindR_eq_Inr list_ex_iff split: if_splits)
  note ok = parse_with_mode_ok [OF s]
  have "list_all complete_record_ok ps"
    unfolding list_all_iff
  proof
    fix p assume p: "p \<in> set ps"
    then have "package_ok p" using ok ps by (simp add: primary_ok_def)
    then show "complete_record_ok p" using full p by (simp add: package_ok_def complete_record_ok_def)
  qed
  moreover have "length ps \<le> 2000000" "relations_of s \<le> 20000000" "files_of s \<le> 50000000"
    using ok ps by (auto simp: primary_ok_def)
  ultimately show ?thesis using ps by (auto simp: complete_records_ok_def relations_of_def files_of_def)
qed

end
