(* ===== verification/Metadata_Primary_Exact.thy ===== *)
theory Metadata_Primary_Exact
  imports Metadata_Primary
begin

text \<open>
  The primary metadata written as events and read back, and a document with nested file elements.
\<close>

section \<open>Reading back what is written\<close>

definition element_events :: "string \<Rightarrow> string \<Rightarrow> (string \<times> string) list \<Rightarrow> string \<Rightarrow> xml_event list" where
  "element_events ns name attributes v =
     XStart (NsBound ns) (tag_of name attributes) # text_events v @ [XEnd name]"

definition flags_text :: "relation_flags \<Rightarrow> string" where
  "flags_text f = (case f of EqualF \<Rightarrow> ''EQ'' | LessF \<Rightarrow> ''LT'' | LessEqualF \<Rightarrow> ''LE'' | GreaterF \<Rightarrow> ''GT'' | GreaterEqualF \<Rightarrow> ''GE'')"

definition optional_attr :: "string \<Rightarrow> string option \<Rightarrow> (string \<times> string) list" where
  "optional_attr k v = (case v of None \<Rightarrow> [] | Some s \<Rightarrow> [(k, s)])"

definition relation_attrs :: "relation \<Rightarrow> (string \<times> string) list" where
  "relation_attrs r = [(''name'', rel_name r)] @ optional_attr ''flags'' (map_option flags_text (rel_flags r))
     @ optional_attr ''epoch'' (rel_epoch r) @ optional_attr ''ver'' (rel_version r) @ optional_attr ''rel'' (rel_release r)
     @ (if rel_pre r then [(''pre'', ''1'')] else [])"

definition group_events :: "string \<Rightarrow> relation list \<Rightarrow> xml_event list" where
  "group_events g rs =
     XStart (NsBound RPM_NS) (tag_of (''rpm:'' @ g) [])
     # map (\<lambda>r. XEmpty (NsBound RPM_NS) (tag_of ''rpm:entry'' (relation_attrs r))) rs @ [XEnd (''rpm:'' @ g)]"

definition number_attr :: "string \<Rightarrow> u64 \<Rightarrow> string \<times> string" where
  "number_attr k v = (k, show_nat (unat v))"

definition package_events :: "complete_package \<Rightarrow> xml_event list" where
  "package_events p =
     [XStart (NsBound COMMON_NS) (tag_of ''package'' [(''type'', ''rpm'')])]
     @ element_events COMMON_NS ''name'' [] (mp_name p) @ element_events COMMON_NS ''arch'' [] (mp_arch p)
     @ [XEmpty (NsBound COMMON_NS) (tag_of ''version'' [(''epoch'', mp_epoch p), (''ver'', mp_version p), (''rel'', mp_release p)])]
     @ element_events COMMON_NS ''checksum'' [(''type'', ''sha256''), (''pkgid'', ''YES'')] (mp_checksum p)
     @ element_events COMMON_NS ''summary'' [] (mp_summary p) @ element_events COMMON_NS ''description'' [] (mp_description p)
     @ [XEmpty (NsBound COMMON_NS) (tag_of ''time'' [number_attr ''build'' (mp_build_time p)]),
        XEmpty (NsBound COMMON_NS) (tag_of ''size'' [number_attr ''package'' (mp_package_size p),
          number_attr ''installed'' (mp_installed_size p), number_attr ''archive'' (mp_archive_size p)]),
        XEmpty (NsBound COMMON_NS) (tag_of ''location'' [(''href'', mp_location p)])]
     @ element_events RPM_NS ''rpm:vendor'' [] (mp_vendor p) @ element_events RPM_NS ''rpm:buildhost'' [] (mp_build_host p)
     @ element_events RPM_NS ''rpm:sourcerpm'' [] (mp_source_rpm p)
     @ group_events ''provides'' (mp_provides p) @ group_events ''requires'' (mp_requires p)
     @ group_events ''recommends'' (mp_recommends p) @ group_events ''suggests'' (mp_suggests p)
     @ group_events ''supplements'' (mp_supplements p) @ group_events ''enhances'' (mp_enhances p)
     @ group_events ''conflicts'' (mp_conflicts p) @ group_events ''obsoletes'' (mp_obsoletes p)
     @ concat (map (element_events COMMON_NS ''file'' []) (mp_files p)) @ [XEnd ''package'']"

definition primary_events :: "complete_package list \<Rightarrow> xml_event list" where
  "primary_events ps =
     [XDecl, XStart (NsBound COMMON_NS) (tag_of ''metadata'' [(''xmlns'', COMMON_NS), (''xmlns:rpm'', RPM_NS),
        (''packages'', show_nat (length ps))])]
     @ concat (map package_events ps) @ [XEnd ''metadata'']"

subsection \<open>Texts\<close>

lemma set_field_text_id:
  assumes t: "field_text f p = Some t"
  shows "set_field_text f t p = p"
proof (cases "f = ''file''")
  case True
  then have "mp_files p \<noteq> []" "t = last (mp_files p)" using t by (simp_all add: field_text_def split: if_splits)
  then have "butlast (mp_files p) @ [t] = mp_files p" by simp
  then have "set_field_text f t p = p\<lparr>mp_files := mp_files p\<rparr>" using True by (simp add: set_field_text_def)
  then show ?thesis by simp
next
  case False
  then have "f \<in> {''name'', ''arch'', ''summary'', ''description'', ''checksum'', ''vendor'', ''buildhost'', ''sourcerpm''}"
    using t by (simp add: field_text_def split: if_splits)
  then show ?thesis
    using t by (elim insertE emptyE) (simp_all add: set_field_text_def field_text_def complete_package.equality)
qed

lemma set_field_text_twice: "set_field_text f b (set_field_text f a p) = set_field_text f b p"
proof (cases "f \<in> {''name'', ''arch'', ''summary'', ''description'', ''checksum'', ''vendor'', ''buildhost'', ''sourcerpm'', ''file''}")
  case True
  then show ?thesis by (elim insertE emptyE) (simp_all add: set_field_text_def)
next
  case False
  then have "set_field_text f v q = q" for v q by (simp add: set_field_text_def)
  then show ?thesis by simp
qed

lemma field_set_field_text: "field_text f p = Some t \<Longrightarrow> field_text f (set_field_text f v p) = Some v"
  by (auto simp: field_text_def set_field_text_def split: if_splits)

lemma append_field_put:
  assumes "ps_current s = Some p" "ps_field s = Some f" "field_text f p = Some t" "length (t @ v) \<le> 2 ^ 20"
  shows "append_field v s = Inr (s\<lparr>ps_current := Some (set_field_text f (t @ v) p)\<rparr>)"
proof -
  have "len_u64 (t @ v) \<le> MAX_XML_TEXT_BYTES"
    using assms(4) len_u64_le [of MAX_XML_TEXT_BYTES "t @ v"] by (simp add: MAX_XML_TEXT_BYTES_def)
  then have "checked_limit (len_u64 (t @ v)) MAX_XML_TEXT_BYTES ''XML text'' = Inr (len_u64 (t @ v))" by (simp add: checked_limit_iff)
  then show ?thesis using assms(1-3) by (simp add: append_field_def)
qed

lemma text_fold:
  assumes u: "unescape_xml u"
  shows "ps_current s = Some p \<Longrightarrow> ps_field s = Some f \<Longrightarrow> field_text f p = Some t \<Longrightarrow> length (t @ v) \<le> 2 ^ 20 \<Longrightarrow>
    \<not> primary_outside s \<Longrightarrow>
    foldR (primary_step sha u) (text_events v) s = Inr (s\<lparr>ps_current := Some (set_field_text f (t @ v) p)\<rparr>)"
proof (induction v arbitrary: s p t rule: text_events.induct)
  case (1 v)
  have plain: "decode_text u (Inr a) = Inr a" if "CHR ''&'' \<notin> set a" for a
    using u that by (simp add: decode_text_def unescape_xml_def unescape_plain_def)
  have amp: "decode_reference u (Inr ''amp'') = Inr ''&''" using u by (simp add: decode_reference_def unescape_xml_def)
  show ?case
  proof (cases "split_once ''&'' v")
    case None
    then have ev: "text_events v = (if v = [] then [] else [XText (Inr v)])" and nv: "CHR ''&'' \<notin> set v"
      by (simp add: text_events.simps [of v], simp add: split_once_char_None)
    show ?thesis
    proof (cases "v = []")
      case True
      then show ?thesis using ev 1(2-) set_field_text_id [of f p t] by simp
    next
      case False
      then show ?thesis using ev plain [OF nv] append_field_put [of s p f t v] 1(2-) by simp
    qed
  next
    case (Some ab)
    then obtain a b where ab: "split_once ''&'' v = Some (a, b)" by (cases ab) simp
    then have ev: "text_events v = XText (Inr a) # XRef (Inr ''amp'') # text_events b" by (simp add: text_events.simps [of v])
    have v: "v = a @ CHR ''&'' # b" "CHR ''&'' \<notin> set a" using split_once_char_SomeD [OF ab] by simp_all
    define s1 where "s1 = s\<lparr>ps_current := Some (set_field_text f (t @ a) p)\<rparr>"
    define s2 where "s2 = s1\<lparr>ps_current := Some (set_field_text f ((t @ a) @ ''&'') (set_field_text f (t @ a) p))\<rparr>"
    have a1: "append_field a s = Inr s1" unfolding s1_def by (rule append_field_put) (use 1(2-) v in simp_all)
    have a2: "append_field ''&'' s1 = Inr s2"
      unfolding s2_def by (rule append_field_put) (use 1(2-) v field_set_field_text [of f p t] in \<open>simp_all add: s1_def\<close>)
    have rest: "foldR (primary_step sha u) (text_events b) s2 =
        Inr (s2\<lparr>ps_current := Some (set_field_text f (((t @ a) @ ''&'') @ b) (set_field_text f ((t @ a) @ ''&'') (set_field_text f (t @ a) p)))\<rparr>)"
      by (rule 1(1) [OF ab refl])
        (use 1(2-) v field_set_field_text [of f _ _ "(t @ a) @ ''&''"] field_set_field_text [of f p t] in \<open>simp_all add: s1_def s2_def primary_outside_def\<close>)
    have "foldR (primary_step sha u) (text_events v) s = foldR (primary_step sha u) (text_events b) s2"
      using a1 a2 plain [OF v(2)] amp 1(2-) unfolding ev by (simp add: s1_def)
    then show ?thesis using rest by (simp add: s1_def s2_def set_field_text_twice v(1))
  qed
qed

subsection \<open>Elements\<close>

text \<open>Inside a package, between elements.\<close>

definition in_package :: "primary_builder \<Rightarrow> primary_state \<Rightarrow> bool" where
  "in_package p s \<longleftrightarrow> ps_root_seen s \<and> \<not> ps_root_closed s \<and> ps_rpm_namespace s \<and> ps_current s = Some p \<and>
     ps_field s = None \<and> ps_relation_group s = None"

lemma local_names [simp]:
  "local_name ''name'' = ''name''" "local_name ''arch'' = ''arch''" "local_name ''version'' = ''version''"
  "local_name ''checksum'' = ''checksum''" "local_name ''summary'' = ''summary''" "local_name ''description'' = ''description''"
  "local_name ''time'' = ''time''" "local_name ''size'' = ''size''" "local_name ''location'' = ''location''"
  "local_name ''rpm:vendor'' = ''vendor''" "local_name ''rpm:buildhost'' = ''buildhost''" "local_name ''rpm:sourcerpm'' = ''sourcerpm''"
  "local_name ''file'' = ''file''" "local_name ''package'' = ''package''" "local_name ''rpm:entry'' = ''entry''"
  "local_name ''metadata'' = ''metadata''"
  by code_simp+

lemma local_name_rpm: "CHR '':'' \<notin> set g \<Longrightarrow> local_name (''rpm:'' @ g) = g"
  using rsplit_once_last [of "CHR '':''" g "''rpm''"] by (simp add: local_name_def)

lemma validate_prefix_plain: "CHR '':'' \<notin> set n \<Longrightarrow> validate_prefix n b = Inr ()"
proof -
  assume "CHR '':'' \<notin> set n"
  then have "split_once '':'' n = None" by (simp only: split_once_char_None not_False_eq_True)
  then show ?thesis by (simp add: validate_prefix_def)
qed

lemma validate_prefix_rpm: "validate_prefix (''rpm:'' @ g) True = Inr ()"
  using split_once_char_first [of "CHR '':''" "''rpm''" g] by (simp add: validate_prefix_def)

lemma start_field:
  assumes s: "in_package p s" and f: "local_name n = f" "f \<in> set text_fields"
    and ns: "check_namespace (tag_of n as) = Inr ()" "validate_prefix n True = Inr ()"
  shows "primary_start (tag_of n as) s = Inr (s\<lparr>ps_field := Some f\<rparr>)"
proof -
  have "f \<noteq> ''package'' \<and> f \<noteq> ''checksum'' \<and> f \<noteq> ''file''" using f(2) by (auto simp: text_fields_def)
  then show ?thesis
    using s ns f by (simp add: primary_start_def in_package_def tag_of_def Let_def)
qed

lemma check_namespace_Nil: "check_namespace (tag_of n []) = Inr ()"
  by (simp add: check_namespace_def tag_of_def)

lemma end_field:
  assumes "ps_root_seen s" "\<not> ps_root_closed s" "ps_field s = Some f" "ps_relation_group s = None" "local_name n = f"
    "n \<noteq> ''package''" "n \<noteq> ''metadata''" "f \<noteq> ''file''"
  shows "primary_end sha n s = Inr (s\<lparr>ps_field := None\<rparr>)"
  using assms by (simp add: primary_end_def end_element_def Let_def)

lemma field_fold:
  assumes u: "unescape_xml u" and s: "in_package p s" and start: "primary_start (tag_of n as) s = Inr (s\<lparr>ps_field := Some f\<rparr>)"
    and f: "local_name n = f" "field_text f p = Some []" "f \<noteq> ''file''" and n: "n \<noteq> ''package''" "n \<noteq> ''metadata''"
    and ns: "resolved_is_valid (NsBound ns) n" and v: "length v \<le> 2 ^ 20"
  shows "foldR (primary_step sha u) (element_events ns n as v) s = Inr (s\<lparr>ps_current := Some (set_field_text f v p)\<rparr>)"
proof -
  define s1 where "s1 = s\<lparr>ps_field := Some f\<rparr>"
  have "foldR (primary_step sha u) (text_events v) s1 = Inr (s1\<lparr>ps_current := Some (set_field_text f ([] @ v) p)\<rparr>)"
    by (rule text_fold [OF u]) (use s f v in \<open>simp_all add: s1_def in_package_def primary_outside_def\<close>)
  moreover have "primary_end sha n (s1\<lparr>ps_current := Some (set_field_text f v p)\<rparr>) =
      Inr (s1\<lparr>ps_current := Some (set_field_text f v p), ps_field := None\<rparr>)"
    by (subst end_field) (use s f n in \<open>simp_all add: s1_def in_package_def\<close>)
  moreover have "s1\<lparr>ps_current := Some (set_field_text f v p), ps_field := None\<rparr> = s\<lparr>ps_current := Some (set_field_text f v p)\<rparr>"
    using s by (simp add: s1_def in_package_def)
  moreover have "primary_step sha u (XStart (NsBound ns) (tag_of n as)) s = Inr s1"
    using start ns by (simp add: s1_def) (simp add: tag_of_def)
  ultimately show ?thesis by (simp add: element_events_def foldR_append)
qed

lemma in_package_set: "in_package p s \<Longrightarrow> in_package q (s\<lparr>ps_current := Some q\<rparr>)"
  by (simp add: in_package_def)

lemma resolved_plain: "CHR '':'' \<notin> set n \<Longrightarrow> resolved_is_valid (NsBound COMMON_NS) n"
  "resolved_is_valid (NsBound RPM_NS) (''rpm:'' @ g)"
  by (simp_all add: resolved_is_valid_def)

lemma plain_field_fold:
  assumes "unescape_xml u" "in_package p s" "n \<in> {''name'', ''arch'', ''summary'', ''description''}" "field_text n p = Some []"
    "length v \<le> 2 ^ 20"
  shows "foldR (primary_step sha u) (element_events COMMON_NS n [] v) s = Inr (s\<lparr>ps_current := Some (set_field_text n v p)\<rparr>)"
proof (rule field_fold [OF assms(1,2)])
  have l: "local_name n = n" "CHR '':'' \<notin> set n" "n \<in> set text_fields" using assms(3) by (auto simp: text_fields_def)
  show "primary_start (tag_of n []) s = Inr (s\<lparr>ps_field := Some n\<rparr>)"
    by (rule start_field [OF assms(2)]) (use l in \<open>simp_all add: check_namespace_Nil validate_prefix_plain\<close>)
qed (use assms in \<open>auto simp: resolved_is_valid_def\<close>)

lemma rpm_field_fold:
  assumes "unescape_xml u" "in_package p s" "f \<in> {''vendor'', ''buildhost'', ''sourcerpm''}" "field_text f p = Some []"
    "length v \<le> 2 ^ 20"
  shows "foldR (primary_step sha u) (element_events RPM_NS (''rpm:'' @ f) [] v) s = Inr (s\<lparr>ps_current := Some (set_field_text f v p)\<rparr>)"
proof (rule field_fold [OF assms(1,2)])
  have l: "local_name (''rpm:'' @ f) = f" "f \<in> set text_fields" using assms(3) by (auto simp: text_fields_def)
  then show "local_name (''rpm:'' @ f) = f" by simp
  show "primary_start (tag_of (''rpm:'' @ f) []) s = Inr (s\<lparr>ps_field := Some f\<rparr>)"
    by (rule start_field [OF assms(2)]) (use l in \<open>simp_all add: check_namespace_Nil validate_prefix_rpm [simplified]\<close>)
qed (use assms in \<open>auto simp: resolved_is_valid_def\<close>)

lemma checksum_fold:
  assumes "unescape_xml u" "in_package p s" "mp_checksum p = []" "length v \<le> 2 ^ 20"
  shows "foldR (primary_step sha u) (element_events COMMON_NS ''checksum'' [(''type'', ''sha256''), (''pkgid'', ''YES'')] v) s =
    Inr (s\<lparr>ps_current := Some (set_field_text ''checksum'' v p)\<rparr>)"
proof (rule field_fold [OF assms(1,2)])
  show "primary_start (tag_of ''checksum'' [(''type'', ''sha256''), (''pkgid'', ''YES'')]) s = Inr (s\<lparr>ps_field := Some ''checksum''\<rparr>)"
    using assms(2) by (simp add: primary_start_def in_package_def tag_of_def check_namespace_def start_checksum_def
        validate_prefix_plain Let_def)
qed (use assms in \<open>simp_all add: field_text_def resolved_is_valid_def\<close>)

subsection \<open>Relations\<close>

lemma parse_relation_attrs: "parse_relation (tag_of n (relation_attrs r)) = Inr r"
proof (cases r)
  case (fields name flags epoch version release pre)
  show ?thesis
    unfolding fields
    by (cases flags; cases epoch; cases version; cases release; cases pre)
      (auto simp: parse_relation_def tag_of_def relation_attrs_def optional_attr_def flags_text_def parse_relation_flags_def ok_or_def
        split: relation_flags.splits)
qed

definition push_all :: "string \<Rightarrow> relation list \<Rightarrow> primary_builder \<Rightarrow> primary_builder" where
  "push_all g rs p =
     (if g = ''provides'' then p\<lparr>mp_provides := mp_provides p @ rs\<rparr>
      else if g = ''requires'' then p\<lparr>mp_requires := mp_requires p @ rs\<rparr>
      else if g = ''recommends'' then p\<lparr>mp_recommends := mp_recommends p @ rs\<rparr>
      else if g = ''suggests'' then p\<lparr>mp_suggests := mp_suggests p @ rs\<rparr>
      else if g = ''supplements'' then p\<lparr>mp_supplements := mp_supplements p @ rs\<rparr>
      else if g = ''enhances'' then p\<lparr>mp_enhances := mp_enhances p @ rs\<rparr>
      else if g = ''conflicts'' then p\<lparr>mp_conflicts := mp_conflicts p @ rs\<rparr>
      else if g = ''obsoletes'' then p\<lparr>mp_obsoletes := mp_obsoletes p @ rs\<rparr> else p)"

lemma group_cases: "g \<in> set relation_groups \<Longrightarrow>
  g = ''provides'' \<or> g = ''requires'' \<or> g = ''recommends'' \<or> g = ''suggests'' \<or> g = ''supplements'' \<or> g = ''enhances''
  \<or> g = ''conflicts'' \<or> g = ''obsoletes''"
  by (simp add: relation_groups_def)

lemma push_all_Nil: "g \<in> set relation_groups \<Longrightarrow> push_all g [] p = p"
  by (drule group_cases, elim disjE) (simp_all add: push_all_def complete_package.equality)

lemma push_all_Cons: "g \<in> set relation_groups \<Longrightarrow> push_all g (r # rs) p = push_all g rs (push_all g [r] p)"
  by (drule group_cases, elim disjE) (simp_all add: push_all_def)

lemma push_all_count: "g \<in> set relation_groups \<Longrightarrow> pu_relation_count (push_all g rs p) = pu_relation_count p"
  "g \<in> set relation_groups \<Longrightarrow> (push_all g rs p)\<lparr>pu_relation_count := n\<rparr> = push_all g rs (p\<lparr>pu_relation_count := n\<rparr>)"
  by (drule group_cases, elim disjE; simp add: push_all_def)+

lemma push_relation_all: "g \<in> set relation_groups \<Longrightarrow> push_relation p (Some g) r = Inr (push_all g [r] p)"
  by (drule group_cases, elim disjE) (simp_all add: push_relation_def push_all_def)

lemma entries_fold:
  assumes g: "g \<in> set relation_groups"
  shows "ps_root_seen s \<Longrightarrow> \<not> ps_root_closed s \<Longrightarrow> ps_rpm_namespace s \<Longrightarrow> ps_current s = Some p \<Longrightarrow> ps_relation_group s = Some g \<Longrightarrow>
    unat (ps_relations s) + length rs \<le> 20000000 \<Longrightarrow> unat (pu_relation_count p) + length rs \<le> 16384 \<Longrightarrow>
    foldR (primary_step sha u) (map (\<lambda>r. XEmpty (NsBound RPM_NS) (tag_of ''rpm:entry'' (relation_attrs r))) rs) s =
    Inr (s\<lparr>ps_relations := ps_relations s + of_nat (length rs),
      ps_current := Some (push_all g rs (p\<lparr>pu_relation_count := pu_relation_count p + of_nat (length rs)\<rparr>))\<rparr>)"
proof (induction rs arbitrary: s p)
  case Nil
  then show ?case by (simp add: push_all_Nil [OF g])
next
  case (Cons r rs)
  define s1 where "s1 = s\<lparr>ps_relations := ps_relations s + 1, ps_current := Some (push_all g [r] (p\<lparr>pu_relation_count := pu_relation_count p + 1\<rparr>))\<rparr>"
  have ns: "check_namespace (tag_of ''rpm:entry'' (relation_attrs r)) = Inr ()"
    by (cases r) (simp add: check_namespace_def tag_of_def relation_attrs_def optional_attr_def split: option.splits)
  have inc: "checked_increment (ps_relations s) MAX_RELATIONS k = Inr (ps_relations s + 1)"
    "checked_increment (pu_relation_count p) MAX_RELATIONS_PER_PACKAGE k' = Inr (pu_relation_count p + 1)" for k k'
    using Cons.prems(6,7) by (simp_all add: checked_increment_iff MAX_RELATIONS_def MAX_RELATIONS_PER_PACKAGE_def)
  have u: "unat (ps_relations s + 1) = unat (ps_relations s) + 1" "unat (pu_relation_count p + 1) = unat (pu_relation_count p) + 1"
    using Cons.prems(6,7) by (intro trans [OF unat_add_fits]; simp)+
  have add: "add_entry (tag_of ''rpm:entry'' (relation_attrs r)) p s = Inr s1"
    using Cons.prems(5) by (simp add: add_entry_def parse_relation_attrs inc push_relation_all [OF g] s1_def)
  have name: "xt_name (tag_of ''rpm:entry'' (relation_attrs r)) = ''rpm:entry''" by (simp add: tag_of_def)
  have step: "primary_step sha u (XEmpty (NsBound RPM_NS) (tag_of ''rpm:entry'' (relation_attrs r))) s = Inr s1"
    using Cons.prems(1-5) ns add validate_prefix_rpm [of "''entry''"]
    by (simp add: primary_empty_def name Let_def resolved_is_valid_def)
  have "foldR (primary_step sha u) (map (\<lambda>r. XEmpty (NsBound RPM_NS) (tag_of ''rpm:entry'' (relation_attrs r))) rs) s1 =
    Inr (s1\<lparr>ps_relations := ps_relations s1 + of_nat (length rs), ps_current := Some (push_all g rs
      ((push_all g [r] (p\<lparr>pu_relation_count := pu_relation_count p + 1\<rparr>))\<lparr>pu_relation_count := pu_relation_count p + 1 + of_nat (length rs)\<rparr>))\<rparr>)"
    by (subst Cons.IH [where p = "push_all g [r] (p\<lparr>pu_relation_count := pu_relation_count p + 1\<rparr>)"])
      (use Cons.prems u in \<open>simp_all add: s1_def push_all_count(1) [OF g]\<close>)
  then show ?case
    using step by (simp del: primary_step.simps add: s1_def push_all_count(2) [OF g] push_all_Cons [OF g, of r rs] ac_simps)
qed

lemma group_fold:
  assumes g: "g \<in> set relation_groups" and s: "in_package p s"
    and lim: "unat (ps_relations s) + length rs \<le> 20000000" "unat (pu_relation_count p) + length rs \<le> 16384"
  shows "foldR (primary_step sha u) (group_events g rs) s =
    Inr (s\<lparr>ps_relations := ps_relations s + of_nat (length rs),
      ps_current := Some (push_all g rs (p\<lparr>pu_relation_count := pu_relation_count p + of_nat (length rs)\<rparr>))\<rparr>)"
proof -
  have gn: "CHR '':'' \<notin> set g" "g \<noteq> ''package''" "g \<noteq> ''checksum''" "g \<noteq> ''file''" "g \<notin> set text_fields"
    using g by (auto simp: relation_groups_def text_fields_def)
  have l: "local_name (CHR ''r'' # CHR ''p'' # CHR ''m'' # CHR '':'' # g) = g" using local_name_rpm [OF gn(1)] by simp
  have pre: "validate_prefix (CHR ''r'' # CHR ''p'' # CHR ''m'' # CHR '':'' # g) True = Inr ()" using validate_prefix_rpm [of g] by simp
  define s1 where "s1 = s\<lparr>ps_relation_group := Some g\<rparr>"
  have start: "primary_start (tag_of (''rpm:'' @ g) []) s = Inr s1"
    using s gn g l pre check_namespace_Nil [of "''rpm:'' @ g"]
    by (simp add: primary_start_def in_package_def s1_def Let_def) (simp add: tag_of_def Let_def l pre)
  have entries: "foldR (primary_step sha u) (map (\<lambda>r. XEmpty (NsBound RPM_NS) (tag_of ''rpm:entry'' (relation_attrs r))) rs) s1 =
    Inr (s1\<lparr>ps_relations := ps_relations s1 + of_nat (length rs),
      ps_current := Some (push_all g rs (p\<lparr>pu_relation_count := pu_relation_count p + of_nat (length rs)\<rparr>))\<rparr>)"
    by (rule entries_fold [OF g]) (use s lim in \<open>simp_all add: s1_def in_package_def\<close>)
  have finish: "primary_end sha (''rpm:'' @ g) (s1\<lparr>ps_relations := n, ps_current := Some q\<rparr>) =
      Inr (s1\<lparr>ps_relations := n, ps_current := Some q, ps_relation_group := None\<rparr>)" for n q
    using s gn l by (simp add: primary_end_def end_element_def in_package_def s1_def Let_def)
  have "primary_step sha u (XStart (NsBound RPM_NS) (tag_of (''rpm:'' @ g) [])) s = Inr s1"
    using start by (simp add: resolved_is_valid_def) (simp add: tag_of_def)
  then have "foldR (primary_step sha u) (group_events g rs) s = Inr (s1\<lparr>ps_relations := ps_relations s1 + of_nat (length rs),
      ps_current := Some (push_all g rs (p\<lparr>pu_relation_count := pu_relation_count p + of_nat (length rs)\<rparr>)), ps_relation_group := None\<rparr>)"
    using entries finish by (simp del: append.simps add: group_events_def foldR_append)
  then show ?thesis using s by (simp add: s1_def in_package_def)
qed

subsection \<open>Files\<close>

lemma file_fold:
  assumes u: "unescape_xml u" and s: "in_package p s" and v: "length v \<le> 2 ^ 20" "validate_file_path v = Inr ()"
    and lim: "unat (ps_paths s) + 1 \<le> 50000000" "length (mp_files p) + 1 \<le> 1000000"
  shows "foldR (primary_step sha u) (element_events COMMON_NS ''file'' [] v) s =
    Inr (s\<lparr>ps_paths := ps_paths s + 1, ps_current := Some (p\<lparr>mp_files := mp_files p @ [v]\<rparr>)\<rparr>)"
proof -
  define p1 where "p1 = p\<lparr>mp_files := mp_files p @ [[]]\<rparr>"
  define s1 where "s1 = s\<lparr>ps_paths := ps_paths s + 1, ps_current := Some p1, ps_field := Some ''file''\<rparr>"
  have "unat (len_u64 (mp_files p)) = length (mp_files p)" using lim(2) by (intro len_u64_small) simp
  then have "checked_increment (len_u64 (mp_files p)) MAX_FILES_PER_PACKAGE k = Inr (len_u64 (mp_files p) + 1)"
    "checked_increment (ps_paths s) MAX_FILE_PATHS k = Inr (ps_paths s + 1)" for k
    using lim by (simp_all add: checked_increment_iff MAX_FILES_PER_PACKAGE_def MAX_FILE_PATHS_def)
  then have "start_file p s = Inr s1" by (simp add: start_file_def s1_def p1_def)
  then have start: "primary_start (tag_of ''file'' []) s = Inr s1"
    using s by (simp add: primary_start_def in_package_def tag_of_def check_namespace_def validate_prefix_plain Let_def)
  have step: "primary_step sha u (XStart (NsBound COMMON_NS) (tag_of ''file'' [])) s = Inr s1"
    using start by (simp add: resolved_is_valid_def) (simp add: tag_of_def)
  have body: "foldR (primary_step sha u) (text_events v) s1 = Inr (s1\<lparr>ps_current := Some (set_field_text ''file'' ([] @ v) p1)\<rparr>)"
    by (rule text_fold [OF u]) (use s v in \<open>simp_all add: s1_def p1_def in_package_def primary_outside_def field_text_def\<close>)
  have p2: "set_field_text ''file'' v p1 = p\<lparr>mp_files := mp_files p @ [v]\<rparr>" by (simp add: set_field_text_def p1_def)
  have "primary_end sha ''file'' (s1\<lparr>ps_current := Some (p\<lparr>mp_files := mp_files p @ [v]\<rparr>)\<rparr>) =
      Inr (s1\<lparr>ps_current := Some (p\<lparr>mp_files := mp_files p @ [v]\<rparr>), ps_field := None\<rparr>)"
    using s v by (simp add: primary_end_def end_element_def check_file_end_def in_package_def s1_def Let_def)
  then have "foldR (primary_step sha u) (element_events COMMON_NS ''file'' [] v) s =
      Inr (s1\<lparr>ps_current := Some (p\<lparr>mp_files := mp_files p @ [v]\<rparr>), ps_field := None\<rparr>)"
    using step body p2 by (simp del: primary_step.simps(1) add: element_events_def foldR_append)
  then show ?thesis using s by (simp add: s1_def in_package_def)
qed

lemma files_fold:
  assumes u: "unescape_xml u"
  shows "in_package p s \<Longrightarrow> \<forall>v\<in>set vs. length v \<le> 2 ^ 20 \<and> validate_file_path v = Inr () \<Longrightarrow>
    unat (ps_paths s) + length vs \<le> 50000000 \<Longrightarrow> length (mp_files p) + length vs \<le> 1000000 \<Longrightarrow>
    foldR (primary_step sha u) (concat (map (element_events COMMON_NS ''file'' []) vs)) s =
    Inr (s\<lparr>ps_paths := ps_paths s + of_nat (length vs), ps_current := Some (p\<lparr>mp_files := mp_files p @ vs\<rparr>)\<rparr>)"
proof (induction vs arbitrary: s p)
  case Nil
  then show ?case by (simp add: in_package_def)
next
  case (Cons v vs)
  define p1 where "p1 = p\<lparr>mp_files := mp_files p @ [v]\<rparr>"
  define s1 where "s1 = s\<lparr>ps_paths := ps_paths s + 1, ps_current := Some p1\<rparr>"
  have "foldR (primary_step sha u) (element_events COMMON_NS ''file'' [] v) s = Inr s1"
    unfolding s1_def p1_def by (rule file_fold [OF u Cons.prems(1)]) (use Cons.prems in simp_all)
  moreover have "unat (ps_paths s + 1) = unat (ps_paths s) + 1" using Cons.prems(3) by (intro trans [OF unat_add_fits]) simp_all
  then have "foldR (primary_step sha u) (concat (map (element_events COMMON_NS ''file'' []) vs)) s1 =
      Inr (s1\<lparr>ps_paths := ps_paths s1 + of_nat (length vs), ps_current := Some (p1\<lparr>mp_files := mp_files p1 @ vs\<rparr>)\<rparr>)"
    by (intro Cons.IH) (use Cons.prems in \<open>simp_all add: s1_def p1_def in_package_def\<close>)
  ultimately show ?case by (simp add: foldR_append s1_def p1_def ac_simps)
qed

subsection \<open>Packages\<close>

lemma optional_number_attr:
  "optional_number (tag_of n (number_attr k v # as)) k = Inr v"
  "k' \<noteq> k \<Longrightarrow> optional_number (tag_of n (number_attr k' v' # as)) k = optional_number (tag_of n as) k"
  by (simp_all add: optional_number_def tag_of_def number_attr_def parse_number_show)

lemma fst_number_attr [simp]: "fst (number_attr k v) = k"
  by (simp add: number_attr_def)

lemma empties_fold:
  assumes s: "in_package p s"
  shows "primary_step sha u (XEmpty (NsBound COMMON_NS) (tag_of ''version'' [(''epoch'', e), (''ver'', v), (''rel'', r)])) s =
      Inr (s\<lparr>ps_current := Some (p\<lparr>mp_epoch := e, mp_version := v, mp_release := r\<rparr>)\<rparr>)"
    "primary_step sha u (XEmpty (NsBound COMMON_NS) (tag_of ''time'' [number_attr ''build'' b])) s =
      Inr (s\<lparr>ps_current := Some (p\<lparr>mp_build_time := b\<rparr>)\<rparr>)"
    "primary_step sha u (XEmpty (NsBound COMMON_NS) (tag_of ''size'' [number_attr ''package'' x, number_attr ''installed'' y, number_attr ''archive'' z])) s =
      Inr (s\<lparr>ps_current := Some (p\<lparr>mp_package_size := x, mp_installed_size := y, mp_archive_size := z\<rparr>)\<rparr>)"
    "primary_step sha u (XEmpty (NsBound COMMON_NS) (tag_of ''location'' [(''href'', h)])) s =
      Inr (s\<lparr>ps_current := Some (p\<lparr>mp_location := h\<rparr>)\<rparr>)"
proof -
  have name: "xt_name (tag_of n as) = n" for n as by (simp add: tag_of_def)
  have ns: "check_namespace (tag_of n as) = Inr ()" if "\<forall>a\<in>set as. fst a \<noteq> ''xmlns''" for n as
  proof -
    have "attribute_streaming (map (\<lambda>(k, v). Inr (k, Inr v)) as) ''xmlns'' = Inr None" using that by (induction as) auto
    then show ?thesis by (simp add: check_namespace_def tag_of_def)
  qed
  note defs = primary_empty_def name ns validate_prefix_plain resolved_is_valid_def Let_def in_package_def
  show "primary_step sha u (XEmpty (NsBound COMMON_NS) (tag_of ''version'' [(''epoch'', e), (''ver'', v), (''rel'', r)])) s =
      Inr (s\<lparr>ps_current := Some (p\<lparr>mp_epoch := e, mp_version := v, mp_release := r\<rparr>)\<rparr>)"
    using s by (simp add: defs fill_version_def required_attr_def ok_or_def) (simp add: tag_of_def)
  show "primary_step sha u (XEmpty (NsBound COMMON_NS) (tag_of ''time'' [number_attr ''build'' b])) s =
      Inr (s\<lparr>ps_current := Some (p\<lparr>mp_build_time := b\<rparr>)\<rparr>)"
    using s by (simp add: defs optional_number_attr)
  show "primary_step sha u (XEmpty (NsBound COMMON_NS) (tag_of ''size'' [number_attr ''package'' x, number_attr ''installed'' y, number_attr ''archive'' z])) s =
      Inr (s\<lparr>ps_current := Some (p\<lparr>mp_package_size := x, mp_installed_size := y, mp_archive_size := z\<rparr>)\<rparr>)"
    using s by (simp add: defs optional_number_attr)
  show "primary_step sha u (XEmpty (NsBound COMMON_NS) (tag_of ''location'' [(''href'', h)])) s =
      Inr (s\<lparr>ps_current := Some (p\<lparr>mp_location := h\<rparr>)\<rparr>)"
    using s by (simp add: defs required_attr_def ok_or_def) (simp add: tag_of_def)
qed

text \<open>Composing folds.\<close>

lemma foldR_then: "foldR f xs s = Inr s1 \<Longrightarrow> foldR f ys s1 = r \<Longrightarrow> foldR f (xs @ ys) s = r"
  by (simp add: foldR_append)

lemma foldR_step: "f x s = Inr s1 \<Longrightarrow> foldR f ys s1 = r \<Longrightarrow> foldR f (x # ys) s = r"
  by simp

lemma push_all_sel:
  "push_all ''provides'' rs p = p\<lparr>mp_provides := mp_provides p @ rs\<rparr>" "push_all ''requires'' rs p = p\<lparr>mp_requires := mp_requires p @ rs\<rparr>"
  "push_all ''recommends'' rs p = p\<lparr>mp_recommends := mp_recommends p @ rs\<rparr>" "push_all ''suggests'' rs p = p\<lparr>mp_suggests := mp_suggests p @ rs\<rparr>"
  "push_all ''supplements'' rs p = p\<lparr>mp_supplements := mp_supplements p @ rs\<rparr>" "push_all ''enhances'' rs p = p\<lparr>mp_enhances := mp_enhances p @ rs\<rparr>"
  "push_all ''conflicts'' rs p = p\<lparr>mp_conflicts := mp_conflicts p @ rs\<rparr>" "push_all ''obsoletes'' rs p = p\<lparr>mp_obsoletes := mp_obsoletes p @ rs\<rparr>"
  by (simp_all add: push_all_def)

lemma set_field_sel:
  "set_field_text ''name'' v p = p\<lparr>mp_name := v\<rparr>" "set_field_text ''arch'' v p = p\<lparr>mp_arch := v\<rparr>"
  "set_field_text ''summary'' v p = p\<lparr>mp_summary := v\<rparr>" "set_field_text ''description'' v p = p\<lparr>mp_description := v\<rparr>"
  "set_field_text ''checksum'' v p = p\<lparr>mp_checksum := v\<rparr>" "set_field_text ''vendor'' v p = p\<lparr>mp_vendor := v\<rparr>"
  "set_field_text ''buildhost'' v p = p\<lparr>mp_build_host := v\<rparr>" "set_field_text ''sourcerpm'' v p = p\<lparr>mp_source_rpm := v\<rparr>"
  by (simp_all add: set_field_text_def)

lemma field_text_sel:
  "field_text ''name'' p = Some (mp_name p)" "field_text ''arch'' p = Some (mp_arch p)"
  "field_text ''summary'' p = Some (mp_summary p)" "field_text ''description'' p = Some (mp_description p)"
  "field_text ''vendor'' p = Some (mp_vendor p)"
  "field_text ''buildhost'' p = Some (mp_build_host p)" "field_text ''sourcerpm'' p = Some (mp_source_rpm p)"
  by (simp_all add: field_text_def)

text \<open>The header of a package, up to its location.\<close>

definition head_events :: "complete_package \<Rightarrow> xml_event list" where
  "head_events p = element_events COMMON_NS ''name'' [] (mp_name p) @ element_events COMMON_NS ''arch'' [] (mp_arch p)
     @ [XEmpty (NsBound COMMON_NS) (tag_of ''version'' [(''epoch'', mp_epoch p), (''ver'', mp_version p), (''rel'', mp_release p)])]
     @ element_events COMMON_NS ''checksum'' [(''type'', ''sha256''), (''pkgid'', ''YES'')] (mp_checksum p)
     @ element_events COMMON_NS ''summary'' [] (mp_summary p) @ element_events COMMON_NS ''description'' [] (mp_description p)
     @ [XEmpty (NsBound COMMON_NS) (tag_of ''time'' [number_attr ''build'' (mp_build_time p)]),
        XEmpty (NsBound COMMON_NS) (tag_of ''size'' [number_attr ''package'' (mp_package_size p),
          number_attr ''installed'' (mp_installed_size p), number_attr ''archive'' (mp_archive_size p)]),
        XEmpty (NsBound COMMON_NS) (tag_of ''location'' [(''href'', mp_location p)])]
     @ element_events RPM_NS ''rpm:vendor'' [] (mp_vendor p) @ element_events RPM_NS ''rpm:buildhost'' [] (mp_build_host p)
     @ element_events RPM_NS ''rpm:sourcerpm'' [] (mp_source_rpm p)"

definition head_builder :: "complete_package \<Rightarrow> primary_builder" where
  "head_builder p = default_primary_builder\<lparr>mp_name := mp_name p, mp_arch := mp_arch p, mp_epoch := mp_epoch p,
     mp_version := mp_version p, mp_release := mp_release p, mp_checksum := mp_checksum p, mp_summary := mp_summary p,
     mp_description := mp_description p, mp_build_time := mp_build_time p, mp_package_size := mp_package_size p,
     mp_installed_size := mp_installed_size p, mp_archive_size := mp_archive_size p, mp_location := mp_location p,
     mp_vendor := mp_vendor p, mp_build_host := mp_build_host p, mp_source_rpm := mp_source_rpm p\<rparr>"

definition between_elements :: "primary_state \<Rightarrow> bool" where
  "between_elements s \<longleftrightarrow> ps_root_seen s \<and> \<not> ps_root_closed s \<and> ps_rpm_namespace s \<and> ps_field s = None \<and> ps_relation_group s = None"

lemma between_in_package: "between_elements s \<Longrightarrow> in_package b (s\<lparr>ps_current := Some b\<rparr>)"
  by (simp add: between_elements_def in_package_def)

lemma element_at:
  assumes u: "unescape_xml u" and s: "between_elements s" and v: "length v \<le> 2 ^ 20"
  shows "mp_name b = [] \<Longrightarrow> foldR (primary_step sha u) (element_events COMMON_NS ''name'' [] v) (s\<lparr>ps_current := Some b\<rparr>) =
      Inr (s\<lparr>ps_current := Some (b\<lparr>mp_name := v\<rparr>)\<rparr>)"
    "mp_arch b = [] \<Longrightarrow> foldR (primary_step sha u) (element_events COMMON_NS ''arch'' [] v) (s\<lparr>ps_current := Some b\<rparr>) =
      Inr (s\<lparr>ps_current := Some (b\<lparr>mp_arch := v\<rparr>)\<rparr>)"
    "mp_summary b = [] \<Longrightarrow> foldR (primary_step sha u) (element_events COMMON_NS ''summary'' [] v) (s\<lparr>ps_current := Some b\<rparr>) =
      Inr (s\<lparr>ps_current := Some (b\<lparr>mp_summary := v\<rparr>)\<rparr>)"
    "mp_description b = [] \<Longrightarrow> foldR (primary_step sha u) (element_events COMMON_NS ''description'' [] v) (s\<lparr>ps_current := Some b\<rparr>) =
      Inr (s\<lparr>ps_current := Some (b\<lparr>mp_description := v\<rparr>)\<rparr>)"
    "mp_checksum b = [] \<Longrightarrow> foldR (primary_step sha u) (element_events COMMON_NS ''checksum'' [(''type'', ''sha256''), (''pkgid'', ''YES'')] v)
      (s\<lparr>ps_current := Some b\<rparr>) = Inr (s\<lparr>ps_current := Some (b\<lparr>mp_checksum := v\<rparr>)\<rparr>)"
    "mp_vendor b = [] \<Longrightarrow> foldR (primary_step sha u) (element_events RPM_NS ''rpm:vendor'' [] v) (s\<lparr>ps_current := Some b\<rparr>) =
      Inr (s\<lparr>ps_current := Some (b\<lparr>mp_vendor := v\<rparr>)\<rparr>)"
    "mp_build_host b = [] \<Longrightarrow> foldR (primary_step sha u) (element_events RPM_NS ''rpm:buildhost'' [] v) (s\<lparr>ps_current := Some b\<rparr>) =
      Inr (s\<lparr>ps_current := Some (b\<lparr>mp_build_host := v\<rparr>)\<rparr>)"
    "mp_source_rpm b = [] \<Longrightarrow> foldR (primary_step sha u) (element_events RPM_NS ''rpm:sourcerpm'' [] v) (s\<lparr>ps_current := Some b\<rparr>) =
      Inr (s\<lparr>ps_current := Some (b\<lparr>mp_source_rpm := v\<rparr>)\<rparr>)"
  using plain_field_fold [OF u between_in_package [OF s, of b] _ _ v] rpm_field_fold [OF u between_in_package [OF s, of b] _ _ v]
    checksum_fold [OF u between_in_package [OF s, of b] _ v]
  by (simp_all add: field_text_sel set_field_sel)

lemmas empties_at = empties_fold [OF between_in_package]

lemma head_fold:
  assumes u: "unescape_xml u" and s: "between_elements s" and p: "package_bounded p"
  shows "foldR (primary_step sha u) (head_events p) (s\<lparr>ps_current := Some default_primary_builder\<rparr>) =
    Inr (s\<lparr>ps_current := Some (head_builder p)\<rparr>)"
proof -
  have len: "length (mp_name p) \<le> 2 ^ 20" "length (mp_arch p) \<le> 2 ^ 20" "length (mp_summary p) \<le> 2 ^ 20" "length (mp_description p) \<le> 2 ^ 20"
    "length (mp_checksum p) \<le> 2 ^ 20" "length (mp_vendor p) \<le> 2 ^ 20" "length (mp_build_host p) \<le> 2 ^ 20" "length (mp_source_rpm p) \<le> 2 ^ 20"
    using p by (simp_all add: package_bounded_def)
  show ?thesis
    unfolding head_events_def foldR_append
    by (simp del: primary_step.simps add: element_at [OF u s] empties_at [OF s] len [simplified] head_builder_def default_primary_builder_def)
qed

fun push_groups :: "(string \<times> relation list) list \<Rightarrow> primary_builder \<Rightarrow> primary_builder" where
  "push_groups [] p = p"
| "push_groups ((g, rs) # gs) p = push_groups gs (push_all g rs p)"

abbreviation group_total :: "(string \<times> relation list) list \<Rightarrow> nat" where
  "group_total gs \<equiv> sum_list (map (\<lambda>(g, rs). length rs) gs)"

lemma push_groups_count:
  "list_all (\<lambda>(g, rs). g \<in> set relation_groups) gs \<Longrightarrow>
   (push_groups gs p)\<lparr>pu_relation_count := n\<rparr> = push_groups gs (p\<lparr>pu_relation_count := n\<rparr>)"
  by (induction gs arbitrary: p) (auto simp: push_all_count(2))

lemma groups_fold:
  "between_elements s \<Longrightarrow> list_all (\<lambda>(g, rs). g \<in> set relation_groups) gs \<Longrightarrow>
   unat (ps_relations s) + group_total gs \<le> 20000000 \<Longrightarrow> unat (pu_relation_count p) + group_total gs \<le> 16384 \<Longrightarrow>
   foldR (primary_step sha u) (concat (map (\<lambda>(g, rs). group_events g rs) gs)) (s\<lparr>ps_current := Some p\<rparr>) =
   Inr (s\<lparr>ps_relations := ps_relations s + of_nat (group_total gs),
     ps_current := Some (push_groups gs (p\<lparr>pu_relation_count := pu_relation_count p + of_nat (group_total gs)\<rparr>))\<rparr>)"
proof (induction gs arbitrary: s p)
  case Nil
  then show ?case by (simp add: foldR_append)
next
  case (Cons x gs)
  obtain g rs where x: "x = (g, rs)" by (cases x)
  have g: "g \<in> set relation_groups" using Cons.prems(2) x by simp
  define n :: u64 where "n = of_nat (length rs)"
  define p1 where "p1 = push_all g rs (p\<lparr>pu_relation_count := pu_relation_count p + n\<rparr>)"
  define s1 where "s1 = s\<lparr>ps_relations := ps_relations s + n\<rparr>"
  have n: "unat n = length rs" using Cons.prems(3) x by (simp add: n_def unat_of_nat)
  have u: "unat (ps_relations s + n) = unat (ps_relations s) + length rs"
    "unat (pu_relation_count p + n) = unat (pu_relation_count p) + length rs"
    using Cons.prems(3,4) x n by (intro trans [OF unat_add_fits]; simp)+
  have c: "pu_relation_count p1 = pu_relation_count p + n" by (simp add: p1_def push_all_count(1) [OF g])
  have "foldR (primary_step sha u) (group_events g rs) (s\<lparr>ps_current := Some p\<rparr>) =
      Inr (s\<lparr>ps_current := Some p, ps_relations := ps_relations (s\<lparr>ps_current := Some p\<rparr>) + of_nat (length rs),
        ps_current := Some (push_all g rs (p\<lparr>pu_relation_count := pu_relation_count p + of_nat (length rs)\<rparr>))\<rparr>)"
    by (rule group_fold [OF g between_in_package [OF Cons.prems(1)]]) (use Cons.prems(3,4) x in simp_all)
  then have first: "foldR (primary_step sha u) (group_events g rs) (s\<lparr>ps_current := Some p\<rparr>) = Inr (s1\<lparr>ps_current := Some p1\<rparr>)"
    by (simp add: s1_def p1_def n_def)
  have "foldR (primary_step sha u) (concat (map (\<lambda>(g, rs). group_events g rs) gs)) (s1\<lparr>ps_current := Some p1\<rparr>) =
      Inr (s1\<lparr>ps_relations := ps_relations s1 + of_nat (group_total gs),
        ps_current := Some (push_groups gs (p1\<lparr>pu_relation_count := pu_relation_count p1 + of_nat (group_total gs)\<rparr>))\<rparr>)"
    by (rule Cons.IH) (use Cons.prems x u c in \<open>simp_all add: s1_def between_elements_def\<close>)
  moreover have "p1\<lparr>pu_relation_count := m\<rparr> = push_all g rs (p\<lparr>pu_relation_count := m\<rparr>)" for m
    by (simp add: p1_def push_all_count(2) [OF g])
  ultimately show ?case
    using first by (simp add: x foldR_append s1_def c n_def ac_simps)
qed

definition groups_of :: "complete_package \<Rightarrow> (string \<times> relation list) list" where
  "groups_of p = [(''provides'', mp_provides p), (''requires'', mp_requires p), (''recommends'', mp_recommends p),
     (''suggests'', mp_suggests p), (''supplements'', mp_supplements p), (''enhances'', mp_enhances p),
     (''conflicts'', mp_conflicts p), (''obsoletes'', mp_obsoletes p)]"

lemma groups_of_ok: "list_all (\<lambda>(g, rs). g \<in> set relation_groups) (groups_of p)" "group_total (groups_of p) = package_relations p"
  by (simp_all add: groups_of_def relation_groups_def package_relations_def)

lemma package_events_split:
  "package_events p = XStart (NsBound COMMON_NS) (tag_of ''package'' [(''type'', ''rpm'')]) # head_events p
     @ concat (map (\<lambda>(g, rs). group_events g rs) (groups_of p))
     @ concat (map (element_events COMMON_NS ''file'' []) (mp_files p)) @ [XEnd ''package'']"
  by (simp add: package_events_def head_events_def groups_of_def)

definition readable_package :: "complete_package \<Rightarrow> bool" where
  "readable_package p \<longleftrightarrow> complete_record_ok p \<and> (\<forall>f\<in>set (mp_files p). validate_file_path f = Inr ())"

lemma built_package:
  "complete_package.truncate ((push_groups (groups_of p) (head_builder p\<lparr>pu_relation_count := n\<rparr>))\<lparr>mp_files := mp_files p\<rparr>) = p"
  by (cases p) (simp add: groups_of_def push_all_sel head_builder_def default_primary_builder_def complete_package.truncate_def)

lemma package_fold:
  assumes u: "unescape_xml u" and s: "between_elements s" "ps_current s = None" "ps_retain_complete s" and p: "readable_package p"
    and lim: "unat (ps_relations s) + package_relations p \<le> 20000000" "unat (ps_paths s) + length (mp_files p) \<le> 50000000"
      "unat (ps_parsed_packages s) + 1 \<le> 2000000"
  shows "foldR (primary_step sha u) (package_events p) s =
    Inr (s\<lparr>ps_packages := ps_packages s @ [p], ps_parsed_packages := ps_parsed_packages s + 1,
      ps_relations := ps_relations s + of_nat (package_relations p), ps_paths := ps_paths s + of_nat (length (mp_files p))\<rparr>)"
proof -
  define n :: u64 where "n = of_nat (package_relations p)"
  define b1 where "b1 = push_groups (groups_of p) (head_builder p\<lparr>pu_relation_count := n\<rparr>)"
  define s1 where "s1 = s\<lparr>ps_relations := ps_relations s + n\<rparr>"
  define b2 where "b2 = b1\<lparr>mp_files := mp_files p\<rparr>"
  define s2 where "s2 = s1\<lparr>ps_paths := ps_paths s + of_nat (length (mp_files p))\<rparr>"
  have bounded: "package_bounded p" using p by (simp add: readable_package_def complete_record_ok_def)
  have start: "primary_step sha u (XStart (NsBound COMMON_NS) (tag_of ''package'' [(''type'', ''rpm'')])) s =
      Inr (s\<lparr>ps_current := Some default_primary_builder\<rparr>)"
    using s by (simp add: primary_start_def between_elements_def tag_of_def check_namespace_def validate_prefix_plain Let_def
        start_package_def resolved_is_valid_def)
  have hb: "pu_relation_count (head_builder p) = 0" "mp_files (head_builder p) = []"
    by (simp_all add: head_builder_def default_primary_builder_def)
  have groups: "foldR (primary_step sha u) (concat (map (\<lambda>(g, rs). group_events g rs) (groups_of p))) (s\<lparr>ps_current := Some (head_builder p)\<rparr>) =
      Inr (s1\<lparr>ps_current := Some b1\<rparr>)"
    using groups_fold [OF s(1) groups_of_ok(1), of p "head_builder p" sha u] lim(1) bounded
    by (simp add: groups_of_ok(2) hb package_bounded_def s1_def b1_def n_def)
  have bf: "mp_files b1 = []"
    by (simp add: b1_def groups_of_def push_all_sel hb)
  have files: "foldR (primary_step sha u) (concat (map (element_events COMMON_NS ''file'' []) (mp_files p))) (s1\<lparr>ps_current := Some b1\<rparr>) =
      Inr (s2\<lparr>ps_current := Some b2\<rparr>)"
    using files_fold [OF u between_in_package, of s1 "mp_files p" b1 sha] s lim(2) p bounded
    by (simp add: between_elements_def s1_def bf readable_package_def package_bounded_def s2_def b2_def)
  have b2: "complete_package.truncate b2 = p" unfolding b2_def b1_def by (rule built_package)
  have sel: "mp_name b2 = mp_name p" "mp_arch b2 = mp_arch p" "mp_version b2 = mp_version p" "mp_release b2 = mp_release p"
    "mp_epoch b2 = mp_epoch p" "mp_location b2 = mp_location p" "mp_checksum b2 = mp_checksum p"
    using b2 truncate_sel(1-8) [of b2] by simp_all
  have ep: "b2\<lparr>mp_epoch := mp_epoch p\<rparr> = b2" using sel(5) by (simp add: complete_package.equality)
  have ok: "mp_name p \<noteq> []" "mp_arch p \<noteq> []" "mp_epoch p \<noteq> []" "mp_version p \<noteq> []" "mp_release p \<noteq> []"
    "validate_package_location (mp_location p) = Inr ()" "\<not> checksum_malformed (mp_checksum p)"
    using p by (simp_all add: readable_package_def complete_record_ok_def validate_package_location_iff checksum_malformed_def)
  have inc: "checked_increment (ps_parsed_packages s) PRIMARY_MAX_PACKAGES k = Inr (ps_parsed_packages s + 1)"
    "\<not> PRIMARY_MAX_PACKAGES < ps_parsed_packages s + 1" for k
    using lim(3) checked_increment_iff [of "ps_parsed_packages s" PRIMARY_MAX_PACKAGES k "ps_parsed_packages s + 1"]
      unat_add_fits [of "ps_parsed_packages s" 1]
    by (simp_all add: PRIMARY_MAX_PACKAGES_def word_less_nat_alt)
  have "push_package sha b2 (s2\<lparr>ps_current := None\<rparr>) =
      Inr (s2\<lparr>ps_current := None, ps_packages := ps_packages s @ [p], ps_parsed_packages := ps_parsed_packages s + 1\<rparr>)"
    using ok s(3) by (simp add: push_package_def sel retain_complete_def ep b2 inc s2_def s1_def Let_def)
  then have "primary_end sha ''package'' (s2\<lparr>ps_current := Some b2\<rparr>) =
      Inr (s2\<lparr>ps_current := None, ps_packages := ps_packages s @ [p], ps_parsed_packages := ps_parsed_packages s + 1\<rparr>)"
    using s(1) by (simp add: primary_end_def end_element_def ok_or_def between_elements_def s2_def s1_def Let_def)
  then have "foldR (primary_step sha u) (package_events p) s =
      Inr (s2\<lparr>ps_current := None, ps_packages := ps_packages s @ [p], ps_parsed_packages := ps_parsed_packages s + 1\<rparr>)"
    using start groups files head_fold [OF u s(1) bounded, of sha] unfolding package_events_split
    by (simp del: primary_step.simps(1) add: foldR_append)
  then show ?thesis using s(2) by (simp add: s2_def s1_def n_def)
qed

lemma packages_fold:
  assumes u: "unescape_xml u"
  shows "between_elements s \<Longrightarrow> ps_current s = None \<Longrightarrow> ps_retain_complete s \<Longrightarrow> \<forall>p\<in>set ps. readable_package p \<Longrightarrow>
    unat (ps_relations s) + sum_list (map package_relations ps) \<le> 20000000 \<Longrightarrow>
    unat (ps_paths s) + sum_list (map (\<lambda>p. length (mp_files p)) ps) \<le> 50000000 \<Longrightarrow>
    unat (ps_parsed_packages s) + length ps \<le> 2000000 \<Longrightarrow>
    \<exists>r n. foldR (primary_step sha u) (concat (map package_events ps)) s =
      Inr (s\<lparr>ps_packages := ps_packages s @ ps, ps_parsed_packages := ps_parsed_packages s + of_nat (length ps),
        ps_relations := r, ps_paths := n\<rparr>)"
proof (induction ps arbitrary: s)
  case Nil
  show ?case by (intro exI [of _ "ps_relations s"] exI [of _ "ps_paths s"]) simp
next
  case (Cons p ps)
  define s1 where "s1 = s\<lparr>ps_packages := ps_packages s @ [p], ps_parsed_packages := ps_parsed_packages s + 1,
      ps_relations := ps_relations s + of_nat (package_relations p), ps_paths := ps_paths s + of_nat (length (mp_files p))\<rparr>"
  have first: "foldR (primary_step sha u) (package_events p) s = Inr s1"
    unfolding s1_def by (rule package_fold [OF u Cons.prems(1-3)]) (use Cons.prems in simp_all)
  have small: "unat (of_nat (package_relations p) :: u64) = package_relations p" "unat (of_nat (length (mp_files p)) :: u64) = length (mp_files p)"
    using Cons.prems(5,6) by (simp_all add: unat_of_nat)
  have add: "unat (ps_relations s + of_nat (package_relations p)) = unat (ps_relations s) + package_relations p"
    "unat (ps_paths s + of_nat (length (mp_files p))) = unat (ps_paths s) + length (mp_files p)"
    "unat (ps_parsed_packages s + 1) = unat (ps_parsed_packages s) + 1"
    using Cons.prems(5-7) small by (intro trans [OF unat_add_fits]; simp)+
  obtain r n where "foldR (primary_step sha u) (concat (map package_events ps)) s1 =
      Inr (s1\<lparr>ps_packages := ps_packages s1 @ ps, ps_parsed_packages := ps_parsed_packages s1 + of_nat (length ps),
        ps_relations := r, ps_paths := n\<rparr>)"
    using Cons.IH [of s1] Cons.prems add by (auto simp: s1_def between_elements_def)
  then show ?case
    using first by (intro exI [of _ r] exI [of _ n]) (simp add: foldR_append s1_def ac_simps)
qed

lemma parse_primary_events:
  assumes u: "unescape_xml (xl_unescape L)" and ok: "complete_records_ok ps" "\<forall>p\<in>set ps. \<forall>f\<in>set (mp_files p). validate_file_path f = Inr ()"
    and ev: "xl_read L False bs = primary_events ps"
  shows "parse_primary_records sha L bs = Inr ps"
proof -
  define s0 where "s0 = default_primary_state True\<lparr>ps_declaration_seen := True, ps_rpm_namespace := True,
    ps_declared := Some (of_nat (length ps)), ps_root_seen := True\<rparr>"
  have len: "length ps \<le> 2000000" using ok(1) by (simp add: complete_records_ok_def)
  then have ul: "unat (of_nat (length ps) :: u64) = length ps" by (simp add: unat_of_nat)
  have num: "parse_number (show_nat (length ps)) = Inr (of_nat (length ps))"
    using parse_number_show [of "of_nat (length ps)"] ul by simp
  have root: "foldR (primary_step sha (xl_unescape L)) [XDecl, XStart (NsBound COMMON_NS) (tag_of ''metadata'' [(''xmlns'', COMMON_NS),
      (''xmlns:rpm'', RPM_NS), (''packages'', show_nat (length ps))])] (default_primary_state True) = Inr s0"
    using len ul num
    by (simp add: tag_of_def primary_start_def primary_root_def default_primary_state_def s0_def ok_or_def checked_limit_def
        PRIMARY_MAX_PACKAGES_def word_less_nat_alt resolved_is_valid_def)
  have read: "\<forall>p\<in>set ps. readable_package p"
    using ok by (auto simp: complete_records_ok_def readable_package_def list_all_iff)
  obtain r n where body: "foldR (primary_step sha (xl_unescape L)) (concat (map package_events ps)) s0 =
      Inr (s0\<lparr>ps_packages := ps_packages s0 @ ps, ps_parsed_packages := ps_parsed_packages s0 + of_nat (length ps), ps_relations := r, ps_paths := n\<rparr>)"
    using packages_fold [OF u, of s0 ps sha] read ok(1)
    by (auto simp: s0_def default_primary_state_def between_elements_def complete_records_ok_def)
  define s1 where "s1 = s0\<lparr>ps_packages := ps_packages s0 @ ps, ps_parsed_packages := ps_parsed_packages s0 + of_nat (length ps), ps_relations := r, ps_paths := n\<rparr>"
  have "primary_end sha ''metadata'' s1 = Inr (s1\<lparr>ps_root_closed := True\<rparr>)"
    by (simp add: primary_end_def end_element_def s1_def s0_def default_primary_state_def Let_def)
  then have "foldR (primary_step sha (xl_unescape L)) (xl_read L False bs) (default_primary_state True) = Inr (s1\<lparr>ps_root_closed := True\<rparr>)"
    unfolding ev primary_events_def foldR_append root using body by (simp add: foldR_append s1_def)
  moreover have "primary_finish (s1\<lparr>ps_root_closed := True\<rparr>) = Inr ()"
    by (simp add: primary_finish_def s1_def s0_def default_primary_state_def ok_or_def)
  ultimately have "parse_with_mode sha L bs True = Inr (s1\<lparr>ps_root_closed := True\<rparr>)" by (simp add: parse_with_mode_def)
  moreover have "\<not> list_ex (\<lambda>p. mp_location p = [] \<or> mp_checksum p = []) ps"
    using ok(1) by (auto simp: list_ex_iff complete_records_ok_def list_all_iff complete_record_ok_def safe_package_location_def)
  ultimately show ?thesis by (simp add: parse_primary_records_def s1_def s0_def default_primary_state_def)
qed

text \<open>
  Property C15. The packages read from the primary metadata are well-formed and bounded: names, versions, a 64-digit checksum, a relative
  location without empty, dot or dot-dot segments, texts of at most 1 MiB, at most 16384 relations and a million files per package, and
  2 million packages, 20 million relations and 50 million files in all. And the document that lists given well-formed packages, with
  whatever texts, relations and valid file paths, is read back as exactly these packages: entity references and element order lose nothing.
\<close>

theorem primary_records_exact:
  "(parse_primary_records sha L bs = Inr ps \<longrightarrow> complete_records_ok ps) \<and>
   (unescape_xml (xl_unescape L) \<longrightarrow> complete_records_ok ps \<longrightarrow>
      (\<forall>p\<in>set ps. \<forall>f\<in>set (mp_files p). validate_file_path f = Inr ()) \<longrightarrow>
      xl_read L False bs = primary_events ps \<longrightarrow> parse_primary_records sha L bs = Inr ps)"
  using parse_primary_records_ok parse_primary_events by blast

definition demo_package :: complete_package where
  "demo_package = complete_package.truncate (default_primary_builder\<lparr>mp_name := ''bash'', mp_arch := ''x86_64'', mp_epoch := ''0'',
     mp_version := ''5'', mp_release := ''1'', mp_summary := ''A & B'', mp_checksum := replicate 64 (CHR ''a''),
     mp_location := ''Packages/b/bash.rpm'', mp_files := [''/usr/bin/bash''],
     mp_requires := [\<lparr>rel_name = ''glibc'', rel_flags = Some GreaterEqualF, rel_epoch = Some ''0'', rel_version = Some ''2'',
       rel_release = None, rel_pre = False\<rparr>]\<rparr>)"

definition demo_unescape :: "string \<Rightarrow> (string, string) result" where
  "demo_unescape s = (if s = ''&amp;'' then Inr ''&'' else Inr s)"

theorem primary_records_exact_witness:
  "\<exists>L. parse_primary_records (\<lambda>x. x) L ''x'' = Inr [demo_package] \<and> complete_records_ok [demo_package]"
proof -
  define L where "L = \<lparr>xl_read = (\<lambda>_ _. primary_events [demo_package]), xl_unescape = demo_unescape, xl_utf8_error = (\<lambda>_. [])\<rparr>"
  have "complete_records_ok [demo_package]" by code_simp
  moreover have "\<forall>p\<in>set [demo_package]. \<forall>f\<in>set (mp_files p). validate_file_path f = Inr ()" by code_simp
  moreover have "unescape_xml demo_unescape" by (auto simp: unescape_xml_def unescape_plain_def demo_unescape_def)
  ultimately show ?thesis
    using primary_records_exact [of "\<lambda>x. x" L "''x''" "[demo_package]"] by (intro exI [of _ L]) (simp add: L_def)
qed

text \<open>Two file elements, one inside the other.\<close>

definition nested_file_events :: "xml_event list" where
  "nested_file_events =
     [XStart (NsBound COMMON_NS) (tag_of ''metadata'' [(''xmlns'', COMMON_NS), (''packages'', ''1'')]),
      XStart (NsBound COMMON_NS) (tag_of ''package'' [(''type'', ''rpm'')])]
     @ element_events COMMON_NS ''name'' [] ''a'' @ element_events COMMON_NS ''arch'' [] ''noarch''
     @ [XEmpty (NsBound COMMON_NS) (tag_of ''version'' [(''ver'', ''1''), (''rel'', ''1'')])]
     @ element_events COMMON_NS ''checksum'' [(''type'', ''sha256''), (''pkgid'', ''YES'')] (replicate 64 (CHR ''0''))
     @ [XEmpty (NsBound COMMON_NS) (tag_of ''location'' [(''href'', ''a.rpm'')]),
        XStart (NsBound COMMON_NS) (tag_of ''file'' []), XText (Inr ''../../etc''),
        XStart (NsBound COMMON_NS) (tag_of ''file'' []), XText (Inr ''/ok''), XEnd ''file'', XEnd ''file'', XEnd ''package'',
        XEnd ''metadata'']"

text \<open>
  Only the last file of a package is checked when a file element ends, and a file element may contain another: a package
  with a file path that the check of paths refuses is read without an error.
\<close>

theorem nested_file_unchecked:
  "\<exists>p. parse_primary_records sha \<lparr>xl_read = (\<lambda>_ _. nested_file_events), xl_unescape = Inr, xl_utf8_error = (\<lambda>_. [])\<rparr> bs = Inr [p] \<and>
     mp_files p = [''../../etc'', ''/ok''] \<and> validate_file_path ''../../etc'' = Inl (UnsafeLocation ''../../etc'')"
proof -
  define L where "L = \<lparr>xl_read = (\<lambda>_ _. nested_file_events), xl_unescape = Inr, xl_utf8_error = (\<lambda>_. [])\<rparr>"
  have "map_sum id (map mp_files) (parse_primary_records sha L bs) = Inr [[''../../etc'', ''/ok'']]"
    unfolding L_def by code_simp
  moreover have "validate_file_path ''../../etc'' = Inl (UnsafeLocation ''../../etc'')" by code_simp
  ultimately show ?thesis
    unfolding L_def [symmetric] by (cases "parse_primary_records sha L bs") (auto simp: Cons_eq_map_conv)
qed

end
