(* ===== verification/Metadata_Filelists.thy ===== *)
theory Metadata_Filelists
  imports Metadata_Primary
begin

text \<open>
  \<^verbatim>\<open>crates/dnfast-metadata/src/filelists.rs\<close>: the reader of the file lists as a fold of a step over the events, the comparison of
  primary and file lists, and the scanner that finds the packages with a given path in the bytes of a validated document.
\<close>

section \<open>Data\<close>

record file_list_package =
  fp_package_id :: string
  fp_name :: string
  fp_arch :: string
  fp_epoch :: string
  fp_version :: string
  fp_release :: string
  fp_files :: "string list"

section \<open>Primary and file lists of one generation\<close>

text \<open>The identity of a package in the primary metadata, as complete records and as identities have it.\<close>

definition complete_identity :: "complete_package \<Rightarrow> primary_identity" where
  "complete_identity p = \<lparr>pi_checksum = mp_checksum p, pi_name = mp_name p, pi_arch = mp_arch p, pi_epoch = mp_epoch p,
     pi_version = mp_version p, pi_release = mp_release p\<rparr>"

fun match_identities ::
  "(string \<Rightarrow> primary_identity option) \<Rightarrow> string set \<Rightarrow> file_list_package list \<Rightarrow> (metadata_error, unit) result" where
  "match_identities by_id seen [] = Inr ()"
| "match_identities by_id seen (f # fs) =
     (if fp_package_id f \<in> seen then Inl (MdXml ''duplicate filelists package id'')
      else
        bindR (ok_or (MdXml ''mixed primary/filelists generation'') (by_id (fp_package_id f))) (\<lambda>p.
        if pi_name p \<noteq> fp_name f \<or> pi_arch p \<noteq> fp_arch f \<or> pi_epoch p \<noteq> fp_epoch f \<or> pi_version p \<noteq> fp_version f
           \<or> pi_release p \<noteq> fp_release f
        then Inl (MdXml ''primary/filelists identity mismatch'')
        else match_identities by_id (insert (fp_package_id f) seen) fs))"

definition validate_filelists_identities ::
  "primary_identity list \<Rightarrow> file_list_package list \<Rightarrow> (metadata_error, unit) result" where
  "validate_filelists_identities primary filelists =
     (if length primary \<noteq> length filelists then Inl (MdXml ''primary/filelists package count mismatch'')
      else if card (set (map pi_checksum primary)) \<noteq> length primary then Inl (MdXml ''duplicate primary package checksum'')
      else match_identities (map_of (rev (map (\<lambda>p. (pi_checksum p, p)) primary))) {} filelists)"

definition validate_filelists_generation ::
  "complete_package list \<Rightarrow> file_list_package list \<Rightarrow> (metadata_error, unit) result" where
  "validate_filelists_generation primary filelists =
     (if length primary \<noteq> length filelists then Inl (MdXml ''primary/filelists package count mismatch'')
      else if card (set (map mp_checksum primary)) \<noteq> length primary then Inl (MdXml ''duplicate primary package checksum'')
      else match_identities (map_of (rev (map (\<lambda>p. (mp_checksum p, complete_identity p)) primary))) {} filelists)"

definition publish_validated ::
  "complete_package list \<Rightarrow> file_list_package list \<Rightarrow> (unit \<Rightarrow> 'a) \<Rightarrow> (metadata_error, 'a) result" where
  "publish_validated primary filelists publish =
     bindR (validate_filelists_generation primary filelists) (\<lambda>_. Inr (publish ()))"

section \<open>Paths\<close>

text \<open>\<^verbatim>\<open>safe_file_path\<close>: the loop over the bytes after the first, with the length of the current segment and whether it is all dots.\<close>

fun path_loop :: "nat \<Rightarrow> bool \<Rightarrow> string \<Rightarrow> (nat \<times> bool) option" where
  "path_loop len dots [] = Some (len, dots)"
| "path_loop len dots (c # cs) =
     (if byte_of c < 32 \<or> byte_of c = 127 then None
      else if c = CHR ''/'' then
        if len = 0 \<or> (dots \<and> (len = 1 \<or> len = 2)) then None else path_loop 0 True cs
      else path_loop (len + 1) (dots \<and> c = CHR ''.'') cs)"

definition safe_file_path :: "string \<Rightarrow> bool" where
  "safe_file_path v \<longleftrightarrow>
     (case v of
        [] \<Rightarrow> False
      | c # cs \<Rightarrow>
          c = CHR ''/'' \<and>
          (case path_loop 0 True cs of
             None \<Rightarrow> False
           | Some (len, dots) \<Rightarrow>
               \<not> (dots \<and> (len = 1 \<or> len = 2)) \<and> (list_all (\<lambda>b. byte_of b < 128) v \<or> \<not> has_control v)))"

section \<open>The reader\<close>

record file_builder =
  fb_package_id :: string
  fb_name :: string
  fb_arch :: string
  fb_epoch :: string
  fb_version :: string
  fb_release :: string
  fb_files :: "string list"
  fb_file_count :: u64

text \<open>The visitor, where there is one, is called with the package and the path and may change its own state \<open>'v\<close> or fail.\<close>

type_synonym 'v visitor = "string \<Rightarrow> string \<Rightarrow> 'v \<Rightarrow> (metadata_error, 'v) result"

record 'v filelists_state =
  fs_current :: "file_builder option"
  fs_file_text :: "string option"
  fs_spare_file_text :: string
  fs_packages :: "file_list_package list"
  fs_declared :: "u64 option"
  fs_root_seen :: bool
  fs_root_closed :: bool
  fs_declaration_seen :: bool
  fs_paths :: u64
  fs_visited :: 'v

definition default_filelists_state :: "'v \<Rightarrow> 'v filelists_state" where
  "default_filelists_state v = \<lparr>fs_current = None, fs_file_text = None, fs_spare_file_text = [], fs_packages = [],
     fs_declared = None, fs_root_seen = False, fs_root_closed = False, fs_declaration_seen = False, fs_paths = 0, fs_visited = v\<rparr>"

definition FILELISTS_NS :: string where "FILELISTS_NS = ''http://linux.duke.edu/metadata/filelists''"

fun reject_nested_namespace_declarations :: "xml_attribute list \<Rightarrow> (metadata_error, unit) result" where
  "reject_nested_namespace_declarations [] = Inr ()"
| "reject_nested_namespace_declarations (Inl e # rest) = Inl (MdXml e)"
| "reject_nested_namespace_declarations (Inr (k, _) # rest) =
     (if k = ''xmlns'' \<or> starts_with k ''xmlns:'' then Inl (MdXml ''nested filelists namespace declaration'')
      else reject_nested_namespace_declarations rest)"

definition reject_prefix :: "string \<Rightarrow> (metadata_error, unit) result" where
  "reject_prefix name =
     (if CHR '':'' \<in> set name then Inl (MdXml ''unexpected filelists namespace prefix'') else Inr ())"

definition filelists_root :: "xml_tag \<Rightarrow> 'v filelists_state \<Rightarrow> (metadata_error, 'v filelists_state) result" where
  "filelists_root t s =
     (if xt_name t \<noteq> ''filelists'' then Inl (MdXml ''unexpected filelists root or namespace'')
      else
        bindR (attribute_streaming (xt_attributes t) ''xmlns'') (\<lambda>ns.
        if ns \<noteq> Some FILELISTS_NS then Inl (MdXml ''unexpected filelists root or namespace'')
        else
          bindR (required_attr t ''packages'') (\<lambda>n.
          bindR (parse_number n) (\<lambda>declared.
          bindR (checked_limit declared PRIMARY_MAX_PACKAGES ''packages'') (\<lambda>_.
            Inr (s\<lparr>fs_declared := Some declared, fs_root_seen := True\<rparr>))))))"

definition filelists_start :: "xml_tag \<Rightarrow> 'v filelists_state \<Rightarrow> (metadata_error, 'v filelists_state) result" where
  "filelists_start t s =
     (if fs_root_closed s then Inl (MdXml ''content after filelists root'')
      else if \<not> fs_root_seen s then filelists_root t s
      else
        bindR (reject_nested_namespace_declarations (xt_attributes t)) (\<lambda>_.
        bindR (reject_prefix (xt_name t)) (\<lambda>_.
        if xt_name t = ''package'' then
          if fs_current s \<noteq> None then Inl (MdXml ''nested filelists package'')
          else
            bindR (required_attr t ''pkgid'') (\<lambda>pkgid.
            bindR (required_attr t ''name'') (\<lambda>name.
            bindR (required_attr t ''arch'') (\<lambda>arch.
              Inr (s\<lparr>fs_current := Some \<lparr>fb_package_id = pkgid, fb_name = name, fb_arch = arch, fb_epoch = [], fb_version = [],
                fb_release = [], fb_files = [], fb_file_count = 0\<rparr>\<rparr>))))
        else if xt_name t = ''file'' \<and> fs_current s \<noteq> None then
          if fs_file_text s \<noteq> None then Inl (MdXml ''nested filelists file'')
          else Inr (s\<lparr>fs_file_text := Some (fs_spare_file_text s), fs_spare_file_text := []\<rparr>)
        else Inr s)))"

definition filelists_empty :: "xml_tag \<Rightarrow> 'v filelists_state \<Rightarrow> (metadata_error, 'v filelists_state) result" where
  "filelists_empty t s =
     (if \<not> fs_root_seen s \<or> fs_root_closed s then Inl (MdXml ''element outside filelists root'')
      else
        bindR (reject_nested_namespace_declarations (xt_attributes t)) (\<lambda>_.
        bindR (reject_prefix (xt_name t)) (\<lambda>_.
        if xt_name t = ''version'' then
          bindR (ok_or (MdXml ''version outside filelists package'') (fs_current s)) (\<lambda>b.
          bindR (attribute_streaming (xt_attributes t) ''epoch'') (\<lambda>epoch.
          bindR (required_attr t ''ver'') (\<lambda>version.
          bindR (required_attr t ''rel'') (\<lambda>release.
            Inr (s\<lparr>fs_current := Some (b\<lparr>fb_epoch := (case epoch of None \<Rightarrow> ''0'' | Some e \<Rightarrow> e), fb_version := version,
              fb_release := release\<rparr>)\<rparr>)))))
        else Inr s)))"

definition append_file_text :: "string \<Rightarrow> 'v filelists_state \<Rightarrow> (metadata_error, 'v filelists_state) result" where
  "append_file_text v s =
     bindR (ok_or (MdXml ''file text outside file'') (fs_file_text s)) (\<lambda>t.
     bindR (checked_limit (len_u64 (t @ v)) MAX_XML_TEXT_BYTES ''XML text'') (\<lambda>_.
       Inr (s\<lparr>fs_file_text := Some (t @ v)\<rparr>)))"

definition finish_file ::
  "'v visitor option \<Rightarrow> bool \<Rightarrow> 'v filelists_state \<Rightarrow> (metadata_error, 'v filelists_state) result" where
  "finish_file visitor retain_files s =
     bindR (ok_or (MdXml ''file end without start'') (fs_file_text s)) (\<lambda>v.
     if \<not> safe_file_path v then Inl (UnsafeLocation v)
     else
       bindR (ok_or (MdXml ''file outside filelists package'') (fs_current s)) (\<lambda>b.
       bindR (checked_increment (fb_file_count b) MAX_FILES_PER_PACKAGE ''files per package'') (\<lambda>n.
       bindR (checked_increment (fs_paths s) MAX_FILE_PATHS ''file paths'') (\<lambda>paths.
       bindR (case visitor of None \<Rightarrow> Inr (fs_visited s) | Some f \<Rightarrow> f (fb_package_id b) v (fs_visited s)) (\<lambda>visited.
       let b' = b\<lparr>fb_file_count := n\<rparr>; s' = s\<lparr>fs_file_text := None, fs_paths := paths, fs_visited := visited\<rparr> in
       if retain_files then Inr (s'\<lparr>fs_current := Some (b'\<lparr>fb_files := fb_files b @ [v]\<rparr>)\<rparr>)
       else Inr (s'\<lparr>fs_current := Some b', fs_spare_file_text := []\<rparr>))))))"

definition filelists_end ::
  "'v visitor option \<Rightarrow> bool \<Rightarrow> string \<Rightarrow> 'v filelists_state \<Rightarrow> (metadata_error, 'v filelists_state) result" where
  "filelists_end visitor retain_files name s =
     (if \<not> fs_root_seen s \<or> fs_root_closed s then Inl (MdXml ''end element outside filelists root'')
      else if name = ''file'' then finish_file visitor retain_files s
      else if name = ''package'' then
        if fs_file_text s \<noteq> None then Inl (MdXml ''unclosed filelists file'')
        else
          bindR (ok_or (MdXml ''package end without start'') (fs_current s)) (\<lambda>b.
          if fb_version b = [] \<or> fb_release b = [] then Inl (MdXml ''filelists package missing version'')
          else
            Inr (s\<lparr>fs_current := None, fs_packages := fs_packages s @ [\<lparr>fp_package_id = fb_package_id b, fp_name = fb_name b,
              fp_arch = fb_arch b, fp_epoch = fb_epoch b, fp_version = fb_version b, fp_release = fb_release b,
              fp_files = fb_files b\<rparr>]\<rparr>))
      else if name = ''filelists'' then
        if fs_current s \<noteq> None then Inl (MdXml ''unclosed filelists package'') else Inr (s\<lparr>fs_root_closed := True\<rparr>)
      else Inr s)"

definition filelists_other :: "'v filelists_state \<Rightarrow> (metadata_error, 'v filelists_state) result" where
  "filelists_other s =
     (if \<not> fs_root_seen s \<or> fs_root_closed s then Inl (MdXml ''content outside filelists root'') else Inr s)"

fun filelists_step ::
  "'v visitor option \<Rightarrow> bool \<Rightarrow> (string \<Rightarrow> (string, string) result) \<Rightarrow> xml_event \<Rightarrow> 'v filelists_state
     \<Rightarrow> (metadata_error, 'v filelists_state) result" where
  "filelists_step visitor retain_files unescape (XStart ns t) s = filelists_start t s"
| "filelists_step visitor retain_files unescape (XEmpty ns t) s = filelists_empty t s"
| "filelists_step visitor retain_files unescape (XText t) s =
     (if fs_file_text s \<noteq> None then bindR (decode_text unescape t) (\<lambda>v. append_file_text v s)
      else if \<not> fs_root_seen s \<or> fs_root_closed s then
        bindR (decode_text unescape t) (\<lambda>v. if trim v \<noteq> [] then Inl (MdXml ''text outside filelists root'') else Inr s)
      else Inr s)"
| "filelists_step visitor retain_files unescape (XRef t) s =
     (if fs_file_text s \<noteq> None then bindR (decode_reference unescape t) (\<lambda>v. append_file_text v s)
      else filelists_other s)"
| "filelists_step visitor retain_files unescape (XEnd name) s = filelists_end visitor retain_files name s"
| "filelists_step visitor retain_files unescape XDecl s =
     (if \<not> fs_root_seen s \<and> \<not> fs_declaration_seen s then Inr (s\<lparr>fs_declaration_seen := True\<rparr>)
      else Inl (MdXml ''misplaced XML declaration or doctype''))"
| "filelists_step visitor retain_files unescape (XDocType _) s = Inl (MdXml ''misplaced XML declaration or doctype'')"
| "filelists_step visitor retain_files unescape XComment s = Inr s"
| "filelists_step visitor retain_files unescape XPI s = Inr s"
| "filelists_step visitor retain_files unescape (XCData _) s = filelists_other s"
| "filelists_step visitor retain_files unescape (XFail e) s = Inl (MdXml e)"

definition filelists_finish :: "'v filelists_state \<Rightarrow> (metadata_error, file_list_package list) result" where
  "filelists_finish s =
     (if \<not> fs_root_seen s \<or> \<not> fs_root_closed s then Inl (MdXml ''incomplete filelists root'')
      else
        bindR (ok_or (MdXml ''missing filelists package count'') (fs_declared s)) (\<lambda>declared.
        if len_u64 (fs_packages s) \<noteq> declared
        then Inl (MdXml (''filelists package count mismatch: declared '' @ show_nat (unat declared) @ '', parsed ''
          @ show_nat (length (fs_packages s))))
        else Inr (fs_packages s)))"

definition parse_filelists_with_mode ::
  "xml_lib \<Rightarrow> bytes \<Rightarrow> bool \<Rightarrow> 'v visitor option \<Rightarrow> 'v \<Rightarrow> (metadata_error, file_list_package list \<times> 'v) result" where
  "parse_filelists_with_mode L bs retain_files visitor v =
     bindR (foldR (filelists_step visitor retain_files (xl_unescape L)) (xl_read L False bs) (default_filelists_state v)) (\<lambda>s.
     bindR (filelists_finish s) (\<lambda>ps. Inr (ps, fs_visited s)))"

definition parse_filelists :: "xml_lib \<Rightarrow> bytes \<Rightarrow> (metadata_error, file_list_package list) result" where
  "parse_filelists L bs = bindR (parse_filelists_with_mode L bs True None ()) (\<lambda>(ps, _). Inr ps)"

definition validate_filelists_xml :: "xml_lib \<Rightarrow> bytes \<Rightarrow> complete_package list \<Rightarrow> (metadata_error, unit) result" where
  "validate_filelists_xml L bs primary =
     bindR (parse_filelists_with_mode L bs False None ()) (\<lambda>(ps, _). validate_filelists_generation primary ps)"

definition validate_filelists_xml_identities :: "xml_lib \<Rightarrow> bytes \<Rightarrow> primary_identity list \<Rightarrow> (metadata_error, unit) result" where
  "validate_filelists_xml_identities L bs primary =
     bindR (parse_filelists_with_mode L bs False None ()) (\<lambda>(ps, _). validate_filelists_identities primary ps)"

definition visit_filelists_xml_identities ::
  "xml_lib \<Rightarrow> bytes \<Rightarrow> primary_identity list \<Rightarrow> 'v visitor \<Rightarrow> 'v \<Rightarrow> (metadata_error, 'v) result" where
  "visit_filelists_xml_identities L bs primary visitor v =
     bindR (parse_filelists_with_mode L bs False (Some visitor) v) (\<lambda>(ps, v').
     bindR (validate_filelists_identities primary ps) (\<lambda>_. Inr v'))"

section \<open>The two checks of a path\<close>

lemma split_slash_segment: "CHR ''/'' \<notin> set w \<Longrightarrow> split_slash (w @ CHR ''/'' # cs) = w # split_slash cs"
  by (induction w) auto

lemma split_slash_single: "CHR ''/'' \<notin> set w \<Longrightarrow> split_slash w = [w]"
  by (induction w) auto

lemma double_slash_iff:
  "contains_str cs ''//'' \<longleftrightarrow> [] \<in> set (butlast (tl (split_slash cs)))"
  "contains_str (CHR ''/'' # cs) ''//'' \<longleftrightarrow> [] \<in> set (butlast (split_slash cs))"
proof (induction cs)
  case (Cons c cs)
  obtain part parts where parts: "split_slash cs = part # parts"
    by (cases "split_slash cs") simp_all
  have step: "contains_str (x # y) ''//'' \<longleftrightarrow> (x = CHR ''/'' \<and> starts_with y ''/'') \<or> contains_str y ''//''" for x y
    by (auto simp: contains_str_def split_once_Cons starts_with_def split: option.splits)
  { case 1 show ?case using Cons.IH step [of c cs] by (cases "c = CHR ''/''") (auto simp: parts) }
  { case 2 show ?case using Cons.IH step [of c cs] step [of "CHR ''/''" "c # cs"]
      by (cases "c = CHR ''/''") (auto simp: parts starts_with_def) }
qed (auto simp: contains_str_def split_once_Cons split_once_Nil starts_with_def)

lemma dots_iff: "list_all (\<lambda>c. c = CHR ''.'') w \<and> (length w = 1 \<or> length w = 2) \<longleftrightarrow> w = ''.'' \<or> w = ''..''"
  by (auto simp: length_Suc_conv numeral_2_eq_2)

lemma path_loop_iff:
  assumes "CHR ''/'' \<notin> set w"
  shows "(case path_loop (length w) (list_all (\<lambda>c. c = CHR ''.'') w) cs of None \<Rightarrow> False | Some (len, dots) \<Rightarrow> \<not> (dots \<and> (len = 1 \<or> len = 2)))
    \<longleftrightarrow> (\<forall>c\<in>set cs. \<not> (byte_of c < 32 \<or> byte_of c = 127)) \<and>
      (\<forall>part\<in>set (split_slash (w @ cs)). part \<noteq> ''.'' \<and> part \<noteq> ''..'') \<and> [] \<notin> set (butlast (split_slash (w @ cs)))"
  using assms
proof (induction cs arbitrary: w)
  case Nil
  then show ?case using dots_iff [of w] by (auto simp: split_slash_single)
next
  case (Cons c cs)
  show ?case
  proof (cases "c = CHR ''/''")
    case True
    have "path_loop (length w) (list_all (\<lambda>c. c = CHR ''.'') w) (c # cs)
      = (if w = [] \<or> w = ''.'' \<or> w = ''..'' then None else path_loop 0 True cs)"
      using dots_iff [of w] by (auto simp: True byte_of_def)
    moreover have "byte_of c = 47" by (simp add: True byte_of_def)
    ultimately show ?thesis using Cons.IH [of "[]"] Cons.prems by (auto simp: True split_slash_segment)
  next
    case False
    have w: "w @ c # cs = (w @ [c]) @ cs" by simp
    have "path_loop (length w) (list_all (\<lambda>c. c = CHR ''.'') w) (c # cs)
      = (if byte_of c < 32 \<or> byte_of c = 127 then None
         else path_loop (length (w @ [c])) (list_all (\<lambda>c. c = CHR ''.'') (w @ [c])) cs)"
      using False by (simp add: conj_commute)
    then show ?thesis using Cons.IH [of "w @ [c]"] Cons.prems False unfolding w by simp
  qed
qed

lemma safe_file_path_iff:
  assumes "utf8_ok p"
  shows "safe_file_path p \<longleftrightarrow> validate_file_path p = Inr ()"
proof (cases p)
  case (Cons c cs)
  have control: "\<forall>x\<in>set p. \<not> (byte_of x < 32 \<or> byte_of x = 127)" if "\<not> has_control p"
    using that chars_of_ascii [OF assms] by (fastforce simp: has_control_def list_ex_iff is_control_def)
  have "chars_of p = map byte_of p" if "list_all (\<lambda>b. byte_of b < 128) p"
    using that by (induction p) auto
  then have ascii: "\<not> has_control p"
    if "list_all (\<lambda>b. byte_of b < 128) p" "\<forall>x\<in>set p. \<not> (byte_of x < 32 \<or> byte_of x = 127)"
    using that by (fastforce simp: has_control_def list_ex_iff is_control_def list_all_iff)
  have loop: "safe_file_path p \<longleftrightarrow> c = CHR ''/'' \<and> (\<forall>x\<in>set cs. \<not> (byte_of x < 32 \<or> byte_of x = 127)) \<and>
      (\<forall>part\<in>set (split_slash cs). part \<noteq> ''.'' \<and> part \<noteq> ''..'') \<and> [] \<notin> set (butlast (split_slash cs)) \<and>
      (list_all (\<lambda>b. byte_of b < 128) p \<or> \<not> has_control p)"
    using path_loop_iff [of "[]" cs] by (auto simp: safe_file_path_def Cons split: option.splits)
  have "validate_file_path p = Inr () \<longleftrightarrow> c = CHR ''/'' \<and> \<not> has_control p \<and>
      (\<forall>part\<in>set (split_slash cs). part \<noteq> ''.'' \<and> part \<noteq> ''..'') \<and> [] \<notin> set (butlast (split_slash cs))"
    using double_slash_iff(2) [of cs]
    by (cases "c = CHR ''/''") (auto simp: validate_file_path_def Cons starts_with_def list_ex_iff)
  then show ?thesis unfolding loop using control ascii
    by (cases "c = CHR ''/''") (auto simp: Cons byte_of_def)
qed (simp add: safe_file_path_def validate_file_path_def starts_with_def)

section \<open>One generation\<close>

definition same_identity :: "primary_identity \<Rightarrow> file_list_package \<Rightarrow> bool" where
  "same_identity p f \<longleftrightarrow> pi_checksum p = fp_package_id f \<and> pi_name p = fp_name f \<and> pi_arch p = fp_arch f \<and>
     pi_epoch p = fp_epoch f \<and> pi_version p = fp_version f \<and> pi_release p = fp_release f"

lemma match_identities_iff:
  assumes "\<And>k p. by_id k = Some p \<Longrightarrow> pi_checksum p = k"
  shows "match_identities by_id seen fs = Inr () \<longleftrightarrow> distinct (map fp_package_id fs) \<and> fp_package_id ` set fs \<inter> seen = {} \<and>
    (\<forall>f\<in>set fs. \<exists>p. by_id (fp_package_id f) = Some p \<and> same_identity p f)"
proof (induction fs arbitrary: seen)
  case (Cons f fs)
  show ?case
  proof (cases "by_id (fp_package_id f)")
    case (Some p)
    then have "pi_checksum p = fp_package_id f" by (rule assms)
    with Some Cons show ?thesis by (auto simp: same_identity_def)
  qed simp
qed simp

lemma validate_filelists_identities_iff:
  "validate_filelists_identities ids fs = Inr () \<longleftrightarrow>
     length ids = length fs \<and> distinct (map pi_checksum ids) \<and> distinct (map fp_package_id fs) \<and>
     (\<forall>f\<in>set fs. \<exists>p\<in>set ids. same_identity p f)"
proof -
  define by_id where "by_id = map_of (rev (map (\<lambda>p. (pi_checksum p, p)) ids))"
  have key: "by_id k = Some p \<Longrightarrow> pi_checksum p = k \<and> p \<in> set ids" for k p
    unfolding by_id_def by (drule map_of_SomeD) auto
  have "distinct (map pi_checksum ids) \<Longrightarrow> p \<in> set ids \<Longrightarrow> by_id (pi_checksum p) = Some p" for p
    unfolding by_id_def by (rule map_of_is_SomeI) (auto simp: rev_map [symmetric] comp_def)
  moreover have "card (set (map pi_checksum ids)) = length ids \<longleftrightarrow> distinct (map pi_checksum ids)"
    by (metis card_distinct distinct_card length_map)
  ultimately show ?thesis
    unfolding validate_filelists_identities_def by_id_def [symmetric]
    using match_identities_iff [of by_id "{}" fs] key
    by (simp add: result_simps) (metis same_identity_def)
qed

lemma validate_generation_identities:
  "validate_filelists_generation ps fs = validate_filelists_identities (map complete_identity ps) fs"
  by (simp add: validate_filelists_generation_def validate_filelists_identities_def comp_def complete_identity_def)

section \<open>Visiting and retaining\<close>

text \<open>
  The paths of a state in the order they were read, and the state a reader has that hands them to a visitor instead of keeping them.
\<close>

definition package_pairs :: "file_list_package \<Rightarrow> (string \<times> string) list" where
  "package_pairs p = map (Pair (fp_package_id p)) (fp_files p)"

definition state_pairs :: "'v filelists_state \<Rightarrow> (string \<times> string) list" where
  "state_pairs s = concat (map package_pairs (fs_packages s)) @
     (case fs_current s of None \<Rightarrow> [] | Some b \<Rightarrow> map (Pair (fb_package_id b)) (fb_files b))"

definition without_files :: "unit filelists_state \<Rightarrow> 'v \<Rightarrow> 'v filelists_state" where
  "without_files s v = \<lparr>fs_current = map_option (\<lambda>b. b\<lparr>fb_files := []\<rparr>) (fs_current s), fs_file_text = fs_file_text s,
     fs_spare_file_text = [], fs_packages = map (\<lambda>p. p\<lparr>fp_files := []\<rparr>) (fs_packages s), fs_declared = fs_declared s,
     fs_root_seen = fs_root_seen s, fs_root_closed = fs_root_closed s, fs_declaration_seen = fs_declaration_seen s,
     fs_paths = fs_paths s, fs_visited = v\<rparr>"

abbreviation visit_pair :: "'v visitor \<Rightarrow> string \<times> string \<Rightarrow> 'v \<Rightarrow> (metadata_error, 'v) result" where
  "visit_pair f \<equiv> \<lambda>(i, p). f i p"

text \<open>A step of the visiting reader, given the step of the retaining one and the paths it adds.\<close>

definition visits :: "'v visitor \<Rightarrow> 'v \<Rightarrow> unit filelists_state \<Rightarrow> (metadata_error, unit filelists_state) result
    \<Rightarrow> (metadata_error, 'v filelists_state) result \<Rightarrow> bool" where
  "visits f v s m m' \<longleftrightarrow>
     (case m of
        Inl e \<Rightarrow> m' = Inl e
      | Inr t \<Rightarrow> fs_spare_file_text t = [] \<and> (\<exists>new. state_pairs t = state_pairs s @ new \<and>
          m' = bindR (foldR (visit_pair f) new v) (\<lambda>v'. Inr (without_files t v'))))"

lemma visits_error [simp]: "visits f v s (Inl e) (Inl e)"
  by (simp add: visits_def)

lemma visits_same:
  "state_pairs t = state_pairs s \<Longrightarrow> fs_spare_file_text t = [] \<Longrightarrow> m' = Inr (without_files t v) \<Longrightarrow> visits f v s (Inr t) m'"
  by (auto simp: visits_def intro!: exI [of _ "[]"])

lemma visits_bind: "(\<And>x. m = Inr x \<Longrightarrow> visits f v s (g x) (h x)) \<Longrightarrow> visits f v s (bindR m g) (bindR m h)"
  by (cases m) simp_all

lemma without_files_simps [simp]:
  "fs_current (without_files s v) = map_option (\<lambda>b. b\<lparr>fb_files := []\<rparr>) (fs_current s)"
  "fs_file_text (without_files s v) = fs_file_text s" "fs_spare_file_text (without_files s v) = []"
  "fs_packages (without_files s v) = map (\<lambda>p. p\<lparr>fp_files := []\<rparr>) (fs_packages s)"
  "fs_declared (without_files s v) = fs_declared s" "fs_root_seen (without_files s v) = fs_root_seen s"
  "fs_root_closed (without_files s v) = fs_root_closed s" "fs_declaration_seen (without_files s v) = fs_declaration_seen s"
  "fs_paths (without_files s v) = fs_paths s" "fs_visited (without_files s v) = v"
  by (simp_all add: without_files_def)

lemma visits_start:
  assumes "fs_spare_file_text s = []"
  shows "visits f v s (filelists_start t s) (filelists_start t (without_files s v))"
  using assms unfolding filelists_start_def filelists_root_def
  by (auto intro!: visits_bind visits_same simp: state_pairs_def without_files_def)

lemma visits_empty:
  assumes "fs_spare_file_text s = []"
  shows "visits f v s (filelists_empty t s) (filelists_empty t (without_files s v))"
proof (cases "fs_current s")
  case None
  with assms show ?thesis unfolding filelists_empty_def
    by (auto intro!: visits_bind visits_same)
next
  case (Some b)
  with assms show ?thesis unfolding filelists_empty_def
    by (auto intro!: visits_bind visits_same simp: state_pairs_def without_files_def)
qed

lemma visits_append:
  assumes "fs_spare_file_text s = []"
  shows "visits f v s (append_file_text x s) (append_file_text x (without_files s v))"
  using assms unfolding append_file_text_def
  by (auto intro!: visits_bind visits_same simp: state_pairs_def without_files_def)

lemma visits_one:
  assumes "state_pairs t = state_pairs s @ [(i, x)]" "fs_spare_file_text t = []"
    "m' = bindR (f i x v) (\<lambda>v'. Inr (without_files t v'))"
  shows "visits f v s (Inr t) m'"
  using assms by (auto simp: visits_def foldR_Nil_fun intro!: exI [of _ "[(i, x)]"])

lemma visits_finish_file:
  assumes "fs_spare_file_text s = []"
  shows "visits f v s (finish_file None True s) (finish_file (Some f) False (without_files s v))"
proof (cases "fs_current s")
  case None
  then show ?thesis by (auto simp: finish_file_def intro!: visits_bind)
next
  case (Some b)
  have swap: "b\<lparr>fb_files := [], fb_file_count := n\<rparr> = b\<lparr>fb_file_count := n, fb_files := []\<rparr>" for n by simp
  have kept: "visits f v s
      (Inr (s\<lparr>fs_file_text := None, fs_paths := n', fs_visited := (), fs_current := Some (b\<lparr>fb_file_count := n, fb_files := fb_files b @ [x]\<rparr>)\<rparr>))
      (bindR (f (fb_package_id b) x v) (\<lambda>v'. Inr ((without_files s v)\<lparr>fs_file_text := None, fs_paths := n', fs_visited := v',
        fs_current := Some (b\<lparr>fb_files := [], fb_file_count := n\<rparr>), fs_spare_file_text := []\<rparr>)))" for n n' x
    using assms by (intro visits_one [of _ _ "fb_package_id b" x]) (simp_all add: state_pairs_def Some without_files_def swap)
  show ?thesis
    unfolding finish_file_def without_files_simps Some option.map ok_or_simps bindR_Inr
    using kept by (auto intro!: visits_bind simp: Let_def)
qed

lemma visits_end_package:
  assumes "fs_spare_file_text s = []" "fs_current s = Some b"
  shows "visits f v s (Inr (s\<lparr>fs_current := None, fs_packages := fs_packages s @ [\<lparr>fp_package_id = fb_package_id b, fp_name = fb_name b,
      fp_arch = fb_arch b, fp_epoch = fb_epoch b, fp_version = fb_version b, fp_release = fb_release b, fp_files = fb_files b\<rparr>]\<rparr>))
    (Inr ((without_files s v)\<lparr>fs_current := None, fs_packages := map (\<lambda>p. p\<lparr>fp_files := []\<rparr>) (fs_packages s)
      @ [\<lparr>fp_package_id = fb_package_id b, fp_name = fb_name b, fp_arch = fb_arch b, fp_epoch = fb_epoch b, fp_version = fb_version b,
          fp_release = fb_release b, fp_files = []\<rparr>]\<rparr>))"
  using assms by (intro visits_same) (simp_all add: state_pairs_def package_pairs_def without_files_def)

lemma visits_end:
  assumes "fs_spare_file_text s = []"
  shows "visits f v s (filelists_end None True name s) (filelists_end (Some f) False name (without_files s v))"
proof -
  have same: "visits f v s (Inr s) (Inr (without_files s v))" using assms by (intro visits_same) simp_all
  have closed: "visits f v s (Inr (s\<lparr>fs_root_closed := True\<rparr>)) (Inr ((without_files s v)\<lparr>fs_root_closed := True\<rparr>))"
    using assms by (intro visits_same) (simp_all add: state_pairs_def without_files_def)
  show ?thesis
  proof (cases "fs_current s")
    case None
    then show ?thesis unfolding filelists_end_def
      using visits_finish_file [OF assms, of f v] same closed by simp
  next
    case (Some b)
    then show ?thesis unfolding filelists_end_def
      using visits_finish_file [OF assms, of f v] same closed visits_end_package [OF assms Some, of f v] by simp
  qed
qed

lemma visits_step:
  assumes "fs_spare_file_text s = []"
  shows "visits f v s (filelists_step None True u e s) (filelists_step (Some f) False u e (without_files s v))"
proof -
  have same: "visits f v s (Inr s) (Inr (without_files s v))" using assms by (intro visits_same) simp_all
  show ?thesis
  proof (cases e)
    case (XText t)
    then show ?thesis using assms same by (auto intro!: visits_bind visits_append)
  next
    case (XRef t)
    then show ?thesis using assms same by (auto simp: filelists_other_def intro!: visits_bind visits_append)
  next
    case XDecl
    then show ?thesis using assms by (auto simp: state_pairs_def without_files_def intro!: visits_same)
  qed (use assms same in \<open>simp_all add: visits_start visits_empty visits_end filelists_other_def\<close>)
qed

lemma visits_fold:
  assumes "fs_spare_file_text s = []"
  shows "(\<forall>t. foldR (filelists_step None True u) es s = Inr t \<longrightarrow> (\<exists>new. state_pairs t = state_pairs s @ new \<and>
      foldR (filelists_step (Some f) False u) es (without_files s v) = bindR (foldR (visit_pair f) new v) (\<lambda>v'. Inr (without_files t v')))) \<and>
    (\<forall>e. foldR (filelists_step None True u) es s = Inl e \<longrightarrow>
      (\<exists>e'. foldR (filelists_step (Some f) False u) es (without_files s v) = Inl e'))"
  using assms
proof (induction es arbitrary: s v)
  case Nil
  show ?case by (auto intro!: exI [of _ "[]"])
next
  case (Cons e es)
  note step = visits_step [OF Cons.prems, of f v u e]
  show ?case
  proof (cases "filelists_step None True u e s")
    case (Inl err)
    with step show ?thesis by (simp add: visits_def)
  next
    case (Inr s1)
    with step obtain new where new: "fs_spare_file_text s1 = []" "state_pairs s1 = state_pairs s @ new"
      "filelists_step (Some f) False u e (without_files s v) = bindR (foldR (visit_pair f) new v) (\<lambda>v'. Inr (without_files s1 v'))"
      by (auto simp: visits_def)
    have run: "foldR (filelists_step (Some f) False u) (e # es) (without_files s v) =
      bindR (foldR (visit_pair f) new v) (\<lambda>v'. foldR (filelists_step (Some f) False u) es (without_files s1 v'))"
      by (simp add: new(3) bindR_assoc)
    note IH = Cons.IH [OF new(1)]
    show ?thesis
    proof (cases "foldR (filelists_step None True u) es s1")
      case (Inl err)
      have "\<exists>e'. foldR (filelists_step (Some f) False u) (e # es) (without_files s v) = Inl e'"
        unfolding run using IH Inl by (cases "foldR (visit_pair f) new v") auto
      with Inl Inr show ?thesis by simp
    next
      case t: (Inr t)
      obtain more where more: "state_pairs t = state_pairs s1 @ more" using IH t by blast
      have "foldR (filelists_step (Some f) False u) es (without_files s1 v')
        = bindR (foldR (visit_pair f) more v') (\<lambda>v'. Inr (without_files t v'))" for v'
      proof -
        obtain more' where "state_pairs t = state_pairs s1 @ more'"
          "foldR (filelists_step (Some f) False u) es (without_files s1 v')
            = bindR (foldR (visit_pair f) more' v') (\<lambda>v'. Inr (without_files t v'))"
          using IH [of v'] t by blast
        with more show ?thesis by simp
      qed
      then have "foldR (filelists_step (Some f) False u) (e # es) (without_files s v)
        = bindR (foldR (visit_pair f) (new @ more) v) (\<lambda>v'. Inr (without_files t v'))"
        unfolding run foldR_append bindR_assoc by simp
      then show ?thesis using Inr t new(2) more by (auto intro!: exI [of _ "new @ more"])
    qed
  qed
qed

section \<open>The state of the retaining reader\<close>

definition listed_ok :: "file_list_package \<Rightarrow> bool" where
  "listed_ok p \<longleftrightarrow> fp_version p \<noteq> [] \<and> fp_release p \<noteq> [] \<and> length (fp_files p) \<le> 1000000 \<and> list_all safe_file_path (fp_files p)"

definition filelists_ok :: "unit filelists_state \<Rightarrow> bool" where
  "filelists_ok s \<longleftrightarrow> (fs_root_closed s \<longrightarrow> fs_current s = None) \<and> list_all listed_ok (fs_packages s) \<and>
     (case fs_current s of None \<Rightarrow> True | Some b \<Rightarrow> length (fb_files b) = unat (fb_file_count b) \<and> length (fb_files b) \<le> 1000000 \<and>
       list_all safe_file_path (fb_files b)) \<and>
     length (state_pairs s) = unat (fs_paths s) \<and> unat (fs_paths s) \<le> 50000000 \<and>
     (case fs_declared s of None \<Rightarrow> True | Some d \<Rightarrow> unat d \<le> 2000000)"

lemma filelists_ok_default: "filelists_ok (default_filelists_state ())"
  by (simp add: filelists_ok_def default_filelists_state_def state_pairs_def)

lemma filelists_ok_start: "filelists_ok s \<Longrightarrow> filelists_start t s = Inr s' \<Longrightarrow> filelists_ok s'"
  unfolding filelists_start_def filelists_root_def
  by (auto simp: result_simps checked_limit_iff filelists_ok_def state_pairs_def PRIMARY_MAX_PACKAGES_def word_le_nat_alt
    split: if_splits option.splits)

lemma filelists_ok_empty: "filelists_ok s \<Longrightarrow> filelists_empty t s = Inr s' \<Longrightarrow> filelists_ok s'"
  unfolding filelists_empty_def
  by (auto simp: result_simps filelists_ok_def state_pairs_def split: if_splits option.splits)

lemma filelists_ok_append: "filelists_ok s \<Longrightarrow> append_file_text x s = Inr s' \<Longrightarrow> filelists_ok s'"
  unfolding append_file_text_def
  by (auto simp: result_simps filelists_ok_def state_pairs_def)

lemma filelists_ok_finish_file: "filelists_ok s \<Longrightarrow> finish_file None True s = Inr s' \<Longrightarrow> filelists_ok s'"
proof -
  assume ok: "filelists_ok s" and "finish_file None True s = Inr s'"
  then obtain x b n m where step: "fs_file_text s = Some x" "safe_file_path x" "fs_current s = Some b"
    "unat (fb_file_count b) + 1 \<le> 1000000" "n = fb_file_count b + 1" "unat (fs_paths s) + 1 \<le> 50000000" "m = fs_paths s + 1"
    "s' = s\<lparr>fs_file_text := None, fs_paths := m, fs_visited := (), fs_current := Some (b\<lparr>fb_file_count := n, fb_files := fb_files b @ [x]\<rparr>)\<rparr>"
    by (auto simp: finish_file_def result_simps checked_increment_iff Let_def MAX_FILES_PER_PACKAGE_def MAX_FILE_PATHS_def)
  have "unat n = unat (fb_file_count b) + 1" "unat m = unat (fs_paths s) + 1"
    using step by (simp_all add: unat_add_fits)
  then show ?thesis using ok step by (simp add: filelists_ok_def state_pairs_def)
qed

lemma filelists_ok_end:
  assumes ok: "filelists_ok s" and step: "filelists_end None True name s = Inr s'"
  shows "filelists_ok s'"
proof (cases "name = ''package''")
  case False
  show ?thesis
  proof (cases "name = ''filelists''")
    case True
    with step have "s' = s\<lparr>fs_root_closed := True\<rparr>" "fs_current s = None" by (auto simp: filelists_end_def split: if_splits)
    with ok show ?thesis by (simp add: filelists_ok_def state_pairs_def)
  next
    case other: False
    show ?thesis
      using step ok other False filelists_ok_finish_file [OF ok, of s'] by (simp add: filelists_end_def split: if_splits)
  qed
next
  case True
  with step obtain b where b: "fs_current s = Some b" "fb_version b \<noteq> []" "fb_release b \<noteq> []"
    "s' = s\<lparr>fs_current := None, fs_packages := fs_packages s @ [\<lparr>fp_package_id = fb_package_id b, fp_name = fb_name b,
      fp_arch = fb_arch b, fp_epoch = fb_epoch b, fp_version = fb_version b, fp_release = fb_release b, fp_files = fb_files b\<rparr>]\<rparr>"
    by (auto simp: filelists_end_def result_simps split: if_splits)
  then show ?thesis using ok by (simp add: filelists_ok_def listed_ok_def state_pairs_def package_pairs_def)
qed

lemma filelists_ok_step: "filelists_ok s \<Longrightarrow> filelists_step None True u e s = Inr s' \<Longrightarrow> filelists_ok s'"
  by (cases e) (auto simp: result_simps filelists_other_def dest: filelists_ok_start filelists_ok_empty filelists_ok_append filelists_ok_end
    split: if_splits, auto simp: filelists_ok_def state_pairs_def)


lemma parse_filelists_state:
  "parse_filelists L bs = Inr ps \<longleftrightarrow>
     (\<exists>s. foldR (filelists_step None True (xl_unescape L)) (xl_read L False bs) (default_filelists_state ()) = Inr s \<and>
       filelists_finish s = Inr ps)"
  unfolding parse_filelists_def parse_filelists_with_mode_def by (auto simp: result_simps)

lemma parse_filelists_ok:
  assumes "parse_filelists L bs = Inr ps"
  shows "list_all listed_ok ps \<and> length ps \<le> 2000000 \<and> length (concat (map fp_files ps)) \<le> 50000000"
proof -
  obtain s where s: "foldR (filelists_step None True (xl_unescape L)) (xl_read L False bs) (default_filelists_state ()) = Inr s"
    "filelists_finish s = Inr ps" using assms unfolding parse_filelists_state by (elim exE conjE)
  have ok: "filelists_ok s"
    using s(1) filelists_ok_default filelists_ok_step by (rule foldR_invariant [where P = filelists_ok])
  obtain d where "fs_declared s = Some d" using s(2) by (cases "fs_declared s") (simp_all add: filelists_finish_def split: if_splits)
  moreover from this s(2) have "fs_root_closed s" "len_u64 (fs_packages s) = d" "ps = fs_packages s"
    by (simp_all add: filelists_finish_def split: if_splits)
  ultimately have d: "fs_root_closed s" "fs_declared s = Some d" "len_u64 (fs_packages s) = d" "ps = fs_packages s" by blast+
  have pairs: "length (state_pairs s) = length (concat (map fp_files ps))"
  proof -
    have "fs_current s = None" using ok d(1) by (simp add: filelists_ok_def)
    then show ?thesis by (simp add: d(4) state_pairs_def package_pairs_def length_concat comp_def)
  qed
  have "unat d \<le> 2000000" using ok d(2) by (simp add: filelists_ok_def)
  then have "length ps \<le> 2000000" using d(3,4) unat_len_u64 [of ps] by (auto simp: min_def split: if_splits)
  with ok d(4) pairs show ?thesis by (simp add: filelists_ok_def)
qed

lemma visit_filelists:
  "parse_filelists_with_mode L bs False (Some f) (v :: 'v) = Inr (qs, v') \<longleftrightarrow>
     (\<exists>ps. parse_filelists L bs = Inr ps \<and> qs = map (\<lambda>p. p\<lparr>fp_files := []\<rparr>) ps \<and>
       foldR (visit_pair f) (concat (map package_pairs ps)) v = Inr v')"
proof -
  define s0 where "s0 = default_filelists_state ()"
  have s0: "default_filelists_state v = without_files s0 v" "state_pairs s0 = []" "fs_spare_file_text s0 = []"
    by (simp_all add: s0_def default_filelists_state_def without_files_def state_pairs_def)
  note run = visits_fold [OF s0(3), of "xl_unescape L" "xl_read L False bs" f v]
  show ?thesis
  proof (cases "foldR (filelists_step None True (xl_unescape L)) (xl_read L False bs) s0")
    case (Inl e)
    with run s0 show ?thesis
      by (auto simp: parse_filelists_state s0_def parse_filelists_with_mode_def)
  next
    case (Inr t)
    with run s0 have visited: "foldR (filelists_step (Some f) False (xl_unescape L)) (xl_read L False bs) (default_filelists_state v)
      = bindR (foldR (visit_pair f) (state_pairs t) v) (\<lambda>v'. Inr (without_files t v'))" by auto
    have ok: "filelists_ok t"
      using Inr filelists_ok_default [folded s0_def] filelists_ok_step by (rule foldR_invariant [where P = filelists_ok])
    have finish: "filelists_finish (without_files t w) = map_sum id (map (\<lambda>p. p\<lparr>fp_files := []\<rparr>)) (filelists_finish t)" for w :: 'v
      by (cases "fs_declared t") (simp_all add: filelists_finish_def len_u64_def)
    have pairs: "state_pairs t = concat (map package_pairs ps)" if "filelists_finish t = Inr ps" for ps
      using that ok by (cases "fs_declared t") (simp_all add: filelists_finish_def state_pairs_def filelists_ok_def split: if_splits)
    show ?thesis
      unfolding parse_filelists_with_mode_def parse_filelists_state visited s0_def [symmetric] Inr
      using finish pairs by (cases "filelists_finish t"; cases "foldR (visit_pair f) (state_pairs t) v") auto
  qed
qed

section \<open>Properties\<close>

definition one_generation :: "primary_identity list \<Rightarrow> file_list_package list \<Rightarrow> bool" where
  "one_generation ids ps \<longleftrightarrow> length ids = length ps \<and> distinct (map pi_checksum ids) \<and> distinct (map fp_package_id ps) \<and>
     list_all (\<lambda>f. list_ex (\<lambda>p. same_identity p f) ids) ps"

lemma identities_generation: "validate_filelists_identities ids ps = Inr () \<longleftrightarrow> one_generation ids ps"
  by (simp add: validate_filelists_identities_iff one_generation_def list_all_iff list_ex_iff)

lemma one_generation_files: "one_generation ids (map (\<lambda>p. p\<lparr>fp_files := []\<rparr>) ps) \<longleftrightarrow> one_generation ids ps"
  by (simp add: one_generation_def list_all_iff comp_def same_identity_def)

lemma validate_identities_unit: "validate_filelists_identities ids ps = Inr u \<longleftrightarrow> one_generation ids ps"
  using identities_generation [of ids ps] by simp

text \<open>
  Property C19. Visiting the file lists of a repository succeeds exactly when the reader that keeps every path accepts the document, the
  packages of the document are those of the primary metadata, each once and with the same name, architecture, epoch, version and release,
  and the visitor accepts every path; the visitor then saw the paths of every package in the order of the document. A visiting
  reader keeps no path.
\<close>

theorem visit_filelists_exact:
  "visit_filelists_xml_identities L bs ids f v = Inr v' \<longleftrightarrow>
     (\<exists>ps. parse_filelists L bs = Inr ps \<and> one_generation ids ps \<and>
       foldR (visit_pair f) (concat (map package_pairs ps)) v = Inr v')"
proof -
  have "visit_filelists_xml_identities L bs ids f v = Inr v' \<longleftrightarrow>
    (\<exists>qs. parse_filelists_with_mode L bs False (Some f) v = Inr (qs, v') \<and> one_generation ids qs)"
    unfolding visit_filelists_xml_identities_def by (auto simp: bindR_eq_Inr validate_identities_unit)
  then show ?thesis unfolding visit_filelists using one_generation_files by blast
qed

text \<open>
  Property C20. The reader of the file lists returns packages with a version and a release, with at most a million paths each, fifty million
  paths together and two million packages, and every path passed the byte-wise check; on a well-formed text that check accepts
  the same paths as the check of the primary metadata, so the path is absolute, has no empty, dot or dot-dot part and no control
  character.
\<close>

theorem parse_filelists_safe:
  assumes "parse_filelists L bs = Inr ps"
  shows "list_all listed_ok ps \<and> length ps \<le> 2000000 \<and> length (concat (map fp_files ps)) \<le> 50000000 \<and>
    (\<forall>p\<in>set ps. \<forall>f\<in>set (fp_files p). utf8_ok f \<longrightarrow> validate_file_path f = Inr ())"
  using parse_filelists_ok [OF assms] safe_file_path_iff by (auto simp: listed_ok_def list_all_iff)

definition demo_events :: "xml_event list" where
  "demo_events =
     [XDecl, XStart NsUnbound (tag_of ''filelists'' [(''xmlns'', FILELISTS_NS), (''packages'', ''1'')]),
      XStart NsUnbound (tag_of ''package'' [(''pkgid'', ''ab''), (''name'', ''n''), (''arch'', ''noarch'')]),
      XEmpty NsUnbound (tag_of ''version'' [(''ver'', ''1''), (''rel'', ''1'')]),
      XStart NsUnbound (tag_of ''file'' []), XText (Inr ''/etc/hosts''), XEnd ''file'', XEnd ''package'', XEnd ''filelists'']"

theorem parse_filelists_safe_witness:
  "\<exists>L. \<exists>p. parse_filelists L ''x'' = Inr [p] \<and> fp_files p = [''/etc/hosts''] \<and> listed_ok p"
proof -
  define L where "L = \<lparr>xl_read = (\<lambda>_ _. demo_events), xl_unescape = Inr, xl_utf8_error = (\<lambda>_. [])\<rparr>"
  have "map_sum id (map fp_files) (parse_filelists L ''x'') = Inr [[''/etc/hosts'']]" unfolding L_def by code_simp
  then obtain p where p: "parse_filelists L ''x'' = Inr [p]" "fp_files p = [''/etc/hosts'']"
    by (cases "parse_filelists L ''x''") (auto simp: Cons_eq_map_conv)
  with parse_filelists_safe [OF p(1)] show ?thesis by (intro exI [of _ L] exI [of _ p]) simp
qed

end
