(* ===== verification/Metadata_Scan.thy ===== *)
theory Metadata_Scan
  imports Metadata_Filelists
begin

text \<open>
  \<^verbatim>\<open>crates/dnfast-metadata/src/filelists.rs\<close>, the scanner of validated file lists: \<^verbatim>\<open>ValidatedPathScanner\<close> finds the packages
  that own one path in the bytes of a document, without the events of an XML reader. It is fed with the pieces a reader
  returns and consumes whole texts and the two common tags at once.
\<close>

section \<open>The scanner\<close>

datatype lexical_state = LexText | LexTag | LexComment | LexPI

record path_scanner =
  sc_target :: string
  sc_tag :: bytes
  sc_file :: bytes
  sc_file_length :: u64
  sc_file_matches :: bool
  sc_file_complex :: bool
  sc_package_id :: "string option"
  sc_providers :: "string list"
  sc_file_active :: bool
  sc_state :: lexical_state
  sc_quote :: "char option"

definition scanner_new :: "string \<Rightarrow> path_scanner" where
  "scanner_new target = \<lparr>sc_target = target, sc_tag = [], sc_file = [], sc_file_length = 0, sc_file_matches = True,
     sc_file_complex = False, sc_package_id = None, sc_providers = [], sc_file_active = False, sc_state = LexText, sc_quote = None\<rparr>"

text \<open>\<^verbatim>\<open>slice.get(a..b)\<close> and \<^verbatim>\<open>u8::is_ascii_whitespace\<close>.\<close>

definition get_range :: "nat \<Rightarrow> nat \<Rightarrow> bytes \<Rightarrow> bytes option" where
  "get_range a b xs = (if a \<le> b \<and> b \<le> length xs then Some (take (b - a) (drop a xs)) else None)"

definition is_ascii_whitespace :: "char \<Rightarrow> bool" where
  "is_ascii_whitespace c \<longleftrightarrow> byte_of c \<in> {9, 10, 12, 13, 32}"

definition tag_name :: "bytes \<Rightarrow> bytes \<Rightarrow> bool" where
  "tag_name tag expected \<longleftrightarrow>
     starts_with tag expected \<and>
     (case drop (length expected) tag of
        [] \<Rightarrow> True
      | c # _ \<Rightarrow> is_ascii_whitespace c \<or> c = CHR ''/'' \<or> c = CHR ''>'')"

text \<open>One attribute at the position the rest of the tag starts with: the loop over the attributes of a tag.\<close>

function raw_attribute_loop :: "xml_lib \<Rightarrow> bytes \<Rightarrow> bytes \<Rightarrow> (metadata_error, string) result" where
  "raw_attribute_loop L expected rest =
     (if rest = [] then Inl (MdXml ''missing required attribute'')
      else
        let r1 = dropWhile is_ascii_whitespace rest;
            name = takeWhile (\<lambda>c. \<not> is_ascii_whitespace c \<and> c \<noteq> CHR ''='') r1;
            r2 = dropWhile is_ascii_whitespace (drop (length name) r1)
        in case r2 of
          [] \<Rightarrow> Inl (MdXml ''invalid package attribute'')
        | e # r3 \<Rightarrow>
            if e \<noteq> CHR ''='' then Inl (MdXml ''invalid package attribute'')
            else
              (case dropWhile is_ascii_whitespace r3 of
                 [] \<Rightarrow> Inl (MdXml ''unquoted package attribute'')
               | quote # r5 \<Rightarrow>
                   if quote \<noteq> CHR 0x27 \<and> quote \<noteq> CHR 0x22 then Inl (MdXml ''unquoted package attribute'')
                   else
                     let raw = takeWhile (\<lambda>c. c \<noteq> quote) r5 in
                     if name = expected then
                       if utf8_ok raw then map_err MdXml (xl_unescape L raw) else Inl (MdXml (xl_utf8_error L raw))
                     else raw_attribute_loop L expected (drop (length raw + 1) r5)))"
  by pat_completeness auto

lemma length_dropWhile_Cons: "dropWhile P xs = y # ys \<Longrightarrow> length ys < length xs"
  using length_dropWhile_le [of P xs] by simp

termination raw_attribute_loop
proof (relation "measure (\<lambda>(_, _, rest). length rest)", goal_cases)
  case (2 L expected rest r1 name r2 e r3 quote r5 raw)
  have "length r5 < length r3" using 2(7) by (rule length_dropWhile_Cons)
  also have "length r3 < length (drop (length name) r1)"
    using length_dropWhile_Cons [of is_ascii_whitespace "drop (length name) r1" e r3] 2(4,5) by simp
  also have "\<dots> \<le> length rest" using length_dropWhile_le [of is_ascii_whitespace rest] 2(2) by simp
  finally show ?case by simp
qed simp

declare raw_attribute_loop.simps [simp del]

definition required_raw_attribute :: "xml_lib \<Rightarrow> bytes \<Rightarrow> bytes \<Rightarrow> (metadata_error, string) result" where
  "required_raw_attribute L tag expected =
     (if list_ex is_ascii_whitespace tag
      then raw_attribute_loop L expected (dropWhile (\<lambda>c. \<not> is_ascii_whitespace c) tag)
      else Inl (MdXml ''package attributes are absent''))"

definition begin_file :: "path_scanner \<Rightarrow> path_scanner" where
  "begin_file s = s\<lparr>sc_file := [], sc_file_length := 0, sc_file_matches := True, sc_file_complex := False, sc_file_active := True\<rparr>"

definition file_matched :: "xml_lib \<Rightarrow> path_scanner \<Rightarrow> (metadata_error, bool) result" where
  "file_matched L s =
     (if sc_file_complex s then
        if \<not> utf8_ok (sc_file s) then Inl (MdXml (xl_utf8_error L (sc_file s)))
        else bindR (map_err MdXml (xl_unescape L (sc_file s))) (\<lambda>v. Inr (v = sc_target s))
      else Inr (sc_file_matches s \<and> unat (sc_file_length s) = length (sc_target s)))"

definition end_file :: "xml_lib \<Rightarrow> path_scanner \<Rightarrow> (metadata_error, path_scanner) result" where
  "end_file L s =
     (if \<not> sc_file_active s then Inr s
      else
        bindR (file_matched L s) (\<lambda>matched.
        bindR (if matched then
                 bindR (ok_or (MdXml ''file outside filelists package'') (sc_package_id s)) (\<lambda>p.
                   Inr (s\<lparr>sc_providers := sc_providers s @ [p]\<rparr>))
               else Inr s) (\<lambda>s'.
          Inr (s'\<lparr>sc_file_active := False\<rparr>))))"

definition push_file_bytes :: "bytes \<Rightarrow> path_scanner \<Rightarrow> (metadata_error, path_scanner) result" where
  "push_file_bytes bs s =
     bindR (ok_or (MdXml ''file path length overflow'') (checked_add (sc_file_length s) (len_u64 bs))) (\<lambda>len.
     bindR (checked_limit len MAX_XML_TEXT_BYTES ''XML text'') (\<lambda>_.
     let previous = unat (sc_file_length s); s' = s\<lparr>sc_file_length := len\<rparr> in
     if sc_file_complex s then Inr (s'\<lparr>sc_file := sc_file s @ bs\<rparr>)
     else if \<not> sc_file_matches s then Inr s'
     else if CHR ''&'' \<in> set bs then
       let before = takeWhile (\<lambda>c. c \<noteq> CHR ''&'') bs; prefix_end = previous + length before in
       if get_range previous prefix_end (sc_target s) \<noteq> Some before \<or> length (sc_target s) < prefix_end
       then Inr (s'\<lparr>sc_file_matches := (get_range previous prefix_end (sc_target s) = Some before)\<rparr>)
       else Inr (s'\<lparr>sc_file_complex := True,
         sc_file := sc_file s @ take prefix_end (sc_target s) @ drop (length before) bs\<rparr>)
     else Inr (s'\<lparr>sc_file_matches := (get_range previous (unat len) (sc_target s) = Some bs)\<rparr>)))"

definition finish_tag :: "xml_lib \<Rightarrow> path_scanner \<Rightarrow> (metadata_error, path_scanner) result" where
  "finish_tag L s =
     (let tag = (if ends_with (sc_tag s) ''>'' then butlast (sc_tag s) else sc_tag s) in
      if tag_name tag ''package'' then
        bindR (required_raw_attribute L tag ''pkgid'') (\<lambda>p. Inr (s\<lparr>sc_package_id := Some p\<rparr>))
      else if (case strip_prefix ''/'' tag of None \<Rightarrow> False | Some t \<Rightarrow> tag_name t ''package'') then
        Inr (s\<lparr>sc_package_id := None\<rparr>)
      else if tag_name tag ''file'' then Inr (begin_file s)
      else if (case strip_prefix ''/'' tag of None \<Rightarrow> False | Some t \<Rightarrow> tag_name t ''file'') then end_file L s
      else Inr s)"

text \<open>One byte in a state that is not a text.\<close>

definition scan_byte :: "xml_lib \<Rightarrow> char \<Rightarrow> path_scanner \<Rightarrow> (metadata_error, path_scanner) result" where
  "scan_byte L b s =
     (let tag = sc_tag s @ [b]; s' = s\<lparr>sc_tag := tag\<rparr> in
      case sc_state s of
        LexText \<Rightarrow> Inr s
      | LexTag \<Rightarrow>
          if tag = ''!--'' then Inr (s'\<lparr>sc_state := LexComment\<rparr>)
          else if tag = ''?'' then Inr (s'\<lparr>sc_state := LexPI\<rparr>)
          else
            (case sc_quote s of
               Some quote \<Rightarrow> Inr (if b = quote then s'\<lparr>sc_quote := None\<rparr> else s')
             | None \<Rightarrow>
                 if b = CHR 0x27 \<or> b = CHR 0x22 then Inr (s'\<lparr>sc_quote := Some b\<rparr>)
                 else if b = CHR ''>'' then bindR (finish_tag L s') (\<lambda>s''. Inr (s''\<lparr>sc_state := LexText\<rparr>))
                 else Inr s')
      | LexComment \<Rightarrow> Inr (if ends_with tag ''-->'' then s'\<lparr>sc_state := LexText\<rparr> else s')
      | LexPI \<Rightarrow> Inr (if ends_with tag ''?>'' then s'\<lparr>sc_state := LexText\<rparr> else s'))"

text \<open>
  \<^verbatim>\<open>push\<close>: in a text everything up to the next tag at once, and the two common tags when the piece holds them whole; byte by
  byte otherwise.
\<close>

function scan_push :: "xml_lib \<Rightarrow> bytes \<Rightarrow> path_scanner \<Rightarrow> (metadata_error, path_scanner) result" where
  "scan_push L [] s = Inr s"
| "scan_push L (b # bs) s =
     (if sc_state s = LexText then
        let before = takeWhile (\<lambda>c. c \<noteq> CHR ''<'') (b # bs) in
        bindR (if sc_file_active s \<and> before \<noteq> [] then push_file_bytes before s else Inr s) (\<lambda>s1.
        case drop (length before) (b # bs) of
          [] \<Rightarrow> Inr s1
        | _ # tag \<Rightarrow>
            let s2 = s1\<lparr>sc_tag := [], sc_quote := None, sc_state := LexTag\<rparr> in
            if starts_with tag ''file>'' then scan_push L (drop 5 tag) ((begin_file s2)\<lparr>sc_state := LexText\<rparr>)
            else if starts_with tag ''/file>'' then
              bindR (end_file L s2) (\<lambda>s3. scan_push L (drop 6 tag) (s3\<lparr>sc_state := LexText\<rparr>))
            else scan_push L tag s2)
      else bindR (scan_byte L b s) (scan_push L bs))"
  by pat_completeness auto

lemma length_drop_Cons: "drop n xs = y # ys \<Longrightarrow> length ys < length xs"
  by (metis Suc_le_eq diff_le_self length_Cons length_drop)

termination scan_push
  by (relation "measure (\<lambda>(_, bs, _). length bs)") (auto dest!: length_drop_Cons)

declare scan_push.simps(2) [simp del]

definition scanner_finish :: "path_scanner \<Rightarrow> (metadata_error, string list) result" where
  "scanner_finish s =
     (if sc_state s \<noteq> LexText \<or> sc_file_active s \<or> sc_package_id s \<noteq> None
      then Inl (MdXml ''validated filelists scan ended inside an element'')
      else Inr (sort_dedup (sc_providers s)))"

text \<open>The pieces the reads return, in order; an empty one is the end of the input, and a failed read carries its error.\<close>

fun scan_chunks :: "xml_lib \<Rightarrow> (string, bytes) result list \<Rightarrow> path_scanner \<Rightarrow> (metadata_error, path_scanner) result" where
  "scan_chunks L [] s = Inr s"
| "scan_chunks L (Inl e # _) s = Inl (MdIo e)"
| "scan_chunks L (Inr c # cs) s = (if c = [] then Inr s else bindR (scan_push L c s) (scan_chunks L cs))"

definition scan_validated_filelists_xml_path ::
  "xml_lib \<Rightarrow> (string, bytes) result list \<Rightarrow> string \<Rightarrow> (metadata_error, string list) result" where
  "scan_validated_filelists_xml_path L reads target =
     bindR (scan_chunks L reads (scanner_new target)) scanner_finish"

section \<open>Texts in pieces\<close>

text \<open>What \<^verbatim>\<open>push_file_bytes\<close> does within the limit.\<close>

definition file_text :: "bytes \<Rightarrow> path_scanner \<Rightarrow> path_scanner" where
  "file_text bs s =
     (let previous = unat (sc_file_length s); s' = s\<lparr>sc_file_length := sc_file_length s + of_nat (length bs)\<rparr>;
          before = takeWhile (\<lambda>c. c \<noteq> CHR ''&'') bs
      in if sc_file_complex s then s'\<lparr>sc_file := sc_file s @ bs\<rparr>
         else if \<not> sc_file_matches s then s'
         else if get_range previous (previous + length before) (sc_target s) \<noteq> Some before then s'\<lparr>sc_file_matches := False\<rparr>
         else if CHR ''&'' \<in> set bs then s'\<lparr>sc_file_complex := True,
           sc_file := sc_file s @ take (previous + length before) (sc_target s) @ drop (length before) bs\<rparr>
         else s')"

lemma takeWhile_absent: "c \<notin> set xs \<Longrightarrow> takeWhile (\<lambda>x. x \<noteq> c) xs = xs"
  by (auto simp: takeWhile_eq_all_conv)

lemma push_file_bytes_iff:
  "push_file_bytes bs s = Inr s' \<longleftrightarrow> unat (sc_file_length s) + length bs \<le> 2 ^ 20 \<and> s' = file_text bs s"
proof (cases "unat (sc_file_length s) + length bs \<le> 2 ^ 20")
  case True
  then have "unat (len_u64 bs) = length bs" by (simp add: unat_len_u64)
  moreover have len: "len_u64 bs = of_nat (length bs)" using True by (simp add: len_u64_def min_def)
  ultimately have add: "checked_add (sc_file_length s) (len_u64 bs) = Some (sc_file_length s + of_nat (length bs))"
    using True by (simp add: checked_add_def)
  have "unat (sc_file_length s + of_nat (length bs)) = unat (sc_file_length s) + length bs"
    using True by (subst unat_add_fits) (simp_all add: unat_of_nat)
  moreover from this True have "sc_file_length s + of_nat (length bs) \<le> MAX_XML_TEXT_BYTES"
    by (simp add: MAX_XML_TEXT_BYTES_def word_le_nat_alt)
  moreover note add
  ultimately have "push_file_bytes bs s = Inr (file_text bs s)"
    by (cases s; cases "CHR ''&'' \<in> set bs")
      (simp_all add: takeWhile_absent push_file_bytes_def checked_limit_def not_less file_text_def Let_def, simp_all add: get_range_def)
  with True show ?thesis by auto
next
  case False
  have "push_file_bytes bs s \<noteq> Inr s'"
  proof
    assume "push_file_bytes bs s = Inr s'"
    then obtain len where len: "checked_add (sc_file_length s) (len_u64 bs) = Some len" "len \<le> MAX_XML_TEXT_BYTES"
      by (auto simp: push_file_bytes_def result_simps checked_limit_iff)
    then have "unat (sc_file_length s) + unat (len_u64 bs) \<le> 2 ^ 20"
      by (auto simp: checked_add_Some MAX_XML_TEXT_BYTES_def word_le_nat_alt unat_add_fits)
    with False show False by (auto simp: unat_len_u64 min_def split: if_splits)
  qed
  with False show ?thesis by simp
qed

lemma get_range_append:
  "get_range a (a + length (xs @ ys)) t = Some (xs @ ys) \<longleftrightarrow>
     get_range a (a + length xs) t = Some xs \<and> get_range (a + length xs) (a + length xs + length ys) t = Some ys"
proof -
  have "take (length (xs @ ys)) (drop a t) = take (length xs) (drop a t) @ take (length ys) (drop (a + length xs) t)"
    by (simp add: take_add drop_drop add.commute)
  then show ?thesis
    by (auto simp: get_range_def append_eq_append_conv)
qed

lemma file_text_append:
  assumes "unat (sc_file_length s) + length (xs @ ys) \<le> 2 ^ 20"
  shows "file_text (xs @ ys) s = file_text ys (file_text xs s)"
proof -
  define p where "p = unat (sc_file_length s)"
  have len: "unat (sc_file_length s + of_nat (length xs)) = p + length xs"
    using assms by (subst unat_add_fits) (simp_all add: unat_of_nat p_def)
  have assoc: "sc_file_length s + of_nat (length xs) + of_nat (length ys) = sc_file_length s + of_nat (length (xs @ ys))"
    by (simp add: add.assoc)
  show ?thesis
  proof (cases "CHR ''&'' \<in> set xs")
    case True
    then have "takeWhile (\<lambda>c. c \<noteq> CHR ''&'') (xs @ ys) = takeWhile (\<lambda>c. c \<noteq> CHR ''&'') xs"
      by (auto simp: takeWhile_append)
    moreover have "length (takeWhile (\<lambda>c. c \<noteq> CHR ''&'') xs) \<le> length xs" by (rule length_takeWhile_le)
    ultimately show ?thesis using True
      by (auto simp: file_text_def Let_def add.assoc)
  next
    case False
    then have all: "takeWhile (\<lambda>c. c \<noteq> CHR ''&'') xs = xs"
      "takeWhile (\<lambda>c. c \<noteq> CHR ''&'') (xs @ ys) = xs @ takeWhile (\<lambda>c. c \<noteq> CHR ''&'') ys"
      by (auto simp: takeWhile_append takeWhile_absent)
    note split = get_range_append [of p xs "takeWhile (\<lambda>c. c \<noteq> CHR ''&'') ys" "sc_target s"]
    show ?thesis
      using False split len unfolding file_text_def Let_def all p_def [symmetric]
      by (auto simp: add.assoc)
  qed
qed

section \<open>Byte by byte\<close>

text \<open>
  The same lexer with no shortcut: one byte at a time, in every state. It is the reference the shortcuts of \<^verbatim>\<open>push\<close> are
  compared with; a scanner in a text is compared up to the tag it read last.
\<close>

definition scan_one :: "xml_lib \<Rightarrow> char \<Rightarrow> path_scanner \<Rightarrow> (metadata_error, path_scanner) result" where
  "scan_one L b s =
     (if sc_state s \<noteq> LexText then scan_byte L b s
      else if b = CHR ''<'' then Inr (s\<lparr>sc_tag := [], sc_quote := None, sc_state := LexTag\<rparr>)
      else if sc_file_active s then push_file_bytes [b] s
      else Inr s)"

definition forget_tag :: "path_scanner \<Rightarrow> path_scanner" where
  "forget_tag s = (if sc_state s = LexText then s\<lparr>sc_tag := []\<rparr> else s)"

definition scan_outcome :: "(metadata_error, path_scanner) result \<Rightarrow> path_scanner option" where
  "scan_outcome m = (case m of Inl _ \<Rightarrow> None | Inr s \<Rightarrow> Some (forget_tag s))"

lemma scan_outcome_simps [simp]: "scan_outcome (Inl e) = None" "scan_outcome (Inr s) = Some (forget_tag s)"
  by (simp_all add: scan_outcome_def)

lemma forget_tag_fields [simp]:
  "sc_state (forget_tag s) = sc_state s" "sc_file_active (forget_tag s) = sc_file_active s" "sc_file_length (forget_tag s) = sc_file_length s"
  "sc_target (forget_tag s) = sc_target s" "sc_package_id (forget_tag s) = sc_package_id s" "sc_providers (forget_tag s) = sc_providers s"
  by (simp_all add: forget_tag_def)

lemma forget_tag_tag: "sc_state s = LexText \<Longrightarrow> forget_tag (s\<lparr>sc_tag := t\<rparr>) = forget_tag s"
  by (simp add: forget_tag_def)

lemma file_text_tag: "file_text bs (s\<lparr>sc_tag := t\<rparr>) = (file_text bs s)\<lparr>sc_tag := t\<rparr>"
  by (simp add: file_text_def Let_def)

lemma file_text_fields [simp]:
  "sc_state (file_text bs s) = sc_state s" "sc_file_active (file_text bs s) = sc_file_active s"
  "sc_target (file_text bs s) = sc_target s" "sc_package_id (file_text bs s) = sc_package_id s"
  "sc_providers (file_text bs s) = sc_providers s" "sc_tag (file_text bs s) = sc_tag s" "sc_quote (file_text bs s) = sc_quote s"
  "sc_file_length (file_text bs s) = sc_file_length s + of_nat (length bs)"
  by (simp_all add: file_text_def Let_def)

lemma forget_tag_file_text: "sc_state s = LexText \<Longrightarrow> forget_tag (file_text bs s) = file_text bs (forget_tag s)"
  by (simp add: forget_tag_def file_text_tag)

lemma push_file_bytes_cases:
  "push_file_bytes bs s = (if unat (sc_file_length s) + length bs \<le> 2 ^ 20 then Inr (file_text bs s)
     else Inl (projl (push_file_bytes bs s)))"
  using push_file_bytes_iff [of bs s] by (cases "push_file_bytes bs s") auto

lemma end_file_tag: "end_file L (s\<lparr>sc_tag := t\<rparr>) = map_sum id (\<lambda>s. s\<lparr>sc_tag := t\<rparr>) (end_file L s)"
  by (cases "file_matched L s")
    (auto simp: end_file_def file_matched_def ok_or_def bindR_def split: if_splits option.splits sum.splits)

text \<open>Scanners that agree up to the last tag of a text take the same steps.\<close>

lemma scan_one_forget_tag: "scan_outcome (scan_one L b (forget_tag s)) = scan_outcome (scan_one L b s)"
proof (cases "sc_state s = LexText")
  case True
  then have "scan_outcome (push_file_bytes [b] (forget_tag s)) = scan_outcome (push_file_bytes [b] s)"
    by (subst (1 2) push_file_bytes_cases) (simp add: forget_tag_file_text, simp add: forget_tag_def)
  with True show ?thesis by (simp add: scan_one_def) (simp add: forget_tag_def)
qed (simp add: forget_tag_def)

lemma fold_scan_one_forget_tag: "scan_outcome (foldR (scan_one L) bs (forget_tag s)) = scan_outcome (foldR (scan_one L) bs s)"
proof (induction bs arbitrary: s)
  case Nil
  show ?case by (simp add: forget_tag_def)
next
  case (Cons b bs)
  show ?case
  proof (cases "scan_one L b s")
    case (Inl e)
    with scan_one_forget_tag [of L b s] show ?thesis by (cases "scan_one L b (forget_tag s)") simp_all
  next
    case (Inr t)
    with scan_one_forget_tag [of L b s] obtain u where "scan_one L b (forget_tag s) = Inr u" "forget_tag u = forget_tag t"
      by (cases "scan_one L b (forget_tag s)") auto
    with Inr Cons.IH [of u] Cons.IH [of t] show ?thesis by simp
  qed
qed

lemma fold_scan_one_cong: "forget_tag s = forget_tag t \<Longrightarrow> scan_outcome (foldR (scan_one L) bs s) = scan_outcome (foldR (scan_one L) bs t)"
  using fold_scan_one_forget_tag [of L bs s] fold_scan_one_forget_tag [of L bs t] by simp

lemma fold_scan_text:
  assumes "sc_state s = LexText" "CHR ''<'' \<notin> set bs"
  shows "scan_outcome (foldR (scan_one L) bs s)
    = scan_outcome (if sc_file_active s \<and> bs \<noteq> [] then push_file_bytes bs s else Inr s)"
  using assms
proof (induction bs arbitrary: s)
  case (Cons b bs)
  show ?case
  proof (cases "sc_file_active s")
    case True
    have one: "scan_one L b s = push_file_bytes [b] s" using Cons.prems True by (auto simp: scan_one_def)
    show ?thesis
    proof (cases "unat (sc_file_length s) + 1 \<le> 2 ^ 20")
      case small: True
      then have step: "push_file_bytes [b] s = Inr (file_text [b] s)" by (simp add: push_file_bytes_iff)
      have len: "unat (sc_file_length s + 1) = unat (sc_file_length s) + 1"
        using small by (subst unat_add_fits) simp_all
      have "scan_outcome (foldR (scan_one L) bs (file_text [b] s))
        = scan_outcome (if bs \<noteq> [] then push_file_bytes bs (file_text [b] s) else Inr (file_text [b] s))"
        using Cons.IH [of "file_text [b] s"] Cons.prems True by simp
      also have "\<dots> = scan_outcome (push_file_bytes (b # bs) s)"
      proof (cases "unat (sc_file_length s) + length (b # bs) \<le> 2 ^ 20")
        case True
        then have "push_file_bytes (b # bs) s = Inr (file_text bs (file_text [b] s))"
          using file_text_append [of s "[b]" bs] by (simp add: push_file_bytes_iff)
        moreover have "push_file_bytes bs (file_text [b] s) = Inr (file_text bs (file_text [b] s))"
          using True len by (simp add: push_file_bytes_iff)
        ultimately show ?thesis using step by (cases "bs = []") simp_all
      next
        case False
        then have "bs \<noteq> []" using small by auto
        moreover have "scan_outcome (push_file_bytes (b # bs) s) = None"
          using False by (subst push_file_bytes_cases) simp
        moreover have "scan_outcome (push_file_bytes bs (file_text [b] s)) = None"
          using False len by (subst push_file_bytes_cases) simp
        ultimately show ?thesis by simp
      qed
      finally show ?thesis using True one step by simp
    next
      case False
      then have "scan_outcome (push_file_bytes [b] s) = None" "scan_outcome (push_file_bytes (b # bs) s) = None"
        by (subst push_file_bytes_cases; simp)+
      then show ?thesis using True one by (cases "push_file_bytes [b] s") simp_all
    qed
  next
    case False
    then have "scan_one L b s = Inr s" using Cons.prems by (auto simp: scan_one_def)
    with False Cons show ?thesis by simp
  qed
qed simp

lemma fold_scan_file_tag:
  assumes "sc_state s = LexTag" "sc_tag s = []" "sc_quote s = None"
  shows "foldR (scan_one L) ''file>'' s = Inr ((begin_file s)\<lparr>sc_tag := ''file>'', sc_state := LexText\<rparr>)"
  using assms by (cases s)
    (simp add: scan_one_def scan_byte_def finish_tag_def tag_name_def starts_with_def ends_with_def strip_prefix_def begin_file_def)

lemma fold_scan_file_end_tag:
  assumes "sc_state s = LexTag" "sc_tag s = []" "sc_quote s = None"
  shows "foldR (scan_one L) ''/file>'' s
    = bindR (end_file L s) (\<lambda>t. Inr (t\<lparr>sc_tag := ''/file>'', sc_state := LexText\<rparr>))"
proof -
  have "foldR (scan_one L) ''/file'' s = Inr (s\<lparr>sc_tag := ''/file''\<rparr>)"
    using assms by (cases s) (simp add: scan_one_def scan_byte_def)
  moreover have "scan_one L CHR ''>'' (s\<lparr>sc_tag := ''/file''\<rparr>)
    = bindR (end_file L (s\<lparr>sc_tag := ''/file>''\<rparr>)) (\<lambda>t. Inr (t\<lparr>sc_state := LexText\<rparr>))"
    using assms by (simp add: scan_one_def scan_byte_def finish_tag_def tag_name_def starts_with_def ends_with_def
      strip_prefix_def)
  moreover have "\<dots> = bindR (end_file L s) (\<lambda>t. Inr (t\<lparr>sc_tag := ''/file>'', sc_state := LexText\<rparr>))"
    by (cases "end_file L s") (simp_all add: end_file_tag)
  ultimately show ?thesis
    using foldR_append [of "scan_one L" "''/file''" "''>''" s] by (simp add: bindR_def split: sum.splits)
qed

lemma scan_outcome_bind_cong:
  assumes "scan_outcome m = scan_outcome m'" "\<And>s t. forget_tag s = forget_tag t \<Longrightarrow> scan_outcome (f s) = scan_outcome (g t)"
  shows "scan_outcome (bindR m f) = scan_outcome (bindR m' g)"
  using assms by (cases m; cases m') auto

text \<open>What \<^verbatim>\<open>push\<close> does after the start of a tag.\<close>

definition scan_tag :: "xml_lib \<Rightarrow> bytes \<Rightarrow> path_scanner \<Rightarrow> (metadata_error, path_scanner) result" where
  "scan_tag L tag s =
     (if starts_with tag ''file>'' then scan_push L (drop 5 tag) ((begin_file s)\<lparr>sc_state := LexText\<rparr>)
      else if starts_with tag ''/file>'' then
        bindR (end_file L s) (\<lambda>s3. scan_push L (drop 6 tag) (s3\<lparr>sc_state := LexText\<rparr>))
      else scan_push L tag s)"

lemma scan_push_text:
  assumes "sc_state s = LexText" "before = takeWhile (\<lambda>c. c \<noteq> CHR ''<'') (b # bs)"
  shows "scan_push L (b # bs) s =
    bindR (if sc_file_active s \<and> before \<noteq> [] then push_file_bytes before s else Inr s)
      (\<lambda>s1. case drop (length before) (b # bs) of
         [] \<Rightarrow> Inr s1
       | _ # tag \<Rightarrow> scan_tag L tag (s1\<lparr>sc_tag := [], sc_quote := None, sc_state := LexTag\<rparr>))"
  using assms by (simp only: scan_push.simps Let_def if_True simp_thms scan_tag_def)

lemma scan_tag_one:
  assumes IH: "\<And>r t. length r \<le> length tag \<Longrightarrow> scan_outcome (scan_push L r t) = scan_outcome (foldR (scan_one L) r t)"
    and s: "sc_state s = LexTag" "sc_tag s = []" "sc_quote s = None"
  shows "scan_outcome (scan_tag L tag s) = scan_outcome (foldR (scan_one L) tag s)"
proof (cases "starts_with tag ''file>''")
  case True
  then obtain r where r: "tag = ''file>'' @ r" by (auto simp: starts_with_iff)
  have "foldR (scan_one L) tag s = foldR (scan_one L) r ((begin_file s)\<lparr>sc_tag := ''file>'', sc_state := LexText\<rparr>)"
    unfolding r foldR_append fold_scan_file_tag [OF s] by simp
  moreover have "scan_outcome (foldR (scan_one L) r ((begin_file s)\<lparr>sc_tag := ''file>'', sc_state := LexText\<rparr>))
    = scan_outcome (foldR (scan_one L) r ((begin_file s)\<lparr>sc_state := LexText\<rparr>))"
    by (rule fold_scan_one_cong) (simp add: forget_tag_def begin_file_def)
  moreover have "scan_tag L tag s = scan_push L r ((begin_file s)\<lparr>sc_state := LexText\<rparr>)"
    using True by (simp add: scan_tag_def r)
  ultimately show ?thesis using IH [of r] by (simp add: r)
next
  case no_file: False
  show ?thesis
  proof (cases "starts_with tag ''/file>''")
    case True
    then obtain r where r: "tag = ''/file>'' @ r" by (auto simp: starts_with_iff)
    have "foldR (scan_one L) tag s
      = bindR (end_file L s) (\<lambda>t. foldR (scan_one L) r (t\<lparr>sc_tag := ''/file>'', sc_state := LexText\<rparr>))"
      unfolding r foldR_append fold_scan_file_end_tag [OF s] by (simp add: bindR_assoc)
    moreover have "scan_outcome (scan_push L r (t\<lparr>sc_state := LexText\<rparr>))
      = scan_outcome (foldR (scan_one L) r (t\<lparr>sc_tag := ''/file>'', sc_state := LexText\<rparr>))" for t
      using IH [of r] fold_scan_one_cong [of "t\<lparr>sc_state := LexText\<rparr>" "t\<lparr>sc_tag := ''/file>'', sc_state := LexText\<rparr>"]
      by (simp add: r forget_tag_def)
    ultimately show ?thesis using True no_file by (cases "end_file L s") (simp_all add: scan_tag_def r)
  next
    case False
    with no_file IH show ?thesis by (simp add: scan_tag_def)
  qed
qed

lemma scan_push_one: "scan_outcome (scan_push L bs s) = scan_outcome (foldR (scan_one L) bs s)"
proof (induction bs arbitrary: s rule: length_induct)
  case (1 xs)
  then have IH: "scan_outcome (scan_push L ys t) = scan_outcome (foldR (scan_one L) ys t)" if "length ys < length xs" for ys t
    using that by blast
  show ?case
  proof (cases xs)
    case xs: (Cons b bs)
    show ?thesis
    proof (cases "sc_state s = LexText")
      case False
      then have "scan_one L b s = scan_byte L b s" by (simp add: scan_one_def)
      with False show ?thesis using IH [of bs] by (cases "scan_byte L b s") (simp_all add: xs scan_push.simps)
    next
      case True
      define before where "before = takeWhile (\<lambda>c. c \<noteq> CHR ''<'') xs"
      define rest where "rest = drop (length before) xs"
      define m where "m = (if sc_file_active s \<and> before \<noteq> [] then push_file_bytes before s else Inr s)"
      have whole: "xs = before @ rest"
        by (simp only: before_def rest_def dropWhile_eq_drop [symmetric] takeWhile_dropWhile_id)
      have "CHR ''<'' \<notin> set before" by (auto simp: before_def dest: set_takeWhileD)
      with True have run: "scan_outcome (foldR (scan_one L) before s) = scan_outcome m" unfolding m_def by (rule fold_scan_text)
      have push: "scan_push L xs s = bindR m (\<lambda>s1. case rest of [] \<Rightarrow> Inr s1
        | _ # tag \<Rightarrow> scan_tag L tag (s1\<lparr>sc_tag := [], sc_quote := None, sc_state := LexTag\<rparr>))"
        using scan_push_text [OF True before_def [unfolded xs]] by (simp only: m_def rest_def xs)
      have text_state: "sc_state s1 = LexText" if "m = Inr s1" for s1
        using that True push_file_bytes_iff by (auto simp: m_def split: if_splits)
      have after: "scan_outcome (case rest of [] \<Rightarrow> Inr s1
          | _ # tag \<Rightarrow> scan_tag L tag (s1\<lparr>sc_tag := [], sc_quote := None, sc_state := LexTag\<rparr>))
        = scan_outcome (foldR (scan_one L) rest s1)" if "sc_state s1 = LexText" for s1
      proof (cases rest)
        case (Cons c tag)
        have "dropWhile (\<lambda>c. c \<noteq> CHR ''<'') xs = c # tag"
          using Cons by (simp only: rest_def before_def dropWhile_eq_drop)
        then have "c = CHR ''<''" by (auto simp: dropWhile_eq_Cons_conv)
        then have "scan_one L c s1 = Inr (s1\<lparr>sc_tag := [], sc_quote := None, sc_state := LexTag\<rparr>)"
          using that by (simp add: scan_one_def)
        moreover have "length r \<le> length tag \<Longrightarrow> scan_outcome (scan_push L r t) = scan_outcome (foldR (scan_one L) r t)" for r t
          using IH [of r] whole Cons by simp
        ultimately show ?thesis using that by (simp add: Cons scan_tag_one)
      qed simp
      show ?thesis
      proof (cases m)
        case (Inl e)
        then show ?thesis using run unfolding push unfolding whole foldR_append
          by (cases "foldR (scan_one L) before s") simp_all
      next
        case (Inr s1)
        with run obtain s0 where "foldR (scan_one L) before s = Inr s0" "forget_tag s0 = forget_tag s1"
          by (cases "foldR (scan_one L) before s") auto
        then have "scan_outcome (foldR (scan_one L) xs s) = scan_outcome (foldR (scan_one L) rest s1)"
          using fold_scan_one_cong [of s0 s1 L rest] unfolding whole foldR_append by simp
        with Inr text_state after show ?thesis by (simp add: push)
      qed
    qed
  qed simp
qed

section \<open>The pieces do not matter\<close>

lemma scan_chunks_one:
  "[] \<notin> set cs \<Longrightarrow> scan_outcome (scan_chunks L (map Inr cs) s) = scan_outcome (foldR (scan_one L) (concat cs) s)"
proof (induction cs arbitrary: s)
  case (Cons c cs)
  then have c: "c \<noteq> []" and rest: "[] \<notin> set cs" by auto
  show ?case
  proof (cases "scan_push L c s")
    case (Inl e)
    with scan_push_one [of L c s] c show ?thesis
      by (cases "foldR (scan_one L) c s") (simp_all add: foldR_append)
  next
    case (Inr t)
    with scan_push_one [of L c s] obtain u where u: "foldR (scan_one L) c s = Inr u" "forget_tag u = forget_tag t"
      by (cases "foldR (scan_one L) c s") auto
    with Inr c Cons.IH [OF rest, of t] fold_scan_one_cong [OF u(2), of L "concat cs"] show ?thesis
      by (simp add: foldR_append)
  qed
qed simp

lemma scanner_finish_forget_tag: "scanner_finish (forget_tag s) = scanner_finish s"
  by (simp add: scanner_finish_def)

lemma scan_bytes_iff:
  assumes "[] \<notin> set cs"
  shows "scan_validated_filelists_xml_path L (map Inr cs) target = Inr r \<longleftrightarrow>
    (\<exists>s. foldR (scan_one L) (concat cs) (scanner_new target) = Inr s \<and> scanner_finish s = Inr r)"
proof -
  note same = scan_chunks_one [OF assms, of L "scanner_new target"]
  show ?thesis
  proof (cases "scan_chunks L (map Inr cs) (scanner_new target)")
    case (Inl e)
    with same have "foldR (scan_one L) (concat cs) (scanner_new target) \<noteq> Inr s" for s by auto
    with Inl show ?thesis by (simp add: scan_validated_filelists_xml_path_def)
  next
    case (Inr t)
    with same obtain u where u: "foldR (scan_one L) (concat cs) (scanner_new target) = Inr u" "forget_tag u = forget_tag t"
      by (cases "foldR (scan_one L) (concat cs) (scanner_new target)") auto
    then have "scanner_finish u = scanner_finish t" by (metis scanner_finish_forget_tag)
    with Inr u(1) show ?thesis by (simp add: scan_validated_filelists_xml_path_def)
  qed
qed

end
