(* ===== verification/Metadata_Scan_Exact.thy ===== *)
theory Metadata_Scan_Exact
  imports Metadata_Scan
begin

text \<open>
  The scanner of \<^verbatim>\<open>crates/dnfast-metadata/src/filelists.rs\<close> on documents: file lists as text, what each tag and each text of such a
  document does to the scanner, and the owners it returns in the end.
\<close>

section \<open>Documents\<close>

text \<open>A document of file lists as text, with the escapes of element texts.\<close>

definition escape_byte :: "char \<Rightarrow> string" where
  "escape_byte c =
     (if c = CHR ''&'' then ''&amp;'' else if c = CHR ''<'' then ''&lt;'' else if c = CHR ''>'' then ''&gt;'' else [c])"

definition xml_escape :: "string \<Rightarrow> string" where
  "xml_escape s = concat (map escape_byte s)"

definition attribute_xml :: "string \<times> string \<Rightarrow> string" where
  "attribute_xml a = '' '' @ fst a @ ''='' @ [CHR 0x22] @ snd a @ [CHR 0x22]"

definition attributes_xml :: "(string \<times> string) list \<Rightarrow> string" where
  "attributes_xml as = concat (map attribute_xml as)"

definition file_xml :: "string \<Rightarrow> string" where
  "file_xml f = ''<file>'' @ xml_escape f @ ''</file>'' @ [CHR 0x0A]"

definition package_tag :: "file_list_package \<Rightarrow> string" where
  "package_tag p = ''package'' @ attributes_xml [(''pkgid'', fp_package_id p), (''name'', fp_name p), (''arch'', fp_arch p)]"

definition version_tag :: "file_list_package \<Rightarrow> string" where
  "version_tag p = ''version'' @ attributes_xml [(''epoch'', fp_epoch p), (''ver'', fp_version p), (''rel'', fp_release p)] @ ''/''"

definition package_xml :: "file_list_package \<Rightarrow> string" where
  "package_xml p = ''<'' @ package_tag p @ ''>'' @ [CHR 0x0A] @ ''<'' @ version_tag p @ ''>'' @ [CHR 0x0A]
     @ concat (map file_xml (fp_files p)) @ ''</package>'' @ [CHR 0x0A]"

definition root_tag :: "nat \<Rightarrow> string" where
  "root_tag n = ''filelists'' @ attributes_xml [(''xmlns'', FILELISTS_NS), (''packages'', show_nat n)]"

definition filelists_xml :: "file_list_package list \<Rightarrow> string" where
  "filelists_xml ps = ''<?xml version='' @ [CHR 0x22] @ ''1.0'' @ [CHR 0x22] @ ''?>'' @ [CHR 0x0A]
     @ ''<'' @ root_tag (length ps) @ ''>'' @ [CHR 0x0A] @ concat (map package_xml ps) @ ''</filelists>'' @ [CHR 0x0A]"

section \<open>Tags byte by byte\<close>

text \<open>A tag being read that is neither a comment nor a processing instruction, with no open quote.\<close>

definition in_tag :: "path_scanner \<Rightarrow> bool" where
  "in_tag s \<longleftrightarrow> sc_state s = LexTag \<and> sc_quote s = None \<and> sc_tag s \<noteq> [] \<and> hd (sc_tag s) \<notin> {CHR ''!'', CHR ''?''}"

lemma in_tag_not_special: "in_tag s \<Longrightarrow> sc_tag s @ t \<noteq> ''!--'' \<and> sc_tag s @ t \<noteq> ''?''"
  by (cases "sc_tag s") (auto simp: in_tag_def)

lemma in_tag_more: "in_tag s \<Longrightarrow> in_tag (s\<lparr>sc_tag := sc_tag s @ t\<rparr>)"
  by (cases "sc_tag s") (auto simp: in_tag_def)

lemma fold_plain_tag:
  assumes "in_tag s" "set t \<inter> {CHR 0x27, CHR 0x22, CHR ''>''} = {}"
  shows "foldR (scan_one L) t s = Inr (s\<lparr>sc_tag := sc_tag s @ t\<rparr>)"
  using assms
proof (induction t arbitrary: s)
  case (Cons c t)
  have "scan_one L c s = Inr (s\<lparr>sc_tag := sc_tag s @ [c]\<rparr>)"
    using Cons.prems in_tag_not_special [of s "[c]"] by (auto simp: scan_one_def scan_byte_def in_tag_def)
  moreover have "foldR (scan_one L) t (s\<lparr>sc_tag := sc_tag s @ [c]\<rparr>) = Inr (s\<lparr>sc_tag := sc_tag s @ c # t\<rparr>)"
    using Cons.IH [of "s\<lparr>sc_tag := sc_tag s @ [c]\<rparr>"] Cons.prems by (simp add: in_tag_more)
  ultimately show ?case by simp
qed simp

lemma fold_quoted:
  assumes "in_tag s" "CHR 0x22 \<notin> set v"
  shows "foldR (scan_one L) (CHR 0x22 # v @ [CHR 0x22]) s = Inr (s\<lparr>sc_tag := sc_tag s @ CHR 0x22 # v @ [CHR 0x22]\<rparr>)"
proof -
  have inside: "foldR (scan_one L) w (u\<lparr>sc_quote := Some (CHR 0x22)\<rparr>) = Inr (u\<lparr>sc_tag := sc_tag u @ w, sc_quote := Some (CHR 0x22)\<rparr>)"
    if "in_tag u" "CHR 0x22 \<notin> set w" for u w
    using that
  proof (induction w arbitrary: u)
    case (Cons c w)
    have "scan_one L c (u\<lparr>sc_quote := Some (CHR 0x22)\<rparr>) = Inr (u\<lparr>sc_tag := sc_tag u @ [c], sc_quote := Some (CHR 0x22)\<rparr>)"
      using Cons.prems in_tag_not_special [of u "[c]"] by (auto simp: scan_one_def scan_byte_def in_tag_def)
    with Cons.IH [of "u\<lparr>sc_tag := sc_tag u @ [c]\<rparr>"] Cons.prems show ?case by (simp add: in_tag_more)
  qed (simp add: in_tag_def)
  have start: "scan_one L CHR 0x22 s = Inr (s\<lparr>sc_tag := sc_tag s @ [CHR 0x22], sc_quote := Some (CHR 0x22)\<rparr>)"
    using assms in_tag_not_special [of s "[CHR 0x22]"] by (auto simp: scan_one_def scan_byte_def in_tag_def)
  have stop: "scan_one L CHR 0x22 (u\<lparr>sc_quote := Some (CHR 0x22)\<rparr>) = Inr (u\<lparr>sc_tag := sc_tag u @ [CHR 0x22]\<rparr>)" if "in_tag u" for u
    using that in_tag_not_special [of u "[CHR 0x22]"] by (cases u) (auto simp: scan_one_def scan_byte_def in_tag_def)
  show ?thesis
    using inside [of "s\<lparr>sc_tag := sc_tag s @ [CHR 0x22]\<rparr>" v] stop [of "s\<lparr>sc_tag := sc_tag s @ CHR 0x22 # v\<rparr>"] assms
    by (simp add: foldR_append start in_tag_more)
qed

text \<open>Keys are names and values have no quote.\<close>

definition attribute_ok :: "string \<times> string \<Rightarrow> bool" where
  "attribute_ok a \<longleftrightarrow> fst a \<noteq> [] \<and> list_all (\<lambda>c. is_ascii_lowercase c) (fst a) \<and> CHR 0x22 \<notin> set (snd a)"

lemma lowercase_plain: "is_ascii_lowercase c \<Longrightarrow> c \<notin> {CHR 0x27, CHR 0x22, CHR ''>'', CHR ''='', CHR ''!'', CHR ''?''} \<and> \<not> is_ascii_whitespace c"
  by (auto simp: ascii_defs is_ascii_whitespace_def)

lemma fold_attribute:
  assumes "in_tag s" "attribute_ok a"
  shows "foldR (scan_one L) (attribute_xml a) s = Inr (s\<lparr>sc_tag := sc_tag s @ attribute_xml a\<rparr>)"
proof -
  have split: "attribute_xml a = ('' '' @ fst a @ ''='') @ (CHR 0x22 # snd a @ [CHR 0x22])" by (simp add: attribute_xml_def)
  have "set ('' '' @ fst a @ ''='') \<inter> {CHR 0x27, CHR 0x22, CHR ''>''} = {}"
    using assms lowercase_plain by (auto simp: attribute_ok_def list_all_iff)
  with assms(1) have "foldR (scan_one L) ('' '' @ fst a @ ''='') s = Inr (s\<lparr>sc_tag := sc_tag s @ ('' '' @ fst a @ ''='')\<rparr>)"
    by (rule fold_plain_tag)
  moreover have "foldR (scan_one L) (CHR 0x22 # snd a @ [CHR 0x22]) (s\<lparr>sc_tag := sc_tag s @ ('' '' @ fst a @ ''='')\<rparr>)
    = Inr (s\<lparr>sc_tag := sc_tag s @ ('' '' @ fst a @ ''='') @ CHR 0x22 # snd a @ [CHR 0x22]\<rparr>)"
    using fold_quoted [OF in_tag_more [OF assms(1)], of "snd a" L "'' '' @ fst a @ ''=''"] assms(2)
    by (simp add: attribute_ok_def)
  ultimately show ?thesis unfolding split foldR_append by simp
qed

lemma fold_attributes:
  assumes "in_tag s" "list_all attribute_ok as"
  shows "foldR (scan_one L) (attributes_xml as) s = Inr (s\<lparr>sc_tag := sc_tag s @ attributes_xml as\<rparr>)"
  using assms
proof (induction as arbitrary: s)
  case (Cons a as)
  then show ?case by (simp add: attributes_xml_def foldR_append fold_attribute in_tag_more)
qed (simp add: attributes_xml_def)

text \<open>A whole tag: a name, attributes and an end without quotes.\<close>

lemma fold_tag:
  assumes "sc_state s = LexText" "name \<noteq> []" "hd name \<notin> {CHR ''!'', CHR ''?''}"
    "set name \<inter> {CHR 0x27, CHR 0x22, CHR ''>''} = {}" "list_all attribute_ok as"
    "set e \<inter> {CHR 0x27, CHR 0x22, CHR ''>''} = {}"
  shows "foldR (scan_one L) (''<'' @ (name @ attributes_xml as @ e) @ ''>'') s =
    bindR (finish_tag L (s\<lparr>sc_quote := None, sc_state := LexTag, sc_tag := name @ attributes_xml as @ e @ ''>''\<rparr>))
      (\<lambda>t. Inr (t\<lparr>sc_state := LexText\<rparr>))"
proof -
  define s0 where "s0 = s\<lparr>sc_tag := [], sc_quote := None, sc_state := LexTag\<rparr>"
  obtain c name' where name: "name = c # name'" using assms(2) by (cases name) auto
  have first: "foldR (scan_one L) ''<'' s = Inr s0" using assms(1) by (simp add: scan_one_def s0_def)
  have c: "scan_one L c s0 = Inr (s0\<lparr>sc_tag := [c]\<rparr>)"
    using assms(3,4) by (auto simp: scan_one_def scan_byte_def s0_def name)
  have in1: "in_tag (s0\<lparr>sc_tag := [c]\<rparr>)" using assms(3) by (simp add: in_tag_def s0_def name)
  have "foldR (scan_one L) name' (s0\<lparr>sc_tag := [c]\<rparr>) = Inr (s0\<lparr>sc_tag := name\<rparr>)"
    using fold_plain_tag [OF in1, of name' L] assms(4) by (auto simp: name)
  with c have n: "foldR (scan_one L) name s0 = Inr (s0\<lparr>sc_tag := name\<rparr>)" by (simp add: name)
  have in2: "in_tag (s0\<lparr>sc_tag := name @ x\<rparr>)" for x using in_tag_more [OF in1, of "name' @ x"] by (simp add: name)
  have a: "foldR (scan_one L) (attributes_xml as) (s0\<lparr>sc_tag := name\<rparr>) = Inr (s0\<lparr>sc_tag := name @ attributes_xml as\<rparr>)"
    using fold_attributes [of "s0\<lparr>sc_tag := name\<rparr>" as L] in2 [of "[]"] assms(5) by simp
  have e: "foldR (scan_one L) e (s0\<lparr>sc_tag := name @ attributes_xml as\<rparr>) = Inr (s0\<lparr>sc_tag := name @ attributes_xml as @ e\<rparr>)"
    using fold_plain_tag [OF in2 [of "attributes_xml as"], of e L] assms(6) by simp
  have last: "foldR (scan_one L) ''>'' (s0\<lparr>sc_tag := name @ attributes_xml as @ e\<rparr>) =
    bindR (finish_tag L (s\<lparr>sc_quote := None, sc_state := LexTag, sc_tag := name @ attributes_xml as @ e @ ''>''\<rparr>))
      (\<lambda>t. Inr (t\<lparr>sc_state := LexText\<rparr>))"
    using in_tag_not_special [OF in2 [of "attributes_xml as @ e"], of "''>''"]
    by (simp add: scan_one_def scan_byte_def s0_def foldR_Nil_fun)
  show ?thesis by (simp only: foldR_append first n a e last bindR_Inr)
qed

lemma fold_instruction:
  assumes "sc_state s = LexText" "CHR ''>'' \<notin> set t"
  shows "foldR (scan_one L) (''<?'' @ t @ ''?>'') s = Inr (s\<lparr>sc_tag := ''?'' @ t @ ''?>'', sc_quote := None\<rparr>)"
proof -
  define s1 where "s1 = s\<lparr>sc_tag := ''?'', sc_quote := None, sc_state := LexPI\<rparr>"
  have first: "foldR (scan_one L) ''<?'' s = Inr s1" using assms(1) by (simp add: scan_one_def scan_byte_def s1_def)
  have inside: "foldR (scan_one L) w u = Inr (u\<lparr>sc_tag := sc_tag u @ w\<rparr>)"
    if "sc_state u = LexPI" "CHR ''>'' \<notin> set w" for u w
    using that
  proof (induction w arbitrary: u)
    case (Cons c w)
    have "scan_one L c u = Inr (u\<lparr>sc_tag := sc_tag u @ [c]\<rparr>)"
      using Cons.prems by (auto simp: scan_one_def scan_byte_def ends_with_def)
    with Cons.IH [of "u\<lparr>sc_tag := sc_tag u @ [c]\<rparr>"] Cons.prems show ?case by simp
  qed simp
  have "foldR (scan_one L) (t @ ''?'') s1 = Inr (s1\<lparr>sc_tag := ''?'' @ t @ ''?''\<rparr>)"
    using inside [of s1 "t @ ''?''"] assms(2) by (simp add: s1_def)
  moreover have "foldR (scan_one L) ''>'' (s1\<lparr>sc_tag := ''?'' @ t @ ''?''\<rparr>) = Inr (s\<lparr>sc_tag := ''?'' @ t @ ''?>'', sc_quote := None\<rparr>)"
    using assms(1) ends_with_append [of "''?'' @ t" "''?>''"] by (cases s) (simp add: scan_one_def scan_byte_def s1_def)
  ultimately have "foldR (scan_one L) (''<?'' @ (t @ ''?'') @ ''>'') s = Inr (s\<lparr>sc_tag := ''?'' @ t @ ''?>'', sc_quote := None\<rparr>)"
    by (simp only: foldR_append first bindR_Inr)
  then show ?thesis by simp
qed

text \<open>The attribute loop finds the first value of a key.\<close>

lemma raw_attribute_loop_xml:
  assumes "list_all attribute_ok as"
  shows "raw_attribute_loop L key (attributes_xml as) =
    (case map_of as key of
       None \<Rightarrow> Inl (MdXml ''missing required attribute'')
     | Some v \<Rightarrow> if utf8_ok v then map_err MdXml (xl_unescape L v) else Inl (MdXml (xl_utf8_error L v)))"
  using assms
proof (induction as)
  case Nil
  show ?case by (simp add: attributes_xml_def raw_attribute_loop.simps)
next
  case (Cons a as)
  obtain k v where a: "a = (k, v)" by (cases a)
  have k: "k \<noteq> []" "\<And>c. c \<in> set k \<Longrightarrow> \<not> is_ascii_whitespace c \<and> c \<noteq> CHR ''=''" and v: "CHR 0x22 \<notin> set v"
    using Cons.prems lowercase_plain by (auto simp: a attribute_ok_def list_all_iff)
  define rest where "rest = attributes_xml as"
  have xml: "attributes_xml (a # as) = CHR '' '' # k @ CHR ''='' # CHR 0x22 # v @ CHR 0x22 # rest"
    by (simp add: attributes_xml_def attribute_xml_def a rest_def)
  have ws: "is_ascii_whitespace CHR '' ''" "\<not> is_ascii_whitespace CHR ''=''" "\<not> is_ascii_whitespace CHR 0x22"
    by (simp_all add: is_ascii_whitespace_def byte_of_def)
  have skip: "dropWhile is_ascii_whitespace (k @ x) = k @ x" for x
    using k by (cases k) auto
  have name: "takeWhile (\<lambda>c. \<not> is_ascii_whitespace c \<and> c \<noteq> CHR ''='') (k @ CHR ''='' # x) = k" for x
    using k by (simp add: takeWhile_append2)
  have raw: "takeWhile (\<lambda>c. c \<noteq> CHR 0x22) (v @ CHR 0x22 # rest) = v"
    using v by (auto simp: takeWhile_append takeWhile_absent)
  show ?case
    using Cons ws unfolding xml
    by (subst raw_attribute_loop.simps) (simp add: skip name raw a Let_def rest_def [symmetric])
qed

section \<open>What the scanner finds\<close>

text \<open>Between two elements: the package the scanner is in and the owners it has found. \<open>reads\<close> says what a text does to them.\<close>

definition between_tags :: "string \<Rightarrow> string option \<times> string list \<Rightarrow> path_scanner \<Rightarrow> bool" where
  "between_tags target a s \<longleftrightarrow> sc_state s = LexText \<and> \<not> sc_file_active s \<and> sc_target s = target \<and>
     sc_package_id s = fst a \<and> sc_providers s = snd a"

definition reads :: "xml_lib \<Rightarrow> string \<Rightarrow> bytes \<Rightarrow> string option \<times> string list \<Rightarrow> string option \<times> string list \<Rightarrow> bool" where
  "reads L target xs a b \<longleftrightarrow>
     (\<forall>s. between_tags target a s \<longrightarrow> (\<exists>t. foldR (scan_one L) xs s = Inr t \<and> between_tags target b t))"

lemma reads_append: "reads L target xs a b \<Longrightarrow> reads L target ys b c \<Longrightarrow> reads L target (xs @ ys) a c"
  unfolding reads_def foldR_append by (metis bindR_Inr)

lemma reads_Nil: "reads L target [] a a"
  by (simp add: reads_def)

lemma reads_text: "CHR ''<'' \<notin> set xs \<Longrightarrow> reads L target xs a a"
proof -
  assume plain: "CHR ''<'' \<notin> set xs"
  have "foldR (scan_one L) xs s = Inr s" if "between_tags target a s" for s
    using plain that by (induction xs) (auto simp: scan_one_def between_tags_def)
  then show ?thesis by (auto simp: reads_def)
qed

lemma reads_tag:
  assumes "name \<noteq> []" "hd name \<notin> {CHR ''!'', CHR ''?''}" "set name \<inter> {CHR 0x27, CHR 0x22, CHR ''>''} = {}"
    "list_all attribute_ok as" "set e \<inter> {CHR 0x27, CHR 0x22, CHR ''>''} = {}"
    "\<And>s. sc_tag s = name @ attributes_xml as @ e @ ''>'' \<Longrightarrow> sc_package_id s = fst a \<Longrightarrow>
       \<exists>p. finish_tag L s = Inr (s\<lparr>sc_package_id := p\<rparr>) \<and> p = fst b"
    "snd b = snd a"
  shows "reads L target (''<'' @ (name @ attributes_xml as @ e) @ ''>'') a b"
  unfolding reads_def
proof (intro allI impI)
  fix s assume s: "between_tags target a s"
  define u where "u = s\<lparr>sc_quote := None, sc_state := LexTag, sc_tag := name @ attributes_xml as @ e @ ''>''\<rparr>"
  have "sc_state s = LexText" using s by (simp add: between_tags_def)
  note fold = fold_tag [OF this assms(1-5), of L, folded u_def]
  have "finish_tag L u = Inr (u\<lparr>sc_package_id := fst b\<rparr>)"
    using assms(6) [of u] s by (auto simp: u_def between_tags_def)
  with fold have "foldR (scan_one L) (''<'' @ (name @ attributes_xml as @ e) @ ''>'') s
    = Inr (u\<lparr>sc_package_id := fst b, sc_state := LexText\<rparr>)" by simp
  moreover have "between_tags target b (u\<lparr>sc_package_id := fst b, sc_state := LexText\<rparr>)"
    using s assms(7) by (simp add: between_tags_def u_def)
  ultimately show "\<exists>t. foldR (scan_one L) (''<'' @ (name @ attributes_xml as @ e) @ ''>'') s = Inr t \<and> between_tags target b t"
    by blast
qed

lemma package_id_same: "sc_package_id s = p \<Longrightarrow> s = s\<lparr>sc_package_id := p\<rparr>"
  by (cases s) simp

lemma strip_end [simp]: "(if ends_with (x @ ''>'') ''>'' then butlast (x @ ''>'') else x @ ''>'') = x"
  by simp

lemma attributes_xml_Cons: "attributes_xml (a # as) = CHR '' '' # fst a @ ''='' @ [CHR 0x22] @ snd a @ [CHR 0x22] @ attributes_xml as"
  by (simp add: attributes_xml_def attribute_xml_def)

lemma whitespace_space [simp]: "is_ascii_whitespace CHR '' ''"
  by (simp add: is_ascii_whitespace_def byte_of_def)

lemma finish_other_tag:
  assumes "sc_tag s = t @ ''>''" "\<not> tag_name t ''package''" "\<not> tag_name t ''file''" "\<not> starts_with t ''/''"
  shows "finish_tag L s = Inr s"
  unfolding finish_tag_def assms(1) strip_end Let_def using assms(2-4) by (simp add: strip_prefix_def)

lemma finish_package_tag:
  assumes "sc_tag s = (''package'' @ attributes_xml as) @ ''>''" "list_all attribute_ok as" "as \<noteq> []"
    "map_of as ''pkgid'' = Some v" "utf8_ok v" "xl_unescape L v = Inr w"
  shows "finish_tag L s = Inr (s\<lparr>sc_package_id := Some w\<rparr>)"
proof -
  obtain a as' where as: "as = a # as'" using assms(3) by (cases as) auto
  have "tag_name (''package'' @ attributes_xml as) ''package''"
    by (simp add: tag_name_def starts_with_def as attributes_xml_Cons)
  moreover have "\<not> is_ascii_whitespace c" if "c \<in> set ''package''" for c
    using that by (auto simp: is_ascii_whitespace_def byte_of_def)
  then have "dropWhile (\<lambda>c. \<not> is_ascii_whitespace c) (''package'' @ attributes_xml as) = attributes_xml as"
    by (simp add: dropWhile_append2 as attributes_xml_Cons)
  then have "required_raw_attribute L (''package'' @ attributes_xml as) ''pkgid'' = Inr w"
    using raw_attribute_loop_xml [OF assms(2), of L "''pkgid''"] assms(4-6)
    by (simp add: required_raw_attribute_def as attributes_xml_Cons)
  ultimately show ?thesis unfolding finish_tag_def assms(1) strip_end Let_def by simp
qed

lemma escape_no_tag: "CHR ''<'' \<notin> set (xml_escape f)"
  by (auto simp: xml_escape_def escape_byte_def split: if_splits)

text \<open>Up to its first ampersand an escaped text is the text itself.\<close>

lemma escape_before_amp:
  "takeWhile (\<lambda>c. c \<noteq> CHR ''&'') (xml_escape f) = takeWhile (\<lambda>c. c \<notin> {CHR ''&'', CHR ''<'', CHR ''>''}) f"
  by (induction f) (auto simp: xml_escape_def escape_byte_def)

lemma escape_plain: "CHR ''&'' \<notin> set (xml_escape f) \<Longrightarrow> xml_escape f = f"
  by (induction f) (auto simp: xml_escape_def escape_byte_def split: if_splits)

lemma get_range_prefix: "get_range 0 (length xs) t = Some xs \<longleftrightarrow> (\<exists>r. t = xs @ r)"
proof -
  have "take (length xs) t = xs \<Longrightarrow> t = xs @ drop (length xs) t" by (metis append_take_drop_id)
  then show ?thesis by (auto simp: get_range_def)
qed

text \<open>The comparison in the scanner decides whether the unescaped text is the target.\<close>

lemma file_matched_text:
  assumes "length (xml_escape f) \<le> 2 ^ 20" "utf8_ok (xml_escape f)" "xl_unescape L (xml_escape f) = Inr f"
  shows "file_matched L (file_text (xml_escape f) (begin_file s)) = Inr (f = sc_target s)"
proof -
  define w where "w = takeWhile (\<lambda>c. c \<noteq> CHR ''&'') (xml_escape f)"
  have split: "xml_escape f = w @ drop (length w) (xml_escape f)"
    unfolding w_def by (metis takeWhile_dropWhile_id dropWhile_eq_drop)
  have len: "unat (of_nat (length (xml_escape f)) :: u64) = length (xml_escape f)"
    using assms(1) by (simp add: unat_of_nat)
  show ?thesis
  proof (cases "\<exists>r. sc_target s = w @ r")
    case False
    then have "get_range 0 (length w) (sc_target s) \<noteq> Some w" by (simp add: get_range_prefix)
    then have "file_matched L (file_text (xml_escape f) (begin_file s)) = Inr False"
      by (simp add: file_matched_def file_text_def begin_file_def w_def [symmetric])
    moreover have "f \<noteq> sc_target s"
      using False escape_before_amp [of f] takeWhile_dropWhile_id by (metis w_def)
    ultimately show ?thesis by simp
  next
    case prefix: True
    then have range: "get_range 0 (length w) (sc_target s) = Some w" by (simp add: get_range_prefix)
    show ?thesis
    proof (cases "CHR ''&'' \<in> set (xml_escape f)")
      case True
      have "take (length w) (sc_target s) @ drop (length w) (xml_escape f) = xml_escape f"
        using prefix split by auto
      with True range assms(2,3) show ?thesis
        by (simp add: file_matched_def file_text_def begin_file_def w_def [symmetric])
    next
      case False
      note plain = escape_plain [OF False]
      have tw: "takeWhile (\<lambda>c. c \<noteq> CHR ''&'') f = f" using False unfolding plain by (rule takeWhile_absent)
      from prefix obtain r where "sc_target s = f @ r" by (auto simp: w_def plain tw)
      with False range len show ?thesis unfolding w_def plain tw
        by (simp add: file_matched_def file_text_def begin_file_def Let_def tw)
    qed
  qed
qed

definition scannable_file :: "xml_lib \<Rightarrow> string \<Rightarrow> bool" where
  "scannable_file L f \<longleftrightarrow> length (xml_escape f) \<le> 2 ^ 20 \<and> utf8_ok (xml_escape f) \<and> xl_unescape L (xml_escape f) = Inr f"

lemma fold_open_file: "sc_state s = LexText \<Longrightarrow> \<exists>t. foldR (scan_one L) ''<file>'' s = Inr ((begin_file (s\<lparr>sc_tag := t, sc_quote := None\<rparr>)))"
proof -
  assume s: "sc_state s = LexText"
  define u where "u = s\<lparr>sc_tag := [], sc_quote := None, sc_state := LexTag\<rparr>"
  have "scan_one L CHR ''<'' s = Inr u" using s by (simp add: scan_one_def u_def)
  then have "foldR (scan_one L) ''<file>'' s = foldR (scan_one L) ''file>'' u" by simp
  also have "\<dots> = Inr ((begin_file u)\<lparr>sc_tag := ''file>'', sc_state := LexText\<rparr>)"
    by (rule fold_scan_file_tag) (simp_all add: u_def)
  also have "(begin_file u)\<lparr>sc_tag := ''file>'', sc_state := LexText\<rparr> = begin_file (s\<lparr>sc_tag := ''file>'', sc_quote := None\<rparr>)"
    using s by (cases s) (simp add: u_def begin_file_def)
  finally show ?thesis by blast
qed

lemma fold_file_text:
  assumes "sc_state s = LexText" "sc_file_active s" "file_text [] s = s"
    "CHR ''<'' \<notin> set xs" "unat (sc_file_length s) + length xs \<le> 2 ^ 20"
  shows "foldR (scan_one L) xs s = Inr (file_text xs s)"
  using assms(4,5)
proof (induction xs rule: rev_induct)
  case (snoc x xs)
  have len: "unat (sc_file_length s + of_nat (length xs)) = unat (sc_file_length s) + length xs"
    using snoc.prems by (subst unat_add_fits) (simp_all add: unat_of_nat)
  have "scan_one L x (file_text xs s) = push_file_bytes [x] (file_text xs s)"
    using snoc.prems assms(1,2) by (auto simp: scan_one_def)
  also have "\<dots> = Inr (file_text [x] (file_text xs s))"
    using snoc.prems len by (simp add: push_file_bytes_iff)
  finally show ?case
    using snoc file_text_append [of s xs "[x]"] by (simp add: foldR_append)
qed (use assms(3) in simp)

lemma fold_close_file:
  assumes "sc_state s = LexText" "sc_file_active s" "sc_package_id s = Some p" "file_matched L s = Inr m"
  shows "foldR (scan_one L) ''</file>'' s = Inr (s\<lparr>sc_tag := ''/file>'', sc_quote := None,
    sc_providers := sc_providers s @ (if m then [p] else []), sc_file_active := False\<rparr>)"
proof -
  define u where "u = s\<lparr>sc_tag := [], sc_quote := None, sc_state := LexTag\<rparr>"
  have "file_matched L u = file_matched L s" by (simp add: file_matched_def u_def)
  with assms(4) have "file_matched L u = Inr m" by simp
  then have "end_file L u = Inr (u\<lparr>sc_providers := sc_providers s @ (if m then [p] else []), sc_file_active := False\<rparr>)"
    using assms by (cases s) (simp add: end_file_def u_def)
  moreover have "foldR (scan_one L) ''</file>'' s = foldR (scan_one L) ''/file>'' u"
    using assms by (simp add: scan_one_def u_def)
  ultimately show ?thesis
    using assms fold_scan_file_end_tag [of u L] by (cases s) (simp add: u_def)
qed

lemma reads_file:
  assumes "scannable_file L f"
  shows "reads L target (file_xml f) (Some p, P) (Some p, P @ (if f = target then [p] else []))"
proof -
  have "reads L target (''<file>'' @ xml_escape f @ ''</file>'') (Some p, P) (Some p, P @ (if f = target then [p] else []))"
    unfolding reads_def
  proof (intro allI impI)
    fix s assume s: "between_tags target (Some p, P) s"
    then obtain t where first: "foldR (scan_one L) ''<file>'' s = Inr (begin_file (s\<lparr>sc_tag := t, sc_quote := None\<rparr>))"
      using fold_open_file [of s L] by (auto simp: between_tags_def)
    define b where "b = begin_file (s\<lparr>sc_tag := t, sc_quote := None\<rparr>)"
    have b: "sc_state b = LexText" "sc_file_active b" "sc_file_length b = 0" "sc_target b = target"
      "sc_package_id b = Some p" "sc_providers b = P" "file_text [] b = b"
      using s by (simp_all add: b_def begin_file_def between_tags_def file_text_def get_range_def)
    have read: "foldR (scan_one L) (xml_escape f) b = Inr (file_text (xml_escape f) b)"
      using assms b by (intro fold_file_text) (simp_all add: escape_no_tag scannable_file_def)
    have "file_matched L (file_text (xml_escape f) b) = Inr (f = target)"
      using file_matched_text [of f L "s\<lparr>sc_tag := t, sc_quote := None\<rparr>"] assms s
      by (simp add: b_def scannable_file_def between_tags_def)
    note close = fold_close_file [OF _ _ _ this, of p]
    show "\<exists>t. foldR (scan_one L) (''<file>'' @ xml_escape f @ ''</file>'') s = Inr t \<and>
      between_tags target (Some p, P @ (if f = target then [p] else [])) t"
      unfolding foldR_append first b_def [symmetric] bindR_Inr read using close b by (simp add: between_tags_def)
  qed
  then have "reads L target ((''<file>'' @ xml_escape f @ ''</file>'') @ [CHR 0x0A]) (Some p, P)
    (Some p, P @ (if f = target then [p] else []))"
    by (rule reads_append) (rule reads_text, simp)
  then show ?thesis by (simp add: file_xml_def)
qed

lemma reads_files:
  assumes "list_all (scannable_file L) fs"
  shows "reads L target (concat (map file_xml fs)) (Some p, P) (Some p, P @ map (\<lambda>_. p) (filter ((=) target) fs))"
  using assms
proof (induction fs arbitrary: P)
  case (Cons f fs)
  have "reads L target (file_xml f @ concat (map file_xml fs)) (Some p, P)
    (Some p, (P @ (if f = target then [p] else [])) @ map (\<lambda>_. p) (filter ((=) target) fs))"
    using Cons.prems by (intro reads_append [OF reads_file] Cons.IH) simp_all
  then show ?case by (auto split: if_splits)
qed (simp add: reads_Nil)

text \<open>
  Packages whose identifiers are digests and whose other attributes have no quote, and whose files the document can hold: the
  escaped path within the limit of a text, well-formed, and read back by the unescaping.
\<close>

definition scannable :: "xml_lib \<Rightarrow> file_list_package \<Rightarrow> bool" where
  "scannable L p \<longleftrightarrow> list_all is_lower_hex (fp_package_id p) \<and> fp_package_id p \<noteq> [] \<and>
     list_all (\<lambda>v. CHR 0x22 \<notin> set v) [fp_name p, fp_arch p, fp_epoch p, fp_version p, fp_release p] \<and>
     list_all (scannable_file L) (fp_files p)"

lemma lower_hex_plain: "is_lower_hex c \<Longrightarrow> c \<noteq> CHR 0x22 \<and> c \<noteq> CHR ''&'' \<and> between 0 0x7F c"
  by (auto simp: is_lower_hex_def ascii_defs between_def)

lemma reads_package_tag:
  assumes "scannable L p" "unescape_plain (xl_unescape L)"
  shows "reads L target (''<'' @ package_tag p @ ''>'') (None, P) (Some (fp_package_id p), P)"
proof -
  have "list_all (between 0 0x7F) (fp_package_id p)"
    using assms(1) lower_hex_plain by (auto simp: scannable_def list_all_iff)
  moreover have id: "CHR 0x22 \<notin> set (fp_package_id p)" "CHR ''&'' \<notin> set (fp_package_id p)"
    using assms(1) lower_hex_plain by (auto simp: scannable_def list_all_iff)
  ultimately have id: "CHR 0x22 \<notin> set (fp_package_id p)" "CHR ''&'' \<notin> set (fp_package_id p)"
    "utf8_ok (fp_package_id p)" "xl_unescape L (fp_package_id p) = Inr (fp_package_id p)"
    using assms(2) ascii_utf8 by (simp_all add: unescape_plain_def)
  define as where "as = [(''pkgid'', fp_package_id p), (''name'', fp_name p), (''arch'', fp_arch p)]"
  have as: "list_all attribute_ok as"
    using id(1) assms(1) by (auto simp: as_def scannable_def attribute_ok_def ascii_defs)
  have "finish_tag L s = Inr (s\<lparr>sc_package_id := Some (fp_package_id p)\<rparr>)"
    if "sc_tag s = ''package'' @ attributes_xml as @ [] @ ''>''" for s
    using that by (intro finish_package_tag [OF _ as _ _ id(3) id(4)]) (simp_all add: as_def)
  then have "reads L target (''<'' @ (''package'' @ attributes_xml as @ []) @ ''>'') (None, P) (Some (fp_package_id p), P)"
    using as by (intro reads_tag) auto
  then show ?thesis by (simp add: package_tag_def as_def)
qed

lemma reads_version_tag:
  assumes "scannable L p"
  shows "reads L target (''<'' @ version_tag p @ ''>'') a a"
proof -
  define as where "as = [(''epoch'', fp_epoch p), (''ver'', fp_version p), (''rel'', fp_release p)]"
  have as: "list_all attribute_ok as"
    using assms(1) by (auto simp: as_def scannable_def attribute_ok_def ascii_defs)
  have "finish_tag L s = Inr s" if "sc_tag s = ''version'' @ attributes_xml as @ ''/'' @ ''>''" for s
    using that by (intro finish_other_tag [of _ "''version'' @ attributes_xml as @ ''/''"]) (simp_all add: tag_name_def starts_with_def)
  then have "reads L target (''<'' @ (''version'' @ attributes_xml as @ ''/'') @ ''>'') a a"
    using as package_id_same by (intro reads_tag) auto
  then show ?thesis by (simp add: version_tag_def as_def)
qed

lemma reads_root_tag: "reads L target (''<'' @ root_tag n @ ''>'') a a"
proof -
  define as where "as = [(''xmlns'', FILELISTS_NS), (''packages'', show_nat n)]"
  have "CHR 0x22 \<notin> set (show_nat n)" using show_nat_digits [of n] by (auto simp: list_all_iff ascii_defs)
  then have as: "list_all attribute_ok as"
    by (auto simp: as_def attribute_ok_def ascii_defs FILELISTS_NS_def)
  have "finish_tag L s = Inr s" if "sc_tag s = ''filelists'' @ attributes_xml as @ [] @ ''>''" for s
    using that by (intro finish_other_tag [of _ "''filelists'' @ attributes_xml as"])
      (simp_all add: tag_name_def starts_with_def is_ascii_whitespace_def byte_of_def)
  then have "reads L target (''<'' @ (''filelists'' @ attributes_xml as @ []) @ ''>'') a a"
    using as package_id_same by (intro reads_tag) auto
  then show ?thesis by (simp add: root_tag_def as_def)
qed

lemma reads_package_end: "reads L target ''</package>'' (q, P) (None, P)"
proof -
  have "finish_tag L s = Inr (s\<lparr>sc_package_id := None\<rparr>)" if "sc_tag s = ''/package'' @ attributes_xml [] @ [] @ ''>''" for s
    using that by (simp add: attributes_xml_def finish_tag_def tag_name_def starts_with_def strip_prefix_def ends_with_def)
  then have "reads L target (''<'' @ (''/package'' @ attributes_xml [] @ []) @ ''>'') (q, P) (None, P)"
    by (intro reads_tag) auto
  then show ?thesis by (simp add: attributes_xml_def)
qed

lemma reads_root_end: "reads L target ''</filelists>'' a a"
proof -
  have "finish_tag L s = Inr s" if "sc_tag s = ''/filelists'' @ attributes_xml [] @ [] @ ''>''" for s
    using that by (simp add: attributes_xml_def finish_tag_def tag_name_def starts_with_def strip_prefix_def ends_with_def
      is_ascii_whitespace_def byte_of_def)
  then have "reads L target (''<'' @ (''/filelists'' @ attributes_xml [] @ []) @ ''>'') a a"
    using package_id_same by (intro reads_tag) auto
  then show ?thesis by (simp add: attributes_xml_def)
qed

lemma reads_instruction: "CHR ''>'' \<notin> set t \<Longrightarrow> reads L target (''<?'' @ t @ ''?>'') a a"
  using fold_instruction by (auto simp: reads_def between_tags_def)

lemma reads_newline: "reads L target [CHR 0x0A] a a"
  by (rule reads_text) simp

lemma reads_package:
  assumes "scannable L p" "unescape_plain (xl_unescape L)"
  shows "reads L target (package_xml p) (None, P) (None, P @ map (\<lambda>_. fp_package_id p) (filter ((=) target) (fp_files p)))"
proof -
  have files: "list_all (scannable_file L) (fp_files p)" using assms(1) by (simp add: scannable_def)
  have "reads L target ((''<'' @ package_tag p @ ''>'') @ [CHR 0x0A] @ (''<'' @ version_tag p @ ''>'') @ [CHR 0x0A]
    @ concat (map file_xml (fp_files p)) @ ''</package>'' @ [CHR 0x0A]) (None, P)
    (None, P @ map (\<lambda>_. fp_package_id p) (filter ((=) target) (fp_files p)))"
    by (rule reads_append [OF reads_package_tag [OF assms]] reads_append [OF reads_newline]
      reads_append [OF reads_version_tag [OF assms(1)]] reads_append [OF reads_files [OF files]]
      reads_append [OF reads_package_end] reads_newline)+
  then show ?thesis by (simp add: package_xml_def)
qed

lemma reads_packages:
  assumes "list_all (scannable L) ps" "unescape_plain (xl_unescape L)"
  shows "reads L target (concat (map package_xml ps)) (None, P)
    (None, P @ concat (map (\<lambda>p. map (\<lambda>_. fp_package_id p) (filter ((=) target) (fp_files p))) ps))"
  using assms(1)
proof (induction ps arbitrary: P)
  case (Cons p ps)
  have "reads L target (package_xml p @ concat (map package_xml ps)) (None, P)
    (None, (P @ map (\<lambda>_. fp_package_id p) (filter ((=) target) (fp_files p)))
       @ concat (map (\<lambda>p. map (\<lambda>_. fp_package_id p) (filter ((=) target) (fp_files p))) ps))"
    using Cons.prems assms(2) by (intro reads_append [OF reads_package] Cons.IH) simp_all
  then show ?case by simp
qed (simp add: reads_Nil)

lemma reads_filelists:
  assumes "list_all (scannable L) ps" "unescape_plain (xl_unescape L)"
  shows "reads L target (filelists_xml ps) (None, [])
    (None, concat (map (\<lambda>p. map (\<lambda>_. fp_package_id p) (filter ((=) target) (fp_files p))) ps))"
proof -
  define header where "header = ''xml version='' @ [CHR 0x22] @ ''1.0'' @ [CHR 0x22]"
  have first: "reads L target (''<?'' @ header @ ''?>'') a a" for a by (rule reads_instruction) (simp add: header_def)
  have "reads L target ((''<?'' @ header @ ''?>'') @ [CHR 0x0A] @ (''<'' @ root_tag (length ps) @ ''>'') @ [CHR 0x0A]
    @ concat (map package_xml ps) @ ''</filelists>'' @ [CHR 0x0A]) (None, [])
    (None, [] @ concat (map (\<lambda>p. map (\<lambda>_. fp_package_id p) (filter ((=) target) (fp_files p))) ps))"
    by (rule reads_append [OF first] reads_append [OF reads_newline] reads_append [OF reads_root_tag]
      reads_append [OF reads_packages [OF assms]] reads_append [OF reads_root_end] reads_newline)+
  then show ?thesis by (simp add: filelists_xml_def header_def)
qed

lemma scan_filelists:
  assumes "[] \<notin> set pieces" "concat pieces = filelists_xml ps" "list_all (scannable L) ps" "unescape_plain (xl_unescape L)"
  shows "scan_validated_filelists_xml_path L (map Inr pieces) target =
    Inr (sort_dedup (map fp_package_id (filter (\<lambda>p. target \<in> set (fp_files p)) ps)))"
proof -
  define found where "found = concat (map (\<lambda>p. map (\<lambda>_. fp_package_id p) (filter ((=) target) (fp_files p))) ps)"
  have "between_tags target (None, []) (scanner_new target)" by (simp add: between_tags_def scanner_new_def)
  then obtain s where s: "foldR (scan_one L) (filelists_xml ps) (scanner_new target) = Inr s" "between_tags target (None, found) s"
    using reads_filelists [OF assms(3,4), of target] unfolding reads_def found_def by blast
  have "set found = set (map fp_package_id (filter (\<lambda>p. target \<in> set (fp_files p)) ps))"
    by (auto simp: found_def)
  then have "sort_dedup found = sort_dedup (map fp_package_id (filter (\<lambda>p. target \<in> set (fp_files p)) ps))"
    using sort_dedup_unique [OF sorted_wrt_sort_dedup, of "map fp_package_id (filter (\<lambda>p. target \<in> set (fp_files p)) ps)"] by simp
  with s(2) have "scanner_finish s = Inr (sort_dedup (map fp_package_id (filter (\<lambda>p. target \<in> set (fp_files p)) ps)))"
    by (simp add: scanner_finish_def between_tags_def)
  then show ?thesis using s(1) assms(2) by (simp add: scan_bytes_iff [OF assms(1)])
qed

text \<open>
  Property C18. The scanner gives the same answer however the document is cut into pieces: the shortcuts over whole texts and whole tags,
  the partial comparison with the target and the early end of a comparison do not depend on where a read ends, and the answer is the
  one of the lexer that takes one byte at a time.
\<close>

theorem scan_pieces_irrelevant:
  assumes "[] \<notin> set pieces"
  shows "scan_validated_filelists_xml_path L (map Inr pieces) target = Inr owners \<longleftrightarrow>
    (\<exists>s. foldR (scan_one L) (concat pieces) (scanner_new target) = Inr s \<and> scanner_finish s = Inr owners)"
  using assms by (rule scan_bytes_iff)

text \<open>A stand-in for the library: it reads the given events, and unescapes the ampersand.\<close>

fun amp_unescape :: "string \<Rightarrow> string" where
  "amp_unescape [] = []"
| "amp_unescape (c # cs) = c # amp_unescape (if c = CHR ''&'' \<and> starts_with cs ''amp;'' then drop 4 cs else cs)"

definition scan_lib :: "xml_event list \<Rightarrow> xml_lib" where
  "scan_lib events = \<lparr>xl_read = (\<lambda>_ _. events), xl_unescape = (\<lambda>s. Inr (amp_unescape s)), xl_utf8_error = (\<lambda>_. [])\<rparr>"

lemma amp_unescape_plain: "CHR ''&'' \<notin> set s \<Longrightarrow> amp_unescape s = s"
  by (induction s) auto

lemma scan_lib_plain: "unescape_plain (xl_unescape (scan_lib events))"
  by (simp add: unescape_plain_def scan_lib_def amp_unescape_plain)

definition cut_pieces :: "bytes list" where
  "cut_pieces = [''<package pkgid='' @ [CHR 0x22] @ ''ab'' @ [CHR 0x22] @ ''><fi'', ''le>/a&am'', ''p;b</'', ''file></package>'']"

theorem scan_pieces_irrelevant_witness:
  "scan_validated_filelists_xml_path (scan_lib []) (map Inr cut_pieces) ''/a&b'' = Inr [''ab'']"
proof -
  define m where "m = foldR (scan_one (scan_lib [])) (concat cut_pieces) (scanner_new ''/a&b'')"
  have "bindR m scanner_finish = Inr [''ab'']" unfolding m_def by code_simp
  moreover have "[] \<notin> set cut_pieces" by code_simp
  ultimately show ?thesis
    using scan_pieces_irrelevant [of cut_pieces "scan_lib []" "''/a&b''" "[''ab'']"] unfolding m_def by (simp add: bindR_eq_Inr)
qed

text \<open>
  Property C17. On a document of file lists, read in any pieces, the scanner returns the identifiers of exactly the packages that list
  the target, sorted and without repetitions; a path with escaped characters is found by its unescaped name. Of the unescaping it is
  assumed that it keeps a text without an ampersand and reads the escaped paths of the document back.
\<close>

theorem scan_finds_owners:
  assumes "[] \<notin> set pieces" "concat pieces = filelists_xml ps" "list_all (scannable L) ps" "unescape_plain (xl_unescape L)"
  shows "scan_validated_filelists_xml_path L (map Inr pieces) target =
    Inr (sort_dedup (map fp_package_id (filter (\<lambda>p. target \<in> set (fp_files p)) ps)))"
  using assms by (rule scan_filelists)

definition demo_filelists :: "file_list_package list" where
  "demo_filelists =
     [\<lparr>fp_package_id = ''0b'', fp_name = ''b'', fp_arch = ''noarch'', fp_epoch = ''0'', fp_version = ''1'', fp_release = ''2'',
       fp_files = [''/etc/a&b'', ''/etc/c'']\<rparr>,
      \<lparr>fp_package_id = ''0a'', fp_name = ''a'', fp_arch = ''noarch'', fp_epoch = ''0'', fp_version = ''1'', fp_release = ''1'',
       fp_files = [''/etc/c'']\<rparr>]"

theorem scan_finds_owners_witness:
  "scan_validated_filelists_xml_path (scan_lib []) (map Inr [take 100 (filelists_xml demo_filelists), drop 100 (filelists_xml demo_filelists)])
     ''/etc/c'' = Inr [''0a'', ''0b'']"
proof -
  have "[] \<notin> set [take 100 (filelists_xml demo_filelists), drop 100 (filelists_xml demo_filelists)]" by code_simp
  moreover have "list_all (scannable (scan_lib [])) demo_filelists" by code_simp
  moreover have "sort_dedup (map fp_package_id (filter (\<lambda>p. ''/etc/c'' \<in> set (fp_files p)) demo_filelists)) = [''0a'', ''0b'']"
    by code_simp
  ultimately show ?thesis
    using scan_finds_owners [of "[take 100 (filelists_xml demo_filelists), drop 100 (filelists_xml demo_filelists)]"
      demo_filelists "scan_lib []" "''/etc/c''"] scan_lib_plain by simp
qed

section \<open>Character data\<close>

text \<open>A package with character data that contains the text of a file element.\<close>

definition cdata_document :: bytes where
  "cdata_document = ''<filelists xmlns='' @ [CHR 0x22] @ FILELISTS_NS @ [CHR 0x22] @ '' packages='' @ [CHR 0x22] @ ''1'' @ [CHR 0x22] @ ''>''
     @ ''<package pkgid='' @ [CHR 0x22] @ ''ab'' @ [CHR 0x22] @ '' name='' @ [CHR 0x22] @ ''n'' @ [CHR 0x22]
     @ '' arch='' @ [CHR 0x22] @ ''noarch'' @ [CHR 0x22] @ ''><version ver='' @ [CHR 0x22] @ ''1'' @ [CHR 0x22]
     @ '' rel='' @ [CHR 0x22] @ ''1'' @ [CHR 0x22] @ ''/>''
     @ ''<![CDATA[><file>/etc/shadow</file>]]></package></filelists>''"

definition cdata_events :: "xml_event list" where
  "cdata_events =
     [XStart NsUnbound (tag_of ''filelists'' [(''xmlns'', FILELISTS_NS), (''packages'', ''1'')]),
      XStart NsUnbound (tag_of ''package'' [(''pkgid'', ''ab''), (''name'', ''n''), (''arch'', ''noarch'')]),
      XEmpty NsUnbound (tag_of ''version'' [(''ver'', ''1''), (''rel'', ''1'')]),
      XCData (Inr ''><file>/etc/shadow</file>''), XEnd ''package'', XEnd ''filelists'']"

text \<open>
  The reader that validates the file lists skips character data, the scanner that trusts the validation does not know it: for
  a package whose character data contains a file element the validated package has no file, and the scanner returns it as the
  owner of the path in the character data.
\<close>

theorem scan_reads_character_data:
  "(\<exists>p. parse_filelists (scan_lib cdata_events) cdata_document = Inr [p] \<and> fp_package_id p = ''ab'' \<and> fp_files p = []) \<and>
   scan_validated_filelists_xml_path (scan_lib cdata_events) [Inr cdata_document] ''/etc/shadow'' = Inr [''ab'']"
proof -
  have "map_sum id (map (\<lambda>p. (fp_package_id p, fp_files p))) (parse_filelists (scan_lib cdata_events) cdata_document) = Inr [(''ab'', [])]"
    by code_simp
  then have "\<exists>p. parse_filelists (scan_lib cdata_events) cdata_document = Inr [p] \<and> fp_package_id p = ''ab'' \<and> fp_files p = []"
    by (cases "parse_filelists (scan_lib cdata_events) cdata_document") (auto simp: Cons_eq_map_conv)
  moreover have "scan_validated_filelists_xml_path (scan_lib cdata_events) [Inr cdata_document] ''/etc/shadow'' = Inr [''ab'']"
    by code_simp
  ultimately show ?thesis by blast
qed

end
