(* ===== verification/Metadata_Comps.thy ===== *)
theory Metadata_Comps
  imports Metadata_Xml
begin

text \<open>
  \<^verbatim>\<open>crates/dnfast-metadata/src/comps.rs\<close>: package groups and environments. The reader keeps the stack of open elements, the
  group or environment being read and the text of the innermost element that has a meaning; it is a fold of a step over the
  events of the document.
\<close>

section \<open>Data\<close>

definition MAX_COMPS_GROUPS :: u64 where "MAX_COMPS_GROUPS = 100000"
definition MAX_COMPS_ENVIRONMENTS :: u64 where "MAX_COMPS_ENVIRONMENTS = 10000"
definition MAX_COMPS_PACKAGES :: u64 where "MAX_COMPS_PACKAGES = 2000000"
definition MAX_COMPS_PACKAGES_PER_GROUP :: u64 where "MAX_COMPS_PACKAGES_PER_GROUP = 100000"
definition MAX_COMPS_GROUPS_PER_ENVIRONMENT :: u64 where "MAX_COMPS_GROUPS_PER_ENVIRONMENT = 100000"
definition MAX_COMPS_TEXT_BYTES :: u64 where "MAX_COMPS_TEXT_BYTES = 1048576"
definition MAX_COMPS_DEPTH :: nat where "MAX_COMPS_DEPTH = 64"

datatype comps_package_type = KMandatory | KDefault | KOptional | KConditional

record comps_package =
  gp_name :: string
  gp_kind :: comps_package_type
  gp_condition :: "string option"

record comps_group =
  cg_id :: string
  cg_name :: string
  cg_description :: string
  cg_default :: bool
  cg_user_visible :: bool
  cg_packages :: "comps_package list"

record comps_environment =
  ce_id :: string
  ce_name :: string
  ce_description :: string
  ce_groups :: "string list"
  ce_optional_groups :: "string list"

record comps =
  co_groups :: "comps_group list"
  co_environments :: "comps_environment list"

record group_builder =
  gb_id :: string
  gb_name :: string
  gb_description :: string
  gb_default :: "bool option"
  gb_user_visible :: "bool option"
  gb_packages :: "comps_package list"

definition default_group_builder :: group_builder where
  "default_group_builder = \<lparr>gb_id = [], gb_name = [], gb_description = [], gb_default = None, gb_user_visible = None, gb_packages = []\<rparr>"

text \<open>The builder of an environment has the fields of the environment.\<close>

definition default_environment_builder :: comps_environment where
  "default_environment_builder = \<lparr>ce_id = [], ce_name = [], ce_description = [], ce_groups = [], ce_optional_groups = []\<rparr>"

datatype comps_target =
    TGroupId
  | TGroupName
  | TGroupDescription
  | TGroupDefault
  | TGroupVisible
  | TPackage comps_package_type "string option"
  | TEnvironmentId
  | TEnvironmentName
  | TEnvironmentDescription
  | TEnvironmentGroup bool

record comps_state =
  cs_stack :: "string list"
  cs_groups :: "comps_group list"
  cs_environments :: "comps_environment list"
  cs_group :: "group_builder option"
  cs_environment :: "comps_environment option"
  cs_text :: "(comps_target \<times> string) option"
  cs_declaration_seen :: bool
  cs_doctype_seen :: bool
  cs_root_closed :: bool

definition default_comps_state :: comps_state where
  "default_comps_state = \<lparr>cs_stack = [], cs_groups = [], cs_environments = [], cs_group = None, cs_environment = None,
     cs_text = None, cs_declaration_seen = False, cs_doctype_seen = False, cs_root_closed = False\<rparr>"

section \<open>Checks\<close>

definition checked_len :: "'a list \<Rightarrow> u64 \<Rightarrow> string \<Rightarrow> (metadata_error, unit) result" where
  "checked_len xs maximum kind = bindR (checked_limit (len_u64 xs) maximum kind) (\<lambda>_. Inr ())"

definition validate_text :: "string \<Rightarrow> string \<Rightarrow> (metadata_error, unit) result" where
  "validate_text v kind = (if v = [] \<or> has_control v then Inl (MdXml (''invalid '' @ kind)) else Inr ())"

definition validate_identifier :: "string \<Rightarrow> string \<Rightarrow> (metadata_error, unit) result" where
  "validate_identifier v kind =
     bindR (validate_text v kind) (\<lambda>_. if has_whitespace v then Inl (MdXml (''invalid '' @ kind)) else Inr ())"

definition comps_reject_prefixed :: "string \<Rightarrow> (metadata_error, unit) result" where
  "comps_reject_prefixed name =
     (if CHR '':'' \<in> set name then Inl (MdXml ''unexpected comps namespace prefix'') else Inr ())"

text \<open>\<^verbatim>\<open>set_once\<close> and \<^verbatim>\<open>set_bool\<close> return the new value of their target.\<close>

definition set_once :: "string \<Rightarrow> string \<Rightarrow> string \<Rightarrow> (metadata_error, string) result" where
  "set_once current v kind =
     (if current \<noteq> [] then Inl (MdXml (''duplicate '' @ kind)) else bindR (validate_text v kind) (\<lambda>_. Inr v))"

definition set_bool :: "bool option \<Rightarrow> string \<Rightarrow> string \<Rightarrow> (metadata_error, bool option) result" where
  "set_bool current v kind =
     (if current \<noteq> None then Inl (MdXml (''duplicate '' @ kind))
      else if v = ''true'' then Inr (Some True)
      else if v = ''false'' then Inr (Some False)
      else Inl (MdXml (''invalid '' @ kind)))"

fun reject_duplicate_ids :: "string option \<Rightarrow> string list \<Rightarrow> string \<Rightarrow> (metadata_error, unit) result" where
  "reject_duplicate_ids previous [] kind = Inr ()"
| "reject_duplicate_ids previous (v # vs) kind =
     (if previous = Some v then Inl (MdXml (''duplicate '' @ kind @ '' id'')) else reject_duplicate_ids (Some v) vs kind)"

definition required_group :: "group_builder option \<Rightarrow> (metadata_error, group_builder) result" where
  "required_group g = ok_or (MdXml ''group field outside group'') g"

definition required_environment :: "comps_environment option \<Rightarrow> (metadata_error, comps_environment) result" where
  "required_environment e = ok_or (MdXml ''environment field outside environment'') e"

section \<open>Groups and environments\<close>

definition comps_kind_rank :: "comps_package_type \<Rightarrow> nat" where
  "comps_kind_rank k = (case k of KMandatory \<Rightarrow> 0 | KDefault \<Rightarrow> 1 | KOptional \<Rightarrow> 2 | KConditional \<Rightarrow> 3)"

text \<open>The order of the packages of a group: kind, name, condition, where no condition comes before any.\<close>

definition comps_package_key :: "comps_package \<Rightarrow> nat \<times> string \<times> string list" where
  "comps_package_key p = (comps_kind_rank (gp_kind p), gp_name p, (case gp_condition p of None \<Rightarrow> [] | Some c \<Rightarrow> [c]))"

definition finish_group :: "group_builder \<Rightarrow> (metadata_error, comps_group) result" where
  "finish_group b =
     bindR (validate_identifier (gb_id b) ''group id'') (\<lambda>_.
     bindR (validate_text (gb_name b) ''group name'') (\<lambda>_.
     let packages = sort_key comps_package_key (gb_packages b) in
     if \<not> distinct (map gp_name packages) then Inl (MdXml ''duplicate package in comps group'')
     else
       Inr \<lparr>cg_id = gb_id b, cg_name = gb_name b, cg_description = gb_description b,
         cg_default = (case gb_default b of None \<Rightarrow> False | Some v \<Rightarrow> v),
         cg_user_visible = (case gb_user_visible b of None \<Rightarrow> True | Some v \<Rightarrow> v), cg_packages = packages\<rparr>))"

definition finish_environment :: "comps_environment \<Rightarrow> (metadata_error, comps_environment) result" where
  "finish_environment b =
     bindR (validate_identifier (ce_id b) ''environment id'') (\<lambda>_.
     bindR (validate_text (ce_name b) ''environment name'') (\<lambda>_.
     let groups = sort (ce_groups b); optional_groups = sort (ce_optional_groups b) in
     if any_window (=) groups \<or> any_window (=) optional_groups \<or> list_ex (binary_search_is_ok optional_groups) groups
     then Inl (MdXml ''duplicate group in comps environment'')
     else Inr (b\<lparr>ce_groups := groups, ce_optional_groups := optional_groups\<rparr>)))"

section \<open>Texts\<close>

definition package_type_of :: "string \<Rightarrow> (metadata_error, comps_package_type) result" where
  "package_type_of kind =
     (if kind = ''mandatory'' then Inr KMandatory
      else if kind = ''default'' then Inr KDefault
      else if kind = ''optional'' then Inr KOptional
      else if kind = ''conditional'' then Inr KConditional
      else Inl (MdXml ''unsupported comps package type''))"

definition package_target :: "xml_tag \<Rightarrow> (metadata_error, comps_target option) result" where
  "package_target t =
     bindR (attribute_streaming (xt_attributes t) ''type'') (\<lambda>kind.
     bindR (ok_or (MdXml ''missing required comps attribute'') kind) (\<lambda>kind.
     bindR (package_type_of kind) (\<lambda>kind.
     bindR (attribute_streaming (xt_attributes t) ''requires'') (\<lambda>condition.
     if kind = KConditional \<and> condition = None then Inl (MdXml ''conditional comps package has no requires attribute'')
     else if kind \<noteq> KConditional \<and> condition \<noteq> None
     then Inl (MdXml ''non-conditional comps package has a requires attribute'')
     else Inr (Some (TPackage kind condition))))))"

fun collect_keys :: "xml_attribute list \<Rightarrow> (metadata_error, string list) result" where
  "collect_keys [] = Inr []"
| "collect_keys (Inl e # rest) = Inl (MdXml e)"
| "collect_keys (Inr (k, _) # rest) = bindR (collect_keys rest) (\<lambda>ks. Inr (k # ks))"

definition text_target ::
  "xml_tag \<Rightarrow> string option \<Rightarrow> bool \<Rightarrow> bool \<Rightarrow> (metadata_error, comps_target option) result" where
  "text_target t parent in_group in_environment =
     bindR (collect_keys (xt_attributes t)) (\<lambda>keys.
     let translated = ''xml:lang'' \<in> set keys; name = xt_name t in
     if in_group then
       if parent = Some ''group'' \<and> name = ''id'' then Inr (Some TGroupId)
       else if parent = Some ''group'' \<and> name = ''name'' \<and> \<not> translated then Inr (Some TGroupName)
       else if parent = Some ''group'' \<and> name = ''description'' \<and> \<not> translated then Inr (Some TGroupDescription)
       else if parent = Some ''group'' \<and> name = ''default'' then Inr (Some TGroupDefault)
       else if parent = Some ''group'' \<and> name = ''uservisible'' then Inr (Some TGroupVisible)
       else if parent = Some ''packagelist'' \<and> name = ''packagereq'' then package_target t
       else Inr None
     else if in_environment then
       if parent = Some ''environment'' \<and> name = ''id'' then Inr (Some TEnvironmentId)
       else if parent = Some ''environment'' \<and> name = ''name'' \<and> \<not> translated then Inr (Some TEnvironmentName)
       else if parent = Some ''environment'' \<and> name = ''description'' \<and> \<not> translated then Inr (Some TEnvironmentDescription)
       else if parent = Some ''grouplist'' \<and> name = ''groupid'' then Inr (Some (TEnvironmentGroup False))
       else if parent = Some ''optionlist'' \<and> name = ''groupid'' then Inr (Some (TEnvironmentGroup True))
       else Inr None
     else Inr None)"

fun finish_comps_text :: "comps_target \<Rightarrow> string \<Rightarrow> comps_state \<Rightarrow> (metadata_error, comps_state) result" where
  "finish_comps_text TGroupId v s =
     bindR (required_group (cs_group s)) (\<lambda>g. bindR (set_once (gb_id g) v ''group id'') (\<lambda>x. Inr (s\<lparr>cs_group := Some (g\<lparr>gb_id := x\<rparr>)\<rparr>)))"
| "finish_comps_text TGroupName v s =
     bindR (required_group (cs_group s)) (\<lambda>g.
     bindR (set_once (gb_name g) v ''group name'') (\<lambda>x. Inr (s\<lparr>cs_group := Some (g\<lparr>gb_name := x\<rparr>)\<rparr>)))"
| "finish_comps_text TGroupDescription v s =
     bindR (required_group (cs_group s)) (\<lambda>g.
     bindR (set_once (gb_description g) v ''group description'') (\<lambda>x. Inr (s\<lparr>cs_group := Some (g\<lparr>gb_description := x\<rparr>)\<rparr>)))"
| "finish_comps_text TGroupDefault v s =
     bindR (required_group (cs_group s)) (\<lambda>g.
     bindR (set_bool (gb_default g) v ''group default'') (\<lambda>x. Inr (s\<lparr>cs_group := Some (g\<lparr>gb_default := x\<rparr>)\<rparr>)))"
| "finish_comps_text TGroupVisible v s =
     bindR (required_group (cs_group s)) (\<lambda>g.
     bindR (set_bool (gb_user_visible g) v ''group uservisible'') (\<lambda>x. Inr (s\<lparr>cs_group := Some (g\<lparr>gb_user_visible := x\<rparr>)\<rparr>)))"
| "finish_comps_text (TPackage kind condition) v s =
     bindR (validate_identifier v ''package name'') (\<lambda>_.
     bindR (case condition of None \<Rightarrow> Inr () | Some c \<Rightarrow> validate_identifier c ''conditional package requirement'') (\<lambda>_.
     bindR (required_group (cs_group s)) (\<lambda>g.
     let packages = gb_packages g @ [\<lparr>gp_name = v, gp_kind = kind, gp_condition = condition\<rparr>] in
     bindR (checked_len packages MAX_COMPS_PACKAGES_PER_GROUP ''packages per comps group'') (\<lambda>_.
       Inr (s\<lparr>cs_group := Some (g\<lparr>gb_packages := packages\<rparr>)\<rparr>)))))"
| "finish_comps_text TEnvironmentId v s =
     bindR (required_environment (cs_environment s)) (\<lambda>e.
     bindR (set_once (ce_id e) v ''environment id'') (\<lambda>x. Inr (s\<lparr>cs_environment := Some (e\<lparr>ce_id := x\<rparr>)\<rparr>)))"
| "finish_comps_text TEnvironmentName v s =
     bindR (required_environment (cs_environment s)) (\<lambda>e.
     bindR (set_once (ce_name e) v ''environment name'') (\<lambda>x. Inr (s\<lparr>cs_environment := Some (e\<lparr>ce_name := x\<rparr>)\<rparr>)))"
| "finish_comps_text TEnvironmentDescription v s =
     bindR (required_environment (cs_environment s)) (\<lambda>e.
     bindR (set_once (ce_description e) v ''environment description'') (\<lambda>x. Inr (s\<lparr>cs_environment := Some (e\<lparr>ce_description := x\<rparr>)\<rparr>)))"
| "finish_comps_text (TEnvironmentGroup optional) v s =
     bindR (validate_identifier v ''environment group id'') (\<lambda>_.
     bindR (required_environment (cs_environment s)) (\<lambda>e.
     let groups = (if optional then ce_optional_groups e else ce_groups e) @ [v] in
     bindR (checked_len groups MAX_COMPS_GROUPS_PER_ENVIRONMENT ''groups per comps environment'') (\<lambda>_.
       Inr (s\<lparr>cs_environment := Some (if optional then e\<lparr>ce_optional_groups := groups\<rparr> else e\<lparr>ce_groups := groups\<rparr>)\<rparr>))))"

definition comps_append :: "string \<Rightarrow> string \<Rightarrow> (metadata_error, string) result" where
  "comps_append current v = bindR (checked_len (current @ v) MAX_COMPS_TEXT_BYTES ''comps XML text'') (\<lambda>_. Inr (current @ v))"

section \<open>Events\<close>

definition comps_open :: "string \<Rightarrow> comps_state \<Rightarrow> (metadata_error, comps_state) result" where
  "comps_open name s =
     (if cs_stack s = [] then if name \<noteq> ''comps'' then Inl (MdXml ''unexpected comps root'') else Inr s
      else if length (cs_stack s) = 1 \<and> name = ''group'' then
        if cs_group s \<noteq> None then Inl (MdXml ''nested comps group'') else Inr (s\<lparr>cs_group := Some default_group_builder\<rparr>)
      else if length (cs_stack s) = 1 \<and> name = ''environment'' then
        if cs_environment s \<noteq> None then Inl (MdXml ''nested comps environment'')
        else Inr (s\<lparr>cs_environment := Some default_environment_builder\<rparr>)
      else Inr s)"

definition comps_parent :: "comps_state \<Rightarrow> string option" where
  "comps_parent s = (case cs_stack s of [] \<Rightarrow> None | parent # _ \<Rightarrow> Some parent)"

definition comps_start :: "xml_tag \<Rightarrow> comps_state \<Rightarrow> (metadata_error, comps_state) result" where
  "comps_start t s =
     (if cs_root_closed s \<or> MAX_COMPS_DEPTH \<le> length (cs_stack s)
      then Inl (MdXml ''content after comps root or excessive XML depth'')
      else
        bindR (comps_reject_prefixed (xt_name t)) (\<lambda>_.
        bindR (comps_open (xt_name t) s) (\<lambda>s.
        bindR (text_target t (comps_parent s) (cs_group s \<noteq> None) (cs_environment s \<noteq> None)) (\<lambda>target.
          Inr (s\<lparr>cs_text := map_option (\<lambda>t. (t, [])) target, cs_stack := xt_name t # cs_stack s\<rparr>)))))"

definition comps_text_piece :: "string \<Rightarrow> comps_target \<times> string \<Rightarrow> comps_state \<Rightarrow> (metadata_error, comps_state) result" where
  "comps_text_piece v tv s = bindR (comps_append (snd tv) v) (\<lambda>x. Inr (s\<lparr>cs_text := Some (fst tv, x)\<rparr>))"

definition comps_close :: "string \<Rightarrow> comps_state \<Rightarrow> (metadata_error, comps_state) result" where
  "comps_close expected s =
     (if expected = ''group'' then
        bindR (ok_or (MdXml ''group end without group'') (cs_group s)) (\<lambda>g.
        bindR (finish_group g) (\<lambda>finished.
        let groups = cs_groups s @ [finished] in
        bindR (checked_len groups MAX_COMPS_GROUPS ''comps groups'') (\<lambda>_.
          Inr (s\<lparr>cs_group := None, cs_groups := groups\<rparr>))))
      else if expected = ''environment'' then
        bindR (ok_or (MdXml ''environment end without environment'') (cs_environment s)) (\<lambda>e.
        bindR (finish_environment e) (\<lambda>finished.
        let environments = cs_environments s @ [finished] in
        bindR (checked_len environments MAX_COMPS_ENVIRONMENTS ''comps environments'') (\<lambda>_.
          Inr (s\<lparr>cs_environment := None, cs_environments := environments\<rparr>))))
      else if expected = ''comps'' then Inr (s\<lparr>cs_root_closed := True\<rparr>)
      else Inr s)"

definition comps_end :: "string \<Rightarrow> comps_state \<Rightarrow> (metadata_error, comps_state) result" where
  "comps_end name s =
     (case cs_stack s of
        [] \<Rightarrow> Inl (MdXml ''comps end without start'')
      | expected # stack \<Rightarrow>
          if expected \<noteq> name then Inl (MdXml ''mismatched comps element'')
          else
            bindR (case cs_text s of
                     None \<Rightarrow> Inr (s\<lparr>cs_stack := stack\<rparr>)
                   | Some (target, v) \<Rightarrow> finish_comps_text target (trim v) (s\<lparr>cs_stack := stack, cs_text := None\<rparr>))
              (comps_close expected))"

fun join_words :: "string list \<Rightarrow> string" where
  "join_words [] = []"
| "join_words [w] = w"
| "join_words (w # ws) = w @ '' '' @ join_words ws"

definition comps_doctype :: "string \<Rightarrow> bool" where
  "comps_doctype v \<longleftrightarrow>
     join_words (split_whitespace (map (\<lambda>c. if c = CHR 0x22 then CHR 0x27 else c) v))
       = ''comps PUBLIC '' @ [CHR 0x27] @ ''-//Red Hat, Inc.//DTD Comps info//EN'' @ [CHR 0x27] @ '' '' @ [CHR 0x27] @ ''comps.dtd'' @ [CHR 0x27]"

fun comps_step ::
  "(string \<Rightarrow> (string, string) result) \<Rightarrow> xml_event \<Rightarrow> comps_state \<Rightarrow> (metadata_error, comps_state) result" where
  "comps_step unescape (XStart ns t) s = comps_start t s"
| "comps_step unescape (XEmpty ns t) s =
     (if cs_stack s = [] \<or> cs_root_closed s then Inl (MdXml ''empty element outside comps root'')
      else bindR (comps_reject_prefixed (xt_name t)) (\<lambda>_. Inr s))"
| "comps_step unescape (XText t) s =
     (case cs_text s of
        Some tv \<Rightarrow> bindR (map_err MdXml t) (\<lambda>v. comps_text_piece v tv s)
      | None \<Rightarrow>
          if cs_stack s = [] \<or> cs_root_closed s then
            bindR (map_err MdXml t) (\<lambda>v. if trim v \<noteq> [] then Inl (MdXml ''text outside comps root'') else Inr s)
          else Inr s)"
| "comps_step unescape (XRef t) s =
     bindR (ok_or (MdXml ''entity reference outside comps text'') (cs_text s)) (\<lambda>tv.
     bindR (decode_reference unescape t) (\<lambda>v. comps_text_piece v tv s))"
| "comps_step unescape (XCData t) s =
     bindR (ok_or (MdXml ''CDATA outside comps text'') (cs_text s)) (\<lambda>tv.
     bindR (map_err MdXml t) (\<lambda>v. comps_text_piece v tv s))"
| "comps_step unescape (XEnd name) s = comps_end name s"
| "comps_step unescape XDecl s =
     (if cs_stack s = [] \<and> \<not> cs_declaration_seen s \<and> \<not> cs_root_closed s then Inr (s\<lparr>cs_declaration_seen := True\<rparr>)
      else Inl (MdXml ''misplaced XML declaration or comps doctype''))"
| "comps_step unescape (XDocType t) s =
     (if cs_stack s = [] \<and> \<not> cs_doctype_seen s \<and> \<not> cs_root_closed s then
        bindR (map_err MdXml t) (\<lambda>v.
        if \<not> comps_doctype v then Inl (MdXml ''unrecognized comps doctype'') else Inr (s\<lparr>cs_doctype_seen := True\<rparr>))
      else Inl (MdXml ''misplaced XML declaration or comps doctype''))"
| "comps_step unescape XComment s = Inr s"
| "comps_step unescape XPI s = Inr s"
| "comps_step unescape (XFail e) s = Inl (MdXml e)"

definition finish_comps :: "comps_state \<Rightarrow> (metadata_error, comps) result" where
  "finish_comps s =
     (if \<not> cs_root_closed s \<or> cs_stack s \<noteq> [] \<or> cs_group s \<noteq> None \<or> cs_environment s \<noteq> None
      then Inl (MdXml ''incomplete comps document'')
      else
        bindR (ok_or (LimitExceeded ''comps packages'' MAX_COMPS_PACKAGES (- 1))
          (try_sum 0 (map (\<lambda>g. len_u64 (cg_packages g)) (cs_groups s)))) (\<lambda>packages.
        bindR (checked_limit packages MAX_COMPS_PACKAGES ''comps packages'') (\<lambda>_.
        let groups = sort_key cg_id (cs_groups s); environments = sort_key ce_id (cs_environments s) in
        bindR (reject_duplicate_ids None (map cg_id groups) ''comps group'') (\<lambda>_.
        bindR (reject_duplicate_ids None (map ce_id environments) ''comps environment'') (\<lambda>_.
          Inr \<lparr>co_groups = groups, co_environments = environments\<rparr>)))))"

definition parse_comps :: "xml_lib \<Rightarrow> bytes \<Rightarrow> (metadata_error, comps) result" where
  "parse_comps L bs =
     bindR (foldR (comps_step (xl_unescape L)) (xl_read L False bs) default_comps_state) finish_comps"

section \<open>What the reader promises\<close>

definition text_ok :: "string \<Rightarrow> bool" where
  "text_ok v \<longleftrightarrow> v \<noteq> [] \<and> \<not> has_control v"

definition ident_ok :: "string \<Rightarrow> bool" where
  "ident_ok v \<longleftrightarrow> text_ok v \<and> \<not> has_whitespace v"

definition group_package_ok :: "comps_package \<Rightarrow> bool" where
  "group_package_ok p \<longleftrightarrow> ident_ok (gp_name p) \<and> (gp_kind p = KConditional \<longleftrightarrow> gp_condition p \<noteq> None) \<and>
     (case gp_condition p of None \<Rightarrow> True | Some c \<Rightarrow> ident_ok c)"

definition comps_group_ok :: "comps_group \<Rightarrow> bool" where
  "comps_group_ok g \<longleftrightarrow> ident_ok (cg_id g) \<and> text_ok (cg_name g) \<and> (cg_description g = [] \<or> text_ok (cg_description g)) \<and>
     list_all group_package_ok (cg_packages g) \<and> distinct (map gp_name (cg_packages g)) \<and>
     sorted (map comps_package_key (cg_packages g)) \<and> length (cg_packages g) \<le> 100000"

definition comps_environment_ok :: "comps_environment \<Rightarrow> bool" where
  "comps_environment_ok e \<longleftrightarrow> ident_ok (ce_id e) \<and> text_ok (ce_name e) \<and> (ce_description e = [] \<or> text_ok (ce_description e)) \<and>
     list_all ident_ok (ce_groups e @ ce_optional_groups e) \<and> sorted_wrt (<) (ce_groups e) \<and> sorted_wrt (<) (ce_optional_groups e) \<and>
     set (ce_groups e) \<inter> set (ce_optional_groups e) = {} \<and> length (ce_groups e) \<le> 100000 \<and> length (ce_optional_groups e) \<le> 100000"

definition comps_ok :: "comps \<Rightarrow> bool" where
  "comps_ok c \<longleftrightarrow> list_all comps_group_ok (co_groups c) \<and> list_all comps_environment_ok (co_environments c) \<and>
     sorted_wrt (<) (map cg_id (co_groups c)) \<and> sorted_wrt (<) (map ce_id (co_environments c)) \<and>
     length (co_groups c) \<le> 100000 \<and> length (co_environments c) \<le> 10000 \<and>
     sum_list (map (\<lambda>g. length (cg_packages g)) (co_groups c)) \<le> 2000000"

lemma validate_text_iff: "validate_text v k = Inr u \<longleftrightarrow> text_ok v"
  by (simp add: validate_text_def text_ok_def)

lemma validate_identifier_iff: "validate_identifier v k = Inr u \<longleftrightarrow> ident_ok v"
  by (simp add: validate_identifier_def bindR_eq_Inr validate_text_iff ident_ok_def)

lemma checked_len_iff: "unat m < 2 ^ 64 - 1 \<Longrightarrow> checked_len xs m k = Inr u \<longleftrightarrow> length xs \<le> unat m"
  by (simp add: checked_len_def bindR_eq_Inr checked_limit_iff len_u64_le)

lemma set_once_iff: "set_once c v k = Inr x \<longleftrightarrow> c = [] \<and> text_ok v \<and> x = v"
  by (auto simp: set_once_def bindR_eq_Inr validate_text_iff)

lemma reject_duplicate_ids_iff:
  assumes "sorted vs"
  shows "reject_duplicate_ids p vs k = Inr u \<longleftrightarrow> distinct vs \<and> (vs \<noteq> [] \<longrightarrow> p \<noteq> Some (hd vs))"
  using assms
proof (induction vs arbitrary: p)
  case (Cons v vs)
  have "reject_duplicate_ids p (v # vs) k = Inr u \<longleftrightarrow> p \<noteq> Some v \<and> distinct vs \<and> (vs \<noteq> [] \<longrightarrow> Some v \<noteq> Some (hd vs))"
    using Cons.IH [of "Some v"] Cons.prems by (auto simp del: unit_eq)
  moreover have "v \<notin> set vs \<longleftrightarrow> (vs \<noteq> [] \<longrightarrow> v \<noteq> hd vs)"
    using Cons.prems by (cases vs) (auto dest: antisym)
  ultimately show ?case by auto
qed simp

lemma reject_sorted_ids: "sorted vs \<Longrightarrow> reject_duplicate_ids None vs k = Inr u \<longleftrightarrow> sorted_wrt (<) vs"
  by (auto simp: reject_duplicate_ids_iff strict_sorted_iff)

lemmas comps_limits = MAX_COMPS_GROUPS_def MAX_COMPS_ENVIRONMENTS_def MAX_COMPS_PACKAGES_def MAX_COMPS_PACKAGES_PER_GROUP_def
  MAX_COMPS_GROUPS_PER_ENVIRONMENT_def MAX_COMPS_TEXT_BYTES_def

lemma finish_group_ok:
  assumes "finish_group b = Inr g" "list_all group_package_ok (gb_packages b)" "length (gb_packages b) \<le> 100000"
    "gb_description b = [] \<or> text_ok (gb_description b)"
  shows "comps_group_ok g"
  using assms by (auto simp: finish_group_def bindR_eq_Inr validate_identifier_iff validate_text_iff Let_def comps_group_ok_def
    list_all_iff if_Inl_eq_Inr)

lemma sort_windows: "\<not> any_window (=) (sort xs) \<longleftrightarrow> sorted_wrt (<) (sort xs)" for xs :: "string list"
  using any_window_eq_sorted [of "sort xs"] by (simp add: strict_sorted_iff)

lemma finish_environment_ok:
  assumes "finish_environment b = Inr e" "list_all ident_ok (ce_groups b @ ce_optional_groups b)"
    "length (ce_groups b) \<le> 100000" "length (ce_optional_groups b) \<le> 100000"
    "ce_description b = [] \<or> text_ok (ce_description b)"
  shows "comps_environment_ok e"
proof -
  have "\<not> any_window (=) (sort (ce_groups b))" "\<not> any_window (=) (sort (ce_optional_groups b))"
    "\<not> list_ex (binary_search_is_ok (sort (ce_optional_groups b))) (sort (ce_groups b))" "ident_ok (ce_id b)" "text_ok (ce_name b)"
    and e: "e = b\<lparr>ce_groups := sort (ce_groups b), ce_optional_groups := sort (ce_optional_groups b)\<rparr>"
    using assms(1) by (simp_all add: finish_environment_def bindR_eq_Inr validate_identifier_iff validate_text_iff Let_def if_Inl_eq_Inr)
  then show ?thesis using assms(2-5)
    by (auto simp: comps_environment_ok_def sort_windows list_ex_iff list_all_iff)
qed

definition group_builder_ok :: "group_builder \<Rightarrow> bool" where
  "group_builder_ok g \<longleftrightarrow> list_all group_package_ok (gb_packages g) \<and> length (gb_packages g) \<le> 100000 \<and>
     (gb_description g = [] \<or> text_ok (gb_description g))"

definition environment_builder_ok :: "comps_environment \<Rightarrow> bool" where
  "environment_builder_ok e \<longleftrightarrow> list_all ident_ok (ce_groups e @ ce_optional_groups e) \<and> length (ce_groups e) \<le> 100000 \<and>
     length (ce_optional_groups e) \<le> 100000 \<and> (ce_description e = [] \<or> text_ok (ce_description e))"

fun target_ok :: "comps_target \<Rightarrow> bool" where
  "target_ok (TPackage k c) \<longleftrightarrow> (k = KConditional \<longleftrightarrow> c \<noteq> None)"
| "target_ok _ \<longleftrightarrow> True"

definition comps_state_ok :: "comps_state \<Rightarrow> bool" where
  "comps_state_ok s \<longleftrightarrow> list_all comps_group_ok (cs_groups s) \<and> list_all comps_environment_ok (cs_environments s) \<and>
     length (cs_groups s) \<le> 100000 \<and> length (cs_environments s) \<le> 10000 \<and> pred_option group_builder_ok (cs_group s) \<and>
     pred_option environment_builder_ok (cs_environment s) \<and> pred_option (target_ok \<circ> fst) (cs_text s)"

lemma comps_state_ok_group: "comps_state_ok s \<Longrightarrow> group_builder_ok g \<Longrightarrow> comps_state_ok (s\<lparr>cs_group := Some g\<rparr>)"
  by (simp add: comps_state_ok_def)

lemma comps_state_ok_environment:
  "comps_state_ok s \<Longrightarrow> environment_builder_ok e \<Longrightarrow> comps_state_ok (s\<lparr>cs_environment := Some e\<rparr>)"
  by (simp add: comps_state_ok_def)

lemma comps_state_ok_default: "comps_state_ok default_comps_state"
  by (simp add: comps_state_ok_def default_comps_state_def)

lemma text_target_ok: "text_target t parent g e = Inr (Some target) \<Longrightarrow> target_ok target"
  by (auto simp: text_target_def package_target_def bindR_eq_Inr Let_def split: if_splits)

lemma comps_state_ok_open: "comps_state_ok s \<Longrightarrow> comps_open name s = Inr u \<Longrightarrow> comps_state_ok u"
proof -
  have "group_builder_ok default_group_builder" "environment_builder_ok default_environment_builder"
    by (simp_all add: group_builder_ok_def environment_builder_ok_def default_group_builder_def default_environment_builder_def)
  then show "comps_state_ok s \<Longrightarrow> comps_open name s = Inr u \<Longrightarrow> comps_state_ok u"
    by (auto simp: comps_open_def intro: comps_state_ok_group comps_state_ok_environment split: if_splits)
qed

lemma comps_state_ok_start:
  assumes "comps_state_ok s" "comps_start t s = Inr s'"
  shows "comps_state_ok s'"
proof -
  from assms(2) obtain u target where u: "comps_open (xt_name t) s = Inr u"
    and target: "text_target t (comps_parent u) (cs_group u \<noteq> None) (cs_environment u \<noteq> None) = Inr target"
    and s': "s' = u\<lparr>cs_text := map_option (\<lambda>t. (t, [])) target, cs_stack := xt_name t # cs_stack u\<rparr>"
    by (simp add: comps_start_def bindR_eq_Inr if_Inl_eq_Inr) (elim exE conjE, simp)
  have "pred_option (target_ok \<circ> fst) (map_option (\<lambda>t. (t, [])) target)"
    using target by (cases target) (auto dest: text_target_ok)
  then show ?thesis using comps_state_ok_open [OF assms(1) u] by (simp add: s' comps_state_ok_def)
qed

lemma comps_state_ok_text:
  assumes ok: "comps_state_ok s" and target: "target_ok target" and step: "finish_comps_text target v s = Inr s'"
  shows "comps_state_ok s'"
proof -
  have max: "unat MAX_COMPS_PACKAGES_PER_GROUP = 100000" "unat MAX_COMPS_GROUPS_PER_ENVIRONMENT = 100000" by (simp_all add: comps_limits)
  have g: "group_builder_ok g" if "cs_group s = Some g" for g using that ok by (simp add: comps_state_ok_def)
  have e: "environment_builder_ok e" if "cs_environment s = Some e" for e using that ok by (simp add: comps_state_ok_def)
  note facts = bindR_eq_Inr required_group_def required_environment_def ok_or_eq_Inr set_once_iff Let_def checked_len_iff
    validate_identifier_iff max
  show ?thesis
  proof (cases target)
    case (TPackage k c)
    show ?thesis using step target unfolding TPackage
      by (cases c) (auto simp: facts group_builder_ok_def group_package_ok_def intro!: comps_state_ok_group [OF ok] dest!: g)
  next
    case (TEnvironmentGroup b)
    show ?thesis using step unfolding TEnvironmentGroup
      by (cases b) (auto simp: facts environment_builder_ok_def intro!: comps_state_ok_environment [OF ok] dest!: e)
  qed (use step in \<open>auto simp: facts group_builder_ok_def environment_builder_ok_def
      intro!: comps_state_ok_group [OF ok] comps_state_ok_environment [OF ok] dest!: g e\<close>)
qed

lemma comps_state_ok_close:
  assumes ok: "comps_state_ok s" and step: "comps_close name s = Inr s'"
  shows "comps_state_ok s'"
proof -
  have max: "unat MAX_COMPS_GROUPS = 100000" "unat MAX_COMPS_ENVIRONMENTS = 10000" by (simp_all add: comps_limits)
  show ?thesis
  proof (cases "name = ''group''")
    case True
    obtain g f where f: "cs_group s = Some g" "finish_group g = Inr f" "length (cs_groups s) < 100000"
      "s' = s\<lparr>cs_group := None, cs_groups := cs_groups s @ [f]\<rparr>"
      using step max by (simp add: True comps_close_def bindR_eq_Inr ok_or_eq_Inr Let_def checked_len_iff) (elim exE conjE, simp)
    have "group_builder_ok g" using ok f(1) by (simp add: comps_state_ok_def)
    then have "comps_group_ok f" using finish_group_ok [OF f(2)] by (simp add: group_builder_ok_def)
    with f ok show ?thesis by (simp add: comps_state_ok_def)
  next
    case other: False
    show ?thesis
    proof (cases "name = ''environment''")
      case True
      obtain e f where f: "cs_environment s = Some e" "finish_environment e = Inr f" "length (cs_environments s) < 10000"
        "s' = s\<lparr>cs_environment := None, cs_environments := cs_environments s @ [f]\<rparr>"
        using step max by (simp add: True comps_close_def bindR_eq_Inr ok_or_eq_Inr Let_def checked_len_iff) (elim exE conjE, simp)
      have "environment_builder_ok e" using ok f(1) by (simp add: comps_state_ok_def)
      then have "comps_environment_ok f" using finish_environment_ok [OF f(2)] by (simp add: environment_builder_ok_def)
      with f ok show ?thesis by (simp add: comps_state_ok_def)
    next
      case False
      then show ?thesis using ok step other by (auto simp: comps_close_def comps_state_ok_def split: if_splits)
    qed
  qed
qed

lemma comps_state_ok_end:
  assumes "comps_state_ok s" "comps_end name s = Inr s'"
  shows "comps_state_ok s'"
proof -
  from assms(2) obtain stack u where stack: "cs_stack s = name # stack" and close: "comps_close name u = Inr s'"
    and u: "(case cs_text s of None \<Rightarrow> Inr (s\<lparr>cs_stack := stack\<rparr>)
      | Some (target, v) \<Rightarrow> finish_comps_text target (trim v) (s\<lparr>cs_stack := stack, cs_text := None\<rparr>)) = Inr u"
    by (cases "cs_stack s") (simp_all add: comps_end_def bindR_eq_Inr if_Inl_eq_Inr, elim exE conjE, simp)
  have "comps_state_ok u"
  proof (cases "cs_text s")
    case None
    with u assms(1) show ?thesis by (auto simp: comps_state_ok_def)
  next
    case (Some tv)
    obtain target v where tv: "tv = (target, v)" by (cases tv)
    show ?thesis
      by (rule comps_state_ok_text [of "s\<lparr>cs_stack := stack, cs_text := None\<rparr>" target])
        (use assms(1) Some u in \<open>auto simp: comps_state_ok_def tv\<close>)
  qed
  then show ?thesis using close by (rule comps_state_ok_close)
qed

lemma comps_state_ok_piece:
  "comps_state_ok s \<Longrightarrow> cs_text s = Some tv \<Longrightarrow> comps_text_piece v tv s = Inr s' \<Longrightarrow> comps_state_ok s'"
  by (cases tv) (auto simp: comps_state_ok_def comps_text_piece_def bindR_eq_Inr)

lemma comps_state_ok_step:
  assumes ok: "comps_state_ok s" and step: "comps_step u e s = Inr s'"
  shows "comps_state_ok s'"
proof (cases e)
  case (XText t)
  then show ?thesis using step ok
    by (auto simp: bindR_eq_Inr intro: comps_state_ok_piece split: option.splits if_splits)
qed (use step ok in \<open>auto simp: bindR_eq_Inr ok_or_eq_Inr intro: comps_state_ok_start comps_state_ok_end comps_state_ok_piece
    split: if_splits, auto simp: comps_state_ok_def\<close>)

lemma parse_comps_ok:
  assumes "parse_comps L bs = Inr c"
  shows "comps_ok c"
proof -
  from assms obtain s where fold: "foldR (comps_step (xl_unescape L)) (xl_read L False bs) default_comps_state = Inr s"
    and finish: "finish_comps s = Inr c" by (auto simp: parse_comps_def bindR_eq_Inr)
  have ok: "comps_state_ok s"
    using fold comps_state_ok_default comps_state_ok_step by (rule foldR_invariant [where P = comps_state_ok])
  from finish obtain n where n: "try_sum 0 (map (\<lambda>g. len_u64 (cg_packages g)) (cs_groups s)) = Some n" "n \<le> MAX_COMPS_PACKAGES"
    and ids: "sorted_wrt (<) (map cg_id (sort_key cg_id (cs_groups s)))" "sorted_wrt (<) (map ce_id (sort_key ce_id (cs_environments s)))"
    and c: "c = \<lparr>co_groups = sort_key cg_id (cs_groups s), co_environments = sort_key ce_id (cs_environments s)\<rparr>"
    by (simp add: finish_comps_def bindR_eq_Inr ok_or_eq_Inr Let_def checked_limit_iff reject_sorted_ids if_Inl_eq_Inr)
      (elim exE conjE, simp)
  have "length (cg_packages g) = unat (len_u64 (cg_packages g))" if "g \<in> set (cs_groups s)" for g
  proof -
    have "comps_group_ok g" using that ok by (simp add: comps_state_ok_def list_all_iff)
    then show ?thesis by (simp add: comps_group_ok_def unat_len_u64)
  qed
  then have sum: "sum_list (map (\<lambda>g. length (cg_packages g)) (cs_groups s)) = sum_list (map (unat \<circ> (\<lambda>g. len_u64 (cg_packages g))) (cs_groups s))"
    by (intro arg_cong [of _ _ sum_list] map_cong) auto
  have "unat n = sum_list (map (\<lambda>g. length (cg_packages g)) (cs_groups s))"
    using n(1) unfolding sum by (simp add: try_sum_Some)
  moreover have "unat n \<le> 2000000" using n(2) by (simp add: word_le_nat_alt comps_limits)
  moreover have "sum_list (map (\<lambda>g. length (cg_packages g)) (sort_key cg_id (cs_groups s)))
    = sum_list (map (\<lambda>g. length (cg_packages g)) (cs_groups s))"
    by (simp flip: sum_mset_sum_list)
  ultimately show ?thesis using ok ids by (simp add: comps_ok_def c comps_state_ok_def list_all_iff)
qed

end
