(* ===== verification/Metadata_Updateinfo.thy ===== *)
theory Metadata_Updateinfo
  imports Metadata_Comps
begin

text \<open>
  \<^verbatim>\<open>crates/dnfast-metadata/src/updateinfo.rs\<close>: advisories with their references and packages, read in the way of the groups.
\<close>

section \<open>Data\<close>

definition MAX_ADVISORIES :: u64 where "MAX_ADVISORIES = 250000"
definition MAX_ADVISORY_PACKAGES :: u64 where "MAX_ADVISORY_PACKAGES = 4000000"
definition MAX_PACKAGES_PER_ADVISORY :: u64 where "MAX_PACKAGES_PER_ADVISORY = 100000"
definition MAX_REFERENCES_PER_ADVISORY :: u64 where "MAX_REFERENCES_PER_ADVISORY = 100000"
definition MAX_ADVISORY_TEXT_BYTES :: u64 where "MAX_ADVISORY_TEXT_BYTES = 4194304"
definition MAX_ADVISORY_DEPTH :: nat where "MAX_ADVISORY_DEPTH = 64"

record advisory_reference =
  av_ref_id :: string
  av_ref_kind :: string
  av_ref_href :: string
  av_ref_title :: string

record advisory_package =
  av_pkg_name :: string
  av_pkg_epoch :: u64
  av_pkg_version :: string
  av_pkg_release :: string
  av_pkg_arch :: string
  av_pkg_filename :: string

text \<open>An advisory and its builder have the same fields.\<close>

record advisory =
  av_id :: string
  av_title :: string
  av_kind :: string
  av_status :: string
  av_severity :: string
  av_issued :: string
  av_updated :: string
  av_summary :: string
  av_description :: string
  av_references :: "advisory_reference list"
  av_packages :: "advisory_package list"

definition default_advisory :: advisory where
  "default_advisory = \<lparr>av_id = [], av_title = [], av_kind = [], av_status = [], av_severity = [], av_issued = [], av_updated = [],
     av_summary = [], av_description = [], av_references = [], av_packages = []\<rparr>"

datatype advisory_target = ATId | ATTitle | ATSeverity | ATSummary | ATDescription | ATFilename

record update_state =
  us_stack :: "string list"
  us_advisories :: "advisory list"
  us_advisory :: "advisory option"
  us_package :: "advisory_package option"
  us_text :: "(advisory_target \<times> string) option"
  us_declaration_seen :: bool
  us_root_closed :: bool

definition default_update_state :: update_state where
  "default_update_state = \<lparr>us_stack = [], us_advisories = [], us_advisory = None, us_package = None, us_text = None,
     us_declaration_seen = False, us_root_closed = False\<rparr>"

section \<open>Checks\<close>

definition advisory_text_ok :: "string \<Rightarrow> bool" where
  "advisory_text_ok v \<longleftrightarrow> v \<noteq> [] \<and> \<not> list_ex (\<lambda>c. is_control c \<and> c \<noteq> 10 \<and> c \<noteq> 9) (chars_of v)"

definition validate_advisory_text :: "string \<Rightarrow> string \<Rightarrow> (metadata_error, unit) result" where
  "validate_advisory_text v label = (if \<not> advisory_text_ok v then Inl (MdXml (''invalid '' @ label)) else Inr ())"

definition validate_token :: "string \<Rightarrow> string \<Rightarrow> (metadata_error, unit) result" where
  "validate_token v label =
     bindR (validate_advisory_text v label) (\<lambda>_. if has_whitespace v then Inl (MdXml (''invalid '' @ label)) else Inr ())"

definition advisory_set_once :: "string \<Rightarrow> string \<Rightarrow> string \<Rightarrow> bool \<Rightarrow> (metadata_error, string) result" where
  "advisory_set_once current v label token =
     (if current \<noteq> [] then Inl (MdXml (''duplicate '' @ label))
      else bindR (if token then validate_token v label else validate_advisory_text v label) (\<lambda>_. Inr v))"

definition updateinfo_reject_prefixed :: "string \<Rightarrow> (metadata_error, unit) result" where
  "updateinfo_reject_prefixed name =
     (if CHR '':'' \<in> set name then Inl (MdXml ''unexpected updateinfo namespace prefix'') else Inr ())"

definition advisory_attribute :: "xml_tag \<Rightarrow> string \<Rightarrow> string \<Rightarrow> (metadata_error, string) result" where
  "advisory_attribute t name label =
     bindR (attribute_streaming (xt_attributes t) name) (ok_or (MdXml (''missing required '' @ label)))"

definition required_advisory :: "advisory option \<Rightarrow> (metadata_error, advisory) result" where
  "required_advisory a = ok_or (MdXml ''advisory field outside advisory'') a"

section \<open>Elements\<close>

definition start_advisory :: "xml_tag \<Rightarrow> (metadata_error, advisory) result" where
  "start_advisory t =
     bindR (advisory_attribute t ''type'' ''advisory type'') (\<lambda>kind.
     bindR (advisory_attribute t ''status'' ''advisory status'') (\<lambda>status.
     bindR (validate_token kind ''advisory type'') (\<lambda>_.
     bindR (validate_token status ''advisory status'') (\<lambda>_.
       Inr (default_advisory\<lparr>av_kind := kind, av_status := status\<rparr>)))))"

definition start_advisory_package :: "xml_tag \<Rightarrow> (metadata_error, advisory_package) result" where
  "start_advisory_package t =
     bindR (advisory_attribute t ''name'' ''package name'') (\<lambda>name.
     bindR (advisory_attribute t ''epoch'' ''package epoch'') (\<lambda>epoch.
     bindR (ok_or (MdXml ''invalid package epoch'') (parse_unsigned epoch)) (\<lambda>epoch.
     bindR (advisory_attribute t ''version'' ''package version'') (\<lambda>version.
     bindR (advisory_attribute t ''release'' ''package release'') (\<lambda>release.
     bindR (advisory_attribute t ''arch'' ''package architecture'') (\<lambda>arch.
     bindR (forR (\<lambda>(v, label). validate_token v label)
       [(name, ''package name''), (version, ''package version''), (release, ''package release''), (arch, ''package architecture'')]) (\<lambda>_.
       Inr \<lparr>av_pkg_name = name, av_pkg_epoch = epoch, av_pkg_version = version, av_pkg_release = release, av_pkg_arch = arch,
         av_pkg_filename = []\<rparr>)))))))"

definition advisory_text_target :: "string option \<Rightarrow> string \<Rightarrow> bool \<Rightarrow> bool \<Rightarrow> advisory_target option" where
  "advisory_text_target parent name in_advisory in_package =
     (if in_package \<and> parent = Some ''package'' \<and> name = ''filename'' then Some ATFilename
      else if \<not> in_advisory then None
      else if parent = Some ''update'' then
        if name = ''id'' then Some ATId
        else if name = ''title'' then Some ATTitle
        else if name = ''severity'' then Some ATSeverity
        else if name = ''summary'' then Some ATSummary
        else if name = ''description'' then Some ATDescription
        else None
      else None)"

fun finish_advisory_text :: "advisory_target \<Rightarrow> string \<Rightarrow> update_state \<Rightarrow> (metadata_error, update_state) result" where
  "finish_advisory_text ATFilename v s =
     bindR (ok_or (MdXml ''filename outside package'') (us_package s)) (\<lambda>p.
     bindR (advisory_set_once (av_pkg_filename p) v ''package filename'' True) (\<lambda>x.
       Inr (s\<lparr>us_package := Some (p\<lparr>av_pkg_filename := x\<rparr>)\<rparr>)))"
| "finish_advisory_text ATId v s =
     bindR (required_advisory (us_advisory s)) (\<lambda>a.
     bindR (advisory_set_once (av_id a) v ''advisory id'' True) (\<lambda>x. Inr (s\<lparr>us_advisory := Some (a\<lparr>av_id := x\<rparr>)\<rparr>)))"
| "finish_advisory_text ATTitle v s =
     bindR (required_advisory (us_advisory s)) (\<lambda>a.
     bindR (advisory_set_once (av_title a) v ''advisory title'' False) (\<lambda>x. Inr (s\<lparr>us_advisory := Some (a\<lparr>av_title := x\<rparr>)\<rparr>)))"
| "finish_advisory_text ATSeverity v s =
     bindR (required_advisory (us_advisory s)) (\<lambda>a.
     bindR (advisory_set_once (av_severity a) v ''advisory severity'' True) (\<lambda>x. Inr (s\<lparr>us_advisory := Some (a\<lparr>av_severity := x\<rparr>)\<rparr>)))"
| "finish_advisory_text ATSummary v s =
     bindR (required_advisory (us_advisory s)) (\<lambda>a.
     bindR (advisory_set_once (av_summary a) v ''advisory summary'' False) (\<lambda>x. Inr (s\<lparr>us_advisory := Some (a\<lparr>av_summary := x\<rparr>)\<rparr>)))"
| "finish_advisory_text ATDescription v s =
     bindR (required_advisory (us_advisory s)) (\<lambda>a.
     bindR (advisory_set_once (av_description a) v ''advisory description'' False) (\<lambda>x.
       Inr (s\<lparr>us_advisory := Some (a\<lparr>av_description := x\<rparr>)\<rparr>)))"

definition set_date :: "xml_tag \<Rightarrow> string \<Rightarrow> string \<Rightarrow> (metadata_error, string) result" where
  "set_date t current label =
     bindR (advisory_attribute t ''date'' label) (\<lambda>v. advisory_set_once current v label False)"

definition push_reference :: "xml_tag \<Rightarrow> advisory \<Rightarrow> (metadata_error, advisory) result" where
  "push_reference t a =
     bindR (advisory_attribute t ''id'' ''reference id'') (\<lambda>ident.
     bindR (advisory_attribute t ''type'' ''reference type'') (\<lambda>kind.
     bindR (advisory_attribute t ''href'' ''reference href'') (\<lambda>href.
     bindR (attribute_streaming (xt_attributes t) ''title'') (\<lambda>title.
     let title = (case title of None \<Rightarrow> [] | Some v \<Rightarrow> v) in
     bindR (validate_token ident ''reference id'') (\<lambda>_.
     bindR (validate_token kind ''reference type'') (\<lambda>_.
     bindR (validate_advisory_text href ''reference href'') (\<lambda>_.
     bindR (if title \<noteq> [] then validate_advisory_text title ''reference title'' else Inr ()) (\<lambda>_.
     let references = av_references a @ [\<lparr>av_ref_id = ident, av_ref_kind = kind, av_ref_href = href, av_ref_title = title\<rparr>] in
     bindR (checked_len references MAX_REFERENCES_PER_ADVISORY ''references per advisory'') (\<lambda>_.
       Inr (a\<lparr>av_references := references\<rparr>))))))))))"

definition finish_advisory_package :: "advisory_package \<Rightarrow> (metadata_error, advisory_package) result" where
  "finish_advisory_package p =
     bindR (validate_token (av_pkg_filename p) ''package filename'') (\<lambda>_.
     if CHR ''/'' \<in> set (av_pkg_filename p) \<or> contains_str (av_pkg_filename p) ''..'' then Inl (MdXml ''unsafe package filename'')
     else Inr p)"

text \<open>The derived orders of references and packages.\<close>

definition reference_key :: "advisory_reference \<Rightarrow> string \<times> string \<times> string \<times> string" where
  "reference_key r = (av_ref_id r, av_ref_kind r, av_ref_href r, av_ref_title r)"

definition advisory_package_key :: "advisory_package \<Rightarrow> string \<times> u64 \<times> string \<times> string \<times> string \<times> string" where
  "advisory_package_key p = (av_pkg_name p, av_pkg_epoch p, av_pkg_version p, av_pkg_release p, av_pkg_arch p, av_pkg_filename p)"

definition finish_advisory :: "advisory \<Rightarrow> (metadata_error, advisory) result" where
  "finish_advisory a =
     bindR (validate_token (av_id a) ''advisory id'') (\<lambda>_.
     bindR (validate_advisory_text (av_title a) ''advisory title'') (\<lambda>_.
     let severity = (if av_severity a = [] then ''None'' else av_severity a) in
     bindR (validate_token severity ''advisory severity'') (\<lambda>_.
     let references = remdups_adj (sort_key reference_key (av_references a));
         packages = remdups_adj (sort_key advisory_package_key (av_packages a)) in
     if packages = [] then Inl (MdXml ''advisory contains no packages'')
     else Inr (a\<lparr>av_severity := severity, av_references := references, av_packages := packages\<rparr>))))"

section \<open>Events\<close>

definition update_parent :: "update_state \<Rightarrow> string option" where
  "update_parent s = (case us_stack s of [] \<Rightarrow> None | parent # _ \<Rightarrow> Some parent)"

definition update_open :: "xml_tag \<Rightarrow> update_state \<Rightarrow> (metadata_error, update_state) result" where
  "update_open t s =
     (if us_stack s = [] then
        if xt_name t \<noteq> ''updates'' then Inl (MdXml ''unexpected updateinfo root'')
        else if xt_attributes t \<noteq> [] then Inl (MdXml ''unexpected updateinfo root attribute'')
        else Inr s
      else if update_parent s = Some ''updates'' \<and> xt_name t = ''update'' then
        if us_advisory s \<noteq> None then Inl (MdXml ''nested updateinfo advisory'')
        else bindR (start_advisory t) (\<lambda>a. Inr (s\<lparr>us_advisory := Some a\<rparr>))
      else if xt_name t = ''package'' \<and> us_advisory s \<noteq> None then
        if us_package s \<noteq> None then Inl (MdXml ''nested updateinfo package'')
        else bindR (start_advisory_package t) (\<lambda>p. Inr (s\<lparr>us_package := Some p\<rparr>))
      else Inr s)"

definition update_start :: "xml_tag \<Rightarrow> update_state \<Rightarrow> (metadata_error, update_state) result" where
  "update_start t s =
     (if us_root_closed s \<or> MAX_ADVISORY_DEPTH \<le> length (us_stack s)
      then Inl (MdXml ''content after updateinfo root or excessive XML depth'')
      else
        bindR (updateinfo_reject_prefixed (xt_name t)) (\<lambda>_.
        bindR (update_open t s) (\<lambda>s.
          Inr (s\<lparr>us_text := map_option (\<lambda>t. (t, []))
              (advisory_text_target (update_parent s) (xt_name t) (us_advisory s \<noteq> None) (us_package s \<noteq> None)),
            us_stack := xt_name t # us_stack s\<rparr>))))"

definition update_empty :: "xml_tag \<Rightarrow> update_state \<Rightarrow> (metadata_error, update_state) result" where
  "update_empty t s =
     (if us_stack s = [] \<or> us_root_closed s then Inl (MdXml ''empty element outside updateinfo root'')
      else
        bindR (updateinfo_reject_prefixed (xt_name t)) (\<lambda>_.
        if xt_name t = ''issued'' then
          bindR (required_advisory (us_advisory s)) (\<lambda>a.
          bindR (set_date t (av_issued a) ''issued'') (\<lambda>v. Inr (s\<lparr>us_advisory := Some (a\<lparr>av_issued := v\<rparr>)\<rparr>)))
        else if xt_name t = ''updated'' then
          bindR (required_advisory (us_advisory s)) (\<lambda>a.
          bindR (set_date t (av_updated a) ''updated'') (\<lambda>v. Inr (s\<lparr>us_advisory := Some (a\<lparr>av_updated := v\<rparr>)\<rparr>)))
        else if xt_name t = ''reference'' then
          bindR (required_advisory (us_advisory s)) (\<lambda>a.
          bindR (push_reference t a) (\<lambda>a'. Inr (s\<lparr>us_advisory := Some a'\<rparr>)))
        else Inr s))"

definition advisory_append :: "string \<Rightarrow> advisory_target \<times> string \<Rightarrow> update_state \<Rightarrow> (metadata_error, update_state) result" where
  "advisory_append v tv s =
     bindR (checked_len (snd tv @ v) MAX_ADVISORY_TEXT_BYTES ''updateinfo XML text'') (\<lambda>_.
       Inr (s\<lparr>us_text := Some (fst tv, snd tv @ v)\<rparr>))"

definition update_close :: "string \<Rightarrow> update_state \<Rightarrow> (metadata_error, update_state) result" where
  "update_close expected s =
     (if expected = ''package'' then
        bindR (ok_or (MdXml ''package end without package'') (us_package s)) (\<lambda>p.
        bindR (finish_advisory_package p) (\<lambda>finished.
        bindR (required_advisory (us_advisory s)) (\<lambda>a.
        let packages = av_packages a @ [finished] in
        bindR (checked_len packages MAX_PACKAGES_PER_ADVISORY ''packages per advisory'') (\<lambda>_.
          Inr (s\<lparr>us_package := None, us_advisory := Some (a\<lparr>av_packages := packages\<rparr>)\<rparr>)))))
      else if expected = ''update'' then
        if us_package s \<noteq> None then Inl (MdXml ''advisory ended inside package'')
        else
          bindR (ok_or (MdXml ''advisory end without advisory'') (us_advisory s)) (\<lambda>a.
          bindR (finish_advisory a) (\<lambda>finished.
          let advisories = us_advisories s @ [finished] in
          bindR (checked_len advisories MAX_ADVISORIES ''advisories'') (\<lambda>_.
            Inr (s\<lparr>us_advisory := None, us_advisories := advisories\<rparr>))))
      else if expected = ''updates'' then Inr (s\<lparr>us_root_closed := True\<rparr>)
      else Inr s)"

definition update_end :: "string \<Rightarrow> update_state \<Rightarrow> (metadata_error, update_state) result" where
  "update_end name s =
     (case us_stack s of
        [] \<Rightarrow> Inl (MdXml ''updateinfo end without start'')
      | expected # stack \<Rightarrow>
          if expected \<noteq> name then Inl (MdXml ''mismatched updateinfo element'')
          else
            bindR (case us_text s of
                     None \<Rightarrow> Inr (s\<lparr>us_stack := stack\<rparr>)
                   | Some (target, v) \<Rightarrow> finish_advisory_text target (trim v) (s\<lparr>us_stack := stack, us_text := None\<rparr>))
              (update_close expected))"

fun update_step ::
  "(string \<Rightarrow> (string, string) result) \<Rightarrow> xml_event \<Rightarrow> update_state \<Rightarrow> (metadata_error, update_state) result" where
  "update_step unescape (XStart ns t) s = update_start t s"
| "update_step unescape (XEmpty ns t) s = update_empty t s"
| "update_step unescape (XText t) s =
     (case us_text s of
        Some tv \<Rightarrow> bindR (map_err MdXml t) (\<lambda>v. advisory_append v tv s)
      | None \<Rightarrow>
          if us_stack s = [] \<or> us_root_closed s then
            bindR (map_err MdXml t) (\<lambda>v. if trim v \<noteq> [] then Inl (MdXml ''text outside updateinfo root'') else Inr s)
          else Inr s)"
| "update_step unescape (XRef t) s =
     bindR (ok_or (MdXml ''entity reference outside updateinfo text'') (us_text s)) (\<lambda>tv.
     bindR (decode_reference unescape t) (\<lambda>v. advisory_append v tv s))"
| "update_step unescape (XCData t) s =
     bindR (ok_or (MdXml ''CDATA outside updateinfo text'') (us_text s)) (\<lambda>tv.
     bindR (map_err MdXml t) (\<lambda>v. advisory_append v tv s))"
| "update_step unescape (XEnd name) s = update_end name s"
| "update_step unescape XDecl s =
     (if us_stack s = [] \<and> \<not> us_declaration_seen s \<and> \<not> us_root_closed s then Inr (s\<lparr>us_declaration_seen := True\<rparr>)
      else Inl (MdXml ''misplaced XML declaration or updateinfo doctype''))"
| "update_step unescape (XDocType t) s = Inl (MdXml ''misplaced XML declaration or updateinfo doctype'')"
| "update_step unescape XComment s = Inr s"
| "update_step unescape XPI s = Inr s"
| "update_step unescape (XFail e) s = Inl (MdXml e)"

definition finish_updateinfo :: "update_state \<Rightarrow> (metadata_error, advisory list) result" where
  "finish_updateinfo s =
     (if \<not> us_root_closed s \<or> us_stack s \<noteq> [] \<or> us_advisory s \<noteq> None \<or> us_package s \<noteq> None
      then Inl (MdXml ''incomplete updateinfo document'')
      else
        bindR (ok_or (LimitExceeded ''updateinfo packages'' MAX_ADVISORY_PACKAGES (- 1))
          (try_sum 0 (map (\<lambda>a. len_u64 (av_packages a)) (us_advisories s)))) (\<lambda>packages.
        bindR (checked_limit packages MAX_ADVISORY_PACKAGES ''updateinfo packages'') (\<lambda>_.
        let advisories = sort_key av_id (us_advisories s) in
        if any_window (=) (map av_id advisories) then Inl (MdXml ''duplicate advisory id'') else Inr advisories)))"

definition parse_updateinfo :: "xml_lib \<Rightarrow> bytes \<Rightarrow> (metadata_error, advisory list) result" where
  "parse_updateinfo L bs =
     bindR (foldR (update_step (xl_unescape L)) (xl_read L False bs) default_update_state) finish_updateinfo"

section \<open>What the reader promises\<close>

definition token_ok :: "string \<Rightarrow> bool" where
  "token_ok v \<longleftrightarrow> advisory_text_ok v \<and> \<not> has_whitespace v"

definition reference_ok :: "advisory_reference \<Rightarrow> bool" where
  "reference_ok r \<longleftrightarrow> token_ok (av_ref_id r) \<and> token_ok (av_ref_kind r) \<and> advisory_text_ok (av_ref_href r) \<and>
     (av_ref_title r = [] \<or> advisory_text_ok (av_ref_title r))"

definition package_tokens_ok :: "advisory_package \<Rightarrow> bool" where
  "package_tokens_ok p \<longleftrightarrow> list_all token_ok [av_pkg_name p, av_pkg_version p, av_pkg_release p, av_pkg_arch p]"

definition advisory_package_ok :: "advisory_package \<Rightarrow> bool" where
  "advisory_package_ok p \<longleftrightarrow> package_tokens_ok p \<and> token_ok (av_pkg_filename p) \<and> CHR ''/'' \<notin> set (av_pkg_filename p) \<and>
     \<not> contains_str (av_pkg_filename p) ''..''"

definition advisory_builder_ok :: "advisory \<Rightarrow> bool" where
  "advisory_builder_ok a \<longleftrightarrow> token_ok (av_kind a) \<and> token_ok (av_status a) \<and>
     list_all (\<lambda>v. v = [] \<or> advisory_text_ok v) [av_issued a, av_updated a, av_summary a, av_description a] \<and>
     list_all reference_ok (av_references a) \<and> list_all advisory_package_ok (av_packages a) \<and>
     length (av_references a) \<le> 100000 \<and> length (av_packages a) \<le> 100000"

definition advisory_ok :: "advisory \<Rightarrow> bool" where
  "advisory_ok a \<longleftrightarrow> advisory_builder_ok a \<and> token_ok (av_id a) \<and> advisory_text_ok (av_title a) \<and> token_ok (av_severity a) \<and>
     av_packages a \<noteq> [] \<and> sorted_wrt (<) (map advisory_package_key (av_packages a)) \<and>
     sorted_wrt (<) (map reference_key (av_references a))"

lemma validate_advisory_text_iff: "validate_advisory_text v k = Inr u \<longleftrightarrow> advisory_text_ok v"
  by (simp add: validate_advisory_text_def)

lemma validate_token_iff: "validate_token v k = Inr u \<longleftrightarrow> token_ok v"
  by (simp add: validate_token_def bindR_eq_Inr validate_advisory_text_iff token_ok_def)

lemma advisory_set_once_iff:
  "advisory_set_once c v k b = Inr x \<longleftrightarrow> c = [] \<and> (if b then token_ok v else advisory_text_ok v) \<and> x = v"
  by (auto simp: advisory_set_once_def bindR_eq_Inr validate_advisory_text_iff validate_token_iff)

lemma sort_dedup_key:
  assumes "inj key"
  shows "sorted_wrt (<) (map key (remdups_adj (sort_key key xs)))"
proof -
  have "map key (remdups_adj (sort_key key xs)) = sort_dedup (map key xs)"
    using assms by (simp add: sort_dedup_def map_sort_key remdups_adj_map_injective flip: map_sort_key)
  then show ?thesis by simp
qed

lemma inj_reference_key: "inj reference_key"
  by (auto simp: inj_def reference_key_def intro: advisory_reference.equality)

lemma inj_advisory_package_key: "inj advisory_package_key"
  by (auto simp: inj_def advisory_package_key_def intro: advisory_package.equality)

lemmas advisory_limits = MAX_ADVISORIES_def MAX_ADVISORY_PACKAGES_def MAX_PACKAGES_PER_ADVISORY_def MAX_REFERENCES_PER_ADVISORY_def

lemma start_advisory_ok: "start_advisory t = Inr a \<Longrightarrow> advisory_builder_ok a"
  by (auto simp: start_advisory_def bindR_eq_Inr validate_token_iff advisory_builder_ok_def default_advisory_def)

lemma start_advisory_package_ok: "start_advisory_package t = Inr p \<Longrightarrow> package_tokens_ok p"
  by (auto simp: start_advisory_package_def bindR_eq_Inr validate_token_iff package_tokens_ok_def forR_eq_Inr simp del: forR.simps)

lemma push_reference_Inr:
  assumes "push_reference t a = Inr a'"
  obtains r where "reference_ok r" "length (av_references a) < 100000" "a' = a\<lparr>av_references := av_references a @ [r]\<rparr>"
proof -
  have max: "checked_len xs MAX_REFERENCES_PER_ADVISORY k = Inr u \<longleftrightarrow> length xs \<le> 100000" for xs :: "advisory_reference list" and k u
    by (simp add: advisory_limits checked_len_iff)
  from assms obtain ident kind href v where
    ok: "token_ok ident" "token_ok kind" "advisory_text_ok href"
      "(case v of None \<Rightarrow> [] | Some w \<Rightarrow> w) \<noteq> [] \<longrightarrow> advisory_text_ok (case v of None \<Rightarrow> [] | Some w \<Rightarrow> w)"
    and len: "length (av_references a) < 100000"
    and a': "a' = a\<lparr>av_references := av_references a @
      [\<lparr>av_ref_id = ident, av_ref_kind = kind, av_ref_href = href, av_ref_title = (case v of None \<Rightarrow> [] | Some w \<Rightarrow> w)\<rparr>]\<rparr>"
    by (simp only: push_reference_def bindR_eq_Inr Let_def validate_token_iff validate_advisory_text_iff max
      if_split_eq1 length_append list.size sum.inject sum.distinct) (elim exE conjE, simp)
  show thesis
    by (rule that [OF _ len a']) (use ok in \<open>auto simp: reference_ok_def\<close>)
qed

lemma push_reference_ok:
  assumes "advisory_builder_ok a" "push_reference t a = Inr a'"
  shows "advisory_builder_ok a'"
  using assms(2) by (rule push_reference_Inr) (use assms(1) in \<open>simp add: advisory_builder_ok_def\<close>)

lemma finish_advisory_package_ok: "package_tokens_ok p \<Longrightarrow> finish_advisory_package p = Inr q \<Longrightarrow> advisory_package_ok q"
  by (auto simp: finish_advisory_package_def bindR_eq_Inr validate_token_iff advisory_package_ok_def split: if_splits)

lemma remdups_adj_sort_key_set: "set (remdups_adj (sort_key k xs)) = set xs" "length (remdups_adj (sort_key k xs)) \<le> length xs"
  using remdups_adj_length [of "sort_key k xs"] by simp_all

lemma finish_advisory_ok:
  assumes "advisory_builder_ok a" "finish_advisory a = Inr b"
  shows "advisory_ok b"
proof -
  define references packages severity where "references = remdups_adj (sort_key reference_key (av_references a))"
    and "packages = remdups_adj (sort_key advisory_package_key (av_packages a))"
    and "severity = (if av_severity a = [] then ''None'' else av_severity a)"
  have b: "b = a\<lparr>av_severity := severity, av_references := references, av_packages := packages\<rparr>"
    and ok: "token_ok (av_id a)" "advisory_text_ok (av_title a)" "token_ok severity" "packages \<noteq> []"
    using assms(2) by (simp_all add: finish_advisory_def bindR_eq_Inr Let_def validate_token_iff validate_advisory_text_iff
      references_def packages_def severity_def if_Inl_eq_Inr)
  have "sorted_wrt (<) (map reference_key references)" "sorted_wrt (<) (map advisory_package_key packages)"
    unfolding references_def packages_def by (rule sort_dedup_key inj_reference_key inj_advisory_package_key)+
  moreover have "set references = set (av_references a)" "length references \<le> length (av_references a)"
    "set packages = set (av_packages a)" "length packages \<le> length (av_packages a)"
    unfolding references_def packages_def by (rule remdups_adj_sort_key_set)+
  ultimately show ?thesis using ok assms(1)
    by (simp add: b advisory_ok_def advisory_builder_ok_def list_all_iff)
qed

definition update_state_ok :: "update_state \<Rightarrow> bool" where
  "update_state_ok s \<longleftrightarrow> list_all advisory_ok (us_advisories s) \<and> length (us_advisories s) \<le> 250000 \<and>
     pred_option advisory_builder_ok (us_advisory s) \<and> pred_option package_tokens_ok (us_package s)"

lemma update_state_ok_default: "update_state_ok default_update_state"
  by (simp add: update_state_ok_def default_update_state_def)

lemma update_state_ok_advisory: "update_state_ok s \<Longrightarrow> advisory_builder_ok a \<Longrightarrow> update_state_ok (s\<lparr>us_advisory := Some a\<rparr>)"
  by (simp add: update_state_ok_def)

lemma update_state_ok_package: "update_state_ok s \<Longrightarrow> package_tokens_ok p \<Longrightarrow> update_state_ok (s\<lparr>us_package := Some p\<rparr>)"
  by (simp add: update_state_ok_def)

lemma update_state_ok_open: "update_state_ok s \<Longrightarrow> update_open t s = Inr s' \<Longrightarrow> update_state_ok s'"
  by (auto simp: update_open_def bindR_eq_Inr dest: start_advisory_ok start_advisory_package_ok
    intro: update_state_ok_advisory update_state_ok_package split: if_splits)

lemma update_state_ok_start:
  assumes "update_state_ok s" "update_start t s = Inr s'"
  shows "update_state_ok s'"
proof -
  from assms(2) obtain u x y where "update_open t s = Inr u" "s' = u\<lparr>us_text := x, us_stack := y\<rparr>"
    by (simp add: update_start_def bindR_eq_Inr if_Inl_eq_Inr) metis
  with update_state_ok_open [OF assms(1)] show ?thesis by (simp add: update_state_ok_def)
qed

lemma update_state_ok_empty:
  assumes ok: "update_state_ok s" and step: "update_empty t s = Inr s'"
  shows "update_state_ok s'"
proof -
  have a: "advisory_builder_ok a" if "us_advisory s = Some a" for a using that ok by (simp add: update_state_ok_def)
  have date: "advisory_builder_ok (a\<lparr>av_issued := v\<rparr>)" "advisory_builder_ok (a\<lparr>av_updated := v\<rparr>)"
    if "advisory_builder_ok a" "advisory_text_ok v" for a v using that by (simp_all add: advisory_builder_ok_def)
  show ?thesis using step ok
    by (auto simp: update_empty_def bindR_eq_Inr required_advisory_def ok_or_eq_Inr set_date_def advisory_set_once_iff
      intro!: update_state_ok_advisory date dest: a push_reference_ok split: if_splits)
qed

lemma update_state_ok_text:
  assumes ok: "update_state_ok s" and step: "finish_advisory_text target v s = Inr s'"
  shows "update_state_ok s'"
proof -
  have a: "advisory_builder_ok a" if "us_advisory s = Some a" for a using that ok by (simp add: update_state_ok_def)
  have p: "package_tokens_ok q" if "us_package s = Some q" for q using that ok by (simp add: update_state_ok_def)
  have fields: "advisory_builder_ok (a\<lparr>av_id := v\<rparr>) = advisory_builder_ok a" "advisory_builder_ok (a\<lparr>av_title := v\<rparr>) = advisory_builder_ok a"
    "advisory_builder_ok (a\<lparr>av_severity := v\<rparr>) = advisory_builder_ok a" for a v by (simp_all add: advisory_builder_ok_def)
  have texts: "advisory_builder_ok (a\<lparr>av_summary := v\<rparr>)" "advisory_builder_ok (a\<lparr>av_description := v\<rparr>)"
    if "advisory_builder_ok a" "advisory_text_ok v" for a v using that by (simp_all add: advisory_builder_ok_def)
  have name: "package_tokens_ok (q\<lparr>av_pkg_filename := v\<rparr>) = package_tokens_ok q" for q v by (simp add: package_tokens_ok_def)
  show ?thesis using step ok
    by (cases target) (auto simp: bindR_eq_Inr required_advisory_def ok_or_eq_Inr advisory_set_once_iff fields name
      intro!: update_state_ok_advisory update_state_ok_package texts dest: a p)
qed

lemma update_state_ok_close:
  assumes ok: "update_state_ok s" and step: "update_close name s = Inr s'"
  shows "update_state_ok s'"
proof -
  have max: "unat MAX_ADVISORIES = 250000" "unat MAX_PACKAGES_PER_ADVISORY = 100000" by (simp_all add: advisory_limits)
  show ?thesis
  proof (cases "name = ''package''")
    case True
    obtain p q a where p: "us_package s = Some p" "finish_advisory_package p = Inr q" "us_advisory s = Some a"
      "length (av_packages a) < 100000" "s' = s\<lparr>us_package := None, us_advisory := Some (a\<lparr>av_packages := av_packages a @ [q]\<rparr>)\<rparr>"
      using step max by (simp add: True update_close_def bindR_eq_Inr ok_or_eq_Inr required_advisory_def Let_def checked_len_iff)
        (elim exE conjE, simp)
    have "advisory_builder_ok a" "package_tokens_ok p" using ok p(1,3) by (simp_all add: update_state_ok_def)
    then have "advisory_builder_ok (a\<lparr>av_packages := av_packages a @ [q]\<rparr>)"
      using finish_advisory_package_ok [OF _ p(2)] p(4) by (simp add: advisory_builder_ok_def)
    with ok p(5) show ?thesis by (simp add: update_state_ok_def)
  next
    case other: False
    show ?thesis
    proof (cases "name = ''update''")
      case True
      obtain a b where a: "us_advisory s = Some a" "finish_advisory a = Inr b" "length (us_advisories s) < 250000"
        "s' = s\<lparr>us_advisory := None, us_advisories := us_advisories s @ [b]\<rparr>"
        using step max by (simp add: True update_close_def bindR_eq_Inr ok_or_eq_Inr Let_def checked_len_iff if_Inl_eq_Inr)
          (elim exE conjE, simp)
      have "advisory_builder_ok a" using ok a(1) by (simp add: update_state_ok_def)
      then have "advisory_ok b" using a(2) by (rule finish_advisory_ok)
      with ok a show ?thesis by (simp add: update_state_ok_def)
    next
      case False
      then show ?thesis using ok step other by (auto simp: update_close_def update_state_ok_def split: if_splits)
    qed
  qed
qed

lemma update_state_ok_end:
  assumes "update_state_ok s" "update_end name s = Inr s'"
  shows "update_state_ok s'"
proof -
  from assms(2) obtain stack u where close: "update_close name u = Inr s'"
    and u: "(case us_text s of None \<Rightarrow> Inr (s\<lparr>us_stack := stack\<rparr>)
      | Some (target, v) \<Rightarrow> finish_advisory_text target (trim v) (s\<lparr>us_stack := stack, us_text := None\<rparr>)) = Inr u"
    by (cases "us_stack s") (simp_all add: update_end_def bindR_eq_Inr if_Inl_eq_Inr, elim exE conjE, simp)
  have "update_state_ok (s\<lparr>us_stack := stack\<rparr>)" "update_state_ok (s\<lparr>us_stack := stack, us_text := None\<rparr>)"
    using assms(1) by (simp_all add: update_state_ok_def)
  then have "update_state_ok u"
    using u by (cases "us_text s") (auto intro: update_state_ok_text)
  then show ?thesis using close by (rule update_state_ok_close)
qed

lemma update_state_ok_step:
  assumes ok: "update_state_ok s" and step: "update_step unesc e s = Inr s'"
  shows "update_state_ok s'"
proof -
  have piece: "update_state_ok s'" if "advisory_append v tv s = Inr s'" for v tv
    using that ok by (auto simp: advisory_append_def bindR_eq_Inr update_state_ok_def)
  have declared: "update_state_ok (s\<lparr>us_declaration_seen := True\<rparr>)" using ok by (simp add: update_state_ok_def)
  show ?thesis using step ok declared
    by (cases e) (auto simp: bindR_eq_Inr intro: piece update_state_ok_start update_state_ok_empty update_state_ok_end
      split: option.splits if_splits)
qed

lemma parse_updateinfo_ok:
  assumes "parse_updateinfo L bs = Inr advisories"
  shows "list_all advisory_ok advisories \<and> sorted_wrt (<) (map av_id advisories) \<and> length advisories \<le> 250000 \<and>
    sum_list (map (\<lambda>a. length (av_packages a)) advisories) \<le> 4000000"
proof -
  from assms obtain s where fold: "foldR (update_step (xl_unescape L)) (xl_read L False bs) default_update_state = Inr s"
    and finish: "finish_updateinfo s = Inr advisories" by (auto simp: parse_updateinfo_def bindR_eq_Inr)
  have ok: "update_state_ok s"
    using fold update_state_ok_default update_state_ok_step by (rule foldR_invariant [where P = update_state_ok])
  have c: "advisories = sort_key av_id (us_advisories s)" "\<not> any_window (=) (map av_id advisories)"
    using finish by (auto simp: finish_updateinfo_def bindR_eq_Inr Let_def split: if_splits)
  obtain n where n: "try_sum 0 (map (\<lambda>a. len_u64 (av_packages a)) (us_advisories s)) = Some n" "n \<le> MAX_ADVISORY_PACKAGES"
    using finish by (auto simp: finish_updateinfo_def bindR_eq_Inr ok_or_eq_Inr checked_limit_iff split: if_splits)
  have "length (av_packages a) = unat (len_u64 (av_packages a))" if "a \<in> set (us_advisories s)" for a
  proof -
    have "advisory_ok a" using that ok by (simp add: update_state_ok_def list_all_iff)
    then show ?thesis by (simp add: advisory_ok_def advisory_builder_ok_def unat_len_u64)
  qed
  then have sum: "sum_list (map (\<lambda>a. length (av_packages a)) (us_advisories s))
    = sum_list (map (unat \<circ> (\<lambda>a. len_u64 (av_packages a))) (us_advisories s))"
    by (intro arg_cong [of _ _ sum_list] map_cong) auto
  have "unat n = sum_list (map (\<lambda>a. length (av_packages a)) (us_advisories s))"
    using n(1) unfolding sum by (simp add: try_sum_Some)
  moreover have "unat n \<le> 4000000" using n(2) by (simp add: word_le_nat_alt advisory_limits)
  moreover have "sum_list (map (\<lambda>a. length (av_packages a)) advisories) = sum_list (map (\<lambda>a. length (av_packages a)) (us_advisories s))"
    unfolding c(1) by (simp flip: sum_mset_sum_list)
  moreover have "sorted_wrt (<) (map av_id advisories)"
    using c any_window_eq_sorted [of "map av_id advisories"] by (simp add: strict_sorted_iff)
  ultimately show ?thesis using ok by (simp add: c(1) update_state_ok_def list_all_iff)
qed

text \<open>
  Dates and references are only read from empty-element tags: the same element written with a start and an end tag leaves
  the advisory as it was, although XML does not distinguish the two.
\<close>

lemma start_tag_form_ignored:
  assumes "xt_name t \<in> {''issued'', ''updated'', ''reference''}"
    "foldR (update_step unesc) [XStart ns t, XEnd (xt_name t)] s = Inr s'"
  shows "us_advisory s' = us_advisory s \<and> us_package s' = us_package s"
  using assms
  by (auto simp: bindR_eq_Inr update_start_def update_open_def update_end_def update_close_def advisory_text_target_def
    split: if_splits)

lemma empty_tag_form_read:
  "update_step unesc (XEmpty ns \<lparr>xt_name = ''issued'', xt_attributes = [Inr (''date'', Inr ''2024-01-01'')]\<rparr>)
     (default_update_state\<lparr>us_stack := [''update'', ''updates''], us_advisory := Some default_advisory\<rparr>)
   = Inr (default_update_state\<lparr>us_stack := [''update'', ''updates''],
       us_advisory := Some (default_advisory\<lparr>av_issued := ''2024-01-01''\<rparr>)\<rparr>)"
  by code_simp

end
