(* ===== verification/Spec2Isabelle.thy ===== *)
theory Spec2Isabelle
  imports Core_Trust Core_Inventory Core_Plan Core_Journal State_Recovery State_Log State_Group
    State_Reason Solver_Plan Solver_Native Repo_Loader Repo_Source Planning_Digest Metadata_Repomd
    Metadata_Primary_Exact Metadata_Scan_Exact Metadata_Updateinfo
begin

text \<open>
  A verification library for dnfast, a package manager for Fedora written in Rust
  (\<^verbatim>\<open>crates/\<close>) around libsolv and librpm. It models the pure core of the program as HOL functions
  and its persistent state as programs over a model of the system calls they make.

  \<^bold>\<open>The program and its parts.\<close> A transaction starts as an intent (\<^verbatim>\<open>dnfast-core\<close>), is solved by
  libsolv behind a C interface, and comes back as columns of strings that \<^verbatim>\<open>dnfast-solver\<close> checks
  against the repository metadata and turns into an explained, canonical plan. A privileged
  executor re-solves, compares the plan bytes, and runs RPM; \<^verbatim>\<open>dnfast-state\<close> journals each phase,
  recovers after a crash, and keeps the group and reason databases. The remaining crates read
  configuration and metadata, refresh and cache repositories, and drive the native library.

  \<^bold>\<open>Theories and sources.\<close>
  \<^item> \<open>Dnf_Prelude\<close>, \<open>Dnf_Text\<close>, \<open>Dnf_Lines\<close>: machine integers, \<^verbatim>\<open>Result\<close> with early return, loops that
    may leave early, \<^verbatim>\<open>BTreeMap\<close> and \<^verbatim>\<open>BTreeSet\<close> as ordered lists, UTF-8, decimal numbers, string
    search, paths, lines and words.
  \<^item> \<open>Core_Value\<close>, \<open>Core_Canonical\<close>, \<open>Core_Intent\<close>, \<open>Core_Trust\<close>, \<open>Core_Policy\<close>, \<open>Core_Inventory\<close>,
    \<open>Core_Integrity\<close>, \<open>Core_Plan\<close>, \<open>Core_Journal\<close>: the files of \<^verbatim>\<open>dnfast-core/src\<close> with those names;
    every constructor, check and comparison is a function of the same name or with the type's name
    in front of it (\<open>intent_new\<close> for \<^verbatim>\<open>TransactionIntent::new\<close>).
  \<^item> \<open>State_Kernel\<close>, \<open>State_Fs\<close>, \<open>State_Store\<close>, \<open>State_Recovery\<close>, \<open>State_Log\<close>, \<open>State_Document\<close>,
    \<open>State_Group\<close>, \<open>State_Reason\<close>: \<^verbatim>\<open>dnfast-state/src\<close>: the system calls and fault points, \<^verbatim>\<open>fs.rs\<close>,
    \<^verbatim>\<open>model.rs\<close> and \<^verbatim>\<open>store.rs\<close>, \<^verbatim>\<open>recovery.rs\<close>, \<^verbatim>\<open>log.rs\<close>, what \<^verbatim>\<open>group.rs\<close> and \<^verbatim>\<open>reason.rs\<close> share, and
    these two.
  \<^item> \<open>Metadata_Model\<close>, \<open>Metadata_Xml\<close>, \<open>Metadata_Repomd\<close>, \<open>Metadata_Primary\<close>, \<open>Metadata_Primary_Exact\<close>,
    \<open>Metadata_Filelists\<close>, \<open>Metadata_Scan\<close>, \<open>Metadata_Scan_Exact\<close>, \<open>Metadata_Comps\<close>,
    \<open>Metadata_Updateinfo\<close>: \<^verbatim>\<open>dnfast-metadata/src\<close>: the relation and package
    types; errors, limits, attributes and texts; \<^verbatim>\<open>repomd.rs\<close>; \<^verbatim>\<open>primary.rs\<close> and \<^verbatim>\<open>search.rs\<close>, with the round trip in a
    theory of its own; \<^verbatim>\<open>filelists.rs\<close>, its event reader and its byte scanner, with the documents of the scanner in a
    theory of their own; the groups of \<^verbatim>\<open>comps.rs\<close> and the advisories of \<^verbatim>\<open>updateinfo.rs\<close>. A reader is the fold of a step over the events of the document.
  \<^item> \<open>Solver_Model\<close>, \<open>Solver_Preflight\<close>, \<open>Solver_Order\<close>, \<open>Solver_Plan\<close>, \<open>Solver_Native\<close>:
    \<^verbatim>\<open>dnfast-solver/src\<close>: \<^verbatim>\<open>model.rs\<close> and \<^verbatim>\<open>validation.rs\<close>, the two halves of \<^verbatim>\<open>preflight.rs\<close>, \<^verbatim>\<open>plan.rs\<close>
    and \<^verbatim>\<open>native_adapter.rs\<close>.
  \<^item> \<open>Repo_Variables\<close>, \<open>Repo_Config\<close>, \<open>Repo_Fs\<close>, \<open>Repo_Trust\<close>, \<open>Repo_Profile\<close>, \<open>Repo_Loader\<close>,
    \<open>Repo_Source\<close>: \<^verbatim>\<open>dnfast-repo/src\<close>: \<^verbatim>\<open>variables.rs\<close>, \<^verbatim>\<open>main_config.rs\<close>, \<^verbatim>\<open>anchored_fs.rs\<close>, \<^verbatim>\<open>trust.rs\<close>,
    \<^verbatim>\<open>profile.rs\<close>, the lenient reader (\<^verbatim>\<open>model.rs\<close>, \<^verbatim>\<open>parser.rs\<close>, \<^verbatim>\<open>refresh_policy.rs\<close>, \<^verbatim>\<open>loader.rs\<close>) and
    \<^verbatim>\<open>source_loader.rs\<close>, over a read-only tree of nodes with owner, mode, links and content.
  \<^item> \<open>Planning_Catalog\<close>, \<open>Planning_Module\<close>: \<^verbatim>\<open>dnfast-planning/src/modulemd.rs\<close>: the catalog of module
    streams and the module state of a root.
  \<^item> \<open>Planning_Fs\<close>, \<open>Planning_Snapshot\<close>, \<open>Planning_Digest\<close>: \<^verbatim>\<open>fs.rs\<close> and \<^verbatim>\<open>snapshot_store.rs\<close> as far as they read,
    \<^verbatim>\<open>model.rs\<close> with the snapshot and the digests of a plan, and what those digests determine.
  \<^item> \<open>Cache_Model\<close>: \<^verbatim>\<open>dnfast-cache/src\<close>: \<^verbatim>\<open>model.rs\<close> and the admission of downloads of \<^verbatim>\<open>artifact.rs\<close>.
  \<^item> this theory: properties that span components.

  \<^bold>\<open>Modelling conventions.\<close> A Rust \<^verbatim>\<open>String\<close> is the list of its UTF-8 bytes; \<^verbatim>\<open>u32\<close> and \<^verbatim>\<open>u64\<close> are words
  and their checked additions are written out; \<^verbatim>\<open>usize\<close> counters of in-memory lists are naturals.
  \<^verbatim>\<open>Result\<close> is a sum with the error on the left, and each crate's error type is a datatype. A derived
  \<^verbatim>\<open>Ord\<close> is the order of a tuple of the fields (\<open>evra_key\<close>, \<open>action_key\<close>). A loop is structural
  recursion, or a \<open>function\<close> with its termination proof (\<open>rpm_part_cmp\<close>, \<open>reach_loop\<close>, \<open>cycle_walk\<close>,
  \<open>order_loop\<close>, \<open>expand_loop\<close>, \<open>complete_loop\<close>); no definition of the model uses fuel, so that each is
  total. \<open>complete_fuel\<close> repeats one loop with a bound only to state how many iterations it takes.

  \<^bold>\<open>Parameters.\<close> Third-party code is a parameter: \<open>serde\<close> holds the JSON decoder and encoder of a
  document type (\<^verbatim>\<open>serde_json\<close>), \<open>sha\<close> is SHA-256, the process id and the user ids are fields of the
  environment, \<open>xml_lib\<close> holds the events that the reader of quick-xml yields for a document and its
  \<^verbatim>\<open>unescape\<close>; base64 and the parser of URLs are parameters of the snapshots. What the code relies on is
  stated where it is used: the hypothesis \<open>honest\<close> says that decoding an encoded document gives it back,
  \<open>unescape_plain\<close> that a text without an ampersand is unescaped to itself, \<open>unescape_xml\<close> also how the
  reference to the ampersand is.

  \<^bold>\<open>The system-call model\<close> (\<open>State_Kernel\<close>). A program of \<^verbatim>\<open>dnfast-state\<close> is a function of a world: its
  directories and files, the fault plan, the outcome of each system call to come, and whether the
  process is still alive. Every call may succeed, fail with an errno, or be the last one before a
  crash; theorems quantify over all outcomes. A world is calm when no call fails.

  \<^bold>\<open>Interfaces\<close> are locales, each interpreted on the model: \<open>ordered_map\<close> (\<open>btree\<close>), \<open>version_order\<close>
  for RPM version comparison (\<open>rpm\<close>) and for the order of candidates (\<open>candidate\<close>),
  \<open>canonical_document\<close> for each document type (\<open>intent_doc\<close>, \<open>plan_doc\<close> and others), \<open>state_file\<close> for
  a locked JSON document replaced atomically (\<open>group_file\<close>, \<open>reason_file\<close>), \<open>repo_invariant\<close> for what
  every step of a profile keeps of its repositories (\<open>secure\<close>).

  \<^bold>\<open>What the lemmas show.\<close>
  \<^item> Core: each constructor's exact domain and result; canonical JSON is injective and bounded; the
    version comparison is the order of token sequences and a strict weak order; a plan accepted
    for execution respects the policy and its intent.
  \<^item> State: journal records are written atomically under every failure and crash; the phases of a
    transaction occur in order; recovery is idempotent; the log is bounded; the group and reason
    files are always absent or complete and valid, and their contents are what the reference
    definitions say.
  \<^item> Solver: the preflight check accepts exactly the declarative conditions of \<open>validate_inputs_exact\<close>,
    with reachability as an inductive closure (\<open>justified\<close>); \<^verbatim>\<open>execution_order\<close> always returns a
    permutation that breaks a constraint only at a member of a cycle; a built plan explains every
    action once and is safe; pairing of native steps loses nothing and binds replacements to the
    one installed package; decisions checked once pass the second check; the native selectors
    cover the intent.
  \<^item> Repo: files and keys are read only through trusted directories; the parsers accept exactly the
    declarative shapes; no configuration, variable or option turns verification off; a key bundle's
    digest determines its content.
  \<^item> Planning: a catalog is exact and well-formed; mutations of the module state change what was
    asked for and what it requires, and end; exclusion follows the active streams exactly; an opened
    snapshot is the trusted file of the trusted pointer, and the digest of a plan determines the metadata.
  \<^item> Metadata: the readers of the repository index and of the primary metadata return only well-formed,
    bounded records and read back every document of such records; the file lists are compared with the
    primary metadata exactly, a visiting reader sees the paths a retaining one keeps, the two checks of
    a path agree, and the byte scanner finds the owners of a path whatever pieces it is fed with; groups,
    environments and advisories that are read are well-formed, bounded and in strictly ascending order.
  \<^item> Cache: downloads are admitted exactly within the limits of a transaction.
  \<^item> Each theorem about a deviation of the code from what it means to do says so in its text.

  \<^bold>\<open>Not modelled.\<close> The C library and its bindings (foreign code), the decompressors of \<^verbatim>\<open>dnfast-metadata\<close>
  (third-party decoders), network
  transport and OpenPGP, SQLite queries, process and namespace control of the executor, the command
  line, the publication of snapshots, the file-provides shards, the artifact store and the refresh
  orchestration. Failing allocations are not modelled either.
\<close>

section \<open>From the native solver to the plan builder\<close>

lemma assign_specs_ok:
  "assign_specs expected assigned as = Inr out \<Longrightarrow>
     distinct (map spec_str (List.map_filter na_requested_spec as))
     \<and> set (map spec_str (List.map_filter na_requested_spec as)) \<subseteq> expected
     \<and> set (map spec_str (List.map_filter na_requested_spec as)) \<inter> assigned = {}
     \<and> out = assigned \<union> set (map spec_str (List.map_filter na_requested_spec as))"
  by (induction expected assigned as rule: assign_specs.induct)
    (auto simp: List.map_filter_simps split: if_splits option.splits)

lemma satisfy_specs_ok:
  "satisfy_specs expected assigned satisfied specs = Inr out \<Longrightarrow>
     distinct (map spec_str specs) \<and> set (map spec_str specs) \<subseteq> expected
     \<and> set (map spec_str specs) \<inter> (assigned \<union> satisfied) = {} \<and> out = satisfied \<union> set (map spec_str specs)"
  by (induction expected assigned satisfied specs rule: satisfy_specs.induct) (auto split: if_splits)

lemma resolve_native_selector:
  "resolve_native expected candidates decisions inventory a = Inr r \<Longrightarrow>
     requested_selector r = map_option spec_str (na_requested_spec a)"
  by (auto simp: resolve_native_def Let_def bindR_eq_Inr requested_selector_def split: prod.splits)

lemma map_filter_mapR:
  assumes "mapR f xs = Inr ys" "\<And>x y. f x = Inr y \<Longrightarrow> g y = map_option h (k x)"
  shows "List.map_filter g ys = map h (List.map_filter k xs)"
  using assms(1)
  by (induction xs arbitrary: ys)
    (auto simp: bindR_eq_Inr List.map_filter_simps dest!: assms(2) split: option.splits)

lemma parse_selectors: "mapR (parse_selector m) xs = Inr specs \<Longrightarrow> map spec_str specs = xs"
  by (induction xs arbitrary: specs)
    (auto simp: bindR_eq_Inr parse_selector_def map_err_eq_Inr spec_parse_def split: if_splits)

text \<open>
  Property C23. The selector bookkeeping of the native adapter is enough for the preflight check:
  when \<^verbatim>\<open>into_resolved\<close> returns, the selectors its actions carry and those the solver reported as
  satisfied already are the requested selectors, each exactly once, so the intent coverage that
  \<^verbatim>\<open>validate_inputs\<close> asks for holds.
\<close>

theorem native_selectors_cover_intent:
  assumes "into_resolved_evidence output requested candidates metadata inventory = Inr resolved"
  shows "distinct (covered_selectors resolved (no_satisfied_specs output))
    \<and> set (covered_selectors resolved (no_satisfied_specs output)) = set requested"
proof -
  from assms obtain specs assigned satisfied where
    specs: "mapR (parse_selector ''requested selector is invalid'') requested = Inr specs"
    and a: "assign_specs (set (map spec_str specs)) {} (no_actions output) = Inr assigned"
    and s: "satisfy_specs (set (map spec_str specs)) assigned {} (no_satisfied_specs output) = Inr satisfied"
    and card: "card assigned + card satisfied = card (set (map spec_str specs))"
    and m: "mapR (resolve_native (set (map spec_str specs)) candidates (no_decisions output) inventory)
        (no_actions output) = Inr resolved"
    by (auto simp: into_resolved_evidence_def Let_def bindR_eq_Inr split: if_splits)
  have r: "map spec_str specs = requested" by (rule parse_selectors [OF specs])
  let ?a = "map spec_str (List.map_filter na_requested_spec (no_actions output))"
  let ?s = "map spec_str (no_satisfied_specs output)"
  have sel: "List.map_filter requested_selector resolved = ?a"
    by (rule map_filter_mapR [OF m resolve_native_selector])
  note A = assign_specs_ok [OF a] and S = satisfy_specs_ok [OF s]
  have fin: "finite assigned" "finite satisfied" using A S by simp_all
  have "card (assigned \<union> satisfied) = card (set requested)"
    using card r A S fin by (simp add: card_Un_disjoint inf_commute)
  moreover have "assigned \<union> satisfied \<subseteq> set requested" using A S r by auto
  ultimately have "assigned \<union> satisfied = set requested" by (simp add: card_subset_eq)
  then show ?thesis using A S sel by (auto simp: covered_selectors_def)
qed


definition example_output :: native_solve_output where
  "example_output = \<lparr>no_source_transcript_sha256 = replicate 64 (CHR ''d''),
     no_actions = (case example_paired of a # as \<Rightarrow> a\<lparr>na_requested_spec := Some (PackageSpec ''bash'')\<rparr> # as | [] \<Rightarrow> []),
     no_decisions = [example_decision], no_satisfied_specs = [PackageSpec ''vim'']\<rparr>"

definition example_bash :: candidate_package where
  "example_bash = (example_candidate ''bash'')\<lparr>cp_evra := evra_new 0 ''2'' ''1'' X86_64\<rparr>"

lemma example_into_resolved:
  "map_sum id (map ra_name) (into_resolved_evidence example_output [''bash'', ''vim''] [example_bash]
     example_evidence example_inventory) = Inr [''bash'', ''vim'']"
  by code_simp

theorem native_selectors_cover_intent_witness:
  "\<exists>resolved. into_resolved_evidence example_output [''bash'', ''vim''] [example_bash] example_evidence
       example_inventory = Inr resolved
     \<and> set (covered_selectors resolved (no_satisfied_specs example_output)) = {''bash'', ''vim''}"
proof -
  obtain resolved where r: "into_resolved_evidence example_output [''bash'', ''vim''] [example_bash]
      example_evidence example_inventory = Inr resolved"
    using map_sum_InrD [OF example_into_resolved] by blast
  then show ?thesis using native_selectors_cover_intent [OF r] by auto
qed

end
